(* ===== verification/Prelude.thy ===== *)
theory Prelude
  imports Main "HOL-Library.Word" "HOL-Library.List_Lexorder" "HOL-Library.Char_ord"
begin

text \<open>
  What every component of the model shares.

  \<^item> \<open>exn\<close> and \<open>outcome\<close>: a C++ call either returns or leaves by an exception; the
    handlers of the code tell \<open>std::bad_alloc\<close> from everything else, and so does \<open>exn\<close>.
  \<^item> \<open>throws\<close>: which \<open>try\<close> blocks throw. A function whose body stands in a \<open>try\<close> block
    takes a value \<open>h :: throws\<close>; \<open>h s\<close> says whether some allocation (or other library
    call) inside the block named \<open>s\<close> throws during the call. \<open>catch_all\<close> is the pair of
    handlers \<open>catch (bad_alloc) / catch (...)\<close> and \<open>catch_alloc\<close> the single handler of a
    block that only allocates.
  \<^item> \<open>size_t\<close>: \<open>std::size_t\<close> and \<open>std::uint64_t\<close> are 64 bits wide on the targets the
    code is built for with wrap-around; a C++ \<open>int\<close> or \<open>int64_t\<close> is an \<open>int\<close> of HOL
    together with the range predicates \<open>is_int32\<close> and \<open>is_int64\<close>, where it matters.
  \<^item> general facts on lists and options that several components use.
\<close>

named_theorems guard_simps \<open>unfold the guards of an operation\<close>

datatype exn = Bad_alloc | Other_exn

datatype 'a outcome = Ret 'a | Throw exn

type_synonym size_t = "64 word"

definition is_int32 :: "int \<Rightarrow> bool" where
  "is_int32 i \<longleftrightarrow> - (2 ^ 31) \<le> i \<and> i < 2 ^ 31"

definition is_int64 :: "int \<Rightarrow> bool" where
  "is_int64 i \<longleftrightarrow> - (2 ^ 63) \<le> i \<and> i < 2 ^ 63"

text \<open>\<open>static_cast<std::size_t>\<close> of a signed integer, and \<open>x / y\<close>, \<open>x % y\<close> of signed
  integers, which truncate towards zero.\<close>

definition size_of_int :: "int \<Rightarrow> size_t" where
  "size_of_int i = word_of_int i"

definition c_div :: "int \<Rightarrow> int \<Rightarrow> int" where
  "c_div a b = sgn a * sgn b * (\<bar>a\<bar> div \<bar>b\<bar>)"

definition c_mod :: "int \<Rightarrow> int \<Rightarrow> int" where
  "c_mod a b = a - c_div a b * b"

lemma c_div_nonneg [simp]: "0 \<le> a \<Longrightarrow> 0 < b \<Longrightarrow> c_div a b = a div b"
  by (cases "a = 0") (simp_all add: c_div_def)

lemma c_mod_nonneg [simp]: "0 \<le> a \<Longrightarrow> 0 < b \<Longrightarrow> c_mod a b = a mod b"
  by (simp add: c_mod_def minus_div_mult_eq_mod)

lemma unat_size_of_int: "0 \<le> i \<Longrightarrow> is_int64 i \<Longrightarrow> unat (size_of_int i) = nat i"
  by (simp add: size_of_int_def is_int64_def unsigned_of_int take_bit_int_eq_self)

lemma is_int32_int64: "is_int32 i \<Longrightarrow> is_int64 i"
  by (simp add: is_int32_def is_int64_def)

subsection \<open>Lists\<close>

text \<open>\<open>list_all\<close> over indices, the shape in which the code's index loops come out.\<close>

lemma list_all_nth: "list_all P xs \<longleftrightarrow> (\<forall>i < length xs. P (xs ! i))"
  by (simp add: list_all_length)

lemma nth_update_cases: "i < length xs \<Longrightarrow> xs[j := x] ! i = (if j = i then x else xs ! i)"
  by simp

lemma sorted_wrt_less_distinct: "sorted_wrt (<) (xs :: 'a :: linorder list) \<Longrightarrow> distinct xs"
  by (induction xs) auto

lemma distinct_map_inj: "distinct (map f xs) \<Longrightarrow> x \<in> set xs \<Longrightarrow> y \<in> set xs \<Longrightarrow> f x = f y \<Longrightarrow> x = y"
  by (auto simp: distinct_map inj_on_def)

text \<open>Two increasing lists with the same elements are equal.\<close>

lemma sorted_less_unique:
  "sorted_wrt (<) (xs :: 'a :: linorder list) \<Longrightarrow> sorted_wrt (<) ys \<Longrightarrow> set xs = set ys \<Longrightarrow> xs = ys"
  by (metis sorted_distinct_set_unique strict_sorted_iff)

subsection \<open>Options\<close>

lemma option_ne_None: "x \<noteq> None \<longleftrightarrow> (\<exists>y. x = Some y)"
  by auto

end
