(* ===== verification/Status.thy ===== *)
theory Status
  imports Prelude
begin

text \<open>
  \<open>include/eavp/base\<close>: \<open>Status\<close>, \<open>Result<T>\<close>, \<open>StrongStringId\<close>, \<open>TimeBase\<close>.

  \<open>Result<T>\<close> is modelled twice. \<open>result_obj\<close> is the object of the code: a status and an
  owned value, with the moves and \<open>take_value\<close> that empty it. \<open>'a result\<close> is the value
  view the other components use (\<open>Inl\<close> the failure, \<open>Inr\<close> the value); \<open>abs_result\<close>
  relates the two and \<open>result_inv\<close> is the class invariant that makes it total.
\<close>

subsection \<open>Status\<close>

datatype status_code =
    kOk
  | kInvalidArgument
  | kInvalidState
  | kNotFound
  | kAlreadyExists
  | kUnsupported
  | kCapabilityMismatch
  | kResourceExhausted
  | kWouldBlock
  | kTimeout
  | kIoError
  | kInternal
  | kEndOfStream
  | kDeviceLost
  | kCorruptData

record status =
  st_code :: status_code
  st_message :: string
  st_provider_id :: string
  st_operation :: string
  st_native_code :: int
  st_has_native_code :: bool

definition status_of :: "status_code \<Rightarrow> status" where
  "status_of c = \<lparr>st_code = c, st_message = [], st_provider_id = [], st_operation = [],
     st_native_code = 0, st_has_native_code = False\<rparr>"

definition status_msg :: "status_code \<Rightarrow> string \<Rightarrow> status" where
  "status_msg c m = \<lparr>st_code = c, st_message = m, st_provider_id = [], st_operation = [],
     st_native_code = 0, st_has_native_code = False\<rparr>"

definition status_native :: "status_code \<Rightarrow> string \<Rightarrow> string \<Rightarrow> string \<Rightarrow> int \<Rightarrow> status" where
  "status_native c m p op n = \<lparr>st_code = c, st_message = m, st_provider_id = p,
     st_operation = op, st_native_code = n, st_has_native_code = True\<rparr>"

definition ok_status :: status where
  "ok_status = status_of kOk"

definition st_ok :: "status \<Rightarrow> bool" where
  "st_ok s \<longleftrightarrow> st_code s = kOk"

lemma code_status_of [simp]: "st_code (status_of c) = c"
  by (simp add: status_of_def)

lemma code_status_msg [simp]: "st_code (status_msg c m) = c"
  by (simp add: status_msg_def)

lemma message_status_msg [simp]: "st_message (status_msg c m) = m"
  by (simp add: status_msg_def)

lemma message_status_of [simp]: "st_message (status_of c) = []"
  by (simp add: status_of_def)

lemma code_status_native [simp]: "st_code (status_native c m p op n) = c"
  by (simp add: status_native_def)

lemma st_ok_status_of [simp]: "st_ok (status_of c) \<longleftrightarrow> c = kOk"
  by (simp add: st_ok_def)

lemma st_ok_status_msg [simp]: "st_ok (status_msg c m) \<longleftrightarrow> c = kOk"
  by (simp add: st_ok_def)

lemma st_ok_status_native [simp]: "st_ok (status_native c m p op n) \<longleftrightarrow> c = kOk"
  by (simp add: st_ok_def)

lemma st_ok_ok_status [simp]: "st_ok ok_status"
  by (simp add: ok_status_def)

lemma code_ok_status [simp]: "st_code ok_status = kOk"
  by (simp add: ok_status_def)

lemma not_ok_ne [simp]: "\<not> st_ok s \<Longrightarrow> s \<noteq> ok_status"
  by auto

lemma code_not_ok: "st_code s = c \<Longrightarrow> c \<noteq> kOk \<Longrightarrow> \<not> st_ok s"
  by (simp add: st_ok_def)

subsection \<open>Result as the object of the code\<close>

record 'a result_obj =
  r_status :: status
  r_value :: "'a option"

definition result_of_value :: "'a \<Rightarrow> 'a result_obj" where
  "result_of_value v = \<lparr>r_status = ok_status, r_value = Some v\<rparr>"

definition result_of_status :: "status \<Rightarrow> 'a result_obj" where
  "result_of_status s =
     \<lparr>r_status = (if st_ok s
                  then status_msg kInvalidArgument
                         ''a result without a value must contain a failure status''
                  else s),
      r_value = None\<rparr>"

definition r_ok :: "'a result_obj \<Rightarrow> bool" where
  "r_ok r \<longleftrightarrow> st_ok (r_status r)"

text \<open>The move constructor returns the new object and what is left of the old one.\<close>

definition result_move :: "'a result_obj \<Rightarrow> 'a result_obj \<times> 'a result_obj" where
  "result_move other =
     (\<lparr>r_status = r_status other, r_value = r_value other\<rparr>,
      \<lparr>r_status = status_msg kInvalidState ''result has been moved'', r_value = None\<rparr>)"

text \<open>Move assignment between two objects; \<open>self\<close> says that they are the same one.\<close>

definition result_move_assign ::
  "bool \<Rightarrow> 'a result_obj \<Rightarrow> 'a result_obj \<Rightarrow> 'a result_obj \<times> 'a result_obj" where
  "result_move_assign self this other =
     (if \<not> self
      then (\<lparr>r_status = r_status other, r_value = r_value other\<rparr>,
            \<lparr>r_status = status_msg kInvalidState ''result has been moved'', r_value = None\<rparr>)
      else (this, this))"

text \<open>\<open>value()\<close> and \<open>take_value()\<close> dereference the owned pointer; \<open>None\<close> is the null
  dereference that \<open>assert(ok())\<close> forbids.\<close>

definition result_value :: "'a result_obj \<Rightarrow> 'a option" where
  "result_value r = r_value r"

definition result_take_value :: "'a result_obj \<Rightarrow> ('a \<times> 'a result_obj) option" where
  "result_take_value r =
     (case r_value r of
        None \<Rightarrow> None
      | Some v \<Rightarrow> Some (v, \<lparr>r_status = status_of kInvalidState, r_value = None\<rparr>))"

definition result_inv :: "'a result_obj \<Rightarrow> bool" where
  "result_inv r \<longleftrightarrow> (r_ok r \<longleftrightarrow> r_value r \<noteq> None)"

text \<open>The objects that any sequence of the class's operations can leave behind.\<close>

inductive result_reachable :: "'a result_obj \<Rightarrow> bool" where
  from_value: "result_reachable (result_of_value v)"
| from_status: "result_reachable (result_of_status s)"
| moved_to: "result_reachable r \<Longrightarrow> result_reachable (fst (result_move r))"
| moved_from: "result_reachable r \<Longrightarrow> result_reachable (snd (result_move r))"
| assigned_to: "result_reachable r \<Longrightarrow> result_reachable r' \<Longrightarrow>
    result_reachable (fst (result_move_assign self r r'))"
| assigned_from: "result_reachable r \<Longrightarrow> result_reachable r' \<Longrightarrow>
    result_reachable (snd (result_move_assign self r r'))"
| taken: "result_reachable r \<Longrightarrow> result_take_value r = Some (v, r') \<Longrightarrow> result_reachable r'"

lemmas result_obj_defs = result_of_value_def result_of_status_def result_move_def
  result_move_assign_def result_take_value_def result_inv_def r_ok_def

lemma result_reachable_inv: "result_reachable r \<Longrightarrow> result_inv r"
  by (induction rule: result_reachable.induct)
     (auto simp: result_obj_defs split: option.splits)

text \<open>C40: class invariant of \<open>Result<T>\<close>. After any sequence of constructions, moves, move
  assignments (self assignment included) and \<open>take_value\<close> calls, \<open>ok()\<close> is true exactly when
  the object owns a value, so \<open>value()\<close> and \<open>take_value()\<close> behind the \<open>ok()\<close> test never
  dereference null, and a taken or moved-from result reports a failure.\<close>

theorem result_value_safe:
  assumes "result_reachable r"
  shows "(r_ok r \<longleftrightarrow> result_value r \<noteq> None)
    \<and> (r_ok r = (\<exists>v r'. result_take_value r = Some (v, r') \<and> result_value r = Some v \<and> \<not> r_ok r'))
    \<and> \<not> r_ok (snd (result_move r))"
proof -
  have "result_inv r"
    using assms by (rule result_reachable_inv)
  then show ?thesis
    by (auto simp: result_value_def result_obj_defs split: option.splits)
qed

theorem result_value_safe_witness:
  "r_ok (result_of_value (7 :: nat))
   \<and> (\<exists>v r'. result_take_value (result_of_value (7 :: nat)) = Some (v, r') \<and> \<not> r_ok r')"
proof -
  have "r_ok (result_of_value (7 :: nat))"
    by (simp add: result_of_value_def r_ok_def)
  then show ?thesis
    using result_value_safe [OF result_reachable.from_value [of "7 :: nat"]] by blast
qed

subsection \<open>Result as a value\<close>

type_synonym 'a result = "status + 'a"

definition abs_result :: "'a result_obj \<Rightarrow> 'a result" where
  "abs_result r = (case r_value r of Some v \<Rightarrow> Inr v | None \<Rightarrow> Inl (r_status r))"

definition err :: "status \<Rightarrow> 'a result" where
  "err s = Inl (if st_ok s
                then status_msg kInvalidArgument
                       ''a result without a value must contain a failure status''
                else s)"

definition res_status :: "'a result \<Rightarrow> status" where
  "res_status r = (case r of Inl s \<Rightarrow> s | Inr _ \<Rightarrow> ok_status)"

definition res_ok :: "'a result \<Rightarrow> bool" where
  "res_ok r \<longleftrightarrow> st_ok (res_status r)"

lemma abs_result_of_status: "abs_result (result_of_status s) = err s"
  by (simp add: abs_result_def result_of_status_def err_def)

lemma abs_result_of_value: "abs_result (result_of_value v) = Inr v"
  by (simp add: abs_result_def result_of_value_def)

lemma err_not_ok [simp]: "\<not> st_ok s \<Longrightarrow> err s = Inl s"
  by (simp add: err_def)

lemma err_ne_Inr [simp]: "err s \<noteq> Inr v" "Inr v \<noteq> err s"
  by (simp_all add: err_def)

lemma res_status_Inr [simp]: "res_status (Inr v) = ok_status"
  by (simp add: res_status_def)

lemma res_status_Inl [simp]: "res_status (Inl s) = s"
  by (simp add: res_status_def)

lemma res_ok_Inr [simp]: "res_ok (Inr v)"
  by (simp add: res_ok_def)

lemma res_ok_Inl [simp]: "res_ok (Inl s) \<longleftrightarrow> st_ok s"
  by (simp add: res_ok_def)

lemma err_fails [simp]: "\<not> st_ok (res_status (err s))"
  by (simp add: err_def)

subsection \<open>Handlers\<close>

text \<open>The \<open>try\<close> blocks of the code, one name per block.\<close>

datatype site =
    S_state_set | S_state_erase
  | S_health_report
  | S_domain_name | S_pixel_name
  | S_buffer_allocate1 | S_buffer_allocate | S_buffer_create | S_slice
  | S_audio_format | S_audio_frame | S_video_format | S_video_frame
  | S_processor_config | S_encoder_config | S_media_packet
  | S_actual_format | S_processor_negotiation | S_encoder_negotiation
  | S_processor_score | S_encoder_score
  | S_register | S_select_processor | S_select_encoder
  | S_ref_diagnostic | S_ref_alignment | S_ref_configure | S_ref_device_lost | S_ref_push
  | S_ref_pop | S_ref_encode | S_ref_packet | S_ref_probe | S_ref_create
  | S_alsa_config | S_v4l2_config
  | S_sim_nodes | S_sim_packet
  | S_alsa_partial | S_alsa_frame | S_alsa_poll
  | S_v4l2_planes | S_v4l2_negotiated | S_v4l2_regions | S_v4l2_poll | S_v4l2_formats | S_v4l2_actual
  | S_v4l2_frame | S_v4l2_create
  | S_media_provider | S_media_nodes | S_media_reconciler | S_media_storage | S_media_frame
  | S_media_publish | S_media_clear | S_runtime_create

type_synonym throws = "site \<Rightarrow> exn option"

definition no_throw :: throws where
  "no_throw = (\<lambda>_. None)"

lemma no_throw_apply [simp]: "no_throw s = None"
  by (simp add: no_throw_def)

definition handled :: "exn \<Rightarrow> status" where
  "handled e = (case e of Bad_alloc \<Rightarrow> status_of kResourceExhausted
                        | Other_exn \<Rightarrow> status_of kInternal)"

lemma handled_fails [simp]: "\<not> st_ok (handled e)"
  by (cases e) (simp_all add: handled_def)

definition catch_all :: "throws \<Rightarrow> site \<Rightarrow> 'a result \<Rightarrow> 'a result" where
  "catch_all h s body = (case h s of None \<Rightarrow> body | Some e \<Rightarrow> err (handled e))"

definition catch_alloc :: "throws \<Rightarrow> site \<Rightarrow> string \<Rightarrow> 'a result \<Rightarrow> 'a result" where
  "catch_alloc h s m body =
     (case h s of None \<Rightarrow> body | Some _ \<Rightarrow> err (status_msg kResourceExhausted m))"

lemma catch_all_Inr [simp]: "catch_all h s r = Inr v \<longleftrightarrow> h s = None \<and> r = Inr v"
  by (simp add: catch_all_def split: option.split)

lemma catch_alloc_Inr [simp]: "catch_alloc h s m r = Inr v \<longleftrightarrow> h s = None \<and> r = Inr v"
  by (simp add: catch_alloc_def split: option.split)

lemma catch_all_no_throw [simp]: "h s = None \<Longrightarrow> catch_all h s r = r"
  by (simp add: catch_all_def)

lemma catch_alloc_no_throw [simp]: "h s = None \<Longrightarrow> catch_alloc h s m r = r"
  by (simp add: catch_alloc_def)

subsection \<open>StrongStringId and TimeBase\<close>

record strong_id =
  id_value :: string

definition strong_id_create :: "string \<Rightarrow> strong_id result" where
  "strong_id_create v =
     (if v = [] then err (status_msg kInvalidArgument ''identifier must not be empty'')
      else Inr \<lparr>id_value = v\<rparr>)"

definition strong_id_eq :: "strong_id \<Rightarrow> strong_id \<Rightarrow> bool" where
  "strong_id_eq a b \<longleftrightarrow> id_value a = id_value b"

definition strong_id_less :: "strong_id \<Rightarrow> strong_id \<Rightarrow> bool" where
  "strong_id_less a b \<longleftrightarrow> id_value a < id_value b"

record time_base =
  tb_numerator :: int
  tb_denominator :: int

definition time_base_create :: "int \<Rightarrow> int \<Rightarrow> time_base result" where
  "time_base_create n d =
     (if d \<le> 0
      then err (status_msg kInvalidArgument ''time base denominator must be positive'')
      else Inr \<lparr>tb_numerator = n, tb_denominator = d\<rparr>)"

lemma time_base_create_Inr:
  "time_base_create n d = Inr t \<longleftrightarrow> 0 < d \<and> t = \<lparr>tb_numerator = n, tb_denominator = d\<rparr>"
  by (auto simp: time_base_create_def)

end
