(* ===== verification/Ordered_Map.thy ===== *)
theory Ordered_Map
  imports Prelude
begin

text \<open>
  \<open>std::map\<close> and \<open>std::set\<close> where the code iterates over them: association lists and
  lists in strictly increasing key order, so that the order of an iteration is the one the
  standard prescribes. \<open>std::string\<close> keys compare as \<open>string\<close>s do here (lexicographically
  by unsigned byte: \<open>List_Lexorder\<close> and \<open>Char_ord\<close>). Maps the code only looks up are
  modelled as functions instead.

  The locale \<open>std_map\<close> is the contract the clients rely on; \<open>omap\<close> is interpreted in it.
\<close>

type_synonym ('k, 'v) omap = "('k \<times> 'v) list"

fun omap_find :: "('k :: linorder, 'v) omap \<Rightarrow> 'k \<Rightarrow> 'v option" where
  "omap_find [] k = None"
| "omap_find (e # m) k = (if fst e = k then Some (snd e) else omap_find m k)"

fun omap_put :: "'k :: linorder \<Rightarrow> 'v \<Rightarrow> ('k, 'v) omap \<Rightarrow> ('k, 'v) omap" where
  "omap_put k v [] = [(k, v)]"
| "omap_put k v (e # m) =
     (if fst e = k then (k, v) # m
      else if k < fst e then (k, v) # e # m
      else e # omap_put k v m)"

definition omap_erase :: "'k :: linorder \<Rightarrow> ('k, 'v) omap \<Rightarrow> ('k, 'v) omap" where
  "omap_erase k m = filter (\<lambda>e. fst e \<noteq> k) m"

definition omap_keys :: "('k :: linorder, 'v) omap \<Rightarrow> 'k list" where
  "omap_keys m = map fst m"

definition omap_invar :: "('k :: linorder, 'v) omap \<Rightarrow> bool" where
  "omap_invar m \<longleftrightarrow> sorted_wrt (<) (map fst m)"

subsection \<open>The contract\<close>

locale std_map =
  fixes empty :: "'m"
    and find :: "'m \<Rightarrow> 'k :: linorder \<Rightarrow> 'v option"
    and put :: "'k \<Rightarrow> 'v \<Rightarrow> 'm \<Rightarrow> 'm"
    and erase :: "'k \<Rightarrow> 'm \<Rightarrow> 'm"
    and keys :: "'m \<Rightarrow> 'k list"
    and invar :: "'m \<Rightarrow> bool"
  assumes invar_empty: "invar empty"
    and invar_put: "invar m \<Longrightarrow> invar (put k v m)"
    and invar_erase: "invar m \<Longrightarrow> invar (erase k m)"
    and find_empty: "find empty x = None"
    and find_put: "invar m \<Longrightarrow> find (put k v m) x = (if x = k then Some v else find m x)"
    and find_erase: "invar m \<Longrightarrow> find (erase k m) x = (if x = k then None else find m x)"
    and keys_find: "invar m \<Longrightarrow> x \<in> set (keys m) \<longleftrightarrow> find m x \<noteq> None"
    and keys_sorted: "invar m \<Longrightarrow> sorted_wrt (<) (keys m)"
begin

lemma set_keys: "invar m \<Longrightarrow> set (keys m) = {x. find m x \<noteq> None}"
  using keys_find by blast

lemma keys_distinct: "invar m \<Longrightarrow> distinct (keys m)"
  by (rule sorted_wrt_less_distinct) (rule keys_sorted)

text \<open>The order of an iteration depends on the contents alone, not on the history.\<close>

lemma keys_determined:
  "invar m \<Longrightarrow> invar m' \<Longrightarrow> (\<And>x. find m x \<noteq> None \<longleftrightarrow> find m' x \<noteq> None) \<Longrightarrow> keys m = keys m'"
  by (rule sorted_less_unique) (simp_all add: keys_sorted set_keys)

lemma put_commute_find:
  "invar m \<Longrightarrow> k \<noteq> k' \<Longrightarrow> find (put k v (put k' v' m)) x = find (put k' v' (put k v m)) x"
  by (simp add: find_put invar_put)

lemma keys_put_commute:
  "invar m \<Longrightarrow> k \<noteq> k' \<Longrightarrow> keys (put k v (put k' v' m)) = keys (put k' v' (put k v m))"
  by (rule keys_determined) (simp_all add: invar_put put_commute_find)

lemma set_keys_put: "invar m \<Longrightarrow> set (keys (put k v m)) = insert k (set (keys m))"
  by (auto simp: set_keys invar_put find_put)

lemma erase_put_find:
  "invar m \<Longrightarrow> find m k = None \<Longrightarrow> find (erase k (put k v m)) x = find m x"
  by (simp add: find_erase invar_put find_put)

end

subsection \<open>Association lists fulfil it\<close>

lemma omap_find_keys: "omap_find m x \<noteq> None \<longleftrightarrow> x \<in> set (map fst m)"
  by (induction m) auto

lemma omap_find_None: "x \<notin> fst ` set m \<Longrightarrow> omap_find m x = None"
  by (induction m) auto

lemma omap_find_mem: "omap_find m x = Some v \<Longrightarrow> (x, v) \<in> set m"
  by (induction m) (auto split: if_splits)

lemma omap_mem_find: "omap_invar m \<Longrightarrow> (x, v) \<in> set m \<Longrightarrow> omap_find m x = Some v"
  by (induction m) (auto simp: omap_invar_def)

lemma set_omap_put: "fst ` set (omap_put k v m) = insert k (fst ` set m)"
  by (induction m) auto

lemma omap_invar_put: "omap_invar m \<Longrightarrow> omap_invar (omap_put k v m)"
  by (induction m) (auto simp: omap_invar_def set_omap_put)

lemma omap_find_put_any: "omap_find (omap_put k v m) x = (if x = k then Some v else omap_find m x)"
  by (induction m) auto

lemma omap_find_erase_any: "omap_find (omap_erase k m) x = (if x = k then None else omap_find m x)"
  by (induction m) (auto simp: omap_erase_def)

lemma omap_invar_erase: "omap_invar m \<Longrightarrow> omap_invar (omap_erase k m)"
  by (simp add: omap_invar_def omap_erase_def sorted_wrt_map sorted_wrt_filter)

lemma omap_invar_Nil [simp]: "omap_invar []"
  by (simp add: omap_invar_def)

lemma omap_keys_sorted: "omap_invar m \<Longrightarrow> sorted_wrt (<) (omap_keys m)"
  by (simp add: omap_invar_def omap_keys_def)

lemma omap_keys_find: "x \<in> set (omap_keys m) \<longleftrightarrow> omap_find m x \<noteq> None"
  by (simp only: omap_keys_def omap_find_keys)

interpretation om: std_map "[]" omap_find omap_put omap_erase omap_keys omap_invar
  by unfold_locales
     (simp_all only: omap_invar_Nil omap_invar_put omap_invar_erase omap_find.simps(1)
       omap_find_put_any omap_find_erase_any omap_keys_sorted omap_keys_find)

text \<open>Two ordered lists with the same lookups are the same list.\<close>

lemma omap_ext:
  "omap_invar m \<Longrightarrow> omap_invar m' \<Longrightarrow> (\<And>x. omap_find m x = omap_find m' x) \<Longrightarrow> m = m'"
proof (induction m arbitrary: m')
  case Nil
  then show ?case
    by (cases m') (auto, metis option.distinct(1))
next
  case (Cons e m)
  have keys: "omap_keys (e # m) = omap_keys m'"
    using Cons.prems by (intro om.keys_determined) simp_all
  then obtain v' n where m': "m' = (fst e, v') # n"
    by (cases m') (auto simp: omap_keys_def)
  have "snd e = v'"
    using Cons.prems(3) [of "fst e"] m' by simp
  moreover have "m = n"
  proof (rule Cons.IH)
    show inv: "omap_invar m" "omap_invar n"
      using Cons.prems m' by (simp_all add: omap_invar_def)
    show "omap_find m x = omap_find n x" for x
    proof (cases "x = fst e")
      case True
      then show ?thesis
        using Cons.prems(1,2) m' by (metis (no_types, lifting) fst_conv less_irrefl list.simps(9)
          omap_find_keys omap_invar_def sorted_wrt.simps(2))
    next
      case False
      then show ?thesis using Cons.prems(3) [of x] m' by (simp split: if_splits)
    qed
  qed
  ultimately show ?case by (cases e) (simp add: m')
qed

subsection \<open>Ordered sets\<close>

type_synonym 'a oset = "'a list"

fun oset_insert :: "'a :: linorder \<Rightarrow> 'a oset \<Rightarrow> 'a oset" where
  "oset_insert x [] = [x]"
| "oset_insert x (y # s) = (if x = y then y # s else if x < y then x # y # s else y # oset_insert x s)"

definition oset_erase :: "'a :: linorder \<Rightarrow> 'a oset \<Rightarrow> 'a oset" where
  "oset_erase x s = filter (\<lambda>y. y \<noteq> x) s"

definition oset_invar :: "'a :: linorder oset \<Rightarrow> bool" where
  "oset_invar s \<longleftrightarrow> sorted_wrt (<) s"

lemma set_oset_insert [simp]: "set (oset_insert x s) = insert x (set s)"
  by (induction s) auto

lemma set_oset_erase [simp]: "set (oset_erase x s) = set s - {x}"
  by (auto simp: oset_erase_def)

lemma oset_invar_insert [simp]: "oset_invar s \<Longrightarrow> oset_invar (oset_insert x s)"
  by (induction s) (auto simp: oset_invar_def)

lemma oset_invar_erase [simp]: "oset_invar s \<Longrightarrow> oset_invar (oset_erase x s)"
  by (simp add: oset_invar_def oset_erase_def sorted_wrt_filter)

lemma oset_invar_distinct: "oset_invar s \<Longrightarrow> distinct s"
  by (simp add: oset_invar_def sorted_wrt_less_distinct)

lemma oset_invar_Nil [simp]: "oset_invar []"
  by (simp add: oset_invar_def)

lemma oset_insert_erase: "oset_invar s \<Longrightarrow> x \<notin> set s \<Longrightarrow> oset_erase x (oset_insert x s) = s"
  by (rule sorted_less_unique) (auto simp: oset_invar_def [symmetric])

end
