(* ===== verification/Media_Graph.thy ===== *)
theory Media_Graph
  imports Status Ordered_Map
begin

text \<open>
  \<open>src/media/graph.cpp\<close>: \<open>MediaGraph\<close>. Nodes in insertion order with the set used to
  reject duplicates, edges as an ordered map of ordered sets, and Kahn's algorithm. The
  indegree table is \<open>std::map<std::string, std::size_t>\<close> read through \<open>operator[]\<close>, so
  it is a total function that is 0 where nothing was stored; its values are \<open>int\<close>, which
  keeps a decrement below 0 visible instead of cutting it off.
\<close>

record media_graph =
  g_nodes :: "string list"
  g_node_set :: "string oset"
  g_edges :: "(string, string oset) omap"

definition graph_new :: media_graph where
  "graph_new = \<lparr>g_nodes = [], g_node_set = [], g_edges = []\<rparr>"

definition graph_add_node :: "string \<Rightarrow> media_graph \<Rightarrow> status \<times> media_graph" where
  "graph_add_node i g =
     (if i = [] then (status_msg kInvalidArgument ''node id must not be empty'', g)
      else if i \<in> set (g_node_set g) then (status_msg kAlreadyExists ''node already exists'', g)
      else (ok_status, g\<lparr>g_node_set := oset_insert i (g_node_set g), g_nodes := g_nodes g @ [i]\<rparr>))"

subsection \<open>topological_order\<close>

definition edge_sinks :: "(string, string oset) omap \<Rightarrow> string \<Rightarrow> string oset" where
  "edge_sinks es a = (case omap_find es a of None \<Rightarrow> [] | Some s \<Rightarrow> s)"

fun count_sinks :: "string list \<Rightarrow> (string \<Rightarrow> int) \<Rightarrow> (string \<Rightarrow> int)" where
  "count_sinks [] indegree = indegree"
| "count_sinks (s # ss) indegree = count_sinks ss (indegree(s := indegree s + 1))"

fun count_edges :: "(string, string oset) omap \<Rightarrow> (string \<Rightarrow> int) \<Rightarrow> (string \<Rightarrow> int)" where
  "count_edges [] indegree = indegree"
| "count_edges (e # es) indegree = count_edges es (count_sinks (snd e) indegree)"

fun visit_sinks :: "string list \<Rightarrow> (string \<Rightarrow> int) \<Rightarrow> string list \<Rightarrow> (string \<Rightarrow> int) \<times> string list" where
  "visit_sinks [] indegree ready = (indegree, ready)"
| "visit_sinks (s # ss) indegree ready =
     (let indegree' = indegree(s := indegree s - 1)
      in visit_sinks ss indegree' (if indegree' s = 0 then ready @ [s] else ready))"

text \<open>The loop ends: an iteration takes one id off the queue, and every id it puts on the
  queue is one whose indegree drops from 1 to 0, which cannot happen to that id again.\<close>

definition open_sinks :: "(string, string oset) omap \<Rightarrow> (string \<Rightarrow> int) \<Rightarrow> string set" where
  "open_sinks es indegree = {x. 0 < indegree x \<and> x \<in> (\<Union>e \<in> set es. set (snd e))}"

lemma finite_open_sinks [simp]: "finite (open_sinks es d)"
  by (rule finite_subset [of _ "\<Union>e \<in> set es. set (snd e)"]) (auto simp: open_sinks_def)

lemma visit_sinks_measure:
  "set ss \<subseteq> (\<Union>e \<in> set es. set (snd e)) \<Longrightarrow> visit_sinks ss d ready = (d', ready') \<Longrightarrow>
     length ready' + card (open_sinks es d') \<le> length ready + card (open_sinks es d)"
proof (induction ss arbitrary: d ready)
  case Nil
  then show ?case by simp
next
  case (Cons s ss)
  let ?d = "d(s := d s - 1)"
  have IH: "length ready' + card (open_sinks es d')
      \<le> length (if ?d s = 0 then ready @ [s] else ready) + card (open_sinks es ?d)"
    using Cons.prems by (intro Cons.IH) (simp_all add: Let_def fun_upd_def cong: if_cong)
  show ?case
  proof (cases "d s = 1")
    case True
    then have "open_sinks es d = insert s (open_sinks es ?d)" "s \<notin> open_sinks es ?d"
      using Cons.prems(1) by (auto simp: open_sinks_def)
    then have "card (open_sinks es d) = Suc (card (open_sinks es ?d))"
      by simp
    with True IH show ?thesis by simp
  next
    case False
    have "card (open_sinks es ?d) \<le> card (open_sinks es d)"
      by (rule card_mono) (auto simp: open_sinks_def)
    with False IH show ?thesis by simp
  qed
qed

lemma edge_sinks_subset: "set (edge_sinks es a) \<subseteq> (\<Union>e \<in> set es. set (snd e))"
proof (cases "omap_find es a")
  case (Some s)
  then have "(a, s) \<in> set es" by (rule omap_find_mem)
  with Some show ?thesis by (auto simp: edge_sinks_def)
qed (simp add: edge_sinks_def)

function kahn_loop ::
  "(string, string oset) omap \<Rightarrow> (string \<Rightarrow> int) \<Rightarrow> string list \<Rightarrow> string list \<Rightarrow> string list" where
  "kahn_loop es indegree ready order =
     (case ready of
        [] \<Rightarrow> order
      | current # rest \<Rightarrow>
          (case visit_sinks (edge_sinks es current) indegree rest of
             (indegree', ready') \<Rightarrow> kahn_loop es indegree' ready' (order @ [current])))"
  by pat_completeness auto
termination
proof (relation "measure (\<lambda>(es, d, ready, order). length ready + card (open_sinks es d))", goal_cases)
  case 1
  show ?case by simp
next
  case (2 es d ready order current rest d' ready')
  then show ?case
    using visit_sinks_measure [OF edge_sinks_subset [of es current], of d rest d' ready'] by simp
qed

declare kahn_loop.simps [simp del]

definition topological_order :: "media_graph \<Rightarrow> string list result" where
  "topological_order g =
     (let indegree = count_edges (g_edges g) (\<lambda>_. 0);
          ready = filter (\<lambda>i. indegree i = 0) (g_nodes g);
          order = kahn_loop (g_edges g) indegree ready []
      in if length order \<noteq> length (g_nodes g)
         then err (status_msg kInvalidArgument ''graph contains a cycle'')
         else Inr order)"

subsection \<open>connect\<close>

text \<open>\<open>edges_[source]\<close> creates the entry; a rejected edge is erased again but leaves the entry.\<close>

definition graph_connect :: "string \<Rightarrow> string \<Rightarrow> media_graph \<Rightarrow> status \<times> media_graph" where
  "graph_connect source sink g =
     (if source \<notin> set (g_node_set g) \<or> sink \<notin> set (g_node_set g)
      then (status_msg kNotFound ''graph endpoint does not exist'', g)
      else if source = sink
      then (status_msg kInvalidArgument ''self edge is not allowed'', g)
      else let sinks = edge_sinks (g_edges g) source
           in if sink \<in> set sinks
              then (status_msg kAlreadyExists ''edge already exists'',
                    g\<lparr>g_edges := omap_put source sinks (g_edges g)\<rparr>)
              else let g' = g\<lparr>g_edges := omap_put source (oset_insert sink sinks) (g_edges g)\<rparr>
                   in if \<not> res_ok (topological_order g')
                      then (status_msg kInvalidArgument ''edge would create a cycle'',
                            g'\<lparr>g_edges := omap_put source
                                 (oset_erase sink (edge_sinks (g_edges g') source)) (g_edges g')\<rparr>)
                      else (ok_status, g'))"

subsection \<open>What Kahn's algorithm needs\<close>

definition graph_edge :: "media_graph \<Rightarrow> string \<Rightarrow> string \<Rightarrow> bool" where
  "graph_edge g a b \<longleftrightarrow> b \<in> set (edge_sinks (g_edges g) a)"

definition graph_rel :: "media_graph \<Rightarrow> (string \<times> string) set" where
  "graph_rel g = {(a, b). graph_edge g a b}"

definition graph_wf :: "media_graph \<Rightarrow> bool" where
  "graph_wf g \<longleftrightarrow>
     distinct (g_nodes g) \<and> set (g_node_set g) = set (g_nodes g) \<and> oset_invar (g_node_set g)
     \<and> omap_invar (g_edges g) \<and> (\<forall>(a, s) \<in> set (g_edges g). oset_invar s)
     \<and> graph_rel g \<subseteq> set (g_nodes g) \<times> set (g_nodes g)"

definition topo_sorted :: "(string \<times> string) set \<Rightarrow> string list \<Rightarrow> bool" where
  "topo_sorted E xs \<longleftrightarrow>
     (\<forall>i < length xs. \<forall>a. (a, xs ! i) \<in> E \<longrightarrow> a \<in> set (take i xs))"

lemma topo_sorted_Nil [simp]: "topo_sorted E []"
  by (simp add: topo_sorted_def)

lemma topo_sorted_snoc:
  "topo_sorted E (xs @ [x]) \<longleftrightarrow> topo_sorted E xs \<and> (\<forall>a. (a, x) \<in> E \<longrightarrow> a \<in> set xs)"
  by (auto simp: topo_sorted_def nth_append less_Suc_eq)

text \<open>In an order that has every predecessor of a node before the node, a path leads forward.\<close>

lemma topo_sorted_path:
  assumes "topo_sorted E xs" "distinct xs" "(a, b) \<in> E\<^sup>+" "b = xs ! j" "j < length xs"
  shows "\<exists>i < j. a = xs ! i"
  using assms(3,4,5)
proof (induction arbitrary: j rule: trancl_induct)
  case (base b)
  then have "a \<in> set (take j xs)" using assms(1) by (auto simp: topo_sorted_def)
  then show ?case by (auto simp: in_set_conv_nth)
next
  case (step b c)
  then have "b \<in> set (take j xs)" using assms(1) by (auto simp: topo_sorted_def)
  then obtain k where "k < j" "b = xs ! k" by (auto simp: in_set_conv_nth)
  then show ?case using step.IH [of k] step.prems by (meson less_trans)
qed

lemma topo_sorted_acyclic:
  assumes "topo_sorted E xs" "distinct xs" "E \<subseteq> set xs \<times> set xs"
  shows "acyclic E"
proof (rule acyclicI, rule allI, rule notI)
  fix x
  assume path: "(x, x) \<in> E\<^sup>+"
  then have "x \<in> set xs" using assms(3) by (metis mem_Sigma_iff subsetD tranclD)
  then obtain j where j: "x = xs ! j" "j < length xs" by (auto simp: in_set_conv_nth)
  with topo_sorted_path [OF assms(1,2) path j] obtain i where "i < j" "x = xs ! i" by blast
  with j assms(2) show False by (simp add: nth_eq_iff_index_eq)
qed

text \<open>A finite set in which everything has a predecessor contains a cycle.\<close>

lemma predecessor_cycle:
  assumes "finite S" "S \<noteq> {}" "\<And>x. x \<in> S \<Longrightarrow> \<exists>a \<in> S. (a, x) \<in> E"
  shows "\<not> acyclic E"
proof
  assume "acyclic E"
  then have "acyclic (E \<inter> S \<times> S)" by (rule acyclic_subset) blast
  moreover have "finite (E \<inter> S \<times> S)" using assms(1) by (simp add: finite_SigmaI)
  ultimately have "wf (E \<inter> S \<times> S)" by (simp add: finite_acyclic_wf)
  then obtain z where "z \<in> S" "\<And>y. (y, z) \<in> E \<inter> S \<times> S \<Longrightarrow> y \<notin> S"
    using assms(2) by (metis ex_in_conv wfE_min)
  with assms(3) [of z] show False by blast
qed

subsection \<open>The indegree table and the inner loop\<close>

lemma count_sinks_eq:
  "distinct ss \<Longrightarrow> count_sinks ss d x = d x + (if x \<in> set ss then 1 else 0)"
  by (induction ss arbitrary: d) auto

lemma count_edges_eq:
  "\<forall>e \<in> set es. distinct (snd e) \<Longrightarrow>
     count_edges es d x = d x + int (length (filter (\<lambda>e. x \<in> set (snd e)) es))"
  by (induction es arbitrary: d) (auto simp: count_sinks_eq)

lemma visit_sinks_eq:
  "distinct ss \<Longrightarrow> visit_sinks ss d ready =
     (\<lambda>x. d x - (if x \<in> set ss then 1 else 0), ready @ filter (\<lambda>x. d x = 1) ss)"
proof (induction ss arbitrary: d ready)
  case Nil
  then show ?case by simp
next
  case (Cons s ss)
  then have "filter (\<lambda>x. (d(s := d s - 1)) x = 1) ss = filter (\<lambda>x. d x = 1) ss"
    by (intro filter_cong) auto
  with Cons show ?case by (auto simp: Let_def fun_eq_iff)
qed

lemma length_filter_card:
  assumes "omap_invar es"
  shows "length (filter (\<lambda>e. x \<in> set (snd e)) es) = card {a. x \<in> set (edge_sinks es a)}"
proof -
  have d: "distinct (map fst es)"
    using assms by (simp add: omap_invar_def sorted_wrt_less_distinct)
  let ?f = "filter (\<lambda>e. x \<in> set (snd e)) es"
  have "{a. x \<in> set (edge_sinks es a)} = fst ` set ?f"
  proof (intro set_eqI iffI)
    fix a assume "a \<in> {a. x \<in> set (edge_sinks es a)}"
    then obtain s where "omap_find es a = Some s" "x \<in> set s"
      by (cases "omap_find es a") (auto simp: edge_sinks_def)
    then have "(a, s) \<in> set ?f" by (auto dest: omap_find_mem)
    then show "a \<in> fst ` set ?f" by force
  next
    fix a assume "a \<in> fst ` set ?f"
    then show "a \<in> {a. x \<in> set (edge_sinks es a)}"
      using assms by (auto simp: edge_sinks_def omap_mem_find)
  qed
  moreover have "distinct (map fst ?f)"
    using d by (rule distinct_map_filter)
  ultimately show ?thesis
    by (metis distinct_card length_map set_map)
qed

subsection \<open>The invariant of the loop\<close>

definition kahn_inv ::
  "media_graph \<Rightarrow> (string \<Rightarrow> int) \<Rightarrow> string list \<Rightarrow> string list \<Rightarrow> bool" where
  "kahn_inv g d ready order \<longleftrightarrow>
     distinct (order @ ready) \<and> set (order @ ready) \<subseteq> set (g_nodes g)
     \<and> (\<forall>x \<in> set (g_nodes g). d x = int (card {a. graph_edge g a x \<and> a \<notin> set order}))
     \<and> (\<forall>x \<in> set (g_nodes g). x \<in> set (order @ ready) \<longleftrightarrow> d x = 0)
     \<and> topo_sorted (graph_rel g) order"

lemma finite_preds: "graph_wf g \<Longrightarrow> finite {a. graph_edge g a x \<and> P a}"
  by (rule finite_subset [of _ "set (g_nodes g)"]) (auto simp: graph_wf_def graph_rel_def)

lemma sinks_distinct: "graph_wf g \<Longrightarrow> distinct (edge_sinks (g_edges g) a)"
  by (auto simp: graph_wf_def edge_sinks_def split: option.splits
    dest!: omap_find_mem intro!: oset_invar_distinct)

lemma kahn_inv_init:
  assumes "graph_wf g" and d: "d = count_edges (g_edges g) (\<lambda>_. 0)"
  shows "kahn_inv g d (filter (\<lambda>i. d i = 0) (g_nodes g)) []"
proof -
  have "\<forall>e \<in> set (g_edges g). distinct (snd e)"
    using assms(1) by (auto simp: graph_wf_def oset_invar_distinct)
  then have "d x = int (card {a. graph_edge g a x})" for x
    using assms by (simp add: count_edges_eq length_filter_card graph_wf_def graph_edge_def)
  then show ?thesis
    using assms(1) by (auto simp: kahn_inv_def graph_wf_def)
qed

lemma kahn_inv_step:
  assumes wf: "graph_wf g" and inv: "kahn_inv g d (c # rest) order"
    and step: "visit_sinks (edge_sinks (g_edges g) c) d rest = (d', ready')"
  shows "kahn_inv g d' ready' (order @ [c])"
proof -
  let ?V = "set (g_nodes g)" and ?S = "edge_sinks (g_edges g) c"
  have d': "d' x = d x - (if graph_edge g c x then 1 else 0)" for x
    using step by (auto simp: visit_sinks_eq [OF sinks_distinct [OF wf]] graph_edge_def)
  have ready': "ready' = rest @ filter (\<lambda>x. d x = 1) ?S"
    using step by (auto simp: visit_sinks_eq [OF sinks_distinct [OF wf]])
  have c: "c \<in> ?V" "c \<notin> set order" "d c = 0"
    using inv by (auto simp: kahn_inv_def)
  have cnt: "d x = int (card {a. graph_edge g a x \<and> a \<notin> set order})" if "x \<in> ?V" for x
    using inv that by (simp add: kahn_inv_def)
  have cnt': "d' x = int (card {a. graph_edge g a x \<and> a \<notin> set (order @ [c])})" if x: "x \<in> ?V" for x
  proof (cases "graph_edge g c x")
    case True
    then have "{a. graph_edge g a x \<and> a \<notin> set order}
        = insert c {a. graph_edge g a x \<and> a \<notin> set (order @ [c])}"
      using c by auto
    then have "card {a. graph_edge g a x \<and> a \<notin> set order}
        = Suc (card {a. graph_edge g a x \<and> a \<notin> set (order @ [c])})"
      using finite_preds [OF wf] by simp
    then show ?thesis using True cnt [OF x] d' [of x] by simp
  next
    case False
    then have "{a. graph_edge g a x \<and> a \<notin> set order} = {a. graph_edge g a x \<and> a \<notin> set (order @ [c])}"
      by auto
    then show ?thesis using False cnt [OF x] d' [of x] by simp
  qed
  have zero: "x \<in> set (order @ c # rest) \<longleftrightarrow> d x = 0" if "x \<in> ?V" for x
    using inv that by (simp add: kahn_inv_def)
  have SV: "set ?S \<subseteq> ?V"
    using wf by (auto simp: graph_wf_def graph_rel_def graph_edge_def)
  have new: "set (filter (\<lambda>x. d x = 1) ?S) \<inter> set (order @ c # rest) = {}"
    using zero SV by fastforce
  have pred: "a \<in> set order" if "graph_edge g a c" for a
  proof -
    have "card {a. graph_edge g a c \<and> a \<notin> set order} = 0" using cnt [OF c(1)] c(3) by simp
    then show ?thesis using that finite_preds [OF wf] by auto
  qed
  have pos: "0 < d x" if "graph_edge g c x" "x \<in> ?V" for x
  proof -
    have "c \<in> {a. graph_edge g a x \<and> a \<notin> set order}" using that c by simp
    then have "0 < card {a. graph_edge g a x \<and> a \<notin> set order}"
      using finite_preds [OF wf, of x "\<lambda>a. a \<notin> set order"]
      by (metis card_gt_0_iff empty_iff)
    then show ?thesis using cnt [OF that(2)] by simp
  qed
  have mem': "x \<in> set ((order @ [c]) @ ready')
      \<longleftrightarrow> x \<in> set (order @ c # rest) \<or> (graph_edge g c x \<and> d x = 1)" for x
    by (auto simp: ready' graph_edge_def)
  have zero': "x \<in> set ((order @ [c]) @ ready') \<longleftrightarrow> d' x = 0" if x: "x \<in> ?V" for x
  proof (cases "graph_edge g c x")
    case True
    then have "0 < d x" using pos x by simp
    then have "x \<notin> set (order @ c # rest)" using zero [OF x] by linarith
    with True show ?thesis unfolding mem' d' by simp
  next
    case False
    then show ?thesis unfolding mem' d' using zero [OF x] by simp
  qed
  have "distinct ((order @ [c]) @ ready')"
    using inv new sinks_distinct [OF wf, of c] by (auto simp: kahn_inv_def ready')
  moreover have "set ((order @ [c]) @ ready') \<subseteq> ?V"
    using inv SV by (auto simp: kahn_inv_def ready')
  moreover have "topo_sorted (graph_rel g) (order @ [c])"
    using inv pred by (simp add: kahn_inv_def topo_sorted_snoc graph_rel_def)
  ultimately show ?thesis
    using cnt' zero' by (simp add: kahn_inv_def)
qed

lemma kahn_loop_inv:
  "graph_wf g \<Longrightarrow> kahn_inv g d ready order \<Longrightarrow>
     \<exists>d'. kahn_inv g d' [] (kahn_loop (g_edges g) d ready order)"
proof (induction es \<equiv> "g_edges g" d ready order rule: kahn_loop.induct)
  case (1 d ready order)
  show ?case
  proof (cases ready)
    case Nil
    with 1 show ?thesis by (auto simp: kahn_loop.simps)
  next
    case (Cons c rest)
    obtain d' ready' where v: "visit_sinks (edge_sinks (g_edges g) c) d rest = (d', ready')"
      by force
    have "kahn_inv g d' ready' (order @ [c])"
      using kahn_inv_step [OF 1(2) _ v] 1(3) Cons by simp
    then have "\<exists>d''. kahn_inv g d'' [] (kahn_loop (g_edges g) d' ready' (order @ [c]))"
      using 1(1) [OF Cons v [symmetric] 1(2)] by simp
    then show ?thesis
      by (simp add: kahn_loop.simps [of "g_edges g" d "c # rest" order] Cons v)
  qed
qed

subsection \<open>The order and the cycle test are exact\<close>

lemma topological_order_Inr:
  assumes wf: "graph_wf g" and r: "topological_order g = Inr order"
  shows "distinct order \<and> set order = set (g_nodes g) \<and> topo_sorted (graph_rel g) order"
proof -
  obtain d where inv: "kahn_inv g d [] order"
    using r kahn_loop_inv [OF wf kahn_inv_init [OF wf refl]]
    by (auto simp: topological_order_def Let_def split: if_splits)
  have "length order = length (g_nodes g)"
    using r by (auto simp: topological_order_def Let_def split: if_splits)
  then have "card (set order) = card (set (g_nodes g))"
    using inv wf by (simp add: kahn_inv_def graph_wf_def distinct_card)
  then show ?thesis
    using inv by (auto simp: kahn_inv_def card_subset_eq)
qed

lemma topological_order_acyclic:
  assumes wf: "graph_wf g"
  shows "res_ok (topological_order g) \<longleftrightarrow> acyclic (graph_rel g)"
proof
  assume "res_ok (topological_order g)"
  then obtain order where "topological_order g = Inr order"
    by (auto simp: topological_order_def Let_def split: if_splits)
  from topological_order_Inr [OF wf this] show "acyclic (graph_rel g)"
    using wf by (intro topo_sorted_acyclic [of _ order]) (auto simp: graph_wf_def)
next
  assume acyc: "acyclic (graph_rel g)"
  let ?d = "count_edges (g_edges g) (\<lambda>_. 0)"
  let ?order = "kahn_loop (g_edges g) ?d (filter (\<lambda>i. ?d i = 0) (g_nodes g)) []"
  obtain d where inv: "kahn_inv g d [] ?order"
    using kahn_loop_inv [OF wf kahn_inv_init [OF wf refl]] by blast
  let ?S = "set (g_nodes g) - set ?order"
  have "\<exists>a \<in> ?S. (a, x) \<in> graph_rel g" if x: "x \<in> ?S" for x
  proof -
    have "card {a. graph_edge g a x \<and> a \<notin> set ?order} \<noteq> 0"
      using inv x by (auto simp: kahn_inv_def)
    then obtain a where "graph_edge g a x" "a \<notin> set ?order"
      by (metis (mono_tags, lifting) card.empty empty_Collect_eq)
    then show ?thesis using wf by (auto simp: graph_wf_def graph_rel_def)
  qed
  then have "?S = {}"
    using predecessor_cycle [of ?S "graph_rel g"] acyc by blast
  then have "set ?order = set (g_nodes g)" using inv by (auto simp: kahn_inv_def)
  then have "length ?order = length (g_nodes g)"
    using inv wf by (metis append_Nil2 distinct_card graph_wf_def kahn_inv_def)
  then show "res_ok (topological_order g)" by (simp add: topological_order_def Let_def)
qed

subsection \<open>The invariant of the graph and what \<open>connect\<close> accepts\<close>

definition graph_inv :: "media_graph \<Rightarrow> bool" where
  "graph_inv g \<longleftrightarrow> graph_wf g \<and> acyclic (graph_rel g)"

lemma edge_sinks_put: "edge_sinks (omap_put a s es) x = (if x = a then s else edge_sinks es x)"
  by (simp add: edge_sinks_def omap_find_put_any)

lemma edge_sinks_invar: "graph_wf g \<Longrightarrow> oset_invar (edge_sinks (g_edges g) a)"
  by (auto simp: graph_wf_def edge_sinks_def split: option.splits dest!: omap_find_mem)

lemma set_omap_put_subset: "set (omap_put k v m) \<subseteq> insert (k, v) (set m)"
  by (induction m) auto

text \<open>Replacing the sinks of one node.\<close>

definition with_sinks :: "string \<Rightarrow> string oset \<Rightarrow> media_graph \<Rightarrow> media_graph" where
  "with_sinks a s g = g\<lparr>g_edges := omap_put a s (g_edges g)\<rparr>"

lemma with_sinks_rel:
  "graph_rel (with_sinks a s g) = {(x, y). if x = a then y \<in> set s else (x, y) \<in> graph_rel g}"
  by (auto simp: with_sinks_def graph_rel_def graph_edge_def edge_sinks_put)

lemma with_sinks_wf:
  assumes "graph_wf g" "oset_invar s" "a \<in> set (g_nodes g)" "set s \<subseteq> set (g_nodes g)"
  shows "graph_wf (with_sinks a s g)"
proof -
  have "\<forall>(x, t) \<in> set (omap_put a s (g_edges g)). oset_invar t"
    using assms(1,2) set_omap_put_subset [of a s "g_edges g"] by (auto simp: graph_wf_def)
  moreover have "graph_rel (with_sinks a s g) \<subseteq> set (g_nodes g) \<times> set (g_nodes g)"
    using assms by (auto simp: with_sinks_rel graph_wf_def split: if_splits)
  ultimately show ?thesis
    using assms(1) by (auto simp: graph_wf_def with_sinks_def om.invar_put)
qed

lemma graph_inv_new: "graph_inv graph_new"
  by (simp add: graph_inv_def graph_wf_def graph_new_def graph_rel_def graph_edge_def
    edge_sinks_def acyclic_def)

lemma graph_add_node_rel [simp]: "graph_rel (snd (graph_add_node i g)) = graph_rel g"
  by (simp add: graph_add_node_def graph_rel_def graph_edge_def)

lemma graph_add_node_nodes:
  "g_nodes (snd (graph_add_node i g))
     = (if st_ok (fst (graph_add_node i g)) then g_nodes g @ [i] else g_nodes g)"
  by (simp add: graph_add_node_def)

lemma graph_add_node_ok:
  "graph_wf g \<Longrightarrow> st_ok (fst (graph_add_node i g)) \<longleftrightarrow> i \<noteq> [] \<and> i \<notin> set (g_nodes g)"
  by (auto simp: graph_add_node_def graph_wf_def)

lemma graph_add_node_inv: "graph_inv g \<Longrightarrow> graph_inv (snd (graph_add_node i g))"
  using graph_add_node_rel [of i g]
  by (auto simp: graph_inv_def graph_wf_def graph_add_node_def)

lemma graph_connect_cases:
  assumes "graph_inv g"
  shows "graph_inv (snd (graph_connect a b g))
    \<and> g_nodes (snd (graph_connect a b g)) = g_nodes g
    \<and> (if a \<in> set (g_nodes g) \<and> b \<in> set (g_nodes g) \<and> (a, b) \<notin> graph_rel g
           \<and> (b, a) \<notin> (graph_rel g)\<^sup>*
        then st_ok (fst (graph_connect a b g))
             \<and> graph_rel (snd (graph_connect a b g)) = insert (a, b) (graph_rel g)
        else \<not> st_ok (fst (graph_connect a b g))
             \<and> graph_rel (snd (graph_connect a b g)) = graph_rel g)"
proof -
  have wf: "graph_wf g" and acyc: "acyclic (graph_rel g)"
    using assms by (simp_all add: graph_inv_def)
  have ns: "set (g_node_set g) = set (g_nodes g)"
    using wf by (simp add: graph_wf_def)
  let ?s = "edge_sinks (g_edges g) a"
  let ?g' = "with_sinks a (oset_insert b ?s) g"
  have "b' \<in> set (g_nodes g)" if "b' \<in> set ?s" for b'
    using wf that by (force simp: graph_wf_def graph_rel_def graph_edge_def)
  then have s: "oset_invar ?s" "set ?s \<subseteq> set (g_nodes g)"
    using edge_sinks_invar [OF wf] by auto
  have same: "graph_rel (with_sinks a ?s g) = graph_rel g"
    by (subst with_sinks_rel) (auto simp: graph_rel_def graph_edge_def)
  have rel': "graph_rel ?g' = insert (a, b) (graph_rel g)"
    by (subst with_sinks_rel) (auto simp: graph_rel_def graph_edge_def)
  have conn: "graph_connect a b g =
     (if a \<notin> set (g_nodes g) \<or> b \<notin> set (g_nodes g)
      then (status_msg kNotFound ''graph endpoint does not exist'', g)
      else if a = b then (status_msg kInvalidArgument ''self edge is not allowed'', g)
      else if (a, b) \<in> graph_rel g
           then (status_msg kAlreadyExists ''edge already exists'', with_sinks a ?s g)
      else if \<not> res_ok (topological_order ?g')
           then (status_msg kInvalidArgument ''edge would create a cycle'',
                 with_sinks a (oset_erase b (oset_insert b ?s)) ?g')
      else (ok_status, ?g'))"
    by (simp add: graph_connect_def ns Let_def with_sinks_def graph_rel_def graph_edge_def
      edge_sinks_put)
  show ?thesis
  proof (cases "a \<in> set (g_nodes g) \<and> b \<in> set (g_nodes g) \<and> a \<noteq> b \<and> (a, b) \<notin> graph_rel g")
    case False
    moreover have "graph_inv (with_sinks a ?s g)" if "a \<in> set (g_nodes g)"
      using with_sinks_wf [OF wf s(1) that s(2)] acyc same by (simp add: graph_inv_def)
    ultimately show ?thesis
      using assms same by (auto simp: conn with_sinks_def)
  next
    case True
    have wf': "graph_wf ?g'"
      using with_sinks_wf [OF wf _ _ _] True s by simp
    have "with_sinks a (oset_erase b (oset_insert b ?s)) ?g' = with_sinks a ?s ?g'"
      using True s(1) by (simp add: oset_insert_erase graph_rel_def graph_edge_def)
    moreover have "graph_rel (with_sinks a ?s ?g') = graph_rel g"
      by (subst with_sinks_rel, subst with_sinks_rel) (auto simp: graph_rel_def graph_edge_def)
    moreover have "graph_wf (with_sinks a ?s ?g')"
      using with_sinks_wf [OF wf' s(1)] True s(2) by (simp add: with_sinks_def)
    moreover have "res_ok (topological_order ?g') \<longleftrightarrow> (b, a) \<notin> (graph_rel g)\<^sup>*"
      using topological_order_acyclic [OF wf'] acyc by (simp add: rel' acyclic_insert)
    ultimately show ?thesis
      using True wf' acyc rel' by (auto simp: conn graph_inv_def acyclic_insert with_sinks_def)
  qed
qed

lemma graph_connect_inv: "graph_inv g \<Longrightarrow> graph_inv (snd (graph_connect a b g))"
  using graph_connect_cases by blast

lemma graph_connect_nodes [simp]: "graph_inv g \<Longrightarrow> g_nodes (snd (graph_connect a b g)) = g_nodes g"
  using graph_connect_cases by blast

lemma topological_order_total:
  assumes "graph_inv g"
  obtains order where "topological_order g = Inr order" "distinct order"
    "set order = set (g_nodes g)" "topo_sorted (graph_rel g) order"
proof -
  have "res_ok (topological_order g)"
    using assms topological_order_acyclic by (simp add: graph_inv_def)
  then obtain order where "topological_order g = Inr order"
    by (auto simp: topological_order_def Let_def split: if_splits)
  with topological_order_Inr [of g order] assms that show thesis
    by (simp add: graph_inv_def)
qed

text \<open>The graphs the two mutators can build.\<close>

inductive graph_reachable :: "media_graph \<Rightarrow> bool" where
  new: "graph_reachable graph_new"
| add: "graph_reachable g \<Longrightarrow> graph_reachable (snd (graph_add_node i g))"
| conn: "graph_reachable g \<Longrightarrow> graph_reachable (snd (graph_connect a b g))"

lemma graph_reachable_inv: "graph_reachable g \<Longrightarrow> graph_inv g"
  by (induction rule: graph_reachable.induct)
     (simp_all add: graph_inv_new graph_add_node_inv graph_connect_inv)

text \<open>C4: Kahn's algorithm is right on every graph the mutators can build. It ends, never reports
  a cycle, and returns every node exactly once with each edge's source before its sink.\<close>

theorem topological_order_correct:
  assumes "graph_reachable g"
  shows "\<exists>order. topological_order g = Inr order \<and> distinct order \<and> set order = set (g_nodes g)
    \<and> (\<forall>i j. i < length order \<longrightarrow> j < length order \<longrightarrow> graph_edge g (order ! i) (order ! j) \<longrightarrow> i < j)"
proof -
  obtain order where o: "topological_order g = Inr order" "distinct order"
    "set order = set (g_nodes g)" "topo_sorted (graph_rel g) order"
    using topological_order_total [OF graph_reachable_inv [OF assms]] by blast
  have "i < j" if i: "i < length order" and j: "j < length order"
    and e: "graph_edge g (order ! i) (order ! j)" for i j
  proof -
    have "(order ! i, order ! j) \<in> (graph_rel g)\<^sup>+" using e by (auto simp: graph_rel_def)
    from topo_sorted_path [OF o(4,2) this refl j] obtain k where "k < j" "order ! i = order ! k"
      by blast
    then show ?thesis using o(2) i j by (simp add: nth_eq_iff_index_eq)
  qed
  with o show ?thesis by blast
qed

text \<open>C5: \<open>connect\<close> accepts an edge exactly when both ends are nodes, the edge is new and its
  sink does not already reach its source (a self edge included); an accepted edge is added and
  nothing else, a rejected one leaves the set of edges as it was, and the graph stays acyclic.\<close>

theorem connect_exact:
  assumes "graph_reachable g" and "graph_connect a b g = (s, g')"
  shows "(st_ok s \<longleftrightarrow> a \<in> set (g_nodes g) \<and> b \<in> set (g_nodes g) \<and> \<not> graph_edge g a b
            \<and> (b, a) \<notin> (graph_rel g)\<^sup>*)
    \<and> graph_rel g' = (if st_ok s then insert (a, b) (graph_rel g) else graph_rel g)
    \<and> g_nodes g' = g_nodes g \<and> acyclic (graph_rel g')"
  using graph_connect_cases [OF graph_reachable_inv [OF assms(1)], of a b] assms(2)
  by (auto simp: graph_inv_def graph_rel_def split: if_splits)

definition example_graph :: media_graph where
  "example_graph = snd (graph_connect ''s'' ''p'' (snd (graph_add_node ''s''
     (snd (graph_add_node ''p'' graph_new)))))"

lemma example_graph_reachable: "graph_reachable example_graph"
  unfolding example_graph_def by (intro graph_reachable.intros)

theorem topological_order_correct_witness:
  "\<exists>order. topological_order example_graph = Inr order \<and> set order = set (g_nodes example_graph)"
  using topological_order_correct [OF example_graph_reachable] by blast

lemma example_graph_order: "topological_order example_graph = Inr [''s'', ''p'']"
  by code_simp

theorem connect_exact_witness:
  "\<not> st_ok (fst (graph_connect ''p'' ''s'' example_graph))
   \<and> graph_rel (snd (graph_connect ''p'' ''s'' example_graph)) = graph_rel example_graph"
proof -
  have "\<not> st_ok (fst (graph_connect ''p'' ''s'' example_graph))"
    by code_simp
  then show ?thesis
    using connect_exact [OF example_graph_reachable surjective_pairing, of "''p''" "''s''"]
    by presburger
qed

end
