(* ===== verification/Media_Node.thy ===== *)
theory Media_Node
  imports Status
begin

text \<open>
  \<open>src/media/node.cpp\<close>: the life cycle of \<open>MediaNode\<close>.

  A node's virtual functions are a record of functions on a world \<open>'w\<close> that holds
  everything the concrete nodes share (queues, back ends, metrics); a hook returns a status
  or throws. The non-virtual operations guard the hooks by the node's state and set the
  state from the hook's status; when a hook throws, the statement that would set the state is
  not reached and the exception leaves the operation.

  \<open>lifecycle\<close> is the state diagram of the class, one rule per kind of transition; the
  operations are proved to follow it, and every edge of it to occur.
\<close>

datatype node_state = N_Created | N_Prepared | N_Running | N_Draining | N_Stopped | N_Error

record 'w hooks =
  on_prepare :: "'w \<Rightarrow> status outcome \<times> 'w"
  on_start :: "'w \<Rightarrow> status outcome \<times> 'w"
  on_stop :: "'w \<Rightarrow> status outcome \<times> 'w"
  on_reset :: "'w \<Rightarrow> status outcome \<times> 'w"
  on_tick :: "'w \<Rightarrow> status outcome \<times> 'w"

record 'w node =
  n_id :: string
  n_state :: node_state
  n_hooks :: "'w hooks"

definition default_hooks :: "'w hooks" where
  "default_hooks = \<lparr>on_prepare = Pair (Ret ok_status), on_start = Pair (Ret ok_status),
     on_stop = Pair (Ret ok_status), on_reset = Pair (Ret ok_status),
     on_tick = Pair (Ret ok_status)\<rparr>"

definition node_new :: "string \<Rightarrow> 'w hooks \<Rightarrow> 'w node" where
  "node_new i hk = \<lparr>n_id = i, n_state = N_Created, n_hooks = hk\<rparr>"

definition node_prepare :: "'w node \<Rightarrow> 'w \<Rightarrow> status outcome \<times> 'w node \<times> 'w" where
  "node_prepare n w =
     (if n_state n = N_Prepared then (Ret ok_status, n, w)
      else if n_state n \<noteq> N_Created \<and> n_state n \<noteq> N_Stopped
      then (Ret (status_msg kInvalidState ''node cannot be prepared from current state''), n, w)
      else case on_prepare (n_hooks n) w of
             (Throw e, w') \<Rightarrow> (Throw e, n, w')
           | (Ret s, w') \<Rightarrow> (Ret s, n\<lparr>n_state := if st_ok s then N_Prepared else N_Error\<rparr>, w'))"

definition node_start :: "'w node \<Rightarrow> 'w \<Rightarrow> status outcome \<times> 'w node \<times> 'w" where
  "node_start n w =
     (if n_state n = N_Running then (Ret ok_status, n, w)
      else if n_state n \<noteq> N_Prepared
      then (Ret (status_msg kInvalidState ''node is not prepared''), n, w)
      else case on_start (n_hooks n) w of
             (Throw e, w') \<Rightarrow> (Throw e, n, w')
           | (Ret s, w') \<Rightarrow> (Ret s, n\<lparr>n_state := if st_ok s then N_Running else N_Error\<rparr>, w'))"

definition node_stop :: "'w node \<Rightarrow> 'w \<Rightarrow> status outcome \<times> 'w node \<times> 'w" where
  "node_stop n w =
     (if n_state n = N_Stopped then (Ret ok_status, n, w)
      else if n_state n = N_Created then (Ret ok_status, n\<lparr>n_state := N_Stopped\<rparr>, w)
      else let n1 = (if n_state n \<noteq> N_Draining then n\<lparr>n_state := N_Draining\<rparr> else n)
           in case on_stop (n_hooks n1) w of
                (Throw e, w') \<Rightarrow> (Throw e, n1, w')
              | (Ret s, w') \<Rightarrow>
                  if st_ok s \<or> st_code s = kEndOfStream
                  then (Ret ok_status, n1\<lparr>n_state := N_Stopped\<rparr>, w')
                  else if st_code s = kWouldBlock \<or> st_code s = kNotFound then (Ret s, n1, w')
                  else (Ret s, n1\<lparr>n_state := N_Error\<rparr>, w'))"

definition node_reset :: "'w node \<Rightarrow> 'w \<Rightarrow> status outcome \<times> 'w node \<times> 'w" where
  "node_reset n w =
     (if n_state n = N_Created then (Ret ok_status, n, w)
      else case on_reset (n_hooks n) w of
             (Throw e, w') \<Rightarrow> (Throw e, n, w')
           | (Ret s, w') \<Rightarrow> (Ret s, n\<lparr>n_state := if st_ok s then N_Created else N_Error\<rparr>, w'))"

text \<open>A tick may answer that there is nothing to do now, or that the stream has ended.\<close>

definition tick_fatal :: "status \<Rightarrow> bool" where
  "tick_fatal s \<longleftrightarrow> \<not> st_ok s \<and> st_code s \<noteq> kWouldBlock \<and> st_code s \<noteq> kNotFound
     \<and> st_code s \<noteq> kEndOfStream"

definition node_tick :: "'w node \<Rightarrow> 'w \<Rightarrow> status outcome \<times> 'w node \<times> 'w" where
  "node_tick n w =
     (if n_state n \<noteq> N_Running
      then (Ret (status_msg kInvalidState ''node is not running''), n, w)
      else case on_tick (n_hooks n) w of
             (Throw e, w') \<Rightarrow> (Throw e, n, w')
           | (Ret s, w') \<Rightarrow> (Ret s, if tick_fatal s then n\<lparr>n_state := N_Error\<rparr> else n, w'))"

lemmas node_op_defs = node_prepare_def node_start_def node_stop_def node_reset_def node_tick_def

subsection \<open>The state diagram\<close>

datatype node_op = Op_prepare | Op_start | Op_stop | Op_reset | Op_tick

fun node_apply :: "node_op \<Rightarrow> 'w node \<Rightarrow> 'w \<Rightarrow> status outcome \<times> 'w node \<times> 'w" where
  "node_apply Op_prepare = node_prepare"
| "node_apply Op_start = node_start"
| "node_apply Op_stop = node_stop"
| "node_apply Op_reset = node_reset"
| "node_apply Op_tick = node_tick"

inductive lifecycle :: "node_state \<Rightarrow> node_op \<Rightarrow> node_state \<Rightarrow> bool" where
  stay: "op \<noteq> Op_stop \<Longrightarrow> lifecycle s op s"
| prepared: "s = N_Created \<or> s = N_Stopped \<Longrightarrow> lifecycle s Op_prepare N_Prepared"
| prepare_failed: "s = N_Created \<or> s = N_Stopped \<Longrightarrow> lifecycle s Op_prepare N_Error"
| started: "lifecycle N_Prepared Op_start N_Running"
| start_failed: "lifecycle N_Prepared Op_start N_Error"
| stopped: "lifecycle s Op_stop N_Stopped"
| draining: "s \<noteq> N_Created \<Longrightarrow> s \<noteq> N_Stopped \<Longrightarrow> lifecycle s Op_stop N_Draining"
| stop_failed: "s \<noteq> N_Created \<Longrightarrow> s \<noteq> N_Stopped \<Longrightarrow> lifecycle s Op_stop N_Error"
| was_reset: "lifecycle s Op_reset N_Created"
| reset_failed: "s \<noteq> N_Created \<Longrightarrow> lifecycle s Op_reset N_Error"
| tick_failed: "lifecycle N_Running Op_tick N_Error"

inductive_cases lifecycle_prepareE: "lifecycle s Op_prepare s'"
inductive_cases lifecycle_startE: "lifecycle s Op_start s'"
inductive_cases lifecycle_stopE: "lifecycle s Op_stop s'"
inductive_cases lifecycle_resetE: "lifecycle s Op_reset s'"
inductive_cases lifecycle_tickE: "lifecycle s Op_tick s'"
inductive_simps lifecycle_Created: "lifecycle s op N_Created"
inductive_simps lifecycle_Running: "lifecycle s op N_Running"

lemma node_apply_lifecycle:
  "node_apply op n w = (r, n', w') \<Longrightarrow> lifecycle (n_state n) op (n_state n')"
  by (cases op)
     (auto simp: node_op_defs Let_def split: if_splits prod.splits outcome.splits
       intro: lifecycle.intros)

lemma node_apply_frame:
  "node_apply op n w = (r, n', w') \<Longrightarrow> n_id n' = n_id n \<and> n_hooks n' = n_hooks n"
  by (cases op)
     (auto simp: node_op_defs Let_def split: if_splits prod.splits outcome.splits)

lemma node_prepare_ok: "node_prepare n w = (Ret s, n', w') \<Longrightarrow> st_ok s \<Longrightarrow> n_state n' = N_Prepared"
  by (auto simp: node_op_defs split: if_splits prod.splits outcome.splits)

lemma node_prepare_failed:
  "node_prepare n w = (Ret s, n', w') \<Longrightarrow> \<not> st_ok s \<Longrightarrow> n_state n' = N_Error \<or> n' = n"
  by (auto simp: node_op_defs split: if_splits prod.splits outcome.splits)

lemma node_start_ok: "node_start n w = (Ret s, n', w') \<Longrightarrow> st_ok s \<Longrightarrow> n_state n' = N_Running"
  by (auto simp: node_op_defs split: if_splits prod.splits outcome.splits)

lemma node_stop_ok: "node_stop n w = (Ret s, n', w') \<Longrightarrow> st_ok s \<Longrightarrow> n_state n' = N_Stopped"
  by (auto simp: node_op_defs Let_def split: if_splits prod.splits outcome.splits)

lemma node_reset_ok: "node_reset n w = (Ret s, n', w') \<Longrightarrow> st_ok s \<Longrightarrow> n_state n' = N_Created"
  by (auto simp: node_op_defs split: if_splits prod.splits outcome.splits)

lemma node_reset_ret:
  "node_reset n w = (Ret s, n', w') \<Longrightarrow> n_state n' = N_Created \<or> n_state n' = N_Error"
  by (auto simp: node_op_defs split: if_splits prod.splits outcome.splits)

text \<open>Hooks that return a given status, for the converse direction.\<close>

definition const_hooks :: "status outcome \<Rightarrow> unit hooks" where
  "const_hooks r = \<lparr>on_prepare = Pair r, on_start = Pair r, on_stop = Pair r, on_reset = Pair r,
     on_tick = Pair r\<rparr>"

definition const_node :: "node_state \<Rightarrow> status outcome \<Rightarrow> unit node" where
  "const_node s r = \<lparr>n_id = ''n'', n_state = s, n_hooks = const_hooks r\<rparr>"

definition state_after :: "node_op \<Rightarrow> node_state \<Rightarrow> status outcome \<Rightarrow> node_state" where
  "state_after op s r = n_state (fst (snd (node_apply op (const_node s r) ())))"

lemma state_after_exists:
  "state_after op s h = s' \<Longrightarrow>
     \<exists>(n :: unit node) w r n' w'. n_state n = s \<and> node_apply op n w = (r, n', w') \<and> n_state n' = s'"
  by (metis const_node_def node.select_convs(2) prod.collapse state_after_def)

lemmas state_after_simps = state_after_def node_op_defs const_node_def const_hooks_def tick_fatal_def

lemma lifecycle_occurs: "lifecycle s op s' \<Longrightarrow> \<exists>h. state_after op s h = s'"
proof (induction rule: lifecycle.induct)
  case (stay op s)
  then have "state_after op s (Throw Bad_alloc) = s"
    by (cases op; cases s) (simp_all add: state_after_simps)
  then show ?case by blast
next
  case (draining s)
  then have "state_after Op_stop s (Ret (status_of kWouldBlock)) = N_Draining"
    by (simp add: state_after_simps)
  then show ?case by blast
next
  case (stopped s)
  have "state_after Op_stop s (Ret ok_status) = N_Stopped"
    by (simp add: state_after_simps)
  then show ?case by blast
next
  case (was_reset s)
  have "state_after Op_reset s (Ret ok_status) = N_Created"
    by (simp add: state_after_simps)
  then show ?case by blast
next
  case (prepared s)
  then have "state_after Op_prepare s (Ret ok_status) = N_Prepared"
    by (auto simp: state_after_simps)
  then show ?case by blast
next
  case started
  have "state_after Op_start N_Prepared (Ret ok_status) = N_Running"
    by (simp add: state_after_simps)
  then show ?case by blast
qed (rule exI [of _ "Ret (status_of kIoError)"], auto simp: state_after_simps)+



subsection \<open>A contract for nodes that share a world\<close>

text \<open>Every function of every node keeps \<open>I\<close>; then so does every operation.\<close>

locale node_contract =
  fixes I :: "'w \<Rightarrow> bool" and H :: "'w hooks set"
  assumes prepare_keeps: "hk \<in> H \<Longrightarrow> I w \<Longrightarrow> I (snd (on_prepare hk w))"
    and start_keeps: "hk \<in> H \<Longrightarrow> I w \<Longrightarrow> I (snd (on_start hk w))"
    and stop_keeps: "hk \<in> H \<Longrightarrow> I w \<Longrightarrow> I (snd (on_stop hk w))"
    and reset_keeps: "hk \<in> H \<Longrightarrow> I w \<Longrightarrow> I (snd (on_reset hk w))"
    and tick_keeps: "hk \<in> H \<Longrightarrow> I w \<Longrightarrow> I (snd (on_tick hk w))"
begin

lemma node_apply_keeps:
  assumes "n_hooks n \<in> H" "I w" "node_apply op n w = (r, n', w')"
  shows "I w'"
proof (cases op)
  case Op_prepare
  then show ?thesis using assms prepare_keeps [OF assms(1,2)]
    by (auto simp: node_op_defs split: if_splits prod.splits outcome.splits)
next
  case Op_start
  then show ?thesis using assms start_keeps [OF assms(1,2)]
    by (auto simp: node_op_defs split: if_splits prod.splits outcome.splits)
next
  case Op_stop
  then show ?thesis using assms stop_keeps [OF assms(1,2)]
    by (auto simp: node_op_defs Let_def split: if_splits prod.splits outcome.splits)
next
  case Op_reset
  then show ?thesis using assms reset_keeps [OF assms(1,2)]
    by (auto simp: node_op_defs split: if_splits prod.splits outcome.splits)
next
  case Op_tick
  then show ?thesis using assms tick_keeps [OF assms(1,2)]
    by (auto simp: node_op_defs split: if_splits prod.splits outcome.splits)
qed

end

end
