(* ===== verification/Pipeline.thy ===== *)
theory Pipeline
  imports Media_Graph Media_Node
begin

text \<open>
  \<open>src/media/pipeline.cpp\<close>: \<open>MediaPipeline\<close>, and the executor of
  \<open>include/eavp/media/executor.hpp\<close>.

  The pipeline owns its nodes in a vector; a \<open>MediaNode*\<close> is an index into it. The world
  \<open>'w\<close> the nodes share is passed along. An operation returns a status, or throws where a
  node's function throws and the code does not catch; the fields then hold what the
  statements before the throw had stored.
\<close>

datatype pipeline_state = P_Created | P_Running | P_Draining | P_Stopped | P_Error

record 'w pipeline =
  p_id :: string
  p_state :: pipeline_state
  p_graph :: media_graph
  p_nodes :: "'w node list"
  p_nodes_by_id :: "string \<Rightarrow> nat option"
  p_drain_order :: "nat list"
  p_drain_index :: nat

definition pipeline_new :: "string \<Rightarrow> 'w pipeline" where
  "pipeline_new i = \<lparr>p_id = i, p_state = P_Created, p_graph = graph_new, p_nodes = [],
     p_nodes_by_id = Map.empty, p_drain_order = [], p_drain_index = 0\<rparr>"

definition pipeline_add_node :: "'w node option \<Rightarrow> 'w pipeline \<Rightarrow> status \<times> 'w pipeline" where
  "pipeline_add_node node p =
     (case node of
        None \<Rightarrow> (status_msg kInvalidArgument ''node must not be null'', p)
      | Some n \<Rightarrow>
          if p_state p = P_Running \<or> p_state p = P_Draining
          then (status_msg kInvalidState ''cannot modify an active pipeline'', p)
          else case graph_add_node (n_id n) (p_graph p) of (graph_status, g) \<Rightarrow>
            if \<not> st_ok graph_status then (graph_status, p\<lparr>p_graph := g\<rparr>)
            else (ok_status,
                  p\<lparr>p_graph := g,
                    p_nodes_by_id := (p_nodes_by_id p)(n_id n \<mapsto> length (p_nodes p)),
                    p_nodes := p_nodes p @ [n]\<rparr>))"

definition pipeline_connect :: "string \<Rightarrow> string \<Rightarrow> 'w pipeline \<Rightarrow> status \<times> 'w pipeline" where
  "pipeline_connect source sink p =
     (if p_state p = P_Running \<or> p_state p = P_Draining
      then (status_msg kInvalidState ''cannot modify an active pipeline'', p)
      else case graph_connect source sink (p_graph p) of (s, g) \<Rightarrow> (s, p\<lparr>p_graph := g\<rparr>))"

text \<open>\<open>nodes_by_id_.find(id)->second\<close>; the invariant keeps every id of the graph in the map.\<close>

definition ordered_nodes :: "'w pipeline \<Rightarrow> string list \<Rightarrow> nat list" where
  "ordered_nodes p order = map (\<lambda>i. the (p_nodes_by_id p i)) order"

subsection \<open>Calling nodes through pointers\<close>

definition call_node ::
  "node_op \<Rightarrow> nat \<Rightarrow> 'w node list \<Rightarrow> 'w \<Rightarrow> status outcome \<times> 'w node list \<times> 'w" where
  "call_node op i ns w = (case node_apply op (ns ! i) w of (r, n, w') \<Rightarrow> (r, ns[i := n], w'))"

text \<open>\<open>stop_nodes_reverse\<close>: \<open>stop\<close> then \<open>reset\<close> of each, statuses ignored.\<close>

fun stop_reset_each :: "nat list \<Rightarrow> 'w node list \<Rightarrow> 'w \<Rightarrow> unit outcome \<times> 'w node list \<times> 'w" where
  "stop_reset_each [] ns w = (Ret (), ns, w)"
| "stop_reset_each (i # is) ns w =
     (case call_node Op_stop i ns w of
        (Throw e, ns1, w1) \<Rightarrow> (Throw e, ns1, w1)
      | (Ret _, ns1, w1) \<Rightarrow>
          (case call_node Op_reset i ns1 w1 of
             (Throw e, ns2, w2) \<Rightarrow> (Throw e, ns2, w2)
           | (Ret _, ns2, w2) \<Rightarrow> stop_reset_each is ns2 w2))"

definition stop_nodes_reverse :: "nat list \<Rightarrow> 'w node list \<Rightarrow> 'w \<Rightarrow> unit outcome \<times> 'w node list \<times> 'w" where
  "stop_nodes_reverse nodes = stop_reset_each (rev nodes)"

text \<open>\<open>reset_nodes_reverse\<close>: every node is reset, exceptions are caught, the first failure
  is returned.\<close>

fun reset_each :: "nat list \<Rightarrow> status \<Rightarrow> 'w node list \<Rightarrow> 'w \<Rightarrow> status \<times> 'w node list \<times> 'w" where
  "reset_each [] first_failure ns w = (first_failure, ns, w)"
| "reset_each (i # is) first_failure ns w =
     (case call_node Op_reset i ns w of
        (Ret s, ns', w') \<Rightarrow>
          reset_each is (if st_ok first_failure \<and> \<not> st_ok s then s else first_failure) ns' w'
      | (Throw e, ns', w') \<Rightarrow>
          reset_each is (if st_ok first_failure then handled e else first_failure) ns' w')"

definition reset_nodes_reverse :: "nat list \<Rightarrow> 'w node list \<Rightarrow> 'w \<Rightarrow> status \<times> 'w node list \<times> 'w" where
  "reset_nodes_reverse nodes = reset_each (rev nodes) ok_status"

text \<open>\<open>reset_owned_nodes_reverse\<close> runs over the owning vector instead of pointers.\<close>

definition reset_owned_nodes_reverse :: "'w node list \<Rightarrow> 'w \<Rightarrow> status \<times> 'w node list \<times> 'w" where
  "reset_owned_nodes_reverse ns = reset_each (rev [0..<length ns]) ok_status ns"

fun tick_running :: "nat list \<Rightarrow> 'w node list \<Rightarrow> 'w \<Rightarrow> status outcome \<times> 'w node list \<times> 'w" where
  "tick_running [] ns w = (Ret ok_status, ns, w)"
| "tick_running (i # is) ns w =
     (if n_state (ns ! i) \<noteq> N_Running then tick_running is ns w
      else case call_node Op_tick i ns w of
             (Throw e, ns', w') \<Rightarrow> (Throw e, ns', w')
           | (Ret s, ns', w') \<Rightarrow> if tick_fatal s then (Ret s, ns', w') else tick_running is ns' w')"

definition tick_running_downstream ::
  "nat \<Rightarrow> nat list \<Rightarrow> 'w node list \<Rightarrow> 'w \<Rightarrow> status outcome \<times> 'w node list \<times> 'w" where
  "tick_running_downstream current order = tick_running (drop (current + 1) order)"

subsection \<open>start\<close>

fun prepare_loop ::
  "nat list \<Rightarrow> nat list \<Rightarrow> 'w node list \<Rightarrow> 'w \<Rightarrow> status outcome \<times> 'w node list \<times> 'w" where
  "prepare_loop [] prepared ns w = (Ret ok_status, ns, w)"
| "prepare_loop (i # is) prepared ns w =
     (case call_node Op_prepare i ns w of
        (Throw e, ns1, w1) \<Rightarrow> (Throw e, ns1, w1)
      | (Ret s, ns1, w1) \<Rightarrow>
          if \<not> st_ok s
          then (case stop_nodes_reverse prepared ns1 w1 of
                  (Throw e, ns2, w2) \<Rightarrow> (Throw e, ns2, w2)
                | (Ret _, ns2, w2) \<Rightarrow> (Ret s, ns2, w2))
          else prepare_loop is (prepared @ [i]) ns1 w1)"

fun start_loop ::
  "nat list \<Rightarrow> nat list \<Rightarrow> 'w node list \<Rightarrow> 'w \<Rightarrow> status outcome \<times> 'w node list \<times> 'w" where
  "start_loop [] prepared ns w = (Ret ok_status, ns, w)"
| "start_loop (i # is) prepared ns w =
     (case call_node Op_start i ns w of
        (Throw e, ns1, w1) \<Rightarrow> (Throw e, ns1, w1)
      | (Ret s, ns1, w1) \<Rightarrow>
          if \<not> st_ok s
          then (case stop_nodes_reverse prepared ns1 w1 of
                  (Throw e, ns2, w2) \<Rightarrow> (Throw e, ns2, w2)
                | (Ret _, ns2, w2) \<Rightarrow> (Ret s, ns2, w2))
          else start_loop is prepared ns1 w1)"

definition pipeline_start :: "'w pipeline \<Rightarrow> 'w \<Rightarrow> status outcome \<times> 'w pipeline \<times> 'w" where
  "pipeline_start p w =
     (if p_state p = P_Running then (Ret ok_status, p, w)
      else if p_state p = P_Draining
      then (Ret (status_msg kInvalidState ''pipeline is still draining''), p, w)
      else if p_state p = P_Error
      then (Ret (status_msg kInvalidState ''pipeline must be reset after an error''), p, w)
      else
        let p1 = p\<lparr>p_drain_order := [], p_drain_index := 0\<rparr>
        in case topological_order (p_graph p1) of
             Inl s \<Rightarrow> (Ret s, p1\<lparr>p_state := P_Error\<rparr>, w)
           | Inr ids \<Rightarrow>
               if ids = []
               then (Ret (status_msg kInvalidState ''pipeline has no nodes''),
                     p1\<lparr>p_state := P_Error\<rparr>, w)
               else
                 let order = ordered_nodes p1 ids;
                     p2 = p1\<lparr>p_drain_order := order\<rparr>
                 in case prepare_loop order [] (p_nodes p2) w of
                      (Throw e, ns, w1) \<Rightarrow> (Throw e, p2\<lparr>p_nodes := ns\<rparr>, w1)
                    | (Ret s, ns, w1) \<Rightarrow>
                        if \<not> st_ok s
                        then (Ret s, p2\<lparr>p_nodes := ns, p_state := P_Error\<rparr>, w1)
                        else case start_loop order order ns w1 of
                               (Throw e, ns', w2) \<Rightarrow> (Throw e, p2\<lparr>p_nodes := ns'\<rparr>, w2)
                             | (Ret s, ns', w2) \<Rightarrow>
                                 if \<not> st_ok s
                                 then (Ret s, p2\<lparr>p_nodes := ns', p_state := P_Error\<rparr>, w2)
                                 else (Ret ok_status, p2\<lparr>p_nodes := ns', p_state := P_Running\<rparr>, w2))"

subsection \<open>stop\<close>

definition fail_drain :: "status \<Rightarrow> 'w pipeline \<Rightarrow> 'w \<Rightarrow> status outcome \<times> 'w pipeline \<times> 'w" where
  "fail_drain s p w =
     (case reset_nodes_reverse (p_drain_order p) (p_nodes p) w of
        (_, ns, w') \<Rightarrow> (Ret s, p\<lparr>p_nodes := ns, p_state := P_Error\<rparr>, w'))"

definition finish_drain :: "'w pipeline \<Rightarrow> 'w \<Rightarrow> status outcome \<times> 'w pipeline \<times> 'w" where
  "finish_drain p w =
     (case reset_nodes_reverse (p_drain_order p) (p_nodes p) w of
        (s, ns, w') \<Rightarrow>
          if \<not> st_ok s then (Ret s, p\<lparr>p_nodes := ns, p_state := P_Error\<rparr>, w')
          else (Ret ok_status,
                p\<lparr>p_nodes := ns, p_state := P_Stopped, p_drain_order := [], p_drain_index := 0\<rparr>, w'))"

function drain_loop :: "'w pipeline \<Rightarrow> 'w \<Rightarrow> status outcome \<times> 'w pipeline \<times> 'w" where
  "drain_loop p w =
     (if p_drain_index p < length (p_drain_order p)
      then case call_node Op_stop (p_drain_order p ! p_drain_index p) (p_nodes p) w of
             (Throw e, ns, w1) \<Rightarrow> (Throw e, p\<lparr>p_nodes := ns\<rparr>, w1)
           | (Ret s, ns, w1) \<Rightarrow>
               if st_code s = kWouldBlock \<or> st_code s = kNotFound
               then (case tick_running_downstream (p_drain_index p) (p_drain_order p) ns w1 of
                       (Throw e, ns', w2) \<Rightarrow> (Throw e, p\<lparr>p_nodes := ns'\<rparr>, w2)
                     | (Ret d, ns', w2) \<Rightarrow>
                         if \<not> st_ok d then fail_drain d (p\<lparr>p_nodes := ns'\<rparr>) w2
                         else (Ret (status_msg kWouldBlock
                                      ''pipeline drain requires another executor turn''),
                               p\<lparr>p_nodes := ns'\<rparr>, w2))
               else if \<not> st_ok s then fail_drain s (p\<lparr>p_nodes := ns\<rparr>) w1
               else drain_loop (p\<lparr>p_nodes := ns, p_drain_index := Suc (p_drain_index p)\<rparr>) w1
      else finish_drain p w)"
  by pat_completeness auto
termination
  by (relation "measure (\<lambda>(p, w). length (p_drain_order p) - p_drain_index p)") auto

declare drain_loop.simps [simp del]

definition pipeline_stop :: "'w pipeline \<Rightarrow> 'w \<Rightarrow> status outcome \<times> 'w pipeline \<times> 'w" where
  "pipeline_stop p w =
     (if p_state p = P_Stopped then (Ret ok_status, p, w)
      else if p_state p = P_Created then (Ret ok_status, p\<lparr>p_state := P_Stopped\<rparr>, w)
      else if p_state p \<noteq> P_Draining
      then
        (case (if p_drain_order p = []
               then (case topological_order (p_graph p) of
                       Inl s \<Rightarrow> Inl s
                     | Inr ids \<Rightarrow> Inr (p\<lparr>p_drain_order := ordered_nodes p ids\<rparr>))
               else Inr p) of
           Inl s \<Rightarrow> (Ret s, p\<lparr>p_state := P_Error\<rparr>, w)
         | Inr p1 \<Rightarrow>
             let p2 = p1\<lparr>p_drain_index := 0\<rparr>
             in if p_state p2 = P_Error
                then (case reset_nodes_reverse (p_drain_order p2) (p_nodes p2) w of
                        (s, ns, w') \<Rightarrow>
                          (Ret s, p2\<lparr>p_nodes := ns,
                             p_state := if st_ok s then P_Stopped else P_Error\<rparr>, w'))
                else drain_loop (p2\<lparr>p_state := P_Draining\<rparr>) w)
      else drain_loop p w)"

subsection \<open>cancel, destruction, tick\<close>

text \<open>\<open>cancel\<close> is \<open>noexcept\<close>: its result is a plain status.\<close>

definition pipeline_cancel :: "'w pipeline \<Rightarrow> 'w \<Rightarrow> status \<times> 'w pipeline \<times> 'w" where
  "pipeline_cancel p w =
     (if p_state p = P_Stopped then (ok_status, p, w)
      else case (if p_drain_order p = [] then reset_owned_nodes_reverse (p_nodes p) w
                 else reset_nodes_reverse (p_drain_order p) (p_nodes p) w) of
             (s, ns, w') \<Rightarrow>
               if \<not> st_ok s then (s, p\<lparr>p_nodes := ns, p_state := P_Error\<rparr>, w')
               else (ok_status,
                     p\<lparr>p_nodes := ns, p_state := P_Stopped, p_drain_order := [],
                       p_drain_index := 0\<rparr>, w'))"

text \<open>The destructor's body: the pipeline and the world just before the members are destroyed.\<close>

definition pipeline_destroy :: "'w pipeline \<Rightarrow> 'w \<Rightarrow> 'w pipeline \<times> 'w" where
  "pipeline_destroy p w =
     (case pipeline_stop p w of
        (Ret s, p1, w1) \<Rightarrow> if \<not> st_ok s then snd (pipeline_cancel p1 w1) else (p1, w1)
      | (Throw _, p1, w1) \<Rightarrow> snd (pipeline_cancel p1 w1))"

fun tick_loop :: "nat list \<Rightarrow> 'w pipeline \<Rightarrow> 'w \<Rightarrow> status outcome \<times> 'w pipeline \<times> 'w" where
  "tick_loop [] p w = (Ret ok_status, p, w)"
| "tick_loop (i # is) p w =
     (case call_node Op_tick i (p_nodes p) w of
        (Throw e, ns, w1) \<Rightarrow> (Throw e, p\<lparr>p_nodes := ns\<rparr>, w1)
      | (Ret s, ns, w1) \<Rightarrow>
          if tick_fatal s then (Ret s, p\<lparr>p_nodes := ns, p_state := P_Error\<rparr>, w1)
          else tick_loop is (p\<lparr>p_nodes := ns\<rparr>) w1)"

definition pipeline_tick :: "'w pipeline \<Rightarrow> 'w \<Rightarrow> status outcome \<times> 'w pipeline \<times> 'w" where
  "pipeline_tick p w =
     (if p_state p \<noteq> P_Running
      then (Ret (status_msg kInvalidState ''pipeline is not running''), p, w)
      else case topological_order (p_graph p) of
             Inl s \<Rightarrow> (Ret s, p, w)
           | Inr ids \<Rightarrow> tick_loop (ordered_nodes p ids) p w)"

text \<open>\<open>DeterministicExecutor::run\<close> on a pipeline that is not null.\<close>

fun executor_run :: "nat \<Rightarrow> 'w pipeline \<Rightarrow> 'w \<Rightarrow> status outcome \<times> 'w pipeline \<times> 'w" where
  "executor_run 0 p w = (Ret ok_status, p, w)"
| "executor_run (Suc ticks) p w =
     (case pipeline_tick p w of
        (Throw e, p1, w1) \<Rightarrow> (Throw e, p1, w1)
      | (Ret s, p1, w1) \<Rightarrow> if \<not> st_ok s then (Ret s, p1, w1) else executor_run ticks p1 w1)"

subsection \<open>What a call may change\<close>

text \<open>\<open>runs A\<close>: a sequence of operations on nodes whose index is in \<open>A\<close>. Every operation of the
  pipeline is such a sequence, so the facts about \<open>runs\<close> are its frame.\<close>

inductive runs :: "nat set \<Rightarrow> 'w node list \<Rightarrow> 'w \<Rightarrow> 'w node list \<Rightarrow> 'w \<Rightarrow> bool" for A where
  runs_refl [intro, simp]: "runs A ns w ns w"
| runs_step: "i \<in> A \<Longrightarrow> call_node op i ns w = (r, ns1, w1) \<Longrightarrow> runs A ns1 w1 ns2 w2 \<Longrightarrow> runs A ns w ns2 w2"

lemma runs_one: "i \<in> A \<Longrightarrow> call_node op i ns w = (r, ns1, w1) \<Longrightarrow> runs A ns w ns1 w1"
  by (rule runs_step) auto

lemma runs_trans: "runs A ns w ns1 w1 \<Longrightarrow> runs A ns1 w1 ns2 w2 \<Longrightarrow> runs A ns w ns2 w2"
  by (induction rule: runs.induct) (auto intro: runs_step)

lemma runs_mono: "runs A ns w ns1 w1 \<Longrightarrow> A \<subseteq> B \<Longrightarrow> runs B ns w ns1 w1"
  by (induction rule: runs.induct) (auto intro: runs_step)

lemma call_node_frame:
  assumes "call_node op i ns w = (r, ns1, w1)"
  shows "length ns1 = length ns" "map n_id ns1 = map n_id ns" "map n_hooks ns1 = map n_hooks ns"
    "j \<noteq> i \<Longrightarrow> ns1 ! j = ns ! j"
proof -
  obtain n where n: "node_apply op (ns ! i) w = (r, n, w1)" "ns1 = ns[i := n]"
    using assms by (auto simp: call_node_def split: prod.splits)
  then show "length ns1 = length ns" "j \<noteq> i \<Longrightarrow> ns1 ! j = ns ! j" by simp_all
  have "n_id n = n_id (ns ! i)" "n_hooks n = n_hooks (ns ! i)"
    using node_apply_frame [OF n(1)] by simp_all
  then show "map n_id ns1 = map n_id ns" "map n_hooks ns1 = map n_hooks ns"
    by (simp_all add: n(2) map_update list_update_same_conv) (metis list_update_id map_update)+
qed

lemma runs_frame:
  assumes "runs A ns w ns' w'"
  shows "length ns' = length ns \<and> map n_id ns' = map n_id ns \<and> map n_hooks ns' = map n_hooks ns
    \<and> (\<forall>j. j \<notin> A \<longrightarrow> ns' ! j = ns ! j)"
  using assms by (induction rule: runs.induct) (auto dest: call_node_frame, metis call_node_frame(4))

lemmas runs_length = runs_frame [THEN conjunct1]
lemmas runs_outside = runs_frame [THEN conjunct2, THEN conjunct2, THEN conjunct2, rule_format]

lemma call_node_lifecycle:
  "call_node op i ns w = (r, ns1, w1) \<Longrightarrow> i < length ns \<Longrightarrow>
     lifecycle (n_state (ns ! i)) op (n_state (ns1 ! i))"
  by (auto simp: call_node_def split: prod.splits dest: node_apply_lifecycle)

lemma stop_reset_each_runs:
  "stop_reset_each is ns w = (r, ns', w') \<Longrightarrow> set is \<subseteq> A \<Longrightarrow> runs A ns w ns' w'"
proof (induction "is" ns w rule: stop_reset_each.induct)
  case (2 i "is" ns w)
  then show ?case
    by (auto split: prod.splits outcome.splits intro: runs_one runs_step [OF _ _ runs_step])
qed simp

lemma reset_each_runs:
  "reset_each is ff ns w = (r, ns', w') \<Longrightarrow> set is \<subseteq> A \<Longrightarrow> runs A ns w ns' w'"
proof (induction "is" ff ns w rule: reset_each.induct)
  case (2 i "is" ff ns w)
  then show ?case
    by (auto split: prod.splits outcome.splits intro: runs_step)
qed simp

lemma tick_running_runs:
  "tick_running is ns w = (r, ns', w') \<Longrightarrow> set is \<subseteq> A \<Longrightarrow> runs A ns w ns' w'"
proof (induction "is" ns w rule: tick_running.induct)
  case (2 i "is" ns w)
  then show ?case
    by (auto split: prod.splits outcome.splits if_splits intro: runs_one runs_step)
qed simp

lemma stop_nodes_reverse_runs:
  "stop_nodes_reverse is ns w = (r, ns', w') \<Longrightarrow> set is \<subseteq> A \<Longrightarrow> runs A ns w ns' w'"
  by (simp add: stop_nodes_reverse_def stop_reset_each_runs)

lemma reset_nodes_reverse_runs:
  "reset_nodes_reverse is ns w = (r, ns', w') \<Longrightarrow> set is \<subseteq> A \<Longrightarrow> runs A ns w ns' w'"
  by (simp add: reset_nodes_reverse_def reset_each_runs)

lemma prepare_loop_runs:
  "prepare_loop is done ns w = (r, ns', w') \<Longrightarrow> set is \<union> set done \<subseteq> A \<Longrightarrow> runs A ns w ns' w'"
proof (induction "is" "done" ns w rule: prepare_loop.induct)
  case (2 i "is" "done" ns w)
  then show ?case
    by (auto split: prod.splits outcome.splits if_splits
        intro: runs_one runs_step dest: stop_nodes_reverse_runs [where A = A])
qed simp

lemma start_loop_runs:
  "start_loop is all ns w = (r, ns', w') \<Longrightarrow> set is \<union> set all \<subseteq> A \<Longrightarrow> runs A ns w ns' w'"
proof (induction "is" all ns w rule: start_loop.induct)
  case (2 i "is" all ns w)
  then show ?case
    by (auto split: prod.splits outcome.splits if_splits
        intro: runs_one runs_step dest: stop_nodes_reverse_runs [where A = A])
qed simp

lemmas loop_runs = stop_nodes_reverse_runs reset_nodes_reverse_runs tick_running_runs
  prepare_loop_runs start_loop_runs

subsection \<open>What the loops achieve\<close>

abbreviation state_at :: "'w node list \<Rightarrow> nat \<Rightarrow> node_state" where
  "state_at ns i \<equiv> n_state (ns ! i)"

abbreviation at_rest :: "node_state \<Rightarrow> bool" where
  "at_rest s \<equiv> s = N_Created \<or> s = N_Error"

lemma call_reset_state:
  "call_node Op_reset i ns w = (Ret s, ns', w') \<Longrightarrow> i < length ns \<Longrightarrow>
     at_rest (state_at ns' i) \<and> (st_ok s \<longrightarrow> state_at ns' i = N_Created)"
  by (auto simp: call_node_def split: prod.splits dest: node_reset_ret node_reset_ok)

lemma stop_reset_each_rests:
  assumes "stop_reset_each is ns w = (Ret (), ns', w')" "set is \<subseteq> {..<length ns}" "i \<in> set is"
  shows "at_rest (state_at ns' i)"
  using assms
proof (induction "is" arbitrary: ns w)
  case (Cons k "is")
  from Cons.prems(1) obtain s1 ns1 w1 s2 ns2 w2 where
    stop: "call_node Op_stop k ns w = (Ret s1, ns1, w1)" and
    reset: "call_node Op_reset k ns1 w1 = (Ret s2, ns2, w2)" and
    rest: "stop_reset_each is ns2 w2 = (Ret (), ns', w')"
    by (auto split: prod.splits outcome.splits)
  have len: "length ns1 = length ns" "length ns2 = length ns"
    using call_node_frame(1) [OF stop] call_node_frame(1) [OF reset] by simp_all
  show ?case
  proof (cases "i \<in> set is")
    case True
    then show ?thesis
      using Cons.IH [OF rest] Cons.prems(2) len by auto
  next
    case False
    then have "i = k" using Cons.prems(3) by simp
    moreover have "at_rest (state_at ns2 k)"
      using call_reset_state [OF reset] Cons.prems(2) len by simp
    moreover have "ns' ! k = ns2 ! k"
      using runs_outside [OF stop_reset_each_runs [OF rest order_refl]] False \<open>i = k\<close> by simp
    ultimately show ?thesis by simp
  qed
qed simp

lemma handled_not_ok [simp]: "\<not> st_ok (handled e)"
  by (cases e) (simp_all add: handled_def st_ok_def status_of_def)

lemma reset_each_first_failure: "\<not> st_ok ff \<Longrightarrow> fst (reset_each is ff ns w) = ff"
  by (induction "is" ff ns w rule: reset_each.induct) (auto split: prod.splits outcome.splits)

lemma reset_each_created:
  assumes "reset_each is ff ns w = (s, ns', w')" "st_ok s" "set is \<subseteq> {..<length ns}" "i \<in> set is"
  shows "state_at ns' i = N_Created"
  using assms
proof (induction "is" arbitrary: ff ns w)
  case (Cons k "is")
  obtain r ns1 w1 where call: "call_node Op_reset k ns w = (r, ns1, w1)"
    by (metis prod_cases3)
  have len: "length ns1 = length ns" using call_node_frame(1) [OF call] .
  let ?ff = "case r of Ret s \<Rightarrow> if st_ok ff \<and> \<not> st_ok s then s else ff
                     | Throw e \<Rightarrow> if st_ok ff then handled e else ff"
  have rest: "reset_each is ?ff ns1 w1 = (s, ns', w')"
    using Cons.prems(1) call by (cases r) (simp_all split: if_splits)
  have "st_ok ?ff" using reset_each_first_failure [of ?ff "is" ns1 w1] rest Cons.prems(2) by force
  then obtain s1 where r: "r = Ret s1" "st_ok s1" "?ff = ff"
    by (auto split: outcome.splits if_splits)
  show ?case
  proof (cases "i \<in> set is")
    case True
    then show ?thesis
      using Cons.IH [OF rest] Cons.prems(2,3) len by simp
  next
    case False
    then have "i = k" using Cons.prems(4) by simp
    moreover have "state_at ns1 k = N_Created"
      using call_reset_state [OF call [unfolded r(1)]] r(2) Cons.prems(3) by simp
    moreover have "ns' ! k = ns1 ! k"
      using runs_outside [OF reset_each_runs [OF rest order_refl]] False \<open>i = k\<close> by simp
    ultimately show ?thesis by simp
  qed
qed simp

lemma call_prepare_state:
  "call_node Op_prepare i ns w = (Ret s, ns', w') \<Longrightarrow> i < length ns \<Longrightarrow>
     (st_ok s \<longrightarrow> state_at ns' i = N_Prepared)
     \<and> (\<not> st_ok s \<longrightarrow> state_at ns' i = N_Error \<or> state_at ns' i = state_at ns i)"
  by (auto simp: call_node_def split: prod.splits dest: node_prepare_ok node_prepare_failed)

lemma call_start_state:
  "call_node Op_start i ns w = (Ret s, ns', w') \<Longrightarrow> i < length ns \<Longrightarrow> st_ok s \<Longrightarrow>
     state_at ns' i = N_Running"
  by (auto simp: call_node_def split: prod.splits dest: node_start_ok)

lemma prepare_loop_ok:
  assumes "prepare_loop is done ns w = (Ret s, ns', w')" "st_ok s" "distinct is"
    "set is \<subseteq> {..<length ns}" "i \<in> set is"
  shows "state_at ns' i = N_Prepared"
  using assms
proof (induction "is" arbitrary: "done" ns w)
  case (Cons k "is")
  from Cons.prems(1,2) obtain s1 ns1 w1 where
    call: "call_node Op_prepare k ns w = (Ret s1, ns1, w1)" "st_ok s1" and
    rest: "prepare_loop is (done @ [k]) ns1 w1 = (Ret s, ns', w')"
    by (auto split: prod.splits outcome.splits if_splits)
  have len: "length ns1 = length ns" using call_node_frame(1) [OF call(1)] .
  show ?case
  proof (cases "i \<in> set is")
    case True
    then show ?thesis using Cons.IH [OF rest] Cons.prems len by auto
  next
    case False
    then have "i = k" using Cons.prems(5) by simp
    then have k: "state_at ns1 i = N_Prepared"
      using call_prepare_state [OF call(1)] call(2) Cons.prems(4) by simp
    from rest False k show ?thesis
    proof (induction "is" arbitrary: "done" ns1 w1 k)
      case (Cons m "is")
      from Cons.prems(1) \<open>st_ok s\<close> obtain s2 ns2 w2 where
        call: "call_node Op_prepare m ns1 w1 = (Ret s2, ns2, w2)" and
        rest: "prepare_loop is ((done @ [k]) @ [m]) ns2 w2 = (Ret s, ns', w')"
        by (auto split: prod.splits outcome.splits if_splits)
      have "ns2 ! i = ns1 ! i" using call_node_frame(4) [OF call] Cons.prems(2) by auto
      with Cons.IH [OF rest] Cons.prems(2,3) show ?case by simp
    qed simp
  qed
qed simp

lemma start_loop_ok:
  assumes "start_loop is all ns w = (Ret s, ns', w')" "st_ok s"
    "set is \<subseteq> {..<length ns}" "i \<in> set is \<or> state_at ns i = N_Running"
  shows "state_at ns' i = N_Running"
  using assms
proof (induction "is" arbitrary: ns w)
  case (Cons k "is")
  from Cons.prems(1,2) obtain s1 ns1 w1 where
    call: "call_node Op_start k ns w = (Ret s1, ns1, w1)" "st_ok s1" and
    rest: "start_loop is all ns1 w1 = (Ret s, ns', w')"
    by (auto split: prod.splits outcome.splits if_splits)
  have len: "length ns1 = length ns" using call_node_frame(1) [OF call(1)] .
  have "state_at ns1 k = N_Running"
    using call_start_state [OF call(1)] call(2) Cons.prems(3) by simp
  moreover have "i \<noteq> k \<Longrightarrow> ns1 ! i = ns ! i" using call_node_frame(4) [OF call(1)] by simp
  ultimately show ?case
    using Cons.IH [OF rest] Cons.prems(2-4) len by (cases "i = k") auto
qed simp

text \<open>A preparation that fails leaves nothing prepared: what had been prepared is stopped and
  reset again.\<close>

lemma prepare_loop_failed:
  assumes "prepare_loop is done ns w = (Ret s, ns', w')" "\<not> st_ok s"
    "set done \<union> set is \<subseteq> {..<length ns}" "i < length ns"
    "\<And>j. j < length ns \<Longrightarrow> j \<notin> set done \<Longrightarrow> at_rest (state_at ns j)"
  shows "at_rest (state_at ns' i)"
  using assms
proof (induction "is" arbitrary: "done" ns w)
  case (Cons k "is")
  from Cons.prems(1) obtain s1 ns1 w1 where
    call: "call_node Op_prepare k ns w = (Ret s1, ns1, w1)"
    by (auto split: prod.splits outcome.splits)
  have len: "length ns1 = length ns" using call_node_frame(1) [OF call] .
  have other: "j \<noteq> k \<Longrightarrow> ns1 ! j = ns ! j" for j using call_node_frame(4) [OF call] by simp
  show ?case
  proof (cases "st_ok s1")
    case True
    then have "prepare_loop is (done @ [k]) ns1 w1 = (Ret s, ns', w')"
      using Cons.prems(1) call by simp
    then show ?thesis
      using Cons.IH [of "done @ [k]" ns1 w1] Cons.prems(2-5) len other by auto
  next
    case False
    then obtain ns2 w2 where stop: "stop_nodes_reverse done ns1 w1 = (Ret (), ns', w2)"
      using Cons.prems(1) call by (auto split: prod.splits outcome.splits)
    show ?thesis
    proof (cases "i \<in> set done")
      case True
      then show ?thesis
        using stop_reset_each_rests [of "rev done" ns1 w1 ns' w2 i] stop Cons.prems(3) len
        by (simp add: stop_nodes_reverse_def)
    next
      case out: False
      then have "ns' ! i = ns1 ! i"
        using runs_outside [OF stop_nodes_reverse_runs [OF stop order_refl]] by simp
      moreover have "at_rest (state_at ns i)" using Cons.prems(4,5) out by blast
      then have "at_rest (state_at ns1 i)"
        using Cons.prems(3) call_prepare_state [OF call] other [of i] False
        by (cases "i = k") auto
      ultimately show ?thesis by simp
    qed
  qed
qed simp

lemma start_loop_failed:
  assumes "start_loop is all ns w = (Ret s, ns', w')" "\<not> st_ok s"
    "set is \<subseteq> set all" "set all \<subseteq> {..<length ns}" "i \<in> set all"
  shows "at_rest (state_at ns' i)"
  using assms
proof (induction "is" arbitrary: ns w)
  case (Cons k "is")
  from Cons.prems(1) obtain s1 ns1 w1 where
    call: "call_node Op_start k ns w = (Ret s1, ns1, w1)"
    by (auto split: prod.splits outcome.splits)
  have len: "length ns1 = length ns" using call_node_frame(1) [OF call] .
  show ?case
  proof (cases "st_ok s1")
    case True
    then have "start_loop is all ns1 w1 = (Ret s, ns', w')"
      using Cons.prems(1) call by simp
    then show ?thesis using Cons.IH Cons.prems(2-5) len by auto
  next
    case False
    then obtain ns2 w2 where "stop_nodes_reverse all ns1 w1 = (Ret (), ns', w2)"
      using Cons.prems(1) call by (auto split: prod.splits outcome.splits)
    then show ?thesis
      using stop_reset_each_rests [of "rev all" ns1 w1 ns' w2 i] Cons.prems(4,5) len
      by (simp add: stop_nodes_reverse_def)
  qed
qed simp

text \<open>Ticks change no node's state unless one fails fatally.\<close>

lemma call_tick_states:
  assumes "call_node Op_tick i ns w = (r, ns', w')" "\<And>s. r = Ret s \<Longrightarrow> \<not> tick_fatal s"
  shows "map n_state ns' = map n_state ns"
proof -
  obtain n where n: "node_tick (ns ! i) w = (r, n, w')" "ns' = ns[i := n]"
    using assms(1) by (auto simp: call_node_def split: prod.splits)
  then have "n = ns ! i"
    using assms(2) by (auto simp: node_tick_def split: if_splits prod.splits outcome.splits)
  with n show ?thesis by simp
qed

lemma tick_running_states:
  assumes "tick_running is ns w = (r, ns', w')" "\<And>s. r = Ret s \<Longrightarrow> st_ok s"
  shows "map n_state ns' = map n_state ns"
  using assms
proof (induction "is" arbitrary: ns w)
  case (Cons k "is")
  show ?case
  proof (cases "n_state (ns ! k) = N_Running")
    case run: True
    obtain r1 ns1 w1 where call: "call_node Op_tick k ns w = (r1, ns1, w1)" by (metis prod_cases3)
    have nf: "\<not> tick_fatal s" if "r1 = Ret s" for s
    proof
      assume "tick_fatal s"
      with Cons.prems run call that show False
        by (cases "st_ok s") (auto simp: tick_fatal_def)
    qed
    from call_tick_states [OF call nf] show ?thesis
      using Cons.prems Cons.IH [of ns1 w1] run call nf
      by (auto split: outcome.splits)
  qed (use Cons in auto)
qed simp

lemma map_state_at: "map n_state ns' = map n_state ns \<Longrightarrow> i < length ns \<Longrightarrow> state_at ns' i = state_at ns i"
  by (metis length_map nth_map)

lemma call_stop_state:
  assumes "call_node Op_stop i ns w = (r, ns', w')" "i < length ns"
    "state_at ns i = N_Running \<or> state_at ns i = N_Draining"
  shows "case r of
      Throw e \<Rightarrow> state_at ns' i = N_Draining
    | Ret s \<Rightarrow> if st_code s = kWouldBlock \<or> st_code s = kNotFound then state_at ns' i = N_Draining
              else if st_ok s then state_at ns' i = N_Stopped else state_at ns' i = N_Error"
  using assms
  by (auto simp: call_node_def node_stop_def Let_def st_ok_def split: if_splits prod.splits outcome.splits)

end
