(* ===== verification/Pipeline_Correct.thy ===== *)
theory Pipeline_Correct
  imports Pipeline
begin

text \<open>
  What \<open>MediaPipeline\<close> guarantees. \<open>pipeline_inv\<close> holds in every state a client can reach,
  exceptions included; \<open>pipeline_rest\<close> holds in addition as long as no exception has left an
  operation. From them: the outcome of \<open>start\<close> with its rollback, the order and the progress
  of \<open>stop\<close>, \<open>cancel\<close> and the destructor.
\<close>

subsection \<open>The invariant\<close>

definition node_name :: "'w pipeline \<Rightarrow> nat \<Rightarrow> string" where
  "node_name p i = n_id (p_nodes p ! i)"

definition pipeline_wf :: "'w pipeline \<Rightarrow> bool" where
  "pipeline_wf p \<longleftrightarrow> graph_inv (p_graph p) \<and> map n_id (p_nodes p) = g_nodes (p_graph p)
     \<and> (\<forall>i < length (p_nodes p). p_nodes_by_id p (node_name p i) = Some i)
     \<and> distinct (p_drain_order p) \<and> set (p_drain_order p) \<subseteq> {..<length (p_nodes p)}"

text \<open>\<open>order\<close> lists every node once, each after the nodes that feed it.\<close>

definition covers :: "'w pipeline \<Rightarrow> nat list \<Rightarrow> bool" where
  "covers p order \<longleftrightarrow> distinct order \<and> set order = {..<length (p_nodes p)}
     \<and> topo_sorted (graph_rel (p_graph p)) (map (node_name p) order)"

text \<open>Draining has reached position \<open>k\<close>: the nodes before it have stopped, those after it run.\<close>

definition drain_shape :: "nat list \<Rightarrow> nat \<Rightarrow> 'w node list \<Rightarrow> bool" where
  "drain_shape order k ns \<longleftrightarrow>
     (\<forall>j < length order. (j < k \<longrightarrow> state_at ns (order ! j) = N_Stopped)
        \<and> (j = k \<longrightarrow> state_at ns (order ! j) = N_Running \<or> state_at ns (order ! j) = N_Draining)
        \<and> (k < j \<longrightarrow> state_at ns (order ! j) = N_Running))"

definition draining_at :: "'w pipeline \<Rightarrow> bool" where
  "draining_at p \<longleftrightarrow> p_drain_index p < length (p_drain_order p)
     \<and> drain_shape (p_drain_order p) (p_drain_index p) (p_nodes p)
     \<and> state_at (p_nodes p) (p_drain_order p ! p_drain_index p) = N_Draining"

definition pipeline_inv :: "'w pipeline \<Rightarrow> bool" where
  "pipeline_inv p \<longleftrightarrow> pipeline_wf p
     \<and> (p_state p = P_Running \<or> p_state p = P_Draining \<longrightarrow> covers p (p_drain_order p) \<and> p_nodes p \<noteq> [])
     \<and> (p_state p = P_Running \<longrightarrow> (\<forall>n \<in> set (p_nodes p). n_state n = N_Running))
     \<and> (p_state p = P_Draining \<longrightarrow> draining_at p)"

definition all_created :: "'w node list \<Rightarrow> bool" where
  "all_created ns \<longleftrightarrow> (\<forall>n \<in> set ns. n_state n = N_Created)"

definition pipeline_rest :: "'w pipeline \<Rightarrow> bool" where
  "pipeline_rest p \<longleftrightarrow>
     (p_state p = P_Created \<or> p_state p = P_Stopped \<longrightarrow> all_created (p_nodes p))
     \<and> (p_state p = P_Error \<and> p_drain_order p \<noteq> [] \<longrightarrow>
          (\<forall>i < length (p_nodes p). i \<notin> set (p_drain_order p) \<longrightarrow> state_at (p_nodes p) i = N_Created))"

text \<open>The operations change the nodes through \<open>runs\<close>, and no field but the nodes, the state and
  the two drain fields.\<close>

definition same_frame :: "'w pipeline \<Rightarrow> 'w pipeline \<Rightarrow> bool" where
  "same_frame p p' \<longleftrightarrow> p_id p' = p_id p \<and> p_graph p' = p_graph p \<and> p_nodes_by_id p' = p_nodes_by_id p
     \<and> length (p_nodes p') = length (p_nodes p) \<and> map n_id (p_nodes p') = map n_id (p_nodes p)
     \<and> map n_hooks (p_nodes p') = map n_hooks (p_nodes p)"

lemma same_frame_refl [simp]: "same_frame p p"
  by (simp add: same_frame_def)

lemma same_frame_trans: "same_frame p q \<Longrightarrow> same_frame q r \<Longrightarrow> same_frame p r"
  by (simp add: same_frame_def)

lemma same_frame_fields [simp]:
  "same_frame p (q\<lparr>p_state := s\<rparr>) = same_frame p q"
  "same_frame p (q\<lparr>p_drain_order := d\<rparr>) = same_frame p q"
  "same_frame p (q\<lparr>p_drain_index := k\<rparr>) = same_frame p q"
  by (simp_all add: same_frame_def)

lemma same_frame_runs:
  "runs A (p_nodes p) w ns w' \<Longrightarrow> same_frame q p \<Longrightarrow> same_frame q (p\<lparr>p_nodes := ns\<rparr>)"
  by (auto simp: same_frame_def dest: runs_frame)

lemma node_name_frame: "same_frame p p' \<Longrightarrow> i < length (p_nodes p) \<Longrightarrow> node_name p' i = node_name p i"
  by (metis node_name_def nth_map same_frame_def)

lemma pipeline_wf_frame:
  "pipeline_wf p \<Longrightarrow> same_frame p p' \<Longrightarrow> distinct (p_drain_order p') \<Longrightarrow>
     set (p_drain_order p') \<subseteq> {..<length (p_nodes p)} \<Longrightarrow> pipeline_wf p'"
  using node_name_frame [of p p'] by (auto simp: pipeline_wf_def same_frame_def)

lemma covers_frame:
  assumes "covers p order" "same_frame p p'"
  shows "covers p' order"
proof -
  have "map (node_name p') order = map (node_name p) order"
    using assms node_name_frame [of p p'] by (auto simp: covers_def)
  moreover have "length (p_nodes p') = length (p_nodes p)" "p_graph p' = p_graph p"
    using assms(2) by (simp_all add: same_frame_def)
  ultimately show ?thesis using assms(1) unfolding covers_def by metis
qed

lemma covers_range: "covers p order \<Longrightarrow> distinct order \<and> set order \<subseteq> {..<length (p_nodes p)}"
  by (simp add: covers_def)

lemma covers_Nil: "covers p order \<Longrightarrow> order = [] \<longleftrightarrow> p_nodes p = []"
  by (metis card_lessThan covers_def distinct_card length_0_conv)

lemma ordered_nodes_covers:
  assumes wf: "pipeline_wf p" and ids: "topological_order (p_graph p) = Inr ids"
  shows "covers p (ordered_nodes p ids)"
proof -
  let ?o = "ordered_nodes p ids" and ?n = "length (p_nodes p)"
  have gi: "graph_inv (p_graph p)" and nodes: "map n_id (p_nodes p) = g_nodes (p_graph p)"
    and idx: "\<And>i. i < ?n \<Longrightarrow> p_nodes_by_id p (node_name p i) = Some i"
    using wf by (auto simp: pipeline_wf_def)
  have facts: "distinct ids" "set ids = set (g_nodes (p_graph p))" "topo_sorted (graph_rel (p_graph p)) ids"
    using topological_order_Inr [OF _ ids] gi by (auto simp: graph_inv_def)
  have names: "set ids = node_name p ` {..<?n}"
    unfolding facts(2) nodes [symmetric] by (force simp: node_name_def in_set_conv_nth)
  have inverse: "node_name p (the (p_nodes_by_id p x)) = x \<and> the (p_nodes_by_id p x) < ?n"
    if "x \<in> set ids" for x
    using that idx unfolding names by auto
  have m: "map (node_name p) ?o = ids"
    unfolding ordered_nodes_def map_map by (rule map_idI) (simp add: inverse)
  have "distinct ?o"
    using m facts(1) distinct_map [of "node_name p" ?o] by simp
  moreover have "set ?o = {..<?n}"
  proof
    show "set ?o \<subseteq> {..<?n}" using inverse by (auto simp: ordered_nodes_def)
    show "{..<?n} \<subseteq> set ?o"
    proof
      fix i assume "i \<in> {..<?n}"
      then have "node_name p i \<in> set ids" "the (p_nodes_by_id p (node_name p i)) = i"
        using idx unfolding names by auto
      then show "i \<in> set ?o" unfolding ordered_nodes_def by force
    qed
  qed
  ultimately show ?thesis using facts(3) m by (simp add: covers_def)
qed

lemma pipeline_order_total:
  assumes "pipeline_wf p"
  obtains ids where "topological_order (p_graph p) = Inr ids" "covers p (ordered_nodes p ids)"
  using assms topological_order_total [of "p_graph p"] ordered_nodes_covers [OF assms]
  by (metis pipeline_wf_def)

lemma all_created_nth: "all_created ns \<longleftrightarrow> (\<forall>i < length ns. state_at ns i = N_Created)"
  by (simp add: all_created_def all_set_conv_all_nth)

subsection \<open>start\<close>

text \<open>The ways \<open>start\<close> ends.\<close>

lemma pipeline_start_cases:
  assumes wf: "pipeline_wf p" and run: "pipeline_start p w = (r, p', w')"
  obtains
    (refused) "p_state p = P_Running \<or> p_state p = P_Draining \<or> p_state p = P_Error" "p' = p" "w' = w"
      "r = Ret ok_status \<and> p_state p = P_Running
       \<or> (\<exists>s. r = Ret s \<and> st_code s = kInvalidState \<and> p_state p \<noteq> P_Running)"
  | (no_nodes) "p_nodes p = []" "p_nodes p' = []" "p_state p' = P_Error" "p_drain_order p' = []"
      "same_frame p p'" "w' = w" "\<exists>s. r = Ret s \<and> \<not> st_ok s"
      "p_state p = P_Created \<or> p_state p = P_Stopped"
  | (threw) e where "r = Throw e" "same_frame p p'" "covers p (p_drain_order p')"
      "p_state p = P_Created \<or> p_state p = P_Stopped" "p_state p' = p_state p" "p_nodes p \<noteq> []"
  | (failed) s where "r = Ret s" "\<not> st_ok s" "same_frame p p'" "covers p (p_drain_order p')"
      "p_state p = P_Created \<or> p_state p = P_Stopped" "p_state p' = P_Error" "p_nodes p \<noteq> []"
      "all_created (p_nodes p) \<Longrightarrow> \<forall>i < length (p_nodes p). at_rest (state_at (p_nodes p') i)"
  | (started) "r = Ret ok_status" "same_frame p p'" "covers p (p_drain_order p')"
      "p_state p = P_Created \<or> p_state p = P_Stopped" "p_state p' = P_Running" "p_nodes p \<noteq> []"
      "\<forall>i < length (p_nodes p). state_at (p_nodes p') i = N_Running"
proof (cases "p_state p = P_Running \<or> p_state p = P_Draining \<or> p_state p = P_Error")
  case True
  then show thesis using run by (intro refused) (auto simp: pipeline_start_def status_msg_def)
next
  case False
  then have st: "p_state p = P_Created \<or> p_state p = P_Stopped" by (cases "p_state p") auto
  obtain ids where ids: "topological_order (p_graph p) = Inr ids" "covers p (ordered_nodes p ids)"
    using pipeline_order_total [OF wf] .
  let ?p1 = "p\<lparr>p_drain_order := [], p_drain_index := 0\<rparr>"
  define order where "order = ordered_nodes p ids"
  let ?p2 = "?p1\<lparr>p_drain_order := order\<rparr>"
  have ord: "ordered_nodes ?p1 ids = order" by (simp add: order_def ordered_nodes_def)
  have cov: "covers p order" using ids(2) by (simp add: order_def)
  then have rng: "distinct order" "set order = {..<length (p_nodes p)}" by (simp_all add: covers_def)
  show thesis
  proof (cases "ids = []")
    case True
    then have "order = []" by (simp add: order_def ordered_nodes_def)
    then have "p_nodes p = []" using covers_Nil [OF cov] by simp
    then show thesis
      using run st True ids(1)
      by (intro no_nodes) (auto simp: pipeline_start_def status_msg_def st_ok_def)
  next
    case ne: False
    then have "order \<noteq> []" by (simp add: order_def ordered_nodes_def)
    then have nn: "p_nodes p \<noteq> []" using covers_Nil [OF cov] by simp
    obtain r1 ns w1 where prep: "prepare_loop order [] (p_nodes p) w = (r1, ns, w1)" by (metis prod_cases3)
    have frame1: "same_frame p (?p2\<lparr>p_nodes := ns\<rparr>)"
      using same_frame_runs [of _ ?p2 w ns w1 p] prepare_loop_runs [OF prep order_refl] by simp
    note run' = run [unfolded pipeline_start_def Let_def]
    show thesis
    proof (cases "\<exists>s. r1 = Ret s \<and> st_ok s")
      case False
      show thesis
      proof (cases r1)
        case (Throw e)
        then have "r = Throw e" "p' = ?p2\<lparr>p_nodes := ns\<rparr>"
          using run' st ids(1) ne ord prep by auto
        then show thesis using frame1 cov st nn by (intro threw) simp_all
      next
        case (Ret s)
        then have s: "r = Ret s" "\<not> st_ok s" "p' = ?p2\<lparr>p_nodes := ns, p_state := P_Error\<rparr>"
          using run' st ids(1) ne ord prep False by auto
        have "\<forall>i < length (p_nodes p). at_rest (state_at ns i)" if "all_created (p_nodes p)"
          using prepare_loop_failed [OF prep [unfolded Ret] s(2)] rng(2) that
          by (simp add: all_created_nth)
        then show thesis using s frame1 cov st nn by (intro failed [of s]) simp_all
      qed
    next
      case True
      then obtain s where s: "r1 = Ret s" "st_ok s" by blast
      obtain r2 ns' w2 where start: "start_loop order order ns w1 = (r2, ns', w2)" by (metis prod_cases3)
      have len: "length ns = length (p_nodes p)"
        using frame1 by (simp add: same_frame_def)
      have frame2: "same_frame p (?p2\<lparr>p_nodes := ns'\<rparr>)"
        using same_frame_runs [of "set order" "?p2\<lparr>p_nodes := ns\<rparr>" w1 ns' w2 p]
          start_loop_runs [OF start, of "set order"] frame1 by simp
      show thesis
      proof (cases "\<exists>s. r2 = Ret s \<and> st_ok s")
        case True
        then have "\<forall>i < length (p_nodes p). state_at ns' i = N_Running"
          using start_loop_ok [of order order ns w1 _ ns' w2] start rng len by auto
        with True show thesis
          using run' st ids(1) ne ord prep frame2 cov nn s start
          by (intro started) auto
      next
        case False
        have "\<forall>i < length (p_nodes p). at_rest (state_at ns' i)" if "r2 = Ret s" for s
          using start_loop_failed [of order order ns w1 s ns' w2] start rng len that False by auto
        note rests = this
        show thesis
        proof (cases r2)
          case (Throw e)
          then have "r = Throw e" "p' = ?p2\<lparr>p_nodes := ns'\<rparr>"
            using run' st ids(1) ne ord prep s start by auto
          then show thesis using frame2 cov st nn by (intro threw) simp_all
        next
          case (Ret s2)
          then have "r = Ret s2" "\<not> st_ok s2" "p' = ?p2\<lparr>p_nodes := ns', p_state := P_Error\<rparr>"
            using run' st ids(1) ne ord prep s start False by auto
          then show thesis using frame2 cov st nn rests [OF Ret] by (intro failed [of s2]) simp_all
        qed
      qed
    qed
  qed
qed

subsection \<open>stop\<close>

lemma reset_nodes_reverse_created:
  "reset_nodes_reverse order ns w = (s, ns', w') \<Longrightarrow> st_ok s \<Longrightarrow> set order \<subseteq> {..<length ns} \<Longrightarrow>
     i \<in> set order \<Longrightarrow> state_at ns' i = N_Created"
  using reset_each_created [of "rev order" ok_status ns w s ns' w' i]
  by (simp add: reset_nodes_reverse_def)

lemma reset_nodes_reverse_frame:
  "reset_nodes_reverse order (p_nodes p) w = (s, ns', w') \<Longrightarrow> same_frame p (p\<lparr>p_nodes := ns'\<rparr>)"
  by (rule same_frame_runs [OF reset_nodes_reverse_runs [OF _ order_refl] same_frame_refl])

lemma covers_created:
  "covers p order \<Longrightarrow> length ns = length (p_nodes p) \<Longrightarrow> \<forall>i \<in> set order. state_at ns i = N_Created \<Longrightarrow>
     all_created ns"
  by (simp add: all_created_nth covers_def)

text \<open>How a drain goes on from position \<open>p_drain_index p\<close>: it is held up (or a node throws) at
  a later position, it fails, or it completes.\<close>

definition drain_held :: "'w pipeline \<Rightarrow> status outcome \<Rightarrow> 'w pipeline \<Rightarrow> bool" where
  "drain_held p r p' \<longleftrightarrow> same_frame p p' \<and> p_state p' = P_Draining \<and> draining_at p'
     \<and> p_drain_order p' = p_drain_order p \<and> p_drain_index p \<le> p_drain_index p'
     \<and> (\<forall>s. r = Ret s \<longrightarrow> st_code s = kWouldBlock)"

definition drain_failed :: "'w pipeline \<Rightarrow> status outcome \<Rightarrow> 'w pipeline \<Rightarrow> bool" where
  "drain_failed p r p' \<longleftrightarrow> same_frame p p' \<and> p_state p' = P_Error
     \<and> p_drain_order p' = p_drain_order p \<and> (\<exists>s. r = Ret s \<and> \<not> st_ok s)"

definition drain_done :: "'w pipeline \<Rightarrow> status outcome \<Rightarrow> 'w pipeline \<Rightarrow> bool" where
  "drain_done p r p' \<longleftrightarrow> same_frame p p' \<and> p_state p' = P_Stopped \<and> all_created (p_nodes p')
     \<and> p_drain_order p' = [] \<and> r = Ret ok_status"

lemma fail_drain_failed:
  "fail_drain s p w = (r, p', w') \<Longrightarrow> \<not> st_ok s \<Longrightarrow> drain_failed p r p'"
  by (auto simp: fail_drain_def drain_failed_def split: prod.splits dest: reset_nodes_reverse_frame)

lemma finish_drain_cases:
  assumes "finish_drain p w = (r, p', w')" "covers p (p_drain_order p)"
  shows "drain_failed p r p' \<or> drain_done p r p'"
proof -
  obtain s ns w1 where reset: "reset_nodes_reverse (p_drain_order p) (p_nodes p) w = (s, ns, w1)"
    by (metis prod_cases3)
  have frame: "same_frame p (p\<lparr>p_nodes := ns\<rparr>)" using reset_nodes_reverse_frame [OF reset] .
  show ?thesis
  proof (cases "st_ok s")
    case True
    have len: "length ns = length (p_nodes p)" using frame by (simp add: same_frame_def)
    have "all_created ns"
      using reset_nodes_reverse_created [OF reset True] covers_range [OF assms(2)]
      by (intro covers_created [OF assms(2) len]) simp
    then show ?thesis
      using assms(1) reset True frame by (auto simp: finish_drain_def drain_done_def)
  next
    case False
    then show ?thesis
      using assms(1) reset frame by (auto simp: finish_drain_def drain_failed_def)
  qed
qed

lemma drain_held_step: "same_frame p q \<Longrightarrow> p_drain_order q = p_drain_order p \<Longrightarrow>
    p_drain_index p \<le> p_drain_index q \<Longrightarrow>
    drain_held q r p' \<or> drain_failed q r p' \<or> drain_done q r p' \<Longrightarrow>
    drain_held p r p' \<or> drain_failed p r p' \<or> drain_done p r p'"
  by (auto simp: drain_held_def drain_failed_def drain_done_def intro: same_frame_trans)

lemma drain_loop_cases:
  assumes "drain_loop p w = (r, p', w')" "covers p (p_drain_order p)" "p_state p = P_Draining"
    "drain_shape (p_drain_order p) (p_drain_index p) (p_nodes p)"
  shows "drain_held p r p' \<or> drain_failed p r p' \<or> drain_done p r p'"
  using assms
proof (induction p w rule: drain_loop.induct)
  case (1 p w)
  let ?k = "p_drain_index p" and ?o = "p_drain_order p"
  note unfold = "1.prems"(1) [unfolded drain_loop.simps [of p w]]
  show ?case
  proof (cases "?k < length ?o")
    case False
    then have "finish_drain p w = (r, p', w')" using unfold by simp
    from finish_drain_cases [OF this "1.prems"(2)] show ?thesis by blast
  next
    case True
    obtain r1 ns w1 where call: "call_node Op_stop (?o ! ?k) (p_nodes p) w = (r1, ns, w1)"
      by (metis prod_cases3)
    have kin: "?o ! ?k < length (p_nodes p)"
      using covers_range [OF "1.prems"(2)] True nth_mem by blast
    have run_k: "state_at (p_nodes p) (?o ! ?k) = N_Running \<or> state_at (p_nodes p) (?o ! ?k) = N_Draining"
      using "1.prems"(4) True by (simp add: drain_shape_def)
    note at_k = call_stop_state [OF call kin run_k]
    have frame: "same_frame p (p\<lparr>p_nodes := ns\<rparr>)"
      using same_frame_runs [OF runs_one [OF UNIV_I call] same_frame_refl] .
    have others: "state_at ns (?o ! j) = state_at (p_nodes p) (?o ! j)"
      if "j < length ?o" "j \<noteq> ?k" for j
      using call_node_frame(4) [OF call, of "?o ! j"] that True covers_range [OF "1.prems"(2)]
      by (simp add: nth_eq_iff_index_eq)
    have shape: "drain_shape ?o ?k ns" if "state_at ns (?o ! ?k) = N_Draining"
      using "1.prems"(4) others that unfolding drain_shape_def by force
    show ?thesis
    proof (cases r1)
      case (Throw e)
      then have "drain_held p r p'"
        using unfold True call frame shape at_k "1.prems"(3)
        by (auto simp: drain_held_def draining_at_def)
      then show ?thesis by blast
    next
      case (Ret s)
      consider (block) "st_code s = kWouldBlock \<or> st_code s = kNotFound"
        | (bad) "st_code s \<noteq> kWouldBlock" "st_code s \<noteq> kNotFound" "\<not> st_ok s"
        | (next_node) "st_code s \<noteq> kWouldBlock" "st_code s \<noteq> kNotFound" "st_ok s"
        by blast
      then show ?thesis
      proof cases
        case block
        obtain r2 ns' w2 where tick: "tick_running_downstream ?k ?o ns w1 = (r2, ns', w2)"
          by (metis prod_cases3)
        have runs: "runs UNIV ns w1 ns' w2"
          using tick_running_runs [OF tick [unfolded tick_running_downstream_def]] by simp
        have frame2: "same_frame p (p\<lparr>p_nodes := ns'\<rparr>)"
          using same_frame_runs [of UNIV "p\<lparr>p_nodes := ns\<rparr>" w1 ns' w2 p] runs frame by simp
        show ?thesis
        proof (cases "\<exists>d. r2 = Ret d \<and> \<not> st_ok d")
          case True
          then obtain d where d: "r2 = Ret d" "\<not> st_ok d" by blast
          then have "fail_drain d (p\<lparr>p_nodes := ns'\<rparr>) w2 = (r, p', w')"
            using unfold \<open>?k < length ?o\<close> call Ret block tick by auto
          from fail_drain_failed [OF this d(2)] frame2 show ?thesis
            by (auto simp: drain_failed_def intro: same_frame_trans)
        next
          case False
          have "map n_state ns' = map n_state ns"
            using tick_running_states [OF tick [unfolded tick_running_downstream_def]] False by blast
          moreover have "i < length ns" if "i \<in> set ?o" for i
            using that covers_range [OF "1.prems"(2)] frame by (auto simp: same_frame_def)
          ultimately have eq: "state_at ns' (?o ! j) = state_at ns (?o ! j)" if "j < length ?o" for j
            using map_state_at that nth_mem by blast
          have nk: "state_at ns (?o ! ?k) = N_Draining" using at_k Ret block by simp
          have "drain_shape ?o ?k ns'"
            using shape [OF nk] eq unfolding drain_shape_def by metis
          moreover have "state_at ns' (?o ! ?k) = N_Draining"
            using nk eq [OF True] by simp
          ultimately have "drain_held p r p'"
            using unfold True call Ret block tick False frame2 "1.prems"(3)
            by (cases r2) (auto simp: drain_held_def draining_at_def status_msg_def)
          then show ?thesis by blast
        qed
      next
        case bad
        then have "fail_drain s (p\<lparr>p_nodes := ns\<rparr>) w1 = (r, p', w')"
          using unfold True call Ret by simp
        from fail_drain_failed [OF this bad(3)] frame show ?thesis
          by (auto simp: drain_failed_def intro: same_frame_trans)
      next
        case next_node
        let ?q = "p\<lparr>p_nodes := ns, p_drain_index := Suc ?k\<rparr>"
        have rest: "drain_loop ?q w1 = (r, p', w')"
          using unfold True call Ret next_node by simp
        have "drain_shape ?o (Suc ?k) ns"
          using "1.prems"(4) others at_k Ret next_node unfolding drain_shape_def
          by (auto simp: less_Suc_eq)
        moreover have "covers ?q (p_drain_order ?q)"
          using covers_frame [OF "1.prems"(2), of ?q] frame by simp
        ultimately have "drain_held ?q r p' \<or> drain_failed ?q r p' \<or> drain_done ?q r p'"
          using "1.IH" [OF True call [symmetric] Ret refl] rest next_node "1.prems"(3) by simp
        from drain_held_step [OF _ _ _ this] frame show ?thesis by simp
      qed
    qed
  qed
qed

lemma pipeline_stop_cases:
  assumes inv: "pipeline_inv p" and stop: "pipeline_stop p w = (r, p', w')"
  obtains
    (idle) "p_state p = P_Stopped \<or> p_state p = P_Created" "p' = p\<lparr>p_state := P_Stopped\<rparr>"
      "r = Ret ok_status" "w' = w"
  | (drain) q where "p_state p = P_Running \<or> p_state p = P_Draining"
      "q = (if p_state p = P_Running then p\<lparr>p_drain_index := 0, p_state := P_Draining\<rparr> else p)"
      "drain_loop q w = (r, p', w')"
      "drain_held q r p' \<or> drain_failed q r p' \<or> drain_done q r p'"
  | (error) s where "p_state p = P_Error" "r = Ret s" "same_frame p p'"
      "p_state p' = (if st_ok s then P_Stopped else P_Error)"
      "if p_drain_order p = [] then covers p (p_drain_order p') else p_drain_order p' = p_drain_order p"
      "st_ok s \<Longrightarrow> \<forall>i \<in> set (p_drain_order p'). state_at (p_nodes p') i = N_Created"
proof (cases "p_state p")
  case P_Created
  then show thesis using stop by (intro idle) (auto simp: pipeline_stop_def)
next
  case P_Stopped
  then show thesis using stop by (intro idle) (auto simp: pipeline_stop_def)
next
  case P_Running
  let ?q = "p\<lparr>p_drain_index := 0, p_state := P_Draining\<rparr>"
  have cov: "covers p (p_drain_order p)" "p_nodes p \<noteq> []"
    and run: "\<forall>n \<in> set (p_nodes p). n_state n = N_Running"
    using inv P_Running by (simp_all add: pipeline_inv_def)
  then have loop: "drain_loop ?q w = (r, p', w')"
    using stop P_Running covers_Nil [OF cov(1)] by (simp add: pipeline_stop_def Let_def)
  have "drain_shape (p_drain_order p) 0 (p_nodes p)"
    using run covers_range [OF cov(1)] nth_mem by (fastforce simp: drain_shape_def)
  then have "drain_held ?q r p' \<or> drain_failed ?q r p' \<or> drain_done ?q r p'"
    by (intro drain_loop_cases [OF loop])
       (use cov covers_frame [OF cov(1), of ?q] in simp_all)
  then show thesis using drain [of ?q] P_Running loop by simp
next
  case P_Draining
  then have loop: "drain_loop p w = (r, p', w')" using stop by (simp add: pipeline_stop_def)
  moreover have "drain_held p r p' \<or> drain_failed p r p' \<or> drain_done p r p'"
    using inv P_Draining by (intro drain_loop_cases [OF loop]) (simp_all add: pipeline_inv_def draining_at_def)
  ultimately show thesis using drain [of p] P_Draining by simp
next
  case P_Error
  have wf: "pipeline_wf p" using inv by (simp add: pipeline_inv_def)
  obtain ids where ids: "topological_order (p_graph p) = Inr ids" "covers p (ordered_nodes p ids)"
    using pipeline_order_total [OF wf] .
  define order where "order = (if p_drain_order p = [] then ordered_nodes p ids else p_drain_order p)"
  have rng: "set order \<subseteq> {..<length (p_nodes p)}"
    using wf covers_range [OF ids(2)] by (auto simp: order_def pipeline_wf_def)
  obtain s ns w1 where reset: "reset_nodes_reverse order (p_nodes p) w = (s, ns, w1)"
    by (metis prod_cases3)
  have frame: "same_frame p (p\<lparr>p_nodes := ns\<rparr>)" using reset_nodes_reverse_frame [OF reset] .
  have res: "r = Ret s" "p' = p\<lparr>p_drain_order := order, p_drain_index := 0, p_nodes := ns,
      p_state := if st_ok s then P_Stopped else P_Error\<rparr>"
    using stop P_Error reset ids(1) by (auto simp: pipeline_stop_def order_def Let_def split: if_splits)
  show thesis
    using P_Error res frame ids(2) reset_nodes_reverse_created [OF reset _ rng]
    by (intro error [of s]) (auto simp: order_def same_frame_def)
qed

subsection \<open>cancel and tick\<close>

lemma pipeline_cancel_cases:
  assumes inv: "pipeline_inv p" and cancel: "pipeline_cancel p w = (s, p', w')"
  obtains
    (idle) "p_state p = P_Stopped" "p' = p" "s = ok_status" "w' = w"
  | (failed) "p_state p \<noteq> P_Stopped" "\<not> st_ok s" "p_state p' = P_Error" "same_frame p p'"
      "p_drain_order p' = p_drain_order p"
      "\<forall>i. p_drain_order p \<noteq> [] \<longrightarrow> i \<notin> set (p_drain_order p) \<longrightarrow> state_at (p_nodes p') i = state_at (p_nodes p) i"
  | (cancelled) "p_state p \<noteq> P_Stopped" "s = ok_status" "p_state p' = P_Stopped" "same_frame p p'"
      "p_drain_order p' = []" "p_drain_index p' = 0"
      "\<forall>i < length (p_nodes p). p_drain_order p = [] \<or> i \<in> set (p_drain_order p) \<longrightarrow>
         state_at (p_nodes p') i = N_Created"
      "\<forall>i. p_drain_order p \<noteq> [] \<longrightarrow> i \<notin> set (p_drain_order p) \<longrightarrow> state_at (p_nodes p') i = state_at (p_nodes p) i"
proof (cases "p_state p = P_Stopped")
  case True
  then show thesis using cancel by (intro idle) (auto simp: pipeline_cancel_def)
next
  case False
  define order where "order = (if p_drain_order p = [] then [0..<length (p_nodes p)] else p_drain_order p)"
  have rng: "set order \<subseteq> {..<length (p_nodes p)}"
    using inv by (auto simp: order_def pipeline_inv_def pipeline_wf_def)
  obtain s1 ns w1 where reset: "reset_nodes_reverse order (p_nodes p) w = (s1, ns, w1)"
    by (metis prod_cases3)
  then have eq: "(if p_drain_order p = [] then reset_owned_nodes_reverse (p_nodes p) w
       else reset_nodes_reverse (p_drain_order p) (p_nodes p) w) = (s1, ns, w1)"
    unfolding order_def reset_nodes_reverse_def reset_owned_nodes_reverse_def
    by (simp split: if_splits)
  have frame: "same_frame p (p\<lparr>p_nodes := ns\<rparr>)" using reset_nodes_reverse_frame [OF reset] .
  have out: "ns ! i = p_nodes p ! i" if "i \<notin> set order" for i
    using runs_outside [OF reset_nodes_reverse_runs [OF reset order_refl] that] .
  show thesis
  proof (cases "st_ok s1")
    case ok: True
    have "state_at ns i = N_Created" if "i \<in> set order" for i
      using reset_nodes_reverse_created [OF reset ok rng that] .
    then show thesis
      using cancel False eq ok frame out
      by (intro cancelled) (auto simp: pipeline_cancel_def order_def split: if_splits)
  next
    case bad: False
    then show thesis
      using cancel False eq frame out
      by (intro failed) (auto simp: pipeline_cancel_def order_def split: if_splits)
  qed
qed

lemma tick_loop_frame:
  assumes "tick_loop is p w = (r, p', w')"
  shows "same_frame p p' \<and> p_drain_order p' = p_drain_order p \<and> p_drain_index p' = p_drain_index p \<and>
    (p_state p' = p_state p \<and> map n_state (p_nodes p') = map n_state (p_nodes p)
       \<and> (\<forall>s. r = Ret s \<longrightarrow> s = ok_status)
     \<or> p_state p' = P_Error \<and> (\<exists>s. r = Ret s \<and> tick_fatal s))"
  using assms
proof (induction "is" arbitrary: p w)
  case Nil
  then have "r = Ret ok_status" "p' = p" by simp_all
  then show ?case by simp
next
  case (Cons i "is")
  obtain r1 ns w1 where call: "call_node Op_tick i (p_nodes p) w = (r1, ns, w1)"
    by (metis prod_cases3)
  have frame: "same_frame p (p\<lparr>p_nodes := ns\<rparr>)"
    using same_frame_runs [OF runs_one [OF UNIV_I call] same_frame_refl] .
  show ?case
  proof (cases "\<exists>s. r1 = Ret s \<and> tick_fatal s")
    case True
    then show ?thesis using Cons.prems call frame by auto
  next
    case False
    then have keep: "map n_state ns = map n_state (p_nodes p)"
      using call_tick_states [OF call] by blast
    show ?thesis
    proof (cases r1)
      case (Throw e)
      then show ?thesis using Cons.prems call frame keep by auto
    next
      case (Ret s)
      then have "tick_loop is (p\<lparr>p_nodes := ns\<rparr>) w1 = (r, p', w')"
        using Cons.prems call False by simp
      from Cons.IH [OF this] show ?thesis
        using frame keep by (auto intro: same_frame_trans)
    qed
  qed
qed

lemma pipeline_tick_cases:
  assumes inv: "pipeline_inv p" and tick: "pipeline_tick p w = (r, p', w')"
  obtains
    (refused) "p_state p \<noteq> P_Running" "p' = p" "w' = w" "\<exists>s. r = Ret s \<and> st_code s = kInvalidState"
  | (ticked) "p_state p = P_Running" "same_frame p p'" "p_drain_order p' = p_drain_order p"
      "p_state p' = P_Running" "map n_state (p_nodes p') = map n_state (p_nodes p)"
      "\<forall>s. r = Ret s \<longrightarrow> s = ok_status"
  | (failed) "p_state p = P_Running" "same_frame p p'" "p_drain_order p' = p_drain_order p"
      "p_state p' = P_Error" "\<exists>s. r = Ret s \<and> tick_fatal s"
proof (cases "p_state p = P_Running")
  case False
  then show thesis using tick by (intro refused) (auto simp: pipeline_tick_def status_msg_def)
next
  case True
  obtain ids where ids: "topological_order (p_graph p) = Inr ids"
    using pipeline_order_total inv pipeline_inv_def by blast
  then have "tick_loop (ordered_nodes p ids) p w = (r, p', w')"
    using tick True by (simp add: pipeline_tick_def)
  from tick_loop_frame [OF this] True ticked failed show thesis by auto
qed

subsection \<open>Every reachable pipeline\<close>

text \<open>The pipelines a client can produce, its calls made in any world. \<open>ex\<close> says whether an
  exception may have left one of the calls. Nodes come from their constructors.\<close>

inductive pipeline_reachable :: "bool \<Rightarrow> 'w pipeline \<Rightarrow> bool" for ex where
  reach_new: "pipeline_reachable ex (pipeline_new i)"
| reach_add: "pipeline_reachable ex p \<Longrightarrow> n_state n = N_Created \<Longrightarrow>
    pipeline_add_node (Some n) p = (s, p') \<Longrightarrow> pipeline_reachable ex p'"
| reach_connect: "pipeline_reachable ex p \<Longrightarrow> pipeline_connect a b p = (s, p') \<Longrightarrow> pipeline_reachable ex p'"
| reach_start: "pipeline_reachable ex p \<Longrightarrow> pipeline_start p w = (r, p', w') \<Longrightarrow>
    ex \<or> (\<exists>s. r = Ret s) \<Longrightarrow> pipeline_reachable ex p'"
| reach_stop: "pipeline_reachable ex p \<Longrightarrow> pipeline_stop p w = (r, p', w') \<Longrightarrow>
    ex \<or> (\<exists>s. r = Ret s) \<Longrightarrow> pipeline_reachable ex p'"
| reach_tick: "pipeline_reachable ex p \<Longrightarrow> pipeline_tick p w = (r, p', w') \<Longrightarrow>
    ex \<or> (\<exists>s. r = Ret s) \<Longrightarrow> pipeline_reachable ex p'"
| reach_cancel: "pipeline_reachable ex p \<Longrightarrow> pipeline_cancel p w = (s, p', w') \<Longrightarrow> pipeline_reachable ex p'"

lemma running_nodes: "same_frame p p' \<Longrightarrow> map n_state (p_nodes p') = map n_state (p_nodes p) \<Longrightarrow>
    \<forall>n \<in> set (p_nodes p). n_state n = N_Running \<Longrightarrow> \<forall>n \<in> set (p_nodes p'). n_state n = N_Running"
  by (metis list.set_map imageI image_iff)

lemma pipeline_inv_covered:
  assumes "pipeline_inv p" "same_frame p p'" "covers p (p_drain_order p') \<or> p_drain_order p' = []
      \<or> p_drain_order p' = p_drain_order p"
    "p_state p' \<noteq> P_Running" "p_state p' \<noteq> P_Draining"
  shows "pipeline_inv p'"
  using assms pipeline_wf_frame [of p p'] covers_range [of p "p_drain_order p'"]
  by (auto simp: pipeline_inv_def pipeline_wf_def)

lemma add_node_inv:
  assumes inv: "pipeline_inv p" and add: "pipeline_add_node (Some n) p = (s, p')"
  shows "pipeline_inv p'"
proof (cases "st_ok s")
  case False
  then have "p' = p \<or> (\<exists>g. p' = p\<lparr>p_graph := g\<rparr> \<and> g = p_graph p)"
    using add by (auto simp: pipeline_add_node_def graph_add_node_def st_ok_def status_msg_def
        split: if_splits prod.splits)
  then show ?thesis using inv by auto
next
  case True
  let ?g = "snd (graph_add_node (n_id n) (p_graph p))"
  have idle: "p_state p \<noteq> P_Running" "p_state p \<noteq> P_Draining"
    and ok: "st_ok (fst (graph_add_node (n_id n) (p_graph p)))"
    and p': "p' = p\<lparr>p_graph := ?g, p_nodes_by_id := (p_nodes_by_id p)(n_id n \<mapsto> length (p_nodes p)),
        p_nodes := p_nodes p @ [n]\<rparr>"
    using True add by (auto simp: pipeline_add_node_def st_ok_def status_msg_def split: if_splits prod.splits)
  have wf: "pipeline_wf p" and gi: "graph_inv (p_graph p)"
    using inv by (simp_all add: pipeline_inv_def pipeline_wf_def)
  have new: "n_id n \<notin> set (g_nodes (p_graph p))"
    using ok gi graph_add_node_ok by (auto simp: graph_inv_def)
  have names: "map n_id (p_nodes p) = g_nodes (p_graph p)" using wf by (simp add: pipeline_wf_def)
  have "n_id (p_nodes p ! i) \<noteq> n_id n" if "i < length (p_nodes p)" for i
    using new that unfolding names [symmetric] by (metis nth_map nth_mem length_map)
  then have "\<forall>i < length (p_nodes p'). p_nodes_by_id p' (node_name p' i) = Some i"
    using wf by (auto simp: p' node_name_def nth_append pipeline_wf_def less_Suc_eq)
  moreover have "map n_id (p_nodes p') = g_nodes (p_graph p')"
    using names ok by (simp add: p' graph_add_node_nodes)
  ultimately have "pipeline_wf p'"
    using wf graph_add_node_inv [OF gi] by (auto simp: pipeline_wf_def p')
  then show ?thesis using idle by (simp add: pipeline_inv_def p')
qed

lemma connect_inv:
  assumes inv: "pipeline_inv p" and con: "pipeline_connect a b p = (s, p')"
  shows "pipeline_inv p'"
proof (cases "p_state p = P_Running \<or> p_state p = P_Draining")
  case True
  then show ?thesis using inv con by (simp add: pipeline_connect_def)
next
  case False
  have gi: "graph_inv (p_graph p)" using inv by (simp add: pipeline_inv_def pipeline_wf_def)
  have p': "p' = p\<lparr>p_graph := snd (graph_connect a b (p_graph p))\<rparr>"
    using False con by (auto simp: pipeline_connect_def split: prod.splits)
  show ?thesis
    using inv False graph_connect_inv [OF gi] graph_connect_nodes [OF gi]
    by (auto simp: pipeline_inv_def pipeline_wf_def p' node_name_def)
qed

lemma start_inv:
  assumes inv: "pipeline_inv p" and start: "pipeline_start p w = (r, p', w')"
  shows "pipeline_inv p'"
proof -
  have wf: "pipeline_wf p" using inv by (simp add: pipeline_inv_def)
  from wf start show ?thesis
  proof (cases rule: pipeline_start_cases)
    case started
    have "pipeline_wf p'"
      using pipeline_wf_frame [OF wf started(2)] covers_range [OF started(3)] by simp
    moreover have "covers p' (p_drain_order p')" by (rule covers_frame [OF started(3,2)])
    moreover have "length (p_nodes p') = length (p_nodes p)" using started(2) by (simp add: same_frame_def)
    then have "p_nodes p' \<noteq> []" "\<forall>n \<in> set (p_nodes p'). n_state n = N_Running"
      using started(6,7) by (auto simp: in_set_conv_nth)
    ultimately show ?thesis using started(5) by (simp add: pipeline_inv_def)
  qed (use inv in \<open>auto intro: pipeline_inv_covered [OF inv]\<close>)
qed

lemma held_inv:
  assumes "pipeline_inv p" "same_frame p q" "p_drain_order q = p_drain_order p" "drain_held q r p'"
    "p_state p = P_Running \<or> p_state p = P_Draining"
  shows "pipeline_inv p'"
proof -
  have frame: "same_frame p p'" using assms(2,4) by (auto simp: drain_held_def intro: same_frame_trans)
  have order: "p_drain_order p' = p_drain_order p" using assms(3,4) by (simp add: drain_held_def)
  have "pipeline_wf p" "covers p (p_drain_order p)" "p_nodes p \<noteq> []"
    using assms(1,5) by (auto simp: pipeline_inv_def)
  then have "pipeline_wf p'" "covers p' (p_drain_order p')" "p_nodes p' \<noteq> []"
    using pipeline_wf_frame [OF _ frame] covers_frame [OF _ frame] covers_range order frame
    by (auto simp: same_frame_def)
  then show ?thesis using assms(4) by (auto simp: pipeline_inv_def drain_held_def)
qed

lemma stop_inv:
  assumes inv: "pipeline_inv p" and stop: "pipeline_stop p w = (r, p', w')"
  shows "pipeline_inv p'"
  using inv stop
proof (cases rule: pipeline_stop_cases)
  case idle
  show ?thesis by (rule pipeline_inv_covered [OF inv]) (simp_all add: idle)
next
  case (drain q)
  have q: "same_frame p q" "p_drain_order q = p_drain_order p" using drain(2) by simp_all
  from drain(4) show ?thesis
  proof (elim disjE)
    assume "drain_held q r p'"
    then show ?thesis using held_inv [OF inv q _ drain(1)] by blast
  next
    assume "drain_failed q r p'"
    then show ?thesis using q same_frame_trans [OF q(1)]
      by (intro pipeline_inv_covered [OF inv]) (simp_all add: drain_failed_def)
  next
    assume "drain_done q r p'"
    then show ?thesis using q same_frame_trans [OF q(1)]
      by (intro pipeline_inv_covered [OF inv]) (simp_all add: drain_done_def)
  qed
next
  case (error s)
  show ?thesis
    using error by (intro pipeline_inv_covered [OF inv]) (auto split: if_splits)
qed

lemma cancel_inv:
  assumes inv: "pipeline_inv p" and cancel: "pipeline_cancel p w = (s, p', w')"
  shows "pipeline_inv p'"
  using inv cancel
  by (cases rule: pipeline_cancel_cases) (use inv in \<open>auto intro: pipeline_inv_covered [OF inv]\<close>)

lemma tick_inv:
  assumes inv: "pipeline_inv p" and tick: "pipeline_tick p w = (r, p', w')"
  shows "pipeline_inv p'"
  using inv tick
proof (cases rule: pipeline_tick_cases)
  case ticked
  have "pipeline_wf p" "covers p (p_drain_order p)" "p_nodes p \<noteq> []"
    using inv ticked(1) by (auto simp: pipeline_inv_def)
  then have "pipeline_wf p'" "covers p' (p_drain_order p')" "p_nodes p' \<noteq> []"
    using pipeline_wf_frame [OF _ ticked(2)] covers_frame [OF _ ticked(2)] covers_range ticked(2,3)
    by (auto simp: same_frame_def)
  moreover have "\<forall>n \<in> set (p_nodes p'). n_state n = N_Running"
    using running_nodes [OF ticked(2,5)] inv ticked(1) by (simp add: pipeline_inv_def)
  ultimately show ?thesis using ticked(4) by (simp add: pipeline_inv_def)
next
  case failed
  then show ?thesis by (intro pipeline_inv_covered [OF inv]) auto
qed (use inv in simp)

lemma pipeline_reachable_inv: "pipeline_reachable ex p \<Longrightarrow> pipeline_inv p"
proof (induction rule: pipeline_reachable.induct)
  case (reach_new i)
  show ?case
    by (simp add: pipeline_inv_def pipeline_wf_def pipeline_new_def graph_inv_new) (simp add: graph_new_def)
qed (auto intro: add_node_inv connect_inv start_inv stop_inv tick_inv cancel_inv)

text \<open>As long as no exception has left a call, a pipeline that is not active has only nodes at
  rest.\<close>

lemma rest_same_nodes: "pipeline_rest p \<Longrightarrow> p_state p = P_Created \<or> p_state p = P_Stopped \<Longrightarrow> all_created (p_nodes p)"
  by (simp add: pipeline_rest_def)

lemma start_rest:
  assumes inv: "pipeline_inv p" and rest: "pipeline_rest p"
    and start: "pipeline_start p w = (Ret s, p', w')"
  shows "pipeline_rest p'"
proof -
  have wf: "pipeline_wf p" using inv by (simp add: pipeline_inv_def)
  from wf start show ?thesis
  proof (cases rule: pipeline_start_cases)
    case failed
    then have "length (p_nodes p') = length (p_nodes p)" by (simp add: same_frame_def)
    then show ?thesis using failed by (auto simp: pipeline_rest_def covers_def)
  qed (use rest in \<open>auto simp: pipeline_rest_def all_created_def\<close>)
qed

lemma failed_rest:
  assumes "drain_failed q r p'" "covers q (p_drain_order q)"
  shows "pipeline_rest p'"
  using assms by (auto simp: drain_failed_def pipeline_rest_def covers_def same_frame_def)

lemma drain_rest:
  assumes "drain_held q r p' \<or> drain_failed q r p' \<or> drain_done q r p'" "covers q (p_drain_order q)"
  shows "pipeline_rest p'"
  using assms failed_rest [of q r p']
  by (auto simp: drain_held_def drain_done_def pipeline_rest_def)

lemma stop_rest:
  assumes inv: "pipeline_inv p" and rest: "pipeline_rest p"
    and stop: "pipeline_stop p w = (r, p', w')"
  shows "pipeline_rest p'"
  using inv stop
proof (cases rule: pipeline_stop_cases)
  case idle
  then show ?thesis using rest by (auto simp: pipeline_rest_def)
next
  case (drain q)
  then have "covers q (p_drain_order q)"
    using inv covers_frame [of p "p_drain_order p" q] by (auto simp: pipeline_inv_def)
  then show ?thesis using drain_rest drain(4) by blast
next
  case (error s)
  have len: "length (p_nodes p') = length (p_nodes p)" using error(3) by (simp add: same_frame_def)
  show ?thesis
  proof (cases "p_drain_order p = []")
    case True
    then have cov: "covers p (p_drain_order p')" using error(5) by simp
    show ?thesis
      using error(4,6) cov len by (auto simp: pipeline_rest_def all_created_nth covers_def)
  next
    case False
    obtain order ns w1 where reset: "reset_nodes_reverse (p_drain_order p) (p_nodes p) w = (s, ns, w1)"
      and p': "p_nodes p' = ns" "p_drain_order p' = p_drain_order p"
      using stop error(1,2) False
      by (auto simp: pipeline_stop_def Let_def split: prod.splits)
    have "ns ! i = p_nodes p ! i" if "i \<notin> set (p_drain_order p)" for i
      using runs_outside [OF reset_nodes_reverse_runs [OF reset order_refl] that] .
    then have "state_at (p_nodes p') i = N_Created"
      if "i < length (p_nodes p)" "i \<notin> set (p_drain_order p) \<or> st_ok s" for i
      using rest error(1,6) False p' that
      by (cases "i \<in> set (p_drain_order p)") (simp_all add: pipeline_rest_def)
    then show ?thesis
      using error(4) len p' by (auto simp: pipeline_rest_def all_created_nth)
  qed
qed

lemma cancel_rest:
  assumes inv: "pipeline_inv p" and rest: "pipeline_rest p"
    and cancel: "pipeline_cancel p w = (s, p', w')"
  shows "pipeline_rest p'"
  using inv cancel
proof (cases rule: pipeline_cancel_cases)
  case idle
  then show ?thesis using rest by simp
next
  case failed
  have len: "length (p_nodes p') = length (p_nodes p)" using failed(4) by (simp add: same_frame_def)
  have "state_at (p_nodes p') i = N_Created"
    if "i < length (p_nodes p)" "i \<notin> set (p_drain_order p)" "p_drain_order p \<noteq> []" for i
  proof -
    have "state_at (p_nodes p) i = N_Created"
      using that inv rest by (cases "p_state p") (auto simp: pipeline_rest_def pipeline_inv_def covers_def all_created_nth)
    then show ?thesis using failed(6) that by simp
  qed
  then show ?thesis using failed len by (auto simp: pipeline_rest_def)
next
  case cancelled
  have len: "length (p_nodes p') = length (p_nodes p)" using cancelled(4) by (simp add: same_frame_def)
  have "state_at (p_nodes p') i = N_Created" if "i < length (p_nodes p)" for i
  proof (cases "p_drain_order p = [] \<or> i \<in> set (p_drain_order p)")
    case True
    then show ?thesis using cancelled(7) that by blast
  next
    case False
    then have "state_at (p_nodes p) i = N_Created"
      using that inv rest by (cases "p_state p") (auto simp: pipeline_rest_def pipeline_inv_def covers_def all_created_nth)
    then show ?thesis using cancelled(8) that False by simp
  qed
  then show ?thesis using cancelled len by (auto simp: pipeline_rest_def all_created_nth)
qed

lemma tick_rest:
  assumes inv: "pipeline_inv p" and rest: "pipeline_rest p" and tick: "pipeline_tick p w = (r, p', w')"
  shows "pipeline_rest p'"
  using inv tick
proof (cases rule: pipeline_tick_cases)
  case failed
  then show ?thesis
    using inv by (auto simp: pipeline_rest_def pipeline_inv_def covers_def same_frame_def)
qed (use rest in \<open>auto simp: pipeline_rest_def\<close>)

lemma add_node_rest:
  assumes "pipeline_rest p" "pipeline_wf p" "n_state n = N_Created" "pipeline_add_node (Some n) p = (s, p')"
  shows "pipeline_rest p'"
  using assms
  by (auto simp: pipeline_add_node_def pipeline_rest_def all_created_def nth_append less_Suc_eq
      split: if_splits prod.splits)

lemma pipeline_reachable_rest: "pipeline_reachable False p \<Longrightarrow> pipeline_rest p"
proof (induction rule: pipeline_reachable.induct)
  case (reach_new i)
  show ?case by (simp add: pipeline_rest_def pipeline_new_def all_created_def)
next
  case (reach_add p n s p')
  then show ?case
    using add_node_rest pipeline_reachable_inv [OF reach_add(1)] by (auto simp: pipeline_inv_def)
next
  case (reach_connect p a b s p')
  then show ?case
    by (auto simp: pipeline_connect_def pipeline_rest_def split: if_splits prod.splits)
next
  case (reach_start p w r p' w')
  then obtain s where "r = Ret s" by blast
  with reach_start show ?case
    using start_rest [OF pipeline_reachable_inv [OF reach_start(1)]] by blast
next
  case (reach_stop p w r p' w')
  then show ?case using stop_rest [OF pipeline_reachable_inv [OF reach_stop(1)]] by simp
next
  case (reach_tick p w r p' w')
  then show ?case using tick_rest [OF pipeline_reachable_inv [OF reach_tick(1)]] by simp
next
  case (reach_cancel p w s p' w')
  then show ?case using cancel_rest [OF pipeline_reachable_inv [OF reach_cancel(1)]] by simp
qed

subsection \<open>What a client can rely on\<close>

lemma drained_upstream:
  assumes cov: "covers p (p_drain_order p)" and drain: "draining_at p"
    and e: "graph_edge (p_graph p) (node_name p a) (node_name p b)"
    and a: "a < length (p_nodes p)" and b: "b < length (p_nodes p)"
    and nb: "state_at (p_nodes p) b \<noteq> N_Running"
    and inj: "distinct (map n_id (p_nodes p))"
  shows "state_at (p_nodes p) a = N_Stopped"
proof -
  let ?o = "p_drain_order p" and ?k = "p_drain_index p"
  let ?names = "map (node_name p) ?o"
  have set: "set ?o = {..<length (p_nodes p)}" and dist: "distinct ?o"
    and topo: "topo_sorted (graph_rel (p_graph p)) ?names"
    using cov by (simp_all add: covers_def)
  obtain i j where i: "i < length ?o" "?o ! i = a" and j: "j < length ?o" "?o ! j = b"
    using a b set by (metis in_set_conv_nth lessThan_iff)
  have shape: "drain_shape ?o ?k (p_nodes p)" using drain by (simp add: draining_at_def)
  have jk: "j \<le> ?k"
  proof (rule ccontr)
    assume "\<not> j \<le> ?k"
    then have "state_at (p_nodes p) b = N_Running" using shape j by (auto simp: drain_shape_def)
    with nb show False by blast
  qed
  have "(node_name p a, ?names ! j) \<in> graph_rel (p_graph p)" using e j by (simp add: graph_rel_def)
  then have "node_name p a \<in> set (take j ?names)" using topo j by (simp add: topo_sorted_def)
  then obtain i' where i': "i' < j" "node_name p (?o ! i') = node_name p a"
    using j by (auto simp: in_set_conv_nth)
  then have "?o ! i' < length (p_nodes p)" using j set nth_mem [of i' ?o] by auto
  then have "?o ! i' = a"
    using i'(2) a nth_eq_iff_index_eq [OF inj, of "?o ! i'" a] by (simp add: node_name_def)
  then show ?thesis using shape i' j jk by (auto simp: drain_shape_def)
qed

lemma pipeline_inv_names: "pipeline_inv p \<Longrightarrow> distinct (map n_id (p_nodes p))"
  by (simp add: pipeline_inv_def pipeline_wf_def graph_inv_def graph_wf_def)

text \<open>C2: in every reachable pipeline, exceptions included: \<open>P_Running\<close> means that every node is
  running, so that a tick reaches all of them; while it drains, a node is asked to stop only
  when all nodes that feed it have stopped. If no exception has left a call, an idle pipeline
  (\<open>P_Created\<close>, \<open>P_Stopped\<close>) has all its nodes in \<open>N_Created\<close>.\<close>

theorem pipeline_states_safe:
  assumes "pipeline_reachable ex p"
  shows "(p_state p = P_Running \<longrightarrow> (\<forall>n \<in> set (p_nodes p). n_state n = N_Running))
    \<and> (p_state p = P_Draining \<longrightarrow> (\<forall>a < length (p_nodes p). \<forall>b < length (p_nodes p).
          graph_edge (p_graph p) (n_id (p_nodes p ! a)) (n_id (p_nodes p ! b)) \<longrightarrow>
          n_state (p_nodes p ! b) \<noteq> N_Running \<longrightarrow> n_state (p_nodes p ! a) = N_Stopped))
    \<and> (\<not> ex \<longrightarrow> p_state p = P_Created \<or> p_state p = P_Stopped \<longrightarrow>
          (\<forall>n \<in> set (p_nodes p). n_state n = N_Created))"
proof (intro conjI)
  have inv: "pipeline_inv p" by (rule pipeline_reachable_inv [OF assms])
  then show "p_state p = P_Running \<longrightarrow> (\<forall>n \<in> set (p_nodes p). n_state n = N_Running)"
    by (simp add: pipeline_inv_def)
  show "p_state p = P_Draining \<longrightarrow> (\<forall>a < length (p_nodes p). \<forall>b < length (p_nodes p).
          graph_edge (p_graph p) (n_id (p_nodes p ! a)) (n_id (p_nodes p ! b)) \<longrightarrow>
          n_state (p_nodes p ! b) \<noteq> N_Running \<longrightarrow> n_state (p_nodes p ! a) = N_Stopped)"
  proof (intro impI allI)
    fix a b
    assume drain: "p_state p = P_Draining" and "a < length (p_nodes p)" "b < length (p_nodes p)"
      "graph_edge (p_graph p) (n_id (p_nodes p ! a)) (n_id (p_nodes p ! b))"
      "n_state (p_nodes p ! b) \<noteq> N_Running"
    moreover from inv drain have "covers p (p_drain_order p)" "draining_at p"
      by (simp_all add: pipeline_inv_def)
    ultimately show "n_state (p_nodes p ! a) = N_Stopped"
      using drained_upstream [of p a b] pipeline_inv_names [OF inv] by (simp add: node_name_def)
  qed
  have "pipeline_rest p" if "\<not> ex"
    by (rule pipeline_reachable_rest) (use assms that in simp)
  then show "\<not> ex \<longrightarrow> p_state p = P_Created \<or> p_state p = P_Stopped \<longrightarrow>
          (\<forall>n \<in> set (p_nodes p). n_state n = N_Created)"
    unfolding pipeline_rest_def all_created_def by blast
qed

text \<open>C3: \<open>start\<close> is all or nothing. From an idle pipeline, if it returns \<open>ok\<close> every node runs
  and the pipeline is in \<open>P_Running\<close>; if it returns a failure the pipeline is in \<open>P_Error\<close> and no
  node is left prepared or running: each is back in \<open>N_Created\<close>, or in \<open>N_Error\<close> where it failed
  itself. From any other state nothing changes.\<close>

theorem start_all_or_nothing:
  assumes "pipeline_reachable False p" and "pipeline_start p w = (Ret s, p', w')"
  shows "(p_state p = P_Created \<or> p_state p = P_Stopped \<longrightarrow>
       (if st_ok s then p_state p' = P_Running \<and> (\<forall>n \<in> set (p_nodes p'). n_state n = N_Running)
        else p_state p' = P_Error
             \<and> (\<forall>n \<in> set (p_nodes p'). n_state n = N_Created \<or> n_state n = N_Error)))
    \<and> (p_state p \<noteq> P_Created \<and> p_state p \<noteq> P_Stopped \<longrightarrow> p' = p \<and> w' = w
         \<and> (st_ok s \<longleftrightarrow> p_state p = P_Running))"
proof -
  have inv: "pipeline_inv p" and rest: "pipeline_rest p"
    using assms(1) pipeline_reachable_inv pipeline_reachable_rest by blast+
  then have wf: "pipeline_wf p" by (simp add: pipeline_inv_def)
  have at_all: "(\<forall>n \<in> set (p_nodes p'). P (n_state n)) \<longleftrightarrow> (\<forall>i < length (p_nodes p). P (state_at (p_nodes p') i))"
    if "same_frame p p'" for P
    using that by (simp add: same_frame_def all_set_conv_all_nth)
  from wf assms(2) show ?thesis
  proof (cases rule: pipeline_start_cases)
    case failed
    then have "all_created (p_nodes p)" using rest by (simp add: pipeline_rest_def)
    then show ?thesis using failed at_all [OF failed(3), of at_rest] by auto
  next
    case started
    then show ?thesis
      using at_all [OF started(2), of "\<lambda>s. s = N_Running"] by (auto simp: st_ok_def)
  qed (auto simp: st_ok_def)
qed

definition failing_hooks :: "unit hooks" where
  "failing_hooks = default_hooks\<lparr>on_prepare := Pair (Ret (status_of kIoError))\<rparr>"

definition failing_pipeline :: "unit pipeline" where
  "failing_pipeline =
     snd (pipeline_add_node (Some (node_new ''b'' failing_hooks))
       (snd (pipeline_add_node (Some (node_new ''a'' default_hooks)) (pipeline_new ''p''))))"

lemma failing_pipeline_reachable: "pipeline_reachable False failing_pipeline"
  unfolding failing_pipeline_def
  by (rule reach_add [OF reach_add [OF reach_new [of _ "''p''"] _ surjective_pairing] _ surjective_pairing])
     (simp_all add: node_new_def)

lemma ab_order: "topological_order \<lparr>g_nodes = [''a'', ''b''], g_node_set = [''a'', ''b''], g_edges = []\<rparr>
    = Inr [''a'', ''b'']"
  by code_simp

lemma oset_ab: "oset_insert ''b'' [''a''] = [''a'', ''b'']" by code_simp

lemma failing_pipeline_run: "fst (pipeline_start failing_pipeline ()) = Ret (status_of kIoError)"
  by (simp add: failing_pipeline_def pipeline_add_node_def pipeline_new_def graph_add_node_def
      graph_new_def node_new_def oset_ab pipeline_start_def ab_order ordered_nodes_def call_node_def
      node_prepare_def failing_hooks_def default_hooks_def st_ok_def status_of_def
      stop_nodes_reverse_def node_stop_def node_reset_def Let_def)

theorem start_all_or_nothing_witness:
  "p_state failing_pipeline = P_Created
   \<and> p_state (fst (snd (pipeline_start failing_pipeline ()))) = P_Error"
proof -
  have "pipeline_start failing_pipeline () = (Ret (status_of kIoError),
      fst (snd (pipeline_start failing_pipeline ())), snd (snd (pipeline_start failing_pipeline ())))"
    using failing_pipeline_run by (metis prod.collapse)
  moreover have "p_state failing_pipeline = P_Created"
    by (simp add: failing_pipeline_def pipeline_add_node_def pipeline_new_def graph_add_node_def
        graph_new_def node_new_def)
  moreover have "\<not> st_ok (status_of kIoError)" by (simp add: st_ok_def status_of_def)
  ultimately show ?thesis using start_all_or_nothing [OF failing_pipeline_reachable] by fastforce
qed

end
