(* ===== verification/Pipeline_Liveness.thy ===== *)
theory Pipeline_Liveness
  imports Pipeline_Correct
begin

text \<open>
  That a drain ends. \<open>MediaPipeline::stop\<close> returns \<open>kWouldBlock\<close> when a node still holds data and
  is called again by the executor. \<open>drainable\<close> says what this relies on: the functions of the
  nodes return, no node fails, and every turn that is held up makes progress in some measure
  of the world (the node hands something over, or a node downstream of it consumes something).
\<close>

definition resets_succeed :: "'w hooks list \<Rightarrow> bool" where
  "resets_succeed hks \<longleftrightarrow> (\<forall>hk \<in> set hks. \<forall>w. \<exists>s w'. on_reset hk w = (Ret s, w') \<and> st_ok s)"

abbreviation held_up :: "status \<Rightarrow> bool" where
  "held_up s \<equiv> st_code s = kWouldBlock \<or> st_code s = kNotFound"

definition drainable :: "('w \<Rightarrow> nat) \<Rightarrow> 'w hooks list \<Rightarrow> nat list \<Rightarrow> bool" where
  "drainable m hks order \<longleftrightarrow> resets_succeed hks
     \<and> (\<forall>hk \<in> set hks. \<forall>w. \<exists>s w'. on_stop hk w = (Ret s, w')
          \<and> (st_ok s \<or> st_code s = kEndOfStream \<or> held_up s) \<and> m w' \<le> m w)
     \<and> (\<forall>hk \<in> set hks. \<forall>w. \<exists>s w'. on_tick hk w = (Ret s, w') \<and> \<not> tick_fatal s)
     \<and> (\<forall>k < length order. \<forall>ns w s ns1 w1. map n_hooks ns = hks \<longrightarrow> drain_shape order k ns \<longrightarrow>
          call_node Op_stop (order ! k) ns w = (Ret s, ns1, w1) \<longrightarrow> held_up s \<longrightarrow>
          m (snd (snd (tick_running_downstream k order ns1 w1))) < m w)"

text \<open>The executor's view: \<open>stop\<close>, again at most \<open>n\<close> times while it is held up.\<close>

fun stop_turns :: "nat \<Rightarrow> 'w pipeline \<Rightarrow> 'w \<Rightarrow> status outcome \<times> 'w pipeline \<times> 'w" where
  "stop_turns 0 p w = pipeline_stop p w"
| "stop_turns (Suc n) p w =
     (case pipeline_stop p w of
        (Ret s, p1, w1) \<Rightarrow> if st_code s = kWouldBlock then stop_turns n p1 w1 else (Ret s, p1, w1)
      | (Throw e, p1, w1) \<Rightarrow> (Throw e, p1, w1))"

lemma hooks_mem: "map n_hooks ns = hks \<Longrightarrow> i < length ns \<Longrightarrow> n_hooks (ns ! i) \<in> set hks"
  by auto

lemma reset_each_succeeds:
  assumes "resets_succeed (map n_hooks ns)" "set is \<subseteq> {..<length ns}" "st_ok ff"
  shows "st_ok (fst (reset_each is ff ns w))"
  using assms
proof (induction "is" arbitrary: ff ns w)
  case (Cons i "is")
  then have "n_hooks (ns ! i) \<in> set (map n_hooks ns)" by (intro hooks_mem) auto
  then obtain s w1 where r: "on_reset (n_hooks (ns ! i)) w = (Ret s, w1)" "st_ok s"
    using Cons.prems(1) unfolding resets_succeed_def by blast
  obtain s' ns1 w2 where call: "call_node Op_reset i ns w = (Ret s', ns1, w2)" "st_ok s'"
    using r by (cases "n_state (ns ! i) = N_Created") (auto simp: call_node_def node_reset_def st_ok_def)
  have "st_ok (fst (reset_each is ff ns1 w2))"
    using Cons.prems call_node_frame(1,3) [OF call(1)] by (intro Cons.IH) auto
  then show ?case using call by simp
qed simp

lemma reset_nodes_reverse_succeeds:
  "resets_succeed (map n_hooks ns) \<Longrightarrow> set is \<subseteq> {..<length ns} \<Longrightarrow>
     st_ok (fst (reset_nodes_reverse is ns w))"
  unfolding reset_nodes_reverse_def by (rule reset_each_succeeds) (auto simp: st_ok_def)

lemma tick_running_succeeds:
  assumes "\<forall>hk \<in> set (map n_hooks ns). \<forall>w. \<exists>s w'. on_tick hk w = (Ret s, w') \<and> \<not> tick_fatal s"
    "set is \<subseteq> {..<length ns}"
  shows "fst (tick_running is ns w) = Ret ok_status"
  using assms
proof (induction "is" arbitrary: ns w)
  case (Cons i "is")
  show ?case
  proof (cases "n_state (ns ! i) = N_Running")
    case True
    have "n_hooks (ns ! i) \<in> set (map n_hooks ns)" using Cons.prems(2) by (intro hooks_mem) auto
    then obtain s w1 where "on_tick (n_hooks (ns ! i)) w = (Ret s, w1)" "\<not> tick_fatal s"
      using Cons.prems(1) by blast
    then have call: "call_node Op_tick i ns w = (Ret s, ns, w1)" "\<not> tick_fatal s"
      using True by (simp_all add: call_node_def node_tick_def)
    then show ?thesis using Cons True by simp
  qed (use Cons in simp)
qed simp

lemma drain_loop_live:
  assumes "drain_loop p w = (r, p', w')" "covers p (p_drain_order p)" "p_state p = P_Draining"
    "drain_shape (p_drain_order p) (p_drain_index p) (p_nodes p)"
    "drainable m (map n_hooks (p_nodes p)) (p_drain_order p)"
  shows "drain_done p r p'
    \<or> (\<exists>s. r = Ret s \<and> st_code s = kWouldBlock) \<and> m w' < m w \<and> p_state p' = P_Draining"
  using assms
proof (induction p w rule: drain_loop.induct)
  case (1 p w)
  let ?k = "p_drain_index p" and ?o = "p_drain_order p"
  note unfold = "1.prems"(1) [unfolded drain_loop.simps [of p w]]
  have rng: "set ?o \<subseteq> {..<length (p_nodes p)}" using covers_range [OF "1.prems"(2)] by simp
  have resets: "resets_succeed (map n_hooks (p_nodes p))"
    and ticks: "\<forall>hk \<in> set (map n_hooks (p_nodes p)). \<forall>w. \<exists>s w'. on_tick hk w = (Ret s, w') \<and> \<not> tick_fatal s"
    using "1.prems"(5) by (simp_all add: drainable_def)
  show ?case
  proof (cases "?k < length ?o")
    case False
    then have fin: "finish_drain p w = (r, p', w')" using unfold by simp
    then have "\<not> drain_failed p r p'"
      using reset_nodes_reverse_succeeds [OF resets rng, of w]
      by (auto simp: finish_drain_def drain_failed_def split: prod.splits if_splits)
    with finish_drain_cases [OF fin "1.prems"(2)] show ?thesis by blast
  next
    case True
    have kin: "?o ! ?k < length (p_nodes p)" using rng True nth_mem by blast
    have run_k: "state_at (p_nodes p) (?o ! ?k) = N_Running \<or> state_at (p_nodes p) (?o ! ?k) = N_Draining"
      using "1.prems"(4) True by (simp add: drain_shape_def)
    have "n_hooks (p_nodes p ! (?o ! ?k)) \<in> set (map n_hooks (p_nodes p))"
      using kin by simp
    then obtain s0 w1 where hook: "on_stop (n_hooks (p_nodes p ! (?o ! ?k))) w = (Ret s0, w1)"
      "st_ok s0 \<or> st_code s0 = kEndOfStream \<or> held_up s0" "m w1 \<le> m w"
      using "1.prems"(5) unfolding drainable_def by blast
    obtain s ns where call: "call_node Op_stop (?o ! ?k) (p_nodes p) w = (Ret s, ns, w1)"
      and s: "st_ok s \<or> held_up s"
      using hook(1,2) run_k by (auto simp: call_node_def node_stop_def Let_def st_ok_def)
    note at_k = call_stop_state [OF call kin run_k]
    have frame: "same_frame p (p\<lparr>p_nodes := ns\<rparr>)"
      using same_frame_runs [OF runs_one [OF UNIV_I call] same_frame_refl] .
    then have hks: "map n_hooks ns = map n_hooks (p_nodes p)" and len: "length ns = length (p_nodes p)"
      by (simp_all add: same_frame_def)
    show ?thesis
    proof (cases "held_up s")
      case held: True
      obtain r2 ns' w2 where tick: "tick_running_downstream ?k ?o ns w1 = (r2, ns', w2)"
        by (metis prod_cases3)
      have "set (drop (?k + 1) ?o) \<subseteq> {..<length ns}"
        using rng len set_drop_subset by fastforce
      then have "r2 = Ret ok_status"
        using tick_running_succeeds [of ns _ w1] ticks tick
        unfolding hks [symmetric] tick_running_downstream_def by (metis fst_conv)
      then have r: "r = Ret (status_msg kWouldBlock ''pipeline drain requires another executor turn'')" "w' = w2"
        "p' = p\<lparr>p_nodes := ns'\<rparr>"
        using unfold True call held tick by auto
      have "m w2 < m w"
        using "1.prems"(4,5) True call held tick unfolding drainable_def by (metis snd_conv)
      then show ?thesis using r "1.prems"(3) by (simp add: status_msg_def)
    next
      case False
      let ?q = "p\<lparr>p_nodes := ns, p_drain_index := Suc ?k\<rparr>"
      have ok: "st_ok s" using s False by blast
      have rest: "drain_loop ?q w1 = (r, p', w')" using unfold True call False ok by simp
      have others: "state_at ns (?o ! j) = state_at (p_nodes p) (?o ! j)"
        if "j < length ?o" "j \<noteq> ?k" for j
        using call_node_frame(4) [OF call, of "?o ! j"] that True covers_range [OF "1.prems"(2)]
        by (simp add: nth_eq_iff_index_eq)
      have "drain_shape ?o (Suc ?k) ns"
        using "1.prems"(4) others at_k False ok unfolding drain_shape_def by (auto simp: less_Suc_eq)
      moreover have "covers ?q (p_drain_order ?q)"
        using covers_frame [OF "1.prems"(2), of ?q] frame by simp
      ultimately have IH: "drain_done ?q r p'
          \<or> (\<exists>s. r = Ret s \<and> st_code s = kWouldBlock) \<and> m w' < m w1 \<and> p_state p' = P_Draining"
        using "1.IH" [OF True call [symmetric] refl refl] rest False ok "1.prems"(3,5) hks by simp
      have "same_frame p ?q" using frame by simp
      then have "drain_done ?q r p' \<Longrightarrow> drain_done p r p'"
        using same_frame_trans [of p ?q p'] by (simp add: drain_done_def)
      with IH show ?thesis using hook(3) by force
    qed
  qed
qed

lemma pipeline_stop_live:
  assumes inv: "pipeline_inv p" and stop: "pipeline_stop p w = (r, p', w')"
    and act: "p_state p = P_Running \<or> p_state p = P_Draining"
    and live: "drainable m (map n_hooks (p_nodes p)) (p_drain_order p)"
  shows "r = Ret ok_status \<and> p_state p' = P_Stopped \<and> all_created (p_nodes p')
    \<or> (\<exists>s. r = Ret s \<and> st_code s = kWouldBlock) \<and> m w' < m w \<and> p_state p' = P_Draining
       \<and> p_drain_order p' = p_drain_order p \<and> map n_hooks (p_nodes p') = map n_hooks (p_nodes p)"
  using inv stop
proof (cases rule: pipeline_stop_cases)
  case (drain q)
  have q: "same_frame p q" "p_drain_order q = p_drain_order p" "p_nodes q = p_nodes p" "p_state q = P_Draining"
    using drain(1,2) by auto
  have cov: "covers q (p_drain_order q)"
    using inv covers_frame [OF _ q(1)] drain(1) q(2) by (auto simp: pipeline_inv_def)
  have "drain_shape (p_drain_order q) (p_drain_index q) (p_nodes q)"
  proof (cases "p_state p = P_Running")
    case True
    then have "\<forall>n \<in> set (p_nodes p). n_state n = N_Running" using inv by (simp add: pipeline_inv_def)
    then show ?thesis
      using covers_range [OF cov] nth_mem q True drain(2) by (fastforce simp: drain_shape_def)
  next
    case False
    then show ?thesis using drain(1,2) inv by (simp add: pipeline_inv_def draining_at_def)
  qed
  then have "drain_done q r p'
      \<or> (\<exists>s. r = Ret s \<and> st_code s = kWouldBlock) \<and> m w' < m w \<and> p_state p' = P_Draining"
    using drain_loop_live [OF drain(3) cov q(4), of m] live q by simp
  moreover have "drain_held q r p' \<or> drain_failed q r p' \<or> drain_done q r p'" by (rule drain(4))
  ultimately show ?thesis
    using q by (auto simp: drain_done_def drain_held_def drain_failed_def same_frame_def)
qed (use act in auto)

lemma stop_turns_live:
  assumes "pipeline_inv p" "p_state p = P_Running \<or> p_state p = P_Draining"
    "drainable m (map n_hooks (p_nodes p)) (p_drain_order p)" "m w \<le> n"
    "stop_turns n p w = (r, p', w')"
  shows "r = Ret ok_status \<and> p_state p' = P_Stopped \<and> all_created (p_nodes p')"
  using assms
proof (induction n arbitrary: p w)
  case 0
  then show ?case using pipeline_stop_live [of p w r p' w' m] by simp
next
  case (Suc n)
  obtain r1 p1 w1 where stop: "pipeline_stop p w = (r1, p1, w1)" by (metis prod_cases3)
  from pipeline_stop_live [OF Suc.prems(1) stop Suc.prems(2,3)] show ?case
  proof (elim disjE conjE exE)
    fix s
    assume s: "r1 = Ret s" "st_code s = kWouldBlock" "m w1 < m w" "p_state p1 = P_Draining"
      and keep: "p_drain_order p1 = p_drain_order p" "map n_hooks (p_nodes p1) = map n_hooks (p_nodes p)"
    have "stop_turns n p1 w1 = (r, p', w')" using Suc.prems(5) stop s by simp
    moreover have "pipeline_inv p1" by (rule stop_inv [OF Suc.prems(1) stop])
    ultimately show ?thesis using Suc.IH [of p1 w1] Suc.prems(3,4) s keep by simp
  qed (use Suc.prems(5) stop in \<open>auto simp: st_ok_def\<close>)
qed

text \<open>C1: a drain terminates. Under \<open>drainable\<close>, a pipeline that runs or drains reaches
  \<open>P_Stopped\<close> with every node back in \<open>N_Created\<close> after as many calls of \<open>stop\<close> as the measure of
  the world allows; no call fails, throws or leaves the pipeline in the error state.\<close>

theorem drain_terminates:
  assumes "pipeline_reachable ex p" and "p_state p = P_Running \<or> p_state p = P_Draining"
    and "drainable m (map n_hooks (p_nodes p)) (p_drain_order p)"
    and "stop_turns (m w) p w = (r, p', w')"
  shows "r = Ret ok_status \<and> p_state p' = P_Stopped \<and> (\<forall>n \<in> set (p_nodes p'). n_state n = N_Created)"
  using stop_turns_live [OF pipeline_reachable_inv [OF assms(1)] assms(2,3) order_refl assms(4)]
  by (simp add: all_created_def)

text \<open>A node that holds \<open>w\<close> frames and hands over one of them at each \<open>stop\<close>.\<close>

definition holding_hooks :: "nat hooks" where
  "holding_hooks = default_hooks\<lparr>on_stop := (\<lambda>w. if w = 0 then (Ret ok_status, 0)
     else (Ret (status_of kWouldBlock), w - 1))\<rparr>"

definition running_pipeline :: "nat pipeline" where
  "running_pipeline = \<lparr>p_id = ''p'', p_state = P_Running,
     p_graph = \<lparr>g_nodes = [''enc''], g_node_set = [''enc''], g_edges = []\<rparr>,
     p_nodes = [\<lparr>n_id = ''enc'', n_state = N_Running, n_hooks = holding_hooks\<rparr>],
     p_nodes_by_id = [''enc'' \<mapsto> 0], p_drain_order = [0], p_drain_index = 0\<rparr>"

lemma enc_order: "topological_order \<lparr>g_nodes = [''enc''], g_node_set = [''enc''], g_edges = []\<rparr> = Inr [''enc'']"
  by code_simp

lemma holding_pipeline_eq:
  "pipeline_start (snd (pipeline_add_node (Some (node_new ''enc'' holding_hooks)) (pipeline_new ''p''))) 0
     = (Ret ok_status, running_pipeline, 0)"
  by (simp add: pipeline_add_node_def pipeline_new_def graph_add_node_def graph_new_def node_new_def
      oset_insert.simps pipeline_start_def enc_order ordered_nodes_def call_node_def node_prepare_def
      node_start_def holding_hooks_def default_hooks_def running_pipeline_def Let_def)

lemma running_pipeline_reachable: "pipeline_reachable False running_pipeline"
proof (rule reach_start)
  show "pipeline_start (snd (pipeline_add_node (Some (node_new ''enc'' holding_hooks)) (pipeline_new ''p''))) 0
     = (Ret ok_status, running_pipeline, 0)"
    by (rule holding_pipeline_eq)
  show "pipeline_reachable False (snd (pipeline_add_node (Some (node_new ''enc'' holding_hooks)) (pipeline_new ''p'')))"
    by (rule reach_add [OF reach_new [of _ "''p''"] _ surjective_pairing]) (simp add: node_new_def)
qed simp

theorem pipeline_states_safe_witness:
  "p_state running_pipeline = P_Running \<and> map n_state (p_nodes running_pipeline) = [N_Running]"
proof -
  have running: "p_state running_pipeline = P_Running" by (simp add: running_pipeline_def)
  then have "\<forall>n \<in> set (p_nodes running_pipeline). n_state n = N_Running"
    using pipeline_states_safe [OF running_pipeline_reachable] by blast
  then have "\<forall>x \<in> set (map n_state (p_nodes running_pipeline)). x = N_Running" by simp
  moreover have "length (map n_state (p_nodes running_pipeline)) = 1" by (simp add: running_pipeline_def)
  ultimately have "map n_state (p_nodes running_pipeline) = replicate 1 N_Running"
    by (metis replicate_length_same)
  with running show ?thesis by simp
qed

lemma running_pipeline_drainable:
  "drainable (\<lambda>w. w) (map n_hooks (p_nodes running_pipeline)) (p_drain_order running_pipeline)"
  by (auto simp: drainable_def resets_succeed_def running_pipeline_def holding_hooks_def default_hooks_def
      tick_fatal_def call_node_def node_stop_def Let_def st_ok_def drain_shape_def
      tick_running_downstream_def Cons_eq_map_conv split: if_splits)

theorem drain_terminates_witness:
  "p_state running_pipeline = P_Running
   \<and> fst (stop_turns 3 running_pipeline 3) = Ret ok_status
   \<and> p_state (fst (snd (stop_turns 3 running_pipeline 3))) = P_Stopped"
proof -
  have "p_state running_pipeline = P_Running" by (simp add: running_pipeline_def)
  then show ?thesis
    using drain_terminates [OF running_pipeline_reachable _ running_pipeline_drainable, of 3]
    by (metis prod.collapse)
qed

subsection \<open>cancel and the destructor\<close>

lemma cancel_ok:
  assumes inv: "pipeline_inv p" and resets: "resets_succeed (map n_hooks (p_nodes p))"
    and cancel: "pipeline_cancel p w = (s, p', w')"
  shows "st_ok s"
proof -
  have "set (p_drain_order p) \<subseteq> {..<length (p_nodes p)}"
    using inv by (auto simp: pipeline_inv_def pipeline_wf_def)
  then have "st_ok (fst (reset_nodes_reverse (p_drain_order p) (p_nodes p) w))"
    "st_ok (fst (reset_owned_nodes_reverse (p_nodes p) w))"
    using reset_nodes_reverse_succeeds [OF resets, of _ w]
      reset_each_succeeds [OF resets, of "rev [0..<length (p_nodes p)]" ok_status w]
    by (simp_all add: reset_owned_nodes_reverse_def st_ok_def atLeast0LessThan)
  then show ?thesis
    using cancel by (auto simp: pipeline_cancel_def st_ok_def split: prod.splits if_splits)
qed

lemma cancel_rests:
  assumes inv: "pipeline_inv p" and rest: "pipeline_rest p"
    and cancel: "pipeline_cancel p w = (s, p', w')"
  shows "if st_ok s then p_state p' = P_Stopped \<and> all_created (p_nodes p') else p_state p' = P_Error"
proof -
  have "pipeline_rest p'" by (rule cancel_rest [OF assms])
  moreover from inv cancel have "if st_ok s then p_state p' = P_Stopped else p_state p' = P_Error"
    by (cases rule: pipeline_cancel_cases) (auto simp: st_ok_def)
  ultimately show ?thesis by (auto simp: pipeline_rest_def split: if_splits)
qed

text \<open>C36: \<open>cancel\<close> reaches a known state from every state, also in the middle of a drain: if it
  returns \<open>ok\<close> the pipeline is \<open>P_Stopped\<close> with every node back in \<open>N_Created\<close>, otherwise it is
  \<open>P_Error\<close>; it returns \<open>ok\<close> whenever the nodes' own resets do.\<close>

theorem cancel_known_state:
  assumes "pipeline_reachable False p" and "pipeline_cancel p w = (s, p', w')"
  shows "(if st_ok s then p_state p' = P_Stopped \<and> (\<forall>n \<in> set (p_nodes p'). n_state n = N_Created)
          else p_state p' = P_Error)
    \<and> (resets_succeed (map n_hooks (p_nodes p)) \<longrightarrow> st_ok s)"
proof -
  have inv: "pipeline_inv p" and rest: "pipeline_rest p"
    using assms(1) pipeline_reachable_inv pipeline_reachable_rest by blast+
  show ?thesis
    using cancel_rests [OF inv rest assms(2)] cancel_ok [OF inv _ assms(2)] by (auto simp: all_created_def)
qed

theorem cancel_known_state_witness:
  "p_state running_pipeline = P_Running
   \<and> p_state (fst (snd (pipeline_cancel running_pipeline 5))) = P_Stopped"
proof -
  have "resets_succeed (map n_hooks (p_nodes running_pipeline))"
    using running_pipeline_drainable by (simp add: drainable_def)
  then show ?thesis
    using cancel_known_state [OF running_pipeline_reachable, of 5] prod.collapse
    by (metis (no_types, lifting) pipeline.select_convs(2) running_pipeline_def)
qed

lemma same_hooks: "same_frame p p' \<Longrightarrow> map n_hooks (p_nodes p') = map n_hooks (p_nodes p)"
  by (simp add: same_frame_def)

lemma stop_frame:
  assumes inv: "pipeline_inv p" and stop: "pipeline_stop p w = (r, p', w')"
  shows "same_frame p p'"
  using inv stop
proof (cases rule: pipeline_stop_cases)
  case (drain q)
  then have "same_frame p q" "same_frame q p'"
    by (auto simp: drain_held_def drain_failed_def drain_done_def)
  then show ?thesis by (rule same_frame_trans)
qed auto

lemma stop_ok_stopped:
  assumes inv: "pipeline_inv p" and stop: "pipeline_stop p w = (Ret s, p', w')" and "st_ok s"
  shows "p_state p' = P_Stopped"
  using inv stop
  by (cases rule: pipeline_stop_cases)
     (use \<open>st_ok s\<close> in \<open>auto simp: drain_held_def drain_failed_def drain_done_def st_ok_def\<close>)

text \<open>The destructor. Whatever the nodes do, throwing included, the pipeline ends either
  \<open>P_Stopped\<close> with every node in \<open>N_Created\<close>, or in \<open>P_Error\<close>; the latter only if some node's reset
  failed.\<close>

theorem destructor_stops_nodes:
  assumes "pipeline_reachable False p" and "pipeline_destroy p w = (p', w')"
  shows "(p_state p' = P_Stopped \<and> (\<forall>n \<in> set (p_nodes p'). n_state n = N_Created) \<or> p_state p' = P_Error)
    \<and> (resets_succeed (map n_hooks (p_nodes p)) \<longrightarrow> p_state p' = P_Stopped)"
proof -
  have inv: "pipeline_inv p" and rest: "pipeline_rest p"
    using assms(1) pipeline_reachable_inv pipeline_reachable_rest by blast+
  obtain r p1 w1 where stop: "pipeline_stop p w = (r, p1, w1)" by (metis prod_cases3)
  have inv1: "pipeline_inv p1" and rest1: "pipeline_rest p1"
    and hooks1: "map n_hooks (p_nodes p1) = map n_hooks (p_nodes p)"
    using stop_inv [OF inv stop] stop_rest [OF inv rest stop] same_hooks [OF stop_frame [OF inv stop]]
    by blast+
  show ?thesis
  proof (cases "\<exists>s. r = Ret s \<and> st_ok s")
    case True
    then have "p' = p1" "p_state p1 = P_Stopped"
      using assms(2) stop stop_ok_stopped [OF inv] by (auto simp: pipeline_destroy_def)
    then show ?thesis using rest1 by (auto simp: pipeline_rest_def all_created_def)
  next
    case False
    obtain s p2 w2 where cancel: "pipeline_cancel p1 w1 = (s, p2, w2)" by (metis prod_cases3)
    have "p' = p2"
      using False assms(2) stop cancel by (cases r) (auto simp: pipeline_destroy_def)
    then show ?thesis
      using cancel_rests [OF inv1 rest1 cancel] cancel_ok [OF inv1 _ cancel] hooks1
      by (auto simp: all_created_def split: if_splits)
  qed
qed

theorem destructor_stops_nodes_witness:
  "p_state (fst (pipeline_destroy running_pipeline 5)) = P_Stopped"
proof -
  have "resets_succeed (map n_hooks (p_nodes running_pipeline))"
    using running_pipeline_drainable by (simp add: drainable_def)
  then show ?thesis
    using destructor_stops_nodes [OF running_pipeline_reachable, of 5] by (metis prod.collapse)
qed

text \<open>The exception the last two statements exclude. \<open>start\<close> does not catch what a node throws: the
  pipeline keeps the state it had, and the destructor, which trusts that state, touches no node.
  Here the second of two nodes throws in \<open>on_start\<close> and the first one is still running when the
  destructor's body has finished.\<close>

definition throwing_hooks :: "unit hooks" where
  "throwing_hooks = default_hooks\<lparr>on_start := Pair (Throw Bad_alloc)\<rparr>"

definition throwing_pipeline :: "unit pipeline" where
  "throwing_pipeline =
     snd (pipeline_add_node (Some (node_new ''b'' throwing_hooks))
       (snd (pipeline_add_node (Some (node_new ''a'' default_hooks)) (pipeline_new ''p''))))"

lemma start_throw_destroy:
  assumes "p_state p = P_Created" "pipeline_inv p" "pipeline_start p w = (Throw e, p', w1)"
  shows "pipeline_destroy p' w2 = (p'\<lparr>p_state := P_Stopped\<rparr>, w2)"
proof -
  have "pipeline_wf p" using assms(2) by (simp add: pipeline_inv_def)
  from this assms(3) have "p_state p' = P_Created"
    by (cases rule: pipeline_start_cases) (use assms(1) in auto)
  then show ?thesis by (simp add: pipeline_destroy_def pipeline_stop_def st_ok_def)
qed


end
