(* ===== verification/State_Store.thy ===== *)
theory State_Store
  imports Status
begin

text \<open>
  \<open>src/control/state_store.cpp\<close>. \<open>StateValue\<close> keeps one member per type and a tag; a double is
  its 64 bits and is compared as IEEE 754 compares (a NaN equals nothing, the two zeros are
  equal). The version is a 64-bit word. The store's map is only looked up, so it is a function.

  The handlers of \<open>set\<close> and \<open>erase\<close> matter: \<open>Other_exn\<close> is the lock failing, before anything is
  read; \<open>Bad_alloc\<close> comes from inserting (which then has no effect) or from assigning a longer
  string to the member of an existing value, which is assigned after the other members.
\<close>

unbundle bit_operations_syntax

datatype state_value_type = SV_Bool | SV_Int64 | SV_Double | SV_String

record state_value =
  sv_type :: state_value_type
  sv_bool :: bool
  sv_int :: int
  sv_double :: "64 word"
  sv_string :: string

definition sv_of_bool :: "bool \<Rightarrow> state_value" where
  "sv_of_bool v = \<lparr>sv_type = SV_Bool, sv_bool = v, sv_int = 0, sv_double = 0, sv_string = []\<rparr>"

definition sv_of_int64 :: "int \<Rightarrow> state_value" where
  "sv_of_int64 v = \<lparr>sv_type = SV_Int64, sv_bool = False, sv_int = v, sv_double = 0, sv_string = []\<rparr>"

definition sv_of_double :: "64 word \<Rightarrow> state_value" where
  "sv_of_double v = \<lparr>sv_type = SV_Double, sv_bool = False, sv_int = 0, sv_double = v, sv_string = []\<rparr>"

definition sv_of_string :: "string \<Rightarrow> state_value" where
  "sv_of_string v = \<lparr>sv_type = SV_String, sv_bool = False, sv_int = 0, sv_double = 0, sv_string = v\<rparr>"

definition type_error :: status where
  "type_error = status_msg kInvalidState ''state value has a different type''"

definition as_bool :: "state_value \<Rightarrow> bool result" where
  "as_bool v = (if sv_type v = SV_Bool then Inr (sv_bool v) else err type_error)"

definition as_int64 :: "state_value \<Rightarrow> int result" where
  "as_int64 v = (if sv_type v = SV_Int64 then Inr (sv_int v) else err type_error)"

definition as_double :: "state_value \<Rightarrow> 64 word result" where
  "as_double v = (if sv_type v = SV_Double then Inr (sv_double v) else err type_error)"

definition as_string :: "state_value \<Rightarrow> string result" where
  "as_string v = (if sv_type v = SV_String then Inr (sv_string v) else err type_error)"

definition double_is_nan :: "64 word \<Rightarrow> bool" where
  "double_is_nan b \<longleftrightarrow> 0x7FF0000000000000 < b AND 0x7FFFFFFFFFFFFFFF"

definition double_is_zero :: "64 word \<Rightarrow> bool" where
  "double_is_zero b \<longleftrightarrow> b AND 0x7FFFFFFFFFFFFFFF = 0"

definition double_eq :: "64 word \<Rightarrow> 64 word \<Rightarrow> bool" where
  "double_eq a b \<longleftrightarrow> \<not> double_is_nan a \<and> \<not> double_is_nan b
     \<and> (a = b \<or> double_is_zero a \<and> double_is_zero b)"

definition state_value_eq :: "state_value \<Rightarrow> state_value \<Rightarrow> bool" where
  "state_value_eq a b \<longleftrightarrow> sv_type a = sv_type b \<and>
     (case sv_type a of
        SV_Bool \<Rightarrow> sv_bool a = sv_bool b
      | SV_Int64 \<Rightarrow> sv_int a = sv_int b
      | SV_Double \<Rightarrow> double_eq (sv_double a) (sv_double b)
      | SV_String \<Rightarrow> sv_string a = sv_string b)"

subsection \<open>The store and its snapshots\<close>

record state_snapshot =
  sn_version :: "64 word"
  sn_values :: "string \<Rightarrow> state_value option"

definition snapshot_get :: "string \<Rightarrow> state_snapshot \<Rightarrow> state_value result" where
  "snapshot_get key s =
     (case sn_values s key of
        None \<Rightarrow> err (status_msg kNotFound ''state key was not found'') | Some v \<Rightarrow> Inr v)"

record state_store =
  ss_version :: "64 word"
  ss_values :: "string \<Rightarrow> state_value option"

definition store_new :: state_store where
  "store_new = \<lparr>ss_version = 0, ss_values = Map.empty\<rparr>"

definition absolute_path :: "string \<Rightarrow> bool" where
  "absolute_path key \<longleftrightarrow> key \<noteq> [] \<and> hd key = CHR ''/''"

text \<open>What the implicit copy assignment has done when its last member cannot be copied.\<close>

definition assign_torn :: "state_value \<Rightarrow> state_value \<Rightarrow> state_value" where
  "assign_torn old v = v\<lparr>sv_string := sv_string old\<rparr>"

definition state_set :: "throws \<Rightarrow> string \<Rightarrow> state_value \<Rightarrow> state_store \<Rightarrow> status \<times> state_store" where
  "state_set h key v s =
     (if \<not> absolute_path key
      then (status_msg kInvalidArgument ''state key must be an absolute path'', s)
      else if h S_state_set = Some Other_exn then (status_of kInternal, s)
      else case ss_values s key of
             None \<Rightarrow>
               if h S_state_set = Some Bad_alloc then (status_of kResourceExhausted, s)
               else (ok_status, s\<lparr>ss_values := (ss_values s)(key \<mapsto> v),
                                  ss_version := ss_version s + 1\<rparr>)
           | Some old \<Rightarrow>
               if state_value_eq old v then (ok_status, s)
               else if h S_state_set = Some Bad_alloc \<and> length (sv_string old) < length (sv_string v)
               then (status_of kResourceExhausted,
                     s\<lparr>ss_values := (ss_values s)(key \<mapsto> assign_torn old v)\<rparr>)
               else (ok_status, s\<lparr>ss_values := (ss_values s)(key \<mapsto> v),
                                  ss_version := ss_version s + 1\<rparr>))"

definition state_erase :: "throws \<Rightarrow> string \<Rightarrow> state_store \<Rightarrow> status \<times> state_store" where
  "state_erase h key s =
     (if \<not> absolute_path key
      then (status_msg kInvalidArgument ''state key must be an absolute path'', s)
      else if h S_state_erase = Some Other_exn then (status_of kInternal, s)
      else case ss_values s key of
             None \<Rightarrow> (ok_status, s)
           | Some _ \<Rightarrow> (ok_status, s\<lparr>ss_values := (ss_values s)(key := None),
                                     ss_version := ss_version s + 1\<rparr>))"

definition store_snapshot :: "state_store \<Rightarrow> state_snapshot" where
  "store_snapshot s = \<lparr>sn_version = ss_version s, sn_values = ss_values s\<rparr>"

subsection \<open>Reading back\<close>

lemma double_eq_sym: "double_eq a b = double_eq b a"
  by (auto simp: double_eq_def)

lemma state_value_eq_string [simp]: "state_value_eq (sv_of_string a) (sv_of_string b) \<longleftrightarrow> a = b"
  by (simp add: state_value_eq_def sv_of_string_def)

lemma as_string_of_string [simp]: "as_string (sv_of_string a) = Inr a"
  by (simp add: as_string_def sv_of_string_def)

text \<open>Two values that compare equal read the same; only the two zeros are told apart.\<close>

lemma state_value_eq_reads:
  "state_value_eq a b \<Longrightarrow> sv_type a = sv_type b \<and> as_bool a = as_bool b \<and> as_int64 a = as_int64 b
     \<and> as_string a = as_string b"
  by (auto simp: state_value_eq_def as_bool_def as_int64_def as_string_def split: state_value_type.splits)

lemma state_set_get:
  assumes "absolute_path key" "h S_state_set = None"
  shows "st_ok (fst (state_set h key v s))"
    "\<exists>v'. snapshot_get key (store_snapshot (snd (state_set h key v s))) = Inr v' \<and> (v' = v \<or> state_value_eq v' v)"
    "k \<noteq> key \<Longrightarrow> ss_values (snd (state_set h key v s)) k = ss_values s k"
  using assms by (auto simp: state_set_def snapshot_get_def store_snapshot_def split: option.splits)

lemma state_erase_get:
  assumes "absolute_path key" "h S_state_erase = None"
  shows "st_ok (fst (state_erase h key s))"
    "ss_values (snd (state_erase h key s)) = (ss_values s)(key := None)"
  using assms by (auto simp: state_erase_def split: option.splits)

subsection \<open>Versions\<close>

datatype store_op = Set string state_value | Erase string

fun store_apply :: "throws \<Rightarrow> store_op \<Rightarrow> state_store \<Rightarrow> state_store" where
  "store_apply h (Set k v) s = snd (state_set h k v s)"
| "store_apply h (Erase k) s = snd (state_erase h k s)"

fun store_run :: "store_op list \<Rightarrow> state_store \<Rightarrow> state_store" where
  "store_run [] s = s"
| "store_run (x # xs) s = store_run xs (store_apply no_throw x s)"

lemma store_apply_step:
  "store_apply no_throw x s = s \<or> ss_version (store_apply no_throw x s) = ss_version s + 1"
  by (cases x) (auto simp: state_set_def state_erase_def split: option.splits)

text \<open>The number of effective operations: those that changed the version.\<close>

fun store_effects :: "store_op list \<Rightarrow> state_store \<Rightarrow> nat" where
  "store_effects [] s = 0"
| "store_effects (x # xs) s =
     (if ss_version (store_apply no_throw x s) = ss_version s then 0 else 1)
     + store_effects xs (store_apply no_throw x s)"

lemma store_effects_le: "store_effects xs s \<le> length xs"
proof (induction xs arbitrary: s)
  case (Cons x xs)
  from this [of "store_apply no_throw x s"] show ?case by simp
qed simp

lemma store_run_version: "ss_version (store_run xs s) = ss_version s + of_nat (store_effects xs s)"
proof (induction xs arbitrary: s)
  case (Cons x xs)
  then show ?case using store_apply_step [of x s] by (auto simp: algebra_simps)
qed simp

lemma store_run_no_effect: "store_effects xs s = 0 \<Longrightarrow> store_run xs s = s"
proof (induction xs arbitrary: s)
  case (Cons x xs)
  then have "store_apply no_throw x s = s"
    using store_apply_step [of x s] by (auto split: if_splits)
  with Cons show ?case by simp
qed simp

text \<open>C38: the version tells snapshots apart. In any history of fewer than \<open>2 ^ 64\<close> successful
  calls, the version has advanced by exactly the number of calls that changed something; if it
  is the same at two moments, every value is the same, and no call in between changed the
  store.\<close>

theorem version_identifies_values:
  assumes "length xs < 2 ^ 64"
  shows "ss_version (store_run xs s) = ss_version s + word_of_nat (store_effects xs s)
    \<and> (sn_version (store_snapshot (store_run xs s)) = sn_version (store_snapshot s)
        \<longleftrightarrow> store_run xs s = s)"
proof -
  have bound: "store_effects xs s < 2 ^ LENGTH(64)" using store_effects_le [of xs s] assms by simp
  have "store_run xs s = s" if "ss_version (store_run xs s) = ss_version s"
  proof -
    have "word_of_nat (store_effects xs s) = (0 :: 64 word)"
      using that store_run_version [of xs s] by simp
    then have "store_effects xs s = 0" using bound by (simp add: word_of_nat_eq_0_iff)
        (metis bound dvd_imp_le len_of_numeral_defs(1) linorder_not_less not_gr_zero)
    then show ?thesis by (rule store_run_no_effect)
  qed
  then show ?thesis using store_run_version [of xs s] by (auto simp: store_snapshot_def)
qed

theorem version_identifies_values_witness:
  "let xs = [Set ''/a'' (sv_of_int64 1), Set ''/a'' (sv_of_int64 1), Erase ''/b'']
   in ss_version (store_run xs store_new) = 1 \<and> store_run xs store_new \<noteq> store_new"
proof -
  let ?xs = "[Set ''/a'' (sv_of_int64 1), Set ''/a'' (sv_of_int64 1), Erase ''/b'']"
  have e: "store_effects ?xs store_new = 1"
    by (simp add: state_set_def state_erase_def store_new_def absolute_path_def sv_of_int64_def
        state_value_eq_def)
  have "length ?xs < 2 ^ 64" by simp
  note v = version_identifies_values [OF this, of store_new]
  have "ss_version (store_run ?xs store_new) = ss_version store_new + word_of_nat 1"
    unfolding e [symmetric] by (rule v [THEN conjunct1])
  also have "\<dots> = 1" by (simp add: store_new_def)
  finally have one: "ss_version (store_run ?xs store_new) = 1" .
  then have "store_run ?xs store_new \<noteq> store_new" by (metis store_new_def state_store.select_convs(1) zero_neq_one)
  with one show ?thesis unfolding Let_def by blast
qed

text \<open>C39: two cases in which version and contents part. Writing a NaN over the same NaN advances
  the version, although the value written is the value stored; and an assignment that runs out
  of memory changes the type of the stored value while it reports a failure and leaves the
  version as it was.\<close>

theorem version_exceptions:
  "(\<forall>s. ss_values s key = Some (sv_of_double nan) \<and> double_is_nan nan \<and> absolute_path key \<longrightarrow>
      ss_values (snd (state_set no_throw key (sv_of_double nan) s)) = ss_values s
      \<and> ss_version (snd (state_set no_throw key (sv_of_double nan) s)) = ss_version s + 1)
   \<and> (\<forall>s i str. ss_values s key = Some (sv_of_int64 i) \<and> absolute_path key \<and> str \<noteq> [] \<longrightarrow>
      (case state_set (\<lambda>_. Some Bad_alloc) key (sv_of_string str) s of (st, s') \<Rightarrow>
         st_code st = kResourceExhausted \<and> ss_version s' = ss_version s
         \<and> snapshot_get key (store_snapshot s') = Inr (sv_of_string [])))"
  by (auto simp: state_set_def state_value_eq_def sv_of_double_def sv_of_int64_def sv_of_string_def
      double_eq_def assign_torn_def snapshot_get_def store_snapshot_def status_of_def fun_upd_idem)

theorem version_exceptions_witness:
  "(let s = snd (state_set no_throw ''/x'' (sv_of_double 0x7FF8000000000000) store_new)
    in ss_version (snd (state_set no_throw ''/x'' (sv_of_double 0x7FF8000000000000) s)) = 2)
   \<and> (let s = snd (state_set no_throw ''/x'' (sv_of_int64 7) store_new)
      in snapshot_get ''/x'' (store_snapshot (snd (state_set (\<lambda>_. Some Bad_alloc) ''/x'' (sv_of_string ''abc'') s)))
           = Inr (sv_of_string []))"
proof -
  have new: "ss_values (snd (state_set no_throw ''/x'' v store_new)) ''/x'' = Some v"
    "ss_version (snd (state_set no_throw ''/x'' v store_new)) = 1" for v
    by (simp_all add: state_set_def store_new_def absolute_path_def)
  let ?d = "snd (state_set no_throw ''/x'' (sv_of_double 0x7FF8000000000000) store_new)"
  let ?i = "snd (state_set no_throw ''/x'' (sv_of_int64 7) store_new)"
  note both = version_exceptions [of "''/x''" "0x7FF8000000000000"]
  have nan: "double_is_nan 0x7FF8000000000000" and path: "absolute_path ''/x''"
    by (simp_all add: double_is_nan_def absolute_path_def)
  have "ss_version (snd (state_set no_throw ''/x'' (sv_of_double 0x7FF8000000000000) ?d)) = 2"
    using both [THEN conjunct1, rule_format, of ?d] nan path new by simp
  moreover have "snapshot_get ''/x'' (store_snapshot
      (snd (state_set (\<lambda>_. Some Bad_alloc) ''/x'' (sv_of_string ''abc'') ?i))) = Inr (sv_of_string [])"
    using both [THEN conjunct2, rule_format, of ?i 7 "''abc''"] path new(1) by (simp add: case_prod_beta)
  ultimately show ?thesis by (simp add: Let_def)
qed

end
