(* ===== verification/Control.thy ===== *)
theory Control
  imports State_Store Pipeline_Liveness
begin

text \<open>
  \<open>src/control/command.cpp\<close> and \<open>src/control/pipeline_reconciler.cpp\<close>: commands write the desired
  state, \<open>reconcile_once\<close> drives the pipeline towards it and publishes the outcome in the actual
  store. Pointers that may be null are options. The reconciler holds pointers, so what it changes
  is returned; the desired store is only read, which its absence from the result shows.

  \<open>h\<close> gives the exceptions of each of the reconciler's calls on the actual store, in the order
  of the calls (0, 1).
\<close>

subsection \<open>Commands\<close>

record command_header =
  ch_id :: string
  ch_source :: string

record start_pipeline_command =
  start_header :: command_header
  start_pipeline_id :: string

record stop_pipeline_command =
  stop_header :: command_header
  stop_pipeline_id :: string

definition pipeline_state_key :: "string \<Rightarrow> string" where
  "pipeline_state_key i = ''/pipelines/'' @ i @ ''/state''"

definition set_desired ::
  "throws \<Rightarrow> command_header \<Rightarrow> string \<Rightarrow> string \<Rightarrow> state_store option \<Rightarrow> status \<times> state_store option" where
  "set_desired h header pipeline_id state desired =
     (case desired of
        None \<Rightarrow> (status_msg kInvalidState ''desired state store is not configured'', None)
      | Some d \<Rightarrow>
          if ch_id header = [] \<or> ch_source header = [] \<or> pipeline_id = []
          then (status_msg kInvalidArgument ''command fields must not be empty'', Some d)
          else map_prod id Some (state_set h (pipeline_state_key pipeline_id) (sv_of_string state) d))"

definition handle_start ::
  "throws \<Rightarrow> start_pipeline_command \<Rightarrow> state_store option \<Rightarrow> status \<times> state_store option" where
  "handle_start h c = set_desired h (start_header c) (start_pipeline_id c) ''running''"

definition handle_stop ::
  "throws \<Rightarrow> stop_pipeline_command \<Rightarrow> state_store option \<Rightarrow> status \<times> state_store option" where
  "handle_stop h c = set_desired h (stop_header c) (stop_pipeline_id c) ''stopped''"

subsection \<open>The reconciler\<close>

definition state_key :: "'w pipeline \<Rightarrow> string" where
  "state_key p = ''/pipelines/'' @ p_id p @ ''/state''"

definition error_key :: "'w pipeline \<Rightarrow> string" where
  "error_key p = ''/pipelines/'' @ p_id p @ ''/error''"

definition publish_failure ::
  "(nat \<Rightarrow> throws) \<Rightarrow> 'w pipeline \<Rightarrow> status \<Rightarrow> state_store \<Rightarrow> status \<times> state_store" where
  "publish_failure h p failure actual =
     (case state_set (h 0) (state_key p) (sv_of_string ''error'') actual of (s1, a1) \<Rightarrow>
        if \<not> st_ok s1 then (s1, a1)
        else case state_set (h 1) (error_key p) (sv_of_string (st_message failure)) a1 of (s2, a2) \<Rightarrow>
          if \<not> st_ok s2 then (s2, a2) else (failure, a2))"

text \<open>After the call on the pipeline: \<open>target\<close> is the desired state, \<open>result\<close> what the call
  returned.\<close>

definition publish_result ::
  "(nat \<Rightarrow> throws) \<Rightarrow> 'w pipeline \<Rightarrow> string \<Rightarrow> status \<Rightarrow> state_store \<Rightarrow> status \<times> state_store" where
  "publish_result h p target result actual =
     (if \<not> st_ok result
      then if st_code result = kWouldBlock
           then case state_set (h 0) (state_key p) (sv_of_string ''draining'') actual of (publish, a1) \<Rightarrow>
                  (if st_ok publish then result else publish, a1)
           else publish_failure h p result actual
      else case state_erase (h 0) (error_key p) actual of (clear, a1) \<Rightarrow>
             if \<not> st_ok clear then (clear, a1)
             else state_set (h 1) (state_key p) (sv_of_string target) a1)"

definition drive_pipeline ::
  "(nat \<Rightarrow> throws) \<Rightarrow> string \<Rightarrow> (status outcome \<times> 'w pipeline \<times> 'w) \<Rightarrow> state_store \<Rightarrow>
     status outcome \<times> 'w pipeline \<times> state_store \<times> 'w" where
  "drive_pipeline h target call actual =
     (case call of
        (Throw e, p1, w1) \<Rightarrow> (Throw e, p1, actual, w1)
      | (Ret s, p1, w1) \<Rightarrow>
          (case publish_result h p1 target s actual of (r, a1) \<Rightarrow> (Ret r, p1, a1, w1)))"

definition state_string :: "'w pipeline \<Rightarrow> state_store \<Rightarrow> string result" where
  "state_string p s =
     (case snapshot_get (state_key p) (store_snapshot s) of Inl e \<Rightarrow> Inl e | Inr v \<Rightarrow> as_string v)"

definition reconcile_configured ::
  "(nat \<Rightarrow> throws) \<Rightarrow> 'w pipeline \<Rightarrow> state_store \<Rightarrow> state_store \<Rightarrow> 'w \<Rightarrow>
     status outcome \<times> 'w pipeline \<times> state_store \<times> 'w" where
  "reconcile_configured h p desired actual w =
     (case state_string p desired of
        Inl s \<Rightarrow> (Ret s, p, actual, w)
      | Inr target \<Rightarrow>
          if state_string p actual = Inr target
          then (case state_erase (h 0) (error_key p) actual of (s, a1) \<Rightarrow> (Ret s, p, a1, w))
          else if target = ''running'' then drive_pipeline h target (pipeline_start p w) actual
          else if target = ''stopped'' then drive_pipeline h target (pipeline_stop p w) actual
          else (Ret (status_msg kInvalidArgument ''unsupported desired pipeline state''), p, actual, w))"

definition reconcile_once ::
  "(nat \<Rightarrow> throws) \<Rightarrow> 'w pipeline option \<Rightarrow> state_store option \<Rightarrow> state_store option \<Rightarrow> 'w \<Rightarrow>
     status outcome \<times> 'w pipeline option \<times> state_store option \<times> 'w" where
  "reconcile_once h pipeline desired actual w =
     (case (pipeline, desired, actual) of
        (Some p, Some d, Some a) \<Rightarrow>
          (case reconcile_configured h p d a w of (r, p1, a1, w1) \<Rightarrow> (r, Some p1, Some a1, w1))
      | _ \<Rightarrow> (Ret (status_msg kInvalidState ''reconciler dependencies are not configured''),
              pipeline, actual, w))"

subsection \<open>What a reconciliation publishes\<close>

lemma keys_differ: "state_key p \<noteq> error_key p"
  by (simp add: state_key_def error_key_def)

lemma keys_absolute [simp]: "absolute_path (state_key p)" "absolute_path (error_key p)"
  by (simp_all add: absolute_path_def state_key_def error_key_def)

lemma desired_key: "pipeline_state_key (p_id p) = state_key p"
  by (simp add: pipeline_state_key_def state_key_def)

definition published :: "string \<Rightarrow> state_store \<Rightarrow> string option" where
  "published key s =
     (case ss_values s key of None \<Rightarrow> None
      | Some v \<Rightarrow> if sv_type v = SV_String then Some (sv_string v) else None)"

lemma state_string_published: "state_string p s = Inr x \<longleftrightarrow> published (state_key p) s = Some x"
  by (auto simp: state_string_def published_def snapshot_get_def store_snapshot_def as_string_def
      split: option.splits if_splits)

lemma set_string_published:
  assumes "absolute_path key" "h S_state_set = None"
  shows "state_set h key (sv_of_string x) s = (r, s') \<Longrightarrow>
    r = ok_status \<and> published key s' = Some x \<and> (\<forall>k. k \<noteq> key \<longrightarrow> ss_values s' k = ss_values s k)"
  using assms
  by (auto simp: state_set_def published_def sv_of_string_def state_value_eq_def
      split: option.splits if_splits)

lemma erase_published:
  assumes "absolute_path key" "h S_state_erase = None"
  shows "state_erase h key s = (r, s') \<Longrightarrow>
    r = ok_status \<and> published key s' = None \<and> (\<forall>k. k \<noteq> key \<longrightarrow> ss_values s' k = ss_values s k)"
  using assms by (auto simp: state_erase_def published_def split: option.splits if_splits)

lemma published_cong: "ss_values s' k = ss_values s k \<Longrightarrow> published k s' = published k s"
  by (simp add: published_def)

lemma set_no_throw:
  "absolute_path key \<Longrightarrow> state_set no_throw key (sv_of_string x) s = (r, s') \<Longrightarrow>
    r = ok_status \<and> published key s' = Some x \<and> (\<forall>k. k \<noteq> key \<longrightarrow> ss_values s' k = ss_values s k)"
  by (rule set_string_published) simp_all

lemma erase_no_throw:
  "absolute_path key \<Longrightarrow> state_erase no_throw key s = (r, s') \<Longrightarrow>
    r = ok_status \<and> published key s' = None \<and> (\<forall>k. k \<noteq> key \<longrightarrow> ss_values s' k = ss_values s k)"
  by (rule erase_published) simp_all

definition tells :: "'w pipeline \<Rightarrow> string \<Rightarrow> status \<Rightarrow> state_store \<Rightarrow> bool" where
  "tells p target s a \<longleftrightarrow>
     (if st_ok s then published (state_key p) a = Some target \<and> published (error_key p) a = None
      else if st_code s = kWouldBlock then published (state_key p) a = Some ''draining''
      else published (state_key p) a = Some ''error'' \<and> published (error_key p) a = Some (st_message s))"

lemma publish_result_outcome:
  assumes "publish_result (\<lambda>_. no_throw) p target s a = (r, a')"
  shows "r = (if st_ok s then ok_status else s) \<and> tells p target s a'"
proof -
  consider (ok) "st_ok s" | (block) "\<not> st_ok s" "st_code s = kWouldBlock"
    | (bad) "\<not> st_ok s" "st_code s \<noteq> kWouldBlock" by blast
  then show ?thesis
  proof cases
    case ok
    obtain c a1 where e: "state_erase no_throw (error_key p) a = (c, a1)" by fastforce
    note e' = erase_no_throw [OF keys_absolute(2) e]
    then have s2: "state_set no_throw (state_key p) (sv_of_string target) a1 = (r, a')"
      using ok assms e by (simp add: publish_result_def st_ok_def)
    show ?thesis
      using ok e' set_no_throw [OF keys_absolute(1) s2] keys_differ [of p]
        published_cong [of a' "error_key p" a1] by (simp add: tells_def)
  next
    case block
    obtain c a1 where e: "state_set no_throw (state_key p) (sv_of_string ''draining'') a = (c, a1)" by fastforce
    show ?thesis
      using block assms e set_no_throw [OF keys_absolute(1) e] by (auto simp: publish_result_def tells_def)
  next
    case bad
    obtain c a1 where e: "state_set no_throw (state_key p) (sv_of_string ''error'') a = (c, a1)" by fastforce
    obtain c2 a2 where e2: "state_set no_throw (error_key p) (sv_of_string (st_message s)) a1 = (c2, a2)"
      by fastforce
    show ?thesis
      using bad assms e e2 set_no_throw [OF keys_absolute(1) e] set_no_throw [OF keys_absolute(2) e2]
        keys_differ [of p] published_cong [of a2 "state_key p" a1]
      by (simp add: publish_result_def publish_failure_def st_ok_def tells_def)
  qed
qed

lemma start_frame:
  assumes "pipeline_inv p" "pipeline_start p w = (r, p', w')"
  shows "same_frame p p'"
proof -
  have "pipeline_wf p" using assms(1) by (simp add: pipeline_inv_def)
  from this assms(2) show ?thesis by (cases rule: pipeline_start_cases) auto
qed

lemma same_keys: "same_frame p p' \<Longrightarrow> state_key p' = state_key p \<and> error_key p' = error_key p"
  by (simp add: same_frame_def state_key_def error_key_def)

text \<open>The pipeline call a reconciliation makes, if it makes one.\<close>

definition pipeline_call :: "string \<Rightarrow> 'w pipeline \<Rightarrow> 'w \<Rightarrow> status outcome \<times> 'w pipeline \<times> 'w" where
  "pipeline_call target p w = (if target = ''running'' then pipeline_start p w else pipeline_stop p w)"

lemma pipeline_call_frame:
  "pipeline_inv p \<Longrightarrow> pipeline_call target p w = (r, p', w') \<Longrightarrow> same_frame p p'"
  by (auto simp: pipeline_call_def intro: start_frame stop_frame split: if_splits)

lemma reconcile_calls:
  assumes "state_string p d = Inr target" "target = ''running'' \<or> target = ''stopped''"
    "state_string p a \<noteq> Inr target"
  shows "reconcile_configured h p d a w = drive_pipeline h target (pipeline_call target p w) a"
  using assms by (auto simp: reconcile_configured_def pipeline_call_def)

text \<open>What success of the call means for the pipeline itself.\<close>

definition in_state :: "string \<Rightarrow> 'w pipeline \<Rightarrow> bool" where
  "in_state target p \<longleftrightarrow>
     (if target = ''running'' then p_state p = P_Running \<and> (\<forall>n \<in> set (p_nodes p). n_state n = N_Running)
      else p_state p = P_Stopped \<and> (\<forall>n \<in> set (p_nodes p). n_state n = N_Created))"

lemma pipeline_call_ok:
  assumes inv: "pipeline_inv p" and rest: "pipeline_rest p"
    and call: "pipeline_call target p w = (Ret s, p1, w1)" and "st_ok s"
  shows "in_state target p1"
proof (cases "target = ''running''")
  case True
  then have start: "pipeline_start p w = (Ret s, p1, w1)" using call by (simp add: pipeline_call_def)
  have "pipeline_wf p" using inv by (simp add: pipeline_inv_def)
  from this start have "p_state p1 = P_Running"
    by (cases rule: pipeline_start_cases) (use \<open>st_ok s\<close> in \<open>auto simp: st_ok_def\<close>)
  then show ?thesis using start_inv [OF inv start] True by (simp add: in_state_def pipeline_inv_def)
next
  case False
  then have stop: "pipeline_stop p w = (Ret s, p1, w1)" using call by (simp add: pipeline_call_def)
  have "p_state p1 = P_Stopped" by (rule stop_ok_stopped [OF inv stop \<open>st_ok s\<close>])
  then show ?thesis
    using stop_rest [OF inv rest stop] False by (simp add: in_state_def pipeline_rest_def all_created_def)
qed

text \<open>C35: a reconciliation that has something to do. If the desired state is \<open>running\<close> or
  \<open>stopped\<close> and differs from the published one, the pipeline is started or stopped exactly once,
  the status returned is the pipeline's, and the actual store tells it: the desired state and no
  error on success, \<open>draining\<close> when the drain is held up, \<open>error\<close> with the message on any other
  failure. On success the pipeline and all its nodes really are in the state published.\<close>

theorem reconcile_publishes:
  assumes "pipeline_reachable False p"
    and "published (state_key p) d = Some target" and "target = ''running'' \<or> target = ''stopped''"
    and "published (state_key p) a \<noteq> Some target"
    and "(if target = ''running'' then pipeline_start p w else pipeline_stop p w) = (Ret s, p1, w1)"
  shows "\<exists>a1. reconcile_once (\<lambda>_. no_throw) (Some p) (Some d) (Some a) w
        = (Ret (if st_ok s then ok_status else s), Some p1, Some a1, w1)
    \<and> (if st_ok s
       then published (state_key p) a1 = Some target \<and> published (error_key p) a1 = None
            \<and> in_state target p1
       else if st_code s = kWouldBlock then published (state_key p) a1 = Some ''draining''
       else published (state_key p) a1 = Some ''error''
            \<and> published (error_key p) a1 = Some (st_message s))"
proof -
  have inv: "pipeline_inv p" and rest: "pipeline_rest p"
    using assms(1) pipeline_reachable_inv pipeline_reachable_rest by blast+
  have call: "pipeline_call target p w = (Ret s, p1, w1)"
    using assms(5) by (simp add: pipeline_call_def)
  have keys: "state_key p1 = state_key p" "error_key p1 = error_key p"
    using same_keys [OF pipeline_call_frame [OF inv call]] by simp_all
  obtain r a1 where pub: "publish_result (\<lambda>_. no_throw) p1 target s a = (r, a1)" by fastforce
  note out = publish_result_outcome [OF pub]
  have "reconcile_once (\<lambda>_. no_throw) (Some p) (Some d) (Some a) w = (Ret r, Some p1, Some a1, w1)"
    using reconcile_calls [of p d target a "\<lambda>_. no_throw" w] assms(2-4) call pub
    by (simp add: state_string_published reconcile_once_def drive_pipeline_def)
  then show ?thesis
    using out keys pipeline_call_ok [OF inv rest call] by (auto simp: tells_def)
qed

lemma published_set: "published (state_key p) (snd (state_set no_throw (state_key p) (sv_of_string x) s)) = Some x"
  using set_no_throw [OF keys_absolute(1) surjective_pairing] by blast

theorem reconcile_publishes_witness:
  "\<exists>a1. reconcile_once (\<lambda>_. no_throw) (Some running_pipeline)
          (Some (snd (state_set no_throw (state_key running_pipeline) (sv_of_string ''stopped'') store_new)))
          (Some store_new) 0
        = (Ret ok_status, Some (fst (snd (pipeline_stop running_pipeline 0))), Some a1,
           snd (snd (pipeline_stop running_pipeline 0)))
      \<and> published (state_key running_pipeline) a1 = Some ''stopped''"
proof -
  have ok: "fst (pipeline_stop running_pipeline 0) = Ret ok_status"
    by (simp add: running_pipeline_def holding_hooks_def default_hooks_def pipeline_stop_def
        drain_loop.simps call_node_def node_stop_def finish_drain_def reset_nodes_reverse_def
        node_reset_def Let_def st_ok_def)
  have stop: "(if ''stopped'' = ''running'' then pipeline_start running_pipeline 0
        else pipeline_stop running_pipeline 0)
      = (Ret ok_status, fst (snd (pipeline_stop running_pipeline 0)),
         snd (snd (pipeline_stop running_pipeline 0)))"
    using ok by (simp add: prod_eq_iff)
  have "published (state_key running_pipeline) store_new \<noteq> Some ''stopped''"
    by (simp add: published_def store_new_def)
  from reconcile_publishes [OF running_pipeline_reachable published_set disjI2 [OF refl] this stop]
  show ?thesis by (auto simp: st_ok_def)
qed

text \<open>A reconciliation that has nothing to do. When the published state already is the
  desired one, the pipeline and the world are left alone and the error entry is removed. So a
  second reconciliation after a successful one is idle; and the published state is what is
  compared, not the pipeline: one that has failed since it was published as \<open>running\<close> is
  reported as converged, and its error entry is removed.\<close>

theorem reconcile_idle:
  assumes "published (state_key p) d = Some target" and "published (state_key p) a = Some target"
  shows "\<exists>a1. reconcile_once (\<lambda>_. no_throw) (Some p) (Some d) (Some a) w = (Ret ok_status, Some p, Some a1, w)
    \<and> published (state_key p) a1 = Some target \<and> published (error_key p) a1 = None
    \<and> reconcile_once (\<lambda>_. no_throw) (Some p) (Some d) (Some a1) w = (Ret ok_status, Some p, Some a1, w)"
proof -
  obtain r a1 where e: "state_erase no_throw (error_key p) a = (r, a1)" by fastforce
  note e' = erase_no_throw [OF keys_absolute(2) e]
  have a1: "published (state_key p) a1 = Some target"
    using assms(2) e' keys_differ [of p] published_cong by metis
  have "ss_values a1 (error_key p) = None"
    using e by (auto simp: state_erase_def split: option.splits if_splits)
  then have "state_erase no_throw (error_key p) a1 = (ok_status, a1)"
    by (simp add: state_erase_def)
  moreover have "state_string p d = Inr target" "state_string p a = Inr target" "state_string p a1 = Inr target"
    using assms a1 by (simp_all add: state_string_published)
  ultimately show ?thesis
    using e e' a1 by (intro exI [of _ a1]) (simp add: reconcile_once_def reconcile_configured_def)
qed

theorem reconcile_idle_witness:
  "let s = snd (state_set no_throw (state_key running_pipeline) (sv_of_string ''running'') store_new);
       p = running_pipeline\<lparr>p_state := P_Error\<rparr>
   in \<exists>a1. reconcile_once (\<lambda>_. no_throw) (Some p) (Some s) (Some s) 0 = (Ret ok_status, Some p, Some a1, 0)"
proof -
  let ?p = "running_pipeline\<lparr>p_state := P_Error\<rparr>"
  have "state_key running_pipeline = state_key ?p" by (simp add: state_key_def)
  then show ?thesis
    using reconcile_idle [OF published_set published_set, of ?p "''running''" store_new store_new 0]
    by (auto simp: Let_def)
qed

text \<open>A command is only an intention. A complete command changes one entry of the desired
  store, to the state it names, and an incomplete one changes nothing and is refused.\<close>

theorem command_sets_desired:
  "(ch_id (start_header c) \<noteq> [] \<and> ch_source (start_header c) \<noteq> [] \<and> start_pipeline_id c \<noteq> [] \<longrightarrow>
      (\<exists>d'. handle_start no_throw c (Some d) = (ok_status, Some d')
         \<and> published (pipeline_state_key (start_pipeline_id c)) d' = Some ''running''
         \<and> (\<forall>k. k \<noteq> pipeline_state_key (start_pipeline_id c) \<longrightarrow> ss_values d' k = ss_values d k)))
   \<and> (ch_id (stop_header c') \<noteq> [] \<and> ch_source (stop_header c') \<noteq> [] \<and> stop_pipeline_id c' \<noteq> [] \<longrightarrow>
      (\<exists>d'. handle_stop no_throw c' (Some d) = (ok_status, Some d')
         \<and> published (pipeline_state_key (stop_pipeline_id c')) d' = Some ''stopped''
         \<and> (\<forall>k. k \<noteq> pipeline_state_key (stop_pipeline_id c') \<longrightarrow> ss_values d' k = ss_values d k)))
   \<and> (ch_id (start_header c) = [] \<or> ch_source (start_header c) = [] \<or> start_pipeline_id c = [] \<longrightarrow>
      snd (handle_start h c (Some d)) = Some d \<and> st_code (fst (handle_start h c (Some d))) = kInvalidArgument)"
proof -
  have path: "absolute_path (pipeline_state_key i)" for i
    by (simp add: absolute_path_def pipeline_state_key_def)
  have "\<exists>d'. map_prod id Some (state_set no_throw (pipeline_state_key i) (sv_of_string x) d) = (ok_status, Some d')
      \<and> published (pipeline_state_key i) d' = Some x
      \<and> (\<forall>k. k \<noteq> pipeline_state_key i \<longrightarrow> ss_values d' k = ss_values d k)" for i x
    using set_no_throw [OF path surjective_pairing, of i x d]
    by (intro exI [of _ "snd (state_set no_throw (pipeline_state_key i) (sv_of_string x) d)"])
       (simp add: map_prod_def case_prod_beta)
  then show ?thesis
    by (simp add: handle_start_def handle_stop_def set_desired_def status_msg_def)
qed

theorem command_sets_desired_witness:
  "\<exists>d'. handle_start no_throw \<lparr>start_header = \<lparr>ch_id = ''1'', ch_source = ''cli''\<rparr>, start_pipeline_id = ''live0''\<rparr>
          (Some store_new) = (ok_status, Some d')
      \<and> published (pipeline_state_key ''live0'') d' = Some ''running''"
  using command_sets_desired [of "\<lparr>start_header = \<lparr>ch_id = ''1'', ch_source = ''cli''\<rparr>, start_pipeline_id = ''live0''\<rparr>"
      store_new "\<lparr>stop_header = \<lparr>ch_id = ''1'', ch_source = ''cli''\<rparr>, stop_pipeline_id = ''live0''\<rparr>" no_throw]
  by auto

end
