(* ===== verification/Management.thy ===== *)
theory Management
  imports Status Ordered_Map
begin

text \<open>
  \<open>src/management/metrics.cpp\<close> and \<open>src/management/health.cpp\<close>. Counters are 64-bit words and
  wrap; gauges are the 64 bits of a double. The health components are an ordered map because
  \<open>aggregate\<close> iterates over them. The mutexes make each operation one step, which is what a
  definition is here.
\<close>

subsection \<open>MetricRegistry\<close>

record metric_registry =
  mr_counters :: "string \<Rightarrow> 64 word option"
  mr_gauges :: "string \<Rightarrow> 64 word option"

definition metrics_new :: metric_registry where
  "metrics_new = \<lparr>mr_counters = Map.empty, mr_gauges = Map.empty\<rparr>"

definition increment_counter :: "string \<Rightarrow> 64 word \<Rightarrow> metric_registry \<Rightarrow> status \<times> metric_registry" where
  "increment_counter name delta m =
     (if name = [] then (status_msg kInvalidArgument ''metric name must not be empty'', m)
      else (ok_status, m\<lparr>mr_counters := (mr_counters m)(name \<mapsto>
              (case mr_counters m name of None \<Rightarrow> 0 | Some c \<Rightarrow> c) + delta)\<rparr>))"

definition set_gauge :: "string \<Rightarrow> 64 word \<Rightarrow> metric_registry \<Rightarrow> status \<times> metric_registry" where
  "set_gauge name v m =
     (if name = [] then (status_msg kInvalidArgument ''metric name must not be empty'', m)
      else (ok_status, m\<lparr>mr_gauges := (mr_gauges m)(name \<mapsto> v)\<rparr>))"

definition metric_counter :: "string \<Rightarrow> metric_registry \<Rightarrow> 64 word result" where
  "metric_counter name m =
     (case mr_counters m name of
        None \<Rightarrow> err (status_msg kNotFound ''counter was not found'') | Some c \<Rightarrow> Inr c)"

definition metric_gauge :: "string \<Rightarrow> metric_registry \<Rightarrow> 64 word result" where
  "metric_gauge name m =
     (case mr_gauges m name of
        None \<Rightarrow> err (status_msg kNotFound ''gauge was not found'') | Some c \<Rightarrow> Inr c)"

text \<open>A history of increments, one of them possibly invalid.\<close>

fun increments :: "(string \<times> 64 word) list \<Rightarrow> metric_registry \<Rightarrow> metric_registry" where
  "increments [] m = m"
| "increments (x # xs) m = increments xs (snd (increment_counter (fst x) (snd x) m))"

definition counted :: "string \<Rightarrow> (string \<times> 64 word) list \<Rightarrow> nat" where
  "counted name xs = sum_list (map (unat \<circ> snd) (filter (\<lambda>x. fst x = name) xs))"

definition counter_or_0 :: "string \<Rightarrow> metric_registry \<Rightarrow> 64 word" where
  "counter_or_0 name m = (case mr_counters m name of None \<Rightarrow> 0 | Some c \<Rightarrow> c)"

lemma counter_or_0_increment:
  "name \<noteq> [] \<Longrightarrow> counter_or_0 name (snd (increment_counter x d m))
     = counter_or_0 name m + (if x = name then d else 0)"
  by (auto simp: counter_or_0_def increment_counter_def)

lemma increments_sum:
  "name \<noteq> [] \<Longrightarrow> counter_or_0 name (increments xs m)
     = counter_or_0 name m + of_nat (counted name xs)"
  by (induction xs arbitrary: m) (auto simp: counted_def counter_or_0_increment algebra_simps)

lemma increments_defined:
  "name \<noteq> [] \<Longrightarrow> mr_counters (increments xs m) name = None
     \<longleftrightarrow> mr_counters m name = None \<and> name \<notin> fst ` set xs"
  by (induction xs arbitrary: m) (auto simp: increment_counter_def)

text \<open>A counter is the sum of everything added to its name, modulo \<open>2 ^ 64\<close>, whatever else is
  counted in between; it exists exactly when its name has been counted.\<close>

theorem counter_is_sum:
  assumes "name \<noteq> []"
  shows "metric_counter name (increments xs metrics_new)
    = (if name \<in> fst ` set xs then Inr (word_of_nat (counted name xs))
       else err (status_msg kNotFound ''counter was not found''))"
proof (cases "name \<in> fst ` set xs")
  case True
  have e: "mr_counters metrics_new name = None" by (simp add: metrics_new_def)
  then obtain c where c: "mr_counters (increments xs metrics_new) name = Some c"
    using increments_defined [OF assms, of xs metrics_new] True by auto
  have "c = of_nat (counted name xs)"
    using increments_sum [OF assms, of xs metrics_new] c e by (simp add: counter_or_0_def)
  then show ?thesis using c True by (simp add: metric_counter_def)
next
  case False
  then have "mr_counters (increments xs metrics_new) name = None"
    using increments_defined [OF assms, of xs metrics_new] by (simp add: metrics_new_def)
  then show ?thesis using False by (simp add: metric_counter_def)
qed

theorem counter_is_sum_witness:
  "metric_counter ''p'' (increments [(''p'', - 1), (''q'', 5), (''p'', 3)] metrics_new) = Inr 2"
proof -
  have "word_of_nat (counted ''p'' [(''p'', - 1), (''q'', 5), (''p'', 3)]) = (2 :: 64 word)"
    by (simp add: counted_def)
  then show ?thesis
    using counter_is_sum [of "''p''" "[(''p'', - 1), (''q'', 5), (''p'', 3)]"] by simp
qed

subsection \<open>HealthManager\<close>

datatype health_status = H_Ok | H_Degraded | H_Error | H_Critical

text \<open>The enumerators' values, which \<open>aggregate\<close> compares.\<close>

fun health_rank :: "health_status \<Rightarrow> nat" where
  "health_rank H_Ok = 0"
| "health_rank H_Degraded = 1"
| "health_rank H_Error = 2"
| "health_rank H_Critical = 3"

lemma health_rank_inj: "health_rank a = health_rank b \<Longrightarrow> a = b"
  by (cases a; cases b) simp_all

instantiation health_status :: linorder
begin

definition less_eq_health_status :: "health_status \<Rightarrow> health_status \<Rightarrow> bool" where
  "a \<le> b \<longleftrightarrow> health_rank a \<le> health_rank b"

definition less_health_status :: "health_status \<Rightarrow> health_status \<Rightarrow> bool" where
  "a < b \<longleftrightarrow> health_rank a < health_rank b"

instance
  by standard (auto simp: less_eq_health_status_def less_health_status_def intro: health_rank_inj)

end

record health_component =
  hc_status :: health_status
  hc_message :: string

type_synonym health_manager = "(string, health_component) omap"

definition health_report ::
  "throws \<Rightarrow> string \<Rightarrow> health_status \<Rightarrow> string \<Rightarrow> health_manager \<Rightarrow> status \<times> health_manager" where
  "health_report h component s message m =
     (if component = [] then (status_msg kInvalidArgument ''health component must not be empty'', m)
      else case h S_health_report of
             Some e \<Rightarrow> (handled e, m)
           | None \<Rightarrow> (ok_status, omap_put component \<lparr>hc_status = s, hc_message = message\<rparr> m))"

definition health_component_of :: "string \<Rightarrow> health_manager \<Rightarrow> health_component result" where
  "health_component_of name m =
     (case omap_find m name of
        None \<Rightarrow> err (status_msg kNotFound ''health component was not found'') | Some c \<Rightarrow> Inr c)"

fun health_aggregate_from :: "health_status \<Rightarrow> health_manager \<Rightarrow> health_status" where
  "health_aggregate_from a [] = a"
| "health_aggregate_from a (e # es) =
     health_aggregate_from
       (if health_rank (hc_status (snd e)) > health_rank a then hc_status (snd e) else a) es"

definition health_aggregate :: "health_manager \<Rightarrow> health_status" where
  "health_aggregate = health_aggregate_from H_Ok"

lemma health_aggregate_from_Max:
  "health_aggregate_from a m = Max (insert a ((hc_status \<circ> snd) ` set m))"
proof (induction m arbitrary: a)
  case (Cons e m)
  have "(if health_rank (hc_status (snd e)) > health_rank a then hc_status (snd e) else a)
      = max a (hc_status (snd e))"
    by (auto simp: max_def less_eq_health_status_def intro: health_rank_inj)
  then have "health_aggregate_from a (e # m) = Max (insert (max a (hc_status (snd e))) ((hc_status \<circ> snd) ` set m))"
    by (simp only: health_aggregate_from.simps Cons.IH)
  also have "\<dots> = Max (insert a ((hc_status \<circ> snd) ` set (e # m)))"
    by (cases "m = []") (simp_all add: ac_simps max.left_commute)
  finally show ?case .
qed simp

text \<open>What is known of a component is the last accepted report.\<close>

fun reports :: "(string \<times> health_status \<times> string) list \<Rightarrow> health_manager \<Rightarrow> health_manager" where
  "reports [] m = m"
| "reports (x # xs) m = reports xs (snd (health_report no_throw (fst x) (fst (snd x)) (snd (snd x)) m))"

fun last_report :: "string \<Rightarrow> (string \<times> health_status \<times> string) list \<Rightarrow> health_component option" where
  "last_report name [] = None"
| "last_report name (x # xs) =
     (case last_report name xs of
        Some c \<Rightarrow> Some c
      | None \<Rightarrow> if fst x = name \<and> name \<noteq> []
                then Some \<lparr>hc_status = fst (snd x), hc_message = snd (snd x)\<rparr> else None)"

lemma reports_find:
  "omap_find (reports xs m) name = (case last_report name xs of Some c \<Rightarrow> Some c | None \<Rightarrow> omap_find m name)"
  by (induction xs arbitrary: m) (auto simp: health_report_def omap_find_put_any split: option.splits)

lemma reports_invar: "omap_invar m \<Longrightarrow> omap_invar (reports xs m)"
  by (induction xs arbitrary: m) (simp_all add: health_report_def om.invar_put)

text \<open>After any sequence of reports, a component's health is its last report (an unnamed
  report is refused), and the aggregate is the worst status among the components' last reports:
  it is reached by one of them, or is \<open>H_Ok\<close> with none worse.\<close>

theorem health_aggregate_worst:
  "(\<forall>name. health_component_of name (reports xs [])
      = (case last_report name xs of Some c \<Rightarrow> Inr c
         | None \<Rightarrow> err (status_msg kNotFound ''health component was not found'')))
   \<and> (\<forall>name c. last_report name xs = Some c \<longrightarrow>
        health_rank (hc_status c) \<le> health_rank (health_aggregate (reports xs [])))
   \<and> (health_aggregate (reports xs []) = H_Ok
      \<or> (\<exists>name c. last_report name xs = Some c \<and> hc_status c = health_aggregate (reports xs [])))"
proof -
  let ?m = "reports xs []"
  have find: "omap_find ?m name = last_report name xs" for name
    by (simp add: reports_find split: option.split)
  have inv: "omap_invar ?m" by (simp add: reports_invar)
  have agg: "health_aggregate ?m = Max (insert H_Ok ((hc_status \<circ> snd) ` set ?m))"
    by (simp add: health_aggregate_def health_aggregate_from_Max)
  have upper: "hc_status c \<le> health_aggregate ?m" if "last_report name xs = Some c" for name c
  proof -
    have "(name, c) \<in> set ?m" using that find omap_find_mem by metis
    then show ?thesis unfolding agg by (intro Max_ge) force+
  qed
  have "health_aggregate ?m \<in> insert H_Ok ((hc_status \<circ> snd) ` set ?m)"
    unfolding agg by (rule Max_in) simp_all
  then have attained: "health_aggregate ?m = H_Ok
      \<or> (\<exists>name c. last_report name xs = Some c \<and> hc_status c = health_aggregate ?m)"
    using omap_mem_find [OF inv] find by fastforce
  from upper attained show ?thesis
    by (auto simp: health_component_of_def find less_eq_health_status_def)
qed

theorem health_aggregate_worst_witness:
  "health_rank H_Error \<le> health_rank (health_aggregate
     (reports [(''a'', H_Error, ''x''), (''b'', H_Critical, ''y''), (''b'', H_Ok, ''z'')] []))"
proof -
  let ?xs = "[(''a'', H_Error, ''x''), (''b'', H_Critical, ''y''), (''b'', H_Ok, ''z'')]"
  have "last_report ''a'' ?xs = Some \<lparr>hc_status = H_Error, hc_message = ''x''\<rparr>" by simp
  then show ?thesis using health_aggregate_worst [of ?xs] by fastforce
qed

end
