(* ===== verification/Queue_Port.thy ===== *)
theory Queue_Port
  imports Status
begin

text \<open>
  \<open>include/eavp/media/queue.hpp\<close> and \<open>include/eavp/media/port.hpp\<close>.

  A \<open>BoundedQueue<T>\<close> is a record; a \<open>shared_ptr<const T>\<close> argument is an \<open>'a option\<close>
  (\<open>None\<close> the null pointer). An output port and an input port share a queue through a
  \<open>shared_ptr\<close>: the queues live in a store, a list that \<open>connect\<close> extends, and the ports
  hold indices into it. The locale \<open>bounded_fifo\<close> is what the ports need of a queue.
\<close>

subsection \<open>BoundedQueue\<close>

datatype overflow_policy = kBlock | kDropOldest | kDropNewest

record 'a bqueue =
  q_capacity :: size_t
  q_policy :: overflow_policy
  q_dropped_count :: size_t
  q_values :: "'a list"

definition bqueue_new :: "size_t \<Rightarrow> overflow_policy \<Rightarrow> 'a bqueue" where
  "bqueue_new capacity policy =
     \<lparr>q_capacity = capacity, q_policy = policy, q_dropped_count = 0, q_values = []\<rparr>"

definition bqueue_size :: "'a bqueue \<Rightarrow> nat" where
  "bqueue_size q = length (q_values q)"

definition preflight_push :: "'a option \<Rightarrow> 'a bqueue \<Rightarrow> status" where
  "preflight_push v q =
     (if v = None then status_msg kInvalidArgument ''queue value must not be null''
      else if q_capacity q = 0 then status_msg kInvalidState ''queue capacity must be positive''
      else if bqueue_size q = unat (q_capacity q) \<and> q_policy q = kBlock
           then status_msg kWouldBlock ''queue is full''
      else ok_status)"

definition bqueue_push :: "'a option \<Rightarrow> 'a bqueue \<Rightarrow> status \<times> 'a bqueue" where
  "bqueue_push v q =
     (let preflight = preflight_push v q
      in if \<not> st_ok preflight then (preflight, q)
         else if bqueue_size q = unat (q_capacity q)
         then (if q_policy q = kDropNewest
               then (ok_status, q\<lparr>q_dropped_count := q_dropped_count q + 1\<rparr>)
               else (ok_status,
                     q\<lparr>q_values := tl (q_values q) @ [the v],
                       q_dropped_count := q_dropped_count q + 1\<rparr>))
         else (ok_status, q\<lparr>q_values := q_values q @ [the v]\<rparr>))"

definition bqueue_pop :: "'a bqueue \<Rightarrow> 'a result \<times> 'a bqueue" where
  "bqueue_pop q =
     (case q_values q of
        [] \<Rightarrow> (err (status_msg kNotFound ''queue is empty''), q)
      | v # vs \<Rightarrow> (Inr v, q\<lparr>q_values := vs\<rparr>))"

definition bqueue_inv :: "'a bqueue \<Rightarrow> bool" where
  "bqueue_inv q \<longleftrightarrow> length (q_values q) \<le> unat (q_capacity q)"

lemma bqueue_inv_new: "bqueue_inv (bqueue_new c p)"
  by (simp add: bqueue_inv_def bqueue_new_def)

lemma preflight_ok_iff:
  "st_ok (preflight_push v q) \<longleftrightarrow>
     v \<noteq> None \<and> q_capacity q \<noteq> 0 \<and> (bqueue_size q = unat (q_capacity q) \<longrightarrow> q_policy q \<noteq> kBlock)"
  by (auto simp: preflight_push_def)

lemma push_status: "fst (bqueue_push v q) = preflight_push v q \<or> st_ok (fst (bqueue_push v q))"
  by (simp add: bqueue_push_def Let_def)

lemma push_ok_iff: "st_ok (fst (bqueue_push v q)) \<longleftrightarrow> st_ok (preflight_push v q)"
  by (simp add: bqueue_push_def Let_def)

lemma push_rejected: "\<not> st_ok (preflight_push v q) \<Longrightarrow> bqueue_push v q = (preflight_push v q, q)"
  by (simp add: bqueue_push_def)

lemma push_inv: "bqueue_inv q \<Longrightarrow> bqueue_inv (snd (bqueue_push v q))"
proof -
  assume inv: "bqueue_inv q"
  have "q_capacity q \<noteq> 0 \<Longrightarrow> 0 < unat (q_capacity q)"
    by (simp add: unat_gt_0)
  with inv show ?thesis
    by (auto simp: bqueue_push_def Let_def bqueue_inv_def bqueue_size_def preflight_ok_iff)
qed

lemma pop_inv: "bqueue_inv q \<Longrightarrow> bqueue_inv (snd (bqueue_pop q))"
  by (auto simp: bqueue_pop_def bqueue_inv_def split: list.splits)

lemma bqueue_pop_Nil: "q_values q = [] \<Longrightarrow> bqueue_pop q = (err (status_msg kNotFound ''queue is empty''), q)"
  by (simp add: bqueue_pop_def)

lemma bqueue_pop_Cons: "q_values q = x # xs \<Longrightarrow> bqueue_pop q = (Inr x, q\<lparr>q_values := xs\<rparr>)"
  by (simp add: bqueue_pop_def)

lemma push_capacity [simp]:
  "q_capacity (snd (bqueue_push v q)) = q_capacity q"
  "q_policy (snd (bqueue_push v q)) = q_policy q"
  by (simp_all add: bqueue_push_def Let_def)

text \<open>Pushing a list of values, one \<open>push\<close> after the other, whatever each call returns.\<close>

fun push_list :: "'a list \<Rightarrow> 'a bqueue \<Rightarrow> 'a bqueue" where
  "push_list [] q = q"
| "push_list (x # xs) q = push_list xs (snd (bqueue_push (Some x) q))"

lemma push_room:
  "bqueue_inv q \<Longrightarrow> length (q_values q) < unat (q_capacity q) \<Longrightarrow>
     bqueue_push (Some x) q = (ok_status, q\<lparr>q_values := q_values q @ [x]\<rparr>)"
  by (auto simp: bqueue_push_def Let_def preflight_push_def bqueue_size_def)

lemma push_full_oldest:
  "q_capacity q \<noteq> 0 \<Longrightarrow> length (q_values q) = unat (q_capacity q) \<Longrightarrow> q_policy q = kDropOldest \<Longrightarrow>
     snd (bqueue_push (Some x) q)
       = q\<lparr>q_values := tl (q_values q) @ [x], q_dropped_count := q_dropped_count q + 1\<rparr>"
  by (auto simp: bqueue_push_def Let_def preflight_push_def bqueue_size_def)

lemma push_full_newest:
  "q_capacity q \<noteq> 0 \<Longrightarrow> length (q_values q) = unat (q_capacity q) \<Longrightarrow> q_policy q = kDropNewest \<Longrightarrow>
     snd (bqueue_push (Some x) q) = q\<lparr>q_dropped_count := q_dropped_count q + 1\<rparr>"
  by (auto simp: bqueue_push_def Let_def preflight_push_def bqueue_size_def)

lemma push_full_block:
  "length (q_values q) = unat (q_capacity q) \<Longrightarrow> q_policy q = kBlock \<Longrightarrow>
     snd (bqueue_push (Some x) q) = q"
  by (auto simp: bqueue_push_def Let_def preflight_push_def bqueue_size_def)

text \<open>What the queue holds after a list of pushes, as a function of everything offered.\<close>

definition retained :: "overflow_policy \<Rightarrow> nat \<Rightarrow> 'a list \<Rightarrow> 'a list" where
  "retained p c xs = (case p of kDropOldest \<Rightarrow> drop (length xs - c) xs | _ \<Rightarrow> take c xs)"

lemma push_list_retained:
  assumes "q_capacity q \<noteq> 0" "q_values q = retained (q_policy q) (unat (q_capacity q)) ys"
  shows "q_values (push_list xs q) = retained (q_policy q) (unat (q_capacity q)) (ys @ xs)"
  using assms
proof (induction xs arbitrary: q ys)
  case Nil
  then show ?case by simp
next
  case (Cons x xs)
  let ?c = "unat (q_capacity q)" and ?q = "snd (bqueue_push (Some x) q)"
  have inv: "bqueue_inv q"
    using Cons.prems by (auto simp: bqueue_inv_def retained_def split: overflow_policy.split)
  have "q_values ?q = retained (q_policy q) ?c (ys @ [x])"
  proof (cases "length (q_values q) < ?c")
    case True
    then have "length ys < ?c"
      using Cons.prems(2) by (auto simp: retained_def split: overflow_policy.splits)
    then show ?thesis
      using Cons.prems(2) push_room [OF inv True, of x]
      by (auto simp: retained_def split: overflow_policy.splits)
  next
    case False
    with inv have full: "length (q_values q) = ?c" by (simp add: bqueue_inv_def)
    then have "?c \<le> length ys"
      using Cons.prems(2) by (auto simp: retained_def split: overflow_policy.splits)
    moreover have "0 < ?c" using Cons.prems(1) by (simp add: unat_gt_0)
    ultimately show ?thesis
      using full Cons.prems
      by (cases "q_policy q")
         (auto simp: retained_def push_full_oldest push_full_newest push_full_block
           Suc_diff_le tl_drop simp flip: drop_Suc)
  qed
  then show ?case
    using Cons.IH [of ?q "ys @ [x]"] Cons.prems(1) by simp
qed

lemma push_list_dropped:
  assumes "q_capacity q \<noteq> 0" "bqueue_inv q" "q_policy q \<noteq> kBlock"
  shows "q_dropped_count (push_list xs q)
     = q_dropped_count q + of_nat (length (q_values q) + length xs - unat (q_capacity q))"
  using assms
proof (induction xs arbitrary: q)
  case Nil
  then show ?case by (simp add: bqueue_inv_def)
next
  case (Cons x xs)
  let ?q = "snd (bqueue_push (Some x) q)"
  have IH: "q_dropped_count (push_list xs ?q)
     = q_dropped_count ?q + of_nat (length (q_values ?q) + length xs - unat (q_capacity q))"
    using Cons.IH [of ?q] Cons.prems push_inv [of q "Some x"] by simp
  show ?case
  proof (cases "length (q_values q) < unat (q_capacity q)")
    case True
    with IH push_room [OF Cons.prems(2) True, of x] show ?thesis by simp
  next
    case False
    with Cons.prems have full: "length (q_values q) = unat (q_capacity q)"
      by (simp add: bqueue_inv_def)
    have "0 < unat (q_capacity q)" using Cons.prems(1) by (simp add: unat_gt_0)
    with IH full Cons.prems show ?thesis
      by (cases "q_policy q") (auto simp: push_full_oldest push_full_newest)
  qed
qed

text \<open>What a bounded queue keeps. Offer any list of values to a fresh queue of positive
  capacity \<open>c\<close>: with \<open>kDropOldest\<close> it ends up holding the last \<open>c\<close> of them, with \<open>kDropNewest\<close> and
  \<open>kBlock\<close> the first \<open>c\<close>, always in the order they were offered; and with a dropping policy
  \<open>dropped_count\<close> is exactly the number of values lost.\<close>

theorem bounded_queue_retains:
  assumes "c \<noteq> 0"
  shows "q_values (push_list xs (bqueue_new c p)) = retained p (unat c) xs
    \<and> (p \<noteq> kBlock \<longrightarrow>
        q_dropped_count (push_list xs (bqueue_new c p)) = of_nat (length xs - unat c))"
proof -
  have "q_values (bqueue_new c p) = retained p (unat c) []"
    by (simp add: bqueue_new_def retained_def split: overflow_policy.split)
  then show ?thesis
    using push_list_retained [of "bqueue_new c p" "[]" xs] assms
      push_list_dropped [OF _ bqueue_inv_new, of c p xs]
    by (simp add: bqueue_new_def)
qed

theorem bounded_queue_retains_witness:
  "q_values (push_list [1, 2, 3, 4 :: nat] (bqueue_new 2 kDropOldest)) = [3, 4]"
  using bounded_queue_retains [of 2 "[1, 2, 3, 4 :: nat]" kDropOldest]
  by (simp add: retained_def)

subsection \<open>Ports\<close>

type_synonym 'a queue_store = "'a bqueue list"

record output_port =
  op_name :: string
  op_connections :: "nat list"

record input_port =
  ip_name :: string
  ip_capacity :: size_t
  ip_policy :: overflow_policy
  ip_queue :: "nat option"

definition output_port_new :: "string \<Rightarrow> output_port" where
  "output_port_new name = \<lparr>op_name = name, op_connections = []\<rparr>"

definition input_port_new :: "string \<Rightarrow> size_t \<Rightarrow> overflow_policy \<Rightarrow> input_port" where
  "input_port_new name capacity policy =
     \<lparr>ip_name = name, ip_capacity = capacity, ip_policy = policy, ip_queue = None\<rparr>"

fun preflight_all :: "'a option \<Rightarrow> nat list \<Rightarrow> 'a queue_store \<Rightarrow> status" where
  "preflight_all v [] qs = ok_status"
| "preflight_all v (i # is) qs =
     (let status = preflight_push v (qs ! i)
      in if \<not> st_ok status then status else preflight_all v is qs)"

fun push_all :: "'a option \<Rightarrow> nat list \<Rightarrow> 'a queue_store \<Rightarrow> status \<times> 'a queue_store" where
  "push_all v [] qs = (ok_status, qs)"
| "push_all v (i # is) qs =
     (case bqueue_push v (qs ! i) of (status, q) \<Rightarrow>
        if \<not> st_ok status then (status, qs[i := q]) else push_all v is (qs[i := q]))"

definition port_send :: "'a option \<Rightarrow> output_port \<Rightarrow> 'a queue_store \<Rightarrow> status \<times> 'a queue_store" where
  "port_send v out qs =
     (if op_connections out = []
      then (status_msg kInvalidState ''output port is not connected'', qs)
      else let status = preflight_all v (op_connections out) qs
           in if \<not> st_ok status then (status, qs)
              else push_all v (op_connections out) qs)"

definition port_receive :: "input_port \<Rightarrow> 'a queue_store \<Rightarrow> 'a result \<times> 'a queue_store" where
  "port_receive inp qs =
     (case ip_queue inp of
        None \<Rightarrow> (err (status_msg kInvalidState ''input port is not connected''), qs)
      | Some i \<Rightarrow> (case bqueue_pop (qs ! i) of (r, q) \<Rightarrow> (r, qs[i := q])))"

definition port_queue_size :: "input_port \<Rightarrow> 'a queue_store \<Rightarrow> nat" where
  "port_queue_size inp qs = (case ip_queue inp of Some i \<Rightarrow> bqueue_size (qs ! i) | None \<Rightarrow> 0)"

definition port_dropped_count :: "input_port \<Rightarrow> 'a queue_store \<Rightarrow> size_t" where
  "port_dropped_count inp qs =
     (case ip_queue inp of Some i \<Rightarrow> q_dropped_count (qs ! i) | None \<Rightarrow> 0)"

definition port_connect ::
  "output_port \<Rightarrow> input_port \<Rightarrow> 'a queue_store \<Rightarrow> status \<times> output_port \<times> input_port \<times> 'a queue_store" where
  "port_connect out inp qs =
     (if ip_queue inp \<noteq> None
      then (status_msg kAlreadyExists ''input port already has an upstream'', out, inp, qs)
      else if ip_capacity inp = 0
      then (status_msg kInvalidArgument ''input queue capacity must be positive'', out, inp, qs)
      else (ok_status,
            out\<lparr>op_connections := op_connections out @ [length qs]\<rparr>,
            inp\<lparr>ip_queue := Some (length qs)\<rparr>,
            qs @ [bqueue_new (ip_capacity inp) (ip_policy inp)]))"

subsection \<open>What the ports need of a queue\<close>

locale bounded_fifo =
  fixes preflight :: "'v \<Rightarrow> 'q \<Rightarrow> status"
    and push :: "'v \<Rightarrow> 'q \<Rightarrow> status \<times> 'q"
    and pop :: "'q \<Rightarrow> 'a result \<times> 'q"
    and contents :: "'q \<Rightarrow> 'a list"
    and invar :: "'q \<Rightarrow> bool"
  assumes preflight_predicts: "st_ok (preflight v q) \<Longrightarrow> st_ok (fst (push v q))"
    and push_refused: "\<not> st_ok (fst (push v q)) \<Longrightarrow> snd (push v q) = q"
    and push_invar: "invar q \<Longrightarrow> invar (snd (push v q))"
    and pop_invar: "invar q \<Longrightarrow> invar (snd (pop q))"
    and pop_empty: "contents q = [] \<Longrightarrow> \<not> res_ok (fst (pop q)) \<and> snd (pop q) = q"
    and pop_first: "contents q = x # xs \<Longrightarrow> fst (pop q) = Inr x \<and> contents (snd (pop q)) = xs"
begin

text \<open>Popping until the first failure returns the contents, front first.\<close>

lemma pop_ok_iff: "res_ok (fst (pop q)) \<longleftrightarrow> contents q \<noteq> []"
  using pop_empty [of q] pop_first [of q] by (cases "contents q") auto

lemma pop_unchanged: "\<not> res_ok (fst (pop q)) \<Longrightarrow> snd (pop q) = q"
  using pop_ok_iff pop_empty by auto

lemma pop_contents: "contents (snd (pop q)) = tl (contents q)"
  using pop_empty [of q] pop_first [of q] by (cases "contents q") auto

end

interpretation bq: bounded_fifo preflight_push bqueue_push bqueue_pop q_values bqueue_inv
  by unfold_locales (simp_all add: push_ok_iff push_rejected push_inv pop_inv bqueue_pop_Nil bqueue_pop_Cons)

subsection \<open>Sending to all connections or to none\<close>

text \<open>The connections of a port are distinct indices into the store: every \<open>connect\<close> makes
  a queue of its own.\<close>

definition output_port_inv :: "output_port \<Rightarrow> 'a queue_store \<Rightarrow> bool" where
  "output_port_inv out qs \<longleftrightarrow>
     distinct (op_connections out) \<and> (\<forall>i \<in> set (op_connections out). i < length qs)"

definition input_port_inv :: "input_port \<Rightarrow> 'a queue_store \<Rightarrow> bool" where
  "input_port_inv inp qs \<longleftrightarrow> (\<forall>i. ip_queue inp = Some i \<longrightarrow> i < length qs)"

definition store_inv :: "'a queue_store \<Rightarrow> bool" where
  "store_inv qs \<longleftrightarrow> list_all bqueue_inv qs"

lemma preflight_all_ok:
  "st_ok (preflight_all v is qs) \<longleftrightarrow> (\<forall>i \<in> set is. st_ok (preflight_push v (qs ! i)))"
  by (induction "is") (auto simp: Let_def)

lemma push_all_ok:
  "distinct is \<Longrightarrow> \<forall>i \<in> set is. i < length qs \<Longrightarrow> st_ok (preflight_all v is qs) \<Longrightarrow>
     st_ok (fst (push_all v is qs))"
proof (induction "is" arbitrary: qs)
  case Nil
  then show ?case by simp
next
  case (Cons i "is")
  obtain s q where p: "bqueue_push v (qs ! i) = (s, q)" by force
  have pre: "\<forall>j \<in> set (i # is). st_ok (preflight_push v (qs ! j))"
    using Cons.prems(3) preflight_all_ok by blast
  have "st_ok s"
    using bq.preflight_predicts [of v "qs ! i"] pre p by simp
  moreover have "st_ok (preflight_all v is (qs[i := q]))"
    using pre Cons.prems(1,2) by (auto simp: preflight_all_ok nth_list_update)
  ultimately show ?case
    using Cons.IH [of "qs[i := q]"] Cons.prems p by simp
qed

lemma push_all_effect:
  "distinct is \<Longrightarrow> \<forall>i \<in> set is. i < length qs \<Longrightarrow> st_ok (fst (push_all v is qs)) \<Longrightarrow> j < length qs \<Longrightarrow>
     snd (push_all v is qs) ! j = (if j \<in> set is then snd (bqueue_push v (qs ! j)) else qs ! j)"
  by (induction "is" arbitrary: qs) (auto simp: nth_list_update split: prod.splits if_splits)

lemma push_all_length [simp]: "length (snd (push_all v is qs)) = length qs"
  by (induction "is" arbitrary: qs) (auto split: prod.splits)

lemma port_send_length [simp]: "length (snd (port_send v out qs)) = length qs"
  by (simp add: port_send_def Let_def)

lemma port_send_cases:
  assumes "output_port_inv out qs"
  shows "\<not> st_ok (fst (port_send v out qs)) \<and> snd (port_send v out qs) = qs
    \<or> st_ok (fst (port_send v out qs)) \<and>
      (\<forall>j < length qs. snd (port_send v out qs) ! j =
         (if j \<in> set (op_connections out) then snd (bqueue_push v (qs ! j)) else qs ! j))"
  using assms push_all_ok [of "op_connections out" qs v] push_all_effect [of "op_connections out" qs v]
  by (auto simp: port_send_def Let_def output_port_inv_def)

lemma port_send_store_inv:
  assumes "output_port_inv out qs" "store_inv qs"
  shows "store_inv (snd (port_send v out qs))"
  using port_send_cases [OF assms(1), of v] assms(2)
  by (auto simp: store_inv_def list_all_length bq.push_invar)

lemma port_receive_store_inv:
  assumes "input_port_inv inp qs" "store_inv qs"
  shows "store_inv (snd (port_receive inp qs))"
proof (cases "ip_queue inp")
  case (Some i)
  then have "i < length qs" using assms(1) by (simp add: input_port_inv_def)
  then show ?thesis
    using assms(2) Some bq.pop_invar [of "qs ! i"]
    by (auto simp: store_inv_def list_all_length port_receive_def nth_list_update split: prod.splits)
qed (use assms in \<open>simp add: port_receive_def\<close>)

lemma port_connect_inv:
  assumes "output_port_inv out qs" "input_port_inv inp qs" "store_inv qs"
    and "port_connect out inp qs = (s, out', inp', qs')"
  shows "output_port_inv out' qs' \<and> input_port_inv inp' qs' \<and> store_inv qs'"
  using assms
  by (auto simp: port_connect_def output_port_inv_def input_port_inv_def store_inv_def
    bqueue_inv_new less_SucI split: if_splits)

text \<open>A fan-out is all or nothing. Through a port whose connections are the distinct queues
  \<open>connect\<close> made, \<open>send\<close> either fails and changes no queue at all, or succeeds and performs exactly
  one \<open>push\<close> on every connected queue and none on any other; it succeeds if and only if there is a
  connection, the value is not null and no connected \<open>kBlock\<close> queue is full.\<close>

theorem send_all_or_nothing:
  assumes "output_port_inv out qs"
    and "port_send v out qs = (s, qs')"
  shows "(\<not> st_ok s \<longrightarrow> qs' = qs)
    \<and> (st_ok s \<longrightarrow> length qs' = length qs \<and>
         (\<forall>j < length qs. qs' ! j =
            (if j \<in> set (op_connections out) then snd (bqueue_push v (qs ! j)) else qs ! j)))
    \<and> (st_ok s \<longleftrightarrow> op_connections out \<noteq> [] \<and>
         (\<forall>j \<in> set (op_connections out). st_ok (preflight_push v (qs ! j))))"
proof -
  have "st_ok s \<longleftrightarrow> op_connections out \<noteq> [] \<and>
      (\<forall>j \<in> set (op_connections out). st_ok (preflight_push v (qs ! j)))"
    using assms push_all_ok [of "op_connections out" qs v] preflight_all_ok
    by (auto simp: port_send_def Let_def output_port_inv_def split: if_splits)
  then show ?thesis
    using port_send_cases [OF assms(1), of v] port_send_length [of v out qs] assms(2) by auto
qed

theorem send_all_or_nothing_witness:
  "let qs = [bqueue_new 1 kBlock, (bqueue_new 1 kBlock)\<lparr>q_values := [5 :: nat]\<rparr>];
       out = \<lparr>op_name = ''o'', op_connections = [0, 1]\<rparr>
   in \<not> st_ok (fst (port_send (Some 7) out qs)) \<and> snd (port_send (Some 7) out qs) = qs"
proof -
  let ?qs = "[bqueue_new 1 kBlock, (bqueue_new 1 kBlock)\<lparr>q_values := [5 :: nat]\<rparr>]"
  let ?out = "\<lparr>op_name = ''o'', op_connections = [0, 1]\<rparr>"
  have inv: "output_port_inv ?out ?qs"
    by (simp add: output_port_inv_def)
  have "\<not> st_ok (preflight_push (Some 7) (?qs ! 1))"
    by (simp add: preflight_ok_iff bqueue_new_def bqueue_size_def)
  then show ?thesis
    using send_all_or_nothing [OF inv, of "Some 7" "fst (port_send (Some 7) ?out ?qs)"
        "snd (port_send (Some 7) ?out ?qs)"]
    by (auto simp: Let_def)
qed

end
