(* ===== verification/Checked_Arith.thy ===== *)
theory Checked_Arith
  imports Prelude
begin

text \<open>
  The overflow-checked \<open>std::size_t\<close> helpers of \<open>src/media/capability.cpp\<close> (repeated in
  \<open>src/platform/linux\<close>) and Euclid's loop of \<open>src/media/buffer.cpp\<close>, on 64-bit words with the
  tests as the code writes them. The lemmas in \<open>checked_unat\<close> say what each one computes on
  the natural numbers: the exact sum, product, least multiple, or nothing.
\<close>

named_theorems checked_unat \<open>what the checked operations compute, in \<open>nat\<close>\<close>

definition size_max :: size_t where
  "size_max = - 1"

definition checked_add :: "size_t \<Rightarrow> size_t \<Rightarrow> size_t option" where
  "checked_add left right = (if left > size_max - right then None else Some (left + right))"

definition checked_multiply :: "size_t \<Rightarrow> size_t \<Rightarrow> size_t option" where
  "checked_multiply left right =
     (if left \<noteq> 0 \<and> right > size_max div left then None else Some (left * right))"

definition align_up :: "size_t \<Rightarrow> size_t \<Rightarrow> size_t option" where
  "align_up value alignment =
     (if alignment = 0 then None
      else let remainder = value mod alignment
           in if remainder = 0 then Some value else checked_add value (alignment - remainder))"

function greatest_common_divisor :: "size_t \<Rightarrow> size_t \<Rightarrow> size_t" where
  "greatest_common_divisor left right =
     (if right \<noteq> 0 then greatest_common_divisor right (left mod right) else left)"
  by pat_completeness auto
termination
  by (relation "measure (\<lambda>(l, r). unat r)")
     (auto simp: unat_mod unat_gt_0)

declare greatest_common_divisor.simps [simp del]

definition least_common_multiple :: "size_t \<Rightarrow> size_t \<Rightarrow> size_t option" where
  "least_common_multiple left right =
     (let divisor = greatest_common_divisor left right
      in if divisor \<noteq> 0 then checked_multiply (left div divisor) right else None)"

subsection \<open>What they compute\<close>

lemma unat_size_max: "unat size_max = 2 ^ 64 - 1"
  by (simp add: size_max_def unsigned_minus_1_eq_mask mask_eq_exp_minus_1)

lemma unat_less_64: "unat (x :: size_t) < 2 ^ 64"
  using unsigned_less [of x] by simp

lemma unat_size_max_minus: "unat (size_max - r) = 2 ^ 64 - 1 - unat r"
  using unat_less_64 [of r]
  by (subst unat_sub) (simp_all add: unat_size_max word_le_nat_alt)

lemma checked_add_Some_iff:
  "checked_add l r = Some x \<longleftrightarrow> unat x = unat l + unat r"
proof -
  have "l > size_max - r \<longleftrightarrow> 2 ^ 64 \<le> unat l + unat r"
    using unat_less_64 [of r] by (simp add: word_less_nat_alt unat_size_max_minus) arith
  moreover have "unat l + unat r < 2 ^ 64 \<Longrightarrow> unat (l + r) = unat l + unat r"
    by (simp add: unat_add_lem [THEN iffD1])
  ultimately show ?thesis
    using unat_less_64 [of x]
    by (auto simp: checked_add_def not_le word_unat_eq_iff)
qed

lemma checked_add_None_iff:
  "checked_add l r = None \<longleftrightarrow> 2 ^ 64 \<le> unat l + unat r"
proof -
  have "l > size_max - r \<longleftrightarrow> 2 ^ 64 \<le> unat l + unat r"
    using unat_less_64 [of r] by (simp add: word_less_nat_alt unat_size_max_minus) arith
  then show ?thesis by (simp add: checked_add_def)
qed

lemma mult_guard: "l \<noteq> 0 \<Longrightarrow> r > size_max div l \<longleftrightarrow> 2 ^ 64 \<le> unat l * unat (r :: size_t)"
proof -
  assume "l \<noteq> 0"
  then have pos: "0 < unat l" by (simp add: unat_gt_0)
  have "r > size_max div l \<longleftrightarrow> (2 ^ 64 - 1) div unat l < unat r"
    by (simp add: word_less_nat_alt unat_div unat_size_max)
  also have "\<dots> \<longleftrightarrow> 2 ^ 64 - 1 < unat r * unat l"
    using pos by (simp add: div_less_iff_less_mult)
  also have "\<dots> \<longleftrightarrow> 2 ^ 64 \<le> unat l * unat r"
    by (simp add: mult.commute) arith
  finally show ?thesis .
qed

lemma checked_multiply_Some_iff:
  "checked_multiply l r = Some x \<longleftrightarrow> unat x = unat l * unat r"
proof (cases "l = 0")
  case True
  then show ?thesis by (auto simp: checked_multiply_def unat_eq_zero)
next
  case False
  have "unat l * unat r < 2 ^ 64 \<Longrightarrow> unat (l * r) = unat l * unat r"
    by (simp add: unat_mult_lem [THEN iffD1])
  with False show ?thesis
    using unat_less_64 [of x] by (auto simp: checked_multiply_def mult_guard not_le word_unat_eq_iff)
qed

lemma checked_multiply_None_iff:
  "checked_multiply l r = None \<longleftrightarrow> 2 ^ 64 \<le> unat l * unat r"
proof (cases "l = 0")
  case False
  then show ?thesis by (simp add: checked_multiply_def mult_guard)
qed (simp add: checked_multiply_def)

text \<open>The least multiple of \<open>a\<close> that is at least \<open>v\<close>.\<close>

definition round_up :: "nat \<Rightarrow> nat \<Rightarrow> nat" where
  "round_up v a = (v + a - 1) div a * a"

lemma round_up_mod0: "0 < a \<Longrightarrow> v mod a = 0 \<Longrightarrow> round_up v a = v"
proof -
  assume a: "0 < a" and "v mod a = 0"
  then obtain k where v: "v = k * a" by (auto simp: mod_eq_0_iff_dvd elim: dvdE)
  have "(v + a - 1) div a = ((a - 1) + k * a) div a"
    using a v by (intro arg_cong2 [where f = "(div)"]) simp_all
  also have "\<dots> = k" using a by (simp only: div_mult_self1) simp
  finally show ?thesis by (simp add: round_up_def v)
qed

lemma round_up_mod: "0 < a \<Longrightarrow> v mod a \<noteq> 0 \<Longrightarrow> round_up v a = v + (a - v mod a)"
proof -
  assume a: "0 < a" and r: "v mod a \<noteq> 0"
  have v: "v = v div a * a + v mod a" by simp
  have "v + a - 1 = v div a * a + (a + (v mod a - 1))"
    using r v by linarith
  moreover have "(a + (v mod a - 1)) div a = 1"
  proof -
    have "v mod a - 1 < a" using a by (meson less_imp_diff_less mod_less_divisor)
    then show ?thesis using a by (simp add: div_add_self1)
  qed
  ultimately have "(v + a - 1) div a = v div a + 1"
    using a by simp
  then have "round_up v a = v div a * a + a" by (simp add: round_up_def)
  also have "\<dots> = v + (a - v mod a)"
    using v mod_less_divisor [OF a, of v] by linarith
  finally show ?thesis .
qed

lemma round_up_ge: "0 < a \<Longrightarrow> v \<le> round_up v a"
proof (cases "v mod a = 0")
  case False
  assume "0 < a"
  then have "v mod a \<le> a" by (simp add: less_imp_le)
  with False \<open>0 < a\<close> show ?thesis by (simp add: round_up_mod del: mod_le_divisor)
qed (simp add: round_up_mod0)

lemma round_up_dvd: "a dvd round_up v a"
  by (simp add: round_up_def)

lemma round_up_least: "0 < a \<Longrightarrow> a dvd w \<Longrightarrow> v \<le> w \<Longrightarrow> round_up v a \<le> w"
proof -
  assume a: "0 < a" and "a dvd w" and le: "v \<le> w"
  then obtain k where w: "w = a * k" by (auto elim: dvdE)
  have "v + a - 1 < (k + 1) * a" using a le w by (simp add: algebra_simps)
  then have "(v + a - 1) div a < k + 1" using a by (simp add: div_less_iff_less_mult)
  then have "(v + a - 1) div a * a \<le> k * a" by (intro mult_le_mono1) simp
  then show ?thesis by (simp add: round_up_def w mult.commute)
qed

lemma align_up_Some_iff:
  "align_up v a = Some x \<longleftrightarrow> a \<noteq> 0 \<and> unat x = round_up (unat v) (unat a)"
proof (cases "a = 0")
  case True
  then show ?thesis by (simp add: align_up_def)
next
  case False
  then have pos: "0 < unat a" by (simp add: unat_gt_0)
  have rem: "v mod a = 0 \<longleftrightarrow> unat v mod unat a = 0"
    by (metis unat_mod unat_eq_zero)
  have "v mod a \<le> a"
    using pos by (simp add: word_le_nat_alt unat_mod less_imp_le)
  then have sub: "unat (a - v mod a) = unat a - unat v mod unat a"
    by (simp add: unat_sub unat_mod)
  show ?thesis
    using False pos rem
    by (auto simp: align_up_def Let_def round_up_mod0 round_up_mod checked_add_Some_iff sub
      word_unat_eq_iff)
qed

lemma unat_gcd: "unat (greatest_common_divisor l r) = gcd (unat l) (unat r)"
proof (induction l r rule: greatest_common_divisor.induct)
  case (1 l r)
  show ?case
  proof (cases "r = 0")
    case True
    then show ?thesis by (simp add: greatest_common_divisor.simps [of l 0])
  next
    case False
    then have "unat (greatest_common_divisor l r) = gcd (unat r) (unat l mod unat r)"
      using "1.IH" by (simp add: greatest_common_divisor.simps [of l r] unat_mod)
    then show ?thesis by (metis gcd.commute gcd_red_nat)
  qed
qed

lemma least_common_multiple_Some_iff:
  "l \<noteq> 0 \<or> r \<noteq> 0 \<Longrightarrow> least_common_multiple l r = Some x \<longleftrightarrow> unat x = lcm (unat l) (unat r)"
proof -
  assume "l \<noteq> 0 \<or> r \<noteq> 0"
  then have "gcd (unat l) (unat r) \<noteq> 0" by (auto simp: unat_eq_zero)
  then have g0: "greatest_common_divisor l r \<noteq> 0"
    by (metis unat_gcd unat_0)
  have "unat l div gcd (unat l) (unat r) * unat r = lcm (unat l) (unat r)"
    by (metis div_mult_swap gcd_dvd1 lcm_nat_def mult.commute)
  with g0 show ?thesis
    by (simp add: least_common_multiple_def Let_def checked_multiply_Some_iff unat_div unat_gcd)
qed

lemma least_common_multiple_zero: "least_common_multiple 0 0 = None"
  by (simp add: least_common_multiple_def greatest_common_divisor.simps [of 0 0])

text \<open>A partial operation whose results are exactly the words with value \<open>n\<close>.\<close>

lemma exact_word_option:
  assumes "\<And>x. r = Some x \<longleftrightarrow> unat x = n"
  shows "r = (if n < 2 ^ 64 then Some (of_nat n :: size_t) else None)"
proof (cases "n < 2 ^ 64")
  case True
  then have "unat (of_nat n :: size_t) = n" by (simp add: unat_of_nat)
  with True assms show ?thesis by simp
next
  case False
  then have "r = None" using assms unat_less_64 by (metis option.exhaust)
  with False show ?thesis by simp
qed

lemmas [checked_unat] = checked_add_Some_iff checked_multiply_Some_iff align_up_Some_iff
  least_common_multiple_Some_iff

lemma checked_add_unat: "checked_add l r = Some x \<Longrightarrow> unat x = unat l + unat r"
  by (simp add: checked_unat)

lemma checked_multiply_unat: "checked_multiply l r = Some x \<Longrightarrow> unat x = unat l * unat r"
  by (simp add: checked_unat)

text \<open>The checked helpers are exact. \<open>checked_add\<close> and \<open>checked_multiply\<close> return the sum and
  the product of the numbers when it fits 64 bits and refuse exactly when it does not;
  \<open>align_up\<close> returns the least multiple of the alignment that is at least the value, or
  refuses when that multiple does not fit or the alignment is 0; Euclid's loop ends and returns
  the greatest common divisor, and \<open>least_common_multiple\<close> the least common multiple or a refusal.\<close>

theorem checked_arithmetic_exact:
  "(let exact = (\<lambda>n. if n < 2 ^ 64 then Some (of_nat n :: size_t) else None)
    in checked_add a b = exact (unat a + unat b)
     \<and> checked_multiply a b = exact (unat a * unat b)
     \<and> align_up a b = (if b = 0 then None else exact (round_up (unat a) (unat b)))
     \<and> unat (greatest_common_divisor a b) = gcd (unat a) (unat b)
     \<and> least_common_multiple a b
         = (if a = 0 \<and> b = 0 then None else exact (lcm (unat a) (unat b))))"
proof -
  have "b \<noteq> 0 \<Longrightarrow> align_up a b = (if round_up (unat a) (unat b) < 2 ^ 64
      then Some (of_nat (round_up (unat a) (unat b))) else None)"
    by (rule exact_word_option) (simp add: align_up_Some_iff)
  moreover have "a \<noteq> 0 \<or> b \<noteq> 0 \<Longrightarrow> least_common_multiple a b
      = (if lcm (unat a) (unat b) < 2 ^ 64 then Some (of_nat (lcm (unat a) (unat b))) else None)"
    by (rule exact_word_option) (simp add: least_common_multiple_Some_iff)
  ultimately show ?thesis
    using exact_word_option [OF checked_add_Some_iff, of a b]
      exact_word_option [OF checked_multiply_Some_iff, of a b]
    by (auto simp: Let_def align_up_def least_common_multiple_zero unat_gcd)
qed

end
