(* ===== verification/Ownership.thy ===== *)
theory Ownership
  imports Prelude "HOL-Library.Multiset"
begin

text \<open>
  Move-only owners of a resource. Classes such as \<open>MappedRegion\<close> and \<open>NativeBufferHandle\<close> hold at
  most one resource, hand it on when they are moved and give it back when they are assigned to
  or destroyed. \<open>owner\<close> is the interface a program uses; \<open>own_step\<close> runs a program that keeps such
  objects in slots; the locale \<open>move_only\<close> states the laws and derives that every resource is
  given back exactly once.
\<close>

record ('h, 'r) owner =
  ow_holds :: "'h \<Rightarrow> 'r option"
  ow_move_new :: "'h \<Rightarrow> 'h \<times> 'h"
  ow_move_assign :: "'h \<Rightarrow> 'h \<Rightarrow> 'r list \<times> 'h \<times> 'h"
  ow_destroy :: "'h \<Rightarrow> 'r list"

datatype 'h own_op = Acquire nat 'h | Move_new nat nat | Move_assign nat nat | Destroy nat

record ('h, 'r) own_state =
  os_slots :: "'h option list"
  os_acquired :: "'r list"
  os_released :: "'r list"

definition own_init :: "nat \<Rightarrow> ('h, 'r) own_state" where
  "own_init n = \<lparr>os_slots = replicate n None, os_acquired = [], os_released = []\<rparr>"

abbreviation slot :: "('h, 'r) own_state \<Rightarrow> nat \<Rightarrow> 'h option" where
  "slot s i \<equiv> if i < length (os_slots s) then os_slots s ! i else None"

definition opt_list :: "'a option \<Rightarrow> 'a list" where
  "opt_list x = (case x of None \<Rightarrow> [] | Some y \<Rightarrow> [y])"

lemma opt_list_simps [simp]: "opt_list None = []" "opt_list (Some y) = [y]"
  by (simp_all add: opt_list_def)

text \<open>An object is constructed in an empty slot only, and only an existing object is moved from,
  assigned to or destroyed, as the language guarantees; other requests do nothing. Assigning an
  object to itself is the operation's own \<open>this != &other\<close> case.\<close>

fun own_step :: "('h, 'r) owner \<Rightarrow> 'h own_op \<Rightarrow> ('h, 'r) own_state \<Rightarrow> ('h, 'r) own_state" where
  "own_step ow (Acquire i x) s =
     (if i < length (os_slots s) \<and> slot s i = None
      then s\<lparr>os_slots := (os_slots s)[i := Some x],
             os_acquired := os_acquired s @ opt_list (ow_holds ow x)\<rparr>
      else s)"
| "own_step ow (Move_new i j) s =
     (case slot s j of
        None \<Rightarrow> s
      | Some y \<Rightarrow>
          if i < length (os_slots s) \<and> slot s i = None
          then s\<lparr>os_slots := (os_slots s)[i := Some (fst (ow_move_new ow y)),
                                           j := Some (snd (ow_move_new ow y))]\<rparr>
          else s)"
| "own_step ow (Move_assign i j) s =
     (case (slot s i, slot s j) of
        (Some x, Some y) \<Rightarrow>
          if i = j then s
          else (case ow_move_assign ow x y of (rel, x', y') \<Rightarrow>
                  s\<lparr>os_slots := (os_slots s)[i := Some x', j := Some y'],
                    os_released := os_released s @ rel\<rparr>)
      | _ \<Rightarrow> s)"
| "own_step ow (Destroy i) s =
     (case slot s i of
        None \<Rightarrow> s
      | Some x \<Rightarrow> s\<lparr>os_slots := (os_slots s)[i := None],
                    os_released := os_released s @ ow_destroy ow x\<rparr>)"

fun own_run :: "('h, 'r) owner \<Rightarrow> 'h own_op list \<Rightarrow> ('h, 'r) own_state \<Rightarrow> ('h, 'r) own_state" where
  "own_run ow [] s = s"
| "own_run ow (x # xs) s = own_run ow xs (own_step ow x s)"

definition slot_held :: "('h, 'r) owner \<Rightarrow> 'h option \<Rightarrow> 'r multiset" where
  "slot_held ow x = (case x of None \<Rightarrow> {#} | Some y \<Rightarrow> mset (opt_list (ow_holds ow y)))"

definition held :: "('h, 'r) owner \<Rightarrow> ('h, 'r) own_state \<Rightarrow> 'r multiset" where
  "held ow s = sum_list (map (slot_held ow) (os_slots s))"

lemma sum_list_update:
  fixes f :: "'a \<Rightarrow> 'b multiset"
  shows "i < length xs \<Longrightarrow> sum_list (map f (xs[i := x])) + f (xs ! i) = sum_list (map f xs) + f x"
proof (induction xs arbitrary: i)
  case (Cons y ys)
  then show ?case by (cases i) (auto simp: ac_simps)
qed simp

lemma held_update:
  "i < length (os_slots s) \<Longrightarrow>
     sum_list (map (slot_held ow) ((os_slots s)[i := x])) + slot_held ow (os_slots s ! i)
     = held ow s + slot_held ow x"
  by (simp add: held_def sum_list_update)

lemma held_update2:
  assumes "i < length xs" "j < length xs" "i \<noteq> j"
  shows "sum_list (map (slot_held ow) (xs[i := x, j := y])) + slot_held ow (xs ! i) + slot_held ow (xs ! j)
    = sum_list (map (slot_held ow) xs) + slot_held ow x + slot_held ow y"
proof -
  have "sum_list (map (slot_held ow) (xs[i := x, j := y])) + slot_held ow (xs ! j)
      = sum_list (map (slot_held ow) (xs[i := x])) + slot_held ow y"
    using sum_list_update [of j "xs[i := x]" "slot_held ow" y] assms by simp
  moreover have "sum_list (map (slot_held ow) (xs[i := x])) + slot_held ow (xs ! i)
      = sum_list (map (slot_held ow) xs) + slot_held ow x"
    using sum_list_update [of i xs "slot_held ow" x] assms by simp
  ultimately show ?thesis by (metis (no_types, lifting) add.commute add.left_commute)
qed

lemma sum_list_empty: "\<forall>x \<in> set xs. f x = {#} \<Longrightarrow> sum_list (map f xs) = {#}"
  by (induction xs) auto

definition balanced :: "('h, 'r) owner \<Rightarrow> ('h, 'r) own_state \<Rightarrow> bool" where
  "balanced ow s \<longleftrightarrow> mset (os_acquired s) = mset (os_released s) + held ow s"

lemma own_step_acquired:
  "set (os_acquired (own_step ow x s)) \<subseteq> set (os_acquired s) \<union> {r. \<exists>y. ow_holds ow y = Some r}"
proof (cases x)
  case (Acquire i y)
  then show ?thesis by (cases "ow_holds ow y") auto
qed (auto split: option.splits prod.splits)

lemma own_run_acquired:
  "set (os_acquired (own_run ow xs s)) \<subseteq> set (os_acquired s) \<union> {r. \<exists>y. ow_holds ow y = Some r}"
proof (induction xs arbitrary: s)
  case (Cons x xs)
  from Cons.IH [of "own_step ow x s"] own_step_acquired [of ow x s] show ?case by auto
qed simp

locale move_only =
  fixes ow :: "('h, 'r) owner"
  assumes move_new_holds: "ow_holds ow (fst (ow_move_new ow x)) = ow_holds ow x"
    and move_new_empties: "ow_holds ow (snd (ow_move_new ow x)) = None"
    and move_assign_releases: "fst (ow_move_assign ow x y) = opt_list (ow_holds ow x)"
    and move_assign_holds: "ow_holds ow (fst (snd (ow_move_assign ow x y))) = ow_holds ow y"
    and move_assign_empties: "ow_holds ow (snd (snd (ow_move_assign ow x y))) = None"
    and destroy_releases: "ow_destroy ow x = opt_list (ow_holds ow x)"
begin

lemma slot_held_Some [simp]: "slot_held ow (Some x) = mset (opt_list (ow_holds ow x))"
  by (simp add: slot_held_def)

lemma slot_held_None [simp]: "slot_held ow None = {#}"
  by (simp add: slot_held_def)

lemma step_balanced: "balanced ow s \<Longrightarrow> balanced ow (own_step ow op s)"
proof (cases op)
  case (Acquire i x)
  assume "balanced ow s"
  with Acquire show ?thesis
    using held_update [of i s ow "Some x"] by (auto simp: balanced_def held_def ac_simps)
next
  case (Move_new i j)
  assume b: "balanced ow s"
  show ?thesis
  proof (cases "\<exists>y. slot s j = Some y \<and> i < length (os_slots s) \<and> slot s i = None")
    case True
    then obtain y where y: "j < length (os_slots s)" "os_slots s ! j = Some y"
      "i < length (os_slots s)" "os_slots s ! i = None"
      by (auto split: if_splits)
    then have "i \<noteq> j" by auto
    then show ?thesis
      using b y Move_new held_update2 [of i "os_slots s" j ow "Some (fst (ow_move_new ow y))" "Some (snd (ow_move_new ow y))"]
      by (simp add: balanced_def held_def move_new_holds move_new_empties)
  next
    case False
    then have "own_step ow op s = s" using Move_new by (auto split: option.splits)
    then show ?thesis using b by simp
  qed
next
  case (Move_assign i j)
  assume b: "balanced ow s"
  show ?thesis
  proof (cases "\<exists>x y. slot s i = Some x \<and> slot s j = Some y \<and> i \<noteq> j")
    case True
    then obtain x y where y: "j < length (os_slots s)" "os_slots s ! j = Some y"
      "i < length (os_slots s)" "os_slots s ! i = Some x" "i \<noteq> j"
      by (auto split: if_splits)
    obtain rel x' y' where m: "ow_move_assign ow x y = (rel, x', y')" by (metis prod_cases3)
    have laws: "rel = opt_list (ow_holds ow x)" "ow_holds ow x' = ow_holds ow y" "ow_holds ow y' = None"
      using move_assign_releases [of x y] move_assign_holds [of x y] move_assign_empties [of x y] m by simp_all
    show ?thesis
      using b y Move_assign m laws held_update2 [of i "os_slots s" j ow "Some x'" "Some y'"]
      by (simp add: balanced_def held_def ac_simps)
  next
    case False
    then have "own_step ow op s = s" using Move_assign by (auto split: option.splits)
    then show ?thesis using b by simp
  qed
next
  case (Destroy i)
  assume "balanced ow s"
  with Destroy show ?thesis
    using held_update [of i s ow None]
    by (auto simp: balanced_def held_def destroy_releases ac_simps split: option.splits if_splits)
qed

lemma run_balanced: "balanced ow s \<Longrightarrow> balanced ow (own_run ow xs s)"
  by (induction xs arbitrary: s) (simp_all add: step_balanced)

lemma held_none: "\<forall>x \<in> set (os_slots s). x = None \<Longrightarrow> held ow s = {#}"
  unfolding held_def by (rule sum_list_empty) auto

lemma init_balanced: "balanced ow (own_init n)"
  using held_none [of "own_init n"] by (simp add: balanced_def own_init_def)

lemma released_once:
  "mset (os_acquired (own_run ow xs (own_init n)))
     = mset (os_released (own_run ow xs (own_init n))) + held ow (own_run ow xs (own_init n))"
  using run_balanced [OF init_balanced] by (simp add: balanced_def)

end

end
