(* ===== verification/Media_Buffer.thy ===== *)
theory Media_Buffer
  imports Status Checked_Arith Ownership
begin

text \<open>
  \<open>src/media/buffer.cpp\<close>: plane layouts, \<open>Buffer\<close>, \<open>MappedRegion\<close> and \<open>NativeBufferHandle\<close>.

  A storage object is an identity with the values of its constant getters; its virtual
  functions that act (\<open>map\<close>, \<open>unmap\<close>, \<open>export_dmabuf\<close>) are a record of functions on a world \<open>'w\<close>
  that dispatch on the object. Sizes and addresses are 64-bit words and 0 is the null pointer.
  An enumeration holds its enumerators only, so the tests for values outside it are constant.
\<close>

datatype memory_domain = kCpu | kMmap | kDmaBuf | kDeviceOpaque

datatype map_mode = kReadOnly | kReadWrite

definition memory_domain_name :: "throws \<Rightarrow> memory_domain \<Rightarrow> string result" where
  "memory_domain_name h d = catch_all h S_domain_name
     (case d of kCpu \<Rightarrow> Inr ''cpu'' | kMmap \<Rightarrow> Inr ''mmap'' | kDmaBuf \<Rightarrow> Inr ''dmabuf''
      | kDeviceOpaque \<Rightarrow> Inr ''device_opaque'')"

record plane_layout =
  pl_offset :: size_t
  pl_size :: size_t
  pl_stride :: size_t

definition plane_layout_of :: "size_t \<Rightarrow> size_t \<Rightarrow> size_t \<Rightarrow> plane_layout" where
  "plane_layout_of off sz stride = \<lparr>pl_offset = off, pl_size = sz, pl_stride = stride\<rparr>"

subsection \<open>NativeBufferHandle\<close>

record native_handle =
  nh_fd :: int

definition native_handle_new :: "int \<Rightarrow> native_handle" where
  "native_handle_new fd = \<lparr>nh_fd = fd\<rparr>"

text \<open>\<open>close()\<close>: the descriptors passed to the system's \<open>close\<close>, and the handle.\<close>

definition native_handle_close :: "native_handle \<Rightarrow> int list \<times> native_handle" where
  "native_handle_close x = (if nh_fd x \<ge> 0 then ([nh_fd x], x\<lparr>nh_fd := - 1\<rparr>) else ([], x))"

definition native_handle_move :: "native_handle \<Rightarrow> native_handle \<times> native_handle" where
  "native_handle_move other = (\<lparr>nh_fd = nh_fd other\<rparr>, other\<lparr>nh_fd := - 1\<rparr>)"

definition native_handle_assign ::
  "native_handle \<Rightarrow> native_handle \<Rightarrow> int list \<times> native_handle \<times> native_handle" where
  "native_handle_assign this other =
     (case native_handle_close this of (closed, this1) \<Rightarrow>
        (closed, this1\<lparr>nh_fd := nh_fd other\<rparr>, other\<lparr>nh_fd := - 1\<rparr>))"

definition native_handle_owner :: "(native_handle, int) owner" where
  "native_handle_owner =
     \<lparr>ow_holds = (\<lambda>x. if nh_fd x \<ge> 0 then Some (nh_fd x) else None),
      ow_move_new = native_handle_move, ow_move_assign = native_handle_assign,
      ow_destroy = (\<lambda>x. fst (native_handle_close x))\<rparr>"

interpretation nh: move_only native_handle_owner
  by unfold_locales
     (simp_all add: native_handle_owner_def native_handle_move_def native_handle_assign_def
       native_handle_close_def)

subsection \<open>BufferStorage\<close>

record storage =
  so_id :: nat
  so_domain :: memory_domain
  so_capacity :: size_t
  so_alignment :: size_t
  so_provider :: string

record 'w storage_ops =
  do_map :: "storage \<Rightarrow> map_mode \<Rightarrow> 'w \<Rightarrow> (status \<times> size_t \<times> size_t) \<times> 'w"
  do_unmap :: "storage \<Rightarrow> 'w \<Rightarrow> status \<times> 'w"
  do_export :: "storage \<Rightarrow> 'w \<Rightarrow> native_handle result \<times> 'w"

text \<open>\<open>CpuBufferStorage\<close>, whose bytes are at \<open>base\<close>.\<close>

definition cpu_storage :: "nat \<Rightarrow> size_t \<Rightarrow> storage" where
  "cpu_storage i sz = \<lparr>so_id = i, so_domain = kCpu, so_capacity = sz, so_alignment = 1,
     so_provider = ''cpu''\<rparr>"

definition cpu_ops :: "(nat \<Rightarrow> size_t) \<Rightarrow> 'w storage_ops" where
  "cpu_ops base =
     \<lparr>do_map = (\<lambda>s m w. ((ok_status, base (so_id s), so_capacity s), w)),
      do_unmap = (\<lambda>s w. (ok_status, w)),
      do_export = (\<lambda>s w. (err (status_msg kUnsupported ''CPU storage cannot export a DMABUF handle''), w))\<rparr>"

subsection \<open>MappedRegion\<close>

record mapped_region =
  mr_storage :: "storage option"
  mr_data :: size_t
  mr_size :: size_t
  mr_mode :: map_mode

definition mutable_data :: "mapped_region \<Rightarrow> size_t" where
  "mutable_data r = (if mr_mode r = kReadWrite then mr_data r else 0)"

text \<open>\<open>unmap()\<close>: the storages on which \<open>BufferStorage::unmap\<close> is called, and the region.\<close>

definition region_unmap :: "mapped_region \<Rightarrow> storage list \<times> mapped_region" where
  "region_unmap r =
     (opt_list (mr_storage r), r\<lparr>mr_storage := None, mr_data := 0, mr_size := 0\<rparr>)"

definition region_move :: "mapped_region \<Rightarrow> mapped_region \<times> mapped_region" where
  "region_move other =
     (\<lparr>mr_storage = mr_storage other, mr_data = mr_data other, mr_size = mr_size other,
       mr_mode = mr_mode other\<rparr>,
      other\<lparr>mr_storage := None, mr_data := 0, mr_size := 0\<rparr>)"

definition region_assign ::
  "mapped_region \<Rightarrow> mapped_region \<Rightarrow> storage list \<times> mapped_region \<times> mapped_region" where
  "region_assign this other =
     (case region_unmap this of (unmapped, this1) \<Rightarrow>
        (unmapped,
         this1\<lparr>mr_storage := mr_storage other, mr_data := mr_data other, mr_size := mr_size other,
               mr_mode := mr_mode other\<rparr>,
         other\<lparr>mr_storage := None, mr_data := 0, mr_size := 0\<rparr>))"

definition region_owner :: "(mapped_region, storage) owner" where
  "region_owner =
     \<lparr>ow_holds = mr_storage, ow_move_new = region_move, ow_move_assign = region_assign,
      ow_destroy = (\<lambda>x. fst (region_unmap x))\<rparr>"

interpretation mr: move_only region_owner
  by unfold_locales
     (simp_all add: region_owner_def region_move_def region_assign_def region_unmap_def)

subsection \<open>Buffer\<close>

record buffer =
  bf_storage :: storage
  bf_planes :: "plane_layout list"

definition is_within :: "size_t \<Rightarrow> size_t \<Rightarrow> size_t \<Rightarrow> bool" where
  "is_within off sz capacity \<longleftrightarrow> off \<le> capacity \<and> sz \<le> capacity - off"

fun planes_overlap :: "plane_layout \<Rightarrow> plane_layout list \<Rightarrow> bool" where
  "planes_overlap plane [] = False"
| "planes_overlap plane (other # rest) =
     (let plane_end = pl_offset plane + pl_size plane; other_end = pl_offset other + pl_size other
      in pl_offset plane < other_end \<and> pl_offset other < plane_end \<or> planes_overlap plane rest)"

fun validate_each :: "size_t \<Rightarrow> plane_layout list \<Rightarrow> plane_layout list \<Rightarrow> status" where
  "validate_each capacity previous [] = ok_status"
| "validate_each capacity previous (plane # rest) =
     (if pl_stride plane = 0 then status_msg kInvalidArgument ''plane stride must be positive''
      else if \<not> is_within (pl_offset plane) (pl_size plane) capacity
      then status_msg kInvalidArgument ''plane is outside storage capacity''
      else if planes_overlap plane previous
      then status_msg kInvalidArgument ''buffer planes must not overlap''
      else validate_each capacity (previous @ [plane]) rest)"

definition validate_planes :: "storage option \<Rightarrow> plane_layout list \<Rightarrow> status" where
  "validate_planes st planes =
     (case st of
        None \<Rightarrow> status_msg kInvalidArgument ''buffer storage must not be null''
      | Some s \<Rightarrow>
          if planes = []
          then status_msg kInvalidArgument ''buffer must contain at least one plane''
          else if so_alignment s = 0
          then status_msg kInvalidArgument ''buffer storage address alignment must be positive''
          else validate_each (so_capacity s) [] planes)"

definition buffer_create :: "throws \<Rightarrow> storage option \<Rightarrow> plane_layout list \<Rightarrow> buffer result" where
  "buffer_create h st planes =
     (let validation = validate_planes st planes
      in if \<not> st_ok validation then err validation
         else catch_alloc h S_buffer_create ''failed to create buffer metadata''
                (Inr \<lparr>bf_storage = the st, bf_planes = planes\<rparr>))"

text \<open>A fresh storage gets the identity \<open>i\<close>.\<close>

definition buffer_allocate :: "throws \<Rightarrow> nat \<Rightarrow> size_t \<Rightarrow> plane_layout list \<Rightarrow> buffer result" where
  "buffer_allocate h i sz planes =
     (if sz = 0 then err (status_msg kInvalidArgument ''buffer size must be positive'')
      else catch_all h S_buffer_allocate (buffer_create h (Some (cpu_storage i sz)) planes))"

definition buffer_allocate_plain :: "throws \<Rightarrow> nat \<Rightarrow> size_t \<Rightarrow> buffer result" where
  "buffer_allocate_plain h i sz =
     (case h S_buffer_allocate1 of
        Some Bad_alloc \<Rightarrow> err (status_msg kResourceExhausted ''failed to allocate CPU buffer storage'')
      | Some Other_exn \<Rightarrow> err (status_of kInternal)
      | None \<Rightarrow> buffer_allocate h i sz [plane_layout_of 0 sz sz])"

definition plane_count :: "buffer \<Rightarrow> nat" where
  "plane_count b = length (bf_planes b)"

definition plane_layout_at :: "buffer \<Rightarrow> nat \<Rightarrow> plane_layout result" where
  "plane_layout_at b i =
     (if i \<ge> length (bf_planes b) then err (status_msg kInvalidArgument ''plane index is invalid'')
      else Inr (bf_planes b ! i))"

definition map_plane ::
  "'w storage_ops \<Rightarrow> buffer \<Rightarrow> nat \<Rightarrow> map_mode \<Rightarrow> 'w \<Rightarrow> mapped_region result \<times> 'w" where
  "map_plane ops b i mode w =
     (if i \<ge> length (bf_planes b) then (err (status_msg kInvalidArgument ''plane index is invalid''), w)
      else case do_map ops (bf_storage b) mode w of ((map_status, mapped_data, mapped_size), w1) \<Rightarrow>
        if \<not> st_ok map_status then (err map_status, w1)
        else let plane = bf_planes b ! i
          in if \<not> is_within (pl_offset plane) (pl_size plane) mapped_size
               \<or> mapped_data = 0 \<and> pl_size plane \<noteq> 0
             then (err (status_msg kInvalidArgument ''mapped storage cannot cover requested plane''),
                   snd (do_unmap ops (bf_storage b) w1))
             else (Inr \<lparr>mr_storage = Some (bf_storage b),
                        mr_data = (if mapped_data = 0 then 0 else mapped_data + pl_offset plane),
                        mr_size = pl_size plane, mr_mode = mode\<rparr>, w1))"

definition export_dmabuf :: "'w storage_ops \<Rightarrow> buffer \<Rightarrow> 'w \<Rightarrow> native_handle result \<times> 'w" where
  "export_dmabuf ops b = do_export ops (bf_storage b)"

definition slice_plane :: "throws \<Rightarrow> buffer \<Rightarrow> nat \<Rightarrow> size_t \<Rightarrow> size_t \<Rightarrow> buffer result" where
  "slice_plane h b i off len =
     (if i \<ge> length (bf_planes b) then err (status_msg kInvalidArgument ''plane index is invalid'')
      else let plane = bf_planes b ! i
        in if \<not> is_within off len (pl_size plane)
           then err (status_msg kInvalidArgument ''buffer slice is out of range'')
           else catch_alloc h S_slice ''failed to create slice metadata''
             (buffer_create h (Some (bf_storage b)) [plane_layout_of (pl_offset plane + off) len (pl_stride plane)]))"

definition buffer_slice :: "throws \<Rightarrow> buffer \<Rightarrow> size_t \<Rightarrow> size_t \<Rightarrow> buffer result" where
  "buffer_slice h b off len =
     (if length (bf_planes b) \<noteq> 1
      then err (status_msg kUnsupported ''slice requires a single-plane buffer'')
      else slice_plane h b 0 off len)"

definition plane_address_alignment :: "buffer \<Rightarrow> nat \<Rightarrow> size_t result" where
  "plane_address_alignment b i =
     (if i \<ge> length (bf_planes b) then err (status_msg kInvalidArgument ''plane index is invalid'')
      else let storage_alignment = so_alignment (bf_storage b)
        in if storage_alignment = 0
           then err (status_msg kInvalidState ''buffer storage has an invalid address alignment guarantee'')
           else let off = pl_offset (bf_planes b ! i)
             in Inr (if off = 0 then storage_alignment
                     else greatest_common_divisor storage_alignment off))"

subsection \<open>Planes stay inside their storage\<close>

lemma is_within_unat: "is_within off sz c \<longleftrightarrow> unat off + unat sz \<le> unat c"
  by (auto simp: is_within_def word_le_nat_alt unat_sub)

definition plane_end :: "plane_layout \<Rightarrow> nat" where
  "plane_end p = unat (pl_offset p) + unat (pl_size p)"

definition plane_bytes :: "plane_layout \<Rightarrow> nat set" where
  "plane_bytes p = {unat (pl_offset p)..<plane_end p}"

text \<open>What the code tests: each starts before the other ends.\<close>

definition overlaps :: "plane_layout \<Rightarrow> plane_layout \<Rightarrow> bool" where
  "overlaps p q \<longleftrightarrow> unat (pl_offset p) < plane_end q \<and> unat (pl_offset q) < plane_end p"

definition plane_fits :: "size_t \<Rightarrow> plane_layout \<Rightarrow> bool" where
  "plane_fits c p \<longleftrightarrow> pl_stride p \<noteq> 0 \<and> plane_end p \<le> unat c"

lemma overlaps_sym: "overlaps p q = overlaps q p"
  by (auto simp: overlaps_def)

lemma overlaps_bytes: "\<not> overlaps p q \<Longrightarrow> plane_bytes p \<inter> plane_bytes q = {}"
  by (auto simp: overlaps_def plane_bytes_def)

lemma plane_end_word: "plane_end p \<le> unat (c :: size_t) \<Longrightarrow> unat (pl_offset p + pl_size p) = plane_end p"
  using unat_less_64 [of c] by (simp add: plane_end_def unat_word_ariths)

lemma planes_overlap_iff:
  "plane_fits c p \<Longrightarrow> \<forall>q \<in> set qs. plane_fits c q \<Longrightarrow> planes_overlap p qs \<longleftrightarrow> (\<exists>q \<in> set qs. overlaps p q)"
  by (induction qs) (auto simp: overlaps_def word_less_nat_alt plane_end_word plane_fits_def Let_def)

lemma validate_each_ok:
  "\<forall>q \<in> set prev. plane_fits c q \<Longrightarrow> st_ok (validate_each c prev ps) \<longleftrightarrow>
     (\<forall>p \<in> set ps. plane_fits c p) \<and> (\<forall>p \<in> set ps. \<forall>q \<in> set prev. \<not> overlaps p q)
     \<and> sorted_wrt (\<lambda>p q. \<not> overlaps p q) ps"
proof (induction ps arbitrary: prev)
  case (Cons p ps)
  show ?case
  proof (cases "plane_fits c p")
    case False
    then show ?thesis
      by (auto simp: plane_fits_def is_within_unat plane_end_def status_msg_def st_ok_def)
  next
    case True
    then have pre: "pl_stride p \<noteq> 0" "is_within (pl_offset p) (pl_size p) c"
      by (simp_all add: plane_fits_def is_within_unat plane_end_def)
    show ?thesis
    proof (cases "\<exists>q \<in> set prev. overlaps p q")
      case o: True
      then show ?thesis
        using pre planes_overlap_iff [OF True Cons.prems] by (auto simp: status_msg_def st_ok_def)
    next
      case False
      then show ?thesis
        using pre planes_overlap_iff [OF True Cons.prems] Cons.prems True
          Cons.IH [of "prev @ [p]"] overlaps_sym by auto
    qed
  qed
qed simp

definition planes_valid :: "storage \<Rightarrow> plane_layout list \<Rightarrow> bool" where
  "planes_valid s ps \<longleftrightarrow> ps \<noteq> [] \<and> so_alignment s \<noteq> 0 \<and> (\<forall>p \<in> set ps. plane_fits (so_capacity s) p)
     \<and> sorted_wrt (\<lambda>p q. \<not> overlaps p q) ps"

lemma validate_planes_ok: "st_ok (validate_planes (Some s) ps) \<longleftrightarrow> planes_valid s ps"
  using validate_each_ok [of "[]" "so_capacity s" ps]
  by (simp add: validate_planes_def planes_valid_def st_ok_def status_msg_def)

definition buffer_inv :: "buffer \<Rightarrow> bool" where
  "buffer_inv b \<longleftrightarrow> planes_valid (bf_storage b) (bf_planes b)"

lemma buffer_create_Inr:
  "buffer_create h st ps = Inr b \<longleftrightarrow>
     (\<exists>s. st = Some s \<and> h S_buffer_create = None \<and> planes_valid s ps \<and> b = \<lparr>bf_storage = s, bf_planes = ps\<rparr>)"
proof (cases st)
  case None
  then show ?thesis by (simp add: buffer_create_def validate_planes_def status_msg_def st_ok_def)
next
  case (Some s)
  then show ?thesis using validate_planes_ok [of s ps] by (auto simp: buffer_create_def Let_def)
qed

lemma buffer_create_inv: "buffer_create h st ps = Inr b \<Longrightarrow> buffer_inv b"
  by (auto simp: buffer_create_Inr buffer_inv_def)

lemma buffer_allocate_Inr:
  "buffer_allocate h i sz ps = Inr b \<longleftrightarrow> sz \<noteq> 0 \<and> h S_buffer_allocate = None \<and> h S_buffer_create = None
     \<and> planes_valid (cpu_storage i sz) ps \<and> b = \<lparr>bf_storage = cpu_storage i sz, bf_planes = ps\<rparr>"
  by (auto simp: buffer_allocate_def buffer_create_Inr)

lemma buffer_allocate_plain_Inr:
  "buffer_allocate_plain h i sz = Inr b \<longleftrightarrow> sz \<noteq> 0 \<and> h S_buffer_allocate1 = None \<and> h S_buffer_allocate = None
     \<and> h S_buffer_create = None \<and> b = \<lparr>bf_storage = cpu_storage i sz, bf_planes = [plane_layout_of 0 sz sz]\<rparr>"
  by (auto simp: buffer_allocate_plain_def buffer_allocate_Inr planes_valid_def cpu_storage_def
      plane_layout_of_def plane_fits_def plane_end_def split: option.splits exn.splits)

lemma slice_plane_Inr:
  assumes inv: "buffer_inv b"
  shows "slice_plane h b i off len = Inr c \<longleftrightarrow>
    i < length (bf_planes b) \<and> unat off + unat len \<le> unat (pl_size (bf_planes b ! i))
    \<and> h S_slice = None \<and> h S_buffer_create = None
    \<and> c = \<lparr>bf_storage = bf_storage b,
           bf_planes = [plane_layout_of (pl_offset (bf_planes b ! i) + off) len (pl_stride (bf_planes b ! i))]\<rparr>"
proof (cases "i < length (bf_planes b) \<and> unat off + unat len \<le> unat (pl_size (bf_planes b ! i))")
  case True
  let ?p = "bf_planes b ! i"
  have "?p \<in> set (bf_planes b)" using True by simp
  then have fits: "plane_fits (so_capacity (bf_storage b)) ?p" and al: "so_alignment (bf_storage b) \<noteq> 0"
    using inv by (auto simp: buffer_inv_def planes_valid_def)
  have "unat (pl_offset ?p + off) = unat (pl_offset ?p) + unat off"
    using fits True unat_less_64 [of "so_capacity (bf_storage b)"]
    by (simp add: unat_word_ariths plane_fits_def plane_end_def)
  then have "plane_fits (so_capacity (bf_storage b)) (plane_layout_of (pl_offset ?p + off) len (pl_stride ?p))"
    using fits True by (simp add: plane_fits_def plane_end_def plane_layout_of_def)
  then show ?thesis
    using True al by (auto simp: slice_plane_def Let_def is_within_unat buffer_create_Inr planes_valid_def)
next
  case False
  then show ?thesis by (auto simp: slice_plane_def Let_def is_within_unat)
qed

text \<open>The buffers a program can make, from storages of any kind.\<close>

inductive buffer_made :: "buffer \<Rightarrow> bool" where
  made_create: "buffer_create h st ps = Inr b \<Longrightarrow> buffer_made b"
| made_allocate: "buffer_allocate h i sz ps = Inr b \<Longrightarrow> buffer_made b"
| made_allocate_plain: "buffer_allocate_plain h i sz = Inr b \<Longrightarrow> buffer_made b"
| made_slice: "buffer_made b \<Longrightarrow> slice_plane h b i off len = Inr c \<Longrightarrow> buffer_made c"

lemma buffer_made_inv: "buffer_made b \<Longrightarrow> buffer_inv b"
proof (induction rule: buffer_made.induct)
  case (made_allocate h i sz ps b)
  then show ?case by (auto simp: buffer_inv_def buffer_allocate_Inr)
next
  case (made_allocate_plain h i sz b)
  then show ?case
    by (auto simp: buffer_inv_def buffer_allocate_plain_Inr planes_valid_def cpu_storage_def
        plane_layout_of_def plane_fits_def plane_end_def)
next
  case (made_slice b h i off len c)
  then show ?case
    unfolding slice_plane_def by (auto simp: Let_def buffer_create_inv split: if_splits)
qed (simp add: buffer_create_inv)

text \<open>C22: the bytes of a buffer. In every buffer that can be made, each plane lies within the
  capacity of its storage (as natural numbers: no sum wraps) and two planes share no byte; and a
  slice is exactly the requested part of its plane, and is refused exactly when it would leave it
  (or memory runs out).\<close>

theorem buffer_planes_safe:
  assumes "buffer_made b"
  shows "(\<forall>i < plane_count b. plane_bytes (bf_planes b ! i) \<subseteq> {..<unat (so_capacity (bf_storage b))})
    \<and> (\<forall>i < plane_count b. \<forall>j < plane_count b. i \<noteq> j \<longrightarrow>
          plane_bytes (bf_planes b ! i) \<inter> plane_bytes (bf_planes b ! j) = {})
    \<and> (\<forall>i off len. res_ok (slice_plane no_throw b i off len) \<longleftrightarrow>
          i < plane_count b \<and> unat off + unat len \<le> unat (pl_size (bf_planes b ! i)))
    \<and> (\<forall>h i off len c. slice_plane h b i off len = Inr c \<longrightarrow> bf_storage c = bf_storage b
          \<and> plane_count c = 1
          \<and> plane_bytes (bf_planes c ! 0) = (\<lambda>x. x + (unat (pl_offset (bf_planes b ! i)) + unat off)) ` {..<unat len}
          \<and> plane_bytes (bf_planes c ! 0) \<subseteq> plane_bytes (bf_planes b ! i))"
proof (intro conjI allI impI)
  have inv: "buffer_inv b" by (rule buffer_made_inv [OF assms])
  then have fits: "\<forall>p \<in> set (bf_planes b). plane_fits (so_capacity (bf_storage b)) p"
    and disj: "sorted_wrt (\<lambda>p q. \<not> overlaps p q) (bf_planes b)"
    by (simp_all add: buffer_inv_def planes_valid_def)
  fix i assume i: "i < plane_count b"
  then show "plane_bytes (bf_planes b ! i) \<subseteq> {..<unat (so_capacity (bf_storage b))}"
    using bspec [OF fits nth_mem, of i] by (auto simp: plane_count_def plane_bytes_def plane_fits_def)
  fix j assume j: "j < plane_count b" "i \<noteq> j"
  have "\<not> overlaps (bf_planes b ! i) (bf_planes b ! j)"
    using sorted_wrt_nth_less [OF disj, of i j] sorted_wrt_nth_less [OF disj, of j i] i j overlaps_sym
    by (metis linorder_neqE_nat plane_count_def)
  then show "plane_bytes (bf_planes b ! i) \<inter> plane_bytes (bf_planes b ! j) = {}"
    by (rule overlaps_bytes)
next
  have inv: "buffer_inv b" by (rule buffer_made_inv [OF assms])
  fix i off len
  have "res_ok (slice_plane no_throw b i off len) \<longleftrightarrow> (\<exists>c. slice_plane no_throw b i off len = Inr c)"
    by (auto simp: slice_plane_def Let_def status_msg_def st_ok_def err_def buffer_create_def
        split: if_splits)
  then show "res_ok (slice_plane no_throw b i off len) \<longleftrightarrow>
          i < plane_count b \<and> unat off + unat len \<le> unat (pl_size (bf_planes b ! i))"
    by (simp add: slice_plane_Inr [OF inv] plane_count_def)
  fix h c assume c: "slice_plane h b i off len = Inr c"
  then have s: "i < length (bf_planes b)" "unat off + unat len \<le> unat (pl_size (bf_planes b ! i))"
    "c = \<lparr>bf_storage = bf_storage b,
           bf_planes = [plane_layout_of (pl_offset (bf_planes b ! i) + off) len (pl_stride (bf_planes b ! i))]\<rparr>"
    by (simp_all add: slice_plane_Inr [OF inv])
  then show "bf_storage c = bf_storage b" "plane_count c = 1" by (simp_all add: plane_count_def)
  let ?p = "bf_planes b ! i"
  have "plane_fits (so_capacity (bf_storage b)) ?p"
    using inv s(1) by (auto simp: buffer_inv_def planes_valid_def)
  then have "unat (pl_offset ?p + off) = unat (pl_offset ?p) + unat off"
    using s(2) unat_less_64 [of "so_capacity (bf_storage b)"]
    by (simp add: unat_word_ariths plane_fits_def plane_end_def)
  then have bytes: "plane_bytes (bf_planes c ! 0)
      = {unat (pl_offset ?p) + unat off..<unat (pl_offset ?p) + unat off + unat len}"
    by (simp add: s(3) plane_bytes_def plane_end_def plane_layout_of_def)
  then show "plane_bytes (bf_planes c ! 0) = (\<lambda>x. x + (unat (pl_offset ?p) + unat off)) ` {..<unat len}"
    by (simp add: lessThan_atLeast0 ac_simps)
  show "plane_bytes (bf_planes c ! 0) \<subseteq> plane_bytes ?p"
    unfolding bytes using s(2) by (auto simp: plane_bytes_def plane_end_def)
qed

definition example_buffer :: buffer where
  "example_buffer = \<lparr>bf_storage = cpu_storage 0 16, bf_planes = [plane_layout_of 0 16 16]\<rparr>"

lemma example_buffer_made: "buffer_made example_buffer"
  by (rule made_allocate_plain [of no_throw 0 16]) (simp add: buffer_allocate_plain_Inr example_buffer_def)

theorem buffer_planes_safe_witness:
  "res_ok (slice_plane no_throw example_buffer 0 4 12) \<and> \<not> res_ok (slice_plane no_throw example_buffer 0 4 13)"
  using buffer_planes_safe [OF example_buffer_made]
  by (simp add: example_buffer_def plane_count_def plane_layout_of_def)

subsection \<open>Mapping\<close>

text \<open>Mapping a plane. The region covers the plane's bytes of the mapping and nothing else and
  holds the storage, whose \<open>unmap\<close> is then still due; on failure no mapping is left behind: the
  storage's \<open>map\<close> has failed, or was followed by \<open>unmap\<close>, or was not called. A read-only region
  gives no mutable pointer. A program's use of the regions afterwards, whatever it moves, assigns
  and destroys, unmaps each of them exactly once.\<close>

theorem map_plane_unmapped_once:
  "(case map_plane ops b i mode w of
      (Inr r, w1) \<Rightarrow>
        (\<exists>s base sz. do_map ops (bf_storage b) mode w = ((s, base, sz), w1) \<and> st_ok s
           \<and> mr_storage r = Some (bf_storage b) \<and> mr_size r = pl_size (bf_planes b ! i)
           \<and> plane_end (bf_planes b ! i) \<le> unat sz
           \<and> (mr_size r \<noteq> 0 \<longrightarrow> base \<noteq> 0 \<and> mr_data r = base + pl_offset (bf_planes b ! i))
           \<and> (mode = kReadOnly \<longrightarrow> mutable_data r = 0))
    | (Inl e, w1) \<Rightarrow>
        w1 = w \<and> i \<ge> plane_count b
        \<or> (\<exists>s base sz w2. do_map ops (bf_storage b) mode w = ((s, base, sz), w2)
             \<and> (if st_ok s then w1 = snd (do_unmap ops (bf_storage b) w2) else e = s \<and> w1 = w2)))
   \<and> mset (os_acquired (own_run region_owner prog (own_init n)))
       = mset (os_released (own_run region_owner prog (own_init n)))
         + held region_owner (own_run region_owner prog (own_init n))"
proof (rule conjI)
  show "mset (os_acquired (own_run region_owner prog (own_init n)))
       = mset (os_released (own_run region_owner prog (own_init n)))
         + held region_owner (own_run region_owner prog (own_init n))"
    by (rule mr.released_once)
next
  obtain s base sz w2 where m: "do_map ops (bf_storage b) mode w = ((s, base, sz), w2)"
    by (metis prod.collapse)
  show "case map_plane ops b i mode w of
      (Inr r, w1) \<Rightarrow>
        (\<exists>s base sz. do_map ops (bf_storage b) mode w = ((s, base, sz), w1) \<and> st_ok s
           \<and> mr_storage r = Some (bf_storage b) \<and> mr_size r = pl_size (bf_planes b ! i)
           \<and> plane_end (bf_planes b ! i) \<le> unat sz
           \<and> (mr_size r \<noteq> 0 \<longrightarrow> base \<noteq> 0 \<and> mr_data r = base + pl_offset (bf_planes b ! i))
           \<and> (mode = kReadOnly \<longrightarrow> mutable_data r = 0))
    | (Inl e, w1) \<Rightarrow>
        w1 = w \<and> i \<ge> plane_count b
        \<or> (\<exists>s base sz w2. do_map ops (bf_storage b) mode w = ((s, base, sz), w2)
             \<and> (if st_ok s then w1 = snd (do_unmap ops (bf_storage b) w2) else e = s \<and> w1 = w2))"
    by (auto simp: map_plane_def m Let_def is_within_unat plane_end_def mutable_data_def plane_count_def
        err_def split: sum.splits prod.splits if_splits)
qed

theorem map_plane_unmapped_once_witness:
  "\<exists>r. map_plane (cpu_ops (\<lambda>_. 4096)) example_buffer 0 kReadOnly (7 :: int) = (Inr r, 7)
     \<and> mr_size r = 16 \<and> mr_data r = 4096 \<and> mutable_data r = 0"
proof -
  obtain r where r: "map_plane (cpu_ops (\<lambda>_. 4096)) example_buffer 0 kReadOnly (7 :: int) = (Inr r, 7)"
    by (simp add: map_plane_def example_buffer_def cpu_ops_def cpu_storage_def is_within_def
        plane_layout_of_def Let_def)
  then show ?thesis
    using map_plane_unmapped_once [where ops = "cpu_ops (\<lambda>_. 4096)" and b = example_buffer and i = 0
        and mode = kReadOnly and w = "7 :: int"]
    by (simp add: cpu_ops_def example_buffer_def cpu_storage_def plane_layout_of_def)
qed

text \<open>A native buffer handle closes its descriptor exactly once, whatever program of moves,
  assignments and destructions uses it, and never a negative one.\<close>

theorem native_handle_closed_once:
  "mset (os_acquired (own_run native_handle_owner prog (own_init n)))
     = mset (os_released (own_run native_handle_owner prog (own_init n)))
       + held native_handle_owner (own_run native_handle_owner prog (own_init n))
   \<and> (\<forall>fd \<in> set (os_acquired (own_run native_handle_owner prog (own_init n))). 0 \<le> fd)"
proof (rule conjI)
  show "mset (os_acquired (own_run native_handle_owner prog (own_init n)))
     = mset (os_released (own_run native_handle_owner prog (own_init n)))
       + held native_handle_owner (own_run native_handle_owner prog (own_init n))"
    by (rule nh.released_once)
  show "\<forall>fd \<in> set (os_acquired (own_run native_handle_owner prog (own_init n))). 0 \<le> fd"
    using own_run_acquired [of native_handle_owner prog "own_init n"]
    by (auto simp: own_init_def native_handle_owner_def split: if_splits)
qed

theorem native_handle_closed_once_witness:
  "mset (os_released (own_run native_handle_owner
       [Acquire 0 (native_handle_new 5), Move_new 1 0, Destroy 0, Destroy 1] (own_init 2))) = {#5#}"
proof -
  let ?prog = "[Acquire 0 (native_handle_new 5), Move_new 1 0, Destroy 0, Destroy 1]"
  let ?s = "own_run native_handle_owner ?prog (own_init 2)"
  have "own_init 2 = \<lparr>os_slots = [None, None], os_acquired = [], os_released = []\<rparr>"
    by (simp add: own_init_def numeral_2_eq_2)
  then have "os_acquired ?s = [5] \<and> os_slots ?s = [None, None]"
    unfolding \<open>own_init 2 = _\<close>
    by (simp add: native_handle_owner_def native_handle_new_def native_handle_move_def
        native_handle_close_def)
  then show ?thesis
    using native_handle_closed_once [of ?prog 2, THEN conjunct1] by (simp add: held_def slot_held_def)
qed

subsection \<open>Alignment\<close>

text \<open>The alignment reported for a plane is the best that follows from what the storage
  guarantees: it divides the plane's address for every base address with the storage's alignment,
  and every number that does so for the base and the offset divides it. It is always known for
  the planes of a buffer.\<close>

theorem plane_alignment_exact:
  assumes "buffer_made b"
  shows "(i < plane_count b \<longleftrightarrow> (\<exists>a. plane_address_alignment b i = Inr a))
    \<and> (\<forall>a. plane_address_alignment b i = Inr a \<longrightarrow>
        (\<forall>base. unat (so_alignment (bf_storage b)) dvd base \<longrightarrow>
            unat a dvd base + unat (pl_offset (bf_planes b ! i)))
        \<and> (\<forall>c. c dvd unat (so_alignment (bf_storage b)) \<and> c dvd unat (pl_offset (bf_planes b ! i)) \<longrightarrow> c dvd unat a))"
proof -
  let ?al = "so_alignment (bf_storage b)" and ?off = "pl_offset (bf_planes b ! i)"
  have al: "?al \<noteq> 0"
    using buffer_made_inv [OF assms] by (simp add: buffer_inv_def planes_valid_def)
  define best where "best = (if ?off = 0 then ?al else greatest_common_divisor ?al ?off)"
  have "plane_address_alignment b i = (if i < plane_count b then Inr best
      else err (status_msg kInvalidArgument ''plane index is invalid''))"
    using al by (simp add: plane_address_alignment_def plane_count_def Let_def best_def not_le)
  then have known: "plane_address_alignment b i = Inr a \<longleftrightarrow> i < plane_count b \<and> a = best" for a
    by (cases "i < plane_count b") auto
  have "unat a = gcd (unat ?al) (unat ?off)" if "plane_address_alignment b i = Inr a" for a
    using that unfolding known by (cases "?off = 0") (simp_all add: best_def unat_gcd)
  moreover have "gcd x y dvd base + y" if "x dvd base" for x y base :: nat
    using that by (meson dvd_add dvd_trans gcd_dvd1 gcd_dvd2)
  ultimately show ?thesis using known by (metis gcd_greatest)
qed

theorem plane_alignment_exact_witness:
  "\<exists>a. plane_address_alignment example_buffer 0 = Inr a"
proof -
  have "0 < plane_count example_buffer" by (simp add: plane_count_def example_buffer_def)
  then show ?thesis using plane_alignment_exact [OF example_buffer_made] by blast
qed

end
