(* ===== verification/Media_Format.thy ===== *)
theory Media_Format
  imports Media_Buffer
begin

text \<open>
  \<open>src/media/video_format.cpp\<close>, \<open>src/media/audio_format.cpp\<close>, \<open>src/media/audio_frame.cpp\<close> and
  \<open>include/eavp/media/frame.hpp\<close>: formats and the frames that carry them. A C++ \<open>int\<close> is an
  \<open>int\<close>, converted to a word where the code casts it to \<open>std::size_t\<close>.
\<close>

datatype pixel_format = PixelUnknown | kNv12 | kYuv420p | kRgb24 | kYuyv422
datatype color_range = RangeUnknown | kLimited | kFull
datatype color_primaries = PrimariesUnknown | PrimariesBt601 | PrimariesBt709 | PrimariesBt2020
datatype transfer_characteristic = TransferUnknown | TransferBt709 | kSrgb | kPq | kHlg
datatype matrix_coefficients = MatrixUnknown | MatrixBt601 | MatrixBt709 | MatrixBt2020Ncl

record video_format =
  vf_pixel :: pixel_format
  vf_width :: int
  vf_height :: int
  vf_domain :: memory_domain
  vf_planes :: "plane_layout list"
  vf_range :: color_range
  vf_primaries :: color_primaries
  vf_transfer :: transfer_characteristic
  vf_matrix :: matrix_coefficients

definition invalid_format :: "string \<Rightarrow> status" where
  "invalid_format message = status_msg kInvalidArgument message"

definition pixel_format_name :: "throws \<Rightarrow> pixel_format \<Rightarrow> string result" where
  "pixel_format_name h f = catch_all h S_pixel_name
     (case f of kNv12 \<Rightarrow> Inr ''nv12'' | kYuv420p \<Rightarrow> Inr ''yuv420p'' | kRgb24 \<Rightarrow> Inr ''rgb24''
      | kYuyv422 \<Rightarrow> Inr ''yuyv422''
      | PixelUnknown \<Rightarrow> err (status_msg kInvalidArgument ''pixel format has no stable state name''))"

subsection \<open>VideoFormat\<close>

definition validate_plane :: "plane_layout \<Rightarrow> size_t \<Rightarrow> size_t \<Rightarrow> status" where
  "validate_plane plane minimum_stride rows =
     (if pl_stride plane < minimum_stride
      then invalid_format ''video plane stride is smaller than the pixel format requires''
      else if rows \<noteq> 0 \<and> pl_stride plane > size_max div rows
      then invalid_format ''video plane size overflows''
      else if pl_size plane < pl_stride plane * rows
      then invalid_format ''video plane size is smaller than the pixel format requires''
      else ok_status)"

fun ranges_against :: "plane_layout \<Rightarrow> plane_layout list \<Rightarrow> status" where
  "ranges_against plane [] = ok_status"
| "ranges_against plane (other # rest) =
     (if pl_offset other > size_max - pl_size other then invalid_format ''video plane range overflows''
      else if pl_offset plane < pl_offset other + pl_size other
           \<and> pl_offset other < pl_offset plane + pl_size plane
      then invalid_format ''video planes must not overlap''
      else ranges_against plane rest)"

fun plane_ranges_from :: "plane_layout list \<Rightarrow> plane_layout list \<Rightarrow> status" where
  "plane_ranges_from previous [] = ok_status"
| "plane_ranges_from previous (plane # rest) =
     (if pl_offset plane > size_max - pl_size plane then invalid_format ''video plane range overflows''
      else let s = ranges_against plane previous
        in if \<not> st_ok s then s else plane_ranges_from (previous @ [plane]) rest)"

definition validate_plane_ranges :: "plane_layout list \<Rightarrow> status" where
  "validate_plane_ranges planes = plane_ranges_from [] planes"

definition validate_format :: "pixel_format \<Rightarrow> int \<Rightarrow> int \<Rightarrow> plane_layout list \<Rightarrow> status" where
  "validate_format pixel width height planes =
     (if width \<le> 0 \<or> height \<le> 0 then invalid_format ''video format dimensions must be positive''
      else
        let range_status = validate_plane_ranges planes;
            pixel_width = size_of_int width;
            pixel_height = size_of_int height
        in if \<not> st_ok range_status then range_status
        else case pixel of
          kYuyv422 \<Rightarrow>
            if c_mod width 2 \<noteq> 0 then status_msg kUnsupported ''YUYV422 with an odd width is unsupported''
            else if length planes \<noteq> 1 then invalid_format ''YUYV422 requires one plane''
            else if pixel_width > size_max div 2 then invalid_format ''YUYV422 stride overflows''
            else validate_plane (planes ! 0) (pixel_width * 2) pixel_height
        | kRgb24 \<Rightarrow>
            if length planes \<noteq> 1 then invalid_format ''RGB24 requires one plane''
            else if pixel_width > size_max div 3 then invalid_format ''RGB24 stride overflows''
            else validate_plane (planes ! 0) (pixel_width * 3) pixel_height
        | kNv12 \<Rightarrow>
            if c_mod width 2 \<noteq> 0 \<or> c_mod height 2 \<noteq> 0
            then status_msg kUnsupported ''NV12 with odd dimensions is unsupported in 0.2''
            else if length planes \<noteq> 2 then invalid_format ''NV12 requires two planes''
            else let status = validate_plane (planes ! 0) pixel_width pixel_height
              in if \<not> st_ok status then status
                 else validate_plane (planes ! 1) pixel_width (pixel_height div 2)
        | kYuv420p \<Rightarrow>
            if c_mod width 2 \<noteq> 0 \<or> c_mod height 2 \<noteq> 0
            then status_msg kUnsupported ''YUV420P with odd dimensions is unsupported in 0.2''
            else if length planes \<noteq> 3 then invalid_format ''YUV420P requires three planes''
            else let status = validate_plane (planes ! 0) pixel_width pixel_height
              in if \<not> st_ok status then status
                 else let status = validate_plane (planes ! 1) (pixel_width div 2) (pixel_height div 2)
                   in if \<not> st_ok status then status
                      else validate_plane (planes ! 2) (pixel_width div 2) (pixel_height div 2)
        | PixelUnknown \<Rightarrow> invalid_format ''video pixel format must be known'')"

definition video_format_create ::
  "throws \<Rightarrow> pixel_format \<Rightarrow> int \<Rightarrow> int \<Rightarrow> memory_domain \<Rightarrow> plane_layout list \<Rightarrow> color_range \<Rightarrow>
     color_primaries \<Rightarrow> transfer_characteristic \<Rightarrow> matrix_coefficients \<Rightarrow> video_format result" where
  "video_format_create h pixel width height domain planes color primaries transfer matrix =
     (let status = validate_format pixel width height planes
      in if \<not> st_ok status then err status
         else catch_alloc h S_video_format ''failed to create video format metadata''
           (Inr \<lparr>vf_pixel = pixel, vf_width = width, vf_height = height, vf_domain = domain,
                 vf_planes = planes, vf_range = color, vf_primaries = primaries,
                 vf_transfer = transfer, vf_matrix = matrix\<rparr>))"

subsection \<open>AudioFormat\<close>

datatype sample_format = SampleUnknown | kSigned16LittleEndian | kSigned24In32LittleEndian
  | kSigned32LittleEndian | kFloat32LittleEndian
datatype audio_sample_layout = kInterleaved
datatype audio_channel_layout = kMono | kStereo

record audio_format =
  af_sample :: sample_format
  af_rate :: int
  af_channel_layout :: audio_channel_layout
  af_sample_layout :: audio_sample_layout
  af_domain :: memory_domain
  af_channels :: int
  af_bytes_per_sample :: size_t
  af_bytes_per_pcm_frame :: size_t

fun sample_bytes :: "sample_format \<Rightarrow> size_t" where
  "sample_bytes kSigned16LittleEndian = 2"
| "sample_bytes kSigned24In32LittleEndian = 4"
| "sample_bytes kSigned32LittleEndian = 4"
| "sample_bytes kFloat32LittleEndian = 4"
| "sample_bytes SampleUnknown = 0"

fun channel_count :: "audio_channel_layout \<Rightarrow> int" where
  "channel_count kMono = 1"
| "channel_count kStereo = 2"

definition audio_format_create ::
  "throws \<Rightarrow> sample_format \<Rightarrow> int \<Rightarrow> audio_channel_layout \<Rightarrow> audio_sample_layout \<Rightarrow> memory_domain \<Rightarrow>
     audio_format result" where
  "audio_format_create h sample rate channel_layout sample_layout domain = catch_all h S_audio_format
     (let bytes_per_sample = sample_bytes sample; channels = channel_count channel_layout
      in if bytes_per_sample = 0 \<or> rate \<le> 0 \<or> channels \<le> 0 \<or> sample_layout \<noteq> kInterleaved
         then err (status_msg kInvalidArgument ''audio format is invalid'')
         else if bytes_per_sample > size_max div size_of_int channels
         then err (status_msg kInvalidArgument ''audio PCM frame size overflows'')
         else Inr \<lparr>af_sample = sample, af_rate = rate, af_channel_layout = channel_layout,
                   af_sample_layout = sample_layout, af_domain = domain, af_channels = channels,
                   af_bytes_per_sample = bytes_per_sample,
                   af_bytes_per_pcm_frame = bytes_per_sample * size_of_int channels\<rparr>)"

subsection \<open>Frames\<close>

record video_frame =
  vfr_buffer :: buffer
  vfr_format :: video_format
  vfr_pts :: int
  vfr_time_base :: time_base

fun frame_planes_match :: "nat \<Rightarrow> buffer \<Rightarrow> plane_layout list \<Rightarrow> bool" where
  "frame_planes_match i b [] = True"
| "frame_planes_match i b (f # fs) =
     (case plane_layout_at b i of
        Inl _ \<Rightarrow> False
      | Inr l \<Rightarrow> pl_offset l = pl_offset f \<and> pl_size l = pl_size f \<and> pl_stride l = pl_stride f
               \<and> frame_planes_match (Suc i) b fs)"

definition video_frame_create ::
  "throws \<Rightarrow> buffer \<Rightarrow> video_format \<Rightarrow> int \<Rightarrow> time_base \<Rightarrow> video_frame result" where
  "video_frame_create h b f pts tb =
     (if so_domain (bf_storage b) \<noteq> vf_domain f
      then err (status_msg kCapabilityMismatch ''video frame buffer memory domain does not match its format'')
      else if plane_count b \<noteq> length (vf_planes f)
      then err (status_msg kCapabilityMismatch ''video frame buffer plane count does not match its format'')
      else if \<not> frame_planes_match 0 b (vf_planes f)
      then err (status_msg kCapabilityMismatch ''video frame buffer planes do not match its format'')
      else catch_alloc h S_video_frame ''failed to create video frame metadata''
        (Inr \<lparr>vfr_buffer = b, vfr_format = f, vfr_pts = pts, vfr_time_base = tb\<rparr>))"

record audio_frame =
  afr_buffer :: buffer
  afr_format :: audio_format
  afr_samples :: int
  afr_pts :: int
  afr_time_base :: time_base
  afr_discontinuity :: bool

definition audio_frame_create ::
  "throws \<Rightarrow> buffer \<Rightarrow> audio_format \<Rightarrow> int \<Rightarrow> int \<Rightarrow> time_base \<Rightarrow> bool \<Rightarrow> audio_frame result" where
  "audio_frame_create h b f samples pts tb discontinuity = catch_all h S_audio_frame
     (if samples \<le> 0 \<or> tb_numerator tb \<le> 0
      then err (status_msg kInvalidArgument ''audio frame samples and time base must be positive'')
      else if so_domain (bf_storage b) \<noteq> af_domain f \<or> plane_count b \<noteq> 1
      then err (status_msg kCapabilityMismatch ''audio frame buffer does not match its format'')
      else let pcm_frames = size_of_int samples
        in if af_bytes_per_pcm_frame f > size_max div pcm_frames
           then err (status_msg kInvalidArgument ''audio frame size overflows'')
           else case plane_layout_at b 0 of
                  Inl _ \<Rightarrow> err (status_msg kCapabilityMismatch ''audio frame payload size does not match its format'')
                | Inr plane \<Rightarrow>
                    if pl_size plane \<noteq> pcm_frames * af_bytes_per_pcm_frame f
                    then err (status_msg kCapabilityMismatch ''audio frame payload size does not match its format'')
                    else Inr \<lparr>afr_buffer = b, afr_format = f, afr_samples = samples, afr_pts = pts,
                              afr_time_base = tb, afr_discontinuity = discontinuity\<rparr>)"

subsection \<open>What makes a video format valid\<close>

text \<open>Per plane: the bytes a row needs at least, and the number of rows.\<close>

fun required_planes :: "pixel_format \<Rightarrow> nat \<Rightarrow> nat \<Rightarrow> (nat \<times> nat) list option" where
  "required_planes PixelUnknown w h = None"
| "required_planes kYuyv422 w h = Some [(2 * w, h)]"
| "required_planes kRgb24 w h = Some [(3 * w, h)]"
| "required_planes kNv12 w h = Some [(w, h), (w, h div 2)]"
| "required_planes kYuv420p w h = Some [(w, h), (w div 2, h div 2), (w div 2, h div 2)]"

fun dimensions_fit :: "pixel_format \<Rightarrow> int \<Rightarrow> int \<Rightarrow> bool" where
  "dimensions_fit kYuyv422 w h \<longleftrightarrow> even w"
| "dimensions_fit kNv12 w h \<longleftrightarrow> even w \<and> even h"
| "dimensions_fit kYuv420p w h \<longleftrightarrow> even w \<and> even h"
| "dimensions_fit _ w h \<longleftrightarrow> True"

definition plane_holds :: "nat \<times> nat \<Rightarrow> plane_layout \<Rightarrow> bool" where
  "plane_holds req p \<longleftrightarrow> fst req \<le> unat (pl_stride p) \<and> unat (pl_stride p) * snd req \<le> unat (pl_size p)"

lemma invalid_not_ok [simp]: "\<not> st_ok (invalid_format m)"
  by (simp add: invalid_format_def status_msg_def st_ok_def)

lemma ok_status_ok: "st_ok ok_status"
  by (simp add: st_ok_def)

lemma validate_plane_ok:
  "st_ok (validate_plane p m r) \<longleftrightarrow> plane_holds (unat m, unat r) p"
proof (cases "2 ^ 64 \<le> unat (pl_stride p) * unat r")
  case True
  then have "r \<noteq> 0" by (intro notI) simp
  with True have "pl_stride p > size_max div r"
    using mult_guard [of r "pl_stride p"] by (simp add: mult.commute)
  moreover have "\<not> plane_holds (unat m, unat r) p"
    using True unat_less_64 [of "pl_size p"] by (simp add: plane_holds_def)
  ultimately show ?thesis using \<open>r \<noteq> 0\<close> by (simp add: validate_plane_def)
next
  case False
  then have "\<not> (r \<noteq> 0 \<and> pl_stride p > size_max div r)"
    using mult_guard [of r "pl_stride p"] by (auto simp: mult.commute)
  moreover have "unat (pl_stride p * r) = unat (pl_stride p) * unat r"
    using False by (simp add: unat_mult_lem [THEN iffD1])
  ultimately show ?thesis
    by (auto simp: validate_plane_def plane_holds_def word_less_nat_alt word_le_nat_alt ok_status_ok)
qed

lemma range_guard: "pl_offset p > size_max - pl_size p \<longleftrightarrow> 2 ^ 64 \<le> plane_end p"
  using checked_add_None_iff [of "pl_offset p" "pl_size p"]
  by (simp add: checked_add_def plane_end_def split: if_splits)

lemma plane_end_unat: "plane_end p < 2 ^ 64 \<Longrightarrow> unat (pl_offset p + pl_size p) = plane_end p"
  by (simp add: plane_end_def unat_add_lem [THEN iffD1])

lemma less_plane_end: "plane_end p < 2 ^ 64 \<Longrightarrow> x < pl_offset p + pl_size p \<longleftrightarrow> unat x < plane_end p"
  by (simp add: word_less_nat_alt plane_end_unat)

lemma ranges_against_ok:
  "plane_end p < 2 ^ 64 \<Longrightarrow> \<forall>q \<in> set qs. plane_end q < 2 ^ 64 \<Longrightarrow>
     st_ok (ranges_against p qs) \<longleftrightarrow> (\<forall>q \<in> set qs. \<not> overlaps p q)"
  by (induction qs) (auto simp: range_guard overlaps_def less_plane_end ok_status_ok)

lemma plane_ranges_from_ok:
  "\<forall>q \<in> set prev. plane_end q < 2 ^ 64 \<Longrightarrow> st_ok (plane_ranges_from prev ps) \<longleftrightarrow>
     (\<forall>p \<in> set ps. plane_end p < 2 ^ 64) \<and> (\<forall>p \<in> set ps. \<forall>q \<in> set prev. \<not> overlaps p q)
     \<and> sorted_wrt (\<lambda>p q. \<not> overlaps p q) ps"
proof (induction ps arbitrary: prev)
  case (Cons p ps)
  show ?case
  proof (cases "plane_end p < 2 ^ 64")
    case True
    then show ?thesis
      using Cons.prems Cons.IH [of "prev @ [p]"] ranges_against_ok [OF True Cons.prems] overlaps_sym
      by (auto simp: range_guard Let_def)
  qed (simp add: range_guard not_less)
qed (simp add: ok_status_ok)

lemma validate_plane_ranges_ok:
  "st_ok (validate_plane_ranges ps) \<longleftrightarrow>
     (\<forall>p \<in> set ps. plane_end p < 2 ^ 64) \<and> sorted_wrt (\<lambda>p q. \<not> overlaps p q) ps"
  using plane_ranges_from_ok [of "[]" ps] by (simp add: validate_plane_ranges_def)

lemma cast_facts:
  assumes "0 < w" "is_int32 w"
  shows "unat (size_of_int w) = nat w" "unat (size_of_int w * 2) = 2 * nat w"
    "unat (size_of_int w * 3) = 3 * nat w" "unat (size_of_int w div 2) = nat w div 2"
    "\<not> size_max div 2 < size_of_int w" "\<not> size_max div 3 < size_of_int w"
    "c_mod w 2 = 0 \<longleftrightarrow> even w"
proof -
  have u: "unat (size_of_int w) = nat w"
    using assms by (intro unat_size_of_int) (simp_all add: is_int32_int64)
  have small: "nat w < 2 ^ 31" using assms by (simp add: is_int32_def)
  show "unat (size_of_int w) = nat w" by (rule u)
  show "unat (size_of_int w * 2) = 2 * nat w" "unat (size_of_int w * 3) = 3 * nat w"
    using u small by (simp_all add: unat_word_ariths)
  show "unat (size_of_int w div 2) = nat w div 2" by (simp add: unat_div u)
  show "\<not> size_max div 2 < size_of_int w" "\<not> size_max div 3 < size_of_int w"
    using u small by (simp_all add: word_less_nat_alt unat_div unat_size_max)
  show "c_mod w 2 = 0 \<longleftrightarrow> even w" using assms by (auto simp: even_iff_mod_2_eq_zero)
qed

definition video_format_valid :: "pixel_format \<Rightarrow> int \<Rightarrow> int \<Rightarrow> plane_layout list \<Rightarrow> bool" where
  "video_format_valid pixel w h ps \<longleftrightarrow> 0 < w \<and> 0 < h \<and> dimensions_fit pixel w h
     \<and> (\<exists>req. required_planes pixel (nat w) (nat h) = Some req \<and> list_all2 plane_holds req ps)
     \<and> (\<forall>p \<in> set ps. plane_end p < 2 ^ 64) \<and> sorted_wrt (\<lambda>p q. \<not> overlaps p q) ps"

lemma unsupported_not_ok [simp]: "\<not> st_ok (status_msg kUnsupported m)"
  by (simp add: status_msg_def st_ok_def)

lemma length_1_conv: "length xs = 1 \<longleftrightarrow> (\<exists>x. xs = [x])"
  by (cases xs) auto

lemma length_2_conv: "length xs = 2 \<longleftrightarrow> (\<exists>x y. xs = [x, y])"
  by (cases xs; cases "tl xs") auto

lemma length_3_conv: "length xs = 3 \<longleftrightarrow> (\<exists>x y z. xs = [x, y, z])"
  by (cases xs; cases "tl xs"; cases "tl (tl xs)") auto

lemma validate_format_ok:
  assumes "is_int32 w" "is_int32 h"
  shows "st_ok (validate_format pixel w h ps) \<longleftrightarrow> video_format_valid pixel w h ps"
proof (cases "0 < w \<and> 0 < h \<and> st_ok (validate_plane_ranges ps)")
  case False
  then show ?thesis
    by (auto simp: validate_format_def video_format_valid_def Let_def validate_plane_ranges_ok)
next
  case True
  then have pos: "0 < w" "0 < h" and ranges: "st_ok (validate_plane_ranges ps)" by simp_all
  then have nle: "\<not> w \<le> 0" "\<not> h \<le> 0" by simp_all
  note wf = cast_facts [OF pos(1) assms(1)] and hf = cast_facts [OF pos(2) assms(2)]
  note ok = validate_plane_ok [of _ "size_of_int w" "size_of_int h"]
    validate_plane_ok [of _ "size_of_int w * 2" "size_of_int h"]
    validate_plane_ok [of _ "size_of_int w * 3" "size_of_int h"]
    validate_plane_ok [of _ "size_of_int w" "size_of_int h div 2"]
    validate_plane_ok [of _ "size_of_int w div 2" "size_of_int h div 2"]
  note ok' = ok [unfolded wf hf]
  have rest: "video_format_valid pixel w h ps \<longleftrightarrow> dimensions_fit pixel w h
     \<and> (\<exists>req. required_planes pixel (nat w) (nat h) = Some req \<and> list_all2 plane_holds req ps)"
    using True by (auto simp: video_format_valid_def validate_plane_ranges_ok)
  note start = validate_format_def Let_def nle ranges wf(5-7) hf(5-7)
  show ?thesis
  proof (cases pixel)
    case PixelUnknown
    then show ?thesis unfolding rest by (simp add: start)
  next
    case kNv12
    show ?thesis
    proof (cases "length ps = 2")
      case True
      then obtain a b where "ps = [a, b]" by (auto simp: length_2_conv)
      then show ?thesis unfolding rest using kNv12 ranges by (auto simp: start ok' Let_def simp del: c_mod_nonneg)
    next
      case False
      then show ?thesis unfolding rest using kNv12 by (auto simp: start simp del: c_mod_nonneg dest: list_all2_lengthD)
    qed
  next
    case kYuv420p
    show ?thesis
    proof (cases "length ps = 3")
      case True
      then obtain a b c where "ps = [a, b, c]" by (auto simp: length_3_conv)
      then show ?thesis unfolding rest using kYuv420p ranges by (auto simp: start ok' Let_def simp del: c_mod_nonneg)
    next
      case False
      then show ?thesis unfolding rest using kYuv420p by (auto simp: start simp del: c_mod_nonneg dest: list_all2_lengthD)
    qed
  next
    case kRgb24
    show ?thesis
    proof (cases "length ps = 1")
      case True
      then obtain a where "ps = [a]" using length_1_conv [of ps] by blast
      then show ?thesis unfolding rest using kRgb24 ranges by (auto simp: start ok' simp del: c_mod_nonneg)
    next
      case False
      then show ?thesis unfolding rest using kRgb24 by (auto simp: start simp del: c_mod_nonneg dest: list_all2_lengthD)
    qed
  next
    case kYuyv422
    show ?thesis
    proof (cases "length ps = 1")
      case True
      then obtain a where "ps = [a]" using length_1_conv [of ps] by blast
      then show ?thesis unfolding rest using kYuyv422 ranges by (auto simp: start ok' simp del: c_mod_nonneg)
    next
      case False
      then show ?thesis unfolding rest using kYuyv422 by (auto simp: start simp del: c_mod_nonneg dest: list_all2_lengthD)
    qed
  qed
qed

lemma video_format_create_Inr:
  "video_format_create h pixel w ht domain ps c pr t m = Inr f \<longleftrightarrow>
     st_ok (validate_format pixel w ht ps) \<and> h S_video_format = None
     \<and> f = \<lparr>vf_pixel = pixel, vf_width = w, vf_height = ht, vf_domain = domain, vf_planes = ps,
            vf_range = c, vf_primaries = pr, vf_transfer = t, vf_matrix = m\<rparr>"
  by (auto simp: video_format_create_def Let_def)

text \<open>C23: a video format is accepted exactly if its dimensions are positive and fit the subsampling
  of the pixel format, it has the planes the pixel format needs, each with rows long enough and
  enough of them, and the planes are disjoint ranges that do not wrap; what is accepted is stored
  unchanged. The tests on 64-bit words are exact: no product or sum of theirs overflows unnoticed.\<close>

theorem video_format_exact:
  assumes "is_int32 w" and "is_int32 ht"
  shows "(\<exists>f. video_format_create no_throw pixel w ht domain ps c pr t m = Inr f) \<longleftrightarrow>
      0 < w \<and> 0 < ht \<and> dimensions_fit pixel w ht
      \<and> (\<exists>req. required_planes pixel (nat w) (nat ht) = Some req
           \<and> list_all2 (\<lambda>(row, rows) p. row \<le> unat (pl_stride p)
                \<and> unat (pl_stride p) * rows \<le> unat (pl_size p)) req ps)
      \<and> (\<forall>p \<in> set ps. plane_end p < 2 ^ 64)
      \<and> (\<forall>i j. i < j \<longrightarrow> j < length ps \<longrightarrow>
            \<not> (unat (pl_offset (ps ! i)) < plane_end (ps ! j) \<and> unat (pl_offset (ps ! j)) < plane_end (ps ! i)))"
proof -
  have "plane_holds = (\<lambda>(row, rows) p. row \<le> unat (pl_stride p) \<and> unat (pl_stride p) * rows \<le> unat (pl_size p))"
    by (auto simp: fun_eq_iff plane_holds_def)
  then show ?thesis
    using validate_format_ok [OF assms, of pixel ps]
    by (auto simp: video_format_create_Inr video_format_valid_def sorted_wrt_iff_nth_less overlaps_def)
qed

theorem video_format_exact_witness:
  "\<exists>f. video_format_create no_throw kNv12 4 2 kCpu [plane_layout_of 0 8 4, plane_layout_of 8 4 4]
        RangeUnknown PrimariesUnknown TransferUnknown MatrixUnknown = Inr f"
proof -
  have *: "is_int32 4" "is_int32 2" by (simp_all add: is_int32_def)
  show ?thesis
    unfolding video_format_exact [OF *]
    by (auto simp: plane_layout_of_def plane_end_def less_Suc_eq)
qed

lemma audio_format_create_Inr:
  "audio_format_create h s rate cl sl d = Inr f \<longleftrightarrow> h S_audio_format = None \<and> s \<noteq> SampleUnknown \<and> 0 < rate
     \<and> f = \<lparr>af_sample = s, af_rate = rate, af_channel_layout = cl, af_sample_layout = sl, af_domain = d,
            af_channels = channel_count cl, af_bytes_per_sample = sample_bytes s,
            af_bytes_per_pcm_frame = sample_bytes s * size_of_int (channel_count cl)\<rparr>"
proof -
  have "sl = kInterleaved" by (cases sl)
  moreover have "size_of_int 1 = 1" "size_of_int 2 = 2" by (simp_all add: size_of_int_def)
  moreover have "\<not> size_max div 2 < 2" "\<not> size_max div 2 < 4" "\<not> size_max < 2" "\<not> size_max < 4"
    by (simp_all add: word_less_nat_alt unat_div unat_size_max)
  ultimately show ?thesis
    by (cases s; cases cl) (auto simp: audio_format_create_def Let_def)
qed

text \<open>The natural number of bytes of a PCM frame.\<close>

fun pcm_frame_bytes :: "sample_format \<Rightarrow> audio_channel_layout \<Rightarrow> nat" where
  "pcm_frame_bytes SampleUnknown cl = 0"
| "pcm_frame_bytes kSigned16LittleEndian cl = (case cl of kMono \<Rightarrow> 2 | kStereo \<Rightarrow> 4)"
| "pcm_frame_bytes _ cl = (case cl of kMono \<Rightarrow> 4 | kStereo \<Rightarrow> 8)"

lemma pcm_frame_bytes_word:
  "s \<noteq> SampleUnknown \<Longrightarrow>
     unat (sample_bytes s * size_of_int (channel_count cl)) = pcm_frame_bytes s cl \<and> pcm_frame_bytes s cl \<noteq> 0"
  by (cases s; cases cl) (simp_all add: size_of_int_def)

lemma frame_planes_match_iff:
  "length (bf_planes b) = i + length fs \<Longrightarrow> frame_planes_match i b fs \<longleftrightarrow> drop i (bf_planes b) = fs"
proof (induction fs arbitrary: i)
  case (Cons f fs)
  have i: "i < length (bf_planes b)" using Cons.prems by simp
  have d: "drop i (bf_planes b) = bf_planes b ! i # drop (Suc i) (bf_planes b)"
    using i by (simp add: Cons_nth_drop_Suc)
  have IH: "frame_planes_match (Suc i) b fs \<longleftrightarrow> drop (Suc i) (bf_planes b) = fs"
    using Cons.prems by (intro Cons.IH) simp
  have eq: "pl_offset l = pl_offset f \<and> pl_size l = pl_size f \<and> pl_stride l = pl_stride f \<longleftrightarrow> l = f" for l
    by (auto intro: plane_layout.equality)
  show ?case
    unfolding d using i IH eq [of "bf_planes b ! i"] by (auto simp: plane_layout_at_def)
qed simp

lemma video_frame_create_Inr:
  "video_frame_create h b f pts tb = Inr fr \<longleftrightarrow> so_domain (bf_storage b) = vf_domain f \<and> bf_planes b = vf_planes f
     \<and> h S_video_frame = None \<and> fr = \<lparr>vfr_buffer = b, vfr_format = f, vfr_pts = pts, vfr_time_base = tb\<rparr>"
proof (cases "plane_count b = length (vf_planes f)")
  case True
  then show ?thesis
    using frame_planes_match_iff [of b 0 "vf_planes f"]
    by (auto simp: video_frame_create_def plane_count_def)
next
  case False
  then have "bf_planes b \<noteq> vf_planes f" by (auto simp: plane_count_def)
  then show ?thesis using False by (auto simp: video_frame_create_def)
qed

lemma audio_frame_create_Inr:
  assumes f: "audio_format_create h0 s rate cl sl d = Inr f" and "is_int32 n"
  shows "audio_frame_create h b f n pts tb disc = Inr fr \<longleftrightarrow>
    h S_audio_frame = None \<and> 0 < n \<and> 0 < tb_numerator tb \<and> so_domain (bf_storage b) = d
    \<and> (\<exists>p. bf_planes b = [p] \<and> unat (pl_size p) = nat n * pcm_frame_bytes s cl)
    \<and> fr = \<lparr>afr_buffer = b, afr_format = f, afr_samples = n, afr_pts = pts, afr_time_base = tb,
           afr_discontinuity = disc\<rparr>"
proof (cases "0 < n \<and> 0 < tb_numerator tb \<and> so_domain (bf_storage b) = d \<and> plane_count b = 1")
  case False
  then show ?thesis
    using f by (auto simp: audio_frame_create_def audio_format_create_Inr plane_count_def)
next
  case True
  then have "length (bf_planes b) = 1" by (simp add: plane_count_def)
  then obtain p where p: "bf_planes b = [p]" using length_1_conv [of "bf_planes b"] by blast
  let ?bpf = "af_bytes_per_pcm_frame f"
  have bpf: "unat ?bpf = pcm_frame_bytes s cl" "pcm_frame_bytes s cl \<le> 8"
    using f pcm_frame_bytes_word [of s cl]
    by (auto simp: audio_format_create_Inr) (cases s; cases cl; simp)
  have n: "unat (size_of_int n) = nat n" "nat n < 2 ^ 31"
    using True assms(2) by (simp_all add: unat_size_of_int is_int32_int64) (simp add: is_int32_def)
  have small: "nat n * pcm_frame_bytes s cl < 2 ^ 64"
  proof -
    have "nat n * pcm_frame_bytes s cl \<le> 2 ^ 31 * 8" using n bpf by (intro mult_mono) simp_all
    also have "\<dots> < (2 ^ 64 :: nat)" by simp
    finally show ?thesis .
  qed
  have prod: "unat (size_of_int n * ?bpf) = nat n * pcm_frame_bytes s cl"
    using small n bpf by (simp add: unat_word_ariths)
  have nz: "size_of_int n \<noteq> 0" using True n by (metis nat_0_iff not_le unsigned_0)
  have guard: "\<not> size_max div size_of_int n < ?bpf"
    using mult_guard [OF nz, of ?bpf] small n bpf by simp
  have "so_domain (bf_storage b) = af_domain f" "d = af_domain f"
    using True f by (auto simp: audio_format_create_Inr)
  then show ?thesis
    using True guard p
    by (auto simp: audio_frame_create_def Let_def plane_layout_at_def plane_count_def
        word_unat_eq_iff prod)
qed

text \<open>A frame fits its buffer. A video frame's buffer has the memory domain and exactly the
  planes of its format, hence, for a buffer that can be made, every plane the format describes
  lies inside the storage and apart from the others. An audio frame's buffer has one plane of
  exactly (samples per channel) times (channels) times (bytes per sample) bytes, computed without
  overflow.\<close>

theorem frames_fit_buffer:
  assumes "buffer_made b" and "is_int32 n" and "audio_format_create h0 s rate cl sl d = Inr af"
  shows "(\<forall>h vf pts tb fr. video_frame_create h b vf pts tb = Inr fr \<longrightarrow>
        so_domain (bf_storage b) = vf_domain vf \<and> bf_planes b = vf_planes vf
        \<and> (\<forall>p \<in> set (vf_planes vf). plane_end p \<le> unat (so_capacity (bf_storage b)))
        \<and> vfr_buffer fr = b \<and> vfr_format fr = vf)
    \<and> ((\<exists>fr. audio_frame_create no_throw b af n pts tb disc = Inr fr) \<longleftrightarrow>
        0 < n \<and> 0 < tb_numerator tb \<and> so_domain (bf_storage b) = d
        \<and> (\<exists>p. bf_planes b = [p] \<and> unat (pl_size p) = nat n * pcm_frame_bytes s cl))"
proof -
  have "\<forall>p \<in> set (bf_planes b). plane_end p \<le> unat (so_capacity (bf_storage b))"
    using buffer_made_inv [OF assms(1)] by (simp add: buffer_inv_def planes_valid_def plane_fits_def)
  then show ?thesis
    by (auto simp: video_frame_create_Inr audio_frame_create_Inr [OF assms(3,2)])
qed

theorem frames_fit_buffer_witness:
  "\<exists>fr. audio_frame_create no_throw example_buffer
     \<lparr>af_sample = kSigned16LittleEndian, af_rate = 48000, af_channel_layout = kStereo,
      af_sample_layout = kInterleaved, af_domain = kCpu, af_channels = 2, af_bytes_per_sample = 2,
      af_bytes_per_pcm_frame = 4\<rparr> 4 0 \<lparr>tb_numerator = 1, tb_denominator = 48000\<rparr> False = Inr fr"
proof -
  let ?f = "\<lparr>af_sample = kSigned16LittleEndian, af_rate = 48000, af_channel_layout = kStereo,
      af_sample_layout = kInterleaved, af_domain = kCpu, af_channels = 2, af_bytes_per_sample = 2,
      af_bytes_per_pcm_frame = 4\<rparr>"
  have "audio_format_create no_throw kSigned16LittleEndian 48000 kStereo kInterleaved kCpu = Inr ?f"
    by (simp add: audio_format_create_Inr size_of_int_def)
  moreover have "is_int32 4" by (simp add: is_int32_def)
  ultimately show ?thesis
    using frames_fit_buffer [OF example_buffer_made, of 4 no_throw kSigned16LittleEndian 48000 kStereo
        kInterleaved kCpu ?f 0 "\<lparr>tb_numerator = 1, tb_denominator = 48000\<rparr>" False]
    by (simp add: example_buffer_def cpu_storage_def plane_layout_of_def)
qed

end
