(* ===== verification/Media_Codec.thy ===== *)
theory Media_Codec
  imports Media_Format
begin

text \<open>
  \<open>src/media/video_codec.cpp\<close> and \<open>src/media/media_packet.cpp\<close>: the configurations of video
  processors and encoders, and encoded packets.
\<close>

datatype codec_id = CodecUnknown | kH264 | kH265 | kAac | CodecReference
datatype rate_control_mode = kCbr | kVbr | kConstantQuality
datatype encoded_stream_format = StreamUnknown | kAnnexB | kAvcc | kHvcc | StreamReference
datatype codec_profile = ProfileUnknown | kH264Baseline | kH264Main | kH264High | kH265Main

record video_processor_config =
  pc_input :: video_format
  pc_output :: video_format
  pc_crop_x :: int
  pc_crop_y :: int
  pc_crop_width :: int
  pc_crop_height :: int
  pc_rotation :: int

record video_encoder_config =
  ec_codec :: codec_id
  ec_width :: int
  ec_height :: int
  ec_rate_num :: int
  ec_rate_den :: int
  ec_time_base :: time_base
  ec_target_bitrate :: int
  ec_max_bitrate :: int
  ec_gop_length :: int
  ec_b_frames :: int
  ec_rate_control :: rate_control_mode
  ec_profile :: codec_profile
  ec_level :: int
  ec_low_latency :: bool

type_synonym codec_config_data = "8 word list"

definition is_video_codec :: "codec_id \<Rightarrow> bool" where
  "is_video_codec c \<longleftrightarrow> c = kH264 \<or> c = kH265 \<or> c = CodecReference"

definition profile_matches_codec :: "codec_id \<Rightarrow> codec_profile \<Rightarrow> bool" where
  "profile_matches_codec c p =
     (if p = ProfileUnknown then True
      else if c = kH264 then p = kH264Baseline \<or> p = kH264Main \<or> p = kH264High
      else if c = kH265 then p = kH265Main
      else False)"

definition is_rotation_degrees :: "int \<Rightarrow> bool" where
  "is_rotation_degrees r \<longleftrightarrow> r = 0 \<or> r = 90 \<or> r = 180 \<or> r = 270"

definition video_processor_config_create ::
  "throws \<Rightarrow> video_format \<Rightarrow> video_format \<Rightarrow> int \<Rightarrow> int \<Rightarrow> int \<Rightarrow> int \<Rightarrow> int \<Rightarrow>
     video_processor_config result" where
  "video_processor_config_create h i out x y cw ch rot =
     (if x < 0 \<or> y < 0 \<or> cw \<le> 0 \<or> ch \<le> 0
      then err (status_msg kInvalidArgument ''video processor crop must be positive'')
      else if x > vf_width i - cw \<or> y > vf_height i - ch
      then err (status_msg kInvalidArgument ''video processor crop is outside input format'')
      else if \<not> is_rotation_degrees rot
      then err (status_msg kInvalidArgument ''video processor rotation is invalid'')
      else catch_alloc h S_processor_config ''failed to create video processor configuration''
        (Inr \<lparr>pc_input = i, pc_output = out, pc_crop_x = x, pc_crop_y = y, pc_crop_width = cw,
              pc_crop_height = ch, pc_rotation = rot\<rparr>))"

definition video_encoder_config_create ::
  "throws \<Rightarrow> video_encoder_config \<Rightarrow> video_encoder_config result" where
  "video_encoder_config_create h c =
     (if \<not> is_video_codec (ec_codec c)
      then err (status_msg kInvalidArgument ''video encoder codec must be supported'')
      else if ec_width c \<le> 0 \<or> ec_height c \<le> 0 \<or> ec_rate_num c \<le> 0 \<or> ec_rate_den c \<le> 0
           \<or> tb_numerator (ec_time_base c) \<le> 0 \<or> tb_denominator (ec_time_base c) \<le> 0
      then err (status_msg kInvalidArgument ''video encoder dimensions and timing must be positive'')
      else if ec_target_bitrate c \<le> 0 \<or> ec_max_bitrate c < ec_target_bitrate c \<or> ec_gop_length c \<le> 0
           \<or> ec_b_frames c < 0 \<or> ec_level c < 0 \<or> \<not> profile_matches_codec (ec_codec c) (ec_profile c)
      then err (status_msg kInvalidArgument ''video encoder configuration is invalid'')
      else catch_alloc h S_encoder_config ''failed to create video encoder configuration'' (Inr c))"

record media_packet =
  mp_buffer :: buffer
  mp_codec :: codec_id
  mp_stream_format :: encoded_stream_format
  mp_stream_index :: int
  mp_pts :: int
  mp_dts :: int
  mp_duration :: int
  mp_time_base :: time_base
  mp_key_frame :: bool
  mp_codec_config :: codec_config_data

fun is_valid_stream_format :: "codec_id \<Rightarrow> encoded_stream_format \<Rightarrow> bool" where
  "is_valid_stream_format kH264 f \<longleftrightarrow> f = kAnnexB \<or> f = kAvcc"
| "is_valid_stream_format kH265 f \<longleftrightarrow> f = kAnnexB \<or> f = kHvcc"
| "is_valid_stream_format CodecReference f \<longleftrightarrow> f = StreamReference"
| "is_valid_stream_format CodecUnknown f \<longleftrightarrow> False"
| "is_valid_stream_format kAac f \<longleftrightarrow> False"

definition media_packet_create :: "throws \<Rightarrow> media_packet \<Rightarrow> media_packet result" where
  "media_packet_create h p =
     (if mp_stream_index p < 0 \<or> mp_duration p < 0
      then err (status_msg kInvalidArgument ''packet stream index and duration are invalid'')
      else if \<not> is_valid_stream_format (mp_codec p) (mp_stream_format p)
      then err (status_msg kInvalidArgument ''packet codec and stream format are incompatible'')
      else catch_alloc h S_media_packet ''failed to create packet metadata'' (Inr p))"

lemma media_packet_create_Inr:
  "media_packet_create h p = Inr q \<longleftrightarrow> 0 \<le> mp_stream_index p \<and> 0 \<le> mp_duration p
     \<and> is_valid_stream_format (mp_codec p) (mp_stream_format p) \<and> h S_media_packet = None \<and> q = p"
  by (auto simp: media_packet_create_def)

lemma video_processor_config_create_Inr:
  "video_processor_config_create h i out x y cw ch rot = Inr c \<longleftrightarrow>
     0 \<le> x \<and> 0 \<le> y \<and> 0 < cw \<and> 0 < ch \<and> x + cw \<le> vf_width i \<and> y + ch \<le> vf_height i
     \<and> is_rotation_degrees rot \<and> h S_processor_config = None
     \<and> c = \<lparr>pc_input = i, pc_output = out, pc_crop_x = x, pc_crop_y = y, pc_crop_width = cw,
            pc_crop_height = ch, pc_rotation = rot\<rparr>"
  by (auto simp: video_processor_config_create_def)

lemma video_encoder_config_create_Inr:
  "video_encoder_config_create h c = Inr d \<longleftrightarrow>
     is_video_codec (ec_codec c) \<and> 0 < ec_width c \<and> 0 < ec_height c \<and> 0 < ec_rate_num c \<and> 0 < ec_rate_den c
     \<and> 0 < tb_numerator (ec_time_base c) \<and> 0 < tb_denominator (ec_time_base c)
     \<and> 0 < ec_target_bitrate c \<and> ec_target_bitrate c \<le> ec_max_bitrate c \<and> 0 < ec_gop_length c
     \<and> 0 \<le> ec_b_frames c \<and> 0 \<le> ec_level c \<and> profile_matches_codec (ec_codec c) (ec_profile c)
     \<and> h S_encoder_config = None \<and> d = c"
  by (auto simp: video_encoder_config_create_def)

end
