(* ===== verification/Capability.thy ===== *)
theory Capability
  imports Media_Codec
begin

text \<open>
  \<open>src/media/capability.cpp\<close>: what a back end can do, how a request is matched against it and what
  the two agree on. Vectors are lists, the checked arithmetic is \<open>Checked_Arith\<close>; the
  \<open>throw std::bad_alloc\<close> of \<open>make_actual_format\<close> is the value \<open>None\<close> of its loop.
\<close>

datatype provider_kind = KindReference | kSoftware | kHardware
datatype video_processing_operation = kScaling | kCropping | kRotation | kFormatConversion

record dimension_range =
  dr_minimum :: int
  dr_maximum :: int
  dr_step :: int
  dr_alignment :: int

record plane_constraint =
  pcn_horizontal :: int
  pcn_vertical :: int
  pcn_bytes_per_sample :: size_t
  pcn_stride_alignment :: size_t
  pcn_offset_alignment :: size_t
  pcn_size_alignment :: size_t
  pcn_address_alignment :: size_t

record format_domain =
  fd_pixel :: pixel_format
  fd_domain :: memory_domain
  fd_constraints :: "plane_constraint list"

record selection_preferences =
  sp_preferred :: "string list"
  sp_prefer_hardware :: bool
  sp_prefer_zero_copy :: bool

record processor_request =
  pr_config :: video_processor_config
  pr_operations :: "video_processing_operation list"
  pr_input_alignment :: size_t
  pr_output_alignment :: size_t
  pr_require_zero_copy :: bool
  pr_required_provider :: string
  pr_preferences :: selection_preferences

record encoder_request =
  er_input :: video_format
  er_config :: video_encoder_config
  er_input_alignment :: size_t
  er_require_zero_copy :: bool
  er_required_provider :: string
  er_preferences :: selection_preferences

record processor_capability =
  pcap_input_width :: dimension_range
  pcap_input_height :: dimension_range
  pcap_output_width :: dimension_range
  pcap_output_height :: dimension_range
  pcap_input_formats :: "format_domain list"
  pcap_output_formats :: "format_domain list"
  pcap_operations :: "video_processing_operation list"
  pcap_zero_copy :: bool
  pcap_identical :: bool

record encoder_capability =
  ecap_width :: dimension_range
  ecap_height :: dimension_range
  ecap_codec :: codec_id
  ecap_profiles :: "codec_profile list"
  ecap_levels :: "int list"
  ecap_input_formats :: "format_domain list"
  ecap_rate_controls :: "rate_control_mode list"
  ecap_zero_copy :: bool

record processor_negotiation =
  pn_provider :: string
  pn_config :: video_processor_config
  pn_actual :: video_format
  pn_conversion :: bool
  pn_zero_copy :: bool

record encoder_negotiation =
  en_provider :: string
  en_config :: video_encoder_config
  en_actual :: video_format
  en_conversion :: bool
  en_zero_copy :: bool

datatype preference_score =
  Score (provider_rank: int) (kind_rank: int) (zero_copy_rank: int) (score_provider: string)

record provider_capability =
  cap_provider :: string
  cap_version :: string
  cap_device :: string
  cap_availability :: status
  cap_kind :: provider_kind
  cap_processors :: "processor_capability list"
  cap_encoders :: "encoder_capability list"
  cap_max_instances :: int
  cap_resources :: "string list"

subsection \<open>Ranges and constraints\<close>

definition mismatch :: "string \<Rightarrow> status" where
  "mismatch m = status_msg kCapabilityMismatch m"

definition align_int :: "int \<Rightarrow> int \<Rightarrow> int" where
  "align_int v a = c_div (v + a - 1) a * a"

definition range_valid :: "dimension_range \<Rightarrow> bool" where
  "range_valid r \<longleftrightarrow>
     \<not> (dr_minimum r \<le> 0 \<or> dr_maximum r < dr_minimum r \<or> dr_step r \<le> 0 \<or> dr_alignment r \<le> 0)
     \<and> align_int (dr_minimum r) (dr_alignment r) \<le> dr_maximum r"

definition range_contains :: "dimension_range \<Rightarrow> int \<Rightarrow> bool" where
  "range_contains r v \<longleftrightarrow>
     \<not> (\<not> range_valid r \<or> v < dr_minimum r \<or> v > dr_maximum r \<or> c_mod (v - dr_minimum r) (dr_step r) \<noteq> 0)
     \<and> align_int v (dr_alignment r) \<le> dr_maximum r"

definition constraint_valid :: "plane_constraint \<Rightarrow> bool" where
  "constraint_valid c \<longleftrightarrow> pcn_horizontal c > 0 \<and> pcn_vertical c > 0 \<and> pcn_bytes_per_sample c > 0
     \<and> pcn_stride_alignment c > 0 \<and> pcn_offset_alignment c > 0 \<and> pcn_size_alignment c > 0
     \<and> pcn_address_alignment c > 0"

definition format_domain_valid :: "format_domain \<Rightarrow> bool" where
  "format_domain_valid f =
     (case fd_pixel f of
        PixelUnknown \<Rightarrow> False
      | kYuyv422 \<Rightarrow> length (fd_constraints f) = 1 \<and> list_all constraint_valid (fd_constraints f)
      | kRgb24 \<Rightarrow> length (fd_constraints f) = 1 \<and> list_all constraint_valid (fd_constraints f)
      | kNv12 \<Rightarrow> length (fd_constraints f) = 2 \<and> list_all constraint_valid (fd_constraints f)
      | kYuv420p \<Rightarrow> length (fd_constraints f) = 3 \<and> list_all constraint_valid (fd_constraints f))"

fun find_format :: "format_domain list \<Rightarrow> pixel_format \<Rightarrow> memory_domain \<Rightarrow> format_domain option" where
  "find_format [] p d = None"
| "find_format (f # fs) p d = (if fd_pixel f = p \<and> fd_domain f = d then Some f else find_format fs p d)"

fun alignment_each :: "buffer \<Rightarrow> nat \<Rightarrow> plane_constraint list \<Rightarrow> status" where
  "alignment_each b i [] = ok_status"
| "alignment_each b i (c # cs) =
     (case plane_address_alignment b i of
        Inl s \<Rightarrow> s
      | Inr a \<Rightarrow> if a mod pcn_address_alignment c \<noteq> 0
               then mismatch ''submitted frame plane address alignment is unsupported''
               else alignment_each b (Suc i) cs)"

definition validate_frame_plane_alignment :: "video_frame \<Rightarrow> format_domain \<Rightarrow> status" where
  "validate_frame_plane_alignment f req =
     (if \<not> format_domain_valid req then mismatch ''provider has invalid frame plane alignment constraints''
      else if vf_pixel (vfr_format f) \<noteq> fd_pixel req \<or> vf_domain (vfr_format f) \<noteq> fd_domain req
           \<or> plane_count (vfr_buffer f) \<noteq> length (fd_constraints req)
      then mismatch ''submitted frame format does not match alignment constraints''
      else alignment_each (vfr_buffer f) 0 (fd_constraints req))"

subsection \<open>Plane layouts\<close>

definition plane_address_is_proven :: "plane_constraint \<Rightarrow> plane_layout \<Rightarrow> size_t \<Rightarrow> bool" where
  "plane_address_is_proven c p a \<longleftrightarrow>
     (if pcn_address_alignment c = 1 then True
      else a \<noteq> 0 \<and> a mod pcn_address_alignment c = 0 \<and> pl_offset p mod pcn_address_alignment c = 0)"

text \<open>The inner loop: the plane against the planes before it.\<close>

fun clear_of :: "plane_layout \<Rightarrow> plane_layout list \<Rightarrow> bool" where
  "clear_of plane [] = True"
| "clear_of plane (previous # rest) =
     (if pl_offset previous > size_max - pl_size previous then False
      else if pl_offset plane < pl_offset previous + pl_size previous
           \<and> pl_offset previous < pl_offset plane + pl_size plane then False
      else clear_of plane rest)"

definition plane_layout_matches ::
  "size_t \<Rightarrow> size_t \<Rightarrow> size_t \<Rightarrow> plane_layout \<Rightarrow> plane_constraint \<Rightarrow> bool" where
  "plane_layout_matches storage_width storage_height a plane c =
     (let horizontal = size_of_int (pcn_horizontal c); vertical = size_of_int (pcn_vertical c)
      in case checked_add storage_width (horizontal - 1) of
           None \<Rightarrow> False
         | Some samples0 \<Rightarrow>
             (case checked_multiply (samples0 div horizontal) (pcn_bytes_per_sample c) of
                None \<Rightarrow> False
              | Some minimum_stride \<Rightarrow>
                  (case align_up minimum_stride (pcn_stride_alignment c) of
                     None \<Rightarrow> False
                   | Some aligned_stride \<Rightarrow>
                       if pl_stride plane < aligned_stride
                          \<or> pl_stride plane mod pcn_stride_alignment c \<noteq> 0
                          \<or> pl_offset plane mod pcn_offset_alignment c \<noteq> 0
                          \<or> pl_size plane mod pcn_size_alignment c \<noteq> 0
                          \<or> \<not> plane_address_is_proven c plane a
                       then False
                       else (case checked_add storage_height (vertical - 1) of
                               None \<Rightarrow> False
                             | Some rows0 \<Rightarrow>
                                 (case checked_multiply (pl_stride plane) (rows0 div vertical) of
                                    None \<Rightarrow> False
                                  | Some required_size \<Rightarrow> \<not> pl_size plane < required_size)))))"

fun layout_planes_match ::
  "size_t \<Rightarrow> size_t \<Rightarrow> size_t \<Rightarrow> plane_layout list \<Rightarrow> plane_layout list \<Rightarrow> plane_constraint list \<Rightarrow> bool" where
  "layout_planes_match sw sh a prev [] cs = True"
| "layout_planes_match sw sh a prev (p # ps) (c # cs) =
     (if pl_offset p > size_max - pl_size p then False
      else if \<not> clear_of p prev then False
      else if \<not> plane_layout_matches sw sh a p c then False
      else layout_planes_match sw sh a (prev @ [p]) ps cs)"
| "layout_planes_match sw sh a prev (p # ps) [] = False"

definition layout_matches ::
  "video_format \<Rightarrow> format_domain \<Rightarrow> dimension_range \<Rightarrow> dimension_range \<Rightarrow> size_t \<Rightarrow> bool" where
  "layout_matches f cap wr hr a =
     (if \<not> format_domain_valid cap \<or> length (vf_planes f) \<noteq> length (fd_constraints cap)
         \<or> \<not> range_contains wr (vf_width f) \<or> \<not> range_contains hr (vf_height f)
      then False
      else case align_up (size_of_int (vf_width f)) (size_of_int (dr_alignment wr)) of
             None \<Rightarrow> False
           | Some sw \<Rightarrow>
               (case align_up (size_of_int (vf_height f)) (size_of_int (dr_alignment hr)) of
                  None \<Rightarrow> False
                | Some sh \<Rightarrow> layout_planes_match sw sh a [] (vf_planes f) (fd_constraints cap)))"

text \<open>One round of the loop: the plane and the next free offset.\<close>

definition actual_plane ::
  "size_t \<Rightarrow> size_t \<Rightarrow> size_t \<Rightarrow> plane_constraint \<Rightarrow> (plane_layout \<times> size_t) option" where
  "actual_plane storage_width storage_height next_offset c =
     (let horizontal = size_of_int (pcn_horizontal c); vertical = size_of_int (pcn_vertical c)
      in case checked_add storage_width (horizontal - 1) of
           None \<Rightarrow> None
         | Some samples0 \<Rightarrow>
         (case checked_multiply (samples0 div horizontal) (pcn_bytes_per_sample c) of
            None \<Rightarrow> None
          | Some stride0 \<Rightarrow>
          (case align_up stride0 (pcn_stride_alignment c) of
             None \<Rightarrow> None
           | Some stride \<Rightarrow>
           (case checked_add storage_height (vertical - 1) of
              None \<Rightarrow> None
            | Some rows0 \<Rightarrow>
            (case checked_multiply stride (rows0 div vertical) of
               None \<Rightarrow> None
             | Some size0 \<Rightarrow>
             (case align_up size0 (pcn_size_alignment c) of
                None \<Rightarrow> None
              | Some size1 \<Rightarrow>
              (case least_common_multiple (pcn_offset_alignment c) (pcn_address_alignment c) of
                 None \<Rightarrow> None
               | Some offset_alignment \<Rightarrow>
               (case align_up next_offset offset_alignment of
                  None \<Rightarrow> None
                | Some offset \<Rightarrow>
                (case checked_add offset size1 of
                   None \<Rightarrow> None
                 | Some next_offset' \<Rightarrow> Some (plane_layout_of offset size1 stride, next_offset'))))))))))"

fun actual_planes :: "size_t \<Rightarrow> size_t \<Rightarrow> size_t \<Rightarrow> plane_constraint list \<Rightarrow> plane_layout list option" where
  "actual_planes sw sh next_offset [] = Some []"
| "actual_planes sw sh next_offset (c # cs) =
     (case actual_plane sw sh next_offset c of
        None \<Rightarrow> None
      | Some (p, next_offset') \<Rightarrow>
          (case actual_planes sw sh next_offset' cs of None \<Rightarrow> None | Some ps \<Rightarrow> Some (p # ps)))"

definition make_actual_format ::
  "throws \<Rightarrow> video_format \<Rightarrow> format_domain \<Rightarrow> dimension_range \<Rightarrow> dimension_range \<Rightarrow> video_format result" where
  "make_actual_format h requested cap wr hr =
     (if \<not> format_domain_valid cap then err (mismatch ''capability plane layout constraints are invalid'')
      else case (align_up (size_of_int (vf_width requested)) (size_of_int (dr_alignment wr)),
                 align_up (size_of_int (vf_height requested)) (size_of_int (dr_alignment hr))) of
             (Some sw, Some sh) \<Rightarrow>
               (case (if h S_actual_format = None then actual_planes sw sh 0 (fd_constraints cap) else None) of
                  None \<Rightarrow> err (status_msg kResourceExhausted ''failed to create aligned video plane layout'')
                | Some planes \<Rightarrow>
                    video_format_create h (vf_pixel requested) (vf_width requested) (vf_height requested)
                      (vf_domain requested) planes (vf_range requested) (vf_primaries requested)
                      (vf_transfer requested) (vf_matrix requested))
           | _ \<Rightarrow> err (status_msg kResourceExhausted
                        ''video format storage extent overflows capability representation''))"

subsection \<open>Matching\<close>

definition same_plane_layout :: "plane_layout \<Rightarrow> plane_layout \<Rightarrow> bool" where
  "same_plane_layout l r \<longleftrightarrow> pl_offset l = pl_offset r \<and> pl_size l = pl_size r \<and> pl_stride l = pl_stride r"

definition same_video_format :: "video_format \<Rightarrow> video_format \<Rightarrow> bool" where
  "same_video_format l r \<longleftrightarrow>
     vf_pixel l = vf_pixel r \<and> vf_width l = vf_width r \<and> vf_height l = vf_height r
     \<and> vf_domain l = vf_domain r \<and> vf_range l = vf_range r \<and> vf_primaries l = vf_primaries r
     \<and> vf_transfer l = vf_transfer r \<and> vf_matrix l = vf_matrix r
     \<and> list_all2 same_plane_layout (vf_planes l) (vf_planes r)"

fun operation_name :: "video_processing_operation \<Rightarrow> string" where
  "operation_name kScaling = ''scaling''"
| "operation_name kCropping = ''cropping''"
| "operation_name kRotation = ''rotation''"
| "operation_name kFormatConversion = ''format conversion''"

fun requires_operation :: "video_processor_config \<Rightarrow> video_processing_operation \<Rightarrow> bool" where
  "requires_operation c kScaling \<longleftrightarrow>
     (let swaps_axes = pc_rotation c = 90 \<or> pc_rotation c = 270;
          rotated_width = if swaps_axes then pc_crop_height c else pc_crop_width c;
          rotated_height = if swaps_axes then pc_crop_width c else pc_crop_height c
      in rotated_width \<noteq> vf_width (pc_output c) \<or> rotated_height \<noteq> vf_height (pc_output c))"
| "requires_operation c kCropping \<longleftrightarrow>
     pc_crop_x c \<noteq> 0 \<or> pc_crop_y c \<noteq> 0 \<or> pc_crop_width c \<noteq> vf_width (pc_input c)
     \<or> pc_crop_height c \<noteq> vf_height (pc_input c)"
| "requires_operation c kRotation \<longleftrightarrow> pc_rotation c \<noteq> 0"
| "requires_operation c kFormatConversion \<longleftrightarrow> vf_pixel (pc_input c) \<noteq> vf_pixel (pc_output c)"

definition check_operation :: "video_processing_operation list \<Rightarrow> video_processing_operation \<Rightarrow> status" where
  "check_operation supported op =
     (if op \<notin> set supported
      then mismatch (''video processor does not support required '' @ operation_name op)
      else ok_status)"

fun check_operations :: "video_processing_operation list \<Rightarrow> video_processing_operation list \<Rightarrow> status" where
  "check_operations supported [] = ok_status"
| "check_operations supported (op # ops) =
     (let s = check_operation supported op in if \<not> st_ok s then s else check_operations supported ops)"

definition inferred_operations :: "video_processor_config \<Rightarrow> video_processing_operation list" where
  "inferred_operations c = filter (requires_operation c) [kScaling, kCropping, kRotation, kFormatConversion]"

definition processor_conversion :: "processor_capability \<Rightarrow> processor_request \<Rightarrow> bool" where
  "processor_conversion cap r =
     (let c = pr_config r
      in case find_format (pcap_input_formats cap) (vf_pixel (pc_input c)) (vf_domain (pc_input c)) of
           None \<Rightarrow> True
         | Some i \<Rightarrow>
             (case find_format (pcap_output_formats cap) (vf_pixel (pc_output c)) (vf_domain (pc_output c)) of
                None \<Rightarrow> True
              | Some out \<Rightarrow>
                  \<not> layout_matches (pc_input c) i (pcap_input_width cap) (pcap_input_height cap) (pr_input_alignment r)
                  \<or> \<not> layout_matches (pc_output c) out (pcap_output_width cap) (pcap_output_height cap)
                       (pr_output_alignment r)))"

definition processor_zero_copy :: "processor_capability \<Rightarrow> processor_request \<Rightarrow> bool" where
  "processor_zero_copy cap r \<longleftrightarrow> pcap_zero_copy cap \<and> \<not> processor_conversion cap r"

definition processor_match :: "processor_capability \<Rightarrow> processor_request \<Rightarrow> status" where
  "processor_match cap r =
     (if \<not> range_valid (pcap_input_width cap) \<or> \<not> range_valid (pcap_input_height cap)
         \<or> \<not> range_valid (pcap_output_width cap) \<or> \<not> range_valid (pcap_output_height cap)
      then mismatch ''video processor capability has an invalid dimension range''
      else let c = pr_config r in
      if pcap_identical cap \<and> \<not> same_video_format (pc_input c) (pc_output c)
      then mismatch ''video processor requires identical input and output formats''
      else if \<not> range_contains (pcap_input_width cap) (vf_width (pc_input c))
           \<or> \<not> range_contains (pcap_input_height cap) (vf_height (pc_input c))
      then mismatch ''video processor input dimensions are outside capability''
      else if \<not> range_contains (pcap_output_width cap) (vf_width (pc_output c))
           \<or> \<not> range_contains (pcap_output_height cap) (vf_height (pc_output c))
      then mismatch ''video processor output dimensions are outside capability''
      else case find_format (pcap_input_formats cap) (vf_pixel (pc_input c)) (vf_domain (pc_input c)) of
        None \<Rightarrow> mismatch ''video processor input pixel format or memory domain is unsupported''
      | Some i \<Rightarrow>
      (case find_format (pcap_output_formats cap) (vf_pixel (pc_output c)) (vf_domain (pc_output c)) of
        None \<Rightarrow> mismatch ''video processor output pixel format or memory domain is unsupported''
      | Some out \<Rightarrow>
      if \<not> format_domain_valid i \<or> \<not> format_domain_valid out
      then mismatch ''video processor capability has invalid plane layout constraints''
      else let s = check_operations (pcap_operations cap) (pr_operations r) in
      if \<not> st_ok s then s
      else let s = check_operations (pcap_operations cap) (inferred_operations c) in
      if \<not> st_ok s then s
      else if pr_require_zero_copy r \<and> \<not> pcap_zero_copy cap
      then mismatch ''video processor does not support required zero-copy''
      else if pr_require_zero_copy r \<and> processor_conversion cap r
      then mismatch ''required zero-copy video processor plane layout or address alignment is unsupported''
      else ok_status))"

definition negotiated_config :: "throws \<Rightarrow> processor_capability \<Rightarrow> processor_request \<Rightarrow> video_processor_config result" where
  "negotiated_config h cap r =
     (let s = processor_match cap r in
      if \<not> st_ok s then err s
      else let c = pr_config r in
      if \<not> processor_conversion cap r then Inr c
      else case make_actual_format h (pc_input c)
                  (the (find_format (pcap_input_formats cap) (vf_pixel (pc_input c)) (vf_domain (pc_input c))))
                  (pcap_input_width cap) (pcap_input_height cap) of
             Inl e \<Rightarrow> err e
           | Inr actual_input \<Rightarrow>
               (case make_actual_format h (pc_output c)
                       (the (find_format (pcap_output_formats cap) (vf_pixel (pc_output c)) (vf_domain (pc_output c))))
                       (pcap_output_width cap) (pcap_output_height cap) of
                  Inl e \<Rightarrow> err e
                | Inr actual_output \<Rightarrow>
                    video_processor_config_create h actual_input actual_output (pc_crop_x c) (pc_crop_y c)
                      (pc_crop_width c) (pc_crop_height c) (pc_rotation c)))"

definition encoder_conversion :: "encoder_capability \<Rightarrow> encoder_request \<Rightarrow> bool" where
  "encoder_conversion cap r =
     (case find_format (ecap_input_formats cap) (vf_pixel (er_input r)) (vf_domain (er_input r)) of
        None \<Rightarrow> True
      | Some i \<Rightarrow> \<not> layout_matches (er_input r) i (ecap_width cap) (ecap_height cap) (er_input_alignment r))"

definition encoder_zero_copy :: "encoder_capability \<Rightarrow> encoder_request \<Rightarrow> bool" where
  "encoder_zero_copy cap r \<longleftrightarrow> ecap_zero_copy cap \<and> \<not> encoder_conversion cap r"

definition encoder_match :: "encoder_capability \<Rightarrow> encoder_request \<Rightarrow> status" where
  "encoder_match cap r =
     (let c = er_config r in
      if \<not> range_valid (ecap_width cap) \<or> \<not> range_valid (ecap_height cap)
      then mismatch ''video encoder capability has an invalid dimension range''
      else if \<not> range_contains (ecap_width cap) (ec_width c) \<or> \<not> range_contains (ecap_height cap) (ec_height c)
      then mismatch ''video encoder dimensions are outside capability''
      else if vf_width (er_input r) \<noteq> ec_width c \<or> vf_height (er_input r) \<noteq> ec_height c
      then mismatch ''video encoder input dimensions do not match required configuration''
      else case find_format (ecap_input_formats cap) (vf_pixel (er_input r)) (vf_domain (er_input r)) of
        None \<Rightarrow> mismatch ''video encoder input pixel format or memory domain is unsupported''
      | Some i \<Rightarrow>
      if \<not> format_domain_valid i
      then mismatch ''video encoder capability has invalid plane layout constraints''
      else if ec_codec c \<noteq> ecap_codec cap then mismatch ''video encoder codec is unsupported''
      else if ec_profile c \<notin> set (ecap_profiles cap)
      then mismatch ''video encoder codec/profile combination is unsupported''
      else if ec_level c \<notin> set (ecap_levels cap) then mismatch ''video encoder level is unsupported''
      else if ec_rate_control c \<notin> set (ecap_rate_controls cap)
      then mismatch ''video encoder rate control mode is unsupported''
      else if er_require_zero_copy r \<and> \<not> ecap_zero_copy cap
      then mismatch ''video encoder does not support required zero-copy''
      else if er_require_zero_copy r \<and> encoder_conversion cap r
      then mismatch ''required zero-copy video encoder plane layout or address alignment is unsupported''
      else ok_status)"

definition actual_input_format :: "throws \<Rightarrow> encoder_capability \<Rightarrow> encoder_request \<Rightarrow> video_format result" where
  "actual_input_format h cap r =
     (let s = encoder_match cap r in
      if \<not> st_ok s then err s
      else if \<not> encoder_conversion cap r then Inr (er_input r)
      else make_actual_format h (er_input r)
             (the (find_format (ecap_input_formats cap) (vf_pixel (er_input r)) (vf_domain (er_input r))))
             (ecap_width cap) (ecap_height cap))"

end
