(* ===== verification/Provider.thy ===== *)
theory Provider
  imports Capability
begin

text \<open>
  The second half of \<open>src/media/capability.cpp\<close>: \<open>ProviderCapability\<close>, which matches, negotiates
  and scores a request with the first of its capabilities that fits. The code has each function
  once for processors and once for encoders; the common loop is a function of the capability's
  own functions.
\<close>

fun preferred_rank_from :: "int \<Rightarrow> string list \<Rightarrow> string \<Rightarrow> int option" where
  "preferred_rank_from i [] p = None"
| "preferred_rank_from i (x # xs) p = (if x = p then Some i else preferred_rank_from (i + 1) xs p)"

definition preferred_provider_rank :: "string list \<Rightarrow> string \<Rightarrow> int" where
  "preferred_provider_rank preferred p =
     (case preferred_rank_from 0 preferred p of Some i \<Rightarrow> i | None \<Rightarrow> int (length preferred) + 1)"

definition provider_kind_rank :: "provider_kind \<Rightarrow> bool \<Rightarrow> int" where
  "provider_kind_rank k prefer_hardware =
     (if \<not> prefer_hardware then 0
      else case k of kHardware \<Rightarrow> 0 | kSoftware \<Rightarrow> 1 | KindReference \<Rightarrow> 2)"

definition required_provider_status :: "string \<Rightarrow> string \<Rightarrow> status" where
  "required_provider_status p required =
     (if required \<noteq> [] \<and> required \<noteq> p
      then mismatch ''candidate is not the explicitly required provider'' else ok_status)"

subsection \<open>The order of scores\<close>

definition score_less :: "preference_score \<Rightarrow> preference_score \<Rightarrow> bool" where
  "score_less a b =
     (if provider_rank a \<noteq> provider_rank b then provider_rank a < provider_rank b
      else if kind_rank a \<noteq> kind_rank b then kind_rank a < kind_rank b
      else if zero_copy_rank a \<noteq> zero_copy_rank b then zero_copy_rank a < zero_copy_rank b
      else score_provider a < score_provider b)"

instantiation preference_score :: linorder
begin

definition less_preference_score :: "preference_score \<Rightarrow> preference_score \<Rightarrow> bool" where
  "a < b \<longleftrightarrow> score_less a b"

definition less_eq_preference_score :: "preference_score \<Rightarrow> preference_score \<Rightarrow> bool" where
  "(a :: preference_score) \<le> b \<longleftrightarrow> a = b \<or> score_less a b"

instance
proof
  fix x y z :: preference_score
  show "x < y \<longleftrightarrow> x \<le> y \<and> \<not> y \<le> x"
    by (auto simp: less_preference_score_def less_eq_preference_score_def score_less_def
        split: if_splits)
  show "x \<le> x" by (simp add: less_eq_preference_score_def)
  show "x \<le> y \<Longrightarrow> y \<le> z \<Longrightarrow> x \<le> z"
    by (auto simp: less_eq_preference_score_def score_less_def split: if_splits)
  show "x \<le> y \<Longrightarrow> y \<le> x \<Longrightarrow> x = y"
    by (auto simp: less_eq_preference_score_def score_less_def split: if_splits)
  show "x \<le> y \<or> y \<le> x"
    by (cases x; cases y) (auto simp: less_eq_preference_score_def score_less_def)
qed

end

subsection \<open>The loop over a provider's capabilities\<close>

fun first_ok :: "('c \<Rightarrow> status) \<Rightarrow> 'c list \<Rightarrow> 'c option" where
  "first_ok m [] = None"
| "first_ok m (c # cs) = (if st_ok (m c) then Some c else first_ok m cs)"

definition provider_match ::
  "('c \<Rightarrow> status) \<Rightarrow> string \<Rightarrow> string \<Rightarrow> provider_capability \<Rightarrow> 'c list \<Rightarrow> status" where
  "provider_match m empty_message required p caps =
     (let s = required_provider_status (cap_provider p) required
      in if \<not> st_ok s then s
         else if \<not> st_ok (cap_availability p) then cap_availability p
         else case caps of
                [] \<Rightarrow> mismatch empty_message
              | c # cs \<Rightarrow>
                  let first_mismatch = m c
                  in if st_ok first_mismatch then first_mismatch
                     else case first_ok m cs of Some c' \<Rightarrow> m c' | None \<Rightarrow> first_mismatch)"

definition provider_match_processor :: "provider_capability \<Rightarrow> processor_request \<Rightarrow> status" where
  "provider_match_processor p r =
     provider_match (\<lambda>c. processor_match c r) ''provider has no video processor capability''
       (pr_required_provider r) p (cap_processors p)"

definition provider_match_encoder :: "provider_capability \<Rightarrow> encoder_request \<Rightarrow> status" where
  "provider_match_encoder p r =
     provider_match (\<lambda>c. encoder_match c r) ''provider has no video encoder capability''
       (er_required_provider r) p (cap_encoders p)"

definition provider_negotiate_processor ::
  "throws \<Rightarrow> provider_capability \<Rightarrow> processor_request \<Rightarrow> processor_negotiation result" where
  "provider_negotiate_processor h p r =
     (let s = provider_match_processor p r
      in if \<not> st_ok s then err s
         else case first_ok (\<lambda>c. processor_match c r) (cap_processors p) of
                None \<Rightarrow> err s
              | Some c \<Rightarrow>
                  (case negotiated_config h c r of
                     Inl e \<Rightarrow> err e
                   | Inr config \<Rightarrow>
                       catch_alloc h S_processor_negotiation
                         ''failed to create video processor negotiation result''
                         (Inr \<lparr>pn_provider = cap_provider p, pn_config = config,
                               pn_actual = pc_output config, pn_conversion = processor_conversion c r,
                               pn_zero_copy = processor_zero_copy c r\<rparr>)))"

definition provider_negotiate_encoder ::
  "throws \<Rightarrow> provider_capability \<Rightarrow> encoder_request \<Rightarrow> encoder_negotiation result" where
  "provider_negotiate_encoder h p r =
     (let s = provider_match_encoder p r
      in if \<not> st_ok s then err s
         else case first_ok (\<lambda>c. encoder_match c r) (cap_encoders p) of
                None \<Rightarrow> err s
              | Some c \<Rightarrow>
                  (case actual_input_format h c r of
                     Inl e \<Rightarrow> err e
                   | Inr actual \<Rightarrow>
                       catch_alloc h S_encoder_negotiation
                         ''failed to create video encoder negotiation result''
                         (Inr \<lparr>en_provider = cap_provider p, en_config = er_config r,
                               en_actual = actual, en_conversion = encoder_conversion c r,
                               en_zero_copy = encoder_zero_copy c r\<rparr>)))"

definition score_of ::
  "provider_capability \<Rightarrow> selection_preferences \<Rightarrow> bool \<Rightarrow> preference_score" where
  "score_of p prefs zero_copy =
     Score (preferred_provider_rank (sp_preferred prefs) (cap_provider p))
       (provider_kind_rank (cap_kind p) (sp_prefer_hardware prefs))
       (if sp_prefer_zero_copy prefs \<and> \<not> zero_copy then 1 else 0) (cap_provider p)"

definition preference_score_processor ::
  "throws \<Rightarrow> provider_capability \<Rightarrow> processor_request \<Rightarrow> preference_score result" where
  "preference_score_processor h p r =
     (let s = provider_match_processor p r
      in if \<not> st_ok s then err s
         else case first_ok (\<lambda>c. processor_match c r) (cap_processors p) of
                None \<Rightarrow> err s
              | Some c \<Rightarrow> catch_alloc h S_processor_score ''failed to create provider preference score''
                            (Inr (score_of p (pr_preferences r) (processor_zero_copy c r))))"

definition preference_score_encoder ::
  "throws \<Rightarrow> provider_capability \<Rightarrow> encoder_request \<Rightarrow> preference_score result" where
  "preference_score_encoder h p r =
     (let s = provider_match_encoder p r
      in if \<not> st_ok s then err s
         else case first_ok (\<lambda>c. encoder_match c r) (cap_encoders p) of
                None \<Rightarrow> err s
              | Some c \<Rightarrow> catch_alloc h S_encoder_score ''failed to create provider preference score''
                            (Inr (score_of p (er_preferences r) (encoder_zero_copy c r))))"

subsection \<open>Match and negotiation agree\<close>

lemma mismatch_not_ok [simp]: "\<not> st_ok (mismatch m)"
  by (simp add: mismatch_def status_msg_def st_ok_def)

lemma first_ok_Some: "first_ok m cs = Some c \<Longrightarrow> c \<in> set cs \<and> st_ok (m c)"
  by (induction cs) (auto split: if_splits)

lemma first_ok_None: "first_ok m cs = None \<longleftrightarrow> (\<forall>c \<in> set cs. \<not> st_ok (m c))"
  by (induction cs) auto

lemma provider_match_ok:
  "st_ok (provider_match m msg required p caps) \<longleftrightarrow>
     (required = [] \<or> required = cap_provider p) \<and> st_ok (cap_availability p)
     \<and> (\<exists>c. first_ok m caps = Some c)"
proof (cases caps)
  case Nil
  then show ?thesis
    by (auto simp: provider_match_def required_provider_status_def Let_def ok_status_ok)
next
  case (Cons c cs)
  then show ?thesis
    using first_ok_Some [of m cs]
    by (auto simp: provider_match_def required_provider_status_def Let_def ok_status_ok
        split: option.splits)
qed

lemma score_processor_ok:
  "st_ok (provider_match_processor p r) \<longleftrightarrow> (\<exists>s. preference_score_processor no_throw p r = Inr s)"
proof (cases "st_ok (provider_match_processor p r)")
  case True
  then obtain c where "first_ok (\<lambda>c. processor_match c r) (cap_processors p) = Some c"
    by (auto simp: provider_match_processor_def provider_match_ok)
  with True show ?thesis by (simp add: preference_score_processor_def)
qed (simp add: preference_score_processor_def)

lemma score_encoder_ok:
  "st_ok (provider_match_encoder p r) \<longleftrightarrow> (\<exists>s. preference_score_encoder no_throw p r = Inr s)"
proof (cases "st_ok (provider_match_encoder p r)")
  case True
  then obtain c where "first_ok (\<lambda>c. encoder_match c r) (cap_encoders p) = Some c"
    by (auto simp: provider_match_encoder_def provider_match_ok)
  with True show ?thesis by (simp add: preference_score_encoder_def)
qed (simp add: preference_score_encoder_def)

lemma score_processor_provider:
  "preference_score_processor h p r = Inr s \<Longrightarrow> score_provider s = cap_provider p"
  by (auto simp: preference_score_processor_def score_of_def Let_def split: if_splits option.splits)

lemma score_encoder_provider:
  "preference_score_encoder h p r = Inr s \<Longrightarrow> score_provider s = cap_provider p"
  by (auto simp: preference_score_encoder_def score_of_def Let_def split: if_splits option.splits)

lemma negotiate_processor_provider:
  "provider_negotiate_processor h p r = Inr n \<Longrightarrow>
     pn_provider n = cap_provider p \<and> st_ok (provider_match_processor p r)"
  by (auto simp: provider_negotiate_processor_def Let_def split: if_splits option.splits sum.splits)

lemma negotiate_encoder_provider:
  "provider_negotiate_encoder h p r = Inr n \<Longrightarrow>
     en_provider n = cap_provider p \<and> st_ok (provider_match_encoder p r)"
  by (auto simp: provider_negotiate_encoder_def Let_def split: if_splits option.splits sum.splits)

end
