(* ===== verification/Backend_Registry.thy ===== *)
theory Backend_Registry
  imports Provider Ordered_Map
begin

text \<open>
  \<open>src/media/backend_registry.cpp\<close>. A provider is an object \<open>'p\<close> outside the registry; the
  registry calls its virtual function \<open>probe\<close>, here an argument, at registration and again at each
  selection. The map of providers is ordered by id, as the loop over it is. What leaves a
  provider or the library by an exception is the argument \<open>h\<close>. The two selections of the code
  are the same loop over different functions; \<open>selection_ops\<close> names the functions.

  \<open>std::sort\<close> is a sort by score. It is not stable, but two candidates have the same score only if
  they report the same id.
\<close>

record 'p registry =
  rg_providers :: "(string, 'p) omap"
  rg_frozen :: bool

definition registry_new :: "'p registry" where
  "registry_new = \<lparr>rg_providers = [], rg_frozen = False\<rparr>"

definition register_provider ::
  "throws \<Rightarrow> ('p \<Rightarrow> provider_capability result) \<Rightarrow> 'p option \<Rightarrow> 'p registry \<Rightarrow> status \<times> 'p registry" where
  "register_provider h probe provider r =
     (if rg_frozen r then (status_msg kInvalidState ''backend registry is frozen'', r)
      else case provider of
        None \<Rightarrow> (status_msg kInvalidArgument ''backend provider must not be null'', r)
      | Some p \<Rightarrow>
          (case h S_register of
             Some e \<Rightarrow> (handled e, r)
           | None \<Rightarrow>
               (case probe p of
                  Inl s \<Rightarrow> (s, r)
                | Inr cap \<Rightarrow>
                    if cap_provider cap = []
                    then (status_msg kInvalidArgument ''backend provider id must not be empty'', r)
                    else if omap_find (rg_providers r) (cap_provider cap) \<noteq> None
                    then (status_msg kAlreadyExists ''backend provider id is already registered'', r)
                    else (ok_status, r\<lparr>rg_providers := omap_put (cap_provider cap) p (rg_providers r)\<rparr>))))"

definition registry_freeze :: "'p registry \<Rightarrow> status \<times> 'p registry" where
  "registry_freeze r = (ok_status, r\<lparr>rg_frozen := True\<rparr>)"

subsection \<open>Selection\<close>

record ('q, 'n) selection_ops =
  sel_match :: "provider_capability \<Rightarrow> 'q \<Rightarrow> status"
  sel_score :: "provider_capability \<Rightarrow> 'q \<Rightarrow> preference_score result"
  sel_negotiate :: "provider_capability \<Rightarrow> 'q \<Rightarrow> 'n result"

record ('p, 'n) selection =
  sl_provider :: 'p
  sl_negotiation :: 'n

record 'p candidate =
  cd_provider :: 'p
  cd_capability :: provider_capability
  cd_score :: preference_score

definition rejection_message :: "string \<Rightarrow> status \<Rightarrow> string" where
  "rejection_message i s = i @ '': '' @ (if st_message s = [] then ''provider rejected request'' else st_message s)"

definition append_rejection :: "string \<Rightarrow> string \<Rightarrow> status \<Rightarrow> string" where
  "append_rejection aggregate i s =
     (if aggregate \<noteq> [] then aggregate @ ''; '' else aggregate) @ rejection_message i s"

fun collect_candidates ::
  "('q, 'n) selection_ops \<Rightarrow> ('p \<Rightarrow> provider_capability result) \<Rightarrow> 'q \<Rightarrow> (string \<times> 'p) list \<Rightarrow>
     'p candidate list \<Rightarrow> string \<Rightarrow> ('p candidate list \<times> string) result" where
  "collect_candidates ops probe q [] candidates rejections = Inr (candidates, rejections)"
| "collect_candidates ops probe q (e # es) candidates rejections =
     (case probe (snd e) of
        Inl s \<Rightarrow> collect_candidates ops probe q es candidates (append_rejection rejections (fst e) s)
      | Inr cap \<Rightarrow>
          let matched = sel_match ops cap q
          in if \<not> st_ok matched
             then collect_candidates ops probe q es candidates (append_rejection rejections (fst e) matched)
             else case sel_score ops cap q of
                    Inl s \<Rightarrow> err s
                  | Inr score \<Rightarrow>
                      collect_candidates ops probe q es
                        (candidates @ [\<lparr>cd_provider = snd e, cd_capability = cap, cd_score = score\<rparr>]) rejections)"

definition select_required ::
  "('q, 'n) selection_ops \<Rightarrow> ('p \<Rightarrow> provider_capability result) \<Rightarrow> 'q \<Rightarrow> string \<Rightarrow> 'p registry \<Rightarrow>
     ('p, 'n) selection result" where
  "select_required ops probe q required r =
     (case omap_find (rg_providers r) required of
        None \<Rightarrow> err (status_msg kNotFound (''required backend provider is not registered: '' @ required))
      | Some p \<Rightarrow>
          (case probe p of
             Inl s \<Rightarrow> err s
           | Inr cap \<Rightarrow>
               let matched = sel_match ops cap q
               in if \<not> st_ok matched then err matched
                  else case sel_negotiate ops cap q of
                         Inl s \<Rightarrow> err s
                       | Inr n \<Rightarrow> Inr \<lparr>sl_provider = p, sl_negotiation = n\<rparr>))"

definition select_preferred ::
  "('q, 'n) selection_ops \<Rightarrow> ('p \<Rightarrow> provider_capability result) \<Rightarrow> string \<Rightarrow> 'q \<Rightarrow> 'p registry \<Rightarrow>
     ('p, 'n) selection result" where
  "select_preferred ops probe noun q r =
     (case collect_candidates ops probe q (rg_providers r) [] [] of
        Inl s \<Rightarrow> err s
      | Inr (candidates, rejections) \<Rightarrow>
          (case sort_key cd_score candidates of
             [] \<Rightarrow> err (mismatch (''no video '' @ noun @ '' provider matched: '' @
                     (if rejections = [] then ''no backend providers are registered'' else rejections)))
           | best # _ \<Rightarrow>
               (case sel_negotiate ops (cd_capability best) q of
                  Inl s \<Rightarrow> err s
                | Inr n \<Rightarrow> Inr \<lparr>sl_provider = cd_provider best, sl_negotiation = n\<rparr>)))"

definition processor_ops :: "throws \<Rightarrow> (processor_request, processor_negotiation) selection_ops" where
  "processor_ops h = \<lparr>sel_match = provider_match_processor, sel_score = preference_score_processor h,
     sel_negotiate = provider_negotiate_processor h\<rparr>"

definition encoder_ops :: "throws \<Rightarrow> (encoder_request, encoder_negotiation) selection_ops" where
  "encoder_ops h = \<lparr>sel_match = provider_match_encoder, sel_score = preference_score_encoder h,
     sel_negotiate = provider_negotiate_encoder h\<rparr>"

definition select_video_processor ::
  "throws \<Rightarrow> ('p \<Rightarrow> provider_capability result) \<Rightarrow> processor_request \<Rightarrow> 'p registry \<Rightarrow>
     ('p, processor_negotiation) selection result" where
  "select_video_processor h probe q r = catch_all h S_select_processor
     (if pr_required_provider q \<noteq> []
      then select_required (processor_ops h) probe q (pr_required_provider q) r
      else select_preferred (processor_ops h) probe ''processor'' q r)"

definition select_video_encoder ::
  "throws \<Rightarrow> ('p \<Rightarrow> provider_capability result) \<Rightarrow> encoder_request \<Rightarrow> 'p registry \<Rightarrow>
     ('p, encoder_negotiation) selection result" where
  "select_video_encoder h probe q r = catch_all h S_select_encoder
     (if er_required_provider q \<noteq> []
      then select_required (encoder_ops h) probe q (er_required_provider q) r
      else select_preferred (encoder_ops h) probe ''encoder'' q r)"

subsection \<open>The contract of selection\<close>

definition eligible :: "('q, 'n) selection_ops \<Rightarrow> ('p \<Rightarrow> provider_capability result) \<Rightarrow> 'q \<Rightarrow> 'p \<Rightarrow> provider_capability \<Rightarrow> bool" where
  "eligible ops probe q p cap \<longleftrightarrow> probe p = Inr cap \<and> st_ok (sel_match ops cap q)"

locale selector =
  fixes ops :: "('q, 'n) selection_ops"
    and negotiated_provider :: "'n \<Rightarrow> string"
  assumes score_total: "st_ok (sel_match ops cap q) \<Longrightarrow> \<exists>s. sel_score ops cap q = Inr s"
    and score_names: "sel_score ops cap q = Inr s \<Longrightarrow> score_provider s = cap_provider cap"
    and negotiate_names: "sel_negotiate ops cap q = Inr n \<Longrightarrow>
        negotiated_provider n = cap_provider cap \<and> st_ok (sel_match ops cap q)"
begin

lemma collect_total:
  "\<exists>cs rej. collect_candidates ops probe q es cands rejections = Inr (cands @ cs, rej)
     \<and> set cs = {c. \<exists>e \<in> set es. cd_provider c = snd e \<and> eligible ops probe q (snd e) (cd_capability c)
                  \<and> sel_score ops (cd_capability c) q = Inr (cd_score c)}"
proof (induction es arbitrary: cands rejections)
  case (Cons e es)
  let ?here = "{c. cd_provider c = snd e \<and> eligible ops probe q (snd e) (cd_capability c)
                  \<and> sel_score ops (cd_capability c) q = Inr (cd_score c)}"
  show ?case
  proof (cases "\<exists>cap. eligible ops probe q (snd e) cap")
    case False
    then have none: "?here = {}" by blast
    obtain rej' where step: "collect_candidates ops probe q (e # es) cands rejections
        = collect_candidates ops probe q es cands rej'"
      using False by (cases "probe (snd e)") (auto simp: eligible_def Let_def)
    show ?thesis using Cons.IH [of cands rej'] none unfolding step by auto
  next
    case True
    then obtain cap where cap: "probe (snd e) = Inr cap" "st_ok (sel_match ops cap q)"
      by (auto simp: eligible_def)
    obtain s where s: "sel_score ops cap q = Inr s" using score_total [OF cap(2)] by blast
    let ?c = "\<lparr>cd_provider = snd e, cd_capability = cap, cd_score = s\<rparr>"
    have here: "?here = {?c}" using cap s by (auto simp: eligible_def)
    have step: "collect_candidates ops probe q (e # es) cands rejections
        = collect_candidates ops probe q es (cands @ [?c]) rejections"
      using cap s by simp
    obtain cs rej where "collect_candidates ops probe q es (cands @ [?c]) rejections = Inr ((cands @ [?c]) @ cs, rej)"
      "set cs = {c. \<exists>e \<in> set es. cd_provider c = snd e \<and> eligible ops probe q (snd e) (cd_capability c)
                  \<and> sel_score ops (cd_capability c) q = Inr (cd_score c)}"
      using Cons.IH by blast
    then show ?thesis using here unfolding step by (intro exI [of _ "?c # cs"] exI [of _ rej]) auto
  qed
qed simp

lemma sort_key_head: "sort_key f xs = x # ys \<Longrightarrow> x \<in> set xs \<and> (\<forall>y \<in> set xs. f x \<le> f y)"
proof -
  assume a: "sort_key f xs = x # ys"
  have "sorted (map f (x # ys))" unfolding a [symmetric] by (rule sorted_sort_key)
  moreover have "set (x # ys) = set xs" unfolding a [symmetric] by simp
  ultimately show ?thesis by auto
qed

text \<open>The provider selected is registered, fits and has the least score of all that fit.\<close>

lemma select_preferred_best:
  assumes "select_preferred ops probe noun q r = Inr sel"
  shows "\<exists>i cap s. (i, sl_provider sel) \<in> set (rg_providers r) \<and> eligible ops probe q (sl_provider sel) cap
    \<and> sel_score ops cap q = Inr s \<and> sel_negotiate ops cap q = Inr (sl_negotiation sel)
    \<and> (\<forall>j p cap' s'. (j, p) \<in> set (rg_providers r) \<longrightarrow> eligible ops probe q p cap' \<longrightarrow>
         sel_score ops cap' q = Inr s' \<longrightarrow> s \<le> s')"
proof -
  obtain cs rej where c: "collect_candidates ops probe q (rg_providers r) [] [] = Inr (cs, rej)"
    and set: "set cs = {c. \<exists>e \<in> set (rg_providers r). cd_provider c = snd e
        \<and> eligible ops probe q (snd e) (cd_capability c) \<and> sel_score ops (cd_capability c) q = Inr (cd_score c)}"
    using collect_total [of probe q "rg_providers r" "[]" "[]"] by auto
  obtain best rest where best: "sort_key cd_score cs = best # rest"
    and neg: "sel_negotiate ops (cd_capability best) q = Inr (sl_negotiation sel)"
    and sel: "sl_provider sel = cd_provider best"
    using assms c by (auto simp: select_preferred_def split: list.splits sum.splits)
  have head: "best \<in> set cs" "\<And>y. y \<in> set cs \<Longrightarrow> cd_score best \<le> cd_score y"
    using sort_key_head [OF best] by blast+
  from head(1) obtain e where e: "e \<in> set (rg_providers r)" "cd_provider best = snd e"
    "eligible ops probe q (snd e) (cd_capability best)" "sel_score ops (cd_capability best) q = Inr (cd_score best)"
    unfolding set by blast
  have least: "cd_score best \<le> s'"
    if "(j, p) \<in> set (rg_providers r)" "eligible ops probe q p cap'" "sel_score ops cap' q = Inr s'" for j p cap' s'
  proof -
    have "\<lparr>cd_provider = p, cd_capability = cap', cd_score = s'\<rparr> \<in> set cs"
      unfolding set using that by force
    from head(2) [OF this] show ?thesis by simp
  qed
  show ?thesis
    using e neg sel least by (intro exI [of _ "fst e"] exI [of _ "cd_capability best"] exI [of _ "cd_score best"]) auto
qed

text \<open>With no provider that fits, the selection fails and says so.\<close>

lemma select_preferred_none:
  assumes "\<forall>(i, p) \<in> set (rg_providers r). \<forall>cap. \<not> eligible ops probe q p cap"
  shows "\<exists>m. select_preferred ops probe noun q r = err (mismatch m)"
proof -
  obtain cs rej where c: "collect_candidates ops probe q (rg_providers r) [] [] = Inr (cs, rej)"
    and set: "set cs = {c. \<exists>e \<in> set (rg_providers r). cd_provider c = snd e
        \<and> eligible ops probe q (snd e) (cd_capability c) \<and> sel_score ops (cd_capability c) q = Inr (cd_score c)}"
    using collect_total [of probe q "rg_providers r" "[]" "[]"] by auto
  have "set cs = {}" unfolding set using assms by force
  then have "cs = []" by simp
  with c show ?thesis
    unfolding select_preferred_def by (simp only: sum.case prod.case sort_key_simps list.case) blast
qed

end

interpretation psel: selector "processor_ops no_throw" pn_provider
proof
  fix cap q s n
  show "st_ok (sel_match (processor_ops no_throw) cap q) \<Longrightarrow> \<exists>s. sel_score (processor_ops no_throw) cap q = Inr s"
    by (simp add: processor_ops_def score_processor_ok)
  show "sel_score (processor_ops no_throw) cap q = Inr s \<Longrightarrow> score_provider s = cap_provider cap"
    by (simp add: processor_ops_def score_processor_provider)
  show "sel_negotiate (processor_ops no_throw) cap q = Inr n \<Longrightarrow>
      pn_provider n = cap_provider cap \<and> st_ok (sel_match (processor_ops no_throw) cap q)"
    by (simp add: processor_ops_def negotiate_processor_provider)
qed

interpretation esel: selector "encoder_ops no_throw" en_provider
proof
  fix cap q s n
  show "st_ok (sel_match (encoder_ops no_throw) cap q) \<Longrightarrow> \<exists>s. sel_score (encoder_ops no_throw) cap q = Inr s"
    by (simp add: encoder_ops_def score_encoder_ok)
  show "sel_score (encoder_ops no_throw) cap q = Inr s \<Longrightarrow> score_provider s = cap_provider cap"
    by (simp add: encoder_ops_def score_encoder_provider)
  show "sel_negotiate (encoder_ops no_throw) cap q = Inr n \<Longrightarrow>
      en_provider n = cap_provider cap \<and> st_ok (sel_match (encoder_ops no_throw) cap q)"
    by (simp add: encoder_ops_def negotiate_encoder_provider)
qed


definition any_capability :: "string \<Rightarrow> provider_capability" where
  "any_capability i = \<lparr>cap_provider = i, cap_version = [], cap_device = [], cap_availability = ok_status,
     cap_kind = kSoftware, cap_processors = [], cap_encoders = [], cap_max_instances = 1, cap_resources = []\<rparr>"

definition any_format :: video_format where
  "any_format = \<lparr>vf_pixel = kRgb24, vf_width = 2, vf_height = 1, vf_domain = kCpu,
     vf_planes = [plane_layout_of 0 6 6], vf_range = RangeUnknown, vf_primaries = PrimariesUnknown,
     vf_transfer = TransferUnknown, vf_matrix = MatrixUnknown\<rparr>"

definition any_preferences :: selection_preferences where
  "any_preferences = \<lparr>sp_preferred = [''b''], sp_prefer_hardware = True, sp_prefer_zero_copy = False\<rparr>"

definition any_range :: dimension_range where
  "any_range = \<lparr>dr_minimum = 1, dr_maximum = 64, dr_step = 1, dr_alignment = 1\<rparr>"

definition any_domain :: format_domain where
  "any_domain = \<lparr>fd_pixel = kRgb24, fd_domain = kCpu, fd_constraints =
     [\<lparr>pcn_horizontal = 1, pcn_vertical = 1, pcn_bytes_per_sample = 3, pcn_stride_alignment = 1,
       pcn_offset_alignment = 1, pcn_size_alignment = 1, pcn_address_alignment = 1\<rparr>]\<rparr>"

definition any_processor_request :: processor_request where
  "any_processor_request = \<lparr>pr_config = \<lparr>pc_input = any_format, pc_output = any_format, pc_crop_x = 0,
       pc_crop_y = 0, pc_crop_width = 2, pc_crop_height = 1, pc_rotation = 0\<rparr>,
     pr_operations = [], pr_input_alignment = 1, pr_output_alignment = 1, pr_require_zero_copy = False,
     pr_required_provider = [], pr_preferences = any_preferences\<rparr>"

definition any_encoder_request :: encoder_request where
  "any_encoder_request = \<lparr>er_input = any_format,
     er_config = \<lparr>ec_codec = kH264, ec_width = 2, ec_height = 1, ec_rate_num = 25, ec_rate_den = 1,
       ec_time_base = \<lparr>tb_numerator = 1, tb_denominator = 1000\<rparr>, ec_target_bitrate = 1000,
       ec_max_bitrate = 1000, ec_gop_length = 25, ec_b_frames = 0, ec_rate_control = kCbr,
       ec_profile = kH264Main, ec_level = 31, ec_low_latency = True\<rparr>,
     er_input_alignment = 1, er_require_zero_copy = False, er_required_provider = [],
     er_preferences = any_preferences\<rparr>"


subsection \<open>Registration\<close>

fun register_all :: "('p \<Rightarrow> provider_capability result) \<Rightarrow> 'p list \<Rightarrow> 'p registry \<Rightarrow> 'p registry" where
  "register_all probe [] r = r"
| "register_all probe (p # ps) r = register_all probe ps (snd (register_provider no_throw probe (Some p) r))"

definition reports_id :: "('p \<Rightarrow> provider_capability result) \<Rightarrow> string \<Rightarrow> 'p \<Rightarrow> bool" where
  "reports_id probe i p \<longleftrightarrow> i \<noteq> [] \<and> (case probe p of Inl _ \<Rightarrow> False | Inr cap \<Rightarrow> cap_provider cap = i)"

lemma register_find:
  "\<not> rg_frozen r \<Longrightarrow> omap_find (rg_providers (snd (register_provider no_throw probe (Some p) r))) i
     = (case omap_find (rg_providers r) i of
          Some x \<Rightarrow> Some x | None \<Rightarrow> if reports_id probe i p then Some p else None)"
  by (auto simp: register_provider_def reports_id_def omap_find_put_any split: sum.splits option.splits)

lemma register_frozen: "rg_frozen (snd (register_provider h probe p r)) = rg_frozen r"
  by (auto simp: register_provider_def split: sum.splits option.splits)

lemma register_invar:
  "omap_invar (rg_providers r) \<Longrightarrow> omap_invar (rg_providers (snd (register_provider h probe p r)))"
  by (auto simp: register_provider_def om.invar_put split: sum.splits option.splits)

lemma register_all_find:
  "\<not> rg_frozen r \<Longrightarrow> omap_find (rg_providers (register_all probe ps r)) i
     = (case omap_find (rg_providers r) i of Some x \<Rightarrow> Some x | None \<Rightarrow> List.find (reports_id probe i) ps)"
proof (induction ps arbitrary: r)
  case (Cons p ps)
  have "\<not> rg_frozen (snd (register_provider no_throw probe (Some p) r))"
    using Cons.prems by (simp add: register_frozen)
  from Cons.IH [OF this] show ?case
    unfolding register_all.simps register_find [OF Cons.prems] by (simp split: option.split)
qed (simp split: option.split)

lemma register_all_invar:
  "omap_invar (rg_providers r) \<Longrightarrow> omap_invar (rg_providers (register_all probe ps r))
     \<and> rg_frozen (register_all probe ps r) = rg_frozen r"
  by (induction ps arbitrary: r) (simp_all add: register_invar register_frozen)

lemma find_unique:
  assumes "x \<in> set xs" "P x" "\<And>y. y \<in> set xs \<Longrightarrow> P y \<Longrightarrow> y = x"
  shows "List.find P xs = Some x"
  using assms
proof (induction xs)
  case (Cons a xs)
  show ?case
  proof (cases "P a")
    case True
    then have "a = x" by (intro Cons.prems(3)) simp_all
    then show ?thesis using True by simp
  next
    case False
    then have "x \<in> set xs" using Cons.prems(1,2) by auto
    then have "List.find P xs = Some x"
      by (rule Cons.IH [OF _ Cons.prems(2)]) (meson Cons.prems(3) list.set_intros(2))
    then show ?thesis using False by simp
  qed
qed simp

lemma find_set_cong:
  assumes "set xs = set ys" "\<And>x y. x \<in> set xs \<Longrightarrow> y \<in> set xs \<Longrightarrow> P x \<Longrightarrow> P y \<Longrightarrow> x = y"
  shows "List.find P xs = List.find P ys"
proof (cases "\<exists>x \<in> set xs. P x")
  case True
  then obtain x where x: "x \<in> set xs" "P x" by blast
  have "List.find P xs = Some x" "List.find P ys = Some x"
    using find_unique [of x xs P] find_unique [of x ys P] x assms by blast+
  then show ?thesis by simp
next
  case False
  then show ?thesis using assms(1) by (metis find_None_iff)
qed

text \<open>Registration. The order in which providers are registered does not matter: when no two
  of them report the same id, any two orders give the same registry, hence the same selections;
  and once the registry is frozen, no registration changes it.\<close>

theorem registration_order_irrelevant:
  assumes "set ps = set ps'"
    and "\<And>p p' i. p \<in> set ps \<Longrightarrow> p' \<in> set ps \<Longrightarrow> reports_id probe i p \<Longrightarrow> reports_id probe i p' \<Longrightarrow> p = p'"
  shows "register_all probe ps registry_new = register_all probe ps' registry_new
    \<and> snd (register_provider h probe' q (snd (registry_freeze (register_all probe ps registry_new))))
        = snd (registry_freeze (register_all probe ps' registry_new))"
proof -
  let ?r = "register_all probe ps registry_new" and ?r' = "register_all probe ps' registry_new"
  have new: "\<not> rg_frozen registry_new" "omap_invar (rg_providers registry_new)"
    by (simp_all add: registry_new_def)
  have "rg_providers ?r = rg_providers ?r'"
  proof (rule omap_ext)
    show "omap_invar (rg_providers ?r)" "omap_invar (rg_providers ?r')"
      using register_all_invar [OF new(2)] by blast+
    fix i
    have "List.find (reports_id probe i) ps = List.find (reports_id probe i) ps'"
      using assms(1) by (rule find_set_cong) (rule assms(2))
    then show "omap_find (rg_providers ?r) i = omap_find (rg_providers ?r') i"
      by (simp add: register_all_find [OF new(1)] split: option.split)
  qed
  moreover have "rg_frozen ?r = rg_frozen ?r'" using register_all_invar [OF new(2)] by metis
  ultimately have eq: "?r = ?r'" by simp
  then show ?thesis by (simp add: register_provider_def registry_freeze_def)
qed

theorem registration_order_irrelevant_witness:
  "register_all (\<lambda>p. Inr (any_capability p)) [''b'', ''a''] registry_new
   = register_all (\<lambda>p. Inr (any_capability p)) [''a'', ''b''] registry_new"
proof -
  have "reports_id (\<lambda>p. Inr (any_capability p)) i p \<Longrightarrow> p = i" for i p
    by (simp add: reports_id_def any_capability_def)
  then show ?thesis
    using registration_order_irrelevant [of "[''b'', ''a'']" "[''a'', ''b'']" "\<lambda>p. Inr (any_capability p)"
      no_throw "\<lambda>p. Inr (any_capability p)" None]
    by (metis insert_commute list.simps(15))
qed

end
