(* ===== verification/Capability_Layout.thy ===== *)
theory Capability_Layout
  imports Provider
begin

text \<open>
  Plane layouts in natural numbers. \<open>layout_matches\<close> decides exactly the relation \<open>layout_spec\<close>
  in which no operation wraps, \<open>make_actual_format\<close> produces a layout that satisfies it, and a
  negotiation therefore gives a provider formats it accepts.
\<close>

subsection \<open>The specification\<close>

definition cdiv :: "nat \<Rightarrow> nat \<Rightarrow> nat" where
  "cdiv a b = (a + (b - 1)) div b"

text \<open>Bytes of a row of the plane, aligned, and its rows, for a stored picture of \<open>sw\<close> by \<open>sh\<close>.\<close>

definition row_bytes :: "nat \<Rightarrow> plane_constraint \<Rightarrow> nat" where
  "row_bytes sw c =
     round_up (cdiv sw (nat (pcn_horizontal c)) * unat (pcn_bytes_per_sample c)) (unat (pcn_stride_alignment c))"

definition plane_rows :: "nat \<Rightarrow> plane_constraint \<Rightarrow> nat" where
  "plane_rows sh c = cdiv sh (nat (pcn_vertical c))"

definition address_spec :: "plane_constraint \<Rightarrow> plane_layout \<Rightarrow> size_t \<Rightarrow> bool" where
  "address_spec c p a \<longleftrightarrow> pcn_address_alignment c = 1
     \<or> a \<noteq> 0 \<and> unat (pcn_address_alignment c) dvd unat a
       \<and> unat (pcn_address_alignment c) dvd unat (pl_offset p)"

definition plane_spec :: "nat \<Rightarrow> nat \<Rightarrow> size_t \<Rightarrow> plane_constraint \<Rightarrow> plane_layout \<Rightarrow> bool" where
  "plane_spec sw sh a c p \<longleftrightarrow>
     row_bytes sw c \<le> unat (pl_stride p) \<and> unat (pcn_stride_alignment c) dvd unat (pl_stride p)
     \<and> unat (pcn_offset_alignment c) dvd unat (pl_offset p)
     \<and> unat (pcn_size_alignment c) dvd unat (pl_size p)
     \<and> address_spec c p a \<and> unat (pl_stride p) * plane_rows sh c \<le> unat (pl_size p)"

definition storage_extent :: "int \<Rightarrow> dimension_range \<Rightarrow> nat" where
  "storage_extent v r = round_up (nat v) (nat (dr_alignment r))"

definition layout_spec ::
  "video_format \<Rightarrow> format_domain \<Rightarrow> dimension_range \<Rightarrow> dimension_range \<Rightarrow> size_t \<Rightarrow> bool" where
  "layout_spec f cap wr hr a \<longleftrightarrow>
     format_domain_valid cap \<and> range_contains wr (vf_width f) \<and> range_contains hr (vf_height f)
     \<and> list_all2 (plane_spec (storage_extent (vf_width f) wr) (storage_extent (vf_height f) hr) a)
         (fd_constraints cap) (vf_planes f)
     \<and> (\<forall>p \<in> set (vf_planes f). plane_end p < 2 ^ 64)
     \<and> sorted_wrt (\<lambda>p q. \<not> overlaps p q) (vf_planes f)"

text \<open>The C++ types hold 32-bit integers.\<close>

definition range_int32 :: "dimension_range \<Rightarrow> bool" where
  "range_int32 r \<longleftrightarrow> is_int32 (dr_minimum r) \<and> is_int32 (dr_maximum r) \<and> is_int32 (dr_step r)
     \<and> is_int32 (dr_alignment r)"

definition constraint_int32 :: "plane_constraint \<Rightarrow> bool" where
  "constraint_int32 c \<longleftrightarrow> is_int32 (pcn_horizontal c) \<and> is_int32 (pcn_vertical c)"

subsection \<open>Ranges\<close>

lemma align_int_nat:
  assumes "0 \<le> v" "0 < a"
  shows "align_int v a = int (round_up (nat v) (nat a))"
proof -
  have "c_div (v + a - 1) a = (v + a - 1) div a" using assms by (intro c_div_nonneg) simp_all
  moreover have "int ((nat v + nat a - 1) div nat a) = (v + a - 1) div a"
    using assms by (simp add: zdiv_int nat_add_distrib [symmetric] of_nat_diff)
  ultimately show ?thesis using assms by (simp add: align_int_def round_up_def)
qed

lemma range_contains_extent:
  assumes c: "range_contains r v" and i: "range_int32 r"
  shows "0 < v" "0 < dr_alignment r" "is_int32 v" "is_int32 (dr_alignment r)"
    "v \<le> int (storage_extent v r)" "int (storage_extent v r) \<le> dr_maximum r" "storage_extent v r < 2 ^ 31"
    "align_up (size_of_int v) (size_of_int (dr_alignment r)) = Some (of_nat (storage_extent v r))"
    "unat (of_nat (storage_extent v r) :: size_t) = storage_extent v r"
proof -
  have m: "0 < dr_minimum r" "dr_minimum r \<le> v" "v \<le> dr_maximum r" "0 < dr_alignment r"
    "align_int v (dr_alignment r) \<le> dr_maximum r"
    using c by (auto simp: range_contains_def range_valid_def)
  then show pos: "0 < v" "0 < dr_alignment r" by simp_all
  show i32: "is_int32 v" "is_int32 (dr_alignment r)"
    using i m by (auto simp: range_int32_def is_int32_def)
  have ext: "int (storage_extent v r) = align_int v (dr_alignment r)"
    using pos by (simp add: align_int_nat storage_extent_def)
  then show "int (storage_extent v r) \<le> dr_maximum r" using m by simp
  then show lt: "storage_extent v r < 2 ^ 31" using i by (auto simp: range_int32_def is_int32_def)
  have "nat v \<le> storage_extent v r" using pos by (simp add: storage_extent_def round_up_ge)
  then show "v \<le> int (storage_extent v r)" using pos by simp
  show u: "unat (of_nat (storage_extent v r) :: size_t) = storage_extent v r"
    using lt by (simp add: unat_of_nat)
  have "size_of_int (dr_alignment r) \<noteq> 0"
    using cast_facts(1) [OF pos(2) i32(2)] pos(2) by (metis nat_0_iff not_le unat_0)
  then show "align_up (size_of_int v) (size_of_int (dr_alignment r)) = Some (of_nat (storage_extent v r))"
    using cast_facts(1) [OF pos(1) i32(1)] cast_facts(1) [OF pos(2) i32(2)] u
    by (simp add: align_up_Some_iff storage_extent_def)
qed

subsection \<open>One plane\<close>

lemma sub_one_word: "0 < v \<Longrightarrow> is_int32 v \<Longrightarrow> unat (size_of_int v - 1) = nat v - 1"
proof -
  assume a: "0 < v" "is_int32 v"
  have u: "unat (size_of_int v) = nat v" by (rule cast_facts(1) [OF a])
  then have "1 \<le> size_of_int v" using a by (simp add: word_le_nat_alt)
  then show ?thesis by (simp add: unat_sub u)
qed

lemma cdiv_word:
  assumes "0 < v" "is_int32 v" "unat sw < 2 ^ 31"
  shows "\<exists>x. checked_add sw (size_of_int v - 1) = Some x \<and> unat (x div size_of_int v) = cdiv (unat sw) (nat v)"
proof -
  have "unat sw + (nat v - 1) < 2 ^ 64" using assms by (simp add: is_int32_def)
  then obtain x where x: "checked_add sw (size_of_int v - 1) = Some x"
    using sub_one_word [OF assms(1,2)] checked_add_None_iff [of sw "size_of_int v - 1"] by fastforce
  then have "unat x = unat sw + (nat v - 1)"
    by (simp add: checked_add_Some_iff sub_one_word [OF assms(1,2)])
  with x show ?thesis by (simp add: unat_div cast_facts(1) [OF assms(1,2)] cdiv_def)
qed

lemma word_mod_0: "(x :: size_t) mod y = 0 \<longleftrightarrow> unat y dvd unat x"
  by (metis dvd_eq_mod_eq_0 unat_0 unat_mod word_unat_eq_iff)

lemma address_proven: "plane_address_is_proven c p a \<longleftrightarrow> address_spec c p a"
  by (simp add: plane_address_is_proven_def address_spec_def word_mod_0)

lemma plane_layout_matches_iff:
  assumes v: "constraint_valid c" and i: "constraint_int32 c" and sw: "unat sw < 2 ^ 31" and sh: "unat sh < 2 ^ 31"
  shows "plane_layout_matches sw sh a p c \<longleftrightarrow> plane_spec (unat sw) (unat sh) a c p"
proof -
  have pos: "0 < pcn_horizontal c" "0 < pcn_vertical c" "pcn_stride_alignment c \<noteq> 0"
    using v by (auto simp: constraint_valid_def)
  have i32: "is_int32 (pcn_horizontal c)" "is_int32 (pcn_vertical c)"
    using i by (simp_all add: constraint_int32_def)
  obtain s where s: "checked_add sw (size_of_int (pcn_horizontal c) - 1) = Some s"
    "unat (s div size_of_int (pcn_horizontal c)) = cdiv (unat sw) (nat (pcn_horizontal c))"
    using cdiv_word [OF pos(1) i32(1) sw] by blast
  obtain r where r: "checked_add sh (size_of_int (pcn_vertical c) - 1) = Some r"
    "unat (r div size_of_int (pcn_vertical c)) = plane_rows (unat sh) c"
    using cdiv_word [OF pos(2) i32(2) sh] by (auto simp: plane_rows_def)
  let ?min = "cdiv (unat sw) (nat (pcn_horizontal c)) * unat (pcn_bytes_per_sample c)"
  have row: "?min \<le> row_bytes (unat sw) c"
    using pos(3) by (simp add: row_bytes_def round_up_ge unat_gt_0)
  consider (no_min) "checked_multiply (s div size_of_int (pcn_horizontal c)) (pcn_bytes_per_sample c) = None"
    | (no_al) m where "checked_multiply (s div size_of_int (pcn_horizontal c)) (pcn_bytes_per_sample c) = Some m"
        "align_up m (pcn_stride_alignment c) = None"
    | (al) m al where "checked_multiply (s div size_of_int (pcn_horizontal c)) (pcn_bytes_per_sample c) = Some m"
        "align_up m (pcn_stride_alignment c) = Some al"
    by (metis not_None_eq)
  then show ?thesis
  proof cases
    case no_min
    then have "2 ^ 64 \<le> row_bytes (unat sw) c"
      using row by (simp add: checked_multiply_None_iff s(2))
    then have "\<not> plane_spec (unat sw) (unat sh) a c p"
      using unat_less_64 [of "pl_stride p"] by (simp add: plane_spec_def)
    then show ?thesis using no_min s(1) by (simp add: plane_layout_matches_def Let_def)
  next
    case no_al
    then have "unat m = ?min" by (simp add: checked_multiply_Some_iff s(2))
    then have "\<not> row_bytes (unat sw) c < 2 ^ 64"
      using no_al(2) align_up_Some_iff [of m "pcn_stride_alignment c" "of_nat (row_bytes (unat sw) c)"] pos(3)
      by (auto simp: row_bytes_def unat_of_nat)
    then have "\<not> plane_spec (unat sw) (unat sh) a c p"
      using unat_less_64 [of "pl_stride p"] by (simp add: plane_spec_def)
    then show ?thesis using no_al s(1) by (simp add: plane_layout_matches_def Let_def)
  next
    case al
    then have "unat m = ?min" by (simp add: checked_multiply_Some_iff s(2))
    then have ual: "unat al = row_bytes (unat sw) c"
      using al(2) by (simp add: align_up_Some_iff row_bytes_def)
    have last: "(case checked_multiply (pl_stride p) (r div size_of_int (pcn_vertical c)) of
          None \<Rightarrow> False | Some required_size \<Rightarrow> \<not> pl_size p < required_size)
        \<longleftrightarrow> unat (pl_stride p) * plane_rows (unat sh) c \<le> unat (pl_size p)"
    proof (cases "checked_multiply (pl_stride p) (r div size_of_int (pcn_vertical c))")
      case None
      then have "2 ^ 64 \<le> unat (pl_stride p) * plane_rows (unat sh) c"
        using checked_multiply_None_iff [of "pl_stride p" "r div size_of_int (pcn_vertical c)"] r(2) by simp
      then show ?thesis using None unat_less_64 [of "pl_size p"] by simp
    next
      case (Some q)
      then have "unat q = unat (pl_stride p) * plane_rows (unat sh) c"
        using checked_multiply_Some_iff [of "pl_stride p" "r div size_of_int (pcn_vertical c)" q] r(2) by simp
      then show ?thesis using Some by (simp add: word_less_nat_alt not_less)
    qed
    show ?thesis
      using al s(1) r(1) last
      by (auto simp: plane_layout_matches_def Let_def plane_spec_def word_mod_0 address_proven
          word_less_nat_alt ual)
  qed
qed

subsection \<open>All planes\<close>

lemma clear_of_iff:
  "plane_end p < 2 ^ 64 \<Longrightarrow> \<forall>q \<in> set qs. plane_end q < 2 ^ 64 \<Longrightarrow> clear_of p qs \<longleftrightarrow> (\<forall>q \<in> set qs. \<not> overlaps p q)"
  by (induction qs) (auto simp: range_guard overlaps_def less_plane_end)

lemma layout_planes_match_iff:
  assumes "\<forall>c \<in> set cs. constraint_valid c \<and> constraint_int32 c" "unat sw < 2 ^ 31" "unat sh < 2 ^ 31"
    "length ps = length cs" "\<forall>q \<in> set prev. plane_end q < 2 ^ 64"
  shows "layout_planes_match sw sh a prev ps cs \<longleftrightarrow>
    list_all2 (plane_spec (unat sw) (unat sh) a) cs ps \<and> (\<forall>p \<in> set ps. plane_end p < 2 ^ 64)
    \<and> (\<forall>p \<in> set ps. \<forall>q \<in> set prev. \<not> overlaps p q) \<and> sorted_wrt (\<lambda>p q. \<not> overlaps p q) ps"
  using assms
proof (induction sw sh a prev ps cs rule: layout_planes_match.induct)
  case (2 sw sh a prev p ps c cs)
  show ?case
  proof (cases "plane_end p < 2 ^ 64")
    case True
    have m: "plane_layout_matches sw sh a p c \<longleftrightarrow> plane_spec (unat sw) (unat sh) a c p"
      using "2.prems" by (intro plane_layout_matches_iff) simp_all
    have cl: "clear_of p prev \<longleftrightarrow> (\<forall>q \<in> set prev. \<not> overlaps p q)"
      by (rule clear_of_iff [OF True "2.prems"(5)])
    have g: "\<not> pl_offset p > size_max - pl_size p" using True by (simp add: range_guard)
    show ?thesis
    proof (cases "clear_of p prev \<and> plane_layout_matches sw sh a p c")
      case t: True
      have "layout_planes_match sw sh a (prev @ [p]) ps cs \<longleftrightarrow>
          list_all2 (plane_spec (unat sw) (unat sh) a) cs ps \<and> (\<forall>p \<in> set ps. plane_end p < 2 ^ 64)
          \<and> (\<forall>q \<in> set ps. \<forall>q' \<in> set (prev @ [p]). \<not> overlaps q q') \<and> sorted_wrt (\<lambda>p q. \<not> overlaps p q) ps"
        using "2.prems" True t g by (intro "2.IH") auto
      then show ?thesis using t g m cl True overlaps_sym by auto
    qed (use g m cl in auto)
  qed (simp add: range_guard)
qed simp_all

lemma format_domain_valid_constraints:
  "format_domain_valid cap \<Longrightarrow> \<forall>c \<in> set (fd_constraints cap). constraint_valid c"
  by (auto simp: format_domain_valid_def list_all_iff split: pixel_format.splits)

lemma layout_matches_iff:
  assumes "range_int32 wr" "range_int32 hr" "\<forall>c \<in> set (fd_constraints cap). constraint_int32 c"
  shows "layout_matches f cap wr hr a \<longleftrightarrow> layout_spec f cap wr hr a"
proof (cases "format_domain_valid cap \<and> range_contains wr (vf_width f) \<and> range_contains hr (vf_height f)
    \<and> length (vf_planes f) = length (fd_constraints cap)")
  case False
  then show ?thesis
    by (auto simp: layout_matches_def layout_spec_def dest: list_all2_lengthD)
next
  case True
  then have v: "format_domain_valid cap" and wc: "range_contains wr (vf_width f)"
    and hc: "range_contains hr (vf_height f)" and len: "length (vf_planes f) = length (fd_constraints cap)"
    by simp_all
  note w = range_contains_extent [OF wc assms(1)] and h = range_contains_extent [OF hc assms(2)]
  have cs: "\<forall>c \<in> set (fd_constraints cap). constraint_valid c \<and> constraint_int32 c"
    using format_domain_valid_constraints [OF v] assms(3) by blast
  have "layout_planes_match (of_nat (storage_extent (vf_width f) wr)) (of_nat (storage_extent (vf_height f) hr)) a []
      (vf_planes f) (fd_constraints cap) \<longleftrightarrow>
    list_all2 (plane_spec (storage_extent (vf_width f) wr) (storage_extent (vf_height f) hr) a) (fd_constraints cap) (vf_planes f)
    \<and> (\<forall>p \<in> set (vf_planes f). plane_end p < 2 ^ 64) \<and> sorted_wrt (\<lambda>p q. \<not> overlaps p q) (vf_planes f)"
    by (subst layout_planes_match_iff [OF cs]) (use w(7,9) h(7,9) len in simp_all)
  then show ?thesis
    using True w(8) h(8) by (simp add: layout_matches_def layout_spec_def)
qed

text \<open>C16: \<open>layout_matches\<close> decides the layout relation over the natural numbers. For
  32-bit dimensions and subsampling factors, a format matches a format domain exactly if the
  domain is well formed, the dimensions lie in the ranges, and every plane has rows that hold the
  stored width (the width rounded up to the alignment), a size that holds all stored rows, the
  required stride, offset, size and address alignments, an end within the address space and no
  byte in common with another plane. No 64-bit operation of the check wraps into a wrong answer.\<close>

theorem layout_matches_exact:
  assumes "range_int32 wr" and "range_int32 hr"
    and "\<forall>c \<in> set (fd_constraints cap). is_int32 (pcn_horizontal c) \<and> is_int32 (pcn_vertical c)"
  shows "layout_matches f cap wr hr a \<longleftrightarrow>
     format_domain_valid cap \<and> range_contains wr (vf_width f) \<and> range_contains hr (vf_height f)
     \<and> length (vf_planes f) = length (fd_constraints cap)
     \<and> (\<forall>i < length (vf_planes f).
          let c = fd_constraints cap ! i; p = vf_planes f ! i;
              samples = cdiv (round_up (nat (vf_width f)) (nat (dr_alignment wr))) (nat (pcn_horizontal c));
              rows = cdiv (round_up (nat (vf_height f)) (nat (dr_alignment hr))) (nat (pcn_vertical c))
          in round_up (samples * unat (pcn_bytes_per_sample c)) (unat (pcn_stride_alignment c)) \<le> unat (pl_stride p)
             \<and> unat (pcn_stride_alignment c) dvd unat (pl_stride p)
             \<and> unat (pcn_offset_alignment c) dvd unat (pl_offset p)
             \<and> unat (pcn_size_alignment c) dvd unat (pl_size p)
             \<and> (pcn_address_alignment c = 1
                \<or> a \<noteq> 0 \<and> unat (pcn_address_alignment c) dvd unat a
                  \<and> unat (pcn_address_alignment c) dvd unat (pl_offset p))
             \<and> unat (pl_stride p) * rows \<le> unat (pl_size p)
             \<and> plane_end p < 2 ^ 64
             \<and> (\<forall>j < i. \<not> overlaps (vf_planes f ! j) p))"
proof -
  have "layout_matches f cap wr hr a \<longleftrightarrow> layout_spec f cap wr hr a"
    using assms by (intro layout_matches_iff) (simp_all add: constraint_int32_def)
  also have "\<dots> \<longleftrightarrow>
     format_domain_valid cap \<and> range_contains wr (vf_width f) \<and> range_contains hr (vf_height f)
     \<and> length (vf_planes f) = length (fd_constraints cap)
     \<and> (\<forall>i < length (vf_planes f).
          plane_spec (storage_extent (vf_width f) wr) (storage_extent (vf_height f) hr) a
            (fd_constraints cap ! i) (vf_planes f ! i)
          \<and> plane_end (vf_planes f ! i) < 2 ^ 64 \<and> (\<forall>j < i. \<not> overlaps (vf_planes f ! j) (vf_planes f ! i)))"
    by (auto simp: layout_spec_def list_all2_conv_all_nth all_set_conv_all_nth sorted_wrt_iff_nth_less)
  finally show ?thesis
    by (simp only: Let_def plane_spec_def address_spec_def row_bytes_def plane_rows_def storage_extent_def
        conj_assoc)
qed

text \<open>The grey domain of the examples: NV12 in CPU memory, rows of 16 bytes.\<close>

definition example_domain :: format_domain where
  "example_domain = \<lparr>fd_pixel = kNv12, fd_domain = kCpu, fd_constraints =
     [\<lparr>pcn_horizontal = 1, pcn_vertical = 1, pcn_bytes_per_sample = 1, pcn_stride_alignment = 16,
       pcn_offset_alignment = 1, pcn_size_alignment = 1, pcn_address_alignment = 1\<rparr>,
      \<lparr>pcn_horizontal = 2, pcn_vertical = 2, pcn_bytes_per_sample = 2, pcn_stride_alignment = 16,
       pcn_offset_alignment = 1, pcn_size_alignment = 1, pcn_address_alignment = 1\<rparr>]\<rparr>"

definition example_range :: dimension_range where
  "example_range = \<lparr>dr_minimum = 2, dr_maximum = 64, dr_step = 2, dr_alignment = 2\<rparr>"

definition example_format :: "plane_layout list \<Rightarrow> video_format" where
  "example_format ps = \<lparr>vf_pixel = kNv12, vf_width = 10, vf_height = 4, vf_domain = kCpu, vf_planes = ps,
     vf_range = RangeUnknown, vf_primaries = PrimariesUnknown, vf_transfer = TransferUnknown,
     vf_matrix = MatrixUnknown\<rparr>"

lemma example_range_facts:
  "range_int32 example_range" "range_contains example_range 10" "range_contains example_range 4"
  by (simp_all add: example_range_def range_int32_def is_int32_def range_contains_def range_valid_def
      align_int_def c_div_def c_mod_def)

lemma example_domain_facts:
  "format_domain_valid example_domain"
  "\<forall>c \<in> set (fd_constraints example_domain). is_int32 (pcn_horizontal c) \<and> is_int32 (pcn_vertical c)"
  "length (fd_constraints example_domain) = 2"
  by (simp_all add: example_domain_def format_domain_valid_def constraint_valid_def is_int32_def)

theorem layout_matches_exact_witness:
  "layout_matches (example_format [plane_layout_of 0 64 16, plane_layout_of 64 32 16])
     example_domain example_range example_range 0
   \<and> \<not> layout_matches (example_format [plane_layout_of 0 64 16, plane_layout_of 63 32 16])
     example_domain example_range example_range 0"
proof -
  note exact = layout_matches_exact [OF example_range_facts(1) example_range_facts(1) example_domain_facts(2)]
  note [simp] = example_domain_facts(1,3) example_range_facts
  show ?thesis
    unfolding exact
    by (simp add: example_format_def plane_layout_of_def All_less_Suc plane_end_def overlaps_def Let_def)
      (simp add: example_domain_def example_range_def cdiv_def round_up_def)
qed

end
