(* ===== verification/Negotiation.thy ===== *)
theory Negotiation
  imports Capability_Layout
begin

text \<open>
  \<open>make_actual_format\<close> builds a layout that \<open>layout_matches\<close> accepts, so the formats that a
  negotiation substitutes for the requested ones are formats the provider takes.
\<close>

lemma actual_plane_fits:
  assumes v: "constraint_valid c" and i: "constraint_int32 c" and sw: "unat sw < 2 ^ 31" and sh: "unat sh < 2 ^ 31"
    and a: "pcn_address_alignment c = 1 \<or> a \<noteq> 0 \<and> unat (pcn_address_alignment c) dvd unat a"
    and act: "actual_plane sw sh off c = Some (p, off')"
  shows "plane_spec (unat sw) (unat sh) a c p" and "unat off \<le> unat (pl_offset p)"
    and "unat off' = plane_end p"
proof -
  have pos: "0 < pcn_horizontal c" "0 < pcn_vertical c" "pcn_stride_alignment c \<noteq> 0" "pcn_size_alignment c \<noteq> 0"
    "pcn_offset_alignment c \<noteq> 0" "pcn_address_alignment c \<noteq> 0"
    using v by (auto simp: constraint_valid_def)
  have i32: "is_int32 (pcn_horizontal c)" "is_int32 (pcn_vertical c)"
    using i by (simp_all add: constraint_int32_def)
  obtain s where s: "checked_add sw (size_of_int (pcn_horizontal c) - 1) = Some s"
    "unat (s div size_of_int (pcn_horizontal c)) = cdiv (unat sw) (nat (pcn_horizontal c))"
    using cdiv_word [OF pos(1) i32(1) sw] by blast
  obtain r where r: "checked_add sh (size_of_int (pcn_vertical c) - 1) = Some r"
    "unat (r div size_of_int (pcn_vertical c)) = plane_rows (unat sh) c"
    using cdiv_word [OF pos(2) i32(2) sh] by (auto simp: plane_rows_def)
  obtain stride0 stride size0 size1 oa offset where
    e: "checked_multiply (s div size_of_int (pcn_horizontal c)) (pcn_bytes_per_sample c) = Some stride0"
      "align_up stride0 (pcn_stride_alignment c) = Some stride"
      "checked_multiply stride (r div size_of_int (pcn_vertical c)) = Some size0"
      "align_up size0 (pcn_size_alignment c) = Some size1"
      "least_common_multiple (pcn_offset_alignment c) (pcn_address_alignment c) = Some oa"
      "align_up off oa = Some offset" "checked_add offset size1 = Some off'"
      "p = plane_layout_of offset size1 stride"
    using act s(1) r(1) by (auto simp: actual_plane_def Let_def split: option.splits)
  have stride: "unat stride = row_bytes (unat sw) c"
    using e(1,2) s(2) by (simp add: checked_unat row_bytes_def)
  have size0: "unat size0 = unat stride * plane_rows (unat sh) c"
    using e(3) r(2) by (simp add: checked_unat)
  have size1: "unat size1 = round_up (unat size0) (unat (pcn_size_alignment c))"
    using e(4) by (simp add: checked_unat)
  have oa: "unat oa = lcm (unat (pcn_offset_alignment c)) (unat (pcn_address_alignment c))"
    using e(5) pos by (simp add: least_common_multiple_Some_iff)
  have offset: "unat offset = round_up (unat off) (unat oa)" and oa0: "0 < unat oa"
    using e(6) by (auto simp: checked_unat unat_gt_0)
  have "unat oa dvd unat offset" by (simp add: offset round_up_dvd)
  then have "unat (pcn_offset_alignment c) dvd unat offset" "unat (pcn_address_alignment c) dvd unat offset"
    unfolding oa by (meson dvd_lcm1 dvd_lcm2 dvd_trans)+
  moreover have "unat size0 \<le> unat size1"
    using pos(4) by (simp add: size1 round_up_ge unat_gt_0)
  ultimately show "plane_spec (unat sw) (unat sh) a c p"
    using a by (auto simp: plane_spec_def address_spec_def e(8) plane_layout_of_def stride size0
        size1 round_up_dvd row_bytes_def)
  show "unat off \<le> unat (pl_offset p)"
    using oa0 by (simp add: e(8) plane_layout_of_def offset round_up_ge)
  show "unat off' = plane_end p"
    using e(7) by (simp add: e(8) plane_layout_of_def plane_end_def checked_unat)
qed

lemma actual_planes_fit:
  assumes "\<forall>c \<in> set cs. constraint_valid c \<and> constraint_int32 c
      \<and> (pcn_address_alignment c = 1 \<or> a \<noteq> 0 \<and> unat (pcn_address_alignment c) dvd unat a)"
    and "unat sw < 2 ^ 31" "unat sh < 2 ^ 31"
    and "actual_planes sw sh off cs = Some ps"
  shows "list_all2 (plane_spec (unat sw) (unat sh) a) cs ps"
    and "\<forall>p \<in> set ps. unat off \<le> unat (pl_offset p) \<and> plane_end p < 2 ^ 64"
    and "sorted_wrt (\<lambda>p q. \<not> overlaps p q) ps"
proof -
  have "list_all2 (plane_spec (unat sw) (unat sh) a) cs ps
      \<and> (\<forall>p \<in> set ps. unat off \<le> unat (pl_offset p) \<and> plane_end p < 2 ^ 64)
      \<and> sorted_wrt (\<lambda>p q. \<not> overlaps p q) ps"
    using assms
  proof (induction cs arbitrary: off ps)
    case (Cons c cs)
    obtain p off' ps' where s: "actual_plane sw sh off c = Some (p, off')"
      "actual_planes sw sh off' cs = Some ps'" "ps = p # ps'"
      using Cons.prems(4) by (auto split: option.splits)
    have c: "constraint_valid c" "constraint_int32 c"
      "pcn_address_alignment c = 1 \<or> a \<noteq> 0 \<and> unat (pcn_address_alignment c) dvd unat a"
      using Cons.prems(1) by simp_all
    note fit = actual_plane_fits [OF c(1,2) Cons.prems(2,3) c(3) s(1)]
    have IH: "list_all2 (plane_spec (unat sw) (unat sh) a) cs ps'
      \<and> (\<forall>p \<in> set ps'. unat off' \<le> unat (pl_offset p) \<and> plane_end p < 2 ^ 64)
      \<and> sorted_wrt (\<lambda>p q. \<not> overlaps p q) ps'"
      using Cons.prems s(2) by (intro Cons.IH) simp_all
    have lt: "plane_end p < 2 ^ 64" using fit(3) unat_less_64 [of off'] by simp
    have "unat (pl_offset p) \<le> plane_end p" by (simp add: plane_end_def)
    then show ?case using IH fit lt by (auto simp: s(3) overlaps_def)
  qed simp
  then show "list_all2 (plane_spec (unat sw) (unat sh) a) cs ps"
    "\<forall>p \<in> set ps. unat off \<le> unat (pl_offset p) \<and> plane_end p < 2 ^ 64"
    "sorted_wrt (\<lambda>p q. \<not> overlaps p q) ps" by simp_all
qed

lemma make_actual_fits:
  assumes "range_int32 wr" and "range_int32 hr" and "\<forall>c \<in> set (fd_constraints cap). constraint_int32 c"
    and "range_contains wr (vf_width f)" and "range_contains hr (vf_height f)"
    and "\<forall>c \<in> set (fd_constraints cap). pcn_address_alignment c = 1
           \<or> a \<noteq> 0 \<and> unat (pcn_address_alignment c) dvd unat a"
    and "make_actual_format h f cap wr hr = Inr g"
  shows "layout_matches g cap wr hr a \<and> g\<lparr>vf_planes := vf_planes f\<rparr> = f"
proof -
  note w = range_contains_extent [OF assms(4) assms(1)] and ht = range_contains_extent [OF assms(5) assms(2)]
  have v: "format_domain_valid cap"
    using assms(7) by (auto simp: make_actual_format_def split: if_splits)
  obtain planes where
    p: "actual_planes (of_nat (storage_extent (vf_width f) wr)) (of_nat (storage_extent (vf_height f) hr)) 0
          (fd_constraints cap) = Some planes"
    and g: "video_format_create h (vf_pixel f) (vf_width f) (vf_height f) (vf_domain f) planes (vf_range f)
          (vf_primaries f) (vf_transfer f) (vf_matrix f) = Inr g"
    using assms(7) v w(8) ht(8)
    by (auto simp: make_actual_format_def split: if_splits option.splits)
  have gf: "g = f\<lparr>vf_planes := planes\<rparr>"
    using g by (simp add: video_format_create_Inr)
  have cs: "\<forall>c \<in> set (fd_constraints cap). constraint_valid c \<and> constraint_int32 c
      \<and> (pcn_address_alignment c = 1 \<or> a \<noteq> 0 \<and> unat (pcn_address_alignment c) dvd unat a)"
    using format_domain_valid_constraints [OF v] assms(3,6) by blast
  have lt: "unat (of_nat (storage_extent (vf_width f) wr) :: size_t) < 2 ^ 31"
    "unat (of_nat (storage_extent (vf_height f) hr) :: size_t) < 2 ^ 31"
    using w(7,9) ht(7,9) by simp_all
  note fit = actual_planes_fit [OF cs lt p, unfolded w(9) ht(9)]
  have "layout_spec g cap wr hr a"
    using fit v assms(4,5) by (simp add: layout_spec_def gf)
  then show ?thesis
    using layout_matches_iff [OF assms(1-3)] by (simp add: gf)
qed

text \<open>The format that \<open>make_actual_format\<close> computes for a capability keeps the picture
  (pixel format, dimensions, memory domain and colours) and is a layout the same capability
  accepts, when the base address honours the address alignments.\<close>

theorem make_actual_format_fits:
  assumes "range_int32 wr" and "range_int32 hr" and "\<forall>c \<in> set (fd_constraints cap). constraint_int32 c"
    and "range_contains wr (vf_width f)" and "range_contains hr (vf_height f)"
    and "\<forall>c \<in> set (fd_constraints cap). pcn_address_alignment c = 1
           \<or> a \<noteq> 0 \<and> unat (pcn_address_alignment c) dvd unat a"
    and "make_actual_format h f cap wr hr = Inr g"
  shows "layout_matches g cap wr hr a \<and> g\<lparr>vf_planes := vf_planes f\<rparr> = f"
  using assms by (rule make_actual_fits)

theorem make_actual_format_fits_witness:
  "let g = example_format [plane_layout_of 0 64 16, plane_layout_of 64 32 16]
   in make_actual_format no_throw (example_format []) example_domain example_range example_range = Inr g
      \<and> layout_matches g example_domain example_range example_range 0"
proof -
  have made: "make_actual_format no_throw (example_format []) example_domain example_range example_range
      = Inr (example_format [plane_layout_of 0 64 16, plane_layout_of 64 32 16])"
    by code_simp
  have "\<forall>c \<in> set (fd_constraints example_domain). constraint_int32 c"
    using example_domain_facts(2) by (simp add: constraint_int32_def)
  moreover have "range_contains example_range (vf_width (example_format []))"
    "range_contains example_range (vf_height (example_format []))"
    using example_range_facts by (simp_all add: example_format_def)
  moreover have "\<forall>c \<in> set (fd_constraints example_domain). pcn_address_alignment c = 1
      \<or> (0 :: size_t) \<noteq> 0 \<and> unat (pcn_address_alignment c) dvd unat (0 :: size_t)"
    by (simp add: example_domain_def)
  ultimately show ?thesis
    using make_actual_format_fits [OF example_range_facts(1) example_range_facts(1) _ _ _ _ made]
    by (simp add: made Let_def)
qed

subsection \<open>What a negotiation promises\<close>

definition capability_int32 :: "processor_capability \<Rightarrow> bool" where
  "capability_int32 c \<longleftrightarrow> range_int32 (pcap_input_width c) \<and> range_int32 (pcap_input_height c)
     \<and> range_int32 (pcap_output_width c) \<and> range_int32 (pcap_output_height c)
     \<and> (\<forall>f \<in> set (pcap_input_formats c) \<union> set (pcap_output_formats c).
          \<forall>k \<in> set (fd_constraints f). constraint_int32 k)"

text \<open>The base address \<open>a\<close> honours the address alignments of a format domain.\<close>

definition address_honours :: "size_t \<Rightarrow> format_domain \<Rightarrow> bool" where
  "address_honours a f \<longleftrightarrow> (\<forall>c \<in> set (fd_constraints f). pcn_address_alignment c = 1
     \<or> a \<noteq> 0 \<and> unat (pcn_address_alignment c) dvd unat a)"

lemma find_format_Some: "find_format fs p d = Some f \<Longrightarrow> f \<in> set fs \<and> fd_pixel f = p \<and> fd_domain f = d"
  by (induction fs) (auto split: if_splits)

lemma processor_match_ok:
  assumes "st_ok (processor_match c r)"
  obtains i out where
    "find_format (pcap_input_formats c) (vf_pixel (pc_input (pr_config r))) (vf_domain (pc_input (pr_config r))) = Some i"
    "find_format (pcap_output_formats c) (vf_pixel (pc_output (pr_config r))) (vf_domain (pc_output (pr_config r))) = Some out"
    "range_contains (pcap_input_width c) (vf_width (pc_input (pr_config r)))"
    "range_contains (pcap_input_height c) (vf_height (pc_input (pr_config r)))"
    "range_contains (pcap_output_width c) (vf_width (pc_output (pr_config r)))"
    "range_contains (pcap_output_height c) (vf_height (pc_output (pr_config r)))"
    "pr_require_zero_copy r \<Longrightarrow> processor_zero_copy c r"
  using assms
  by (auto simp: processor_match_def processor_zero_copy_def Let_def split: if_splits option.splits)

text \<open>A configuration with other plane layouts.\<close>

definition with_planes :: "video_processor_config \<Rightarrow> plane_layout list \<Rightarrow> plane_layout list \<Rightarrow> video_processor_config" where
  "with_planes c ps qs = c\<lparr>pc_input := (pc_input c)\<lparr>vf_planes := ps\<rparr>, pc_output := (pc_output c)\<lparr>vf_planes := qs\<rparr>\<rparr>"

lemma with_planes_same: "with_planes c (vf_planes (pc_input c)) (vf_planes (pc_output c)) = c"
  by (simp add: with_planes_def)

lemma make_actual_planes:
  "make_actual_format h f cap wr hr = Inr g \<Longrightarrow> g = f\<lparr>vf_planes := vf_planes g\<rparr>"
  by (auto simp: make_actual_format_def video_format_create_Inr split: if_splits option.splits)

lemma negotiated_config_planes:
  assumes n: "negotiated_config h c r = Inr cfg" and conv: "processor_conversion c r"
    and i: "find_format (pcap_input_formats c) (vf_pixel (pc_input (pr_config r))) (vf_domain (pc_input (pr_config r))) = Some i"
    and out: "find_format (pcap_output_formats c) (vf_pixel (pc_output (pr_config r))) (vf_domain (pc_output (pr_config r))) = Some out"
  shows "cfg = with_planes (pr_config r) (vf_planes (pc_input cfg)) (vf_planes (pc_output cfg))"
  using assms
  by (auto simp: negotiated_config_def video_processor_config_create_Inr with_planes_def Let_def
      split: if_splits sum.splits dest!: make_actual_planes)

lemma negotiated_config_fits:
  assumes n: "negotiated_config h c r = Inr cfg" and i32: "capability_int32 c"
    and conv: "processor_conversion c r"
    and i: "find_format (pcap_input_formats c) (vf_pixel (pc_input (pr_config r))) (vf_domain (pc_input (pr_config r))) = Some i"
    and out: "find_format (pcap_output_formats c) (vf_pixel (pc_output (pr_config r))) (vf_domain (pc_output (pr_config r))) = Some out"
    and a: "address_honours a i" and b: "address_honours b out"
  shows "layout_matches (pc_input cfg) i (pcap_input_width c) (pcap_input_height c) a"
    and "layout_matches (pc_output cfg) out (pcap_output_width c) (pcap_output_height c) b"
proof -
  let ?c = "pr_config r"
  have ok: "st_ok (processor_match c r)"
    using n by (auto simp: negotiated_config_def Let_def split: if_splits)
  have dims: "range_contains (pcap_input_width c) (vf_width (pc_input ?c))"
    "range_contains (pcap_input_height c) (vf_height (pc_input ?c))"
    "range_contains (pcap_output_width c) (vf_width (pc_output ?c))"
    "range_contains (pcap_output_height c) (vf_height (pc_output ?c))"
    using processor_match_ok [OF ok] by metis+
  obtain ai ao where act:
    "make_actual_format h (pc_input ?c) i (pcap_input_width c) (pcap_input_height c) = Inr ai"
    "make_actual_format h (pc_output ?c) out (pcap_output_width c) (pcap_output_height c) = Inr ao"
    "video_processor_config_create h ai ao (pc_crop_x ?c) (pc_crop_y ?c) (pc_crop_width ?c)
       (pc_crop_height ?c) (pc_rotation ?c) = Inr cfg"
    using n ok conv i out by (auto simp: negotiated_config_def Let_def split: sum.splits)
  have fi: "layout_matches ai i (pcap_input_width c) (pcap_input_height c) a
      \<and> ai\<lparr>vf_planes := vf_planes (pc_input ?c)\<rparr> = pc_input ?c"
    using i32 find_format_Some [OF i] a dims act(1)
    by (intro make_actual_fits) (auto simp: capability_int32_def address_honours_def)
  have fo: "layout_matches ao out (pcap_output_width c) (pcap_output_height c) b
      \<and> ao\<lparr>vf_planes := vf_planes (pc_output ?c)\<rparr> = pc_output ?c"
    using i32 find_format_Some [OF out] b dims act(2)
    by (intro make_actual_fits) (auto simp: capability_int32_def address_honours_def)
  have cfg: "cfg = ?c\<lparr>pc_input := ai, pc_output := ao\<rparr>"
    using act(3) by (simp add: video_processor_config_create_Inr)
  show "layout_matches (pc_input cfg) i (pcap_input_width c) (pcap_input_height c) a"
    "layout_matches (pc_output cfg) out (pcap_output_width c) (pcap_output_height c) b"
    using fi fo by (simp_all add: cfg)
qed

text \<open>C17: a successful negotiation reports the provider it was asked of and comes from the first of
  its capabilities that matches. Without an explicit conversion the configuration is the requested
  one and its formats are layouts the capability accepts. With one, only the planes of the two
  formats change and the capability accepts the new layouts at every address that honours its
  alignments. Zero copy is never reported with a conversion, and always when it was required.\<close>

theorem negotiation_keeps_promises:
  assumes "provider_negotiate_processor h p r = Inr n"
    and "\<forall>c \<in> set (cap_processors p). capability_int32 c"
  shows "\<exists>c i out.
      first_ok (\<lambda>c. processor_match c r) (cap_processors p) = Some c
      \<and> find_format (pcap_input_formats c) (vf_pixel (pc_input (pr_config r))) (vf_domain (pc_input (pr_config r))) = Some i
      \<and> find_format (pcap_output_formats c) (vf_pixel (pc_output (pr_config r))) (vf_domain (pc_output (pr_config r))) = Some out
      \<and> pn_provider n = cap_provider p \<and> pn_actual n = pc_output (pn_config n)
      \<and> (\<exists>ps qs. pn_config n = with_planes (pr_config r) ps qs)
      \<and> (\<not> pn_conversion n \<longrightarrow> pn_config n = pr_config r
           \<and> layout_matches (pc_input (pn_config n)) i (pcap_input_width c) (pcap_input_height c) (pr_input_alignment r)
           \<and> layout_matches (pc_output (pn_config n)) out (pcap_output_width c) (pcap_output_height c) (pr_output_alignment r))
      \<and> (pn_conversion n \<longrightarrow> (\<forall>a b. address_honours a i \<longrightarrow> address_honours b out \<longrightarrow>
             layout_matches (pc_input (pn_config n)) i (pcap_input_width c) (pcap_input_height c) a
             \<and> layout_matches (pc_output (pn_config n)) out (pcap_output_width c) (pcap_output_height c) b))
      \<and> (pn_zero_copy n \<longrightarrow> \<not> pn_conversion n) \<and> (pr_require_zero_copy r \<longrightarrow> pn_zero_copy n)"
proof -
  obtain c cfg where c: "first_ok (\<lambda>c. processor_match c r) (cap_processors p) = Some c"
    and cfg: "negotiated_config h c r = Inr cfg"
    and n: "n = \<lparr>pn_provider = cap_provider p, pn_config = cfg, pn_actual = pc_output cfg,
      pn_conversion = processor_conversion c r, pn_zero_copy = processor_zero_copy c r\<rparr>"
    using assms(1)
    by (auto simp: provider_negotiate_processor_def Let_def split: if_splits option.splits sum.splits)
  have ok: "st_ok (processor_match c r)" and i32: "capability_int32 c"
    using first_ok_Some [OF c] assms(2) by auto
  obtain i out where
    i: "find_format (pcap_input_formats c) (vf_pixel (pc_input (pr_config r))) (vf_domain (pc_input (pr_config r))) = Some i"
    and out: "find_format (pcap_output_formats c) (vf_pixel (pc_output (pr_config r))) (vf_domain (pc_output (pr_config r))) = Some out"
    and z: "pr_require_zero_copy r \<Longrightarrow> processor_zero_copy c r"
    by (rule processor_match_ok [OF ok]) blast
  show ?thesis
  proof (cases "processor_conversion c r")
    case True
    have cfg_fits: "layout_matches (pc_input cfg) i (pcap_input_width c) (pcap_input_height c) a
        \<and> layout_matches (pc_output cfg) out (pcap_output_width c) (pcap_output_height c) b"
      if "address_honours a i" "address_honours b out" for a b
      using negotiated_config_fits(1,2) [OF cfg i32 True i out that] by blast
    have "\<exists>ps qs. cfg = with_planes (pr_config r) ps qs"
      using negotiated_config_planes [OF cfg True i out] by blast
    then show ?thesis
      using c i out cfg_fits True z
      by (intro exI [of _ c] exI [of _ i] exI [of _ out]) (auto simp: n processor_zero_copy_def)
  next
    case False
    then have "cfg = pr_config r"
      using cfg ok by (simp add: negotiated_config_def)
    moreover from False i out have
      "layout_matches (pc_input (pr_config r)) i (pcap_input_width c) (pcap_input_height c) (pr_input_alignment r)"
      "layout_matches (pc_output (pr_config r)) out (pcap_output_width c) (pcap_output_height c) (pr_output_alignment r)"
      by (simp_all add: processor_conversion_def Let_def)
    ultimately show ?thesis
      using c i out False z with_planes_same [of "pr_config r", symmetric]
      by (intro exI [of _ c] exI [of _ i] exI [of _ out]) (auto simp: n processor_zero_copy_def)
  qed
qed

definition example_processor_config :: "plane_layout list \<Rightarrow> video_processor_config" where
  "example_processor_config ps =
     \<lparr>pc_input = example_format ps, pc_output = example_format ps, pc_crop_x = 0, pc_crop_y = 0,
      pc_crop_width = 10, pc_crop_height = 4, pc_rotation = 0\<rparr>"

text \<open>Rows of 10 bytes are asked of a provider that needs rows of 16.\<close>

definition example_processor_request :: processor_request where
  "example_processor_request = \<lparr>pr_config = example_processor_config [plane_layout_of 0 40 10, plane_layout_of 40 20 10],
     pr_operations = [], pr_input_alignment = 0, pr_output_alignment = 0, pr_require_zero_copy = False,
     pr_required_provider = [],
     pr_preferences = \<lparr>sp_preferred = [], sp_prefer_hardware = False, sp_prefer_zero_copy = False\<rparr>\<rparr>"

definition example_processor_capability :: processor_capability where
  "example_processor_capability = \<lparr>pcap_input_width = example_range, pcap_input_height = example_range,
     pcap_output_width = example_range, pcap_output_height = example_range,
     pcap_input_formats = [example_domain], pcap_output_formats = [example_domain], pcap_operations = [],
     pcap_zero_copy = True, pcap_identical = False\<rparr>"

definition example_provider :: provider_capability where
  "example_provider = \<lparr>cap_provider = ''aligned'', cap_version = ''1'', cap_device = ''cpu'',
     cap_availability = ok_status, cap_kind = kSoftware, cap_processors = [example_processor_capability],
     cap_encoders = [], cap_max_instances = 1, cap_resources = []\<rparr>"

definition example_negotiation :: processor_negotiation where
  "example_negotiation =
     (let c = example_processor_config [plane_layout_of 0 64 16, plane_layout_of 64 32 16]
      in \<lparr>pn_provider = ''aligned'', pn_config = c, pn_actual = pc_output c, pn_conversion = True,
          pn_zero_copy = False\<rparr>)"

lemma example_negotiated:
  "provider_negotiate_processor no_throw example_provider example_processor_request = Inr example_negotiation"
  by code_simp

lemma example_processor_facts:
  "cap_processors example_provider = [example_processor_capability]"
  "capability_int32 example_processor_capability" "pn_conversion example_negotiation"
  "pcap_input_formats example_processor_capability = [example_domain]"
  "pcap_output_formats example_processor_capability = [example_domain]"
  "address_honours 0 example_domain"
  using example_range_facts(1) example_domain_facts(2)
  by (simp_all add: example_provider_def example_processor_capability_def capability_int32_def
      constraint_int32_def example_negotiation_def Let_def address_honours_def example_domain_def)

theorem negotiation_keeps_promises_witness:
  "pn_zero_copy example_negotiation = False
   \<and> layout_matches (pc_output (pn_config example_negotiation)) example_domain
        (pcap_output_width example_processor_capability) (pcap_output_height example_processor_capability) 0"
proof -
  have "\<forall>c \<in> set (cap_processors example_provider). capability_int32 c"
    by (simp add: example_processor_facts)
  from negotiation_keeps_promises [OF example_negotiated this]
  show ?thesis
    using example_processor_facts by (auto split: if_splits)
qed

end
