(* ===== verification/Backend.thy ===== *)
theory Backend
  imports Media_Codec
begin

text \<open>
  \<open>include/eavp/media/backend.hpp\<close>: the interface of video processors and encoders, and the
  binding of an instance to the thread that configured it.

  A backend is a state \<open>'d\<close> (with whatever world it touches) and the record \<open>backend_ops\<close> of its
  virtual functions; \<open>'e\<close> is the environment of a call: the calling thread and what throws. The
  locale \<open>fifo_device\<close> is the contract the backend nodes rely on: frames leave in the order in
  which they were accepted, none is lost or invented. The reference backend provides it.
\<close>

datatype backend_state = B_Created | B_Configured | B_Running | B_Draining | B_Stopped | B_Error

subsection \<open>Thread affinity\<close>

type_synonym affinity = "nat option"

definition verify_current_thread :: "nat \<Rightarrow> affinity \<Rightarrow> status" where
  "verify_current_thread t a =
     (case a of
        Some owner \<Rightarrow>
          if owner \<noteq> t
          then status_msg kInvalidState ''backend instance called from a different executor thread''
          else ok_status
      | None \<Rightarrow> ok_status)"

definition bind_to_current_thread :: "nat \<Rightarrow> affinity \<Rightarrow> status \<times> affinity" where
  "bind_to_current_thread t a =
     (case a of None \<Rightarrow> (ok_status, Some t) | Some owner \<Rightarrow> (verify_current_thread t a, a))"

lemma bind_ok:
  "st_ok (fst (bind_to_current_thread t a)) \<longleftrightarrow> a = None \<or> a = Some t"
  "st_ok (fst (bind_to_current_thread t a)) \<Longrightarrow> snd (bind_to_current_thread t a) = Some t"
  by (auto simp: bind_to_current_thread_def verify_current_thread_def split: option.splits if_splits)

lemma verify_ok: "st_ok (verify_current_thread t a) \<longleftrightarrow> a = None \<or> a = Some t"
  by (auto simp: verify_current_thread_def split: option.splits)

subsection \<open>The interface\<close>

record ('d, 'c, 'o) backend_ops =
  bk_state :: "'d \<Rightarrow> backend_state"
  bk_configure :: "'c \<Rightarrow> 'd \<Rightarrow> status outcome \<times> 'd"
  bk_submit :: "video_frame option \<Rightarrow> 'd \<Rightarrow> status outcome \<times> 'd"
  bk_receive :: "'d \<Rightarrow> 'o result outcome \<times> 'd"
  bk_begin_drain :: "'d \<Rightarrow> status outcome \<times> 'd"
  bk_reset :: "'d \<Rightarrow> status outcome \<times> 'd"

subsection \<open>A program of submissions, receptions and drains\<close>

datatype dev_op = Dev_submit video_frame | Dev_receive | Dev_drain

text \<open>The state, the frames accepted so far and the results handed out so far.\<close>

fun dev_step ::
  "('d, 'c, 'o) backend_ops \<Rightarrow> dev_op \<Rightarrow> 'd \<times> video_frame list \<times> 'o list \<Rightarrow> 'd \<times> video_frame list \<times> 'o list" where
  "dev_step ops (Dev_submit f) (d, fs, xs) =
     (case bk_submit ops (Some f) d of
        (Ret s, d') \<Rightarrow> (d', if st_ok s then fs @ [f] else fs, xs)
      | (Throw e, d') \<Rightarrow> (d', fs, xs))"
| "dev_step ops Dev_receive (d, fs, xs) =
     (case bk_receive ops d of
        (Ret (Inr x), d') \<Rightarrow> (d', fs, xs @ [x])
      | (_, d') \<Rightarrow> (d', fs, xs))"
| "dev_step ops Dev_drain (d, fs, xs) = (snd (bk_begin_drain ops d), fs, xs)"

fun dev_run ::
  "('e \<Rightarrow> ('d, 'c, 'o) backend_ops) \<Rightarrow> ('e \<times> dev_op) list \<Rightarrow> 'd \<times> video_frame list \<times> 'o list \<Rightarrow>
     'd \<times> video_frame list \<times> 'o list" where
  "dev_run ops [] s = s"
| "dev_run ops ((e, p) # ps) s = dev_run ops ps (dev_step (ops e) p s)"

text \<open>What was handed out are the images of the first frames accepted, the rest is pending.\<close>

definition fifo_account ::
  "(video_frame \<Rightarrow> 'o \<Rightarrow> bool) \<Rightarrow> video_frame list \<Rightarrow> video_frame list \<Rightarrow> 'o list \<Rightarrow> bool" where
  "fifo_account img pending fs xs \<longleftrightarrow> (\<exists>gs. fs = gs @ pending \<and> list_all2 img gs xs)"

definition dev_accounts ::
  "('d, 'c, 'o) backend_ops \<Rightarrow> ('d \<Rightarrow> bool) \<Rightarrow> ('d \<Rightarrow> video_frame list) \<Rightarrow> (video_frame \<Rightarrow> 'o \<Rightarrow> bool) \<Rightarrow>
     'd \<times> video_frame list \<times> 'o list \<Rightarrow> bool" where
  "dev_accounts ops good pending img s \<longleftrightarrow> (case s of (d, fs, xs) \<Rightarrow> good d \<and>
     (bk_state ops d = B_Error \<or> fifo_account img (pending d) fs xs))"

lemma fifo_account_submit: "fifo_account im q fs xs \<Longrightarrow> fifo_account im (q @ [f]) (fs @ [f]) xs"
  by (auto simp: fifo_account_def)

lemma fifo_account_receive: "fifo_account im (f # q) fs xs \<Longrightarrow> im f x \<Longrightarrow> fifo_account im q fs (xs @ [x])"
proof -
  assume "fifo_account im (f # q) fs xs" and x: "im f x"
  then obtain gs where gs: "fs = gs @ f # q" "list_all2 im gs xs" by (auto simp: fifo_account_def)
  then have "list_all2 im (gs @ [f]) (xs @ [x])" using x by (simp add: list_all2_appendI)
  with gs show ?thesis unfolding fifo_account_def by (intro exI [of _ "gs @ [f]"]) simp
qed

lemma fifo_account_empty: "fifo_account im [] fs xs \<longleftrightarrow> list_all2 im fs xs"
  by (simp add: fifo_account_def)

locale fifo_device =
  fixes ops :: "'e \<Rightarrow> ('d, 'c, 'o) backend_ops"
    and pending :: "'d \<Rightarrow> video_frame list"
    and img :: "video_frame \<Rightarrow> 'o \<Rightarrow> bool"
    and good :: "'d \<Rightarrow> bool"
  assumes state_same: "bk_state (ops e) = bk_state (ops e')"
    and submit_law: "good d \<Longrightarrow> bk_submit (ops e) (Some f) d = (r, d') \<Longrightarrow> good d' \<and>
      (bk_state (ops e) d' = B_Error \<or> (case r of
         Ret s \<Rightarrow> if st_ok s then pending d' = pending d @ [f] else d' = d
       | Throw _ \<Rightarrow> d' = d))"
    and submit_error: "bk_state (ops e) d = B_Error \<Longrightarrow> bk_submit (ops e) (Some f) d = (r, d') \<Longrightarrow>
      bk_state (ops e) d' = B_Error"
    and receive_law: "good d \<Longrightarrow> bk_receive (ops e) d = (y, d') \<Longrightarrow> good d' \<and>
      (bk_state (ops e) d' = B_Error \<or> (case y of
         Ret (Inr x) \<Rightarrow> (\<exists>f. pending d = f # pending d' \<and> img f x)
       | Ret (Inl s) \<Rightarrow> pending d' = pending d
       | Throw _ \<Rightarrow> pending d' = pending d))"
    and receive_error: "bk_state (ops e) d = B_Error \<Longrightarrow> bk_receive (ops e) d = (y, d') \<Longrightarrow>
      bk_state (ops e) d' = B_Error"
    and receive_eos: "good d \<Longrightarrow> bk_receive (ops e) d = (Ret (Inl s), d') \<Longrightarrow> st_code s = kEndOfStream \<Longrightarrow>
      bk_state (ops e) d' \<noteq> B_Error \<Longrightarrow> pending d = []"
    and drain_law: "good d \<Longrightarrow> bk_begin_drain (ops e) d = (r, d') \<Longrightarrow> good d' \<and> pending d' = pending d"
    and drain_error: "bk_state (ops e) d = B_Error \<Longrightarrow> bk_begin_drain (ops e) d = (r, d') \<Longrightarrow>
      bk_state (ops e) d' = B_Error"
begin

lemma error_any: "bk_state (ops e) d = B_Error \<Longrightarrow> bk_state (ops e') d = B_Error"
  using state_same by metis

lemma dev_step_accounts: "dev_accounts (ops e) good pending img s \<Longrightarrow> dev_accounts (ops e) good pending img (dev_step (ops e) p s)"
proof -
  assume a: "dev_accounts (ops e) good pending img s"
  obtain d fs xs where s: "s = (d, fs, xs)" by (cases s)
  have g: "good d" and cases: "bk_state (ops e) d = B_Error \<or> fifo_account img (pending d) fs xs"
    using a by (auto simp: dev_accounts_def s)
  show ?thesis
  proof (cases p)
    case (Dev_submit f)
    obtain r d' where r: "bk_submit (ops e) (Some f) d = (r, d')" by fastforce
    note law = submit_law [OF g r]
    show ?thesis
      using law cases submit_error [OF _ r] error_any [of e d']
      by (cases r) (auto simp: dev_accounts_def s Dev_submit r fifo_account_submit split: if_splits)
  next
    case Dev_receive
    obtain r d' where r: "bk_receive (ops e) d = (r, d')" by fastforce
    note law = receive_law [OF g r]
    show ?thesis
      using law cases receive_error [OF _ r] error_any [of e d']
      by (auto simp: dev_accounts_def s Dev_receive r split: outcome.splits sum.splits
          intro: fifo_account_receive)
  next
    case Dev_drain
    obtain r d' where r: "bk_begin_drain (ops e) d = (r, d')" by fastforce
    show ?thesis
      using drain_law [OF g r] cases drain_error [OF _ r] error_any [of e d']
      by (auto simp: dev_accounts_def s Dev_drain r)
  qed
qed

lemma dev_accounts_any: "dev_accounts (ops e) good pending img s \<Longrightarrow> dev_accounts (ops e') good pending img s"
  using state_same [of e e'] by (simp add: dev_accounts_def)

lemma dev_run_accounts: "dev_accounts (ops e) good pending img s \<Longrightarrow> dev_accounts (ops e) good pending img (dev_run ops ps s)"
proof (induction ps arbitrary: s)
  case (Cons p ps)
  then show ?case using dev_step_accounts dev_accounts_any by (cases p) (metis dev_run.simps(2))
qed simp

text \<open>From an empty device: what has been handed out are the imgs of a prefix of what has been
  accepted, in order; when the end of the stream is reported, of all of it.\<close>

lemma run_fifo:
  assumes "good d" "pending d = []" "dev_run ops ps (d, [], []) = (d', fs, xs)"
    "bk_state (ops e) d' \<noteq> B_Error"
  shows "\<exists>gs. fs = gs @ pending d' \<and> list_all2 img gs xs"
proof -
  have "dev_accounts (ops e) good pending img (d, [], [])"
    using assms(1,2) by (simp add: dev_accounts_def fifo_account_def)
  from dev_run_accounts [OF this, of ps] show ?thesis
    using assms(3,4) by (auto simp: dev_accounts_def fifo_account_def)
qed

lemma run_complete:
  assumes "good d" "pending d = []" "dev_run ops ps (d, [], []) = (d', fs, xs)"
    "bk_receive (ops e) d' = (Ret (Inl s), d'')" "st_code s = kEndOfStream" "bk_state (ops e) d'' \<noteq> B_Error"
  shows "list_all2 img fs xs"
proof -
  have "good d'"
    using dev_run_accounts [of e "(d, [], [])" ps] assms(1-3)
    by (simp add: dev_accounts_def fifo_account_def)
  from receive_eos [OF this assms(4-6)] show ?thesis
    using run_fifo [OF assms(1-3), of e] receive_error [OF _ assms(4)] assms(6) by auto
qed

end

end
