(* ===== verification/Backend_Node.thy ===== *)
theory Backend_Node
  imports Backend Queue_Port Media_Node
begin

text \<open>
  \<open>src/media/backend_node.cpp\<close>: the nodes that put a video processor or a video encoder into a
  pipeline. The code has the node twice, with the same statements and other types; here it is
  generic in the backend, whose noun stands in the messages, and instantiated twice at the end.

  A node's world is its own fields and the two queues' stores it works on: the frames it takes
  from its input port and the results it sends through its output port.
\<close>

record ('d, 'c, 'o) bnode =
  bn_device :: "'d option"
  bn_config :: 'c
  bn_input :: input_port
  bn_output :: output_port
  bn_pending_in :: "video_frame option"
  bn_pending_out :: "'o option"
  bn_drain_started :: bool
  bn_frames :: "video_frame queue_store"
  bn_outs :: "'o queue_store"

definition bnode_new ::
  "string \<Rightarrow> 'd option \<Rightarrow> 'c \<Rightarrow> size_t \<Rightarrow> video_frame queue_store \<Rightarrow> 'o queue_store \<Rightarrow> ('d, 'c, 'o) bnode" where
  "bnode_new output_name d c capacity frames outs =
     \<lparr>bn_device = d, bn_config = c, bn_input = input_port_new ''frame_input'' capacity kBlock,
      bn_output = output_port_new output_name, bn_pending_in = None, bn_pending_out = None,
      bn_drain_started = False, bn_frames = frames, bn_outs = outs\<rparr>"

definition node_allocation_failure :: status where
  "node_allocation_failure = status_msg kResourceExhausted ''backend node could not allocate result metadata''"

definition node_unexpected_failure :: status where
  "node_unexpected_failure = status_msg kInternal ''backend node caught an unexpected backend exception''"

definition is_temporarily_empty :: "status \<Rightarrow> bool" where
  "is_temporarily_empty s \<longleftrightarrow> st_code s = kWouldBlock \<or> st_code s = kNotFound"

text \<open>Sequencing with exceptions, a call of the device, and the two handlers.\<close>

definition andthen :: "'a outcome \<times> 's \<Rightarrow> ('a \<Rightarrow> 's \<Rightarrow> 'b outcome \<times> 's) \<Rightarrow> 'b outcome \<times> 's" where
  "andthen m f = (case m of (Ret x, s) \<Rightarrow> f x s | (Throw e, s) \<Rightarrow> (Throw e, s))"

definition dev_call ::
  "('d \<Rightarrow> 'a outcome \<times> 'd) \<Rightarrow> ('d, 'c, 'o) bnode \<Rightarrow> 'a outcome \<times> ('d, 'c, 'o) bnode" where
  "dev_call f n = (case f (the (bn_device n)) of (r, d) \<Rightarrow> (r, n\<lparr>bn_device := Some d\<rparr>))"

definition node_try :: "status outcome \<times> 's \<Rightarrow> status outcome \<times> 's" where
  "node_try m =
     (case m of
        (Ret s, n) \<Rightarrow> (Ret s, n)
      | (Throw Bad_alloc, n) \<Rightarrow> (Ret node_allocation_failure, n)
      | (Throw Other_exn, n) \<Rightarrow> (Ret node_unexpected_failure, n))"

definition bnode_prepare ::
  "string \<Rightarrow> ('d, 'c, 'o) backend_ops \<Rightarrow> ('d, 'c, 'o) bnode \<Rightarrow> status outcome \<times> ('d, 'c, 'o) bnode" where
  "bnode_prepare noun ops n =
     (case bn_device n of
        None \<Rightarrow> (Ret (status_msg kInvalidState (''video '' @ noun @ '' node has no backend instance'')), n)
      | Some _ \<Rightarrow> node_try (dev_call (bk_configure ops (bn_config n)) n))"

definition send_pending_output :: "('d, 'c, 'o) bnode \<Rightarrow> status \<times> ('d, 'c, 'o) bnode" where
  "send_pending_output n =
     (case bn_pending_out n of
        None \<Rightarrow> (ok_status, n)
      | Some x \<Rightarrow>
          (case port_send (Some x) (bn_output n) (bn_outs n) of (status, qs) \<Rightarrow>
             (status, n\<lparr>bn_outs := qs, bn_pending_out := if st_ok status then None else Some x\<rparr>)))"

definition receive_input :: "('d, 'c, 'o) bnode \<Rightarrow> video_frame result \<times> ('d, 'c, 'o) bnode" where
  "receive_input n = (case port_receive (bn_input n) (bn_frames n) of (r, qs) \<Rightarrow> (r, n\<lparr>bn_frames := qs\<rparr>))"

text \<open>The second half of \<open>on_tick\<close>: submit the pending or the next frame.\<close>

definition tick_submit ::
  "('d, 'c, 'o) backend_ops \<Rightarrow> ('d, 'c, 'o) bnode \<Rightarrow> status outcome \<times> ('d, 'c, 'o) bnode" where
  "tick_submit ops n =
     (case bn_pending_in n of
        Some f \<Rightarrow>
          andthen (dev_call (bk_submit ops (Some f)) n)
            (\<lambda>status n. (Ret status, if st_ok status then n\<lparr>bn_pending_in := None\<rparr> else n))
      | None \<Rightarrow>
          (case receive_input n of
             (Inl s, n) \<Rightarrow> (Ret (if st_code s = kNotFound then ok_status else s), n)
           | (Inr f, n) \<Rightarrow>
               andthen (dev_call (bk_submit ops (Some f)) n)
                 (\<lambda>status n. (Ret status, if st_code status = kWouldBlock then n\<lparr>bn_pending_in := Some f\<rparr> else n))))"

definition bnode_tick ::
  "('d, 'c, 'o) backend_ops \<Rightarrow> ('d, 'c, 'o) bnode \<Rightarrow> status outcome \<times> ('d, 'c, 'o) bnode" where
  "bnode_tick ops n = node_try
     (case send_pending_output n of (status, n) \<Rightarrow>
        if \<not> st_ok status then (Ret status, n)
        else andthen (dev_call (bk_receive ops) n) (\<lambda>output n.
          case output of
            Inr x \<Rightarrow>
              (case send_pending_output (n\<lparr>bn_pending_out := Some x\<rparr>) of (status, n) \<Rightarrow>
                 if \<not> st_ok status then (Ret status, n) else tick_submit ops n)
          | Inl s \<Rightarrow>
              if st_code s = kEndOfStream then (Ret s, n)
              else if \<not> is_temporarily_empty s then (Ret s, n)
              else tick_submit ops n))"

text \<open>Sending a result that the drain has just received.\<close>

definition drain_output :: "'o \<Rightarrow> ('d, 'c, 'o) bnode \<Rightarrow> status outcome \<times> ('d, 'c, 'o) bnode" where
  "drain_output x n =
     (case send_pending_output (n\<lparr>bn_pending_out := Some x\<rparr>) of (status, n) \<Rightarrow>
        (Ret (if st_ok status then status_of kWouldBlock else status), n))"

text \<open>The last part of \<open>on_stop\<close>, once the drain has begun.\<close>

definition drain_receive ::
  "('d, 'c, 'o) backend_ops \<Rightarrow> ('d, 'c, 'o) bnode \<Rightarrow> status outcome \<times> ('d, 'c, 'o) bnode" where
  "drain_receive ops n =
     andthen (dev_call (bk_receive ops) n) (\<lambda>output n.
       case output of Inl s \<Rightarrow> (Ret s, n) | Inr x \<Rightarrow> drain_output x n)"

text \<open>\<open>on_stop\<close> before the drain: first with a frame pending, then with the input queue.\<close>

definition stop_pending ::
  "string \<Rightarrow> ('d, 'c, 'o) backend_ops \<Rightarrow> video_frame \<Rightarrow> ('d, 'c, 'o) bnode \<Rightarrow> status outcome \<times> ('d, 'c, 'o) bnode" where
  "stop_pending noun ops f n =
     andthen (dev_call (bk_submit ops (Some f)) n) (\<lambda>status n.
       if st_ok status then (Ret (status_of kWouldBlock), n\<lparr>bn_pending_in := None\<rparr>)
       else if st_code status \<noteq> kWouldBlock then (Ret status, n)
       else andthen (dev_call (bk_receive ops) n) (\<lambda>output n.
         case output of
           Inr x \<Rightarrow> drain_output x n
         | Inl s \<Rightarrow>
             if st_code s = kEndOfStream
             then (Ret (status_msg kInvalidState (''video '' @ noun @ '' reached EOS with pending input'')), n)
             else (Ret (if is_temporarily_empty s then status_of kWouldBlock else s), n)))"

definition stop_input ::
  "('d, 'c, 'o) backend_ops \<Rightarrow> ('d, 'c, 'o) bnode \<Rightarrow> status outcome \<times> ('d, 'c, 'o) bnode" where
  "stop_input ops n =
     (case receive_input n of
        (Inr f, n) \<Rightarrow>
          andthen (dev_call (bk_submit ops (Some f)) (n\<lparr>bn_pending_in := Some f\<rparr>)) (\<lambda>status n.
            if st_ok status then (Ret (status_of kWouldBlock), n\<lparr>bn_pending_in := None\<rparr>)
            else (Ret status, n))
      | (Inl s, n) \<Rightarrow>
          if st_code s \<noteq> kNotFound then (Ret s, n)
          else andthen (dev_call (bk_receive ops) n) (\<lambda>output n.
            case output of
              Inr x \<Rightarrow> drain_output x n
            | Inl s \<Rightarrow>
                if st_code s = kEndOfStream then (Ret s, n)
                else if \<not> is_temporarily_empty s then (Ret s, n)
                else andthen (dev_call (bk_begin_drain ops) n) (\<lambda>status n.
                  if \<not> st_ok status then (Ret status, n)
                  else drain_receive ops (n\<lparr>bn_drain_started := True\<rparr>))))"

definition bnode_stop ::
  "string \<Rightarrow> ('d, 'c, 'o) backend_ops \<Rightarrow> ('d, 'c, 'o) bnode \<Rightarrow> status outcome \<times> ('d, 'c, 'o) bnode" where
  "bnode_stop noun ops n = node_try
     (case send_pending_output n of (status, n) \<Rightarrow>
        if \<not> st_ok status then (Ret status, n)
        else if \<not> bn_drain_started n
        then (case bn_pending_in n of Some f \<Rightarrow> stop_pending noun ops f n | None \<Rightarrow> stop_input ops n)
        else drain_receive ops n)"

definition bnode_reset ::
  "('d, 'c, 'o) backend_ops \<Rightarrow> ('d, 'c, 'o) bnode \<Rightarrow> status outcome \<times> ('d, 'c, 'o) bnode" where
  "bnode_reset ops n =
     (let n = n\<lparr>bn_pending_in := None, bn_pending_out := None, bn_drain_started := False\<rparr>
      in case bn_device n of
           None \<Rightarrow> (Ret ok_status, n)
         | Some _ \<Rightarrow> node_try (dev_call (bk_reset ops) n))"

definition bnode_hooks :: "string \<Rightarrow> ('d, 'c, 'o) backend_ops \<Rightarrow> ('d, 'c, 'o) bnode hooks" where
  "bnode_hooks noun ops =
     default_hooks\<lparr>on_prepare := bnode_prepare noun ops, on_stop := bnode_stop noun ops,
       on_reset := bnode_reset ops, on_tick := bnode_tick ops\<rparr>"

subsection \<open>The two nodes\<close>

text \<open>The processor node: frames in, frames out.\<close>

definition processor_node_hooks ::
  "('d, video_processor_config, video_frame) backend_ops \<Rightarrow> ('d, video_processor_config, video_frame) bnode hooks" where
  "processor_node_hooks = bnode_hooks ''processor''"

definition processor_node_new ::
  "'d option \<Rightarrow> video_processor_config \<Rightarrow> size_t \<Rightarrow> video_frame queue_store \<Rightarrow> video_frame queue_store \<Rightarrow>
     ('d, video_processor_config, video_frame) bnode" where
  "processor_node_new = bnode_new ''frame_output''"

text \<open>The encoder node: frames in, packets out.\<close>

definition encoder_node_prepare where
  "encoder_node_prepare = bnode_prepare ''encoder''"

definition encoder_node_tick where
  "encoder_node_tick = bnode_tick"

definition encoder_node_stop where
  "encoder_node_stop = bnode_stop ''encoder''"

definition encoder_node_reset where
  "encoder_node_reset = bnode_reset"

definition encoder_node_hooks ::
  "('d, video_format \<times> video_encoder_config, media_packet) backend_ops \<Rightarrow>
     ('d, video_format \<times> video_encoder_config, media_packet) bnode hooks" where
  "encoder_node_hooks ops =
     default_hooks\<lparr>on_prepare := encoder_node_prepare ops, on_stop := encoder_node_stop ops,
       on_reset := encoder_node_reset ops, on_tick := encoder_node_tick ops\<rparr>"

lemma encoder_node_hooks: "encoder_node_hooks = bnode_hooks ''encoder''"
  by (simp add: fun_eq_iff encoder_node_hooks_def bnode_hooks_def encoder_node_prepare_def
      encoder_node_tick_def encoder_node_stop_def encoder_node_reset_def)

definition encoder_node_new ::
  "'d option \<Rightarrow> video_format \<times> video_encoder_config \<Rightarrow> size_t \<Rightarrow> video_frame queue_store \<Rightarrow>
     media_packet queue_store \<Rightarrow> ('d, video_format \<times> video_encoder_config, media_packet) bnode" where
  "encoder_node_new = bnode_new ''packet_output''"

end
