(* ===== verification/Backend_Flow.thy ===== *)
theory Backend_Flow
  imports Backend_Node
begin

text \<open>
  No frame is lost between a backend node's two queues. The world is followed through a program of
  an upstream that offers frames, a downstream that takes results, and the node's own ticks and
  stops: the frames taken over are, in order, those whose results have left the backend, those
  queued in it, the one pending and those in the input queue.
\<close>

definition wired :: "nat \<Rightarrow> nat \<Rightarrow> ('d, 'c, 'o) bnode \<Rightarrow> bool" where
  "wired i j n \<longleftrightarrow> bn_device n \<noteq> None \<and> ip_queue (bn_input n) = Some i \<and> i < length (bn_frames n) \<and> q_policy (bn_frames n ! i) = kBlock
     \<and> op_connections (bn_output n) = [j] \<and> j < length (bn_outs n) \<and> q_policy (bn_outs n ! j) = kBlock"

definition flow ::
  "(video_frame \<Rightarrow> 'o \<Rightarrow> bool) \<Rightarrow> ('d \<Rightarrow> video_frame list) \<Rightarrow> nat \<Rightarrow> nat \<Rightarrow> video_frame list \<Rightarrow> 'o list \<Rightarrow>
     ('d, 'c, 'o) bnode \<Rightarrow> bool" where
  "flow img pending i j produced consumed n \<longleftrightarrow>
     (\<exists>gs. produced = gs @ pending (the (bn_device n)) @ case_option [] (\<lambda>f. [f]) (bn_pending_in n)
             @ q_values (bn_frames n ! i)
        \<and> list_all2 img gs (consumed @ q_values (bn_outs n ! j) @ case_option [] (\<lambda>x. [x]) (bn_pending_out n)))"

subsection \<open>The ports\<close>

lemma preflight_codes: "st_code (preflight_push v q) \<noteq> kEndOfStream"
  by (simp add: preflight_push_def status_msg_def ok_status_def)

lemma send_pending_cases:
  assumes "wired i j n" "send_pending_output n = (s, n')"
  shows "wired i j n' \<and> bn_device n' = bn_device n \<and> bn_frames n' = bn_frames n \<and> bn_pending_in n' = bn_pending_in n
     \<and> bn_drain_started n' = bn_drain_started n
     \<and> q_capacity (bn_outs n' ! j) = q_capacity (bn_outs n ! j)
     \<and> (if st_ok s then bn_pending_out n' = None
          \<and> q_values (bn_outs n' ! j) = q_values (bn_outs n ! j) @ case_option [] (\<lambda>x. [x]) (bn_pending_out n)
        else n' = n \<and> st_code s \<noteq> kEndOfStream \<and> bn_pending_out n \<noteq> None)"
proof (cases "bn_pending_out n")
  case None
  then show ?thesis using assms by (auto simp: send_pending_output_def)
next
  case (Some x)
  let ?q = "bn_outs n ! j"
  have w: "op_connections (bn_output n) = [j]" "j < length (bn_outs n)" "q_policy ?q = kBlock"
    using assms(1) by (simp_all add: wired_def)
  show ?thesis
  proof (cases "st_ok (preflight_push (Some x) ?q)")
    case True
    then have "bqueue_push (Some x) ?q = (ok_status, ?q\<lparr>q_values := q_values ?q @ [x]\<rparr>)"
      using w(3) by (auto simp: bqueue_push_def preflight_push_def Let_def split: if_splits)
    then have "port_send (Some x) (bn_output n) (bn_outs n)
        = (ok_status, (bn_outs n)[j := ?q\<lparr>q_values := q_values ?q @ [x]\<rparr>])"
      using w True by (simp add: port_send_def Let_def)
    then show ?thesis using assms Some w by (auto simp: send_pending_output_def wired_def)
  next
    case False
    then have "port_send (Some x) (bn_output n) (bn_outs n) = (preflight_push (Some x) ?q, bn_outs n)"
      using w by (simp add: port_send_def Let_def)
    then have "s = preflight_push (Some x) ?q \<and> n' = n"
      using assms(2) Some False by (cases n) (auto simp: send_pending_output_def)
    then show ?thesis using assms(1) Some False preflight_codes by auto
  qed
qed

lemma receive_input_cases:
  assumes "wired i j n" "receive_input n = (r, n')"
  shows "wired i j n' \<and> bn_device n' = bn_device n \<and> bn_outs n' = bn_outs n \<and> bn_pending_in n' = bn_pending_in n
     \<and> bn_pending_out n' = bn_pending_out n \<and> bn_drain_started n' = bn_drain_started n
     \<and> (case r of
          Inr f \<Rightarrow> q_values (bn_frames n ! i) = f # q_values (bn_frames n' ! i)
        | Inl s \<Rightarrow> s = status_msg kNotFound ''queue is empty'' \<and> n' = n \<and> q_values (bn_frames n ! i) = [])"
  using assms
  by (cases "q_values (bn_frames n ! i)")
     (auto simp: receive_input_def port_receive_def bqueue_pop_def wired_def)

lemma dev_call_wired: "wired i j n \<Longrightarrow> dev_call f n = (r, n') \<Longrightarrow> wired i j n'"
  by (auto simp: dev_call_def wired_def split: prod.splits)

lemma dev_call_fields:
  "dev_call f n = (r, n') \<Longrightarrow> f (the (bn_device n)) = (r, the (bn_device n')) \<and> n' = n\<lparr>bn_device := Some (the (bn_device n'))\<rparr>"
  by (auto simp: dev_call_def split: prod.splits)

lemma pending_in_same [simp]: "bn_pending_in n = None \<Longrightarrow> n\<lparr>bn_pending_in := None\<rparr> = n"
  by (cases n) simp

lemma andthen_Ret: "andthen (Ret x, s) f = f x s"
  by (simp add: andthen_def)

subsection \<open>The contract of a backend in a node\<close>

locale node_device = fifo_device +
  assumes submit_codes: "good d \<Longrightarrow> bk_submit (ops e) (Some f) d = (Ret s, d') \<Longrightarrow>
      st_code s \<noteq> kNotFound \<and> st_code s \<noteq> kEndOfStream"
    and receive_fails: "bk_receive (ops e) d = (Ret (Inl s), d') \<Longrightarrow> \<not> st_ok s"
    and drain_codes: "bk_begin_drain (ops e) d = (Ret s, d') \<Longrightarrow> st_code s \<noteq> kEndOfStream"
begin

abbreviation "dev n \<equiv> the (bn_device n)"
abbreviation "broken e n \<equiv> bk_state (ops e) (dev n) = B_Error"

text \<open>What holds after a step that did not fail.\<close>

abbreviation "keeps e i j P C n \<equiv> wired i j n \<and> good (dev n) \<and> (broken e n \<or> flow img pending i j P C n)"

lemma send_keeps:
  assumes "keeps e i j P C n" "send_pending_output n = (s, n')"
  shows "keeps e i j P C n'"
  using send_pending_cases [OF _ assms(2), of i j] assms(1)
  by (auto simp: flow_def split: if_splits)

lemma receive_call:
  assumes "keeps e i j P C n" "dev_call (bk_receive (ops e)) n = (r, n')" "bn_pending_out n = None"
  shows "case r of Ret (Inr x) \<Rightarrow> keeps e i j P C (n'\<lparr>bn_pending_out := Some x\<rparr>) | _ \<Rightarrow> keeps e i j P C n'"
    and "bn_pending_out n' = None" "bn_pending_in n' = bn_pending_in n" "bn_frames n' = bn_frames n"
      "bn_drain_started n' = bn_drain_started n" "bn_outs n' = bn_outs n"
proof -
  have w: "wired i j n'" using dev_call_wired [OF _ assms(2)] assms(1) by blast
  note f = dev_call_fields [OF assms(2)]
  have g: "good (dev n)" using assms(1) by blast
  have law: "good (dev n') \<and> (broken e n' \<or> (case r of
         Ret (Inr x) \<Rightarrow> (\<exists>f. pending (dev n) = f # pending (dev n') \<and> img f x)
       | Ret (Inl s) \<Rightarrow> pending (dev n') = pending (dev n)
       | Throw _ \<Rightarrow> pending (dev n') = pending (dev n)))"
    using receive_law [OF g] f by blast
  have err: "broken e n \<Longrightarrow> broken e n'" using receive_error f by blast
  show "bn_pending_out n' = None" "bn_pending_in n' = bn_pending_in n" "bn_frames n' = bn_frames n"
    "bn_drain_started n' = bn_drain_started n" "bn_outs n' = bn_outs n"
    using f assms(3) by (metis bnode.simps bnode.select_convs bnode.surjective bnode.update_convs(1))+
  then show "case r of Ret (Inr x) \<Rightarrow> keeps e i j P C (n'\<lparr>bn_pending_out := Some x\<rparr>) | _ \<Rightarrow> keeps e i j P C n'"
    using w law err assms(1,3)
    by (auto simp: flow_def wired_def list_all2_append2 list_all2_Cons2 split: outcome.splits sum.splits;
      fastforce)
qed

lemma submit_call:
  assumes "keeps e i j P C n" "bn_pending_in n = Some f" "dev_call (bk_submit (ops e) (Some f)) n = (r, n')"
  shows "case r of Ret s \<Rightarrow> if st_ok s then keeps e i j P C (n'\<lparr>bn_pending_in := None\<rparr>) else keeps e i j P C n'
      | Throw _ \<Rightarrow> keeps e i j P C n'"
    and "r = Ret s \<Longrightarrow> st_code s \<noteq> kNotFound \<and> st_code s \<noteq> kEndOfStream"
    and "bn_pending_out n' = bn_pending_out n" "bn_pending_in n' = bn_pending_in n"
      "bn_drain_started n' = bn_drain_started n"
proof -
  have w: "wired i j n'" using dev_call_wired [OF _ assms(3)] assms(1) by blast
  note f = dev_call_fields [OF assms(3)]
  have g: "good (dev n)" using assms(1) by blast
  have law: "good (dev n') \<and> (broken e n' \<or> (case r of
         Ret s \<Rightarrow> if st_ok s then pending (dev n') = pending (dev n) @ [f] else dev n' = dev n
       | Throw _ \<Rightarrow> dev n' = dev n))"
    using submit_law [OF g] f by blast
  have err: "broken e n \<Longrightarrow> broken e n'" using submit_error f by blast
  show "r = Ret s \<Longrightarrow> st_code s \<noteq> kNotFound \<and> st_code s \<noteq> kEndOfStream"
    using submit_codes [OF g] f by blast
  obtain d where n': "n' = n\<lparr>bn_device := Some d\<rparr>" using f by blast
  then show "bn_pending_out n' = bn_pending_out n" "bn_pending_in n' = bn_pending_in n"
    "bn_drain_started n' = bn_drain_started n" by simp_all
  show "case r of Ret s \<Rightarrow> if st_ok s then keeps e i j P C (n'\<lparr>bn_pending_in := None\<rparr>) else keeps e i j P C n'
      | Throw _ \<Rightarrow> keeps e i j P C n'"
    using w law err assms(1,2)
    by (auto simp: n' flow_def wired_def split: outcome.splits if_splits)
qed

lemma dev_call_pin: "dev_call g (n\<lparr>bn_pending_in := x\<rparr>) = (case dev_call g n of (r, n') \<Rightarrow> (r, n'\<lparr>bn_pending_in := x\<rparr>))"
  by (simp add: dev_call_def split: prod.splits)

text \<open>A frame taken from the input queue counts as pending until it is accepted.\<close>

lemma receive_keeps:
  assumes "keeps e i j P C n" "receive_input n = (Inr f, n')" "bn_pending_in n = None"
  shows "keeps e i j P C (n'\<lparr>bn_pending_in := Some f\<rparr>)"
  using receive_input_cases [OF _ assms(2), of i j] assms(1,3)
  by (auto simp: flow_def wired_def)

lemma receive_empty:
  assumes "keeps e i j P C n" "receive_input n = (Inl s, n')"
  shows "n' = n \<and> st_code s = kNotFound \<and> q_values (bn_frames n ! i) = []"
  using receive_input_cases [OF _ assms(2), of i j] assms(1) by (simp add: status_msg_def)

lemma tick_submit_keeps:
  assumes k: "keeps e i j P C n" and t: "tick_submit (ops e) n = (r, n')"
  shows "bn_drain_started n' = bn_drain_started n"
    and "r = Ret s \<Longrightarrow> \<not> tick_fatal s \<Longrightarrow> keeps e i j P C n'"
proof -
  have "bn_drain_started n' = bn_drain_started n \<and> (r = Ret s \<longrightarrow> \<not> tick_fatal s \<longrightarrow> keeps e i j P C n')"
  proof (cases "bn_pending_in n")
    case (Some f)
    obtain r1 n1 where c: "dev_call (bk_submit (ops e) (Some f)) n = (r1, n1)" by fastforce
    note sub = submit_call [OF k Some c]
    show ?thesis
      using t sub by (cases r1) (auto simp: tick_submit_def Some c andthen_def split: if_splits)
  next
    case None
    obtain y n0 where y: "receive_input n = (y, n0)" by fastforce
    show ?thesis
    proof (cases y)
      case (Inl s')
      then show ?thesis
        using t k receive_empty [OF k y [unfolded Inl]] by (auto simp: tick_submit_def None y)
    next
      case (Inr f)
      have k0: "keeps e i j P C (n0\<lparr>bn_pending_in := Some f\<rparr>)"
        using receive_keeps [OF k y [unfolded Inr] None] .
      have n0: "bn_drain_started n0 = bn_drain_started n" "bn_pending_in n0 = None"
        using receive_input_cases [OF _ y, of i j] k None by auto
      obtain r1 n1 where c: "dev_call (bk_submit (ops e) (Some f)) n0 = (r1, n1)" by fastforce
      have c': "dev_call (bk_submit (ops e) (Some f)) (n0\<lparr>bn_pending_in := Some f\<rparr>) = (r1, n1\<lparr>bn_pending_in := Some f\<rparr>)"
        by (simp add: dev_call_pin c)
      note sub = submit_call [OF k0 _ c', simplified]
      obtain d where "n1 = n0\<lparr>bn_device := Some d\<rparr>" using dev_call_fields [OF c] by blast
      then have n1: "bn_pending_in n1 = None" "bn_drain_started n1 = bn_drain_started n0"
        using n0(2) by (cases n0; simp)+
      show ?thesis
        using t sub(1,2) n0 n1
        by (cases r1) (auto simp: tick_submit_def None y Inr c andthen_def tick_fatal_def st_ok_def
            split: if_splits)
    qed
  qed
  then show "bn_drain_started n' = bn_drain_started n"
    and "r = Ret s \<Longrightarrow> \<not> tick_fatal s \<Longrightarrow> keeps e i j P C n'" by blast+
qed

lemma node_try_cases:
  "node_try m = (r, n') \<Longrightarrow> r = Ret s \<Longrightarrow> m = (Ret s, n') \<or> (\<exists>e. m = (Throw e, n') \<and>
     (s = node_allocation_failure \<or> s = node_unexpected_failure))"
  by (auto simp: node_try_def split: prod.splits outcome.splits exn.splits)

lemma node_try_returns: "\<exists>s. fst (node_try m) = Ret s"
  by (auto simp: node_try_def split: prod.splits outcome.splits exn.splits)

lemma handled_fatal: "tick_fatal node_allocation_failure" "tick_fatal node_unexpected_failure"
  by (simp_all add: tick_fatal_def node_allocation_failure_def node_unexpected_failure_def status_msg_def st_ok_def)

lemma tick_keeps:
  assumes k: "keeps e i j P C n" and t: "bnode_tick (ops e) n = (Ret s, n')" and ok: "\<not> tick_fatal s"
  shows "keeps e i j P C n' \<and> bn_drain_started n' = bn_drain_started n"
proof -
  obtain s0 n0 where snd0: "send_pending_output n = (s0, n0)" by fastforce
  have k0: "keeps e i j P C n0" by (rule send_keeps [OF k snd0])
  have same0: "bn_drain_started n0 = bn_drain_started n" "st_ok s0 \<Longrightarrow> bn_pending_out n0 = None"
    using send_pending_cases [OF _ snd0, of i j] k by (auto split: if_splits)
  obtain r1 n1 where rc: "dev_call (bk_receive (ops e)) n0 = (r1, n1)" by fastforce
  note t' = node_try_cases [OF t [unfolded bnode_tick_def snd0 split] refl]
  show ?thesis
  proof (cases "st_ok s0")
    case False
    then show ?thesis using t' k0 same0 ok handled_fatal by auto
  next
    case True
    note rcv = receive_call [OF k0 rc same0(2) [OF True]]
    have after: "keeps e i j P C n' \<and> bn_drain_started n' = bn_drain_started n"
      if "keeps e i j P C m" "tick_submit (ops e) m = (Ret s, n')" "bn_drain_started m = bn_drain_started n" for m
      using tick_submit_keeps [OF that(1,2)] that(3) ok by auto
    show ?thesis
    proof (cases r1)
      case (Throw ex)
      then show ?thesis using t' rc True ok handled_fatal by (auto simp: andthen_def)
    next
      case (Ret y)
      show ?thesis
      proof (cases y)
        case (Inl s1)
        then show ?thesis
          using t' rc True ok handled_fatal Ret rcv after [of n1] same0(1)
          by (auto simp: andthen_def split: if_splits)
      next
        case (Inr x)
        obtain s2 n2 where snd2: "send_pending_output (n1\<lparr>bn_pending_out := Some x\<rparr>) = (s2, n2)" by fastforce
        have k1: "keeps e i j P C (n1\<lparr>bn_pending_out := Some x\<rparr>)" using rcv(1) by (simp add: Ret Inr)
        have k2: "keeps e i j P C n2" by (rule send_keeps [OF k1 snd2])
        have "bn_drain_started n2 = bn_drain_started n"
          using send_pending_cases [OF _ snd2, of i j] k1 rcv same0(1) by auto
        then show ?thesis
          using t' rc True ok handled_fatal Ret Inr snd2 k2 after [of n2]
          by (auto simp: andthen_def split: if_splits)
      qed
    qed
  qed
qed

text \<open>Everything that was taken over has gone out.\<close>

abbreviation "drained e n \<equiv> broken e n \<or> pending (dev n) = [] \<and> bn_pending_in n = None \<and> bn_pending_out n = None"

lemma drain_output_returns: "drain_output x n \<noteq> (Throw ex, n')"
  by (simp add: drain_output_def split: prod.split)

lemma drain_output_keeps:
  assumes "keeps e i j P C (n\<lparr>bn_pending_out := Some x\<rparr>)" "drain_output x n = (r, n')"
  shows "keeps e i j P C n' \<and> bn_drain_started n' = bn_drain_started n \<and> bn_pending_in n' = bn_pending_in n
    \<and> (\<exists>s. r = Ret s \<and> \<not> st_ok s \<and> st_code s \<noteq> kEndOfStream)"
proof -
  obtain s1 n1 where s1: "send_pending_output (n\<lparr>bn_pending_out := Some x\<rparr>) = (s1, n1)" by fastforce
  have r: "r = Ret (if st_ok s1 then status_of kWouldBlock else s1)" "n' = n1"
    using assms(2) by (simp_all add: drain_output_def s1)
  have "wired i j (n\<lparr>bn_pending_out := Some x\<rparr>)" using assms(1) by blast
  from send_pending_cases [OF this s1]
  have "bn_drain_started n1 = bn_drain_started n \<and> bn_pending_in n1 = bn_pending_in n
      \<and> (\<not> st_ok s1 \<longrightarrow> st_code s1 \<noteq> kEndOfStream)"
    by (auto split: if_splits)
  then show ?thesis using send_keeps [OF assms(1) s1] by (simp add: r status_of_def st_ok_def)
qed

lemma drain_receive_keeps:
  assumes k: "keeps e i j P C n" and out: "bn_pending_out n = None" and d: "drain_receive (ops e) n = (Ret s, n')"
  shows "keeps e i j P C n' \<and> bn_drain_started n' = bn_drain_started n \<and> bn_pending_in n' = bn_pending_in n
    \<and> \<not> st_ok s \<and> (st_code s = kEndOfStream \<longrightarrow> broken e n' \<or> pending (dev n') = [] \<and> bn_pending_out n' = None)"
proof -
  obtain r1 n1 where rc: "dev_call (bk_receive (ops e)) n = (r1, n1)" by fastforce
  note rcv = receive_call [OF k rc out]
  note f = dev_call_fields [OF rc]
  have g: "good (dev n)" using k by blast
  show ?thesis
  proof (cases r1)
    case (Throw ex)
    then show ?thesis using d by (simp add: drain_receive_def rc andthen_def)
  next
    case (Ret y)
    show ?thesis
    proof (cases y)
      case (Inl s1)
      have e: "n' = n1" "s = s1" using d by (simp_all add: drain_receive_def rc andthen_def Ret Inl)
      have call: "bk_receive (ops e) (dev n) = (Ret (Inl s), dev n1)" using f by (simp add: Ret Inl e)
      have "st_code s = kEndOfStream \<Longrightarrow> \<not> broken e n1 \<Longrightarrow> pending (dev n1) = []"
        using receive_eos [OF g call] receive_law [OF g call] by auto
      then show ?thesis using rcv receive_fails [OF call] by (auto simp: e Ret Inl)
    next
      case (Inr x)
      then show ?thesis
        using d rcv drain_output_keeps [where n = n1 and x = x and r = "Ret s" and n' = n' and e = e and i = i and j = j]
        by (auto simp: drain_receive_def rc andthen_def Ret)
    qed
  qed
qed

text \<open>What a part of \<open>on_stop\<close> leaves: nothing lost, and at the end of the stream everything out.\<close>

abbreviation "stop_post e i j P C r n \<equiv> keeps e i j P C n \<and> (bn_drain_started n \<longrightarrow> bn_pending_in n = None)
  \<and> (\<forall>s. r = Ret s \<longrightarrow> \<not> st_ok s \<and> (st_code s = kEndOfStream \<longrightarrow> drained e n))"

lemma stop_pending_keeps:
  assumes k: "keeps e i j P C n" and pin: "bn_pending_in n = Some f" and out: "bn_pending_out n = None"
    and nd: "\<not> bn_drain_started n" and d: "stop_pending noun (ops e) f n = (r, n')"
  shows "stop_post e i j P C r n'"
proof -
  obtain r1 n1 where c: "dev_call (bk_submit (ops e) (Some f)) n = (r1, n1)" by fastforce
  note sub = submit_call [OF k pin c]
  show ?thesis
  proof (cases r1)
    case (Throw ex)
    then show ?thesis using d sub nd by (auto simp: stop_pending_def c andthen_def)
  next
    case (Ret s1)
    show ?thesis
    proof (cases "st_code s1 = kWouldBlock")
      case False
      then show ?thesis
        using d sub nd Ret by (auto simp: stop_pending_def c andthen_def status_of_def st_ok_def split: if_splits)
    next
      case True
      then have k1: "keeps e i j P C n1" using sub(1) Ret by (auto simp: st_ok_def)
      obtain r2 n2 where rc: "dev_call (bk_receive (ops e)) n1 = (r2, n2)" by fastforce
      have out1: "bn_pending_out n1 = None" using sub(3) out by simp
      note rcv = receive_call [OF k1 rc out1]
      have d': "andthen (r2, n2) (\<lambda>output n. case output of Inr x \<Rightarrow> drain_output x n | Inl s \<Rightarrow>
             if st_code s = kEndOfStream
             then (Ret (status_msg kInvalidState (''video '' @ noun @ '' reached EOS with pending input'')), n)
             else (Ret (if is_temporarily_empty s then status_of kWouldBlock else s), n)) = (r, n')"
        using d True by (simp add: stop_pending_def c andthen_def Ret rc st_ok_def)
      have nd2: "\<not> bn_drain_started n2" using rcv(5) sub(5) nd by simp
      show ?thesis
      proof (cases r2)
        case (Throw ex)
        then show ?thesis using d' rcv(1) nd2 by (auto simp: andthen_def)
      next
        case r2: (Ret y)
        show ?thesis
        proof (cases y)
          case (Inl s2)
          have "\<not> st_ok s2"
            using receive_fails [of e "dev n1" s2 "dev n2"] dev_call_fields [OF rc] by (simp add: r2 Inl)
          then show ?thesis
            using d' rcv(1) nd2 by (auto simp: andthen_def r2 Inl status_msg_def status_of_def st_ok_def split: if_splits)
        next
          case (Inr x)
          then show ?thesis
            using d' rcv(1) nd2 drain_output_keeps [where n = n2 and x = x and r = r and n' = n' and e = e and i = i and j = j]
            by (auto simp: andthen_def r2)
        qed
      qed
    qed
  qed
qed

lemma stop_input_keeps:
  assumes k: "keeps e i j P C n" and pin: "bn_pending_in n = None" and out: "bn_pending_out n = None"
    and nd: "\<not> bn_drain_started n" and d: "stop_input (ops e) n = (r, n')"
  shows "stop_post e i j P C r n'"
proof -
  obtain y n0 where y: "receive_input n = (y, n0)" by fastforce
  show ?thesis
  proof (cases y)
    case (Inr f)
    have k0: "keeps e i j P C (n0\<lparr>bn_pending_in := Some f\<rparr>)" using receive_keeps [OF k y [unfolded Inr] pin] .
    obtain r1 n1 where c: "dev_call (bk_submit (ops e) (Some f)) (n0\<lparr>bn_pending_in := Some f\<rparr>) = (r1, n1)" by fastforce
    note sub = submit_call [OF k0 _ c, simplified]
    have "\<not> bn_drain_started n1" using sub(5) receive_input_cases [OF _ y, of i j] k nd by auto
    then show ?thesis
      using d sub(1,2) by (cases r1) (auto simp: stop_input_def y Inr c andthen_def status_of_def st_ok_def split: if_splits)
  next
    case (Inl s0)
    have e0: "n0 = n" "st_code s0 = kNotFound" using receive_empty [OF k y [unfolded Inl]] by simp_all
    obtain r1 n1 where rc: "dev_call (bk_receive (ops e)) n = (r1, n1)" by fastforce
    note rcv = receive_call [OF k rc out]
    have nd1: "\<not> bn_drain_started n1" and pin1: "bn_pending_in n1 = None" using rcv nd pin by simp_all
    have d': "andthen (r1, n1) (\<lambda>output n. case output of Inr x \<Rightarrow> drain_output x n | Inl s \<Rightarrow>
                if st_code s = kEndOfStream then (Ret s, n)
                else if \<not> is_temporarily_empty s then (Ret s, n)
                else andthen (dev_call (bk_begin_drain (ops e)) n) (\<lambda>status n.
                  if \<not> st_ok status then (Ret status, n)
                  else drain_receive (ops e) (n\<lparr>bn_drain_started := True\<rparr>))) = (r, n')"
      using d by (simp add: stop_input_def y Inl e0 rc)
    show ?thesis
    proof (cases r1)
      case (Throw ex)
      then show ?thesis using d' rcv(1) nd1 by (auto simp: andthen_def)
    next
      case r1: (Ret y1)
      show ?thesis
      proof (cases y1)
        case (Inr x)
        then show ?thesis
          using d' rcv(1) nd1 drain_output_keeps [where n = n1 and x = x and r = r and n' = n' and e = e and i = i and j = j]
          by (auto simp: andthen_def r1)
      next
        case (Inl s1)
        have k1: "keeps e i j P C n1" using rcv(1) by (simp add: r1 Inl)
        have call: "bk_receive (ops e) (dev n) = (Ret (Inl s1), dev n1)"
          using dev_call_fields [OF rc] by (simp add: r1 Inl)
        have g: "good (dev n)" using k by blast
        note fails = receive_fails [OF call]
        have eos: "st_code s1 = kEndOfStream \<Longrightarrow> drained e n1"
          using receive_eos [OF g call] receive_law [OF g call] pin1 rcv(2) by (cases "broken e n1") auto
        show ?thesis
        proof (cases "is_temporarily_empty s1")
          case False
          then show ?thesis using d' k1 fails eos nd1 by (auto simp: andthen_def r1 Inl split: if_splits)
        next
          case True
          then have ne: "st_code s1 \<noteq> kEndOfStream" by (auto simp: is_temporarily_empty_def)
          obtain r2 n2 where bd: "dev_call (bk_begin_drain (ops e)) n1 = (r2, n2)" by fastforce
          obtain d2 where n2: "n2 = n1\<lparr>bn_device := Some d2\<rparr>" and bdc: "bk_begin_drain (ops e) (dev n1) = (r2, d2)"
            using dev_call_fields [OF bd] by (metis bnode.simps(1) bnode.update_convs(1) option.sel)
          have law: "good d2 \<and> pending d2 = pending (dev n1)" using drain_law [OF _ bdc] k1 by blast
          have k2: "keeps e i j P C n2" "keeps e i j P C (n2\<lparr>bn_drain_started := True\<rparr>)"
            using k1 law drain_error [OF _ bdc] by (auto simp: n2 wired_def flow_def)
          have d2': "andthen (r2, n2) (\<lambda>status n. if \<not> st_ok status then (Ret status, n)
                  else drain_receive (ops e) (n\<lparr>bn_drain_started := True\<rparr>)) = (r, n')"
            using d' True ne by (simp add: andthen_Ret r1 Inl bd)
          show ?thesis
          proof (cases "\<exists>s. r2 = Ret s \<and> st_ok s")
            case True
            then have dr: "drain_receive (ops e) (n2\<lparr>bn_drain_started := True\<rparr>) = (r, n')"
              using d2' by (auto simp: andthen_def)
            have pin2: "bn_pending_in (n2\<lparr>bn_drain_started := True\<rparr>) = None" using pin1 by (simp add: n2)
            have out2: "bn_pending_out (n2\<lparr>bn_drain_started := True\<rparr>) = None" using rcv(2) by (simp add: n2)
            show ?thesis
            proof (cases r)
              case (Ret s)
              then show ?thesis
                using drain_receive_keeps [OF k2(2) out2 dr [unfolded Ret]] pin2 by auto
            next
              case (Throw ex)
              obtain r3 n3 where rc3: "dev_call (bk_receive (ops e)) (n2\<lparr>bn_drain_started := True\<rparr>) = (r3, n3)" by fastforce
              note rcv3 = receive_call [OF k2(2) rc3 out2]
              have "r3 = Throw ex \<and> n' = n3"
                using dr
                by (auto simp: drain_receive_def rc3 andthen_def Throw drain_output_returns split: outcome.splits sum.splits)
              then show ?thesis using rcv3(1,3) pin2 by (simp add: Throw)
            qed
          next
            case False
            have "\<not> bn_drain_started n2" using nd1 by (simp add: n2)
            moreover have "n' = n2 \<and> (\<forall>s. r = Ret s \<longrightarrow> r2 = Ret s \<and> \<not> st_ok s)"
              using d2' False by (cases r2) (auto simp: andthen_def split: if_splits)
            moreover have "st_code s \<noteq> kEndOfStream" if "r2 = Ret s" for s
              using drain_codes [OF bdc [unfolded that]] .
            ultimately show ?thesis using k2(1) by auto
          qed
        qed
      qed
    qed
  qed
qed

lemma stop_keeps:
  assumes k: "keeps e i j P C n" and nd: "bn_drain_started n \<longrightarrow> bn_pending_in n = None"
    and d: "bnode_stop noun (ops e) n = (r, n')"
  shows "stop_post e i j P C r n'"
proof -
  obtain s0 n0 where snd0: "send_pending_output n = (s0, n0)" by fastforce
  have k0: "keeps e i j P C n0" by (rule send_keeps [OF k snd0])
  have same0: "bn_drain_started n0 = bn_drain_started n" "bn_pending_in n0 = bn_pending_in n"
    "st_ok s0 \<Longrightarrow> bn_pending_out n0 = None" "\<not> st_ok s0 \<Longrightarrow> st_code s0 \<noteq> kEndOfStream"
    using send_pending_cases [OF _ snd0, of i j] k by (auto split: if_splits)
  let ?body = "if \<not> st_ok s0 then (Ret s0, n0)
        else if \<not> bn_drain_started n0
        then (case bn_pending_in n0 of Some f \<Rightarrow> stop_pending noun (ops e) f n0 | None \<Rightarrow> stop_input (ops e) n0)
        else drain_receive (ops e) n0"
  obtain r1 n1 where b: "?body = (r1, n1)" by fastforce
  have post: "stop_post e i j P C r1 n1"
  proof (cases "st_ok s0")
    case False
    then show ?thesis using b k0 same0 nd by auto
  next
    case True
    show ?thesis
    proof (cases "bn_drain_started n0")
      case False
      then show ?thesis
        using b True same0(3) stop_pending_keeps [OF k0] stop_input_keeps [OF k0]
        by (cases "bn_pending_in n0") auto
    next
      case started: True
      then have pin: "bn_pending_in n0 = None" using nd same0 by simp
      have dr: "drain_receive (ops e) n0 = (r1, n1)" using b True started by simp
      show ?thesis
      proof (cases r1)
        case (Ret s)
        then show ?thesis
          using drain_receive_keeps [OF k0 same0(3) [OF True] dr [unfolded Ret]] pin by auto
      next
        case (Throw ex)
        obtain r3 n3 where rc3: "dev_call (bk_receive (ops e)) n0 = (r3, n3)" by fastforce
        note rcv3 = receive_call [OF k0 rc3 same0(3) [OF True]]
        have "r3 = Throw ex \<and> n1 = n3"
          using dr
          by (auto simp: drain_receive_def rc3 andthen_def Throw drain_output_returns split: outcome.splits sum.splits)
        then show ?thesis using rcv3(1,3) pin by (simp add: Throw)
      qed
    qed
  qed
  have "node_try (r1, n1) = (r, n')"
    using d b by (simp add: bnode_stop_def snd0)
  then show ?thesis
    using post
    by (cases r1; cases "case r1 of Throw ex \<Rightarrow> ex | Ret _ \<Rightarrow> Bad_alloc")
       (auto simp: node_try_def node_allocation_failure_def node_unexpected_failure_def status_msg_def st_ok_def
         split: exn.splits)
qed

end

subsection \<open>Programs of the world around the node\<close>

datatype io_op = Io_produce video_frame | Io_consume | Io_tick | Io_stop

text \<open>The node's life-cycle state, its world, the frames put into the input queue and the results
  taken from the output queue. A step answers \<open>None\<close> when the node's operation failed.\<close>

type_synonym ('d, 'c, 'o) io_state = "node_state \<times> ('d, 'c, 'o) bnode \<times> video_frame list \<times> 'o list"

definition io_node :: "('d, 'c, 'o) bnode hooks \<Rightarrow> node_state \<Rightarrow> ('d, 'c, 'o) bnode node" where
  "io_node hk st = \<lparr>n_id = ''node'', n_state = st, n_hooks = hk\<rparr>"

fun io_step ::
  "nat \<Rightarrow> nat \<Rightarrow> ('d, 'c, 'o) bnode hooks \<Rightarrow> io_op \<Rightarrow> ('d, 'c, 'o) io_state \<Rightarrow> ('d, 'c, 'o) io_state option" where
  "io_step i j hk (Io_produce f) (st, n, P, C) =
     (case bqueue_push (Some f) (bn_frames n ! i) of (s, q) \<Rightarrow>
        Some (st, n\<lparr>bn_frames := (bn_frames n)[i := q]\<rparr>, if st_ok s then P @ [f] else P, C))"
| "io_step i j hk Io_consume (st, n, P, C) =
     (case bqueue_pop (bn_outs n ! j) of
        (Inr x, q) \<Rightarrow> Some (st, n\<lparr>bn_outs := (bn_outs n)[j := q]\<rparr>, P, C @ [x])
      | (Inl _, q) \<Rightarrow> Some (st, n, P, C))"
| "io_step i j hk Io_tick (st, n, P, C) =
     (case node_tick (io_node hk st) n of
        (Ret s, nd, n') \<Rightarrow> if tick_fatal s then None else Some (n_state nd, n', P, C)
      | (Throw _, _, _) \<Rightarrow> None)"
| "io_step i j hk Io_stop (st, n, P, C) =
     (case node_stop (io_node hk st) n of
        (Ret s, nd, n') \<Rightarrow> if tick_fatal s then None else Some (n_state nd, n', P, C)
      | (Throw _, _, _) \<Rightarrow> None)"

fun io_run ::
  "nat \<Rightarrow> nat \<Rightarrow> ('e \<Rightarrow> ('d, 'c, 'o) bnode hooks) \<Rightarrow> ('e \<times> io_op) list \<Rightarrow> ('d, 'c, 'o) io_state \<Rightarrow>
     ('d, 'c, 'o) io_state option" where
  "io_run i j hks [] s = Some s"
| "io_run i j hks ((e, p) # ps) s =
     (case io_step i j (hks e) p s of None \<Rightarrow> None | Some s' \<Rightarrow> io_run i j hks ps s')"

text \<open>The invariant of such a program.\<close>

definition io_inv ::
  "('d, 'c, 'o) backend_ops \<Rightarrow> ('d \<Rightarrow> bool) \<Rightarrow> ('d \<Rightarrow> video_frame list) \<Rightarrow> (video_frame \<Rightarrow> 'o \<Rightarrow> bool) \<Rightarrow>
     nat \<Rightarrow> nat \<Rightarrow> ('d, 'c, 'o) io_state \<Rightarrow> bool" where
  "io_inv bops good pending img i j s \<longleftrightarrow> (case s of (st, n, P, C) \<Rightarrow>
     let d = the (bn_device n); broken = (bk_state bops d = B_Error)
     in wired i j n \<and> good d \<and> (broken \<or> flow img pending i j P C n) \<and> st \<noteq> N_Created
        \<and> (bn_drain_started n \<longrightarrow> bn_pending_in n = None \<and> st \<noteq> N_Running)
        \<and> (st = N_Stopped \<longrightarrow> broken \<or> pending d = [] \<and> bn_pending_in n = None \<and> bn_pending_out n = None))"

lemma bnode_stop_returns: "\<exists>s. fst (bnode_stop noun bops n) = Ret s"
  unfolding bnode_stop_def
  by (auto simp: node_try_def split: prod.splits outcome.splits exn.splits)

context node_device
begin

abbreviation "ioi e i j s \<equiv> io_inv (ops e) good pending img i j s"

lemma io_produce_keeps:
  assumes "ioi e i j (st, n, P, C)" "io_step i j hk (Io_produce f) (st, n, P, C) = Some s'"
  shows "ioi e i j s'"
proof -
  obtain s q where q: "bqueue_push (Some f) (bn_frames n ! i) = (s, q)" by fastforce
  have w: "i < length (bn_frames n)" "q_policy (bn_frames n ! i) = kBlock"
    using assms(1) by (auto simp: wired_def io_inv_def Let_def)
  have "q = (if st_ok s then (bn_frames n ! i)\<lparr>q_values := q_values (bn_frames n ! i) @ [f]\<rparr> else bn_frames n ! i)"
    using q w(2) by (auto simp: bqueue_push_def preflight_push_def Let_def split: if_splits)
  then show ?thesis
    using assms q w by (auto simp: io_inv_def wired_def flow_def Let_def split: if_splits)
qed

lemma io_consume_keeps:
  assumes "ioi e i j (st, n, P, C)" "io_step i j hk Io_consume (st, n, P, C) = Some s'"
  shows "ioi e i j s'"
proof -
  have w: "j < length (bn_outs n)" using assms(1) by (auto simp: io_inv_def wired_def Let_def)
  show ?thesis
    using assms w
    by (cases "q_values (bn_outs n ! j)") (auto simp: bqueue_pop_def io_inv_def wired_def flow_def Let_def)
qed

lemma io_tick_keeps:
  assumes inv: "ioi e i j (st, n, P, C)"
    and step: "io_step i j (bnode_hooks noun (ops e)) Io_tick (st, n, P, C) = Some s'"
  shows "ioi e i j s'"
proof -
  have run: "st = N_Running"
    using step by (auto simp: node_tick_def io_node_def tick_fatal_def status_msg_def st_ok_def split: if_splits)
  obtain r n' where t: "bnode_tick (ops e) n = (r, n')" by fastforce
  then obtain s where r: "r = Ret s" "\<not> tick_fatal s" "s' = (st, n', P, C)"
    using step run by (auto simp: node_tick_def io_node_def bnode_hooks_def split: outcome.splits if_splits)
  have k: "keeps e i j P C n" and nd: "\<not> bn_drain_started n" using inv run by (auto simp: io_inv_def Let_def)
  from tick_keeps [OF k t [unfolded r(1)] r(2)] show ?thesis
    using nd run by (auto simp: r(3) io_inv_def Let_def)
qed

lemma io_stop_keeps:
  assumes inv: "ioi e i j (st, n, P, C)"
    and step: "io_step i j (bnode_hooks noun (ops e)) Io_stop (st, n, P, C) = Some s'"
  shows "ioi e i j s'"
proof (cases "st = N_Stopped")
  case True
  then show ?thesis using inv step by (auto simp: node_stop_def io_node_def tick_fatal_def)
next
  case False
  obtain r n' where t: "bnode_stop noun (ops e) n = (r, n')" by fastforce
  have k: "keeps e i j P C n" and nd: "bn_drain_started n \<longrightarrow> bn_pending_in n = None" and ne: "st \<noteq> N_Created"
    using inv by (auto simp: io_inv_def Let_def)
  note post = stop_keeps [OF k nd t]
  obtain s where r: "r = Ret s"
    using bnode_stop_returns [of noun "ops e" n] by (auto simp: t)
  let ?hk = "bnode_hooks noun (ops e)"
  have ns: "\<not> st_ok s" using post by (simp add: r)
  have "node_stop (io_node ?hk st) n =
      (if st_code s = kEndOfStream then (Ret ok_status, io_node ?hk N_Stopped, n')
       else if st_code s = kWouldBlock \<or> st_code s = kNotFound then (Ret s, io_node ?hk N_Draining, n')
       else (Ret s, io_node ?hk N_Error, n'))"
    using False ne ns
    by (simp add: node_stop_def io_node_def bnode_hooks_def t r Let_def)
  moreover have "tick_fatal s \<longleftrightarrow> st_code s \<noteq> kEndOfStream \<and> st_code s \<noteq> kWouldBlock \<and> st_code s \<noteq> kNotFound"
    using ns by (auto simp: tick_fatal_def)
  ultimately have "s' = ((if st_code s = kEndOfStream then N_Stopped else N_Draining), n', P, C)"
    using step by (auto simp: io_node_def tick_fatal_def [of ok_status] split: if_splits)
  then show ?thesis using post by (auto simp: r io_inv_def Let_def)
qed

lemma io_step_keeps:
  assumes "ioi e i j s" "io_step i j (bnode_hooks noun (ops e)) p s = Some s'"
  shows "ioi e i j s'"
proof -
  obtain st n P C where s: "s = (st, n, P, C)" by (cases s)
  have i: "ioi e i j (st, n, P, C)" using assms(1) by (simp only: s)
  note step = assms(2) [unfolded s]
  show ?thesis
  proof (cases p)
    case (Io_produce f)
    show ?thesis by (rule io_produce_keeps [OF i step [unfolded Io_produce]])
  next
    case Io_consume
    show ?thesis by (rule io_consume_keeps [OF i step [unfolded Io_consume]])
  next
    case Io_tick
    show ?thesis by (rule io_tick_keeps [OF i step [unfolded Io_tick]])
  next
    case Io_stop
    show ?thesis by (rule io_stop_keeps [OF i step [unfolded Io_stop]])
  qed
qed

lemma io_inv_any: "ioi e i j s \<Longrightarrow> ioi e' i j s"
  unfolding io_inv_def using state_same [of e e'] by simp

lemma io_run_keeps:
  "ioi e i j s \<Longrightarrow> io_run i j (\<lambda>e. bnode_hooks noun (ops e)) ps s = Some s' \<Longrightarrow> ioi e i j s'"
proof (induction ps arbitrary: s)
  case (Cons p ps)
  obtain e' p' where p: "p = (e', p')" by (cases p)
  obtain s1 where s1: "io_step i j (bnode_hooks noun (ops e')) p' s = Some s1"
    "io_run i j (\<lambda>e. bnode_hooks noun (ops e)) ps s1 = Some s'"
    using Cons.prems(2) by (auto simp: p split: option.splits)
  have "ioi e i j s1" using io_inv_any [OF io_step_keeps [OF io_inv_any [OF Cons.prems(1)] s1(1)]] .
  then show ?case using Cons.IH s1(2) by blast
qed simp

end

text \<open>A node between an empty input queue and an empty output queue, with an empty backend.\<close>

definition fresh_node :: "nat \<Rightarrow> nat \<Rightarrow> ('d, 'c, 'o) bnode \<Rightarrow> bool" where
  "fresh_node i j n \<longleftrightarrow> wired i j n \<and> bn_pending_in n = None \<and> bn_pending_out n = None
     \<and> \<not> bn_drain_started n \<and> q_values (bn_frames n ! i) = [] \<and> q_values (bn_outs n ! j) = []"

context node_device
begin

lemma run_lossless:
  assumes "fresh_node i j n0" "good (the (bn_device n0))" "pending (the (bn_device n0)) = []"
    and "io_run i j (\<lambda>e. bnode_hooks noun (ops e)) ps (N_Running, n0, [], []) = Some (st, n, P, C)"
    and "bk_state (ops e) (the (bn_device n)) \<noteq> B_Error"
  shows "flow img pending i j P C n"
    and "st = N_Stopped \<Longrightarrow> pending (the (bn_device n)) = [] \<and> bn_pending_in n = None \<and> bn_pending_out n = None"
proof -
  have "ioi e i j (N_Running, n0, [], [])"
    using assms(1-3) by (auto simp: fresh_node_def flow_def io_inv_def Let_def)
  from io_run_keeps [OF this assms(4)] assms(5)
  show "flow img pending i j P C n"
    and "st = N_Stopped \<Longrightarrow> pending (the (bn_device n)) = [] \<and> bn_pending_in n = None \<and> bn_pending_out n = None"
    by (auto simp: io_inv_def Let_def)
qed

end

end
