(* ===== verification/Byte_Memory.thy ===== *)
theory Byte_Memory
  imports Media_Buffer
begin

text \<open>
  The memory that code reads and writes through pointers: the byte at every address, and the
  identity of the next storage to be allocated.
\<close>

record memory =
  mem_bytes :: "size_t \<Rightarrow> 8 word"
  mem_next :: nat

text \<open>\<open>data[0..size)\<close> and writing bytes from an address on.\<close>

definition read_bytes :: "memory \<Rightarrow> size_t \<Rightarrow> nat \<Rightarrow> 8 word list" where
  "read_bytes m a n = map (\<lambda>i. mem_bytes m (a + of_nat i)) [0..<n]"

fun write_bytes :: "size_t \<Rightarrow> 8 word list \<Rightarrow> memory \<Rightarrow> memory" where
  "write_bytes a [] m = m"
| "write_bytes a (b # bs) m = write_bytes (a + 1) bs (m\<lparr>mem_bytes := (mem_bytes m)(a := b)\<rparr>)"

lemma read_write_other: "\<forall>i < length bs. a + of_nat i \<noteq> b \<Longrightarrow> mem_bytes (write_bytes a bs m) b = mem_bytes m b"
proof (induction a bs m rule: write_bytes.induct)
  case (2 a x xs m)
  have "a \<noteq> b" using "2.prems" [rule_format, of 0] by simp
  moreover have "a + 1 + of_nat i \<noteq> b" if "i < length xs" for i
    using "2.prems" [rule_format, of "Suc i"] that by (simp add: add.assoc)
  ultimately show ?case using "2.IH" by simp
qed simp

lemma read_written: "length bs \<le> 2 ^ 64 \<Longrightarrow> i < length bs \<Longrightarrow> mem_bytes (write_bytes a bs m) (a + of_nat i) = bs ! i"
proof (induction a bs m arbitrary: i rule: write_bytes.induct)
  case (2 a x xs m)
  show ?case
  proof (cases i)
    case 0
    have "a + 1 + of_nat j \<noteq> (a :: size_t)" if "j < length xs" for j
    proof -
      have "Suc j < 2 ^ 64" using that "2.prems"(1) by simp
      then have "unat (of_nat (Suc j) :: size_t) = Suc j" by (simp add: unat_of_nat del: of_nat_Suc)
      then have "(of_nat (Suc j) :: size_t) \<noteq> 0" by (metis nat.distinct(1) unat_0)
      moreover have "a + 1 + of_nat j = a + of_nat (Suc j)" by simp
      ultimately show ?thesis by (simp del: of_nat_Suc)
    qed
    then show ?thesis using 0 read_write_other [of xs "a + 1" a] by simp
  next
    case (Suc j)
    then show ?thesis using "2.prems" "2.IH" [of j] by (simp add: add.assoc add.commute [of 1])
  qed
qed simp

lemma read_bytes_written: "length bs \<le> 2 ^ 64 \<Longrightarrow> read_bytes (write_bytes a bs m) a (length bs) = bs"
  by (intro nth_equalityI) (simp_all add: read_bytes_def read_written)

end
