(* ===== verification/Reference_Backend.thy ===== *)
theory Reference_Backend
  imports Backend Provider Byte_Memory
begin

text \<open>
  \<open>src/media/reference_backend.cpp\<close>: the CPU reference processor and encoder, their provider, and
  the 16-byte packets the encoder writes.

  \<open>h\<close> says what throws during a call and \<open>t\<close> is the calling thread. The encoder reads the frame
  and writes the packet through \<open>Buffer::map_plane\<close>, so it works on a memory: the byte at every
  address and the identity of the next storage to be allocated.
\<close>

definition kReferenceProviderId :: string where
  "kReferenceProviderId = ''reference''"

record ref_options =
  ro_queue_capacity :: size_t
  ro_output_delay :: size_t
  ro_device_lost_after :: size_t
  ro_reset_would_block_once :: bool

definition ref_options_default :: ref_options where
  "ref_options_default = \<lparr>ro_queue_capacity = 4, ro_output_delay = 0, ro_device_lost_after = 0,
     ro_reset_would_block_once = False\<rparr>"

definition diagnostic_failure :: "throws \<Rightarrow> status_code \<Rightarrow> string \<Rightarrow> status" where
  "diagnostic_failure h c d =
     (case h S_ref_diagnostic of None \<Rightarrow> status_msg c d | Some e \<Rightarrow> handled e)"

definition ref_device_lost :: status where
  "ref_device_lost =
     status_native kDeviceLost ''reference backend injected device loss'' kReferenceProviderId ''submit'' 0"

fun same_planes :: "plane_layout list \<Rightarrow> plane_layout list \<Rightarrow> bool" where
  "same_planes [] [] = True"
| "same_planes (p # ps) (q # qs) =
     (if \<not> (pl_offset p = pl_offset q \<and> pl_size p = pl_size q \<and> pl_stride p = pl_stride q) then False
      else same_planes ps qs)"
| "same_planes _ _ = False"

definition same_format :: "video_format \<Rightarrow> video_format \<Rightarrow> bool" where
  "same_format l r =
     (if vf_pixel l \<noteq> vf_pixel r \<or> vf_width l \<noteq> vf_width r \<or> vf_height l \<noteq> vf_height r
         \<or> vf_domain l \<noteq> vf_domain r \<or> vf_range l \<noteq> vf_range r \<or> vf_primaries l \<noteq> vf_primaries r
         \<or> vf_transfer l \<noteq> vf_transfer r \<or> vf_matrix l \<noteq> vf_matrix r
         \<or> length (vf_planes l) \<noteq> length (vf_planes r)
      then False else same_planes (vf_planes l) (vf_planes r))"

definition is_identity_processor_config :: "video_processor_config \<Rightarrow> bool" where
  "is_identity_processor_config c \<longleftrightarrow> vf_domain (pc_input c) = kCpu
     \<and> same_format (pc_input c) (pc_output c) \<and> pc_crop_x c = 0 \<and> pc_crop_y c = 0
     \<and> pc_crop_width c = vf_width (pc_input c) \<and> pc_crop_height c = vf_height (pc_input c)
     \<and> pc_rotation c = 0"

definition is_reference_encoder_config :: "video_format \<Rightarrow> video_encoder_config \<Rightarrow> bool" where
  "is_reference_encoder_config i c \<longleftrightarrow> vf_domain i = kCpu \<and> ec_codec c = CodecReference
     \<and> ec_width c = vf_width i \<and> ec_height c = vf_height i
     \<and> ec_rate_control c = kConstantQuality \<and> ec_profile c = ProfileUnknown \<and> ec_level c = 0"

definition unit_constraint :: "int \<Rightarrow> int \<Rightarrow> size_t \<Rightarrow> plane_constraint" where
  "unit_constraint x y n =
     \<lparr>pcn_horizontal = x, pcn_vertical = y, pcn_bytes_per_sample = n, pcn_stride_alignment = 1,
      pcn_offset_alignment = 1, pcn_size_alignment = 1, pcn_address_alignment = 1\<rparr>"

definition reference_formats :: "format_domain list" where
  "reference_formats =
     [\<lparr>fd_pixel = kRgb24, fd_domain = kCpu, fd_constraints = [unit_constraint 1 1 3]\<rparr>,
      \<lparr>fd_pixel = kNv12, fd_domain = kCpu, fd_constraints = [unit_constraint 1 1 1, unit_constraint 1 2 1]\<rparr>,
      \<lparr>fd_pixel = kYuv420p, fd_domain = kCpu,
       fd_constraints = [unit_constraint 1 1 1, unit_constraint 2 2 1, unit_constraint 2 2 1]\<rparr>]"

text \<open>The loop over the formats looks up pixel format and memory domain, as \<open>find_format\<close> does.\<close>

definition validate_reference_alignment :: "throws \<Rightarrow> video_frame \<Rightarrow> status" where
  "validate_reference_alignment h f =
     (case h S_ref_alignment of
        Some e \<Rightarrow> handled e
      | None \<Rightarrow>
          (case find_format reference_formats (vf_pixel (vfr_format f)) (vf_domain (vfr_format f)) of
             Some fd \<Rightarrow> validate_frame_plane_alignment f fd
           | None \<Rightarrow> diagnostic_failure h kCapabilityMismatch
                       ''reference backend has no alignment contract for the submitted frame''))"

definition make_reference_capability :: provider_capability where
  "make_reference_capability =
     (let width = \<lparr>dr_minimum = 1, dr_maximum = 4096, dr_step = 1, dr_alignment = 1\<rparr>; height = width
      in \<lparr>cap_provider = kReferenceProviderId, cap_version = ''0.2'', cap_device = ''reference-cpu'',
          cap_availability = ok_status, cap_kind = KindReference,
          cap_processors = [\<lparr>pcap_input_width = width, pcap_input_height = height,
             pcap_output_width = width, pcap_output_height = height,
             pcap_input_formats = reference_formats, pcap_output_formats = reference_formats,
             pcap_operations = [], pcap_zero_copy = True, pcap_identical = True\<rparr>],
          cap_encoders = [\<lparr>ecap_width = width, ecap_height = height, ecap_codec = CodecReference,
             ecap_profiles = [ProfileUnknown], ecap_levels = [0], ecap_input_formats = reference_formats,
             ecap_rate_controls = [kConstantQuality], ecap_zero_copy = True\<rparr>],
          cap_max_instances = 0, cap_resources = []\<rparr>)"

definition can_submit :: "backend_state \<Rightarrow> bool" where
  "can_submit s \<longleftrightarrow> s = B_Configured \<or> s = B_Running"

definition can_receive :: "backend_state \<Rightarrow> bool" where
  "can_receive s \<longleftrightarrow> s = B_Configured \<or> s = B_Running \<or> s = B_Draining \<or> s = B_Stopped"

subsection \<open>The processor\<close>

record ref_processor =
  rp_affinity :: affinity
  rp_options :: ref_options
  rp_state :: backend_state
  rp_submissions :: size_t
  rp_config :: "video_processor_config option"
  rp_queue :: "video_frame list"

definition ref_processor_new :: "ref_options \<Rightarrow> ref_processor" where
  "ref_processor_new opts =
     \<lparr>rp_affinity = None, rp_options = opts, rp_state = B_Created, rp_submissions = 0, rp_config = None,
      rp_queue = []\<rparr>"

definition rp_configure ::
  "throws \<Rightarrow> nat \<Rightarrow> video_processor_config \<Rightarrow> ref_processor \<Rightarrow> status \<times> ref_processor" where
  "rp_configure h t c p =
     (case bind_to_current_thread t (rp_affinity p) of (affinity, a) \<Rightarrow>
        let p = p\<lparr>rp_affinity := a\<rparr>
        in if \<not> st_ok affinity then (affinity, p)
           else if rp_state p \<noteq> B_Created then (diagnostic_failure h kInvalidState ''configure'', p)
           else if \<not> is_identity_processor_config c
           then (diagnostic_failure h kCapabilityMismatch
                   ''reference processor supports only identical CPU formats'', p)
           else case h S_ref_configure of
                  Some _ \<Rightarrow> (status_of kResourceExhausted, p)
                | None \<Rightarrow> (ok_status, p\<lparr>rp_config := Some c, rp_state := B_Configured\<rparr>))"

text \<open>\<open>config_->input_format\<close> is read only when the state allows submission, hence after
  \<open>configure\<close>; that the pointer is set then is part of the invariant below.\<close>

definition rp_submit :: "throws \<Rightarrow> nat \<Rightarrow> video_frame option \<Rightarrow> ref_processor \<Rightarrow> status \<times> ref_processor" where
  "rp_submit h t frame p =
     (let affinity = verify_current_thread t (rp_affinity p)
      in if \<not> st_ok affinity then (affinity, p)
         else if \<not> can_submit (rp_state p) then (diagnostic_failure h kInvalidState ''submit'', p)
         else case frame of
           None \<Rightarrow> (status_of kInvalidArgument, p)
         | Some f \<Rightarrow>
             if \<not> same_format (vfr_format f) (pc_input (the (rp_config p)))
             then (diagnostic_failure h kCapabilityMismatch
                     ''reference processor input frame format does not match configuration'', p)
             else let alignment = validate_reference_alignment h f
               in if \<not> st_ok alignment then (alignment, p)
                  else if ro_device_lost_after (rp_options p) \<noteq> 0
                          \<and> rp_submissions p \<ge> ro_device_lost_after (rp_options p)
                  then ((case h S_ref_device_lost of None \<Rightarrow> ref_device_lost | Some e \<Rightarrow> handled e),
                        p\<lparr>rp_queue := [], rp_state := B_Error\<rparr>)
                  else if length (rp_queue p) \<ge> unat (ro_queue_capacity (rp_options p))
                  then (status_of kWouldBlock, p)
                  else case h S_ref_push of
                         Some _ \<Rightarrow> (status_of kResourceExhausted, p)
                       | None \<Rightarrow> (ok_status, p\<lparr>rp_queue := rp_queue p @ [f],
                                   rp_submissions := rp_submissions p + 1, rp_state := B_Running\<rparr>))"

definition rp_receive :: "throws \<Rightarrow> nat \<Rightarrow> ref_processor \<Rightarrow> video_frame result \<times> ref_processor" where
  "rp_receive h t p =
     (let affinity = verify_current_thread t (rp_affinity p)
      in if \<not> st_ok affinity then (err affinity, p)
         else if \<not> can_receive (rp_state p) then (err (diagnostic_failure h kInvalidState ''receive''), p)
         else if rp_state p = B_Stopped then (err (status_of kEndOfStream), p)
         else case rp_queue p of
           f # fs \<Rightarrow>
             (case h S_ref_pop of
                Some e \<Rightarrow> (err (handled e), p)
              | None \<Rightarrow> (Inr f, p\<lparr>rp_queue := fs\<rparr>))
         | [] \<Rightarrow>
             if rp_state p = B_Draining then (err (status_of kEndOfStream), p\<lparr>rp_state := B_Stopped\<rparr>)
             else (err (status_of kWouldBlock), p))"

definition rp_begin_drain :: "throws \<Rightarrow> nat \<Rightarrow> ref_processor \<Rightarrow> status \<times> ref_processor" where
  "rp_begin_drain h t p =
     (let affinity = verify_current_thread t (rp_affinity p)
      in if \<not> st_ok affinity then (affinity, p)
         else if rp_state p = B_Stopped \<or> rp_state p = B_Draining then (ok_status, p)
         else if rp_state p \<noteq> B_Configured \<and> rp_state p \<noteq> B_Running
         then (diagnostic_failure h kInvalidState ''drain'', p)
         else (ok_status, p\<lparr>rp_state := B_Draining\<rparr>))"

definition rp_reset :: "nat \<Rightarrow> ref_processor \<Rightarrow> status \<times> ref_processor" where
  "rp_reset t p =
     (let affinity = verify_current_thread t (rp_affinity p)
      in if \<not> st_ok affinity then (affinity, p)
         else (ok_status, p\<lparr>rp_queue := [], rp_config := None, rp_submissions := 0,
                            rp_state := B_Created\<rparr>))"

text \<open>The virtual functions: no exception leaves one of them.\<close>

definition ref_processor_ops ::
  "throws \<times> nat \<Rightarrow> (ref_processor, video_processor_config, video_frame) backend_ops" where
  "ref_processor_ops e =
     (case e of (h, t) \<Rightarrow>
       \<lparr>bk_state = rp_state,
        bk_configure = (\<lambda>c p. apfst Ret (rp_configure h t c p)),
        bk_submit = (\<lambda>f p. apfst Ret (rp_submit h t f p)),
        bk_receive = (\<lambda>p. apfst Ret (rp_receive h t p)),
        bk_begin_drain = (\<lambda>p. apfst Ret (rp_begin_drain h t p)),
        bk_reset = (\<lambda>p. apfst Ret (rp_reset t p))\<rparr>)"

subsection \<open>The encoder\<close>

text \<open>The checksum loop adds unsigned bytes to a 32-bit word.\<close>

fun checksum_from :: "32 word \<Rightarrow> 8 word list \<Rightarrow> 32 word" where
  "checksum_from s [] = s"
| "checksum_from s (b # bs) = checksum_from (s + ucast b) bs"

text \<open>The bytes of the packet: the magic, then \<open>pts\<close> and the checksum with the high byte first.\<close>

definition big_endian :: "nat \<Rightarrow> 'a :: len word \<Rightarrow> 8 word list" where
  "big_endian n w = map (\<lambda>i. ucast (drop_bit (8 * (n - 1 - i)) w)) [0..<n]"

definition packet_bytes :: "int \<Rightarrow> 32 word \<Rightarrow> 8 word list" where
  "packet_bytes pts checksum =
     [0x45, 0x41, 0x56, 0x50] @ big_endian 8 (word_of_int pts :: 64 word) @ big_endian 4 checksum"

text \<open>The end of a region's scope.\<close>

definition drop_region :: "'w storage_ops \<Rightarrow> mapped_region \<Rightarrow> 'w \<Rightarrow> 'w" where
  "drop_region ops r w = fold (\<lambda>s w. snd (do_unmap ops s w)) (fst (region_unmap r)) w"

definition ref_encode ::
  "throws \<Rightarrow> memory storage_ops \<Rightarrow> video_frame \<Rightarrow> memory \<Rightarrow> media_packet result \<times> memory" where
  "ref_encode h ops f m =
     (case map_plane ops (vfr_buffer f) 0 kReadOnly m of
        (Inl s, m) \<Rightarrow> (err s, m)
      | (Inr input, m) \<Rightarrow>
          let checksum = checksum_from 0 (read_bytes m (mr_data input) (unat (mr_size input)))
          in case buffer_allocate_plain h (mem_next m) 16 of
               Inl s \<Rightarrow> (err s, drop_region ops input m)
             | Inr payload \<Rightarrow>
                 let m = m\<lparr>mem_next := Suc (mem_next m)\<rparr>
                 in case map_plane ops payload 0 kReadWrite m of
                      (Inl s, m) \<Rightarrow> (err s, drop_region ops input m)
                    | (Inr output, m) \<Rightarrow>
                        let m = write_bytes (mutable_data output) (packet_bytes (vfr_pts f) checksum) m;
                            created = media_packet_create h
                              \<lparr>mp_buffer = payload, mp_codec = CodecReference,
                               mp_stream_format = StreamReference, mp_stream_index = 0,
                               mp_pts = vfr_pts f, mp_dts = vfr_pts f, mp_duration = 1,
                               mp_time_base = vfr_time_base f, mp_key_frame = True, mp_codec_config = []\<rparr>;
                            m = drop_region ops input (drop_region ops output m)
                        in case created of
                             Inl s \<Rightarrow> (err s, m)
                           | Inr packet \<Rightarrow>
                               (case h S_ref_packet of
                                  Some _ \<Rightarrow> (err (status_of kResourceExhausted), m)
                                | None \<Rightarrow> (Inr packet, m)))"

record ref_encoder =
  re_affinity :: affinity
  re_options :: ref_options
  re_state :: backend_state
  re_reset_would_blocked :: bool
  re_submissions :: size_t
  re_input_format :: "video_format option"
  re_config :: "video_encoder_config option"
  re_queue :: "video_frame list"

definition ref_encoder_new :: "ref_options \<Rightarrow> ref_encoder" where
  "ref_encoder_new opts =
     \<lparr>re_affinity = None, re_options = opts, re_state = B_Created, re_reset_would_blocked = False,
      re_submissions = 0, re_input_format = None, re_config = None, re_queue = []\<rparr>"

definition re_configure ::
  "throws \<Rightarrow> nat \<Rightarrow> video_format \<times> video_encoder_config \<Rightarrow> ref_encoder \<Rightarrow> status \<times> ref_encoder" where
  "re_configure h t c p =
     (case bind_to_current_thread t (re_affinity p) of (affinity, a) \<Rightarrow>
        let p = p\<lparr>re_affinity := a\<rparr>
        in if \<not> st_ok affinity then (affinity, p)
           else if re_state p \<noteq> B_Created then (diagnostic_failure h kInvalidState ''configure'', p)
           else if \<not> is_reference_encoder_config (fst c) (snd c)
           then (diagnostic_failure h kCapabilityMismatch
                   ''reference encoder supports only its CPU reference codec'', p)
           else case h S_ref_configure of
                  Some _ \<Rightarrow> (status_of kResourceExhausted, p\<lparr>re_input_format := None, re_config := None\<rparr>)
                | None \<Rightarrow> (ok_status, p\<lparr>re_input_format := Some (fst c), re_config := Some (snd c),
                                        re_state := B_Configured\<rparr>))"

definition re_submit :: "throws \<Rightarrow> nat \<Rightarrow> video_frame option \<Rightarrow> ref_encoder \<Rightarrow> status \<times> ref_encoder" where
  "re_submit h t frame p =
     (let affinity = verify_current_thread t (re_affinity p)
      in if \<not> st_ok affinity then (affinity, p)
         else if \<not> can_submit (re_state p) then (diagnostic_failure h kInvalidState ''submit'', p)
         else case frame of
           None \<Rightarrow> (status_of kInvalidArgument, p)
         | Some f \<Rightarrow>
             if \<not> same_format (vfr_format f) (the (re_input_format p))
             then (diagnostic_failure h kCapabilityMismatch
                     ''reference encoder input frame format does not match configuration'', p)
             else let alignment = validate_reference_alignment h f
               in if \<not> st_ok alignment then (alignment, p)
                  else if ro_device_lost_after (re_options p) \<noteq> 0
                          \<and> re_submissions p \<ge> ro_device_lost_after (re_options p)
                  then ((case h S_ref_device_lost of None \<Rightarrow> ref_device_lost | Some e \<Rightarrow> handled e),
                        p\<lparr>re_queue := [], re_state := B_Error\<rparr>)
                  else if length (re_queue p) \<ge> unat (ro_queue_capacity (re_options p))
                  then (status_of kWouldBlock, p)
                  else case h S_ref_push of
                         Some _ \<Rightarrow> (status_of kResourceExhausted, p)
                       | None \<Rightarrow> (ok_status, p\<lparr>re_queue := re_queue p @ [f],
                                   re_submissions := re_submissions p + 1, re_state := B_Running\<rparr>))"

definition re_receive ::
  "throws \<Rightarrow> nat \<Rightarrow> memory storage_ops \<Rightarrow> ref_encoder \<times> memory \<Rightarrow> media_packet result \<times> ref_encoder \<times> memory" where
  "re_receive h t ops pm =
     (case pm of (p, m) \<Rightarrow>
      let affinity = verify_current_thread t (re_affinity p)
      in if \<not> st_ok affinity then (err affinity, p, m)
         else if \<not> can_receive (re_state p) then (err (diagnostic_failure h kInvalidState ''receive''), p, m)
         else if re_state p = B_Stopped then (err (status_of kEndOfStream), p, m)
         else if re_queue p \<noteq> []
                 \<and> (re_state p = B_Draining \<or> length (re_queue p) > unat (ro_output_delay (re_options p)))
         then (case h S_ref_encode of
                 Some e \<Rightarrow> (err (handled e), p\<lparr>re_state := B_Error\<rparr>, m)
               | None \<Rightarrow>
                   (case ref_encode h ops (hd (re_queue p)) m of
                      (Inl s, m) \<Rightarrow> (Inl s, p\<lparr>re_state := B_Error\<rparr>, m)
                    | (Inr packet, m) \<Rightarrow> (Inr packet, p\<lparr>re_queue := tl (re_queue p)\<rparr>, m)))
         else if re_state p = B_Draining then (err (status_of kEndOfStream), p\<lparr>re_state := B_Stopped\<rparr>, m)
         else (err (status_of kWouldBlock), p, m))"

definition re_begin_drain :: "throws \<Rightarrow> nat \<Rightarrow> ref_encoder \<Rightarrow> status \<times> ref_encoder" where
  "re_begin_drain h t p =
     (let affinity = verify_current_thread t (re_affinity p)
      in if \<not> st_ok affinity then (affinity, p)
         else if re_state p = B_Stopped \<or> re_state p = B_Draining then (ok_status, p)
         else if re_state p \<noteq> B_Configured \<and> re_state p \<noteq> B_Running
         then (diagnostic_failure h kInvalidState ''drain'', p)
         else (ok_status, p\<lparr>re_state := B_Draining\<rparr>))"

definition re_reset :: "nat \<Rightarrow> ref_encoder \<Rightarrow> status \<times> ref_encoder" where
  "re_reset t p =
     (let affinity = verify_current_thread t (re_affinity p)
      in if \<not> st_ok affinity then (affinity, p)
         else if ro_reset_would_block_once (re_options p) \<and> \<not> re_reset_would_blocked p
         then (status_msg kWouldBlock ''reference encoder injected reset backpressure'',
               p\<lparr>re_reset_would_blocked := True\<rparr>)
         else (ok_status, p\<lparr>re_queue := [], re_input_format := None, re_config := None,
                            re_submissions := 0, re_state := B_Created\<rparr>))"

definition on_encoder :: "(ref_encoder \<Rightarrow> status \<times> ref_encoder) \<Rightarrow> ref_encoder \<times> memory \<Rightarrow>
    status outcome \<times> ref_encoder \<times> memory" where
  "on_encoder f pm = (case f (fst pm) of (s, p) \<Rightarrow> (Ret s, p, snd pm))"

definition ref_encoder_ops ::
  "memory storage_ops \<Rightarrow> throws \<times> nat \<Rightarrow>
     (ref_encoder \<times> memory, video_format \<times> video_encoder_config, media_packet) backend_ops" where
  "ref_encoder_ops ops e =
     (case e of (h, t) \<Rightarrow>
       \<lparr>bk_state = (\<lambda>pm. re_state (fst pm)),
        bk_configure = (\<lambda>c. on_encoder (re_configure h t c)),
        bk_submit = (\<lambda>f. on_encoder (re_submit h t f)),
        bk_receive = (\<lambda>pm. apfst Ret (re_receive h t ops pm)),
        bk_begin_drain = on_encoder (re_begin_drain h t),
        bk_reset = on_encoder (re_reset t)\<rparr>)"

subsection \<open>The provider\<close>

definition ref_probe :: "throws \<Rightarrow> ref_options \<Rightarrow> provider_capability result" where
  "ref_probe h opts =
     (case h S_ref_probe of None \<Rightarrow> Inr make_reference_capability
                          | Some _ \<Rightarrow> err (status_of kResourceExhausted))"

definition ref_create_video_processor :: "throws \<Rightarrow> ref_options \<Rightarrow> ref_processor result" where
  "ref_create_video_processor h opts =
     (case h S_ref_create of None \<Rightarrow> Inr (ref_processor_new opts)
                           | Some _ \<Rightarrow> err (status_of kResourceExhausted))"

definition ref_create_video_encoder :: "throws \<Rightarrow> ref_options \<Rightarrow> ref_encoder result" where
  "ref_create_video_encoder h opts =
     (case h S_ref_create of None \<Rightarrow> Inr (ref_encoder_new opts)
                           | Some _ \<Rightarrow> err (status_of kResourceExhausted))"

end
