(* ===== verification/Reference_Correct.thy ===== *)
theory Reference_Correct
  imports Reference_Backend
begin

text \<open>
  The reference backend keeps the contract \<open>fifo_device\<close>; its packets can be decoded; and what its
  provider negotiates is what its processor and encoder accept.
\<close>

lemma diagnostic_failure_fails [simp]: "c \<noteq> kOk \<Longrightarrow> \<not> st_ok (diagnostic_failure h c d)"
  by (simp add: diagnostic_failure_def split: option.split)

lemma diagnostic_failure_eos [simp]: "c \<noteq> kEndOfStream \<Longrightarrow> st_code (diagnostic_failure h c d) \<noteq> kEndOfStream"
  by (cases "h S_ref_diagnostic"; cases "the (h S_ref_diagnostic)")
     (auto simp: diagnostic_failure_def status_msg_def handled_def status_of_def split: exn.split)

lemma handled_eos [simp]: "st_code (handled e) \<noteq> kEndOfStream"
  by (cases e) (simp_all add: handled_def status_of_def)

lemma verify_eos [simp]: "st_code (verify_current_thread t a) \<noteq> kEndOfStream"
  by (simp add: verify_current_thread_def status_msg_def ok_status_def split: option.split)

lemma device_lost_fails [simp]: "\<not> st_ok ref_device_lost"
  by (simp add: ref_device_lost_def)

subsection \<open>The processor\<close>

definition rp_good :: "ref_processor \<Rightarrow> bool" where
  "rp_good p \<longleftrightarrow> (rp_state p \<in> {B_Created, B_Stopped, B_Error} \<longrightarrow> rp_queue p = [])
     \<and> (can_submit (rp_state p) \<longrightarrow> rp_config p \<noteq> None)
     \<and> length (rp_queue p) \<le> unat (ro_queue_capacity (rp_options p))"

lemma rp_new_good: "rp_good (ref_processor_new opts)"
  by (simp add: rp_good_def ref_processor_new_def can_submit_def)

lemma rp_configure_good: "rp_good p \<Longrightarrow> rp_configure h t c p = (s, p') \<Longrightarrow> rp_good p'"
  by (auto simp: rp_configure_def rp_good_def can_submit_def Let_def split: prod.splits if_splits option.splits)

lemma rp_submit_cases:
  "rp_submit h t (Some f) p = (s, p') \<Longrightarrow>
     \<not> st_ok s \<and> p' = p \<or> \<not> st_ok s \<and> p' = p\<lparr>rp_queue := [], rp_state := B_Error\<rparr>
     \<or> s = ok_status \<and> can_submit (rp_state p) \<and> length (rp_queue p) < unat (ro_queue_capacity (rp_options p))
       \<and> p' = p\<lparr>rp_queue := rp_queue p @ [f], rp_submissions := rp_submissions p + 1, rp_state := B_Running\<rparr>"
  unfolding rp_submit_def Let_def
  by (simp split: if_split_asm option.split_asm; clarsimp)

lemma rp_submit_law:
  assumes "rp_good p" "rp_submit h t (Some f) p = (s, p')"
  shows "rp_good p'" "rp_state p' = B_Error \<or> (if st_ok s then rp_queue p' = rp_queue p @ [f] else p' = p)"
  using rp_submit_cases [OF assms(2)] assms(1) by (elim disjE; simp add: rp_good_def can_submit_def)+

lemma rp_receive_law:
  assumes "rp_good p" "rp_receive h t p = (r, p')"
  shows "rp_good p'" "case r of Inr f \<Rightarrow> rp_queue p = f # rp_queue p' | Inl s \<Rightarrow> rp_queue p' = rp_queue p"
    "r = Inl s \<Longrightarrow> st_code s = kEndOfStream \<Longrightarrow> rp_queue p = [] \<and> rp_state p \<noteq> B_Error"
  using assms
  by (auto simp: rp_receive_def rp_good_def can_submit_def can_receive_def Let_def err_def status_of_def
      split: if_splits option.splits list.splits)

lemma rp_drain_law:
  assumes "rp_good p" "rp_begin_drain h t p = (s, p')"
  shows "rp_good p'" "rp_queue p' = rp_queue p"
  using assms
  by (auto simp: rp_begin_drain_def rp_good_def can_submit_def Let_def split: if_splits)

lemma rp_error_stays:
  assumes "rp_state p = B_Error"
  shows "rp_state (snd (rp_submit h t f p)) = B_Error" "rp_state (snd (rp_receive h t p)) = B_Error"
    "rp_state (snd (rp_begin_drain h t p)) = B_Error"
  using assms
  by (simp_all add: rp_submit_def rp_receive_def rp_begin_drain_def can_submit_def can_receive_def Let_def)

lemmas ref_processor_ops_simps [simp] = ref_processor_ops_def [of "(h, t)" for h t, simplified]

interpretation rp: fifo_device ref_processor_ops rp_queue "(=)" rp_good
proof
  fix e e' :: "throws \<times> nat" and d d' :: ref_processor and f r and y :: "video_frame result outcome"
  obtain h t where e: "e = (h, t)" by (cases e)
  show "bk_state (ref_processor_ops e) = bk_state (ref_processor_ops e')"
    by (cases e; cases e') simp
  show "rp_good d' \<and> (bk_state (ref_processor_ops e) d' = B_Error \<or> (case r of
         Ret s \<Rightarrow> if st_ok s then rp_queue d' = rp_queue d @ [f] else d' = d | Throw _ \<Rightarrow> d' = d))"
    if "rp_good d" "bk_submit (ref_processor_ops e) (Some f) d = (r, d')"
    using that rp_submit_law [OF that(1), of h t f "fst (rp_submit h t (Some f) d)" d']
    by (auto simp: e apfst_def map_prod_def split: prod.splits if_splits)
  show "bk_state (ref_processor_ops e) d' = B_Error"
    if "bk_state (ref_processor_ops e) d = B_Error" "bk_submit (ref_processor_ops e) (Some f) d = (r, d')"
    using that rp_error_stays(1) [of d h t "Some f"] by (auto simp: e apfst_def map_prod_def split: prod.splits)
  show "rp_good d' \<and> (bk_state (ref_processor_ops e) d' = B_Error \<or> (case y of
         Ret (Inr x) \<Rightarrow> (\<exists>f. rp_queue d = f # rp_queue d' \<and> f = x)
       | Ret (Inl s) \<Rightarrow> rp_queue d' = rp_queue d | Throw _ \<Rightarrow> rp_queue d' = rp_queue d))"
    if "rp_good d" "bk_receive (ref_processor_ops e) d = (y, d')"
    using that rp_receive_law(1,2) [OF that(1), of h t "fst (rp_receive h t d)" d']
    by (auto simp: e apfst_def map_prod_def split: prod.splits sum.splits)
  show "bk_state (ref_processor_ops e) d' = B_Error"
    if "bk_state (ref_processor_ops e) d = B_Error" "bk_receive (ref_processor_ops e) d = (y, d')"
    using that rp_error_stays(2) [of d h t] by (auto simp: e apfst_def map_prod_def split: prod.splits)
  show "rp_queue d = []"
    if "rp_good d" "bk_receive (ref_processor_ops e) d = (Ret (Inl s), d')" "st_code s = kEndOfStream" for s
    using that rp_receive_law(3) [OF that(1), of h t "Inl s" d' s]
    by (auto simp: e apfst_def map_prod_def split: prod.splits)
  show "rp_good d' \<and> rp_queue d' = rp_queue d"
    if "rp_good d" "bk_begin_drain (ref_processor_ops e) d = (r, d')"
    using that rp_drain_law [OF that(1), of h t "fst (rp_begin_drain h t d)" d']
    by (auto simp: e apfst_def map_prod_def split: prod.splits)
  show "bk_state (ref_processor_ops e) d' = B_Error"
    if "bk_state (ref_processor_ops e) d = B_Error" "bk_begin_drain (ref_processor_ops e) d = (r, d')"
    using that rp_error_stays(3) [of d h t] by (auto simp: e apfst_def map_prod_def split: prod.splits)
qed

subsection \<open>The encoder\<close>

definition packet_of :: "video_frame \<Rightarrow> media_packet \<Rightarrow> bool" where
  "packet_of f x \<longleftrightarrow> mp_pts x = vfr_pts f \<and> mp_dts x = vfr_pts f \<and> mp_duration x = 1
     \<and> mp_time_base x = vfr_time_base f \<and> mp_codec x = CodecReference
     \<and> mp_stream_format x = StreamReference \<and> mp_key_frame x"

lemma ref_encode_packet: "ref_encode h ops f m = (Inr x, m') \<Longrightarrow> packet_of f x"
  by (auto simp: ref_encode_def media_packet_create_Inr packet_of_def Let_def
      split: prod.splits sum.splits option.splits)

definition re_good :: "ref_encoder \<Rightarrow> bool" where
  "re_good p \<longleftrightarrow> (re_state p \<in> {B_Created, B_Stopped} \<longrightarrow> re_queue p = [])
     \<and> (can_submit (re_state p) \<longrightarrow> re_input_format p \<noteq> None)
     \<and> length (re_queue p) \<le> unat (ro_queue_capacity (re_options p))"

lemma re_new_good: "re_good (ref_encoder_new opts)"
  by (simp add: re_good_def ref_encoder_new_def can_submit_def)

lemma re_configure_good: "re_good p \<Longrightarrow> re_configure h t c p = (s, p') \<Longrightarrow> re_good p'"
  by (auto simp: re_configure_def re_good_def can_submit_def Let_def split: prod.splits if_splits option.splits)

lemma re_submit_cases:
  "re_submit h t (Some f) p = (s, p') \<Longrightarrow>
     \<not> st_ok s \<and> p' = p \<or> \<not> st_ok s \<and> p' = p\<lparr>re_queue := [], re_state := B_Error\<rparr>
     \<or> s = ok_status \<and> can_submit (re_state p) \<and> length (re_queue p) < unat (ro_queue_capacity (re_options p))
       \<and> p' = p\<lparr>re_queue := re_queue p @ [f], re_submissions := re_submissions p + 1, re_state := B_Running\<rparr>"
  unfolding re_submit_def Let_def
  by (simp split: if_split_asm option.split_asm; clarsimp)

lemma re_submit_law:
  assumes "re_good p" "re_submit h t (Some f) p = (s, p')"
  shows "re_good p'" "re_state p' = B_Error \<or> (if st_ok s then re_queue p' = re_queue p @ [f] else p' = p)"
  using re_submit_cases [OF assms(2)] assms(1) by (elim disjE; simp add: re_good_def can_submit_def)+

lemma re_receive_cases:
  "re_receive h t ops (p, m) = (r, p', m') \<Longrightarrow>
     (\<exists>s. r = Inl s \<and> \<not> st_ok s \<and> st_code s \<noteq> kEndOfStream \<and> p' = p \<and> m' = m)
     \<or> r = Inl (status_of kEndOfStream) \<and> (re_state p = B_Stopped \<and> p' = p
          \<or> re_state p = B_Draining \<and> re_queue p = [] \<and> p' = p\<lparr>re_state := B_Stopped\<rparr>) \<and> m' = m
     \<or> can_receive (re_state p) \<and> (\<exists>s. r = Inl s) \<and> re_queue p \<noteq> [] \<and> p' = p\<lparr>re_state := B_Error\<rparr>
     \<or> can_receive (re_state p) \<and> (\<exists>f fs x. re_queue p = f # fs \<and> r = Inr x \<and> packet_of f x \<and> p' = p\<lparr>re_queue := fs\<rparr>)"
  unfolding re_receive_def Let_def
  by (simp split: if_split_asm option.split_asm prod.split_asm sum.split_asm; clarsimp simp: err_def neq_Nil_conv;
      (auto simp: status_of_def dest: ref_encode_packet)?)

lemma re_receive_law:
  assumes "re_good p" "re_receive h t ops (p, m) = (r, p', m')"
  shows "re_good p'" "re_state p' = B_Error \<or>
      (case r of Inr x \<Rightarrow> (\<exists>f. re_queue p = f # re_queue p' \<and> packet_of f x) | Inl s \<Rightarrow> re_queue p' = re_queue p)"
    "r = Inl s \<Longrightarrow> st_code s = kEndOfStream \<Longrightarrow> re_state p' \<noteq> B_Error \<Longrightarrow> re_queue p = []"
  using re_receive_cases [OF assms(2)] assms(1)
  by (elim disjE exE conjE; simp add: re_good_def can_submit_def can_receive_def; fail)+

lemma re_drain_law:
  assumes "re_good p" "re_begin_drain h t p = (s, p')"
  shows "re_good p'" "re_queue p' = re_queue p"
  using assms
  by (auto simp: re_begin_drain_def re_good_def can_submit_def Let_def split: if_splits)

lemma re_error_stays:
  assumes "re_state p = B_Error"
  shows "re_state (snd (re_submit h t f p)) = B_Error" "re_state (fst (snd (re_receive h t ops (p, m)))) = B_Error"
    "re_state (snd (re_begin_drain h t p)) = B_Error"
  using assms
  by (simp_all add: re_submit_def re_receive_def re_begin_drain_def can_submit_def can_receive_def Let_def)

lemmas ref_encoder_ops_simps [simp] = ref_encoder_ops_def [of ops "(h, t)" for ops h t, simplified]

interpretation re: fifo_device "ref_encoder_ops ops" "\<lambda>d. re_queue (fst d)" packet_of "\<lambda>d. re_good (fst d)"
  for ops
proof
  fix e e' :: "throws \<times> nat" and d d' :: "ref_encoder \<times> memory" and f r and y :: "media_packet result outcome"
  obtain h t where e: "e = (h, t)" by (cases e)
  obtain p m where d: "d = (p, m)" by (cases d)
  show "bk_state (ref_encoder_ops ops e) = bk_state (ref_encoder_ops ops e')"
    by (cases e; cases e') simp
  show "re_good (fst d') \<and> (bk_state (ref_encoder_ops ops e) d' = B_Error \<or> (case r of
         Ret s \<Rightarrow> if st_ok s then re_queue (fst d') = re_queue (fst d) @ [f] else d' = d | Throw _ \<Rightarrow> d' = d))"
    if "re_good (fst d)" "bk_submit (ref_encoder_ops ops e) (Some f) d = (r, d')"
    using that re_submit_law [of p h t f "fst (re_submit h t (Some f) p)" "fst d'"]
    by (auto simp: e d on_encoder_def split: prod.splits if_splits)
  show "bk_state (ref_encoder_ops ops e) d' = B_Error"
    if "bk_state (ref_encoder_ops ops e) d = B_Error" "bk_submit (ref_encoder_ops ops e) (Some f) d = (r, d')"
    using that re_error_stays(1) [of p h t "Some f"] by (auto simp: e d on_encoder_def split: prod.splits)
  show "re_good (fst d') \<and> (bk_state (ref_encoder_ops ops e) d' = B_Error \<or> (case y of
         Ret (Inr x) \<Rightarrow> (\<exists>f. re_queue (fst d) = f # re_queue (fst d') \<and> packet_of f x)
       | Ret (Inl s) \<Rightarrow> re_queue (fst d') = re_queue (fst d)
       | Throw _ \<Rightarrow> re_queue (fst d') = re_queue (fst d)))"
    if "re_good (fst d)" "bk_receive (ref_encoder_ops ops e) d = (y, d')"
    using that re_receive_law(1,2) [of p h t ops m "fst (re_receive h t ops (p, m))" "fst d'" "snd d'"]
    by (auto simp: e d apfst_def map_prod_def split: prod.splits sum.splits)
  show "bk_state (ref_encoder_ops ops e) d' = B_Error"
    if "bk_state (ref_encoder_ops ops e) d = B_Error" "bk_receive (ref_encoder_ops ops e) d = (y, d')"
    using that re_error_stays(2) [of p h t ops m] by (auto simp: e d apfst_def map_prod_def split: prod.splits)
  show "re_queue (fst d) = []"
    if "re_good (fst d)" "bk_receive (ref_encoder_ops ops e) d = (Ret (Inl s), d')" "st_code s = kEndOfStream"
      "bk_state (ref_encoder_ops ops e) d' \<noteq> B_Error" for s
    using that re_receive_law(3) [of p h t ops m "Inl s" "fst d'" "snd d'" s]
    by (auto simp: e d apfst_def map_prod_def split: prod.splits)
  show "re_good (fst d') \<and> re_queue (fst d') = re_queue (fst d)"
    if "re_good (fst d)" "bk_begin_drain (ref_encoder_ops ops e) d = (r, d')"
    using that re_drain_law [of p h t "fst (re_begin_drain h t p)" "fst d'"]
    by (auto simp: e d on_encoder_def split: prod.splits)
  show "bk_state (ref_encoder_ops ops e) d' = B_Error"
    if "bk_state (ref_encoder_ops ops e) d = B_Error" "bk_begin_drain (ref_encoder_ops ops e) d = (r, d')"
    using that re_error_stays(3) [of p h t] by (auto simp: e d on_encoder_def split: prod.splits)
qed

subsection \<open>First in, first out\<close>

text \<open>C20: the reference processor hands out exactly the frames it accepted, in order. Run any
  program of submissions, receptions and drains, on any threads and with any allocation failing,
  from a configured processor: unless it has lost its device, the frames accepted are the frames
  handed out followed by the frames still queued, no more of them than its capacity; and when it
  reports the end of the stream, every accepted frame has been handed out.\<close>

theorem reference_processor_fifo:
  assumes "dev_run ref_processor_ops ps (snd (rp_configure h t c (ref_processor_new opts)), [], []) = (p, fs, xs)"
    and "rp_state p \<noteq> B_Error"
  shows "fs = xs @ rp_queue p \<and> length (rp_queue p) \<le> unat (ro_queue_capacity (rp_options p))
    \<and> (\<forall>h' t' s p'. rp_receive h' t' p = (Inl s, p') \<longrightarrow> st_code s = kEndOfStream \<longrightarrow> fs = xs)"
proof -
  let ?p0 = "snd (rp_configure h t c (ref_processor_new opts))"
  have good: "rp_good ?p0"
    using rp_configure_good [OF rp_new_good surjective_pairing] .
  have empty: "rp_queue ?p0 = []"
    by (simp add: rp_configure_def ref_processor_new_def Let_def split: prod.split option.split)
  have "dev_accounts (ref_processor_ops (h, t)) rp_good rp_queue (=) (p, fs, xs)"
    unfolding assms(1) [symmetric] using good empty
    by (intro rp.dev_run_accounts) (simp add: dev_accounts_def fifo_account_def)
  then have "rp_good p" and fs: "fs = xs @ rp_queue p"
    using assms(2) by (auto simp: dev_accounts_def fifo_account_def list.rel_eq)
  moreover have "fs = xs" if "rp_receive h' t' p = (Inl s, p')" "st_code s = kEndOfStream" for h' t' s p'
    using rp_receive_law(3) [OF \<open>rp_good p\<close> that(1) refl that(2)] fs by simp
  ultimately show ?thesis by (auto simp: rp_good_def)
qed

text \<open>The reference encoder encodes exactly the frames it accepted, in order: the packets handed
  out carry the time stamps of the first frames accepted, one packet per frame, the other frames
  are still queued, no more of them than the capacity; and after an end of stream that is not a
  failure every accepted frame has its packet.\<close>

theorem reference_encoder_fifo:
  assumes "dev_run (ref_encoder_ops ops) ps ((snd (re_configure h t c (ref_encoder_new opts)), m), [], [])
      = ((p, m'), fs, xs)"
    and "re_state p \<noteq> B_Error"
  shows "(\<exists>gs. fs = gs @ re_queue p \<and> map vfr_pts gs = map mp_pts xs \<and> list_all2 packet_of gs xs)
    \<and> length (re_queue p) \<le> unat (ro_queue_capacity (re_options p))
    \<and> (\<forall>h' t' s p' m''. re_receive h' t' ops (p, m') = (Inl s, p', m'') \<longrightarrow> st_code s = kEndOfStream \<longrightarrow>
          re_state p' \<noteq> B_Error \<longrightarrow> list_all2 packet_of fs xs)"
proof -
  let ?p0 = "snd (re_configure h t c (ref_encoder_new opts))"
  have good: "re_good ?p0"
    using re_configure_good [OF re_new_good surjective_pairing] .
  have empty: "re_queue ?p0 = []"
    by (simp add: re_configure_def ref_encoder_new_def Let_def split: prod.split option.split)
  have acc: "dev_accounts (ref_encoder_ops ops (h, t)) (\<lambda>d. re_good (fst d)) (\<lambda>d. re_queue (fst d)) packet_of
      ((p, m'), fs, xs)"
    unfolding assms(1) [symmetric] using good empty
    by (intro re.dev_run_accounts) (simp add: dev_accounts_def fifo_account_def)
  then obtain gs where g: "re_good p" "fs = gs @ re_queue p" "list_all2 packet_of gs xs"
    using assms(2) by (auto simp: dev_accounts_def fifo_account_def)
  have "map vfr_pts gs = map mp_pts xs"
    using g(3) by (induction rule: list_all2_induct) (simp_all add: packet_of_def)
  moreover have "list_all2 packet_of fs xs"
    if "re_receive h' t' ops (p, m') = (Inl s, p', m'')" "st_code s = kEndOfStream" "re_state p' \<noteq> B_Error"
    for h' t' s p' m''
    using re_receive_law(3) [OF g(1) that(1) refl that(2,3)] g by simp
  ultimately show ?thesis using g by (auto simp: re_good_def)
qed

subsection \<open>The bytes of a packet\<close>

text \<open>The number that bytes stand for, high byte first.\<close>

fun of_big_endian :: "8 word list \<Rightarrow> nat" where
  "of_big_endian [] = 0"
| "of_big_endian (b # bs) = unat b * 256 ^ length bs + of_big_endian bs"

lemma big_endian_Suc:
  "big_endian (Suc n) (w :: 'a :: len word) = ucast (drop_bit (8 * n) w) # big_endian n w"
proof -
  have "[0..<Suc n] = 0 # map Suc [0..<n]" unfolding map_Suc_upt by (rule upt_conv_Cons) simp
  then show ?thesis by (simp add: big_endian_def del: upt_Suc)
qed

lemma of_big_endian: "of_big_endian (big_endian n (w :: 'a :: len word)) = unat w mod 256 ^ n"
proof (induction n)
  case 0
  then show ?case by (simp add: big_endian_def)
next
  case (Suc n)
  have len: "length (big_endian n w) = n" by (simp add: big_endian_def)
  have "unat (ucast (drop_bit (8 * n) w) :: 8 word) = unat w div 256 ^ n mod 256"
    unfolding unsigned_ucast_eq unsigned_drop_bit_eq
    by (simp add: take_bit_eq_mod drop_bit_eq_div power_mult)
  then show ?case
    unfolding power_Suc2 mod_mult2_eq big_endian_Suc of_big_endian.simps len Suc by simp
qed

lemma length_big_endian [simp]: "length (big_endian n w) = n"
  by (simp add: big_endian_def)

lemma length_packet_bytes: "length (packet_bytes pts c) = 16"
  by (simp add: packet_bytes_def)

lemma checksum_sum: "unat (checksum_from s bs) = (unat s + (\<Sum>b\<leftarrow>bs. unat b)) mod 2 ^ 32"
proof (induction bs arbitrary: s)
  case Nil
  then show ?case using unsigned_less [of s, where 'a = nat] by simp
next
  case (Cons b bs)
  have "unat (ucast b :: 32 word) = unat b" 
    using unsigned_less [of b, where 'a = nat] by (simp add: unsigned_ucast_eq take_bit_nat_eq_self)
  then have "unat (s + ucast b) = (unat s + unat b) mod 2 ^ 32" by (simp add: unat_word_ariths)
  then show ?case using Cons by (simp add: mod_add_left_eq add.assoc)
qed

text \<open>Mapping and unmapping a storage leave the memory as it is, and the CPU storages are where the
  allocator has put them.\<close>

definition plain_storage :: "memory storage_ops \<Rightarrow> (nat \<Rightarrow> size_t) \<Rightarrow> bool" where
  "plain_storage ops base \<longleftrightarrow>
     (\<forall>s mode m. snd (do_map ops s mode m) = m) \<and> (\<forall>s m. snd (do_unmap ops s m) = m)
     \<and> (\<forall>i mode m. fst (do_map ops (cpu_storage i 16) mode m) = (ok_status, base i, 16))"

lemma map_plane_keeps: "plain_storage ops base \<Longrightarrow> map_plane ops b i mode m = (r, m') \<Longrightarrow> m' = m"
  by (auto simp: map_plane_def plain_storage_def Let_def split: prod.splits if_splits) (metis snd_conv)+

lemma drop_region_keeps: "plain_storage ops base \<Longrightarrow> drop_region ops r m = m"
  by (cases "mr_storage r") (simp_all add: drop_region_def plain_storage_def region_unmap_def)

lemma ref_encode_plain:
  assumes plain: "plain_storage ops base" and e: "ref_encode h ops f m = (Inr x, m')"
  obtains input where "map_plane ops (vfr_buffer f) 0 kReadOnly m = (Inr input, m)"
    "mp_buffer x = \<lparr>bf_storage = cpu_storage (mem_next m) 16, bf_planes = [plane_layout_of 0 16 16]\<rparr>"
    "m' = write_bytes (base (mem_next m))
        (packet_bytes (vfr_pts f) (checksum_from 0 (read_bytes m (mr_data input) (unat (mr_size input)))))
        (m\<lparr>mem_next := Suc (mem_next m)\<rparr>)"
proof -
  obtain input m1 payload written m2 where
    i: "map_plane ops (vfr_buffer f) 0 kReadOnly m = (Inr input, m1)"
    and p: "buffer_allocate_plain h (mem_next m1) 16 = Inr payload"
    and mapped: "map_plane ops payload 0 kReadWrite (m1\<lparr>mem_next := Suc (mem_next m1)\<rparr>) = (Inr written, m2)"
    and x: "mp_buffer x = payload"
    and m': "m' = write_bytes (mutable_data written)
        (packet_bytes (vfr_pts f) (checksum_from 0 (read_bytes m1 (mr_data input) (unat (mr_size input))))) m2"
    using e
    by (auto simp: ref_encode_def media_packet_create_Inr Let_def drop_region_keeps [OF plain]
        split: prod.splits sum.splits option.splits)
  note [simp] = map_plane_keeps [OF plain i] map_plane_keeps [OF plain mapped]
  have pay: "payload = \<lparr>bf_storage = cpu_storage (mem_next m) 16, bf_planes = [plane_layout_of 0 16 16]\<rparr>"
    using p by (simp add: buffer_allocate_plain_Inr)
  have "fst (do_map ops (cpu_storage (mem_next m) 16) kReadWrite (m\<lparr>mem_next := Suc (mem_next m)\<rparr>))
      = (ok_status, base (mem_next m), 16)"
    using plain by (simp add: plain_storage_def)
  then have "mutable_data written = base (mem_next m)"
    using mapped [unfolded pay] by (auto simp: map_plane_def mutable_data_def plane_layout_of_def Let_def
        split: prod.splits if_splits)
  with that i x pay m' show ?thesis by simp
qed

text \<open>C19: what the encoder writes. When an encoding succeeds, the 16 bytes of the packet's buffer are the
  magic \<open>EAVP\<close>, the frame's time stamp and a checksum. Reading the two numbers back gives the time
  stamp (a negative one as its 64-bit complement) and the sum of the bytes of the frame's first
  plane modulo \<open>2 ^ 32\<close>.\<close>

theorem reference_packet_roundtrip:
  assumes "plain_storage ops base" and "ref_encode h ops f m = (Inr x, m')"
  shows "\<exists>input. map_plane ops (vfr_buffer f) 0 kReadOnly m = (Inr input, m)
     \<and> bf_storage (mp_buffer x) = cpu_storage (mem_next m) 16 \<and> mp_pts x = vfr_pts f
     \<and> (let bytes = read_bytes m' (base (mem_next m)) 16 in
          map unat (take 4 bytes) = [69, 65, 86, 80]
          \<and> of_big_endian (take 8 (drop 4 bytes)) = nat (vfr_pts f mod 2 ^ 64)
          \<and> of_big_endian (drop 12 bytes)
              = (\<Sum>b\<leftarrow>read_bytes m (mr_data input) (unat (mr_size input)). unat b) mod 2 ^ 32)"
proof -
  obtain input where i: "map_plane ops (vfr_buffer f) 0 kReadOnly m = (Inr input, m)"
    "mp_buffer x = \<lparr>bf_storage = cpu_storage (mem_next m) 16, bf_planes = [plane_layout_of 0 16 16]\<rparr>"
    "m' = write_bytes (base (mem_next m))
        (packet_bytes (vfr_pts f) (checksum_from 0 (read_bytes m (mr_data input) (unat (mr_size input)))))
        (m\<lparr>mem_next := Suc (mem_next m)\<rparr>)"
    using ref_encode_plain [OF assms] .
  let ?c = "checksum_from 0 (read_bytes m (mr_data input) (unat (mr_size input)))"
  have bytes: "read_bytes m' (base (mem_next m)) 16 = packet_bytes (vfr_pts f) ?c"
    using read_bytes_written [of "packet_bytes (vfr_pts f) ?c"] by (simp add: i(3) length_packet_bytes)
  have take4: "take 4 (packet_bytes (vfr_pts f) ?c) = [0x45, 0x41, 0x56, 0x50]"
    and take8: "take 8 (drop 4 (packet_bytes (vfr_pts f) ?c)) = big_endian 8 (word_of_int (vfr_pts f) :: 64 word)"
    and drop12: "drop 12 (packet_bytes (vfr_pts f) ?c) = big_endian 4 ?c"
    by (simp_all add: packet_bytes_def)
  have "of_big_endian (big_endian 8 (word_of_int (vfr_pts f) :: 64 word)) = nat (vfr_pts f mod 2 ^ 64)"
    by (simp add: of_big_endian unsigned_of_int take_bit_eq_mod)
  moreover have "of_big_endian (big_endian 4 ?c)
      = (\<Sum>b\<leftarrow>read_bytes m (mr_data input) (unat (mr_size input)). unat b) mod 2 ^ 32"
    by (simp add: of_big_endian checksum_sum)
  ultimately show ?thesis
    using i(1,2) ref_encode_packet [OF assms(2)] unfolding Let_def bytes take4 take8 drop12
    by (intro exI [of _ input]) (simp add: packet_of_def)
qed

subsection \<open>An example\<close>

definition tiny_format :: video_format where
  "tiny_format = \<lparr>vf_pixel = kNv12, vf_width = 2, vf_height = 2, vf_domain = kCpu,
     vf_planes = [plane_layout_of 0 4 2, plane_layout_of 4 2 2], vf_range = RangeUnknown,
     vf_primaries = PrimariesUnknown, vf_transfer = TransferUnknown, vf_matrix = MatrixUnknown\<rparr>"

definition tiny_frame :: "int \<Rightarrow> video_frame" where
  "tiny_frame pts = \<lparr>vfr_buffer = \<lparr>bf_storage = cpu_storage 0 6,
       bf_planes = [plane_layout_of 0 4 2, plane_layout_of 4 2 2]\<rparr>,
     vfr_format = tiny_format, vfr_pts = pts, vfr_time_base = \<lparr>tb_numerator = 1, tb_denominator = 25\<rparr>\<rparr>"

definition tiny_config :: video_processor_config where
  "tiny_config = \<lparr>pc_input = tiny_format, pc_output = tiny_format, pc_crop_x = 0, pc_crop_y = 0,
     pc_crop_width = 2, pc_crop_height = 2, pc_rotation = 0\<rparr>"

definition tiny_encoder_config :: video_encoder_config where
  "tiny_encoder_config = \<lparr>ec_codec = CodecReference, ec_width = 2, ec_height = 2, ec_rate_num = 25,
     ec_rate_den = 1, ec_time_base = \<lparr>tb_numerator = 1, tb_denominator = 25\<rparr>, ec_target_bitrate = 1,
     ec_max_bitrate = 1, ec_gop_length = 1, ec_b_frames = 0, ec_rate_control = kConstantQuality,
     ec_profile = ProfileUnknown, ec_level = 0, ec_low_latency = True\<rparr>"

definition tiny_memory :: memory where
  "tiny_memory = \<lparr>mem_bytes = (\<lambda>a. if a = 4096 then 7 else 1), mem_next = 1\<rparr>"

definition tiny_base :: "nat \<Rightarrow> size_t" where
  "tiny_base i = 4096 + 4096 * of_nat i"

lemma tiny_alignment: "validate_reference_alignment no_throw (tiny_frame pts) = ok_status"
  by (simp add: validate_reference_alignment_def reference_formats_def tiny_frame_def tiny_format_def
      validate_frame_plane_alignment_def format_domain_valid_def unit_constraint_def constraint_valid_def
      plane_count_def plane_address_alignment_def Let_def cpu_storage_def plane_layout_of_def
      alignment_each.simps)

lemma tiny_same: "same_format tiny_format tiny_format"
  by (simp add: same_format_def tiny_format_def)

lemma tiny_configured:
  "rp_configure no_throw 7 tiny_config (ref_processor_new ref_options_default)
     = (ok_status, (ref_processor_new ref_options_default)\<lparr>rp_affinity := Some 7, rp_config := Some tiny_config,
          rp_state := B_Configured\<rparr>)"
  "re_configure no_throw 7 (tiny_format, tiny_encoder_config) (ref_encoder_new ref_options_default)
     = (ok_status, (ref_encoder_new ref_options_default)\<lparr>re_affinity := Some 7, re_input_format := Some tiny_format,
          re_config := Some tiny_encoder_config, re_state := B_Configured\<rparr>)"
  by (simp_all add: rp_configure_def re_configure_def bind_to_current_thread_def ref_processor_new_def
      ref_encoder_new_def is_identity_processor_config_def is_reference_encoder_config_def tiny_config_def
      tiny_encoder_config_def tiny_same Let_def) (simp_all add: tiny_format_def)

lemma tiny_frame_simps [simp]: "vfr_format (tiny_frame pts) = tiny_format" "vfr_pts (tiny_frame pts) = pts"
  by (simp_all add: tiny_frame_def)

lemma tiny_rp_submit:
  "rp_affinity p = Some 7 \<Longrightarrow> can_submit (rp_state p) \<Longrightarrow> pc_input (the (rp_config p)) = tiny_format \<Longrightarrow>
   ro_device_lost_after (rp_options p) = 0 \<Longrightarrow> length (rp_queue p) < unat (ro_queue_capacity (rp_options p)) \<Longrightarrow>
     rp_submit no_throw 7 (Some (tiny_frame pts)) p
       = (ok_status, p\<lparr>rp_queue := rp_queue p @ [tiny_frame pts], rp_submissions := rp_submissions p + 1,
                       rp_state := B_Running\<rparr>)"
  by (simp add: rp_submit_def verify_current_thread_def tiny_alignment tiny_same Let_def)

lemma tiny_re_submit:
  "re_affinity p = Some 7 \<Longrightarrow> can_submit (re_state p) \<Longrightarrow> the (re_input_format p) = tiny_format \<Longrightarrow>
   ro_device_lost_after (re_options p) = 0 \<Longrightarrow> length (re_queue p) < unat (ro_queue_capacity (re_options p)) \<Longrightarrow>
     re_submit no_throw 7 (Some (tiny_frame pts)) p
       = (ok_status, p\<lparr>re_queue := re_queue p @ [tiny_frame pts], re_submissions := re_submissions p + 1,
                       re_state := B_Running\<rparr>)"
  by (simp add: re_submit_def verify_current_thread_def tiny_alignment tiny_same Let_def)

theorem reference_processor_fifo_witness:
  "\<exists>p. dev_run ref_processor_ops
      [((no_throw, 7), Dev_submit (tiny_frame 3)), ((no_throw, 7), Dev_submit (tiny_frame 4)), ((no_throw, 7), Dev_receive)]
      (snd (rp_configure no_throw 7 tiny_config (ref_processor_new ref_options_default)), [], [])
    = (p, [tiny_frame 3, tiny_frame 4], [tiny_frame 3]) \<and> rp_queue p = [tiny_frame 4]"
proof -
  obtain p where p: "dev_run ref_processor_ops
      [((no_throw, 7), Dev_submit (tiny_frame 3)), ((no_throw, 7), Dev_submit (tiny_frame 4)), ((no_throw, 7), Dev_receive)]
      (snd (rp_configure no_throw 7 tiny_config (ref_processor_new ref_options_default)), [], [])
    = (p, [tiny_frame 3, tiny_frame 4], [tiny_frame 3])" "rp_state p \<noteq> B_Error"
    unfolding tiny_configured
    by (simp add: tiny_rp_submit ref_processor_new_def ref_options_default_def can_submit_def
        tiny_config_def rp_receive_def can_receive_def verify_current_thread_def)
  then show ?thesis using reference_processor_fifo [OF p(1)] by simp
qed

text \<open>The storage that holds the frames is mapped at its base address too.\<close>

lemma tiny_plain: "plain_storage (cpu_ops tiny_base) tiny_base"
  by (simp add: plain_storage_def cpu_ops_def cpu_storage_def)

lemma tiny_encode:
  "\<exists>x m'. ref_encode no_throw (cpu_ops tiny_base) (tiny_frame pts) tiny_memory = (Inr x, m')"
  by (simp add: ref_encode_def map_plane_def tiny_frame_def cpu_ops_def cpu_storage_def plane_layout_of_def
      is_within_def tiny_base_def tiny_memory_def Let_def buffer_allocate_plain_def buffer_allocate_def
      buffer_create_def validate_planes_def media_packet_create_def)

theorem reference_packet_roundtrip_witness:
  "\<exists>x m'. ref_encode no_throw (cpu_ops tiny_base) (tiny_frame (-1)) tiny_memory = (Inr x, m')
     \<and> of_big_endian (take 8 (drop 4 (read_bytes m' (tiny_base 1) 16))) = 2 ^ 64 - 1
     \<and> of_big_endian (drop 12 (read_bytes m' (tiny_base 1) 16)) = 10"
proof -
  obtain x m' where e: "ref_encode no_throw (cpu_ops tiny_base) (tiny_frame (-1)) tiny_memory = (Inr x, m')"
    using tiny_encode by blast
  have input: "map_plane (cpu_ops tiny_base) (vfr_buffer (tiny_frame (-1))) 0 kReadOnly tiny_memory
      = (Inr \<lparr>mr_storage = Some (cpu_storage 0 6), mr_data = 4096, mr_size = 4, mr_mode = kReadOnly\<rparr>, tiny_memory)"
    by (simp add: map_plane_def tiny_frame_def cpu_ops_def cpu_storage_def plane_layout_of_def is_within_def
        tiny_base_def Let_def)
  have "(\<Sum>b\<leftarrow>read_bytes tiny_memory 4096 4. unat b) = 10"
    by (simp add: read_bytes_def tiny_memory_def upt_rec)
  then show ?thesis
    using reference_packet_roundtrip [OF tiny_plain e] e input by (auto simp: tiny_memory_def Let_def)
qed

theorem reference_encoder_fifo_witness:
  "\<exists>p m' x. dev_run (ref_encoder_ops (cpu_ops tiny_base))
      [((no_throw, 7), Dev_submit (tiny_frame 3)), ((no_throw, 7), Dev_submit (tiny_frame 4)), ((no_throw, 7), Dev_receive)]
      ((snd (re_configure no_throw 7 (tiny_format, tiny_encoder_config) (ref_encoder_new ref_options_default)),
        tiny_memory), [], [])
    = ((p, m'), [tiny_frame 3, tiny_frame 4], [x]) \<and> mp_pts x = 3 \<and> re_queue p = [tiny_frame 4]"
proof -
  obtain x m' where e: "ref_encode no_throw (cpu_ops tiny_base) (tiny_frame 3) tiny_memory = (Inr x, m')"
    using tiny_encode by blast
  obtain p where p: "dev_run (ref_encoder_ops (cpu_ops tiny_base))
      [((no_throw, 7), Dev_submit (tiny_frame 3)), ((no_throw, 7), Dev_submit (tiny_frame 4)), ((no_throw, 7), Dev_receive)]
      ((snd (re_configure no_throw 7 (tiny_format, tiny_encoder_config) (ref_encoder_new ref_options_default)),
        tiny_memory), [], [])
    = ((p, m'), [tiny_frame 3, tiny_frame 4], [x])" "re_state p \<noteq> B_Error" "re_queue p = [tiny_frame 4]"
    unfolding tiny_configured
    by (simp add: tiny_re_submit ref_encoder_new_def ref_options_default_def can_submit_def
        on_encoder_def re_receive_def can_receive_def verify_current_thread_def e)
  then show ?thesis using reference_encoder_fifo [OF p(1,2)] by auto
qed

subsection \<open>What the provider negotiates, its backends accept\<close>

lemma same_planes_refl [simp]: "same_planes ps ps"
  by (induction ps) simp_all

lemma same_format_refl [simp]: "same_format f f"
  by (simp add: same_format_def)

lemma list_all2_same_plane: "list_all2 same_plane_layout ps qs \<Longrightarrow> same_planes ps qs"
  by (induction rule: list_all2_induct) (simp_all add: same_plane_layout_def)

lemma same_video_format_same: "same_video_format f g \<Longrightarrow> same_format f g"
  by (auto simp: same_video_format_def same_format_def list_all2_same_plane dest: list_all2_lengthD)

lemma reference_formats_cpu: "find_format reference_formats px d = Some f \<Longrightarrow> d = kCpu"
  by (auto simp: reference_formats_def split: if_splits)

lemma check_operation_none: "st_ok (check_operation [] op) \<longleftrightarrow> False"
  by (simp add: check_operation_def)

lemma check_operations_none: "st_ok (check_operations [] ops) \<longleftrightarrow> ops = []"
  by (cases ops) (simp_all add: check_operation_none Let_def)

lemma make_actual_format_same:
  "same_video_format f g \<Longrightarrow> make_actual_format h f fd wr hr = make_actual_format h g fd wr hr"
  unfolding same_video_format_def make_actual_format_def by (elim conjE) (simp only:)

lemma video_format_create_fields:
  "make_actual_format h f fd wr hr = Inr g \<Longrightarrow> vf_domain g = vf_domain f \<and> vf_width g = vf_width f \<and> vf_height g = vf_height f"
  by (auto simp: make_actual_format_def video_format_create_Inr split: if_splits option.splits)

lemma reference_processor_matched:
  assumes "st_ok (processor_match c r)" "c \<in> set (cap_processors make_reference_capability)"
  shows "same_video_format (pc_input (pr_config r)) (pc_output (pr_config r))"
    "is_identity_processor_config (pr_config r)"
proof -
  have c: "pcap_identical c" "pcap_operations c = []" "pcap_input_formats c = reference_formats"
    using assms(2) by (simp_all add: make_reference_capability_def Let_def)
  let ?c = "pr_config r"
  show same: "same_video_format (pc_input ?c) (pc_output ?c)"
    using assms(1) c(1) by (auto simp: processor_match_def Let_def split: if_splits)
  have "st_ok (check_operations (pcap_operations c) (inferred_operations ?c))"
    "find_format reference_formats (vf_pixel (pc_input ?c)) (vf_domain (pc_input ?c)) \<noteq> None"
    using assms(1) c(3) by (auto simp: processor_match_def Let_def split: if_splits option.splits)
  then have "inferred_operations ?c = []" "vf_domain (pc_input ?c) = kCpu"
    using reference_formats_cpu by (auto simp: c(2) check_operations_none)
  then show "is_identity_processor_config ?c"
    using same_video_format_same [OF same]
    by (auto simp: inferred_operations_def is_identity_processor_config_def split: if_splits)
qed

lemma reference_processor_negotiated:
  assumes "provider_negotiate_processor h make_reference_capability r = Inr n"
  shows "is_identity_processor_config (pn_config n)"
proof -
  obtain c cfg where c: "first_ok (\<lambda>c. processor_match c r) (cap_processors make_reference_capability) = Some c"
    and cfg: "negotiated_config h c r = Inr cfg" and n: "pn_config n = cfg"
    using assms
    by (auto simp: provider_negotiate_processor_def Let_def split: if_splits option.splits sum.splits)
  let ?c = "pr_config r"
  have ok: "st_ok (processor_match c r)" and mem: "c \<in> set (cap_processors make_reference_capability)"
    using first_ok_Some [OF c] by auto
  note m = reference_processor_matched [OF ok mem]
  show ?thesis
  proof (cases "processor_conversion c r")
    case False
    then show ?thesis using cfg ok m(2) by (simp add: negotiated_config_def n)
  next
    case True
    have caps: "pcap_output_width c = pcap_input_width c" "pcap_output_height c = pcap_input_height c"
      "pcap_output_formats c = pcap_input_formats c"
      using mem by (simp_all add: make_reference_capability_def Let_def)
    have px: "vf_pixel (pc_output ?c) = vf_pixel (pc_input ?c)" "vf_domain (pc_output ?c) = vf_domain (pc_input ?c)"
      using m(1) by (simp_all add: same_video_format_def)
    obtain a where a: "make_actual_format h (pc_input ?c)
        (the (find_format (pcap_input_formats c) (vf_pixel (pc_input ?c)) (vf_domain (pc_input ?c))))
        (pcap_input_width c) (pcap_input_height c) = Inr a"
      "video_processor_config_create h a a (pc_crop_x ?c) (pc_crop_y ?c) (pc_crop_width ?c) (pc_crop_height ?c)
        (pc_rotation ?c) = Inr cfg"
      using cfg ok True
      by (auto simp: negotiated_config_def Let_def caps px make_actual_format_same [OF m(1), symmetric]
          split: sum.splits)
    then show ?thesis
      using m(2) video_format_create_fields [OF a(1)]
      by (simp add: n video_processor_config_create_Inr is_identity_processor_config_def)
  qed
qed

lemma reference_encoder_negotiated:
  assumes "provider_negotiate_encoder h make_reference_capability r = Inr n"
  shows "is_reference_encoder_config (en_actual n) (en_config n)"
proof -
  obtain c f where c: "first_ok (\<lambda>c. encoder_match c r) (cap_encoders make_reference_capability) = Some c"
    and f: "actual_input_format h c r = Inr f" and n: "en_actual n = f" "en_config n = er_config r"
    using assms
    by (auto simp: provider_negotiate_encoder_def Let_def split: if_splits option.splits sum.splits)
  have ok: "st_ok (encoder_match c r)" and mem: "c \<in> set (cap_encoders make_reference_capability)"
    using first_ok_Some [OF c] by auto
  have caps: "ecap_codec c = CodecReference" "ecap_profiles c = [ProfileUnknown]" "ecap_levels c = [0]"
    "ecap_rate_controls c = [kConstantQuality]" "ecap_input_formats c = reference_formats"
    using mem by (simp_all add: make_reference_capability_def Let_def)
  have m: "find_format reference_formats (vf_pixel (er_input r)) (vf_domain (er_input r)) \<noteq> None"
    "is_reference_encoder_config (er_input r) (er_config r)"
    using ok reference_formats_cpu
    by (auto simp: encoder_match_def caps is_reference_encoder_config_def Let_def split: if_splits option.splits)
  show ?thesis
  proof (cases "encoder_conversion c r")
    case True
    then have "make_actual_format h (er_input r)
        (the (find_format (ecap_input_formats c) (vf_pixel (er_input r)) (vf_domain (er_input r))))
        (ecap_width c) (ecap_height c) = Inr f"
      using f ok by (simp add: actual_input_format_def)
    from video_format_create_fields [OF this] show ?thesis
      using m(2) by (simp add: n is_reference_encoder_config_def)
  qed (use f ok m(2) n in \<open>simp add: actual_input_format_def\<close>)
qed

text \<open>The reference provider promises nothing its backends refuse. Whatever request its capability
  negotiates, a new processor accepts the negotiated configuration and a new encoder the actual
  input format with the negotiated configuration.\<close>

theorem reference_negotiation_accepted:
  assumes "provider_negotiate_processor h make_reference_capability r = Inr n"
    and "provider_negotiate_encoder h make_reference_capability q = Inr e"
  shows "(\<exists>p. rp_configure no_throw t (pn_config n) (ref_processor_new opts) = (ok_status, p) \<and> rp_state p = B_Configured)
    \<and> (\<exists>p. re_configure no_throw t (en_actual e, en_config e) (ref_encoder_new opts) = (ok_status, p)
           \<and> re_state p = B_Configured)"
  using reference_processor_negotiated [OF assms(1)] reference_encoder_negotiated [OF assms(2)]
  by (simp add: rp_configure_def re_configure_def bind_to_current_thread_def ref_processor_new_def
      ref_encoder_new_def Let_def)

definition tiny_preferences :: selection_preferences where
  "tiny_preferences = \<lparr>sp_preferred = [], sp_prefer_hardware = False, sp_prefer_zero_copy = False\<rparr>"

definition tiny_processor_request :: processor_request where
  "tiny_processor_request = \<lparr>pr_config = tiny_config, pr_operations = [], pr_input_alignment = 0,
     pr_output_alignment = 0, pr_require_zero_copy = True, pr_required_provider = [],
     pr_preferences = tiny_preferences\<rparr>"

definition tiny_encoder_request :: encoder_request where
  "tiny_encoder_request = \<lparr>er_input = tiny_format, er_config = tiny_encoder_config, er_input_alignment = 0,
     er_require_zero_copy = True, er_required_provider = [], er_preferences = tiny_preferences\<rparr>"

lemma tiny_processor_negotiated:
  "provider_negotiate_processor no_throw make_reference_capability tiny_processor_request
     = Inr \<lparr>pn_provider = ''reference'', pn_config = tiny_config, pn_actual = tiny_format, pn_conversion = False,
            pn_zero_copy = True\<rparr>"
  by code_simp

lemma tiny_encoder_negotiated:
  "provider_negotiate_encoder no_throw make_reference_capability tiny_encoder_request
     = Inr \<lparr>en_provider = ''reference'', en_config = tiny_encoder_config, en_actual = tiny_format,
            en_conversion = False, en_zero_copy = True\<rparr>"
  by code_simp

theorem reference_negotiation_accepted_witness:
  "\<exists>p. rp_configure no_throw 7 tiny_config (ref_processor_new ref_options_default) = (ok_status, p)
     \<and> rp_state p = B_Configured"
  using reference_negotiation_accepted [OF tiny_processor_negotiated tiny_encoder_negotiated] by auto

end
