(* ===== verification/Reference_Node.thy ===== *)
theory Reference_Node
  imports Backend_Flow Reference_Correct
begin

text \<open>
  The backend nodes with the reference backend behind them: nothing is lost between the queues,
  a drain ends, and the one configuration in which it cannot.
\<close>

subsection \<open>The statuses of the reference backend\<close>

definition quiet :: "status \<Rightarrow> bool" where
  "quiet s \<longleftrightarrow> st_code s \<noteq> kNotFound \<and> st_code s \<noteq> kEndOfStream"

lemma quiet_simps [simp]:
  "quiet (status_msg c m) \<longleftrightarrow> c \<noteq> kNotFound \<and> c \<noteq> kEndOfStream"
  "quiet (status_of c) \<longleftrightarrow> c \<noteq> kNotFound \<and> c \<noteq> kEndOfStream"
  "quiet ok_status" "quiet (handled e)" "quiet ref_device_lost" "quiet (mismatch m)"
  "quiet (verify_current_thread t a)"
  by (auto simp: quiet_def status_msg_def status_of_def ok_status_def handled_def ref_device_lost_def
      status_native_def mismatch_def verify_current_thread_def split: exn.split option.split)

lemma quiet_diagnostic [simp]:
  "quiet (diagnostic_failure h c d) \<longleftrightarrow> h S_ref_diagnostic \<noteq> None \<or> c \<noteq> kNotFound \<and> c \<noteq> kEndOfStream"
  by (auto simp: diagnostic_failure_def split: option.split)

lemma quiet_alignment_each: "quiet (alignment_each b i cs)"
  by (induction cs arbitrary: i)
     (auto simp: plane_address_alignment_def err_def Let_def split: sum.splits if_splits)

lemma quiet_reference_alignment: "quiet (validate_reference_alignment h f)"
  by (auto simp: validate_reference_alignment_def validate_frame_plane_alignment_def quiet_alignment_each
      split: option.split)

lemma rp_submit_quiet: "quiet (fst (rp_submit h t (Some f) p))"
  using quiet_reference_alignment [of h f]
  by (simp add: rp_submit_def Let_def split: option.split)

lemma re_submit_quiet: "quiet (fst (re_submit h t (Some f) p))"
  using quiet_reference_alignment [of h f]
  by (simp add: re_submit_def Let_def split: option.split)

lemma rp_receive_fails: "rp_receive h t p = (Inl s, p') \<Longrightarrow> \<not> st_ok s"
  by (auto simp: rp_receive_def err_def Let_def split: if_splits list.splits option.splits)

lemma rp_drain_codes: "quiet (fst (rp_begin_drain h t p))"
  by (simp add: rp_begin_drain_def Let_def)

lemma re_drain_codes: "quiet (fst (re_begin_drain h t p))"
  by (simp add: re_begin_drain_def Let_def)

lemma ref_encode_fails: "ref_encode h ops f m = (Inl s, m') \<Longrightarrow> \<not> st_ok s"
  by (auto simp: ref_encode_def err_def Let_def split: prod.splits sum.splits option.splits if_splits)

lemma re_receive_fails: "re_receive h t ops pm = (Inl s, pm') \<Longrightarrow> \<not> st_ok s"
  by (auto simp: re_receive_def err_def Let_def dest: ref_encode_fails
      split: prod.splits if_splits list.splits option.splits sum.splits)

interpretation pn: node_device ref_processor_ops rp_queue "(=)" rp_good
proof unfold_locales
  fix e :: "throws \<times> nat" and d d' :: ref_processor and f s
  obtain h t where e: "e = (h, t)" by (cases e)
  show "st_code s \<noteq> kNotFound \<and> st_code s \<noteq> kEndOfStream"
    if "rp_good d" "bk_submit (ref_processor_ops e) (Some f) d = (Ret s, d')"
    using rp_submit_quiet [of h t f d] that by (auto simp: e quiet_def apfst_def map_prod_def split: prod.splits)
  show "\<not> st_ok s" if "bk_receive (ref_processor_ops e) d = (Ret (Inl s), d')"
    using rp_receive_fails that by (auto simp: e apfst_def map_prod_def split: prod.splits)
  show "st_code s \<noteq> kEndOfStream" if "bk_begin_drain (ref_processor_ops e) d = (Ret s, d')"
    using rp_drain_codes [of h t d] that by (auto simp: e quiet_def apfst_def map_prod_def split: prod.splits)
qed

interpretation en: node_device "ref_encoder_ops ops" "\<lambda>d. re_queue (fst d)" packet_of "\<lambda>d. re_good (fst d)"
  for ops
proof unfold_locales
  fix e :: "throws \<times> nat" and d d' :: "ref_encoder \<times> memory" and f s
  obtain h t where e: "e = (h, t)" by (cases e)
  show "st_code s \<noteq> kNotFound \<and> st_code s \<noteq> kEndOfStream"
    if "re_good (fst d)" "bk_submit (ref_encoder_ops ops e) (Some f) d = (Ret s, d')"
    using re_submit_quiet [of h t f "fst d"] that by (auto simp: e quiet_def on_encoder_def split: prod.splits)
  show "\<not> st_ok s" if "bk_receive (ref_encoder_ops ops e) d = (Ret (Inl s), d')"
    using re_receive_fails that by (auto simp: e apfst_def map_prod_def split: prod.splits)
  show "st_code s \<noteq> kEndOfStream" if "bk_begin_drain (ref_encoder_ops ops e) d = (Ret s, d')"
    using re_drain_codes [of h t "fst d"] that by (auto simp: e quiet_def on_encoder_def split: prod.splits)
qed

subsection \<open>Nothing is lost\<close>


text \<open>C15: an encoder node turns the frames it takes into packets one for one and in order. Under the
  same circumstances the frames taken into the input queue are those encoded so far, those in the
  backend, the one waiting for it and those in the input queue, and the packets taken by the
  downstream, in the output queue and waiting for it are those of the encoded frames. Once the node
  has stopped nothing is left inside it.\<close>

theorem encoder_node_lossless:
  assumes "fresh_node i j n0" and "bn_device n0 = Some (snd (re_configure h t c (ref_encoder_new opts)), m)"
    and "io_run i j (\<lambda>e. encoder_node_hooks (ref_encoder_ops ops e)) ps (N_Running, n0, [], []) = Some (st, n, P, C)"
    and "re_state (fst (the (bn_device n))) \<noteq> B_Error"
  shows "\<exists>fs. P = fs @ re_queue (fst (the (bn_device n))) @ case_option [] (\<lambda>f. [f]) (bn_pending_in n)
        @ q_values (bn_frames n ! i)
    \<and> list_all2 packet_of fs (C @ q_values (bn_outs n ! j) @ case_option [] (\<lambda>x. [x]) (bn_pending_out n))
    \<and> (st = N_Stopped \<longrightarrow> P = fs @ q_values (bn_frames n ! i) \<and> bn_pending_out n = None)"
proof -
  let ?p = "snd (re_configure h t c (ref_encoder_new opts))"
  have good: "re_good ?p"
    by (rule re_configure_good [OF re_new_good surjective_pairing])
  have empty: "re_queue ?p = []"
    by (simp add: re_configure_def ref_encoder_new_def Let_def split: prod.split option.split)
  have "flow packet_of (\<lambda>d. re_queue (fst d)) i j P C n"
    "st = N_Stopped \<Longrightarrow> re_queue (fst (the (bn_device n))) = [] \<and> bn_pending_in n = None \<and> bn_pending_out n = None"
    using en.run_lossless [of i j n0 "''encoder''" ops ps st n P C "(h, t)"] assms good empty
    by (simp_all add: encoder_node_hooks)
  then show ?thesis
    by (auto simp: flow_def)
qed

subsection \<open>The drain of a processor node ends\<close>

text \<open>A processor that accepts every frame of its format, on the thread that configured it.\<close>

definition acceptable :: "video_processor_config \<Rightarrow> video_frame \<Rightarrow> bool" where
  "acceptable c f \<longleftrightarrow> same_format (vfr_format f) (pc_input c) \<and> st_ok (validate_reference_alignment no_throw f)"

definition serving :: "nat \<Rightarrow> ref_options \<Rightarrow> video_processor_config \<Rightarrow> ref_processor \<Rightarrow> bool" where
  "serving t opts c p \<longleftrightarrow> rp_affinity p = Some t \<and> rp_options p = opts \<and> rp_config p = Some c
     \<and> rp_state p \<in> {B_Configured, B_Running}"

lemma serving_simps [simp]:
  "serving t opts c (p\<lparr>rp_queue := q\<rparr>) \<longleftrightarrow> serving t opts c p"
  "serving t opts c (p\<lparr>rp_submissions := k\<rparr>) \<longleftrightarrow> serving t opts c p"
  by (simp_all add: serving_def)

lemma serving_configured:
  "rp_configure h t c (ref_processor_new opts) = (s, p) \<Longrightarrow> st_ok s \<Longrightarrow> serving t opts c p \<and> rp_queue p = []"
  by (auto simp: rp_configure_def ref_processor_new_def serving_def bind_to_current_thread_def Let_def
      split: if_splits option.splits)

lemma serving_submit:
  assumes "serving t opts c p" "ro_device_lost_after opts = 0" "acceptable c f"
  shows "rp_submit no_throw t (Some f) p
    = (if length (rp_queue p) < unat (ro_queue_capacity opts)
       then (ok_status, p\<lparr>rp_queue := rp_queue p @ [f], rp_submissions := rp_submissions p + 1, rp_state := B_Running\<rparr>)
       else (status_of kWouldBlock, p))"
  using assms
  by (auto simp: serving_def acceptable_def rp_submit_def verify_current_thread_def can_submit_def Let_def)

lemma serving_receive:
  assumes "serving t opts c p"
  shows "rp_receive no_throw t p
    = (case rp_queue p of f # fs \<Rightarrow> (Inr f, p\<lparr>rp_queue := fs\<rparr>) | [] \<Rightarrow> (err (status_of kWouldBlock), p))"
  using assms
  by (auto simp: serving_def rp_receive_def verify_current_thread_def can_receive_def Let_def split: list.split)

lemma serving_drain:
  assumes "serving t opts c p" "rp_queue p = []"
  shows "rp_begin_drain no_throw t p = (ok_status, p\<lparr>rp_state := B_Draining\<rparr>)"
    "rp_receive no_throw t (p\<lparr>rp_state := B_Draining\<rparr>) = (err (status_of kEndOfStream), p\<lparr>rp_state := B_Stopped\<rparr>)"
  using assms
  by (auto simp: serving_def rp_begin_drain_def rp_receive_def verify_current_thread_def can_receive_def Let_def)

text \<open>The output queue of a node within its capacity, and a send into it.\<close>

definition within :: "nat \<Rightarrow> size_t \<Rightarrow> ('d, 'c, 'o) bnode \<Rightarrow> bool" where
  "within j k n \<longleftrightarrow> q_capacity (bn_outs n ! j) = k \<and> length (q_values (bn_outs n ! j)) \<le> unat k"

lemma send_ok_iff:
  assumes "wired i j n" "bn_pending_out n = Some x" "send_pending_output n = (s, n')"
  shows "st_ok s \<longleftrightarrow> st_ok (preflight_push (Some x) (bn_outs n ! j))"
    "\<not> st_ok s \<Longrightarrow> s = preflight_push (Some x) (bn_outs n ! j)"
proof -
  have w: "op_connections (bn_output n) = [j]" "j < length (bn_outs n)"
    using assms(1) by (simp_all add: wired_def)
  have "s = fst (port_send (Some x) (bn_output n) (bn_outs n))"
    using assms(2,3) by (auto simp: send_pending_output_def split: prod.splits)
  then show "st_ok s \<longleftrightarrow> st_ok (preflight_push (Some x) (bn_outs n ! j))"
    "\<not> st_ok s \<Longrightarrow> s = preflight_push (Some x) (bn_outs n ! j)"
    using w push_all_ok [of "[j]" "bn_outs n" "Some x"] by (auto simp: port_send_def Let_def)
qed

lemma send_within:
  assumes "wired i j n" "within j k n" "send_pending_output n = (s, n')"
  shows "within j k n'" "length (q_values (bn_outs n ! j)) < unat k \<Longrightarrow> st_ok s"
    "k \<noteq> 0 \<Longrightarrow> \<not> st_ok s \<Longrightarrow> st_code s = kWouldBlock"
proof -
  have policy: "q_policy (bn_outs n ! j) = kBlock" using assms(1) by (simp add: wired_def)
  note fields = send_pending_cases [OF assms(1,3)]
  have "st_ok s \<and> within j k n' \<or> \<not> st_ok s \<and> n' = n \<and> length (q_values (bn_outs n ! j)) \<ge> unat k
      \<and> (k \<noteq> 0 \<longrightarrow> st_code s = kWouldBlock)"
  proof (cases "bn_pending_out n")
    case None
    then show ?thesis using assms(2,3) by (simp add: send_pending_output_def)
  next
    case (Some x)
    have ok: "st_ok s \<longleftrightarrow> k \<noteq> 0 \<and> length (q_values (bn_outs n ! j)) \<noteq> unat k"
      using send_ok_iff [OF assms(1) Some assms(3)] assms(2) policy
      by (simp add: preflight_ok_iff within_def bqueue_size_def)
    then show ?thesis
      using fields assms(2) Some policy send_ok_iff(2) [OF assms(1) Some assms(3)]
      by (cases "st_ok s") (auto simp: within_def preflight_push_def status_msg_def bqueue_size_def)
  qed
  then show "within j k n'" "length (q_values (bn_outs n ! j)) < unat k \<Longrightarrow> st_ok s"
    "k \<noteq> 0 \<Longrightarrow> \<not> st_ok s \<Longrightarrow> st_code s = kWouldBlock"
    using assms(2) by auto
qed

text \<open>What is left to do before the drain can end.\<close>

definition work :: "nat \<Rightarrow> (ref_processor, 'c, 'o) bnode \<Rightarrow> nat" where
  "work i n = 3 * length (q_values (bn_frames n ! i)) + (if bn_pending_in n = None then 0 else 2)
     + length (rp_queue (the (bn_device n)))"

text \<open>A node at the end of its stream.\<close>

definition ended :: "nat \<Rightarrow> (ref_processor, 'c, 'o) bnode \<Rightarrow> bool" where
  "ended i n \<longleftrightarrow> q_values (bn_frames n ! i) = [] \<and> rp_state (the (bn_device n)) = B_Stopped"

text \<open>A node that can go on: its device serves, its frames are acceptable.\<close>

definition lively ::
  "nat \<Rightarrow> nat \<Rightarrow> nat \<Rightarrow> size_t \<Rightarrow> ref_options \<Rightarrow> video_processor_config \<Rightarrow> (ref_processor, 'c, 'o) bnode \<Rightarrow> bool" where
  "lively t i j k opts c n \<longleftrightarrow> wired i j n \<and> within j k n \<and> serving t opts c (the (bn_device n))
     \<and> \<not> bn_drain_started n
     \<and> (\<forall>f \<in> set (q_values (bn_frames n ! i)) \<union> set_option (bn_pending_in n). acceptable c f)"

lemma livelyD:
  "lively t i j k opts c n \<Longrightarrow> wired i j n \<and> within j k n \<and> serving t opts c (the (bn_device n)) \<and> \<not> bn_drain_started n"
  by (simp add: lively_def)

lemma send_lively:
  assumes "lively t i j k opts c n" "send_pending_output n = (s, n')"
  shows "lively t i j k opts c n' \<and> work i n' = work i n"
  using assms send_pending_cases [OF _ assms(2)] send_within(1) [OF _ _ assms(2)]
  unfolding lively_def work_def by metis

lemma drain_output_lively:
  assumes "lively t i j k opts c n" "k \<noteq> 0" "drain_output x n = (r, n')"
  shows "\<exists>s. r = Ret s \<and> st_code s = kWouldBlock \<and> lively t i j k opts c n' \<and> work i n' = work i n"
proof -
  obtain s1 n1 where c: "send_pending_output (n\<lparr>bn_pending_out := Some x\<rparr>) = (s1, n1)" by fastforce
  have l: "lively t i j k opts c (n\<lparr>bn_pending_out := Some x\<rparr>)" "work i (n\<lparr>bn_pending_out := Some x\<rparr>) = work i n"
    using assms(1) by (simp_all add: lively_def wired_def within_def work_def)
  have "\<not> st_ok s1 \<Longrightarrow> st_code s1 = kWouldBlock"
    using send_within(3) [OF _ _ c] livelyD [OF l(1)] assms(2) by blast
  then show ?thesis
    using send_lively [OF l(1) c] l(2) assms(3) by (auto simp: drain_output_def c status_of_def)
qed

abbreviation "calm t \<equiv> ref_processor_ops (no_throw, t)"

text \<open>Receiving from the device, and sending on what it gave.\<close>

lemma drain_receive_lively:
  assumes l: "lively t i j k opts c n" and k: "k \<noteq> 0"
    and q: "rp_queue (the (bn_device n)) = f # fs" and d: "dev_call (bk_receive (calm t)) n = (r1, n1)"
  shows "r1 = Ret (Inr f)"
    "drain_output f n1 = (r, n') \<Longrightarrow> \<exists>s. r = Ret s \<and> st_code s = kWouldBlock \<and> lively t i j k opts c n' \<and> work i n' < work i n"
proof -
  let ?p = "the (bn_device n)"
  have r: "r1 = Ret (Inr f) \<and> n1 = n\<lparr>bn_device := Some (?p\<lparr>rp_queue := fs\<rparr>)\<rparr>"
    using d serving_receive [of t opts c ?p] livelyD [OF l] q by (simp add: dev_call_def)
  then show "r1 = Ret (Inr f)" by simp
  have "lively t i j k opts c n1" "work i n1 < work i n"
    using l q by (auto simp: r lively_def wired_def within_def work_def)
  then show "drain_output f n1 = (r, n') \<Longrightarrow>
      \<exists>s. r = Ret s \<and> st_code s = kWouldBlock \<and> lively t i j k opts c n' \<and> work i n' < work i n"
    using drain_output_lively [OF _ k] by metis
qed

lemma submit_lively:
  assumes l: "lively t i j k opts c n" and o: "ro_device_lost_after opts = 0"
    and f: "bn_pending_in n = Some f" and d: "dev_call (bk_submit (calm t) (Some f)) n = (r1, n1)"
  shows "r1 = Ret ok_status \<and> lively t i j k opts c (n1\<lparr>bn_pending_in := None\<rparr>)
        \<and> work i (n1\<lparr>bn_pending_in := None\<rparr>) < work i n
      \<or> r1 = Ret (status_of kWouldBlock) \<and> n1 = n \<and> length (rp_queue (the (bn_device n))) \<ge> unat (ro_queue_capacity opts)"
proof -
  let ?p = "the (bn_device n)"
  have a: "acceptable c f" and p: "bn_device n = Some ?p"
    using l f by (auto simp: lively_def wired_def)
  note sub = serving_submit [of t opts c ?p f, OF _ o a]
  show ?thesis
  proof (cases "length (rp_queue ?p) < unat (ro_queue_capacity opts)")
    case True
    then have r: "r1 = Ret ok_status"
      "n1 = n\<lparr>bn_device := Some (?p\<lparr>rp_queue := rp_queue ?p @ [f], rp_submissions := rp_submissions ?p + 1,
                 rp_state := B_Running\<rparr>)\<rparr>"
      using d sub livelyD [OF l] by (simp_all add: dev_call_def)
    show ?thesis
      using l f by (simp add: r lively_def wired_def within_def work_def serving_def)
  next
    case False
    then have "r1 = Ret (status_of kWouldBlock)" "n1 = n\<lparr>bn_device := Some ?p\<rparr>"
      using d sub livelyD [OF l] by (simp_all add: dev_call_def)
    then show ?thesis using False p by (cases n) simp
  qed
qed

declare ref_processor_ops_simps [simp del] ref_encoder_ops_simps [simp del]

text \<open>One call of \<open>on_stop\<close> makes progress, or the stream has ended and nothing is left.\<close>

abbreviation "progress t i j k opts c n r n' \<equiv>
  (\<exists>s. r = Ret s \<and> st_code s = kWouldBlock \<and> lively t i j k opts c n' \<and> work i n' < work i n)"

lemma stop_pending_lively:
  assumes l: "lively t i j k opts c n" and k: "k \<noteq> 0" and o: "ro_device_lost_after opts = 0" "ro_queue_capacity opts \<noteq> 0"
    and f: "bn_pending_in n = Some f" and d: "stop_pending noun (calm t) f n = (r, n')"
  shows "progress t i j k opts c n r n'"
proof -
  obtain r1 n1 where s: "dev_call (bk_submit (calm t) (Some f)) n = (r1, n1)" by fastforce
  from submit_lively [OF l o(1) f s] show ?thesis
  proof (elim disjE conjE)
    assume "r1 = Ret ok_status" "lively t i j k opts c (n1\<lparr>bn_pending_in := None\<rparr>)"
      "work i (n1\<lparr>bn_pending_in := None\<rparr>) < work i n"
    then show ?thesis using d by (auto simp: stop_pending_def s andthen_def status_of_def)
  next
    assume b: "r1 = Ret (status_of kWouldBlock)" "n1 = n"
      "length (rp_queue (the (bn_device n))) \<ge> unat (ro_queue_capacity opts)"
    then obtain x xs where q: "rp_queue (the (bn_device n)) = x # xs"
      using o(2) by (cases "rp_queue (the (bn_device n))") (auto simp: unat_eq_0)
    obtain r2 n2 where v: "dev_call (bk_receive (calm t)) n = (r2, n2)" by fastforce
    have "drain_output x n2 = (r, n')"
      using d drain_receive_lively(1) [OF l k q v] by (simp add: stop_pending_def s b andthen_def v)
    then show ?thesis using drain_receive_lively(2) [OF l k q v] by blast
  qed
qed

lemma dev_call_Some: "bn_device n = Some p \<Longrightarrow> f p = (r, p') \<Longrightarrow> dev_call f n = (r, n\<lparr>bn_device := Some p'\<rparr>)"
  by (simp add: dev_call_def)

lemma stop_input_lively:
  assumes l: "lively t i j k opts c n" and k: "k \<noteq> 0" and o: "ro_device_lost_after opts = 0" "ro_queue_capacity opts \<noteq> 0"
    and p: "bn_pending_in n = None" and d: "stop_input (calm t) n = (r, n')"
  shows "progress t i j k opts c n r n' \<or> r = Ret (status_of kEndOfStream) \<and> ended i n'"
proof -
  obtain y n1 where c: "receive_input n = (y, n1)" by fastforce
  have w: "wired i j n" using livelyD [OF l] by blast
  note rc = receive_input_cases [OF w c]
  show ?thesis
  proof (cases y)
    case (Inr f)
    let ?n = "n1\<lparr>bn_pending_in := Some f\<rparr>"
    have l1: "lively t i j k opts c ?n" and w1: "work i ?n < work i n"
      using l rc p by (auto simp: Inr lively_def within_def wired_def work_def)
    obtain r1 n2 where s: "dev_call (bk_submit (calm t) (Some f)) ?n = (r1, n2)" by fastforce
    have "r = r1 \<and> (r1 = Ret ok_status \<longrightarrow> False) \<and> n' = n2 \<or>
        r1 = Ret ok_status \<and> r = Ret (status_of kWouldBlock) \<and> n' = n2\<lparr>bn_pending_in := None\<rparr>"
      using d submit_lively [OF l1 o(1) _ s] by (auto simp: stop_input_def c Inr s andthen_def status_of_def st_ok_def ok_status_def)
    then show ?thesis
      using submit_lively [OF l1 o(1) _ s] l1 w1 by (auto simp: status_of_def ok_status_def)
  next
    case (Inl s)
    then have e: "n1 = n" "s = status_msg kNotFound ''queue is empty''" using rc by simp_all
    show ?thesis
    proof (cases "rp_queue (the (bn_device n))")
      case (Cons x xs)
      obtain r2 n2 where v: "dev_call (bk_receive (calm t)) n = (r2, n2)" by fastforce
      have "drain_output x n2 = (r, n')"
        using d drain_receive_lively(1) [OF l k Cons v]
        by (simp add: stop_input_def c Inl e andthen_def v status_msg_def)
      then show ?thesis using drain_receive_lively(2) [OF l k Cons v] by blast
    next
      case Nil
      obtain q where q: "bn_device n = Some q" using w by (auto simp: wired_def)
      have sv: "serving t opts c q" "rp_queue q = []" using livelyD [OF l] Nil q by simp_all
      have "r = Ret (status_of kEndOfStream) \<and> bn_frames n' = bn_frames n \<and> rp_state (the (bn_device n')) = B_Stopped"
        using d serving_receive [OF sv(1)] serving_drain [OF sv] sv(2)
        by (auto simp: stop_input_def c Inl e andthen_def status_msg_def status_of_def dev_call_def q err_def
            is_temporarily_empty_def drain_receive_def ok_status_def st_ok_def ref_processor_ops_simps)
      then show ?thesis using rc Inl by (simp add: ended_def)
    qed
  qed
qed

lemma stop_lively:
  assumes l: "lively t i j k opts c n" and k: "k \<noteq> 0" and o: "ro_device_lost_after opts = 0" "ro_queue_capacity opts \<noteq> 0"
    and room: "length (q_values (bn_outs n ! j)) < unat k" and d: "bnode_stop noun (calm t) n = (r, n')"
  shows "progress t i j k opts c n r n' \<or> r = Ret (status_of kEndOfStream) \<and> ended i n'"
proof -
  obtain s1 n1 where s: "send_pending_output n = (s1, n1)" by fastforce
  note l1 = send_lively [OF l s]
  have ok: "st_ok s1" using send_within(2) [OF _ _ s room] livelyD [OF l] by blast
  obtain r2 n2 where b: "(case bn_pending_in n1 of Some f \<Rightarrow> stop_pending noun (calm t) f n1 | None \<Rightarrow> stop_input (calm t) n1)
      = (r2, n2)" by fastforce
  have "progress t i j k opts c n1 r2 n2 \<or> r2 = Ret (status_of kEndOfStream) \<and> ended i n2"
    using b stop_pending_lively [OF conjunct1 [OF l1] k o] stop_input_lively [OF conjunct1 [OF l1] k o]
    by (cases "bn_pending_in n1") auto
  moreover have "node_try (r2, n2) = (r, n')"
    using d ok livelyD [OF conjunct1 [OF l1]] by (simp add: bnode_stop_def s b)
  ultimately show ?thesis using l1 by (auto simp: node_try_def)
qed

text \<open>A tick of such a node does not fail, and leaves such a node.\<close>

lemma tick_submit_lively:
  assumes l: "lively t i j k opts c n" and o: "ro_device_lost_after opts = 0"
    and d: "tick_submit (calm t) n = (r, n')"
  shows "\<exists>s. r = Ret s \<and> \<not> tick_fatal s \<and> lively t i j k opts c n'"
proof (cases "bn_pending_in n")
  case (Some f)
  obtain r1 n1 where s: "dev_call (bk_submit (calm t) (Some f)) n = (r1, n1)" by fastforce
  show ?thesis
    using submit_lively [OF l o Some s] d l
    by (auto simp: tick_submit_def Some s andthen_def tick_fatal_def status_of_def st_ok_def ok_status_def)
next
  case None
  obtain y n1 where c: "receive_input n = (y, n1)" by fastforce
  have w: "wired i j n" using livelyD [OF l] by blast
  note rc = receive_input_cases [OF w c]
  show ?thesis
  proof (cases y)
    case (Inl s)
    then have "r = Ret ok_status" "n' = n" using d rc by (simp_all add: tick_submit_def None c status_msg_def)
    then show ?thesis using l by (simp add: tick_fatal_def)
  next
    case (Inr f)
    let ?n = "n1\<lparr>bn_pending_in := Some f\<rparr>"
    have l1: "lively t i j k opts c ?n"
      using l rc by (auto simp: Inr None lively_def within_def wired_def)
    obtain r1 n2 where s: "dev_call (bk_submit (calm t) (Some f)) n1 = (r1, n2)" by fastforce
    then have s': "dev_call (bk_submit (calm t) (Some f)) ?n = (r1, n2\<lparr>bn_pending_in := Some f\<rparr>)"
      by (cases n1; cases n2) (auto simp: dev_call_def split: prod.splits)
    have n2: "bn_pending_in n2 = None" using s rc None by (auto simp: dev_call_def split: prod.splits)
    show ?thesis
      using submit_lively [OF l1 o _ s'] d l1 n2
      by (auto simp: tick_submit_def None c Inr s andthen_def tick_fatal_def status_of_def st_ok_def ok_status_def)
  qed
qed

lemma tick_lively:
  assumes l: "lively t i j k opts c n" and k: "k \<noteq> 0" and o: "ro_device_lost_after opts = 0"
    and d: "bnode_tick (calm t) n = (r, n')"
  shows "\<exists>s. r = Ret s \<and> \<not> tick_fatal s \<and> lively t i j k opts c n'"
proof -
  obtain s1 n1 where s: "send_pending_output n = (s1, n1)" by fastforce
  note l1 = conjunct1 [OF send_lively [OF l s]]
  have blocked: "\<not> tick_fatal s" if "send_pending_output m = (s, m')" "lively t i j k opts c m" "\<not> st_ok s" for s m m'
    using send_within(3) [OF _ _ that(1) k that(3)] livelyD [OF that(2)] by (auto simp: tick_fatal_def)
  obtain r2 n2 where v: "dev_call (bk_receive (calm t)) n1 = (r2, n2)" by fastforce
  let ?p = "the (bn_device n1)"
  have sv: "serving t opts c ?p" "bn_device n1 = Some ?p" using livelyD [OF l1] by (auto simp: wired_def)
  show ?thesis
  proof (cases "st_ok s1")
    case False
    then show ?thesis using d blocked [OF s l] l1 by (auto simp: bnode_tick_def s node_try_def)
  next
    case True
    show ?thesis
    proof (cases "rp_queue ?p")
      case Nil
      then have "r2 = Ret (Inl (status_of kWouldBlock))" "n2 = n1"
        using v serving_receive [OF sv(1)] sv(2)
        by (cases n1; simp add: dev_call_def ref_processor_ops_simps err_def status_of_def st_ok_def)+
      moreover obtain r3 n3 where t3: "tick_submit (calm t) n1 = (r3, n3)" by fastforce
      ultimately show ?thesis
        using d True tick_submit_lively [OF l1 o t3]
        by (auto simp: bnode_tick_def s v t3 andthen_def status_of_def is_temporarily_empty_def node_try_def)
    next
      case (Cons x xs)
      let ?n2 = "n2\<lparr>bn_pending_out := Some x\<rparr>"
      have r2: "r2 = Ret (Inr x)" "n2 = n1\<lparr>bn_device := Some (?p\<lparr>rp_queue := xs\<rparr>)\<rparr>"
        using v serving_receive [OF sv(1)] Cons
        by (simp_all add: dev_call_def ref_processor_ops_simps)
      have l2: "lively t i j k opts c ?n2"
        using l1 by (auto simp: r2 lively_def wired_def within_def)
      obtain s3 n3 where s3: "send_pending_output ?n2 = (s3, n3)" by fastforce
      obtain r4 n4 where t4: "tick_submit (calm t) n3 = (r4, n4)" by fastforce
      show ?thesis
        using d True blocked [OF s3 l2] send_lively [OF l2 s3]
          tick_submit_lively [OF conjunct1 [OF send_lively [OF l2 s3]] o t4]
        by (cases "st_ok s3") (auto simp: bnode_tick_def s v r2(1) andthen_def s3 t4 node_try_def)
    qed
  qed
qed

subsection \<open>Programs of a healthy node\<close>

text \<open>What the world may do to a healthy node before it is stopped.\<close>

fun offers :: "video_processor_config \<Rightarrow> io_op \<Rightarrow> bool" where
  "offers c (Io_produce f) \<longleftrightarrow> acceptable c f"
| "offers c Io_consume \<longleftrightarrow> True"
| "offers c Io_tick \<longleftrightarrow> True"
| "offers c Io_stop \<longleftrightarrow> False"

lemma consume_lively:
  assumes "lively t i j k opts c n" "k \<noteq> 0"
  shows "\<exists>n' C'. io_step i j hk Io_consume (st, n, P, C) = Some (st, n', P, C') \<and> lively t i j k opts c n'
      \<and> work i n' = work i n \<and> length (q_values (bn_outs n' ! j)) < unat k"
  using assms
  by (cases "q_values (bn_outs n ! j)")
     (auto simp: bqueue_pop_def lively_def wired_def within_def work_def unat_gt_0)

lemma produce_lively:
  assumes "lively t i j k opts c n" "acceptable c f"
  shows "\<exists>n' P'. io_step i j hk (Io_produce f) (st, n, P, C) = Some (st, n', P', C) \<and> lively t i j k opts c n'"
proof -
  obtain s q where p: "bqueue_push (Some f) (bn_frames n ! i) = (s, q)" by fastforce
  have "q_policy (bn_frames n ! i) = kBlock" "i < length (bn_frames n)"
    using assms(1) by (simp_all add: lively_def wired_def)
  then have "q = (bn_frames n ! i)\<lparr>q_values := q_values (bn_frames n ! i) @ [f]\<rparr> \<or> q = bn_frames n ! i"
    using p by (auto simp: bqueue_push_def preflight_push_def Let_def split: if_splits)
  then show ?thesis
    using assms p by (auto simp: lively_def wired_def within_def)
qed

lemma io_lively:
  assumes "lively t i j k opts c n" "k \<noteq> 0" "ro_device_lost_after opts = 0" "offers c p"
  shows "\<exists>n' P' C'. io_step i j (processor_node_hooks (calm t)) p (N_Running, n, P, C) = Some (N_Running, n', P', C')
      \<and> lively t i j k opts c n'"
proof (cases p)
  case (Io_produce f)
  then show ?thesis using produce_lively [OF assms(1)] assms(4) by fastforce
next
  case Io_consume
  show ?thesis using consume_lively [OF assms(1,2)] unfolding Io_consume by blast
next
  case Io_tick
  obtain r n' where b: "bnode_tick (calm t) n = (r, n')" by fastforce
  show ?thesis
    using tick_lively [OF assms(1-3) b]
    by (auto simp: Io_tick node_tick_def io_node_def processor_node_hooks_def bnode_hooks_def b)
qed (use assms(4) in simp)

lemma io_run_lively:
  assumes "k \<noteq> 0" "ro_device_lost_after opts = 0"
  shows "lively t i j k opts c n \<Longrightarrow> list_all (offers c) qs \<Longrightarrow>
    \<exists>n' P' C'. io_run i j (\<lambda>e. processor_node_hooks (ref_processor_ops e)) (map (Pair (no_throw, t)) qs) (N_Running, n, P, C)
        = Some (N_Running, n', P', C') \<and> lively t i j k opts c n'"
proof (induction qs arbitrary: n P C)
  case (Cons q qs)
  obtain n1 P1 C1 where s: "io_step i j (processor_node_hooks (calm t)) q (N_Running, n, P, C) = Some (N_Running, n1, P1, C1)"
    "lively t i j k opts c n1"
    using io_lively [OF Cons.prems(1) assms, of q P C] Cons.prems(2) by auto
  have "list_all (offers c) qs" using Cons.prems(2) by simp
  from Cons.IH [OF s(2) this] show ?case
    unfolding list.map io_run.simps s(1) option.case by blast
qed auto

text \<open>A round of the drain: the downstream takes a result and the node is stopped.\<close>

lemma stop_round:
  assumes "lively t i j k opts c n" "k \<noteq> 0" "ro_device_lost_after opts = 0" "ro_queue_capacity opts \<noteq> 0"
    and "st = N_Running \<or> st = N_Draining"
  shows "\<exists>st' n' C'. io_run i j (\<lambda>e. processor_node_hooks (ref_processor_ops e))
        [((no_throw, t), Io_consume), ((no_throw, t), Io_stop)] (st, n, P, C) = Some (st', n', P, C')
      \<and> (st' = N_Stopped \<and> ended i n' \<or> st' = N_Draining \<and> lively t i j k opts c n' \<and> work i n' < work i n)"
proof -
  obtain n1 C1 where s: "io_step i j (processor_node_hooks (calm t)) Io_consume (st, n, P, C) = Some (st, n1, P, C1)"
    "lively t i j k opts c n1" "work i n1 = work i n" "length (q_values (bn_outs n1 ! j)) < unat k"
    using consume_lively [OF assms(1,2)] by blast
  obtain r n2 where b: "bnode_stop ''processor'' (calm t) n1 = (r, n2)" by fastforce
  show ?thesis
    using stop_lively [OF s(2) assms(2-4) s(4) b] s(1,3) assms(5)
    by (auto simp: node_stop_def io_node_def processor_node_hooks_def bnode_hooks_def b tick_fatal_def st_ok_def
        status_of_def)
qed

abbreviation "stop_rounds k \<equiv> concat (replicate k [Io_consume, Io_stop])"

lemma stopped_round:
  "\<exists>n' C'. io_run i j (\<lambda>e. processor_node_hooks (ref_processor_ops e))
      [((no_throw, t), Io_consume), ((no_throw, t), Io_stop)] (N_Stopped, n, P, C) = Some (N_Stopped, n', P, C')
      \<and> bn_frames n' = bn_frames n \<and> bn_device n' = bn_device n"
  by (cases "bqueue_pop (bn_outs n ! j)"; cases "fst (bqueue_pop (bn_outs n ! j))")
     (simp_all add: node_stop_def io_node_def tick_fatal_def)

lemma io_run_append:
  "io_run i j hks (ps @ qs) s = (case io_run i j hks ps s of None \<Rightarrow> None | Some s' \<Rightarrow> io_run i j hks qs s')"
  by (induction ps arbitrary: s) (auto split: option.split)

lemma stop_rounds_stop:
  assumes "k \<noteq> 0" "ro_device_lost_after opts = 0" "ro_queue_capacity opts \<noteq> 0"
  shows "(st = N_Running \<or> st = N_Draining) \<and> lively t i j k opts c n \<and> work i n < m
        \<or> st = N_Stopped \<and> ended i n \<Longrightarrow>
    \<exists>n' C'. io_run i j (\<lambda>e. processor_node_hooks (ref_processor_ops e)) (map (Pair (no_throw, t)) (stop_rounds m)) (st, n, P, C)
        = Some (N_Stopped, n', P, C') \<and> ended i n'"
proof (induction m arbitrary: st n C)
  case (Suc m)
  let ?hk = "\<lambda>e. processor_node_hooks (ref_processor_ops e)"
  let ?round = "[((no_throw, t), Io_consume), ((no_throw, t), Io_stop)]"
  have "\<exists>st1 n1 C1. io_run i j ?hk ?round (st, n, P, C) = Some (st1, n1, P, C1)
      \<and> ((st1 = N_Running \<or> st1 = N_Draining) \<and> lively t i j k opts c n1 \<and> work i n1 < m
        \<or> st1 = N_Stopped \<and> ended i n1)"
  proof (cases "st = N_Stopped")
    case True
    then obtain n1 C1 where "io_run i j ?hk ?round (st, n, P, C) = Some (N_Stopped, n1, P, C1)"
      "bn_frames n1 = bn_frames n" "bn_device n1 = bn_device n"
      using stopped_round [of i j t n P C] by blast
    then show ?thesis using Suc.prems True by (intro exI) (auto simp: ended_def)
  next
    case False
    then have st: "st = N_Running \<or> st = N_Draining" and l: "lively t i j k opts c n" and w: "work i n < Suc m"
      using Suc.prems by blast+
    from stop_round [OF l assms st, of P C] show ?thesis using w by (elim exE conjE disjE) (blast, fastforce)
  qed
  then obtain st1 n1 C1 where r: "io_run i j ?hk ?round (st, n, P, C) = Some (st1, n1, P, C1)"
    "(st1 = N_Running \<or> st1 = N_Draining) \<and> lively t i j k opts c n1 \<and> work i n1 < m
        \<or> st1 = N_Stopped \<and> ended i n1" by blast
  have "map (Pair (no_throw, t)) (stop_rounds (Suc m)) = ?round @ map (Pair (no_throw, t)) (stop_rounds m)"
    by simp
  then show ?case using Suc.IH [OF r(2)] by (simp only: io_run_append r(1) option.case)
qed simp

text \<open>C13: a processor node at work never fails and its drain ends with everything delivered. Start a
  node between two blocking queues with a reference processor configured on its thread, with
  positive capacities, without an injected loss of the device, and let the upstream offer only
  frames of the configured format with valid alignment: every program of offers, takings and ticks
  succeeds, and as soon as the downstream takes one result before every stop, more than three stops
  for each frame taken in bring the node to \<open>kStopped\<close>, every frame being delivered in order.\<close>

theorem processor_node_drains:
  assumes "fresh_node i j n0" "bn_device n0 = Some p" "q_capacity (bn_outs n0 ! j) \<noteq> 0"
    and "rp_configure no_throw t c (ref_processor_new opts) = (ok_status, p)"
    and "ro_device_lost_after opts = 0" "ro_queue_capacity opts \<noteq> 0"
    and "list_all (offers c) qs"
  shows "\<exists>n P C. io_run i j (\<lambda>e. processor_node_hooks (ref_processor_ops e)) (map (Pair (no_throw, t)) qs)
        (N_Running, n0, [], []) = Some (N_Running, n, P, C)
    \<and> (\<forall>k > 3 * length P. \<exists>n' C'.
          io_run i j (\<lambda>e. processor_node_hooks (ref_processor_ops e)) (map (Pair (no_throw, t)) (stop_rounds k))
            (N_Running, n, P, C) = Some (N_Stopped, n', P, C')
          \<and> P = C' @ q_values (bn_outs n' ! j))"
proof -
  let ?hk = "\<lambda>e. processor_node_hooks (ref_processor_ops e)"
  have sv: "serving t opts c p" "rp_queue p = []" using serving_configured [OF assms(4)] by simp_all
  have p: "p = snd (rp_configure no_throw t c (ref_processor_new opts))" using assms(4) by simp
  have good: "rp_good p" unfolding p by (rule rp_configure_good [OF rp_new_good surjective_pairing])
  have l0: "lively t i j (q_capacity (bn_outs n0 ! j)) opts c n0"
    using assms(1,2) sv by (simp add: lively_def fresh_node_def within_def)
  obtain n P C where run: "io_run i j ?hk (map (Pair (no_throw, t)) qs) (N_Running, n0, [], []) = Some (N_Running, n, P, C)"
    and l: "lively t i j (q_capacity (bn_outs n0 ! j)) opts c n"
    using io_run_lively [OF assms(3,5) l0 assms(7)] by blast
  have lossless: "flow (=) rp_queue i j P' C' n'"
    "st = N_Stopped \<Longrightarrow> rp_queue (the (bn_device n')) = [] \<and> bn_pending_in n' = None \<and> bn_pending_out n' = None"
    if "io_run i j ?hk ps (N_Running, n0, [], []) = Some (st, n', P', C')" "rp_state (the (bn_device n')) \<noteq> B_Error"
    for ps st n' P' C'
    using pn.run_lossless [of i j n0 "''processor''" ps st n' P' C' "(no_throw, t)"] that assms(1,2) good sv(2)
    by (simp_all add: processor_node_hooks_def ref_processor_ops_simps)
  have "rp_state (the (bn_device n)) \<noteq> B_Error" using livelyD [OF l] by (auto simp: serving_def)
  from lossless(1) [OF run this] have w: "work i n \<le> 3 * length P"
    by (auto simp: flow_def work_def list.rel_eq split: option.splits)
  have "\<exists>n' C'. io_run i j ?hk (map (Pair (no_throw, t)) (stop_rounds k)) (N_Running, n, P, C) = Some (N_Stopped, n', P, C')
      \<and> P = C' @ q_values (bn_outs n' ! j)" if k: "k > 3 * length P" for k
  proof -
    obtain n' C' where drained: "io_run i j ?hk (map (Pair (no_throw, t)) (stop_rounds k)) (N_Running, n, P, C)
        = Some (N_Stopped, n', P, C')" "ended i n'"
      using stop_rounds_stop [OF assms(3,5,6), of N_Running t i j c n k P C] l w k by auto
    have all: "io_run i j ?hk (map (Pair (no_throw, t)) qs @ map (Pair (no_throw, t)) (stop_rounds k)) (N_Running, n0, [], [])
        = Some (N_Stopped, n', P, C')"
      by (simp only: io_run_append run drained(1) option.case)
    have "rp_state (the (bn_device n')) \<noteq> B_Error" using drained(2) by (simp add: ended_def)
    from lossless [OF all this] show ?thesis
      using drained by (auto simp: flow_def list.rel_eq ended_def)
  qed
  then show ?thesis using run by blast
qed

subsection \<open>The encoder whose drain cannot end\<close>

lemma held_back_submit:
  assumes "re_affinity e = Some t" "re_state e = B_Running" "re_input_format e = Some g"
    and "length (re_queue e) = unat (ro_queue_capacity (re_options e))" "ro_device_lost_after (re_options e) = 0"
    and "same_format (vfr_format f) g" "st_ok (validate_reference_alignment h f)"
  shows "re_submit h t (Some f) e = (status_of kWouldBlock, e)"
  using assms by (simp add: re_submit_def verify_current_thread_def can_submit_def Let_def)

lemma held_back_receive:
  assumes "re_affinity e = Some t" "re_state e = B_Running"
    and "length (re_queue e) \<le> unat (ro_output_delay (re_options e))"
  shows "re_receive h t ops (e, m) = (err (status_of kWouldBlock), e, m)"
  using assms by (simp add: re_receive_def verify_current_thread_def can_receive_def Let_def)

text \<open>C21: an encoder node with a frame pending before a full backend that holds back as many frames
  as it can queue never drains: \<open>begin_drain\<close> is only reached once the pending frame is accepted,
  the backend accepts no frame before it hands out a packet, and it hands out none before the
  drain. However often the node is stopped, each call answers \<open>kWouldBlock\<close> and changes nothing.\<close>

theorem encoder_drain_blocks:
  assumes "bn_device n = Some (e, m)" "bn_pending_in n = Some f" "bn_pending_out n = None" "\<not> bn_drain_started n"
    and "re_affinity e = Some t" "re_state e = B_Running" "re_input_format e = Some g"
    and "length (re_queue e) = unat (ro_queue_capacity (re_options e))"
    and "ro_queue_capacity (re_options e) \<le> ro_output_delay (re_options e)"
    and "ro_device_lost_after (re_options e) = 0"
    and "same_format (vfr_format f) g" "st_ok (validate_reference_alignment h f)"
    and "st = N_Running \<or> st = N_Draining"
  shows "io_run i j (\<lambda>e. encoder_node_hooks (ref_encoder_ops ops e)) (replicate (Suc k) ((h, t), Io_stop)) (st, n, P, C)
    = Some (N_Draining, n, P, C)"
proof -
  have le: "length (re_queue e) \<le> unat (ro_output_delay (re_options e))"
    using assms(8,9) by (simp add: word_le_nat_alt)
  have dev [simp]: "n\<lparr>bn_device := Some (e, m)\<rparr> = n" using assms(1) by (cases n) simp
  have "bnode_stop ''encoder'' (ref_encoder_ops ops (h, t)) n = (Ret (status_of kWouldBlock), n)"
    using assms(1-4) held_back_submit [OF assms(5-8) assms(10-12)] held_back_receive [OF assms(5,6) le]
    by (simp add: bnode_stop_def send_pending_output_def stop_pending_def dev_call_def ref_encoder_ops_simps
        on_encoder_def andthen_def is_temporarily_empty_def node_try_def status_of_def err_def st_ok_def ok_status_def)
  then have stop: "io_step i j (encoder_node_hooks (ref_encoder_ops ops (h, t))) Io_stop (st, n, P, C) = Some (N_Draining, n, P, C)"
    if "st = N_Running \<or> st = N_Draining" for st
    using that
    by (auto simp: node_stop_def io_node_def encoder_node_hooks bnode_hooks_def tick_fatal_def status_of_def st_ok_def)
  show ?thesis
    using assms(13) by (induction k arbitrary: st) (auto simp: stop simp del: io_step.simps)
qed

subsection \<open>Examples\<close>

definition tiny_node :: "'d \<Rightarrow> 'c \<Rightarrow> ('d, 'c, 'o) bnode" where
  "tiny_node d c = (bnode_new ''out'' (Some d) c 2 [bqueue_new 2 kBlock] [bqueue_new 2 kBlock])
     \<lparr>bn_input := (input_port_new ''in'' 2 kBlock)\<lparr>ip_queue := Some 0\<rparr>,
      bn_output := (output_port_new ''out'')\<lparr>op_connections := [0]\<rparr>\<rparr>"

lemma tiny_fresh: "fresh_node 0 0 (tiny_node d c)"
  by (simp add: fresh_node_def wired_def tiny_node_def bnode_new_def bqueue_new_def input_port_new_def output_port_new_def)

lemma tiny_acceptable: "acceptable tiny_config (tiny_frame pts)"
  by (simp add: acceptable_def tiny_alignment tiny_same tiny_config_def)

abbreviation "tiny_processor \<equiv> snd (rp_configure no_throw 7 tiny_config (ref_processor_new ref_options_default))"

text \<open>A frame goes through the node, another is in it when the node is stopped.\<close>

abbreviation "tiny_program \<equiv> map (Pair (no_throw, 7))
  [Io_produce (tiny_frame 3), Io_produce (tiny_frame 4), Io_tick, Io_tick, Io_consume, Io_stop, Io_stop, Io_stop, Io_stop]"

lemma tiny_run:
  "(case io_run 0 0 (\<lambda>e. processor_node_hooks (ref_processor_ops e)) tiny_program
      (N_Running, tiny_node tiny_processor tiny_config, [], []) of None \<Rightarrow> False
    | Some (st, n, P, C) \<Rightarrow> st = N_Stopped \<and> map vfr_pts P = [3, 4] \<and> map vfr_pts C = [3]
        \<and> rp_state (the (bn_device n)) = B_Stopped)"
  by code_simp


theorem processor_node_drains_witness:
  "\<exists>n P C n' C'. io_run 0 0 (\<lambda>e. processor_node_hooks (ref_processor_ops e))
      (map (Pair (no_throw, 7)) [Io_produce (tiny_frame 3), Io_produce (tiny_frame 4), Io_tick])
      (N_Running, tiny_node tiny_processor tiny_config, [], []) = Some (N_Running, n, P, C)
    \<and> io_run 0 0 (\<lambda>e. processor_node_hooks (ref_processor_ops e))
        (map (Pair (no_throw, 7)) (stop_rounds (Suc (3 * length P)))) (N_Running, n, P, C) = Some (N_Stopped, n', P, C')
    \<and> P = C' @ q_values (bn_outs n' ! 0)"
proof -
  let ?n = "tiny_node tiny_processor tiny_config"
  have c: "rp_configure no_throw 7 tiny_config (ref_processor_new ref_options_default) = (ok_status, tiny_processor)"
    by (simp add: tiny_configured)
  have d: "bn_device ?n = Some tiny_processor" "q_capacity (bn_outs ?n ! 0) \<noteq> 0"
    by (simp_all add: tiny_node_def bnode_new_def bqueue_new_def)
  have o: "ro_device_lost_after ref_options_default = 0" "ro_queue_capacity ref_options_default \<noteq> 0"
    "list_all (offers tiny_config) [Io_produce (tiny_frame 3), Io_produce (tiny_frame 4), Io_tick]"
    by (simp_all add: ref_options_default_def tiny_acceptable)
  from processor_node_drains [OF tiny_fresh d(1,2) c o] show ?thesis by (meson lessI)
qed

abbreviation "tiny_encoder opts \<equiv>
  (snd (re_configure no_throw 7 (tiny_format, tiny_encoder_config) (ref_encoder_new opts)), tiny_memory)"

abbreviation "tiny_encoder_start opts \<equiv>
  (N_Running, tiny_node (tiny_encoder opts) (tiny_format, tiny_encoder_config), [], [])"

abbreviation "tiny_encoder_run \<equiv> io_run 0 0 (\<lambda>e. encoder_node_hooks (ref_encoder_ops (cpu_ops tiny_base) e))"

lemma tiny_encoder_start:
  "(case tiny_encoder_run (map (Pair (no_throw, 7)) [Io_produce (tiny_frame 3), Io_tick])
      (tiny_encoder_start ref_options_default) of None \<Rightarrow> False
    | Some (st, n, P, C) \<Rightarrow> st = N_Running \<and> P = [tiny_frame 3] \<and> C = []
        \<and> (case bn_device n of None \<Rightarrow> False | Some (e, m) \<Rightarrow> mem_next m = 1 \<and> re_queue e = [tiny_frame 3]
              \<and> re_state e = B_Running \<and> re_affinity e = Some 7 \<and> ro_output_delay (re_options e) = 0)
        \<and> bn_pending_in n = None \<and> bn_pending_out n = None \<and> ip_queue (bn_input n) = Some 0
        \<and> op_connections (bn_output n) = [0] \<and> bn_frames n = [bqueue_new 2 kBlock] \<and> bn_outs n = [bqueue_new 2 kBlock])"
  by code_simp

lemma tiny_encode_any:
  "mem_next m = 1 \<Longrightarrow>
    \<exists>x m'. ref_encode no_throw (cpu_ops tiny_base) (tiny_frame pts) m = (Inr x, m') \<and> mp_pts x = pts"
  by (simp add: ref_encode_def map_plane_def tiny_frame_def cpu_ops_def cpu_storage_def plane_layout_of_def
      is_within_def tiny_base_def Let_def buffer_allocate_plain_def buffer_allocate_def
      buffer_create_def validate_planes_def media_packet_create_def)

lemma tick_delivers:
  assumes "bk_receive ops d = (Ret (Inr x), d')" "bn_device n = Some d" "bn_pending_in n = None" "bn_pending_out n = None"
    "ip_queue (bn_input n) = Some 0" "op_connections (bn_output n) = [0]" "bn_frames n = [bqueue_new 2 kBlock]"
    "bn_outs n = [bqueue_new 2 kBlock]"
  shows "\<exists>n'. bnode_tick ops n = (Ret ok_status, n') \<and> bn_device n' = Some d' \<and> q_values (bn_outs n' ! 0) = [x]"
  using assms
  by (simp add: bnode_tick_def send_pending_output_def dev_call_def andthen_def port_send_def tick_submit_def
      receive_input_def port_receive_def bqueue_new_def bqueue_pop_def bqueue_push_def preflight_push_def
      bqueue_size_def node_try_def Let_def err_def status_msg_def st_ok_def ok_status_def)

theorem encoder_node_lossless_witness:
  "\<exists>n. tiny_encoder_run (map (Pair (no_throw, 7)) [Io_produce (tiny_frame 3), Io_tick, Io_tick])
      (tiny_encoder_start ref_options_default) = Some (N_Running, n, [tiny_frame 3], [])
    \<and> map mp_pts (q_values (bn_outs n ! 0)) = [3]
    \<and> (\<exists>fs. [tiny_frame 3] = fs @ re_queue (fst (the (bn_device n))) @ case_option [] (\<lambda>f. [f]) (bn_pending_in n)
          @ q_values (bn_frames n ! 0)
        \<and> list_all2 packet_of fs ([] @ q_values (bn_outs n ! 0) @ case_option [] (\<lambda>x. [x]) (bn_pending_out n)))"
proof -
  obtain st n P C where r: "tiny_encoder_run (map (Pair (no_throw, 7)) [Io_produce (tiny_frame 3), Io_tick])
      (tiny_encoder_start ref_options_default) = Some (st, n, P, C)"
    using tiny_encoder_start by (cases "tiny_encoder_run (map (Pair (no_throw, 7)) [Io_produce (tiny_frame 3), Io_tick])
      (tiny_encoder_start ref_options_default)") auto
  note t = tiny_encoder_start [unfolded r option.case prod.case]
  then obtain e m where d: "bn_device n = Some (e, m)" by (auto split: option.splits)
  obtain x m' where x: "ref_encode no_throw (cpu_ops tiny_base) (tiny_frame 3) m = (Inr x, m')" "mp_pts x = 3"
    using tiny_encode_any [of m 3] t d by auto
  have "bk_receive (ref_encoder_ops (cpu_ops tiny_base) (no_throw, 7)) (e, m) = (Ret (Inr x), e\<lparr>re_queue := []\<rparr>, m')"
    using t d x by (simp add: ref_encoder_ops_simps re_receive_def verify_current_thread_def can_receive_def Let_def)
  from tick_delivers [OF this d] obtain n' where n': "bnode_tick (ref_encoder_ops (cpu_ops tiny_base) (no_throw, 7)) n
      = (Ret ok_status, n')" "bn_device n' = Some (e\<lparr>re_queue := []\<rparr>, m')" "q_values (bn_outs n' ! 0) = [x]"
    using t by auto
  have "map (Pair (no_throw, 7::nat)) [Io_produce (tiny_frame 3), Io_tick, Io_tick]
      = map (Pair (no_throw, 7)) [Io_produce (tiny_frame 3), Io_tick] @ [((no_throw, 7), Io_tick)]" by simp
  then have run: "tiny_encoder_run (map (Pair (no_throw, 7)) [Io_produce (tiny_frame 3), Io_tick, Io_tick])
      (tiny_encoder_start ref_options_default) = Some (N_Running, n', [tiny_frame 3], [])"
    using t unfolding io_run_append r
    by (simp only: io_run_append r option.case)
       (simp add: node_tick_def io_node_def encoder_node_hooks bnode_hooks_def n'(1) tick_fatal_def)
  have dev: "bn_device (tiny_node (tiny_encoder ref_options_default) (tiny_format, tiny_encoder_config))
      = Some (tiny_encoder ref_options_default)"
    by (simp add: tiny_node_def bnode_new_def)
  have e: "re_state (fst (the (bn_device n'))) \<noteq> B_Error" using t d n'(2) by simp
  show ?thesis
    using encoder_node_lossless [OF tiny_fresh dev run e] run n'(3) x(2) by auto
qed

text \<open>One frame in a backend of capacity one that holds one frame back, another before it.\<close>

definition held_options :: ref_options where
  "held_options = ref_options_default\<lparr>ro_queue_capacity := 1, ro_output_delay := 1\<rparr>"

lemma tiny_held:
  "(case tiny_encoder_run (map (Pair (no_throw, 7)) [Io_produce (tiny_frame 3), Io_produce (tiny_frame 4), Io_tick, Io_tick])
      (tiny_encoder_start held_options) of None \<Rightarrow> False
    | Some (st, n, P, C) \<Rightarrow> st = N_Running
        \<and> (case bn_device n of None \<Rightarrow> False | Some (e, m) \<Rightarrow> length (re_queue e) = 1 \<and> re_options e = held_options
              \<and> re_state e = B_Running \<and> re_affinity e = Some 7 \<and> re_input_format e = Some tiny_format)
        \<and> bn_pending_in n = Some (tiny_frame 4) \<and> bn_pending_out n = None \<and> \<not> bn_drain_started n)"
  by code_simp

theorem encoder_drain_blocks_witness:
  "case tiny_encoder_run (map (Pair (no_throw, 7)) [Io_produce (tiny_frame 3), Io_produce (tiny_frame 4), Io_tick, Io_tick])
      (tiny_encoder_start held_options) of None \<Rightarrow> False
    | Some (st, n, P, C) \<Rightarrow>
        (\<forall>k. tiny_encoder_run (replicate (Suc k) ((no_throw, 7), Io_stop)) (st, n, P, C) = Some (N_Draining, n, P, C))"
proof -
  let ?run = "tiny_encoder_run (map (Pair (no_throw, 7)) [Io_produce (tiny_frame 3), Io_produce (tiny_frame 4), Io_tick, Io_tick])
      (tiny_encoder_start held_options)"
  obtain st n P C where r: "?run = Some (st, n, P, C)"
    using tiny_held by (cases ?run) auto
  note t = tiny_held [unfolded r option.case prod.case]
  then obtain e m where d: "bn_device n = Some (e, m)" by (auto split: option.splits)
  have "tiny_encoder_run (replicate (Suc k) ((no_throw, 7), Io_stop)) (st, n, P, C) = Some (N_Draining, n, P, C)" for k
    using t d
    by (intro encoder_drain_blocks [where g = tiny_format and f = "tiny_frame 4" and e = e and m = m])
       (auto simp: held_options_def ref_options_default_def tiny_same tiny_alignment)
  then show ?thesis unfolding r by simp
qed

end
