(* ===== verification/Simulated_Platform.thy ===== *)
theory Simulated_Platform
  imports Control Management Queue_Port Reference_Backend
begin

text \<open>
  \<open>src/platform/simulated_platform.cpp\<close>: a source that makes packets, a node that passes them on
  and a sink that counts them, in one pipeline, driven by commands through the reconciler.

  The three nodes share a world: the memory their packets live in, the source's counter, the ports
  with their queues, and the metrics. The world also holds the exceptions of the moment, which the
  environment may change before each operation. The counter of the source is a 64-bit integer that
  no run can bring to overflow; it is an \<open>int\<close>.
\<close>

record sim_world =
  sw_throws :: throws
  sw_memory :: memory
  sw_next_pts :: int
  sw_source_out :: output_port
  sw_pass_in :: input_port
  sw_pass_out :: output_port
  sw_sink_in :: input_port
  sw_queues :: "media_packet queue_store"
  sw_metrics :: metric_registry

definition sim_time_base :: time_base where
  "sim_time_base = \<lparr>tb_numerator = 1, tb_denominator = 1000\<rparr>"

definition sim_packet :: "buffer \<Rightarrow> int \<Rightarrow> media_packet" where
  "sim_packet buf pts =
     \<lparr>mp_buffer = buf, mp_codec = CodecReference, mp_stream_format = StreamReference,
      mp_stream_index = 0, mp_pts = pts, mp_dts = pts, mp_duration = 1, mp_time_base = sim_time_base,
      mp_key_frame = True, mp_codec_config = []\<rparr>"

definition fake_source_tick :: "memory storage_ops \<Rightarrow> sim_world \<Rightarrow> status outcome \<times> sim_world" where
  "fake_source_tick ops w =
     (let h = sw_throws w; m = sw_memory w
      in case buffer_allocate_plain h (mem_next m) 16 of
           Inl s \<Rightarrow> (Ret s, w)
         | Inr buf \<Rightarrow>
             (case map_plane ops buf 0 kReadWrite (m\<lparr>mem_next := Suc (mem_next m)\<rparr>) of
                (Inl s, m1) \<Rightarrow> (Ret s, w\<lparr>sw_memory := m1\<rparr>)
              | (Inr mapped, m1) \<Rightarrow>
                  let m2 = write_bytes (mutable_data mapped) [word_of_int (sw_next_pts w)] m1;
                      w2 = w\<lparr>sw_memory := drop_region ops mapped m2\<rparr>
                  in case media_packet_create h (sim_packet buf (sw_next_pts w)) of
                       Inl s \<Rightarrow> (Ret s, w2)
                     | Inr packet \<Rightarrow>
                         (case h S_sim_packet of
                            Some e \<Rightarrow> (Throw e, w2)
                          | None \<Rightarrow>
                              let w3 = w2\<lparr>sw_next_pts := sw_next_pts w + 1\<rparr>
                              in case port_send (Some packet) (sw_source_out w3) (sw_queues w3) of
                                   (s, qs) \<Rightarrow> (Ret s, w3\<lparr>sw_queues := qs\<rparr>))))"

definition pass_through_tick :: "sim_world \<Rightarrow> status outcome \<times> sim_world" where
  "pass_through_tick w =
     (case port_receive (sw_pass_in w) (sw_queues w) of
        (Inl s, qs) \<Rightarrow> (Ret (if st_code s = kNotFound then ok_status else s), w\<lparr>sw_queues := qs\<rparr>)
      | (Inr packet, qs) \<Rightarrow>
          (case port_send (Some packet) (sw_pass_out w) qs of (s, qs') \<Rightarrow> (Ret s, w\<lparr>sw_queues := qs'\<rparr>)))"

text \<open>\<open>static_cast<double>\<close> of a natural number below \<open>2 ^ 53\<close>: the exponent of its highest bit and
  the bits below it.\<close>

definition double_of_size :: "nat \<Rightarrow> 64 word" where
  "double_of_size n =
     (if n = 0 then 0
      else let e = length (takeWhile (\<lambda>k. 2 ^ Suc k \<le> n) [0..<53])
        in push_bit 52 (of_nat (1023 + e)) + push_bit (52 - e) (of_nat (n - 2 ^ e)))"

definition processed_key :: string where
  "processed_key = ''media.packets.processed''"

definition depth_key :: string where
  "depth_key = ''pipeline.queue.depth''"

definition fake_sink_tick :: "sim_world \<Rightarrow> status outcome \<times> sim_world" where
  "fake_sink_tick w =
     (case port_receive (sw_sink_in w) (sw_queues w) of
        (Inl s, qs) \<Rightarrow> (Ret (if st_code s = kNotFound then ok_status else s), w\<lparr>sw_queues := qs\<rparr>)
      | (Inr packet, qs) \<Rightarrow>
          (case increment_counter processed_key 1 (sw_metrics w) of (s, ms) \<Rightarrow>
             let w1 = w\<lparr>sw_queues := qs, sw_metrics := ms\<rparr>
             in if \<not> st_ok s then (Ret s, w1)
                else case set_gauge depth_key (double_of_size (port_queue_size (sw_sink_in w1) qs)) ms of
                       (s', ms') \<Rightarrow> (Ret s', w1\<lparr>sw_metrics := ms'\<rparr>)))"

definition source_hooks :: "memory storage_ops \<Rightarrow> sim_world hooks" where
  "source_hooks ops = default_hooks\<lparr>on_tick := fake_source_tick ops\<rparr>"

definition pass_hooks :: "sim_world hooks" where
  "pass_hooks = default_hooks\<lparr>on_tick := pass_through_tick\<rparr>"

definition sink_hooks :: "sim_world hooks" where
  "sink_hooks = default_hooks\<lparr>on_tick := fake_sink_tick\<rparr>"

subsection \<open>The platform\<close>

record sim_platform =
  sp_desired :: state_store
  sp_actual :: state_store
  sp_health :: health_manager
  sp_pipeline :: "sim_world pipeline"
  sp_initialized :: bool
  sp_world :: sim_world

definition sim_new :: "memory \<Rightarrow> sim_platform" where
  "sim_new m =
     \<lparr>sp_desired = store_new, sp_actual = store_new, sp_health = [],
      sp_pipeline = pipeline_new ''live0'', sp_initialized = False,
      sp_world = \<lparr>sw_throws = no_throw, sw_memory = m, sw_next_pts = 0,
        sw_source_out = output_port_new ''packet_output'', sw_pass_in = input_port_new ''packet_input'' 4 kBlock,
        sw_pass_out = output_port_new ''packet_output'', sw_sink_in = input_port_new ''packet_input'' 4 kBlock,
        sw_queues = [], sw_metrics = metrics_new\<rparr>\<rparr>"

text \<open>The constructors of the three nodes.\<close>

definition fresh_nodes :: "sim_world \<Rightarrow> sim_world" where
  "fresh_nodes w = w\<lparr>sw_next_pts := 0, sw_source_out := output_port_new ''packet_output'',
     sw_pass_in := input_port_new ''packet_input'' 4 kBlock, sw_pass_out := output_port_new ''packet_output'',
     sw_sink_in := input_port_new ''packet_input'' 4 kBlock\<rparr>"

definition connect_nodes :: "sim_world \<Rightarrow> status \<times> sim_world" where
  "connect_nodes w =
     (case port_connect (sw_source_out w) (sw_pass_in w) (sw_queues w) of (s, out, inp, qs) \<Rightarrow>
        let w1 = w\<lparr>sw_source_out := out, sw_pass_in := inp, sw_queues := qs\<rparr>
        in if \<not> st_ok s then (s, w1)
           else case port_connect (sw_pass_out w1) (sw_sink_in w1) (sw_queues w1) of (s, out, inp, qs) \<Rightarrow>
                  (s, w1\<lparr>sw_pass_out := out, sw_sink_in := inp, sw_queues := qs\<rparr>))"

definition add_nodes :: "sim_world node list \<Rightarrow> sim_world pipeline \<Rightarrow> status \<times> sim_world pipeline" where
  "add_nodes ns p =
     fold (\<lambda>n (s, p). if st_ok s then pipeline_add_node (Some n) p else (s, p)) ns (ok_status, p)"

definition sim_node :: "string \<Rightarrow> sim_world hooks \<Rightarrow> sim_world node" where
  "sim_node i hk = \<lparr>n_id = i, n_state = N_Created, n_hooks = hk\<rparr>"

definition sim_initialize :: "memory storage_ops \<Rightarrow> sim_platform \<Rightarrow> status outcome \<times> sim_platform" where
  "sim_initialize ops p =
     (if sp_initialized p then (Ret ok_status, p)
      else case sw_throws (sp_world p) S_sim_nodes of
        Some e \<Rightarrow> (Throw e, p)
      | None \<Rightarrow>
        (case connect_nodes (fresh_nodes (sp_world p)) of (s, w) \<Rightarrow>
           let p = p\<lparr>sp_world := w\<rparr>
           in if \<not> st_ok s then (Ret s, p)
              else case add_nodes [sim_node ''source'' (source_hooks ops), sim_node ''passthrough'' pass_hooks,
                                   sim_node ''sink'' sink_hooks] (sp_pipeline p) of (s, pl) \<Rightarrow>
                if \<not> st_ok s then (Ret s, p\<lparr>sp_pipeline := pl\<rparr>)
                else case pipeline_connect ''source'' ''passthrough'' pl of (s, pl) \<Rightarrow>
                  if \<not> st_ok s then (Ret s, p\<lparr>sp_pipeline := pl\<rparr>)
                  else case pipeline_connect ''passthrough'' ''sink'' pl of (s, pl) \<Rightarrow>
                    if \<not> st_ok s then (Ret s, p\<lparr>sp_pipeline := pl\<rparr>)
                    else case health_report (sw_throws w) ''pipeline'' H_Ok ''initialized'' (sp_health p) of (s, hm) \<Rightarrow>
                      (Ret s, p\<lparr>sp_pipeline := pl, sp_initialized := True, sp_health := hm\<rparr>)))"

definition not_initialized :: status where
  "not_initialized = status_msg kInvalidState ''platform is not initialized''"

definition sim_dispatch_start :: "start_pipeline_command \<Rightarrow> sim_platform \<Rightarrow> status \<times> sim_platform" where
  "sim_dispatch_start c p =
     (if \<not> sp_initialized p then (not_initialized, p)
      else case handle_start (sw_throws (sp_world p)) c (Some (sp_desired p)) of
             (s, d) \<Rightarrow> (s, p\<lparr>sp_desired := the d\<rparr>))"

definition sim_dispatch_stop :: "stop_pipeline_command \<Rightarrow> sim_platform \<Rightarrow> status \<times> sim_platform" where
  "sim_dispatch_stop c p =
     (if \<not> sp_initialized p then (not_initialized, p)
      else case handle_stop (sw_throws (sp_world p)) c (Some (sp_desired p)) of
             (s, d) \<Rightarrow> (s, p\<lparr>sp_desired := the d\<rparr>))"

text \<open>Reporting the health after an operation: \<open>good\<close> is the message of success.\<close>

definition sim_report :: "string \<Rightarrow> status \<Rightarrow> sim_platform \<Rightarrow> status \<times> sim_platform" where
  "sim_report good status p =
     (let h = sw_throws (sp_world p)
      in if \<not> st_ok status
         then (case health_report h ''pipeline'' H_Error (st_message status) (sp_health p) of (hs, hm) \<Rightarrow>
                 (if st_ok hs then status else hs, p\<lparr>sp_health := hm\<rparr>))
         else (case health_report h ''pipeline'' H_Ok good (sp_health p) of (hs, hm) \<Rightarrow>
                 (hs, p\<lparr>sp_health := hm\<rparr>)))"

definition sim_reconcile_once :: "sim_platform \<Rightarrow> status outcome \<times> sim_platform" where
  "sim_reconcile_once p =
     (if \<not> sp_initialized p then (Ret not_initialized, p)
      else case reconcile_once (\<lambda>_. sw_throws (sp_world p)) (Some (sp_pipeline p)) (Some (sp_desired p))
                  (Some (sp_actual p)) (sp_world p) of (r, pl, a, w) \<Rightarrow>
        let p = p\<lparr>sp_pipeline := the pl, sp_actual := the a, sp_world := w\<rparr>
        in case r of Throw e \<Rightarrow> (Throw e, p)
                   | Ret status \<Rightarrow> apfst Ret (sim_report ''desired state converged'' status p))"

definition sim_tick :: "nat \<Rightarrow> sim_platform \<Rightarrow> status outcome \<times> sim_platform" where
  "sim_tick ticks p =
     (if \<not> sp_initialized p then (Ret not_initialized, p)
      else case executor_run ticks (sp_pipeline p) (sp_world p) of (r, pl, w) \<Rightarrow>
        let p = p\<lparr>sp_pipeline := pl, sp_world := w\<rparr>
        in case r of Throw e \<Rightarrow> (Throw e, p)
                   | Ret status \<Rightarrow> apfst Ret (sim_report ''running'' status p))"

definition sim_query :: "string \<Rightarrow> sim_platform \<Rightarrow> state_snapshot result" where
  "sim_query pipeline_id p =
     (if pipeline_id \<noteq> p_id (sp_pipeline p) then err (status_msg kNotFound ''pipeline was not found'')
      else let snapshot = store_snapshot (sp_actual p)
        in case snapshot_get (pipeline_state_key pipeline_id) snapshot of
             Inl s \<Rightarrow> err s
           | Inr _ \<Rightarrow> Inr snapshot)"

subsection \<open>The pipeline the platform builds\<close>

definition "sim_g1 = snd (graph_add_node ''source'' graph_new)"
definition "sim_g2 = snd (graph_add_node ''passthrough'' sim_g1)"
definition "sim_g3 = snd (graph_add_node ''sink'' sim_g2)"
definition "sim_g4 = snd (graph_connect ''source'' ''passthrough'' sim_g3)"
definition "sim_graph = snd (graph_connect ''passthrough'' ''sink'' sim_g4)"

lemma sim_graph_ops:
  "graph_add_node ''source'' graph_new = (ok_status, sim_g1)"
  "graph_add_node ''passthrough'' sim_g1 = (ok_status, sim_g2)"
  "graph_add_node ''sink'' sim_g2 = (ok_status, sim_g3)"
  "graph_connect ''source'' ''passthrough'' sim_g3 = (ok_status, sim_g4)"
  "graph_connect ''passthrough'' ''sink'' sim_g4 = (ok_status, sim_graph)"
  "topological_order sim_graph = Inr [''source'', ''passthrough'', ''sink'']"
  by code_simp+

definition sim_pipeline :: "memory storage_ops \<Rightarrow> pipeline_state \<Rightarrow> node_state \<Rightarrow> nat list \<Rightarrow> sim_world pipeline" where
  "sim_pipeline ops st ns order =
     \<lparr>p_id = ''live0'', p_state = st, p_graph = sim_graph,
      p_nodes = [\<lparr>n_id = ''source'', n_state = ns, n_hooks = source_hooks ops\<rparr>,
                 \<lparr>n_id = ''passthrough'', n_state = ns, n_hooks = pass_hooks\<rparr>,
                 \<lparr>n_id = ''sink'', n_state = ns, n_hooks = sink_hooks\<rparr>],
      p_nodes_by_id = [''source'' \<mapsto> 0, ''passthrough'' \<mapsto> 1, ''sink'' \<mapsto> 2],
      p_drain_order = order, p_drain_index = 0\<rparr>"

text \<open>The world between two ticks of the pipeline: \<open>k\<close> packets have gone all the way.\<close>

definition settled :: "nat \<Rightarrow> sim_world \<Rightarrow> bool" where
  "settled k w \<longleftrightarrow> sw_throws w = no_throw \<and> sw_next_pts w = int k
     \<and> op_connections (sw_source_out w) = [0] \<and> ip_queue (sw_pass_in w) = Some 0
     \<and> op_connections (sw_pass_out w) = [1] \<and> ip_queue (sw_sink_in w) = Some 1
     \<and> sw_queues w = [bqueue_new 4 kBlock, bqueue_new 4 kBlock]
     \<and> counter_or_0 processed_key (sw_metrics w) = of_nat k"

lemma sim_initialize_new:
  "\<exists>p. sim_initialize ops (sim_new m) = (Ret ok_status, p)
     \<and> sp_pipeline p = sim_pipeline ops P_Created N_Created [] \<and> settled 0 (sp_world p)
     \<and> sp_initialized p \<and> sp_desired p = store_new \<and> sp_actual p = store_new"
  by (simp add: sim_initialize_def sim_new_def fresh_nodes_def connect_nodes_def port_connect_def
      input_port_new_def output_port_new_def add_nodes_def pipeline_add_node_def pipeline_new_def sim_graph_ops
      pipeline_connect_def sim_node_def health_report_def sim_pipeline_def settled_def counter_or_0_def metrics_new_def
      flip: numeral_2_eq_2)

lemma sim_order: "ordered_nodes (sim_pipeline ops st ns order) [''source'', ''passthrough'', ''sink''] = [0, 1, 2]"
  by (simp add: ordered_nodes_def sim_pipeline_def)

lemma sim_fields [simp]:
  "p_graph (sim_pipeline ops st ns order) = sim_graph" "p_state (sim_pipeline ops st ns order) = st"
  "p_id (sim_pipeline ops st ns order) = ''live0''"
  by (simp_all add: sim_pipeline_def)

lemma hook_simps [simp]:
  "on_prepare (source_hooks ops) = Pair (Ret ok_status)" "on_start (source_hooks ops) = Pair (Ret ok_status)"
  "on_prepare pass_hooks = Pair (Ret ok_status)" "on_start pass_hooks = Pair (Ret ok_status)"
  "on_prepare sink_hooks = Pair (Ret ok_status)" "on_start sink_hooks = Pair (Ret ok_status)"
  "on_stop (source_hooks ops) = Pair (Ret ok_status)" "on_reset (source_hooks ops) = Pair (Ret ok_status)"
  "on_stop pass_hooks = Pair (Ret ok_status)" "on_reset pass_hooks = Pair (Ret ok_status)"
  "on_stop sink_hooks = Pair (Ret ok_status)" "on_reset sink_hooks = Pair (Ret ok_status)"
  "on_tick (source_hooks ops) = fake_source_tick ops" "on_tick pass_hooks = pass_through_tick"
  "on_tick sink_hooks = fake_sink_tick"
  by (simp_all add: source_hooks_def pass_hooks_def sink_hooks_def default_hooks_def)

lemma sim_start:
  "pipeline_start (sim_pipeline ops P_Created N_Created []) w = (Ret ok_status, sim_pipeline ops P_Running N_Running [0, 1, 2], w)"
proof -
  have "ordered_nodes (sim_pipeline ops P_Created N_Created []\<lparr>p_drain_order := [], p_drain_index := 0\<rparr>)
      [''source'', ''passthrough'', ''sink''] = [0, 1, 2]"
    by (simp add: ordered_nodes_def sim_pipeline_def)
  then show ?thesis
    by (simp add: pipeline_start_def sim_graph_ops Let_def)
       (simp add: sim_pipeline_def call_node_def node_prepare_def node_start_def)
qed

text \<open>The buffers of the platform can be mapped.\<close>

lemma source_tick:
  assumes "settled k w" "\<forall>i. base i \<noteq> 0"
  shows "\<exists>m x. fake_source_tick (cpu_ops base) w
    = (Ret ok_status, w\<lparr>sw_memory := m, sw_next_pts := int k + 1,
        sw_queues := [(bqueue_new 4 kBlock)\<lparr>q_values := [x]\<rparr>, bqueue_new 4 kBlock]\<rparr>)"
  using assms
  by (auto simp: settled_def fake_source_tick_def buffer_allocate_plain_def buffer_allocate_def buffer_create_def
      validate_planes_def map_plane_def cpu_ops_def cpu_storage_def plane_layout_of_def is_within_def
      media_packet_create_def sim_packet_def port_send_def bqueue_push_def preflight_push_def bqueue_new_def
      bqueue_size_def Let_def)

lemma pass_tick:
  assumes "op_connections (sw_pass_out w) = [1]" "ip_queue (sw_pass_in w) = Some 0"
    "sw_queues w = [(bqueue_new 4 kBlock)\<lparr>q_values := [x]\<rparr>, bqueue_new 4 kBlock]"
  shows "pass_through_tick w = (Ret ok_status, w\<lparr>sw_queues :=
    [bqueue_new 4 kBlock, (bqueue_new 4 kBlock)\<lparr>q_values := [x]\<rparr>]\<rparr>)"
  using assms
  by (simp add: pass_through_tick_def port_receive_def bqueue_pop_def port_send_def bqueue_push_def
      preflight_push_def bqueue_new_def bqueue_size_def Let_def)

lemma sink_tick:
  assumes "ip_queue (sw_sink_in w) = Some 1"
    "sw_queues w = [bqueue_new 4 kBlock, (bqueue_new 4 kBlock)\<lparr>q_values := [x]\<rparr>]"
  shows "\<exists>ms. fake_sink_tick w = (Ret ok_status, w\<lparr>sw_queues := [bqueue_new 4 kBlock, bqueue_new 4 kBlock], sw_metrics := ms\<rparr>)
    \<and> counter_or_0 processed_key ms = counter_or_0 processed_key (sw_metrics w) + 1
    \<and> metric_gauge depth_key ms = Inr 0 \<and> mr_counters ms processed_key \<noteq> None"
proof -
  let ?m = "sw_metrics w"
  let ?c = "case mr_counters ?m processed_key of None \<Rightarrow> 0 | Some c \<Rightarrow> c"
  let ?ms = "?m\<lparr>mr_counters := (mr_counters ?m)(processed_key \<mapsto> ?c + 1), mr_gauges := (mr_gauges ?m)(depth_key \<mapsto> 0)\<rparr>"
  have "increment_counter processed_key 1 ?m = (ok_status, ?m\<lparr>mr_counters := (mr_counters ?m)(processed_key \<mapsto> ?c + 1)\<rparr>)"
    "set_gauge depth_key 0 (?m\<lparr>mr_counters := (mr_counters ?m)(processed_key \<mapsto> ?c + 1)\<rparr>) = (ok_status, ?ms)"
    by (simp_all add: increment_counter_def set_gauge_def processed_key_def depth_key_def)
  then have "fake_sink_tick w = (Ret ok_status, w\<lparr>sw_queues := [bqueue_new 4 kBlock, bqueue_new 4 kBlock], sw_metrics := ?ms\<rparr>)"
    using assms
    by (simp add: fake_sink_tick_def port_receive_def bqueue_pop_def bqueue_new_def Let_def
        port_queue_size_def bqueue_size_def double_of_size_def)
  then show ?thesis
    by (intro exI [of _ ?ms]) (simp add: counter_or_0_def metric_gauge_def)
qed

lemma sim_pipeline_tick:
  assumes "settled k w" "\<forall>i. base i \<noteq> 0"
  shows "\<exists>w'. pipeline_tick (sim_pipeline (cpu_ops base) P_Running N_Running order) w
      = (Ret ok_status, sim_pipeline (cpu_ops base) P_Running N_Running order, w') \<and> settled (Suc k) w'
      \<and> metric_gauge depth_key (sw_metrics w') = Inr 0 \<and> mr_counters (sw_metrics w') processed_key \<noteq> None"
proof -
  obtain m x where s: "fake_source_tick (cpu_ops base) w
    = (Ret ok_status, w\<lparr>sw_memory := m, sw_next_pts := int k + 1,
        sw_queues := [(bqueue_new 4 kBlock)\<lparr>q_values := [x]\<rparr>, bqueue_new 4 kBlock]\<rparr>)"
    using source_tick [OF assms] by blast
  let ?w1 = "w\<lparr>sw_memory := m, sw_next_pts := int k + 1,
        sw_queues := [(bqueue_new 4 kBlock)\<lparr>q_values := [x]\<rparr>, bqueue_new 4 kBlock]\<rparr>"
  let ?w2 = "?w1\<lparr>sw_queues := [bqueue_new 4 kBlock, (bqueue_new 4 kBlock)\<lparr>q_values := [x]\<rparr>]\<rparr>"
  have p: "pass_through_tick ?w1 = (Ret ok_status, ?w2)"
    using assms(1) by (intro pass_tick [where x = x]) (simp_all add: settled_def)
  obtain ms where t: "fake_sink_tick ?w2
      = (Ret ok_status, ?w2\<lparr>sw_queues := [bqueue_new 4 kBlock, bqueue_new 4 kBlock], sw_metrics := ms\<rparr>)"
    "counter_or_0 processed_key ms = counter_or_0 processed_key (sw_metrics ?w2) + 1"
    "metric_gauge depth_key ms = Inr 0 \<and> mr_counters ms processed_key \<noteq> None"
    using sink_tick [of ?w2 x] assms(1) by (auto simp: settled_def)
  let ?w3 = "?w2\<lparr>sw_queues := [bqueue_new 4 kBlock, bqueue_new 4 kBlock], sw_metrics := ms\<rparr>"
  have "settled (Suc k) ?w3"
    using assms(1) t(2) by (simp add: settled_def)
  moreover have "pipeline_tick (sim_pipeline (cpu_ops base) P_Running N_Running order) w
      = (Ret ok_status, sim_pipeline (cpu_ops base) P_Running N_Running order, ?w3)"
    unfolding pipeline_tick_def sim_fields sim_graph_ops sum.case sim_order
    using s p t(1) by (simp add: sim_pipeline_def call_node_def node_tick_def tick_fatal_def)
  ultimately show ?thesis using t(3) by (intro exI [of _ ?w3]) simp
qed

lemma sim_executor:
  assumes "settled k w" "\<forall>i. base i \<noteq> 0"
  shows "\<exists>w'. executor_run n (sim_pipeline (cpu_ops base) P_Running N_Running order) w
      = (Ret ok_status, sim_pipeline (cpu_ops base) P_Running N_Running order, w') \<and> settled (n + k) w'
      \<and> (0 < n \<longrightarrow> metric_gauge depth_key (sw_metrics w') = Inr 0 \<and> mr_counters (sw_metrics w') processed_key \<noteq> None)"
  using assms
proof (induction n arbitrary: k w)
  case (Suc n)
  obtain w1 where w1: "pipeline_tick (sim_pipeline (cpu_ops base) P_Running N_Running order) w
      = (Ret ok_status, sim_pipeline (cpu_ops base) P_Running N_Running order, w1)" "settled (Suc k) w1"
    "metric_gauge depth_key (sw_metrics w1) = Inr 0" "mr_counters (sw_metrics w1) processed_key \<noteq> None"
    using sim_pipeline_tick [OF Suc.prems] by blast
  obtain w2 where w2: "executor_run n (sim_pipeline (cpu_ops base) P_Running N_Running order) w1
      = (Ret ok_status, sim_pipeline (cpu_ops base) P_Running N_Running order, w2)" "settled (n + Suc k) w2"
    "0 < n \<longrightarrow> metric_gauge depth_key (sw_metrics w2) = Inr 0 \<and> mr_counters (sw_metrics w2) processed_key \<noteq> None"
    using Suc.IH [OF w1(2) Suc.prems(2)] by blast
  have "n = 0 \<Longrightarrow> w2 = w1" using w2(1) by auto
  then show ?case using w1 w2 by auto
qed auto

subsection \<open>From the command to the counter\<close>

definition live_command :: start_pipeline_command where
  "live_command = \<lparr>start_header = \<lparr>ch_id = ''1'', ch_source = ''cli''\<rparr>, start_pipeline_id = ''live0''\<rparr>"

text \<open>A platform whose pipeline is running and published as running.\<close>

definition live :: "(nat \<Rightarrow> size_t) \<Rightarrow> nat \<Rightarrow> sim_platform \<Rightarrow> bool" where
  "live base k p \<longleftrightarrow> sp_initialized p \<and> settled k (sp_world p)
     \<and> sp_pipeline p = sim_pipeline (cpu_ops base) P_Running N_Running [0, 1, 2]
     \<and> published (pipeline_state_key ''live0'') (sp_desired p) = Some ''running''
     \<and> published (pipeline_state_key ''live0'') (sp_actual p) = Some ''running''"

lemma live_key [simp]:
  "state_key (sim_pipeline ops st ns order) = pipeline_state_key ''live0''"
  by (simp add: state_key_def pipeline_state_key_def)

lemma live_path [simp]: "absolute_path (pipeline_state_key i)"
  by (simp add: absolute_path_def pipeline_state_key_def)

lemma report_ok:
  "sw_throws (sp_world p) = no_throw \<Longrightarrow> sim_report good ok_status p
     = (ok_status, p\<lparr>sp_health := omap_put ''pipeline'' \<lparr>hc_status = H_Ok, hc_message = good\<rparr> (sp_health p)\<rparr>)"
  by (simp add: sim_report_def health_report_def)

lemma platform_comes_up:
  "\<exists>p1 p2 p3. sim_initialize (cpu_ops base) (sim_new m) = (Ret ok_status, p1)
     \<and> sim_dispatch_start live_command p1 = (ok_status, p2)
     \<and> sim_reconcile_once p2 = (Ret ok_status, p3) \<and> live base 0 p3
     \<and> omap_find (sp_health p3) ''pipeline'' = Some \<lparr>hc_status = H_Ok, hc_message = ''desired state converged''\<rparr>"
proof -
  obtain p1 where p1: "sim_initialize (cpu_ops base) (sim_new m) = (Ret ok_status, p1)"
    "sp_pipeline p1 = sim_pipeline (cpu_ops base) P_Created N_Created []" "settled 0 (sp_world p1)"
    "sp_initialized p1" "sp_desired p1 = store_new" "sp_actual p1 = store_new"
    using sim_initialize_new by blast
  have h: "sw_throws (sp_world p1) = no_throw" using p1(3) by (simp add: settled_def)
  obtain s d where d: "state_set no_throw (pipeline_state_key ''live0'') (sv_of_string ''running'') store_new = (s, d)"
    by fastforce
  note d' = set_no_throw [OF live_path d]
  let ?p2 = "p1\<lparr>sp_desired := d\<rparr>"
  have p2: "sim_dispatch_start live_command p1 = (ok_status, ?p2)"
    using p1(4,5) h d d' by (simp add: sim_dispatch_start_def handle_start_def set_desired_def live_command_def)
  obtain r a where a: "publish_result (\<lambda>_. no_throw) (sim_pipeline (cpu_ops base) P_Running N_Running [0, 1, 2])
      ''running'' ok_status store_new = (r, a)" by fastforce
  have a': "r = ok_status" "published (pipeline_state_key ''live0'') a = Some ''running''"
    using publish_result_outcome [OF a] by (simp_all add: tells_def)
  let ?p3 = "?p2\<lparr>sp_pipeline := sim_pipeline (cpu_ops base) P_Running N_Running [0, 1, 2], sp_actual := a\<rparr>"
  have state: "state_string (sim_pipeline (cpu_ops base) P_Created N_Created []) d = Inr ''running''"
    "state_string (sim_pipeline (cpu_ops base) P_Created N_Created []) store_new \<noteq> Inr ''running''"
    using d' by (simp_all add: state_string_published published_def store_new_def)
  have "reconcile_configured (\<lambda>_. no_throw) (sp_pipeline ?p2) d store_new (sp_world ?p2)
      = (Ret ok_status, sim_pipeline (cpu_ops base) P_Running N_Running [0, 1, 2], a, sp_world ?p2)"
    using reconcile_calls [OF state(1) _ state(2)] a a'(1)
    by (simp add: p1(2) pipeline_call_def sim_start drive_pipeline_def)
  then have p3: "sim_reconcile_once ?p2 = (Ret ok_status,
      ?p3\<lparr>sp_health := omap_put ''pipeline'' \<lparr>hc_status = H_Ok, hc_message = ''desired state converged''\<rparr> (sp_health p1)\<rparr>)"
    using p1(4,6) h by (simp add: sim_reconcile_once_def reconcile_once_def report_ok)
  show ?thesis
    using p1(1) p2 p3 p1(3,4) d' a'(2)
    by (simp add: live_def omap_find_put_any)
qed

lemma live_tick:
  assumes "live base k p" "\<forall>i. base i \<noteq> 0"
  shows "\<exists>p'. sim_tick n p = (Ret ok_status, p') \<and> live base (n + k) p'
    \<and> omap_find (sp_health p') ''pipeline'' = Some \<lparr>hc_status = H_Ok, hc_message = ''running''\<rparr>
    \<and> sp_actual p' = sp_actual p
    \<and> (0 < n \<longrightarrow> metric_gauge depth_key (sw_metrics (sp_world p')) = Inr 0
          \<and> mr_counters (sw_metrics (sp_world p')) processed_key \<noteq> None)"
proof -
  obtain w where w: "executor_run n (sp_pipeline p) (sp_world p) = (Ret ok_status, sp_pipeline p, w)" "settled (n + k) w"
    "0 < n \<longrightarrow> metric_gauge depth_key (sw_metrics w) = Inr 0 \<and> mr_counters (sw_metrics w) processed_key \<noteq> None"
    using sim_executor [of k "sp_world p" base n "[0, 1, 2]"] assms by (auto simp: live_def)
  have "sw_throws w = no_throw" using w(2) by (simp add: settled_def)
  then show ?thesis
    using w assms(1) by (simp add: sim_tick_def live_def report_ok omap_find_put_any)
qed

text \<open>The simulated platform works from the command to the counter. On a new platform whose
  buffers have addresses, \<open>initialize\<close>, the start command and one reconciliation succeed; then a
  tick of any length \<open>n\<close> succeeds, and afterwards exactly \<open>n\<close> packets (modulo \<open>2 ^ 64\<close>) have been
  made and counted, both queues are empty and reported so, the health is \<open>kOk\<close> and a query answers
  with the state \<open>running\<close>.\<close>

theorem simulated_end_to_end:
  assumes "\<forall>i. base i \<noteq> 0" and "n \<noteq> 0"
  shows "\<exists>p1 p2 p3 p4 snapshot v.
      sim_initialize (cpu_ops base) (sim_new m) = (Ret ok_status, p1)
    \<and> sim_dispatch_start live_command p1 = (ok_status, p2)
    \<and> sim_reconcile_once p2 = (Ret ok_status, p3)
    \<and> sim_tick n p3 = (Ret ok_status, p4)
    \<and> metric_counter processed_key (sw_metrics (sp_world p4)) = Inr (of_nat n)
    \<and> sw_next_pts (sp_world p4) = int n
    \<and> map q_values (sw_queues (sp_world p4)) = [[], []]
    \<and> metric_gauge depth_key (sw_metrics (sp_world p4)) = Inr 0
    \<and> health_component_of ''pipeline'' (sp_health p4) = Inr \<lparr>hc_status = H_Ok, hc_message = ''running''\<rparr>
    \<and> sim_query ''live0'' p4 = Inr snapshot
    \<and> snapshot_get (pipeline_state_key ''live0'') snapshot = Inr v \<and> as_string v = Inr ''running''"
proof -
  obtain p1 p2 p3 where up: "sim_initialize (cpu_ops base) (sim_new m) = (Ret ok_status, p1)"
    "sim_dispatch_start live_command p1 = (ok_status, p2)" "sim_reconcile_once p2 = (Ret ok_status, p3)"
    "live base 0 p3"
    using platform_comes_up by blast
  obtain p4 where p4: "sim_tick n p3 = (Ret ok_status, p4)" "live base (n + 0) p4"
    "omap_find (sp_health p4) ''pipeline'' = Some \<lparr>hc_status = H_Ok, hc_message = ''running''\<rparr>"
    "metric_gauge depth_key (sw_metrics (sp_world p4)) = Inr 0" "mr_counters (sw_metrics (sp_world p4)) processed_key \<noteq> None"
    using live_tick [OF up(4) assms(1), of n] assms(2) by auto
  obtain v where v: "ss_values (sp_actual p4) (pipeline_state_key ''live0'') = Some v" "sv_type v = SV_String"
    "sv_string v = ''running''"
    using p4(2) by (auto simp: live_def published_def split: option.splits if_splits)
  have w: "settled n (sp_world p4)" "sp_pipeline p4 = sim_pipeline (cpu_ops base) P_Running N_Running [0, 1, 2]"
    using p4(2) by (simp_all add: live_def)
  have "metric_counter processed_key (sw_metrics (sp_world p4)) = Inr (of_nat n)"
    using w(1) p4(5) by (auto simp: settled_def metric_counter_def counter_or_0_def)
  moreover have "sw_next_pts (sp_world p4) = int n" "map q_values (sw_queues (sp_world p4)) = [[], []]"
    using w(1) by (simp_all add: settled_def bqueue_new_def)
  moreover have "health_component_of ''pipeline'' (sp_health p4) = Inr \<lparr>hc_status = H_Ok, hc_message = ''running''\<rparr>"
    using p4(3) by (simp add: health_component_of_def)
  moreover have "sim_query ''live0'' p4 = Inr (store_snapshot (sp_actual p4))"
    "snapshot_get (pipeline_state_key ''live0'') (store_snapshot (sp_actual p4)) = Inr v"
    using v by (simp_all add: sim_query_def snapshot_get_def store_snapshot_def w(2))
  moreover have "as_string v = Inr ''running''" using v by (simp add: as_string_def)
  ultimately show ?thesis
    using up(1-3) p4(1,4)
    by - (rule exI [of _ p1], rule exI [of _ p2], rule exI [of _ p3], rule exI [of _ p4],
      rule exI [of _ "store_snapshot (sp_actual p4)"], rule exI [of _ v], simp)
qed

definition blank_memory :: memory where
  "blank_memory = \<lparr>mem_bytes = (\<lambda>_. 0), mem_next = 0\<rparr>"

theorem simulated_end_to_end_witness:
  "\<exists>p1 p2 p3 p4. sim_initialize (cpu_ops (\<lambda>_. 4096)) (sim_new blank_memory) = (Ret ok_status, p1)
    \<and> sim_dispatch_start live_command p1 = (ok_status, p2) \<and> sim_reconcile_once p2 = (Ret ok_status, p3)
    \<and> sim_tick 5 p3 = (Ret ok_status, p4)
    \<and> metric_counter processed_key (sw_metrics (sp_world p4)) = Inr 5"
  using simulated_end_to_end [of "\<lambda>_. 4096" 5 blank_memory] by auto

subsection \<open>An error the health hides\<close>

definition no_memory :: throws where
  "no_memory = no_throw(S_buffer_allocate1 := Some Bad_alloc)"

lemma failing_tick:
  assumes "live base k p" "0 < n"
  shows "\<exists>p'. sim_tick n (p\<lparr>sp_world := (sp_world p)\<lparr>sw_throws := no_memory\<rparr>\<rparr>)
      = (Ret (status_msg kResourceExhausted ''failed to allocate CPU buffer storage''), p')
    \<and> p_state (sp_pipeline p') = P_Error \<and> p_id (sp_pipeline p') = ''live0'' \<and> sp_initialized p'
    \<and> sp_desired p' = sp_desired p \<and> sp_actual p' = sp_actual p
    \<and> omap_find (sp_health p') ''pipeline''
        = Some \<lparr>hc_status = H_Error, hc_message = ''failed to allocate CPU buffer storage''\<rparr>"
proof -
  let ?w = "(sp_world p)\<lparr>sw_throws := no_memory\<rparr>"
  have tick: "fake_source_tick (cpu_ops base) ?w = (Ret (status_msg kResourceExhausted ''failed to allocate CPU buffer storage''), ?w)"
    by (simp add: fake_source_tick_def no_memory_def buffer_allocate_plain_def err_def status_msg_def st_ok_def Let_def)
  obtain m where n: "n = Suc m" using assms(2) by (cases n) auto
  have "\<exists>pl. executor_run n (sim_pipeline (cpu_ops base) P_Running N_Running [0, 1, 2]) ?w
      = (Ret (status_msg kResourceExhausted ''failed to allocate CPU buffer storage''), pl, ?w)
      \<and> p_state pl = P_Error \<and> p_id pl = ''live0''"
    unfolding n executor_run.simps pipeline_tick_def sim_fields sim_graph_ops sum.case sim_order
    using tick by (simp add: sim_pipeline_def call_node_def node_tick_def tick_fatal_def status_msg_def st_ok_def)
  then obtain pl where pl: "executor_run n (sim_pipeline (cpu_ops base) P_Running N_Running [0, 1, 2]) ?w
      = (Ret (status_msg kResourceExhausted ''failed to allocate CPU buffer storage''), pl, ?w)"
    "p_state pl = P_Error" "p_id pl = ''live0''" by blast
  have "no_memory S_health_report = None" by (simp add: no_memory_def)
  then show ?thesis
    using assms(1) pl
    by (simp add: live_def sim_tick_def sim_report_def health_report_def omap_find_put_any status_msg_def st_ok_def)
qed

text \<open>C34: the health of the platform can hide a pipeline that has failed. Let a running platform's
  next tick run out of memory: the tick reports it, the pipeline goes to \<open>kError\<close> and the health
  to \<open>kError\<close>. The next reconciliation compares the desired state with the published one, which
  still says \<open>running\<close>: it succeeds and reports \<open>kOk\<close>, ``desired state converged'', while the
  pipeline is in \<open>kError\<close> and every further tick is refused.\<close>

theorem health_hides_error:
  assumes "live base k p" and "0 < n"
  shows "\<exists>p1 p2. sim_tick n (p\<lparr>sp_world := (sp_world p)\<lparr>sw_throws := no_memory\<rparr>\<rparr>)
        = (Ret (status_msg kResourceExhausted ''failed to allocate CPU buffer storage''), p1)
    \<and> health_aggregate (sp_health p1) \<ge> H_Error
    \<and> sim_reconcile_once (p1\<lparr>sp_world := (sp_world p1)\<lparr>sw_throws := no_throw\<rparr>\<rparr>) = (Ret ok_status, p2)
    \<and> health_component_of ''pipeline'' (sp_health p2)
        = Inr \<lparr>hc_status = H_Ok, hc_message = ''desired state converged''\<rparr>
    \<and> p_state (sp_pipeline p2) = P_Error
    \<and> fst (sim_tick 1 p2) = Ret (status_msg kInvalidState ''pipeline is not running'')"
proof -
  obtain p1 where p1: "sim_tick n (p\<lparr>sp_world := (sp_world p)\<lparr>sw_throws := no_memory\<rparr>\<rparr>)
      = (Ret (status_msg kResourceExhausted ''failed to allocate CPU buffer storage''), p1)"
    "p_state (sp_pipeline p1) = P_Error" "p_id (sp_pipeline p1) = ''live0''" "sp_initialized p1"
    "sp_desired p1 = sp_desired p" "sp_actual p1 = sp_actual p"
    "omap_find (sp_health p1) ''pipeline''
        = Some \<lparr>hc_status = H_Error, hc_message = ''failed to allocate CPU buffer storage''\<rparr>"
    using failing_tick [OF assms] by blast
  have agg: "health_aggregate (sp_health p1) \<ge> H_Error"
    using omap_find_mem [OF p1(7)] by (force simp: health_aggregate_def health_aggregate_from_Max intro!: Max_ge)
  let ?w = "(sp_world p1)\<lparr>sw_throws := no_throw\<rparr>"
  have key: "state_key (sp_pipeline p1) = pipeline_state_key ''live0''"
    using p1(3) by (simp add: state_key_def pipeline_state_key_def)
  have state: "state_string (sp_pipeline p1) (sp_desired p1) = Inr ''running''"
    "state_string (sp_pipeline p1) (sp_actual p1) = Inr ''running''"
    using assms(1) p1(5,6) by (simp_all add: state_string_published key live_def)
  obtain r a where e: "state_erase no_throw (error_key (sp_pipeline p1)) (sp_actual p1) = (r, a)" by fastforce
  have "r = ok_status" using erase_no_throw [OF keys_absolute(2) e] by simp
  then have "reconcile_configured (\<lambda>_. no_throw) (sp_pipeline p1) (sp_desired p1) (sp_actual p1) ?w
      = (Ret ok_status, sp_pipeline p1, a, ?w)"
    using state e by (simp add: reconcile_configured_def)
  then have "\<exists>p2. sim_reconcile_once (p1\<lparr>sp_world := ?w\<rparr>) = (Ret ok_status, p2)
      \<and> omap_find (sp_health p2) ''pipeline'' = Some \<lparr>hc_status = H_Ok, hc_message = ''desired state converged''\<rparr>
      \<and> sp_pipeline p2 = sp_pipeline p1 \<and> sp_initialized p2 \<and> sp_world p2 = ?w"
    using p1(4) by (simp add: sim_reconcile_once_def reconcile_once_def report_ok omap_find_put_any)
  then obtain p2 where p2: "sim_reconcile_once (p1\<lparr>sp_world := ?w\<rparr>) = (Ret ok_status, p2)"
    "omap_find (sp_health p2) ''pipeline'' = Some \<lparr>hc_status = H_Ok, hc_message = ''desired state converged''\<rparr>"
    "sp_pipeline p2 = sp_pipeline p1" "sp_initialized p2" "sp_world p2 = ?w" by blast
  have "fst (sim_tick 1 p2) = Ret (status_msg kInvalidState ''pipeline is not running'')"
    using p1(2) p2(3-5)
    by (simp add: sim_tick_def pipeline_tick_def sim_report_def health_report_def status_msg_def st_ok_def)
  then show ?thesis
    using p1(1,2) agg p2(1-3) by (auto simp: health_component_of_def)
qed

theorem health_hides_error_witness:
  "\<exists>p p1 p2. live (\<lambda>_. 4096) 0 p
    \<and> sim_tick 3 (p\<lparr>sp_world := (sp_world p)\<lparr>sw_throws := no_memory\<rparr>\<rparr>)
        = (Ret (status_msg kResourceExhausted ''failed to allocate CPU buffer storage''), p1)
    \<and> sim_reconcile_once (p1\<lparr>sp_world := (sp_world p1)\<lparr>sw_throws := no_throw\<rparr>\<rparr>) = (Ret ok_status, p2)
    \<and> p_state (sp_pipeline p2) = P_Error"
proof -
  obtain p where p: "live (\<lambda>_. 4096) 0 p" using platform_comes_up by blast
  from health_hides_error [OF p, of 3] p show ?thesis by auto
qed

end
