(* ===== verification/Pipeline_World.thy ===== *)
theory Pipeline_World
  imports Pipeline_Correct
begin

text \<open>
  What the nodes of a pipeline keep of the world they share, the pipeline keeps: whatever is done
  with it and whatever its nodes answer or throw.
\<close>

subsection \<open>Every operation is a run of node operations\<close>

abbreviation "own p \<equiv> {..<length (p_nodes p)}"

lemma start_runs:
  assumes "pipeline_wf p" "pipeline_start p w = (r, p', w')"
  shows "runs (own p) (p_nodes p) w (p_nodes p') w'"
proof -
  obtain ids where ids: "topological_order (p_graph p) = Inr ids" "covers p (ordered_nodes p ids)"
    using pipeline_order_total [OF assms(1)] .
  let ?o = "ordered_nodes p ids"
  have o: "ordered_nodes (p\<lparr>p_drain_order := [], p_drain_index := 0\<rparr>) ids = ?o" "set ?o = own p"
    using ids(2) by (auto simp: ordered_nodes_def covers_def)
  obtain r1 ns1 w1 where prep: "prepare_loop ?o [] (p_nodes p) w = (r1, ns1, w1)" by (metis prod_cases3)
  obtain r2 ns2 w2 where start: "start_loop ?o ?o ns1 w1 = (r2, ns2, w2)" by (metis prod_cases3)
  have a: "runs (own p) (p_nodes p) w ns1 w1" using prepare_loop_runs [OF prep] o(2) by simp
  have b: "runs (own p) (p_nodes p) w ns2 w2" using start_loop_runs [OF start] o(2) runs_trans [OF a] by simp
  show ?thesis
    using assms(2) a b
    by (auto simp: pipeline_start_def Let_def ids(1) o(1) prep start split: if_splits outcome.splits)
qed

lemma finish_drain_runs:
  "set (p_drain_order p) \<subseteq> A \<Longrightarrow> finish_drain p w = (r, p', w') \<Longrightarrow> runs A (p_nodes p) w (p_nodes p') w'"
  by (auto simp: finish_drain_def split: prod.splits if_splits dest: reset_nodes_reverse_runs)

lemma fail_drain_runs:
  "set (p_drain_order p) \<subseteq> A \<Longrightarrow> fail_drain s p w = (r, p', w') \<Longrightarrow> runs A (p_nodes p) w (p_nodes p') w'"
  by (auto simp: fail_drain_def split: prod.splits dest: reset_nodes_reverse_runs)

lemma drain_loop_runs:
  "set (p_drain_order p) \<subseteq> A \<Longrightarrow> drain_loop p w = (r, p', w') \<Longrightarrow> runs A (p_nodes p) w (p_nodes p') w'"
proof (induction p w rule: drain_loop.induct)
  case (1 p w)
  let ?k = "p_drain_index p" and ?o = "p_drain_order p"
  show ?case
  proof (cases "?k < length ?o")
    case False
    then show ?thesis using 1 finish_drain_runs by (simp add: drain_loop.simps [of p])
  next
    case True
    obtain r1 ns w1 where call: "call_node Op_stop (?o ! ?k) (p_nodes p) w = (r1, ns, w1)" by (metis prod_cases3)
    have a: "runs A (p_nodes p) w ns w1" using runs_one [OF _ call] True "1.prems"(1) by (meson nth_mem subsetD)
    show ?thesis
    proof (cases r1)
      case (Throw e)
      then have "p' = p\<lparr>p_nodes := ns\<rparr>" "w' = w1"
        using "1.prems"(2) True call by (simp_all add: drain_loop.simps [of p])
      then show ?thesis using a by simp
    next
      case (Ret s)
      note run = "1.prems"(2) [unfolded drain_loop.simps [of p]]
      show ?thesis
      proof (cases "st_code s = kWouldBlock \<or> st_code s = kNotFound")
        case block: True
        obtain r2 ns' w2 where tick: "tick_running_downstream ?k ?o ns w1 = (r2, ns', w2)" by (metis prod_cases3)
        have "set (drop (?k + 1) ?o) \<subseteq> A" using "1.prems"(1) set_drop_subset by fastforce
        then have b: "runs A (p_nodes p) w ns' w2"
          using tick_running_runs [OF tick [unfolded tick_running_downstream_def]] runs_trans [OF a] by blast
        have c: "runs A (p_nodes p) w (p_nodes p') w'" if "fail_drain d (p\<lparr>p_nodes := ns'\<rparr>) w2 = (r, p', w')" for d
          using runs_trans [OF b fail_drain_runs [OF _ that, simplified]] "1.prems"(1) by simp
        show ?thesis
          using run True call Ret block tick b c by (auto split: outcome.splits if_splits)
      next
        case free: False
        show ?thesis
        proof (cases "st_ok s")
          case ok: True
          have "drain_loop (p\<lparr>p_nodes := ns, p_drain_index := Suc ?k\<rparr>) w1 = (r, p', w')"
            using run True call Ret free ok by simp
          from "1.IH" [OF True call [symmetric] Ret refl free _ _ this] show ?thesis
            using ok "1.prems"(1) runs_trans [OF a] by simp
        next
          case bad: False
          then have "fail_drain s (p\<lparr>p_nodes := ns\<rparr>) w1 = (r, p', w')"
            using run True call Ret free by simp
          from fail_drain_runs [OF _ this] show ?thesis using "1.prems"(1) runs_trans [OF a] by simp
        qed
      qed
    qed
  qed
qed

lemma stop_runs:
  assumes "pipeline_wf p" "pipeline_stop p w = (r, p', w')"
  shows "runs (own p) (p_nodes p) w (p_nodes p') w'"
proof -
  obtain ids where ids: "topological_order (p_graph p) = Inr ids" "covers p (ordered_nodes p ids)"
    using pipeline_order_total [OF assms(1)] .
  let ?o = "if p_drain_order p = [] then ordered_nodes p ids else p_drain_order p"
  have o: "set ?o \<subseteq> own p" using ids(2) assms(1) by (auto simp: covers_def pipeline_wf_def)
  let ?p = "p\<lparr>p_drain_order := ?o, p_drain_index := 0\<rparr>"
  have drain: "runs (own p) (p_nodes p) w (p_nodes p') w'"
    if "drain_loop q w = (r, p', w')" "p_nodes q = p_nodes p" "set (p_drain_order q) \<subseteq> own p" for q
    using drain_loop_runs [OF that(3,1)] that(2) by simp
  have reset: "runs (own p) (p_nodes p) w ns w1" if "reset_nodes_reverse ?o (p_nodes p) w = (s, ns, w1)" for s ns w1
    using reset_nodes_reverse_runs [OF that o] .
  have order: "set (p_drain_order p) \<subseteq> own p" using assms(1) by (simp add: pipeline_wf_def)
  have eq: "(if p_drain_order p = []
               then (case topological_order (p_graph p) of
                       Inl s \<Rightarrow> Inl s
                     | Inr ids \<Rightarrow> Inr (p\<lparr>p_drain_order := ordered_nodes p ids\<rparr>))
               else Inr p) = (Inr (p\<lparr>p_drain_order := ?o\<rparr>) :: status + 'a pipeline)"
    by (simp add: ids(1))
  show ?thesis
  proof (cases "p_state p")
    case P_Draining
    then show ?thesis using assms(2) drain [of p] order by (simp add: pipeline_stop_def)
  next
    case P_Running
    then show ?thesis
      using assms(2) drain [of "?p\<lparr>p_state := P_Draining\<rparr>"] o by (simp add: pipeline_stop_def eq Let_def split: if_splits)
  next
    case P_Error
    then show ?thesis
      using assms(2) reset by (auto simp: pipeline_stop_def eq Let_def split: prod.splits if_splits)
  qed (use assms(2) in \<open>auto simp: pipeline_stop_def\<close>)
qed

lemma tick_loop_runs:
  "set is \<subseteq> A \<Longrightarrow> tick_loop is p w = (r, p', w') \<Longrightarrow> runs A (p_nodes p) w (p_nodes p') w'"
proof (induction "is" arbitrary: p w)
  case (Cons i "is")
  obtain r1 ns w1 where call: "call_node Op_tick i (p_nodes p) w = (r1, ns, w1)" by (metis prod_cases3)
  have a: "runs A (p_nodes p) w ns w1" using runs_one [OF _ call] Cons.prems(1) by simp
  show ?case
  proof (cases "\<exists>s. r1 = Ret s \<and> \<not> tick_fatal s")
    case True
    then have "tick_loop is (p\<lparr>p_nodes := ns\<rparr>) w1 = (r, p', w')" using Cons.prems(2) call by auto
    from Cons.IH [OF _ this] show ?thesis using Cons.prems(1) runs_trans [OF a] by simp
  next
    case False
    then show ?thesis using Cons.prems(2) call a by (auto split: outcome.splits if_splits)
  qed
qed simp

lemma tick_runs:
  assumes "pipeline_wf p" "pipeline_tick p w = (r, p', w')"
  shows "runs (own p) (p_nodes p) w (p_nodes p') w'"
proof -
  obtain ids where ids: "topological_order (p_graph p) = Inr ids" "covers p (ordered_nodes p ids)"
    using pipeline_order_total [OF assms(1)] .
  then show ?thesis
    using assms(2) tick_loop_runs [of "ordered_nodes p ids" "own p" p w r p' w']
    by (auto simp: pipeline_tick_def covers_def split: if_splits)
qed

lemma cancel_runs:
  assumes "pipeline_wf p" "pipeline_cancel p w = (s, p', w')"
  shows "runs (own p) (p_nodes p) w (p_nodes p') w'"
proof -
  have "set (p_drain_order p) \<subseteq> own p" using assms(1) by (simp add: pipeline_wf_def)
  then have "runs (own p) (p_nodes p) w ns w1" if "reset_nodes_reverse (p_drain_order p) (p_nodes p) w = (r, ns, w1)" for r ns w1
    using reset_nodes_reverse_runs [OF that] by blast
  moreover have "runs (own p) (p_nodes p) w ns w1" if "reset_owned_nodes_reverse (p_nodes p) w = (r, ns, w1)" for r ns w1
    using reset_each_runs [OF that [unfolded reset_owned_nodes_reverse_def], of "own p"] by (simp add: lessThan_atLeast0)
  ultimately show ?thesis
    using assms(2) by (auto simp: pipeline_cancel_def split: prod.splits if_splits)
qed

subsection \<open>The contract of the nodes is the contract of the pipeline\<close>

definition nodes_in :: "'w hooks set \<Rightarrow> 'w pipeline \<Rightarrow> bool" where
  "nodes_in H p \<longleftrightarrow> set (map n_hooks (p_nodes p)) \<subseteq> H"

context node_contract
begin

lemma runs_keep:
  "runs A ns w ns' w' \<Longrightarrow> A \<subseteq> {..<length ns} \<Longrightarrow> set (map n_hooks ns) \<subseteq> H \<Longrightarrow> I w \<Longrightarrow> I w'"
proof (induction rule: runs.induct)
  case (runs_step i op ns w r ns1 w1 ns2 w2)
  obtain n where n: "node_apply op (ns ! i) w = (r, n, w1)"
    using runs_step.hyps(2) by (auto simp: call_node_def split: prod.splits)
  have "i < length ns" using runs_step by blast
  then have "n_hooks (ns ! i) \<in> H" using runs_step.prems(2) by auto
  then have "I w1" using node_apply_keeps [OF _ _ n] runs_step.prems(3) by blast
  moreover have "length ns1 = length ns" "map n_hooks ns1 = map n_hooks ns"
    using call_node_frame [OF runs_step.hyps(2)] by simp_all
  ultimately show ?case using runs_step.IH runs_step.prems(1,2) by simp
qed simp

lemma pipeline_keeps:
  assumes "pipeline_wf p" "nodes_in H p" "I w"
  shows "pipeline_start p w = (r, p', w') \<Longrightarrow> I w'" "pipeline_stop p w = (r, p', w') \<Longrightarrow> I w'"
    "pipeline_tick p w = (r, p', w') \<Longrightarrow> I w'" "pipeline_cancel p w = (s, p', w') \<Longrightarrow> I w'"
proof -
  have keep: "I w'" if "runs (own p) (p_nodes p) w ns' w'" for ns' w'
    using runs_keep [OF that] assms(2,3) by (simp add: nodes_in_def)
  show "pipeline_start p w = (r, p', w') \<Longrightarrow> I w'" "pipeline_stop p w = (r, p', w') \<Longrightarrow> I w'"
    "pipeline_tick p w = (r, p', w') \<Longrightarrow> I w'" "pipeline_cancel p w = (s, p', w') \<Longrightarrow> I w'"
    by (blast intro: keep start_runs [OF assms(1)] stop_runs [OF assms(1)] tick_runs [OF assms(1)] cancel_runs [OF assms(1)])+
qed

end

end
