(* ===== verification/Simulated_Invariant.thy ===== *)
theory Simulated_Invariant
  imports Simulated_Platform Pipeline_World
begin

text \<open>
  The simulated platform under any program of its operations, any of them failing or throwing: its
  nodes keep the contract \<open>packet_flow\<close> of the world they share, hence so does the platform.
\<close>

text \<open>Packets in the order they were made, by a source whose next time stamp is \<open>k\<close>.\<close>

definition in_order :: "int \<Rightarrow> media_packet list \<Rightarrow> bool" where
  "in_order k xs \<longleftrightarrow> sorted_wrt (<) (map mp_pts xs) \<and> list_all (\<lambda>x. 0 \<le> mp_pts x \<and> mp_pts x < k) xs"

lemma in_order_new: "in_order k xs \<Longrightarrow> 0 \<le> k \<Longrightarrow> mp_pts x = k \<Longrightarrow> in_order (k + 1) (xs @ [x])"
  by (fastforce simp: in_order_def sorted_wrt_append list_all_iff)

lemma in_order_later: "in_order k xs \<Longrightarrow> in_order (k + 1) xs"
  by (fastforce simp: in_order_def list_all_iff)

lemma in_order_drop: "in_order k (xs @ x # ys) \<Longrightarrow> in_order k (xs @ ys)"
  by (auto simp: in_order_def sorted_wrt_append)

text \<open>The ports are connected in a row, no queue is above its capacity, the packets under way are in
  order, and no more packets have been counted or are under way than have been made.\<close>

definition packet_flow :: "sim_world \<Rightarrow> bool" where
  "packet_flow w \<longleftrightarrow> op_connections (sw_source_out w) = [0] \<and> ip_queue (sw_pass_in w) = Some 0
     \<and> op_connections (sw_pass_out w) = [1] \<and> ip_queue (sw_sink_in w) = Some 1
     \<and> (\<exists>q r. sw_queues w = [q, r] \<and> q_policy q = kBlock \<and> q_policy r = kBlock
          \<and> q_capacity q = 4 \<and> q_capacity r = 4 \<and> length (q_values q) \<le> 4 \<and> length (q_values r) \<le> 4
          \<and> in_order (sw_next_pts w) (q_values r @ q_values q)
          \<and> unat (counter_or_0 processed_key (sw_metrics w)) + length (q_values q) + length (q_values r)
              \<le> nat (sw_next_pts w))
     \<and> 0 \<le> sw_next_pts w"

lemma push_blocking:
  assumes "q_policy q = kBlock" "q_capacity q = 4" "length (q_values q) \<le> 4"
  shows "bqueue_push (Some x) q = (if length (q_values q) = 4 then (status_msg kWouldBlock ''queue is full'', q)
     else (ok_status, q\<lparr>q_values := q_values q @ [x]\<rparr>))"
  using assms by (simp add: bqueue_push_def preflight_push_def bqueue_size_def Let_def)

lemma preflight_blocking:
  assumes "q_policy q = kBlock" "q_capacity q = 4"
  shows "preflight_push (Some x) q = (if length (q_values q) = 4 then status_msg kWouldBlock ''queue is full'' else ok_status)"
  using assms by (simp add: preflight_push_def bqueue_size_def)

lemma send_first:
  assumes "packet_flow w" "sw_queues w = [q, r]"
  shows "port_send (Some x) (sw_source_out w) [q, r]
    = (if length (q_values q) = 4 then (status_msg kWouldBlock ''queue is full'', [q, r])
       else (ok_status, [q\<lparr>q_values := q_values q @ [x]\<rparr>, r]))"
  using assms by (auto simp: packet_flow_def port_send_def push_blocking preflight_blocking)

lemma send_second:
  assumes "packet_flow w" "sw_queues w = [q, r]"
  shows "port_send (Some x) (sw_pass_out w) [q', r]
    = (if length (q_values r) = 4 then (status_msg kWouldBlock ''queue is full'', [q', r])
       else (ok_status, [q', r\<lparr>q_values := q_values r @ [x]\<rparr>]))"
  using assms by (auto simp: packet_flow_def port_send_def push_blocking preflight_blocking)

lemma packet_flow_memory [simp]:
  "packet_flow (w\<lparr>sw_memory := m\<rparr>) \<longleftrightarrow> packet_flow w" "packet_flow (w\<lparr>sw_throws := h\<rparr>) \<longleftrightarrow> packet_flow w"
  by (simp_all add: packet_flow_def)

lemma source_flow:
  assumes f: "packet_flow w"
  shows "packet_flow (snd (fake_source_tick ops w))"
proof -
  obtain q r where q: "sw_queues w = [q, r]" using f by (auto simp: packet_flow_def)
  have "0 \<le> sw_next_pts w" using f by (simp add: packet_flow_def)
  then have sent: "packet_flow (w\<lparr>sw_memory := m, sw_next_pts := sw_next_pts w + 1,
      sw_queues := qs\<rparr>)" if "mp_pts x = sw_next_pts w" "port_send (Some x) (sw_source_out w) [q, r] = (s, qs)" for m x s qs
    using f q that(1) that(2) [symmetric] in_order_new [of "sw_next_pts w" "q_values r @ q_values q" x] in_order_later
    unfolding send_first [OF f q] by (auto simp: packet_flow_def split: if_splits)
  have pts: "media_packet_create h (sim_packet buf k) = Inr x \<Longrightarrow> mp_pts x = k" for h buf k x
    by (auto simp: media_packet_create_Inr sim_packet_def)
  show ?thesis
    using f q
    by (auto simp: fake_source_tick_def Let_def simp del: write_bytes.simps intro: sent [OF pts] split: sum.splits prod.splits option.splits)
qed

lemma pass_flow:
  assumes f: "packet_flow w"
  shows "packet_flow (snd (pass_through_tick w))"
proof -
  obtain q r where q: "sw_queues w = [q, r]" using f by (auto simp: packet_flow_def)
  show ?thesis
  proof (cases "q_values q")
    case Nil
    then show ?thesis
      using f q by (auto simp: pass_through_tick_def packet_flow_def port_receive_def bqueue_pop_def)
  next
    case (Cons x xs)
    then show ?thesis
      using f q send_second [OF f q, of x "q\<lparr>q_values := xs\<rparr>"] in_order_drop [of "sw_next_pts w" "q_values r" x xs]
      by (auto simp: pass_through_tick_def packet_flow_def port_receive_def bqueue_pop_def)
  qed
qed

lemma counter_after:
  "unat (counter_or_0 processed_key (snd (increment_counter processed_key 1 m)))
     \<le> Suc (unat (counter_or_0 processed_key m))"
proof -
  have "unat (c + 1) \<le> Suc (unat c)" for c :: "64 word"
    by (simp add: unat_word_ariths)
  then show ?thesis
    by (simp add: counter_or_0_increment processed_key_def)
qed

lemma sink_flow:
  assumes f: "packet_flow w"
  shows "packet_flow (snd (fake_sink_tick w))"
proof -
  obtain q r where q: "sw_queues w = [q, r]" using f by (auto simp: packet_flow_def)
  show ?thesis
  proof (cases "q_values r")
    case Nil
    then show ?thesis
      using f q by (auto simp: fake_sink_tick_def packet_flow_def port_receive_def bqueue_pop_def)
  next
    case (Cons x xs)
    obtain ms where inc: "increment_counter processed_key 1 (sw_metrics w) = (ok_status, ms)"
      by (simp add: increment_counter_def processed_key_def)
    have gauge: "counter_or_0 processed_key (snd (set_gauge depth_key v ms)) = counter_or_0 processed_key ms" for v
      by (simp add: set_gauge_def depth_key_def counter_or_0_def)
    have "packet_flow (w\<lparr>sw_queues := [q, r\<lparr>q_values := xs\<rparr>], sw_metrics := ms'\<rparr>)"
      if "counter_or_0 processed_key ms' = counter_or_0 processed_key ms" for ms'
      using f q Cons that in_order_drop [of "sw_next_pts w" "[]" x "xs @ q_values q"] counter_after [of "sw_metrics w"]
      by (auto simp: packet_flow_def inc)
    then have "packet_flow (w\<lparr>sw_queues := [q, r\<lparr>q_values := xs\<rparr>], sw_metrics := snd (set_gauge depth_key v ms)\<rparr>)" for v
      using gauge by blast
    moreover have "port_receive (sw_sink_in w) [q, r] = (Inr x, [q, r\<lparr>q_values := xs\<rparr>])"
      using f Cons by (simp add: packet_flow_def port_receive_def bqueue_pop_def)
    ultimately show ?thesis
      by (simp add: fake_sink_tick_def q inc Let_def split: prod.splits) (metis snd_conv)
  qed
qed

definition sim_hooks :: "memory storage_ops \<Rightarrow> sim_world hooks set" where
  "sim_hooks ops = {source_hooks ops, pass_hooks, sink_hooks}"

interpretation sim: node_contract packet_flow "sim_hooks ops" for ops
proof
  fix hk and w :: sim_world
  assume "hk \<in> sim_hooks ops" and f: "packet_flow w"
  then consider "hk = source_hooks ops" | "hk = pass_hooks" | "hk = sink_hooks" by (auto simp: sim_hooks_def)
  then show "packet_flow (snd (on_prepare hk w))" "packet_flow (snd (on_start hk w))" "packet_flow (snd (on_stop hk w))"
    "packet_flow (snd (on_reset hk w))" "packet_flow (snd (on_tick hk w))"
    by (cases; simp add: f source_flow pass_flow sink_flow)+
qed

subsection \<open>Programs of the platform\<close>

datatype sim_op = Sim_initialize | Sim_start start_pipeline_command | Sim_stop stop_pipeline_command
  | Sim_reconcile | Sim_tick nat

fun sim_step :: "memory storage_ops \<Rightarrow> sim_op \<Rightarrow> sim_platform \<Rightarrow> sim_platform" where
  "sim_step ops Sim_initialize p = snd (sim_initialize ops p)"
| "sim_step ops (Sim_start c) p = snd (sim_dispatch_start c p)"
| "sim_step ops (Sim_stop c) p = snd (sim_dispatch_stop c p)"
| "sim_step ops Sim_reconcile p = snd (sim_reconcile_once p)"
| "sim_step ops (Sim_tick n) p = snd (sim_tick n p)"

text \<open>Each operation with the exceptions of its moment.\<close>

fun sim_run :: "memory storage_ops \<Rightarrow> (throws \<times> sim_op) list \<Rightarrow> sim_platform \<Rightarrow> sim_platform" where
  "sim_run ops [] p = p"
| "sim_run ops ((h, q) # qs) p =
     sim_run ops qs (sim_step ops q (p\<lparr>sp_world := (sp_world p)\<lparr>sw_throws := h\<rparr>\<rparr>))"

definition sim_inv :: "memory storage_ops \<Rightarrow> sim_platform \<Rightarrow> bool" where
  "sim_inv ops p \<longleftrightarrow> pipeline_reachable True (sp_pipeline p) \<and> nodes_in (sim_hooks ops) (sp_pipeline p)
     \<and> (if sp_initialized p then packet_flow (sp_world p)
        else sp_pipeline p = pipeline_new ''live0'' \<and> sw_queues (sp_world p) = []
          \<and> sw_metrics (sp_world p) = metrics_new)"

lemma sim_inv_throws: "sim_inv ops p \<Longrightarrow> sim_inv ops (p\<lparr>sp_world := (sp_world p)\<lparr>sw_throws := h\<rparr>\<rparr>)"
  by (simp add: sim_inv_def)

lemma nodes_in_frame: "same_frame p p' \<Longrightarrow> nodes_in H p \<Longrightarrow> nodes_in H p'"
  by (simp add: nodes_in_def same_frame_def flip: set_map)

text \<open>What holds of a pipeline and its world from initialisation on.\<close>

abbreviation "flows ops pl w \<equiv>
  pipeline_reachable True pl \<and> nodes_in (sim_hooks ops) pl \<and> packet_flow w"

lemma flows_start:
  assumes "flows ops pl w" "pipeline_start pl w = (r, pl', w')"
  shows "flows ops pl' w'"
proof -
  have inv: "pipeline_inv pl" using pipeline_reachable_inv assms(1) by blast
  then have wf: "pipeline_wf pl" by (simp add: pipeline_inv_def)
  have "pipeline_reachable True pl'" using reach_start [OF _ assms(2)] assms(1) by blast
  moreover have "nodes_in (sim_hooks ops) pl'" using nodes_in_frame [OF start_frame [OF inv assms(2)]] assms(1) by blast
  ultimately show ?thesis using sim.pipeline_keeps(1) [OF wf _ _ assms(2)] assms(1) by blast
qed

lemma flows_stop:
  assumes "flows ops pl w" "pipeline_stop pl w = (r, pl', w')"
  shows "flows ops pl' w'"
proof -
  have inv: "pipeline_inv pl" using pipeline_reachable_inv assms(1) by blast
  then have wf: "pipeline_wf pl" by (simp add: pipeline_inv_def)
  have "pipeline_reachable True pl'" using reach_stop [OF _ assms(2)] assms(1) by blast
  moreover have "nodes_in (sim_hooks ops) pl'" using nodes_in_frame [OF stop_frame [OF inv assms(2)]] assms(1) by blast
  ultimately show ?thesis using sim.pipeline_keeps(2) [OF wf _ _ assms(2)] assms(1) by blast
qed

lemma tick_frame: "pipeline_inv p \<Longrightarrow> pipeline_tick p w = (r, p', w') \<Longrightarrow> same_frame p p'"
  by (auto simp: pipeline_tick_def dest: tick_loop_frame split: if_splits sum.splits)

lemma flows_tick:
  assumes "flows ops pl w" "pipeline_tick pl w = (r, pl', w')"
  shows "flows ops pl' w'"
proof -
  have inv: "pipeline_inv pl" using pipeline_reachable_inv assms(1) by blast
  then have wf: "pipeline_wf pl" by (simp add: pipeline_inv_def)
  have "pipeline_reachable True pl'" using reach_tick [OF _ assms(2)] assms(1) by blast
  moreover have "nodes_in (sim_hooks ops) pl'" using nodes_in_frame [OF tick_frame [OF inv assms(2)]] assms(1) by blast
  ultimately show ?thesis using sim.pipeline_keeps(3) [OF wf _ _ assms(2)] assms(1) by blast
qed

lemma flows_executor: "flows ops pl w \<Longrightarrow> executor_run n pl w = (r, pl', w') \<Longrightarrow> flows ops pl' w'"
proof (induction n arbitrary: pl w)
  case (Suc n)
  obtain r1 pl1 w1 where t: "pipeline_tick pl w = (r1, pl1, w1)" by (metis prod_cases3)
  have f: "flows ops pl1 w1" by (rule flows_tick [OF Suc.prems(1) t])
  show ?case
    using Suc.prems(2) t f Suc.IH [of pl1 w1] by (auto split: outcome.splits if_splits)
qed simp

lemma flows_reconcile:
  assumes "flows ops pl w" "reconcile_configured h pl d a w = (r, pl', a', w')"
  shows "flows ops pl' w'"
proof (cases "state_string pl d")
  case (Inl s)
  then show ?thesis using assms by (auto simp: reconcile_configured_def)
next
  case (Inr target)
  consider (idle) "pl' = pl" "w' = w"
    | (call) s where "pipeline_call target pl w = (s, pl', w')"
  proof -
    obtain s pl1 w1 where c: "pipeline_call target pl w = (s, pl1, w1)" by (metis prod_cases3)
    show thesis
    proof (cases "state_string pl a = Inr target \<or> target \<noteq> ''running'' \<and> target \<noteq> ''stopped''")
      case True
      then show thesis using that(1) assms(2) Inr by (auto simp: reconcile_configured_def split: prod.splits if_splits)
    next
      case False
      then have "drive_pipeline h target (pipeline_call target pl w) a = (r, pl', a', w')"
        using reconcile_calls [OF Inr, of a h w] assms(2) by simp
      then have "pl' = pl1" "w' = w1" by (auto simp: c drive_pipeline_def split: outcome.splits prod.splits)
      then show thesis using that(2) c by blast
    qed
  qed
  then show ?thesis
  proof cases
    case call
    then show ?thesis using flows_start [OF assms(1)] flows_stop [OF assms(1)] by (auto simp: pipeline_call_def split: if_splits)
  qed (use assms(1) in simp)
qed

lemma add_nodes_reachable:
  assumes "list_all (\<lambda>n. n_state n = N_Created) ns"
  shows "pipeline_reachable ex p \<Longrightarrow> fold (\<lambda>n (s, p). if st_ok s then pipeline_add_node (Some n) p else (s, p)) ns (s0, p) = (s, p')
    \<Longrightarrow> pipeline_reachable ex p'"
  using assms
proof (induction ns arbitrary: s0 p)
  case (Cons n ns)
  obtain s1 p1 where 1: "(if st_ok s0 then pipeline_add_node (Some n) p else (s0, p)) = (s1, p1)" by fastforce
  have "pipeline_reachable ex p1" using Cons.prems(1,3) 1 by (auto split: if_splits intro: reach_add)
  then show ?case using Cons.IH [of p1 s1] Cons.prems(2,3) 1 by simp
qed simp

lemma built:
  "\<exists>pa pb. add_nodes [sim_node ''source'' (source_hooks ops), sim_node ''passthrough'' pass_hooks, sim_node ''sink'' sink_hooks]
        (pipeline_new ''live0'') = (ok_status, pa) \<and> pipeline_reachable True pa
     \<and> pipeline_connect ''source'' ''passthrough'' pa = (ok_status, pb)
     \<and> pipeline_connect ''passthrough'' ''sink'' pb = (ok_status, sim_pipeline ops P_Created N_Created [])
     \<and> pipeline_reachable True (sim_pipeline ops P_Created N_Created [])"
proof -
  let ?ns = "[sim_node ''source'' (source_hooks ops), sim_node ''passthrough'' pass_hooks, sim_node ''sink'' sink_hooks]"
  let ?p = "sim_pipeline ops P_Created N_Created []"
  let ?pa = "?p\<lparr>p_graph := sim_g3\<rparr>" and ?pb = "?p\<lparr>p_graph := sim_g4\<rparr>"
  have pa: "add_nodes ?ns (pipeline_new ''live0'') = (ok_status, ?pa)"
    by (simp add: add_nodes_def pipeline_add_node_def pipeline_new_def sim_graph_ops sim_node_def sim_pipeline_def
        flip: numeral_2_eq_2)
  have pb: "pipeline_connect ''source'' ''passthrough'' ?pa = (ok_status, ?pb)"
    and pc: "pipeline_connect ''passthrough'' ''sink'' ?pb = (ok_status, ?p)"
    by (simp_all add: pipeline_connect_def sim_graph_ops sim_pipeline_def)
  have "pipeline_reachable True ?pa"
    using add_nodes_reachable [OF _ reach_new pa [unfolded add_nodes_def]] by (simp add: sim_node_def)
  then show ?thesis using pa pb pc by (blast intro: reach_connect)
qed

lemma connected_flow:
  assumes "sw_queues w = []" "sw_metrics w = metrics_new"
  shows "\<exists>w'. connect_nodes (fresh_nodes w) = (ok_status, w') \<and> packet_flow w'"
  using assms
  by (simp add: connect_nodes_def fresh_nodes_def port_connect_def input_port_new_def output_port_new_def
      packet_flow_def bqueue_new_def in_order_def counter_or_0_def metrics_new_def)

lemma inv_initialize:
  assumes "sim_inv ops p" "sim_initialize ops p = (r, p')"
  shows "sim_inv ops p'"
proof (cases "sp_initialized p \<or> sw_throws (sp_world p) S_sim_nodes \<noteq> None")
  case True
  then show ?thesis using assms by (auto simp: sim_initialize_def split: if_splits)
next
  case False
  then have p: "sp_pipeline p = pipeline_new ''live0''" "sw_queues (sp_world p) = []" "sw_metrics (sp_world p) = metrics_new"
    "\<not> sp_initialized p" "sw_throws (sp_world p) S_sim_nodes = None"
    using assms(1) by (auto simp: sim_inv_def)
  let ?pl = "sim_pipeline ops P_Created N_Created []"
  obtain w where w: "connect_nodes (fresh_nodes (sp_world p)) = (ok_status, w)" "packet_flow w"
    using connected_flow [OF p(2,3)] by blast
  obtain pa pb where pl: "add_nodes [sim_node ''source'' (source_hooks ops), sim_node ''passthrough'' pass_hooks,
      sim_node ''sink'' sink_hooks] (pipeline_new ''live0'') = (ok_status, pa)"
    "pipeline_connect ''source'' ''passthrough'' pa = (ok_status, pb)"
    "pipeline_connect ''passthrough'' ''sink'' pb = (ok_status, ?pl)" "pipeline_reachable True ?pl"
    using built by blast
  have "nodes_in (sim_hooks ops) ?pl" by (simp add: nodes_in_def sim_pipeline_def sim_hooks_def)
  then show ?thesis
    using assms(2) p w pl by (auto simp: sim_initialize_def sim_inv_def split: prod.splits)
qed

lemma report_fields:
  "sim_report good s p = (r, p') \<Longrightarrow> sp_pipeline p' = sp_pipeline p \<and> sp_world p' = sp_world p
     \<and> sp_initialized p' = sp_initialized p"
  by (auto simp: sim_report_def Let_def split: prod.splits if_splits)

lemma inv_reconcile:
  assumes "sim_inv ops p" "sim_reconcile_once p = (r, p')"
  shows "sim_inv ops p'"
proof (cases "sp_initialized p")
  case True
  obtain r1 pl a w where c: "reconcile_configured (\<lambda>_. sw_throws (sp_world p)) (sp_pipeline p) (sp_desired p)
      (sp_actual p) (sp_world p) = (r1, pl, a, w)" by (metis prod_cases4)
  have f: "flows ops pl w" using flows_reconcile [where ops = ops, OF _ c] assms(1) True by (simp add: sim_inv_def)
  then show ?thesis
    using assms(2) True
    by (cases r1; cases "case r1 of Ret s \<Rightarrow> sim_report ''desired state converged'' s (p\<lparr>sp_pipeline := pl, sp_actual := a, sp_world := w\<rparr>)
          | Throw e \<Rightarrow> (ok_status, p)")
      (auto simp: sim_reconcile_once_def reconcile_once_def c sim_inv_def dest!: report_fields)
qed (use assms in \<open>simp add: sim_reconcile_once_def\<close>)

lemma inv_tick:
  assumes "sim_inv ops p" "sim_tick n p = (r, p')"
  shows "sim_inv ops p'"
proof (cases "sp_initialized p")
  case True
  obtain r1 pl w where c: "executor_run n (sp_pipeline p) (sp_world p) = (r1, pl, w)" by (metis prod_cases3)
  have f: "flows ops pl w" using flows_executor [where ops = ops, OF _ c] assms(1) True by (simp add: sim_inv_def)
  then show ?thesis
    using assms(2) True
    by (cases r1; cases "case r1 of Ret s \<Rightarrow> sim_report ''running'' s (p\<lparr>sp_pipeline := pl, sp_world := w\<rparr>)
          | Throw e \<Rightarrow> (ok_status, p)")
      (auto simp: sim_tick_def c sim_inv_def dest!: report_fields)
qed (use assms in \<open>simp add: sim_tick_def\<close>)

lemma inv_step: "sim_inv ops p \<Longrightarrow> sim_inv ops (sim_step ops q p)"
proof (cases q)
  case (Sim_start c)
  assume i: "sim_inv ops p"
  then show ?thesis by (auto simp: Sim_start sim_dispatch_start_def sim_inv_def split: prod.splits)
next
  case (Sim_stop c)
  assume i: "sim_inv ops p"
  then show ?thesis by (auto simp: Sim_stop sim_dispatch_stop_def sim_inv_def split: prod.splits)
qed (simp_all add: inv_initialize [OF _ surjective_pairing] inv_reconcile [OF _ surjective_pairing]
    inv_tick [OF _ surjective_pairing])

lemma inv_run: "sim_inv ops p \<Longrightarrow> sim_inv ops (sim_run ops qs p)"
  by (induction ops qs p rule: sim_run.induct) (simp_all add: inv_step sim_inv_throws)



end
