(* ===== verification/Posix.thy ===== *)
theory Posix
  imports Checked_Arith
begin

text \<open>
  What \<open>src/platform/linux\<close> takes from the kernel's headers: error numbers, \<open>timespec\<close>,
  \<open>pollfd\<close> and the bits of its event masks, with the values of the Linux ABI; and the conversion
  of a number of samples to microseconds that the capture code does in 64-bit signed arithmetic.
\<close>

definition eNOENT :: int where "eNOENT = 2"
definition eINTR :: int where "eINTR = 4"
definition eNXIO :: int where "eNXIO = 6"
definition eAGAIN :: int where "eAGAIN = 11"
definition eNOMEM :: int where "eNOMEM = 12"
definition eNODEV :: int where "eNODEV = 19"
definition eINVAL :: int where "eINVAL = 22"
definition ePIPE :: int where "ePIPE = 32"
definition eSTRPIPE :: int where "eSTRPIPE = 86"

lemmas errno_defs = eNOENT_def eINTR_def eNXIO_def eAGAIN_def eNOMEM_def eNODEV_def eINVAL_def
  ePIPE_def eSTRPIPE_def

definition pOLLIN :: "16 word" where "pOLLIN = 1"
definition pOLLOUT :: "16 word" where "pOLLOUT = 4"
definition pOLLERR :: "16 word" where "pOLLERR = 8"
definition pOLLHUP :: "16 word" where "pOLLHUP = 16"
definition pOLLPRI :: "16 word" where "pOLLPRI = 2"
definition pOLLRDNORM :: "16 word" where "pOLLRDNORM = 64"
definition pOLLNVAL :: "16 word" where "pOLLNVAL = 32"

record pollfd =
  pfd_fd :: int
  pfd_events :: "16 word"
  pfd_revents :: "16 word"

definition zero_pollfd :: pollfd where
  "zero_pollfd = \<lparr>pfd_fd = 0, pfd_events = 0, pfd_revents = 0\<rparr>"

record timespec =
  tv_sec :: int
  tv_nsec :: int

text \<open>The value of a \<open>long\<close> kept in an \<open>int\<close>, and \<open>std::numeric_limits<std::int64_t>::max()\<close>.\<close>

definition to_int32 :: "int \<Rightarrow> int" where
  "to_int32 i = signed_take_bit 31 i"

lemma to_int32_id: "is_int32 i \<Longrightarrow> to_int32 i = i"
  by (simp add: to_int32_def is_int32_def signed_take_bit_int_eq_self)

definition int64_max :: int where
  "int64_max = 2 ^ 63 - 1"

definition kMicrosecondsPerSecond :: int where
  "kMicrosecondsPerSecond = 1000000"

subsection \<open>Scaling without overflow\<close>

text \<open>The value of \<open>count\<close> ticks of a clock of \<open>rate\<close> Hz, as the code computes it: whole seconds
  and remainder apart, each product guarded.\<close>

definition scale_to_us :: "int \<Rightarrow> int \<Rightarrow> int option" where
  "scale_to_us count rate =
     (let quotient = c_div count rate; remainder = c_mod count rate
      in if quotient > c_div int64_max kMicrosecondsPerSecond then None
         else let seconds_us = quotient * kMicrosecondsPerSecond
           in if remainder > c_div int64_max kMicrosecondsPerSecond then None
              else let remainder_us = c_div (remainder * kMicrosecondsPerSecond) rate
                in if seconds_us > int64_max - remainder_us then None
                   else Some (seconds_us + remainder_us))"

text \<open>Every intermediate value fits, and the result is the exact one, rounded down, whenever that
  fits in 64 bits.\<close>

lemma scale_exact:
  fixes n r :: int
  assumes "0 \<le> n" "0 < r" "r \<le> 2 ^ 32"
  shows "scale_to_us n r = (if n * 1000000 div r \<le> int64_max then Some (n * 1000000 div r) else None)"
proof -
  let ?q = "n div r" and ?m = "n mod r"
  have m: "0 \<le> ?m" "?m < r" using assms by simp_all
  have q: "0 \<le> ?q" using assms by (simp add: pos_imp_zdiv_nonneg_iff)
  have split: "n * 1000000 div r = ?q * 1000000 + ?m * 1000000 div r"
  proof -
    have "n * 1000000 = (?q * r + ?m) * 1000000" by (simp only: div_mult_mod_eq)
    also have "\<dots> = ?m * 1000000 + (?q * 1000000) * r" by (simp only: algebra_simps)
    finally have "n * 1000000 = ?m * 1000000 + (?q * 1000000) * r" .
    then have "n * 1000000 div r = (?m * 1000000 + (?q * 1000000) * r) div r" by (rule arg_cong)
    also have "\<dots> = ?q * 1000000 + ?m * 1000000 div r"
      using assms(2) by (intro div_mult_self1) simp
    finally show ?thesis .
  qed
  have mu: "0 \<le> ?m * 1000000 div r" using m assms by (simp add: pos_imp_zdiv_nonneg_iff)
  have c: "c_div int64_max kMicrosecondsPerSecond = 9223372036854"
    by (simp add: int64_max_def kMicrosecondsPerSecond_def)
  have "r \<le> 4294967296" using assms(3) by simp
  then have small: "\<not> ?m > 9223372036854" using m by linarith
  show ?thesis
  proof (cases "?q > 9223372036854")
    case True
    then have "\<not> n * 1000000 div r \<le> int64_max" using split mu by (simp add: int64_max_def)
    then show ?thesis using True assms c by (simp add: scale_to_us_def)
  next
    case False
    then show ?thesis
      using split small assms c m
      by (auto simp: scale_to_us_def kMicrosecondsPerSecond_def)
  qed
qed

lemma scale_to_us_nonneg:
  "0 \<le> n \<Longrightarrow> 0 < r \<Longrightarrow> r \<le> 2 ^ 32 \<Longrightarrow> scale_to_us n r = Some t \<Longrightarrow> 0 \<le> t \<and> t \<le> int64_max"
  by (auto simp: scale_exact pos_imp_zdiv_nonneg_iff split: if_splits)

end
