(* ===== verification/Capture_Config.thy ===== *)
theory Capture_Config
  imports Checked_Arith Media_Format
begin

text \<open>
  \<open>src/platform/linux/v4l2_capture_config.cpp\<close> and \<open>alsa_capture_config.cpp\<close>: what may be asked of
  a capture device. The overflow-checked helpers are those of \<open>Checked_Arith\<close>.
\<close>

record v4l2_config =
  vc_device :: string
  vc_pixel :: pixel_format
  vc_width :: int
  vc_height :: int
  vc_rate_num :: int
  vc_rate_den :: int
  vc_buffers :: size_t

definition has_representable_layout :: "pixel_format \<Rightarrow> int \<Rightarrow> int \<Rightarrow> bool" where
  "has_representable_layout p width height =
     (let w = size_of_int width; h = size_of_int height
      in case p of
           kYuv420p \<Rightarrow>
             (case checked_multiply w h of None \<Rightarrow> False | Some luma_size \<Rightarrow>
              case checked_multiply (w div 2) (h div 2) of None \<Rightarrow> False | Some chroma_size \<Rightarrow>
              case checked_add luma_size chroma_size of None \<Rightarrow> False | Some chroma_offset \<Rightarrow>
              case checked_add chroma_offset chroma_size of None \<Rightarrow> False | Some total_size \<Rightarrow> total_size > 0)
         | kNv12 \<Rightarrow>
             (case checked_multiply w h of None \<Rightarrow> False | Some luma_size \<Rightarrow>
              case checked_multiply w (h div 2) of None \<Rightarrow> False | Some chroma_size \<Rightarrow>
              case checked_add luma_size chroma_size of None \<Rightarrow> False | Some total_size \<Rightarrow> total_size > 0)
         | kYuyv422 \<Rightarrow>
             (case checked_multiply w 2 of None \<Rightarrow> False | Some luma_size \<Rightarrow>
              case checked_multiply luma_size h of None \<Rightarrow> False | Some total_size \<Rightarrow> total_size > 0)
         | PixelUnknown \<Rightarrow> False
         | kRgb24 \<Rightarrow> False)"

definition is_supported_format :: "pixel_format \<Rightarrow> bool" where
  "is_supported_format p \<longleftrightarrow> p = kYuv420p \<or> p = kNv12 \<or> p = kYuyv422"

definition has_valid_dimensions :: "pixel_format \<Rightarrow> int \<Rightarrow> int \<Rightarrow> bool" where
  "has_valid_dimensions p width height =
     (if width \<le> 0 \<or> height \<le> 0 then False
      else if p = kYuv420p \<or> p = kNv12 then c_mod width 2 = 0 \<and> c_mod height 2 = 0
      else p \<noteq> kYuyv422 \<or> c_mod width 2 = 0)"

definition v4l2_config_create :: "throws \<Rightarrow> v4l2_config \<Rightarrow> v4l2_config result" where
  "v4l2_config_create h c = catch_all h S_v4l2_config
     (if vc_device c = [] \<or> vc_rate_num c \<le> 0 \<or> vc_rate_den c \<le> 0 \<or> vc_buffers c < 2
         \<or> vc_buffers c > 0xFFFFFFFF
      then err (status_msg kInvalidArgument ''V4L2 capture configuration values are invalid'')
      else if \<not> is_supported_format (vc_pixel c)
      then err (status_msg kUnsupported ''V4L2 capture pixel format is unsupported'')
      else if \<not> has_valid_dimensions (vc_pixel c) (vc_width c) (vc_height c)
              \<or> \<not> has_representable_layout (vc_pixel c) (vc_width c) (vc_height c)
      then err (status_msg kInvalidArgument ''V4L2 capture image layout is invalid or overflows'')
      else Inr c)"

record alsa_config =
  ac_device :: string
  ac_format :: audio_format
  ac_samples_per_frame :: int
  ac_period_size_hint :: int
  ac_buffer_periods :: int

definition alsa_config_create :: "throws \<Rightarrow> alsa_config \<Rightarrow> alsa_config result" where
  "alsa_config_create h c = catch_all h S_alsa_config
     (if ac_device c = [] \<or> ac_samples_per_frame c \<le> 0 \<or> ac_period_size_hint c \<le> 0 \<or> ac_buffer_periods c \<le> 0
      then err (status_msg kInvalidArgument ''ALSA capture configuration values must be positive'')
      else if af_domain (ac_format c) \<noteq> kCpu \<or> af_sample_layout (ac_format c) \<noteq> kInterleaved
      then err (status_msg kCapabilityMismatch ''ALSA capture requires interleaved CPU audio'')
      else let frames = size_of_int (ac_samples_per_frame c)
        in if af_bytes_per_pcm_frame (ac_format c) > size_max div frames
           then err (status_msg kInvalidArgument ''ALSA capture frame size overflows'')
           else Inr c)"

text \<open>Both capture nodes stamp their frames in microseconds.\<close>

definition microsecond_base :: time_base where
  "microsecond_base = \<lparr>tb_numerator = 1, tb_denominator = 1000000\<rparr>"

subsection \<open>Which configurations there are\<close>

lemma v4l2_config_create_Inr:
  "v4l2_config_create h c = Inr c' \<longleftrightarrow> h S_v4l2_config = None \<and> c' = c
     \<and> vc_device c \<noteq> [] \<and> 0 < vc_rate_num c \<and> 0 < vc_rate_den c \<and> 2 \<le> vc_buffers c \<and> vc_buffers c \<le> 0xFFFFFFFF
     \<and> is_supported_format (vc_pixel c) \<and> has_valid_dimensions (vc_pixel c) (vc_width c) (vc_height c)
     \<and> has_representable_layout (vc_pixel c) (vc_width c) (vc_height c)"
  by (auto simp: v4l2_config_create_def)

lemma alsa_config_create_Inr:
  "alsa_config_create h c = Inr c' \<longleftrightarrow> h S_alsa_config = None \<and> c' = c
     \<and> ac_device c \<noteq> [] \<and> 0 < ac_samples_per_frame c \<and> 0 < ac_period_size_hint c \<and> 0 < ac_buffer_periods c
     \<and> af_domain (ac_format c) = kCpu
     \<and> af_bytes_per_pcm_frame (ac_format c) \<le> size_max div size_of_int (ac_samples_per_frame c)"
  by (auto simp: alsa_config_create_def Let_def intro: audio_sample_layout.exhaust [of "af_sample_layout (ac_format c)"])

text \<open>On dimensions of 32 bits no layout overflows: of the checks of the layout only the sign of
  the dimensions matters.\<close>

lemma multiply_fits:
  "unat l * unat r < 2 ^ 64 \<Longrightarrow> \<exists>x. checked_multiply l r = Some x \<and> unat x = unat l * unat r"
  by (cases "checked_multiply l r") (auto simp: checked_multiply_None_iff dest: checked_multiply_Some_iff [THEN iffD1])

lemma add_fits:
  "unat l + unat r < 2 ^ 64 \<Longrightarrow> \<exists>x. checked_add l r = Some x \<and> unat x = unat l + unat r"
  by (cases "checked_add l r") (auto simp: checked_add_None_iff dest: checked_add_Some_iff [THEN iffD1])

lemma layout_always_fits:
  assumes "is_int32 w" "is_int32 h" "is_supported_format p" "has_valid_dimensions p w h"
  shows "has_representable_layout p w h"
proof -
  have pos: "0 < w" "0 < h" "w < 2 ^ 31" "h < 2 ^ 31"
    using assms by (auto simp: has_valid_dimensions_def is_int32_def split: if_splits)
  let ?w = "size_of_int w" and ?h = "size_of_int h"
  have u: "unat ?w = nat w" "unat ?h = nat h"
    using assms(1,2) pos by (auto intro: unat_size_of_int is_int32_int64)
  have b: "nat w < 2 ^ 31" "nat h < 2 ^ 31" "0 < nat w" "0 < nat h" using pos by auto
  have bnd: "nat w * nat h \<le> 2 ^ 62" "nat w div 2 * (nat h div 2) \<le> 2 ^ 60" "nat w * (nat h div 2) \<le> 2 ^ 62"
      "nat w * 2 * nat h \<le> 2 ^ 63"
  proof -
    have "nat w * nat h \<le> 2 ^ 31 * 2 ^ 31" "nat w div 2 * (nat h div 2) \<le> 2 ^ 30 * 2 ^ 30"
        "nat w * (nat h div 2) \<le> 2 ^ 31 * 2 ^ 31" "nat w * 2 * nat h \<le> (2 ^ 31 * 2) * 2 ^ 31"
      using b by (intro mult_mono; simp)+
    then show "nat w * nat h \<le> 2 ^ 62" "nat w div 2 * (nat h div 2) \<le> 2 ^ 60" "nat w * (nat h div 2) \<le> 2 ^ 62"
      "nat w * 2 * nat h \<le> 2 ^ 63" by simp_all
  qed
  have half: "unat (?w div 2) = nat w div 2" "unat (?h div 2) = nat h div 2"
    by (simp_all add: unat_div u)
  show ?thesis
  proof (cases p)
    case kYuv420p
    obtain l where l: "checked_multiply ?w ?h = Some l" "unat l = nat w * nat h"
      using multiply_fits [of ?w ?h] bnd(1) by (auto simp: u)
    obtain c where c: "checked_multiply (?w div 2) (?h div 2) = Some c" "unat c = nat w div 2 * (nat h div 2)"
      using multiply_fits [of "?w div 2" "?h div 2"] bnd(2) by (auto simp: half)
    obtain oc where oc: "checked_add l c = Some oc" "unat oc = unat l + unat c"
      using add_fits [of l c] bnd l(2) c(2) by auto
    obtain t where t: "checked_add oc c = Some t" "unat t = unat oc + unat c"
      using add_fits [of oc c] bnd l(2) c(2) oc(2) by auto
    have "0 < unat t" using t(2) oc(2) l(2) b by simp
    then show ?thesis using kYuv420p l(1) c(1) oc(1) t(1) by (simp add: has_representable_layout_def word_less_nat_alt)
  next
    case kNv12
    obtain l where l: "checked_multiply ?w ?h = Some l" "unat l = nat w * nat h"
      using multiply_fits [of ?w ?h] bnd(1) by (auto simp: u)
    obtain c where c: "checked_multiply ?w (?h div 2) = Some c" "unat c = nat w * (nat h div 2)"
      using multiply_fits [of ?w "?h div 2"] bnd(3) by (auto simp: half u)
    obtain t where t: "checked_add l c = Some t" "unat t = unat l + unat c"
      using add_fits [of l c] bnd l(2) c(2) by auto
    have "0 < unat t" using t(2) l(2) b by simp
    then show ?thesis using kNv12 l(1) c(1) t(1) by (simp add: has_representable_layout_def word_less_nat_alt)
  next
    case kYuyv422
    obtain l where l: "checked_multiply ?w 2 = Some l" "unat l = nat w * 2"
      using multiply_fits [of ?w 2] b by (auto simp: u)
    obtain t where t: "checked_multiply l ?h = Some t" "unat t = nat w * 2 * nat h"
      using multiply_fits [of l ?h] bnd(4) l(2) by (auto simp: u)
    have "0 < unat t" using t(2) b by simp
    then show ?thesis using kYuyv422 l(1) t(1) by (simp add: has_representable_layout_def word_less_nat_alt)
  qed (use assms(3) in \<open>auto simp: is_supported_format_def\<close>)
qed

end
