(* ===== verification/Alsa_System.thy ===== *)
theory Alsa_System
  imports Posix Capture_Config
begin

text \<open>
  \<open>src/platform/linux/alsa_system.cpp\<close>: the capture device of libasound. The virtual functions of
  \<open>AlsaApi\<close> (one call into libasound each) are the constructors of \<open>alsa_call\<close>, with the
  arguments the code passes; \<open>alsa_lib\<close> is the library, which answers a call from a state \<open>'w\<close> of its
  own with the returned integer and the values of the out parameters. A handle is a number, the
  null pointer is \<open>None\<close>.
\<close>

datatype pcm_format = FORMAT_S16_LE | FORMAT_S24_LE | FORMAT_S32_LE | FORMAT_FLOAT_LE
  | FORMAT_UNKNOWN | FORMAT_OTHER int

datatype pcm_access = ACCESS_RW_INTERLEAVED | ACCESS_MMAP_INTERLEAVED | ACCESS_OTHER int

datatype pcm_open_flag = NONBLOCK | NO_AUTO_RESAMPLE | NO_AUTO_CHANNELS | NO_AUTO_FORMAT

datatype pcm_stream = STREAM_CAPTURE

datatype tstamp_mode = TSTAMP_ENABLE

datatype tstamp_type = TSTAMP_TYPE_MONOTONIC

type_synonym handle = "nat option"

datatype alsa_call =
    Pcm_open handle string pcm_stream "pcm_open_flag list"
  | Pcm_close handle
  | Hw_params_malloc handle
  | Hw_params_free handle
  | Hw_params_any handle handle
  | Hw_params_set_access handle handle pcm_access
  | Hw_params_set_format handle handle pcm_format
  | Hw_params_set_channels handle handle "32 word"
  | Hw_params_set_rate handle handle "32 word" int
  | Hw_params_set_period_size_near handle handle "64 word" int
  | Hw_params_set_buffer_size_near handle handle "64 word"
  | Hw_params handle handle
  | Hw_params_get_access handle
  | Hw_params_get_format handle
  | Hw_params_get_channels handle
  | Hw_params_get_rate handle
  | Hw_params_get_period_size handle
  | Hw_params_get_buffer_size handle
  | Sw_params_malloc handle
  | Sw_params_free handle
  | Sw_params_current handle handle
  | Sw_params_set_tstamp_mode handle handle tstamp_mode
  | Sw_params_set_tstamp_type handle handle tstamp_type
  | Sw_params_set_avail_min handle handle "64 word"
  | Sw_params handle handle
  | Pcm_prepare handle
  | Pcm_start handle
  | Pcm_drop handle
  | Pcm_resume handle
  | Pcm_readi handle size_t "64 word"
  | Pcm_htimestamp handle
  | Pcm_avail_update handle
  | Pcm_poll_descriptors_count handle
  | Pcm_poll_descriptors handle "32 word"
  | Pcm_poll_descriptors_revents handle "pollfd list" "32 word"
  | Monotonic_now

record alsa_reply =
  ar_result :: int
  ar_handle :: handle
  ar_frames :: "64 word"
  ar_value :: "32 word"
  ar_access :: pcm_access
  ar_format :: pcm_format
  ar_time :: timespec
  ar_fds :: "pollfd list"
  ar_revents :: "16 word"

record 'w alsa_lib =
  al_call :: "alsa_call \<Rightarrow> 'w \<Rightarrow> alsa_reply \<times> 'w"
  al_error_string :: "int \<Rightarrow> string"

record alsa_negotiated =
  an_sample_rate :: "32 word"
  an_channels :: "32 word"
  an_period_frames :: "64 word"
  an_buffer_frames :: "64 word"
  an_monotonic :: bool

definition negotiated_none :: alsa_negotiated where
  "negotiated_none = \<lparr>an_sample_rate = 0, an_channels = 0, an_period_frames = 0, an_buffer_frames = 0,
     an_monotonic = False\<rparr>"

record alsa_read_result =
  rr_frames_read :: int
  rr_would_block :: bool
  rr_discontinuity :: bool

datatype anchor_outcome = Anchor int bool | Anchor_would_block | Anchor_discontinuity

datatype alsa_state = Alsa_created | Alsa_prepared | Alsa_running

record 'w alsa_system =
  as_has_api :: bool
  as_pcm :: handle
  as_hw :: handle
  as_sw :: handle
  as_negotiated :: alsa_negotiated
  as_state :: alsa_state
  as_suspended :: bool
  as_poll_count :: size_t
  as_lib :: 'w

definition alsa_new :: "bool \<Rightarrow> 'w \<Rightarrow> 'w alsa_system" where
  "alsa_new has_api w = \<lparr>as_has_api = has_api, as_pcm = None, as_hw = None, as_sw = None,
     as_negotiated = negotiated_none, as_state = Alsa_created, as_suspended = False,
     as_poll_count = 0, as_lib = w\<rparr>"

subsection \<open>Errors\<close>

definition alsa_failure :: "status_code \<Rightarrow> string \<Rightarrow> int \<Rightarrow> 'w alsa_lib \<Rightarrow> status" where
  "alsa_failure code operation native lib = status_native code (al_error_string lib native) ''alsa'' operation native"

definition system_error_code :: "int \<Rightarrow> status_code" where
  "system_error_code n =
     (if n = - eNOENT then kNotFound
      else if n = - eNODEV \<or> n = - eNXIO then kDeviceLost
      else if n = - eNOMEM then kResourceExhausted
      else kIoError)"

definition is_device_lost_error :: "int \<Rightarrow> bool" where
  "is_device_lost_error n \<longleftrightarrow> n = - eNODEV \<or> n = - eNXIO"

definition capability_error_code :: "int \<Rightarrow> status_code" where
  "capability_error_code n =
     (let code = system_error_code n in if code = kIoError then kCapabilityMismatch else code)"

definition system_failure :: "string \<Rightarrow> int \<Rightarrow> 'w alsa_lib \<Rightarrow> status" where
  "system_failure operation n lib = alsa_failure (system_error_code n) operation n lib"

definition read_failure :: "int \<Rightarrow> 'w alsa_lib \<Rightarrow> status" where
  "read_failure n lib = alsa_failure (system_error_code (to_int32 n)) ''snd_pcm_readi'' (to_int32 n) lib"

lemma system_error_code_ne [simp]:
  "system_error_code n \<noteq> kOk" "system_error_code n \<noteq> kWouldBlock" "capability_error_code n \<noteq> kOk"
  "kOk \<noteq> system_error_code n" "kOk \<noteq> capability_error_code n"
  by (auto simp: system_error_code_def capability_error_code_def Let_def)

lemma code_alsa_failure [simp]: "st_code (alsa_failure c op n lib) = c"
  by (simp add: alsa_failure_def)

lemma ok_alsa_failure [simp]: "st_ok (alsa_failure c op n lib) \<longleftrightarrow> c = kOk"
  by (simp add: alsa_failure_def)

lemma failures_not_ok [simp]: "\<not> st_ok (system_failure op n lib)" "\<not> st_ok (read_failure n lib)"
  by (simp_all add: system_failure_def read_failure_def)

subsection \<open>Time\<close>

definition kMaximumFutureTimestampUs :: int where
  "kMaximumFutureTimestampUs = 1000000"

definition timespec_to_us :: "timespec \<Rightarrow> int option" where
  "timespec_to_us v =
     (if tv_sec v < 0 \<or> tv_nsec v < 0 \<or> tv_nsec v \<ge> 1000000000
         \<or> tv_sec v > c_div int64_max kMicrosecondsPerSecond then None
      else let seconds_us = tv_sec v * kMicrosecondsPerSecond; nanoseconds_us = c_div (tv_nsec v) 1000
        in if seconds_us > int64_max - nanoseconds_us then None
           else Some (seconds_us + nanoseconds_us))"

definition frames_to_us :: "64 word \<Rightarrow> 32 word \<Rightarrow> int option" where
  "frames_to_us frames sample_rate =
     (if sample_rate = 0 \<or> frames > word_of_int int64_max then None
      else scale_to_us (uint frames) (uint sample_rate))"

definition first_unread_pts :: "int \<Rightarrow> 64 word \<Rightarrow> 32 word \<Rightarrow> int option" where
  "first_unread_pts timestamp_us available sample_rate =
     (case frames_to_us available sample_rate of
        None \<Rightarrow> None
      | Some available_us \<Rightarrow>
          if timestamp_us < available_us then None else Some (timestamp_us - available_us))"

definition timestamp_failure :: status where
  "timestamp_failure = status_msg kCorruptData ''ALSA timestamp cannot produce a valid monotonic anchor''"

definition alsa_format :: "sample_format \<Rightarrow> pcm_format option" where
  "alsa_format f =
     (case f of
        kSigned16LittleEndian \<Rightarrow> Some FORMAT_S16_LE
      | kSigned24In32LittleEndian \<Rightarrow> Some FORMAT_S24_LE
      | kSigned32LittleEndian \<Rightarrow> Some FORMAT_S32_LE
      | kFloat32LittleEndian \<Rightarrow> Some FORMAT_FLOAT_LE
      | SampleUnknown \<Rightarrow> None)"

subsection \<open>Resources\<close>

definition call :: "'w alsa_lib \<Rightarrow> alsa_call \<Rightarrow> 'w alsa_system \<Rightarrow> alsa_reply \<times> 'w alsa_system" where
  "call lib c s = (case al_call lib c (as_lib s) of (r, w) \<Rightarrow> (r, s\<lparr>as_lib := w\<rparr>))"

definition close_sw :: "'w alsa_lib \<Rightarrow> 'w alsa_system \<Rightarrow> 'w alsa_system" where
  "close_sw lib s = (if as_sw s \<noteq> None then (snd (call lib (Sw_params_free (as_sw s)) s))\<lparr>as_sw := None\<rparr> else s)"

definition close_hw :: "'w alsa_lib \<Rightarrow> 'w alsa_system \<Rightarrow> 'w alsa_system" where
  "close_hw lib s = (if as_hw s \<noteq> None then (snd (call lib (Hw_params_free (as_hw s)) s))\<lparr>as_hw := None\<rparr> else s)"

definition close_pcm :: "'w alsa_lib \<Rightarrow> 'w alsa_system \<Rightarrow> int \<times> 'w alsa_system" where
  "close_pcm lib s =
     (if as_pcm s \<noteq> None
      then (case call lib (Pcm_close (as_pcm s)) s of (r, s) \<Rightarrow> (ar_result r, s\<lparr>as_pcm := None\<rparr>))
      else (0, s))"

definition close_resources :: "'w alsa_lib \<Rightarrow> 'w alsa_system \<Rightarrow> int \<times> 'w alsa_system" where
  "close_resources lib s =
     (case close_pcm lib (close_hw lib (close_sw lib s)) of (close_result, s) \<Rightarrow>
        (close_result, s\<lparr>as_negotiated := negotiated_none, as_state := Alsa_created, as_suspended := False,
                         as_poll_count := 0\<rparr>))"

definition alsa_destroy :: "'w alsa_lib \<Rightarrow> 'w alsa_system \<Rightarrow> 'w alsa_system" where
  "alsa_destroy lib s = snd (close_resources lib s)"

text \<open>The moved-from object: no interface, no handle. Both objects share the one library; its state
  is that of the object that goes on working with it.\<close>

definition alsa_moved_from :: "'w alsa_system \<Rightarrow> 'w alsa_system" where
  "alsa_moved_from other = other\<lparr>as_has_api := False, as_pcm := None, as_hw := None, as_sw := None,
     as_negotiated := negotiated_none, as_state := Alsa_created, as_suspended := False, as_poll_count := 0\<rparr>"

definition alsa_move :: "'w alsa_system \<Rightarrow> 'w alsa_system \<times> 'w alsa_system" where
  "alsa_move other = (other, alsa_moved_from other)"

text \<open>Move assignment, with \<open>w\<close> the state of the library: \<open>this\<close> first gives up its own handles.\<close>

definition alsa_move_assign ::
  "'w alsa_lib \<Rightarrow> 'w \<Rightarrow> bool \<Rightarrow> 'w alsa_system \<Rightarrow> 'w alsa_system \<Rightarrow> 'w alsa_system \<times> 'w alsa_system" where
  "alsa_move_assign lib w self this other =
     (if self then (this, this)
      else let closed = snd (close_resources lib (this\<lparr>as_lib := w\<rparr>))
        in (other\<lparr>as_lib := as_lib closed\<rparr>, alsa_moved_from other))"

subsection \<open>Polling\<close>

text \<open>A vector of \<open>n\<close> zeroed entries that the library has written to.\<close>

definition written_fds :: "nat \<Rightarrow> pollfd list \<Rightarrow> pollfd list" where
  "written_fds n fds = take n fds @ replicate (n - length fds) zero_pollfd"

text \<open>\<open>alloc\<close> says whether the vector of descriptors can be allocated.\<close>

definition alsa_poll_descriptors ::
  "exn option \<Rightarrow> 'w alsa_lib \<Rightarrow> 'w alsa_system \<Rightarrow> pollfd list result outcome \<times> 'w alsa_system" where
  "alsa_poll_descriptors alloc lib s =
     (if as_state s \<noteq> Alsa_running \<or> as_pcm s = None \<or> \<not> as_has_api s
      then (Ret (err (status_msg kInvalidState ''ALSA poll descriptors require a running device'')), s)
      else case call lib (Pcm_poll_descriptors_count (as_pcm s)) s of (r, s) \<Rightarrow>
        let count = ar_result r in
        if count < 0 then (Ret (err (system_failure ''snd_pcm_poll_descriptors_count'' count lib)), s)
        else if count = 0
        then (Ret (err (status_native kCapabilityMismatch ''ALSA device exposes no poll descriptors'' ''alsa''
                     ''snd_pcm_poll_descriptors_count'' count)), s)
        else if as_poll_count s \<noteq> 0 \<and> size_of_int count \<noteq> as_poll_count s
        then (Ret (err (status_native kCorruptData ''ALSA poll descriptor count changed while running'' ''alsa''
                     ''snd_pcm_poll_descriptors_count'' count)), s)
        else case alloc of Some e \<Rightarrow> (Throw e, s)
        | None \<Rightarrow>
            (case call lib (Pcm_poll_descriptors (as_pcm s) (word_of_int count)) s of (r, s) \<Rightarrow>
               let filled = ar_result r; descriptors = written_fds (nat count) (ar_fds r) in
               if filled < 0 then (Ret (err (system_failure ''snd_pcm_poll_descriptors'' filled lib)), s)
               else if filled \<noteq> count
               then (Ret (err (status_native kCorruptData
                       ''ALSA poll descriptor count changed while reading the array'' ''alsa''
                       ''snd_pcm_poll_descriptors'' filled)), s)
               else (Ret (Inr descriptors), s\<lparr>as_poll_count := of_nat (length descriptors)\<rparr>)))"

definition alsa_evaluate_poll_events ::
  "'w alsa_lib \<Rightarrow> pollfd list \<Rightarrow> 'w alsa_system \<Rightarrow> bool result \<times> 'w alsa_system" where
  "alsa_evaluate_poll_events lib descriptors s =
     (if as_state s \<noteq> Alsa_running \<or> as_pcm s = None \<or> \<not> as_has_api s \<or> as_poll_count s = 0
      then (err (status_msg kInvalidState ''ALSA poll events require registered running descriptors''), s)
      else if length descriptors \<noteq> unat (as_poll_count s)
      then (err (status_msg kInvalidArgument ''ALSA poll descriptor array length changed''), s)
      else if length descriptors > 2 ^ 32 - 1
      then (err (status_msg kInvalidArgument ''ALSA poll descriptor array is too large''), s)
      else case call lib (Pcm_poll_descriptors_revents (as_pcm s) descriptors (of_nat (length descriptors))) s of (r, s) \<Rightarrow>
        if ar_result r < 0
        then (err (system_failure ''snd_pcm_poll_descriptors_revents'' (ar_result r) lib), s)
        else if and (ar_revents r) (or pOLLNVAL pOLLHUP) \<noteq> 0
        then (err (status_native kDeviceLost ''ALSA poll descriptor reports device loss'' ''alsa''
                ''snd_pcm_poll_descriptors_revents'' (uint (ar_revents r))), s)
        else (Inr (and (ar_revents r) (or pOLLIN (or pOLLOUT pOLLERR)) \<noteq> 0), s))"

subsection \<open>prepare\<close>

text \<open>\<open>EAVP_ALSA_PREPARE_CAPABILITY_CALL\<close>: on an error everything is closed and \<open>prepare\<close> returns;
  otherwise it goes on with \<open>k\<close>.\<close>

definition capability_call ::
  "'w alsa_lib \<Rightarrow> 'w alsa_system \<Rightarrow> alsa_call \<Rightarrow> string \<Rightarrow>
     (alsa_reply \<Rightarrow> 'w alsa_system \<Rightarrow> status \<times> 'w alsa_system) \<Rightarrow> status \<times> 'w alsa_system" where
  "capability_call lib s c operation k =
     (case call lib c s of (r, s) \<Rightarrow>
        if ar_result r < 0
        then (alsa_failure (capability_error_code (ar_result r)) operation (ar_result r) lib,
              snd (close_resources lib s))
        else k r s)"

text \<open>The software parameters, the timestamp type among them, and the last call, \<open>snd_pcm_prepare\<close>.\<close>

definition prepare_sw ::
  "'w alsa_lib \<Rightarrow> alsa_negotiated \<Rightarrow> 'w alsa_system \<Rightarrow> status \<times> 'w alsa_system" where
  "prepare_sw lib actual s =
     (case call lib (Sw_params_malloc (as_sw s)) s of (r, s) \<Rightarrow> let s = s\<lparr>as_sw := ar_handle r\<rparr> in
      if ar_result r < 0
      then (system_failure ''snd_pcm_sw_params_malloc'' (ar_result r) lib, snd (close_resources lib s))
      else
      capability_call lib s (Sw_params_current (as_pcm s) (as_sw s)) ''snd_pcm_sw_params_current'' (\<lambda>_ s.
      capability_call lib s (Sw_params_set_tstamp_mode (as_pcm s) (as_sw s) TSTAMP_ENABLE)
        ''snd_pcm_sw_params_set_tstamp_mode'' (\<lambda>_ s.
      case call lib (Sw_params_set_tstamp_type (as_pcm s) (as_sw s) TSTAMP_TYPE_MONOTONIC) s of (r, s) \<Rightarrow>
      let monotonic_timestamp = ar_result r \<ge> 0 in
      if ar_result r < 0 \<and> ar_result r \<noteq> - eINVAL
      then (alsa_failure (capability_error_code (ar_result r)) ''snd_pcm_sw_params_set_tstamp_type'' (ar_result r) lib,
            snd (close_resources lib s))
      else
      capability_call lib s (Sw_params_set_avail_min (as_pcm s) (as_sw s) (an_period_frames actual))
        ''snd_pcm_sw_params_set_avail_min'' (\<lambda>_ s.
      capability_call lib s (Sw_params (as_pcm s) (as_sw s)) ''snd_pcm_sw_params'' (\<lambda>_ s.
      case call lib (Pcm_prepare (as_pcm s)) s of (r, s) \<Rightarrow>
      if ar_result r < 0
      then (system_failure ''snd_pcm_prepare'' (ar_result r) lib, snd (close_resources lib s))
      else (ok_status,
            s\<lparr>as_negotiated := actual\<lparr>an_monotonic := monotonic_timestamp\<rparr>, as_state := Alsa_prepared\<rparr>))))))"

text \<open>Reading back what the device has agreed to.\<close>

definition prepare_actual ::
  "'w alsa_lib \<Rightarrow> alsa_config \<Rightarrow> pcm_format \<Rightarrow> 'w alsa_system \<Rightarrow> status \<times> 'w alsa_system" where
  "prepare_actual lib c format s =
     capability_call lib s (Hw_params_get_access (as_hw s)) ''snd_pcm_hw_params_get_access'' (\<lambda>r_access s.
     capability_call lib s (Hw_params_get_format (as_hw s)) ''snd_pcm_hw_params_get_format'' (\<lambda>r_format s.
     capability_call lib s (Hw_params_get_channels (as_hw s)) ''snd_pcm_hw_params_get_channels'' (\<lambda>r_channels s.
     capability_call lib s (Hw_params_get_rate (as_hw s)) ''snd_pcm_hw_params_get_rate'' (\<lambda>r_rate s.
     capability_call lib s (Hw_params_get_period_size (as_hw s)) ''snd_pcm_hw_params_get_period_size'' (\<lambda>r_period s.
     capability_call lib s (Hw_params_get_buffer_size (as_hw s)) ''snd_pcm_hw_params_get_buffer_size'' (\<lambda>r_buffer s.
     if ar_access r_access \<noteq> ACCESS_RW_INTERLEAVED \<or> ar_format r_format \<noteq> format
        \<or> ar_value r_channels \<noteq> word_of_int (af_channels (ac_format c))
        \<or> ar_value r_rate \<noteq> word_of_int (af_rate (ac_format c))
        \<or> ar_frames r_period = 0 \<or> ar_frames r_buffer div ar_frames r_period < 2
     then (status_msg kCapabilityMismatch ''ALSA negotiated parameters do not match the capture contract'',
           snd (close_resources lib s))
     else prepare_sw lib \<lparr>an_sample_rate = ar_value r_rate, an_channels = ar_value r_channels,
            an_period_frames = ar_frames r_period, an_buffer_frames = ar_frames r_buffer,
            an_monotonic = False\<rparr> s))))))"

text \<open>The hardware parameters asked for.\<close>

definition prepare_hw ::
  "'w alsa_lib \<Rightarrow> alsa_config \<Rightarrow> pcm_format \<Rightarrow> 'w alsa_system \<Rightarrow> status \<times> 'w alsa_system" where
  "prepare_hw lib c format s =
     capability_call lib s (Hw_params_any (as_pcm s) (as_hw s)) ''snd_pcm_hw_params_any'' (\<lambda>_ s.
     capability_call lib s (Hw_params_set_access (as_pcm s) (as_hw s) ACCESS_RW_INTERLEAVED)
       ''snd_pcm_hw_params_set_access'' (\<lambda>_ s.
     capability_call lib s (Hw_params_set_format (as_pcm s) (as_hw s) format) ''snd_pcm_hw_params_set_format'' (\<lambda>_ s.
     capability_call lib s (Hw_params_set_channels (as_pcm s) (as_hw s) (word_of_int (af_channels (ac_format c))))
       ''snd_pcm_hw_params_set_channels'' (\<lambda>_ s.
     capability_call lib s (Hw_params_set_rate (as_pcm s) (as_hw s) (word_of_int (af_rate (ac_format c))) 0)
       ''snd_pcm_hw_params_set_rate'' (\<lambda>_ s.
     capability_call lib s (Hw_params_set_period_size_near (as_pcm s) (as_hw s) (size_of_int (ac_period_size_hint c)) 0)
       ''snd_pcm_hw_params_set_period_size_near'' (\<lambda>r s.
     let period_frames = ar_frames r; buffer_periods = size_of_int (ac_buffer_periods c) in
     if period_frames = 0 \<or> period_frames > size_max div buffer_periods
     then (status_msg kCapabilityMismatch ''ALSA buffer size negotiation overflows'', snd (close_resources lib s))
     else
     capability_call lib s (Hw_params_set_buffer_size_near (as_pcm s) (as_hw s) (period_frames * buffer_periods))
       ''snd_pcm_hw_params_set_buffer_size_near'' (\<lambda>_ s.
     capability_call lib s (Hw_params (as_pcm s) (as_hw s)) ''snd_pcm_hw_params'' (\<lambda>_ s.
     prepare_actual lib c format s))))))))"

definition alsa_prepare :: "'w alsa_lib \<Rightarrow> alsa_config \<Rightarrow> 'w alsa_system \<Rightarrow> status \<times> 'w alsa_system" where
  "alsa_prepare lib c s =
     (if \<not> as_has_api s then (status_msg kInvalidState ''ALSA API is not configured'', s)
      else if as_state s \<noteq> Alsa_created then (status_msg kInvalidState ''ALSA device is already prepared'', s)
      else case alsa_format (af_sample (ac_format c)) of
        None \<Rightarrow> (status_msg kCapabilityMismatch ''ALSA sample format is not supported'', s)
      | Some format \<Rightarrow>
          (case call lib (Pcm_open (as_pcm s) (ac_device c) STREAM_CAPTURE
                   [NONBLOCK, NO_AUTO_RESAMPLE, NO_AUTO_CHANNELS, NO_AUTO_FORMAT]) s of (r, s) \<Rightarrow>
             let s = s\<lparr>as_pcm := ar_handle r\<rparr> in
             if ar_result r < 0
             then (system_failure ''snd_pcm_open'' (ar_result r) lib, snd (close_resources lib s))
             else case call lib (Hw_params_malloc (as_hw s)) s of (r, s) \<Rightarrow>
               let s = s\<lparr>as_hw := ar_handle r\<rparr> in
               if ar_result r < 0
               then (system_failure ''snd_pcm_hw_params_malloc'' (ar_result r) lib, snd (close_resources lib s))
               else prepare_hw lib c format s))"

subsection \<open>start, stop and the reads\<close>

definition alsa_start :: "'w alsa_lib \<Rightarrow> 'w alsa_system \<Rightarrow> status \<times> 'w alsa_system" where
  "alsa_start lib s =
     (if as_state s = Alsa_running then (ok_status, s)
      else if as_state s \<noteq> Alsa_prepared \<or> as_pcm s = None
      then (status_msg kInvalidState ''ALSA device is not prepared'', s)
      else case call lib (Pcm_start (as_pcm s)) s of (r, s) \<Rightarrow>
        if ar_result r < 0 then (system_failure ''snd_pcm_start'' (ar_result r) lib, s)
        else (ok_status, s\<lparr>as_state := Alsa_running\<rparr>))"

definition alsa_stop :: "'w alsa_lib \<Rightarrow> 'w alsa_system \<Rightarrow> status \<times> 'w alsa_system" where
  "alsa_stop lib s =
     (if as_state s = Alsa_created \<or> as_pcm s = None then (ok_status, s)
      else case call lib (Pcm_drop (as_pcm s)) s of (r, s) \<Rightarrow>
        case close_resources lib s of (close_result, s) \<Rightarrow>
        if ar_result r < 0 then (system_failure ''snd_pcm_drop'' (ar_result r) lib, s)
        else if close_result < 0 then (system_failure ''snd_pcm_close'' close_result lib, s)
        else (ok_status, s))"

definition recover_xrun :: "'w alsa_lib \<Rightarrow> 'w alsa_system \<Rightarrow> status \<times> 'w alsa_system" where
  "recover_xrun lib s =
     (case call lib (Pcm_prepare (as_pcm s)) s of (r, s) \<Rightarrow>
        if ar_result r < 0 then (system_failure ''snd_pcm_prepare'' (ar_result r) lib, s)
        else case call lib (Pcm_start (as_pcm s)) s of (r, s) \<Rightarrow>
          if ar_result r < 0 then (system_failure ''snd_pcm_start'' (ar_result r) lib, s)
          else (ok_status, s\<lparr>as_state := Alsa_running\<rparr>))"

definition begin_suspend_recovery :: "'w alsa_system \<Rightarrow> 'w alsa_system" where
  "begin_suspend_recovery s = s\<lparr>as_suspended := True\<rparr>"

definition would_block_read :: "bool \<Rightarrow> alsa_read_result" where
  "would_block_read d = \<lparr>rr_frames_read = 0, rr_would_block = True, rr_discontinuity = d\<rparr>"

text \<open>After a failed resume the code prepares and starts the device with the same two calls and the
  same errors as \<open>recover_xrun\<close>.\<close>

definition resume_suspended :: "'w alsa_lib \<Rightarrow> 'w alsa_system \<Rightarrow> alsa_read_result result \<times> 'w alsa_system" where
  "resume_suspended lib s =
     (case call lib (Pcm_resume (as_pcm s)) s of (r, s) \<Rightarrow>
        if ar_result r = - eAGAIN then (Inr (would_block_read False), s)
        else if ar_result r \<ge> 0 then (Inr (would_block_read False), s\<lparr>as_suspended := False\<rparr>)
        else if is_device_lost_error (ar_result r)
        then (err (alsa_failure kDeviceLost ''snd_pcm_resume'' (ar_result r) lib), s)
        else case recover_xrun lib s of (status, s) \<Rightarrow>
          if \<not> st_ok status then (err status, s)
          else (Inr (would_block_read False), s\<lparr>as_suspended := False\<rparr>))"

definition kMaximumReadAttemptsPerTick :: nat where
  "kMaximumReadAttemptsPerTick = 2"

fun read_attempts ::
  "nat \<Rightarrow> int \<Rightarrow> 'w alsa_lib \<Rightarrow> size_t \<Rightarrow> 64 word \<Rightarrow> 'w alsa_system \<Rightarrow> int \<times> 'w alsa_system" where
  "read_attempts 0 result lib destination frames s = (result, s)"
| "read_attempts (Suc n) result lib destination frames s =
     (case call lib (Pcm_readi (as_pcm s) destination frames) s of (r, s) \<Rightarrow>
        if ar_result r \<noteq> - eINTR then (ar_result r, s)
        else read_attempts n (ar_result r) lib destination frames s)"

text \<open>What \<open>read_interleaved\<close> makes of the number \<open>snd_pcm_readi\<close> returned.\<close>

definition read_outcome ::
  "'w alsa_lib \<Rightarrow> int \<Rightarrow> int \<Rightarrow> 'w alsa_system \<Rightarrow> alsa_read_result result \<times> 'w alsa_system" where
  "read_outcome lib requested_frames result s =
     (if result > 0
      then (if result > requested_frames \<or> result > 2 ^ 31 - 1
            then (err (status_msg kCorruptData ''ALSA read returned an invalid frame count''), s)
            else (Inr \<lparr>rr_frames_read = result, rr_would_block = False, rr_discontinuity = False\<rparr>, s))
      else if result = 0 \<or> result = - eAGAIN \<or> result = - eINTR then (Inr (would_block_read False), s)
      else if result = - ePIPE
      then (case recover_xrun lib s of (recovery, s) \<Rightarrow>
              if \<not> st_ok recovery then (err recovery, s) else (Inr (would_block_read True), s))
      else if result = - eSTRPIPE then (Inr (would_block_read True), begin_suspend_recovery s)
      else (err (read_failure result lib), s))"

definition read_interleaved ::
  "'w alsa_lib \<Rightarrow> size_t \<Rightarrow> int \<Rightarrow> 'w alsa_system \<Rightarrow> alsa_read_result result \<times> 'w alsa_system" where
  "read_interleaved lib destination requested_frames s =
     (if as_state s \<noteq> Alsa_running \<or> as_pcm s = None \<or> destination = 0 \<or> requested_frames \<le> 0
      then (err (status_msg kInvalidArgument ''ALSA read request is invalid''), s)
      else if as_suspended s then resume_suspended lib s
      else case read_attempts kMaximumReadAttemptsPerTick 0 lib destination (size_of_int requested_frames) s of (result, s) \<Rightarrow>
        read_outcome lib requested_frames result s)"

text \<open>\<open>capture_anchor\<close>: an overrun or a suspend is a discontinuity of the timeline.\<close>

definition anchor_xrun :: "'w alsa_lib \<Rightarrow> 'w alsa_system \<Rightarrow> anchor_outcome result \<times> 'w alsa_system" where
  "anchor_xrun lib s =
     (case recover_xrun lib s of (recovery, s) \<Rightarrow>
        if \<not> st_ok recovery then (err recovery, s) else (Inr Anchor_discontinuity, s))"

text \<open>The second half of \<open>capture_anchor\<close>: from the clock and the number of frames available.\<close>

definition anchor_fallback ::
  "'w alsa_lib \<Rightarrow> int option \<Rightarrow> 'w alsa_system \<Rightarrow> anchor_outcome result \<times> 'w alsa_system" where
  "anchor_fallback lib now_us s =
     (case call lib (Pcm_avail_update (as_pcm s)) s of (r, s) \<Rightarrow>
        let fallback_available = ar_result r in
        if fallback_available < 0
        then (if fallback_available = - eAGAIN then (Inr Anchor_would_block, s)
              else if fallback_available = - ePIPE then anchor_xrun lib s
              else if fallback_available = - eSTRPIPE then (Inr Anchor_discontinuity, begin_suspend_recovery s)
              else (err (system_failure ''snd_pcm_avail_update'' (to_int32 fallback_available) lib), s))
        else case now_us of
          None \<Rightarrow> (err timestamp_failure, s)
        | Some now \<Rightarrow>
            (case first_unread_pts now (word_of_int fallback_available) (an_sample_rate (as_negotiated s)) of
               None \<Rightarrow> (err timestamp_failure, s)
             | Some anchor_us \<Rightarrow> (Inr (Anchor anchor_us True), s)))"

text \<open>The timestamp of the device, when it can be trusted: not more than a second in the future.\<close>

definition device_anchor :: "int option \<Rightarrow> timespec \<Rightarrow> 64 word \<Rightarrow> 32 word \<Rightarrow> int option" where
  "device_anchor now_us timestamp available rate =
     (case now_us of None \<Rightarrow> None | Some now \<Rightarrow>
      case timespec_to_us timestamp of None \<Rightarrow> None | Some timestamp_us \<Rightarrow>
        if timestamp_us > now \<and> timestamp_us - now > kMaximumFutureTimestampUs then None
        else first_unread_pts timestamp_us available rate)"

definition capture_anchor :: "'w alsa_lib \<Rightarrow> 'w alsa_system \<Rightarrow> anchor_outcome result \<times> 'w alsa_system" where
  "capture_anchor lib s =
     (if as_state s \<noteq> Alsa_running \<or> as_pcm s = None \<or> an_sample_rate (as_negotiated s) = 0
      then (err (status_msg kInvalidState ''ALSA timestamp request is invalid''), s)
      else case call lib Monotonic_now s of (r, s) \<Rightarrow>
        if ar_result r < 0 then (err (system_failure ''clock_gettime(CLOCK_MONOTONIC)'' (ar_result r) lib), s)
        else let now_us = timespec_to_us (ar_time r) in
        if \<not> an_monotonic (as_negotiated s) then anchor_fallback lib now_us s
        else case call lib (Pcm_htimestamp (as_pcm s)) s of (r, s) \<Rightarrow>
          if ar_result r = - ePIPE then anchor_xrun lib s
          else if ar_result r = - eSTRPIPE then (Inr Anchor_discontinuity, begin_suspend_recovery s)
          else if is_device_lost_error (ar_result r)
          then (err (alsa_failure kDeviceLost ''snd_pcm_htimestamp'' (ar_result r) lib), s)
          else case (if ar_result r \<ge> 0
                     then device_anchor now_us (ar_time r) (ar_frames r) (an_sample_rate (as_negotiated s))
                     else None) of
            Some anchor_us \<Rightarrow> (Inr (Anchor anchor_us False), s)
          | None \<Rightarrow> anchor_fallback lib now_us s)"

end
