(* ===== verification/Alsa_Capture.thy ===== *)
theory Alsa_Capture
  imports Alsa_System Queue_Port Media_Node Management
begin

text \<open>
  \<open>src/platform/linux/alsa_capture.cpp\<close>: the node that turns the samples of a capture device into
  frames of a fixed number of samples with exact time stamps, and the observer that reports on it.

  \<open>capture_device\<close> are the functions of \<open>AlsaSystem\<close> the node calls, \<open>alsa_observer\<close> those of the
  abstract class \<open>AlsaObserver\<close>; \<open>alsa_device\<close> and \<open>registry_observer\<close> are the instances the program
  builds. A node's world holds its fields, the device, the observer, the stores of the queues behind
  its output port and the exceptions of the moment.
\<close>

subsection \<open>Numbers as text and as doubles\<close>

text \<open>\<open>std::to_string\<close> of an unsigned integer.\<close>

fun digits_of :: "nat \<Rightarrow> string" where
  "digits_of n = (if n < 10 then [] else digits_of (n div 10)) @ [char_of (48 + n mod 10)]"

declare digits_of.simps [simp del]

text \<open>\<open>static_cast<double>\<close> of an integer of 64 bits: 52 bits after the leading one, rounded to the
  nearest and to even in the middle; a carry out of the fraction goes to the exponent.\<close>

definition double_of_nat :: "nat \<Rightarrow> 64 word" where
  "double_of_nat n =
     (if n = 0 then 0
      else let e = length (takeWhile (\<lambda>k. 2 ^ Suc k \<le> n) [0..<64])
        in push_bit 52 (of_nat (1023 + e)) +
           (if e \<le> 52 then of_nat ((n - 2 ^ e) * 2 ^ (52 - e))
            else let k = e - 52; q = n div 2 ^ k; r = n mod 2 ^ k
              in of_nat (q - 2 ^ 52 + (if r > 2 ^ (k - 1) \<or> r = 2 ^ (k - 1) \<and> odd q then 1 else 0))))"

definition double_of_int :: "int \<Rightarrow> 64 word" where
  "double_of_int i = double_of_nat (nat \<bar>i\<bar>) + (if i < 0 then push_bit 63 1 else 0)"

definition samples_to_us :: "int \<Rightarrow> int \<Rightarrow> int option" where
  "samples_to_us samples sample_rate =
     (if samples < 0 \<or> sample_rate \<le> 0 then None else scale_to_us samples sample_rate)"

subsection \<open>The observer\<close>

record 'o alsa_observer =
  ob_negotiated :: "int \<Rightarrow> int \<Rightarrow> 'o \<Rightarrow> status outcome \<times> 'o"
  ob_partial :: "int \<Rightarrow> 'o \<Rightarrow> status outcome \<times> 'o"
  ob_would_block :: "'o \<Rightarrow> status outcome \<times> 'o"
  ob_frame :: "audio_frame \<Rightarrow> 'o \<Rightarrow> status outcome \<times> 'o"
  ob_timestamp_fallback :: "'o \<Rightarrow> status outcome \<times> 'o"
  ob_recovery :: "bool \<Rightarrow> 'o \<Rightarrow> status outcome \<times> 'o"
  ob_fatal :: "status \<Rightarrow> 'o \<Rightarrow> status outcome \<times> 'o"

record registry_state =
  ro_metrics :: metric_registry
  ro_health :: health_manager
  ro_throws :: throws
  ro_metric_prefix :: string
  ro_health_component :: string
  ro_samples_per_frame :: int
  ro_timestamp_fallbacks :: "64 word"
  ro_xruns :: "64 word"
  ro_suspends :: "64 word"
  ro_recoveries :: "64 word"

definition registry_new ::
  "string \<Rightarrow> metric_registry \<Rightarrow> health_manager \<Rightarrow> throws \<Rightarrow> int \<Rightarrow> registry_state" where
  "registry_new node_id metrics health h samples =
     \<lparr>ro_metrics = metrics, ro_health = health, ro_throws = h,
      ro_metric_prefix = ''alsa_capture.'' @ node_id @ ''.'',
      ro_health_component = ''alsa_capture/'' @ node_id, ro_samples_per_frame = samples,
      ro_timestamp_fallbacks = 0, ro_xruns = 0, ro_suspends = 0, ro_recoveries = 0\<rparr>"

text \<open>One call on the registry or the health manager, and \<open>record\<close>, which keeps the first failure
  while going on.\<close>

definition ro_gauge :: "string \<Rightarrow> 64 word \<Rightarrow> registry_state \<Rightarrow> status \<times> registry_state" where
  "ro_gauge name v reg =
     (case set_gauge (ro_metric_prefix reg @ name) v (ro_metrics reg) of (s, m) \<Rightarrow> (s, reg\<lparr>ro_metrics := m\<rparr>))"

definition ro_count :: "string \<Rightarrow> 64 word \<Rightarrow> registry_state \<Rightarrow> status \<times> registry_state" where
  "ro_count name d reg =
     (case increment_counter (ro_metric_prefix reg @ name) d (ro_metrics reg) of (s, m) \<Rightarrow> (s, reg\<lparr>ro_metrics := m\<rparr>))"

definition ro_report :: "health_status \<Rightarrow> string \<Rightarrow> registry_state \<Rightarrow> status \<times> registry_state" where
  "ro_report hs message reg =
     (case health_report (ro_throws reg) (ro_health_component reg) hs message (ro_health reg) of
        (s, m) \<Rightarrow> (s, reg\<lparr>ro_health := m\<rparr>))"

definition record_also ::
  "(registry_state \<Rightarrow> status \<times> registry_state) \<Rightarrow> status \<times> registry_state \<Rightarrow> status \<times> registry_state" where
  "record_also f x =
     (case x of (result, reg) \<Rightarrow> case f reg of (candidate, reg') \<Rightarrow>
        (if st_ok result \<and> \<not> st_ok candidate then candidate else result, reg'))"

definition report_degraded :: "string \<Rightarrow> registry_state \<Rightarrow> status \<times> registry_state" where
  "report_degraded reason reg = ro_report H_Degraded
     (reason @ ''; timestamp_fallbacks='' @ digits_of (unat (ro_timestamp_fallbacks reg))
      @ '', xruns='' @ digits_of (unat (ro_xruns reg)) @ '', suspends='' @ digits_of (unat (ro_suspends reg))
      @ '', recoveries='' @ digits_of (unat (ro_recoveries reg))) reg"

definition ro_on_negotiated :: "int \<Rightarrow> int \<Rightarrow> registry_state \<Rightarrow> status \<times> registry_state" where
  "ro_on_negotiated period_frames buffer_frames reg =
     record_also (ro_report H_Ok ''ALSA capture is running'')
      (record_also (ro_gauge ''partial_samples'' 0)
      (record_also (ro_gauge ''actual_buffer_frames'' (double_of_int buffer_frames))
      (ro_gauge ''actual_period_frames'' (double_of_int period_frames)
        (reg\<lparr>ro_timestamp_fallbacks := 0, ro_xruns := 0, ro_suspends := 0, ro_recoveries := 0\<rparr>))))"

definition ro_on_partial :: "int \<Rightarrow> registry_state \<Rightarrow> status \<times> registry_state" where
  "ro_on_partial partial_samples reg =
     (let x = ro_gauge ''partial_samples'' (double_of_int partial_samples) reg
      in if partial_samples > 0 \<and> partial_samples < ro_samples_per_frame reg
         then record_also (ro_count ''short_reads'' 1) x else x)"

definition ro_on_would_block :: "registry_state \<Rightarrow> status \<times> registry_state" where
  "ro_on_would_block = ro_count ''would_block'' 1"

definition ro_on_frame :: "audio_frame \<Rightarrow> registry_state \<Rightarrow> status \<times> registry_state" where
  "ro_on_frame f reg =
     record_also (ro_gauge ''last_pts_us'' (double_of_int (afr_pts f)))
      (record_also (ro_count ''bytes'' (pl_size (bf_planes (afr_buffer f) ! 0)))
      (record_also (ro_count ''samples'' (word_of_int (afr_samples f)))
      (ro_count ''frames'' 1 reg)))"

definition ro_on_timestamp_fallback :: "registry_state \<Rightarrow> status \<times> registry_state" where
  "ro_on_timestamp_fallback reg =
     record_also (report_degraded ''timestamp fallback'')
      (ro_count ''timestamp_fallbacks'' 1 (reg\<lparr>ro_timestamp_fallbacks := ro_timestamp_fallbacks reg + 1\<rparr>))"

definition ro_on_recovery :: "bool \<Rightarrow> registry_state \<Rightarrow> status \<times> registry_state" where
  "ro_on_recovery xrun reg =
     (let o1 = (if xrun then reg\<lparr>ro_xruns := ro_xruns reg + 1\<rparr> else reg\<lparr>ro_suspends := ro_suspends reg + 1\<rparr>);
          o2 = o1\<lparr>ro_recoveries := ro_recoveries o1 + 1\<rparr>
      in record_also (report_degraded (if xrun then ''XRUN recovery'' else ''suspend recovery''))
          (record_also (ro_count ''discontinuities'' 1)
          (record_also (ro_count ''recoveries'' 1)
          (ro_count (if xrun then ''xruns'' else ''suspends'') 1 o2))))"

definition ro_on_fatal :: "status \<Rightarrow> registry_state \<Rightarrow> status \<times> registry_state" where
  "ro_on_fatal failure = ro_report H_Error
     (if st_message failure = [] then ''ALSA capture failed'' else st_message failure)"

definition returning :: "('o \<Rightarrow> status \<times> 'o) \<Rightarrow> 'o \<Rightarrow> status outcome \<times> 'o" where
  "returning f reg = (case f reg of (s, reg') \<Rightarrow> (Ret s, reg'))"

definition registry_observer :: "registry_state alsa_observer" where
  "registry_observer =
     \<lparr>ob_negotiated = (\<lambda>p b. returning (ro_on_negotiated p b)), ob_partial = (\<lambda>n. returning (ro_on_partial n)),
      ob_would_block = returning ro_on_would_block, ob_frame = (\<lambda>f. returning (ro_on_frame f)),
      ob_timestamp_fallback = returning ro_on_timestamp_fallback,
      ob_recovery = (\<lambda>x. returning (ro_on_recovery x)), ob_fatal = (\<lambda>s. returning (ro_on_fatal s))\<rparr>"

subsection \<open>The device and the node\<close>

record 'd capture_device =
  cd_prepare :: "alsa_config \<Rightarrow> 'd \<Rightarrow> status \<times> 'd"
  cd_start :: "'d \<Rightarrow> status \<times> 'd"
  cd_stop :: "'d \<Rightarrow> status \<times> 'd"
  cd_read :: "size_t \<Rightarrow> int \<Rightarrow> 'd \<Rightarrow> alsa_read_result result \<times> 'd"
  cd_anchor :: "'d \<Rightarrow> anchor_outcome result \<times> 'd"
  cd_poll :: "exn option \<Rightarrow> 'd \<Rightarrow> pollfd list result outcome \<times> 'd"
  cd_events :: "pollfd list \<Rightarrow> 'd \<Rightarrow> bool result \<times> 'd"
  cd_negotiated :: "'d \<Rightarrow> alsa_negotiated"
  cd_suspended :: "'d \<Rightarrow> bool"

definition alsa_device :: "'w alsa_lib \<Rightarrow> 'w alsa_system capture_device" where
  "alsa_device lib =
     \<lparr>cd_prepare = alsa_prepare lib, cd_start = alsa_start lib, cd_stop = alsa_stop lib,
      cd_read = read_interleaved lib, cd_anchor = capture_anchor lib,
      cd_poll = (\<lambda>alloc. alsa_poll_descriptors alloc lib), cd_events = alsa_evaluate_poll_events lib,
      cd_negotiated = as_negotiated, cd_suspended = as_suspended\<rparr>"

record ('d, 'o) alsa_node =
  ad_config :: alsa_config
  ad_device :: 'd
  ad_observer :: 'o
  ad_output :: output_port
  ad_partial :: "buffer option"
  ad_partial_samples :: int
  ad_pending :: "audio_frame option"
  ad_emitted :: int
  ad_has_anchor :: bool
  ad_anchor :: int
  ad_discontinuity :: bool
  ad_fallbacks :: "64 word"
  ad_queues :: "audio_frame queue_store"
  ad_next_storage :: nat
  ad_throws :: throws

definition alsa_node_new ::
  "alsa_config \<Rightarrow> 'd \<Rightarrow> 'o \<Rightarrow> audio_frame queue_store \<Rightarrow> nat \<Rightarrow> throws \<Rightarrow> ('d, 'o) alsa_node" where
  "alsa_node_new c d obs qs i h =
     \<lparr>ad_config = c, ad_device = d, ad_observer = obs, ad_output = output_port_new ''audio_output'',
      ad_partial = None, ad_partial_samples = 0, ad_pending = None, ad_emitted = 0,
      ad_has_anchor = False, ad_anchor = 0, ad_discontinuity = False, ad_fallbacks = 0,
      ad_queues = qs, ad_next_storage = i, ad_throws = h\<rparr>"

definition alsa_node_create ::
  "string \<Rightarrow> alsa_config \<Rightarrow> (metric_registry \<times> health_manager) option \<Rightarrow> 'd \<Rightarrow> audio_frame queue_store \<Rightarrow>
     nat \<Rightarrow> throws \<Rightarrow> ('d, registry_state) alsa_node result" where
  "alsa_node_create i c observers d qs storage h =
     (if i = [] \<or> observers = None
      then err (status_msg kInvalidArgument ''ALSA source node id and observers must be configured'')
      else Inr (alsa_node_new c d
        (registry_new i (fst (the observers)) (snd (the observers)) h (ac_samples_per_frame c)) qs storage h))"

text \<open>\<open>invoke_observer\<close>.\<close>

definition observe ::
  "('o \<Rightarrow> status outcome \<times> 'o) \<Rightarrow> ('d, 'o) alsa_node \<Rightarrow> status \<times> ('d, 'o) alsa_node" where
  "observe f n =
     (case f (ad_observer n) of (r, obs) \<Rightarrow>
        (case r of Ret s \<Rightarrow> s | Throw e \<Rightarrow> handled e, n\<lparr>ad_observer := obs\<rparr>))"

text \<open>\<open>allocate_partial\<close>; the storage gets a fresh identity.\<close>

definition allocate_partial :: "('d, 'o) alsa_node \<Rightarrow> status \<times> ('d, 'o) alsa_node" where
  "allocate_partial n =
     (if ad_partial n \<noteq> None then (ok_status, n)
      else let samples = size_of_int (ac_samples_per_frame (ad_config n));
               bytes = af_bytes_per_pcm_frame (ac_format (ad_config n))
        in if bytes > size_max div samples
           then (status_msg kInvalidArgument ''ALSA capture frame size overflows'', n)
           else case buffer_allocate_plain (ad_throws n) (ad_next_storage n) (samples * bytes) of
             Inl s \<Rightarrow> (s, n)
           | Inr buf \<Rightarrow>
               (case ad_throws n S_alsa_partial of
                  Some e \<Rightarrow> (handled e, n)
                | None \<Rightarrow> (ok_status, n\<lparr>ad_partial := Some buf, ad_next_storage := Suc (ad_next_storage n)\<rparr>)))"

definition discard_capture_data :: "('d, 'o) alsa_node \<Rightarrow> ('d, 'o) alsa_node" where
  "discard_capture_data n = n\<lparr>ad_pending := None, ad_partial := None, ad_partial_samples := 0,
     ad_emitted := 0, ad_has_anchor := False, ad_anchor := 0, ad_discontinuity := False\<rparr>"

definition reset_timeline_after_discontinuity :: "('d, 'o) alsa_node \<Rightarrow> ('d, 'o) alsa_node" where
  "reset_timeline_after_discontinuity n = n\<lparr>ad_pending := None, ad_partial := None, ad_partial_samples := 0,
     ad_emitted := 0, ad_has_anchor := False, ad_anchor := 0, ad_discontinuity := True\<rparr>"

definition frame_pts :: "('d, 'o) alsa_node \<Rightarrow> int result" where
  "frame_pts n =
     (if \<not> ad_has_anchor n then err (status_msg kInvalidState ''ALSA timeline is not anchored'')
      else case samples_to_us (ad_emitted n) (af_rate (ac_format (ad_config n))) of
        None \<Rightarrow> err (status_msg kCorruptData ''ALSA PTS calculation overflows'')
      | Some delta_us \<Rightarrow>
          if delta_us > 0 \<and> ad_anchor n > int64_max - delta_us
          then err (status_msg kCorruptData ''ALSA PTS calculation overflows'')
          else Inr (ad_anchor n + delta_us))"

definition advanced_emitted_samples :: "('d, 'o) alsa_node \<Rightarrow> int result" where
  "advanced_emitted_samples n =
     (if ad_emitted n > int64_max - ac_samples_per_frame (ad_config n)
      then err (status_msg kCorruptData ''ALSA emitted sample counter overflows'')
      else Inr (ad_emitted n + ac_samples_per_frame (ad_config n)))"

definition report_media_failure ::
  "'o alsa_observer \<Rightarrow> status \<Rightarrow> ('d, 'o) alsa_node \<Rightarrow> status \<times> ('d, 'o) alsa_node" where
  "report_media_failure ob s n =
     (if st_code s \<noteq> kWouldBlock then (s, snd (observe (ob_fatal ob s) n)) else (s, n))"

definition report_would_block ::
  "'o alsa_observer \<Rightarrow> status \<Rightarrow> ('d, 'o) alsa_node \<Rightarrow> status \<times> ('d, 'o) alsa_node" where
  "report_would_block ob s n =
     (case observe (ob_would_block ob) n of (observer_status, n) \<Rightarrow>
        (if st_ok observer_status then s else observer_status, n))"

text \<open>An observer call whose failure ends the operation.\<close>

definition observe_then ::
  "('o \<Rightarrow> status outcome \<times> 'o) \<Rightarrow> (('d, 'o) alsa_node \<Rightarrow> status \<times> ('d, 'o) alsa_node) \<Rightarrow>
     ('d, 'o) alsa_node \<Rightarrow> status \<times> ('d, 'o) alsa_node" where
  "observe_then f k n =
     (case observe f n of (observer_status, n) \<Rightarrow>
        if \<not> st_ok observer_status then (observer_status, n) else k n)"

definition handle_timeline_discontinuity ::
  "'o alsa_observer \<Rightarrow> bool \<Rightarrow> ('d, 'o) alsa_node \<Rightarrow> status \<times> ('d, 'o) alsa_node" where
  "handle_timeline_discontinuity ob xrun n =
     observe_then (ob_partial ob 0) (\<lambda>n.
       (if xrun then observe_then (ob_recovery ob True) else (\<lambda>k. k))
         (report_would_block ob (status_msg kWouldBlock ''ALSA capture recovered timeline'')) n)
     (reset_timeline_after_discontinuity n)"

text \<open>A call of the device.\<close>

definition on_device ::
  "('d \<Rightarrow> 'a \<times> 'd) \<Rightarrow> ('d, 'o) alsa_node \<Rightarrow> 'a \<times> ('d, 'o) alsa_node" where
  "on_device f n = (case f (ad_device n) of (x, d) \<Rightarrow> (x, n\<lparr>ad_device := d\<rparr>))"

subsection \<open>The hooks\<close>

definition alsa_on_prepare :: "'d capture_device \<Rightarrow> ('d, 'o) alsa_node \<Rightarrow> status \<times> ('d, 'o) alsa_node" where
  "alsa_on_prepare dev n =
     (case on_device (cd_prepare dev (ad_config n)) n of (system_status, n) \<Rightarrow>
        if \<not> st_ok system_status then (system_status, n)
        else case allocate_partial n of (buffer_status, n) \<Rightarrow>
          if \<not> st_ok buffer_status then (buffer_status, snd (on_device (cd_stop dev) n))
          else (ok_status, n))"

definition alsa_on_start ::
  "'d capture_device \<Rightarrow> 'o alsa_observer \<Rightarrow> ('d, 'o) alsa_node \<Rightarrow> status \<times> ('d, 'o) alsa_node" where
  "alsa_on_start dev ob n =
     (case allocate_partial (discard_capture_data n) of (buffer_status, n) \<Rightarrow>
        if \<not> st_ok buffer_status then (buffer_status, n)
        else case on_device (cd_start dev) n of (start_status, n) \<Rightarrow>
          if \<not> st_ok start_status then (start_status, n)
          else let negotiated = cd_negotiated dev (ad_device n)
            in if an_period_frames negotiated > 0x7FFFFFFF \<or> an_buffer_frames negotiated > 0x7FFFFFFF
               then report_media_failure ob (status_msg kCorruptData ''ALSA negotiated frame count is too large'') n
               else observe (ob_negotiated ob (uint (an_period_frames negotiated)) (uint (an_buffer_frames negotiated))) n)"

definition alsa_on_stop :: "'d capture_device \<Rightarrow> ('d, 'o) alsa_node \<Rightarrow> status \<times> ('d, 'o) alsa_node" where
  "alsa_on_stop dev n = on_device (cd_stop dev) (discard_capture_data n)"

definition alsa_on_reset ::
  "'d capture_device \<Rightarrow> 'o alsa_observer \<Rightarrow> ('d, 'o) alsa_node \<Rightarrow> status \<times> ('d, 'o) alsa_node" where
  "alsa_on_reset dev ob n =
     (case on_device (cd_stop dev) (discard_capture_data n) of (stop_status, n) \<Rightarrow>
        if \<not> st_ok stop_status then (stop_status, n) else observe (ob_negotiated ob 0 0) n)"

text \<open>The destructor of the node's implementation.\<close>

definition alsa_node_destroy :: "'d capture_device \<Rightarrow> ('d, 'o) alsa_node \<Rightarrow> ('d, 'o) alsa_node" where
  "alsa_node_destroy dev n = snd (on_device (cd_stop dev) n)"

definition alsa_node_poll ::
  "'d capture_device \<Rightarrow> ('d, 'o) alsa_node \<Rightarrow> pollfd list result \<times> ('d, 'o) alsa_node" where
  "alsa_node_poll dev n =
     (case on_device (cd_poll dev (ad_throws n S_alsa_poll)) n of
        (Ret r, n) \<Rightarrow> (r, n)
      | (Throw e, n) \<Rightarrow> (err (handled e), n))"

definition alsa_node_events ::
  "'d capture_device \<Rightarrow> pollfd list \<Rightarrow> ('d, 'o) alsa_node \<Rightarrow> bool result \<times> ('d, 'o) alsa_node" where
  "alsa_node_events dev descriptors n = on_device (cd_events dev descriptors) n"

subsection \<open>on_tick\<close>

text \<open>Sending a finished frame; it stays pending until the output takes it.\<close>

definition deliver_pending ::
  "'o alsa_observer \<Rightarrow> audio_frame \<Rightarrow> ('d, 'o) alsa_node \<Rightarrow> status \<times> ('d, 'o) alsa_node" where
  "deliver_pending ob f n =
     (case advanced_emitted_samples n of
        Inl count_status \<Rightarrow> report_media_failure ob count_status n
      | Inr next_emitted_samples \<Rightarrow>
          (case port_send (Some f) (ad_output n) (ad_queues n) of (output_status, qs) \<Rightarrow>
             let n = n\<lparr>ad_queues := qs\<rparr>
             in if \<not> st_ok output_status
                then (if st_code output_status = kWouldBlock then report_would_block ob output_status n
                      else report_media_failure ob output_status n)
                else observe (ob_frame ob f) (n\<lparr>ad_pending := None, ad_emitted := next_emitted_samples\<rparr>)))"

text \<open>The frame is full.\<close>

definition complete_frame ::
  "'o alsa_observer \<Rightarrow> bool \<Rightarrow> ('d, 'o) alsa_node \<Rightarrow> status \<times> ('d, 'o) alsa_node" where
  "complete_frame ob timestamp_fallback n =
     (case frame_pts n of
        Inl pts_status \<Rightarrow> report_media_failure ob pts_status n
      | Inr pts_us \<Rightarrow>
          (case audio_frame_create (ad_throws n) (the (ad_partial n)) (ac_format (ad_config n))
                  (ac_samples_per_frame (ad_config n)) pts_us microsecond_base (ad_discontinuity n) of
             Inl s \<Rightarrow> report_media_failure ob s n
           | Inr f \<Rightarrow>
               (case ad_throws n S_alsa_frame of
                  Some e \<Rightarrow> (handled e, n)
                | None \<Rightarrow>
                    let n = n\<lparr>ad_pending := Some f, ad_partial := None, ad_partial_samples := 0,
                              ad_discontinuity := False\<rparr>;
                        k = observe_then (ob_partial ob 0) (deliver_pending ob f)
                    in if timestamp_fallback then observe_then (ob_timestamp_fallback ob) k n else k n)))"

text \<open>After a read that brought samples: the anchor, if this is the first one, and the frame, if it is
  full.\<close>

definition take_samples ::
  "'o alsa_observer \<Rightarrow> (int \<times> bool) option \<Rightarrow> int \<Rightarrow> ('d, 'o) alsa_node \<Rightarrow> status \<times> ('d, 'o) alsa_node" where
  "take_samples ob anchor frames_read n =
     (let n = n\<lparr>ad_partial_samples := ad_partial_samples n + frames_read\<rparr>;
          (overflow, timestamp_fallback, n) =
            (if ad_has_anchor n then (False, False, n)
             else let n = n\<lparr>ad_has_anchor := True, ad_anchor := fst (the anchor)\<rparr>
               in if \<not> snd (the anchor) then (False, False, n)
                  else if ad_fallbacks n = - 1 then (True, False, n)
                  else (False, True, n\<lparr>ad_fallbacks := ad_fallbacks n + 1\<rparr>))
      in if overflow then (status_msg kCorruptData ''ALSA timestamp fallback counter overflows'', n)
         else if ad_partial_samples n < ac_samples_per_frame (ad_config n)
         then let k = (\<lambda>n. observe (ob_partial ob (ad_partial_samples n)) n)
           in if timestamp_fallback then observe_then (ob_timestamp_fallback ob) k n else k n
         else complete_frame ob timestamp_fallback n)"

definition capture_read ::
  "'d capture_device \<Rightarrow> 'o alsa_observer \<Rightarrow> (int \<times> bool) option \<Rightarrow> size_t \<Rightarrow> int \<Rightarrow> ('d, 'o) alsa_node \<Rightarrow>
     status \<times> ('d, 'o) alsa_node" where
  "capture_read dev ob anchor destination missing n =
     (case on_device (cd_read dev destination missing) n of
        (Inl s, n) \<Rightarrow> report_media_failure ob s n
      | (Inr read, n) \<Rightarrow>
          if rr_discontinuity read
          then handle_timeline_discontinuity ob (\<not> cd_suspended dev (ad_device n)) n
          else if rr_would_block read
          then report_would_block ob (status_msg kWouldBlock ''ALSA capture would block'') n
          else take_samples ob anchor (rr_frames_read read) n)"

text \<open>While the device resumes from a suspend the read only drives the recovery.\<close>

definition capture_resuming ::
  "'d capture_device \<Rightarrow> 'o alsa_observer \<Rightarrow> size_t \<Rightarrow> int \<Rightarrow> ('d, 'o) alsa_node \<Rightarrow>
     status \<times> ('d, 'o) alsa_node" where
  "capture_resuming dev ob destination missing n =
     (case on_device (cd_read dev destination missing) n of
        (Inl s, n) \<Rightarrow> report_media_failure ob s n
      | (Inr recovery, n) \<Rightarrow>
          let resuming = report_would_block ob (status_msg kWouldBlock ''ALSA capture is resuming'');
              resumed = (\<lambda>n. if \<not> cd_suspended dev (ad_device n)
                             then observe_then (ob_recovery ob False) resuming n else resuming n)
          in if rr_discontinuity recovery
             then observe_then (ob_partial ob 0) resumed (reset_timeline_after_discontinuity n)
             else resumed n)"

definition capture_anchored ::
  "'d capture_device \<Rightarrow> 'o alsa_observer \<Rightarrow> size_t \<Rightarrow> int \<Rightarrow> ('d, 'o) alsa_node \<Rightarrow>
     status \<times> ('d, 'o) alsa_node" where
  "capture_anchored dev ob destination missing n =
     (if ad_has_anchor n then capture_read dev ob None destination missing n
      else case on_device (cd_anchor dev) n of
        (Inl s, n) \<Rightarrow> report_media_failure ob s n
      | (Inr Anchor_discontinuity, n) \<Rightarrow>
          handle_timeline_discontinuity ob (\<not> cd_suspended dev (ad_device n)) n
      | (Inr Anchor_would_block, n) \<Rightarrow>
          report_would_block ob (status_msg kWouldBlock ''ALSA capture anchor would block'') n
      | (Inr (Anchor first_unread_pts_us used_fallback), n) \<Rightarrow>
          capture_read dev ob (Some (first_unread_pts_us, used_fallback)) destination missing n)"

definition alsa_on_tick ::
  "(nat \<Rightarrow> size_t) \<Rightarrow> 'd capture_device \<Rightarrow> 'o alsa_observer \<Rightarrow> ('d, 'o) alsa_node \<Rightarrow> status \<times> ('d, 'o) alsa_node" where
  "alsa_on_tick base dev ob n =
     (case ad_pending n of
        Some f \<Rightarrow> deliver_pending ob f n
      | None \<Rightarrow>
          (case allocate_partial n of (allocation_status, n) \<Rightarrow>
             if \<not> st_ok allocation_status then report_media_failure ob allocation_status n
             else let missing = ac_samples_per_frame (ad_config n) - ad_partial_samples n
               in if missing \<le> 0
                  then report_media_failure ob (status_msg kInternal ''ALSA capture accumulation state is invalid'') n
                  else case fst (map_plane (cpu_ops base) (the (ad_partial n)) 0 kReadWrite ()) of
                    Inl s \<Rightarrow> report_media_failure ob s n
                  | Inr region \<Rightarrow>
                      let destination = mutable_data region
                            + size_of_int (ad_partial_samples n) * af_bytes_per_pcm_frame (ac_format (ad_config n))
                      in if cd_suspended dev (ad_device n) then capture_resuming dev ob destination missing n
                         else capture_anchored dev ob destination missing n))"

text \<open>The node in a pipeline.\<close>

definition alsa_hooks ::
  "(nat \<Rightarrow> size_t) \<Rightarrow> 'd capture_device \<Rightarrow> 'o alsa_observer \<Rightarrow> ('d, 'o) alsa_node hooks" where
  "alsa_hooks base dev ob =
     \<lparr>on_prepare = returning (alsa_on_prepare dev), on_start = returning (alsa_on_start dev ob),
      on_stop = returning (alsa_on_stop dev), on_reset = returning (alsa_on_reset dev ob),
      on_tick = returning (alsa_on_tick base dev ob)\<rparr>"

end
