(* ===== verification/Alsa_Contract.thy ===== *)
theory Alsa_Contract
  imports Alsa_System
begin

text \<open>
  What \<open>AlsaSystem\<close> promises: its handles are acquired, used and given back in order, whatever the
  library answers; \<open>prepare\<close> is all or nothing; reads and anchors are in range.

  \<open>recording\<close> puts a recorder between the device and any library: the state it hands to the device is
  the library's own and the calls answered so far. \<open>handle_step\<close> reads such a record as the library
  does: it follows which handles are open and refuses a call on any other one.
\<close>

definition recording :: "'w alsa_lib \<Rightarrow> ('w \<times> (alsa_call \<times> alsa_reply) list) alsa_lib" where
  "recording lib =
     \<lparr>al_call = (\<lambda>c (w, log). case al_call lib c w of (r, w') \<Rightarrow> (r, (w', log @ [(c, r)]))),
      al_error_string = al_error_string lib\<rparr>"

type_synonym open_handles = "handle \<times> handle \<times> handle"

fun pcm_argument :: "alsa_call \<Rightarrow> handle option" where
  "pcm_argument (Hw_params_any p h) = Some p"
| "pcm_argument (Hw_params_set_access p h a) = Some p"
| "pcm_argument (Hw_params_set_format p h f) = Some p"
| "pcm_argument (Hw_params_set_channels p h n) = Some p"
| "pcm_argument (Hw_params_set_rate p h n d) = Some p"
| "pcm_argument (Hw_params_set_period_size_near p h n d) = Some p"
| "pcm_argument (Hw_params_set_buffer_size_near p h n) = Some p"
| "pcm_argument (Hw_params p h) = Some p"
| "pcm_argument (Sw_params_current p w) = Some p"
| "pcm_argument (Sw_params_set_tstamp_mode p w m) = Some p"
| "pcm_argument (Sw_params_set_tstamp_type p w t) = Some p"
| "pcm_argument (Sw_params_set_avail_min p w n) = Some p"
| "pcm_argument (Sw_params p w) = Some p"
| "pcm_argument (Pcm_prepare p) = Some p"
| "pcm_argument (Pcm_start p) = Some p"
| "pcm_argument (Pcm_drop p) = Some p"
| "pcm_argument (Pcm_resume p) = Some p"
| "pcm_argument (Pcm_readi p a n) = Some p"
| "pcm_argument (Pcm_htimestamp p) = Some p"
| "pcm_argument (Pcm_avail_update p) = Some p"
| "pcm_argument (Pcm_poll_descriptors_count p) = Some p"
| "pcm_argument (Pcm_poll_descriptors p n) = Some p"
| "pcm_argument (Pcm_poll_descriptors_revents p fds n) = Some p"
| "pcm_argument _ = None"

fun hw_argument :: "alsa_call \<Rightarrow> handle option" where
  "hw_argument (Hw_params_any p h) = Some h"
| "hw_argument (Hw_params_set_access p h a) = Some h"
| "hw_argument (Hw_params_set_format p h f) = Some h"
| "hw_argument (Hw_params_set_channels p h n) = Some h"
| "hw_argument (Hw_params_set_rate p h n d) = Some h"
| "hw_argument (Hw_params_set_period_size_near p h n d) = Some h"
| "hw_argument (Hw_params_set_buffer_size_near p h n) = Some h"
| "hw_argument (Hw_params p h) = Some h"
| "hw_argument (Hw_params_get_access h) = Some h"
| "hw_argument (Hw_params_get_format h) = Some h"
| "hw_argument (Hw_params_get_channels h) = Some h"
| "hw_argument (Hw_params_get_rate h) = Some h"
| "hw_argument (Hw_params_get_period_size h) = Some h"
| "hw_argument (Hw_params_get_buffer_size h) = Some h"
| "hw_argument _ = None"

fun sw_argument :: "alsa_call \<Rightarrow> handle option" where
  "sw_argument (Sw_params_current p w) = Some w"
| "sw_argument (Sw_params_set_tstamp_mode p w m) = Some w"
| "sw_argument (Sw_params_set_tstamp_type p w t) = Some w"
| "sw_argument (Sw_params_set_avail_min p w n) = Some w"
| "sw_argument (Sw_params p w) = Some w"
| "sw_argument _ = None"

text \<open>An argument is good when it is the open handle, and there is one.\<close>

definition good :: "handle option \<Rightarrow> handle \<Rightarrow> bool" where
  "good arg live \<longleftrightarrow> (case arg of None \<Rightarrow> True | Some x \<Rightarrow> x = live \<and> live \<noteq> None)"

text \<open>\<open>None\<close> is a call the discipline forbids: a second handle over an open one, a handle given back
  that is not open, the device closed with parameters still allocated, any other call with a handle
  that is not the open one.\<close>

fun handle_step :: "alsa_call \<times> alsa_reply \<Rightarrow> open_handles \<Rightarrow> open_handles option" where
  "handle_step (Pcm_open old name stream flags, r) (p, h, w) = (if p = None then Some (ar_handle r, h, w) else None)"
| "handle_step (Hw_params_malloc old, r) (p, h, w) = (if h = None then Some (p, ar_handle r, w) else None)"
| "handle_step (Sw_params_malloc old, r) (p, h, w) = (if w = None then Some (p, h, ar_handle r) else None)"
| "handle_step (Pcm_close x, r) (p, h, w) =
     (if x = p \<and> p \<noteq> None \<and> h = None \<and> w = None then Some (None, h, w) else None)"
| "handle_step (Hw_params_free x, r) (p, h, w) = (if x = h \<and> h \<noteq> None then Some (p, None, w) else None)"
| "handle_step (Sw_params_free x, r) (p, h, w) = (if x = w \<and> w \<noteq> None then Some (p, h, None) else None)"
| "handle_step (c, r) (p, h, w) =
     (if good (pcm_argument c) p \<and> good (hw_argument c) h \<and> good (sw_argument c) w then Some (p, h, w) else None)"

fun handles_after :: "(alsa_call \<times> alsa_reply) list \<Rightarrow> open_handles \<Rightarrow> open_handles option" where
  "handles_after [] v = Some v"
| "handles_after (e # es) v = (case handle_step e v of None \<Rightarrow> None | Some v' \<Rightarrow> handles_after es v')"

lemma handles_after_append [simp]:
  "handles_after (xs @ ys) v = (case handles_after xs v of None \<Rightarrow> None | Some v' \<Rightarrow> handles_after ys v')"
  by (induction xs arbitrary: v) (auto split: option.split)

text \<open>The library's documented behaviour that the code relies on: a call that succeeds in opening or
  allocating has written a handle.\<close>

definition gives_handles :: "'w alsa_lib \<Rightarrow> bool" where
  "gives_handles lib \<longleftrightarrow>
     (\<forall>c w. (case c of Pcm_open _ _ _ _ \<Rightarrow> True | Hw_params_malloc _ \<Rightarrow> True | Sw_params_malloc _ \<Rightarrow> True | _ \<Rightarrow> False)
        \<longrightarrow> 0 \<le> ar_result (fst (al_call lib c w)) \<longrightarrow> ar_handle (fst (al_call lib c w)) \<noteq> None)"

type_synonym 'w recorded = "('w \<times> (alsa_call \<times> alsa_reply) list) alsa_system"

abbreviation handles_of :: "'w alsa_system \<Rightarrow> open_handles" where
  "handles_of s \<equiv> (as_pcm s, as_hw s, as_sw s)"

text \<open>The handles the device remembers are the ones that are open.\<close>

definition owned :: "'w recorded \<Rightarrow> bool" where
  "owned s \<longleftrightarrow> handles_after (snd (as_lib s)) (None, None, None) = Some (handles_of s)"

definition all_live :: "'w alsa_system \<Rightarrow> bool" where
  "all_live s \<longleftrightarrow> as_pcm s \<noteq> None \<and> as_hw s \<noteq> None \<and> as_sw s \<noteq> None"

definition none_live :: "'w alsa_system \<Rightarrow> bool" where
  "none_live s \<longleftrightarrow> handles_of s = (None, None, None)"

text \<open>Between operations: no handle before \<open>prepare\<close>, all three of them after.\<close>

definition alsa_inv :: "'w recorded \<Rightarrow> bool" where
  "alsa_inv s \<longleftrightarrow> owned s \<and> (if as_state s = Alsa_created then none_live s else all_live s)"

lemma call_recording:
  "call (recording lib) c s = (r, s') \<Longrightarrow>
     (\<exists>w. s' = s\<lparr>as_lib := (w, snd (as_lib s) @ [(c, r)])\<rparr>) \<and> r = fst (al_call lib c (fst (as_lib s)))"
  by (cases "as_lib s") (auto simp: call_def recording_def split: prod.splits)

lemma call_view:
  assumes "call (recording lib) c s = (r, s')" "owned s"
  shows "handles_after (snd (as_lib s')) (None, None, None) = handle_step (c, r) (handles_of s)"
  using call_recording [OF assms(1)] assms(2) by (auto simp: owned_def split: option.split)

text \<open>A call that only uses handles changes nothing but the library.\<close>

definition uses_only :: "alsa_call \<Rightarrow> 'w alsa_system \<Rightarrow> bool" where
  "uses_only c s \<longleftrightarrow> (\<forall>r. handle_step (c, r) (handles_of s) = Some (handles_of s))"

definition same_device :: "'w alsa_system \<Rightarrow> 'w alsa_system \<Rightarrow> bool" where
  "same_device s' s \<longleftrightarrow> handles_of s' = handles_of s \<and> as_state s' = as_state s
     \<and> as_negotiated s' = as_negotiated s \<and> as_has_api s' = as_has_api s \<and> as_suspended s' = as_suspended s
     \<and> as_poll_count s' = as_poll_count s"

lemma call_uses:
  assumes "call (recording lib) c s = (r, s')" "owned s" "uses_only c s"
  shows "owned s'" "same_device s' s"
  using call_recording [OF assms(1)] call_view [OF assms(1,2)] assms(3)
  by (auto simp: owned_def uses_only_def same_device_def)

subsection \<open>Closing\<close>

text \<open>Everything is given back.\<close>

definition closed :: "'w recorded \<Rightarrow> bool" where
  "closed s \<longleftrightarrow> owned s \<and> none_live s \<and> as_state s = Alsa_created \<and> as_negotiated s = negotiated_none
     \<and> \<not> as_suspended s \<and> as_poll_count s = 0"

lemma close_sw_owned:
  "owned s \<Longrightarrow> owned (close_sw (recording lib) s) \<and> as_sw (close_sw (recording lib) s) = None
     \<and> as_hw (close_sw (recording lib) s) = as_hw s \<and> as_pcm (close_sw (recording lib) s) = as_pcm s"
proof (cases "as_sw s = None")
  case False
  assume o: "owned s"
  obtain r s' where c: "call (recording lib) (Sw_params_free (as_sw s)) s = (r, s')" by (meson surj_pair)
  from call_recording [OF c] call_view [OF c o] False c o show ?thesis
    by (auto simp: close_sw_def owned_def)
qed (simp add: close_sw_def)

lemma close_hw_owned:
  "owned s \<Longrightarrow> owned (close_hw (recording lib) s) \<and> as_hw (close_hw (recording lib) s) = None
     \<and> as_sw (close_hw (recording lib) s) = as_sw s \<and> as_pcm (close_hw (recording lib) s) = as_pcm s"
proof (cases "as_hw s = None")
  case False
  assume o: "owned s"
  obtain r s' where c: "call (recording lib) (Hw_params_free (as_hw s)) s = (r, s')" by (meson surj_pair)
  from call_recording [OF c] call_view [OF c o] False c o show ?thesis
    by (auto simp: close_hw_def owned_def)
qed (simp add: close_hw_def)

lemma close_pcm_owned:
  "owned s \<Longrightarrow> as_hw s = None \<Longrightarrow> as_sw s = None \<Longrightarrow>
     owned (snd (close_pcm (recording lib) s)) \<and> none_live (snd (close_pcm (recording lib) s))"
proof (cases "as_pcm s = None")
  case False
  assume o: "owned s" "as_hw s = None" "as_sw s = None"
  obtain r s' where c: "call (recording lib) (Pcm_close (as_pcm s)) s = (r, s')" by (meson surj_pair)
  from call_recording [OF c] call_view [OF c o(1)] False c o show ?thesis
    by (auto simp: close_pcm_def owned_def none_live_def)
qed (simp add: close_pcm_def none_live_def)

lemma close_resources_closed: "owned s \<Longrightarrow> closed (snd (close_resources (recording lib) s))"
  using close_sw_owned [of s lib] close_hw_owned [of "close_sw (recording lib) s" lib]
    close_pcm_owned [of "close_hw (recording lib) (close_sw (recording lib) s)" lib]
  by (auto simp: close_resources_def closed_def owned_def none_live_def split: prod.split)

lemma close_resources_api [simp]: "as_has_api (snd (close_resources lib s)) = as_has_api s"
  by (simp add: close_resources_def close_pcm_def close_hw_def close_sw_def call_def split: prod.split)

subsection \<open>prepare\<close>

text \<open>How far \<open>prepare\<close> has come: which handles are open.\<close>

definition stage :: "bool \<Rightarrow> bool \<Rightarrow> bool \<Rightarrow> 'w recorded \<Rightarrow> bool" where
  "stage p h w s \<longleftrightarrow> owned s \<and> as_has_api s \<and> (as_pcm s \<noteq> None) = p \<and> (as_hw s \<noteq> None) = h \<and> (as_sw s \<noteq> None) = w"

text \<open>What the negotiated parameters must satisfy.\<close>

definition agreed :: "alsa_config \<Rightarrow> alsa_negotiated \<Rightarrow> bool" where
  "agreed c n \<longleftrightarrow> an_sample_rate n = word_of_int (af_rate (ac_format c))
     \<and> an_channels n = word_of_int (af_channels (ac_format c))
     \<and> an_period_frames n \<noteq> 0 \<and> 2 \<le> an_buffer_frames n div an_period_frames n"

definition prepare_post :: "alsa_config \<Rightarrow> status \<times> 'w recorded \<Rightarrow> bool" where
  "prepare_post c x \<longleftrightarrow> as_has_api (snd x)
     \<and> (if st_ok (fst x)
        then owned (snd x) \<and> all_live (snd x) \<and> as_state (snd x) = Alsa_prepared \<and> agreed c (as_negotiated (snd x))
        else closed (snd x))"

lemma post_failed:
  "owned s \<Longrightarrow> as_has_api s \<Longrightarrow> \<not> st_ok st \<Longrightarrow> prepare_post c (st, snd (close_resources (recording lib) s))"
  by (simp add: prepare_post_def close_resources_closed)

lemma stage_owned: "stage p h w s \<Longrightarrow> owned s" and stage_api: "stage p h w s \<Longrightarrow> as_has_api s"
  by (simp_all add: stage_def)

lemma post_call:
  assumes "stage p h w s" "uses_only cl s" "\<And>r s'. stage p h w s' \<Longrightarrow> Q (k r s')"
  shows "Q (case call (recording lib) cl s of (r, s) \<Rightarrow> k r s)"
proof -
  obtain r s' where cl: "call (recording lib) cl s = (r, s')" by (meson surj_pair)
  have "owned s'" "same_device s' s" using call_uses [OF cl _ assms(2)] assms(1) by (auto simp: stage_def)
  then have "stage p h w s'" using assms(1) by (auto simp: stage_def same_device_def)
  then show ?thesis using assms(3) [of s' r] by (simp add: cl)
qed

lemma post_capability_call:
  assumes "stage p h w s" "uses_only cl s" "\<And>r s'. stage p h w s' \<Longrightarrow> prepare_post c (k r s')"
  shows "prepare_post c (capability_call (recording lib) s cl op k)"
  unfolding capability_call_def
  by (rule post_call [OF assms(1,2)]) (simp add: assms(3) post_failed stage_owned stage_api)

lemma uses_only_iff:
  "uses_only c s \<longleftrightarrow> (\<forall>r. handle_step (c, r) (as_pcm s, as_hw s, as_sw s) = Some (as_pcm s, as_hw s, as_sw s))"
  by (simp add: uses_only_def)

lemma agreed_monotonic [simp]: "agreed c (n\<lparr>an_monotonic := b\<rparr>) = agreed c n"
  by (simp add: agreed_def)

lemmas uses = uses_only_iff good_def stage_def

lemma prepare_sw_post:
  assumes lib: "gives_handles lib" and st: "stage True True False s" and ag: "agreed c actual"
  shows "prepare_post c (prepare_sw (recording lib) actual s)"
proof -
  have ow: "owned s" "as_has_api s" "as_pcm s \<noteq> None" "as_hw s \<noteq> None" "as_sw s = None"
    using st by (auto simp: stage_def)
  obtain r s1 where c1: "call (recording lib) (Sw_params_malloc (as_sw s)) s = (r, s1)" by (meson surj_pair)
  let ?s1 = "s1\<lparr>as_sw := ar_handle r\<rparr>"
  have o1: "owned ?s1" "as_has_api ?s1"
    using call_recording [OF c1] call_view [OF c1 ow(1)] ow by (auto simp: owned_def)
  show ?thesis
  proof (cases "ar_result r < 0")
    case True
    then show ?thesis using o1 by (simp add: prepare_sw_def c1 Let_def post_failed)
  next
    case False
    then have "ar_handle r \<noteq> None"
      using lib call_recording [OF c1] by (auto simp: gives_handles_def)
    then have s1: "stage True True True ?s1"
      using call_recording [OF c1] o1 ow by (auto simp: stage_def)
    show ?thesis
      unfolding prepare_sw_def
      apply (simp add: c1 Let_def False)
      apply (rule post_capability_call [OF s1], use s1 in \<open>simp add: uses\<close>)
      apply (rule post_capability_call, assumption, simp add: uses)
      apply (rule post_call, assumption, simp add: uses)
      apply (simp add: post_failed stage_owned stage_api)
      apply (intro impI)
      apply (rule post_capability_call, assumption, simp add: uses)
      apply (rule post_capability_call, assumption, simp add: uses)
      apply (rule post_call, assumption, simp add: uses)
      apply (simp add: post_failed stage_owned stage_api)
      apply (auto simp: prepare_post_def stage_def owned_def all_live_def ag)
      done
  qed
qed

lemma prepare_actual_post:
  assumes lib: "gives_handles lib" and st: "stage True True False s"
  shows "prepare_post c (prepare_actual (recording lib) c f s)"
  unfolding prepare_actual_def
  apply (rule post_capability_call [OF st], use st in \<open>simp add: uses\<close>)
  apply (rule post_capability_call, assumption, simp add: uses)+
  apply (simp add: post_failed stage_owned stage_api)
  apply (auto simp: agreed_def not_less intro!: prepare_sw_post [OF lib])
  done

lemma prepare_hw_post:
  assumes lib: "gives_handles lib" and st: "stage True True False s"
  shows "prepare_post c (prepare_hw (recording lib) c f s)"
  unfolding prepare_hw_def Let_def
  apply (rule post_capability_call [OF st], use st in \<open>simp add: uses\<close>)
  apply (rule post_capability_call, assumption, simp add: uses)+
  apply (simp add: post_failed stage_owned stage_api)
  apply (intro impI)
  apply (rule post_capability_call, assumption, simp add: uses)+
  apply (erule prepare_actual_post [OF lib])
  done

lemma alsa_prepare_post:
  assumes lib: "gives_handles lib" and inv: "alsa_inv s" and cr: "as_state s = Alsa_created"
    and api: "as_has_api s" and fmt: "alsa_format (af_sample (ac_format c)) = Some f"
  shows "prepare_post c (alsa_prepare (recording lib) c s)"
proof -
  have o: "owned s" "as_pcm s = None" "as_hw s = None" "as_sw s = None"
    using inv cr by (simp_all add: alsa_inv_def none_live_def)
  let ?open = "Pcm_open (as_pcm s) (ac_device c) STREAM_CAPTURE [NONBLOCK, NO_AUTO_RESAMPLE, NO_AUTO_CHANNELS, NO_AUTO_FORMAT]"
  obtain r s1 where c1: "call (recording lib) ?open s = (r, s1)" by (meson surj_pair)
  let ?s1 = "s1\<lparr>as_pcm := ar_handle r\<rparr>"
  have o1: "owned ?s1" "as_has_api ?s1" "as_hw ?s1 = None" "as_sw ?s1 = None"
    using call_recording [OF c1] call_view [OF c1 o(1)] o api by (auto simp: owned_def)
  show ?thesis
  proof (cases "ar_result r < 0")
    case True
    then show ?thesis using o1 cr api fmt c1 by (simp add: alsa_prepare_def Let_def post_failed)
  next
    case False
    then have p: "ar_handle r \<noteq> None" using lib call_recording [OF c1] by (auto simp: gives_handles_def)
    obtain r2 s2 where c2: "call (recording lib) (Hw_params_malloc (as_hw ?s1)) ?s1 = (r2, s2)" by (meson surj_pair)
    let ?s2 = "s2\<lparr>as_hw := ar_handle r2\<rparr>"
    have o2: "owned ?s2" "as_has_api ?s2" "as_pcm ?s2 = ar_handle r" "as_sw ?s2 = None"
      using call_recording [OF c2] call_view [OF c2 o1(1)] o1 by (auto simp: owned_def)
    have eq: "alsa_prepare (recording lib) c s =
        (if ar_result r2 < 0
         then (system_failure ''snd_pcm_hw_params_malloc'' (ar_result r2) (recording lib),
               snd (close_resources (recording lib) ?s2))
         else prepare_hw (recording lib) c f ?s2)"
      using False cr api fmt c1 c2 by (simp add: alsa_prepare_def Let_def)
    show ?thesis
    proof (cases "ar_result r2 < 0")
      case True
      then show ?thesis using o2 eq by (simp add: post_failed)
    next
      case False
      then have "ar_handle r2 \<noteq> None" using lib call_recording [OF c2] by (auto simp: gives_handles_def)
      then have "stage True True False ?s2" using o2 p by (simp add: stage_def)
      then show ?thesis using eq False by (simp add: prepare_hw_post [OF lib])
    qed
  qed
qed

subsection \<open>The other operations\<close>

lemma closed_inv: "closed s \<Longrightarrow> alsa_inv s"
  by (simp add: closed_def alsa_inv_def)

lemma prepare_post_inv: "prepare_post c x \<Longrightarrow> alsa_inv (snd x) \<and> as_has_api (snd x)"
  by (cases "st_ok (fst x)") (simp_all add: prepare_post_def alsa_inv_def closed_def)

text \<open>What every operation of a live device keeps: the handles and whether there is a device.\<close>

definition device_kept :: "'w recorded \<Rightarrow> 'w recorded \<Rightarrow> bool" where
  "device_kept s' s \<longleftrightarrow> owned s' \<and> handles_of s' = handles_of s \<and> as_has_api s' = as_has_api s
     \<and> (as_state s' = as_state s \<or> as_state s \<noteq> Alsa_created \<and> as_state s' = Alsa_running)"

lemma kept_refl: "owned s \<Longrightarrow> device_kept s s"
  by (simp add: device_kept_def)

lemma kept_trans: "device_kept s1 s2 \<Longrightarrow> device_kept s2 s3 \<Longrightarrow> device_kept s1 s3"
  by (auto simp: device_kept_def)

lemma kept_inv: "device_kept s' s \<Longrightarrow> alsa_inv s \<Longrightarrow> alsa_inv s'"
  by (auto simp: device_kept_def alsa_inv_def none_live_def all_live_def split: if_split_asm)

lemma kept_pcm: "device_kept s' s \<Longrightarrow> as_pcm s \<noteq> None \<Longrightarrow> owned s' \<and> as_pcm s' \<noteq> None"
  by (auto simp: device_kept_def)

lemma kept_call:
  assumes "call (recording lib) c s = (r, s')" "owned s" "uses_only c s"
  shows "device_kept s' s"
  using call_uses [OF assms] by (simp add: device_kept_def same_device_def)

lemma kept_case:
  assumes "owned s" "uses_only c s" "\<And>r s'. device_kept s' s \<Longrightarrow> device_kept (snd (k r s')) s"
  shows "device_kept (snd (case call (recording lib) c s of (r, s') \<Rightarrow> k r s')) s"
  using kept_call [OF _ assms(1,2)] assms(3) by (auto split: prod.split)

lemma kept_running:
  "device_kept s' s \<Longrightarrow> as_state s \<noteq> Alsa_created \<Longrightarrow> device_kept (s'\<lparr>as_state := Alsa_running\<rparr>) s"
  by (auto simp: device_kept_def owned_def)

lemma kept_fields [simp]:
  "device_kept (s'\<lparr>as_suspended := b\<rparr>) s = device_kept s' s"
  "device_kept (s'\<lparr>as_poll_count := n\<rparr>) s = device_kept s' s"
  by (simp_all add: device_kept_def owned_def)

lemma recover_kept:
  assumes "owned s" "as_pcm s \<noteq> None" "as_state s \<noteq> Alsa_created"
  shows "device_kept (snd (recover_xrun (recording lib) s)) s"
proof -
  obtain r s1 where c1: "call (recording lib) (Pcm_prepare (as_pcm s)) s = (r, s1)" by (meson surj_pair)
  have k1: "device_kept s1 s" by (rule kept_call [OF c1 assms(1)]) (simp add: uses_only_iff good_def assms)
  obtain r2 s2 where c2: "call (recording lib) (Pcm_start (as_pcm s1)) s1 = (r2, s2)" by (meson surj_pair)
  have "owned s1" "as_pcm s1 \<noteq> None" using kept_pcm [OF k1 assms(2)] by simp_all
  then have "device_kept s2 s1" by (intro kept_call [OF c2]) (simp_all add: uses_only_iff good_def)
  then have "device_kept s2 s" using k1 kept_trans by blast
  with k1 kept_running [OF _ assms(3)] show ?thesis by (simp add: recover_xrun_def c1 c2)
qed

lemma alsa_start_inv:
  assumes "alsa_inv s"
  shows "device_kept (snd (alsa_start (recording lib) s)) s"
proof (cases "as_state s = Alsa_running \<or> as_state s \<noteq> Alsa_prepared \<or> as_pcm s = None")
  case True
  then show ?thesis using assms by (auto simp: alsa_start_def alsa_inv_def kept_refl)
next
  case False
  obtain r s1 where c1: "call (recording lib) (Pcm_start (as_pcm s)) s = (r, s1)" by (meson surj_pair)
  have "device_kept s1 s"
    using False assms by (intro kept_call [OF c1]) (auto simp: alsa_inv_def uses_only_iff good_def)
  with kept_running [OF this] show ?thesis using False by (auto simp: alsa_start_def c1)
qed

lemma alsa_stop_inv:
  assumes "alsa_inv s"
  shows "closed (snd (alsa_stop (recording lib) s)) \<or> alsa_stop (recording lib) s = (ok_status, s) \<and> as_state s = Alsa_created"
proof (cases "as_state s = Alsa_created")
  case True
  then show ?thesis by (simp add: alsa_stop_def)
next
  case False
  with assms have s: "owned s" "as_pcm s \<noteq> None" by (auto simp: alsa_inv_def all_live_def)
  obtain r s1 where c1: "call (recording lib) (Pcm_drop (as_pcm s)) s = (r, s1)" by (meson surj_pair)
  have "device_kept s1 s" by (rule kept_call [OF c1 s(1)]) (simp add: uses_only_iff good_def s)
  then have "closed (snd (close_resources (recording lib) s1))"
    by (intro close_resources_closed) (simp add: device_kept_def)
  then show ?thesis
    using False s(2) by (cases "close_resources (recording lib) s1") (auto simp: alsa_stop_def c1)
qed

lemma stop_api [simp]: "as_has_api (snd (alsa_stop lib s)) = as_has_api s"
proof -
  obtain r s1 where c1: "call lib (Pcm_drop (as_pcm s)) s = (r, s1)" by (meson surj_pair)
  then have "as_has_api s1 = as_has_api s" by (auto simp: call_def split: prod.splits)
  then show ?thesis
    using close_resources_api [of lib s1] by (cases "close_resources lib s1") (auto simp: alsa_stop_def c1)
qed

lemma resume_kept:
  assumes "owned s" "as_pcm s \<noteq> None" "as_state s \<noteq> Alsa_created"
  shows "device_kept (snd (resume_suspended (recording lib) s)) s"
proof -
  obtain r s1 where c1: "call (recording lib) (Pcm_resume (as_pcm s)) s = (r, s1)" by (meson surj_pair)
  have k1: "device_kept s1 s" by (rule kept_call [OF c1 assms(1)]) (simp add: uses_only_iff good_def assms)
  have "as_state s1 \<noteq> Alsa_created" using k1 assms(3) by (auto simp: device_kept_def)
  then have "device_kept (snd (recover_xrun (recording lib) s1)) s"
    using recover_kept [of s1 lib] kept_pcm [OF k1 assms(2)] kept_trans [OF _ k1] by blast
  with k1 show ?thesis by (auto simp: resume_suspended_def c1 split: prod.split)
qed

lemma read_attempts_kept:
  "owned s \<Longrightarrow> as_pcm s \<noteq> None \<Longrightarrow> device_kept (snd (read_attempts n r0 (recording lib) d f s)) s"
proof (induction n arbitrary: r0 s)
  case (Suc n)
  obtain r s1 where c1: "call (recording lib) (Pcm_readi (as_pcm s) d f) s = (r, s1)" by (meson surj_pair)
  have k1: "device_kept s1 s" by (rule kept_call [OF c1 Suc.prems(1)]) (simp add: uses_only_iff good_def Suc.prems)
  have "device_kept (snd (read_attempts n r' (recording lib) d f s1)) s" for r'
    using Suc.IH [of s1] kept_pcm [OF k1 Suc.prems(2)] kept_trans [OF _ k1] by blast
  with k1 show ?case by (simp add: c1)
qed (simp add: kept_refl)

lemma read_outcome_kept:
  assumes "owned s" "as_pcm s \<noteq> None" "as_state s \<noteq> Alsa_created"
  shows "device_kept (snd (read_outcome (recording lib) n r s)) s"
  using recover_kept [OF assms, of lib] kept_refl [OF assms(1)]
  by (auto simp: read_outcome_def begin_suspend_recovery_def split: prod.split)

lemma read_kept:
  assumes "alsa_inv s"
  shows "device_kept (snd (read_interleaved (recording lib) d n s)) s"
proof -
  have o: "owned s" using assms by (simp add: alsa_inv_def)
  obtain x s1 where ra: "read_attempts kMaximumReadAttemptsPerTick 0 (recording lib) d (size_of_int n) s = (x, s1)"
    by (meson surj_pair)
  have "device_kept (snd (read_outcome (recording lib) n x s1)) s"
    if "as_pcm s \<noteq> None" "as_state s = Alsa_running"
  proof -
    have k1: "device_kept s1 s" using read_attempts_kept [OF o that(1)] ra by (metis snd_conv)
    then have "as_state s1 \<noteq> Alsa_created" using that(2) by (auto simp: device_kept_def)
    then show ?thesis
      using read_outcome_kept [of s1] kept_pcm [OF k1 that(1)] kept_trans [OF _ k1] by blast
  qed
  then show ?thesis
    using o resume_kept [OF o] by (auto simp: read_interleaved_def ra kept_refl)
qed

lemma anchor_xrun_kept:
  "owned s \<Longrightarrow> as_pcm s \<noteq> None \<Longrightarrow> as_state s \<noteq> Alsa_created \<Longrightarrow>
     device_kept (snd (anchor_xrun (recording lib) s)) s"
  using recover_kept [of s lib] by (auto simp: anchor_xrun_def split: prod.split)

lemma anchor_fallback_kept:
  assumes "owned s" "as_pcm s \<noteq> None" "as_state s \<noteq> Alsa_created"
  shows "device_kept (snd (anchor_fallback (recording lib) now s)) s"
proof -
  obtain r s1 where c1: "call (recording lib) (Pcm_avail_update (as_pcm s)) s = (r, s1)" by (meson surj_pair)
  have k1: "device_kept s1 s" by (rule kept_call [OF c1 assms(1)]) (simp add: uses_only_iff good_def assms)
  have "as_state s1 \<noteq> Alsa_created" using k1 assms(3) by (auto simp: device_kept_def)
  then have "device_kept (snd (anchor_xrun (recording lib) s1)) s"
    using anchor_xrun_kept [of s1 lib] kept_pcm [OF k1 assms(2)] kept_trans [OF _ k1] by blast
  with k1 show ?thesis
    by (auto simp: anchor_fallback_def c1 Let_def begin_suspend_recovery_def split: option.split)
qed

lemma anchor_kept:
  assumes "alsa_inv s"
  shows "device_kept (snd (capture_anchor (recording lib) s)) s"
proof (cases "as_state s \<noteq> Alsa_running \<or> as_pcm s = None \<or> an_sample_rate (as_negotiated s) = 0")
  case True
  then show ?thesis using assms by (auto simp: capture_anchor_def alsa_inv_def kept_refl)
next
  case False
  have o: "owned s" using assms by (simp add: alsa_inv_def)
  obtain r s1 where c1: "call (recording lib) Monotonic_now s = (r, s1)" by (meson surj_pair)
  have k1: "device_kept s1 s" by (rule kept_call [OF c1 o]) (simp add: uses_only_iff good_def)
  have s1: "owned s1" "as_pcm s1 \<noteq> None" "as_state s1 \<noteq> Alsa_created"
    using k1 False by (auto simp: device_kept_def)
  obtain r2 s2 where c2: "call (recording lib) (Pcm_htimestamp (as_pcm s1)) s1 = (r2, s2)" by (meson surj_pair)
  have "device_kept s2 s1" by (rule kept_call [OF c2 s1(1)]) (simp add: uses_only_iff good_def s1)
  then have k2: "device_kept s2 s" using k1 kept_trans by blast
  have s2: "owned s2" "as_pcm s2 \<noteq> None" "as_state s2 \<noteq> Alsa_created"
    using k2 False by (auto simp: device_kept_def)
  have f: "device_kept (snd (anchor_fallback (recording lib) now s1)) s"
    "device_kept (snd (anchor_fallback (recording lib) now s2)) s"
    "device_kept (snd (anchor_xrun (recording lib) s2)) s" for now
    using anchor_fallback_kept [OF s1] kept_trans [OF _ k1] anchor_fallback_kept [OF s2] kept_trans [OF _ k2]
      anchor_xrun_kept [OF s2] by blast+
  from False k1 k2 f show ?thesis
    by (auto simp: capture_anchor_def c1 c2 Let_def begin_suspend_recovery_def split: option.split)
qed

lemma poll_kept:
  assumes "alsa_inv s"
  shows "device_kept (snd (alsa_poll_descriptors alloc (recording lib) s)) s"
proof (cases "as_state s \<noteq> Alsa_running \<or> as_pcm s = None \<or> \<not> as_has_api s")
  case True
  then show ?thesis using assms by (auto simp: alsa_poll_descriptors_def alsa_inv_def kept_refl)
next
  case False
  have o: "owned s" using assms by (simp add: alsa_inv_def)
  obtain r s1 where c1: "call (recording lib) (Pcm_poll_descriptors_count (as_pcm s)) s = (r, s1)" by (meson surj_pair)
  have k1: "device_kept s1 s" using False by (intro kept_call [OF c1 o]) (simp add: uses_only_iff good_def)
  have s1: "owned s1" "as_pcm s1 \<noteq> None" using k1 False by (auto simp: device_kept_def)
  obtain r2 s2 where c2: "call (recording lib) (Pcm_poll_descriptors (as_pcm s1) (word_of_int (ar_result r))) s1 = (r2, s2)"
    by (meson surj_pair)
  have "device_kept s2 s1" by (rule kept_call [OF c2 s1(1)]) (simp add: uses_only_iff good_def s1)
  then have k2: "device_kept s2 s" using k1 kept_trans by blast
  from False k1 k2 show ?thesis
    by (auto simp: alsa_poll_descriptors_def c1 c2 Let_def split: option.split)
qed

lemma events_kept:
  assumes "alsa_inv s"
  shows "device_kept (snd (alsa_evaluate_poll_events (recording lib) fds s)) s"
proof (cases "as_state s \<noteq> Alsa_running \<or> as_pcm s = None \<or> \<not> as_has_api s \<or> as_poll_count s = 0
    \<or> length fds \<noteq> unat (as_poll_count s) \<or> length fds > 2 ^ 32 - 1")
  case True
  then show ?thesis using assms by (auto simp: alsa_evaluate_poll_events_def alsa_inv_def kept_refl)
next
  case False
  have o: "owned s" using assms by (simp add: alsa_inv_def)
  obtain r s1 where c1: "call (recording lib) (Pcm_poll_descriptors_revents (as_pcm s) fds (of_nat (length fds))) s = (r, s1)"
    by (meson surj_pair)
  have k1: "device_kept s1 s" using False by (intro kept_call [OF c1 o]) (simp add: uses_only_iff good_def)
  have guards: "(as_state s \<noteq> Alsa_running \<or> as_pcm s = None \<or> \<not> as_has_api s \<or> as_poll_count s = 0) = False"
    "(length fds \<noteq> unat (as_poll_count s)) = False" "(length fds > 2 ^ 32 - 1) = False"
    using False by simp_all
  show ?thesis
    unfolding alsa_evaluate_poll_events_def guards if_False c1 prod.case using k1 by simp
qed

subsection \<open>Any program over the device\<close>

datatype alsa_op =
    Op_prepare alsa_config | Op_start | Op_stop | Op_read size_t int | Op_anchor
  | Op_poll "exn option" | Op_events "pollfd list"

fun alsa_step :: "'w alsa_lib \<Rightarrow> alsa_op \<Rightarrow> 'w alsa_system \<Rightarrow> 'w alsa_system" where
  "alsa_step lib (Op_prepare c) s = snd (alsa_prepare lib c s)"
| "alsa_step lib Op_start s = snd (alsa_start lib s)"
| "alsa_step lib Op_stop s = snd (alsa_stop lib s)"
| "alsa_step lib (Op_read d n) s = snd (read_interleaved lib d n s)"
| "alsa_step lib Op_anchor s = snd (capture_anchor lib s)"
| "alsa_step lib (Op_poll alloc) s = snd (alsa_poll_descriptors alloc lib s)"
| "alsa_step lib (Op_events fds) s = snd (alsa_evaluate_poll_events lib fds s)"

definition alsa_run :: "'w alsa_lib \<Rightarrow> alsa_op list \<Rightarrow> 'w alsa_system \<Rightarrow> 'w alsa_system" where
  "alsa_run lib ops s = fold (alsa_step lib) ops s"

text \<open>What the library has been asked, by a whole life of the object: construction, the operations,
  destruction.\<close>

definition library_calls :: "'w alsa_lib \<Rightarrow> 'w \<Rightarrow> bool \<Rightarrow> alsa_op list \<Rightarrow> (alsa_call \<times> alsa_reply) list" where
  "library_calls lib w has_api ops =
     snd (as_lib (alsa_destroy (recording lib) (alsa_run (recording lib) ops (alsa_new has_api (w, [])))))"

lemma prepare_inv:
  assumes "gives_handles lib" "alsa_inv s"
  shows "alsa_inv (snd (alsa_prepare (recording lib) c s))"
proof (cases "as_has_api s \<and> as_state s = Alsa_created \<and> alsa_format (af_sample (ac_format c)) \<noteq> None")
  case True
  then show ?thesis using alsa_prepare_post [OF assms] prepare_post_inv by fastforce
next
  case False
  then have "snd (alsa_prepare (recording lib) c s) = s" by (auto simp: alsa_prepare_def)
  then show ?thesis using assms by simp
qed

lemma alsa_stop_inv': "alsa_inv s \<Longrightarrow> alsa_inv (snd (alsa_stop (recording lib) s))"
  using alsa_stop_inv [of s lib] closed_inv by force

lemma alsa_step_inv: "gives_handles lib \<Longrightarrow> alsa_inv s \<Longrightarrow> alsa_inv (alsa_step (recording lib) op s)"
  by (cases op)
     (simp_all add: prepare_inv alsa_stop_inv' kept_inv [OF alsa_start_inv] kept_inv [OF read_kept]
       kept_inv [OF anchor_kept] kept_inv [OF poll_kept] kept_inv [OF events_kept])

lemma alsa_run_inv: "gives_handles lib \<Longrightarrow> alsa_inv s \<Longrightarrow> alsa_inv (alsa_run (recording lib) ops s)"
  unfolding alsa_run_def by (induction ops arbitrary: s) (simp_all add: alsa_step_inv)

lemma alsa_new_inv: "alsa_inv (alsa_new b (w, []))"
  by (simp add: alsa_inv_def alsa_new_def owned_def none_live_def)

text \<open>C24: the handles of libasound. Let a program do anything at all with an \<open>AlsaSystem\<close>, in any
  order, over any library, and then destroy it. Then the library has never been handed a handle that
  is null, stale or another one than the open one, never two handles of a kind at a time, the device
  has been closed only after its parameters were freed, and in the end every handle it gave out has
  been given back exactly once. This holds on every error path, however the library answers.\<close>

theorem alsa_handles_disciplined:
  assumes "gives_handles lib"
  shows "handles_after (library_calls lib w has_api ops) (None, None, None) = Some (None, None, None)"
proof -
  have "owned (alsa_run (recording lib) ops (alsa_new has_api (w, [])))"
    using alsa_run_inv [OF assms alsa_new_inv] by (simp add: alsa_inv_def)
  from close_resources_closed [OF this, of lib] show ?thesis
    by (simp add: library_calls_def alsa_destroy_def closed_def owned_def none_live_def)
qed

text \<open>A library in which everything succeeds: handles are numbered by the calls, the device has
  periods of 256 frames, four to a buffer, and each read is served in full.\<close>

definition tame_lib :: "nat alsa_lib" where
  "tame_lib =
     \<lparr>al_call = (\<lambda>c w.
        (\<lparr>ar_result = (case c of Pcm_readi _ _ n \<Rightarrow> uint n | Pcm_poll_descriptors_count _ \<Rightarrow> 1
                        | Pcm_poll_descriptors _ n \<Rightarrow> uint n | _ \<Rightarrow> 0),
           ar_handle = Some w,
           ar_frames = (case c of Hw_params_get_buffer_size _ \<Rightarrow> 1024 | _ \<Rightarrow> 256),
           ar_value = (case c of Hw_params_get_channels _ \<Rightarrow> 2 | _ \<Rightarrow> 48000),
           ar_access = ACCESS_RW_INTERLEAVED, ar_format = FORMAT_S16_LE,
           ar_time = \<lparr>tv_sec = 5, tv_nsec = int w * 1000000\<rparr>, ar_fds = [zero_pollfd], ar_revents = 1\<rparr>,
         w + 1)),
      al_error_string = (\<lambda>_. ''error'')\<rparr>"

definition stereo_config :: alsa_config where
  "stereo_config =
     \<lparr>ac_device = ''hw:0'',
      ac_format = \<lparr>af_sample = kSigned16LittleEndian, af_rate = 48000, af_channel_layout = kStereo,
        af_sample_layout = kInterleaved, af_domain = kCpu, af_channels = 2, af_bytes_per_sample = 2,
        af_bytes_per_pcm_frame = 4\<rparr>,
      ac_samples_per_frame = 480, ac_period_size_hint = 256, ac_buffer_periods = 4\<rparr>"

lemma tame_gives_handles: "gives_handles tame_lib"
  by (simp add: gives_handles_def tame_lib_def)

lemma tame_calls:
  "length (library_calls tame_lib 0 True [Op_prepare stereo_config, Op_start, Op_anchor, Op_read 4096 480]) = 30"
  by code_simp

theorem alsa_handles_disciplined_witness:
  "handles_after (library_calls tame_lib 0 True [Op_prepare stereo_config, Op_start, Op_anchor, Op_read 4096 480])
     (None, None, None) = Some (None, None, None)"
  using alsa_handles_disciplined [OF tame_gives_handles] .

lemma prepare_api: "as_has_api s \<Longrightarrow> gives_handles lib \<Longrightarrow> alsa_inv s \<Longrightarrow>
    as_has_api (snd (alsa_prepare (recording lib) c s))"
proof (cases "as_state s = Alsa_created \<and> alsa_format (af_sample (ac_format c)) \<noteq> None")
  case True
  assume "as_has_api s" "gives_handles lib" "alsa_inv s"
  then show ?thesis using True alsa_prepare_post prepare_post_inv by fastforce
next
  case False
  assume "as_has_api s"
  with False have "snd (alsa_prepare (recording lib) c s) = s" by (auto simp: alsa_prepare_def)
  then show ?thesis using \<open>as_has_api s\<close> by simp
qed

lemma kept_api: "device_kept s' s \<Longrightarrow> as_has_api s' = as_has_api s"
  by (simp add: device_kept_def)

lemma alsa_step_api:
  "as_has_api s \<Longrightarrow> gives_handles lib \<Longrightarrow> alsa_inv s \<Longrightarrow> as_has_api (alsa_step (recording lib) op s)"
  by (cases op)
     (simp_all add: prepare_api kept_api [OF alsa_start_inv] kept_api [OF read_kept]
       kept_api [OF anchor_kept] kept_api [OF poll_kept] kept_api [OF events_kept])

lemma alsa_run_api:
  "gives_handles lib \<Longrightarrow> alsa_inv s \<Longrightarrow> as_has_api s \<Longrightarrow> as_has_api (alsa_run (recording lib) ops s)"
  unfolding alsa_run_def by (induction ops arbitrary: s) (simp_all add: alsa_step_inv alsa_step_api)



subsection \<open>Reads and anchors are in range\<close>

lemma frames_to_us_exact:
  "frames_to_us f r = (if r \<noteq> 0 \<and> uint f \<le> int64_max \<and> uint f * 1000000 div uint r \<le> int64_max
     then Some (uint f * 1000000 div uint r) else None)"
proof (cases "r \<noteq> 0 \<and> uint f \<le> int64_max")
  case True
  then have r: "0 < uint r" using uint_0_iff [of r] by (simp add: less_le)
  have r32: "uint r \<le> 2 ^ 32" using uint_lt2p [of r] by simp
  have "\<not> f > word_of_int int64_max"
    using True by (simp add: word_less_def uint_word_of_int int64_max_def)
  then show ?thesis using True r r32 scale_exact [of "uint f" "uint r"] by (simp add: frames_to_us_def)
next
  case False
  then show ?thesis by (auto simp: frames_to_us_def word_less_def uint_word_of_int int64_max_def)
qed

lemma timespec_to_us_Some:
  "timespec_to_us v = Some t \<longleftrightarrow> 0 \<le> tv_sec v \<and> 0 \<le> tv_nsec v \<and> tv_nsec v < 1000000000
     \<and> t = tv_sec v * 1000000 + tv_nsec v div 1000 \<and> t \<le> int64_max"
  by (auto simp: timespec_to_us_def Let_def kMicrosecondsPerSecond_def int64_max_def)

lemma first_unread_pts_Some:
  "first_unread_pts t f r = Some a \<longleftrightarrow> r \<noteq> 0 \<and> uint f \<le> int64_max
     \<and> a = t - uint f * 1000000 div uint r \<and> 0 \<le> a \<and> uint f * 1000000 div uint r \<le> int64_max"
  by (auto simp: first_unread_pts_def frames_to_us_exact split: if_splits)

text \<open>The anchor of the timeline. When \<open>capture_anchor\<close> returns one, it is the time stamp less the
  duration of the frames still unread, exact to the microsecond (rounded as the integer division
  does) and not negative: with \<open>used_fallback\<close> the stamp is the monotonic clock, otherwise the
  device's own stamp, which lies at most one second in the future.\<close>

theorem capture_anchor_exact:
  assumes "capture_anchor lib s = (Inr (Anchor pts fallback), s')"
  shows "\<exists>now stamp available.
      timespec_to_us (ar_time (fst (call lib Monotonic_now s))) = Some now
    \<and> 0 \<le> available \<and> 0 \<le> pts \<and> pts = stamp - available * 1000000 div uint (an_sample_rate (as_negotiated s))
    \<and> stamp \<le> now + 1000000 \<and> (fallback \<longrightarrow> stamp = now)"
proof -
  obtain r s1 where c1: "call lib Monotonic_now s = (r, s1)" by (meson surj_pair)
  have n1: "as_negotiated s1 = as_negotiated s" using c1 by (auto simp: call_def split: prod.splits)
  have fb: "\<exists>now stamp available. now_us = Some now \<and> 0 \<le> available \<and> 0 \<le> pts
      \<and> pts = stamp - available * 1000000 div uint (an_sample_rate (as_negotiated t)) \<and> stamp \<le> now + 1000000
      \<and> (fallback \<longrightarrow> stamp = now)"
    if h: "anchor_fallback lib now_us t = (Inr (Anchor pts fallback), s')" for now_us and t :: "'a alsa_system"
  proof -
    obtain q t' where c: "call lib (Pcm_avail_update (as_pcm t)) t = (q, t')" by (meson surj_pair)
    have "as_negotiated t' = as_negotiated t" using c by (auto simp: call_def split: prod.splits)
    then obtain now where "now_us = Some now"
      "first_unread_pts now (word_of_int (ar_result q)) (an_sample_rate (as_negotiated t)) = Some pts"
      using h by (auto simp: anchor_fallback_def c Let_def anchor_xrun_def split: if_split_asm option.split_asm prod.split_asm)
    then show ?thesis
      by (intro exI [of _ now] exI [of _ "uint (word_of_int (ar_result q) :: 64 word)"]) (auto simp: first_unread_pts_Some)
  qed
  show ?thesis
  proof (cases "an_monotonic (as_negotiated s)")
    case False
    then have "anchor_fallback lib (timespec_to_us (ar_time r)) s1 = (Inr (Anchor pts fallback), s')"
      using assms n1 by (auto simp: capture_anchor_def c1 Let_def split: if_split_asm)
    from fb [OF this] show ?thesis by (simp add: c1 n1)
  next
    case True
    obtain q s2 where c2: "call lib (Pcm_htimestamp (as_pcm s1)) s1 = (q, s2)" by (meson surj_pair)
    have n2: "as_negotiated s2 = as_negotiated s" using c2 n1 by (auto simp: call_def split: prod.splits)
    consider (device) "device_anchor (timespec_to_us (ar_time r)) (ar_time q) (ar_frames q)
          (an_sample_rate (as_negotiated s)) = Some pts" "\<not> fallback"
      | (fallback_used) "anchor_fallback lib (timespec_to_us (ar_time r)) s2 = (Inr (Anchor pts fallback), s')"
      using assms True n1 n2
      by (auto simp: capture_anchor_def c1 c2 Let_def anchor_xrun_def split: if_split_asm option.split_asm prod.split_asm)
    then show ?thesis
    proof cases
      case device
      then obtain now ts where "timespec_to_us (ar_time r) = Some now"
        "first_unread_pts ts (ar_frames q) (an_sample_rate (as_negotiated s)) = Some pts" "ts \<le> now + 1000000"
        by (auto simp: device_anchor_def kMaximumFutureTimestampUs_def split: option.split_asm if_split_asm)
      with device(2) show ?thesis
        by (intro exI [of _ now] exI [of _ ts] exI [of _ "uint (ar_frames q)"]) (simp add: c1 first_unread_pts_Some)
    next
      case fallback_used
      from fb [OF fallback_used] show ?thesis by (simp add: c1 n2)
    qed
  qed
qed

definition tame_running :: "nat recorded" where
  "tame_running = alsa_run (recording tame_lib) [Op_prepare stereo_config, Op_start] (alsa_new True (0, []))"

lemma tame_anchor: "fst (capture_anchor (recording tame_lib) tame_running) = Inr (Anchor 5019667 False)"
  by code_simp

lemma tame_rate: "uint (an_sample_rate (as_negotiated tame_running)) = 48000"
  by code_simp

theorem capture_anchor_exact_witness:
  "\<exists>now stamp available.
      timespec_to_us (ar_time (fst (call (recording tame_lib) Monotonic_now tame_running))) = Some now
    \<and> 0 \<le> available \<and> 5019667 = stamp - available * 1000000 div 48000 \<and> stamp \<le> now + 1000000"
proof -
  obtain x s' where c: "capture_anchor (recording tame_lib) tame_running = (x, s')" by (meson surj_pair)
  then have "capture_anchor (recording tame_lib) tame_running = (Inr (Anchor 5019667 False), s')"
    using tame_anchor by simp
  from capture_anchor_exact [OF this] show ?thesis unfolding tame_rate by blast
qed

text \<open>What a read may report, for its client.\<close>

lemma read_result_range:
  assumes "read_interleaved lib d n s = (Inr r, s')"
  shows "0 \<le> rr_frames_read r" "rr_frames_read r \<le> n"
    "rr_would_block r \<longleftrightarrow> rr_frames_read r = 0" "rr_discontinuity r \<Longrightarrow> rr_would_block r"
  using assms
  by (auto simp: read_interleaved_def resume_suspended_def read_outcome_def would_block_read_def Let_def
      split: if_split_asm prod.split_asm)

end
