(* ===== verification/Alsa_Stream.thy ===== *)
theory Alsa_Stream
  imports Alsa_Capture Alsa_Contract
begin

text \<open>
  The frames the capture node produces: every frame has the configured number of samples and the
  time stamp of its first sample, computed from the anchor of its timeline, so that rounding errors
  do not add up. The node is run together with the consumer at the other end of its output queue.

  \<open>capture_contract\<close> is what the node needs of the device; \<open>AlsaSystem\<close> provides it.
\<close>

subsection \<open>Timelines\<close>

text \<open>The stamp of frame number \<open>j\<close> of a timeline that starts at \<open>a\<close>, with \<open>S\<close> samples to a frame and
  \<open>R\<close> samples to a second.\<close>

definition stamp :: "int \<Rightarrow> int \<Rightarrow> int \<Rightarrow> int \<Rightarrow> int" where
  "stamp S R a j = a + j * S * 1000000 div R"

text \<open>\<open>timeline S R fs l\<close>: the frames \<open>fs\<close> are a sequence of timelines, each but the first begun by a
  frame that is flagged as a discontinuity; \<open>l\<close> is the anchor and the number of the last frame.\<close>

inductive timeline :: "int \<Rightarrow> int \<Rightarrow> audio_frame list \<Rightarrow> (int \<times> int) option \<Rightarrow> bool" for S R where
  none: "timeline S R [] None"
| begins: "timeline S R fs l \<Longrightarrow> fs = [] \<or> afr_discontinuity f \<Longrightarrow> 0 \<le> a \<Longrightarrow> afr_samples f = S \<Longrightarrow>
    afr_pts f = stamp S R a 0 \<Longrightarrow> timeline S R (fs @ [f]) (Some (a, 0))"
| goes_on: "timeline S R fs (Some (a, j)) \<Longrightarrow> \<not> afr_discontinuity f \<Longrightarrow> afr_samples f = S \<Longrightarrow>
    afr_pts f = stamp S R a (j + 1) \<Longrightarrow> timeline S R (fs @ [f]) (Some (a, j + 1))"

inductive_cases timeline_snoc: "timeline S R (fs @ [f]) l"
inductive_cases timeline_Nil: "timeline S R [] l"

lemma timeline_prefix: "timeline S R (fs @ [f]) l \<Longrightarrow> \<exists>l'. timeline S R fs l'"
  by (erule timeline_snoc) auto

lemma timeline_number: "timeline S R fs (Some (a, j)) \<Longrightarrow> 0 \<le> a \<and> 0 \<le> j"
  by (induction fs "Some (a, j)" arbitrary: a j rule: timeline.induct) auto

lemma timeline_frame: "timeline S R fs l \<Longrightarrow> f \<in> set fs \<Longrightarrow> afr_samples f = S"
  by (induction rule: timeline.induct) auto

lemma timeline_last: "timeline S R fs (Some (a, j)) \<Longrightarrow> fs \<noteq> [] \<and> afr_pts (last fs) = stamp S R a j"
  by (cases rule: timeline.cases) auto

text \<open>Between frames of one timeline: the number of samples determines the time, up to the rounding
  of the two stamps.\<close>

lemma floor_difference:
  fixes c :: int
  assumes "0 < R"
  shows "\<bar>((m + d) * c div R - m * c div R) * R - d * c\<bar> < R"
proof -
  have "(m + d) * c div R * R = (m + d) * c - (m + d) * c mod R" "m * c div R * R = m * c - m * c mod R"
    by (simp_all add: minus_mod_eq_div_mult)
  then have "((m + d) * c div R - m * c div R) * R - d * c = m * c mod R - (m + d) * c mod R"
    by (simp add: algebra_simps)
  moreover have "0 \<le> m * c mod R" "m * c mod R < R" "0 \<le> (m + d) * c mod R" "(m + d) * c mod R < R"
    using assms by simp_all
  ultimately show ?thesis by linarith
qed

text \<open>Seen from the last frame: the frames back to the start of its timeline.\<close>

lemma timeline_back:
  "timeline S R fs l \<Longrightarrow> fs \<noteq> [] \<Longrightarrow> i < length fs \<Longrightarrow> \<forall>m. i < m \<longrightarrow> m < length fs \<longrightarrow> \<not> afr_discontinuity (fs ! m)
     \<Longrightarrow> \<exists>a j. l = Some (a, j) \<and> afr_pts (fs ! i) = stamp S R a (j - int (length fs - 1 - i))"
proof (induction rule: timeline.induct)
  case (begins fs l f a)
  have "i = length fs"
  proof (rule ccontr)
    assume "i \<noteq> length fs"
    then have "i < length fs" using begins.prems(2) by simp
    then have "\<not> afr_discontinuity f" "fs \<noteq> []" using begins.prems(3) by auto
    then show False using begins.hyps(2) by simp
  qed
  then show ?case using begins.hyps by simp
next
  case (goes_on fs a j f)
  show ?case
  proof (cases "i = length fs")
    case True
    then show ?thesis using goes_on.hyps by simp
  next
    case False
    then have i: "i < length fs" using goes_on.prems(2) by simp
    have "\<forall>m. i < m \<longrightarrow> m < length fs \<longrightarrow> \<not> afr_discontinuity (fs ! m)"
      using goes_on.prems(3) by (metis length_append_singleton less_Suc_eq nth_append)
    then have "afr_pts (fs ! i) = stamp S R a (j - int (length fs - 1 - i))"
      using goes_on.IH i by force
    then show ?thesis using i by (simp add: nth_append of_nat_diff algebra_simps)
  qed
qed simp

lemma timeline_take: "timeline S R fs l \<Longrightarrow> \<exists>l'. timeline S R (take k fs) l'"
proof (induction rule: timeline.induct)
  case none
  show ?case by (auto intro: timeline.none)
next
  case (begins fs l f a)
  then have "timeline S R (fs @ [f]) (Some (a, 0))" by (auto intro: timeline.begins)
  with begins.IH show ?case by (cases "k \<le> length fs") auto
next
  case (goes_on fs a j f)
  then have "timeline S R (fs @ [f]) (Some (a, j + 1))" by (auto intro: timeline.goes_on)
  with goes_on.IH show ?case by (cases "k \<le> length fs") auto
qed

definition no_drift :: "int \<Rightarrow> int \<Rightarrow> audio_frame list \<Rightarrow> bool" where
  "no_drift S R fs \<longleftrightarrow>
     (\<forall>i k. i \<le> k \<longrightarrow> k < length fs \<longrightarrow> (\<forall>m. i < m \<longrightarrow> m \<le> k \<longrightarrow> \<not> afr_discontinuity (fs ! m)) \<longrightarrow>
        \<bar>(afr_pts (fs ! k) - afr_pts (fs ! i)) * R - int (k - i) * S * 1000000\<bar> < R)"

lemma timeline_no_drift:
  assumes "timeline S R fs l" "0 < R"
  shows "no_drift S R fs"
  unfolding no_drift_def
proof (intro allI impI)
  fix i k
  assume ik: "i \<le> k" "k < length fs" "\<forall>m. i < m \<longrightarrow> m \<le> k \<longrightarrow> \<not> afr_discontinuity (fs ! m)"
  let ?g = "take (Suc k) fs"
  obtain l' where t: "timeline S R ?g l'" using timeline_take [OF assms(1)] by blast
  have len: "length ?g = Suc k" using ik by simp
  obtain a j where "l' = Some (a, j)" "afr_pts (?g ! i) = stamp S R a (j - int (k - i))"
    using timeline_back [OF t, of i] ik len by fastforce
  moreover have "?g \<noteq> []" using len by auto
  ultimately have "afr_pts (fs ! i) = stamp S R a (j - int (k - i))" "afr_pts (fs ! k) = stamp S R a j"
    using timeline_last [of S R ?g a j] t ik len by (auto simp: last_conv_nth)
  then have "afr_pts (fs ! k) - afr_pts (fs ! i)
      = ((j - int (k - i)) + int (k - i)) * (S * 1000000) div R - (j - int (k - i)) * (S * 1000000) div R"
    by (simp add: stamp_def mult.assoc)
  then show "\<bar>(afr_pts (fs ! k) - afr_pts (fs ! i)) * R - int (k - i) * S * 1000000\<bar> < R"
    using floor_difference [OF assms(2), of "j - int (k - i)" "int (k - i)" "S * 1000000"] by (simp add: mult.assoc)
qed

subsection \<open>The node and its consumer\<close>

datatype capture_event = Tick throws | Take

text \<open>The frames the consumer has taken so far, and the node.\<close>

fun capture_event_step ::
  "(nat \<Rightarrow> size_t) \<Rightarrow> 'd capture_device \<Rightarrow> 'o alsa_observer \<Rightarrow> input_port \<Rightarrow> capture_event \<Rightarrow>
     audio_frame list \<times> ('d, 'o) alsa_node \<Rightarrow> audio_frame list \<times> ('d, 'o) alsa_node" where
  "capture_event_step base dev ob inp (Tick h) (taken, n) =
     (taken, snd (alsa_on_tick base dev ob (n\<lparr>ad_throws := h\<rparr>)))"
| "capture_event_step base dev ob inp Take (taken, n) =
     (case port_receive inp (ad_queues n) of
        (Inl _, qs) \<Rightarrow> (taken, n\<lparr>ad_queues := qs\<rparr>)
      | (Inr f, qs) \<Rightarrow> (taken @ [f], n\<lparr>ad_queues := qs\<rparr>))"

definition capture_run ::
  "(nat \<Rightarrow> size_t) \<Rightarrow> 'd capture_device \<Rightarrow> 'o alsa_observer \<Rightarrow> input_port \<Rightarrow> capture_event list \<Rightarrow>
     ('d, 'o) alsa_node \<Rightarrow> audio_frame list \<times> ('d, 'o) alsa_node" where
  "capture_run base dev ob inp es n = fold (capture_event_step base dev ob inp) es ([], n)"

text \<open>Everything produced: taken, queued, and finished but not yet accepted by the queue.\<close>

definition produced :: "input_port \<Rightarrow> audio_frame list \<times> ('d, 'o) alsa_node \<Rightarrow> audio_frame list" where
  "produced inp x =
     fst x @ q_values (ad_queues (snd x) ! the (ip_queue inp)) @ opt_list (ad_pending (snd x))"

text \<open>The node after \<open>on_start\<close>, its output connected to one consumer with a blocking queue.\<close>

definition joined :: "input_port \<Rightarrow> ('d, 'o) alsa_node \<Rightarrow> bool" where
  "joined inp n \<longleftrightarrow> (\<exists>i. ip_queue inp = Some i \<and> op_connections (ad_output n) = [i] \<and> i < length (ad_queues n)
     \<and> q_policy (ad_queues n ! i) = kBlock)"

definition fresh_capture :: "input_port \<Rightarrow> ('d, 'o) alsa_node \<Rightarrow> bool" where
  "fresh_capture inp n \<longleftrightarrow> joined inp n \<and> q_values (ad_queues n ! the (ip_queue inp)) = []
     \<and> ad_pending n = None \<and> ad_partial_samples n = 0 \<and> ad_emitted n = 0 \<and> \<not> ad_has_anchor n
     \<and> \<not> ad_discontinuity n"

lemma discard_is_fresh:
  "joined inp n \<Longrightarrow> q_values (ad_queues n ! the (ip_queue inp)) = [] \<Longrightarrow> fresh_capture inp (discard_capture_data n)"
  by (simp add: fresh_capture_def discard_capture_data_def joined_def)

text \<open>What \<open>AlsaCaptureConfig::create\<close> guarantees of the numbers.\<close>

definition usable_config :: "alsa_config \<Rightarrow> bool" where
  "usable_config c \<longleftrightarrow> 0 < ac_samples_per_frame c \<and> is_int32 (ac_samples_per_frame c)
     \<and> 0 < af_rate (ac_format c) \<and> is_int32 (af_rate (ac_format c))"

definition timeline_state :: "audio_frame list \<Rightarrow> ('d, 'o) alsa_node \<Rightarrow> bool" where
  "timeline_state fs n \<longleftrightarrow>
     (let S = ac_samples_per_frame (ad_config n); R = af_rate (ac_format (ad_config n))
      in case ad_pending n of
           Some f \<Rightarrow> \<exists>j. timeline S R (fs @ [f]) (Some (ad_anchor n, j)) \<and> ad_emitted n = j * S
             \<and> ad_has_anchor n \<and> \<not> ad_discontinuity n
         | None \<Rightarrow> (\<exists>l. timeline S R fs l
             \<and> (fs \<noteq> [] \<and> \<not> ad_discontinuity n \<longrightarrow> ad_has_anchor n \<and> (\<exists>j. l = Some (ad_anchor n, j) \<and> ad_emitted n = (j + 1) * S)))
             \<and> (fs = [] \<or> ad_discontinuity n \<longrightarrow> ad_emitted n = 0)
             \<and> (ad_has_anchor n \<longrightarrow> 0 \<le> ad_anchor n))"

definition flowing :: "alsa_config \<Rightarrow> input_port \<Rightarrow> audio_frame list \<Rightarrow> ('d, 'o) alsa_node \<Rightarrow> bool" where
  "flowing c inp taken n \<longleftrightarrow> ad_config n = c \<and> usable_config c \<and> joined inp n
     \<and> timeline_state (taken @ q_values (ad_queues n ! the (ip_queue inp))) n"

lemma timeline_state_cong:
  "ad_config n' = ad_config n \<Longrightarrow> ad_pending n' = ad_pending n \<Longrightarrow> ad_anchor n' = ad_anchor n \<Longrightarrow>
   ad_emitted n' = ad_emitted n \<Longrightarrow> ad_has_anchor n' = ad_has_anchor n \<Longrightarrow>
   ad_discontinuity n' = ad_discontinuity n \<Longrightarrow> timeline_state fs n' = timeline_state fs n"
  by (simp add: timeline_state_def Let_def split: option.split)

lemma flowing_fields [simp]:
  "flowing c inp taken (n\<lparr>ad_observer := x\<rparr>) = flowing c inp taken n"
  "flowing c inp taken (n\<lparr>ad_device := d\<rparr>) = flowing c inp taken n"
  "flowing c inp taken (n\<lparr>ad_throws := h\<rparr>) = flowing c inp taken n"
  "flowing c inp taken (n\<lparr>ad_partial := b\<rparr>) = flowing c inp taken n"
  "flowing c inp taken (n\<lparr>ad_partial_samples := k\<rparr>) = flowing c inp taken n"
  "flowing c inp taken (n\<lparr>ad_fallbacks := f\<rparr>) = flowing c inp taken n"
  "flowing c inp taken (n\<lparr>ad_next_storage := i\<rparr>) = flowing c inp taken n"
  by (simp_all add: flowing_def joined_def timeline_state_def Let_def split: option.split)

lemma flowing_observe [simp]: "flowing c inp taken (snd (observe f n)) = flowing c inp taken n"
  by (simp add: observe_def split: prod.split)

lemma flowing_fatal [simp]: "flowing c inp taken (snd (report_media_failure ob s n)) = flowing c inp taken n"
  by (simp add: report_media_failure_def)

lemma flowing_would_block [simp]: "flowing c inp taken (snd (report_would_block ob s n)) = flowing c inp taken n"
proof -
  obtain r n' where "observe (ob_would_block ob) n = (r, n')" by (meson surj_pair)
  then show ?thesis using flowing_observe [of c inp taken "ob_would_block ob" n] by (simp add: report_would_block_def)
qed

text \<open>An observer touches nothing of the stream, so what holds before it holds after it.\<close>

lemma observe_then_keeps:
  assumes "P n" "\<And>n x. P n \<Longrightarrow> P (n\<lparr>ad_observer := x\<rparr>)" "\<And>n. P n \<Longrightarrow> Q n" "\<And>n. P n \<Longrightarrow> Q (snd (k n))"
  shows "Q (snd (observe_then f k n))"
proof -
  obtain s n' where o: "observe f n = (s, n')" by (meson surj_pair)
  then have "P n'" using assms(1,2) by (auto simp: observe_def split: prod.splits)
  then show ?thesis using assms(3,4) by (simp add: observe_then_def o)
qed

lemma flowing_observe_then:
  "flowing c inp taken n \<Longrightarrow> (\<And>n. flowing c inp taken n \<Longrightarrow> flowing c inp taken (snd (k n))) \<Longrightarrow>
     flowing c inp taken (snd (observe_then f k n))"
  by (rule observe_then_keeps [where P = "flowing c inp taken"]) simp_all

lemma send_one:
  assumes "op_connections out = [i]" "i < length qs" "q_policy (qs ! i) = kBlock"
  shows "(if st_ok (fst (port_send (Some f) out qs))
      then snd (port_send (Some f) out qs) = qs[i := (qs ! i)\<lparr>q_values := q_values (qs ! i) @ [f]\<rparr>]
      else snd (port_send (Some f) out qs) = qs)"
  using assms by (simp add: port_send_def bqueue_push_def preflight_push_def Let_def split: prod.split)

lemma deliver_flowing:
  assumes "flowing c inp taken n" "ad_pending n = Some f"
  shows "flowing c inp taken (snd (deliver_pending ob f n))"
proof (cases "advanced_emitted_samples n")
  case (Inl s)
  then show ?thesis using assms by (simp add: deliver_pending_def)
next
  case (Inr nxt)
  obtain i where i: "ip_queue inp = Some i" "op_connections (ad_output n) = [i]" "i < length (ad_queues n)"
      "q_policy (ad_queues n ! i) = kBlock"
    using assms(1) by (auto simp: flowing_def joined_def)
  obtain st qs where p: "port_send (Some f) (ad_output n) (ad_queues n) = (st, qs)" by (meson surj_pair)
  note one = send_one [OF i(2-4), of f, unfolded p fst_conv snd_conv]
  show ?thesis
  proof (cases "st_ok st")
    case True
    have nx: "nxt = ad_emitted n + ac_samples_per_frame (ad_config n)"
      using Inr by (auto simp: advanced_emitted_samples_def split: if_split_asm)
    have "flowing c inp taken (n\<lparr>ad_queues := qs, ad_pending := None, ad_emitted := nxt\<rparr>)"
      using assms one True i nx
      by (auto simp: flowing_def joined_def timeline_state_def Let_def algebra_simps dest: timeline_number intro: exI)
    then show ?thesis using True Inr by (simp add: deliver_pending_def p Let_def)
  next
    case False
    then have "n\<lparr>ad_queues := qs\<rparr> = n" using one by simp
    then show ?thesis using False Inr assms by (simp add: deliver_pending_def p Let_def)
  qed
qed

lemma reset_flowing:
  assumes "flowing c inp taken n" "ad_pending n = None"
  shows "flowing c inp taken (reset_timeline_after_discontinuity n)"
  using assms by (auto simp: flowing_def joined_def timeline_state_def Let_def reset_timeline_after_discontinuity_def)

lemma discontinuity_flowing:
  assumes "flowing c inp taken n" "ad_pending n = None"
  shows "flowing c inp taken (snd (handle_timeline_discontinuity ob xrun n))"
  unfolding handle_timeline_discontinuity_def
  by (rule flowing_observe_then [OF reset_flowing [OF assms]]) (auto intro: flowing_observe_then)

lemma frame_pts_exact:
  assumes "frame_pts n = Inr p" "usable_config (ad_config n)" "0 \<le> ad_emitted n"
  shows "ad_has_anchor n \<and> p = ad_anchor n + ad_emitted n * 1000000 div af_rate (ac_format (ad_config n))"
proof -
  let ?R = "af_rate (ac_format (ad_config n))"
  have R: "0 < ?R" "?R \<le> 2 ^ 32" using assms(2) by (auto simp: usable_config_def is_int32_def)
  show ?thesis
    using assms(1) R scale_exact [OF assms(3) R]
    by (auto simp: frame_pts_def samples_to_us_def split: if_split_asm option.split_asm)
qed

lemma emitted_nonneg: "flowing c inp taken n \<Longrightarrow> 0 \<le> ad_emitted n"
proof -
  assume f: "flowing c inp taken n"
  have S: "0 \<le> ac_samples_per_frame (ad_config n)" using f by (auto simp: flowing_def usable_config_def)
  show ?thesis
  proof (cases "ad_pending n")
    case None
    then show ?thesis
      using f S
      by (cases "taken @ q_values (ad_queues n ! the (ip_queue inp)) = [] \<or> ad_discontinuity n")
         (auto simp: flowing_def timeline_state_def Let_def dest: timeline_number)
  next
    case (Some x)
    then show ?thesis using f S by (auto simp: flowing_def timeline_state_def Let_def dest: timeline_number)
  qed
qed

lemma audio_frame_created:
  "audio_frame_create h b f samples pts tb d = Inr fr \<Longrightarrow>
     fr = \<lparr>afr_buffer = b, afr_format = f, afr_samples = samples, afr_pts = pts, afr_time_base = tb, afr_discontinuity = d\<rparr>
     \<and> pl_size (bf_planes b ! 0) = size_of_int samples * af_bytes_per_pcm_frame f"
  by (auto simp: audio_frame_create_def Let_def plane_layout_at_def plane_count_def
      split: if_split_asm sum.split_asm)

lemma complete_flowing:
  assumes "flowing c inp taken n" "ad_pending n = None"
  shows "flowing c inp taken (snd (complete_frame ob fallback n))"
proof (cases "frame_pts n")
  case (Inl s)
  then show ?thesis using assms by (simp add: complete_frame_def)
next
  case (Inr pts)
  let ?S = "ac_samples_per_frame (ad_config n)" and ?R = "af_rate (ac_format (ad_config n))"
  let ?fs = "taken @ q_values (ad_queues n ! the (ip_queue inp))"
  have u: "usable_config (ad_config n)" using assms(1) by (auto simp: flowing_def)
  have pts: "ad_has_anchor n" "pts = ad_anchor n + ad_emitted n * 1000000 div ?R"
    using frame_pts_exact [OF Inr u emitted_nonneg [OF assms(1)]] by simp_all
  show ?thesis
  proof (cases "audio_frame_create (ad_throws n) (the (ad_partial n)) (ac_format (ad_config n)) ?S pts
      microsecond_base (ad_discontinuity n)")
    case (Inl s)
    then show ?thesis using Inr assms by (simp add: complete_frame_def)
  next
    case (Inr f)
    note fr = audio_frame_created [OF Inr]
    let ?n = "n\<lparr>ad_pending := Some f, ad_partial := None, ad_partial_samples := 0, ad_discontinuity := False\<rparr>"
    have ts: "timeline_state ?fs n" using assms(1) by (simp add: flowing_def)
    have "\<exists>j. timeline ?S ?R (?fs @ [f]) (Some (ad_anchor n, j)) \<and> ad_emitted n = j * ?S"
    proof (cases "?fs = [] \<or> ad_discontinuity n")
      case True
      then obtain l where "timeline ?S ?R ?fs l" "ad_emitted n = 0" "0 \<le> ad_anchor n"
        using ts assms(2) pts(1) by (auto simp: timeline_state_def Let_def)
      then have "timeline ?S ?R (?fs @ [f]) (Some (ad_anchor n, 0))"
        using True fr pts by (intro timeline.begins) (auto simp: stamp_def)
      then show ?thesis using \<open>ad_emitted n = 0\<close> by (intro exI [of _ 0]) simp
    next
      case False
      then obtain j where "timeline ?S ?R ?fs (Some (ad_anchor n, j))" "ad_emitted n = (j + 1) * ?S"
        using ts assms(2) by (auto simp: timeline_state_def Let_def)
      then have "timeline ?S ?R (?fs @ [f]) (Some (ad_anchor n, j + 1))"
        using False fr pts by (intro timeline.goes_on) (auto simp: stamp_def)
      then show ?thesis using \<open>ad_emitted n = (j + 1) * ?S\<close> by blast
    qed
    then have fl: "flowing c inp taken ?n"
      using assms(1) pts(1) by (simp add: flowing_def joined_def timeline_state_def)
    have deliver: "flowing c inp taken (snd (observe_then (ob_partial ob 0) (deliver_pending ob f) m))"
      if "flowing c inp taken m \<and> ad_pending m = Some f" for m
      by (rule observe_then_keeps [where P = "\<lambda>m. flowing c inp taken m \<and> ad_pending m = Some f"])
         (use that in \<open>auto intro: deliver_flowing\<close>)
    have "flowing c inp taken (snd (observe_then (ob_timestamp_fallback ob)
        (observe_then (ob_partial ob 0) (deliver_pending ob f)) ?n))"
      by (rule observe_then_keeps [where P = "\<lambda>m. flowing c inp taken m \<and> ad_pending m = Some f"])
         (use fl in \<open>auto intro: deliver\<close>)
    then show ?thesis
      using \<open>frame_pts n = Inr pts\<close> Inr assms fl deliver [of ?n]
      by (simp add: complete_frame_def Let_def split: option.split)
  qed
qed

lemma take_samples_flowing:
  assumes "flowing c inp taken n" "ad_pending n = None" "\<not> ad_has_anchor n \<Longrightarrow> 0 \<le> fst (the anchor)"
  shows "flowing c inp taken (snd (take_samples ob anchor k n))"
proof -
  let ?n = "n\<lparr>ad_partial_samples := ad_partial_samples n + k\<rparr>"
  let ?m = "?n\<lparr>ad_has_anchor := True, ad_anchor := fst (the anchor)\<rparr>"
  have m: "flowing c inp taken ?m" if "\<not> ad_has_anchor n"
    using assms that by (auto simp: flowing_def joined_def timeline_state_def Let_def)
  show ?thesis
  proof (cases "ad_has_anchor n")
    case True
    with assms(1,2) show ?thesis by (simp add: take_samples_def Let_def complete_flowing)
  next
    case False
    with assms(2) m [OF False] show ?thesis
      by (simp add: take_samples_def Let_def complete_flowing flowing_observe_then)
  qed
qed

subsection \<open>What the node needs of the device\<close>

locale capture_contract =
  fixes dev :: "'d capture_device"
  assumes read_range: "cd_read dev a k d = (Inr r, d') \<Longrightarrow> 0 \<le> rr_frames_read r \<and> rr_frames_read r \<le> k"
    and read_blocks: "cd_read dev a k d = (Inr r, d') \<Longrightarrow> rr_would_block r \<longleftrightarrow> rr_frames_read r = 0"
    and anchor_range: "cd_anchor dev d = (Inr (Anchor t fallback), d') \<Longrightarrow> 0 \<le> t"
begin

lemma read_flowing:
  assumes "flowing c inp taken n" "ad_pending n = None" "\<not> ad_has_anchor n \<Longrightarrow> 0 \<le> fst (the anchor)"
  shows "flowing c inp taken (snd (capture_read dev ob anchor a k n))"
proof -
  obtain r d where c: "cd_read dev a k (ad_device n) = (r, d)" by (meson surj_pair)
  show ?thesis
    using assms take_samples_flowing [of c inp taken "n\<lparr>ad_device := d\<rparr>" anchor]
      discontinuity_flowing [of c inp taken "n\<lparr>ad_device := d\<rparr>"]
    by (cases r) (simp_all add: capture_read_def on_device_def c)
qed

lemma resuming_flowing:
  assumes "flowing c inp taken n" "ad_pending n = None"
  shows "flowing c inp taken (snd (capture_resuming dev ob a k n))"
proof -
  obtain r d where c: "cd_read dev a k (ad_device n) = (r, d)" by (meson surj_pair)
  show ?thesis
    using assms reset_flowing [of c inp taken "n\<lparr>ad_device := d\<rparr>"]
    by (cases r) (auto simp: capture_resuming_def on_device_def c Let_def intro!: flowing_observe_then)
qed

lemma anchored_flowing:
  assumes "flowing c inp taken n" "ad_pending n = None"
  shows "flowing c inp taken (snd (capture_anchored dev ob a k n))"
proof (cases "ad_has_anchor n")
  case True
  then show ?thesis using assms read_flowing [of c inp taken n] by (simp add: capture_anchored_def)
next
  case False
  obtain r d where c: "cd_anchor dev (ad_device n) = (r, d)" by (meson surj_pair)
  show ?thesis
  proof (cases r)
    case (Inr x)
    show ?thesis
    proof (cases x)
      case (Anchor t fallback)
      then have "0 \<le> t" using anchor_range c Inr by blast
      then show ?thesis
        using False assms c Inr Anchor read_flowing [of c inp taken "n\<lparr>ad_device := d\<rparr>" "Some (t, fallback)"]
        by (simp add: capture_anchored_def on_device_def)
    qed (use False assms c Inr discontinuity_flowing [of c inp taken "n\<lparr>ad_device := d\<rparr>"] in
          \<open>simp_all add: capture_anchored_def on_device_def\<close>)
  qed (use False assms c in \<open>simp add: capture_anchored_def on_device_def\<close>)
qed

lemma allocate_flowing:
  "flowing c inp taken (snd (allocate_partial n)) = flowing c inp taken n
     \<and> ad_pending (snd (allocate_partial n)) = ad_pending n"
  by (simp_all add: allocate_partial_def Let_def split: sum.split option.split)

lemma tick_flowing:
  assumes "flowing c inp taken n"
  shows "flowing c inp taken (snd (alsa_on_tick base dev ob n))"
proof (cases "ad_pending n")
  case (Some f)
  then show ?thesis using assms deliver_flowing by (simp add: alsa_on_tick_def)
next
  case None
  obtain st m where m: "allocate_partial n = (st, m)" by (meson surj_pair)
  then have "flowing c inp taken m" "ad_pending m = None"
    using allocate_flowing [of c inp taken n] assms None by simp_all
  then show ?thesis
    using None m
    by (simp add: alsa_on_tick_def Let_def resuming_flowing anchored_flowing split: sum.split)
qed

lemma event_flowing:
  assumes "flowing c inp (fst x) (snd x)"
  shows "flowing c inp (fst (capture_event_step base dev ob inp e x)) (snd (capture_event_step base dev ob inp e x))"
proof (cases e)
  case (Tick h)
  then show ?thesis using assms by (cases x) (simp add: tick_flowing)
next
  case Take
  obtain taken n where x: "x = (taken, n)" by (meson surj_pair)
  obtain i where i: "ip_queue inp = Some i" "op_connections (ad_output n) = [i]" "i < length (ad_queues n)"
      "q_policy (ad_queues n ! i) = kBlock"
    using assms x by (auto simp: flowing_def joined_def)
  show ?thesis
  proof (cases "q_values (ad_queues n ! i)")
    case Nil
    then show ?thesis using assms x i Take by (simp add: port_receive_def bqueue_pop_Nil)
  next
    case (Cons f fs)
    then have "timeline_state ((taken @ [f]) @ fs) n" using assms x i by (simp add: flowing_def)
    then show ?thesis
      using assms x i Take Cons
      by (auto simp: port_receive_def bqueue_pop_Cons flowing_def joined_def cong: timeline_state_cong)
        (simp add: timeline_state_def)
  qed
qed

lemma run_flowing:
  assumes "flowing c inp [] n"
  shows "flowing c inp (fst (capture_run base dev ob inp es n)) (snd (capture_run base dev ob inp es n))"
proof -
  have "flowing c inp (fst x) (snd x) \<Longrightarrow>
      flowing c inp (fst (fold (capture_event_step base dev ob inp) es x)) (snd (fold (capture_event_step base dev ob inp) es x))" for x
  proof (induction es arbitrary: x)
    case (Cons e es)
    from Cons.IH [OF event_flowing [OF Cons.prems]] show ?case by simp
  qed simp
  then show ?thesis using assms by (simp add: capture_run_def)
qed

lemma produced_timeline:
  assumes "flowing c inp taken n"
  shows "\<exists>l. timeline (ac_samples_per_frame (ad_config n)) (af_rate (ac_format (ad_config n))) (produced inp (taken, n)) l"
  using assms by (cases "ad_pending n") (auto simp: flowing_def timeline_state_def Let_def produced_def)

end

subsection \<open>The device of the program\<close>

lemma anchor_nonneg:
  assumes "capture_anchor lib s = (Inr (Anchor t fallback), s')"
  shows "0 \<le> t"
proof -
  have fb: "0 \<le> t" if "anchor_fallback lib now x = (Inr (Anchor t fallback), s')" for now x
    using that
    by (auto simp: anchor_fallback_def Let_def anchor_xrun_def first_unread_pts_Some
        split: if_split_asm option.split_asm prod.split_asm)
  show ?thesis
    using assms
    by (auto simp: capture_anchor_def Let_def anchor_xrun_def device_anchor_def first_unread_pts_Some
        split: if_split_asm option.split_asm prod.split_asm intro: fb)
qed

interpretation alsa: capture_contract "alsa_device lib" for lib :: "'w alsa_lib"
  by unfold_locales (auto simp: alsa_device_def dest: read_result_range anchor_nonneg)

lemma fresh_flowing: "fresh_capture inp n \<Longrightarrow> usable_config (ad_config n) \<Longrightarrow> flowing (ad_config n) inp [] n"
  by (auto simp: fresh_capture_def flowing_def timeline_state_def Let_def intro: timeline.none)


definition capture_inp :: input_port where
  "capture_inp = (input_port_new ''audio_input'' 4 kBlock)\<lparr>ip_queue := Some 0\<rparr>"

text \<open>A library that serves every read in full at time 5 s, and an observer that accepts everything.\<close>

definition steady_lib :: "unit alsa_lib" where
  "steady_lib =
     \<lparr>al_call = (\<lambda>c w.
        (\<lparr>ar_result = (case c of Pcm_readi _ _ n \<Rightarrow> uint n | _ \<Rightarrow> 0), ar_handle = Some 0, ar_frames = 256,
           ar_value = 0, ar_access = ACCESS_RW_INTERLEAVED, ar_format = FORMAT_S16_LE,
           ar_time = \<lparr>tv_sec = 5, tv_nsec = 25000000\<rparr>, ar_fds = [], ar_revents = 0\<rparr>, w)),
      al_error_string = (\<lambda>_. ''error'')\<rparr>"

definition steady_device :: "unit alsa_system" where
  "steady_device = (alsa_new True ())\<lparr>as_pcm := Some 0, as_hw := Some 1, as_sw := Some 2, as_state := Alsa_running,
     as_negotiated := \<lparr>an_sample_rate = 48000, an_channels = 2, an_period_frames = 256, an_buffer_frames = 1024,
       an_monotonic = True\<rparr>\<rparr>"

definition quiet_observer :: "unit alsa_observer" where
  "quiet_observer =
     \<lparr>ob_negotiated = (\<lambda>_ _. Pair (Ret ok_status)), ob_partial = (\<lambda>_. Pair (Ret ok_status)),
      ob_would_block = Pair (Ret ok_status), ob_frame = (\<lambda>_. Pair (Ret ok_status)),
      ob_timestamp_fallback = Pair (Ret ok_status), ob_recovery = (\<lambda>_. Pair (Ret ok_status)),
      ob_fatal = (\<lambda>_. Pair (Ret ok_status))\<rparr>"

definition capture_node :: "(unit alsa_system, unit) alsa_node" where
  "capture_node = (alsa_node_new stereo_config steady_device () [bqueue_new 4 kBlock] 0 no_throw)
       \<lparr>ad_output := \<lparr>op_name = ''audio_output'', op_connections = [0]\<rparr>\<rparr>"

definition capture_events :: "capture_event list" where
  "capture_events = [Tick no_throw, Tick no_throw, Take, Tick no_throw]"

definition capture_example where
  "capture_example = capture_run (\<lambda>i. 4096 * (of_nat i + 1)) (alsa_device steady_lib) quiet_observer
     capture_inp capture_events capture_node"

lemma example_pts: "map afr_pts (produced capture_inp capture_example) = [5019667, 5029667, 5039667]"
  by code_simp


end
