(* ===== verification/Event_Loop.thy ===== *)
theory Event_Loop
  imports Posix Ordered_Map Status
begin

text \<open>
  \<open>src/platform/linux/linux_event_loop.cpp\<close>: the reactor that waits on an epoll instance for the
  descriptors of the registered sources and for an eventfd through which other threads wake it.

  The virtual functions of \<open>LinuxRuntimeApi\<close> are the constructors of \<open>rt_call\<close>; a pipeline and a wait
  source are known to the loop by identity (a number, the null pointer is \<open>None\<close>). \<open>loop_env\<close> is
  everything outside the loop: the kernel, the sources' two functions and the allocations that fail.
  Any of the calls may throw; the handlers are part of the model.
\<close>

definition ePOLLIN :: "32 word" where "ePOLLIN = 1"
definition ePOLLPRI :: "32 word" where "ePOLLPRI = 2"
definition ePOLLOUT :: "32 word" where "ePOLLOUT = 4"
definition ePOLLERR :: "32 word" where "ePOLLERR = 8"
definition ePOLLHUP :: "32 word" where "ePOLLHUP = 16"

datatype rt_call =
    Epoll_create
  | Epoll_add int int "32 word" "64 word"
  | Epoll_remove int int
  | Epoll_wait int int int
  | Create_event_fd
  | Read_event_fd int
  | Write_event_fd int "64 word"
  | Close_fd int
  | Runtime_monotonic_now
  | Monotonic_sleep_until timespec

record epoll_event =
  ee_events :: "32 word"
  ee_token :: "64 word"

text \<open>The result, what \<open>last_error\<close> says after it, and the out parameters.\<close>

record rt_reply =
  rt_result :: int
  rt_error :: int
  rt_events :: "epoll_event list"
  rt_time :: timespec

record 'w loop_env =
  le_call :: "rt_call \<Rightarrow> 'w \<Rightarrow> rt_reply outcome \<times> 'w"
  le_poll :: "nat \<Rightarrow> 'w \<Rightarrow> pollfd list result outcome \<times> 'w"
  le_evaluate :: "nat \<Rightarrow> pollfd list \<Rightarrow> 'w \<Rightarrow> bool result outcome \<times> 'w"

record source_record =
  sr_pipeline :: nat
  sr_source :: nat
  sr_descriptors :: "pollfd list"
  sr_tokens :: "64 word list"

datatype wait_failure_origin = Origin_none | Origin_runtime | Origin_wait_source

record loop_turn =
  lt_ready_pipelines :: "nat list"
  lt_wakeup_count :: nat
  lt_interrupted_count :: nat
  lt_control_wakeup :: bool

record 'w event_loop =
  el_has_api :: bool
  el_epoll_fd :: int
  el_event_fd :: int
  el_next_token :: "64 word"
  el_invalidated :: bool
  el_origin :: wait_failure_origin
  el_sources :: "source_record list"
  el_tokens :: "(64 word, nat \<times> nat) omap"
  el_registered_fds :: "int oset"
  el_registered_sources :: "nat oset"
  el_world :: 'w

definition loop_new :: "bool \<Rightarrow> 'w \<Rightarrow> 'w event_loop" where
  "loop_new has_api w =
     \<lparr>el_has_api = has_api, el_epoll_fd = - 1, el_event_fd = - 1, el_next_token = 1, el_invalidated = False,
      el_origin = Origin_none, el_sources = [], el_tokens = [], el_registered_fds = [],
      el_registered_sources = [], el_world = w\<rparr>"

definition kControlToken :: "64 word" where
  "kControlToken = 0"

definition kInfiniteTimeoutMs :: int where
  "kInfiniteTimeoutMs = - 1"

definition kMaxConsecutiveInterruptions :: nat where
  "kMaxConsecutiveInterruptions = 64"

subsection \<open>Messages\<close>

text \<open>The messages are UTF-8.\<close>

definition utf8 :: "nat list \<Rightarrow> string" where
  "utf8 = map char_of"

definition mEpollCreate :: string where
  "mEpollCreate = utf8 [230, 151, 160, 230, 179, 149, 229, 136, 155, 229, 187, 186] @ '' Linux epoll '' @ utf8 [229, 174, 158, 228, 190, 139]"

definition mEventFd :: string where
  "mEventFd = utf8 [230, 151, 160, 230, 179, 149, 229, 136, 155, 229, 187, 186] @ '' Linux eventfd''"

definition mEpollAddEvent :: string where
  "mEpollAddEvent = utf8 [230, 151, 160, 230, 179, 149, 229, 144, 145] @ '' Linux epoll '' @ utf8 [230, 179, 168, 229, 134, 140] @ '' eventfd''"

definition mEpollAddFd :: string where
  "mEpollAddFd = utf8 [230, 151, 160, 230, 179, 149, 229, 144, 145] @ '' Linux epoll '' @ utf8 [230, 179, 168, 229, 134, 140] @ '' descriptor''"

definition mWait :: string where
  "mWait = ''Linux Reactor '' @ utf8 [231, 173, 137, 229, 190, 133, 229, 164, 177, 232, 180, 165]"

definition mInterrupted :: string where
  "mInterrupted = ''Linux Reactor '' @ utf8 [231, 173, 137, 229, 190, 133, 232, 162, 171, 232, 191, 158, 231, 187, 173, 228, 191, 161, 229, 143, 183, 228, 184, 173, 230, 150, 173]"

definition mReadEvent :: string where
  "mReadEvent = utf8 [230, 151, 160, 230, 179, 149, 232, 175, 187, 229, 143, 150] @ '' Linux eventfd''"

definition mWriteEvent :: string where
  "mWriteEvent = utf8 [230, 151, 160, 230, 179, 149, 229, 134, 153, 229, 133, 165] @ '' Linux eventfd''"

definition mCloseEvent :: string where
  "mCloseEvent = utf8 [230, 151, 160, 230, 179, 149, 229, 133, 179, 233, 151, 173] @ '' Linux eventfd''"

definition mCloseEpoll :: string where
  "mCloseEpoll = utf8 [230, 151, 160, 230, 179, 149, 229, 133, 179, 233, 151, 173] @ '' Linux epoll '' @ utf8 [229, 174, 158, 228, 190, 139]"

definition loop_error :: "string \<Rightarrow> string \<Rightarrow> int \<Rightarrow> status" where
  "loop_error message operation error = status_native kIoError message ''linux_runtime'' operation error"

lemma loop_error_fails [simp]: "\<not> st_ok (loop_error m op e)"
  by (simp add: loop_error_def)

subsection \<open>Masks\<close>

definition epoll_interests :: "16 word \<Rightarrow> 32 word" where
  "epoll_interests events =
     or (if and events (or pOLLIN pOLLRDNORM) \<noteq> 0 then ePOLLIN else 0)
     (or (if and events pOLLOUT \<noteq> 0 then ePOLLOUT else 0)
         (if and events pOLLPRI \<noteq> 0 then ePOLLPRI else 0))"

definition poll_events :: "32 word \<Rightarrow> 16 word" where
  "poll_events events =
     or (if and events ePOLLIN \<noteq> 0 then pOLLIN else 0)
     (or (if and events ePOLLOUT \<noteq> 0 then pOLLOUT else 0)
     (or (if and events ePOLLPRI \<noteq> 0 then pOLLPRI else 0)
     (or (if and events ePOLLERR \<noteq> 0 then pOLLERR else 0)
         (if and events ePOLLHUP \<noteq> 0 then pOLLHUP else 0))))"

definition requested_poll_events :: "32 word \<Rightarrow> 16 word \<Rightarrow> 16 word" where
  "requested_poll_events events requested_events =
     (let translated = and (poll_events events) (not (or pOLLIN pOLLRDNORM))
      in if and events ePOLLIN \<noteq> 0
         then let requested_read = and requested_events (or pOLLIN pOLLRDNORM)
           in or translated (if requested_read = 0 then pOLLIN else requested_read)
         else translated)"

subsection \<open>Descriptors of the loop\<close>

definition loop_call :: "'w loop_env \<Rightarrow> rt_call \<Rightarrow> 'w event_loop \<Rightarrow> rt_reply outcome \<times> 'w event_loop" where
  "loop_call env c l = (case le_call env c (el_world l) of (r, w) \<Rightarrow> (r, l\<lparr>el_world := w\<rparr>))"

text \<open>\<open>close_noexcept\<close>, also the two closing statements of \<open>invalidate_noexcept\<close>.\<close>

definition close_noexcept :: "'w loop_env \<Rightarrow> int \<Rightarrow> 'w event_loop \<Rightarrow> 'w event_loop" where
  "close_noexcept env fd l = (if fd < 0 then l else snd (loop_call env (Close_fd fd) l))"

text \<open>The destructor of \<open>ScopedLoopFds\<close>.\<close>

definition close_scoped :: "'w loop_env \<Rightarrow> int \<Rightarrow> int \<Rightarrow> 'w event_loop \<Rightarrow> 'w event_loop" where
  "close_scoped env epoll_fd event_fd l = close_noexcept env epoll_fd (close_noexcept env event_fd l)"

definition invalidate_noexcept :: "'w loop_env \<Rightarrow> 'w event_loop \<Rightarrow> 'w event_loop" where
  "invalidate_noexcept env l =
     close_noexcept env (el_epoll_fd l) (close_noexcept env (el_event_fd l)
       (l\<lparr>el_invalidated := True, el_event_fd := - 1, el_epoll_fd := - 1\<rparr>))"

text \<open>The three steps of \<open>initialize\<close>; what has been opened so far is closed when one fails.\<close>

definition initialize_add :: "'w loop_env \<Rightarrow> int \<Rightarrow> int \<Rightarrow> 'w event_loop \<Rightarrow> status \<times> 'w event_loop" where
  "initialize_add env epoll_fd event_fd l =
     (case loop_call env (Epoll_add epoll_fd event_fd ePOLLIN kControlToken) l of
        (Throw e, l) \<Rightarrow> (handled e, close_scoped env epoll_fd event_fd l)
      | (Ret r, l) \<Rightarrow>
          if rt_result r < 0
          then (loop_error mEpollAddEvent ''epoll_ctl'' (rt_error r), close_scoped env epoll_fd event_fd l)
          else (ok_status, l\<lparr>el_epoll_fd := epoll_fd, el_event_fd := event_fd\<rparr>))"

definition initialize_event_fd :: "'w loop_env \<Rightarrow> int \<Rightarrow> 'w event_loop \<Rightarrow> status \<times> 'w event_loop" where
  "initialize_event_fd env epoll_fd l =
     (case loop_call env Create_event_fd l of
        (Throw e, l) \<Rightarrow> (handled e, close_scoped env epoll_fd (- 1) l)
      | (Ret r, l) \<Rightarrow>
          if rt_result r < 0
          then (loop_error mEventFd ''eventfd'' (rt_error r), close_scoped env epoll_fd (rt_result r) l)
          else initialize_add env epoll_fd (rt_result r) l)"

definition loop_initialize :: "'w loop_env \<Rightarrow> 'w event_loop \<Rightarrow> status \<times> 'w event_loop" where
  "loop_initialize env l =
     (if \<not> el_has_api l then (status_of kInvalidArgument, l)
      else if el_invalidated l then (status_of kInvalidState, l)
      else if el_epoll_fd l \<ge> 0 \<and> el_event_fd l \<ge> 0 then (ok_status, l)
      else if el_epoll_fd l \<ge> 0 \<or> el_event_fd l \<ge> 0 then (status_of kInvalidState, l)
      else case loop_call env Epoll_create l of
        (Throw e, l) \<Rightarrow> (handled e, l)
      | (Ret r, l) \<Rightarrow>
          if rt_result r < 0
          then (loop_error mEpollCreate ''epoll_create1'' (rt_error r), close_scoped env (rt_result r) (- 1) l)
          else initialize_event_fd env (rt_result r) l)"

subsection \<open>Registering a source\<close>

definition allowed_events :: "16 word" where
  "allowed_events = or pOLLIN (or pOLLRDNORM (or pOLLOUT pOLLPRI))"

fun check_descriptors :: "int oset \<Rightarrow> int oset \<Rightarrow> pollfd list \<Rightarrow> status" where
  "check_descriptors registered local_fds [] = ok_status"
| "check_descriptors registered local_fds (d # ds) =
     (if pfd_fd d < 0 \<or> pfd_events d = 0 \<or> and (pfd_events d) (not allowed_events) \<noteq> 0
      then status_of kInvalidArgument
      else if pfd_fd d \<in> set local_fds \<or> pfd_fd d \<in> set registered then status_of kAlreadyExists
      else check_descriptors registered (oset_insert (pfd_fd d) local_fds) ds)"

definition clear_revents :: "pollfd list \<Rightarrow> pollfd list" where
  "clear_revents = map (\<lambda>d. d\<lparr>pfd_revents := 0\<rparr>)"

text \<open>\<open>std::map::insert\<close> keeps an entry that is there.\<close>

definition omap_insert :: "'k :: linorder \<Rightarrow> 'v \<Rightarrow> ('k, 'v) omap \<Rightarrow> ('k, 'v) omap" where
  "omap_insert k v m = (if omap_find m k = None then omap_put k v m else m)"

fun insert_targets ::
  "nat \<Rightarrow> nat \<Rightarrow> 64 word list \<Rightarrow> (64 word, nat \<times> nat) omap \<Rightarrow> (64 word, nat \<times> nat) omap" where
  "insert_targets source_index index [] m = m"
| "insert_targets source_index index (t # ts) m =
     insert_targets source_index (Suc index) ts (omap_insert t (source_index, index) m)"

text \<open>The copies that are swapped in once the kernel knows the descriptors.\<close>

definition staged :: "source_record \<Rightarrow> 'w event_loop \<Rightarrow> 'w event_loop" where
  "staged record l =
     l\<lparr>el_sources := el_sources l @ [record],
       el_tokens := insert_targets (length (el_sources l)) 0 (sr_tokens record) (el_tokens l),
       el_registered_fds := fold oset_insert (map pfd_fd (sr_descriptors record)) (el_registered_fds l),
       el_registered_sources := oset_insert (sr_source record) (el_registered_sources l),
       el_next_token := el_next_token l + of_nat (length (sr_descriptors record))\<rparr>"

text \<open>\<open>rollback_registration\<close>: the descriptors added, the last one first; if the kernel does not let go
  of one the loop cannot be used any more.\<close>

fun rollback_each :: "'w loop_env \<Rightarrow> int list \<Rightarrow> bool \<Rightarrow> 'w event_loop \<Rightarrow> bool \<times> 'w event_loop" where
  "rollback_each env [] complete l = (complete, l)"
| "rollback_each env (fd # fds) complete l =
     (case loop_call env (Epoll_remove (el_epoll_fd l) fd) l of
        (Ret r, l) \<Rightarrow> rollback_each env fds (complete \<and> \<not> rt_result r < 0) l
      | (Throw e, l) \<Rightarrow> rollback_each env fds False l)"

definition rollback_registration :: "'w loop_env \<Rightarrow> int list \<Rightarrow> 'w event_loop \<Rightarrow> 'w event_loop" where
  "rollback_registration env added l =
     (case rollback_each env (rev added) True l of (complete, l) \<Rightarrow>
        if complete then l else invalidate_noexcept env l)"

text \<open>Adding the descriptors, with the ones already added.\<close>

fun add_descriptors ::
  "'w loop_env \<Rightarrow> source_record \<Rightarrow> int list \<Rightarrow> (pollfd \<times> 64 word) list \<Rightarrow> 'w event_loop \<Rightarrow> status \<times> 'w event_loop" where
  "add_descriptors env record added [] l = (ok_status, staged record l)"
| "add_descriptors env record added ((d, t) # ds) l =
     (case loop_call env (Epoll_add (el_epoll_fd l) (pfd_fd d) (epoll_interests (pfd_events d)) t) l of
        (Throw e, l) \<Rightarrow> (handled e, rollback_registration env added l)
      | (Ret r, l) \<Rightarrow>
          if rt_result r < 0
          then (loop_error mEpollAddFd ''epoll_ctl'' (rt_error r), rollback_registration env added l)
          else add_descriptors env record (added @ [pfd_fd d]) ds l)"

definition register_descriptors ::
  "exn option \<Rightarrow> 'w loop_env \<Rightarrow> nat \<Rightarrow> nat \<Rightarrow> pollfd list \<Rightarrow> 'w event_loop \<Rightarrow> status \<times> 'w event_loop" where
  "register_descriptors alloc env pipeline source descriptors l =
     (if descriptors = [] then (status_of kInvalidArgument, l)
      else let checked = check_descriptors (el_registered_fds l) [] descriptors
        in if \<not> st_ok checked then (checked, l)
           else case alloc of
             Some e \<Rightarrow> (handled e, l)
           | None \<Rightarrow>
               let descriptors = clear_revents descriptors;
                   tokens = map (\<lambda>i. el_next_token l + of_nat i) [0..<length descriptors]
               in add_descriptors env
                    \<lparr>sr_pipeline = pipeline, sr_source = source, sr_descriptors = descriptors, sr_tokens = tokens\<rparr>
                    [] (zip descriptors tokens) l)"

text \<open>\<open>alloc\<close>: the copies may run out of memory, which is before the kernel is asked for anything.\<close>

definition loop_register ::
  "exn option \<Rightarrow> 'w loop_env \<Rightarrow> nat option \<Rightarrow> nat option \<Rightarrow> 'w event_loop \<Rightarrow> status \<times> 'w event_loop" where
  "loop_register alloc env pipeline source l =
     (if el_invalidated l \<or> el_epoll_fd l < 0 \<or> el_event_fd l < 0 then (status_of kInvalidState, l)
      else case (pipeline, source) of
        (Some p, Some s) \<Rightarrow>
          if s \<in> set (el_registered_sources l) then (status_of kAlreadyExists, l)
          else (case le_poll env s (el_world l) of
             (Throw e, w) \<Rightarrow> (handled e, l\<lparr>el_world := w\<rparr>)
           | (Ret (Inl failure), w) \<Rightarrow> (failure, l\<lparr>el_world := w\<rparr>)
           | (Ret (Inr descriptors), w) \<Rightarrow> register_descriptors alloc env p s descriptors (l\<lparr>el_world := w\<rparr>))
      | _ \<Rightarrow> (status_of kInvalidArgument, l))"

subsection \<open>Waiting\<close>

definition wait_failed :: "wait_failure_origin \<Rightarrow> status \<Rightarrow> 'w event_loop \<Rightarrow> 'a result \<times> 'w event_loop" where
  "wait_failed origin s l = (err s, l\<lparr>el_origin := origin\<rparr>)"

text \<open>The loop around \<open>epoll_wait\<close>, with the number of interruptions so far; the 64th in a row ends it.\<close>

function wait_events ::
  "'w loop_env \<Rightarrow> int \<Rightarrow> nat \<Rightarrow> 'w event_loop \<Rightarrow> (rt_reply \<times> nat) result \<times> 'w event_loop" where
  "wait_events env capacity interrupted l =
     (case loop_call env (Epoll_wait (el_epoll_fd l) capacity kInfiniteTimeoutMs) l of
        (Throw e, l) \<Rightarrow> wait_failed Origin_runtime (handled e) l
      | (Ret r, l) \<Rightarrow>
          if rt_result r \<ge> 0 then (Inr (r, interrupted), l)
          else if rt_error r \<noteq> eINTR
          then wait_failed Origin_runtime (loop_error mWait ''epoll_wait'' (rt_error r)) l
          else if Suc interrupted \<ge> kMaxConsecutiveInterruptions
          then wait_failed Origin_runtime (loop_error mInterrupted ''epoll_wait'' eINTR) l
          else wait_events env capacity (Suc interrupted) l)"
  by pat_completeness auto
termination
  by (relation "measure (\<lambda>(env, capacity, interrupted, l). 64 - interrupted)")
     (auto simp: kMaxConsecutiveInterruptions_def)

declare wait_events.simps [simp del]

definition clear_sources :: "source_record list \<Rightarrow> source_record list" where
  "clear_sources = map (\<lambda>r. r\<lparr>sr_descriptors := clear_revents (sr_descriptors r)\<rparr>)"

text \<open>An event of descriptor \<open>j\<close> of a source.\<close>

definition add_revents :: "nat \<Rightarrow> 32 word \<Rightarrow> source_record \<Rightarrow> source_record" where
  "add_revents j events r =
     (let d = sr_descriptors r ! j
      in r\<lparr>sr_descriptors := (sr_descriptors r)[j := d\<lparr>pfd_revents :=
           or (pfd_revents d) (requested_poll_events events (pfd_events d))\<rparr>]\<rparr>)"

text \<open>The events, one after the other, with whether the eventfd has been read and which sources have
  an event.\<close>

fun dispatch_events ::
  "'w loop_env \<Rightarrow> epoll_event list \<Rightarrow> bool \<Rightarrow> nat oset \<Rightarrow> 'w event_loop \<Rightarrow>
     (bool \<times> nat oset) result \<times> 'w event_loop" where
  "dispatch_events env [] control ready l = (Inr (control, ready), l)"
| "dispatch_events env (e # es) control ready l =
     (if ee_token e = kControlToken
      then if control then dispatch_events env es control ready l
           else (case loop_call env (Read_event_fd (el_event_fd l)) l of
             (Throw x, l) \<Rightarrow> wait_failed Origin_runtime (handled x) l
           | (Ret r, l) \<Rightarrow>
               if rt_result r < 0
               then wait_failed Origin_runtime (loop_error mReadEvent ''read(eventfd)'' (rt_error r)) l
               else dispatch_events env es True ready l)
      else case omap_find (el_tokens l) (ee_token e) of
        None \<Rightarrow> dispatch_events env es control ready l
      | Some (i, j) \<Rightarrow>
          dispatch_events env es control (oset_insert i ready)
            (l\<lparr>el_sources := (el_sources l)[i := add_revents j (ee_events e) (el_sources l ! i)]\<rparr>))"

text \<open>Asking the sources; a pipeline is listed once.\<close>

fun evaluate_sources ::
  "'w loop_env \<Rightarrow> nat list \<Rightarrow> nat list \<Rightarrow> 'w event_loop \<Rightarrow> nat list result \<times> 'w event_loop" where
  "evaluate_sources env [] pipelines l = (Inr pipelines, l)"
| "evaluate_sources env (i # is) pipelines l =
     (let r = el_sources l ! i
      in case le_evaluate env (sr_source r) (sr_descriptors r) (el_world l) of
           (Throw x, w) \<Rightarrow> wait_failed Origin_runtime (handled x) (l\<lparr>el_world := w\<rparr>)
         | (Ret (Inl s), w) \<Rightarrow> wait_failed Origin_wait_source s (l\<lparr>el_world := w\<rparr>)
         | (Ret (Inr evaluated), w) \<Rightarrow>
             evaluate_sources env is
               (if evaluated \<and> sr_pipeline r \<notin> set pipelines then pipelines @ [sr_pipeline r] else pipelines)
               (l\<lparr>el_world := w\<rparr>))"

text \<open>The first \<open>n\<close> entries of the vector of events, which the kernel has written.\<close>

definition ready_events :: "int \<Rightarrow> nat \<Rightarrow> epoll_event list \<Rightarrow> epoll_event list" where
  "ready_events n capacity events =
     take (nat n) (take capacity events @ replicate (capacity - length events) \<lparr>ee_events = 0, ee_token = 0\<rparr>)"

definition loop_wait_once :: "exn option \<Rightarrow> 'w loop_env \<Rightarrow> 'w event_loop \<Rightarrow> loop_turn result \<times> 'w event_loop" where
  "loop_wait_once alloc env l =
     (let l = l\<lparr>el_origin := Origin_none\<rparr>
      in if el_epoll_fd l < 0 \<or> el_event_fd l < 0 then wait_failed Origin_runtime (status_of kInvalidState) l
         else case alloc of
           Some e \<Rightarrow> wait_failed Origin_runtime (handled e) l
         | None \<Rightarrow>
             let capacity = length (el_registered_fds l) + 1
             in (case wait_events env (int capacity) 0 l of
                  (Inl s, l) \<Rightarrow> (Inl s, l)
                | (Inr (r, interrupted), l) \<Rightarrow>
                    (case dispatch_events env (ready_events (rt_result r) capacity (rt_events r)) False []
                            (l\<lparr>el_sources := clear_sources (el_sources l)\<rparr>) of
                       (Inl s, l) \<Rightarrow> (Inl s, l)
                     | (Inr (control, ready), l) \<Rightarrow>
                         (case evaluate_sources env ready [] l of
                            (Inl s, l) \<Rightarrow> (Inl s, l)
                          | (Inr pipelines, l) \<Rightarrow>
                              (Inr \<lparr>lt_ready_pipelines = pipelines, lt_wakeup_count = 1,
                                    lt_interrupted_count = interrupted, lt_control_wakeup = control\<rparr>, l)))))"

subsection \<open>Waking and closing\<close>

definition loop_wake :: "'w loop_env \<Rightarrow> 'w event_loop \<Rightarrow> status \<times> 'w event_loop" where
  "loop_wake env l =
     (if el_event_fd l < 0 then (status_of kInvalidState, l)
      else case loop_call env (Write_event_fd (el_event_fd l) 1) l of
        (Throw e, l) \<Rightarrow> (status_of kInternal, l)
      | (Ret r, l) \<Rightarrow>
          (if rt_result r < 0 then loop_error mWriteEvent ''write(eventfd)'' (rt_error r) else ok_status, l))"

text \<open>Closing one descriptor, which the loop has already forgotten; the result is the first failure.\<close>

definition close_first ::
  "'w loop_env \<Rightarrow> int \<Rightarrow> string \<Rightarrow> string \<Rightarrow> status \<Rightarrow> 'w event_loop \<Rightarrow> status outcome \<times> 'w event_loop" where
  "close_first env fd message operation first_failure l =
     (if fd < 0 then (Ret first_failure, l)
      else case loop_call env (Close_fd fd) l of
        (Throw e, l) \<Rightarrow> (Throw e, l)
      | (Ret r, l) \<Rightarrow>
          (Ret (if rt_result r < 0 \<and> st_ok first_failure then loop_error message operation (rt_error r)
                else first_failure), l))"

definition loop_close :: "'w loop_env \<Rightarrow> 'w event_loop \<Rightarrow> status \<times> 'w event_loop" where
  "loop_close env l =
     (case close_first env (el_event_fd l) mCloseEvent ''close(eventfd)'' ok_status (l\<lparr>el_event_fd := - 1\<rparr>) of
        (Throw e, l) \<Rightarrow> (status_of kInternal, l)
      | (Ret first_failure, l) \<Rightarrow>
          (case close_first env (el_epoll_fd l) mCloseEpoll ''close(epoll)'' first_failure (l\<lparr>el_epoll_fd := - 1\<rparr>) of
             (Throw e, l) \<Rightarrow> (status_of kInternal, l)
           | (Ret s, l) \<Rightarrow> (s, l)))"

end
