(* ===== verification/Event_Loop_Contract.thy ===== *)
theory Event_Loop_Contract
  imports Event_Loop "HOL-Library.Multiset"
begin

text \<open>
  What \<open>LinuxEventLoop\<close> promises: it gives back what it opens, it uses only what is open, and what it
  believes to be registered is what the kernel has in its interest list.

  \<open>traced\<close> writes down the calls of the loop with their answers; \<open>rt_step\<close> reads such a record as the
  kernel does. Its state is the multiset of open descriptors and the interest list, the latest entry
  first; a call on a descriptor that is not open is refused (\<open>None\<close>).
\<close>

declare split_paired_Ex [simp del]

type_synonym rt_event = "rt_call \<times> rt_reply outcome"
type_synonym 'w traced_world = "'w \<times> rt_event list"
type_synonym kernel_view = "int multiset \<times> (int \<times> 64 word) list"

definition traced :: "'w loop_env \<Rightarrow> 'w traced_world loop_env" where
  "traced env =
     \<lparr>le_call = (\<lambda>c (w, log). case le_call env c w of (r, w') \<Rightarrow> (r, (w', log @ [(c, r)]))),
      le_poll = (\<lambda>s (w, log). case le_poll env s w of (r, w') \<Rightarrow> (r, (w', log))),
      le_evaluate = (\<lambda>s fds (w, log). case le_evaluate env s fds w of (r, w') \<Rightarrow> (r, (w', log)))\<rparr>"

fun succeeded :: "rt_reply outcome \<Rightarrow> int option" where
  "succeeded (Ret r) = (if rt_result r < 0 then None else Some (rt_result r))"
| "succeeded (Throw e) = None"

fun drop_interest :: "int \<Rightarrow> (int \<times> 64 word) list \<Rightarrow> (int \<times> 64 word) list" where
  "drop_interest fd [] = []"
| "drop_interest fd (e # es) = (if fst e = fd then es else e # drop_interest fd es)"

fun rt_step :: "rt_event \<Rightarrow> kernel_view \<Rightarrow> kernel_view option" where
  "rt_step (Epoll_create, r) (M, I) =
     Some (case succeeded r of None \<Rightarrow> (M, I) | Some fd \<Rightarrow> (add_mset fd M, []))"
| "rt_step (Create_event_fd, r) (M, I) =
     Some (case succeeded r of None \<Rightarrow> (M, I) | Some fd \<Rightarrow> (add_mset fd M, I))"
| "rt_step (Close_fd fd, r) (M, I) = (if fd \<in># M then Some (M - {#fd#}, I) else None)"
| "rt_step (Epoll_add ep fd events token, r) (M, I) =
     (if ep \<in># M then Some (M, if succeeded r = None then I else (fd, token) # I) else None)"
| "rt_step (Epoll_remove ep fd, r) (M, I) =
     (if ep \<in># M then Some (M, if succeeded r = None then I else drop_interest fd I) else None)"
| "rt_step (Epoll_wait ep n t, r) (M, I) = (if ep \<in># M then Some (M, I) else None)"
| "rt_step (Read_event_fd fd, r) (M, I) = (if fd \<in># M then Some (M, I) else None)"
| "rt_step (Write_event_fd fd v, r) (M, I) = (if fd \<in># M then Some (M, I) else None)"
| "rt_step (Runtime_monotonic_now, r) v = Some v"
| "rt_step (Monotonic_sleep_until t, r) v = Some v"

fun rt_view :: "rt_event list \<Rightarrow> kernel_view \<Rightarrow> kernel_view option" where
  "rt_view [] v = Some v"
| "rt_view (e # es) v = (case rt_step e v of None \<Rightarrow> None | Some v' \<Rightarrow> rt_view es v')"

lemma rt_view_append [simp]:
  "rt_view (xs @ ys) v = (case rt_view xs v of None \<Rightarrow> None | Some v' \<Rightarrow> rt_view ys v')"
  by (induction xs arbitrary: v) (auto split: option.split)

definition view_of :: "'w traced_world \<Rightarrow> kernel_view option" where
  "view_of w = rt_view (snd w) ({#}, [])"

subsection \<open>Runs\<close>

datatype loop_op =
    Loop_initialize
  | Loop_register "exn option" "nat option" "nat option"
  | Loop_wait "exn option"
  | Loop_wake
  | Loop_close

fun loop_step :: "'w loop_env \<Rightarrow> loop_op \<Rightarrow> 'w event_loop \<Rightarrow> 'w event_loop" where
  "loop_step env Loop_initialize l = snd (loop_initialize env l)"
| "loop_step env (Loop_register alloc pipeline source) l = snd (loop_register alloc env pipeline source l)"
| "loop_step env (Loop_wait alloc) l = snd (loop_wait_once alloc env l)"
| "loop_step env Loop_wake l = snd (loop_wake env l)"
| "loop_step env Loop_close l = snd (loop_close env l)"

definition loop_run :: "'w loop_env \<Rightarrow> loop_op list \<Rightarrow> 'w event_loop \<Rightarrow> 'w event_loop" where
  "loop_run env ops l = fold (loop_step env) ops l"

text \<open>The destructor closes what is open.\<close>

definition loop_destroy :: "'w loop_env \<Rightarrow> 'w event_loop \<Rightarrow> 'w event_loop" where
  "loop_destroy env l = snd (loop_close env l)"

text \<open>\<open>close\<close> of the C library reports errors by its result.\<close>

definition close_returns :: "'w loop_env \<Rightarrow> bool" where
  "close_returns env \<longleftrightarrow> (\<forall>fd w. \<exists>r. fst (le_call env (Close_fd fd) w) = Ret r)"

subsection \<open>The descriptors of the loop are the open ones\<close>

definition held :: "'w event_loop \<Rightarrow> int multiset" where
  "held l = (if el_epoll_fd l < 0 then {#} else {#el_epoll_fd l#})
          + (if el_event_fd l < 0 then {#} else {#el_event_fd l#})"

definition holds :: "'w traced_world event_loop \<Rightarrow> (int \<times> 64 word) list \<Rightarrow> bool" where
  "holds l I \<longleftrightarrow> view_of (el_world l) = Some (held l, I)"

lemma traced_call:
  assumes "loop_call (traced env) c l = (r, l')"
  shows "\<exists>w. l' = l\<lparr>el_world := w\<rparr> \<and> view_of w = (case view_of (el_world l) of None \<Rightarrow> None | Some v \<Rightarrow> rt_step (c, r) v)"
    and "r = fst (le_call env c (fst (el_world l)))"
proof -
  obtain w0 log where w: "el_world l = (w0, log)" by (meson surj_pair)
  obtain r' w1 where c: "le_call env c w0 = (r', w1)" by (meson surj_pair)
  have eq: "r = r'" "l' = l\<lparr>el_world := (w1, log @ [(c, r)])\<rparr>"
    using assms by (auto simp: loop_call_def traced_def w c)
  show "r = fst (le_call env c (fst (el_world l)))" by (simp add: eq w c)
  have "view_of (w1, log @ [(c, r)]) = (case view_of (el_world l) of None \<Rightarrow> None | Some v \<Rightarrow> rt_step (c, r) v)"
    by (auto simp: view_of_def w split: option.split)
  then show "\<exists>w. l' = l\<lparr>el_world := w\<rparr> \<and> view_of w = (case view_of (el_world l) of None \<Rightarrow> None | Some v \<Rightarrow> rt_step (c, r) v)"
    using eq by blast
qed

lemma held_world [simp]: "held (l\<lparr>el_world := w\<rparr>) = held l"
  by (simp add: held_def)

lemma close_noexcept_post:
  assumes "view_of (el_world l) = Some (M, I)" "fd < 0 \<or> fd \<in># M"
  shows "\<exists>w. close_noexcept (traced env) fd l = l\<lparr>el_world := w\<rparr>
     \<and> view_of w = Some (M - (if fd < 0 then {#} else {#fd#}), I)"
proof (cases "fd < 0")
  case True
  then show ?thesis using assms by (intro exI [of _ "el_world l"]) (simp add: close_noexcept_def)
next
  case False
  obtain r l' where c: "loop_call (traced env) (Close_fd fd) l = (r, l')" by (meson surj_pair)
  from traced_call(1) [OF c] show ?thesis using False assms by (auto simp: close_noexcept_def c)
qed

lemma close_scoped_post:
  assumes "view_of (el_world l) = Some (M, I)"
    and "M = N + (if a < 0 then {#} else {#a#}) + (if b < 0 then {#} else {#b#})"
  shows "\<exists>w. close_scoped (traced env) a b l = l\<lparr>el_world := w\<rparr> \<and> view_of w = Some (N, I)"
proof -
  obtain w where w: "close_noexcept (traced env) b l = l\<lparr>el_world := w\<rparr>"
    "view_of w = Some (N + (if a < 0 then {#} else {#a#}), I)"
    using close_noexcept_post [OF assms(1), of b env] unfolding assms(2) by (cases "b < 0") auto
  show ?thesis
    using close_noexcept_post [of "l\<lparr>el_world := w\<rparr>", simplified, OF w(2), of a env]
    by (auto simp: close_scoped_def w(1) split: if_splits)
qed

lemma invalidate_post:
  assumes "holds l I"
  shows "\<exists>w. invalidate_noexcept (traced env) l
      = l\<lparr>el_invalidated := True, el_event_fd := - 1, el_epoll_fd := - 1, el_world := w\<rparr> \<and> view_of w = Some ({#}, I)"
proof -
  let ?l = "l\<lparr>el_invalidated := True, el_event_fd := - 1, el_epoll_fd := - 1\<rparr>"
  have v: "view_of (el_world ?l) = Some (held l, I)" using assms by (simp add: holds_def)
  have m: "held l = {#} + (if el_epoll_fd l < 0 then {#} else {#el_epoll_fd l#})
      + (if el_event_fd l < 0 then {#} else {#el_event_fd l#})"
    by (simp add: held_def)
  from close_scoped_post [OF v m, of env] show ?thesis
    by (simp add: close_scoped_def invalidate_noexcept_def)
qed

lemma initialize_add_post:
  assumes "view_of (el_world l) = Some ({#e, v#}, [])" "0 \<le> e" "0 \<le> v"
  shows "case initialize_add (traced env) e v l of (st, l') \<Rightarrow>
      \<exists>w. if st_ok st then l' = l\<lparr>el_world := w, el_epoll_fd := e, el_event_fd := v\<rparr>
            \<and> view_of w = Some ({#e, v#}, [(v, kControlToken)])
          else l' = l\<lparr>el_world := w\<rparr> \<and> view_of w = Some ({#}, [])"
proof -
  obtain r l1 where c: "loop_call (traced env) (Epoll_add e v ePOLLIN kControlToken) l = (r, l1)" by (meson surj_pair)
  obtain w where w: "l1 = l\<lparr>el_world := w\<rparr>"
    "view_of w = Some ({#e, v#}, if succeeded r = None then [] else [(v, kControlToken)])"
    using traced_call(1) [OF c] assms by auto
  have fail: "\<exists>w. close_scoped (traced env) e v l1 = l\<lparr>el_world := w\<rparr> \<and> view_of w = Some ({#}, [])"
    if "succeeded r = None"
  proof -
    have "view_of (el_world l1) = Some ({#e, v#}, [])" using w that by simp
    from close_scoped_post [OF this, of "{#}" e v env] show ?thesis using assms w(1) by auto
  qed
  show ?thesis
  proof (cases r)
    case (Throw x)
    then show ?thesis using fail by (auto simp: initialize_add_def c)
  next
    case (Ret q)
    show ?thesis
    proof (cases "rt_result q < 0")
      case True
      then show ?thesis using fail Ret by (auto simp: initialize_add_def c)
    next
      case False
      then show ?thesis using w Ret by (auto simp: initialize_add_def c intro!: exI [of _ w])
    qed
  qed
qed

text \<open>What \<open>initialize\<close> does to the loop: nothing, or it has both descriptors and the kernel watches the
  eventfd only.\<close>

lemma initialize_post:
  assumes "holds l I"
  shows "case loop_initialize (traced env) l of (st, l') \<Rightarrow>
      (\<exists>w I'. l' = l\<lparr>el_world := w\<rparr> \<and> view_of w = Some (held l, I') \<and> (0 \<le> el_epoll_fd l \<longrightarrow> I' = I))
    \<or> (\<exists>w e v. el_epoll_fd l < 0 \<and> el_event_fd l < 0 \<and> 0 \<le> e \<and> 0 \<le> v \<and> \<not> el_invalidated l
         \<and> l' = l\<lparr>el_world := w, el_epoll_fd := e, el_event_fd := v\<rparr>
         \<and> view_of w = Some ({#e, v#}, [(v, kControlToken)]))"
proof (cases "el_has_api l \<and> \<not> el_invalidated l \<and> el_epoll_fd l < 0 \<and> el_event_fd l < 0")
  case False
  have "snd (loop_initialize (traced env) l) = l"
    using False by (auto simp: loop_initialize_def)
  then show ?thesis
    using assms by (auto simp: holds_def split: prod.split intro!: exI [of _ "el_world l"])
next
  case True
  then have v0: "view_of (el_world l) = Some ({#}, I)" and h: "held l = {#}"
    using assms by (simp_all add: holds_def held_def)
  obtain r l1 where c: "loop_call (traced env) Epoll_create l = (r, l1)" by (meson surj_pair)
  obtain w1 where w1: "l1 = l\<lparr>el_world := w1\<rparr>"
    "view_of w1 = Some (case succeeded r of None \<Rightarrow> ({#}, I) | Some fd \<Rightarrow> ({#fd#}, []))"
    using traced_call(1) [OF c] v0 by auto
  show ?thesis
  proof (cases "succeeded r")
    case None
    then have "snd (loop_initialize (traced env) l) = l1"
      using True by (cases r) (auto simp: loop_initialize_def c close_scoped_def close_noexcept_def split: if_splits)
    then show ?thesis using None w1 h True by (auto split: prod.split)
  next
    case (Some e)
    then have e: "0 \<le> e" "loop_initialize (traced env) l = initialize_event_fd (traced env) e l1"
      using True by (cases r; auto simp: loop_initialize_def c split: if_splits)+
    obtain r2 l2 where c2: "loop_call (traced env) Create_event_fd l1 = (r2, l2)" by (meson surj_pair)
    obtain w2 where w2: "l2 = l\<lparr>el_world := w2\<rparr>"
      "view_of w2 = Some (case succeeded r2 of None \<Rightarrow> ({#e#}, []) | Some fd \<Rightarrow> ({#e, fd#}, []))"
      using traced_call(1) [OF c2] w1 Some by (auto simp: add_mset_commute split: option.splits)
    show ?thesis
    proof (cases "succeeded r2")
      case None
      have "\<exists>x. x < 0 \<and> snd (initialize_event_fd (traced env) e l1) = close_scoped (traced env) e x l2"
      proof (cases r2)
        case (Throw y)
        then show ?thesis by (intro exI [of _ "- 1"]) (simp add: initialize_event_fd_def c2)
      next
        case (Ret q)
        then show ?thesis using None by (intro exI [of _ "rt_result q"]) (auto simp: initialize_event_fd_def c2 split: if_splits)
      qed
      then obtain x where x: "x < 0" "snd (initialize_event_fd (traced env) e l1) = close_scoped (traced env) e x l2"
        by blast
      have "view_of (el_world l2) = Some ({#e#}, [])" using w2 None by simp
      from close_scoped_post [OF this, of "{#}" e x env] obtain w3 where
        "close_scoped (traced env) e x l2 = l\<lparr>el_world := w3\<rparr>" "view_of w3 = Some ({#}, [])"
        using x(1) e(1) w2(1) by auto
      then show ?thesis using x(2) e(2) h True by (auto split: prod.split)
    next
      case (Some v)
      then have v: "0 \<le> v" "initialize_event_fd (traced env) e l1 = initialize_add (traced env) e v l2"
        by (cases r2; auto simp: initialize_event_fd_def c2 split: if_splits)+
      have "view_of (el_world l2) = Some ({#e, v#}, [])" using w2 Some by simp
      from initialize_add_post [OF this e(1) v(1), of env] show ?thesis
        using w2(1) e v(1) v(2) h True by (auto split: prod.splits if_splits)
    qed
  qed
qed

subsection \<open>Registration\<close>

text \<open>The pairs of descriptor and token of the sources, and where the tokens lead.\<close>

definition pairs :: "source_record \<Rightarrow> (int \<times> 64 word) list" where
  "pairs r = zip (map pfd_fd (sr_descriptors r)) (sr_tokens r)"

definition registered :: "source_record list \<Rightarrow> (int \<times> 64 word) list" where
  "registered rs = concat (map pairs rs)"

lemma rollback_each_post:
  assumes "view_of (el_world l) = Some (M, I0)" "complete \<longrightarrow> I0 = P @ I" "map fst P = fds" "el_epoll_fd l \<in># M"
    and "rollback_each (traced env) fds complete l = (complete', l')"
  shows "\<exists>w I'. l' = l\<lparr>el_world := w\<rparr> \<and> view_of w = Some (M, I') \<and> (complete' \<longrightarrow> I' = I)"
  using assms
proof (induction fds arbitrary: P l complete I0)
  case Nil
  then show ?case by (auto intro!: exI [of _ "el_world l"])
next
  case (Cons fd fds)
  then obtain t Q where P: "P = (fd, t) # Q" "map fst Q = fds" by (cases P) auto
  obtain r l1 where c: "loop_call (traced env) (Epoll_remove (el_epoll_fd l) fd) l = (r, l1)" by (meson surj_pair)
  obtain w where w: "l1 = l\<lparr>el_world := w\<rparr>"
    "view_of w = Some (M, if succeeded r = None then I0 else drop_interest fd I0)"
    using traced_call(1) [OF c] Cons.prems(1,4) by auto
  obtain complete1 where r: "rollback_each (traced env) fds complete1 l1 = (complete', l')"
    "complete1 \<longrightarrow> complete \<and> succeeded r \<noteq> None"
    using Cons.prems(5) by (cases r) (auto simp: c)
  have "complete1 \<longrightarrow> (if succeeded r = None then I0 else drop_interest fd I0) = Q @ I"
    using r(2) Cons.prems(2) P(1) by auto
  from Cons.IH [OF _ this P(2) _ r(1)] w Cons.prems(4) show ?case by auto
qed

lemma rollback_registration_post:
  assumes "holds l (P @ I)" "map fst P = rev added" "0 \<le> el_epoll_fd l"
    and "rollback_registration (traced env) added l = l'"
  shows "(\<exists>w. l' = l\<lparr>el_world := w\<rparr> \<and> view_of w = Some (held l, I))
    \<or> (\<exists>w I'. l' = l\<lparr>el_invalidated := True, el_event_fd := - 1, el_epoll_fd := - 1, el_world := w\<rparr>
         \<and> view_of w = Some ({#}, I'))"
proof -
  obtain complete l1 where e: "rollback_each (traced env) (rev added) True l = (complete, l1)" by (meson surj_pair)
  have m: "el_epoll_fd l \<in># held l" using assms(3) by (simp add: held_def)
  obtain w I' where w: "l1 = l\<lparr>el_world := w\<rparr>" "view_of w = Some (held l, I')" "complete \<longrightarrow> I' = I"
    using rollback_each_post [OF _ _ assms(2) m e, of "P @ I" I] assms(1) by (auto simp: holds_def)
  show ?thesis
  proof (cases complete)
    case True
    then show ?thesis using assms(4) w by (auto simp: rollback_registration_def e)
  next
    case False
    have "holds l1 I'" using w by (simp add: holds_def)
    from invalidate_post [OF this, of env] show ?thesis
      using False assms(4) w(1) by (auto simp: rollback_registration_def e)
  qed
qed

lemma staged_world [simp]: "staged record (l\<lparr>el_world := w\<rparr>) = (staged record l)\<lparr>el_world := w\<rparr>"
  by (simp add: staged_def)

lemma add_descriptors_post:
  assumes "holds l (rev prior @ I)" "map fst prior = added" "0 \<le> el_epoll_fd l"
    and "add_descriptors (traced env) record added ds l = (st, l')"
  shows "(\<exists>w. st_ok st \<and> l' = (staged record l)\<lparr>el_world := w\<rparr>
        \<and> view_of w = Some (held l, rev (map (\<lambda>(d, t). (pfd_fd d, t)) ds) @ rev prior @ I))
    \<or> \<not> st_ok st \<and> (\<exists>w. l' = l\<lparr>el_world := w\<rparr> \<and> view_of w = Some (held l, I))
    \<or> \<not> st_ok st \<and> (\<exists>w I'. l' = l\<lparr>el_invalidated := True, el_event_fd := - 1, el_epoll_fd := - 1, el_world := w\<rparr>
         \<and> view_of w = Some ({#}, I'))"
  using assms
proof (induction ds arbitrary: l prior added)
  case Nil
  then show ?case by (auto simp: holds_def staged_def intro!: exI [of _ "el_world l"])
next
  case (Cons dt ds)
  obtain d t where dt: "dt = (d, t)" by (meson surj_pair)
  obtain r l1 where c: "loop_call (traced env) (Epoll_add (el_epoll_fd l) (pfd_fd d) (epoll_interests (pfd_events d)) t) l = (r, l1)"
    by (meson surj_pair)
  have m: "el_epoll_fd l \<in># held l" using Cons.prems(3) by (simp add: held_def)
  obtain w where w: "l1 = l\<lparr>el_world := w\<rparr>"
    "view_of w = Some (held l, if succeeded r = None then rev prior @ I else (pfd_fd d, t) # rev prior @ I)"
    using traced_call(1) [OF c] Cons.prems(1) m by (auto simp: holds_def)
  show ?case
  proof (cases "succeeded r")
    case None
    have "l' = rollback_registration (traced env) added l1" "\<not> st_ok st"
      using Cons.prems(4) None by (cases r; auto simp: dt c split: if_splits)+
    moreover have "holds l1 (rev prior @ I)" using w None by (simp add: holds_def)
    moreover have "map fst (rev prior) = rev added" using Cons.prems(2) by (simp add: rev_map [symmetric])
    ultimately show ?thesis
      using rollback_registration_post [of l1 "rev prior" I added env l'] w(1) Cons.prems(3) by auto
  next
    case (Some x)
    then have "add_descriptors (traced env) record (added @ [pfd_fd d]) ds l1 = (st, l')"
      using Cons.prems(4) by (cases r) (auto simp: dt c split: if_splits)
    moreover have "holds l1 (rev (prior @ [(pfd_fd d, t)]) @ I)" using w Some by (simp add: holds_def)
    ultimately show ?thesis
      using Cons.IH [of l1 "prior @ [(pfd_fd d, t)]" "added @ [pfd_fd d]"] w(1) Cons.prems(2,3) by (auto simp: dt)
  qed
qed

fun targets :: "nat \<Rightarrow> source_record list \<Rightarrow> (64 word \<times> nat \<times> nat) list" where
  "targets k [] = []"
| "targets k (r # rs) = zip (sr_tokens r) (map (Pair k) [0..<length (sr_tokens r)]) @ targets (Suc k) rs"

text \<open>The loop's books agree with each other: tokens are handed out from 1 on, no descriptor is
  registered twice, and the map of tokens leads to their descriptors.\<close>

definition registry_ok :: "'w event_loop \<Rightarrow> bool" where
  "registry_ok l \<longleftrightarrow>
     (\<forall>r\<in>set (el_sources l). length (sr_tokens r) = length (sr_descriptors r))
   \<and> map snd (registered (el_sources l)) = map of_nat [1..<Suc (length (registered (el_sources l)))]
   \<and> el_next_token l = of_nat (Suc (length (registered (el_sources l))))
   \<and> distinct (map fst (registered (el_sources l)))
   \<and> set (map fst (registered (el_sources l))) = set (el_registered_fds l)
   \<and> set (el_registered_fds l) \<subseteq> {0..<2147483648}
   \<and> (\<forall>t. omap_find (el_tokens l) t = map_of (targets 0 (el_sources l)) t)"

text \<open>A descriptor is an \<open>int\<close> of 32 bits.\<close>

definition int_descriptors :: "'w loop_env \<Rightarrow> bool" where
  "int_descriptors env \<longleftrightarrow>
     (\<forall>s w ds. fst (le_poll env s w) = Ret (Inr ds) \<longrightarrow> (\<forall>d\<in>set ds. pfd_fd d < 2147483648))"

lemma check_descriptors_ok:
  "st_ok (check_descriptors known local_fds ds) \<longleftrightarrow>
     (\<forall>d\<in>set ds. 0 \<le> pfd_fd d \<and> pfd_events d \<noteq> 0 \<and> and (pfd_events d) (not allowed_events) = 0)
   \<and> distinct (map pfd_fd ds) \<and> pfd_fd ` set ds \<inter> (set local_fds \<union> set known) = {}"
  by (induction ds arbitrary: local_fds) auto

lemma find_omap_insert:
  "omap_find (omap_insert k v m) x = (case omap_find m x of Some y \<Rightarrow> Some y | None \<Rightarrow> if x = k then Some v else None)"
  by (auto simp: omap_insert_def omap_find_put_any split: option.split)

lemma find_insert_targets:
  "omap_find (insert_targets k i ts m) t =
     (case omap_find m t of Some y \<Rightarrow> Some y | None \<Rightarrow> map_of (zip ts (map (Pair k) [i..<i + length ts])) t)"
  by (induction ts arbitrary: i m)
     (auto simp: find_omap_insert upt_conv_Cons simp del: upt_Suc split: option.split)

lemma targets_append:
  "targets k (rs @ [r]) = targets k rs @ zip (sr_tokens r) (map (Pair (k + length rs)) [0..<length (sr_tokens r)])"
  by (induction rs arbitrary: k) auto

lemma pairs_simps:
  "length (sr_tokens r) = length (sr_descriptors r) \<Longrightarrow> map fst (pairs r) = map pfd_fd (sr_descriptors r)"
  "length (sr_tokens r) = length (sr_descriptors r) \<Longrightarrow> map snd (pairs r) = sr_tokens r"
  "length (sr_tokens r) = length (sr_descriptors r) \<Longrightarrow> length (pairs r) = length (sr_descriptors r)"
  by (simp_all add: pairs_def)

lemma set_fold_oset_insert: "set (fold oset_insert xs s) = set xs \<union> set s"
  by (induction xs arbitrary: s) auto

lemma staged_registry:
  assumes ok: "registry_ok l"
    and r: "sr_tokens r = map (\<lambda>i. el_next_token l + of_nat i) [0..<length (sr_descriptors r)]"
    and d: "distinct (map pfd_fd (sr_descriptors r))" "pfd_fd ` set (sr_descriptors r) \<inter> set (el_registered_fds l) = {}"
      "pfd_fd ` set (sr_descriptors r) \<subseteq> {0..<2147483648}"
  shows "registry_ok (staged r l)"
proof -
  let ?n = "length (registered (el_sources l))" and ?k = "length (sr_descriptors r)"
  have len: "length (sr_tokens r) = length (sr_descriptors r)" using r by simp
  have reg: "registered (el_sources (staged r l)) = registered (el_sources l) @ pairs r"
    by (simp add: staged_def registered_def)
  have toks: "sr_tokens r = map of_nat [Suc ?n..<Suc ?n + ?k]"
  proof (rule nth_equalityI)
    show "length (sr_tokens r) = length (map (of_nat :: nat \<Rightarrow> 64 word) [Suc ?n..<Suc ?n + ?k])"
      using len by (simp del: upt_Suc)
    fix i assume "i < length (sr_tokens r)"
    then have "i < ?k" using len by simp
    then show "sr_tokens r ! i = map of_nat [Suc ?n..<Suc ?n + ?k] ! i"
      using ok by (simp add: r registry_ok_def del: upt_Suc)
  qed
  have "[1..<Suc (?n + ?k)] = [1..<Suc ?n] @ [Suc ?n..<Suc ?n + ?k]"
    using upt_add_eq_append [of 1 "Suc ?n" ?k] by simp
  then have snds: "map snd (registered (el_sources l) @ pairs r) = map of_nat [1..<Suc (?n + ?k)]"
    using ok by (simp only: registry_ok_def map_append pairs_simps [OF len] toks)
  have find: "omap_find (el_tokens (staged r l)) t = map_of (targets 0 (el_sources (staged r l))) t" for t
    using ok by (simp add: registry_ok_def staged_def targets_append find_insert_targets map_add_def len
        split: option.split)
  have next_token: "el_next_token (staged r l) = of_nat (Suc (?n + ?k))"
    using ok by (simp add: staged_def registry_ok_def)
  have srcs: "el_sources (staged r l) = el_sources l @ [r]" by (simp add: staged_def)
  have fds: "set (el_registered_fds (staged r l)) = pfd_fd ` set (sr_descriptors r) \<union> set (el_registered_fds l)"
    by (simp add: staged_def set_fold_oset_insert)
  have fsts: "map fst (registered (el_sources (staged r l))) = map fst (registered (el_sources l)) @ map pfd_fd (sr_descriptors r)"
    by (simp only: reg map_append pairs_simps [OF len])
  have regl: "length (registered (el_sources (staged r l))) = ?n + ?k"
    by (simp only: reg length_append pairs_simps [OF len])
  show ?thesis
    unfolding registry_ok_def fsts regl
  proof (intro conjI)
    show "\<forall>ra\<in>set (el_sources (staged r l)). length (sr_tokens ra) = length (sr_descriptors ra)"
      using ok len by (simp add: srcs registry_ok_def)
    show "map snd (registered (el_sources (staged r l))) = map of_nat [1..<Suc (?n + ?k)]"
      using snds by (simp only: reg)
    show "distinct (map fst (registered (el_sources l)) @ map pfd_fd (sr_descriptors r))"
      using ok d by (auto simp: registry_ok_def)
    show "set (map fst (registered (el_sources l)) @ map pfd_fd (sr_descriptors r)) = set (el_registered_fds (staged r l))"
      using ok by (auto simp: registry_ok_def fds)
    show "set (el_registered_fds (staged r l)) \<subseteq> {0..<2147483648}"
      using ok d(3) by (auto simp: registry_ok_def fds)
  qed (use next_token find in auto)
qed

text \<open>The invariants of a loop in use. \<open>loop_holds\<close> is about descriptors only; \<open>loop_agrees\<close> adds the
  registrations, for a loop that has not been closed.\<close>

definition loop_holds :: "'w traced_world event_loop \<Rightarrow> bool" where
  "loop_holds l \<longleftrightarrow> (\<exists>I. holds l I) \<and> (el_epoll_fd l < 0 \<longleftrightarrow> el_event_fd l < 0)"

definition loop_agrees :: "'w traced_world event_loop \<Rightarrow> bool" where
  "loop_agrees l \<longleftrightarrow> registry_ok l \<and>
     (if el_epoll_fd l < 0 then el_invalidated l \<or> el_sources l = []
      else holds l (rev (registered (el_sources l)) @ [(el_event_fd l, kControlToken)]))"

lemma clear_revents_fds [simp]:
  "map pfd_fd (clear_revents ds) = map pfd_fd ds" "length (clear_revents ds) = length ds"
  "pfd_fd ` set (clear_revents ds) = pfd_fd ` set ds"
  by (auto simp: clear_revents_def image_image)

text \<open>The three ways a registration can end.\<close>

definition registration_post :: "'w loop_env \<Rightarrow> 'w traced_world event_loop \<Rightarrow> 'w traced_world event_loop \<Rightarrow> bool" where
  "registration_post env l l' \<longleftrightarrow>
     (\<exists>r w. l' = (staged r l)\<lparr>el_world := w\<rparr> \<and> (int_descriptors env \<longrightarrow> registry_ok l \<longrightarrow> registry_ok (staged r l))
        \<and> (\<forall>I. holds l I \<longrightarrow> view_of w = Some (held l, rev (pairs r) @ I)))
   \<or> (\<exists>w. l' = l\<lparr>el_world := w\<rparr> \<and> view_of w = view_of (el_world l))
   \<or> (\<exists>w I'. l' = l\<lparr>el_invalidated := True, el_event_fd := - 1, el_epoll_fd := - 1, el_world := w\<rparr>
        \<and> view_of w = Some ({#}, I'))"

lemma view_poll:
  assumes "le_poll (traced env) s w = (r, w')"
  shows "view_of w' = view_of w \<and> r = fst (le_poll env s (fst w))"
  using assms by (cases w) (auto simp: traced_def view_of_def split: prod.splits)

lemma view_evaluate:
  assumes "le_evaluate (traced env) s fds w = (r, w')"
  shows "view_of w' = view_of w"
  using assms by (cases w) (auto simp: traced_def view_of_def split: prod.splits)

lemma register_descriptors_cases:
  "snd (register_descriptors alloc env p s ds l) = l
   \<or> st_ok (check_descriptors (el_registered_fds l) [] ds)
     \<and> register_descriptors alloc env p s ds l = add_descriptors env
         \<lparr>sr_pipeline = p, sr_source = s, sr_descriptors = clear_revents ds,
          sr_tokens = map (\<lambda>i. el_next_token l + of_nat i) [0..<length ds]\<rparr> []
         (zip (clear_revents ds) (map (\<lambda>i. el_next_token l + of_nat i) [0..<length ds])) l"
  by (simp add: register_descriptors_def Let_def split: option.split)

lemma register_post:
  assumes h: "holds l I"
  shows "registration_post env l (snd (loop_register alloc (traced env) pipeline source l))"
proof -
  have same: "registration_post env l (l\<lparr>el_world := w\<rparr>)" if "view_of w = view_of (el_world l)" for w
    using that by (auto simp: registration_post_def)
  have refl: "registration_post env l l" using same [of "el_world l"] by simp
  show ?thesis
  proof (cases "(el_invalidated l \<or> el_epoll_fd l < 0 \<or> el_event_fd l < 0) \<or> pipeline = None \<or> source = None
      \<or> the source \<in> set (el_registered_sources l)")
    case True
    then show ?thesis using refl by (auto simp: loop_register_def split: option.split)
  next
    case False
    then obtain p s where ps: "pipeline = Some p" "source = Some s" "s \<notin> set (el_registered_sources l)"
      "\<not> el_invalidated l" "0 \<le> el_epoll_fd l" "0 \<le> el_event_fd l"
      by auto
    obtain r w where c: "le_poll (traced env) s (el_world l) = (r, w)" by (meson surj_pair)
    have v: "view_of w = view_of (el_world l)" "r = fst (le_poll env s (fst (el_world l)))"
      using view_poll [OF c] by simp_all
    consider "snd (loop_register alloc (traced env) pipeline source l) = l\<lparr>el_world := w\<rparr>"
      | (go) ds where "r = Ret (Inr ds)" "st_ok (check_descriptors (el_registered_fds l) [] ds)"
        "loop_register alloc (traced env) pipeline source l = add_descriptors (traced env)
           \<lparr>sr_pipeline = p, sr_source = s, sr_descriptors = clear_revents ds,
            sr_tokens = map (\<lambda>i. el_next_token l + of_nat i) [0..<length ds]\<rparr> []
           (zip (clear_revents ds) (map (\<lambda>i. el_next_token l + of_nat i) [0..<length ds])) (l\<lparr>el_world := w\<rparr>)"
    proof (cases "\<exists>ds. r = Ret (Inr ds)")
      case False
      then have "snd (loop_register alloc (traced env) pipeline source l) = l\<lparr>el_world := w\<rparr>"
        using ps c by (auto simp: loop_register_def split: outcome.split sum.split)
      then show thesis by (rule that(1))
    next
      case True
      then obtain ds where r: "r = Ret (Inr ds)" by blast
      have e: "loop_register alloc (traced env) pipeline source l = register_descriptors alloc (traced env) p s ds (l\<lparr>el_world := w\<rparr>)"
        using ps c by (simp add: loop_register_def r)
      show thesis
        using register_descriptors_cases [of alloc "traced env" p s ds "l\<lparr>el_world := w\<rparr>"] that r
        unfolding e by auto
    qed
    then show ?thesis
    proof cases
      case 1
      then show ?thesis using same [OF v(1)] by simp
    next
      case go
      define rec where "rec = \<lparr>sr_pipeline = p, sr_source = s, sr_descriptors = clear_revents ds,
            sr_tokens = map (\<lambda>i. el_next_token l + of_nat i) [0..<length ds]\<rparr>"
      obtain st l' where a: "add_descriptors (traced env) rec [] (zip (sr_descriptors rec) (sr_tokens rec)) (l\<lparr>el_world := w\<rparr>) = (st, l')"
        by (meson surj_pair)
      have l': "snd (loop_register alloc (traced env) pipeline source l) = l'"
        using go(3) a by (simp add: rec_def)
      have "holds (l\<lparr>el_world := w\<rparr>) (rev [] @ I)" using h v(1) by (simp add: holds_def)
      from add_descriptors_post [OF this _ _ a] ps(5)
      have post: "(\<exists>w'. l' = (staged rec l)\<lparr>el_world := w'\<rparr>
          \<and> view_of w' = Some (held l, rev (map (\<lambda>(d, t). (pfd_fd d, t)) (zip (sr_descriptors rec) (sr_tokens rec))) @ I))
        \<or> (\<exists>w'. l' = l\<lparr>el_world := w'\<rparr> \<and> view_of w' = Some (held l, I))
        \<or> (\<exists>w' I'. l' = l\<lparr>el_invalidated := True, el_event_fd := - 1, el_epoll_fd := - 1, el_world := w'\<rparr>
             \<and> view_of w' = Some ({#}, I'))"
        by auto
      have pr: "map (\<lambda>(d, t). (pfd_fd d, t)) (zip (sr_descriptors rec) (sr_tokens rec)) = pairs rec"
        by (simp add: pairs_def zip_map1)
      have ok: "registry_ok (staged rec l)" if i: "int_descriptors env" and k: "registry_ok l"
      proof (rule staged_registry [OF k])
        have "\<forall>d\<in>set ds. pfd_fd d < 2147483648" using i v(2) [symmetric] unfolding go(1) int_descriptors_def by blast
        then show "pfd_fd ` set (sr_descriptors rec) \<subseteq> {0..<2147483648}"
          using go(2) by (auto simp: rec_def check_descriptors_ok)
      qed (use go(2) in \<open>auto simp: rec_def check_descriptors_ok\<close>)
      have hv: "\<forall>J. holds l J \<longrightarrow> J = I" "view_of (el_world l) = Some (held l, I)" using h by (auto simp: holds_def)
      show ?thesis
        using post ok hv unfolding l' pr registration_post_def by metis
    qed
  qed
qed

subsection \<open>Waiting, waking, closing\<close>

definition shape :: "source_record \<Rightarrow> int list \<times> 64 word list" where
  "shape r = (map pfd_fd (sr_descriptors r), sr_tokens r)"

text \<open>What waiting and waking keep: everything but the events seen and the state outside.\<close>

definition kept :: "'w traced_world event_loop \<Rightarrow> 'w traced_world event_loop \<Rightarrow> bool" where
  "kept l' l \<longleftrightarrow> el_epoll_fd l' = el_epoll_fd l \<and> el_event_fd l' = el_event_fd l \<and> el_invalidated l' = el_invalidated l
     \<and> el_next_token l' = el_next_token l \<and> el_tokens l' = el_tokens l \<and> el_registered_fds l' = el_registered_fds l
     \<and> map shape (el_sources l') = map shape (el_sources l) \<and> view_of (el_world l') = view_of (el_world l)"

lemma loop_kept_refl [simp]: "kept l l"
  by (simp add: kept_def)

lemma loop_kept_trans: "kept l2 l1 \<Longrightarrow> kept l1 l \<Longrightarrow> kept l2 l"
  by (simp add: kept_def)

lemma loop_kept_fields [simp]:
  "kept (l\<lparr>el_origin := x\<rparr>) l0 = kept l l0" "kept l (l0\<lparr>el_origin := x\<rparr>) = kept l l0"
  by (simp_all add: kept_def)

lemma kept_world: "view_of w = view_of (el_world l) \<Longrightarrow> kept (l\<lparr>el_world := w\<rparr>) l"
  by (simp add: kept_def)

lemma shape_registered: "map shape rs = map shape rs' \<Longrightarrow> registered rs = registered rs'"
proof -
  assume a: "map shape rs = map shape rs'"
  have "map pairs qs = map (\<lambda>(fds, ts). zip fds ts) (map shape qs)" for qs
    by (simp add: shape_def pairs_def)
  with a have "map pairs rs = map pairs rs'" by metis
  then show ?thesis by (simp add: registered_def)
qed

lemma shape_targets: "map shape rs = map shape rs' \<Longrightarrow> targets k rs = targets k rs'"
proof (induction rs arbitrary: rs' k)
  case Nil
  then show ?case by simp
next
  case (Cons r rs)
  then obtain q qs where q: "rs' = q # qs" "shape r = shape q" "map shape rs = map shape qs" by auto
  from q(2) have "sr_tokens r = sr_tokens q" by (simp add: shape_def)
  then show ?case using Cons.IH [OF q(3)] by (simp add: q(1))
qed

lemma shape_lengths:
  assumes "map shape rs = map shape rs'" "\<forall>r\<in>set rs'. length (sr_tokens r) = length (sr_descriptors r)"
  shows "\<forall>r\<in>set rs. length (sr_tokens r) = length (sr_descriptors r)"
proof
  fix r assume "r \<in> set rs"
  then have "shape r \<in> set (map shape rs')" unfolding assms(1) [symmetric] by simp
  then obtain q where q: "q \<in> set rs'" "shape r = shape q" by auto
  from q(2) have "length (sr_descriptors r) = length (sr_descriptors q)"
    unfolding shape_def prod.inject by (metis length_map)
  then show "length (sr_tokens r) = length (sr_descriptors r)" using q assms(2) by (simp add: shape_def)
qed

lemma kept_registry:
  assumes k: "kept l' l" and ok: "registry_ok l"
  shows "registry_ok l'"
proof -
  have sh: "map shape (el_sources l') = map shape (el_sources l)" using k by (simp add: kept_def)
  have "\<forall>r\<in>set (el_sources l'). length (sr_tokens r) = length (sr_descriptors r)"
    using shape_lengths [OF sh] ok by (simp add: registry_ok_def)
  moreover have "registered (el_sources l') = registered (el_sources l)" "targets 0 (el_sources l') = targets 0 (el_sources l)"
    using shape_registered [OF sh] shape_targets [OF sh] by simp_all
  ultimately show ?thesis
    using k ok by (simp add: kept_def registry_ok_def del: upt_Suc)
qed

lemma kept_holds: "kept l' l \<Longrightarrow> holds l I \<Longrightarrow> holds l' I"
  by (simp add: kept_def holds_def held_def)

lemma kept_invariants: "kept l' l \<Longrightarrow> (loop_holds l \<longrightarrow> loop_holds l') \<and> (loop_agrees l \<longrightarrow> loop_agrees l')"
proof -
  assume k: "kept l' l"
  have f: "el_epoll_fd l' = el_epoll_fd l" "el_event_fd l' = el_event_fd l" "el_invalidated l' = el_invalidated l"
    "map shape (el_sources l') = map shape (el_sources l)"
    using k by (simp_all add: kept_def)
  have "el_sources l' = [] \<longleftrightarrow> el_sources l = []" using f(4) by (metis map_is_Nil_conv)
  then show ?thesis
    using kept_holds [OF k] kept_registry [OF k] f shape_registered [OF f(4)]
    by (auto simp: loop_holds_def loop_agrees_def)
qed

lemma used_call_kept:
  assumes c: "loop_call (traced env) c l = (r, l')" and v: "view_of (el_world l) = Some v" "rt_step (c, r) v = Some v"
  shows "kept l' l"
proof -
  obtain w where "l' = l\<lparr>el_world := w\<rparr>" "view_of w = view_of (el_world l)"
    using traced_call(1) [OF c] v by auto
  then show ?thesis by (simp add: kept_world)
qed

lemma wait_events_kept:
  assumes "holds l I" "0 \<le> el_epoll_fd l"
  shows "kept (snd (wait_events (traced env) capacity interrupted l)) l"
  using assms
proof (induction "traced env" capacity interrupted l rule: wait_events.induct)
  case (1 capacity interrupted l)
  obtain r l1 where c: "loop_call (traced env) (Epoll_wait (el_epoll_fd l) capacity kInfiniteTimeoutMs) l = (r, l1)"
    by (meson surj_pair)
  have k: "kept l1 l"
    using used_call_kept [OF c] "1.prems" by (simp add: holds_def held_def)
  have l1: "holds l1 I" "0 \<le> el_epoll_fd l1"
    using kept_holds [OF k] "1.prems" k by (simp_all add: kept_def)
  show ?case
  proof (cases r)
    case (Throw x)
    then show ?thesis using k by (simp add: wait_events.simps [of _ _ _ l] c wait_failed_def)
  next
    case (Ret q)
    have "kept (snd (wait_events (traced env) capacity (Suc interrupted) l1)) l"
      if "rt_result q < 0" "rt_error q = eINTR" "Suc interrupted < kMaxConsecutiveInterruptions"
      using loop_kept_trans [OF "1.hyps" [OF c [symmetric] Ret _ _ _ l1] k] that by simp
    then show ?thesis using k by (simp add: wait_events.simps [of _ _ _ l] c Ret wait_failed_def)
  qed
qed

lemma shape_add_revents [simp]: "shape (add_revents j e r) = shape r"
proof -
  have "map pfd_fd ((sr_descriptors r)[j := (sr_descriptors r ! j)\<lparr>pfd_revents := x\<rparr>]) = map pfd_fd (sr_descriptors r)" for x
    by (cases "j < length (sr_descriptors r)") (simp_all add: map_update list_update_same_conv list_update_beyond)
  then show ?thesis by (simp add: shape_def add_revents_def Let_def)
qed

lemma dispatch_events_kept:
  assumes "holds l I" "0 \<le> el_event_fd l"
  shows "kept (snd (dispatch_events (traced env) es control ready l)) l"
  using assms
proof (induction "traced env" es control ready l rule: dispatch_events.induct)
  case (1 control ready l)
  then show ?case by simp
next
  case (2 e es control ready l)
  show ?case
  proof (cases "ee_token e = kControlToken")
    case True
    show ?thesis
    proof (cases control)
      case True
      then show ?thesis using "2.hyps"(1) \<open>ee_token e = kControlToken\<close> "2.prems" by simp
    next
      case False
      obtain r l1 where c: "loop_call (traced env) (Read_event_fd (el_event_fd l)) l = (r, l1)" by (meson surj_pair)
      have k: "kept l1 l"
        using used_call_kept [OF c] "2.prems" by (simp add: holds_def held_def)
      have l1: "holds l1 I" "0 \<le> el_event_fd l1"
        using kept_holds [OF k] "2.prems" k by (simp_all add: kept_def)
      show ?thesis
        using loop_kept_trans [OF "2.hyps"(2) [OF True False c [symmetric] _ _ l1] k] k True False
        by (cases r) (auto simp: c wait_failed_def)
    qed
  next
    case False
    show ?thesis
    proof (cases "omap_find (el_tokens l) (ee_token e)")
      case None
      then show ?thesis using "2.hyps"(3) False "2.prems" by simp
    next
      case (Some ij)
      obtain i j where ij: "ij = (i, j)" by (meson surj_pair)
      let ?l = "l\<lparr>el_sources := (el_sources l)[i := add_revents j (ee_events e) (el_sources l ! i)]\<rparr>"
      have "map shape (el_sources ?l) = map shape (el_sources l)"
        by (cases "i < length (el_sources l)") (simp_all add: map_update list_update_same_conv list_update_beyond)
      then have k: "kept ?l l" by (simp add: kept_def)
      have l1: "holds ?l I" "0 \<le> el_event_fd ?l"
        using kept_holds [OF k] "2.prems" k by (simp_all add: kept_def)
      show ?thesis
        using loop_kept_trans [OF "2.hyps"(4) [OF False Some ij [symmetric] l1] k] False Some ij by simp
    qed
  qed
qed

lemma evaluate_sources_kept: "kept (snd (evaluate_sources (traced env) ks pipelines l)) l"
proof (induction ks arbitrary: pipelines l)
  case Nil
  then show ?case by simp
next
  case (Cons i ks)
  let ?r = "el_sources l ! i"
  obtain r w where c: "le_evaluate (traced env) (sr_source ?r) (sr_descriptors ?r) (el_world l) = (r, w)"
    by (meson surj_pair)
  have k: "kept (l\<lparr>el_world := w\<rparr>) l" by (rule kept_world) (rule view_evaluate [OF c])
  show ?case
    using k loop_kept_trans [OF Cons.IH k] by (auto simp: c Let_def wait_failed_def split: outcome.split sum.split)
qed

lemma wait_once_kept:
  assumes "holds l I"
  shows "kept (snd (loop_wait_once alloc (traced env) l)) l"
proof (cases "el_epoll_fd l < 0 \<or> el_event_fd l < 0 \<or> alloc \<noteq> None")
  case True
  then show ?thesis by (cases alloc) (auto simp: loop_wait_once_def wait_failed_def Let_def)
next
  case False
  define l0 where "l0 = l\<lparr>el_origin := Origin_none\<rparr>"
  have l0: "holds l0 I" "0 \<le> el_epoll_fd l0" "kept l0 l"
    using assms False by (simp_all add: l0_def holds_def held_def)
  obtain x l1 where w: "wait_events (traced env) (int (length (el_registered_fds l) + 1)) 0 l0 = (x, l1)" by (meson surj_pair)
  have k1: "kept l1 l" using loop_kept_trans [OF wait_events_kept [OF l0(1,2)] l0(3)] w by (metis snd_conv)
  show ?thesis
  proof (cases x)
    case (Inl s)
    then show ?thesis using False w k1 by (simp add: loop_wait_once_def l0_def)
  next
    case (Inr ri)
    obtain r i where ri: "ri = (r, i)" by (meson surj_pair)
    define l2 where "l2 = l1\<lparr>el_sources := clear_sources (el_sources l1)\<rparr>"
    have "map shape (clear_sources rs) = map shape rs" for rs
      by (simp add: clear_sources_def shape_def)
    then have k2: "kept l2 l" using loop_kept_trans [of l2 l1 l] k1 by (simp add: kept_def l2_def)
    have l2: "holds l2 I" "0 \<le> el_event_fd l2"
      using kept_holds [OF k2 assms] k2 False by (simp_all add: kept_def)
    obtain y l3 where d: "dispatch_events (traced env) (ready_events (rt_result r) (length (el_registered_fds l) + 1) (rt_events r)) False [] l2 = (y, l3)"
      by (meson surj_pair)
    have k3: "kept l3 l" using loop_kept_trans [OF dispatch_events_kept [OF l2] k2] d by (metis snd_conv)
    have e: "loop_wait_once alloc (traced env) l =
        (case y of Inl s \<Rightarrow> (Inl s, l3) | Inr (control, ready) \<Rightarrow>
          (case evaluate_sources (traced env) ready [] l3 of
             (Inl s, l) \<Rightarrow> (Inl s, l)
           | (Inr pipelines, l) \<Rightarrow>
               (Inr \<lparr>lt_ready_pipelines = pipelines, lt_wakeup_count = 1,
                     lt_interrupted_count = i, lt_control_wakeup = control\<rparr>, l)))"
      using False w d by (auto simp: loop_wait_once_def l0_def l2_def Inr ri Let_def split: sum.split prod.split)
    show ?thesis
    proof (cases y)
      case (Inl s)
      then show ?thesis using k3 by (simp add: e)
    next
      case (Inr cr)
      obtain control ready where cr: "cr = (control, ready)" by (meson surj_pair)
      have "snd (loop_wait_once alloc (traced env) l) = snd (evaluate_sources (traced env) ready [] l3)"
        by (simp add: e Inr cr split: prod.split sum.split)
      then show ?thesis using loop_kept_trans [OF evaluate_sources_kept k3] by simp
    qed
  qed
qed

lemma wake_kept:
  assumes "holds l I"
  shows "kept (snd (loop_wake (traced env) l)) l"
proof (cases "el_event_fd l < 0")
  case True
  then show ?thesis by (simp add: loop_wake_def)
next
  case False
  obtain r l1 where c: "loop_call (traced env) (Write_event_fd (el_event_fd l) 1) l = (r, l1)" by (meson surj_pair)
  have "kept l1 l" using used_call_kept [OF c] assms False by (simp add: holds_def held_def)
  then show ?thesis using False by (cases r) (simp_all add: loop_wake_def c)
qed

lemma close_first_post:
  assumes "close_returns env" "view_of (el_world l) = Some (M, I)" "fd < 0 \<or> fd \<in># M"
  shows "\<exists>s w. close_first (traced env) fd m op f l = (Ret s, l\<lparr>el_world := w\<rparr>)
     \<and> view_of w = Some (M - (if fd < 0 then {#} else {#fd#}), I)"
proof (cases "fd < 0")
  case True
  then show ?thesis
    using assms(2) by (intro exI [of _ f] exI [of _ "el_world l"]) (simp add: close_first_def)
next
  case False
  obtain r l1 where c: "loop_call (traced env) (Close_fd fd) l = (r, l1)" by (meson surj_pair)
  obtain q where q: "r = Ret q" using traced_call(2) [OF c] assms(1) by (auto simp: close_returns_def)
  show ?thesis using traced_call(1) [OF c] False assms q by (auto simp: close_first_def c)
qed

lemma close_post:
  assumes "close_returns env" "holds l I"
  shows "\<exists>w. snd (loop_close (traced env) l) = l\<lparr>el_event_fd := - 1, el_epoll_fd := - 1, el_world := w\<rparr>
     \<and> view_of w = Some ({#}, I)"
proof -
  let ?a = "if el_epoll_fd l < 0 then {#} else {#el_epoll_fd l#}" and ?b = "if el_event_fd l < 0 then {#} else {#el_event_fd l#}"
  have v: "view_of (el_world (l\<lparr>el_event_fd := - 1\<rparr>)) = Some (?a + ?b, I)"
    using assms(2) by (simp add: holds_def held_def)
  have "el_event_fd l < 0 \<or> el_event_fd l \<in># ?a + ?b" by auto
  from close_first_post [OF assms(1) v this, of mCloseEvent "''close(eventfd)''" ok_status]
  obtain s w where c: "close_first (traced env) (el_event_fd l) mCloseEvent ''close(eventfd)'' ok_status (l\<lparr>el_event_fd := - 1\<rparr>)
      = (Ret s, l\<lparr>el_event_fd := - 1, el_world := w\<rparr>)" "view_of w = Some (?a, I)"
    by (cases "el_event_fd l < 0") auto
  let ?l = "l\<lparr>el_event_fd := - 1, el_world := w, el_epoll_fd := - 1\<rparr>"
  have "view_of (el_world ?l) = Some (?a, I)" "el_epoll_fd l < 0 \<or> el_epoll_fd l \<in># ?a" using c(2) by simp_all
  from close_first_post [OF assms(1) this, of mCloseEpoll "''close(epoll)''" s] show ?thesis
    by (auto simp: loop_close_def c(1) split: prod.split)
qed

lemma register_invariants:
  assumes "loop_holds l"
  shows "loop_holds (snd (loop_register alloc (traced env) p s l))"
    and "int_descriptors env \<Longrightarrow> loop_agrees l \<Longrightarrow> loop_agrees (snd (loop_register alloc (traced env) p s l))"
proof -
  obtain I where I: "holds l I" using assms by (auto simp: loop_holds_def)
  let ?l = "snd (loop_register alloc (traced env) p s l)"
  from register_post [OF I, of env alloc p s]
  consider (added) r w where "?l = (staged r l)\<lparr>el_world := w\<rparr>" "int_descriptors env \<longrightarrow> registry_ok l \<longrightarrow> registry_ok (staged r l)"
      "\<And>I. holds l I \<Longrightarrow> view_of w = Some (held l, rev (pairs r) @ I)"
    | (same) w where "?l = l\<lparr>el_world := w\<rparr>" "view_of w = view_of (el_world l)"
    | (invalid) w I' where "?l = l\<lparr>el_invalidated := True, el_event_fd := - 1, el_epoll_fd := - 1, el_world := w\<rparr>"
        "view_of w = Some ({#}, I')"
    unfolding registration_post_def by blast
  then have "loop_holds ?l \<and> (int_descriptors env \<longrightarrow> loop_agrees l \<longrightarrow> loop_agrees ?l)"
  proof cases
    case added
    have h: "loop_holds ?l"
      using added(1) added(3) [OF I] assms by (auto simp: loop_holds_def holds_def held_def staged_def)
    have "loop_agrees ?l" if i: "int_descriptors env" and a: "loop_agrees l"
    proof (cases "el_epoll_fd l < 0")
      case True
      then have "?l = l" by (simp add: loop_register_def)
      then show ?thesis using a by simp
    next
      case False
      then have e: "holds l (rev (registered (el_sources l)) @ [(el_event_fd l, kControlToken)])" "registry_ok l"
        using a by (simp_all add: loop_agrees_def)
      have "registry_ok ?l" using added(1,2) i e(2) by (simp add: registry_ok_def)
      moreover have "registered (el_sources ?l) = registered (el_sources l) @ pairs r"
        using added(1) by (simp add: staged_def registered_def)
      ultimately show ?thesis
        using added(1) added(3) [OF e(1)] False
        by (simp add: loop_agrees_def holds_def held_def staged_def)
    qed
    with h show ?thesis by blast
  next
    case same
    then show ?thesis using kept_invariants [of ?l l] kept_world assms by (simp add: kept_world)
  next
    case invalid
    then show ?thesis by (simp add: loop_holds_def loop_agrees_def holds_def held_def registry_ok_def)
  qed
  then show "loop_holds ?l" "int_descriptors env \<Longrightarrow> loop_agrees l \<Longrightarrow> loop_agrees ?l" by blast+
qed

lemma initialize_invariants:
  assumes "loop_holds l"
  shows "loop_holds (snd (loop_initialize (traced env) l))"
    and "loop_agrees l \<Longrightarrow> loop_agrees (snd (loop_initialize (traced env) l))"
proof -
  obtain I where I: "holds l I" using assms by (auto simp: loop_holds_def)
  let ?l = "snd (loop_initialize (traced env) l)"
  from initialize_post [OF I, of env]
  consider (same) w I' where "?l = l\<lparr>el_world := w\<rparr>" "view_of w = Some (held l, I')" "0 \<le> el_epoll_fd l \<longrightarrow> I' = I"
    | (new) w e v where "el_epoll_fd l < 0" "\<not> el_invalidated l" "0 \<le> e" "0 \<le> v"
        "?l = l\<lparr>el_world := w, el_epoll_fd := e, el_event_fd := v\<rparr>" "view_of w = Some ({#e, v#}, [(v, kControlToken)])"
    by (auto split: prod.splits)
  then have "loop_holds ?l \<and> (loop_agrees l \<longrightarrow> loop_agrees ?l)"
  proof cases
    case same
    have "holds l J \<Longrightarrow> J = I" for J using I by (simp add: holds_def)
    then show ?thesis
      using same assms by (auto simp: loop_holds_def loop_agrees_def holds_def registry_ok_def)
  next
    case new
    then show ?thesis
      by (auto simp: loop_holds_def loop_agrees_def holds_def held_def registry_ok_def registered_def add_mset_commute)
  qed
  then show "loop_holds ?l" "loop_agrees l \<Longrightarrow> loop_agrees ?l" by blast+
qed

lemma loop_step_holds:
  assumes "close_returns env \<or> op \<noteq> Loop_close" "loop_holds l"
  shows "loop_holds (loop_step (traced env) op l)"
proof -
  obtain I where I: "holds l I" using assms by (auto simp: loop_holds_def)
  show ?thesis
  proof (cases op)
    case Loop_close
    then have "close_returns env" using assms(1) by simp
    from close_post [OF this I] show ?thesis using Loop_close by (auto simp: loop_holds_def holds_def held_def)
  qed (use assms initialize_invariants register_invariants kept_invariants [OF wait_once_kept [OF I]]
        kept_invariants [OF wake_kept [OF I]] in auto)
qed

lemma loop_step_agrees:
  assumes "int_descriptors env" "op \<noteq> Loop_close" "loop_holds l" "loop_agrees l"
  shows "loop_agrees (loop_step (traced env) op l)"
proof -
  obtain I where I: "holds l I" using assms by (auto simp: loop_holds_def)
  show ?thesis
    by (cases op) (use assms initialize_invariants register_invariants kept_invariants [OF wait_once_kept [OF I]]
        kept_invariants [OF wake_kept [OF I]] in auto)
qed

lemma loop_run_holds:
  "close_returns env \<or> Loop_close \<notin> set ops \<Longrightarrow> loop_holds l \<Longrightarrow> loop_holds (loop_run (traced env) ops l)"
  unfolding loop_run_def by (induction ops arbitrary: l) (auto simp: loop_step_holds)

lemma loop_run_agrees:
  "int_descriptors env \<Longrightarrow> Loop_close \<notin> set ops \<Longrightarrow> loop_holds l \<Longrightarrow> loop_agrees l \<Longrightarrow>
     loop_agrees (loop_run (traced env) ops l)"
  unfolding loop_run_def by (induction ops arbitrary: l) (auto simp: loop_step_holds loop_step_agrees)

lemma loop_new_invariants: "loop_holds (loop_new b (w, []))" "loop_agrees (loop_new b (w, []))"
  by (auto simp: loop_holds_def loop_agrees_def loop_new_def holds_def held_def view_of_def registry_ok_def registered_def)

text \<open>C32: descriptors of the reactor. Let a program initialize, register, wait, wake and close in any
  order and destroy the loop in the end, over any kernel. Then every call has been made on a descriptor
  that the loop had opened and not yet closed, and every epoll instance and eventfd it ever opened has
  been closed exactly once, on every error path, exceptions included.\<close>

theorem loop_descriptors_closed_once:
  assumes "close_returns env"
  shows "\<exists>I. rt_view (snd (el_world (loop_destroy (traced env) (loop_run (traced env) ops (loop_new has_api (w, [])))))) ({#}, [])
    = Some ({#}, I)"
proof -
  obtain I where "holds (loop_run (traced env) ops (loop_new has_api (w, []))) I"
    using loop_run_holds [OF disjI1 [OF assms] loop_new_invariants(1)] unfolding loop_holds_def by blast
  from close_post [OF assms this] show ?thesis by (auto simp: loop_destroy_def view_of_def)
qed

text \<open>A kernel in which everything succeeds: descriptors are numbered by the calls, source \<open>s\<close> has the
  descriptor \<open>100 + s\<close>, and each wait reports the eventfd and the first registered descriptor.\<close>

definition tame_kernel :: "nat loop_env" where
  "tame_kernel =
     \<lparr>le_call = (\<lambda>c w. (Ret \<lparr>rt_result = (case c of Epoll_create \<Rightarrow> 3 + int w | Create_event_fd \<Rightarrow> 3 + int w
                             | Epoll_wait _ _ _ \<Rightarrow> 2 | _ \<Rightarrow> 0),
           rt_error = 0, rt_events = [\<lparr>ee_events = ePOLLIN, ee_token = 0\<rparr>, \<lparr>ee_events = ePOLLIN, ee_token = 1\<rparr>],
           rt_time = \<lparr>tv_sec = 0, tv_nsec = 0\<rparr>\<rparr>, w + 1)),
      le_poll = (\<lambda>s w. (Ret (Inr [\<lparr>pfd_fd = 100 + int (min s 9), pfd_events = pOLLIN, pfd_revents = 0\<rparr>]), w)),
      le_evaluate = (\<lambda>s fds w. (Ret (Inr (\<exists>d\<in>set fds. pfd_revents d \<noteq> 0)), w))\<rparr>"

lemma tame_kernel_documented: "close_returns tame_kernel" "int_descriptors tame_kernel"
  by (auto simp: close_returns_def int_descriptors_def tame_kernel_def min_def)

definition tame_ops :: "loop_op list" where
  "tame_ops = [Loop_initialize, Loop_register None (Some 7) (Some 0), Loop_register None (Some 8) (Some 1),
     Loop_wait None, Loop_wake]"

definition tame_loop :: "nat traced_world event_loop" where
  "tame_loop = loop_run (traced tame_kernel) tame_ops (loop_new True (0, []))"

theorem loop_descriptors_closed_once_witness:
  "\<exists>I. rt_view (snd (el_world (loop_destroy (traced tame_kernel)
       (loop_run (traced tame_kernel) tame_ops (loop_new True (0, [])))))) ({#}, []) = Some ({#}, I)"
  by (rule loop_descriptors_closed_once [OF tame_kernel_documented(1)])

subsection \<open>The interest list\<close>

lemma set_targets:
  "(t, i, j) \<in> set (targets k rs) \<longleftrightarrow>
     k \<le> i \<and> i - k < length rs \<and> j < length (sr_tokens (rs ! (i - k))) \<and> sr_tokens (rs ! (i - k)) ! j = t"
proof (induction rs arbitrary: k)
  case Nil
  then show ?case by simp
next
  case (Cons r rs)
  have "(t, i, j) \<in> set (zip (sr_tokens r) (map (Pair k) [0..<length (sr_tokens r)]))
      \<longleftrightarrow> i = k \<and> j < length (sr_tokens r) \<and> sr_tokens r ! j = t"
    by (auto simp: set_zip)
  with Cons.IH [of "Suc k"] show ?case
    by (cases "i = k") (auto simp: nth_Cons' Suc_diff_le less_Suc_eq_le Suc_le_eq diff_Suc split: nat.splits)
qed

lemma targets_tokens:
  "\<forall>r\<in>set rs. length (sr_tokens r) = length (sr_descriptors r) \<Longrightarrow> map fst (targets k rs) = map snd (registered rs)"
  by (induction rs arbitrary: k) (auto simp: registered_def pairs_simps)

lemma tokens_distinct:
  assumes "registry_ok l"
  shows "distinct (map snd (registered (el_sources l)))" "0 \<notin> set (map snd (registered (el_sources l)))"
proof -
  let ?n = "length (registered (el_sources l))"
  have "distinct (map fst (registered (el_sources l)))" "set (map fst (registered (el_sources l))) \<subseteq> {0..<2147483648}"
    using assms by (auto simp: registry_ok_def)
  then have n: "?n \<le> 2147483648"
    using card_mono [of "{0..<2147483648 :: int}" "set (map fst (registered (el_sources l)))"]
    by (simp add: distinct_card del: set_map)
  have eq: "map snd (registered (el_sources l)) = map (of_nat :: nat \<Rightarrow> 64 word) [1..<Suc ?n]"
    using assms by (simp add: registry_ok_def del: upt_Suc)
  have un: "unat (of_nat k :: 64 word) = k" if "k < Suc ?n" for k
    using that n by (simp add: unat_of_nat)
  then have "inj_on (of_nat :: nat \<Rightarrow> 64 word) (set [1..<Suc ?n])" by (intro inj_onI) (metis atLeastLessThan_iff set_upt)
  then show "distinct (map snd (registered (el_sources l)))" unfolding eq distinct_map by (simp del: upt_Suc)
  have "(of_nat k :: 64 word) \<noteq> 0" if "1 \<le> k" "k < Suc ?n" for k using un [OF that(2)] that(1) by (metis not_one_le_zero unat_0)
  then show "0 \<notin> set (map snd (registered (el_sources l)))" unfolding eq by (auto simp del: upt_Suc simp: image_iff)
qed

lemma tokens_lead:
  assumes "registry_ok l"
  shows "omap_find (el_tokens l) t = Some (i, j) \<longleftrightarrow>
     i < length (el_sources l) \<and> j < length (sr_descriptors (el_sources l ! i)) \<and> sr_tokens (el_sources l ! i) ! j = t"
proof -
  have len: "\<forall>r\<in>set (el_sources l). length (sr_tokens r) = length (sr_descriptors r)"
    using assms by (simp add: registry_ok_def)
  have "distinct (map fst (targets 0 (el_sources l)))"
    using tokens_distinct(1) [OF assms] by (simp only: targets_tokens [OF len])
  then have "map_of (targets 0 (el_sources l)) t = Some (i, j) \<longleftrightarrow> (t, i, j) \<in> set (targets 0 (el_sources l))"
    by (rule map_of_eq_Some_iff)
  then show ?thesis
    using assms len by (auto simp: registry_ok_def set_targets)
qed

text \<open>C31: the reactor and the kernel agree. After any sequence of operations short of \<open>close\<close>, with
  system calls failing or throwing in any place, a loop that is still usable has exactly the eventfd,
  under the control token, and the descriptors of its registered sources, each under its own token, in
  the kernel's interest list: no registration that was reported as failed has left a descriptor behind.
  The tokens are different from each other and from the control token, and each leads to the descriptor
  it was given for, so that an event is never attributed to another source.\<close>

theorem loop_kernel_agrees:
  assumes "int_descriptors env" "Loop_close \<notin> set ops"
    and "l = loop_run (traced env) ops (loop_new has_api (w, []))" "0 \<le> el_epoll_fd l"
  shows "(\<exists>fds. rt_view (snd (el_world l)) ({#}, []) = Some (fds, rev (registered (el_sources l)) @ [(el_event_fd l, kControlToken)]))
    \<and> distinct (kControlToken # map snd (registered (el_sources l)))
    \<and> (omap_find (el_tokens l) t = Some (i, j) \<longleftrightarrow>
         i < length (el_sources l) \<and> j < length (sr_descriptors (el_sources l ! i)) \<and> sr_tokens (el_sources l ! i) ! j = t)"
proof -
  have a: "loop_agrees l"
    using loop_run_agrees [OF assms(1,2) loop_new_invariants] by (simp add: assms(3))
  then have ok: "registry_ok l" "holds l (rev (registered (el_sources l)) @ [(el_event_fd l, kControlToken)])"
    using assms(4) by (simp_all add: loop_agrees_def)
  then show ?thesis
    using tokens_lead [OF ok(1)] tokens_distinct [OF ok(1)]
    by (auto simp: holds_def view_of_def kControlToken_def)
qed

lemma tame_loop_state: "el_epoll_fd tame_loop = 3" "el_event_fd tame_loop = 4"
  "registered (el_sources tame_loop) = [(100, 1), (101, 2)]"
  by code_simp+

theorem loop_kernel_agrees_witness:
  "\<exists>fds. rt_view (snd (el_world tame_loop)) ({#}, []) = Some (fds, [(101, 2), (100, 1), (4, kControlToken)])"
proof -
  have "Loop_close \<notin> set tame_ops" by (simp add: tame_ops_def)
  from loop_kernel_agrees [OF tame_kernel_documented(2) this tame_loop_def] show ?thesis
    by (simp add: tame_loop_state)
qed

end
