(* ===== verification/V4l2_System.thy ===== *)
theory V4l2_System
  imports Posix Capture_Config
begin

text \<open>
  \<open>src/platform/linux/v4l2_system.cpp\<close>: the capture device of Video4Linux with its memory-mapped
  buffers. The virtual functions of \<open>V4L2Api\<close> (one system call each) are the constructors of
  \<open>v4l2_call\<close>, with the arguments the code passes; \<open>v4l2_api\<close> answers a call from a state \<open>'w\<close> of its own,
  or throws. An \<open>ioctl\<close> reads and writes the structure it is given: \<open>ioctl_arg\<close> has one field for each
  structure the code uses, and only the one of the request matters.
\<close>

subsection \<open>The kernel's structures\<close>

definition CAP_VIDEO_CAPTURE :: "32 word" where "CAP_VIDEO_CAPTURE = 0x00000001"
definition CAP_STREAMING :: "32 word" where "CAP_STREAMING = 0x04000000"
definition CAP_DEVICE_CAPS :: "32 word" where "CAP_DEVICE_CAPS = 0x80000000"
definition CAP_TIMEPERFRAME :: "32 word" where "CAP_TIMEPERFRAME = 0x1000"
definition BUF_TYPE_VIDEO_CAPTURE :: "32 word" where "BUF_TYPE_VIDEO_CAPTURE = 1"
definition MEMORY_MMAP :: "32 word" where "MEMORY_MMAP = 1"
definition FIELD_ANY :: "32 word" where "FIELD_ANY = 0"
definition PIX_FMT_YUV420 :: "32 word" where "PIX_FMT_YUV420 = 0x32315559"
definition PIX_FMT_NV12 :: "32 word" where "PIX_FMT_NV12 = 0x3231564E"
definition PIX_FMT_YUYV :: "32 word" where "PIX_FMT_YUYV = 0x56595559"

record v4l2_capability =
  cp_capabilities :: "32 word"
  cp_device_caps :: "32 word"

record v4l2_pix =
  px_width :: "32 word"
  px_height :: "32 word"
  px_pixelformat :: "32 word"
  px_field :: "32 word"
  px_bytesperline :: "32 word"
  px_sizeimage :: "32 word"

record v4l2_format =
  fm_type :: "32 word"
  fm_pix :: v4l2_pix

record v4l2_streamparm =
  sp_type :: "32 word"
  sp_capability :: "32 word"
  sp_numerator :: "32 word"
  sp_denominator :: "32 word"

record v4l2_requestbuffers =
  rb_count :: "32 word"
  rb_type :: "32 word"
  rb_memory :: "32 word"

record timeval =
  tv_secs :: int
  tv_usec :: int

record v4l2_buffer =
  vb_index :: "32 word"
  vb_type :: "32 word"
  vb_bytesused :: "32 word"
  vb_flags :: "32 word"
  vb_timestamp :: timeval
  vb_sequence :: "32 word"
  vb_memory :: "32 word"
  vb_offset :: "32 word"
  vb_length :: "32 word"

record ioctl_arg =
  ia_capability :: v4l2_capability
  ia_format :: v4l2_format
  ia_parm :: v4l2_streamparm
  ia_request :: v4l2_requestbuffers
  ia_buffer :: v4l2_buffer
  ia_type :: "32 word"

text \<open>\<open>memset\<close> to zero.\<close>

definition zero_pix :: v4l2_pix where
  "zero_pix = \<lparr>px_width = 0, px_height = 0, px_pixelformat = 0, px_field = 0, px_bytesperline = 0, px_sizeimage = 0\<rparr>"

definition zero_buffer :: v4l2_buffer where
  "zero_buffer = \<lparr>vb_index = 0, vb_type = 0, vb_bytesused = 0, vb_flags = 0,
     vb_timestamp = \<lparr>tv_secs = 0, tv_usec = 0\<rparr>, vb_sequence = 0, vb_memory = 0, vb_offset = 0, vb_length = 0\<rparr>"

definition zero_arg :: ioctl_arg where
  "zero_arg = \<lparr>ia_capability = \<lparr>cp_capabilities = 0, cp_device_caps = 0\<rparr>,
     ia_format = \<lparr>fm_type = 0, fm_pix = zero_pix\<rparr>,
     ia_parm = \<lparr>sp_type = 0, sp_capability = 0, sp_numerator = 0, sp_denominator = 0\<rparr>,
     ia_request = \<lparr>rb_count = 0, rb_type = 0, rb_memory = 0\<rparr>, ia_buffer = zero_buffer, ia_type = 0\<rparr>"

datatype v4l2_request = VIDIOC_QUERYCAP | VIDIOC_S_FMT | VIDIOC_G_FMT | VIDIOC_S_PARM | VIDIOC_G_PARM
  | VIDIOC_REQBUFS | VIDIOC_QUERYBUF | VIDIOC_QBUF | VIDIOC_DQBUF | VIDIOC_STREAMON | VIDIOC_STREAMOFF

datatype v4l2_open_flag = O_RDWR | O_NONBLOCK | O_CLOEXEC

text \<open>A mapping is always readable, writable and shared, at an address the kernel chooses.\<close>

datatype v4l2_call =
    Open_device string "v4l2_open_flag list"
  | Device_ioctl int v4l2_request ioctl_arg
  | Map_memory size_t int int
  | Unmap_memory size_t size_t
  | Close_device int

text \<open>The result, what \<open>last_error\<close> says after it, the structure and the address (\<open>None\<close> is
  \<open>MAP_FAILED\<close>).\<close>

record v4l2_reply =
  vr_result :: int
  vr_error :: int
  vr_arg :: ioctl_arg
  vr_address :: "size_t option"

record 'w v4l2_api =
  va_call :: "v4l2_call \<Rightarrow> 'w \<Rightarrow> v4l2_reply outcome \<times> 'w"
  va_max_offset :: "64 word"
  va_strerror :: "int \<Rightarrow> string"

record v4l2_negotiated =
  vn_format :: video_format
  vn_capacity :: size_t
  vn_visible_rows :: "size_t list"
  vn_offsets :: "size_t list"

record v4l2_dequeued =
  dq_index :: "32 word"
  dq_data :: size_t
  dq_mapped_length :: size_t
  dq_bytesused :: "32 word"
  dq_flags :: "32 word"
  dq_sequence :: "32 word"
  dq_timestamp :: timeval

datatype v4l2_state = V4l2_created | V4l2_prepared | V4l2_running

record v4l2_region =
  rg_address :: size_t
  rg_length :: size_t

record 'w v4l2_system =
  vs_has_api :: bool
  vs_fd :: int
  vs_regions :: "v4l2_region list"
  vs_allocated :: bool
  vs_negotiated :: "v4l2_negotiated option"
  vs_state :: v4l2_state
  vs_world :: 'w

definition v4l2_new :: "bool \<Rightarrow> 'w \<Rightarrow> 'w v4l2_system" where
  "v4l2_new has_api w = \<lparr>vs_has_api = has_api, vs_fd = - 1, vs_regions = [], vs_allocated = False,
     vs_negotiated = None, vs_state = V4l2_created, vs_world = w\<rparr>"

subsection \<open>Errors\<close>

definition eIO :: int where "eIO = 5"

definition v4l2_error_code :: "int \<Rightarrow> status_code" where
  "v4l2_error_code n =
     (if n = eNOENT then kNotFound
      else if n = eNODEV \<or> n = eNXIO then kDeviceLost
      else if n = eNOMEM then kResourceExhausted
      else kIoError)"

definition dequeue_error_code :: "int \<Rightarrow> status_code" where
  "dequeue_error_code n =
     (if n = eAGAIN then kWouldBlock
      else if n = eNODEV \<or> n = eNXIO \<or> n = eIO then kDeviceLost
      else v4l2_error_code n)"

definition v4l2_failure :: "status_code \<Rightarrow> string \<Rightarrow> string \<Rightarrow> int \<Rightarrow> status" where
  "v4l2_failure code message operation native = status_native code message ''v4l2'' operation native"

definition syscall_failure :: "'w v4l2_api \<Rightarrow> string \<Rightarrow> int \<Rightarrow> status" where
  "syscall_failure api operation n = v4l2_failure (v4l2_error_code n) (va_strerror api n) operation n"

definition contract_failure :: "string \<Rightarrow> string \<Rightarrow> status" where
  "contract_failure operation message = v4l2_failure kCapabilityMismatch message operation 0"

definition dequeue_failure :: "'w v4l2_api \<Rightarrow> int \<Rightarrow> status" where
  "dequeue_failure api n = v4l2_failure (dequeue_error_code n) (va_strerror api n) ''VIDIOC_DQBUF'' n"

definition remember_first :: "status \<Rightarrow> status \<Rightarrow> status" where
  "remember_first first_failure candidate =
     (if st_ok first_failure \<and> \<not> st_ok candidate then candidate else first_failure)"

lemma v4l2_failures [simp]:
  "st_code (v4l2_failure c m op n) = c" "st_ok (v4l2_failure c m op n) \<longleftrightarrow> c = kOk"
  "v4l2_error_code n \<noteq> kOk" "dequeue_error_code n \<noteq> kOk"
  "\<not> st_ok (syscall_failure api op n)" "\<not> st_ok (contract_failure op m)" "\<not> st_ok (dequeue_failure api n)"
  by (auto simp: v4l2_failure_def v4l2_error_code_def dequeue_error_code_def syscall_failure_def
      contract_failure_def dequeue_failure_def)

subsection \<open>Numbers\<close>

definition checked_multiply_u64 :: "64 word \<Rightarrow> 64 word \<Rightarrow> 64 word option" where
  "checked_multiply_u64 left right =
     (if left \<noteq> 0 \<and> right > (- 1) div left then None else Some (left * right))"

definition equivalent_frame_interval :: "32 word \<Rightarrow> 32 word \<Rightarrow> int \<Rightarrow> int \<Rightarrow> bool" where
  "equivalent_frame_interval actual_numerator actual_denominator fps_numerator fps_denominator =
     (if actual_numerator = 0 \<or> actual_denominator = 0 \<or> fps_numerator \<le> 0 \<or> fps_denominator \<le> 0 then False
      else case (checked_multiply_u64 (ucast actual_numerator) (word_of_int fps_numerator),
                 checked_multiply_u64 (ucast actual_denominator) (word_of_int fps_denominator)) of
        (Some actual_scaled, Some requested_scaled) \<Rightarrow> actual_scaled = requested_scaled
      | _ \<Rightarrow> False)"

definition uint32_to_size :: "32 word \<Rightarrow> size_t option" where
  "uint32_to_size value = (if uint value > 2 ^ 64 - 1 then None else Some (ucast value))"

definition size_to_uint32 :: "size_t \<Rightarrow> 32 word option" where
  "size_to_uint32 value = (if value > 0xFFFFFFFF then None else Some (ucast value))"

definition uint32_to_offset :: "32 word \<Rightarrow> 64 word \<Rightarrow> int option" where
  "uint32_to_offset value maximum_mappable_offset =
     (if ucast value > maximum_mappable_offset \<or> uint value > int64_max then None else Some (uint value))"

definition v4l2_pixel_format :: "pixel_format \<Rightarrow> 32 word option" where
  "v4l2_pixel_format p =
     (case p of kYuv420p \<Rightarrow> Some PIX_FMT_YUV420 | kNv12 \<Rightarrow> Some PIX_FMT_NV12 | kYuyv422 \<Rightarrow> Some PIX_FMT_YUYV
      | PixelUnknown \<Rightarrow> None | kRgb24 \<Rightarrow> None)"

subsection \<open>The negotiated layout\<close>

text \<open>Planes, visible bytes of a row and offsets; the vectors have been reserved, so that appending
  does not fail.\<close>

type_synonym plane_vectors = "plane_layout list \<times> size_t list \<times> size_t list"

definition append_plane ::
  "size_t \<Rightarrow> size_t \<Rightarrow> size_t \<Rightarrow> size_t \<Rightarrow> plane_vectors \<Rightarrow> plane_vectors" where
  "append_plane offset plane_size stride visible_row_bytes v =
     (case v of (planes, visible_rows, source_offsets) \<Rightarrow>
        (planes @ [plane_layout_of offset plane_size stride], visible_rows @ [visible_row_bytes],
         source_offsets @ [offset]))"

text \<open>Where the last plane ends, and the planes.\<close>

definition yuv420_layout :: "size_t \<Rightarrow> size_t \<Rightarrow> size_t \<Rightarrow> (size_t \<times> plane_vectors) result" where
  "yuv420_layout stride visible_width rows =
     (let padding = err (contract_failure ''VIDIOC_G_FMT'' ''V4L2 YUV420 padding is invalid'');
          overflow = err (contract_failure ''VIDIOC_G_FMT'' ''V4L2 YUV420 layout overflows'')
      in if stride < visible_width \<or> stride mod 2 \<noteq> 0 then padding
         else case checked_multiply stride rows of None \<Rightarrow> padding | Some first_size \<Rightarrow>
         let chroma_stride = stride div 2 in
         case checked_multiply chroma_stride (rows div 2) of None \<Rightarrow> overflow | Some second_size \<Rightarrow>
         case checked_add first_size second_size of None \<Rightarrow> overflow | Some third_offset \<Rightarrow>
         case checked_add third_offset second_size of None \<Rightarrow> overflow | Some required_end \<Rightarrow>
         Inr (required_end,
           append_plane third_offset second_size chroma_stride (visible_width div 2)
             (append_plane first_size second_size chroma_stride (visible_width div 2)
               (append_plane 0 first_size stride visible_width ([], [], [])))))"

definition nv12_layout :: "size_t \<Rightarrow> size_t \<Rightarrow> size_t \<Rightarrow> (size_t \<times> plane_vectors) result" where
  "nv12_layout stride visible_width rows =
     (let invalid = err (contract_failure ''VIDIOC_G_FMT'' ''V4L2 NV12 padding is invalid or overflows'')
      in if stride < visible_width then invalid
         else case checked_multiply stride rows of None \<Rightarrow> invalid | Some first_size \<Rightarrow>
         case checked_multiply stride (rows div 2) of None \<Rightarrow> invalid | Some second_size \<Rightarrow>
         case checked_add first_size second_size of None \<Rightarrow> invalid | Some required_end \<Rightarrow>
         Inr (required_end,
           append_plane first_size second_size stride visible_width
             (append_plane 0 first_size stride visible_width ([], [], []))))"

definition yuyv_layout :: "size_t \<Rightarrow> size_t \<Rightarrow> size_t \<Rightarrow> (size_t \<times> plane_vectors) result" where
  "yuyv_layout stride visible_width rows =
     (let invalid = err (contract_failure ''VIDIOC_G_FMT'' ''V4L2 YUYV padding is invalid or overflows'')
      in case checked_multiply visible_width 2 of None \<Rightarrow> invalid | Some visible_bytes \<Rightarrow>
         if stride < visible_bytes then invalid
         else case checked_multiply stride rows of None \<Rightarrow> invalid | Some required_end \<Rightarrow>
         Inr (required_end, append_plane 0 required_end stride visible_bytes ([], [], [])))"

definition v4l2_layout :: "pixel_format \<Rightarrow> size_t \<Rightarrow> size_t \<Rightarrow> size_t \<Rightarrow> (size_t \<times> plane_vectors) result" where
  "v4l2_layout p stride visible_width rows =
     (case p of
        kYuv420p \<Rightarrow> yuv420_layout stride visible_width rows
      | kNv12 \<Rightarrow> nv12_layout stride visible_width rows
      | kYuyv422 \<Rightarrow> yuyv_layout stride visible_width rows
      | PixelUnknown \<Rightarrow> err (contract_failure ''VIDIOC_G_FMT'' ''V4L2 pixel format is unsupported'')
      | kRgb24 \<Rightarrow> err (contract_failure ''VIDIOC_G_FMT'' ''V4L2 pixel format is unsupported''))"

definition make_negotiated_format ::
  "throws \<Rightarrow> pixel_format \<Rightarrow> int \<Rightarrow> int \<Rightarrow> v4l2_pix \<Rightarrow> v4l2_negotiated result outcome" where
  "make_negotiated_format h p width height pixel =
     (case (uint32_to_size (px_bytesperline pixel), uint32_to_size (px_sizeimage pixel)) of
        (Some stride, Some capacity) \<Rightarrow>
          (case h S_v4l2_planes of
             Some Bad_alloc \<Rightarrow> Ret (err (v4l2_failure kResourceExhausted ''failed to allocate V4L2 format metadata''
                                 ''VIDIOC_G_FMT'' eNOMEM))
           | Some e \<Rightarrow> Throw e
           | None \<Rightarrow>
          (case v4l2_layout p stride (size_of_int width) (size_of_int height) of
             Inl s \<Rightarrow> Ret (err s)
           | Inr (required_end, planes, visible_rows, source_offsets) \<Rightarrow>
          if capacity < required_end
          then Ret (err (contract_failure ''VIDIOC_G_FMT'' ''V4L2 sizeimage does not cover the final plane''))
          else (case video_format_create h p width height kMmap planes RangeUnknown PrimariesUnknown
                       TransferUnknown MatrixUnknown of
             Inl s \<Rightarrow> Ret (err (contract_failure ''VIDIOC_G_FMT''
                        ''V4L2 negotiated layout is not a valid video format''))
           | Inr format \<Rightarrow>
          (case h S_v4l2_negotiated of
             Some Bad_alloc \<Rightarrow> Ret (err (v4l2_failure kResourceExhausted
                                 ''failed to allocate V4L2 negotiated format'' ''VIDIOC_G_FMT'' eNOMEM))
           | Some e \<Rightarrow> Ret (err (v4l2_failure kInternal ''failed to create V4L2 negotiated format''
                                 ''VIDIOC_G_FMT'' 0))
           | None \<Rightarrow> Ret (Inr \<lparr>vn_format = format, vn_capacity = capacity, vn_visible_rows = visible_rows,
                              vn_offsets = source_offsets\<rparr>)))))
      | _ \<Rightarrow> Ret (err (contract_failure ''VIDIOC_G_FMT'' ''V4L2 format sizes are not representable'')))"

subsection \<open>System calls\<close>

definition v4l2_call_api :: "'w v4l2_api \<Rightarrow> v4l2_call \<Rightarrow> 'w v4l2_system \<Rightarrow> v4l2_reply outcome \<times> 'w v4l2_system" where
  "v4l2_call_api api c s = (case va_call api c (vs_world s) of (r, w) \<Rightarrow> (r, s\<lparr>vs_world := w\<rparr>))"

definition kMaximumInterruptedAttempts :: nat where
  "kMaximumInterruptedAttempts = 64"

text \<open>The first argument is how often a call that is interrupted is repeated.\<close>

primrec open_attempts ::
  "nat \<Rightarrow> 'w v4l2_api \<Rightarrow> string \<Rightarrow> v4l2_open_flag list \<Rightarrow> 'w v4l2_system \<Rightarrow> v4l2_reply outcome \<times> 'w v4l2_system" where
  "open_attempts 0 api path flags s = v4l2_call_api api (Open_device path flags) s"
| "open_attempts (Suc n) api path flags s =
     (case v4l2_call_api api (Open_device path flags) s of
        (Throw e, s) \<Rightarrow> (Throw e, s)
      | (Ret r, s) \<Rightarrow>
          if vr_result r \<ge> 0 \<or> vr_error r \<noteq> eINTR then (Ret r, s) else open_attempts n api path flags s)"

definition bounded_open ::
  "'w v4l2_api \<Rightarrow> string \<Rightarrow> v4l2_open_flag list \<Rightarrow> 'w v4l2_system \<Rightarrow> v4l2_reply outcome \<times> 'w v4l2_system" where
  "bounded_open api = open_attempts (kMaximumInterruptedAttempts - 1) api"

text \<open>An interrupted \<open>ioctl\<close> is repeated with the structure as the kernel has left it.\<close>

primrec ioctl_attempts ::
  "nat \<Rightarrow> 'w v4l2_api \<Rightarrow> v4l2_request \<Rightarrow> ioctl_arg \<Rightarrow> 'w v4l2_system \<Rightarrow> v4l2_reply outcome \<times> 'w v4l2_system" where
  "ioctl_attempts 0 api request argument s = v4l2_call_api api (Device_ioctl (vs_fd s) request argument) s"
| "ioctl_attempts (Suc n) api request argument s =
     (case v4l2_call_api api (Device_ioctl (vs_fd s) request argument) s of
        (Throw e, s) \<Rightarrow> (Throw e, s)
      | (Ret r, s) \<Rightarrow>
          if vr_result r \<ge> 0 \<or> vr_error r \<noteq> eINTR then (Ret r, s) else ioctl_attempts n api request (vr_arg r) s)"

definition bounded_ioctl ::
  "'w v4l2_api \<Rightarrow> v4l2_request \<Rightarrow> ioctl_arg \<Rightarrow> 'w v4l2_system \<Rightarrow> v4l2_reply outcome \<times> 'w v4l2_system" where
  "bounded_ioctl api = ioctl_attempts (kMaximumInterruptedAttempts - 1) api"

definition capture_type :: ioctl_arg where
  "capture_type = zero_arg\<lparr>ia_type := BUF_TYPE_VIDEO_CAPTURE\<rparr>"

definition capture_buffer :: "32 word \<Rightarrow> ioctl_arg" where
  "capture_buffer index = zero_arg\<lparr>ia_buffer := zero_buffer\<lparr>vb_type := BUF_TYPE_VIDEO_CAPTURE,
     vb_memory := MEMORY_MMAP, vb_index := index\<rparr>\<rparr>"

definition capture_request :: "32 word \<Rightarrow> ioctl_arg" where
  "capture_request buffers = zero_arg\<lparr>ia_request := \<lparr>rb_count = buffers, rb_type = BUF_TYPE_VIDEO_CAPTURE,
     rb_memory = MEMORY_MMAP\<rparr>\<rparr>"

subsection \<open>Giving everything back\<close>

text \<open>The regions, the last one first; what the calls say does not matter, and neither do exceptions.\<close>

fun cleanup_regions :: "'w v4l2_api \<Rightarrow> v4l2_region list \<Rightarrow> 'w v4l2_system \<Rightarrow> 'w v4l2_system" where
  "cleanup_regions api [] s = s"
| "cleanup_regions api (region # previous) s =
     (let s = s\<lparr>vs_regions := rev previous\<rparr>
      in cleanup_regions api previous
           (if vs_has_api s then snd (v4l2_call_api api (Unmap_memory (rg_address region) (rg_length region)) s) else s))"

definition cleanup_stream :: "'w v4l2_api \<Rightarrow> 'w v4l2_system \<Rightarrow> 'w v4l2_system" where
  "cleanup_stream api s =
     (if vs_state s = V4l2_running \<and> vs_fd s \<ge> 0 \<and> vs_has_api s
      then snd (bounded_ioctl api VIDIOC_STREAMOFF capture_type s) else s)"

definition cleanup_buffers :: "'w v4l2_api \<Rightarrow> 'w v4l2_system \<Rightarrow> 'w v4l2_system" where
  "cleanup_buffers api s =
     (if vs_allocated s
      then let s = s\<lparr>vs_allocated := False\<rparr>
        in if vs_has_api s \<and> vs_fd s \<ge> 0
           then snd (bounded_ioctl api VIDIOC_REQBUFS (capture_request 0) s) else s
      else s)"

definition cleanup_close :: "'w v4l2_api \<Rightarrow> 'w v4l2_system \<Rightarrow> 'w v4l2_system" where
  "cleanup_close api s =
     (if vs_fd s \<ge> 0
      then let descriptor = vs_fd s; s = s\<lparr>vs_fd := - 1\<rparr>
        in if vs_has_api s then snd (v4l2_call_api api (Close_device descriptor) s) else s
      else s)"

definition cleanup_noexcept :: "'w v4l2_api \<Rightarrow> 'w v4l2_system \<Rightarrow> 'w v4l2_system" where
  "cleanup_noexcept api s =
     (let s = (cleanup_stream api s)\<lparr>vs_state := V4l2_prepared\<rparr>;
          s = cleanup_regions api (rev (vs_regions s)) s;
          s = cleanup_close api (cleanup_buffers api s)
      in s\<lparr>vs_negotiated := None, vs_state := V4l2_created\<rparr>)"

text \<open>A step of \<open>reset\<close> answers with the first failure so far and whether the step has thrown.\<close>

type_synonym 'w reset_step = "status \<times> bool \<times> 'w v4l2_system"

definition reset_call ::
  "'w v4l2_api \<Rightarrow> string \<Rightarrow> ('w v4l2_system \<Rightarrow> v4l2_reply outcome \<times> 'w v4l2_system) \<Rightarrow> status \<Rightarrow> 'w v4l2_system \<Rightarrow>
     'w reset_step" where
  "reset_call api operation f first_failure s =
     (case f s of
        (Throw e, s) \<Rightarrow> (first_failure, True, s)
      | (Ret r, s) \<Rightarrow>
          (if vr_result r < 0 then remember_first first_failure (syscall_failure api operation (vr_error r))
           else first_failure, False, s))"

fun reset_regions :: "'w v4l2_api \<Rightarrow> v4l2_region list \<Rightarrow> status \<Rightarrow> 'w v4l2_system \<Rightarrow> 'w reset_step" where
  "reset_regions api [] first_failure s = (first_failure, False, s)"
| "reset_regions api (region # previous) first_failure s =
     (let s = s\<lparr>vs_regions := rev previous\<rparr>
      in case (if vs_has_api s
               then reset_call api ''munmap''
                      (v4l2_call_api api (Unmap_memory (rg_address region) (rg_length region))) first_failure s
               else (first_failure, False, s)) of
           (first_failure, True, s) \<Rightarrow> (first_failure, True, s)
         | (first_failure, False, s) \<Rightarrow> reset_regions api previous first_failure s)"

definition reset_buffers :: "'w v4l2_api \<Rightarrow> status \<Rightarrow> 'w v4l2_system \<Rightarrow> 'w reset_step" where
  "reset_buffers api first_failure s =
     (if vs_allocated s
      then (case (if vs_has_api s \<and> vs_fd s \<ge> 0
                  then reset_call api ''VIDIOC_REQBUFS(0)''
                         (bounded_ioctl api VIDIOC_REQBUFS (capture_request 0)) first_failure s
                  else (first_failure, False, s)) of
              (first_failure, True, s) \<Rightarrow> (first_failure, True, s)
            | (first_failure, False, s) \<Rightarrow> (first_failure, False, s\<lparr>vs_allocated := False\<rparr>))
      else (first_failure, False, s))"

definition reset_close :: "'w v4l2_api \<Rightarrow> status \<Rightarrow> 'w v4l2_system \<Rightarrow> 'w reset_step" where
  "reset_close api first_failure s =
     (if vs_fd s \<ge> 0
      then let descriptor = vs_fd s; s = s\<lparr>vs_fd := - 1\<rparr>
        in if vs_has_api s
           then reset_call api ''close'' (v4l2_call_api api (Close_device descriptor)) first_failure s
           else (first_failure, False, s)
      else (first_failure, False, s))"

definition reset_stream :: "'w v4l2_api \<Rightarrow> 'w v4l2_system \<Rightarrow> 'w reset_step" where
  "reset_stream api s =
     (if vs_state s = V4l2_running \<and> vs_fd s \<ge> 0 \<and> vs_has_api s
      then reset_call api ''VIDIOC_STREAMOFF'' (bounded_ioctl api VIDIOC_STREAMOFF capture_type) ok_status s
      else (ok_status, False, s))"

text \<open>The handler of \<open>reset\<close>.\<close>

definition reset_then ::
  "'w v4l2_api \<Rightarrow> 'w reset_step \<Rightarrow> (status \<Rightarrow> 'w v4l2_system \<Rightarrow> status \<times> 'w v4l2_system) \<Rightarrow> status \<times> 'w v4l2_system" where
  "reset_then api x k =
     (case x of
        (first_failure, True, s) \<Rightarrow>
          (if \<not> st_ok first_failure then first_failure
           else v4l2_failure kInternal ''unexpected failure while resetting V4L2'' ''reset'' 0,
           cleanup_noexcept api s)
      | (first_failure, False, s) \<Rightarrow> k first_failure s)"

definition v4l2_reset :: "'w v4l2_api \<Rightarrow> 'w v4l2_system \<Rightarrow> status \<times> 'w v4l2_system" where
  "v4l2_reset api s =
     reset_then api (reset_stream api s) (\<lambda>first_failure s.
       let s = s\<lparr>vs_state := V4l2_prepared\<rparr> in
     reset_then api (reset_regions api (rev (vs_regions s)) first_failure s) (\<lambda>first_failure s.
     reset_then api (reset_buffers api first_failure s) (\<lambda>first_failure s.
     reset_then api (reset_close api first_failure s) (\<lambda>first_failure s.
       (first_failure, s\<lparr>vs_negotiated := None, vs_state := V4l2_created\<rparr>)))))"

text \<open>\<open>reset\<close> does not throw, so that the handler of \<open>rollback\<close> is never entered.\<close>

definition v4l2_rollback :: "'w v4l2_api \<Rightarrow> status \<Rightarrow> 'w v4l2_system \<Rightarrow> status \<times> 'w v4l2_system" where
  "v4l2_rollback api first_failure s = (first_failure, snd (v4l2_reset api s))"

definition v4l2_destroy :: "'w v4l2_api \<Rightarrow> 'w v4l2_system \<Rightarrow> 'w v4l2_system" where
  "v4l2_destroy api s = cleanup_noexcept api s"

text \<open>Moving: the object moved from keeps its memory of neither descriptor nor regions; both share the
  outside, whose state is that of the object that goes on.\<close>

definition v4l2_moved_from :: "'w v4l2_system \<Rightarrow> 'w v4l2_system" where
  "v4l2_moved_from other = other\<lparr>vs_has_api := False, vs_fd := - 1, vs_regions := [], vs_allocated := False,
     vs_negotiated := None, vs_state := V4l2_created\<rparr>"

definition v4l2_move :: "'w v4l2_system \<Rightarrow> 'w v4l2_system \<times> 'w v4l2_system" where
  "v4l2_move other = (other, v4l2_moved_from other)"

definition v4l2_move_assign ::
  "'w v4l2_api \<Rightarrow> 'w \<Rightarrow> bool \<Rightarrow> 'w v4l2_system \<Rightarrow> 'w v4l2_system \<Rightarrow> 'w v4l2_system \<times> 'w v4l2_system" where
  "v4l2_move_assign api w self this other =
     (if self then (this, this)
      else let cleaned = cleanup_noexcept api (this\<lparr>vs_world := w\<rparr>)
        in (other\<lparr>vs_world := vs_world cleaned\<rparr>, v4l2_moved_from other))"

subsection \<open>prepare\<close>

text \<open>An \<open>ioctl\<close> of \<open>prepare\<close>: on an error everything is given back and \<open>prepare\<close> returns, and an
  exception ends in its handlers; otherwise it goes on with \<open>k\<close>.\<close>

definition prepare_thrown :: "'w v4l2_api \<Rightarrow> exn \<Rightarrow> 'w v4l2_system \<Rightarrow> status \<times> 'w v4l2_system" where
  "prepare_thrown api e s =
     v4l2_rollback api
       (if e = Bad_alloc
        then v4l2_failure kResourceExhausted ''failed to allocate V4L2 session metadata'' ''prepare'' eNOMEM
        else v4l2_failure kInternal ''unexpected failure while preparing V4L2'' ''prepare'' 0) s"

definition prepare_call ::
  "'w v4l2_api \<Rightarrow> v4l2_request \<Rightarrow> string \<Rightarrow> ioctl_arg \<Rightarrow> (ioctl_arg \<Rightarrow> 'w v4l2_system \<Rightarrow> status \<times> 'w v4l2_system) \<Rightarrow>
     'w v4l2_system \<Rightarrow> status \<times> 'w v4l2_system" where
  "prepare_call api request operation argument k s =
     (case bounded_ioctl api request argument s of
        (Throw e, s) \<Rightarrow> prepare_thrown api e s
      | (Ret r, s) \<Rightarrow>
          if vr_result r < 0 then v4l2_rollback api (syscall_failure api operation (vr_error r)) s
          else k (vr_arg r) s)"

text \<open>Querying and mapping the buffers from \<open>index\<close> on, \<open>left\<close> of them.\<close>

fun prepare_buffers ::
  "'w v4l2_api \<Rightarrow> v4l2_negotiated \<Rightarrow> nat \<Rightarrow> nat \<Rightarrow> 'w v4l2_system \<Rightarrow> status \<times> 'w v4l2_system" where
  "prepare_buffers api negotiated index 0 s =
     (ok_status, s\<lparr>vs_negotiated := Some negotiated, vs_state := V4l2_prepared\<rparr>)"
| "prepare_buffers api negotiated index (Suc left) s =
     (case size_to_uint32 (of_nat index) of
        None \<Rightarrow> v4l2_rollback api (contract_failure ''VIDIOC_QUERYBUF'' ''V4L2 buffer index overflows'') s
      | Some query_index \<Rightarrow>
          prepare_call api VIDIOC_QUERYBUF ''VIDIOC_QUERYBUF'' (capture_buffer query_index) (\<lambda>argument s.
            let buf = ia_buffer argument;
                invalid = v4l2_rollback api (contract_failure ''VIDIOC_QUERYBUF''
                            ''V4L2 query buffer metadata is invalid or overflows'') s
            in if vb_type buf \<noteq> BUF_TYPE_VIDEO_CAPTURE \<or> vb_memory buf \<noteq> MEMORY_MMAP \<or> vb_index buf \<noteq> query_index
               then invalid
               else case uint32_to_size (vb_length buf) of None \<Rightarrow> invalid | Some region_length \<Rightarrow>
               if region_length < vn_capacity negotiated then invalid
               else case uint32_to_offset (vb_offset buf) (va_max_offset api) of None \<Rightarrow> invalid | Some offset \<Rightarrow>
               (case v4l2_call_api api (Map_memory region_length (vs_fd s) offset) s of
                  (Throw e, s) \<Rightarrow> prepare_thrown api e s
                | (Ret r, s) \<Rightarrow>
                    (case vr_address r of
                       None \<Rightarrow> v4l2_rollback api (syscall_failure api ''mmap'' (vr_error r)) s
                     | Some address \<Rightarrow>
                         prepare_buffers api negotiated (Suc index) left
                           (s\<lparr>vs_regions := vs_regions s @ [\<lparr>rg_address = address, rg_length = region_length\<rparr>]\<rparr>)))) s)"

definition prepare_request ::
  "throws \<Rightarrow> 'w v4l2_api \<Rightarrow> v4l2_config \<Rightarrow> v4l2_negotiated \<Rightarrow> 'w v4l2_system \<Rightarrow> status \<times> 'w v4l2_system" where
  "prepare_request h api c negotiated s =
     prepare_call api VIDIOC_REQBUFS ''VIDIOC_REQBUFS'' (capture_request (ucast (vc_buffers c))) (\<lambda>argument s.
       let s = s\<lparr>vs_allocated := True\<rparr>; request = ia_request argument
       in if rb_type request \<noteq> BUF_TYPE_VIDEO_CAPTURE \<or> rb_memory request \<noteq> MEMORY_MMAP \<or> rb_count request < 2
          then v4l2_rollback api (contract_failure ''VIDIOC_REQBUFS''
                 ''V4L2 driver returned an invalid MMAP buffer allocation'') s
          else case uint32_to_size (rb_count request) of
            None \<Rightarrow> v4l2_rollback api (contract_failure ''VIDIOC_REQBUFS'' ''V4L2 buffer count is not representable'') s
          | Some buffer_count \<Rightarrow>
              (case h S_v4l2_regions of
                 Some Bad_alloc \<Rightarrow> v4l2_rollback api (v4l2_failure kResourceExhausted
                   ''failed to reserve V4L2 mapped buffer metadata'' ''VIDIOC_REQBUFS'' eNOMEM) s
               | Some e \<Rightarrow> prepare_thrown api e s
               | None \<Rightarrow> prepare_buffers api negotiated 0 (unat buffer_count) s)) s"

definition prepare_interval ::
  "throws \<Rightarrow> 'w v4l2_api \<Rightarrow> v4l2_config \<Rightarrow> v4l2_negotiated \<Rightarrow> 'w v4l2_system \<Rightarrow> status \<times> 'w v4l2_system" where
  "prepare_interval h api c negotiated s =
     prepare_call api VIDIOC_S_PARM ''VIDIOC_S_PARM''
       (zero_arg\<lparr>ia_parm := \<lparr>sp_type = BUF_TYPE_VIDEO_CAPTURE, sp_capability = 0,
          sp_numerator = word_of_int (vc_rate_den c), sp_denominator = word_of_int (vc_rate_num c)\<rparr>\<rparr>) (\<lambda>_ s.
     prepare_call api VIDIOC_G_PARM ''VIDIOC_G_PARM''
       (zero_arg\<lparr>ia_parm := \<lparr>sp_type = BUF_TYPE_VIDEO_CAPTURE, sp_capability = 0, sp_numerator = 0,
          sp_denominator = 0\<rparr>\<rparr>) (\<lambda>argument s.
     let actual = ia_parm argument
     in if sp_type actual \<noteq> BUF_TYPE_VIDEO_CAPTURE \<or> and (sp_capability actual) CAP_TIMEPERFRAME = 0
           \<or> \<not> equivalent_frame_interval (sp_numerator actual) (sp_denominator actual) (vc_rate_num c) (vc_rate_den c)
        then v4l2_rollback api (contract_failure ''VIDIOC_G_PARM''
               ''V4L2 driver changed the requested frame interval'') s
        else prepare_request h api c negotiated s) s) s"

definition prepare_format ::
  "throws \<Rightarrow> 'w v4l2_api \<Rightarrow> v4l2_config \<Rightarrow> 32 word \<Rightarrow> 'w v4l2_system \<Rightarrow> status \<times> 'w v4l2_system" where
  "prepare_format h api c pixel_format s =
     prepare_call api VIDIOC_S_FMT ''VIDIOC_S_FMT''
       (zero_arg\<lparr>ia_format := \<lparr>fm_type = BUF_TYPE_VIDEO_CAPTURE, fm_pix = zero_pix
          \<lparr>px_width := word_of_int (vc_width c), px_height := word_of_int (vc_height c),
           px_pixelformat := pixel_format, px_field := FIELD_ANY\<rparr>\<rparr>\<rparr>) (\<lambda>_ s.
     prepare_call api VIDIOC_G_FMT ''VIDIOC_G_FMT''
       (zero_arg\<lparr>ia_format := \<lparr>fm_type = BUF_TYPE_VIDEO_CAPTURE, fm_pix = zero_pix\<rparr>\<rparr>) (\<lambda>argument s.
     let actual = ia_format argument
     in if fm_type actual \<noteq> BUF_TYPE_VIDEO_CAPTURE \<or> px_pixelformat (fm_pix actual) \<noteq> pixel_format
           \<or> px_width (fm_pix actual) \<noteq> word_of_int (vc_width c)
           \<or> px_height (fm_pix actual) \<noteq> word_of_int (vc_height c)
        then v4l2_rollback api (contract_failure ''VIDIOC_G_FMT''
               ''V4L2 driver changed the requested format or dimensions'') s
        else (case make_negotiated_format h (vc_pixel c) (vc_width c) (vc_height c) (fm_pix actual) of
                Throw e \<Rightarrow> prepare_thrown api e s
              | Ret (Inl layout_status) \<Rightarrow> v4l2_rollback api layout_status s
              | Ret (Inr negotiated) \<Rightarrow> prepare_interval h api c negotiated s)) s) s"

definition prepare_device ::
  "throws \<Rightarrow> 'w v4l2_api \<Rightarrow> v4l2_config \<Rightarrow> 32 word \<Rightarrow> 'w v4l2_system \<Rightarrow> status \<times> 'w v4l2_system" where
  "prepare_device h api c pixel_format s =
     prepare_call api VIDIOC_QUERYCAP ''VIDIOC_QUERYCAP'' zero_arg (\<lambda>argument s.
       let capability = ia_capability argument;
           active = (if and (cp_capabilities capability) CAP_DEVICE_CAPS \<noteq> 0 then cp_device_caps capability
                     else cp_capabilities capability);
           required = or CAP_VIDEO_CAPTURE CAP_STREAMING
       in if and active required \<noteq> required
          then v4l2_rollback api (contract_failure ''VIDIOC_QUERYCAP''
                 ''V4L2 device lacks single-planar capture or streaming'') s
          else prepare_format h api c pixel_format s) s"

text \<open>\<open>fd_\<close> takes the result of \<open>bounded_open\<close> even when it is negative.\<close>

definition v4l2_prepare ::
  "throws \<Rightarrow> 'w v4l2_api \<Rightarrow> v4l2_config \<Rightarrow> 'w v4l2_system \<Rightarrow> status \<times> 'w v4l2_system" where
  "v4l2_prepare h api c s =
     (if \<not> vs_has_api s then (v4l2_failure kInvalidState ''V4L2 API is not configured'' ''prepare'' 0, s)
      else if vs_state s \<noteq> V4l2_created \<or> vs_fd s \<ge> 0 \<or> vs_allocated s \<or> vs_regions s \<noteq> []
      then (v4l2_failure kInvalidState ''V4L2 device is already prepared'' ''prepare'' 0, s)
      else case v4l2_pixel_format (vc_pixel c) of
        None \<Rightarrow> (contract_failure ''VIDIOC_S_FMT'' ''V4L2 pixel format is unsupported'', s)
      | Some pixel_format \<Rightarrow>
          (case bounded_open api (vc_device c) [O_RDWR, O_NONBLOCK, O_CLOEXEC] s of
             (Throw e, s) \<Rightarrow> prepare_thrown api e s
           | (Ret r, s) \<Rightarrow>
               let s = s\<lparr>vs_fd := vr_result r\<rparr>
               in if vr_result r < 0 then v4l2_rollback api (syscall_failure api ''open'' (vr_error r)) s
                  else prepare_device h api c pixel_format s))"

subsection \<open>Streaming\<close>

definition queue_buffer :: "'w v4l2_api \<Rightarrow> 32 word \<Rightarrow> 'w v4l2_system \<Rightarrow> status outcome \<times> 'w v4l2_system" where
  "queue_buffer api index s =
     (case bounded_ioctl api VIDIOC_QBUF (capture_buffer index) s of
        (Throw e, s) \<Rightarrow> (Throw e, s)
      | (Ret r, s) \<Rightarrow>
          (Ret (if vr_result r < 0 then syscall_failure api ''VIDIOC_QBUF'' (vr_error r) else ok_status), s))"

definition rollback_start ::
  "'w v4l2_api \<Rightarrow> status \<Rightarrow> nat \<Rightarrow> 'w v4l2_system \<Rightarrow> status \<times> 'w v4l2_system" where
  "rollback_start api primary_failure queued_count s =
     (if queued_count = 0 then (primary_failure, s)
      else case bounded_ioctl api VIDIOC_STREAMOFF capture_type s of
        (Throw e, s) \<Rightarrow> (primary_failure, snd (v4l2_reset api s))
      | (Ret r, s) \<Rightarrow> (primary_failure, if vr_result r < 0 then snd (v4l2_reset api s) else s))"

text \<open>Queueing the buffers from \<open>index\<close> on, \<open>left\<close> of them, and switching the stream on.\<close>

fun start_buffers :: "'w v4l2_api \<Rightarrow> nat \<Rightarrow> nat \<Rightarrow> 'w v4l2_system \<Rightarrow> status outcome \<times> 'w v4l2_system" where
  "start_buffers api index 0 s =
     (case bounded_ioctl api VIDIOC_STREAMON capture_type s of
        (Throw e, s) \<Rightarrow> (Throw e, s)
      | (Ret r, s) \<Rightarrow>
          if vr_result r < 0
          then (case rollback_start api (syscall_failure api ''VIDIOC_STREAMON'' (vr_error r)) index s of
                  (st, s) \<Rightarrow> (Ret st, s))
          else (Ret ok_status, s\<lparr>vs_state := V4l2_running\<rparr>))"
| "start_buffers api index (Suc left) s =
     (case queue_buffer api (of_nat index) s of
        (Throw e, s) \<Rightarrow> (Throw e, s)
      | (Ret queue_status, s) \<Rightarrow>
          if \<not> st_ok queue_status
          then (case rollback_start api queue_status index s of (st, s) \<Rightarrow> (Ret st, s))
          else start_buffers api (Suc index) left s)"

definition v4l2_start :: "'w v4l2_api \<Rightarrow> 'w v4l2_system \<Rightarrow> status outcome \<times> 'w v4l2_system" where
  "v4l2_start api s =
     (if vs_state s = V4l2_running then (Ret ok_status, s)
      else if vs_state s \<noteq> V4l2_prepared \<or> vs_fd s < 0 \<or> \<not> vs_allocated s
      then (Ret (v4l2_failure kInvalidState ''V4L2 device is not prepared'' ''VIDIOC_STREAMON'' 0), s)
      else start_buffers api 0 (length (vs_regions s)) s)"

definition v4l2_dequeue :: "'w v4l2_api \<Rightarrow> 'w v4l2_system \<Rightarrow> v4l2_dequeued result outcome \<times> 'w v4l2_system" where
  "v4l2_dequeue api s =
     (if vs_state s \<noteq> V4l2_running \<or> vs_fd s < 0 \<or> \<not> vs_has_api s
      then (Ret (err (v4l2_failure kInvalidState ''V4L2 dequeue requires a running device'' ''VIDIOC_DQBUF'' 0)), s)
      else case bounded_ioctl api VIDIOC_DQBUF (capture_buffer 0) s of
        (Throw e, s) \<Rightarrow> (Throw e, s)
      | (Ret r, s) \<Rightarrow>
          let buf = ia_buffer (vr_arg r)
          in if vr_result r < 0 then (Ret (err (dequeue_failure api (vr_error r))), s)
             else if unat (vb_index buf) \<ge> length (vs_regions s)
             then (Ret (err (v4l2_failure kCorruptData ''V4L2 dequeued an unknown buffer index'' ''VIDIOC_DQBUF'' 0)), s)
             else let region = vs_regions s ! unat (vb_index buf)
               in (Ret (Inr \<lparr>dq_index = vb_index buf, dq_data = rg_address region,
                     dq_mapped_length = rg_length region, dq_bytesused = vb_bytesused buf, dq_flags = vb_flags buf,
                     dq_sequence = vb_sequence buf, dq_timestamp = vb_timestamp buf\<rparr>), s))"

definition v4l2_requeue :: "'w v4l2_api \<Rightarrow> 32 word \<Rightarrow> 'w v4l2_system \<Rightarrow> status outcome \<times> 'w v4l2_system" where
  "v4l2_requeue api index s =
     (if vs_state s \<noteq> V4l2_running \<or> vs_fd s < 0 \<or> \<not> vs_has_api s
      then (Ret (v4l2_failure kInvalidState ''V4L2 requeue requires a running device'' ''VIDIOC_QBUF'' 0), s)
      else if unat index \<ge> length (vs_regions s)
      then (Ret (v4l2_failure kInvalidArgument ''V4L2 requeue index is out of range'' ''VIDIOC_QBUF'' 0), s)
      else queue_buffer api index s)"

definition v4l2_stop :: "'w v4l2_api \<Rightarrow> 'w v4l2_system \<Rightarrow> status outcome \<times> 'w v4l2_system" where
  "v4l2_stop api s =
     (if vs_state s = V4l2_created \<or> vs_state s = V4l2_prepared then (Ret ok_status, s)
      else case bounded_ioctl api VIDIOC_STREAMOFF capture_type s of
        (Throw e, s) \<Rightarrow> (Throw e, s)
      | (Ret r, s) \<Rightarrow>
          if vr_result r < 0 then (Ret (syscall_failure api ''VIDIOC_STREAMOFF'' (vr_error r)), s)
          else (Ret ok_status, s\<lparr>vs_state := V4l2_prepared\<rparr>))"

subsection \<open>Polling\<close>

definition v4l2_poll_descriptors :: "throws \<Rightarrow> 'w v4l2_system \<Rightarrow> pollfd list result" where
  "v4l2_poll_descriptors h s =
     (if (vs_state s \<noteq> V4l2_prepared \<and> vs_state s \<noteq> V4l2_running) \<or> vs_fd s < 0
      then err (v4l2_failure kInvalidState ''V4L2 poll descriptors require a prepared device'' ''poll_descriptors'' 0)
      else case h S_v4l2_poll of
        Some Bad_alloc \<Rightarrow> err (v4l2_failure kResourceExhausted ''failed to allocate V4L2 poll descriptors''
                            ''poll_descriptors'' eNOMEM)
      | Some e \<Rightarrow> err (v4l2_failure kInternal ''failed to create V4L2 poll descriptors'' ''poll_descriptors'' 0)
      | None \<Rightarrow> Inr [\<lparr>pfd_fd = vs_fd s, pfd_events = or pOLLIN (or pOLLRDNORM pOLLPRI), pfd_revents = 0\<rparr>])"

definition v4l2_evaluate_poll_events :: "pollfd list \<Rightarrow> 'w v4l2_system \<Rightarrow> bool result" where
  "v4l2_evaluate_poll_events descriptors s =
     (if vs_state s \<noteq> V4l2_running \<or> vs_fd s < 0 \<or> \<not> vs_has_api s
      then err (v4l2_failure kInvalidState ''V4L2 poll events require a running device'' ''poll'' 0)
      else if length descriptors \<noteq> 1 \<or> pfd_fd (hd descriptors) \<noteq> vs_fd s
      then err (v4l2_failure kInvalidArgument ''V4L2 poll descriptor changed before event evaluation'' ''poll'' 0)
      else let revents = pfd_revents (hd descriptors)
        in if and revents (or pOLLHUP pOLLNVAL) \<noteq> 0
           then err (v4l2_failure kDeviceLost ''V4L2 poll descriptor reports device loss'' ''poll'' (sint revents))
           else if and revents pOLLERR \<noteq> 0
           then err (v4l2_failure kIoError ''V4L2 poll descriptor reports an I/O error'' ''poll'' (sint revents))
           else Inr (and revents (or pOLLIN (or pOLLRDNORM pOLLPRI)) \<noteq> 0))"

end
