(* ===== verification/V4l2_Capture.thy ===== *)
theory V4l2_Capture
  imports V4l2_System Byte_Memory Queue_Port Media_Node Management
begin

text \<open>
  \<open>src/platform/linux/v4l2_capture.cpp\<close>: the node that copies the frames of a camera out of the
  kernel's buffers into frames of its own, and the observer that counts them.

  \<open>v4l2_services\<close> are the functions of the abstract classes the node is given: \<open>V4L2FrameAllocator\<close>,
  \<open>V4L2FormatFactory\<close>, \<open>V4L2Clock\<close> and \<open>V4L2Observer\<close>, over a state \<open>'x\<close>; \<open>default_services\<close> is what the
  program builds itself. The mapped buffers of the camera and the storage of the frames are parts of
  one memory.
\<close>

definition kSequenceHalfRange :: "32 word" where "kSequenceHalfRange = 0x80000000"
definition kV4L2TimestampMask :: "32 word" where "kV4L2TimestampMask = 0x0000e000"
definition kV4L2TimestampMonotonic :: "32 word" where "kV4L2TimestampMonotonic = 0x00002000"
definition BUF_FLAG_ERROR :: "32 word" where "BUF_FLAG_ERROR = 0x0040"

record clock_reply =
  ck_result :: int
  ck_error :: int
  ck_time :: timespec

record 'x v4l2_services =
  sv_allocate :: "size_t \<Rightarrow> plane_layout list \<Rightarrow> 'x \<Rightarrow> buffer result outcome \<times> 'x"
  sv_create_cpu :: "video_format \<Rightarrow> 'x \<Rightarrow> video_format result outcome \<times> 'x"
  sv_clone_actual :: "video_format \<Rightarrow> 'x \<Rightarrow> video_format result outcome \<times> 'x"
  sv_now :: "'x \<Rightarrow> clock_reply outcome \<times> 'x"
  sv_captured :: "size_t \<Rightarrow> 'x \<Rightarrow> status outcome \<times> 'x"
  sv_would_block :: "'x \<Rightarrow> status outcome \<times> 'x"
  sv_pending :: "bool \<Rightarrow> 'x \<Rightarrow> status outcome \<times> 'x"
  sv_dropped_on_stop :: "'x \<Rightarrow> status outcome \<times> 'x"
  sv_sequence_gap :: "32 word \<Rightarrow> 'x \<Rightarrow> status outcome \<times> 'x"
  sv_fatal :: "status \<Rightarrow> 'x \<Rightarrow> status outcome \<times> 'x"

subsection \<open>The default services\<close>

record 'c default_state =
  ds_metrics :: "metric_registry option"
  ds_next_storage :: nat
  ds_throws :: throws
  ds_clock :: 'c

text \<open>An increment of \<open>RegistryV4L2Observer\<close>, and its gauge; without a registry there is nothing to do.\<close>

definition ds_count :: "string \<Rightarrow> 64 word \<Rightarrow> 'c default_state \<Rightarrow> status \<times> 'c default_state" where
  "ds_count name delta d =
     (case ds_metrics d of
        None \<Rightarrow> (ok_status, d)
      | Some m \<Rightarrow> (case increment_counter name delta m of (s, m) \<Rightarrow> (s, d\<lparr>ds_metrics := Some m\<rparr>)))"

definition ds_on_captured :: "size_t \<Rightarrow> 'c default_state \<Rightarrow> status \<times> 'c default_state" where
  "ds_on_captured copied_bytes d =
     (case ds_count ''v4l2.frames.captured'' 1 d of (captured, d) \<Rightarrow>
        case ds_count ''v4l2.bytes.copied'' copied_bytes d of (copied, d) \<Rightarrow> (remember_first captured copied, d))"

definition ds_on_pending :: "bool \<Rightarrow> 'c default_state \<Rightarrow> status \<times> 'c default_state" where
  "ds_on_pending pending d =
     (case ds_metrics d of
        None \<Rightarrow> (ok_status, d)
      | Some m \<Rightarrow>
          (case set_gauge ''v4l2.pending_frame'' (if pending then 0x3FF0000000000000 else 0) m of
             (s, m) \<Rightarrow> (s, d\<lparr>ds_metrics := Some m\<rparr>)))"

text \<open>\<open>BufferFrameAllocator\<close>; the storage gets a fresh identity.\<close>

definition ds_allocate :: "size_t \<Rightarrow> plane_layout list \<Rightarrow> 'c default_state \<Rightarrow> buffer result \<times> 'c default_state" where
  "ds_allocate capacity planes d =
     (case buffer_allocate (ds_throws d) (ds_next_storage d) capacity planes of
        Inl s \<Rightarrow> (Inl s, d)
      | Inr b \<Rightarrow> (Inr b, d\<lparr>ds_next_storage := Suc (ds_next_storage d)\<rparr>))"

definition ds_create_cpu :: "video_format \<Rightarrow> 'c default_state \<Rightarrow> video_format result \<times> 'c default_state" where
  "ds_create_cpu f d =
     (video_format_create (ds_throws d) (vf_pixel f) (vf_width f) (vf_height f) kCpu (vf_planes f) (vf_range f)
        (vf_primaries f) (vf_transfer f) (vf_matrix f), d)"

definition ret :: "('x \<Rightarrow> 'a \<times> 'x) \<Rightarrow> 'x \<Rightarrow> 'a outcome \<times> 'x" where
  "ret f x = (case f x of (a, x) \<Rightarrow> (Ret a, x))"

text \<open>\<open>clock\<close> is \<open>clock_gettime\<close>.\<close>

definition default_services :: "('c \<Rightarrow> clock_reply \<times> 'c) \<Rightarrow> 'c default_state v4l2_services" where
  "default_services clock =
     \<lparr>sv_allocate = (\<lambda>capacity planes. ret (ds_allocate capacity planes)),
      sv_create_cpu = (\<lambda>f. ret (ds_create_cpu f)),
      sv_clone_actual = (\<lambda>f d. (Ret (Inr f), d)),
      sv_now = ret (\<lambda>d. case clock (ds_clock d) of (r, c) \<Rightarrow> (r, d\<lparr>ds_clock := c\<rparr>)),
      sv_captured = (\<lambda>n. ret (ds_on_captured n)),
      sv_would_block = ret (ds_count ''v4l2.dequeue.would_block'' 1),
      sv_pending = (\<lambda>b. ret (ds_on_pending b)),
      sv_dropped_on_stop = ret (ds_count ''v4l2.frames.dropped_on_stop'' 1),
      sv_sequence_gap = (\<lambda>missing. ret (ds_count ''v4l2.sequence.gaps'' (ucast missing))),
      sv_fatal = (\<lambda>s d. (Ret ok_status, d))\<rparr>"

subsection \<open>Time stamps\<close>

definition timeval_to_us :: "timeval \<Rightarrow> int option" where
  "timeval_to_us t =
     (if tv_secs t < 0 \<or> tv_usec t < 0 \<or> tv_usec t \<ge> kMicrosecondsPerSecond \<or> tv_secs t = 0 \<and> tv_usec t = 0
      then None
      else if tv_secs t > int64_max div kMicrosecondsPerSecond then None
      else let seconds_us = tv_secs t * kMicrosecondsPerSecond
        in if tv_usec t > int64_max - seconds_us then None else Some (seconds_us + tv_usec t))"

definition monotonic_to_us :: "timespec \<Rightarrow> int option" where
  "monotonic_to_us t =
     (if tv_sec t < 0 \<or> tv_nsec t < 0 \<or> tv_nsec t \<ge> 1000000000 then None
      else let microseconds = tv_nsec t div 1000
        in if tv_sec t > int64_max div kMicrosecondsPerSecond then None
           else let seconds_us = tv_sec t * kMicrosecondsPerSecond
             in if microseconds > int64_max - seconds_us then None else Some (seconds_us + microseconds))"

subsection \<open>The node\<close>

record ('w, 'x) v4l2_node =
  vd_config :: v4l2_config
  vd_system :: "'w v4l2_system"
  vd_services :: 'x
  vd_output :: output_port
  vd_actual :: "video_format option"
  vd_cpu :: "video_format option"
  vd_pending :: "video_frame option"
  vd_has_pts :: bool
  vd_last_pts :: int
  vd_has_sequence :: bool
  vd_expected_sequence :: "32 word"
  vd_queues :: "video_frame queue_store"
  vd_memory :: memory
  vd_throws :: throws

definition v4l2_node_new ::
  "v4l2_config \<Rightarrow> 'w v4l2_system \<Rightarrow> 'x \<Rightarrow> video_frame queue_store \<Rightarrow> memory \<Rightarrow> throws \<Rightarrow> ('w, 'x) v4l2_node" where
  "v4l2_node_new c system x qs m h =
     \<lparr>vd_config = c, vd_system = system, vd_services = x, vd_output = output_port_new ''video_output'',
      vd_actual = None, vd_cpu = None, vd_pending = None, vd_has_pts = False, vd_last_pts = 0,
      vd_has_sequence = False, vd_expected_sequence = 0, vd_queues = qs, vd_memory = m, vd_throws = h\<rparr>"

text \<open>\<open>create\<close>: the device is the given one or a new one, the other services the given or the default ones.\<close>

definition v4l2_node_create ::
  "string \<Rightarrow> v4l2_config \<Rightarrow> 'w v4l2_system option \<Rightarrow> 'x \<Rightarrow> video_frame queue_store \<Rightarrow> memory \<Rightarrow> throws \<Rightarrow>
     ('w, 'x) v4l2_node result" where
  "v4l2_node_create i c system x qs m h = catch_all h S_v4l2_create
     (if i = [] then err (status_msg kInvalidArgument ''V4L2 source node id must not be empty'')
      else case system of
        None \<Rightarrow> err (status_msg kInvalidArgument ''V4L2 source dependencies must be configured'')
      | Some system \<Rightarrow> Inr (v4l2_node_new c system x qs m h))"

text \<open>A call of a service; \<open>invoke_observer\<close> turns an exception into a status.\<close>

definition serve :: "('x \<Rightarrow> 'a \<times> 'x) \<Rightarrow> ('w, 'x) v4l2_node \<Rightarrow> 'a \<times> ('w, 'x) v4l2_node" where
  "serve f n = (case f (vd_services n) of (r, x) \<Rightarrow> (r, n\<lparr>vd_services := x\<rparr>))"

definition invoke_observer ::
  "('x \<Rightarrow> status outcome \<times> 'x) \<Rightarrow> ('w, 'x) v4l2_node \<Rightarrow> status \<times> ('w, 'x) v4l2_node" where
  "invoke_observer f n = (case serve f n of (r, n) \<Rightarrow> (case r of Ret s \<Rightarrow> s | Throw e \<Rightarrow> handled e, n))"

definition v4l2_report_failure ::
  "'x v4l2_services \<Rightarrow> status \<Rightarrow> ('w, 'x) v4l2_node \<Rightarrow> status \<times> ('w, 'x) v4l2_node" where
  "v4l2_report_failure sv media_status n = (media_status, snd (invoke_observer (sv_fatal sv media_status) n))"

definition v4l2_report_would_block ::
  "'x v4l2_services \<Rightarrow> status \<Rightarrow> ('w, 'x) v4l2_node \<Rightarrow> status \<times> ('w, 'x) v4l2_node" where
  "v4l2_report_would_block sv media_status n =
     (case invoke_observer (sv_would_block sv) n of (observer_status, n) \<Rightarrow>
        (if st_ok observer_status then media_status else observer_status, n))"

text \<open>A call of the device.\<close>

definition on_system :: "('w v4l2_system \<Rightarrow> 'a \<times> 'w v4l2_system) \<Rightarrow> ('w, 'x) v4l2_node \<Rightarrow> 'a \<times> ('w, 'x) v4l2_node" where
  "on_system f n = (case f (vd_system n) of (r, s) \<Rightarrow> (r, n\<lparr>vd_system := s\<rparr>))"

definition status_or_handled :: "status outcome \<Rightarrow> status" where
  "status_or_handled r = (case r of Ret s \<Rightarrow> s | Throw e \<Rightarrow> handled e)"

subsection \<open>Copying a frame\<close>

definition timestamp_for ::
  "(int \<Rightarrow> string) \<Rightarrow> 'x v4l2_services \<Rightarrow> v4l2_dequeued \<Rightarrow> ('w, 'x) v4l2_node \<Rightarrow>
     int result outcome \<times> ('w, 'x) v4l2_node" where
  "timestamp_for strerror sv dequeued n =
     (let monotonic = (and (dq_flags dequeued) kV4L2TimestampMask = kV4L2TimestampMonotonic);
          bounded = (\<lambda>n candidate. if vd_has_pts n \<and> candidate < vd_last_pts n then vd_last_pts n else candidate)
      in case (if monotonic then timeval_to_us (dq_timestamp dequeued) else None) of
           Some candidate \<Rightarrow> (Ret (Inr (bounded n candidate)), n)
         | None \<Rightarrow>
             (case serve (sv_now sv) n of
                (Throw e, n) \<Rightarrow> (Throw e, n)
              | (Ret now, n) \<Rightarrow>
                  if ck_result now < 0
                  then (Ret (err (v4l2_failure kIoError (strerror (ck_error now)) ''clock_gettime(CLOCK_MONOTONIC)''
                               (ck_error now))), n)
                  else (case monotonic_to_us (ck_time now) of
                     None \<Rightarrow> (Ret (err (status_msg kCorruptData ''V4L2 monotonic timestamp is invalid or overflows'')), n)
                   | Some candidate \<Rightarrow> (Ret (Inr (bounded n candidate)), n))))"

text \<open>The number of frames that are missing before this one.\<close>

definition sequence_for :: "32 word \<Rightarrow> ('w, 'x) v4l2_node \<Rightarrow> (32 word) result" where
  "sequence_for sequence n =
     (if \<not> vd_has_sequence n then Inr 0
      else let delta = sequence - vd_expected_sequence n
        in if delta = 0 then Inr 0
           else if delta < kSequenceHalfRange then Inr delta
           else err (status_msg kCorruptData ''V4L2 buffer sequence moved backwards''))"

definition rows_for_plane :: "v4l2_config \<Rightarrow> nat \<Rightarrow> size_t" where
  "rows_for_plane c plane_index =
     (if vc_pixel c = kYuyv422 \<or> plane_index = 0 then size_of_int (vc_height c)
      else size_of_int (c_div (vc_height c) 2))"

text \<open>The ends of the last row, in the source and in the target.\<close>

definition validate_copy_range ::
  "v4l2_dequeued \<Rightarrow> plane_layout \<Rightarrow> size_t \<Rightarrow> size_t \<Rightarrow> size_t \<Rightarrow> size_t \<Rightarrow> size_t \<Rightarrow> (size_t \<times> size_t) result" where
  "validate_copy_range dequeued plane source_offset visible_row_bytes rows target_bytes target_capacity =
     (let overflow = err (status_msg kCorruptData ''V4L2 dequeued plane range overflows'')
      in if rows = 0 \<or> visible_row_bytes = 0 \<or> visible_row_bytes > pl_stride plane
            \<or> ucast (dq_bytesused dequeued) > dq_mapped_length dequeued
         then err (status_msg kCorruptData ''V4L2 dequeued plane metadata is invalid'')
         else case checked_multiply (pl_stride plane) (rows - 1) of None \<Rightarrow> overflow | Some last_row_offset \<Rightarrow>
         case checked_add source_offset last_row_offset of None \<Rightarrow> overflow | Some source_last_row \<Rightarrow>
         case checked_add source_last_row visible_row_bytes of None \<Rightarrow> overflow | Some source_last_end \<Rightarrow>
         case checked_add last_row_offset visible_row_bytes of None \<Rightarrow> overflow | Some target_last_end \<Rightarrow>
         case checked_add (pl_offset plane) last_row_offset of None \<Rightarrow> overflow | Some target_last_row \<Rightarrow>
         case checked_add target_last_row visible_row_bytes of None \<Rightarrow> overflow | Some target_absolute_end \<Rightarrow>
         if source_last_end > ucast (dq_bytesused dequeued) \<or> source_last_end > dq_mapped_length dequeued
            \<or> target_last_end > target_bytes \<or> target_absolute_end > target_capacity
         then err (status_msg kCorruptData ''V4L2 dequeued bytes do not cover visible pixels'')
         else Inr (source_last_end, target_last_end))"

text \<open>The rows from \<open>row\<close> on, \<open>left\<close> of them: one \<open>memcpy\<close> each.\<close>

fun copy_rows :: "nat \<Rightarrow> nat \<Rightarrow> size_t \<Rightarrow> size_t \<Rightarrow> size_t \<Rightarrow> nat \<Rightarrow> memory \<Rightarrow> memory" where
  "copy_rows row 0 stride destination source visible m = m"
| "copy_rows row (Suc left) stride destination source visible m =
     (let row_offset = of_nat row * stride
      in copy_rows (Suc row) left stride destination source visible
           (write_bytes (destination + row_offset) (read_bytes m (source + row_offset) visible) m))"

definition copy_plane ::
  "(nat \<Rightarrow> size_t) \<Rightarrow> v4l2_config \<Rightarrow> v4l2_negotiated \<Rightarrow> v4l2_dequeued \<Rightarrow> buffer \<Rightarrow> nat \<Rightarrow> plane_layout \<Rightarrow> size_t \<Rightarrow>
     memory \<Rightarrow> size_t result \<times> memory" where
  "copy_plane base c negotiated dequeued target plane_index plane copied_bytes m =
     (case fst (map_plane (cpu_ops base) target plane_index kReadWrite ()) of
        Inl s \<Rightarrow> (err s, m)
      | Inr region \<Rightarrow>
          let destination = mutable_data region;
              rows = rows_for_plane c plane_index;
              visible = vn_visible_rows negotiated ! plane_index;
              source_offset = vn_offsets negotiated ! plane_index
          in if destination = 0 then (err (status_msg kCorruptData ''V4L2 target plane is not writable''), m)
             else (case validate_copy_range dequeued plane source_offset visible rows (mr_size region)
                          (vn_capacity negotiated) of
                Inl s \<Rightarrow> (err s, m)
              | Inr _ \<Rightarrow>
                  let m = write_bytes destination (replicate (unat (mr_size region)) 0) m;
                      m = copy_rows 0 (unat rows) (pl_stride plane) destination (dq_data dequeued + source_offset)
                            (unat visible) m;
                      overflow = err (status_msg kCorruptData ''V4L2 copied byte count overflows'')
                  in case checked_multiply visible rows of None \<Rightarrow> (overflow, m) | Some plane_copied \<Rightarrow>
                     case checked_add copied_bytes plane_copied of None \<Rightarrow> (overflow, m) | Some copied_bytes \<Rightarrow>
                     (Inr copied_bytes, m)))"

fun copy_planes ::
  "(nat \<Rightarrow> size_t) \<Rightarrow> v4l2_config \<Rightarrow> v4l2_negotiated \<Rightarrow> v4l2_dequeued \<Rightarrow> buffer \<Rightarrow> nat \<Rightarrow> plane_layout list \<Rightarrow> size_t \<Rightarrow>
     memory \<Rightarrow> size_t result \<times> memory" where
  "copy_planes base c negotiated dequeued target index [] copied_bytes m = (Inr copied_bytes, m)"
| "copy_planes base c negotiated dequeued target index (plane # planes) copied_bytes m =
     (case copy_plane base c negotiated dequeued target index plane copied_bytes m of
        (Inl s, m) \<Rightarrow> (Inl s, m)
      | (Inr copied_bytes, m) \<Rightarrow> copy_planes base c negotiated dequeued target (Suc index) planes copied_bytes m)"

record captured =
  cf_frame :: video_frame
  cf_bytes :: size_t
  cf_pts :: int
  cf_missing :: "32 word"

text \<open>The part after the buffer has been allocated.\<close>

definition fill_frame ::
  "(nat \<Rightarrow> size_t) \<Rightarrow> v4l2_negotiated \<Rightarrow> v4l2_dequeued \<Rightarrow> video_format \<Rightarrow> buffer \<Rightarrow> int \<Rightarrow> 32 word \<Rightarrow>
     ('w, 'x) v4l2_node \<Rightarrow> captured result outcome \<times> ('w, 'x) v4l2_node" where
  "fill_frame base negotiated dequeued cpu target pts missing n =
     (case copy_planes base (vd_config n) negotiated dequeued target 0 (vf_planes cpu) 0 (vd_memory n) of
        (Inl s, m) \<Rightarrow> (Ret (err s), n\<lparr>vd_memory := m\<rparr>)
      | (Inr copied_bytes, m) \<Rightarrow>
          let n = n\<lparr>vd_memory := m\<rparr>
          in case video_frame_create (vd_throws n) target cpu pts microsecond_base of
               Inl s \<Rightarrow> (Ret (err s), n)
             | Inr f \<Rightarrow>
                 (case vd_throws n S_v4l2_frame of
                    Some e \<Rightarrow> (Ret (err (handled e)), n)
                  | None \<Rightarrow> (Ret (Inr \<lparr>cf_frame = f, cf_bytes = copied_bytes, cf_pts = pts, cf_missing = missing\<rparr>), n)))"

text \<open>A running device has a negotiated format.\<close>

definition copy_frame ::
  "(nat \<Rightarrow> size_t) \<Rightarrow> (int \<Rightarrow> string) \<Rightarrow> 'x v4l2_services \<Rightarrow> v4l2_dequeued \<Rightarrow> ('w, 'x) v4l2_node \<Rightarrow>
     captured result outcome \<times> ('w, 'x) v4l2_node" where
  "copy_frame base strerror sv dequeued n =
     (if and (dq_flags dequeued) BUF_FLAG_ERROR \<noteq> 0
      then (Ret (err (status_msg kCorruptData ''V4L2 driver marked dequeued buffer as corrupt'')), n)
      else case (vd_actual n, vd_cpu n) of
        (Some actual, Some cpu) \<Rightarrow>
          if dq_data dequeued = 0
          then (Ret (err (status_msg kInvalidState ''V4L2 capture format or mapped data is unavailable'')), n)
          else (case timestamp_for strerror sv dequeued n of
             (Throw e, n) \<Rightarrow> (Throw e, n)
           | (Ret (Inl s), n) \<Rightarrow> (Ret (err s), n)
           | (Ret (Inr pts), n) \<Rightarrow>
               (case sequence_for (dq_sequence dequeued) n of
                  Inl s \<Rightarrow> (Ret (err s), n)
                | Inr missing \<Rightarrow>
                    let negotiated = the (vs_negotiated (vd_system n)); planes = vf_planes cpu
                    in if length planes \<noteq> length (vn_visible_rows negotiated)
                          \<or> length planes \<noteq> length (vn_offsets negotiated)
                       then (Ret (err (status_msg kCorruptData ''V4L2 negotiated plane metadata is inconsistent'')), n)
                       else (case serve (sv_allocate sv (vn_capacity negotiated) planes) n of
                          (Throw e, n) \<Rightarrow> (Throw e, n)
                        | (Ret (Inl s), n) \<Rightarrow> (Ret (err s), n)
                        | (Ret (Inr target), n) \<Rightarrow> fill_frame base negotiated dequeued cpu target pts missing n)))
      | _ \<Rightarrow> (Ret (err (status_msg kInvalidState ''V4L2 capture format or mapped data is unavailable'')), n))"

subsection \<open>The hooks\<close>

definition v4l2_node_actual_format :: "('w, 'x) v4l2_node \<Rightarrow> video_format result" where
  "v4l2_node_actual_format n =
     (case vd_actual n of
        None \<Rightarrow> err (status_msg kInvalidState ''V4L2 actual format is unavailable before prepare'')
      | Some f \<Rightarrow> catch_all (vd_throws n) S_v4l2_actual (Inr f))"

definition v4l2_node_poll :: "node_state \<Rightarrow> ('w, 'x) v4l2_node \<Rightarrow> pollfd list result" where
  "v4l2_node_poll state n =
     (if state \<noteq> N_Running then err (status_msg kInvalidState ''V4L2 wait source requires a running node'')
      else v4l2_poll_descriptors (vd_throws n) (vd_system n))"

definition v4l2_node_events :: "node_state \<Rightarrow> pollfd list \<Rightarrow> ('w, 'x) v4l2_node \<Rightarrow> bool result" where
  "v4l2_node_events state descriptors n =
     (if state \<noteq> N_Running then err (status_msg kInvalidState ''V4L2 poll evaluation requires a running node'')
      else v4l2_evaluate_poll_events descriptors (vd_system n))"

text \<open>The two formats after the device has been prepared.\<close>

definition prepare_formats ::
  "'x v4l2_services \<Rightarrow> video_format \<Rightarrow> ('w, 'x) v4l2_node \<Rightarrow>
     (video_format \<times> video_format) result outcome \<times> ('w, 'x) v4l2_node" where
  "prepare_formats sv negotiated n =
     (case serve (sv_create_cpu sv negotiated) n of
        (Throw e, n) \<Rightarrow> (Throw e, n)
      | (Ret (Inl s), n) \<Rightarrow> (Ret (Inl s), n)
      | (Ret (Inr cpu), n) \<Rightarrow>
          (case serve (sv_clone_actual sv negotiated) n of
             (Throw e, n) \<Rightarrow> (Throw e, n)
           | (Ret (Inl s), n) \<Rightarrow> (Ret (Inl s), n)
           | (Ret (Inr actual), n) \<Rightarrow>
               (case vd_throws n S_v4l2_formats of
                  Some e \<Rightarrow> (Throw e, n)
                | None \<Rightarrow> (Ret (Inr (actual, cpu)), n))))"

definition v4l2_on_prepare ::
  "'w v4l2_api \<Rightarrow> 'x v4l2_services \<Rightarrow> ('w, 'x) v4l2_node \<Rightarrow> status \<times> ('w, 'x) v4l2_node" where
  "v4l2_on_prepare api sv n =
     (if vd_actual n \<noteq> None \<and> vd_cpu n \<noteq> None then (ok_status, n)
      else case on_system (v4l2_prepare (vd_throws n) api (vd_config n)) n of (prepare_status, n) \<Rightarrow>
        if \<not> st_ok prepare_status then (prepare_status, n)
        else let failed = (\<lambda>s n. (s, (snd (on_system (v4l2_reset api) n))\<lparr>vd_actual := None, vd_cpu := None\<rparr>))
          in case prepare_formats sv (vn_format (the (vs_negotiated (vd_system n)))) n of
               (Throw e, n) \<Rightarrow> failed (handled e) n
             | (Ret (Inl s), n) \<Rightarrow> failed s n
             | (Ret (Inr (actual, cpu)), n) \<Rightarrow> (ok_status, n\<lparr>vd_actual := Some actual, vd_cpu := Some cpu\<rparr>))"

definition v4l2_on_start ::
  "'w v4l2_api \<Rightarrow> 'x v4l2_services \<Rightarrow> ('w, 'x) v4l2_node \<Rightarrow> status \<times> ('w, 'x) v4l2_node" where
  "v4l2_on_start api sv n =
     (let n = n\<lparr>vd_pending := None, vd_has_pts := False, vd_last_pts := 0, vd_has_sequence := False,
                vd_expected_sequence := 0\<rparr>
      in case on_system (v4l2_start api) n of
           (Throw e, n) \<Rightarrow> (handled e, n)
         | (Ret start_status, n) \<Rightarrow>
             if \<not> st_ok start_status then (start_status, n)
             else case invoke_observer (sv_pending sv False) n of (observer_status, n) \<Rightarrow>
               if st_ok observer_status then (observer_status, n)
               else case on_system (v4l2_stop api) n of (stopped, n) \<Rightarrow>
                 let stop_status = status_or_handled stopped
                 in if \<not> st_ok stop_status then v4l2_report_failure sv stop_status n else (observer_status, n))"

text \<open>\<open>remember_first\<close> of what an observer says.\<close>

definition also_observe ::
  "('x \<Rightarrow> status outcome \<times> 'x) \<Rightarrow> status \<times> ('w, 'x) v4l2_node \<Rightarrow> status \<times> ('w, 'x) v4l2_node" where
  "also_observe f x =
     (case x of (first_status, n) \<Rightarrow>
        case invoke_observer f n of (candidate, n) \<Rightarrow> (remember_first first_status candidate, n))"

definition v4l2_on_stop ::
  "'w v4l2_api \<Rightarrow> 'x v4l2_services \<Rightarrow> ('w, 'x) v4l2_node \<Rightarrow> status \<times> ('w, 'x) v4l2_node" where
  "v4l2_on_stop api sv n =
     (case (if vd_pending n \<noteq> None
            then also_observe (sv_pending sv False)
                   (also_observe (sv_dropped_on_stop sv) (ok_status, n\<lparr>vd_pending := None\<rparr>))
            else (ok_status, n)) of (observer_status, n) \<Rightarrow>
        case on_system (v4l2_stop api) n of
          (Throw e, n) \<Rightarrow> (handled e, n)
        | (Ret stop_status, n) \<Rightarrow>
            if \<not> st_ok stop_status then v4l2_report_failure sv stop_status n else (observer_status, n))"

definition v4l2_on_reset ::
  "'w v4l2_api \<Rightarrow> 'x v4l2_services \<Rightarrow> ('w, 'x) v4l2_node \<Rightarrow> status \<times> ('w, 'x) v4l2_node" where
  "v4l2_on_reset api sv n =
     (case (if vd_pending n \<noteq> None then invoke_observer (sv_pending sv False) (n\<lparr>vd_pending := None\<rparr>)
            else (ok_status, n)) of (observer_status, n) \<Rightarrow>
        case on_system (v4l2_reset api) n of (reset_status, n) \<Rightarrow>
          let n = n\<lparr>vd_actual := None, vd_cpu := None, vd_has_pts := False, vd_has_sequence := False\<rparr>
          in if \<not> st_ok reset_status then v4l2_report_failure sv reset_status n else (observer_status, n))"

text \<open>Sending a frame that the output did not take before.\<close>

definition send_pending ::
  "'x v4l2_services \<Rightarrow> video_frame \<Rightarrow> ('w, 'x) v4l2_node \<Rightarrow> status \<times> ('w, 'x) v4l2_node" where
  "send_pending sv f n =
     (case port_send (Some f) (vd_output n) (vd_queues n) of (output_status, qs) \<Rightarrow>
        let n = n\<lparr>vd_queues := qs\<rparr>
        in if \<not> st_ok output_status
           then (if st_code output_status = kWouldBlock then (output_status, n)
                 else v4l2_report_failure sv output_status n)
           else invoke_observer (sv_pending sv False) (n\<lparr>vd_pending := None\<rparr>))"

definition send_captured ::
  "'x v4l2_services \<Rightarrow> video_frame \<Rightarrow> ('w, 'x) v4l2_node \<Rightarrow> status \<times> ('w, 'x) v4l2_node" where
  "send_captured sv f n =
     (case port_send (Some f) (vd_output n) (vd_queues n) of (output_status, qs) \<Rightarrow>
        let n = n\<lparr>vd_queues := qs\<rparr>
        in if \<not> st_ok output_status
           then (if st_code output_status = kWouldBlock
                 then (case invoke_observer (sv_pending sv True) (n\<lparr>vd_pending := Some f\<rparr>) of (pending_status, n) \<Rightarrow>
                         (if \<not> st_ok pending_status then pending_status else output_status, n))
                 else v4l2_report_failure sv output_status n)
           else (ok_status, n))"

text \<open>A buffer has been copied, or not, and given back to the kernel.\<close>

definition frame_captured ::
  "'x v4l2_services \<Rightarrow> v4l2_dequeued \<Rightarrow> captured \<Rightarrow> ('w, 'x) v4l2_node \<Rightarrow> status \<times> ('w, 'x) v4l2_node" where
  "frame_captured sv dequeued f n =
     (let n = n\<lparr>vd_has_pts := True, vd_last_pts := cf_pts f, vd_has_sequence := True,
                vd_expected_sequence := dq_sequence dequeued + 1\<rparr>
      in case invoke_observer (sv_captured sv (cf_bytes f)) n of (observer_status, n) \<Rightarrow>
         case (if st_ok observer_status \<and> cf_missing f \<noteq> 0
               then invoke_observer (sv_sequence_gap sv (cf_missing f)) n else (observer_status, n)) of
           (observer_status, n) \<Rightarrow>
             if \<not> st_ok observer_status then (observer_status, n) else send_captured sv (cf_frame f) n)"

definition copy_and_requeue ::
  "(nat \<Rightarrow> size_t) \<Rightarrow> 'w v4l2_api \<Rightarrow> 'x v4l2_services \<Rightarrow> v4l2_dequeued \<Rightarrow> ('w, 'x) v4l2_node \<Rightarrow>
     status \<times> ('w, 'x) v4l2_node" where
  "copy_and_requeue base api sv dequeued n =
     (case copy_frame base (va_strerror api) sv dequeued n of (media, n) \<Rightarrow>
        case on_system (v4l2_requeue api (dq_index dequeued)) n of (requeued, n) \<Rightarrow>
          let requeue_status = status_or_handled requeued
          in if \<not> st_ok requeue_status then v4l2_report_failure sv requeue_status n
             else (case media of
                Throw e \<Rightarrow> v4l2_report_failure sv (handled e) n
              | Ret (Inl media_status) \<Rightarrow> v4l2_report_failure sv media_status n
              | Ret (Inr f) \<Rightarrow> frame_captured sv dequeued f n))"

definition v4l2_on_tick ::
  "(nat \<Rightarrow> size_t) \<Rightarrow> 'w v4l2_api \<Rightarrow> 'x v4l2_services \<Rightarrow> ('w, 'x) v4l2_node \<Rightarrow> status \<times> ('w, 'x) v4l2_node" where
  "v4l2_on_tick base api sv n =
     (case vd_pending n of
        Some f \<Rightarrow> send_pending sv f n
      | None \<Rightarrow>
          (case on_system (v4l2_dequeue api) n of
             (Throw e, n) \<Rightarrow> (handled e, n)
           | (Ret (Inl s), n) \<Rightarrow>
               if st_code s = kWouldBlock then v4l2_report_would_block sv s n else v4l2_report_failure sv s n
           | (Ret (Inr dequeued), n) \<Rightarrow> copy_and_requeue base api sv dequeued n))"

text \<open>The node in a pipeline: no hook throws.\<close>

definition v4l2_hooks ::
  "(nat \<Rightarrow> size_t) \<Rightarrow> 'w v4l2_api \<Rightarrow> 'x v4l2_services \<Rightarrow> ('w, 'x) v4l2_node hooks" where
  "v4l2_hooks base api sv =
     \<lparr>on_prepare = ret (v4l2_on_prepare api sv), on_start = ret (v4l2_on_start api sv),
      on_stop = ret (v4l2_on_stop api sv), on_reset = ret (v4l2_on_reset api sv),
      on_tick = ret (v4l2_on_tick base api sv)\<rparr>"

end
