(* ===== verification/V4l2_Contract.thy ===== *)
theory V4l2_Contract
  imports V4l2_System "HOL-Library.Multiset"
begin

text \<open>
  What \<open>V4L2System\<close> promises: descriptor, mappings and kernel buffers are acquired and given back in
  order, whatever the kernel answers, and \<open>prepare\<close> is all or nothing.

  \<open>watched\<close> writes down the calls with their answers; \<open>camera_step\<close> reads such a record as the kernel
  does. It follows the open descriptor, the mappings and whether buffers are allocated, and refuses
  (\<open>None\<close>) a second open descriptor, a call on another descriptor than the open one, the unmapping of
  what is not mapped, the release of buffers that are still mapped, and closing with either left.
\<close>

declare split_paired_Ex [simp del]

type_synonym v4l2_event = "v4l2_call \<times> v4l2_reply outcome"
type_synonym 'w watched_world = "'w \<times> v4l2_event list"
type_synonym camera = "int option \<times> (size_t \<times> size_t) multiset \<times> bool"

definition watched :: "'w v4l2_api \<Rightarrow> 'w watched_world v4l2_api" where
  "watched api =
     \<lparr>va_call = (\<lambda>c (w, log). case va_call api c w of (r, w') \<Rightarrow> (r, (w', log @ [(c, r)]))),
      va_max_offset = va_max_offset api, va_strerror = va_strerror api\<rparr>"

fun returned_ok :: "v4l2_reply outcome \<Rightarrow> bool" where
  "returned_ok (Ret r) = (0 \<le> vr_result r)"
| "returned_ok (Throw e) = False"

fun returned_address :: "v4l2_reply outcome \<Rightarrow> size_t option" where
  "returned_address (Ret r) = vr_address r"
| "returned_address (Throw e) = None"

definition buffers_after :: "v4l2_request \<Rightarrow> ioctl_arg \<Rightarrow> v4l2_reply outcome \<Rightarrow> bool \<Rightarrow> bool" where
  "buffers_after request argument r a =
     (if request = VIDIOC_REQBUFS
      then if rb_count (ia_request argument) = 0 then False else returned_ok r \<or> a
      else a)"

fun camera_step :: "v4l2_event \<Rightarrow> camera \<Rightarrow> camera option" where
  "camera_step (Open_device path flags, r) (fd, M, a) =
     (if fd = None
      then Some (case r of Ret q \<Rightarrow> if vr_result q < 0 then None else Some (vr_result q) | Throw e \<Rightarrow> None, M, a)
      else None)"
| "camera_step (Device_ioctl d request argument, r) (fd, M, a) =
     (if fd = Some d \<and> (request = VIDIOC_REQBUFS \<longrightarrow> M = {#})
      then Some (fd, M, buffers_after request argument r a) else None)"
| "camera_step (Map_memory len d offset, r) (fd, M, a) =
     (if fd = Some d
      then Some (fd, case returned_address r of None \<Rightarrow> M | Some address \<Rightarrow> add_mset (address, len) M, a)
      else None)"
| "camera_step (Unmap_memory address len, r) (fd, M, a) =
     (if (address, len) \<in># M then Some (fd, M - {#(address, len)#}, a) else None)"
| "camera_step (Close_device d, r) (fd, M, a) =
     (if fd = Some d \<and> M = {#} \<and> \<not> a then Some (None, M, a) else None)"

fun camera_after :: "v4l2_event list \<Rightarrow> camera \<Rightarrow> camera option" where
  "camera_after [] v = Some v"
| "camera_after (e # es) v = (case camera_step e v of None \<Rightarrow> None | Some v' \<Rightarrow> camera_after es v')"

lemma camera_after_append [simp]:
  "camera_after (xs @ ys) v = (case camera_after xs v of None \<Rightarrow> None | Some v' \<Rightarrow> camera_after ys v')"
  by (induction xs arbitrary: v) (auto split: option.split)

definition cview :: "'w watched_world \<Rightarrow> camera option" where
  "cview w = camera_after (snd w) (None, {#}, False)"

text \<open>The documentation of the V4L2 \<open>ioctl\<close>s: when one fails, its parameter is not modified.\<close>

definition failure_keeps_argument :: "'w v4l2_api \<Rightarrow> bool" where
  "failure_keeps_argument api \<longleftrightarrow>
     (\<forall>fd request argument w r. fst (va_call api (Device_ioctl fd request argument) w) = Ret r \<longrightarrow> vr_result r < 0
        \<longrightarrow> vr_arg r = argument)"

lemma watched_call:
  assumes "v4l2_call_api (watched api) c s = (r, s')"
  shows "\<exists>w. s' = s\<lparr>vs_world := w\<rparr> \<and> cview w = (case cview (vs_world s) of None \<Rightarrow> None | Some v \<Rightarrow> camera_step (c, r) v)"
    and "r = fst (va_call api c (fst (vs_world s)))"
proof -
  obtain w0 log where w: "vs_world s = (w0, log)" by (meson surj_pair)
  obtain r' w1 where c: "va_call api c w0 = (r', w1)" by (meson surj_pair)
  have eq: "r = r'" "s' = s\<lparr>vs_world := (w1, log @ [(c, r)])\<rparr>"
    using assms by (auto simp: v4l2_call_api_def watched_def w c)
  show "r = fst (va_call api c (fst (vs_world s)))" by (simp add: eq w c)
  have "cview (w1, log @ [(c, r)]) = (case cview (vs_world s) of None \<Rightarrow> None | Some v \<Rightarrow> camera_step (c, r) v)"
    by (auto simp: cview_def w split: option.split)
  then show "\<exists>w. s' = s\<lparr>vs_world := w\<rparr> \<and> cview w = (case cview (vs_world s) of None \<Rightarrow> None | Some v \<Rightarrow> camera_step (c, r) v)"
    using eq by blast
qed

lemma ioctl_attempts_post:
  assumes "failure_keeps_argument api" "cview (vs_world s) = Some (Some (vs_fd s), M, a)"
    and "request = VIDIOC_REQBUFS \<longrightarrow> M = {#}"
    and "ioctl_attempts n (watched api) request argument s = (r, s')"
  shows "\<exists>w. s' = s\<lparr>vs_world := w\<rparr> \<and> cview w = Some (Some (vs_fd s), M, buffers_after request argument r a)"
  using assms(2-)
proof (induction n arbitrary: s a)
  case 0
  then have c: "v4l2_call_api (watched api) (Device_ioctl (vs_fd s) request argument) s = (r, s')" by simp
  show ?case using watched_call(1) [OF c] 0 by auto
next
  case (Suc n)
  obtain q s1 where c: "v4l2_call_api (watched api) (Device_ioctl (vs_fd s) request argument) s = (q, s1)" by (meson surj_pair)
  obtain w where w: "s1 = s\<lparr>vs_world := w\<rparr>" "cview w = Some (Some (vs_fd s), M, buffers_after request argument q a)"
    using watched_call(1) [OF c] Suc.prems by auto
  show ?case
  proof (cases "\<exists>x. q = Ret x \<and> vr_result x < 0 \<and> vr_error x = eINTR")
    case False
    then have "r = q" "s' = s1" using Suc.prems(3) by (cases q; auto simp: c split: if_splits)+
    then show ?thesis using w by auto
  next
    case True
    then obtain x where x: "q = Ret x" "vr_result x < 0" "vr_error x = eINTR" by blast
    have "vr_arg x = argument"
      using assms(1) watched_call(2) [OF c] x by (auto simp: failure_keeps_argument_def)
    then have again: "ioctl_attempts n (watched api) request argument s1 = (r, s')"
      using Suc.prems(3) x by (simp add: c)
    have "cview (vs_world s1) = Some (Some (vs_fd s1), M, buffers_after request argument q a)" using w by simp
    from Suc.IH [OF this Suc.prems(2) again] w x show ?thesis by (auto simp: buffers_after_def)
  qed
qed

lemma bounded_ioctl_post:
  assumes "failure_keeps_argument api" "cview (vs_world s) = Some (Some (vs_fd s), M, a)"
    and "request = VIDIOC_REQBUFS \<longrightarrow> M = {#}"
    and "bounded_ioctl (watched api) request argument s = (r, s')"
  shows "\<exists>w. s' = s\<lparr>vs_world := w\<rparr> \<and> cview w = Some (Some (vs_fd s), M, buffers_after request argument r a)"
  using ioctl_attempts_post [OF assms(1-3)] assms(4) by (simp add: bounded_ioctl_def)

text \<open>What the device remembers is what it holds.\<close>

definition region_key :: "v4l2_region \<Rightarrow> size_t \<times> size_t" where
  "region_key r = (rg_address r, rg_length r)"

definition holds_cam :: "'w watched_world v4l2_system \<Rightarrow> bool" where
  "holds_cam s \<longleftrightarrow>
     (\<exists>a. cview (vs_world s) = Some (if vs_fd s < 0 then None else Some (vs_fd s), mset (map region_key (vs_regions s)), a)
        \<and> (a \<longrightarrow> vs_allocated s) \<and> (vs_fd s < 0 \<longrightarrow> vs_regions s = [] \<and> \<not> a) \<and> (\<not> vs_has_api s \<longrightarrow> vs_fd s < 0))"

definition gone :: "'w watched_world v4l2_system \<Rightarrow> bool" where
  "gone s \<longleftrightarrow> vs_fd s < 0 \<and> vs_regions s = [] \<and> \<not> vs_allocated s \<and> vs_negotiated s = None \<and> vs_state s = V4l2_created
     \<and> cview (vs_world s) = Some (None, {#}, False)"

lemma gone_holds: "gone s \<Longrightarrow> holds_cam s"
  by (simp add: gone_def holds_cam_def ex_bool_eq)

lemma holds_cam_fields [simp]:
  "holds_cam (s\<lparr>vs_state := x\<rparr>) = holds_cam s" "holds_cam (s\<lparr>vs_negotiated := y\<rparr>) = holds_cam s"
  by (simp_all add: holds_cam_def)

lemma holds_cam_world: "cview w = cview (vs_world s) \<Longrightarrow> holds_cam (s\<lparr>vs_world := w\<rparr>) = holds_cam s"
  by (simp add: holds_cam_def)

text \<open>A call other than \<open>REQBUFS\<close> keeps what is held.\<close>

lemma ioctl_holds:
  assumes "failure_keeps_argument api" "holds_cam s" "0 \<le> vs_fd s" "request \<noteq> VIDIOC_REQBUFS"
    and "bounded_ioctl (watched api) request argument s = (r, s')"
  shows "\<exists>w. s' = s\<lparr>vs_world := w\<rparr> \<and> cview w = cview (vs_world s) \<and> holds_cam s'"
proof -
  obtain a where v: "cview (vs_world s) = Some (Some (vs_fd s), mset (map region_key (vs_regions s)), a)" "a \<longrightarrow> vs_allocated s"
    using assms(2,3) by (auto simp: holds_cam_def)
  obtain w where w: "s' = s\<lparr>vs_world := w\<rparr>" "cview w = cview (vs_world s)"
    using bounded_ioctl_post [OF assms(1) v(1) _ assms(5)] assms(4) v(1) by (auto simp: buffers_after_def)
  then have "holds_cam s'" using assms(2) holds_cam_world by metis
  with w show ?thesis by blast
qed

subsection \<open>Giving everything back\<close>

lemma unmap_call:
  assumes "holds_cam s" "vs_regions s = rest @ [region]"
    and "v4l2_call_api (watched api) (Unmap_memory (rg_address region) (rg_length region)) (s\<lparr>vs_regions := rest\<rparr>) = (r, s')"
  shows "\<exists>w. s' = s\<lparr>vs_regions := rest, vs_world := w\<rparr> \<and> holds_cam s'"
proof -
  obtain w where w: "s' = s\<lparr>vs_regions := rest, vs_world := w\<rparr>"
    "cview w = (case cview (vs_world s) of None \<Rightarrow> None
       | Some v \<Rightarrow> camera_step (Unmap_memory (rg_address region) (rg_length region), r) v)"
    using watched_call(1) [OF assms(3)] by auto
  moreover have "0 \<le> vs_fd s" using assms(1,2) by (auto simp: holds_cam_def)
  moreover obtain a where "cview (vs_world s) = Some (Some (vs_fd s), add_mset (region_key region) (mset (map region_key rest)), a)"
      "a \<longrightarrow> vs_allocated s" "vs_has_api s"
    using assms(1,2) \<open>0 \<le> vs_fd s\<close> by (auto simp: holds_cam_def)
  ultimately have "cview w = Some (Some (vs_fd s), mset (map region_key rest), a)" by (simp add: region_key_def)
  then have "holds_cam s'"
    using w(1) \<open>0 \<le> vs_fd s\<close> \<open>a \<longrightarrow> vs_allocated s\<close> \<open>vs_has_api s\<close> unfolding holds_cam_def
    by (intro exI [of _ a]) simp
  with w(1) show ?thesis by blast
qed

lemma cleanup_regions_post:
  assumes "holds_cam s" "vs_has_api s" "rs = rev (vs_regions s)"
  shows "\<exists>w. cleanup_regions (watched api) rs s = s\<lparr>vs_regions := [], vs_world := w\<rparr>
     \<and> holds_cam (cleanup_regions (watched api) rs s)"
  using assms
proof (induction rs arbitrary: s)
  case Nil
  then show ?case by (intro exI [of _ "vs_world s"]) simp
next
  case (Cons region previous)
  have regs: "vs_regions s = rev previous @ [region]" using Cons.prems(3) by (metis rev.simps(2) rev_rev_ident)
  obtain r s1 where c: "v4l2_call_api (watched api) (Unmap_memory (rg_address region) (rg_length region)) (s\<lparr>vs_regions := rev previous\<rparr>) = (r, s1)"
    by (meson surj_pair)
  obtain w where w: "s1 = s\<lparr>vs_regions := rev previous, vs_world := w\<rparr>" "holds_cam s1"
    using unmap_call [OF Cons.prems(1) regs c] by blast
  have "cleanup_regions (watched api) (region # previous) s = cleanup_regions (watched api) previous s1"
    using Cons.prems(2) by (simp add: Let_def c)
  moreover have "vs_has_api s1" "previous = rev (vs_regions s1)" using w(1) Cons.prems(2) by simp_all
  then obtain w' where "cleanup_regions (watched api) previous s1 = s1\<lparr>vs_regions := [], vs_world := w'\<rparr>"
      "holds_cam (cleanup_regions (watched api) previous s1)"
    using Cons.IH [OF w(2)] by blast
  ultimately show ?case using w(1) by (intro exI [of _ w']) simp
qed

lemma held_api: "holds_cam s \<Longrightarrow> 0 \<le> vs_fd s \<Longrightarrow> vs_has_api s"
  by (auto simp: holds_cam_def)

lemma held_nothing: "holds_cam s \<Longrightarrow> vs_fd s < 0 \<Longrightarrow> vs_regions s = [] \<and> cview (vs_world s) = Some (None, {#}, False)"
  by (auto simp: holds_cam_def)

text \<open>The kernel's buffers go when nothing is mapped any more, then the descriptor.\<close>

lemma release_buffers:
  assumes "failure_keeps_argument api" "holds_cam s" "vs_regions s = []" "0 \<le> vs_fd s"
    and "bounded_ioctl (watched api) VIDIOC_REQBUFS (capture_request 0) s = (r, s')"
  shows "\<exists>w. s' = s\<lparr>vs_world := w\<rparr> \<and> cview w = Some (Some (vs_fd s), {#}, False)"
proof -
  obtain a where v: "cview (vs_world s) = Some (Some (vs_fd s), {#}, a)"
    using assms(2-4) by (auto simp: holds_cam_def)
  from bounded_ioctl_post [OF assms(1) v _ assms(5)] show ?thesis
    by (auto simp: buffers_after_def capture_request_def)
qed

lemma close_call:
  assumes "cview (vs_world s) = Some (Some d, {#}, False)"
    and "v4l2_call_api (watched api) (Close_device d) s = (r, s')"
  shows "\<exists>w. s' = s\<lparr>vs_world := w\<rparr> \<and> cview w = Some (None, {#}, False)"
  using watched_call(1) [OF assms(2)] assms(1) by auto

lemma cleanup_buffers_post:
  assumes "failure_keeps_argument api" "holds_cam s" "vs_regions s = []"
  shows "\<exists>w. cleanup_buffers (watched api) s = s\<lparr>vs_allocated := False, vs_world := w\<rparr>
     \<and> cview w = Some (if vs_fd s < 0 then None else Some (vs_fd s), {#}, False)"
proof (cases "vs_allocated s \<and> 0 \<le> vs_fd s")
  case False
  then have "cview (vs_world s) = Some (if vs_fd s < 0 then None else Some (vs_fd s), {#}, False)"
    using assms(2,3) by (auto simp: holds_cam_def)
  then show ?thesis using False by (intro exI [of _ "vs_world s"]) (simp add: cleanup_buffers_def)
next
  case True
  then have has: "vs_has_api s" using held_api [OF assms(2)] by blast
  obtain r t where c: "bounded_ioctl (watched api) VIDIOC_REQBUFS (capture_request 0) (s\<lparr>vs_allocated := False\<rparr>) = (r, t)"
    by (meson surj_pair)
  obtain a where a: "cview (vs_world (s\<lparr>vs_allocated := False\<rparr>)) = Some (Some (vs_fd (s\<lparr>vs_allocated := False\<rparr>)), {#}, a)"
    using assms(2,3) True by (auto simp: holds_cam_def)
  from bounded_ioctl_post [OF assms(1) a _ c] obtain w where
    "t = s\<lparr>vs_allocated := False, vs_world := w\<rparr>" "cview w = Some (Some (vs_fd s), {#}, False)"
    by (auto simp: buffers_after_def capture_request_def)
  then show ?thesis using True has by (intro exI [of _ w]) (simp add: cleanup_buffers_def c)
qed

lemma cleanup_close_post:
  assumes "cview (vs_world s) = Some (if vs_fd s < 0 then None else Some (vs_fd s), {#}, False)" "0 \<le> vs_fd s \<longrightarrow> vs_has_api s"
  shows "\<exists>w fd. cleanup_close (watched api) s = s\<lparr>vs_fd := fd, vs_world := w\<rparr> \<and> fd < 0 \<and> cview w = Some (None, {#}, False)"
proof (cases "vs_fd s < 0")
  case True
  then show ?thesis using assms by (intro exI [of _ "vs_world s"] exI [of _ "vs_fd s"]) (simp add: cleanup_close_def)
next
  case False
  obtain r t where c: "v4l2_call_api (watched api) (Close_device (vs_fd s)) (s\<lparr>vs_fd := - 1\<rparr>) = (r, t)" by (meson surj_pair)
  have "cview (vs_world (s\<lparr>vs_fd := - 1\<rparr>)) = Some (Some (vs_fd s), {#}, False)" using assms(1) False by simp
  from close_call [OF this c] obtain w where "t = s\<lparr>vs_fd := - 1, vs_world := w\<rparr>" "cview w = Some (None, {#}, False)"
    by blast
  then show ?thesis using False assms(2) by (intro exI [of _ w] exI [of _ "- 1"]) (simp add: cleanup_close_def c)
qed

lemma cleanup_stream_post:
  assumes "failure_keeps_argument api" "holds_cam s"
  shows "holds_cam (cleanup_stream (watched api) s) \<and> vs_has_api (cleanup_stream (watched api) s) = vs_has_api s"
proof -
  obtain r t where c: "bounded_ioctl (watched api) VIDIOC_STREAMOFF capture_type s = (r, t)" by (meson surj_pair)
  show ?thesis using ioctl_holds [OF assms _ _ c] assms(2) by (auto simp: cleanup_stream_def c)
qed

lemma cleanup_post:
  assumes "failure_keeps_argument api" "holds_cam s"
  shows "gone (cleanup_noexcept (watched api) s) \<and> vs_has_api (cleanup_noexcept (watched api) s) = vs_has_api s"
proof -
  define s1 where "s1 = (cleanup_stream (watched api) s)\<lparr>vs_state := V4l2_prepared\<rparr>"
  have s1: "holds_cam s1" "vs_has_api s1 = vs_has_api s"
    using cleanup_stream_post [OF assms] by (simp_all add: s1_def)
  define s2 where "s2 = cleanup_regions (watched api) (rev (vs_regions s1)) s1"
  have s2: "holds_cam s2" "vs_has_api s2 = vs_has_api s" "vs_regions s2 = []"
  proof -
    have "holds_cam s2 \<and> vs_has_api s2 = vs_has_api s \<and> vs_regions s2 = []"
    proof (cases "vs_has_api s1")
      case True
      from cleanup_regions_post [OF s1(1) True refl, of api] show ?thesis using s1(2) unfolding s2_def by fastforce
    next
      case False
      then have "vs_regions s1 = []" using s1(1) held_nothing by (auto simp: holds_cam_def)
      then show ?thesis using s1 by (simp add: s2_def)
    qed
    then show "holds_cam s2" "vs_has_api s2 = vs_has_api s" "vs_regions s2 = []" by blast+
  qed
  obtain w3 where s3: "cleanup_buffers (watched api) s2 = s2\<lparr>vs_allocated := False, vs_world := w3\<rparr>"
    "cview w3 = Some (if vs_fd s2 < 0 then None else Some (vs_fd s2), {#}, False)"
    using cleanup_buffers_post [OF assms(1) s2(1,3)] by blast
  let ?s3 = "s2\<lparr>vs_allocated := False, vs_world := w3\<rparr>"
  have v3: "cview (vs_world ?s3) = Some (if vs_fd ?s3 < 0 then None else Some (vs_fd ?s3), {#}, False)"
    using s3(2) by simp
  have "0 \<le> vs_fd ?s3 \<longrightarrow> vs_has_api ?s3" using held_api [OF s2(1)] by simp
  from cleanup_close_post [OF v3 this, of api] obtain w4 fd where
    "cleanup_close (watched api) ?s3 = ?s3\<lparr>vs_fd := fd, vs_world := w4\<rparr>" "fd < 0" "cview w4 = Some (None, {#}, False)"
    by blast
  then show ?thesis
    using s2 s3(1) by (simp add: cleanup_noexcept_def Let_def gone_def flip: s1_def s2_def)
qed

text \<open>The same for \<open>reset\<close>, whose steps may throw: what they have done so far is still held.\<close>

definition step_ok :: "'w watched_world v4l2_system \<Rightarrow> 'w watched_world reset_step \<Rightarrow> bool" where
  "step_ok s x \<longleftrightarrow> (case x of (f, threw, s') \<Rightarrow> holds_cam s' \<and> vs_has_api s' = vs_has_api s)"

lemma reset_call_cases:
  "\<exists>g. reset_call api op f first_failure s = (g, fst (f s) \<in> range Throw, snd (f s))"
  by (cases "f s"; cases "fst (f s)") (auto simp: reset_call_def)

lemma reset_stream_post:
  assumes "failure_keeps_argument api" "holds_cam s"
  shows "step_ok s (reset_stream (watched api) s)"
proof (cases "vs_state s = V4l2_running \<and> vs_fd s \<ge> 0 \<and> vs_has_api s")
  case False
  then show ?thesis using assms(2) by (auto simp: reset_stream_def step_ok_def)
next
  case True
  then have fd: "0 \<le> vs_fd s" by simp
  obtain r t where c: "bounded_ioctl (watched api) VIDIOC_STREAMOFF capture_type s = (r, t)" by (meson surj_pair)
  obtain g where "reset_call (watched api) ''VIDIOC_STREAMOFF'' (bounded_ioctl (watched api) VIDIOC_STREAMOFF capture_type) ok_status s
      = (g, r \<in> range Throw, t)"
    using reset_call_cases [of "watched api" "''VIDIOC_STREAMOFF''" "bounded_ioctl (watched api) VIDIOC_STREAMOFF capture_type" ok_status "s"] unfolding c fst_conv snd_conv by blast
  then show ?thesis
    using ioctl_holds [OF assms fd _ c] True by (auto simp: reset_stream_def step_ok_def)
qed

lemma reset_regions_post:
  assumes "holds_cam s" "rs = rev (vs_regions s)"
  shows "case reset_regions (watched api) rs first_failure s of (f, threw, s') \<Rightarrow>
    holds_cam s' \<and> vs_has_api s' = vs_has_api s \<and> vs_fd s' = vs_fd s \<and> (\<not> threw \<longrightarrow> vs_regions s' = [])"
  using assms
proof (induction rs arbitrary: s first_failure)
  case Nil
  then show ?case by simp
next
  case (Cons region previous)
  have regs: "vs_regions s = rev previous @ [region]" using Cons.prems(2) by (metis rev.simps(2) rev_rev_ident)
  have "0 \<le> vs_fd s" using Cons.prems(1) regs by (auto simp: holds_cam_def)
  then have has: "vs_has_api s" using held_api Cons.prems(1) by blast
  obtain r s1 where c: "v4l2_call_api (watched api) (Unmap_memory (rg_address region) (rg_length region)) (s\<lparr>vs_regions := rev previous\<rparr>) = (r, s1)"
    by (meson surj_pair)
  obtain w where w: "s1 = s\<lparr>vs_regions := rev previous, vs_world := w\<rparr>" "holds_cam s1"
    using unmap_call [OF Cons.prems(1) regs c] by blast
  obtain g where g: "reset_call (watched api) ''munmap'' (v4l2_call_api (watched api) (Unmap_memory (rg_address region) (rg_length region)))
      first_failure (s\<lparr>vs_regions := rev previous\<rparr>) = (g, r \<in> range Throw, s1)"
    using reset_call_cases [of "watched api" "''munmap''" "v4l2_call_api (watched api) (Unmap_memory (rg_address region) (rg_length region))" first_failure "s\<lparr>vs_regions := rev previous\<rparr>"] unfolding c fst_conv snd_conv by blast
  have rp: "previous = rev (vs_regions s1)" using w(1) by simp
  show ?case
  proof (cases "r \<in> range Throw")
    case True
    then show ?thesis using has g w by (simp add: Let_def)
  next
    case False
    then have "reset_regions (watched api) (region # previous) first_failure s = reset_regions (watched api) previous g s1"
      using has g by (simp add: Let_def)
    then show ?thesis using Cons.IH [OF w(2) rp, of g] w(1) by (simp split: prod.splits)
  qed
qed

lemma reset_buffers_post:
  assumes "failure_keeps_argument api" "holds_cam s" "vs_regions s = []"
  shows "case reset_buffers (watched api) first_failure s of (f, threw, s') \<Rightarrow>
    holds_cam s' \<and> vs_has_api s' = vs_has_api s \<and> vs_fd s' = vs_fd s \<and> vs_regions s' = []
    \<and> (\<not> threw \<longrightarrow> \<not> vs_allocated s')"
proof (cases "vs_allocated s \<and> 0 \<le> vs_fd s")
  case False
  have "holds_cam (s\<lparr>vs_allocated := False\<rparr>)"
    using False assms(2) held_nothing [OF assms(2)] by (cases "vs_fd s < 0") (auto simp: holds_cam_def)
  then show ?thesis using False assms(2,3) by (auto simp: reset_buffers_def)
next
  case True
  then have fd: "0 \<le> vs_fd s" "vs_has_api s" using held_api [OF assms(2)] by auto
  obtain r t where c: "bounded_ioctl (watched api) VIDIOC_REQBUFS (capture_request 0) s = (r, t)" by (meson surj_pair)
  obtain w where w: "t = s\<lparr>vs_world := w\<rparr>" "cview w = Some (Some (vs_fd s), {#}, False)"
    using release_buffers [OF assms fd(1) c] by blast
  have h: "holds_cam t" "holds_cam (t\<lparr>vs_allocated := False\<rparr>)"
    using w fd assms(3) by (auto simp: holds_cam_def)
  obtain g where "reset_call (watched api) ''VIDIOC_REQBUFS(0)'' (bounded_ioctl (watched api) VIDIOC_REQBUFS (capture_request 0)) first_failure s
      = (g, r \<in> range Throw, t)"
    using reset_call_cases [of "watched api" "''VIDIOC_REQBUFS(0)''" "bounded_ioctl (watched api) VIDIOC_REQBUFS (capture_request 0)" first_failure "s"] unfolding c fst_conv snd_conv by blast
  then show ?thesis using True fd h w(1) assms(3) by (cases "r \<in> range Throw") (simp_all add: reset_buffers_def)
qed

lemma reset_close_post:
  assumes "holds_cam s" "vs_regions s = []" "\<not> vs_allocated s"
  shows "case reset_close (watched api) first_failure s of (f, threw, s') \<Rightarrow>
    holds_cam s' \<and> vs_has_api s' = vs_has_api s \<and> vs_fd s' < 0 \<and> vs_regions s' = [] \<and> \<not> vs_allocated s'"
proof (cases "vs_fd s < 0")
  case True
  then show ?thesis using assms by (simp add: reset_close_def)
next
  case False
  then have fd: "0 \<le> vs_fd s" "vs_has_api s" using held_api [OF assms(1)] by auto
  have v: "cview (vs_world (s\<lparr>vs_fd := - 1\<rparr>)) = Some (Some (vs_fd s), {#}, False)"
    using assms fd(1) by (auto simp: holds_cam_def)
  obtain r t where c: "v4l2_call_api (watched api) (Close_device (vs_fd s)) (s\<lparr>vs_fd := - 1\<rparr>) = (r, t)" by (meson surj_pair)
  obtain w where w: "t = s\<lparr>vs_fd := - 1, vs_world := w\<rparr>" "cview w = Some (None, {#}, False)"
    using close_call [OF v c] by blast
  obtain g where "reset_call (watched api) ''close'' (v4l2_call_api (watched api) (Close_device (vs_fd s))) first_failure (s\<lparr>vs_fd := - 1\<rparr>)
      = (g, r \<in> range Throw, t)"
    using reset_call_cases [of "watched api" "''close''" "v4l2_call_api (watched api) (Close_device (vs_fd s))" first_failure "s\<lparr>vs_fd := - 1\<rparr>"] unfolding c fst_conv snd_conv by blast
  then show ?thesis using fd w assms by (simp add: reset_close_def Let_def holds_cam_def ex_bool_eq)
qed

lemma reset_then_post:
  assumes "failure_keeps_argument api"
    and "case x of (f, threw, s') \<Rightarrow> holds_cam s' \<and> vs_has_api s' = b"
    and "\<And>f s'. x = (f, False, s') \<Longrightarrow> gone (snd (k f s')) \<and> vs_has_api (snd (k f s')) = b"
  shows "gone (snd (reset_then (watched api) x k)) \<and> vs_has_api (snd (reset_then (watched api) x k)) = b"
proof -
  obtain f threw s' where x: "x = (f, threw, s')" by (metis surj_pair)
  show ?thesis
    using assms(2,3) cleanup_post [OF assms(1), of s'] by (cases threw) (simp_all add: x reset_then_def)
qed

lemma reset_post:
  assumes "failure_keeps_argument api" "holds_cam s"
  shows "gone (snd (v4l2_reset (watched api) s)) \<and> vs_has_api (snd (v4l2_reset (watched api) s)) = vs_has_api s"
  unfolding v4l2_reset_def
proof (rule reset_then_post [OF assms(1)], goal_cases)
  case 1
  show ?case using reset_stream_post [OF assms] by (auto simp: step_ok_def)
next
  case (2 f1 s1)
  then have s1: "holds_cam (s1\<lparr>vs_state := V4l2_prepared\<rparr>)" "vs_has_api s1 = vs_has_api s"
    using reset_stream_post [OF assms] by (auto simp: step_ok_def)
  show ?case
    unfolding Let_def
  proof (rule reset_then_post [OF assms(1)], goal_cases)
    case 1
    show ?case using reset_regions_post [OF s1(1) refl, of api f1] s1(2) by (auto split: prod.splits)
  next
    case (2 f2 s2)
    then have s2: "holds_cam s2" "vs_has_api s2 = vs_has_api s" "vs_regions s2 = []"
      using reset_regions_post [OF s1(1) refl, of api f1] s1(2) by auto
    show ?case
    proof (rule reset_then_post [OF assms(1)], goal_cases)
      case 1
      show ?case using reset_buffers_post [OF assms(1) s2(1,3), of f2] s2(2) by (auto split: prod.splits)
    next
      case (2 f3 s3)
      then have s3: "holds_cam s3" "vs_has_api s3 = vs_has_api s" "vs_regions s3 = []" "\<not> vs_allocated s3"
        using reset_buffers_post [OF assms(1) s2(1,3), of f2] s2(2) by auto
      show ?case
      proof (rule reset_then_post [OF assms(1)], goal_cases)
        case 1
        show ?case using reset_close_post [OF s3(1,3,4), of api f3] s3(2) by (auto split: prod.splits)
      next
        case (2 f4 s4)
        then have s4: "holds_cam s4" "vs_has_api s4 = vs_has_api s" "vs_fd s4 < 0" "vs_regions s4 = []" "\<not> vs_allocated s4"
          using reset_close_post [OF s3(1,3,4), of api f3] s3(2) by auto
        then show ?case using held_nothing [OF s4(1,3)] by (simp add: gone_def)
      qed
    qed
  qed
qed

subsection \<open>What prepare agrees on\<close>

text \<open>The layout lies within the capacity and no row sticks out of its stride.\<close>

definition layout_fits :: "plane_layout list \<Rightarrow> size_t list \<Rightarrow> size_t list \<Rightarrow> nat \<Rightarrow> bool" where
  "layout_fits planes visible_rows source_offsets capacity \<longleftrightarrow>
     length visible_rows = length planes \<and> source_offsets = map pl_offset planes
   \<and> (\<forall>i<length planes. visible_rows ! i \<le> pl_stride (planes ! i))
   \<and> (\<forall>p\<in>set planes. plane_end p \<le> capacity)"

lemma layout_fits_mono: "layout_fits ps vs os m \<Longrightarrow> m \<le> n \<Longrightarrow> layout_fits ps vs os n"
  by (auto simp: layout_fits_def)

lemma yuv420_layout_fits:
  assumes "yuv420_layout stride w rows = Inr (e, planes, vis, offs)"
  shows "layout_fits planes vis offs (unat e)"
proof -
  obtain fs ss t where c: "checked_add fs ss = Some t" "checked_add t ss = Some e" "w \<le> stride"
    "planes = [plane_layout_of 0 fs stride, plane_layout_of fs ss (stride div 2), plane_layout_of t ss (stride div 2)]"
    "vis = [w, w div 2, w div 2]" "offs = [0, fs, t]"
    using assms by (auto simp: yuv420_layout_def Let_def append_plane_def split: if_split_asm option.split_asm)
  have "w div 2 \<le> stride div 2" using c(3) by (simp add: word_le_nat_alt unat_div div_le_mono)
  then show ?thesis
    using c checked_add_Some_iff [of fs ss t] checked_add_Some_iff [of t ss e]
    by (auto simp: layout_fits_def plane_end_def plane_layout_of_def less_Suc_eq)
qed

lemma nv12_layout_fits:
  assumes "nv12_layout stride w rows = Inr (e, planes, vis, offs)"
  shows "layout_fits planes vis offs (unat e)"
proof -
  obtain fs ss where c: "checked_add fs ss = Some e" "w \<le> stride"
    "planes = [plane_layout_of 0 fs stride, plane_layout_of fs ss stride]" "vis = [w, w]" "offs = [0, fs]"
    using assms by (auto simp: nv12_layout_def Let_def append_plane_def split: if_split_asm option.split_asm)
  then show ?thesis
    using checked_add_Some_iff [of fs ss e] by (auto simp: layout_fits_def plane_end_def plane_layout_of_def less_Suc_eq)
qed

lemma yuyv_layout_fits:
  assumes "yuyv_layout stride w rows = Inr (e, planes, vis, offs)"
  shows "layout_fits planes vis offs (unat e)"
proof -
  obtain vb where c: "vb \<le> stride" "planes = [plane_layout_of 0 e stride]" "vis = [vb]" "offs = [0]"
    using assms by (auto simp: yuyv_layout_def Let_def not_less append_plane_def split: if_split_asm option.split_asm)
  then show ?thesis by (auto simp: layout_fits_def plane_end_def plane_layout_of_def)
qed

lemma v4l2_layout_fits:
  "v4l2_layout p stride w rows = Inr (e, planes, vis, offs) \<Longrightarrow> layout_fits planes vis offs (unat e)"
  by (cases p) (simp_all add: v4l2_layout_def yuv420_layout_fits nv12_layout_fits yuyv_layout_fits)

text \<open>What the device and the program have agreed on.\<close>

definition negotiated_for :: "v4l2_config \<Rightarrow> v4l2_negotiated \<Rightarrow> bool" where
  "negotiated_for c n \<longleftrightarrow>
     vf_pixel (vn_format n) = vc_pixel c \<and> vf_width (vn_format n) = vc_width c \<and> vf_height (vn_format n) = vc_height c
   \<and> vf_domain (vn_format n) = kMmap
   \<and> layout_fits (vf_planes (vn_format n)) (vn_visible_rows n) (vn_offsets n) (unat (vn_capacity n))"

lemma make_negotiated_format_for:
  assumes "make_negotiated_format h (vc_pixel c) (vc_width c) (vc_height c) px = Ret (Inr n)"
  shows "negotiated_for c n"
proof -
  obtain stride capacity e planes vis offs f where
    l: "v4l2_layout (vc_pixel c) stride (size_of_int (vc_width c)) (size_of_int (vc_height c)) = Inr (e, planes, vis, offs)"
    and f: "video_format_create h (vc_pixel c) (vc_width c) (vc_height c) kMmap planes RangeUnknown PrimariesUnknown
      TransferUnknown MatrixUnknown = Inr f"
    and n: "e \<le> capacity" "n = \<lparr>vn_format = f, vn_capacity = capacity, vn_visible_rows = vis, vn_offsets = offs\<rparr>"
    using assms
    by (auto simp: make_negotiated_format_def split: option.split_asm exn.split_asm sum.split_asm prod.split_asm if_split_asm)
  have "layout_fits planes vis offs (unat capacity)"
    using v4l2_layout_fits [OF l] n(1) layout_fits_mono by (auto simp: word_le_nat_alt)
  moreover have "f = \<lparr>vf_pixel = vc_pixel c, vf_width = vc_width c, vf_height = vc_height c, vf_domain = kMmap,
      vf_planes = planes, vf_range = RangeUnknown, vf_primaries = PrimariesUnknown, vf_transfer = TransferUnknown,
      vf_matrix = MatrixUnknown\<rparr>"
    using f by (auto simp: video_format_create_def Let_def split: if_split_asm)
  ultimately show ?thesis by (simp add: negotiated_for_def n(2))
qed

definition prepared_for :: "v4l2_config \<Rightarrow> 'w v4l2_system \<Rightarrow> bool" where
  "prepared_for c s \<longleftrightarrow> vs_state s = V4l2_prepared \<and> 0 \<le> vs_fd s \<and> vs_allocated s \<and> 2 \<le> length (vs_regions s)
     \<and> (\<exists>n. vs_negotiated s = Some n \<and> negotiated_for c n \<and> (\<forall>r\<in>set (vs_regions s). vn_capacity n \<le> rg_length r))"

definition prepare_done :: "v4l2_config \<Rightarrow> status \<times> 'w watched_world v4l2_system \<Rightarrow> bool" where
  "prepare_done c x \<longleftrightarrow>
     (case x of (st, s) \<Rightarrow> vs_has_api s \<and> (if st_ok st then holds_cam s \<and> prepared_for c s else gone s))"

lemma rollback_done:
  assumes "failure_keeps_argument api" "holds_cam s" "vs_has_api s" "\<not> st_ok st"
  shows "prepare_done c (v4l2_rollback (watched api) st s)"
  using reset_post [OF assms(1,2)] assms(3,4) by (simp add: prepare_done_def v4l2_rollback_def)

lemma thrown_done:
  assumes "failure_keeps_argument api" "holds_cam s" "vs_has_api s"
  shows "prepare_done c (prepare_thrown (watched api) e s)"
  unfolding prepare_thrown_def by (rule rollback_done [OF assms]) simp

lemma prepare_call_done:
  assumes "failure_keeps_argument api" "holds_cam s" "0 \<le> vs_fd s" "request = VIDIOC_REQBUFS \<longrightarrow> vs_regions s = []"
    and k: "\<And>arg w. holds_cam (s\<lparr>vs_allocated := vs_allocated s \<or> request = VIDIOC_REQBUFS, vs_world := w\<rparr>) \<Longrightarrow>
        prepare_done c (k arg (s\<lparr>vs_world := w\<rparr>))"
  shows "prepare_done c (prepare_call (watched api) request op argument k s)"
proof -
  have has: "vs_has_api s" by (rule held_api [OF assms(2,3)])
  obtain a where v: "cview (vs_world s) = Some (Some (vs_fd s), mset (map region_key (vs_regions s)), a)" "a \<longrightarrow> vs_allocated s"
    using assms(2,3) by (auto simp: holds_cam_def)
  obtain r t where c: "bounded_ioctl (watched api) request argument s = (r, t)" by (meson surj_pair)
  have nomap: "request = VIDIOC_REQBUFS \<longrightarrow> mset (map region_key (vs_regions s)) = {#}" using assms(4) by simp
  obtain w where t: "t = s\<lparr>vs_world := w\<rparr>"
    "cview w = Some (Some (vs_fd s), mset (map region_key (vs_regions s)), buffers_after request argument r a)"
    using bounded_ioctl_post [OF assms(1) v(1) nomap c] by blast
  have ok: "holds_cam (s\<lparr>vs_allocated := vs_allocated s \<or> request = VIDIOC_REQBUFS, vs_world := w\<rparr>)"
    using t(2) v(2) assms(3) has by (auto simp: holds_cam_def buffers_after_def)
  have failed: "holds_cam t" "vs_has_api t" if "\<not> returned_ok r"
    using t v(2) assms(3) has that by (auto simp: holds_cam_def buffers_after_def)
  show ?thesis
  proof (cases r)
    case (Throw e)
    then show ?thesis using failed thrown_done [OF assms(1)] by (simp add: prepare_call_def c)
  next
    case (Ret q)
    show ?thesis
    proof (cases "vr_result q < 0")
      case True
      then show ?thesis using Ret failed rollback_done [OF assms(1)] by (simp add: prepare_call_def c)
    next
      case False
      then show ?thesis using Ret k [OF ok] t(1) by (simp add: prepare_call_def c)
    qed
  qed
qed

lemma map_call:
  assumes "holds_cam s" "0 \<le> vs_fd s"
    and "v4l2_call_api (watched api) (Map_memory len (vs_fd s) offset) s = (r, t)"
  shows "\<exists>w. t = s\<lparr>vs_world := w\<rparr> \<and> (case returned_address r of
      None \<Rightarrow> holds_cam t
    | Some address \<Rightarrow> holds_cam (t\<lparr>vs_regions := vs_regions s @ [\<lparr>rg_address = address, rg_length = len\<rparr>]\<rparr>))"
proof -
  have has: "vs_has_api s" by (rule held_api [OF assms(1,2)])
  obtain a where v: "cview (vs_world s) = Some (Some (vs_fd s), mset (map region_key (vs_regions s)), a)" "a \<longrightarrow> vs_allocated s"
    using assms(1,2) by (auto simp: holds_cam_def)
  obtain w where t: "t = s\<lparr>vs_world := w\<rparr>"
    "cview w = (case cview (vs_world s) of None \<Rightarrow> None | Some v \<Rightarrow> camera_step (Map_memory len (vs_fd s) offset, r) v)"
    using watched_call(1) [OF assms(3)] by blast
  have "cview w = Some (Some (vs_fd s), case returned_address r of None \<Rightarrow> mset (map region_key (vs_regions s))
       | Some address \<Rightarrow> add_mset (address, len) (mset (map region_key (vs_regions s))), a)"
    by (simp add: t(2) v(1) split: option.split)
  then have "case returned_address r of
      None \<Rightarrow> holds_cam t
    | Some address \<Rightarrow> holds_cam (t\<lparr>vs_regions := vs_regions s @ [\<lparr>rg_address = address, rg_length = len\<rparr>]\<rparr>)"
    using t(1) v(2) assms(2) has by (auto simp: holds_cam_def region_key_def split: option.split)
  with t(1) show ?thesis by blast
qed

lemma prepare_buffers_done:
  assumes "failure_keeps_argument api" "holds_cam s" "0 \<le> vs_fd s" "vs_allocated s" "negotiated_for c n"
    and "\<forall>r\<in>set (vs_regions s). vn_capacity n \<le> rg_length r" "2 \<le> length (vs_regions s) + left"
  shows "prepare_done c (prepare_buffers (watched api) n index left s)"
  using assms(2-4,6,7)
proof (induction left arbitrary: index s)
  case 0
  then show ?case using assms(5) held_api [of s] by (simp add: prepare_done_def prepared_for_def)
next
  case (Suc left)
  have has: "vs_has_api s" by (rule held_api [OF Suc.prems(1,2)])
  note fail = rollback_done [OF assms(1) Suc.prems(1) has] and throw = thrown_done [OF assms(1)]
  show ?case
  proof (cases "size_to_uint32 (of_nat index)")
    case None
    then show ?thesis using fail by simp
  next
    case (Some query_index)
    show ?thesis
      unfolding prepare_buffers.simps Some option.case
    proof (rule prepare_call_done [OF assms(1) Suc.prems(1,2)], goal_cases)
      case 1
      then show ?case by simp
    next
      case (2 arg w)
      let ?s = "s\<lparr>vs_world := w\<rparr>"
      have s: "holds_cam ?s" "0 \<le> vs_fd ?s" "vs_has_api ?s" using 2 Suc.prems(2) has by simp_all
      note bad = rollback_done [OF assms(1) s(1,3)]
      let ?len = "ucast (vb_length (ia_buffer arg)) :: size_t"
      have go: "prepare_done c (case v4l2_call_api (watched api) (Map_memory len (vs_fd ?s) offset) ?s of
            (Throw e, s) \<Rightarrow> prepare_thrown (watched api) e s
          | (Ret r, s) \<Rightarrow>
              (case vr_address r of
                 None \<Rightarrow> v4l2_rollback (watched api) (syscall_failure (watched api) ''mmap'' (vr_error r)) s
               | Some address \<Rightarrow>
                   prepare_buffers (watched api) n (Suc index) left
                     (s\<lparr>vs_regions := vs_regions s @ [\<lparr>rg_address = address, rg_length = len\<rparr>]\<rparr>)))"
        if len: "vn_capacity n \<le> len" for len offset
      proof -
        obtain r t where c: "v4l2_call_api (watched api) (Map_memory len (vs_fd ?s) offset) ?s = (r, t)" by (meson surj_pair)
        obtain w' where t: "t = ?s\<lparr>vs_world := w'\<rparr>" "case returned_address r of
            None \<Rightarrow> holds_cam t
          | Some address \<Rightarrow> holds_cam (t\<lparr>vs_regions := vs_regions ?s @ [\<lparr>rg_address = address, rg_length = len\<rparr>]\<rparr>)"
          using map_call [OF s(1,2) c] by blast
        have tf: "vs_has_api t" "0 \<le> vs_fd t" "vs_allocated t" "vs_regions t = vs_regions s"
          using t(1) s(2,3) Suc.prems(3) by simp_all
        show ?thesis
        proof (cases "returned_address r")
          case None
          then have "holds_cam t" using t(2) by simp
          then show ?thesis
            unfolding c using None rollback_done [OF assms(1) _ tf(1)] thrown_done [OF assms(1) _ tf(1)]
            by (cases r) simp_all
        next
          case (Some address)
          let ?t = "t\<lparr>vs_regions := vs_regions t @ [\<lparr>rg_address = address, rg_length = len\<rparr>]\<rparr>"
          have "holds_cam ?t" using t(2) tf(4) Some by simp
          then have "prepare_done c (prepare_buffers (watched api) n (Suc index) left ?t)"
            using Suc.IH [of ?t "Suc index"] tf Suc.prems(4,5) len by auto
          then show ?thesis unfolding c using Some by (cases r) simp_all
        qed
      qed
      have len: "uint32_to_size (vb_length (ia_buffer arg)) = None \<or> uint32_to_size (vb_length (ia_buffer arg)) = Some ?len"
        by (simp add: uint32_to_size_def)
      show ?case
        using bad go [of ?len] len by (auto simp: Let_def split: option.split)
    qed
  qed
qed

lemma prepare_request_done:
  assumes "failure_keeps_argument api" "holds_cam s" "0 \<le> vs_fd s" "vs_regions s = []" "negotiated_for c n"
  shows "prepare_done c (prepare_request h (watched api) c n s)"
  unfolding prepare_request_def
proof (rule prepare_call_done [OF assms(1-3)], goal_cases)
  case 1
  then show ?case using assms(4) by simp
next
  case (2 arg w)
  let ?s = "s\<lparr>vs_world := w, vs_allocated := True\<rparr>"
  have e: "s\<lparr>vs_allocated := vs_allocated s \<or> VIDIOC_REQBUFS = VIDIOC_REQBUFS, vs_world := w\<rparr> = ?s" by simp
  have s: "holds_cam ?s" "vs_has_api ?s" using 2 [unfolded e] held_api [OF assms(2,3)] by simp_all
  note bad = rollback_done [OF assms(1) s] and thrown = thrown_done [OF assms(1) s]
  have "prepare_done c (prepare_buffers (watched api) n 0 (unat buffer_count) ?s)"
    if "uint32_to_size (rb_count (ia_request arg)) = Some buffer_count" "\<not> rb_count (ia_request arg) < 2" for buffer_count
  proof (rule prepare_buffers_done [OF assms(1) s(1) _ _ assms(5)])
    have "unat buffer_count = unat (rb_count (ia_request arg))"
      using that(1) unsigned_less [of "rb_count (ia_request arg)", where 'a = nat]
      by (auto simp: uint32_to_size_def unsigned_ucast_eq take_bit_nat_eq_self split: if_split_asm)
    then show "2 \<le> length (vs_regions ?s) + unat buffer_count"
      using that(2) by (simp add: word_less_nat_alt)
  qed (use assms(3,4) in auto)
  then show ?case using bad thrown by (auto simp: Let_def split: option.split exn.split)
qed

lemma prepare_interval_done:
  assumes "failure_keeps_argument api" "holds_cam s" "0 \<le> vs_fd s" "vs_regions s = []" "negotiated_for c n"
  shows "prepare_done c (prepare_interval h (watched api) c n s)"
  unfolding prepare_interval_def
proof (rule prepare_call_done [OF assms(1-3)], goal_cases)
  case (2 arg w)
  then have s: "holds_cam (s\<lparr>vs_world := w\<rparr>)" "0 \<le> vs_fd (s\<lparr>vs_world := w\<rparr>)" using assms(3) by simp_all
  show ?case
  proof (rule prepare_call_done [OF assms(1) s], goal_cases)
    case (2 arg' w')
    then have t: "holds_cam (s\<lparr>vs_world := w'\<rparr>)" "0 \<le> vs_fd (s\<lparr>vs_world := w'\<rparr>)" using assms(3) by simp_all
    have has: "vs_has_api (s\<lparr>vs_world := w'\<rparr>)" by (rule held_api [OF t])
    show ?case
      using rollback_done [OF assms(1) t(1) has] prepare_request_done [OF assms(1) t _ assms(5)] assms(4) by (simp add: Let_def)
  qed simp
qed simp

lemma prepare_format_done:
  assumes "failure_keeps_argument api" "holds_cam s" "0 \<le> vs_fd s" "vs_regions s = []"
  shows "prepare_done c (prepare_format h (watched api) c px s)"
  unfolding prepare_format_def
proof (rule prepare_call_done [OF assms(1-3)], goal_cases)
  case (2 arg w)
  then have s: "holds_cam (s\<lparr>vs_world := w\<rparr>)" "0 \<le> vs_fd (s\<lparr>vs_world := w\<rparr>)" using assms(3) by simp_all
  show ?case
  proof (rule prepare_call_done [OF assms(1) s], goal_cases)
    case (2 arg' w')
    then have t: "holds_cam (s\<lparr>vs_world := w'\<rparr>)" "0 \<le> vs_fd (s\<lparr>vs_world := w'\<rparr>)" using assms(3) by simp_all
    have has: "vs_has_api (s\<lparr>vs_world := w'\<rparr>)" by (rule held_api [OF t])
    have bad: "\<not> st_ok layout_status" if "make_negotiated_format h (vc_pixel c) (vc_width c) (vc_height c) px' = Ret (Inl layout_status)"
      for layout_status px'
      using that by (auto simp: make_negotiated_format_def err_def v4l2_layout_def yuv420_layout_def nv12_layout_def
          yuyv_layout_def Let_def split: option.split_asm exn.split_asm sum.split_asm prod.split_asm if_split_asm pixel_format.split_asm)
    show ?case
      using rollback_done [OF assms(1) t(1) has] thrown_done [OF assms(1) t(1) has] bad
        prepare_interval_done [OF assms(1) t _ make_negotiated_format_for] assms(4)
      by (auto simp: Let_def split: outcome.split sum.split)
  qed simp
qed simp

lemma prepare_device_done:
  assumes "failure_keeps_argument api" "holds_cam s" "0 \<le> vs_fd s" "vs_regions s = []"
  shows "prepare_done c (prepare_device h (watched api) c px s)"
  unfolding prepare_device_def
proof (rule prepare_call_done [OF assms(1-3)], goal_cases)
  case (2 arg w)
  then have s: "holds_cam (s\<lparr>vs_world := w\<rparr>)" "0 \<le> vs_fd (s\<lparr>vs_world := w\<rparr>)" using assms(3) by simp_all
  have has: "vs_has_api (s\<lparr>vs_world := w\<rparr>)" by (rule held_api [OF s])
  show ?case
    using rollback_done [OF assms(1) s(1) has] prepare_format_done [OF assms(1) s] assms(4) by (simp add: Let_def)
qed simp

text \<open>Opening: at most one of the attempts succeeds, the last one.\<close>

lemma open_attempts_post:
  assumes "cview (vs_world s) = Some (None, {#}, False)" "open_attempts n (watched api) path flags s = (r, s')"
  shows "\<exists>w. s' = s\<lparr>vs_world := w\<rparr> \<and> cview w = Some (case r of
      Ret q \<Rightarrow> if vr_result q < 0 then None else Some (vr_result q) | Throw e \<Rightarrow> None, {#}, False)"
  using assms
proof (induction n arbitrary: s)
  case 0
  then have c: "v4l2_call_api (watched api) (Open_device path flags) s = (r, s')" by simp
  show ?case using watched_call(1) [OF c] 0(1) by (auto split: outcome.split)
next
  case (Suc n)
  obtain q s1 where c: "v4l2_call_api (watched api) (Open_device path flags) s = (q, s1)" by (meson surj_pair)
  obtain w where w: "s1 = s\<lparr>vs_world := w\<rparr>" "cview w = Some (case q of
      Ret q \<Rightarrow> if vr_result q < 0 then None else Some (vr_result q) | Throw e \<Rightarrow> None, {#}, False)"
    using watched_call(1) [OF c] Suc.prems(1) by (auto split: outcome.split)
  show ?case
  proof (cases "\<exists>x. q = Ret x \<and> vr_result x < 0 \<and> vr_error x = eINTR")
    case False
    then have "r = q" "s' = s1" using Suc.prems(2) by (cases q; auto simp: c split: if_splits)+
    then show ?thesis using w by blast
  next
    case True
    then have "open_attempts n (watched api) path flags s1 = (r, s')" "cview (vs_world s1) = Some (None, {#}, False)"
      using Suc.prems(2) w by (auto simp: c)
    from Suc.IH [OF this(2,1)] show ?thesis using w(1) by auto
  qed
qed

lemma v4l2_prepare_done:
  assumes "failure_keeps_argument api" "holds_cam s" "vs_has_api s" "vs_state s = V4l2_created" "vs_fd s < 0"
    "\<not> vs_allocated s" "v4l2_pixel_format (vc_pixel c) = Some px"
  shows "prepare_done c (v4l2_prepare h (watched api) c s)"
proof -
  have none: "vs_regions s = []" "cview (vs_world s) = Some (None, {#}, False)" using held_nothing assms(2,5) by auto
  obtain r t where o: "bounded_open (watched api) (vc_device c) [O_RDWR, O_NONBLOCK, O_CLOEXEC] s = (r, t)" by (meson surj_pair)
  obtain w where t: "t = s\<lparr>vs_world := w\<rparr>" "cview w = Some (case r of
      Ret q \<Rightarrow> if vr_result q < 0 then None else Some (vr_result q) | Throw e \<Rightarrow> None, {#}, False)"
    using open_attempts_post [OF none(2)] o unfolding bounded_open_def by blast
  have start: "v4l2_prepare h (watched api) c s = (case (r, t) of
      (Throw e, s) \<Rightarrow> prepare_thrown (watched api) e s
    | (Ret r, s) \<Rightarrow> let s = s\<lparr>vs_fd := vr_result r\<rparr>
        in if vr_result r < 0 then v4l2_rollback (watched api) (syscall_failure (watched api) ''open'' (vr_error r)) s
           else prepare_device h (watched api) c px s)"
    using assms none(1) by (simp add: v4l2_prepare_def o)
  show ?thesis
  proof (cases r)
    case (Throw e)
    have "holds_cam t" using t Throw none(1) assms(5) by (simp add: holds_cam_def ex_bool_eq)
    then show ?thesis using thrown_done [OF assms(1)] t(1) assms(3) by (simp add: start Throw)
  next
    case (Ret q)
    let ?t = "t\<lparr>vs_fd := vr_result q\<rparr>"
    have h: "holds_cam ?t" "vs_has_api ?t" "vs_regions ?t = []"
      using t Ret none(1) assms(3) by (simp_all add: holds_cam_def ex_bool_eq)
    then show ?thesis
      using rollback_done [OF assms(1) h(1,2)] prepare_device_done [OF assms(1) h(1)] by (simp add: start Ret Let_def)
  qed
qed

subsection \<open>The other operations\<close>

text \<open>A device that is not created has a descriptor.\<close>

definition v4l2_inv :: "'w watched_world v4l2_system \<Rightarrow> bool" where
  "v4l2_inv s \<longleftrightarrow> holds_cam s \<and> (if vs_state s = V4l2_created then gone s else 0 \<le> vs_fd s)"

lemma gone_inv: "gone s \<Longrightarrow> v4l2_inv s"
  by (auto simp: v4l2_inv_def gone_holds) (simp add: gone_def)

text \<open>An \<open>ioctl\<close> of a device that is not created.\<close>

lemma ioctl_inv:
  assumes "failure_keeps_argument api" "v4l2_inv s" "vs_state s \<noteq> V4l2_created" "request \<noteq> VIDIOC_REQBUFS"
    and "bounded_ioctl (watched api) request argument s = (r, t)"
  shows "\<exists>w. t = s\<lparr>vs_world := w\<rparr> \<and> v4l2_inv t"
proof -
  have "holds_cam s" "0 \<le> vs_fd s" using assms(2,3) by (simp_all add: v4l2_inv_def)
  from ioctl_holds [OF assms(1) this assms(4,5)] show ?thesis
    using assms(3) \<open>0 \<le> vs_fd s\<close> by (auto simp: v4l2_inv_def)
qed

lemma v4l2_inv_state: "v4l2_inv s \<Longrightarrow> vs_state s \<noteq> V4l2_created \<Longrightarrow> x \<noteq> V4l2_created \<Longrightarrow> v4l2_inv (s\<lparr>vs_state := x\<rparr>)"
  by (simp add: v4l2_inv_def)

lemma reset_inv: "failure_keeps_argument api \<Longrightarrow> v4l2_inv s \<Longrightarrow> v4l2_inv (snd (v4l2_reset (watched api) s))"
  using reset_post [of api s] gone_inv [of "snd (v4l2_reset (watched api) s)"] by (simp add: v4l2_inv_def [of s])

lemma queue_inv:
  assumes "failure_keeps_argument api" "v4l2_inv s" "vs_state s \<noteq> V4l2_created" "queue_buffer (watched api) index s = (r, s')"
  shows "\<exists>w. s' = s\<lparr>vs_world := w\<rparr> \<and> v4l2_inv s'"
proof -
  obtain q t where c: "bounded_ioctl (watched api) VIDIOC_QBUF (capture_buffer index) s = (q, t)" by (meson surj_pair)
  have "s' = t" using assms(4) by (cases q) (auto simp: queue_buffer_def c)
  then show ?thesis using ioctl_inv [OF assms(1-3) _ c] by auto
qed

lemma rollback_start_inv:
  assumes "failure_keeps_argument api" "v4l2_inv s" "vs_state s \<noteq> V4l2_created"
  shows "v4l2_inv (snd (rollback_start (watched api) st n s))"
proof -
  obtain r t where c: "bounded_ioctl (watched api) VIDIOC_STREAMOFF capture_type s = (r, t)" by (meson surj_pair)
  have t: "v4l2_inv t" using ioctl_inv [OF assms _ c] by auto
  then show ?thesis
    using assms(2) reset_inv [OF assms(1) t] by (cases r) (auto simp: rollback_start_def c)
qed

lemma start_buffers_inv:
  assumes "failure_keeps_argument api" "v4l2_inv s" "vs_state s \<noteq> V4l2_created"
  shows "v4l2_inv (snd (start_buffers (watched api) index left s))"
  using assms(2,3)
proof (induction left arbitrary: index s)
  case 0
  obtain r t where c: "bounded_ioctl (watched api) VIDIOC_STREAMON capture_type s = (r, t)" by (meson surj_pair)
  have t: "v4l2_inv t" "vs_state t \<noteq> V4l2_created" using ioctl_inv [OF assms(1) 0 _ c] 0 by auto
  have "snd (start_buffers (watched api) index 0 s) = t
      \<or> (\<exists>st. snd (start_buffers (watched api) index 0 s) = snd (rollback_start (watched api) st index t))
      \<or> snd (start_buffers (watched api) index 0 s) = t\<lparr>vs_state := V4l2_running\<rparr>"
    by (cases r) (auto simp: c case_prod_beta)
  then show ?case
    using rollback_start_inv [OF assms(1) t] t v4l2_inv_state [OF t, of V4l2_running] by auto
next
  case (Suc left)
  obtain r t where c: "queue_buffer (watched api) (of_nat index) s = (r, t)" by (meson surj_pair)
  have t: "v4l2_inv t" "vs_state t \<noteq> V4l2_created" using queue_inv [OF assms(1) Suc.prems c] Suc.prems by auto
  have "snd (start_buffers (watched api) index (Suc left) s) = t
      \<or> (\<exists>st. snd (start_buffers (watched api) index (Suc left) s) = snd (rollback_start (watched api) st index t))
      \<or> snd (start_buffers (watched api) index (Suc left) s) = snd (start_buffers (watched api) (Suc index) left t)"
    by (cases r) (auto simp: c case_prod_beta)
  then show ?case
    using Suc.IH [OF t] rollback_start_inv [OF assms(1) t] t by auto
qed

lemma prepare_inv4:
  assumes "failure_keeps_argument api" "v4l2_inv s"
  shows "v4l2_inv (snd (v4l2_prepare h (watched api) c s))"
proof (cases "vs_has_api s \<and> vs_state s = V4l2_created \<and> vs_fd s < 0 \<and> \<not> vs_allocated s \<and> vs_regions s = []
    \<and> v4l2_pixel_format (vc_pixel c) \<noteq> None")
  case True
  then obtain px where px: "v4l2_pixel_format (vc_pixel c) = Some px" by auto
  have "holds_cam s" using assms(2) by (simp add: v4l2_inv_def)
  then have "prepare_done c (v4l2_prepare h (watched api) c s)" using v4l2_prepare_done [OF assms(1) _ _ _ _ _ px] True by simp
  then show ?thesis
    by (auto simp: prepare_done_def gone_inv prepared_for_def v4l2_inv_def gone_holds split: prod.splits if_splits)
      (auto simp: gone_def)
next
  case False
  then have "snd (v4l2_prepare h (watched api) c s) = s" by (auto simp: v4l2_prepare_def)
  then show ?thesis using assms(2) by simp
qed

datatype v4l2_op =
    V4l2_op_prepare throws v4l2_config
  | V4l2_op_start
  | V4l2_op_stop
  | V4l2_op_dequeue
  | V4l2_op_requeue "32 word"
  | V4l2_op_reset

fun v4l2_step :: "'w v4l2_api \<Rightarrow> v4l2_op \<Rightarrow> 'w v4l2_system \<Rightarrow> 'w v4l2_system" where
  "v4l2_step api (V4l2_op_prepare h c) s = snd (v4l2_prepare h api c s)"
| "v4l2_step api V4l2_op_start s = snd (v4l2_start api s)"
| "v4l2_step api V4l2_op_stop s = snd (v4l2_stop api s)"
| "v4l2_step api V4l2_op_dequeue s = snd (v4l2_dequeue api s)"
| "v4l2_step api (V4l2_op_requeue index) s = snd (v4l2_requeue api index s)"
| "v4l2_step api V4l2_op_reset s = snd (v4l2_reset api s)"

definition v4l2_run :: "'w v4l2_api \<Rightarrow> v4l2_op list \<Rightarrow> 'w v4l2_system \<Rightarrow> 'w v4l2_system" where
  "v4l2_run api ops s = fold (v4l2_step api) ops s"

lemma v4l2_new_gone: "gone (v4l2_new has_api (w, []))"
  by (simp add: gone_def v4l2_new_def cview_def)

lemma v4l2_step_inv:
  assumes "failure_keeps_argument api" "v4l2_inv s"
  shows "v4l2_inv (v4l2_step (watched api) op s)"
proof (cases op)
  case (V4l2_op_prepare h c)
  then show ?thesis using prepare_inv4 [OF assms] by simp
next
  case V4l2_op_start
  then show ?thesis using start_buffers_inv [OF assms] assms(2) by (auto simp: v4l2_start_def)
next
  case V4l2_op_stop
  obtain r t where c: "bounded_ioctl (watched api) VIDIOC_STREAMOFF capture_type s = (r, t)" by (meson surj_pair)
  show ?thesis
  proof (cases "vs_state s = V4l2_running")
    case True
    then have t: "v4l2_inv t" "vs_state t \<noteq> V4l2_created" using ioctl_inv [OF assms _ _ c] by auto
    then show ?thesis using True V4l2_op_stop v4l2_inv_state [OF t, of V4l2_prepared] by (cases r) (auto simp: v4l2_stop_def c)
  next
    case False
    then show ?thesis using V4l2_op_stop assms(2) by (cases "vs_state s") (simp_all add: v4l2_stop_def)
  qed
next
  case V4l2_op_dequeue
  obtain r t where c: "bounded_ioctl (watched api) VIDIOC_DQBUF (capture_buffer 0) s = (r, t)" by (meson surj_pair)
  have "v4l2_inv t" if "vs_state s = V4l2_running" using ioctl_inv [OF assms _ _ c] that by auto
  then show ?thesis using V4l2_op_dequeue assms(2) by (cases r) (auto simp: v4l2_dequeue_def c Let_def)
next
  case (V4l2_op_requeue index)
  obtain r t where c: "queue_buffer (watched api) index s = (r, t)" by (meson surj_pair)
  have "v4l2_inv t" if "vs_state s = V4l2_running" using queue_inv [OF assms _ c] that by auto
  then show ?thesis using V4l2_op_requeue assms(2) by (auto simp: v4l2_requeue_def c)
next
  case V4l2_op_reset
  then show ?thesis using reset_inv [OF assms] by simp
qed

lemma v4l2_run_inv:
  "failure_keeps_argument api \<Longrightarrow> v4l2_inv s \<Longrightarrow> v4l2_inv (v4l2_run (watched api) ops s)"
  unfolding v4l2_run_def by (induction ops arbitrary: s) (auto simp: v4l2_step_inv)

text \<open>C27: what is held of a camera. Let a program do anything with a \<open>V4L2System\<close> in any order, over a
  kernel that refuses or interrupts calls as it likes, or an interface that throws, and destroy the
  object in the end. Then the kernel has never been asked for a second open descriptor or anything on a
  descriptor that is not open, every mapping has been unmapped exactly once, the buffers have been
  released only after the last mapping, the descriptor closed exactly once and after that, and nothing
  is left.\<close>

theorem v4l2_resources_disciplined:
  assumes "failure_keeps_argument api"
  shows "camera_after (snd (vs_world (v4l2_destroy (watched api) (v4l2_run (watched api) ops (v4l2_new has_api (w, []))))))
    (None, {#}, False) = Some (None, {#}, False)"
proof -
  have "v4l2_inv (v4l2_run (watched api) ops (v4l2_new has_api (w, [])))"
    using v4l2_run_inv [OF assms gone_inv [OF v4l2_new_gone]] .
  then have "holds_cam (v4l2_run (watched api) ops (v4l2_new has_api (w, [])))" by (simp add: v4l2_inv_def)
  from cleanup_post [OF assms this] show ?thesis by (simp add: v4l2_destroy_def gone_def cview_def)
qed

text \<open>A camera that does as it is told: YUYV of 4 by 2 at 30 frames a second, four buffers of a page.
  Its state counts the frames it has delivered.\<close>

definition tame_ioctl :: "v4l2_request \<Rightarrow> ioctl_arg \<Rightarrow> nat \<Rightarrow> ioctl_arg" where
  "tame_ioctl request a w =
     (case request of
        VIDIOC_QUERYCAP \<Rightarrow> a\<lparr>ia_capability := \<lparr>cp_capabilities = or CAP_VIDEO_CAPTURE CAP_STREAMING, cp_device_caps = 0\<rparr>\<rparr>
      | VIDIOC_G_FMT \<Rightarrow> a\<lparr>ia_format := \<lparr>fm_type = BUF_TYPE_VIDEO_CAPTURE,
          fm_pix = \<lparr>px_width = 4, px_height = 2, px_pixelformat = PIX_FMT_YUYV, px_field = 1,
            px_bytesperline = 16, px_sizeimage = 32\<rparr>\<rparr>\<rparr>
      | VIDIOC_G_PARM \<Rightarrow> a\<lparr>ia_parm := \<lparr>sp_type = BUF_TYPE_VIDEO_CAPTURE, sp_capability = CAP_TIMEPERFRAME,
          sp_numerator = 2, sp_denominator = 60\<rparr>\<rparr>
      | VIDIOC_QUERYBUF \<Rightarrow> a\<lparr>ia_buffer := (ia_buffer a)\<lparr>vb_length := 4096, vb_offset := vb_index (ia_buffer a) * 4096\<rparr>\<rparr>
      | VIDIOC_DQBUF \<Rightarrow> a\<lparr>ia_buffer := (ia_buffer a)\<lparr>vb_index := of_nat (w mod 4), vb_bytesused := 32,
          vb_flags := 0x2000, vb_sequence := of_nat w,
          vb_timestamp := \<lparr>tv_secs = 1, tv_usec = 33333 * int w\<rparr>\<rparr>\<rparr>
      | _ \<Rightarrow> a)"

definition tame_camera :: "nat v4l2_api" where
  "tame_camera =
     \<lparr>va_call = (\<lambda>c w.
        (Ret \<lparr>vr_result = (case c of Open_device _ _ \<Rightarrow> 3 | _ \<Rightarrow> 0), vr_error = 0,
              vr_arg = (case c of Device_ioctl _ request a \<Rightarrow> tame_ioctl request a w | _ \<Rightarrow> zero_arg),
              vr_address = (case c of Map_memory _ _ offset \<Rightarrow> Some (65536 + word_of_int offset) | _ \<Rightarrow> None)\<rparr>,
         case c of Device_ioctl _ VIDIOC_DQBUF _ \<Rightarrow> Suc w | _ \<Rightarrow> w)),
      va_max_offset = 0x7FFFFFFFFFFFFFFF, va_strerror = (\<lambda>_. ''error'')\<rparr>"

definition small_config :: v4l2_config where
  "small_config = \<lparr>vc_device = ''/dev/video0'', vc_pixel = kYuyv422, vc_width = 4, vc_height = 2,
     vc_rate_num = 30, vc_rate_den = 1, vc_buffers = 4\<rparr>"

lemma tame_camera_documented: "failure_keeps_argument tame_camera"
  by (simp add: failure_keeps_argument_def tame_camera_def split: v4l2_call.split)

definition camera_session :: "v4l2_op list" where
  "camera_session = [V4l2_op_prepare no_throw small_config, V4l2_op_start, V4l2_op_dequeue, V4l2_op_requeue 0]"

definition session_calls :: "v4l2_event list" where
  "session_calls = snd (vs_world (v4l2_destroy (watched tame_camera)
     (v4l2_run (watched tame_camera) camera_session (v4l2_new True (0, [])))))"

lemma session_length: "length session_calls = 29"
  by code_simp

theorem v4l2_resources_disciplined_witness:
  "length session_calls = 29 \<and> camera_after session_calls (None, {#}, False) = Some (None, {#}, False)"
  using v4l2_resources_disciplined [OF tame_camera_documented, of camera_session True 0] session_length
  by (simp add: session_calls_def)



end
