(* ===== verification/V4l2_Copy.thy ===== *)
theory V4l2_Copy
  imports V4l2_Capture V4l2_Contract
begin

text \<open>
  What \<open>copy_frame\<close> does to memory: the visible rows of the camera's buffer are in the new frame, the
  padding is zero, and nothing else has been written or, outside the mapping, read.

  Addresses are compared by their distance from the start of a range, which makes the arguments
  independent of where the ranges lie.
\<close>

lemma write_bytes_at:
  assumes "length bs \<le> 2 ^ 64"
  shows "mem_bytes (write_bytes a bs m) x = (if unat (x - a) < length bs then bs ! unat (x - a) else mem_bytes m x)"
proof (cases "unat (x - a) < length bs")
  case True
  have "a + of_nat (unat (x - a)) = x" by simp
  then show ?thesis using read_written [OF assms True, of a m] True by simp
next
  case False
  have "a + of_nat i \<noteq> x" if "i < length bs" for i
  proof
    assume "a + of_nat i = x"
    then have "unat (x - a) = unat (of_nat i :: size_t)" by (metis add_diff_cancel_left')
    moreover have "unat (of_nat i :: size_t) \<le> i" by (simp add: unat_of_nat)
    ultimately show False using False that by simp
  qed
  then show ?thesis using read_write_other [of bs a x m] False by simp
qed

text \<open>The distance from the start of a row.\<close>

lemma row_distance:
  fixes x D :: size_t
  assumes "q + n \<le> 2 ^ 64" "0 < n"
  shows "unat (x - (D + of_nat q)) < n \<longleftrightarrow> q \<le> unat (x - D) \<and> unat (x - D) < q + n"
    and "q \<le> unat (x - D) \<Longrightarrow> unat (x - (D + of_nat q)) = unat (x - D) - q"
proof -
  let ?k = "unat (x - D)"
  have k: "?k < 2 ^ 64" using unat_less_64 .
  have uq: "unat (of_nat q :: size_t) = q" using assms by (simp add: unat_of_nat)
  have e: "x - (D + of_nat q) = (x - D) - of_nat q" by simp
  have ge: "unat (x - (D + of_nat q)) = ?k - q" if "q \<le> ?k"
    using that uq unfolding e by (simp add: unat_sub word_le_nat_alt)
  then show "q \<le> ?k \<Longrightarrow> unat (x - (D + of_nat q)) = ?k - q" .
  have lt: "unat (x - (D + of_nat q)) = ?k + 2 ^ 64 - q" if "?k < q"
  proof -
    have "x - (D + of_nat q) = of_nat (?k + 2 ^ 64 - q)"
      using that assms(1) by (simp add: of_nat_diff)
    moreover have "?k + 2 ^ 64 - q < 2 ^ 64" using that by simp
    ultimately show ?thesis by (simp add: unat_of_nat)
  qed
  show "unat (x - (D + of_nat q)) < n \<longleftrightarrow> q \<le> ?k \<and> ?k < q + n"
    using ge lt assms by (cases "q \<le> ?k") auto
qed

text \<open>Two ranges share no address.\<close>

definition apart :: "size_t \<Rightarrow> nat \<Rightarrow> size_t \<Rightarrow> nat \<Rightarrow> bool" where
  "apart a m b n \<longleftrightarrow> (\<forall>i<m. \<forall>j<n. a + of_nat i \<noteq> b + of_nat j)"

lemma apart_distance: "apart a m b n \<Longrightarrow> i < m \<Longrightarrow> \<not> unat (a + of_nat i - b) < n"
proof
  assume h: "apart a m b n" "i < m" "unat (a + of_nat i - b) < n"
  have "b + of_nat (unat (a + of_nat i - b)) = a + of_nat i" by simp
  then show False using h unfolding apart_def by metis
qed

text \<open>A byte of a visible row.\<close>

definition in_rows :: "nat \<Rightarrow> nat \<Rightarrow> nat \<Rightarrow> nat \<Rightarrow> nat \<Rightarrow> bool" where
  "in_rows first rows stride visible k \<longleftrightarrow> (\<exists>j. first \<le> j \<and> j < rows \<and> j * stride \<le> k \<and> k < j * stride + visible)"

lemma in_rows_step:
  "in_rows first rows stride visible k \<longleftrightarrow>
     first < rows \<and> first * stride \<le> k \<and> k < first * stride + visible \<or> in_rows (Suc first) rows stride visible k"
proof
  assume "in_rows first rows stride visible k"
  then obtain j where j: "first \<le> j" "j < rows" "j * stride \<le> k" "k < j * stride + visible" unfolding in_rows_def by metis
  show "first < rows \<and> first * stride \<le> k \<and> k < first * stride + visible \<or> in_rows (Suc first) rows stride visible k"
  proof (cases "j = first")
    case True
    then show ?thesis using j by simp
  next
    case False
    then have "in_rows (Suc first) rows stride visible k" unfolding in_rows_def using j by (intro exI [of _ j]) simp
    then show ?thesis ..
  qed
next
  assume "first < rows \<and> first * stride \<le> k \<and> k < first * stride + visible \<or> in_rows (Suc first) rows stride visible k"
  then show "in_rows first rows stride visible k"
  proof
    assume "first < rows \<and> first * stride \<le> k \<and> k < first * stride + visible"
    then show ?thesis unfolding in_rows_def by (intro exI [of _ first]) simp
  next
    assume "in_rows (Suc first) rows stride visible k"
    then obtain j where j: "Suc first \<le> j" "j < rows" "j * stride \<le> k" "k < j * stride + visible" unfolding in_rows_def by metis
    then show ?thesis unfolding in_rows_def by (intro exI [of _ j]) simp
  qed
qed

lemma copy_rows_bytes:
  assumes "0 < visible" "visible \<le> unat stride" "(row + left - 1) * unat stride + visible \<le> N" "N < 2 ^ 64"
    and "apart source N destination N" "left = 0 \<or> 0 < row + left"
  shows "mem_bytes (copy_rows row left stride destination source visible m) x =
    (if in_rows row (row + left) (unat stride) visible (unat (x - destination))
     then mem_bytes m (source + of_nat (unat (x - destination))) else mem_bytes m x)"
  using assms(3,6)
proof (induction left arbitrary: row m)
  case 0
  then show ?case by (auto simp: in_rows_def)
next
  case (Suc left)
  let ?S = "unat stride" and ?k = "unat (x - destination)"
  define m' where "m' = write_bytes (destination + of_nat row * stride) (read_bytes m (source + of_nat row * stride) visible) m"
  have below: "row * ?S + visible \<le> N"
  proof -
    have "row * ?S \<le> (row + Suc left - 1) * ?S" by (intro mult_le_mono1) simp
    then show ?thesis using Suc.prems(1) by linarith
  qed
  have rs: "of_nat row * stride = of_nat (row * ?S)" by simp
  have vis64: "visible \<le> 2 ^ 64" using below assms(4) by linarith
  have bnd: "row * ?S + visible \<le> 2 ^ 64" using below assms(4) by linarith
  have m': "mem_bytes m' y = (if row * ?S \<le> unat (y - destination) \<and> unat (y - destination) < row * ?S + visible
      then mem_bytes m (source + of_nat (unat (y - destination))) else mem_bytes m y)" for y
  proof -
    let ?d = "unat (y - (destination + of_nat (row * ?S)))" and ?q = "unat (y - destination)"
    have w: "mem_bytes m' y = (if ?d < visible then mem_bytes m (source + of_nat (row * ?S) + of_nat ?d) else mem_bytes m y)"
      using write_bytes_at [of "read_bytes m (source + of_nat row * stride) visible" "destination + of_nat row * stride" m y] vis64
      unfolding m'_def rs by (auto simp: read_bytes_def)
    have "source + of_nat (row * ?S) + of_nat ?d = source + of_nat ?q" if "row * ?S \<le> ?q"
    proof -
      have "row * ?S + ?d = ?q" using row_distance(2) [OF bnd assms(1) that] that by simp
      then have "(of_nat (row * ?S) :: size_t) + of_nat ?d = of_nat ?q" by (metis of_nat_add)
      then show ?thesis by (simp only: add.assoc)
    qed
    then show ?thesis using w row_distance(1) [OF bnd assms(1), of y destination] by auto
  qed
  have IH: "mem_bytes (copy_rows (Suc row) left stride destination source visible m') x =
      (if in_rows (Suc row) (Suc row + left) ?S visible ?k then mem_bytes m' (source + of_nat ?k) else mem_bytes m' x)"
    by (rule Suc.IH) (use Suc.prems in auto)
  have src: "mem_bytes m' (source + of_nat ?k) = mem_bytes m (source + of_nat ?k)"
    if h: "in_rows (Suc row) (Suc row + left) ?S visible ?k"
  proof -
    obtain j where j: "j < Suc row + left" "?k < j * ?S + visible" using h unfolding in_rows_def by metis
    have "j * ?S \<le> (row + Suc left - 1) * ?S" using j(1) by (intro mult_le_mono1) simp
    then have "?k < N" using j(2) Suc.prems(1) by linarith
    from apart_distance [OF assms(5) this] show ?thesis using m' below by auto
  qed
  have "copy_rows row (Suc left) stride destination source visible m = copy_rows (Suc row) left stride destination source visible m'"
    by (simp add: m'_def Let_def)
  then show ?case
    using IH src m' [of x] in_rows_step [of row "row + Suc left" ?S visible ?k] by auto
qed

subsection \<open>One plane\<close>

text \<open>What a plane looks like afterwards: the visible bytes of the source, zero elsewhere.\<close>

definition plane_byte :: "memory \<Rightarrow> size_t \<Rightarrow> nat \<Rightarrow> nat \<Rightarrow> nat \<Rightarrow> nat \<Rightarrow> 8 word" where
  "plane_byte m source rows stride visible k =
     (if in_rows 0 rows stride visible k then mem_bytes m (source + of_nat k) else 0)"

lemma validate_copy_range_Inr:
  assumes "validate_copy_range dq plane off visible rows tb cap = Inr r"
  shows "0 < unat rows" "0 < unat visible" "unat visible \<le> unat (pl_stride plane)"
    "unat off + (unat rows - 1) * unat (pl_stride plane) + unat visible \<le> unat (dq_mapped_length dq)"
    "unat off + (unat rows - 1) * unat (pl_stride plane) + unat visible \<le> unat (dq_bytesused dq)"
    "(unat rows - 1) * unat (pl_stride plane) + unat visible \<le> unat tb"
proof -
  obtain a b c d e f where
    c: "checked_multiply (pl_stride plane) (rows - 1) = Some a" "checked_add off a = Some b" "checked_add b visible = Some c"
      "checked_add a visible = Some d" "checked_add (pl_offset plane) a = Some e" "checked_add e visible = Some f"
    and n: "rows \<noteq> 0" "visible \<noteq> 0" "visible \<le> pl_stride plane" "c \<le> ucast (dq_bytesused dq)" "c \<le> dq_mapped_length dq" "d \<le> tb"
    using assms by (auto simp: validate_copy_range_def Let_def not_less err_def split: if_split_asm option.split_asm)
  have a: "unat a = unat (pl_stride plane) * unat (rows - 1)" and b: "unat b = unat off + unat a"
    and cc: "unat c = unat b + unat visible" and d: "unat d = unat a + unat visible"
    using c checked_multiply_Some_iff checked_add_Some_iff by simp_all
  have r: "unat (rows - 1) = unat rows - 1" "0 < unat rows" using n(1) by (simp_all add: unat_minus_one unat_gt_0)
  have used: "unat (ucast (dq_bytesused dq) :: size_t) = unat (dq_bytesused dq)"
    using unsigned_less [of "dq_bytesused dq", where 'a = nat] by (simp add: unsigned_ucast_eq take_bit_nat_eq_self)
  show "0 < unat rows" by (rule r(2))
  show "0 < unat visible" using n(2) by (simp add: unat_gt_0)
  show "unat visible \<le> unat (pl_stride plane)" using n(3) by (simp add: word_le_nat_alt)
  show "unat off + (unat rows - 1) * unat (pl_stride plane) + unat visible \<le> unat (dq_mapped_length dq)"
    using n(5) a b cc r(1) by (simp add: word_le_nat_alt mult.commute)
  show "unat off + (unat rows - 1) * unat (pl_stride plane) + unat visible \<le> unat (dq_bytesused dq)"
    using n(4) a b cc r(1) used by (simp add: word_le_nat_alt mult.commute)
  show "(unat rows - 1) * unat (pl_stride plane) + unat visible \<le> unat tb"
    using n(6) a d r(1) by (simp add: word_le_nat_alt mult.commute)
qed

lemma in_rows_below: "in_rows 0 rows stride visible k \<Longrightarrow> k < (rows - 1) * stride + visible"
proof -
  assume "in_rows 0 rows stride visible k"
  then obtain j where j: "j < rows" "k < j * stride + visible" unfolding in_rows_def by metis
  have "j * stride \<le> (rows - 1) * stride" using j(1) by (intro mult_le_mono1) simp
  then show ?thesis using j(2) by linarith
qed

text \<open>\<open>memset\<close> and the rows.\<close>

lemma filled_plane:
  assumes v: "validate_copy_range dq plane off visible rows tb cap = Inr r"
    and apart: "apart source ((unat rows - 1) * unat (pl_stride plane) + unat visible) destination (unat tb)"
  shows "mem_bytes (copy_rows 0 (unat rows) (pl_stride plane) destination source (unat visible)
            (write_bytes destination (replicate (unat tb) 0) m)) x
    = (if unat (x - destination) < unat tb
       then plane_byte m source (unat rows) (unat (pl_stride plane)) (unat visible) (unat (x - destination))
       else mem_bytes m x)"
proof -
  note r = validate_copy_range_Inr [OF v]
  let ?z = "write_bytes destination (replicate (unat tb) 0) m" and ?k = "unat (x - destination)"
  let ?N = "(unat rows - 1) * unat (pl_stride plane) + unat visible"
  have apart': "apart source ?N destination ?N" using apart r(6) unfolding apart_def by (meson order_less_le_trans)
  have tb: "unat tb < 2 ^ 64" using unat_less_64 .
  have z: "mem_bytes ?z y = (if unat (y - destination) < unat tb then 0 else mem_bytes m y)" for y
    using write_bytes_at [of "replicate (unat tb) 0" destination m y] tb by simp
  have rows: "mem_bytes (copy_rows 0 (unat rows) (pl_stride plane) destination source (unat visible) ?z) x
    = (if in_rows 0 (unat rows) (unat (pl_stride plane)) (unat visible) ?k
       then mem_bytes ?z (source + of_nat ?k) else mem_bytes ?z x)"
    using copy_rows_bytes [of "unat visible" "pl_stride plane" 0 "unat rows" ?N source destination ?z x] r tb apart' by simp
  have inside: "?k < unat tb" if "in_rows 0 (unat rows) (unat (pl_stride plane)) (unat visible) ?k"
    using in_rows_below [OF that] r(6) by linarith
  have "mem_bytes ?z (source + of_nat ?k) = mem_bytes m (source + of_nat ?k)"
    if "in_rows 0 (unat rows) (unat (pl_stride plane)) (unat visible) ?k"
    using apart_distance [OF apart in_rows_below [OF that]] by (simp add: z)
  then show ?thesis using rows inside z by (auto simp: plane_byte_def)
qed

lemma apart_sub:
  assumes "apart a m b n" "i + m' \<le> m" "j + n' \<le> n"
  shows "apart (a + of_nat i) m' (b + of_nat j) n'"
  unfolding apart_def
proof (intro allI impI)
  fix k l assume "k < m'" "l < n'"
  then have "i + k < m" "j + l < n" using assms(2,3) by simp_all
  then have "a + of_nat (i + k) \<noteq> b + of_nat (j + l)" using assms(1) unfolding apart_def by blast
  then show "a + of_nat i + of_nat k \<noteq> b + of_nat j + of_nat l" by (simp add: add.assoc)
qed

lemma apart_below:
  assumes "unat a + m \<le> unat b" "unat b + n \<le> 2 ^ 64"
  shows "apart a m b n"
  unfolding apart_def
proof (intro allI impI notI)
  fix i j assume h: "i < m" "j < n" "a + of_nat i = b + of_nat j"
  have small: "unat (c + of_nat k) = unat c + k" if "unat c + k < 2 ^ 64" for c :: size_t and k
    using that by (simp add: unat_word_ariths unat_of_nat)
  have "unat (a + of_nat i) = unat a + i" "unat (b + of_nat j) = unat b + j"
    by (rule small, use h(1,2) assms unat_less_64 [of b] in linarith)+
  then show False using h assms by simp
qed

text \<open>A plane of a target buffer in CPU memory.\<close>

definition source_of :: "v4l2_negotiated \<Rightarrow> v4l2_dequeued \<Rightarrow> nat \<Rightarrow> size_t" where
  "source_of negotiated dq i = dq_data dq + vn_offsets negotiated ! i"

definition rows_of :: "v4l2_config \<Rightarrow> nat \<Rightarrow> nat" where
  "rows_of c i = unat (rows_for_plane c i)"

text \<open>What one plane of the frame must hold, and what must have been read for it.\<close>

definition copied_plane ::
  "v4l2_config \<Rightarrow> v4l2_negotiated \<Rightarrow> v4l2_dequeued \<Rightarrow> plane_layout \<Rightarrow> nat \<Rightarrow> memory \<Rightarrow> nat \<Rightarrow> 8 word" where
  "copied_plane c negotiated dq plane i m k =
     plane_byte m (source_of negotiated dq i) (rows_of c i) (unat (pl_stride plane)) (unat (vn_visible_rows negotiated ! i)) k"

definition source_inside :: "v4l2_config \<Rightarrow> v4l2_negotiated \<Rightarrow> v4l2_dequeued \<Rightarrow> plane_layout \<Rightarrow> nat \<Rightarrow> bool" where
  "source_inside c negotiated dq plane i \<longleftrightarrow> 0 < rows_of c i
     \<and> unat (vn_offsets negotiated ! i) + (rows_of c i - 1) * unat (pl_stride plane) + unat (vn_visible_rows negotiated ! i)
         \<le> min (unat (dq_bytesused dq)) (unat (dq_mapped_length dq))"

lemma copy_plane_Inr:
  assumes c: "copy_plane base cfg neg dq target i plane copied m = (Inr copied', m')"
    and t: "bf_storage target = cpu_storage st cap" "i < length (bf_planes target)" "bf_planes target ! i = plane"
      "plane_end plane \<le> unat cap"
    and apart: "apart (dq_data dq) (unat (dq_mapped_length dq)) (base st) (unat cap)"
  shows "source_inside cfg neg dq plane i"
    and "mem_bytes m' x = (if unat (x - (base st + pl_offset plane)) < unat (pl_size plane)
      then copied_plane cfg neg dq plane i m (unat (x - (base st + pl_offset plane))) else mem_bytes m x)"
proof -
  obtain region where region: "fst (map_plane (cpu_ops base) target i kReadWrite ()) = Inr region" "mutable_data region \<noteq> 0"
    and v: "\<exists>r. validate_copy_range dq plane (vn_offsets neg ! i) (vn_visible_rows neg ! i) (rows_for_plane cfg i)
      (mr_size region) (vn_capacity neg) = Inr r"
    and m': "m' = copy_rows 0 (unat (rows_for_plane cfg i)) (pl_stride plane) (mutable_data region)
      (dq_data dq + vn_offsets neg ! i) (unat (vn_visible_rows neg ! i))
      (write_bytes (mutable_data region) (replicate (unat (mr_size region)) 0) m)"
    using c by (auto simp: copy_plane_def Let_def err_def split: sum.split_asm if_split_asm option.split_asm)
  have r: "mutable_data region = base st + pl_offset plane" "mr_size region = pl_size plane"
    using region t by (auto simp: map_plane_def cpu_ops_def cpu_storage_def mutable_data_def Let_def err_def split: if_split_asm)
  obtain r where v': "validate_copy_range dq plane (vn_offsets neg ! i) (vn_visible_rows neg ! i) (rows_for_plane cfg i)
      (pl_size plane) (vn_capacity neg) = Inr r"
    using v r(2) by auto
  note vr = validate_copy_range_Inr [OF v']
  show "source_inside cfg neg dq plane i" using vr by (simp add: source_inside_def rows_of_def)
  have "apart (dq_data dq + of_nat (unat (vn_offsets neg ! i)))
      ((unat (rows_for_plane cfg i) - 1) * unat (pl_stride plane) + unat (vn_visible_rows neg ! i))
      (base st + of_nat (unat (pl_offset plane))) (unat (pl_size plane))"
    by (rule apart_sub [OF apart]) (use vr(4) t(4) in \<open>auto simp: plane_end_def\<close>)
  then have "apart (dq_data dq + vn_offsets neg ! i)
      ((unat (rows_for_plane cfg i) - 1) * unat (pl_stride plane) + unat (vn_visible_rows neg ! i))
      (base st + pl_offset plane) (unat (pl_size plane))" by simp
  from filled_plane [OF v' this, of m x] show "mem_bytes m' x = (if unat (x - (base st + pl_offset plane)) < unat (pl_size plane)
      then copied_plane cfg neg dq plane i m (unat (x - (base st + pl_offset plane))) else mem_bytes m x)"
    by (simp add: m' r copied_plane_def source_of_def rows_of_def)
qed

text \<open>All the planes.\<close>

definition in_plane :: "size_t \<Rightarrow> plane_layout \<Rightarrow> size_t \<Rightarrow> bool" where
  "in_plane start plane x \<longleftrightarrow> unat (x - (start + pl_offset plane)) < unat (pl_size plane)"

lemma in_plane_offset:
  assumes "plane_end plane \<le> 2 ^ 64" "in_plane start plane x"
  shows "unat (pl_offset plane) \<le> unat (x - start) \<and> unat (x - start) < plane_end plane"
proof -
  have "0 < unat (pl_size plane)" using assms(2) by (simp add: in_plane_def)
  then show ?thesis
    using row_distance(1) [of "unat (pl_offset plane)" "unat (pl_size plane)" x start] assms
    by (simp add: in_plane_def plane_end_def)
qed

lemma planes_disjoint:
  assumes "planes_valid (cpu_storage st cap) ps" "i < length ps" "j < length ps" "in_plane start (ps ! i) x" "in_plane start (ps ! j) x"
  shows "i = j"
proof (rule ccontr)
  assume "i \<noteq> j"
  have ends: "plane_end (ps ! i) \<le> 2 ^ 64" "plane_end (ps ! j) \<le> 2 ^ 64"
  proof -
    have "plane_end p \<le> 2 ^ 64" if "p \<in> set ps" for p
      using assms(1) that unat_less_64 [of cap] by (auto simp: planes_valid_def plane_fits_def cpu_storage_def)
    then show "plane_end (ps ! i) \<le> 2 ^ 64" "plane_end (ps ! j) \<le> 2 ^ 64" using assms(2,3) by simp_all
  qed
  have "overlaps (ps ! i) (ps ! j)"
    using in_plane_offset [OF ends(1) assms(4)] in_plane_offset [OF ends(2) assms(5)] by (auto simp: overlaps_def)
  moreover have "\<not> overlaps (ps ! i) (ps ! j)"
    using assms(1-3) \<open>i \<noteq> j\<close> overlaps_sym unfolding planes_valid_def sorted_wrt_iff_nth_less by (metis nat_neq_iff)
  ultimately show False by simp
qed

lemma source_untouched:
  fixes cap :: size_t
  assumes "apart (dq_data dq) (unat (dq_mapped_length dq)) (base st) (unat cap)" "plane_end plane \<le> unat cap"
    and "k < unat (dq_mapped_length dq)"
  shows "\<not> in_plane (base st) plane (dq_data dq + of_nat k)"
proof
  assume "in_plane (base st) plane (dq_data dq + of_nat k)"
  then have "unat (dq_data dq + of_nat k - base st) < unat cap"
    using in_plane_offset [of plane "base st"] assms(2) unat_less_64 [of cap] by fastforce
  then show False using apart_distance [OF assms(1,3)] by simp
qed

lemma copied_plane_stable:
  assumes "source_inside c neg dq plane i"
    and "\<And>k. k < unat (dq_mapped_length dq) \<Longrightarrow> mem_bytes m1 (dq_data dq + of_nat k) = mem_bytes m (dq_data dq + of_nat k)"
  shows "copied_plane c neg dq plane i m1 k = copied_plane c neg dq plane i m k"
proof (cases "in_rows 0 (rows_of c i) (unat (pl_stride plane)) (unat (vn_visible_rows neg ! i)) k")
  case True
  have "unat (vn_offsets neg ! i) + k < unat (dq_mapped_length dq)"
    using in_rows_below [OF True] assms(1) by (simp add: source_inside_def)
  from assms(2) [OF this] have "mem_bytes m1 (source_of neg dq i + of_nat k) = mem_bytes m (source_of neg dq i + of_nat k)"
    by (simp add: source_of_def add.assoc)
  then show ?thesis by (simp add: copied_plane_def plane_byte_def)
next
  case False
  then show ?thesis by (simp add: copied_plane_def plane_byte_def)
qed

lemma copy_planes_Inr:
  fixes cap :: size_t
  assumes t: "bf_storage target = cpu_storage st cap" "bf_planes target = ps" "planes_valid (cpu_storage st cap) ps"
    and apart: "apart (dq_data dq) (unat (dq_mapped_length dq)) (base st) (unat cap)"
    and "copy_planes base cfg neg dq target i rest copied m = (Inr copied', m')" "rest = drop i ps" "i \<le> length ps"
  shows "(\<forall>j. i \<le> j \<and> j < length ps \<longrightarrow> source_inside cfg neg dq (ps ! j) j)
    \<and> (\<forall>j x. i \<le> j \<and> j < length ps \<longrightarrow> in_plane (base st) (ps ! j) x \<longrightarrow>
         mem_bytes m' x = copied_plane cfg neg dq (ps ! j) j m (unat (x - (base st + pl_offset (ps ! j)))))
    \<and> (\<forall>x. (\<forall>j. i \<le> j \<and> j < length ps \<longrightarrow> \<not> in_plane (base st) (ps ! j) x) \<longrightarrow> mem_bytes m' x = mem_bytes m x)"
  using assms(5-)
proof (induction rest arbitrary: i m copied)
  case Nil
  then show ?case by auto
next
  case (Cons plane rest)
  have i: "i < length ps" using Cons.prems(2) by (metis drop_eq_Nil list.distinct(1) not_le)
  then have pl: "ps ! i = plane" and rest: "rest = drop (Suc i) ps"
    using Cons.prems(2) by (simp_all add: Cons_nth_drop_Suc [symmetric])
  have "plane \<in> set ps" using i pl by auto
  then have pend: "plane_end plane \<le> unat cap" using t(3) by (auto simp: planes_valid_def plane_fits_def cpu_storage_def)
  obtain copied1 m1 where c: "copy_plane base cfg neg dq target i plane copied m = (Inr copied1, m1)"
    "copy_planes base cfg neg dq target (Suc i) rest copied1 m1 = (Inr copied', m')"
    using Cons.prems(1) by (auto split: prod.split_asm sum.split_asm)
  have it: "i < length (bf_planes target)" "bf_planes target ! i = plane" using i pl t(2) by simp_all
  note one = copy_plane_Inr [OF c(1) t(1) it pend apart]
  have IH: "(\<forall>j. Suc i \<le> j \<and> j < length ps \<longrightarrow> source_inside cfg neg dq (ps ! j) j)
    \<and> (\<forall>j x. Suc i \<le> j \<and> j < length ps \<longrightarrow> in_plane (base st) (ps ! j) x \<longrightarrow>
         mem_bytes m' x = copied_plane cfg neg dq (ps ! j) j m1 (unat (x - (base st + pl_offset (ps ! j)))))
    \<and> (\<forall>x. (\<forall>j. Suc i \<le> j \<and> j < length ps \<longrightarrow> \<not> in_plane (base st) (ps ! j) x) \<longrightarrow> mem_bytes m' x = mem_bytes m1 x)"
    by (rule Cons.IH [OF c(2) rest]) (use i in simp)
  have same: "mem_bytes m1 (dq_data dq + of_nat k) = mem_bytes m (dq_data dq + of_nat k)" if "k < unat (dq_mapped_length dq)" for k
    using source_untouched [where base = base and st = st, OF apart pend that] one(2) by (simp add: in_plane_def)
  have stable: "copied_plane cfg neg dq (ps ! j) j m1 k = copied_plane cfg neg dq (ps ! j) j m k" if "Suc i \<le> j" "j < length ps" for j k
    using IH that by (intro copied_plane_stable same) auto
  have first: "mem_bytes m' x = copied_plane cfg neg dq plane i m (unat (x - (base st + pl_offset plane)))"
    if "in_plane (base st) plane x" for x
  proof -
    have "\<not> in_plane (base st) (ps ! j) x" if "Suc i \<le> j" "j < length ps" for j
      using planes_disjoint [OF t(3) i that(2), of "base st" x] that(1) \<open>in_plane (base st) plane x\<close> pl by auto
    then have "mem_bytes m' x = mem_bytes m1 x" using IH by blast
    then show ?thesis using one(2) that by (simp add: in_plane_def)
  qed
  have untouched: "mem_bytes m' x = mem_bytes m x" if "\<forall>j. i \<le> j \<and> j < length ps \<longrightarrow> \<not> in_plane (base st) (ps ! j) x" for x
  proof -
    have "mem_bytes m' x = mem_bytes m1 x" using IH that by simp
    moreover have "\<not> in_plane (base st) plane x" using that i pl by blast
    ultimately show ?thesis using one(2) by (simp add: in_plane_def)
  qed
  have split: "j = i \<or> Suc i \<le> j" if "i \<le> j" for j using that by auto
  show ?case
  proof (intro conjI allI impI)
    fix j assume "i \<le> j \<and> j < length ps"
    then show "source_inside cfg neg dq (ps ! j) j" using split one(1) IH pl by metis
  next
    fix j x assume "i \<le> j \<and> j < length ps" "in_plane (base st) (ps ! j) x"
    then show "mem_bytes m' x = copied_plane cfg neg dq (ps ! j) j m (unat (x - (base st + pl_offset (ps ! j))))"
      using split first IH pl stable by metis
  next
    fix x assume "\<forall>j. i \<le> j \<and> j < length ps \<longrightarrow> \<not> in_plane (base st) (ps ! j) x"
    then show "mem_bytes m' x = mem_bytes m x" by (rule untouched)
  qed
qed

subsection \<open>The frame\<close>

lemma timestamp_for_Inr:
  assumes "timestamp_for strerror sv dq n = (Ret (Inr pts), n')"
  shows "(vd_has_pts n \<longrightarrow> vd_last_pts n \<le> pts) \<and> (\<exists>x. n' = n\<lparr>vd_services := x\<rparr>)"
proof -
  have keep: "\<exists>x. snd (serve f n) = n\<lparr>vd_services := x\<rparr>" for f :: "'b \<Rightarrow> clock_reply outcome \<times> 'b"
    by (auto simp: serve_def split: prod.split)
  have refl: "\<exists>x. n = n\<lparr>vd_services := x\<rparr>" by (rule exI [of _ "vd_services n"]) simp
  obtain r n1 where s: "serve (sv_now sv) n = (r, n1)" by (meson surj_pair)
  then obtain x where n1: "n1 = n\<lparr>vd_services := x\<rparr>" using keep [of "sv_now sv"] by auto
  show ?thesis
    using assms refl n1
    by (auto simp: timestamp_for_def Let_def s err_def split: option.split_asm outcome.split_asm if_split_asm)
qed

lemma sequence_for_Inr:
  assumes "sequence_for sequence n = Inr missing" "vd_has_sequence n"
  shows "sequence = vd_expected_sequence n + missing \<and> missing < 0x80000000"
  using assms by (auto simp: sequence_for_def Let_def err_def kSequenceHalfRange_def split: if_split_asm)

text \<open>C29: captured frames. Let a buffer of the camera have been copied into a frame, with the services
  the program builds itself and the storage of the frame apart from the kernel's mapping. Then for each
  plane of the frame, byte \<open>k\<close> of it is the byte of the camera's buffer when it belongs to a visible row,
  and zero otherwise; every byte read lies within the bytes the driver has filled and within the
  mapping; no byte outside the storage of the frame has changed. The time stamp is not before that of
  the last frame, and the number of missing frames is the gap in the driver's sequence numbers.\<close>

theorem v4l2_frame_exact:
  assumes "copy_frame base strerror (default_services clock) dq n = (Ret (Inr f), n')"
    and "negotiated = the (vs_negotiated (vd_system n))" "planes = vf_planes (vfr_format (cf_frame f))"
    and "start = base (ds_next_storage (vd_services n))"
    and "apart (dq_data dq) (unat (dq_mapped_length dq)) start (unat (vn_capacity negotiated))"
  shows "bf_planes (vfr_buffer (cf_frame f)) = planes
    \<and> (\<forall>i<length planes. source_inside (vd_config n) negotiated dq (planes ! i) i
         \<and> (\<forall>k<unat (pl_size (planes ! i)). mem_bytes (vd_memory n') (start + pl_offset (planes ! i) + of_nat k)
              = copied_plane (vd_config n) negotiated dq (planes ! i) i (vd_memory n) k))
    \<and> (\<forall>x. \<not> unat (x - start) < unat (vn_capacity negotiated) \<longrightarrow> mem_bytes (vd_memory n') x = mem_bytes (vd_memory n) x)
    \<and> vfr_pts (cf_frame f) = cf_pts f \<and> (vd_has_pts n \<longrightarrow> vd_last_pts n \<le> cf_pts f)
    \<and> (vd_has_sequence n \<longrightarrow> dq_sequence dq = vd_expected_sequence n + cf_missing f \<and> cf_missing f < 0x80000000)"
proof -
  obtain actual cpu pts n1 missing target n2 where
    formats: "vd_actual n = Some actual" "vd_cpu n = Some cpu"
    and ts: "timestamp_for strerror (default_services clock) dq n = (Ret (Inr pts), n1)"
    and seq: "sequence_for (dq_sequence dq) n1 = Inr missing"
    and alloc: "serve (sv_allocate (default_services clock) (vn_capacity (the (vs_negotiated (vd_system n1)))) (vf_planes cpu)) n1
      = (Ret (Inr target), n2)"
    and fill: "fill_frame base (the (vs_negotiated (vd_system n1))) dq cpu target pts missing n2 = (Ret (Inr f), n')"
    using assms(1) by (auto simp: copy_frame_def err_def Let_def split: option.split_asm if_split_asm outcome.split_asm
        sum.split_asm prod.split_asm)
  obtain x where n1: "n1 = n\<lparr>vd_services := x\<rparr>" "vd_has_pts n \<longrightarrow> vd_last_pts n \<le> pts"
    using timestamp_for_Inr [OF ts] by blast
  have "ds_next_storage (vd_services n1) = ds_next_storage (vd_services n)"
    using ts by (auto simp: timestamp_for_def serve_def default_services_def ret_def Let_def err_def
        split: option.split_asm prod.split_asm if_split_asm)
  then have x: "ds_next_storage x = ds_next_storage (vd_services n)" using n1(1) by simp
  have neg: "the (vs_negotiated (vd_system n1)) = negotiated" using n1(1) assms(2) by simp
  let ?st = "ds_next_storage (vd_services n)" and ?cap = "vn_capacity negotiated"
  have target: "planes_valid (cpu_storage ?st ?cap) (vf_planes cpu)"
    "target = \<lparr>bf_storage = cpu_storage ?st ?cap, bf_planes = vf_planes cpu\<rparr>" "\<exists>y. n2 = n1\<lparr>vd_services := y\<rparr>"
    using alloc neg n1(1) x
    by (auto simp: serve_def default_services_def ret_def ds_allocate_def buffer_allocate_Inr split: sum.split_asm prod.split_asm)
  obtain bytes m' where c: "copy_planes base (vd_config n) negotiated dq target 0 (vf_planes cpu) 0 (vd_memory n) = (Inr bytes, m')"
    and f: "video_frame_create (vd_throws n) target cpu pts microsecond_base = Inr (cf_frame f)" "cf_pts f = pts" "cf_missing f = missing"
    and n': "vd_memory n' = m'"
    using fill target(3) n1(1) neg
    by (auto simp: fill_frame_def Let_def err_def split: prod.split_asm sum.split_asm option.split_asm)
  have planes: "planes = vf_planes cpu" "bf_planes (vfr_buffer (cf_frame f)) = vf_planes cpu" "vfr_pts (cf_frame f) = pts"
    using f(1) assms(3) by (auto simp: video_frame_create_Inr target(2))
  have "apart (dq_data dq) (unat (dq_mapped_length dq)) (base ?st) (unat ?cap)" using assms(4,5) by simp
  note all = copy_planes_Inr [OF _ _ target(1) this c, unfolded target(2), simplified]
  have ends: "plane_end p \<le> unat ?cap" if "p \<in> set (vf_planes cpu)" for p
    using target(1) that by (auto simp: planes_valid_def plane_fits_def cpu_storage_def)
  have bytes: "mem_bytes m' (start + pl_offset (planes ! i) + of_nat k) = copied_plane (vd_config n) negotiated dq (planes ! i) i (vd_memory n) k"
    if "i < length planes" "k < unat (pl_size (planes ! i))" for i k
  proof -
    have "unat (of_nat k :: size_t) = k" using that(2) unat_less_64 [of "pl_size (planes ! i)"] by (simp add: unat_of_nat)
    then show ?thesis using all that by (auto simp: in_plane_def planes(1) assms(4))
  qed
  have outside: "mem_bytes m' y = mem_bytes (vd_memory n) y" if "\<not> unat (y - start) < unat ?cap" for y
  proof -
    have "\<not> in_plane start (planes ! j) y" if "j < length planes" for j
    proof
      assume "in_plane start (planes ! j) y"
      moreover have e: "plane_end (planes ! j) \<le> unat ?cap" using ends that planes(1) by simp
      ultimately have "unat (y - start) < plane_end (planes ! j)"
        using in_plane_offset [of "planes ! j" start y] unat_less_64 [of ?cap] by linarith
      then show False using e \<open>\<not> unat (y - start) < unat ?cap\<close> by linarith
    qed
    then show ?thesis using all by (simp add: planes(1) assms(4))
  qed
  have sequence: "dq_sequence dq = vd_expected_sequence n + missing \<and> missing < 0x80000000" if "vd_has_sequence n"
    using sequence_for_Inr [OF seq] that n1(1) by simp
  show ?thesis
    using all bytes outside sequence n1(2) planes f n' by simp
qed

text \<open>A running node over the tame camera, with no registry and a clock that stands still.\<close>

definition still_clock :: "unit \<Rightarrow> clock_reply \<times> unit" where
  "still_clock u = (\<lparr>ck_result = 0, ck_error = 0, ck_time = \<lparr>tv_sec = 9, tv_nsec = 0\<rparr>\<rparr>, u)"

definition still_services :: "unit default_state v4l2_services" where
  "still_services = default_services still_clock"

definition started_node :: "(nat, unit default_state) v4l2_node" where
  "started_node =
     snd (v4l2_on_start tame_camera still_services (snd (v4l2_on_prepare tame_camera still_services
       (v4l2_node_new small_config (v4l2_new True 0)
          \<lparr>ds_metrics = None, ds_next_storage = 0, ds_throws = no_throw, ds_clock = ()\<rparr> []
          \<lparr>mem_bytes = (\<lambda>a. ucast (a - 65536)), mem_next = 0\<rparr> no_throw))))"

definition first_buffer :: v4l2_dequeued where
  "first_buffer = \<lparr>dq_index = 0, dq_data = 65536, dq_mapped_length = 4096, dq_bytesused = 32, dq_flags = 0x2000,
     dq_sequence = 0, dq_timestamp = \<lparr>tv_secs = 1, tv_usec = 0\<rparr>\<rparr>"

definition frame_base :: "nat \<Rightarrow> size_t" where
  "frame_base i = 1048576 + of_nat i * 4096"

definition first_frame :: "captured result outcome" where
  "first_frame = fst (copy_frame frame_base (\<lambda>_. ''error'') still_services first_buffer started_node)"

lemma started_facts:
  "vn_capacity (the (vs_negotiated (vd_system started_node))) = 32"
  "ds_next_storage (vd_services started_node) = 0"
  by code_simp+

lemma first_frame_facts:
  "case first_frame of Ret (Inr f) \<Rightarrow> cf_pts f = 1000000 \<and> map pl_size (vf_planes (vfr_format (cf_frame f))) = [32]
     \<and> map pl_offset (vf_planes (vfr_format (cf_frame f))) = [0] | _ \<Rightarrow> False"
  by code_simp

theorem v4l2_frame_exact_witness:
  "\<exists>f n'. copy_frame frame_base (\<lambda>_. ''error'') still_services first_buffer started_node = (Ret (Inr f), n')
    \<and> vfr_pts (cf_frame f) = 1000000
    \<and> (\<forall>k<32. mem_bytes (vd_memory n') (1048576 + of_nat k)
         = copied_plane (vd_config started_node) (the (vs_negotiated (vd_system started_node))) first_buffer
             (vf_planes (vfr_format (cf_frame f)) ! 0) 0 (vd_memory started_node) k)"
proof -
  obtain r n' where c: "copy_frame frame_base (\<lambda>_. ''error'') still_services first_buffer started_node = (r, n')"
    by (meson surj_pair)
  then have ff: "first_frame = r" by (simp add: first_frame_def)
  then obtain f where f: "r = Ret (Inr f)" "cf_pts f = 1000000" and m: "map pl_size (vf_planes (vfr_format (cf_frame f))) = [32]"
      "map pl_offset (vf_planes (vfr_format (cf_frame f))) = [0]"
    using first_frame_facts by (auto split: outcome.split_asm sum.split_asm)
  define ps where "ps = vf_planes (vfr_format (cf_frame f))"
  have ps: "length ps = 1" "pl_size (ps ! 0) = 32" "pl_offset (ps ! 0) = 0"
    using m by (cases ps; auto simp: ps_def)+
  have base: "frame_base (ds_next_storage (vd_services started_node)) = 1048576"
    by (simp add: started_facts frame_base_def)
  have "apart (dq_data first_buffer) (unat (dq_mapped_length first_buffer)) 1048576
      (unat (vn_capacity (the (vs_negotiated (vd_system started_node)))))"
    by (rule apart_below) (simp_all add: first_buffer_def started_facts)
  note exact = v4l2_frame_exact [OF c [unfolded f still_services_def] refl ps_def base [symmetric] this]
  have "mem_bytes (vd_memory n') (1048576 + of_nat k)
      = copied_plane (vd_config started_node) (the (vs_negotiated (vd_system started_node))) first_buffer (ps ! 0) 0 (vd_memory started_node) k"
    if "k < 32" for k
    using exact [THEN conjunct2, THEN conjunct1, rule_format, of 0] ps that by simp
  moreover have "vfr_pts (cf_frame f) = 1000000" using exact f(2) by simp
  ultimately show ?thesis using c f(1) by (intro exI [of _ f] exI [of _ n']) (simp add: ps_def)
qed

end
