(* ===== verification/V4l2_Stream.thy ===== *)
theory V4l2_Stream
  imports V4l2_Copy
begin

text \<open>
  The kernel's queue of buffers while a camera is running: every buffer the node takes out of it comes
  back within the same tick.

  \<open>queue_step\<close> reads the queue off the record of the calls; \<open>gives_queued\<close> is the documented behaviour
  of \<open>VIDIOC_DQBUF\<close>, which hands out a buffer that is in the queue.
\<close>

declare split_paired_Ex [simp del]

definition queue_effect ::
  "v4l2_request \<Rightarrow> ioctl_arg \<Rightarrow> v4l2_reply outcome \<Rightarrow> 32 word multiset \<Rightarrow> 32 word multiset" where
  "queue_effect request a r Q =
     (case request of
        VIDIOC_QBUF \<Rightarrow> if returned_ok r then add_mset (vb_index (ia_buffer a)) Q else Q
      | VIDIOC_DQBUF \<Rightarrow>
          (case r of Ret q \<Rightarrow> if 0 \<le> vr_result q then Q - {#vb_index (ia_buffer (vr_arg q))#} else Q | Throw e \<Rightarrow> Q)
      | VIDIOC_STREAMOFF \<Rightarrow> if returned_ok r then {#} else Q
      | VIDIOC_REQBUFS \<Rightarrow> {#}
      | _ \<Rightarrow> Q)"

fun queue_step :: "v4l2_event \<Rightarrow> 32 word multiset \<Rightarrow> 32 word multiset" where
  "queue_step (Device_ioctl d request a, r) Q = queue_effect request a r Q"
| "queue_step (Close_device d, r) Q = {#}"
| "queue_step (c, r) Q = Q"

definition queue_of :: "'w watched_world \<Rightarrow> 32 word multiset" where
  "queue_of w = fold queue_step (snd w) {#}"

fun gives :: "v4l2_event \<Rightarrow> 32 word multiset \<Rightarrow> bool" where
  "gives (Device_ioctl d request a, Ret q) Q =
     (request = VIDIOC_DQBUF \<and> 0 \<le> vr_result q \<longrightarrow> vb_index (ia_buffer (vr_arg q)) \<in># Q)"
| "gives e Q = True"

fun gives_queued_from :: "v4l2_event list \<Rightarrow> 32 word multiset \<Rightarrow> bool" where
  "gives_queued_from [] Q = True"
| "gives_queued_from (e # es) Q = (gives e Q \<and> gives_queued_from es (queue_step e Q))"

definition gives_queued :: "'w watched_world \<Rightarrow> bool" where
  "gives_queued w = gives_queued_from (snd w) {#}"

lemma gives_queued_from_snoc:
  "gives_queued_from (es @ [e]) Q \<longleftrightarrow> gives_queued_from es Q \<and> gives e (fold queue_step es Q)"
  by (induction es arbitrary: Q) auto

lemma watched_queue:
  assumes "v4l2_call_api (watched api) c s = (r, s')"
  shows "\<exists>w. s' = s\<lparr>vs_world := w\<rparr> \<and> queue_of w = queue_step (c, r) (queue_of (vs_world s))
     \<and> (gives_queued w \<longleftrightarrow> gives_queued (vs_world s) \<and> gives (c, r) (queue_of (vs_world s)))"
proof -
  obtain w0 log where w: "vs_world s = (w0, log)" by (meson surj_pair)
  obtain r' w1 where c: "va_call api c w0 = (r', w1)" by (meson surj_pair)
  have "r = r'" "s' = s\<lparr>vs_world := (w1, log @ [(c, r)])\<rparr>"
    using assms by (auto simp: v4l2_call_api_def watched_def w c)
  then show ?thesis
    by (intro exI [of _ "(w1, log @ [(c, r)])"]) (simp add: queue_of_def gives_queued_def w gives_queued_from_snoc)
qed

text \<open>An interrupted attempt moves no buffer.\<close>

lemma ioctl_queue:
  assumes "failure_keeps_argument api" "request \<noteq> VIDIOC_REQBUFS"
    and "bounded_ioctl (watched api) request a s = (r, s')"
  shows "\<exists>w. s' = s\<lparr>vs_world := w\<rparr> \<and> queue_of w = queue_effect request a r (queue_of (vs_world s))
     \<and> (gives_queued w \<longrightarrow> gives_queued (vs_world s) \<and> gives (Device_ioctl (vs_fd s) request a, r) (queue_of (vs_world s)))"
proof -
  have "\<exists>w. s' = s\<lparr>vs_world := w\<rparr> \<and> queue_of w = queue_effect request a r (queue_of (vs_world s))
     \<and> (gives_queued w \<longrightarrow> gives_queued (vs_world s) \<and> gives (Device_ioctl (vs_fd s) request a, r) (queue_of (vs_world s)))"
    if "ioctl_attempts n (watched api) request a s = (r, s')" for n
    using that
  proof (induction n arbitrary: s)
    case 0
    then have c: "v4l2_call_api (watched api) (Device_ioctl (vs_fd s) request a) s = (r, s')" by simp
    show ?case using watched_queue [OF c] by auto
  next
    case (Suc n)
    obtain q s1 where c: "v4l2_call_api (watched api) (Device_ioctl (vs_fd s) request a) s = (q, s1)" by (meson surj_pair)
    obtain w where w: "s1 = s\<lparr>vs_world := w\<rparr>" "queue_of w = queue_effect request a q (queue_of (vs_world s))"
      "gives_queued w \<longleftrightarrow> gives_queued (vs_world s) \<and> gives (Device_ioctl (vs_fd s) request a, q) (queue_of (vs_world s))"
      using watched_queue [OF c] by auto
    show ?case
    proof (cases "\<exists>x. q = Ret x \<and> vr_result x < 0 \<and> vr_error x = eINTR")
      case False
      then have "r = q" "s' = s1" using Suc.prems by (cases q; auto simp: c split: if_splits)+
      then show ?thesis using w by blast
    next
      case True
      then obtain x where x: "q = Ret x" "vr_result x < 0" "vr_error x = eINTR" by blast
      have "vr_arg x = a" using assms(1) watched_call(2) [OF c] x by (auto simp: failure_keeps_argument_def)
      then have again: "ioctl_attempts n (watched api) request a s1 = (r, s')" using Suc.prems x by (simp add: c)
      have "queue_of w = queue_of (vs_world s)"
        using w(2) x assms(2) by (simp add: queue_effect_def split: v4l2_request.split)
      then show ?thesis using Suc.IH [OF again] w(1,3) by auto
    qed
  qed
  then show ?thesis using assms(3) by (simp add: bounded_ioctl_def)
qed

subsection \<open>The device\<close>

lemma queue_buffer_queue:
  assumes "failure_keeps_argument api" "queue_buffer (watched api) index s = (Ret st, s')"
  shows "\<exists>w. s' = s\<lparr>vs_world := w\<rparr> \<and> (gives_queued w \<longrightarrow> gives_queued (vs_world s))
     \<and> queue_of w = (if st_ok st then add_mset index (queue_of (vs_world s)) else queue_of (vs_world s))"
proof -
  obtain r t where c: "bounded_ioctl (watched api) VIDIOC_QBUF (capture_buffer index) s = (r, t)" by (meson surj_pair)
  obtain q where r: "r = Ret q" using assms(2) by (cases r) (auto simp: queue_buffer_def c)
  then have st: "s' = t" "st_ok st \<longleftrightarrow> 0 \<le> vr_result q"
    using assms(2) by (auto simp: queue_buffer_def c split: if_split_asm)
  from ioctl_queue [OF assms(1) _ c] obtain w where w: "t = s\<lparr>vs_world := w\<rparr>"
    "queue_of w = queue_effect VIDIOC_QBUF (capture_buffer index) r (queue_of (vs_world s))"
    "gives_queued w \<longrightarrow> gives_queued (vs_world s)"
    by auto
  have "queue_of w = (if st_ok st then add_mset index (queue_of (vs_world s)) else queue_of (vs_world s))"
    unfolding w(2) by (simp add: queue_effect_def capture_buffer_def r st(2))
  then show ?thesis using w(1,3) st(1) by blast
qed

lemma start_buffers_queue:
  assumes "failure_keeps_argument api" "start_buffers (watched api) index left s = (Ret st, s')" "st_ok st"
  shows "\<exists>w. s' = s\<lparr>vs_state := V4l2_running, vs_world := w\<rparr>
     \<and> queue_of w = queue_of (vs_world s) + mset (map of_nat [index..<index + left])"
  using assms(2)
proof (induction left arbitrary: index s)
  case 0
  obtain r t where c: "bounded_ioctl (watched api) VIDIOC_STREAMON capture_type s = (r, t)" by (meson surj_pair)
  from ioctl_queue [OF assms(1) _ c] obtain w where "t = s\<lparr>vs_world := w\<rparr>" "queue_of w = queue_of (vs_world s)"
    by (auto simp: queue_effect_def)
  moreover from this have "s' = s\<lparr>vs_state := V4l2_running, vs_world := w\<rparr>"
    using 0 assms(3) by (cases r) (auto simp: c rollback_start_def split: if_split_asm prod.split_asm outcome.split_asm)
  ultimately show ?case by (intro exI [of _ w]) simp
next
  case (Suc left)
  obtain r t where c: "queue_buffer (watched api) (of_nat index) s = (r, t)" by (meson surj_pair)
  obtain qs where r: "r = Ret qs" "st_ok qs" "start_buffers (watched api) (Suc index) left t = (Ret st, s')"
    using Suc.prems assms(3)
    by (cases r) (auto simp: c rollback_start_def split: if_split_asm prod.split_asm outcome.split_asm)
  obtain w where t: "t = s\<lparr>vs_world := w\<rparr>" "queue_of w = add_mset (of_nat index) (queue_of (vs_world s))"
    using queue_buffer_queue [OF assms(1) c [unfolded r(1)]] r(2) by auto
  from Suc.IH [OF r(3)] show ?case using t by (auto simp: upt_conv_Cons simp del: upt_Suc)
qed

lemma dequeue_queue:
  assumes "failure_keeps_argument api" "v4l2_dequeue (watched api) s = (Ret x, s')"
  shows "\<exists>w. s' = s\<lparr>vs_world := w\<rparr> \<and> (gives_queued w \<longrightarrow> gives_queued (vs_world s)) \<and>
     (case x of
        Inl st \<Rightarrow> \<not> st_ok st \<and> (st_code st = kWouldBlock \<longrightarrow> queue_of w = queue_of (vs_world s))
      | Inr d \<Rightarrow> queue_of w = queue_of (vs_world s) - {#dq_index d#}
          \<and> (gives_queued w \<longrightarrow> dq_index d \<in># queue_of (vs_world s)))"
proof (cases "vs_state s \<noteq> V4l2_running \<or> vs_fd s < 0 \<or> \<not> vs_has_api s")
  case True
  then show ?thesis
    using assms(2) by (intro exI [of _ "vs_world s"]) (auto simp: v4l2_dequeue_def err_def)
next
  case False
  obtain r t where c: "bounded_ioctl (watched api) VIDIOC_DQBUF (capture_buffer 0) s = (r, t)" by (meson surj_pair)
  from ioctl_queue [OF assms(1) _ c] obtain w where w: "t = s\<lparr>vs_world := w\<rparr>"
    "queue_of w = queue_effect VIDIOC_DQBUF (capture_buffer 0) r (queue_of (vs_world s))"
    "gives_queued w \<longrightarrow> gives_queued (vs_world s) \<and>
       gives (Device_ioctl (vs_fd s) VIDIOC_DQBUF (capture_buffer 0), r) (queue_of (vs_world s))"
    by auto
  obtain q where q: "r = Ret q" using assms(2) False by (cases r) (auto simp: v4l2_dequeue_def c)
  show ?thesis
    using assms(2) False w
    by (intro exI [of _ w]) (auto simp: v4l2_dequeue_def c q Let_def err_def queue_effect_def split: if_split_asm)
qed

lemma requeue_queue:
  assumes "failure_keeps_argument api" "v4l2_requeue (watched api) index s = (Ret st, s')"
  shows "\<exists>w. s' = s\<lparr>vs_world := w\<rparr> \<and> (gives_queued w \<longrightarrow> gives_queued (vs_world s)) \<and> st_code st \<noteq> kWouldBlock
     \<and> (st_ok st \<longrightarrow> queue_of w = add_mset index (queue_of (vs_world s)))"
proof (cases "vs_state s \<noteq> V4l2_running \<or> vs_fd s < 0 \<or> \<not> vs_has_api s \<or> unat index \<ge> length (vs_regions s)")
  case True
  then show ?thesis using assms(2) by (intro exI [of _ "vs_world s"]) (auto simp: v4l2_requeue_def split: if_split_asm)
next
  case False
  then have q: "queue_buffer (watched api) index s = (Ret st, s')" using assms(2) by (simp add: v4l2_requeue_def)
  have "st_code st \<noteq> kWouldBlock"
    using q by (auto simp: queue_buffer_def syscall_failure_def v4l2_error_code_def st_ok_def ok_status_def split: prod.split_asm outcome.split_asm if_split_asm)
  then show ?thesis using queue_buffer_queue [OF assms(1) q] by auto
qed

subsection \<open>The node\<close>

lemma serve_system: "serve f n = (r, n') \<Longrightarrow> vd_system n' = vd_system n"
  by (auto simp: serve_def split: prod.splits)

lemma observer_system [simp]: "vd_system (snd (invoke_observer f n)) = vd_system n"
  by (auto simp: invoke_observer_def serve_def split: prod.split)

lemma report_system:
  "v4l2_report_failure sv st n = (st', n') \<Longrightarrow> vd_system n' = vd_system n \<and> st' = st"
  "vd_system (snd (v4l2_report_would_block sv st n)) = vd_system n"
  by (auto simp: v4l2_report_failure_def v4l2_report_would_block_def case_prod_beta)

lemma timestamp_system: "timestamp_for strerror sv dq n = (r, n') \<Longrightarrow> vd_system n' = vd_system n"
  by (auto simp: timestamp_for_def Let_def err_def dest: serve_system
      split: option.split_asm prod.split_asm outcome.split_asm if_split_asm)

lemma fill_frame_system: "fill_frame base negotiated dq cpu buf pts missing n = (r, n') \<Longrightarrow> vd_system n' = vd_system n"
  by (auto simp: fill_frame_def Let_def err_def split: prod.split_asm sum.split_asm option.split_asm)

lemma copy_frame_system: "copy_frame base strerror sv dq n = (r, n') \<Longrightarrow> vd_system n' = vd_system n"
  by (auto simp: copy_frame_def Let_def err_def dest!: timestamp_system serve_system fill_frame_system
      split: option.split_asm prod.split_asm outcome.split_asm sum.split_asm if_split_asm)

lemma send_captured_system: "vd_system (snd (send_captured sv f n)) = vd_system n"
  by (auto simp: send_captured_def v4l2_report_failure_def Let_def case_prod_beta)

lemma frame_captured_system: "vd_system (snd (frame_captured sv dq f n)) = vd_system n"
  by (auto simp: frame_captured_def Let_def case_prod_beta send_captured_system)

lemma send_pending_system: "vd_system (snd (send_pending sv f n)) = vd_system n"
  by (auto simp: send_pending_def v4l2_report_failure_def Let_def case_prod_beta)

text \<open>What a tick that reports no failure leaves of the device: its memory of the kernel, and the queue.\<close>

definition same_queue :: "'w watched_world v4l2_system \<Rightarrow> 'w watched_world v4l2_system \<Rightarrow> bool" where
  "same_queue s s' \<longleftrightarrow> vs_state s' = vs_state s \<and> vs_regions s' = vs_regions s
     \<and> (gives_queued (vs_world s') \<longrightarrow> gives_queued (vs_world s) \<and> queue_of (vs_world s') = queue_of (vs_world s))"

lemma same_queue_refl [simp]: "same_queue s s"
  by (simp add: same_queue_def)

lemma same_queue_trans: "same_queue s t \<Longrightarrow> same_queue t u \<Longrightarrow> same_queue s u"
  by (simp add: same_queue_def)

lemma handled_not_blocked [simp]: "st_code (handled e) \<noteq> kWouldBlock" "\<not> st_ok (handled e)"
  by (cases e; simp add: handled_def)+

text \<open>Every buffer taken out goes back.\<close>

lemma copy_and_requeue_queue:
  assumes "failure_keeps_argument api" "copy_and_requeue base (watched api) sv dq n = (st, n')"
    and "st_ok st \<or> st_code st = kWouldBlock"
  shows "\<exists>w. vd_system n' = vd_system n\<lparr>vs_world := w\<rparr> \<and> (gives_queued w \<longrightarrow> gives_queued (vs_world (vd_system n)))
     \<and> queue_of w = add_mset (dq_index dq) (queue_of (vs_world (vd_system n)))"
proof -
  obtain media n1 where c: "copy_frame base (va_strerror (watched api)) sv dq n = (media, n1)" by (meson surj_pair)
  obtain q s where r: "v4l2_requeue (watched api) (dq_index dq) (vd_system n1) = (q, s)" by (meson surj_pair)
  have sys: "vd_system n1 = vd_system n" using copy_frame_system [OF c] .
  obtain qs where q: "q = Ret qs" "st_ok qs \<or> st_code qs = kWouldBlock" "st_ok qs \<or> vd_system n' = s"
  proof (cases q)
    case (Ret qs)
    then show ?thesis
      using assms(2,3) that
      by (auto simp: copy_and_requeue_def c on_system_def r status_or_handled_def Let_def dest!: report_system(1) split: if_split_asm)
  next
    case (Throw e)
    then show ?thesis
      using assms(2,3) by (auto simp: copy_and_requeue_def c on_system_def r status_or_handled_def Let_def dest!: report_system(1))
  qed
  from requeue_queue [OF assms(1) r [unfolded q(1)]] obtain w where w: "s = vd_system n\<lparr>vs_world := w\<rparr>"
    "gives_queued w \<longrightarrow> gives_queued (vs_world (vd_system n))" "st_code qs \<noteq> kWouldBlock"
    "st_ok qs \<longrightarrow> queue_of w = add_mset (dq_index dq) (queue_of (vs_world (vd_system n)))"
    by (auto simp: sys)
  have ok: "st_ok qs" using q(2) w(3) by blast
  have "vd_system n' = s"
  proof -
    have "vd_system (snd (case media of
                Throw e \<Rightarrow> v4l2_report_failure sv (handled e) (n1\<lparr>vd_system := s\<rparr>)
              | Ret (Inl media_status) \<Rightarrow> v4l2_report_failure sv media_status (n1\<lparr>vd_system := s\<rparr>)
              | Ret (Inr f) \<Rightarrow> frame_captured sv dq f (n1\<lparr>vd_system := s\<rparr>))) = s"
      by (auto simp: frame_captured_system v4l2_report_failure_def split: outcome.split sum.split)
    then show ?thesis
      using assms(2) ok by (simp add: copy_and_requeue_def c on_system_def r q(1) status_or_handled_def)
  qed
  then show ?thesis using w ok by blast
qed

lemma tick_queue:
  assumes "failure_keeps_argument api" "v4l2_on_tick base (watched api) sv n = (st, n')"
    and "st_ok st \<or> st_code st = kWouldBlock"
  shows "same_queue (vd_system n) (vd_system n')"
proof (cases "vd_pending n")
  case (Some f)
  then show ?thesis using assms(2) send_pending_system [of sv f n] by (simp add: v4l2_on_tick_def)
next
  case None
  obtain x s where d: "v4l2_dequeue (watched api) (vd_system n) = (x, s)" by (meson surj_pair)
  show ?thesis
  proof (cases x)
    case (Throw e)
    then show ?thesis using assms(2,3) None by (auto simp: v4l2_on_tick_def on_system_def d)
  next
    case (Ret y)
    from dequeue_queue [OF assms(1) d [unfolded Ret]] obtain w where w: "s = vd_system n\<lparr>vs_world := w\<rparr>"
      "gives_queued w \<longrightarrow> gives_queued (vs_world (vd_system n))"
      "case y of
        Inl st \<Rightarrow> \<not> st_ok st \<and> (st_code st = kWouldBlock \<longrightarrow> queue_of w = queue_of (vs_world (vd_system n)))
      | Inr d \<Rightarrow> queue_of w = queue_of (vs_world (vd_system n)) - {#dq_index d#}
          \<and> (gives_queued w \<longrightarrow> dq_index d \<in># queue_of (vs_world (vd_system n)))"
      by blast
    show ?thesis
    proof (cases y)
      case (Inl e)
      have "st_code e = kWouldBlock \<and> vd_system n' = s"
      proof (cases "st_code e = kWouldBlock")
        case True
        then show ?thesis
          using assms(2) None report_system(2) [of sv e "n\<lparr>vd_system := s\<rparr>"]
          by (simp add: v4l2_on_tick_def on_system_def d Ret Inl)
      next
        case False
        then have "v4l2_report_failure sv e (n\<lparr>vd_system := s\<rparr>) = (st, n')"
          using assms(2) None by (simp add: v4l2_on_tick_def on_system_def d Ret Inl)
        then have "st = e" using report_system(1) by blast
        then show ?thesis using assms(3) False w(3) Inl by simp
      qed
      then show ?thesis using w Inl by (simp add: same_queue_def)
    next
      case (Inr dq)
      then have "copy_and_requeue base (watched api) sv dq (n\<lparr>vd_system := s\<rparr>) = (st, n')"
        using assms(2) None by (simp add: v4l2_on_tick_def on_system_def d Ret)
      from copy_and_requeue_queue [OF assms(1) this assms(3)] obtain w' where
        "vd_system n' = s\<lparr>vs_world := w'\<rparr>" "gives_queued w' \<longrightarrow> gives_queued (vs_world s)"
        "queue_of w' = add_mset (dq_index dq) (queue_of (vs_world s))"
        by auto
      then show ?thesis using w Inr by (auto simp: same_queue_def)
    qed
  qed
qed

text \<open>Ticks, each after the kernel has written to the buffers and others have used the queues.\<close>

type_synonym surroundings = "memory \<times> video_frame queue_store"

fun camera_ticks ::
  "(nat \<Rightarrow> size_t) \<Rightarrow> 'w v4l2_api \<Rightarrow> 'x v4l2_services \<Rightarrow> surroundings list \<Rightarrow> ('w, 'x) v4l2_node \<Rightarrow>
     status list \<times> ('w, 'x) v4l2_node" where
  "camera_ticks base api sv [] n = ([], n)"
| "camera_ticks base api sv ((m, qs) # around) n =
     (case v4l2_on_tick base api sv (n\<lparr>vd_memory := m, vd_queues := qs\<rparr>) of (st, n) \<Rightarrow>
        case camera_ticks base api sv around n of (sts, n) \<Rightarrow> (st # sts, n))"

lemma camera_ticks_queue:
  assumes "failure_keeps_argument api"
  shows "camera_ticks base (watched api) sv around n = (sts, n') \<Longrightarrow> \<forall>st\<in>set sts. st_ok st \<or> st_code st = kWouldBlock
    \<Longrightarrow> same_queue (vd_system n) (vd_system n')"
proof (induction around arbitrary: n sts)
  case (Cons a around)
  obtain m qs where a: "a = (m, qs)" by (meson surj_pair)
  obtain st n1 where t: "v4l2_on_tick base (watched api) sv (n\<lparr>vd_memory := m, vd_queues := qs\<rparr>) = (st, n1)" by (meson surj_pair)
  obtain rest n2 where r: "camera_ticks base (watched api) sv around n1 = (rest, n2)" by (meson surj_pair)
  have e: "sts = st # rest" "n2 = n'" using Cons.prems(1) by (simp_all add: a t r)
  have "same_queue (vd_system n) (vd_system n1)"
    using tick_queue [OF assms t] Cons.prems(2) e by simp
  moreover have "same_queue (vd_system n1) (vd_system n')"
    using Cons.IH [OF r [unfolded e(2)]] Cons.prems(2) e by simp
  ultimately show ?case by (rule same_queue_trans)
qed simp

lemma on_start_queue:
  assumes "failure_keeps_argument api" "v4l2_on_start (watched api) sv n = (st, n')" "st_ok st"
    and "vs_state (vd_system n) = V4l2_prepared" "queue_of (vs_world (vd_system n)) = {#}"
  shows "vs_state (vd_system n') = V4l2_running \<and> vs_regions (vd_system n') = vs_regions (vd_system n)
    \<and> queue_of (vs_world (vd_system n')) = mset (map of_nat [0..<length (vs_regions (vd_system n))])"
proof -
  obtain r s where c: "v4l2_start (watched api) (vd_system n) = (r, s)" by (meson surj_pair)
  let ?n = "n\<lparr>vd_pending := None, vd_has_pts := False, vd_last_pts := 0, vd_has_sequence := False, vd_expected_sequence := 0\<rparr>"
  have on: "on_system (v4l2_start (watched api)) ?n = (r, ?n\<lparr>vd_system := s\<rparr>)" by (simp add: on_system_def c)
  obtain so where r: "r = Ret so" "st_ok so"
    using assms(2,3) by (cases r) (auto simp: v4l2_on_start_def on Let_def split: if_split_asm)
  have "vd_system n' = s"
  proof -
    obtain os n2 where o: "invoke_observer (sv_pending sv False) (?n\<lparr>vd_system := s\<rparr>) = (os, n2)" by (meson surj_pair)
    then have "vd_system n2 = s" using observer_system [of "sv_pending sv False" "?n\<lparr>vd_system := s\<rparr>"] by simp
    moreover have "n' = n2"
      using assms(2,3) r
      by (auto simp: v4l2_on_start_def on Let_def o case_prod_beta v4l2_report_failure_def split: if_split_asm)
    ultimately show ?thesis by simp
  qed
  moreover have "start_buffers (watched api) 0 (length (vs_regions (vd_system n))) (vd_system n) = (Ret so, s)"
    using c r assms(4) by (auto simp: v4l2_start_def split: if_split_asm)
  from start_buffers_queue [OF assms(1) this r(2)]
  have "\<exists>w. s = vd_system n\<lparr>vs_state := V4l2_running, vs_world := w\<rparr>
     \<and> queue_of w = mset (map of_nat [0..<length (vs_regions (vd_system n))])"
    using assms(5) by simp
  ultimately show ?thesis by auto
qed

text \<open>C30: no buffer of the camera is lost. Let a prepared node be started and ticked any number of
  times, with frames that arrive, that do not fit into the output or that are not there yet, and let
  each tick report success or that it would block. Then the kernel's queue holds every buffer exactly
  once again, provided that \<open>VIDIOC_DQBUF\<close> hands out buffers that are in the queue.\<close>

theorem v4l2_buffers_return:
  assumes "failure_keeps_argument api"
    and "vs_state (vd_system n) = V4l2_prepared" "queue_of (vs_world (vd_system n)) = {#}"
    and "v4l2_on_start (watched api) sv n = (st, n0)" "st_ok st"
    and "camera_ticks base (watched api) sv around n0 = (sts, n')"
    and "\<forall>st\<in>set sts. st_ok st \<or> st_code st = kWouldBlock"
    and "gives_queued (vs_world (vd_system n'))"
  shows "vs_state (vd_system n') = V4l2_running
    \<and> queue_of (vs_world (vd_system n')) = mset (map of_nat [0..<length (vs_regions (vd_system n'))])"
  using on_start_queue [OF assms(1,4,5,2,3)] camera_ticks_queue [OF assms(1,6,7)] assms(8)
  by (simp add: same_queue_def)

text \<open>The tame camera before a consumer with room for one frame.\<close>

definition prepared_node :: "(nat watched_world, unit default_state) v4l2_node" where
  "prepared_node =
     (snd (v4l2_on_prepare (watched tame_camera) still_services
       (v4l2_node_new small_config (v4l2_new True (0, []))
          \<lparr>ds_metrics = None, ds_next_storage = 0, ds_throws = no_throw, ds_clock = ()\<rparr> []
          \<lparr>mem_bytes = (\<lambda>a. 0), mem_next = 0\<rparr> no_throw)))\<lparr>vd_output := \<lparr>op_name = ''video_output'', op_connections = [0]\<rparr>\<rparr>"

definition still_ticks :: "nat \<Rightarrow> status list \<times> (nat watched_world, unit default_state) v4l2_node" where
  "still_ticks k =
     camera_ticks frame_base (watched tame_camera) still_services (replicate k (\<lparr>mem_bytes = (\<lambda>a. 0), mem_next = 0\<rparr>, [bqueue_new 1 kBlock]))
       (snd (v4l2_on_start (watched tame_camera) still_services prepared_node))"

lemma prepared_facts:
  "vs_state (vd_system prepared_node) = V4l2_prepared" "queue_of (vs_world (vd_system prepared_node)) = {#}"
  "st_ok (fst (v4l2_on_start (watched tame_camera) still_services prepared_node))"
  by code_simp+

lemma ticks_facts:
  "list_all (\<lambda>st. st_ok st \<or> st_code st = kWouldBlock) (fst (still_ticks 3))"
  "gives_queued (vs_world (vd_system (snd (still_ticks 3))))" "length (vs_regions (vd_system (snd (still_ticks 3)))) = 4"
  by code_simp+

theorem v4l2_buffers_return_witness:
  "queue_of (vs_world (vd_system (snd (still_ticks 3)))) = {#0, 1, 2, 3#}"
proof -
  obtain st n0 where st: "v4l2_on_start (watched tame_camera) still_services prepared_node = (st, n0)" by (meson surj_pair)
  obtain sts n' where t: "still_ticks 3 = (sts, n')" by (meson surj_pair)
  have "queue_of (vs_world (vd_system n')) = mset (map of_nat [0..<4])"
    using v4l2_buffers_return [OF tame_camera_documented prepared_facts(1,2) st _ t [unfolded still_ticks_def st snd_conv]]
      ticks_facts prepared_facts(3) by (simp add: st t list_all_iff)
  then show ?thesis by (simp add: t upt_rec)
qed

end
