(* ===== verification/Platform_Runtime.thy ===== *)
theory Platform_Runtime
  imports Event_Loop Pipeline_World Management
begin

text \<open>
  \<open>src/platform/linux/platform_runtime.cpp\<close>: the runtime that starts the registered pipelines in a
  thread of its own, ticks them when the event loop says so and drains them when it is stopped.

  This theory has what a thread does between two accesses to the fields that the mutex protects;
  \<open>Runtime_Threads\<close> interleaves the threads. A pipeline is known by its number, the runtime does not
  own it: \<open>ra_objects\<close> are the pipelines of the client. The world of the loop, of the nodes and of the
  observer is one, \<open>'w\<close>. The hooks of the tests are not modelled.
\<close>

subsection \<open>Configuration\<close>

record runtime_config =
  rc_reactor_count :: int
  rc_stop_timeout_ms :: int

definition runtime_config_create :: "throws \<Rightarrow> int \<Rightarrow> int \<Rightarrow> runtime_config result" where
  "runtime_config_create h reactor_count stop_timeout_ms =
     (if reactor_count \<le> 0 \<or> stop_timeout_ms \<le> 0 then err (status_of kInvalidArgument)
      else if reactor_count \<noteq> 1 then err (status_of kUnsupported)
      else catch_all h S_runtime_create
        (Inr \<lparr>rc_reactor_count = reactor_count, rc_stop_timeout_ms = stop_timeout_ms\<rparr>))"

subsection \<open>Time\<close>

definition kMaximumInterruptedSleepAttempts :: nat where
  "kMaximumInterruptedSleepAttempts = 64"

definition kDrainBackoffMilliseconds :: int where
  "kDrainBackoffMilliseconds = 1"

text \<open>The messages are UTF-8; \<open>time_t\<close> has 64 bits.\<close>

definition mClock :: string where
  "mClock = utf8 [230, 151, 160, 230, 179, 149, 232, 175, 187, 229, 143, 150] @ '' Linux '' @ utf8 [229, 141, 149, 232, 176, 131, 230, 151, 182, 233, 146, 159]"

definition mSleep :: string where
  "mSleep = ''Linux Runtime '' @ utf8 [229, 129, 156, 230, 173, 162, 230, 142, 146, 231, 169, 186, 231, 173, 137, 229, 190, 133, 229, 164, 177, 232, 180, 165]"

definition mDeadline :: string where
  "mDeadline = ''Linux Runtime '' @ utf8 [229, 129, 156, 230, 173, 162, 230, 156, 159, 233, 153, 144, 232, 182, 133, 229, 135, 186] @ '' time_t '' @ utf8 [229, 143, 175, 232, 161, 168, 231, 164, 186, 232, 140, 131, 229, 155, 180]"

definition mTimeout :: string where
  "mTimeout = ''Linux Runtime '' @ utf8 [229, 129, 156, 230, 173, 162, 230, 142, 146, 231, 169, 186, 232, 182, 133, 230, 151, 182]"

definition add_milliseconds :: "timespec \<Rightarrow> int \<Rightarrow> timespec result" where
  "add_milliseconds start milliseconds =
     (let nanoseconds = tv_nsec start + c_mod milliseconds 1000 * 1000000;
          carry = (if nanoseconds \<ge> 1000000000 then 1 else 0);
          seconds = c_div milliseconds 1000
      in if tv_nsec start < 0 \<or> tv_nsec start \<ge> 1000000000 \<or> milliseconds < 0
            \<or> seconds > int64_max - carry \<or> tv_sec start > int64_max - (seconds + carry)
         then err (status_msg kResourceExhausted mDeadline)
         else Inr \<lparr>tv_sec = tv_sec start + seconds + carry, tv_nsec = nanoseconds - carry * 1000000000\<rparr>)"

definition reached :: "timespec \<Rightarrow> timespec \<Rightarrow> bool" where
  "reached now deadline \<longleftrightarrow>
     tv_sec now > tv_sec deadline \<or> tv_sec now = tv_sec deadline \<and> tv_nsec now \<ge> tv_nsec deadline"

definition earlier :: "timespec \<Rightarrow> timespec \<Rightarrow> bool" where
  "earlier left right \<longleftrightarrow> tv_sec left < tv_sec right \<or> tv_sec left = tv_sec right \<and> tv_nsec left < tv_nsec right"

subsection \<open>The reactor\<close>

text \<open>Everything outside the runtime: the kernel and the wait sources, the allocations of the loop, and
  the functions of \<open>RuntimeObserver\<close>.\<close>

record 'w runtime_env =
  re_loop :: "'w loop_env"
  re_alloc :: "'w \<Rightarrow> exn option"
  re_on_poll :: "nat \<Rightarrow> nat \<Rightarrow> 'w \<Rightarrow> status outcome \<times> 'w"
  re_on_turn :: "'w \<Rightarrow> status outcome \<times> 'w"
  re_on_failure :: "'w \<Rightarrow> status outcome \<times> 'w"
  re_on_running :: "bool \<Rightarrow> 'w \<Rightarrow> status outcome \<times> 'w"
  re_stop_timeout_ms :: int

record pipeline_record =
  rr_pipeline :: nat
  rr_sources :: "nat list"

record 'w reactor =
  ra_loop :: "'w event_loop"
  ra_records :: "pipeline_record list"
  ra_objects :: "nat \<Rightarrow> 'w pipeline"

text \<open>\<open>media_failure\<close>, \<open>reactor_failure\<close> and \<open>observer_failure\<close>.\<close>

record failures =
  fl_media :: status
  fl_reactor :: status
  fl_observer :: status

definition no_failures :: failures where
  "no_failures = \<lparr>fl_media = ok_status, fl_reactor = ok_status, fl_observer = ok_status\<rparr>"

definition all_ok :: "failures \<Rightarrow> bool" where
  "all_ok fl \<longleftrightarrow> st_ok (fl_media fl) \<and> st_ok (fl_reactor fl) \<and> st_ok (fl_observer fl)"

definition record_first :: "status \<Rightarrow> status \<Rightarrow> status" where
  "record_first candidate first_failure =
     (if st_ok first_failure \<and> \<not> st_ok candidate then candidate else first_failure)"

definition media_failed :: "status \<Rightarrow> failures \<Rightarrow> failures" where
  "media_failed s fl = fl\<lparr>fl_media := record_first s (fl_media fl)\<rparr>"

definition reactor_failed :: "status \<Rightarrow> failures \<Rightarrow> failures" where
  "reactor_failed s fl = fl\<lparr>fl_reactor := record_first s (fl_reactor fl)\<rparr>"

definition observer_failed :: "status \<Rightarrow> failures \<Rightarrow> failures" where
  "observer_failed s fl = fl\<lparr>fl_observer := record_first s (fl_observer fl)\<rparr>"

definition selected_failure :: "failures \<Rightarrow> status" where
  "selected_failure fl =
     (if \<not> st_ok (fl_media fl) then fl_media fl
      else if \<not> st_ok (fl_reactor fl) then fl_reactor fl else fl_observer fl)"

text \<open>Calls of the loop, of a pipeline, of the runtime interface and of the observer.\<close>

definition on_loop :: "('w event_loop \<Rightarrow> 'a \<times> 'w event_loop) \<Rightarrow> 'w reactor \<Rightarrow> 'a \<times> 'w reactor" where
  "on_loop f r = (case f (ra_loop r) of (x, l) \<Rightarrow> (x, r\<lparr>ra_loop := l\<rparr>))"

definition on_world :: "('w \<Rightarrow> 'a \<times> 'w) \<Rightarrow> 'w reactor \<Rightarrow> 'a \<times> 'w reactor" where
  "on_world f = on_loop (\<lambda>l. case f (el_world l) of (x, w) \<Rightarrow> (x, l\<lparr>el_world := w\<rparr>))"

definition on_pipeline ::
  "('w pipeline \<Rightarrow> 'w \<Rightarrow> 'a \<times> 'w pipeline \<times> 'w) \<Rightarrow> nat \<Rightarrow> 'w reactor \<Rightarrow> 'a \<times> 'w reactor" where
  "on_pipeline f i r =
     (case f (ra_objects r i) (el_world (ra_loop r)) of (x, p, w) \<Rightarrow>
        (x, r\<lparr>ra_objects := (ra_objects r)(i := p), ra_loop := (ra_loop r)\<lparr>el_world := w\<rparr>\<rparr>))"

definition runtime_call :: "'w runtime_env \<Rightarrow> rt_call \<Rightarrow> 'w reactor \<Rightarrow> rt_reply outcome \<times> 'w reactor" where
  "runtime_call env c = on_world (le_call (re_loop env) c)"

definition runtime_observe :: "('w \<Rightarrow> status outcome \<times> 'w) \<Rightarrow> 'w reactor \<Rightarrow> status \<times> 'w reactor" where
  "runtime_observe f r = (case on_world f r of (Ret s, r) \<Rightarrow> (s, r) | (Throw e, r) \<Rightarrow> (handled e, r))"

text \<open>An observer whose failure is remembered.\<close>

definition observed ::
  "('w \<Rightarrow> status outcome \<times> 'w) \<Rightarrow> failures \<times> 'w reactor \<Rightarrow> failures \<times> 'w reactor" where
  "observed f x = (case x of (fl, r) \<Rightarrow> case runtime_observe f r of (s, r) \<Rightarrow> (observer_failed s fl, r))"

text \<open>The last pipeline first; \<open>cancel\<close> does not throw.\<close>

fun cancel_prefix :: "nat \<Rightarrow> status \<Rightarrow> 'w reactor \<Rightarrow> status \<times> 'w reactor" where
  "cancel_prefix 0 media_failure r = (media_failure, r)"
| "cancel_prefix (Suc n) media_failure r =
     (case on_pipeline pipeline_cancel (rr_pipeline (ra_records r ! n)) r of
        (s, r) \<Rightarrow> cancel_prefix n (record_first s media_failure) r)"

definition cancel_all :: "status \<Rightarrow> 'w reactor \<Rightarrow> status \<times> 'w reactor" where
  "cancel_all media_failure r = cancel_prefix (length (ra_records r)) media_failure r"

definition cancelled :: "failures \<times> 'w reactor \<Rightarrow> failures \<times> 'w reactor" where
  "cancelled x = (case x of (fl, r) \<Rightarrow> case cancel_all (fl_media fl) r of (m, r) \<Rightarrow> (fl\<lparr>fl_media := m\<rparr>, r))"

definition close_loop :: "'w runtime_env \<Rightarrow> failures \<times> 'w reactor \<Rightarrow> failures \<times> 'w reactor" where
  "close_loop env x =
     (case x of (fl, r) \<Rightarrow> case on_loop (loop_close (re_loop env)) r of (s, r) \<Rightarrow> (reactor_failed s fl, r))"

subsection \<open>Starting\<close>

text \<open>\<open>fail_startup\<close> up to \<open>finish\<close>.\<close>

definition fail_startup ::
  "'w runtime_env \<Rightarrow> failures \<Rightarrow> nat \<Rightarrow> bool \<Rightarrow> 'w reactor \<Rightarrow> failures \<times> 'w reactor" where
  "fail_startup env fl attempted_count running_was_observed r =
     (case cancel_prefix attempted_count (fl_media fl) r of (m, r) \<Rightarrow>
        let x = close_loop env (fl\<lparr>fl_media := m\<rparr>, r)
        in if running_was_observed then observed (re_on_running env False) x else x)"

text \<open>Starting ends with \<open>None\<close>, or with failures after everything has been undone.\<close>

type_synonym 'w startup = "failures option outcome \<times> 'w reactor"

definition startup_failed :: "failures \<times> 'w reactor \<Rightarrow> 'w startup" where
  "startup_failed x = (case x of (fl, r) \<Rightarrow> (Ret (Some fl), r))"

fun start_pipelines :: "'w runtime_env \<Rightarrow> nat \<Rightarrow> nat \<Rightarrow> 'w reactor \<Rightarrow> 'w startup" where
  "start_pipelines env index 0 r = (Ret None, r)"
| "start_pipelines env index (Suc left) r =
     (case on_pipeline pipeline_start (rr_pipeline (ra_records r ! index)) r of
        (Throw e, r) \<Rightarrow> (Throw e, r)
      | (Ret s, r) \<Rightarrow>
          if \<not> st_ok s
          then (case observed (re_on_failure env) (media_failed s no_failures, r) of
                  (fl, r) \<Rightarrow> startup_failed (fail_startup env fl (Suc index) False r))
          else start_pipelines env (Suc index) left r)"

definition initialize_loop :: "'w runtime_env \<Rightarrow> 'w reactor \<Rightarrow> 'w startup" where
  "initialize_loop env r =
     (case on_loop (loop_initialize (re_loop env)) r of (s, r) \<Rightarrow>
        if \<not> st_ok s
        then startup_failed (fail_startup env (reactor_failed s no_failures) (length (ra_records r)) False r)
        else (Ret None, r))"

text \<open>The sources in the order of the two nested loops.\<close>

definition all_sources :: "pipeline_record list \<Rightarrow> (nat \<times> nat) list" where
  "all_sources rs = concat (map (\<lambda>x. map (Pair (rr_pipeline x)) (rr_sources x)) rs)"

fun register_sources :: "'w runtime_env \<Rightarrow> (nat \<times> nat) list \<Rightarrow> 'w reactor \<Rightarrow> 'w startup" where
  "register_sources env [] r = (Ret None, r)"
| "register_sources env ((p, s) # xs) r =
     (case on_loop (\<lambda>l. loop_register (re_alloc env (el_world l)) (re_loop env) (Some p) (Some s) l) r of
        (st, r) \<Rightarrow>
          if \<not> st_ok st
          then (case (if st_provider_id st = ''linux_runtime'' then (reactor_failed st no_failures, r)
                      else observed (re_on_failure env) (media_failed st no_failures, r)) of
                  (fl, r) \<Rightarrow> startup_failed (fail_startup env fl (length (ra_records r)) False r))
          else register_sources env xs r)"

definition announce_running :: "'w runtime_env \<Rightarrow> 'w reactor \<Rightarrow> 'w startup" where
  "announce_running env r =
     (case observed (re_on_running env True) (no_failures, r) of (fl, r) \<Rightarrow>
        if \<not> st_ok (fl_observer fl)
        then startup_failed (fail_startup env fl (length (ra_records r)) True r)
        else (Ret None, r))"

definition and_start :: "'w startup \<Rightarrow> ('w reactor \<Rightarrow> 'w startup) \<Rightarrow> 'w startup" where
  "and_start x k = (case x of (Ret None, r) \<Rightarrow> k r | (y, r) \<Rightarrow> (y, r))"

definition reactor_startup :: "'w runtime_env \<Rightarrow> 'w reactor \<Rightarrow> 'w startup" where
  "reactor_startup env r =
     and_start (and_start (and_start (start_pipelines env 0 (length (ra_records r)) r)
       (initialize_loop env)) (\<lambda>r. register_sources env (all_sources (ra_records r)) r)) (announce_running env)"

subsection \<open>Running\<close>

text \<open>A wait: the pipelines that are ready, or \<open>None\<close>, with which the loop is left.\<close>

definition reactor_wait :: "'w runtime_env \<Rightarrow> failures \<Rightarrow> 'w reactor \<Rightarrow> nat list option \<times> failures \<times> 'w reactor" where
  "reactor_wait env fl r =
     (case on_loop (\<lambda>l. loop_wait_once (re_alloc env (el_world l)) (re_loop env) l) r of
        (Inl s, r) \<Rightarrow>
          (None, if el_origin (ra_loop r) = Origin_wait_source
                 then observed (re_on_failure env) (media_failed s fl, r)
                 else (reactor_failed s fl, r))
      | (Inr turn, r) \<Rightarrow>
          (Some (lt_ready_pipelines turn),
           observed (re_on_poll env (lt_wakeup_count turn) (lt_interrupted_count turn)) (fl, r)))"

fun tick_pipelines :: "'w runtime_env \<Rightarrow> nat list \<Rightarrow> failures \<Rightarrow> 'w reactor \<Rightarrow> failures outcome \<times> 'w reactor" where
  "tick_pipelines env [] fl r = (Ret fl, r)"
| "tick_pipelines env (p # ps) fl r =
     (case observed (re_on_turn env) (fl, r) of (fl, r) \<Rightarrow>
        case on_pipeline pipeline_tick p r of
          (Throw e, r) \<Rightarrow> (Throw e, r)
        | (Ret s, r) \<Rightarrow>
            if \<not> st_ok s
            then (case observed (re_on_failure env) (media_failed s fl, r) of (fl, r) \<Rightarrow> (Ret fl, r))
            else tick_pipelines env ps fl r)"

subsection \<open>Draining\<close>

definition clock_failure :: "int \<Rightarrow> status" where
  "clock_failure error = status_native kIoError mClock ''linux_runtime'' ''clock_gettime'' error"

definition sleep_failure :: "int \<Rightarrow> status" where
  "sleep_failure error = status_native kIoError mSleep ''linux_runtime'' ''clock_nanosleep'' error"

text \<open>The first argument is how often an interrupted sleep is repeated.\<close>

primrec sleep_attempts :: "nat \<Rightarrow> 'w runtime_env \<Rightarrow> timespec \<Rightarrow> 'w reactor \<Rightarrow> status outcome \<times> 'w reactor" where
  "sleep_attempts 0 env retry_deadline r =
     (case runtime_call env (Monotonic_sleep_until retry_deadline) r of
        (Throw e, r) \<Rightarrow> (Throw e, r)
      | (Ret q, r) \<Rightarrow> (Ret (if rt_result q = 0 then ok_status else sleep_failure (rt_error q)), r))"
| "sleep_attempts (Suc n) env retry_deadline r =
     (case runtime_call env (Monotonic_sleep_until retry_deadline) r of
        (Throw e, r) \<Rightarrow> (Throw e, r)
      | (Ret q, r) \<Rightarrow>
          if rt_result q = 0 then (Ret ok_status, r)
          else if rt_error q \<noteq> eINTR then (Ret (sleep_failure (rt_error q)), r)
          else sleep_attempts n env retry_deadline r)"

definition retry_time :: "timespec \<Rightarrow> timespec \<Rightarrow> timespec" where
  "retry_time now deadline =
     (case add_milliseconds now kDrainBackoffMilliseconds of
        Inl s \<Rightarrow> deadline
      | Inr candidate \<Rightarrow> if earlier candidate deadline then candidate else deadline)"

definition wait_before_retry ::
  "'w runtime_env \<Rightarrow> timespec \<Rightarrow> timespec \<Rightarrow> 'w reactor \<Rightarrow> status outcome \<times> 'w reactor" where
  "wait_before_retry env now deadline r =
     sleep_attempts (kMaximumInterruptedSleepAttempts - 1) env (retry_time now deadline) r"

text \<open>Which pipelines have stopped, how many have not, and whether this pass has stopped any.\<close>

record drain_state =
  dn_stopped :: "bool list"
  dn_remaining :: nat
  dn_progress :: bool

text \<open>A pass over the pipelines below \<open>index\<close>, the last one first.\<close>

fun drain_pass ::
  "'w runtime_env \<Rightarrow> nat \<Rightarrow> drain_state \<Rightarrow> failures \<Rightarrow> 'w reactor \<Rightarrow> (drain_state \<times> failures) outcome \<times> 'w reactor" where
  "drain_pass env 0 d fl r = (Ret (d, fl), r)"
| "drain_pass env (Suc index) d fl r =
     (if dn_stopped d ! index then drain_pass env index d fl r
      else case on_pipeline pipeline_stop (rr_pipeline (ra_records r ! index)) r of
        (Throw e, r) \<Rightarrow> (Throw e, r)
      | (Ret s, r) \<Rightarrow>
          if st_ok s
          then drain_pass env index
                 (d\<lparr>dn_stopped := (dn_stopped d)[index := True], dn_remaining := dn_remaining d - 1,
                    dn_progress := True\<rparr>) fl r
          else if st_code s = kWouldBlock \<or> st_code s = kNotFound then drain_pass env index d fl r
          else (case observed (re_on_failure env) (media_failed s fl, r) of (fl, r) \<Rightarrow> (Ret (d, fl), r)))"

text \<open>What comes after a pass that has left something to do: \<open>True\<close> is another pass.\<close>

definition drain_pause ::
  "'w runtime_env \<Rightarrow> timespec \<Rightarrow> bool \<Rightarrow> failures \<Rightarrow> 'w reactor \<Rightarrow> (bool \<times> failures) outcome \<times> 'w reactor" where
  "drain_pause env deadline made_progress fl r =
     (case runtime_call env Runtime_monotonic_now r of
        (Throw e, r) \<Rightarrow> (Throw e, r)
      | (Ret q, r) \<Rightarrow>
          if rt_result q < 0 then (Ret (False, reactor_failed (clock_failure (rt_error q)) fl), r)
          else if reached (rt_time q) deadline
          then (case observed (re_on_failure env) (media_failed (status_msg kTimeout mTimeout) fl, r) of
                  (fl, r) \<Rightarrow> (Ret (False, fl), r))
          else if made_progress then (Ret (True, fl), r)
          else (case wait_before_retry env (rt_time q) deadline r of
             (Throw e, r) \<Rightarrow> (Throw e, r)
           | (Ret wait_status, r) \<Rightarrow>
               if \<not> st_ok wait_status then (Ret (False, reactor_failed wait_status fl), r)
               else (Ret (True, fl), r)))"

partial_function (option) drain_turns ::
  "'w runtime_env \<Rightarrow> timespec \<Rightarrow> drain_state \<Rightarrow> failures \<Rightarrow> 'w reactor \<Rightarrow> (failures outcome \<times> 'w reactor) option" where
  "drain_turns env deadline d fl r =
     (if dn_remaining d > 0 \<and> st_ok (fl_media fl) \<and> st_ok (fl_reactor fl)
      then case drain_pass env (length (ra_records r)) (d\<lparr>dn_progress := False\<rparr>) fl r of
        (Throw e, r) \<Rightarrow> Some (Throw e, r)
      | (Ret (d, fl), r) \<Rightarrow>
          if dn_remaining d = 0 \<or> \<not> st_ok (fl_media fl) then Some (Ret fl, r)
          else (case drain_pause env deadline (dn_progress d) fl r of
             (Throw e, r) \<Rightarrow> Some (Throw e, r)
           | (Ret (again, fl), r) \<Rightarrow> if again then drain_turns env deadline d fl r else Some (Ret fl, r))
      else Some (Ret fl, r))"

declare drain_turns.simps [code]

definition drain_until :: "'w runtime_env \<Rightarrow> timespec \<Rightarrow> failures \<Rightarrow> 'w reactor \<Rightarrow> (failures outcome \<times> 'w reactor) option" where
  "drain_until env deadline fl r =
     (case re_alloc env (el_world (ra_loop r)) of
        Some e \<Rightarrow> Some (Throw e, r)
      | None \<Rightarrow>
          (case drain_turns env deadline \<lparr>dn_stopped = replicate (length (ra_records r)) False,
                  dn_remaining = length (ra_records r), dn_progress = False\<rparr> fl r of
             None \<Rightarrow> None
           | Some (Throw e, r) \<Rightarrow> Some (Throw e, r)
           | Some (Ret fl, r) \<Rightarrow>
               (case (if \<not> st_ok (fl_media fl) \<or> \<not> st_ok (fl_reactor fl) then cancelled (fl, r) else (fl, r)) of
                  (fl, r) \<Rightarrow> Some (Ret fl, r))))"

definition drain :: "'w runtime_env \<Rightarrow> failures \<Rightarrow> 'w reactor \<Rightarrow> (failures outcome \<times> 'w reactor) option" where
  "drain env fl r =
     (case runtime_call env Runtime_monotonic_now r of
        (Throw e, r) \<Rightarrow> Some (Throw e, r)
      | (Ret q, r) \<Rightarrow>
          if rt_result q < 0
          then (case cancelled (reactor_failed (clock_failure (rt_error q)) fl, r) of (fl, r) \<Rightarrow> Some (Ret fl, r))
          else (case add_milliseconds (rt_time q) (re_stop_timeout_ms env) of
             Inl s \<Rightarrow> (case cancelled (reactor_failed s fl, r) of (fl, r) \<Rightarrow> Some (Ret fl, r))
           | Inr deadline \<Rightarrow> drain_until env deadline fl r))"

subsection \<open>Leaving\<close>

text \<open>How the reactor ends: it drains the pipelines, it cancels them, or it is in the handler of an
  exception.\<close>

datatype leave_plan = Plan_drain failures | Plan_cancel failures | Plan_handle exn

definition leave_end :: "'w runtime_env \<Rightarrow> failures \<times> 'w reactor \<Rightarrow> failures \<times> 'w reactor" where
  "leave_end env x = observed (re_on_running env False) (close_loop env x)"

fun reactor_leave :: "'w runtime_env \<Rightarrow> leave_plan \<Rightarrow> 'w reactor \<Rightarrow> (failures outcome \<times> 'w reactor) option" where
  "reactor_leave env (Plan_drain fl) r =
     (case drain env fl r of
        None \<Rightarrow> None
      | Some (Throw e, r) \<Rightarrow> Some (Throw e, r)
      | Some (Ret fl, r) \<Rightarrow> (case leave_end env (fl, r) of (fl, r) \<Rightarrow> Some (Ret fl, r)))"
| "reactor_leave env (Plan_cancel fl) r =
     (case leave_end env (cancelled (fl, r)) of (fl, r) \<Rightarrow> Some (Ret fl, r))"
| "reactor_leave env (Plan_handle e) r =
     (case leave_end env (cancelled (media_failed (handled e) no_failures, r)) of (fl, r) \<Rightarrow> Some (Ret fl, r))"

subsection \<open>The observer of the metrics\<close>

text \<open>\<open>NullRuntimeObserver\<close>, each of whose functions answers that all is well, and
  \<open>RegistryRuntimeObserver\<close>.\<close>

definition null_observer :: "'w \<Rightarrow> status outcome \<times> 'w" where
  "null_observer w = (Ret ok_status, w)"

definition ro_on_poll :: "64 word \<Rightarrow> 64 word \<Rightarrow> metric_registry \<Rightarrow> status \<times> metric_registry" where
  "ro_on_poll wakeups interrupted m =
     (case increment_counter ''runtime.poll.wakeups'' wakeups m of (s, m) \<Rightarrow>
        case increment_counter ''runtime.poll.interrupted'' interrupted m of (t, m) \<Rightarrow> (record_first t s, m))"

definition ro_on_turn :: "metric_registry \<Rightarrow> status \<times> metric_registry" where
  "ro_on_turn = increment_counter ''runtime.pipeline.turns'' 1"

definition ro_on_failure :: "metric_registry \<Rightarrow> status \<times> metric_registry" where
  "ro_on_failure = increment_counter ''runtime.pipeline.failures'' 1"

definition ro_on_running :: "bool \<Rightarrow> metric_registry \<Rightarrow> status \<times> metric_registry" where
  "ro_on_running running = set_gauge ''runtime.reactor.running'' (if running then 0x3FF0000000000000 else 0)"

end
