(* ===== verification/Runtime_Threads.thy ===== *)
theory Runtime_Threads
  imports Platform_Runtime
begin

text \<open>
  The threads of \<open>LinuxPlatformRuntime\<close>: the reactor thread and any number of threads that call
  \<open>register_pipeline\<close>, \<open>start\<close> and \<open>stop\<close>.

  The fields that the mutex protects are \<open>runtime_shared\<close>. A thread is a value that says where it is: a
  step of a thread is one critical section, or what it does between two of them; \<open>None\<close> means that it
  waits, for a condition, for the reactor thread to end or because it has returned. \<open>runtime_step\<close>
  interleaves the steps of all threads in any order.
\<close>

datatype runtime_state = R_kCreated | R_kStarting | R_kRunning | R_kStopping | R_kStopped | R_kError

record runtime_shared =
  rs_state :: runtime_state
  rs_last_failure :: status
  rs_stop_result :: status
  rs_startup_result :: status
  rs_startup_completed :: bool
  rs_thread_exited :: bool
  rs_stop_requested :: bool
  rs_reactor_exiting :: bool
  rs_wake_in_flight :: nat
  rs_join_claimed :: bool
  rs_join_completed :: bool
  rs_joinable :: bool
  rs_registered_pipelines :: "nat oset"
  rs_registered_sources :: "nat oset"

definition shared_new :: runtime_shared where
  "shared_new = \<lparr>rs_state = R_kCreated, rs_last_failure = status_of kInvalidState, rs_stop_result = ok_status,
     rs_startup_result = status_of kInvalidState, rs_startup_completed = False, rs_thread_exited = False,
     rs_stop_requested = False, rs_reactor_exiting = False, rs_wake_in_flight = 0, rs_join_claimed = False,
     rs_join_completed = False, rs_joinable = False, rs_registered_pipelines = [], rs_registered_sources = []\<rparr>"

text \<open>Where the reactor thread is; \<open>R_absent\<close>: it has not been created.\<close>

datatype reactor_pc =
    R_absent
  | R_starting
  | R_publishing
  | R_waiting failures
  | R_turning failures "nat list"
  | R_ticking failures "nat list"
  | R_checking failures
  | R_marking leave_plan
  | R_marked leave_plan
  | R_leaving leave_plan
  | R_finishing failures
  | R_ended

text \<open>What a thread does after \<open>join_reactor\<close>: \<open>start\<close> and \<open>stop\<close> return what they have read before, or
  \<open>stop\<close> reads \<open>stop_result_\<close>.\<close>

datatype after_join = After_start status | After_stop_with status | After_stop

datatype client =
    Register_called "exn option" "nat option" "nat option list"
  | Start_called "exn option"
  | Start_waiting
  | Start_released
  | Stop_called
  | Stop_waking
  | Stop_woken status
  | Join_called after_join
  | Join_owner after_join
  | Join_ended after_join
  | Join_done after_join
  | Register_returned status
  | Start_returned status
  | Stop_returned status

record 'w runtime =
  ru_shared :: runtime_shared
  ru_reactor :: "'w reactor"
  ru_pc :: reactor_pc
  ru_clients :: "client list"

subsection \<open>Registering\<close>

text \<open>The sources are checked against each other and against those of other pipelines.\<close>

fun check_sources :: "nat oset \<Rightarrow> nat oset \<Rightarrow> nat option list \<Rightarrow> (nat oset) result" where
  "check_sources registered local_sources [] = Inr local_sources"
| "check_sources registered local_sources (s # ss) =
     (case s of
        None \<Rightarrow> err (status_of kInvalidArgument)
      | Some x \<Rightarrow>
          if x \<in> set local_sources \<or> x \<in> set registered then err (status_of kAlreadyExists)
          else check_sources registered (oset_insert x local_sources) ss)"

text \<open>\<open>alloc\<close>: the copies may run out of memory, which leaves everything as it is.\<close>

definition register_pipeline ::
  "exn option \<Rightarrow> nat option \<Rightarrow> nat option list \<Rightarrow> 'w runtime \<Rightarrow> status \<times> 'w runtime" where
  "register_pipeline alloc pipeline wait_sources u =
     (let sh = ru_shared u
      in if rs_state sh \<noteq> R_kCreated then (status_of kInvalidState, u)
         else case pipeline of
           None \<Rightarrow> (status_of kInvalidArgument, u)
         | Some p \<Rightarrow>
             if wait_sources = [] then (status_of kInvalidArgument, u)
             else if p \<in> set (rs_registered_pipelines sh) then (status_of kAlreadyExists, u)
             else (case check_sources (rs_registered_sources sh) [] wait_sources of
               Inl s \<Rightarrow> (s, u)
             | Inr local_sources \<Rightarrow>
                 (case alloc of
                    Some e \<Rightarrow> (handled e, u)
                  | None \<Rightarrow>
                      (ok_status,
                       u\<lparr>ru_shared := sh\<lparr>rs_registered_pipelines := oset_insert p (rs_registered_pipelines sh),
                           rs_registered_sources := fold oset_insert local_sources (rs_registered_sources sh)\<rparr>,
                         ru_reactor := (ru_reactor u)\<lparr>ra_records := ra_records (ru_reactor u) @
                           [\<lparr>rr_pipeline = p, rr_sources = map the wait_sources\<rparr>]\<rparr>\<rparr>))))"

subsection \<open>start\<close>

text \<open>The critical section up to the wait, with what the creation of the thread throws.\<close>

definition start_refused :: "exn \<Rightarrow> runtime_shared \<Rightarrow> runtime_shared" where
  "start_refused e sh =
     sh\<lparr>rs_last_failure := handled e, rs_stop_result := handled e, rs_startup_result := handled e,
        rs_startup_completed := True, rs_state := R_kError, rs_thread_exited := True\<rparr>"

definition start_enter :: "exn option \<Rightarrow> 'w runtime \<Rightarrow> client \<times> 'w runtime" where
  "start_enter thread u =
     (let sh = ru_shared u
      in if rs_state sh = R_kRunning then (Start_returned ok_status, u)
         else if rs_state sh \<noteq> R_kCreated then (Start_returned (status_of kInvalidState), u)
         else if ra_records (ru_reactor u) = [] then (Start_returned (status_of kInvalidState), u)
         else let sh = sh\<lparr>rs_state := R_kStarting, rs_thread_exited := False, rs_stop_requested := False,
                 rs_reactor_exiting := False, rs_wake_in_flight := 0, rs_join_claimed := False,
                 rs_join_completed := False, rs_stop_result := ok_status,
                 rs_startup_result := status_of kInvalidState, rs_startup_completed := False\<rparr>
           in case thread of
                Some e \<Rightarrow> (Start_returned (handled e), u\<lparr>ru_shared := start_refused e sh\<rparr>)
              | None \<Rightarrow> (Start_waiting, u\<lparr>ru_shared := sh\<lparr>rs_joinable := True\<rparr>, ru_pc := R_starting\<rparr>))"

subsection \<open>stop\<close>

definition stop_enter :: "runtime_shared \<Rightarrow> (client \<times> runtime_shared) option" where
  "stop_enter sh =
     (if rs_state sh = R_kStarting then None
      else let sh = (if rs_state sh = R_kCreated then sh\<lparr>rs_state := R_kStopped, rs_stop_result := ok_status\<rparr> else sh)
        in if rs_state sh = R_kStopped then Some (Join_called After_stop, sh)
           else if rs_state sh = R_kError \<and> rs_thread_exited sh
           then Some (Join_called (After_stop_with (rs_stop_result sh)), sh)
           else if rs_reactor_exiting sh then Some (Join_called After_stop, sh)
           else Some (Stop_waking, sh\<lparr>rs_stop_requested := True, rs_state := R_kStopping,
                        rs_wake_in_flight := rs_wake_in_flight sh + 1\<rparr>))"

definition stop_woke :: "status \<Rightarrow> runtime_shared \<Rightarrow> client \<times> runtime_shared" where
  "stop_woke wake_status sh =
     (Join_called After_stop,
      sh\<lparr>rs_wake_in_flight := rs_wake_in_flight sh - 1,
         rs_stop_result := if \<not> st_ok wake_status \<and> st_ok (rs_stop_result sh) then wake_status
                           else rs_stop_result sh\<rparr>)"

subsection \<open>join_reactor\<close>

text \<open>The thread that claims the join waits for the reactor thread, the others for the claim to end.\<close>

definition join_enter :: "after_join \<Rightarrow> runtime_shared \<Rightarrow> (client \<times> runtime_shared) option" where
  "join_enter a sh =
     (if rs_join_completed sh then Some (Join_done a, sh)
      else if rs_join_claimed sh then None
      else if \<not> rs_joinable sh then Some (Join_done a, sh\<lparr>rs_join_completed := True\<rparr>)
      else Some (Join_owner a, sh\<lparr>rs_join_claimed := True\<rparr>))"

fun join_return :: "after_join \<Rightarrow> runtime_shared \<Rightarrow> client" where
  "join_return (After_start s) sh = Start_returned s"
| "join_return (After_stop_with s) sh = Stop_returned s"
| "join_return After_stop sh = Stop_returned (rs_stop_result sh)"

subsection \<open>A step of a client\<close>

definition with_shared :: "'w runtime \<Rightarrow> client \<times> runtime_shared \<Rightarrow> client \<times> 'w runtime" where
  "with_shared u x = (case x of (c, sh) \<Rightarrow> (c, u\<lparr>ru_shared := sh\<rparr>))"

fun client_step :: "'w runtime_env \<Rightarrow> client \<Rightarrow> 'w runtime \<Rightarrow> (client \<times> 'w runtime) option" where
  "client_step env (Register_called alloc pipeline wait_sources) u =
     (case register_pipeline alloc pipeline wait_sources u of (s, u) \<Rightarrow> Some (Register_returned s, u))"
| "client_step env (Start_called thread) u = Some (start_enter thread u)"
| "client_step env Start_waiting u =
     (if rs_startup_completed (ru_shared u) then Some (Start_released, u) else None)"
| "client_step env Start_released u =
     (let result = rs_startup_result (ru_shared u)
      in Some (if st_ok result then Start_returned result else Join_called (After_start result), u))"
| "client_step env Stop_called u = map_option (with_shared u) (stop_enter (ru_shared u))"
| "client_step env Stop_waking u =
     (case on_loop (loop_wake (re_loop env)) (ru_reactor u) of (s, r) \<Rightarrow> Some (Stop_woken s, u\<lparr>ru_reactor := r\<rparr>))"
| "client_step env (Stop_woken s) u = Some (with_shared u (stop_woke s (ru_shared u)))"
| "client_step env (Join_called a) u = map_option (with_shared u) (join_enter a (ru_shared u))"
| "client_step env (Join_owner a) u =
     (if ru_pc u = R_ended then Some (Join_ended a, u\<lparr>ru_shared := (ru_shared u)\<lparr>rs_joinable := False\<rparr>\<rparr>) else None)"
| "client_step env (Join_ended a) u =
     Some (Join_done a, u\<lparr>ru_shared := (ru_shared u)\<lparr>rs_join_claimed := False, rs_join_completed := True\<rparr>\<rparr>)"
| "client_step env (Join_done a) u = Some (join_return a (ru_shared u), u)"
| "client_step env (Register_returned s) u = None"
| "client_step env (Start_returned s) u = None"
| "client_step env (Stop_returned s) u = None"

subsection \<open>A step of the reactor\<close>

definition finish :: "failures \<Rightarrow> runtime_shared \<Rightarrow> runtime_shared" where
  "finish fl sh =
     (let final_failure = (if st_ok (fl_media fl) \<and> \<not> st_ok (rs_stop_result sh) then rs_stop_result sh
                           else selected_failure fl);
          sh = sh\<lparr>rs_thread_exited := True, rs_stop_result := final_failure\<rparr>;
          sh = (if \<not> rs_startup_completed sh
                then sh\<lparr>rs_startup_result := if st_ok final_failure then status_of kInternal else final_failure,
                        rs_startup_completed := True\<rparr>
                else sh)
      in if st_ok final_failure then sh\<lparr>rs_state := R_kStopped\<rparr>
         else sh\<lparr>rs_last_failure := final_failure, rs_state := R_kError\<rparr>)"

definition publish_running :: "runtime_shared \<Rightarrow> runtime_shared" where
  "publish_running sh = sh\<lparr>rs_state := R_kRunning, rs_startup_result := ok_status, rs_startup_completed := True\<rparr>"

definition leaves :: "failures \<Rightarrow> runtime_shared \<Rightarrow> leave_plan" where
  "leaves fl sh = (if all_ok fl \<and> rs_stop_requested sh then Plan_drain fl else Plan_cancel fl)"

fun reactor_step :: "'w runtime_env \<Rightarrow> reactor_pc \<Rightarrow> 'w runtime \<Rightarrow> 'w runtime option" where
  "reactor_step env R_absent u = None"
| "reactor_step env R_starting u =
     (case reactor_startup env (ru_reactor u) of
        (Throw e, r) \<Rightarrow> Some (u\<lparr>ru_reactor := r, ru_pc := R_marking (Plan_handle e)\<rparr>)
      | (Ret None, r) \<Rightarrow> Some (u\<lparr>ru_reactor := r, ru_pc := R_publishing\<rparr>)
      | (Ret (Some fl), r) \<Rightarrow> Some (u\<lparr>ru_reactor := r, ru_pc := R_finishing fl\<rparr>))"
| "reactor_step env R_publishing u =
     Some (u\<lparr>ru_shared := publish_running (ru_shared u), ru_pc := R_waiting no_failures\<rparr>)"
| "reactor_step env (R_waiting fl) u =
     (if \<not> all_ok fl then Some (u\<lparr>ru_pc := R_checking fl\<rparr>)
      else case reactor_wait env fl (ru_reactor u) of
        (None, fl, r) \<Rightarrow> Some (u\<lparr>ru_reactor := r, ru_pc := R_checking fl\<rparr>)
      | (Some ready, fl, r) \<Rightarrow> Some (u\<lparr>ru_reactor := r, ru_pc := R_turning fl ready\<rparr>))"
| "reactor_step env (R_turning fl ready) u =
     Some (u\<lparr>ru_pc := if rs_stop_requested (ru_shared u) then R_checking fl else R_ticking fl ready\<rparr>)"
| "reactor_step env (R_ticking fl ready) u =
     (case tick_pipelines env ready fl (ru_reactor u) of
        (Throw e, r) \<Rightarrow> Some (u\<lparr>ru_reactor := r, ru_pc := R_marking (Plan_handle e)\<rparr>)
      | (Ret fl, r) \<Rightarrow> Some (u\<lparr>ru_reactor := r, ru_pc := R_waiting fl\<rparr>))"
| "reactor_step env (R_checking fl) u = Some (u\<lparr>ru_pc := R_marking (leaves fl (ru_shared u))\<rparr>)"
| "reactor_step env (R_marking plan) u =
     Some (u\<lparr>ru_shared := (ru_shared u)\<lparr>rs_reactor_exiting := True\<rparr>, ru_pc := R_marked plan\<rparr>)"
| "reactor_step env (R_marked plan) u =
     (if rs_wake_in_flight (ru_shared u) > 0 then None else Some (u\<lparr>ru_pc := R_leaving plan\<rparr>))"
| "reactor_step env (R_leaving plan) u =
     (case reactor_leave env plan (ru_reactor u) of
        None \<Rightarrow> None
      | Some (Throw e, r) \<Rightarrow> Some (u\<lparr>ru_reactor := r, ru_pc := R_marking (Plan_handle e)\<rparr>)
      | Some (Ret fl, r) \<Rightarrow> Some (u\<lparr>ru_reactor := r, ru_pc := R_finishing fl\<rparr>))"
| "reactor_step env (R_finishing fl) u = Some (u\<lparr>ru_shared := finish fl (ru_shared u), ru_pc := R_ended\<rparr>)"
| "reactor_step env R_ended u = None"

subsection \<open>The runtime\<close>

definition runtime_new :: "'w event_loop \<Rightarrow> (nat \<Rightarrow> 'w pipeline) \<Rightarrow> 'w runtime" where
  "runtime_new loop objects =
     \<lparr>ru_shared = shared_new, ru_reactor = \<lparr>ra_loop = loop, ra_records = [], ra_objects = objects\<rparr>,
      ru_pc = R_absent, ru_clients = []\<rparr>"

text \<open>\<open>state\<close> and \<open>last_failure\<close>.\<close>

definition runtime_state_now :: "'w runtime \<Rightarrow> runtime_state" where
  "runtime_state_now u = rs_state (ru_shared u)"

definition runtime_last_failure :: "'w runtime \<Rightarrow> status" where
  "runtime_last_failure u = rs_last_failure (ru_shared u)"

text \<open>What another thread may call.\<close>

fun is_call :: "client \<Rightarrow> bool" where
  "is_call (Register_called alloc pipeline wait_sources) = True"
| "is_call (Start_called thread) = True"
| "is_call Stop_called = True"
| "is_call c = False"

inductive runtime_step :: "'w runtime_env \<Rightarrow> 'w runtime \<Rightarrow> 'w runtime \<Rightarrow> bool" for env where
  step_call: "is_call c \<Longrightarrow> runtime_step env u (u\<lparr>ru_clients := ru_clients u @ [c]\<rparr>)"
| step_client: "i < length (ru_clients u) \<Longrightarrow> client_step env (ru_clients u ! i) u = Some (c, v) \<Longrightarrow>
     runtime_step env u (v\<lparr>ru_clients := (ru_clients u)[i := c]\<rparr>)"
| step_reactor: "reactor_step env (ru_pc u) u = Some v \<Longrightarrow> runtime_step env u v"

inductive runtime_reachable :: "'w runtime_env \<Rightarrow> 'w runtime \<Rightarrow> 'w runtime \<Rightarrow> bool" for env u where
  reachable_here [intro, simp]: "runtime_reachable env u u"
| reachable_step: "runtime_reachable env u v \<Longrightarrow> runtime_step env v v' \<Longrightarrow> runtime_reachable env u v'"

end
