(* ===== verification/Runtime_Reactor.thy ===== *)
theory Runtime_Reactor
  imports Runtime_Threads Pipeline_Liveness
begin

text \<open>
  What the reactor does between two critical sections: it keeps the invariant of every pipeline and the
  descriptors of the loop, and however it ends no pipeline is left running or draining.
\<close>

declare split_paired_Ex [simp del]

subsection \<open>The descriptors of the loop\<close>

definition same_fds :: "'w event_loop \<Rightarrow> 'w event_loop \<Rightarrow> bool" where
  "same_fds l l' \<longleftrightarrow> el_event_fd l' = el_event_fd l \<and> el_epoll_fd l' = el_epoll_fd l"

lemma same_fds_simps [simp]:
  "same_fds l l" "same_fds l (l'\<lparr>el_world := w\<rparr>) = same_fds l l'" "same_fds l (l'\<lparr>el_origin := x\<rparr>) = same_fds l l'"
  "same_fds l (l'\<lparr>el_sources := y\<rparr>) = same_fds l l'" "same_fds (l\<lparr>el_origin := x\<rparr>) l' = same_fds l l'"
  "same_fds (l\<lparr>el_sources := y\<rparr>) l' = same_fds l l'" "same_fds (l\<lparr>el_world := w\<rparr>) l' = same_fds l l'"
  by (simp_all add: same_fds_def)

lemma same_fds_trans: "same_fds l l' \<Longrightarrow> same_fds l' l'' \<Longrightarrow> same_fds l l''"
  by (simp add: same_fds_def)

lemma loop_call_fds: "loop_call env c l = (r, l') \<Longrightarrow> \<exists>w. l' = l\<lparr>el_world := w\<rparr>"
  by (auto simp: loop_call_def split: prod.splits)

lemma wait_events_fds: "same_fds l (snd (wait_events env capacity interrupted l))"
proof (induction env capacity interrupted l rule: wait_events.induct)
  case (1 env capacity interrupted l)
  obtain r l1 where c: "loop_call env (Epoll_wait (el_epoll_fd l) capacity kInfiniteTimeoutMs) l = (r, l1)"
    by (meson surj_pair)
  then have k: "same_fds l l1" using loop_call_fds [OF c] by auto
  show ?case
  proof (cases r)
    case (Throw x)
    then show ?thesis using k by (simp add: wait_events.simps [of _ _ _ l] c wait_failed_def)
  next
    case (Ret q)
    have "same_fds l (snd (wait_events env capacity (Suc interrupted) l1))"
      if "rt_result q < 0" "rt_error q = eINTR" "Suc interrupted < kMaxConsecutiveInterruptions"
      using same_fds_trans [OF k "1.IH" [OF c [symmetric] Ret]] that by simp
    then show ?thesis using k by (simp add: wait_events.simps [of _ _ _ l] c Ret wait_failed_def)
  qed
qed

lemma dispatch_events_fds: "same_fds l (snd (dispatch_events env es control ready l))"
proof (induction env es control ready l rule: dispatch_events.induct)
  case (2 env e es control ready l)
  show ?case
  proof (cases "ee_token e = kControlToken")
    case True
    obtain r l1 where c: "loop_call env (Read_event_fd (el_event_fd l)) l = (r, l1)" by (meson surj_pair)
    have k: "same_fds l l1" using loop_call_fds [OF c] by auto
    show ?thesis
      using same_fds_trans [OF k "2.IH"(2) [OF True _ c [symmetric]]] k "2.IH"(1) [OF True] True
      by (cases r) (auto simp: c wait_failed_def)
  next
    case False
    show ?thesis
    proof (cases "omap_find (el_tokens l) (ee_token e)")
      case None
      then show ?thesis using "2.IH"(3) False by simp
    next
      case (Some ij)
      obtain i j where "ij = (i, j)" by (meson surj_pair)
      then show ?thesis using "2.IH"(4) [OF False Some] False Some by simp
    qed
  qed
qed simp

lemma evaluate_sources_fds: "same_fds l (snd (evaluate_sources env ks pipelines l))"
proof (induction ks arbitrary: pipelines l)
  case (Cons i ks)
  obtain r w where c: "le_evaluate env (sr_source (el_sources l ! i)) (sr_descriptors (el_sources l ! i)) (el_world l) = (r, w)"
    by (meson surj_pair)
  show ?case
    using Cons.IH [of "l\<lparr>el_world := w\<rparr>"] by (auto simp: c Let_def wait_failed_def split: outcome.split sum.split)
qed simp

lemma wait_once_fds: "same_fds l (snd (loop_wait_once alloc env l))"
proof (cases "el_epoll_fd l < 0 \<or> el_event_fd l < 0 \<or> alloc \<noteq> None")
  case True
  then show ?thesis by (cases alloc) (auto simp: loop_wait_once_def wait_failed_def Let_def)
next
  case False
  define capacity where "capacity = length (el_registered_fds l) + 1"
  obtain x l1 where w: "wait_events env (int capacity) 0 (l\<lparr>el_origin := Origin_none\<rparr>) = (x, l1)" by (meson surj_pair)
  have k1: "same_fds l l1" using wait_events_fds [of "l\<lparr>el_origin := Origin_none\<rparr>" env "int capacity" 0] w by simp
  have e: "loop_wait_once alloc env l =
      (case x of Inl s \<Rightarrow> (Inl s, l1) | Inr (r, interrupted) \<Rightarrow>
        (case dispatch_events env (ready_events (rt_result r) capacity (rt_events r)) False []
            (l1\<lparr>el_sources := clear_sources (el_sources l1)\<rparr>) of
           (Inl s, l) \<Rightarrow> (Inl s, l)
         | (Inr (control, ready), l) \<Rightarrow>
             (case evaluate_sources env ready [] l of
                (Inl s, l) \<Rightarrow> (Inl s, l)
              | (Inr pipelines, l) \<Rightarrow>
                  (Inr \<lparr>lt_ready_pipelines = pipelines, lt_wakeup_count = 1,
                        lt_interrupted_count = interrupted, lt_control_wakeup = control\<rparr>, l))))"
    using False w by (auto simp: loop_wait_once_def capacity_def Let_def split: sum.split prod.split)
  show ?thesis
  proof (cases x)
    case (Inl s)
    then show ?thesis using k1 by (simp add: e)
  next
    case (Inr ri)
    obtain r i where ri: "ri = (r, i)" by (meson surj_pair)
    obtain y l3 where d: "dispatch_events env (ready_events (rt_result r) capacity (rt_events r)) False []
        (l1\<lparr>el_sources := clear_sources (el_sources l1)\<rparr>) = (y, l3)" by (meson surj_pair)
    have "same_fds (l1\<lparr>el_sources := clear_sources (el_sources l1)\<rparr>) l3"
      using dispatch_events_fds [of "l1\<lparr>el_sources := clear_sources (el_sources l1)\<rparr>" env
          "ready_events (rt_result r) capacity (rt_events r)" False "[]"] d by simp
    then have k3: "same_fds l l3" using k1 same_fds_trans by simp
    show ?thesis
    proof (cases y)
      case (Inl s)
      then show ?thesis using k3 by (simp add: e Inr ri d)
    next
      case i: (Inr cr)
      obtain control ready where cr: "cr = (control, ready)" by (meson surj_pair)
      have "snd (loop_wait_once alloc env l) = snd (evaluate_sources env ready [] l3)"
        by (simp add: e Inr ri d i cr split: prod.split sum.split)
      then show ?thesis using same_fds_trans [OF k3 evaluate_sources_fds] by simp
    qed
  qed
qed

lemma wait_once_fails: "loop_wait_once alloc env l = (Inl s, l') \<Longrightarrow> \<not> st_ok s"
proof -
  have a: "fst (wait_events env capacity interrupted l) = Inl s \<Longrightarrow> \<not> st_ok s" for env capacity interrupted and l :: "'b event_loop"
  proof (induction env capacity interrupted l rule: wait_events.induct)
    case (1 env capacity interrupted l)
    obtain r l1 where c: "loop_call env (Epoll_wait (el_epoll_fd l) capacity kInfiniteTimeoutMs) l = (r, l1)"
      by (meson surj_pair)
    show ?case
      using "1.prems" "1.IH" [OF c [symmetric]]
      by (cases r) (auto simp: wait_events.simps [of _ _ _ l] c wait_failed_def err_def split: if_split_asm)
  qed
  have b: "fst (dispatch_events env es control ready l) = Inl s \<Longrightarrow> \<not> st_ok s" for env es control ready and l :: "'b event_loop"
  proof (induction env es control ready l rule: dispatch_events.induct)
    case (2 env e es control ready l)
    then show ?case
      by (auto simp: wait_failed_def err_def split: if_split_asm prod.split_asm outcome.split_asm option.split_asm)
  qed simp
  have c: "fst (evaluate_sources env ks pipelines l) = Inl s \<Longrightarrow> \<not> st_ok s" for env ks pipelines and l :: "'b event_loop"
    by (induction ks arbitrary: pipelines l)
       (auto simp: Let_def wait_failed_def err_def split: if_split_asm prod.split_asm outcome.split_asm sum.split_asm)
  assume h: "loop_wait_once alloc env l = (Inl s, l')"
  show ?thesis
  proof (cases "el_epoll_fd l < 0 \<or> el_event_fd l < 0 \<or> alloc \<noteq> None")
    case True
    then show ?thesis using h by (cases alloc) (auto simp: loop_wait_once_def wait_failed_def err_def Let_def split: if_split_asm)
  next
    case False
    define capacity where "capacity = length (el_registered_fds l) + 1"
    obtain x l1 where w: "wait_events env (int capacity) 0 (l\<lparr>el_origin := Origin_none\<rparr>) = (x, l1)" by (meson surj_pair)
    show ?thesis
    proof (cases x)
      case (Inl t)
      then have "s = t" using h False w by (simp add: loop_wait_once_def capacity_def Let_def)
      then show ?thesis using a [of env "int capacity" 0 "l\<lparr>el_origin := Origin_none\<rparr>"] w Inl by simp
    next
      case (Inr ri)
      obtain r i where ri: "ri = (r, i)" by (meson surj_pair)
      obtain y l3 where d: "dispatch_events env (ready_events (rt_result r) capacity (rt_events r)) False []
          (l1\<lparr>el_sources := clear_sources (el_sources l1)\<rparr>) = (y, l3)" by (meson surj_pair)
      show ?thesis
      proof (cases y)
        case (Inl t)
        then have "s = t" using h False w d by (simp add: loop_wait_once_def capacity_def Let_def Inr ri)
        then show ?thesis using b d Inl by (metis fst_conv)
      next
        case i: (Inr cr)
        obtain control ready where cr: "cr = (control, ready)" by (meson surj_pair)
        have "fst (evaluate_sources env ready [] l3) = Inl s"
          using h False w d by (auto simp: loop_wait_once_def capacity_def Let_def Inr ri i cr split: prod.split_asm sum.split_asm)
        then show ?thesis by (rule c)
      qed
    qed
  qed
qed

lemma wake_fds: "loop_wake env l = (s, l') \<Longrightarrow> \<exists>w. l' = l\<lparr>el_world := w\<rparr>"
proof -
  assume a: "loop_wake env l = (s, l')"
  obtain r l1 where c: "loop_call env (Write_event_fd (el_event_fd l) 1) l = (r, l1)" by (meson surj_pair)
  obtain w where "l1 = l\<lparr>el_world := w\<rparr>" using loop_call_fds [OF c] by blast
  then have "l' = l \<or> l' = l\<lparr>el_world := w\<rparr>" using a by (auto simp: loop_wake_def c split: if_split_asm outcome.split_asm)
  then show ?thesis by (metis event_loop.surjective event_loop.update_convs(11))
qed

lemma initialize_fds:
  assumes "loop_initialize env l = (s, l')" "st_ok s"
  shows "0 \<le> el_event_fd l'"
proof (cases "el_epoll_fd l \<ge> 0 \<and> el_event_fd l \<ge> 0")
  case True
  then show ?thesis using assms by (auto simp: loop_initialize_def split: if_split_asm)
next
  case False
  then show ?thesis
    using assms
    by (auto simp: loop_initialize_def initialize_event_fd_def initialize_add_def
        split: if_split_asm prod.split_asm outcome.split_asm)
qed

lemma add_descriptors_fds:
  "add_descriptors env record added ds l = (s, l') \<Longrightarrow> st_ok s \<Longrightarrow> el_event_fd l' = el_event_fd l"
proof (induction ds arbitrary: added l)
  case Nil
  then show ?case by (auto simp: staged_def)
next
  case (Cons dt ds)
  obtain d t where dt: "dt = (d, t)" by (meson surj_pair)
  obtain r l1 where c: "loop_call env (Epoll_add (el_epoll_fd l) (pfd_fd d) (epoll_interests (pfd_events d)) t) l = (r, l1)"
    by (meson surj_pair)
  have "el_event_fd l1 = el_event_fd l" using loop_call_fds [OF c] by auto
  then show ?case using Cons.IH [of "added @ [pfd_fd d]" l1] Cons.prems by (cases r) (auto simp: dt c split: if_split_asm)
qed

lemma register_fds:
  assumes "loop_register alloc env p q l = (s, l')" "st_ok s"
  shows "el_event_fd l' = el_event_fd l"
proof -
  have "el_event_fd l' = el_event_fd l1"
    if "register_descriptors alloc env a b ds l1 = (s, l')" for a b ds l1
    using that assms(2) by (auto simp: register_descriptors_def Let_def dest: add_descriptors_fds split: if_split_asm option.split_asm)
  then show ?thesis
    using assms
    by (fastforce simp: loop_register_def split: if_split_asm option.split_asm prod.split_asm outcome.split_asm sum.split_asm)
qed

lemma close_fds: "loop_close env l = (s, l') \<Longrightarrow> el_event_fd l' < 0"
proof -
  have a: "el_event_fd l'' = el_event_fd k" if "close_first env fd m op f k = (x, l'')" for fd m op f k x l''
    using that by (auto simp: close_first_def dest!: loop_call_fds split: if_split_asm prod.split_asm outcome.split_asm)
  assume "loop_close env l = (s, l')"
  then show ?thesis
    by (auto simp: loop_close_def dest!: a split: prod.split_asm outcome.split_asm)
qed

subsection \<open>The pipelines\<close>

definition idle :: "'w pipeline \<Rightarrow> bool" where
  "idle p \<longleftrightarrow> p_state p \<noteq> P_Running \<and> p_state p \<noteq> P_Draining"

definition halted :: "'w pipeline \<Rightarrow> bool" where
  "halted p \<longleftrightarrow> p_state p = P_Stopped \<or> p_state p = P_Error"

lemma halted_idle: "halted p \<Longrightarrow> idle p"
  by (auto simp: halted_def idle_def)

lemma cancel_halts: "pipeline_cancel p w = (s, p', w') \<Longrightarrow> halted p'"
  by (auto simp: pipeline_cancel_def halted_def split: if_split_asm prod.split_asm)

text \<open>The pipelines that are registered, and the others, which the runtime leaves alone.\<close>

definition known :: "pipeline_record list \<Rightarrow> nat set" where
  "known rs = rr_pipeline ` set rs"

definition rinv :: "'w reactor \<Rightarrow> bool" where
  "rinv r \<longleftrightarrow> (\<forall>i. pipeline_inv (ra_objects r i)) \<and> (\<forall>i. i \<notin> known (ra_records r) \<longrightarrow> idle (ra_objects r i))"

definition event_fd :: "'w reactor \<Rightarrow> int" where
  "event_fd r = el_event_fd (ra_loop r)"

text \<open>The functions of the nodes of each pipeline.\<close>

definition hooks_of :: "'w reactor \<Rightarrow> nat \<Rightarrow> 'w hooks list" where
  "hooks_of r i = map n_hooks (p_nodes (ra_objects r i))"

text \<open>Calls that touch no pipeline, and calls that touch some but keep the loop.\<close>

definition outside :: "'w reactor \<Rightarrow> 'w reactor \<Rightarrow> bool" where
  "outside r r' \<longleftrightarrow> ra_records r' = ra_records r \<and> ra_objects r' = ra_objects r \<and> event_fd r' = event_fd r"

definition inside :: "'w reactor \<Rightarrow> 'w reactor \<Rightarrow> bool" where
  "inside r r' \<longleftrightarrow> ra_records r' = ra_records r \<and> event_fd r' = event_fd r \<and> (rinv r \<longrightarrow> rinv r' \<and> hooks_of r' = hooks_of r)"

lemma outside_inside: "outside r r' \<Longrightarrow> inside r r'"
  by (simp add: outside_def inside_def rinv_def known_def hooks_of_def fun_eq_iff)

lemma outside_refl [simp]: "outside r r" and inside_refl [simp]: "inside r r"
  by (simp_all add: outside_def inside_def)

lemma outside_trans: "outside r r' \<Longrightarrow> outside r' r'' \<Longrightarrow> outside r r''"
  by (simp add: outside_def)

lemma inside_trans: "inside r r' \<Longrightarrow> inside r' r'' \<Longrightarrow> inside r r''"
  by (simp add: inside_def)

lemma on_world_outside: "on_world f r = (x, r') \<Longrightarrow> outside r r'"
  by (auto simp: on_world_def on_loop_def outside_def event_fd_def split: prod.splits)

lemma runtime_observe_outside: "runtime_observe f r = (s, r') \<Longrightarrow> outside r r'"
  by (auto simp: runtime_observe_def dest: on_world_outside split: prod.splits outcome.splits)

lemma observed_post:
  assumes "observed f (fl, r) = (fl', r')"
  shows "outside r r'" "fl_media fl' = fl_media fl" "fl_reactor fl' = fl_reactor fl"
    "\<not> st_ok (fl_observer fl) \<Longrightarrow> \<not> st_ok (fl_observer fl')"
  using assms by (auto simp: observed_def observer_failed_def record_first_def dest: runtime_observe_outside split: prod.splits)

lemma on_pipeline_post:
  assumes "on_pipeline f i r = (x, r')"
  shows "\<exists>p w. f (ra_objects r i) (el_world (ra_loop r)) = (x, p, w) \<and> ra_objects r' = (ra_objects r)(i := p)
     \<and> ra_records r' = ra_records r \<and> event_fd r' = event_fd r"
  using assms by (auto simp: on_pipeline_def event_fd_def split: prod.splits)

lemma on_pipeline_inside:
  assumes "on_pipeline f i r = (x, r')"
    and "\<And>p w y q v. f p w = (y, q, v) \<Longrightarrow> pipeline_inv p \<Longrightarrow> pipeline_inv q"
    and "\<And>p w y q v. f p w = (y, q, v) \<Longrightarrow> pipeline_wf p \<Longrightarrow> runs (own p) (p_nodes p) w (p_nodes q) v"
    and "i \<in> known (ra_records r) \<or> (\<forall>p w y q v. f p w = (y, q, v) \<longrightarrow> idle p \<longrightarrow> idle q)"
  shows "inside r r'"
proof -
  obtain p w where p: "f (ra_objects r i) (el_world (ra_loop r)) = (x, p, w)" "ra_objects r' = (ra_objects r)(i := p)"
    "ra_records r' = ra_records r" "event_fd r' = event_fd r"
    using on_pipeline_post [OF assms(1)] by blast
  have "pipeline_inv (ra_objects r i) \<Longrightarrow> pipeline_inv p" using assms(2) [OF p(1)] .
  moreover have "i \<notin> known (ra_records r) \<Longrightarrow> idle (ra_objects r i) \<Longrightarrow> idle p" using assms(4) p(1) by blast
  moreover have "map n_hooks (p_nodes p) = map n_hooks (p_nodes (ra_objects r i))" if "pipeline_inv (ra_objects r i)"
    using runs_frame [OF assms(3) [OF p(1)]] that by (simp add: pipeline_inv_def)
  ultimately show ?thesis using p(2-4) by (auto simp: inside_def rinv_def known_def hooks_of_def fun_eq_iff)
qed

lemma start_inside: "on_pipeline pipeline_start i r = (x, r') \<Longrightarrow> i \<in> known (ra_records r) \<Longrightarrow> inside r r'"
  by (erule on_pipeline_inside) (auto intro: start_inv start_runs)

lemma stop_inside: "on_pipeline pipeline_stop i r = (x, r') \<Longrightarrow> i \<in> known (ra_records r) \<Longrightarrow> inside r r'"
  by (erule on_pipeline_inside) (auto intro: stop_inv stop_runs)

lemma cancel_inside: "on_pipeline pipeline_cancel i r = (x, r') \<Longrightarrow> inside r r'"
  by (erule on_pipeline_inside) (auto intro: cancel_inv cancel_runs dest: cancel_halts halted_idle)

lemma tick_inside: "on_pipeline pipeline_tick i r = (x, r') \<Longrightarrow> inside r r'"
  by (erule on_pipeline_inside) (auto intro: tick_inv tick_runs simp: pipeline_tick_def idle_def)

lemma known_nth [simp]: "index < length (ra_records r) \<Longrightarrow> rr_pipeline (ra_records r ! index) \<in> known (ra_records r)"
  by (simp add: known_def)

definition first_known :: "nat \<Rightarrow> pipeline_record list \<Rightarrow> nat set" where
  "first_known n rs = (\<lambda>j. rr_pipeline (rs ! j)) ` {..<n}"

lemma first_known_simps [simp]:
  "first_known 0 rs = {}" "first_known (Suc n) rs = insert (rr_pipeline (rs ! n)) (first_known n rs)"
  by (auto simp: first_known_def less_Suc_eq)

lemma first_known_all: "first_known (length rs) rs = known rs"
  by (force simp: first_known_def known_def in_set_conv_nth)

subsection \<open>Cancelling\<close>

definition calmed :: "nat \<Rightarrow> 'w reactor \<Rightarrow> 'w reactor \<Rightarrow> bool" where
  "calmed n r r' \<longleftrightarrow> inside r r' \<and> (\<forall>i\<in>first_known n (ra_records r). halted (ra_objects r' i))
     \<and> (\<forall>i. ra_objects r' i = ra_objects r i \<or> halted (ra_objects r' i))"

lemma calmed_outside: "calmed n r r' \<Longrightarrow> outside r' r'' \<Longrightarrow> calmed n r r''"
  using outside_inside [of r' r''] inside_trans [of r r' r''] by (auto simp: calmed_def outside_def)

lemma cancel_prefix_post:
  "cancel_prefix n m r = (m', r') \<Longrightarrow> calmed n r r' \<and> (\<not> st_ok m \<longrightarrow> \<not> st_ok m')"
proof (induction n arbitrary: m r)
  case 0
  then show ?case by (simp add: calmed_def)
next
  case (Suc n)
  obtain s r1 where c: "on_pipeline pipeline_cancel (rr_pipeline (ra_records r ! n)) r = (s, r1)" by (meson surj_pair)
  obtain p w where p: "pipeline_cancel (ra_objects r (rr_pipeline (ra_records r ! n))) (el_world (ra_loop r)) = (s, p, w)"
    "ra_objects r1 = (ra_objects r)(rr_pipeline (ra_records r ! n) := p)" "ra_records r1 = ra_records r"
    using on_pipeline_post [OF c] by blast
  have rest: "calmed n r1 r'" "\<not> st_ok (record_first s m) \<longrightarrow> \<not> st_ok m'"
    using Suc.IH [of "record_first s m" r1] Suc.prems by (simp_all add: c)
  have "inside r r'" using inside_trans [OF cancel_inside [OF c]] rest(1) by (simp add: calmed_def)
  moreover have same: "\<forall>i. ra_objects r' i = ra_objects r1 i \<or> halted (ra_objects r' i)" using rest(1) by (simp add: calmed_def)
  then have "\<forall>i. ra_objects r' i = ra_objects r i \<or> halted (ra_objects r' i)"
    using cancel_halts [OF p(1)] p(2) by (metis fun_upd_apply)
  moreover have "halted (ra_objects r' (rr_pipeline (ra_records r ! n)))"
    using same cancel_halts [OF p(1)] p(2) by (metis fun_upd_same)
  moreover have "\<forall>i\<in>first_known n (ra_records r). halted (ra_objects r' i)" using rest(1) p(3) by (simp add: calmed_def)
  ultimately show ?case using rest(2) by (simp add: calmed_def record_first_def)
qed

text \<open>Everything that is registered has been cancelled.\<close>

definition all_halted :: "'w reactor \<Rightarrow> bool" where
  "all_halted r \<longleftrightarrow> (\<forall>i\<in>known (ra_records r). halted (ra_objects r i))"

lemma calmed_all: "calmed (length (ra_records r)) r r' \<Longrightarrow> all_halted r'"
  by (auto simp: calmed_def all_halted_def inside_def first_known_all)

lemma cancelled_post:
  assumes "cancelled (fl, r) = (fl', r')"
  shows "inside r r'" "all_halted r'" "\<not> all_ok fl \<Longrightarrow> \<not> all_ok fl'"
proof -
  obtain m r1 where c: "cancel_prefix (length (ra_records r)) (fl_media fl) r = (m, r1)" by (meson surj_pair)
  have e: "fl' = fl\<lparr>fl_media := m\<rparr>" "r' = r1" using assms c by (simp_all add: cancelled_def cancel_all_def)
  show "inside r r'" "all_halted r'" "\<not> all_ok fl \<Longrightarrow> \<not> all_ok fl'"
    using cancel_prefix_post [OF c] calmed_all [of r r1] e by (auto simp: calmed_def all_ok_def)
qed

lemma close_loop_post:
  assumes "close_loop env (fl, r) = (fl', r')"
  shows "ra_records r' = ra_records r" "ra_objects r' = ra_objects r" "event_fd r' < 0"
    "fl_media fl' = fl_media fl" "fl_observer fl' = fl_observer fl" "\<not> st_ok (fl_reactor fl) \<Longrightarrow> \<not> st_ok (fl_reactor fl')"
  using assms
  by (auto simp: close_loop_def on_loop_def event_fd_def reactor_failed_def record_first_def dest: close_fds split: prod.splits)

text \<open>The end of every way out: \<open>loop_closed r r'\<close>.\<close>

definition loop_closed :: "'w reactor \<Rightarrow> 'w reactor \<Rightarrow> bool" where
  "loop_closed r r' \<longleftrightarrow> ra_records r' = ra_records r \<and> ra_objects r' = ra_objects r \<and> event_fd r' < 0"

lemma leave_end_post:
  assumes "leave_end env (fl, r) = (fl', r')"
  shows "loop_closed r r'" "all_ok fl' \<Longrightarrow> all_ok fl"
proof -
  obtain fl1 r1 where c: "close_loop env (fl, r) = (fl1, r1)" by (meson surj_pair)
  have o: "observed (re_on_running env False) (fl1, r1) = (fl', r')" using assms by (simp add: leave_end_def c)
  note a = close_loop_post [OF c] and b = observed_post [OF o]
  show "loop_closed r r'" using a(1-3) b(1) by (simp add: loop_closed_def outside_def)
  show "all_ok fl' \<Longrightarrow> all_ok fl" using a(4-6) b(2-4) by (auto simp: all_ok_def)
qed

lemma loop_closed_rinv: "loop_closed r r' \<Longrightarrow> rinv r' = rinv r" "loop_closed r r' \<Longrightarrow> all_halted r' = all_halted r"
  by (simp_all add: loop_closed_def rinv_def known_def all_halted_def)

subsection \<open>Starting\<close>

definition all_idle :: "'w reactor \<Rightarrow> bool" where
  "all_idle r \<longleftrightarrow> (\<forall>i. idle (ra_objects r i))"

lemma halted_all_idle: "rinv r \<Longrightarrow> all_halted r \<Longrightarrow> all_idle r"
  using halted_idle by (auto simp: rinv_def all_halted_def all_idle_def)

text \<open>What a part of the start leaves: failures with everything at rest and the loop closed, or nothing
  that the invariant does not allow.\<close>

definition started :: "'w reactor \<Rightarrow> 'w startup \<Rightarrow> bool" where
  "started r x \<longleftrightarrow> ra_records (snd x) = ra_records r \<and> rinv (snd x) \<and> hooks_of (snd x) = hooks_of r
     \<and> (case fst x of Ret (Some fl) \<Rightarrow> \<not> all_ok fl \<and> all_idle (snd x) \<and> event_fd (snd x) < 0 | _ \<Rightarrow> True)"

lemma fail_startup_post:
  assumes "fail_startup env fl n b r = (fl', r')" "rinv r" "\<not> all_ok fl"
    and "\<forall>i. i \<notin> first_known n (ra_records r) \<longrightarrow> idle (ra_objects r i)"
  shows "started r0 (startup_failed (fl', r')) \<longleftrightarrow> ra_records r = ra_records r0 \<and> hooks_of r = hooks_of r0"
proof -
  obtain m r1 where c: "cancel_prefix n (fl_media fl) r = (m, r1)" by (meson surj_pair)
  obtain fl2 r2 where d: "close_loop env (fl\<lparr>fl_media := m\<rparr>, r1) = (fl2, r2)" by (meson surj_pair)
  have k: "calmed n r r1" "\<not> st_ok (fl_media fl) \<longrightarrow> \<not> st_ok m" using cancel_prefix_post [OF c] by simp_all
  note cl = close_loop_post [OF d]
  have "\<not> all_ok fl2" using cl(4-6) k(2) assms(3) by (auto simp: all_ok_def)
  moreover have "outside r2 r' \<and> fl_media fl' = fl_media fl2 \<and> fl_reactor fl' = fl_reactor fl2
      \<and> (\<not> st_ok (fl_observer fl2) \<longrightarrow> \<not> st_ok (fl_observer fl'))"
  proof (cases b)
    case True
    then have "observed (re_on_running env False) (fl2, r2) = (fl', r')" using assms(1) by (simp add: fail_startup_def c d)
    then show ?thesis using observed_post by blast
  next
    case False
    then show ?thesis using assms(1) by (simp add: fail_startup_def c d)
  qed
  moreover have "rinv r1" "hooks_of r1 = hooks_of r" using k(1) assms(2) by (simp_all add: calmed_def inside_def)
  moreover have "idle (ra_objects r1 i)" for i
    using k(1) assms(4) halted_idle unfolding calmed_def by metis
  ultimately show ?thesis
    using cl(1-3) k(1)
    by (auto simp: started_def startup_failed_def all_idle_def outside_def rinv_def known_def all_ok_def calmed_def inside_def
        fun_eq_iff hooks_of_def)
qed

lemma start_pipelines_post:
  assumes "index + left = length (ra_records r)" "rinv r"
    and "\<forall>i. i \<notin> first_known index (ra_records r) \<longrightarrow> idle (ra_objects r i)"
  shows "started r (start_pipelines env index left r)"
  using assms
proof (induction left arbitrary: index r)
  case 0
  then show ?case by (simp add: started_def)
next
  case (Suc left)
  let ?i = "rr_pipeline (ra_records r ! index)"
  obtain x r1 where c: "on_pipeline pipeline_start ?i r = (x, r1)" by (meson surj_pair)
  have i: "?i \<in> known (ra_records r)" using Suc.prems(1) by simp
  have k: "rinv r1" "ra_records r1 = ra_records r" "hooks_of r1 = hooks_of r"
    using start_inside [OF c i] Suc.prems(2) by (simp_all add: inside_def)
  have rest: "\<forall>i. i \<notin> first_known (Suc index) (ra_records r1) \<longrightarrow> idle (ra_objects r1 i)"
    using Suc.prems(3) on_pipeline_post [OF c] by auto
  show ?case
  proof (cases x)
    case (Throw e)
    then show ?thesis using k by (simp add: c started_def)
  next
    case (Ret s)
    show ?thesis
    proof (cases "st_ok s")
      case True
      then show ?thesis using Suc.IH [of "Suc index" r1] Suc.prems(1) k rest Ret by (simp add: c started_def)
    next
      case False
      obtain fl r2 where o: "observed (re_on_failure env) (media_failed s no_failures, r1) = (fl, r2)" by (meson surj_pair)
      obtain fl' r' where f: "fail_startup env fl (Suc index) False r2 = (fl', r')" by (meson surj_pair)
      have bad: "\<not> all_ok fl"
        using observed_post(2) [OF o] False by (simp add: all_ok_def media_failed_def no_failures_def record_first_def)
      have out: "rinv r2" "ra_records r2 = ra_records r" "ra_objects r2 = ra_objects r1" "hooks_of r2 = hooks_of r"
        using observed_post(1) [OF o] k by (simp_all add: outside_def rinv_def known_def hooks_of_def fun_eq_iff)
      have "started r (startup_failed (fl', r'))"
        using fail_startup_post [OF f out(1) bad, of r] out(2-4) rest k(2) by simp
      then show ?thesis using False Ret by (simp add: c o f)
    qed
  qed
qed

lemma known_fail:
  assumes "rinv r" "ra_records r = ra_records r0" "hooks_of r = hooks_of r0" "\<not> all_ok fl"
  shows "started r0 (startup_failed (fail_startup env fl (length (ra_records r)) b r))"
proof -
  have "\<forall>i. i \<notin> first_known (length (ra_records r)) (ra_records r) \<longrightarrow> idle (ra_objects r i)"
    using assms(1) first_known_all [of "ra_records r"] by (simp add: rinv_def)
  then show ?thesis using fail_startup_post [OF surjective_pairing assms(1,4), of "length (ra_records r)" r0 env b] assms(2,3) by simp
qed

lemma started_simps [simp]:
  "started r (Ret None, r') \<longleftrightarrow> ra_records r' = ra_records r \<and> rinv r' \<and> hooks_of r' = hooks_of r"
  "started r (Throw e, r') \<longleftrightarrow> ra_records r' = ra_records r \<and> rinv r' \<and> hooks_of r' = hooks_of r"
  by (simp_all add: started_def)

lemma loop_started_post:
  assumes "rinv r"
  shows "started r (initialize_loop env r)" "fst (initialize_loop env r) = Ret None \<Longrightarrow> 0 \<le> event_fd (snd (initialize_loop env r))"
proof -
  obtain s l where c: "loop_initialize (re_loop env) (ra_loop r) = (s, l)" by (meson surj_pair)
  let ?r = "r\<lparr>ra_loop := l\<rparr>"
  have k: "rinv ?r" "hooks_of ?r = hooks_of r" using assms by (simp_all add: rinv_def hooks_of_def fun_eq_iff)
  show "started r (initialize_loop env r)"
  proof (cases "st_ok s")
    case True
    then show ?thesis using k by (simp add: initialize_loop_def on_loop_def c)
  next
    case False
    then have "\<not> all_ok (reactor_failed s no_failures)"
      by (simp add: all_ok_def reactor_failed_def no_failures_def record_first_def)
    from known_fail [OF k(1) _ k(2) this, of env False] show ?thesis using False by (simp add: initialize_loop_def on_loop_def c)
  qed
  show "fst (initialize_loop env r) = Ret None \<Longrightarrow> 0 \<le> event_fd (snd (initialize_loop env r))"
    using initialize_fds [OF c]
    by (auto simp: initialize_loop_def on_loop_def c event_fd_def startup_failed_def split: if_split_asm prod.split_asm)
qed

lemma register_sources_post:
  assumes "rinv r"
  shows "started r (register_sources env xs r)
    \<and> (fst (register_sources env xs r) = Ret None \<longrightarrow> event_fd (snd (register_sources env xs r)) = event_fd r)"
  using assms
proof (induction xs arbitrary: r)
  case Nil
  then show ?case by (simp add: started_def)
next
  case (Cons x xs)
  obtain p q where x: "x = (p, q)" by (meson surj_pair)
  obtain st l where c: "loop_register (re_alloc env (el_world (ra_loop r))) (re_loop env) (Some p) (Some q) (ra_loop r) = (st, l)"
    by (meson surj_pair)
  let ?r = "r\<lparr>ra_loop := l\<rparr>"
  have k: "rinv ?r" "hooks_of ?r = hooks_of r" using Cons.prems by (simp_all add: rinv_def hooks_of_def fun_eq_iff)
  show ?case
  proof (cases "st_ok st")
    case True
    have "event_fd ?r = event_fd r" using register_fds [OF c True] by (simp add: event_fd_def)
    then show ?thesis using Cons.IH [OF k(1)] True k(2) by (simp add: x on_loop_def c started_def)
  next
    case False
    obtain fl r1 where o: "(if st_provider_id st = ''linux_runtime'' then (reactor_failed st no_failures, ?r)
        else observed (re_on_failure env) (media_failed st no_failures, ?r)) = (fl, r1)" by (meson surj_pair)
    have "outside ?r r1 \<and> \<not> all_ok fl"
      using o False observed_post [of "re_on_failure env" "media_failed st no_failures" ?r fl r1]
      by (auto simp: all_ok_def reactor_failed_def media_failed_def no_failures_def record_first_def split: if_split_asm)
    then have out: "rinv r1" "ra_records r1 = ra_records r" "hooks_of r1 = hooks_of r" "\<not> all_ok fl"
      using k by (simp_all add: outside_def rinv_def hooks_of_def fun_eq_iff)
    show ?thesis
      using False known_fail [OF out] by (auto simp: x on_loop_def c o startup_failed_def split: prod.split)
  qed
qed

lemma announce_post:
  assumes "rinv r"
  shows "started r (announce_running env r)
    \<and> (fst (announce_running env r) = Ret None \<longrightarrow> event_fd (snd (announce_running env r)) = event_fd r)"
proof -
  obtain fl r1 where o: "observed (re_on_running env True) (no_failures, r) = (fl, r1)" by (meson surj_pair)
  have k: "rinv r1" "ra_records r1 = ra_records r" "hooks_of r1 = hooks_of r" "event_fd r1 = event_fd r"
    using observed_post(1) [OF o] assms by (simp_all add: outside_def rinv_def hooks_of_def fun_eq_iff)
  show ?thesis
    using k known_fail [OF k(1-3), of fl env True]
    by (auto simp: announce_running_def o all_ok_def started_def [of r "(Ret None, _)"] startup_failed_def split: prod.split)
qed

lemma and_start_post:
  assumes "started r x" "\<And>r1. x = (Ret None, r1) \<Longrightarrow> started r1 (k r1)"
  shows "started r (and_start x k)"
proof (cases "fst x = Ret None")
  case True
  then obtain r1 where "x = (Ret None, r1)" by (cases x) auto
  then show ?thesis using assms by (auto simp: and_start_def started_def)
next
  case False
  then have "and_start x k = x" by (auto simp: and_start_def split: prod.split outcome.split option.split)
  then show ?thesis using assms(1) by simp
qed

lemma and_start_None: "and_start x k = (Ret None, r) \<longleftrightarrow> (\<exists>r1. x = (Ret None, r1) \<and> k r1 = (Ret None, r))"
  by (auto simp: and_start_def split: prod.split outcome.split option.split)

lemma startup_post:
  assumes "rinv r" "all_idle r"
  shows "started r (reactor_startup env r)" "reactor_startup env r = (Ret None, r') \<Longrightarrow> 0 \<le> event_fd r'"
proof -
  have a: "started r (start_pipelines env 0 (length (ra_records r)) r)"
    using start_pipelines_post [of 0 "length (ra_records r)" r env] assms by (simp add: all_idle_def)
  have inv: "rinv r1" if "started r0 x" "x = (y, r1)" for r0 x y r1 using that by (simp add: started_def)
  let ?a = "start_pipelines env 0 (length (ra_records r)) r"
  let ?b = "and_start ?a (initialize_loop env)"
  let ?c = "and_start ?b (\<lambda>r. register_sources env (all_sources (ra_records r)) r)"
  have b: "started r ?b" by (rule and_start_post [OF a]) (use loop_started_post(1) inv [OF a] in blast)
  have c: "started r ?c" by (rule and_start_post [OF b]) (use register_sources_post inv [OF b] in blast)
  show "started r (reactor_startup env r)" unfolding reactor_startup_def
    by (rule and_start_post [OF c]) (use announce_post inv [OF c] in blast)
  show "0 \<le> event_fd r'" if h: "reactor_startup env r = (Ret None, r')"
  proof -
    obtain r3 where r3: "?c = (Ret None, r3)" "announce_running env r3 = (Ret None, r')"
      using h by (auto simp: reactor_startup_def and_start_None)
    obtain r2 where r2: "?b = (Ret None, r2)" "register_sources env (all_sources (ra_records r2)) r2 = (Ret None, r3)"
      using r3(1) by (auto simp: and_start_None)
    obtain r1 where r1: "?a = (Ret None, r1)" "initialize_loop env r1 = (Ret None, r2)"
      using r2(1) by (auto simp: and_start_None)
    have "0 \<le> event_fd r2" using loop_started_post(2) [OF inv [OF a r1(1)], of env] r1(2) by simp
    also have "event_fd r2 = event_fd r3" using register_sources_post [OF inv [OF b r2(1)], of env "all_sources (ra_records r2)"] r2(2) by simp
    also have "\<dots> = event_fd r'" using announce_post [OF inv [OF c r3(1)], of env] r3(2) by simp
    finally show ?thesis .
  qed
qed

subsection \<open>Running and draining\<close>

lemma wait_post:
  assumes "reactor_wait env fl r = (ready, fl', r')"
  shows "outside r r'" "ready = None \<Longrightarrow> \<not> all_ok fl'"
proof -
  obtain x l where c: "loop_wait_once (re_alloc env (el_world (ra_loop r))) (re_loop env) (ra_loop r) = (x, l)" by (meson surj_pair)
  let ?r = "r\<lparr>ra_loop := l\<rparr>"
  have out: "outside r ?r"
    using wait_once_fds [of "ra_loop r" "re_alloc env (el_world (ra_loop r))" "re_loop env"]
    by (simp add: c same_fds_def outside_def event_fd_def)
  have "outside r r' \<and> (ready = None \<longrightarrow> \<not> all_ok fl')"
  proof (cases x)
    case (Inl s)
    have s: "\<not> st_ok s" using wait_once_fails [OF c [unfolded Inl]] .
    have h: "ready = None" "(fl', r') = (if el_origin l = Origin_wait_source
        then observed (re_on_failure env) (media_failed s fl, ?r) else (reactor_failed s fl, ?r))"
      using assms by (auto simp: reactor_wait_def on_loop_def c Inl)
    have "outside ?r r' \<and> \<not> all_ok fl'"
      using h(2) s observed_post [of "re_on_failure env" "media_failed s fl" ?r fl' r']
      by (auto simp: all_ok_def reactor_failed_def media_failed_def record_first_def split: if_split_asm)
    then show ?thesis using outside_trans [OF out] by blast
  next
    case (Inr turn)
    have h: "ready = Some (lt_ready_pipelines turn)"
      "observed (re_on_poll env (lt_wakeup_count turn) (lt_interrupted_count turn)) (fl, ?r) = (fl', r')"
      using assms by (auto simp: reactor_wait_def on_loop_def c Inr)
    show ?thesis using outside_trans [OF out observed_post(1) [OF h(2)]] h(1) by auto
  qed
  then show "outside r r'" "ready = None \<Longrightarrow> \<not> all_ok fl'" by auto
qed

lemma tick_pipelines_post: "tick_pipelines env ps fl r = (x, r') \<Longrightarrow> inside r r'"
proof (induction ps arbitrary: fl r)
  case (Cons p ps)
  obtain fl1 r1 where o: "observed (re_on_turn env) (fl, r) = (fl1, r1)" by (meson surj_pair)
  obtain y r2 where c: "on_pipeline pipeline_tick p r1 = (y, r2)" by (meson surj_pair)
  have k: "inside r r2" using inside_trans [OF outside_inside [OF observed_post(1) [OF o]] tick_inside [OF c]] .
  have f: "inside r r'" if "observed (re_on_failure env) (media_failed s fl1, r2) = (fl', r')" for s fl'
    using inside_trans [OF k outside_inside [OF observed_post(1) [OF that]]] .
  show ?case
    using Cons.prems Cons.IH [of fl1 r2] inside_trans [OF k] k f
    by (auto simp: o c split: outcome.split_asm if_split_asm prod.split_asm)
qed simp

lemma runtime_call_outside: "runtime_call env c r = (x, r') \<Longrightarrow> outside r r'"
  unfolding runtime_call_def by (rule on_world_outside)

lemma sleep_attempts_outside: "sleep_attempts n env t r = (x, r') \<Longrightarrow> outside r r'"
proof (induction n arbitrary: r)
  case 0
  then show ?case by (auto dest: runtime_call_outside split: prod.split_asm outcome.split_asm)
next
  case (Suc n)
  obtain q r1 where c: "runtime_call env (Monotonic_sleep_until t) r = (q, r1)" by (meson surj_pair)
  show ?case
    using Suc.prems Suc.IH [of r1] outside_trans [OF runtime_call_outside [OF c]] runtime_call_outside [OF c]
    by (auto simp: c split: outcome.split_asm if_split_asm)
qed

lemma drain_pause_outside: "drain_pause env deadline b fl r = (x, r') \<Longrightarrow> outside r r'"
proof -
  assume h: "drain_pause env deadline b fl r = (x, r')"
  obtain q r1 where c: "runtime_call env Runtime_monotonic_now r = (q, r1)" by (meson surj_pair)
  have a: "outside r1 r2 \<Longrightarrow> outside r r2" for r2 by (rule outside_trans [OF runtime_call_outside [OF c]])
  show ?thesis
    using h by (auto simp: drain_pause_def c wait_before_retry_def intro: a dest: sleep_attempts_outside observed_post(1)
        split: outcome.split_asm if_split_asm prod.split_asm)
qed

text \<open>A pass knows which pipelines have stopped.\<close>

definition drained :: "drain_state \<Rightarrow> 'w reactor \<Rightarrow> bool" where
  "drained d r \<longleftrightarrow> length (dn_stopped d) = length (ra_records r)
     \<and> dn_remaining d = length (filter Not (dn_stopped d))
     \<and> (\<forall>i<length (ra_records r). dn_stopped d ! i \<longrightarrow> p_state (ra_objects r (rr_pipeline (ra_records r ! i))) = P_Stopped)"

lemma drained_outside: "outside r r' \<Longrightarrow> drained d r \<Longrightarrow> drained d r'"
  by (simp add: drained_def outside_def)

lemma drained_progress [simp]: "drained (d\<lparr>dn_progress := b\<rparr>) r = drained d r"
  by (simp add: drained_def)

lemma filter_update: "i < length bs \<Longrightarrow> \<not> bs ! i \<Longrightarrow> length (filter Not (bs[i := True])) = length (filter Not bs) - 1"
proof (induction bs arbitrary: i)
  case (Cons b bs)
  show ?case
  proof (cases i)
    case 0
    then show ?thesis using Cons.prems by simp
  next
    case (Suc m)
    then have m: "m < length bs" "\<not> bs ! m" using Cons.prems by simp_all
    then have "filter Not bs \<noteq> []" by (metis filter_empty_conv nth_mem)
    then have "Suc (length (filter Not bs) - 1) = length (filter Not bs)" by (cases "filter Not bs") auto
    then show ?thesis using Cons.IH [OF m] Suc by simp
  qed
qed simp

lemma stop_drained:
  assumes "on_pipeline pipeline_stop (rr_pipeline (ra_records r ! index)) r = (Ret s, r')"
    and "rinv r" "drained d r" "index < length (ra_records r)" "\<not> dn_stopped d ! index"
  shows "drained (if st_ok s then d\<lparr>dn_stopped := (dn_stopped d)[index := True], dn_remaining := dn_remaining d - 1,
                    dn_progress := True\<rparr> else d) r'"
proof -
  let ?i = "rr_pipeline (ra_records r ! index)"
  obtain p w where p: "pipeline_stop (ra_objects r ?i) (el_world (ra_loop r)) = (Ret s, p, w)"
    "ra_objects r' = (ra_objects r)(?i := p)" "ra_records r' = ra_records r"
    using on_pipeline_post [OF assms(1)] by blast
  have inv: "pipeline_inv (ra_objects r ?i)" using assms(2) by (simp add: rinv_def)
  have keep: "p_state (ra_objects r' k) = P_Stopped" if "p_state (ra_objects r k) = P_Stopped" for k
    using p that by (auto simp: pipeline_stop_def)
  have "st_ok s \<Longrightarrow> p_state p = P_Stopped" using stop_ok_stopped [OF inv p(1)] .
  then show ?thesis
    using assms(3-5) keep p(2,3) by (auto simp: drained_def nth_list_update filter_update)
qed

lemma drain_pass_post:
  "drain_pass env index d fl r = (x, r') \<Longrightarrow> index \<le> length (ra_records r) \<Longrightarrow> rinv r \<Longrightarrow> drained d r \<Longrightarrow>
     inside r r' \<and> (case x of Ret (d', fl') \<Rightarrow> drained d' r' | Throw e \<Rightarrow> True)"
proof (induction index arbitrary: d r)
  case (Suc index)
  show ?case
  proof (cases "dn_stopped d ! index")
    case True
    then show ?thesis using Suc by simp
  next
    case False
    let ?i = "rr_pipeline (ra_records r ! index)"
    obtain y r1 where c: "on_pipeline pipeline_stop ?i r = (y, r1)" by (meson surj_pair)
    have k: "inside r r1" using stop_inside [OF c] Suc.prems(2) by simp
    then have r1: "rinv r1" "ra_records r1 = ra_records r" using Suc.prems(3) by (simp_all add: inside_def)
    show ?thesis
    proof (cases y)
      case (Throw e)
      then show ?thesis using Suc.prems(1) False k by (auto simp: c)
    next
      case (Ret s)
      note d = stop_drained [OF c [unfolded Ret] Suc.prems(3,4) _ False]
      have ih: "inside r r' \<and> (case x of Ret (d', fl') \<Rightarrow> drained d' r' | Throw e \<Rightarrow> True)"
        if "drain_pass env index d1 fl r1 = (x, r')" "drained d1 r1" for d1
        using Suc.IH [OF that(1)] that(2) r1 Suc.prems(2) inside_trans [OF k] by simp
      have fail: "inside r r' \<and> (case x of Ret (d', fl') \<Rightarrow> drained d' r' | Throw e \<Rightarrow> True)"
        if "observed (re_on_failure env) (media_failed s fl, r1) = (fl', r')" "x = Ret (d, fl')" "\<not> st_ok s" for fl'
        using inside_trans [OF k outside_inside [OF observed_post(1) [OF that(1)]]] that(2,3) d Suc.prems(2)
          drained_outside [OF observed_post(1) [OF that(1)]] by simp
      show ?thesis
        using Suc.prems(1,2) False d ih fail by (auto simp: c Ret split: if_split_asm prod.split_asm)
    qed
  qed
qed (auto simp: drained_def)

text \<open>A drain that has ended without a failure of its own has stopped every pipeline.\<close>

definition all_stopped :: "'w reactor \<Rightarrow> bool" where
  "all_stopped r \<longleftrightarrow> (\<forall>i\<in>known (ra_records r). p_state (ra_objects r i) = P_Stopped)"

lemma stopped_halted: "all_stopped r \<Longrightarrow> all_halted r"
  by (simp add: all_stopped_def all_halted_def halted_def)

lemma drained_all: "drained d r \<Longrightarrow> dn_remaining d = 0 \<Longrightarrow> all_stopped r"
proof -
  assume d: "drained d r" "dn_remaining d = 0"
  then have "\<forall>i<length (ra_records r). dn_stopped d ! i" by (simp add: drained_def filter_empty_conv) (metis nth_mem)
  then show ?thesis using d(1) by (auto simp: drained_def all_stopped_def known_def in_set_conv_nth)
qed

lemma drain_pause_failures:
  "drain_pause env deadline b fl r = (Ret (False, fl'), r') \<Longrightarrow> \<not> st_ok (fl_media fl') \<or> \<not> st_ok (fl_reactor fl')"
  by (auto simp: drain_pause_def reactor_failed_def media_failed_def record_first_def clock_failure_def
      dest: observed_post(2,3) split: prod.split_asm outcome.split_asm if_split_asm)

lemma drain_turns_post:
  assumes "drain_turns env deadline d fl r = Some (x, r')" "rinv r" "drained d r"
  shows "inside r r' \<and> (case x of Ret fl' \<Rightarrow> st_ok (fl_media fl') \<and> st_ok (fl_reactor fl') \<longrightarrow> all_stopped r' | Throw e \<Rightarrow> True)"
proof -
  let ?P = "\<lambda>(env :: 'a runtime_env) (deadline :: timespec) d (fl :: failures) r y. \<forall>x r'. y = (x, r') \<longrightarrow> rinv r \<longrightarrow> drained d r \<longrightarrow> inside r r'
      \<and> (case x of Ret fl' \<Rightarrow> st_ok (fl_media fl') \<and> st_ok (fl_reactor fl') \<longrightarrow> all_stopped r' | Throw e \<Rightarrow> True)"
  have "?P env deadline d fl r (x, r')"
  proof (rule drain_turns.raw_induct [where P = ?P, OF _ assms(1)], goal_cases)
    case (1 turns env deadline d fl r y)
    show ?case
    proof (cases "dn_remaining d > 0 \<and> st_ok (fl_media fl) \<and> st_ok (fl_reactor fl)")
      case False
      then show ?thesis using 1(2) drained_all by auto
    next
      case True
      obtain z r1 where p: "drain_pass env (length (ra_records r)) (d\<lparr>dn_progress := False\<rparr>) fl r = (z, r1)" by (meson surj_pair)
      have pass: "inside r r1 \<and> (case z of Ret (d', fl') \<Rightarrow> drained d' r1 | Throw e \<Rightarrow> True)" if "rinv r" "drained d r"
        using drain_pass_post [OF p] that by simp
      show ?thesis
      proof (cases z)
        case (Throw e)
        then show ?thesis using 1(2) True p pass by auto
      next
        case (Ret df)
        obtain d1 fl1 where df: "df = (d1, fl1)" by (meson surj_pair)
        show ?thesis
        proof (cases "dn_remaining d1 = 0 \<or> \<not> st_ok (fl_media fl1)")
          case fin: True
          then have "y = (Ret fl1, r1)" using 1(2) True p Ret df by simp
          then show ?thesis using fin pass Ret df drained_all by auto
        next
          case more: False
          obtain q r2 where q: "drain_pause env deadline (dn_progress d1) fl1 r1 = (q, r2)" by (meson surj_pair)
          have out: "outside r1 r2" using drain_pause_outside [OF q] .
          have k: "inside r r2 \<and> drained d1 r2" if "rinv r" "drained d r"
            using pass [OF that] Ret df inside_trans outside_inside [OF out] drained_outside [OF out] by auto
          show ?thesis
          proof (cases q)
            case (Throw e)
            then have "y = (Throw e, r2)" using 1(2) True p Ret df more q by simp
            then show ?thesis using k by auto
          next
            case ret: (Ret af)
            obtain again fl2 where af: "af = (again, fl2)" by (meson surj_pair)
            show ?thesis
            proof (cases again)
              case False
              then have "y = (Ret fl2, r2)" using 1(2) True p Ret df more q ret af by simp
              then show ?thesis using k drain_pause_failures [of env deadline "dn_progress d1" fl1 r1 fl2 r2] q ret af False by auto
            next
              case True
              then have "turns env deadline d1 fl2 r2 = Some y"
                using 1(2) \<open>dn_remaining d > 0 \<and> st_ok (fl_media fl) \<and> st_ok (fl_reactor fl)\<close> p Ret df more q ret af by simp
              from 1(1) [OF this] show ?thesis using k inside_trans [of r r2] by (simp add: inside_def [of r r2])
            qed
          qed
        qed
      qed
    qed
  qed
  then show ?thesis using assms by blast
qed

lemma drain_until_post:
  assumes "drain_until env deadline fl r = Some (x, r')" "rinv r"
  shows "inside r r' \<and> (case x of Ret fl' \<Rightarrow> all_halted r' \<and> (all_ok fl' \<longrightarrow> all_stopped r') | Throw e \<Rightarrow> True)"
proof (cases "re_alloc env (el_world (ra_loop r))")
  case (Some e)
  then show ?thesis using assms(1) by (auto simp: drain_until_def)
next
  case None
  let ?d = "\<lparr>dn_stopped = replicate (length (ra_records r)) False, dn_remaining = length (ra_records r), dn_progress = False\<rparr>"
  obtain y r1 where t: "drain_turns env deadline ?d fl r = Some (y, r1)"
    using assms(1) None by (auto simp: drain_until_def split: option.split_asm)
  have "drained ?d r" by (simp add: drained_def)
  note post = drain_turns_post [OF t assms(2) this]
  show ?thesis
  proof (cases y)
    case (Throw e)
    then show ?thesis using assms(1) None t post by (auto simp: drain_until_def)
  next
    case (Ret fl1)
    show ?thesis
    proof (cases "st_ok (fl_media fl1) \<and> st_ok (fl_reactor fl1)")
      case True
      then have "x = Ret fl1" "r' = r1" using assms(1) None t Ret by (auto simp: drain_until_def)
      then show ?thesis using post Ret True stopped_halted by auto
    next
      case False
      then have "\<not> all_ok fl1" by (auto simp: all_ok_def)
      obtain fl2 r2 where c: "cancelled (fl1, r1) = (fl2, r2)" by (meson surj_pair)
      then have "x = Ret fl2" "r' = r2" using assms(1) None t Ret False by (auto simp: drain_until_def)
      then show ?thesis
        using post inside_trans [of r r1 r2] cancelled_post [OF c] \<open>\<not> all_ok fl1\<close> by auto
    qed
  qed
qed

lemma drain_post:
  assumes "drain env fl r = Some (x, r')" "rinv r"
  shows "inside r r' \<and> (case x of Ret fl' \<Rightarrow> all_halted r' \<and> (all_ok fl' \<longrightarrow> all_stopped r') | Throw e \<Rightarrow> True)"
proof -
  obtain q r1 where c: "runtime_call env Runtime_monotonic_now r = (q, r1)" by (meson surj_pair)
  have k: "inside r r1" "rinv r1"
    using outside_inside [OF runtime_call_outside [OF c]] assms(2) by (simp_all add: inside_def)
  have fail: "inside r r' \<and> (case x of Ret fl' \<Rightarrow> all_halted r' \<and> (all_ok fl' \<longrightarrow> all_stopped r') | Throw e \<Rightarrow> True)"
    if "cancelled (reactor_failed st fl, r1) = (fl', r')" "x = Ret fl'" "\<not> st_ok st" for st fl'
  proof -
    have "\<not> all_ok (reactor_failed st fl)"
      using that(3) by (simp add: all_ok_def reactor_failed_def record_first_def)
    then have "\<not> all_ok fl'" using cancelled_post(3) [OF that(1)] by blast
    then show ?thesis using cancelled_post [OF that(1)] that(2) inside_trans [OF k(1)] by auto
  qed
  have go: "inside r r' \<and> (case x of Ret fl' \<Rightarrow> all_halted r' \<and> (all_ok fl' \<longrightarrow> all_stopped r') | Throw e \<Rightarrow> True)"
    if "drain_until env deadline fl r1 = Some (x, r')" for deadline
    using drain_until_post [OF that k(2)] inside_trans [OF k(1)] by auto
  have late: "\<not> st_ok st" if "add_milliseconds t ms = Inl st" for t ms st
    using that by (auto simp: add_milliseconds_def Let_def err_def split: if_split_asm)
  show ?thesis
    using assms(1) fail go late k
    by (auto simp: drain_def c clock_failure_def split: outcome.split_asm if_split_asm sum.split_asm prod.split_asm)
qed

text \<open>However the reactor leaves: either it has an exception to handle, or the loop is closed, nothing
  registered is running or draining, and without failures everything has been drained.\<close>

lemma leave_post:
  assumes "reactor_leave env plan r = Some (x, r')" "rinv r"
    and "case plan of Plan_cancel fl \<Rightarrow> \<not> all_ok fl | _ \<Rightarrow> True"
  shows "ra_records r' = ra_records r \<and> rinv r' \<and> hooks_of r' = hooks_of r
    \<and> (case x of Ret fl' \<Rightarrow> event_fd r' < 0 \<and> all_idle r' \<and> (all_ok fl' \<longrightarrow> all_stopped r')
        | Throw e \<Rightarrow> event_fd r' = event_fd r \<and> (\<exists>fl. plan = Plan_drain fl))"
proof -
  have ending: "?thesis"
    if "leave_end env (fl1, r1) = (fl2, r')" "x = Ret fl2" "inside r r1" "all_halted r1" "all_ok fl1 \<longrightarrow> all_stopped r1"
    for fl1 fl2 r1
  proof -
    have "rinv r1" "hooks_of r1 = hooks_of r" using that(3) assms(2) by (simp_all add: inside_def)
    then have "rinv r'" "all_halted r'" using leave_end_post(1) [OF that(1)] loop_closed_rinv that(4) by blast+
    moreover have "hooks_of r' = hooks_of r"
      using leave_end_post(1) [OF that(1)] \<open>hooks_of r1 = hooks_of r\<close> by (simp add: loop_closed_def hooks_of_def fun_eq_iff)
    ultimately show ?thesis
      using leave_end_post [OF that(1)] that halted_all_idle
      by (auto simp: loop_closed_def inside_def all_stopped_def)
  qed
  show ?thesis
  proof (cases plan)
    case (Plan_drain fl)
    obtain y r1 where d: "drain env fl r = Some (y, r1)" using assms(1) Plan_drain by (auto split: option.split_asm)
    note post = drain_post [OF d assms(2)]
    show ?thesis
    proof (cases y)
      case (Throw e)
      then show ?thesis using assms(1,2) Plan_drain d post by (auto simp: inside_def)
    next
      case (Ret fl1)
      then show ?thesis
        using assms(1) Plan_drain d post ending [of fl1 r1] by (auto split: prod.split_asm)
    qed
  next
    case (Plan_cancel fl)
    obtain fl1 r1 where c: "cancelled (fl, r) = (fl1, r1)" by (meson surj_pair)
    then show ?thesis
      using assms(1,3) Plan_cancel cancelled_post [OF c] ending [of fl1 r1] by (auto split: prod.split_asm)
  next
    case (Plan_handle e)
    obtain fl1 r1 where c: "cancelled (media_failed (handled e) no_failures, r) = (fl1, r1)" by (meson surj_pair)
    have "\<not> st_ok (handled e)" by (cases e) (simp_all add: handled_def)
    then have "\<not> all_ok (media_failed (handled e) no_failures)"
      by (simp add: all_ok_def media_failed_def no_failures_def record_first_def)
    then show ?thesis
      using assms(1) Plan_handle c cancelled_post [OF c] ending [of fl1 r1] by (auto split: prod.split_asm)
  qed
qed

end
