(* ===== verification/Runtime_Safety.thy ===== *)
theory Runtime_Safety
  imports Runtime_Reactor
begin

text \<open>
  What holds of the threads of a \<open>LinuxPlatformRuntime\<close> in every interleaving: the loop is open whenever
  a caller wakes it, one thread joins the reactor thread, everybody who stops the runtime gets the
  same answer, and with the reactor thread gone nothing is running.
\<close>

declare split_paired_Ex [simp del]

subsection \<open>The invariant\<close>

text \<open>The runtime has ended, or will never start: its result does not change any more.\<close>

definition concluded :: "runtime_shared \<Rightarrow> reactor_pc \<Rightarrow> bool" where
  "concluded sh pc \<longleftrightarrow> (pc = R_absent \<or> pc = R_ended) \<and> (rs_state sh = R_kStopped \<or> rs_state sh = R_kError)"

text \<open>The threads that \<open>wake_in_flight_\<close> counts, and those that have claimed the join.\<close>

fun waking :: "client \<Rightarrow> bool" where
  "waking Stop_waking = True"
| "waking (Stop_woken s) = True"
| "waking c = False"

fun joining :: "client \<Rightarrow> bool" where
  "joining (Join_owner a) = True"
| "joining (Join_ended a) = True"
| "joining c = False"

fun after_ok :: "runtime_shared \<Rightarrow> reactor_pc \<Rightarrow> after_join \<Rightarrow> bool" where
  "after_ok sh pc (After_stop_with s) \<longleftrightarrow> concluded sh pc \<and> s = rs_stop_result sh"
| "after_ok sh pc a \<longleftrightarrow> True"

fun client_ok :: "runtime_shared \<Rightarrow> reactor_pc \<Rightarrow> client \<Rightarrow> bool" where
  "client_ok sh pc (Register_called alloc pipeline wait_sources) \<longleftrightarrow> True"
| "client_ok sh pc (Start_called thread) \<longleftrightarrow> True"
| "client_ok sh pc Stop_called \<longleftrightarrow> True"
| "client_ok sh pc (Register_returned s) \<longleftrightarrow> True"
| "client_ok sh pc (Start_returned s) \<longleftrightarrow> True"
| "client_ok sh pc Start_waiting \<longleftrightarrow> rs_state sh \<noteq> R_kCreated \<and> pc \<noteq> R_absent"
| "client_ok sh pc Start_released \<longleftrightarrow> rs_state sh \<noteq> R_kCreated"
| "client_ok sh pc Stop_waking \<longleftrightarrow> rs_state sh \<noteq> R_kCreated"
| "client_ok sh pc (Stop_woken s) \<longleftrightarrow> rs_state sh \<noteq> R_kCreated"
| "client_ok sh pc (Join_called a) \<longleftrightarrow> rs_state sh \<noteq> R_kCreated \<and> after_ok sh pc a"
| "client_ok sh pc (Join_owner a) \<longleftrightarrow> rs_state sh \<noteq> R_kCreated \<and> after_ok sh pc a"
| "client_ok sh pc (Join_ended a) \<longleftrightarrow> rs_state sh \<noteq> R_kCreated \<and> after_ok sh pc a \<and> \<not> rs_joinable sh"
| "client_ok sh pc (Join_done a) \<longleftrightarrow> concluded sh pc \<and> after_ok sh pc a"
| "client_ok sh pc (Stop_returned s) \<longleftrightarrow> concluded sh pc \<and> s = rs_stop_result sh"

definition loop_serves :: "runtime_shared \<Rightarrow> 'w reactor \<Rightarrow> bool" where
  "loop_serves sh r \<longleftrightarrow> (rs_state sh = R_kRunning \<or> rs_state sh = R_kStopping) \<and> rs_startup_completed sh \<and> 0 \<le> event_fd r"

definition unborn :: "runtime_shared \<Rightarrow> bool" where
  "unborn sh \<longleftrightarrow> rs_state sh = R_kStarting \<and> \<not> rs_startup_completed sh \<and> rs_wake_in_flight sh = 0"

definition ending :: "leave_plan \<Rightarrow> runtime_shared \<Rightarrow> 'w reactor \<Rightarrow> bool" where
  "ending plan sh r \<longleftrightarrow>
     (case plan of
        Plan_drain fl \<Rightarrow> loop_serves sh r
      | Plan_cancel fl \<Rightarrow> loop_serves sh r \<and> \<not> all_ok fl
      | Plan_handle e \<Rightarrow> loop_serves sh r \<or> unborn sh)"

fun pc_ok :: "reactor_pc \<Rightarrow> runtime_shared \<Rightarrow> 'w reactor \<Rightarrow> bool" where
  "pc_ok R_absent sh r \<longleftrightarrow> rs_wake_in_flight sh = 0 \<and> \<not> rs_join_claimed sh \<and> \<not> rs_joinable sh \<and> \<not> rs_stop_requested sh \<and> all_idle r
     \<and> (rs_state sh = R_kCreated \<or> rs_state sh = R_kStopped \<and> st_ok (rs_stop_result sh)
        \<or> rs_state sh = R_kError \<and> rs_thread_exited sh \<and> \<not> st_ok (rs_stop_result sh))"
| "pc_ok R_starting sh r \<longleftrightarrow> unborn sh \<and> \<not> rs_reactor_exiting sh \<and> all_idle r"
| "pc_ok R_publishing sh r \<longleftrightarrow> unborn sh \<and> \<not> rs_reactor_exiting sh \<and> 0 \<le> event_fd r"
| "pc_ok (R_waiting fl) sh r \<longleftrightarrow> loop_serves sh r \<and> \<not> rs_reactor_exiting sh"
| "pc_ok (R_turning fl ready) sh r \<longleftrightarrow> loop_serves sh r \<and> \<not> rs_reactor_exiting sh"
| "pc_ok (R_ticking fl ready) sh r \<longleftrightarrow> loop_serves sh r \<and> \<not> rs_reactor_exiting sh"
| "pc_ok (R_checking fl) sh r \<longleftrightarrow> loop_serves sh r \<and> \<not> rs_reactor_exiting sh \<and> (all_ok fl \<longrightarrow> rs_stop_requested sh)"
| "pc_ok (R_marking plan) sh r \<longleftrightarrow> ending plan sh r"
| "pc_ok (R_marked plan) sh r \<longleftrightarrow> ending plan sh r \<and> rs_reactor_exiting sh"
| "pc_ok (R_leaving plan) sh r \<longleftrightarrow> ending plan sh r \<and> rs_reactor_exiting sh \<and> rs_wake_in_flight sh = 0"
| "pc_ok (R_finishing fl) sh r \<longleftrightarrow> all_idle r \<and> event_fd r < 0 \<and> (all_ok fl \<longrightarrow> all_stopped r) \<and> rs_wake_in_flight sh = 0
     \<and> (unborn sh \<or> rs_startup_completed sh \<and> rs_reactor_exiting sh \<and> (rs_state sh = R_kRunning \<or> rs_state sh = R_kStopping))"
| "pc_ok R_ended sh r \<longleftrightarrow> all_idle r \<and> event_fd r < 0 \<and> rs_wake_in_flight sh = 0 \<and> rs_startup_completed sh \<and> rs_thread_exited sh
     \<and> (rs_state sh = R_kStopped \<and> st_ok (rs_stop_result sh) \<and> all_stopped r
        \<or> rs_state sh = R_kError \<and> \<not> st_ok (rs_stop_result sh))"

definition joins_ok :: "runtime_shared \<Rightarrow> reactor_pc \<Rightarrow> bool" where
  "joins_ok sh pc \<longleftrightarrow> (\<not> rs_joinable sh \<longrightarrow> pc = R_absent \<or> pc = R_ended)
     \<and> (rs_join_completed sh \<longrightarrow> \<not> rs_joinable sh \<and> \<not> rs_join_claimed sh)"

definition tallied :: "runtime_shared \<Rightarrow> client list \<Rightarrow> bool" where
  "tallied sh cs \<longleftrightarrow> length (filter waking cs) = rs_wake_in_flight sh
     \<and> length (filter joining cs) = of_bool (rs_join_claimed sh)"

definition runtime_inv :: "'w runtime \<Rightarrow> bool" where
  "runtime_inv u \<longleftrightarrow> rinv (ru_reactor u) \<and> pc_ok (ru_pc u) (ru_shared u) (ru_reactor u)
     \<and> joins_ok (ru_shared u) (ru_pc u) \<and> tallied (ru_shared u) (ru_clients u)
     \<and> (\<forall>c\<in>set (ru_clients u). client_ok (ru_shared u) (ru_pc u) c)"

subsection \<open>What a step leaves of the other threads\<close>

definition advances :: "runtime_shared \<Rightarrow> reactor_pc \<Rightarrow> runtime_shared \<Rightarrow> reactor_pc \<Rightarrow> bool" where
  "advances sh pc sh' pc' \<longleftrightarrow> (rs_state sh \<noteq> R_kCreated \<longrightarrow> rs_state sh' \<noteq> R_kCreated)
     \<and> (pc \<noteq> R_absent \<longrightarrow> pc' \<noteq> R_absent)
     \<and> (concluded sh pc \<longrightarrow> concluded sh' pc' \<and> rs_stop_result sh' = rs_stop_result sh)
     \<and> (rs_state sh \<noteq> R_kCreated \<and> \<not> rs_joinable sh \<longrightarrow> \<not> rs_joinable sh')"

lemma advances_refl [simp]: "advances sh pc sh pc"
  by (simp add: advances_def)

lemma after_ok_advances: "after_ok sh pc a \<Longrightarrow> advances sh pc sh' pc' \<Longrightarrow> after_ok sh' pc' a"
  by (cases a) (auto simp: advances_def)

lemma client_ok_advances: "client_ok sh pc c \<Longrightarrow> advances sh pc sh' pc' \<Longrightarrow> client_ok sh' pc' c"
  by (cases c) (auto simp: advances_def intro: after_ok_advances [of sh pc _ sh' pc'])

lemma length_filter_update:
  "i < length xs \<Longrightarrow> length (filter P (xs[i := x])) + of_bool (P (xs ! i)) = length (filter P xs) + of_bool (P x)"
proof (induction xs arbitrary: i)
  case (Cons y ys)
  then show ?case by (cases i) auto
qed simp

lemma inv_client:
  assumes "runtime_inv u" "i < length (ru_clients u)" "ru_clients v = (ru_clients u)[i := c]"
    and "rinv (ru_reactor v)" "pc_ok (ru_pc v) (ru_shared v) (ru_reactor v)" "joins_ok (ru_shared v) (ru_pc v)"
    and "advances (ru_shared u) (ru_pc u) (ru_shared v) (ru_pc v)" "client_ok (ru_shared v) (ru_pc v) c"
    and "rs_wake_in_flight (ru_shared v) + of_bool (waking (ru_clients u ! i))
           = rs_wake_in_flight (ru_shared u) + of_bool (waking c)"
    and "of_bool (rs_join_claimed (ru_shared v)) + of_bool (joining (ru_clients u ! i))
           = of_bool (rs_join_claimed (ru_shared u)) + (of_bool (joining c) :: nat)"
  shows "runtime_inv v"
proof -
  have "tallied (ru_shared v) (ru_clients v)"
    using assms(1,9,10) length_filter_update [OF assms(2), of waking c] length_filter_update [OF assms(2), of joining c]
    by (simp add: runtime_inv_def tallied_def assms(3))
  moreover have "client_ok (ru_shared v) (ru_pc v) d" if "d \<in> set (ru_clients v)" for d
  proof -
    have "d = c \<or> d \<in> set (ru_clients u)" using that set_update_subset_insert unfolding assms(3) by fast
    then show ?thesis using assms(1,7,8) client_ok_advances by (auto simp: runtime_inv_def)
  qed
  ultimately show ?thesis using assms(4-6) by (simp add: runtime_inv_def)
qed

lemma inv_reactor:
  assumes "runtime_inv u" "ru_clients v = ru_clients u"
    and "rinv (ru_reactor v)" "pc_ok (ru_pc v) (ru_shared v) (ru_reactor v)" "joins_ok (ru_shared v) (ru_pc v)"
    and "advances (ru_shared u) (ru_pc u) (ru_shared v) (ru_pc v)"
    and "rs_wake_in_flight (ru_shared v) = rs_wake_in_flight (ru_shared u)"
    and "rs_join_claimed (ru_shared v) = rs_join_claimed (ru_shared u)"
  shows "runtime_inv v"
  using assms client_ok_advances by (auto simp: runtime_inv_def tallied_def)

subsection \<open>The steps of the reactor\<close>

lemma loop_serves_inside: "inside r r' \<Longrightarrow> loop_serves sh r' = loop_serves sh r"
  by (simp add: inside_def loop_serves_def)

lemma selected_ok [simp]: "st_ok (selected_failure fl) = all_ok fl"
  by (simp add: selected_failure_def all_ok_def)

lemma finish_ok:
  assumes "pc_ok (R_finishing fl) sh r"
  shows "pc_ok R_ended (finish fl sh) r" "rs_wake_in_flight (finish fl sh) = rs_wake_in_flight sh"
    "rs_join_claimed (finish fl sh) = rs_join_claimed sh" "rs_join_completed (finish fl sh) = rs_join_completed sh"
    "rs_joinable (finish fl sh) = rs_joinable sh" "rs_state (finish fl sh) \<noteq> R_kCreated"
  using assms by (auto simp: finish_def Let_def)

text \<open>Steps that keep the protected fields.\<close>

lemma inv_moves:
  assumes "runtime_inv u" "ru_pc u \<noteq> R_absent" "ru_pc u \<noteq> R_ended" "pc \<noteq> R_absent"
    and "rinv r" "pc_ok pc (ru_shared u) r"
  shows "runtime_inv (u\<lparr>ru_reactor := r, ru_pc := pc\<rparr>)"
  using assms by (intro inv_reactor [OF assms(1)]) (auto simp: runtime_inv_def joins_ok_def advances_def concluded_def)

lemma inv_stays:
  assumes "runtime_inv u" "ru_pc u \<noteq> R_absent" "ru_pc u \<noteq> R_ended" "pc \<noteq> R_absent"
    and "pc_ok pc (ru_shared u) (ru_reactor u)"
  shows "runtime_inv (u\<lparr>ru_pc := pc\<rparr>)"
  using assms by (intro inv_reactor [OF assms(1)]) (auto simp: runtime_inv_def joins_ok_def advances_def concluded_def)

lemma starting_inv:
  assumes u: "runtime_inv u" "ru_pc u = R_starting" and v: "reactor_step env R_starting u = Some v"
  shows "runtime_inv v"
proof -
  have k: "rinv (ru_reactor u)" "all_idle (ru_reactor u)" "unborn (ru_shared u)" "\<not> rs_reactor_exiting (ru_shared u)"
    using u by (simp_all add: runtime_inv_def)
  obtain x r where c: "reactor_startup env (ru_reactor u) = (x, r)" by (meson surj_pair)
  have s: "rinv r" "x = Ret (Some fl) \<Longrightarrow> \<not> all_ok fl \<and> all_idle r \<and> event_fd r < 0" for fl
    using startup_post(1) [OF k(1,2), of env] c by (simp_all add: started_def)
  have fd: "x = Ret None \<Longrightarrow> 0 \<le> event_fd r" using startup_post(2) [OF k(1,2)] c by simp
  have m: "runtime_inv (u\<lparr>ru_reactor := r, ru_pc := pc\<rparr>)" if "pc \<noteq> R_absent" "pc_ok pc (ru_shared u) r" for pc
    using inv_moves [OF u(1) _ _ that(1) s(1) that(2)] u(2) by simp
  have w: "rs_wake_in_flight (ru_shared u) = 0" using k(3) by (simp add: unborn_def)
  show ?thesis
    using v s(2) fd k(3,4) w
    by (auto simp: c ending_def split: outcome.split_asm option.split_asm intro!: m)
qed

lemma leaving_inv:
  assumes u: "runtime_inv u" "ru_pc u = R_leaving plan" and v: "reactor_step env (R_leaving plan) u = Some v"
  shows "runtime_inv v"
proof -
  let ?sh = "ru_shared u"
  have k: "rinv (ru_reactor u)" "ending plan ?sh (ru_reactor u)" "rs_reactor_exiting ?sh" "rs_wake_in_flight ?sh = 0"
    using u by (simp_all add: runtime_inv_def)
  obtain x r where c: "reactor_leave env plan (ru_reactor u) = Some (x, r)"
    using v by (auto split: option.split_asm)
  have "case plan of Plan_cancel fl \<Rightarrow> \<not> all_ok fl | _ \<Rightarrow> True"
    using k(2) by (simp add: ending_def split: leave_plan.split_asm)
  note post = leave_post [OF c k(1) this]
  have m: "runtime_inv (u\<lparr>ru_reactor := r, ru_pc := pc\<rparr>)" if "pc \<noteq> R_absent" "pc_ok pc ?sh r" for pc
    using inv_moves [OF u(1) _ _ that(1) _ that(2)] u(2) post by simp
  have b: "loop_serves ?sh (ru_reactor u) \<or> unborn ?sh"
    using k(2) by (simp add: ending_def split: leave_plan.split_asm)
  show ?thesis
  proof (cases x)
    case (Throw e)
    then obtain fl where "event_fd r = event_fd (ru_reactor u)" "plan = Plan_drain fl" using post by auto
    then have "ending (Plan_handle e) ?sh r" using k(2) by (simp add: ending_def loop_serves_def)
    then show ?thesis using v c Throw by (auto intro!: m)
  next
    case (Ret fl)
    have "unborn ?sh \<or> rs_startup_completed ?sh \<and> (rs_state ?sh = R_kRunning \<or> rs_state ?sh = R_kStopping)"
      using b by (auto simp: loop_serves_def)
    then show ?thesis using v c Ret post k(3,4) by (auto intro!: m)
  qed
qed

lemma reactor_step_inv:
  assumes u: "runtime_inv u" and v: "reactor_step env (ru_pc u) u = Some v"
  shows "runtime_inv v"
proof (cases "ru_pc u")
  case R_absent
  then show ?thesis using v by simp
next
  case R_starting
  then show ?thesis using starting_inv [OF u] v by simp
next
  case R_publishing
  then have v: "v = u\<lparr>ru_shared := publish_running (ru_shared u), ru_pc := R_waiting no_failures\<rparr>" using v by simp
  show ?thesis
    using u R_publishing
    by (intro inv_reactor [OF u]) (auto simp: v runtime_inv_def publish_running_def joins_ok_def advances_def concluded_def
        unborn_def loop_serves_def)
next
  case (R_waiting fl)
  have k: "loop_serves (ru_shared u) (ru_reactor u)" "\<not> rs_reactor_exiting (ru_shared u)" "rinv (ru_reactor u)"
    using u R_waiting by (simp_all add: runtime_inv_def)
  obtain ready fl' r where c: "reactor_wait env fl (ru_reactor u) = (ready, fl', r)" by (metis prod_cases3)
  note post = wait_post [OF c]
  have r: "rinv r" "loop_serves (ru_shared u) r"
    using outside_inside [OF post(1)] k loop_serves_inside by (auto simp: inside_def)
  have m: "runtime_inv (u\<lparr>ru_reactor := r, ru_pc := pc\<rparr>)" if "pc \<noteq> R_absent" "pc_ok pc (ru_shared u) r" for pc
    using inv_moves [OF u _ _ that(1) r(1) that(2)] R_waiting by simp
  have s: "runtime_inv (u\<lparr>ru_pc := R_checking fl\<rparr>)" if "\<not> all_ok fl"
    using inv_stays [OF u] R_waiting k that by simp
  show ?thesis
    using v R_waiting r k post(2) by (auto simp: c split: if_split_asm option.split_asm intro!: m s)
next
  case (R_turning fl ready)
  then show ?thesis using v inv_stays [OF u] u by (auto simp: runtime_inv_def)
next
  case (R_ticking fl ready)
  have k: "loop_serves (ru_shared u) (ru_reactor u)" "\<not> rs_reactor_exiting (ru_shared u)" "rinv (ru_reactor u)"
    using u R_ticking by (simp_all add: runtime_inv_def)
  obtain x r where c: "tick_pipelines env ready fl (ru_reactor u) = (x, r)" by (meson surj_pair)
  have i: "inside (ru_reactor u) r" by (rule tick_pipelines_post [OF c])
  then have r: "rinv r" "loop_serves (ru_shared u) r" using k loop_serves_inside by (auto simp: inside_def)
  have m: "runtime_inv (u\<lparr>ru_reactor := r, ru_pc := pc\<rparr>)" if "pc \<noteq> R_absent" "pc_ok pc (ru_shared u) r" for pc
    using inv_moves [OF u _ _ that(1) r(1) that(2)] R_ticking by simp
  show ?thesis
    using v R_ticking r k by (auto simp: c ending_def split: outcome.split_asm intro!: m)
next
  case (R_checking fl)
  then have "pc_ok (R_marking (leaves fl (ru_shared u))) (ru_shared u) (ru_reactor u)"
    using u by (auto simp: runtime_inv_def leaves_def ending_def)
  then show ?thesis using v inv_stays [OF u] R_checking by auto
next
  case (R_marking plan)
  then have v: "v = u\<lparr>ru_shared := (ru_shared u)\<lparr>rs_reactor_exiting := True\<rparr>, ru_pc := R_marked plan\<rparr>" using v by simp
  show ?thesis
    using u R_marking
    by (intro inv_reactor [OF u]) (auto simp: v runtime_inv_def joins_ok_def advances_def concluded_def
        unborn_def loop_serves_def ending_def split: leave_plan.split)
next
  case (R_marked plan)
  then show ?thesis using v inv_stays [OF u] u by (auto simp: runtime_inv_def split: if_split_asm)
next
  case (R_leaving plan)
  then show ?thesis using leaving_inv [OF u] v by simp
next
  case (R_finishing fl)
  then have v: "v = u\<lparr>ru_shared := finish fl (ru_shared u), ru_pc := R_ended\<rparr>" using v by simp
  have "pc_ok (R_finishing fl) (ru_shared u) (ru_reactor u)" using u R_finishing by (simp add: runtime_inv_def)
  note f = finish_ok [OF this]
  show ?thesis
    using u R_finishing f
    by (intro inv_reactor [OF u]) (auto simp: v runtime_inv_def joins_ok_def advances_def concluded_def simp del: pc_ok.simps)
next
  case R_ended
  then show ?thesis using v by simp
qed

subsection \<open>The steps of the callers\<close>

lemma created_absent: "pc_ok pc sh r \<Longrightarrow> rs_state sh = R_kCreated \<Longrightarrow> pc = R_absent"
  by (cases pc) (auto simp: unborn_def loop_serves_def ending_def split: leave_plan.split_asm)

lemma pc_ok_outside: "pc_ok pc sh r \<Longrightarrow> outside r r' \<Longrightarrow> pc_ok pc sh r'"
  by (cases pc) (auto simp: outside_def loop_serves_def ending_def all_idle_def all_stopped_def split: leave_plan.split_asm)

lemma register_entered:
  assumes "register_pipeline alloc p ss u = (s, v)" "rinv (ru_reactor u)" "pc_ok (ru_pc u) (ru_shared u) (ru_reactor u)"
  shows "ru_pc v = ru_pc u" "ru_clients v = ru_clients u" "rinv (ru_reactor v)"
    "pc_ok (ru_pc v) (ru_shared v) (ru_reactor v)" "advances (ru_shared u) pc (ru_shared v) pc"
    "joins_ok (ru_shared v) pc = joins_ok (ru_shared u) pc"
    "rs_wake_in_flight (ru_shared v) = rs_wake_in_flight (ru_shared u)"
    "rs_join_claimed (ru_shared v) = rs_join_claimed (ru_shared u)"
proof -
  have c: "rs_state (ru_shared u) = R_kCreated \<Longrightarrow> ru_pc u = R_absent"
    by (rule created_absent [OF assms(3)])
  show "ru_pc v = ru_pc u" "ru_clients v = ru_clients u" "advances (ru_shared u) pc (ru_shared v) pc"
    "joins_ok (ru_shared v) pc = joins_ok (ru_shared u) pc"
    "rs_wake_in_flight (ru_shared v) = rs_wake_in_flight (ru_shared u)"
    "rs_join_claimed (ru_shared v) = rs_join_claimed (ru_shared u)"
    using assms(1)
    by (auto simp: register_pipeline_def Let_def advances_def joins_ok_def concluded_def
        split: if_split_asm option.split_asm sum.split_asm)
  show "rinv (ru_reactor v)"
    using assms(1,2)
    by (auto simp: register_pipeline_def Let_def rinv_def known_def split: if_split_asm option.split_asm sum.split_asm)
  show "pc_ok (ru_pc v) (ru_shared v) (ru_reactor v)"
    using assms(1,3) c
    by (auto simp: register_pipeline_def Let_def all_idle_def split: if_split_asm option.split_asm sum.split_asm)
qed

lemma start_entered:
  assumes "start_enter thread u = (c, v)" "pc_ok (ru_pc u) (ru_shared u) (ru_reactor u)" "joins_ok (ru_shared u) (ru_pc u)"
  shows "ru_clients v = ru_clients u" "ru_reactor v = ru_reactor u"
    "pc_ok (ru_pc v) (ru_shared v) (ru_reactor v)" "advances (ru_shared u) (ru_pc u) (ru_shared v) (ru_pc v)"
    "joins_ok (ru_shared v) (ru_pc v)" "rs_wake_in_flight (ru_shared v) = rs_wake_in_flight (ru_shared u)"
    "rs_join_claimed (ru_shared v) = rs_join_claimed (ru_shared u)" "client_ok (ru_shared v) (ru_pc v) c"
    "\<not> waking c" "\<not> joining c"
proof -
  have h: "\<not> st_ok (handled e)" for e by (cases e) (simp_all add: handled_def)
  have c: "rs_state (ru_shared u) = R_kCreated \<Longrightarrow> ru_pc u = R_absent"
    by (rule created_absent [OF assms(2)])
  show "ru_clients v = ru_clients u" "ru_reactor v = ru_reactor u" "\<not> waking c" "\<not> joining c"
    "client_ok (ru_shared v) (ru_pc v) c"
    using assms(1) by (auto simp: start_enter_def Let_def split: if_split_asm option.split_asm)
  show "pc_ok (ru_pc v) (ru_shared v) (ru_reactor v)" "advances (ru_shared u) (ru_pc u) (ru_shared v) (ru_pc v)"
    "joins_ok (ru_shared v) (ru_pc v)" "rs_wake_in_flight (ru_shared v) = rs_wake_in_flight (ru_shared u)"
    "rs_join_claimed (ru_shared v) = rs_join_claimed (ru_shared u)"
    using assms c h
    by (auto simp: start_enter_def Let_def start_refused_def unborn_def advances_def concluded_def joins_ok_def
        split: if_split_asm option.split_asm)
qed

lemma stop_entered:
  assumes "stop_enter sh = Some (c, sh')" "pc_ok pc sh r" "joins_ok sh pc"
  shows "pc_ok pc sh' r" "advances sh pc sh' pc" "joins_ok sh' pc" "client_ok sh' pc c" "\<not> joining c"
    "rs_wake_in_flight sh' = rs_wake_in_flight sh + of_bool (waking c)" "rs_join_claimed sh' = rs_join_claimed sh"
proof -
  show "\<not> joining c" "rs_wake_in_flight sh' = rs_wake_in_flight sh + of_bool (waking c)"
    "rs_join_claimed sh' = rs_join_claimed sh" "joins_ok sh' pc"
    using assms(1,3) by (auto simp: stop_enter_def Let_def joins_ok_def split: if_split_asm)
  show "pc_ok pc sh' r"
    using assms(1,2)
    by (cases pc) (auto simp: stop_enter_def Let_def unborn_def loop_serves_def ending_def split: if_split_asm leave_plan.split_asm)
  show "advances sh pc sh' pc"
    using assms(1,2)
    by (cases pc) (auto simp: stop_enter_def Let_def advances_def concluded_def unborn_def loop_serves_def split: if_split_asm)
  show "client_ok sh' pc c"
    using assms(1,2)
    by (cases pc) (auto simp: stop_enter_def Let_def concluded_def unborn_def loop_serves_def ending_def split: if_split_asm leave_plan.split_asm)
qed

lemma member_counts:
  assumes "tallied sh cs" "c \<in> set cs"
  shows "waking c \<Longrightarrow> 0 < rs_wake_in_flight sh" "joining c \<Longrightarrow> rs_join_claimed sh"
proof -
  show "0 < rs_wake_in_flight sh" if "waking c"
  proof -
    have "filter waking cs \<noteq> []" using assms(2) that by (auto simp: filter_empty_conv)
    then show ?thesis using assms(1) by (auto simp: tallied_def simp flip: length_greater_0_conv)
  qed
  show "rs_join_claimed sh" if "joining c"
  proof -
    have "filter joining cs \<noteq> []" using assms(2) that by (auto simp: filter_empty_conv)
    then show ?thesis using assms(1) by (cases "rs_join_claimed sh") (auto simp: tallied_def)
  qed
qed

lemma stop_left:
  assumes "stop_woke s sh = (c, sh')" "pc_ok pc sh r" "joins_ok sh pc" "0 < rs_wake_in_flight sh" "rs_state sh \<noteq> R_kCreated"
  shows "pc_ok pc sh' r" "advances sh pc sh' pc" "joins_ok sh' pc" "client_ok sh' pc c" "\<not> joining c" "\<not> waking c"
    "Suc (rs_wake_in_flight sh') = rs_wake_in_flight sh" "rs_join_claimed sh' = rs_join_claimed sh"
proof -
  show "pc_ok pc sh' r"
    using assms(1,2,4)
    by (cases pc) (auto simp: stop_woke_def unborn_def loop_serves_def ending_def split: leave_plan.split_asm)
  show "advances sh pc sh' pc"
    using assms(1,2,4) by (cases pc) (auto simp: stop_woke_def advances_def concluded_def)
qed (use assms in \<open>auto simp: stop_woke_def joins_ok_def\<close>)

lemma join_entered:
  assumes "join_enter a sh = Some (c, sh')" "pc_ok pc sh r" "joins_ok sh pc" "client_ok sh pc (Join_called a)"
  shows "pc_ok pc sh' r" "advances sh pc sh' pc" "joins_ok sh' pc" "client_ok sh' pc c" "\<not> waking c"
    "rs_wake_in_flight sh' = rs_wake_in_flight sh"
    "of_bool (rs_join_claimed sh') = of_bool (rs_join_claimed sh) + (of_bool (joining c) :: nat)"
proof -
  have st: "concluded sh pc" if "\<not> rs_joinable sh"
    using that assms(2-4) by (auto simp: joins_ok_def concluded_def)
  have eq: "concluded sh' pc = concluded sh pc" "rs_stop_result sh' = rs_stop_result sh" "rs_state sh' = rs_state sh"
    using assms(1) by (auto simp: join_enter_def concluded_def split: if_split_asm)
  have ao: "after_ok sh' pc a = after_ok sh pc a" using eq by (cases a) auto
  show "pc_ok pc sh' r"
    using assms(1-3)
    by (cases pc) (auto simp: join_enter_def joins_ok_def unborn_def loop_serves_def ending_def split: if_split_asm leave_plan.split_asm)
  show "client_ok sh' pc c"
    using assms(1,3,4) st eq ao by (auto simp: join_enter_def joins_ok_def split: if_split_asm)
  show "advances sh pc sh' pc" using assms(1) eq by (auto simp: advances_def join_enter_def split: if_split_asm)
qed (use assms in \<open>auto simp: join_enter_def joins_ok_def split: if_split_asm\<close>)

lemma joined_keeps:
  assumes "pc_ok R_ended sh r" "joins_ok sh R_ended" "client_ok sh R_ended (Join_owner a)"
  shows "pc_ok R_ended (sh\<lparr>rs_joinable := False\<rparr>) r" "joins_ok (sh\<lparr>rs_joinable := False\<rparr>) R_ended"
    "advances sh R_ended (sh\<lparr>rs_joinable := False\<rparr>) R_ended" "client_ok (sh\<lparr>rs_joinable := False\<rparr>) R_ended (Join_ended a)"
  using assms by (cases a; auto simp: joins_ok_def advances_def concluded_def)+

lemma released_keeps:
  assumes "pc_ok pc sh r" "joins_ok sh pc" "client_ok sh pc (Join_ended a)"
    and "sh' = sh\<lparr>rs_join_claimed := False, rs_join_completed := True\<rparr>"
  shows "pc_ok pc sh' r" "joins_ok sh' pc" "advances sh pc sh' pc" "client_ok sh' pc (Join_done a)"
proof -
  show "pc_ok pc sh' r"
    using assms(1,4) by (cases pc) (auto simp: unborn_def loop_serves_def ending_def split: leave_plan.split_asm)
  have "concluded sh pc" using assms(1-3) by (auto simp: joins_ok_def concluded_def)
  then show "client_ok sh' pc (Join_done a)"
    using assms(3,4) by (cases a) (auto simp: concluded_def)
qed (use assms in \<open>auto simp: joins_ok_def advances_def concluded_def\<close>)

lemma client_step_inv:
  assumes u: "runtime_inv u" and i: "i < length (ru_clients u)"
    and st: "client_step env (ru_clients u ! i) u = Some (c, v)"
  shows "runtime_inv (v\<lparr>ru_clients := (ru_clients u)[i := c]\<rparr>)"
proof -
  let ?sh = "ru_shared u" and ?pc = "ru_pc u" and ?r = "ru_reactor u" and ?c = "ru_clients u ! i"
  have k: "rinv ?r" "pc_ok ?pc ?sh ?r" "joins_ok ?sh ?pc" "tallied ?sh (ru_clients u)" "client_ok ?sh ?pc ?c"
    using u i by (simp_all add: runtime_inv_def)
  have wk: "waking ?c \<Longrightarrow> 0 < rs_wake_in_flight ?sh" and jn: "joining ?c \<Longrightarrow> rs_join_claimed ?sh"
    using member_counts [OF k(4), of ?c] i by auto
  have plain: "runtime_inv (u\<lparr>ru_clients := (ru_clients u)[i := d]\<rparr>)"
    if "client_ok ?sh ?pc d" "waking d = waking ?c" "joining d = joining ?c" for d
    using that k by (intro inv_client [OF u i, where c = d]) auto
  have shared: "runtime_inv (u\<lparr>ru_shared := sh, ru_clients := (ru_clients u)[i := d]\<rparr>)"
    if "pc_ok ?pc sh ?r" "joins_ok sh ?pc" "advances ?sh ?pc sh ?pc" "client_ok sh ?pc d"
      "rs_wake_in_flight sh + of_bool (waking ?c) = rs_wake_in_flight ?sh + of_bool (waking d)"
      "of_bool (rs_join_claimed sh) + of_bool (joining ?c) = of_bool (rs_join_claimed ?sh) + (of_bool (joining d) :: nat)" for sh d
    using that k(1) by (intro inv_client [OF u i, where c = d]) auto
  show ?thesis
  proof (cases ?c)
    case (Register_called alloc p ss)
    then obtain s where r: "register_pipeline alloc p ss u = (s, v)" "c = Register_returned s"
      using st by (auto split: prod.split_asm)
    show ?thesis
      using register_entered [OF r(1) k(1,2)] k Register_called r(2)
      by (intro inv_client [OF u i, where c = c]) auto
  next
    case (Start_called thread)
    then have r: "start_enter thread u = (c, v)" using st by simp
    show ?thesis
      using start_entered [OF r k(2,3)] k Start_called by (intro inv_client [OF u i, where c = c]) auto
  next
    case Start_waiting
    then show ?thesis using st plain [of Start_released] k(5) by (auto split: if_split_asm)
  next
    case Start_released
    then show ?thesis using st plain k(5) by (auto simp: Let_def split: if_split_asm)
  next
    case Stop_called
    then obtain sh where r: "stop_enter ?sh = Some (c, sh)" "v = u\<lparr>ru_shared := sh\<rparr>"
      using st by (auto simp: with_shared_def)
    show ?thesis using stop_entered [OF r(1) k(2,3)] r(2) Stop_called by (auto intro!: shared)
  next
    case Stop_waking
    then obtain s r where r: "on_loop (loop_wake (re_loop env)) ?r = (s, r)" "c = Stop_woken s" "v = u\<lparr>ru_reactor := r\<rparr>"
      using st by (auto split: prod.split_asm)
    have o: "outside ?r r"
      using r(1) by (auto simp: on_loop_def outside_def event_fd_def dest!: wake_fds split: prod.split_asm)
    then show ?thesis
      using r k Stop_waking pc_ok_outside [OF k(2) o] outside_inside [OF o]
      by (intro inv_client [OF u i, where c = c]) (auto simp: inside_def)
  next
    case (Stop_woken s)
    then obtain sh where r: "stop_woke s ?sh = (c, sh)" "v = u\<lparr>ru_shared := sh\<rparr>"
      using st by (auto simp: with_shared_def split: prod.split_asm)
    show ?thesis
      using stop_left [OF r(1) k(2,3)] wk k(5) r(2) Stop_woken by (auto intro!: shared)
  next
    case (Join_called a)
    then obtain sh where r: "join_enter a ?sh = Some (c, sh)" "v = u\<lparr>ru_shared := sh\<rparr>"
      using st by (auto simp: with_shared_def)
    show ?thesis
      using join_entered [OF r(1) k(2,3)] k(5) r(2) Join_called by (auto intro!: shared)
  next
    case (Join_owner a)
    then have r: "?pc = R_ended" "c = Join_ended a" "v = u\<lparr>ru_shared := ?sh\<lparr>rs_joinable := False\<rparr>\<rparr>"
      using st by (auto split: if_split_asm)
    show ?thesis
      using joined_keeps [of ?sh ?r a] k r Join_owner by (auto intro!: shared simp del: pc_ok.simps client_ok.simps)
  next
    case (Join_ended a)
    then have r: "c = Join_done a" "v = u\<lparr>ru_shared := ?sh\<lparr>rs_join_claimed := False, rs_join_completed := True\<rparr>\<rparr>"
      using st by auto
    show ?thesis
      using released_keeps [OF k(2,3) _ refl, of a] k(5) jn r Join_ended
      by (auto intro!: shared simp del: pc_ok.simps client_ok.simps)
  next
    case (Join_done a)
    then show ?thesis using st plain k(5) by (cases a) auto
  qed (use st in auto)
qed

subsection \<open>Every interleaving\<close>

lemma runtime_step_inv: "runtime_step env u v \<Longrightarrow> runtime_inv u \<Longrightarrow> runtime_inv v"
proof (induction rule: runtime_step.induct)
  case (step_call c u)
  have "\<not> waking c \<and> \<not> joining c \<and> client_ok (ru_shared u) (ru_pc u) c" using step_call(1) by (cases c) auto
  then show ?case using step_call(2) by (auto simp: runtime_inv_def tallied_def)
next
  case (step_client i u c v)
  then show ?case using client_step_inv by blast
next
  case (step_reactor u v)
  then show ?case using reactor_step_inv by blast
qed

text \<open>The pipelines that the client hands over are at rest.\<close>

definition objects_ok :: "(nat \<Rightarrow> 'w pipeline) \<Rightarrow> bool" where
  "objects_ok objects \<longleftrightarrow> (\<forall>i. pipeline_inv (objects i) \<and> idle (objects i))"

lemma runtime_new_inv: "objects_ok objects \<Longrightarrow> runtime_inv (runtime_new loop objects)"
  by (simp add: objects_ok_def runtime_inv_def runtime_new_def shared_new_def rinv_def all_idle_def joins_ok_def tallied_def)

lemma reachable_inv:
  "runtime_reachable env (runtime_new loop objects) u \<Longrightarrow> objects_ok objects \<Longrightarrow> runtime_inv u"
  by (induction rule: runtime_reachable.induct) (auto intro: runtime_new_inv runtime_step_inv)

end
