(* ===== verification/Runtime_Progress.thy ===== *)
theory Runtime_Progress
  imports Runtime_Safety Event_Loop_Contract
begin

text \<open>
  That a runtime which is asked to stop does stop. A drain ends under a clock that does not go back: a
  pass either stops a pipeline or the time comes nearer to the deadline. With it no interleaving of
  the threads is stuck before every caller has returned.
\<close>

declare split_paired_Ex [simp del]

subsection \<open>A steady clock\<close>

definition nanoseconds :: "timespec \<Rightarrow> int" where
  "nanoseconds t = tv_sec t * 1000000000 + tv_nsec t"

definition normal_time :: "timespec \<Rightarrow> bool" where
  "normal_time t \<longleftrightarrow> 0 \<le> tv_nsec t \<and> tv_nsec t < 1000000000"

text \<open>\<open>now\<close> is the monotonic clock of a world in nanoseconds: \<open>clock_gettime\<close> reads it, and a
  \<open>clock_nanosleep\<close> that succeeds returns when its time has come.\<close>

definition steady_clock :: "('w \<Rightarrow> int) \<Rightarrow> 'w runtime_env \<Rightarrow> bool" where
  "steady_clock now env \<longleftrightarrow>
     (\<forall>w q w'. le_call (re_loop env) Runtime_monotonic_now w = (Ret q, w') \<longrightarrow> 0 \<le> rt_result q \<longrightarrow>
        normal_time (rt_time q) \<and> now w \<le> nanoseconds (rt_time q))
     \<and> (\<forall>t w q w'. le_call (re_loop env) (Monotonic_sleep_until t) w = (Ret q, w') \<longrightarrow> rt_result q = 0 \<longrightarrow>
        normal_time t \<longrightarrow> nanoseconds t \<le> now w')"

text \<open>No function of a node turns the clock back.\<close>

definition onward :: "('w \<Rightarrow> int) \<Rightarrow> (nat \<Rightarrow> 'w hooks list) \<Rightarrow> bool" where
  "onward now hooks \<longleftrightarrow> (\<forall>i t. node_contract (\<lambda>w. t \<le> now w) (set (hooks i)))"

abbreviation clock :: "('w \<Rightarrow> int) \<Rightarrow> 'w reactor \<Rightarrow> int" where
  "clock now r \<equiv> now (el_world (ra_loop r))"

lemma reached_iff: "normal_time a \<Longrightarrow> normal_time b \<Longrightarrow> reached a b \<longleftrightarrow> nanoseconds b \<le> nanoseconds a"
  by (auto simp: reached_def nanoseconds_def normal_time_def)

lemma earlier_iff: "normal_time a \<Longrightarrow> normal_time b \<Longrightarrow> earlier a b \<longleftrightarrow> nanoseconds a < nanoseconds b"
  by (auto simp: earlier_def nanoseconds_def normal_time_def)

lemma add_milliseconds_time:
  assumes "add_milliseconds start ms = Inr t"
  shows "normal_time t" "nanoseconds t = nanoseconds start + ms * 1000000"
proof -
  have k: "0 \<le> tv_nsec start" "tv_nsec start < 1000000000" "0 \<le> ms"
    using assms by (auto simp: add_milliseconds_def Let_def err_def split: if_split_asm)
  have m: "c_mod ms 1000 = ms mod 1000" "c_div ms 1000 = ms div 1000"
    using k(3) by (simp_all add: c_mod_def minus_div_mult_eq_mod)
  have t: "t = (let n = tv_nsec start + ms mod 1000 * 1000000; carry = (if n \<ge> 1000000000 then 1 else 0)
      in \<lparr>tv_sec = tv_sec start + ms div 1000 + carry, tv_nsec = n - carry * 1000000000\<rparr>)"
    using assms by (simp add: add_milliseconds_def Let_def err_def m split: if_split_asm)
  have r: "0 \<le> ms mod 1000" "ms mod 1000 < 1000" "ms = 1000 * (ms div 1000) + ms mod 1000" by simp_all
  show "normal_time t" using k r(1,2) by (auto simp: t Let_def normal_time_def)
  have "d * 1000000000 + m * 1000000 = (1000 * d + m) * 1000000" for d m :: int by (simp add: distrib_right)
  from this [of "ms div 1000" "ms mod 1000"]
  have "ms div 1000 * 1000000000 + ms mod 1000 * 1000000 = ms * 1000000" by (simp only: r(3) [symmetric])
  then show "nanoseconds t = nanoseconds start + ms * 1000000" by (simp add: t Let_def nanoseconds_def)
qed

lemma retry_later:
  assumes "normal_time t" "normal_time deadline" "nanoseconds t < nanoseconds deadline"
  shows "nanoseconds t < nanoseconds (retry_time t deadline)" "normal_time (retry_time t deadline)"
  using assms add_milliseconds_time
  by (auto simp: retry_time_def kDrainBackoffMilliseconds_def split: sum.split)

lemma sleep_reaches:
  assumes "steady_clock now env" "normal_time t"
  shows "sleep_attempts n env t r = (Ret s, r') \<Longrightarrow> st_ok s \<Longrightarrow> nanoseconds t \<le> clock now r'"
proof (induction n arbitrary: r)
  case 0
  then show ?case
    using assms
    by (auto simp: steady_clock_def runtime_call_def on_world_def on_loop_def sleep_failure_def
        split: prod.split_asm outcome.split_asm if_split_asm)
next
  case (Suc n)
  obtain q w where c: "le_call (re_loop env) (Monotonic_sleep_until t) (el_world (ra_loop r)) = (q, w)" by (meson surj_pair)
  then show ?case
    using Suc assms
    by (auto simp: steady_clock_def runtime_call_def on_world_def on_loop_def sleep_failure_def
        split: outcome.split_asm if_split_asm)
qed

lemma pause_onward:
  assumes "drain_pause env deadline made_progress fl r = (Ret (True, fl'), r')" "\<not> made_progress"
    and "steady_clock now env" "normal_time deadline"
  shows "clock now r < nanoseconds deadline" "clock now r < clock now r'"
proof -
  obtain q w where c: "le_call (re_loop env) Runtime_monotonic_now (el_world (ra_loop r)) = (q, w)" by (meson surj_pair)
  define r1 where "r1 = r\<lparr>ra_loop := (ra_loop r)\<lparr>el_world := w\<rparr>\<rparr>"
  have m: "runtime_call env Runtime_monotonic_now r = (q, r1)"
    by (simp add: runtime_call_def on_world_def on_loop_def c r1_def)
  obtain y where y: "q = Ret y" "0 \<le> rt_result y" "\<not> reached (rt_time y) deadline"
    "\<exists>s. wait_before_retry env (rt_time y) deadline r1 = (Ret s, r') \<and> st_ok s"
    using assms(1,2)
    by (auto simp: drain_pause_def m not_less split: outcome.split_asm if_split_asm prod.split_asm)
  have t: "normal_time (rt_time y)" "clock now r \<le> nanoseconds (rt_time y)"
    using assms(3) c y(1,2) unfolding steady_clock_def by blast+
  have d: "nanoseconds (rt_time y) < nanoseconds deadline"
    using y(3) reached_iff [OF t(1) assms(4)] by simp
  have "nanoseconds (retry_time (rt_time y) deadline) \<le> clock now r'"
    using y(4) sleep_reaches [OF assms(3) retry_later(2) [OF t(1) assms(4) d]] unfolding wait_before_retry_def by blast
  then show "clock now r < nanoseconds deadline" "clock now r < clock now r'"
    using t(2) d retry_later(1) [OF t(1) assms(4) d] by linarith+
qed

subsection \<open>A drain ends\<close>

lemma stop_onward:
  assumes "on_pipeline pipeline_stop i r = (x, r')" "rinv r" "onward now (hooks_of r)"
  shows "clock now r \<le> clock now r'"
proof -
  have c: "node_contract (\<lambda>w. clock now r \<le> now w) (set (hooks_of r i))" using assms(3) by (simp add: onward_def)
  have wf: "pipeline_wf (ra_objects r i)" using assms(2) by (simp add: rinv_def pipeline_inv_def)
  have n: "nodes_in (set (hooks_of r i)) (ra_objects r i)" by (simp add: nodes_in_def hooks_of_def)
  have "clock now r \<le> now w" if "pipeline_stop (ra_objects r i) (el_world (ra_loop r)) = (y, p, w)" for y p w
    by (rule node_contract.pipeline_keeps(2) [OF c wf n order_refl that])
  then show ?thesis using assms(1) by (auto simp: on_pipeline_def split: prod.split_asm)
qed

lemma drain_pass_onward:
  "drain_pass env index d fl r = (Ret (d', fl'), r') \<Longrightarrow> index \<le> length (ra_records r) \<Longrightarrow> rinv r \<Longrightarrow> drained d r \<Longrightarrow>
     onward now (hooks_of r) \<Longrightarrow> st_ok (fl_media fl') \<Longrightarrow>
     clock now r \<le> clock now r' \<and> dn_remaining d' \<le> dn_remaining d
       \<and> (dn_progress d' \<longrightarrow> dn_progress d \<or> dn_remaining d' < dn_remaining d)"
proof (induction index arbitrary: d r)
  case (Suc index)
  show ?case
  proof (cases "dn_stopped d ! index")
    case True
    then show ?thesis using Suc by simp
  next
    case False
    let ?i = "rr_pipeline (ra_records r ! index)"
    obtain y r1 where c: "on_pipeline pipeline_stop ?i r = (y, r1)" by (meson surj_pair)
    have "inside r r1" using stop_inside [OF c] Suc.prems(2) by simp
    then have r1: "rinv r1" "ra_records r1 = ra_records r" "onward now (hooks_of r1)"
      using Suc.prems(3,5) by (simp_all add: inside_def)
    have t: "clock now r \<le> clock now r1" by (rule stop_onward [OF c Suc.prems(3,5)])
    obtain s where s: "y = Ret s" using Suc.prems(1) False by (auto simp: c split: outcome.split_asm)
    note d = stop_drained [OF c [unfolded s] Suc.prems(3,4) _ False]
    have "\<not> dn_stopped d ! index" "index < length (dn_stopped d)" "dn_remaining d = length (filter Not (dn_stopped d))"
      using False Suc.prems(2,4) by (simp_all add: drained_def)
    then have "filter Not (dn_stopped d) \<noteq> []" unfolding filter_empty_conv using nth_mem by blast
    then have left: "0 < dn_remaining d" using \<open>dn_remaining d = _\<close> by simp
    note ih = Suc.IH [of _ r1, OF _ _ r1(1) _ r1(3) Suc.prems(6)]
    show ?thesis
    proof (cases "st_ok s")
      case True
      let ?d = "d\<lparr>dn_stopped := (dn_stopped d)[index := True], dn_remaining := dn_remaining d - 1, dn_progress := True\<rparr>"
      have "clock now r1 \<le> clock now r' \<and> dn_remaining d' \<le> dn_remaining ?d"
        using ih [of ?d] Suc.prems(1,2) False True s d r1(2) by (simp add: c)
      then show ?thesis using t left by auto
    next
      case fails: False
      show ?thesis
      proof (cases "st_code s = kWouldBlock \<or> st_code s = kNotFound")
        case True
        then have "drain_pass env index d fl r1 = (Ret (d', fl'), r')"
          using Suc.prems(1) False fails s by (simp add: c)
        from ih [OF this] show ?thesis using t Suc.prems(2) r1(2) d fails by auto
      next
        case no: False
        then obtain fl2 where "observed (re_on_failure env) (media_failed s fl, r1) = (fl2, r')" "fl' = fl2"
          using Suc.prems(1) False fails s by (auto simp: c split: prod.split_asm)
        then have "\<not> st_ok (fl_media fl')"
          using observed_post(2) [of "re_on_failure env" "media_failed s fl" r1 fl2 r'] fails
          by (auto simp: media_failed_def record_first_def)
        then show ?thesis using Suc.prems(6) by simp
      qed
    qed
  qed
qed auto

text \<open>Either a pass stops a pipeline, or the time has come nearer to the deadline.\<close>

lemma drain_turns_end:
  assumes "steady_clock now env" "normal_time deadline"
  shows "rinv r \<Longrightarrow> drained d r \<Longrightarrow> onward now (hooks_of r) \<Longrightarrow> drain_turns env deadline d fl r \<noteq> None"
proof (induction "(d, fl, r)" arbitrary: d fl r rule: wf_induct_rule [OF wf_measures
      [where fs = "[\<lambda>(d, fl, r). dn_remaining d, \<lambda>(d, fl, r). nat (nanoseconds deadline - clock now r)]"]])
  case less: (1 d fl r)
  show ?case
  proof (cases "dn_remaining d > 0 \<and> st_ok (fl_media fl) \<and> st_ok (fl_reactor fl)")
    case False
    then show ?thesis by (subst drain_turns.simps) auto
  next
    case True
    obtain z r1 where p: "drain_pass env (length (ra_records r)) (d\<lparr>dn_progress := False\<rparr>) fl r = (z, r1)" by (meson surj_pair)
    note post = drain_pass_post [OF p order_refl less.prems(1)]
    note time = drain_pass_onward [of env _ "d\<lparr>dn_progress := False\<rparr>", OF _ order_refl less.prems(1) _ less.prems(3)]
    have eq: "drain_turns env deadline d fl r = (case z of
          Throw e \<Rightarrow> Some (Throw e, r1)
        | Ret (d, fl) \<Rightarrow>
            if dn_remaining d = 0 \<or> \<not> st_ok (fl_media fl) then Some (Ret fl, r1)
            else (case drain_pause env deadline (dn_progress d) fl r1 of
               (Throw e, r) \<Rightarrow> Some (Throw e, r)
             | (Ret (again, fl), r) \<Rightarrow> if again then drain_turns env deadline d fl r else Some (Ret fl, r)))"
      by (subst drain_turns.simps) (simp add: True p split: outcome.split prod.split)
    consider (ended) "drain_turns env deadline d fl r \<noteq> None"
      | (again) d1 fl1 r2 fl2 where "z = Ret (d1, fl1)" "st_ok (fl_media fl1)"
        "drain_pause env deadline (dn_progress d1) fl1 r1 = (Ret (True, fl2), r2)"
        "drain_turns env deadline d fl r = drain_turns env deadline d1 fl2 r2"
      using eq by (auto split: outcome.split_asm prod.split_asm if_split_asm)
    then show ?thesis
    proof cases
      case again
      have q: "outside r1 r2" by (rule drain_pause_outside [OF again(3)])
      have k: "rinv r2" "drained d1 r2" "onward now (hooks_of r2)"
        using post again(1) less.prems inside_trans [of r r1 r2] outside_inside [OF q] drained_outside [OF q]
        by (auto simp: inside_def)
      have t: "clock now r \<le> clock now r1" "dn_remaining d1 \<le> dn_remaining d" "dn_progress d1 \<longrightarrow> dn_remaining d1 < dn_remaining d"
        using time [OF p [unfolded again(1)]] less.prems(2) again(2) by auto
      have "((d1, fl2, r2), (d, fl, r)) \<in> measures [\<lambda>(d, fl, r). dn_remaining d,
          \<lambda>(d, fl, r). nat (nanoseconds deadline - clock now r)]"
        using t pause_onward [OF again(3) _ assms] by fastforce
      from less.hyps [OF this k] show ?thesis using again(4) by simp
    qed
  qed
qed

lemma drain_ends:
  assumes "steady_clock now env" "rinv r" "onward now (hooks_of r)"
  shows "drain env fl r \<noteq> None"
proof -
  obtain q r1 where c: "runtime_call env Runtime_monotonic_now r = (q, r1)" by (meson surj_pair)
  have k: "rinv r1" "onward now (hooks_of r1)"
    using outside_inside [OF runtime_call_outside [OF c]] assms(2,3) by (simp_all add: inside_def)
  let ?d = "\<lparr>dn_stopped = replicate (length (ra_records r1)) False, dn_remaining = length (ra_records r1), dn_progress = False\<rparr>"
  have "drained ?d r1" by (simp add: drained_def filter_replicate)
  then have t: "drain_turns env deadline ?d fl r1 \<noteq> None" if "normal_time deadline" for deadline
    using drain_turns_end [OF assms(1) that k(1) _ k(2)] by blast
  have "drain_until env deadline fl r1 \<noteq> None" if "normal_time deadline" for deadline
    using t [OF that] by (auto simp: drain_until_def split: option.split outcome.split prod.split)
  then show ?thesis
    using add_milliseconds_time(1)
    by (fastforce simp: drain_def c split: outcome.split prod.split sum.split)
qed

lemma leave_ends:
  assumes "steady_clock now env" "rinv r" "onward now (hooks_of r)"
  shows "reactor_leave env plan r \<noteq> None"
proof (cases plan)
  case (Plan_drain fl)
  then show ?thesis using drain_ends [OF assms, of fl] by (auto split: outcome.split prod.split)
qed (auto split: prod.split)

subsection \<open>The functions of the nodes stay the same\<close>

lemma register_hooks: "register_pipeline alloc p ss u = (s, v) \<Longrightarrow> hooks_of (ru_reactor v) = hooks_of (ru_reactor u)"
  by (auto simp: register_pipeline_def Let_def hooks_of_def fun_eq_iff split: if_split_asm option.split_asm sum.split_asm)

lemma client_step_hooks:
  assumes "client_step env c u = Some (d, v)"
  shows "hooks_of (ru_reactor v) = hooks_of (ru_reactor u)"
proof (cases c)
  case (Register_called alloc p ss)
  then show ?thesis using assms register_hooks [of alloc p ss u] by (auto split: prod.split_asm)
next
  case (Start_called thread)
  then show ?thesis using assms by (auto simp: start_enter_def Let_def split: if_split_asm option.split_asm)
qed (use assms in \<open>auto simp: with_shared_def on_loop_def hooks_of_def fun_eq_iff Let_def split: if_split_asm prod.split_asm\<close>)

lemma reactor_step_hooks:
  assumes u: "runtime_inv u" and v: "reactor_step env (ru_pc u) u = Some v"
  shows "hooks_of (ru_reactor v) = hooks_of (ru_reactor u)"
proof -
  let ?r = "ru_reactor u"
  have k: "rinv ?r" "pc_ok (ru_pc u) (ru_shared u) ?r" using u by (simp_all add: runtime_inv_def)
  have i: "inside ?r r \<Longrightarrow> hooks_of r = hooks_of ?r" for r using k(1) by (simp add: inside_def)
  show ?thesis
  proof (cases "ru_pc u")
    case R_starting
    then have "started ?r (reactor_startup env ?r)" using startup_post(1) [OF k(1), of env] k(2) by simp
    then show ?thesis
      using v R_starting by (auto simp: started_def split: prod.split_asm outcome.split_asm option.split_asm)
  next
    case (R_waiting fl)
    then show ?thesis
      using v i [OF outside_inside [OF wait_post(1)]] by (auto split: if_split_asm prod.split_asm option.split_asm)
  next
    case (R_ticking fl ready)
    then show ?thesis
      using v i [OF tick_pipelines_post] by (auto split: prod.split_asm outcome.split_asm)
  next
    case (R_leaving plan)
    then obtain x r where l: "reactor_leave env plan ?r = Some (x, r)" "ru_reactor v = r"
      using v by (auto split: option.split_asm prod.split_asm outcome.split_asm)
    have "case plan of Plan_cancel fl \<Rightarrow> \<not> all_ok fl | _ \<Rightarrow> True"
      using k(2) R_leaving by (simp add: ending_def split: leave_plan.split_asm)
    from leave_post [OF l(1) k(1) this] show ?thesis using l(2) by simp
  qed (use v in \<open>auto split: if_split_asm\<close>)
qed

lemma runtime_step_hooks:
  "runtime_step env u v \<Longrightarrow> runtime_inv u \<Longrightarrow> hooks_of (ru_reactor v) = hooks_of (ru_reactor u)"
  by (induction rule: runtime_step.induct) (simp_all add: client_step_hooks reactor_step_hooks)

lemma reachable_hooks:
  assumes "runtime_reachable env (runtime_new loop objects) u" "objects_ok objects"
  shows "hooks_of (ru_reactor u) = (\<lambda>i. map n_hooks (p_nodes (objects i)))"
  using assms
proof (induction rule: runtime_reachable.induct)
  case reachable_here
  then show ?case by (simp add: runtime_new_def hooks_of_def fun_eq_iff)
next
  case (reachable_step v v')
  then show ?case using runtime_step_hooks reachable_inv by metis
qed

subsection \<open>No thread is stuck\<close>

fun returned :: "client \<Rightarrow> bool" where
  "returned (Register_returned s) = True"
| "returned (Start_returned s) = True"
| "returned (Stop_returned s) = True"
| "returned c = False"

definition blocked :: "'w runtime_env \<Rightarrow> 'w runtime \<Rightarrow> bool" where
  "blocked env u \<longleftrightarrow> reactor_step env (ru_pc u) u = None \<and> (\<forall>c\<in>set (ru_clients u). client_step env c u = None)"

lemma reactor_blocked:
  assumes "runtime_inv u" "steady_clock now env" "onward now (hooks_of (ru_reactor u))" "reactor_step env (ru_pc u) u = None"
  shows "ru_pc u = R_absent \<or> ru_pc u = R_ended \<or> (\<exists>plan. ru_pc u = R_marked plan) \<and> 0 < rs_wake_in_flight (ru_shared u)"
proof (cases "ru_pc u")
  case (R_leaving plan)
  have "rinv (ru_reactor u)" using assms(1) by (simp add: runtime_inv_def)
  then show ?thesis
    using leave_ends [OF assms(2) _ assms(3), of plan] assms(4) R_leaving
    by (auto split: option.split_asm prod.split_asm outcome.split_asm)
qed (use assms(4) in \<open>auto split: if_split_asm prod.split_asm outcome.split_asm option.split_asm\<close>)

lemma blocked_ended:
  assumes u: "runtime_inv u" and "steady_clock now env" "onward now (hooks_of (ru_reactor u))" and b: "blocked env u"
  shows "(ru_pc u = R_absent \<or> ru_pc u = R_ended) \<and> (\<forall>c\<in>set (ru_clients u). returned c)"
proof -
  let ?sh = "ru_shared u" and ?cs = "ru_clients u" and ?r = "ru_reactor u"
  have k: "pc_ok (ru_pc u) ?sh ?r" "joins_ok ?sh (ru_pc u)" "tallied ?sh ?cs" "\<forall>c\<in>set ?cs. client_ok ?sh (ru_pc u) c"
    using u by (simp_all add: runtime_inv_def)
  have no: "client_step env c u = None" if "c \<in> set ?cs" for c using b that by (simp add: blocked_def)
  have "\<not> waking c" if "c \<in> set ?cs" for c
    using no [OF that] by (cases c) (auto simp: with_shared_def split: prod.split_asm)
  then have "filter waking ?cs = []" by (auto simp: filter_empty_conv)
  then have w: "rs_wake_in_flight ?sh = 0" using k(3) by (simp add: tallied_def)
  then have pc: "ru_pc u = R_absent \<or> ru_pc u = R_ended"
    using reactor_blocked [OF u assms(2,3)] b by (auto simp: blocked_def)
  then have st: "rs_state ?sh \<noteq> R_kStarting" using k(1) by auto
  have nj: "\<not> joining c" if "c \<in> set ?cs" for c
    using no [OF that] k(1) member_counts(2) [OF k(3) that] pc by (cases c) (auto split: if_split_asm)
  then have "filter joining ?cs = []" by (simp add: filter_empty_conv)
  then have j: "\<not> rs_join_claimed ?sh" using k(3) by (cases "rs_join_claimed ?sh") (simp_all add: tallied_def)
  have "returned c" if "c \<in> set ?cs" for c
  proof (cases c)
    case Start_waiting
    then have "ru_pc u = R_ended" using k(4) that pc by auto
    then show ?thesis using k(1) no [OF that] Start_waiting by (simp split: if_split_asm)
  next
    case Stop_called
    then show ?thesis using no [OF that] st by (auto simp: stop_enter_def Let_def split: if_split_asm)
  next
    case (Join_called a)
    then show ?thesis using no [OF that] j by (auto simp: join_enter_def split: if_split_asm)
  qed (use no [OF that] pc nj [OF that] in \<open>auto simp: with_shared_def Let_def split: prod.split_asm if_split_asm\<close>)
  then show ?thesis using pc by blast
qed

subsection \<open>How long a runtime that is asked to stop goes on\<close>

text \<open>What a thread has left to do at most, once the stop has been requested.\<close>

fun pc_rank :: "reactor_pc \<Rightarrow> nat" where
  "pc_rank R_absent = 16"
| "pc_rank R_starting = 15"
| "pc_rank R_publishing = 14"
| "pc_rank (R_ticking fl ready) = 13"
| "pc_rank (R_waiting fl) = 12"
| "pc_rank (R_turning fl ready) = 11"
| "pc_rank (R_checking fl) = 10"
| "pc_rank (R_marking plan) = (case plan of Plan_handle e \<Rightarrow> 6 | _ \<Rightarrow> 9)"
| "pc_rank (R_marked plan) = (case plan of Plan_handle e \<Rightarrow> 5 | _ \<Rightarrow> 8)"
| "pc_rank (R_leaving plan) = (case plan of Plan_handle e \<Rightarrow> 4 | _ \<Rightarrow> 7)"
| "pc_rank (R_finishing fl) = 3"
| "pc_rank R_ended = 0"

fun client_rank :: "client \<Rightarrow> nat" where
  "client_rank (Register_called alloc pipeline wait_sources) = 1"
| "client_rank (Start_called thread) = 7"
| "client_rank Start_waiting = 6"
| "client_rank Start_released = 5"
| "client_rank Stop_called = 7"
| "client_rank Stop_waking = 6"
| "client_rank (Stop_woken s) = 5"
| "client_rank (Join_called a) = 4"
| "client_rank (Join_owner a) = 3"
| "client_rank (Join_ended a) = 2"
| "client_rank (Join_done a) = 1"
| "client_rank c = 0"

definition stop_rank :: "'w runtime \<Rightarrow> nat" where
  "stop_rank u = pc_rank (ru_pc u) + sum_list (map client_rank (ru_clients u))"

text \<open>A step of a thread that is already there.\<close>

definition runtime_turn :: "'w runtime_env \<Rightarrow> 'w runtime \<Rightarrow> 'w runtime \<Rightarrow> bool" where
  "runtime_turn env u v \<longleftrightarrow> reactor_step env (ru_pc u) u = Some v
     \<or> (\<exists>i<length (ru_clients u). \<exists>c v'. client_step env (ru_clients u ! i) u = Some (c, v')
          \<and> v = v'\<lparr>ru_clients := (ru_clients u)[i := c]\<rparr>)"

lemma turn_step: "runtime_turn env u v \<Longrightarrow> runtime_step env u v"
  by (auto simp: runtime_turn_def intro: step_reactor step_client)

lemma finish_requested [simp]: "rs_stop_requested (finish fl sh) = rs_stop_requested sh"
  by (simp add: finish_def Let_def)

lemma reactor_step_rank:
  assumes "runtime_inv u" "reactor_step env (ru_pc u) u = Some v" "rs_stop_requested (ru_shared u)"
  shows "pc_rank (ru_pc v) < pc_rank (ru_pc u) \<and> rs_stop_requested (ru_shared v) \<and> ru_clients v = ru_clients u"
proof (cases "ru_pc u")
  case (R_leaving plan)
  then obtain x r where l: "reactor_leave env plan (ru_reactor u) = Some (x, r)" using assms(2) by (auto split: option.split_asm)
  have "case plan of Plan_cancel fl \<Rightarrow> \<not> all_ok fl | _ \<Rightarrow> True" "rinv (ru_reactor u)"
    using assms(1) R_leaving by (simp_all add: runtime_inv_def ending_def split: leave_plan.split_asm)
  with leave_post [OF l] have "x = Throw e \<Longrightarrow> \<exists>fl. plan = Plan_drain fl" for e by auto
  then show ?thesis using assms(2,3) R_leaving l by (auto split: outcome.split_asm leave_plan.split)
next
  case (R_marking plan)
  then show ?thesis using assms(2,3) by (cases plan) auto
next
  case (R_marked plan)
  then show ?thesis using assms(2,3) by (cases plan) (auto split: if_split_asm)
qed (use assms(2,3) in \<open>auto simp: publish_running_def leaves_def split: prod.split_asm outcome.split_asm option.split_asm if_split_asm\<close>)

lemma client_step_rank:
  assumes "client_step env c u = Some (d, v)" "rs_stop_requested (ru_shared u)" "rs_state (ru_shared u) \<noteq> R_kCreated"
  shows "client_rank d < client_rank c \<and> rs_stop_requested (ru_shared v) \<and> ru_pc v = ru_pc u"
proof (cases c)
  case (Register_called alloc p ss)
  then show ?thesis using assms by (auto simp: register_pipeline_def Let_def)
next
  case (Start_called thread)
  then show ?thesis using assms by (auto simp: start_enter_def Let_def split: if_split_asm)
next
  case Stop_called
  then show ?thesis using assms by (auto simp: stop_enter_def with_shared_def Let_def split: if_split_asm)
next
  case (Join_called a)
  then show ?thesis using assms by (auto simp: join_enter_def with_shared_def split: if_split_asm)
next
  case (Join_done a)
  then show ?thesis using assms by (cases a) auto
qed (use assms in \<open>auto simp: with_shared_def stop_woke_def Let_def split: if_split_asm prod.split_asm\<close>)

lemma sum_list_update_less:
  "i < length xs \<Longrightarrow> f x < f (xs ! i) \<Longrightarrow> sum_list (map f (xs[i := x])) < sum_list (map f xs :: nat list)"
proof (induction xs arbitrary: i)
  case (Cons y ys)
  then show ?case by (cases i) auto
qed simp

lemma turn_rank:
  assumes "runtime_turn env u v" "runtime_inv u" "rs_stop_requested (ru_shared u)"
  shows "stop_rank v < stop_rank u" "rs_stop_requested (ru_shared v)" "runtime_inv v"
proof -
  have "rs_state (ru_shared u) \<noteq> R_kCreated"
    using assms(2,3) created_absent [of "ru_pc u" "ru_shared u" "ru_reactor u"] by (auto simp: runtime_inv_def)
  then have "stop_rank v < stop_rank u \<and> rs_stop_requested (ru_shared v)"
    using assms client_step_rank [of env _ u] reactor_step_rank [of u env v]
    by (fastforce simp: runtime_turn_def stop_rank_def intro: sum_list_update_less)
  then show "stop_rank v < stop_rank u" "rs_stop_requested (ru_shared v)" by simp_all
  show "runtime_inv v" using runtime_step_inv [OF turn_step [OF assms(1)] assms(2)] .
qed

lemma turns_rank:
  "(runtime_turn env ^^ n) u v \<Longrightarrow> runtime_inv u \<Longrightarrow> rs_stop_requested (ru_shared u) \<Longrightarrow>
     n + stop_rank v \<le> stop_rank u \<and> runtime_inv v \<and> rs_stop_requested (ru_shared v)"
proof (induction n arbitrary: v)
  case (Suc n)
  then obtain x where x: "(runtime_turn env ^^ n) u x" "runtime_turn env x v" by auto
  then show ?case using Suc turn_rank [OF x(2)] by fastforce
qed simp

lemma turns_reachable:
  "(runtime_turn env ^^ n) u v \<Longrightarrow> runtime_reachable env w u \<Longrightarrow> runtime_reachable env w v"
proof (induction n arbitrary: v)
  case (Suc n)
  then show ?case using turn_step reachable_step by fastforce
qed simp

lemma not_blocked_turn: "\<not> blocked env u \<Longrightarrow> \<exists>v. runtime_turn env u v"
  by (fastforce simp: blocked_def runtime_turn_def in_set_conv_nth)

lemma client_rank_bound: "client_rank c \<le> 7"
  by (cases c) simp_all

lemma stop_rank_bound: "stop_rank u \<le> 16 + 7 * length (ru_clients u)"
proof -
  have "pc_rank (ru_pc u) \<le> 16" by (cases "ru_pc u") (auto split: leave_plan.split)
  moreover have "sum_list (map client_rank cs) \<le> 7 * length cs" for cs
    using client_rank_bound sum_list_mono [of cs client_rank "\<lambda>_. 7"] by (simp add: sum_list_triv mult.commute)
  ultimately show ?thesis using add_mono by (fastforce simp: stop_rank_def)
qed


subsection \<open>A run\<close>

text \<open>A schedule says whose turn it is.\<close>

datatype turn = Call client | Turn nat | Reactor

fun schedule :: "'w runtime_env \<Rightarrow> turn list \<Rightarrow> 'w runtime \<Rightarrow> 'w runtime option" where
  "schedule env [] u = Some u"
| "schedule env (Call c # ts) u = (if is_call c then schedule env ts (u\<lparr>ru_clients := ru_clients u @ [c]\<rparr>) else None)"
| "schedule env (Turn i # ts) u =
     (if i < length (ru_clients u)
      then case client_step env (ru_clients u ! i) u of
        None \<Rightarrow> None
      | Some (c, v) \<Rightarrow> schedule env ts (v\<lparr>ru_clients := (ru_clients u)[i := c]\<rparr>)
      else None)"
| "schedule env (Reactor # ts) u = (case reactor_step env (ru_pc u) u of None \<Rightarrow> None | Some v \<Rightarrow> schedule env ts v)"

lemma schedule_reachable: "schedule env ts u = Some v \<Longrightarrow> runtime_reachable env w u \<Longrightarrow> runtime_reachable env w v"
proof (induction env ts u rule: schedule.induct)
  case (2 env c ts u)
  then show ?case using step_call reachable_step by (fastforce split: if_split_asm)
next
  case (3 env i ts u)
  then show ?case using step_client reachable_step by (fastforce split: if_split_asm option.split_asm)
next
  case (4 env ts u)
  then show ?case using step_reactor reachable_step by (fastforce split: option.split_asm)
qed simp

text \<open>A kernel whose clock is the world, a pipeline with one node, and observers that are content.\<close>

definition clock_env :: "nat runtime_env" where
  "clock_env = \<lparr>re_loop = tame_kernel\<lparr>le_call := (\<lambda>c w. case c of
        Runtime_monotonic_now \<Rightarrow>
          (Ret \<lparr>rt_result = 0, rt_error = 0, rt_events = [], rt_time = \<lparr>tv_sec = int w, tv_nsec = 0\<rparr>\<rparr>, w)
      | Monotonic_sleep_until t \<Rightarrow>
          (Ret \<lparr>rt_result = 0, rt_error = 0, rt_events = [], rt_time = t\<rparr>, max w (nat (tv_sec t + 1)))
      | _ \<Rightarrow> le_call tame_kernel c w)\<rparr>,
     re_alloc = (\<lambda>w. None), re_on_poll = (\<lambda>a b. null_observer), re_on_turn = null_observer,
     re_on_failure = null_observer, re_on_running = (\<lambda>b. null_observer), re_stop_timeout_ms = 100\<rparr>"

definition one_node :: "nat pipeline" where
  "one_node = snd (pipeline_add_node (Some (node_new ''n'' default_hooks)) (pipeline_new ''p''))"

definition fresh_runtime :: "nat runtime" where
  "fresh_runtime = runtime_new (loop_new True 0) (\<lambda>i. one_node)"

definition started_by :: "turn list" where
  "started_by = [Call (Register_called None (Some 0) [Some 0]), Turn 0, Call (Start_called None), Turn 1, Reactor,
     Reactor, Turn 1, Turn 1, Call Stop_called, Turn 2]"

definition stopped_by :: "turn list" where
  "stopped_by = started_by @ [Reactor, Turn 2, Turn 2, Reactor, Reactor, Turn 2, Reactor, Reactor, Reactor, Reactor,
     Turn 2, Turn 2, Turn 2]"

lemma one_node_ok: "objects_ok (\<lambda>i. one_node)"
proof -
  have "pipeline_reachable False one_node"
    unfolding one_node_def by (rule reach_add [OF reach_new [of _ "''p''"] _ surjective_pairing]) (simp add: node_new_def)
  moreover have "p_state one_node = P_Created" by code_simp
  ultimately show ?thesis by (simp add: objects_ok_def idle_def pipeline_reachable_inv)
qed

lemma clock_env_steady: "steady_clock (\<lambda>w. int w * 1000000000) clock_env"
  by (auto simp: steady_clock_def clock_env_def normal_time_def nanoseconds_def max_def)

lemma one_node_onward: "onward (\<lambda>w. int w * 1000000000) (\<lambda>i. map n_hooks (p_nodes one_node))"
proof -
  have "map n_hooks (p_nodes one_node) = [default_hooks]"
    by (simp add: one_node_def pipeline_add_node_def pipeline_new_def node_new_def graph_add_node_def graph_new_def)
  then show ?thesis by (simp add: onward_def node_contract_def default_hooks_def)
qed

lemma started_run: "map_option (\<lambda>u. (ru_clients u ! 2, rs_stop_requested (ru_shared u))) (schedule clock_env started_by fresh_runtime)
  = Some (Stop_waking, True)"
  by code_simp

lemma stopped_run: "map_option (\<lambda>u. (ru_clients u ! 2, ru_pc u, rs_state (ru_shared u))) (schedule clock_env stopped_by fresh_runtime)
  = Some (Stop_returned ok_status, R_ended, R_kStopped)"
  by code_simp

lemma started_reachable:
  "\<exists>u. schedule clock_env started_by fresh_runtime = Some u \<and> runtime_reachable clock_env fresh_runtime u
     \<and> ru_clients u ! 2 = Stop_waking \<and> length (ru_clients u) = 3 \<and> rs_stop_requested (ru_shared u)"
proof -
  obtain u where u: "schedule clock_env started_by fresh_runtime = Some u" "ru_clients u ! 2 = Stop_waking"
    "rs_stop_requested (ru_shared u)" using started_run by auto
  have "map_option (\<lambda>u. length (ru_clients u)) (schedule clock_env started_by fresh_runtime) = Some 3" by code_simp
  then show ?thesis using u schedule_reachable [OF u(1) reachable_here] by auto
qed


subsection \<open>What every interleaving keeps\<close>

text \<open>C9: a caller of \<open>stop\<close> that has claimed a wake finds the event loop open: from the moment it has
  left the critical section until it has written to the eventfd, in any interleaving with the reactor
  and with other callers, the loop has its eventfd, and the reactor has neither begun to close it nor
  ended, however it leaves - draining, after a failure, or with an exception. This is what
  \<open>wake_in_flight_\<close> and \<open>reactor_exiting_\<close> are for: without them \<open>wake\<close> would write to a descriptor that
  has been closed or belongs to somebody else.\<close>

theorem runtime_wake_open:
  assumes "runtime_reachable env (runtime_new loop objects) u" "objects_ok objects" "Stop_waking \<in> set (ru_clients u)"
  shows "0 \<le> el_event_fd (ra_loop (ru_reactor u)) \<and> 0 < rs_wake_in_flight (ru_shared u)
    \<and> (\<forall>plan fl. ru_pc u \<noteq> R_leaving plan \<and> ru_pc u \<noteq> R_finishing fl \<and> ru_pc u \<noteq> R_ended)"
proof -
  have k: "pc_ok (ru_pc u) (ru_shared u) (ru_reactor u)" "tallied (ru_shared u) (ru_clients u)"
    using reachable_inv [OF assms(1,2)] by (simp_all add: runtime_inv_def)
  have "0 < rs_wake_in_flight (ru_shared u)" using member_counts(1) [OF k(2) assms(3)] by simp
  then show ?thesis
    using k(1) by (cases "ru_pc u") (auto simp: unborn_def loop_serves_def ending_def event_fd_def split: leave_plan.split_asm)
qed

theorem runtime_wake_open_witness:
  "\<exists>u. schedule clock_env started_by fresh_runtime = Some u \<and> 0 \<le> el_event_fd (ra_loop (ru_reactor u))"
proof -
  obtain u where u: "schedule clock_env started_by fresh_runtime = Some u" "runtime_reachable clock_env fresh_runtime u"
    "ru_clients u ! 2 = Stop_waking" "length (ru_clients u) = 3" using started_reachable by blast
  then have "Stop_waking \<in> set (ru_clients u)" using nth_mem [of 2 "ru_clients u"] by simp
  from runtime_wake_open [OF u(2) [unfolded fresh_runtime_def] one_node_ok this] u(1) show ?thesis by blast
qed

text \<open>C7: when \<open>stop\<close> returns, the runtime is at rest. All callers of \<open>stop\<close>, whenever and however often
  they call, get one and the same status; it is \<open>ok\<close> exactly when the state is \<open>kStopped\<close>, otherwise
  the state is \<open>kError\<close>; no pipeline, registered or not, is left running or draining, whatever failed;
  and if the reactor thread had run, the event loop is closed and with an \<open>ok\<close> every registered pipeline
  has been drained to \<open>kStopped\<close>.\<close>

theorem runtime_stopped:
  assumes "runtime_reachable env (runtime_new loop objects) u" "objects_ok objects" "Stop_returned s \<in> set (ru_clients u)"
  shows "(\<forall>s'. Stop_returned s' \<in> set (ru_clients u) \<longrightarrow> s' = s)
    \<and> runtime_state_now u = (if st_ok s then R_kStopped else R_kError)
    \<and> (\<forall>i. p_state (ra_objects (ru_reactor u) i) \<noteq> P_Running \<and> p_state (ra_objects (ru_reactor u) i) \<noteq> P_Draining)
    \<and> (ru_pc u = R_ended \<longrightarrow> el_event_fd (ra_loop (ru_reactor u)) < 0
        \<and> (st_ok s \<longrightarrow> (\<forall>x\<in>set (ra_records (ru_reactor u)). p_state (ra_objects (ru_reactor u) (rr_pipeline x)) = P_Stopped)))"
proof -
  have k: "pc_ok (ru_pc u) (ru_shared u) (ru_reactor u)" "\<forall>c\<in>set (ru_clients u). client_ok (ru_shared u) (ru_pc u) c"
    using reachable_inv [OF assms(1,2)] by (simp_all add: runtime_inv_def)
  have s: "s' = rs_stop_result (ru_shared u) \<and> concluded (ru_shared u) (ru_pc u)"
    if "Stop_returned s' \<in> set (ru_clients u)" for s' using k(2) that by fastforce
  then have "\<forall>s'. Stop_returned s' \<in> set (ru_clients u) \<longrightarrow> s' = s" using assms(3) by blast
  moreover have "ru_pc u = R_absent \<or> ru_pc u = R_ended" "rs_state (ru_shared u) \<noteq> R_kCreated" "s = rs_stop_result (ru_shared u)"
    using s [OF assms(3)] by (auto simp: concluded_def)
  ultimately show ?thesis
    using k(1) by (auto simp: runtime_state_now_def all_idle_def idle_def event_fd_def all_stopped_def known_def)
qed

theorem runtime_stopped_witness:
  "\<exists>u. schedule clock_env stopped_by fresh_runtime = Some u \<and> runtime_state_now u = R_kStopped
     \<and> el_event_fd (ra_loop (ru_reactor u)) < 0"
proof -
  obtain u where u: "schedule clock_env stopped_by fresh_runtime = Some u" "ru_clients u ! 2 = Stop_returned ok_status"
    "ru_pc u = R_ended" using stopped_run by auto
  have "map_option (\<lambda>u. length (ru_clients u)) (schedule clock_env stopped_by fresh_runtime) = Some 3" by code_simp
  then have "2 < length (ru_clients u)" using u(1) by simp
  then have "Stop_returned ok_status \<in> set (ru_clients u)" using u(2) nth_mem by fastforce
  from runtime_stopped [OF schedule_reachable [OF u(1) reachable_here, unfolded fresh_runtime_def] one_node_ok this]
  show ?thesis using u(1,3) by (simp add: st_ok_def ok_status_def)
qed

end
