(* ===== verification/System_Adapters.thy ===== *)
theory System_Adapters
  imports Runtime_Progress V4l2_System
begin

text \<open>
  \<open>linux_runtime_api.cpp\<close> and \<open>v4l2_linux_api.cpp\<close>: the classes through which the event loop, the runtime
  and the V4L2 device call the kernel. \<open>os\<close> is the kernel: it answers a system call from a state of its
  own with the result, \<open>errno\<close> and the out parameters. What an adapter makes of it is an answer of the
  interface that \<open>Event_Loop\<close> and \<open>V4l2_System\<close> are modelled over.
\<close>

subsection \<open>The system calls\<close>

definition ePOLL_CLOEXEC :: int where "ePOLL_CLOEXEC = 0x80000"
definition eFD_NONBLOCK_CLOEXEC :: int where "eFD_NONBLOCK_CLOEXEC = 0x80800"
definition cLOCK_MONOTONIC :: int where "cLOCK_MONOTONIC = 1"
definition tIMER_ABSTIME :: int where "tIMER_ABSTIME = 1"
definition eOVERFLOW :: int where "eOVERFLOW = 75"

datatype sys_call =
    Sys_epoll_create1 int
  | Sys_epoll_ctl_add int int "32 word" "64 word"
  | Sys_epoll_ctl_del int int
  | Sys_epoll_wait int int int
  | Sys_eventfd "32 word" int
  | Sys_read int nat
  | Sys_write int "64 word" nat
  | Sys_close int
  | Sys_clock_gettime int
  | Sys_clock_nanosleep int int timespec
  | Sys_open string "v4l2_open_flag list"
  | Sys_ioctl int v4l2_request ioctl_arg
  | Sys_mmap size_t int int
  | Sys_munmap size_t size_t

record sys_reply =
  sy_result :: int
  sy_errno :: int
  sy_events :: "epoll_event list"
  sy_time :: timespec
  sy_arg :: ioctl_arg
  sy_address :: "size_t option"

type_synonym 'k kernel = "sys_call \<Rightarrow> 'k \<Rightarrow> sys_reply \<times> 'k"

subsection \<open>PosixLinuxRuntimeApi\<close>

text \<open>\<open>last_error_slot\<close> is thread local: one error for each thread.\<close>

type_synonym error_slots = "nat \<Rightarrow> int"

definition no_errors :: error_slots where
  "no_errors = (\<lambda>_. 0)"

definition save_failure :: "nat \<Rightarrow> int \<Rightarrow> int \<Rightarrow> error_slots \<Rightarrow> int \<times> error_slots" where
  "save_failure t res code slots = (res, if res < 0 then slots(t := code) else slots)"

text \<open>\<open>read_event_fd\<close> and \<open>write_event_fd\<close>: anything but a transfer of all 8 bytes is a failure.\<close>

definition save_transfer :: "nat \<Rightarrow> int \<Rightarrow> int \<Rightarrow> error_slots \<Rightarrow> int \<times> error_slots" where
  "save_transfer t res code slots = (if res = 8 then (0, slots) else (- 1, slots(t := if res < 0 then code else eIO)))"

text \<open>\<open>clock_nanosleep\<close> returns the error itself.\<close>

definition save_sleep :: "nat \<Rightarrow> int \<Rightarrow> error_slots \<Rightarrow> int \<times> error_slots" where
  "save_sleep t res slots = (if res = 0 then (0, slots) else (- 1, slots(t := res)))"

fun runtime_sys :: "rt_call \<Rightarrow> sys_call" where
  "runtime_sys Epoll_create = Sys_epoll_create1 ePOLL_CLOEXEC"
| "runtime_sys (Epoll_add epoll_fd fd events token) = Sys_epoll_ctl_add epoll_fd fd events token"
| "runtime_sys (Epoll_remove epoll_fd fd) = Sys_epoll_ctl_del epoll_fd fd"
| "runtime_sys (Epoll_wait epoll_fd capacity timeout_ms) = Sys_epoll_wait epoll_fd capacity timeout_ms"
| "runtime_sys Create_event_fd = Sys_eventfd 0 eFD_NONBLOCK_CLOEXEC"
| "runtime_sys (Read_event_fd fd) = Sys_read fd 8"
| "runtime_sys (Write_event_fd fd v) = Sys_write fd v 8"
| "runtime_sys (Close_fd fd) = Sys_close fd"
| "runtime_sys Runtime_monotonic_now = Sys_clock_gettime cLOCK_MONOTONIC"
| "runtime_sys (Monotonic_sleep_until deadline) = Sys_clock_nanosleep cLOCK_MONOTONIC tIMER_ABSTIME deadline"

fun runtime_result :: "nat \<Rightarrow> rt_call \<Rightarrow> sys_reply \<Rightarrow> error_slots \<Rightarrow> int \<times> error_slots" where
  "runtime_result t (Read_event_fd fd) q slots = save_transfer t (sy_result q) (sy_errno q) slots"
| "runtime_result t (Write_event_fd fd v) q slots = save_transfer t (sy_result q) (sy_errno q) slots"
| "runtime_result t (Monotonic_sleep_until deadline) q slots = save_sleep t (sy_result q) slots"
| "runtime_result t c q slots = save_failure t (sy_result q) (sy_errno q) slots"

text \<open>A call by thread \<open>t\<close>, followed by its \<open>last_error()\<close>.\<close>

definition runtime_adapter :: "'k kernel \<Rightarrow> nat \<Rightarrow> rt_call \<Rightarrow> 'k \<times> error_slots \<Rightarrow> rt_reply \<times> 'k \<times> error_slots" where
  "runtime_adapter os t c s =
     (case os (runtime_sys c) (fst s) of (q, k) \<Rightarrow>
      case runtime_result t c q (snd s) of (res, slots) \<Rightarrow>
        (\<lparr>rt_result = res, rt_error = slots t, rt_events = sy_events q, rt_time = sy_time q\<rparr>, k, slots))"

subsection \<open>LinuxV4L2Api\<close>

definition remember_error :: "bool \<Rightarrow> int \<Rightarrow> int" where
  "remember_error failed code = (if failed then code else 0)"

fun v4l2_sys :: "v4l2_call \<Rightarrow> sys_call" where
  "v4l2_sys (Open_device path flags) = Sys_open path flags"
| "v4l2_sys (Device_ioctl fd request argument) = Sys_ioctl fd request argument"
| "v4l2_sys (Map_memory n fd off) = Sys_mmap n fd off"
| "v4l2_sys (Unmap_memory address n) = Sys_munmap address n"
| "v4l2_sys (Close_device fd) = Sys_close fd"

fun v4l2_failed :: "v4l2_call \<Rightarrow> sys_reply \<Rightarrow> bool" where
  "v4l2_failed (Map_memory n fd off) q \<longleftrightarrow> sy_address q = None"
| "v4l2_failed c q \<longleftrightarrow> sy_result q < 0"

text \<open>\<open>map_memory\<close> refuses an offset that is no \<open>off_t\<close> without a system call; \<open>off_t\<close> has 64 bits.\<close>

fun refused_offset :: "v4l2_call \<Rightarrow> bool" where
  "refused_offset (Map_memory n fd off) \<longleftrightarrow> off < 0 \<or> off > int64_max"
| "refused_offset c \<longleftrightarrow> False"

definition v4l2_adapter :: "'k kernel \<Rightarrow> v4l2_call \<Rightarrow> 'k \<times> int \<Rightarrow> v4l2_reply \<times> 'k \<times> int" where
  "v4l2_adapter os c s =
     (if refused_offset c
      then (\<lparr>vr_result = - 1, vr_error = eOVERFLOW, vr_arg = zero_arg, vr_address = None\<rparr>, fst s, eOVERFLOW)
      else case os (v4l2_sys c) (fst s) of (q, k) \<Rightarrow>
        let e = remember_error (v4l2_failed c q) (sy_errno q)
        in (\<lparr>vr_result = sy_result q, vr_error = e, vr_arg = sy_arg q, vr_address = sy_address q\<rparr>, k, e))"

definition v4l2_clock :: "'k kernel \<Rightarrow> 'k \<times> int \<Rightarrow> (int \<times> timespec) \<times> 'k \<times> int" where
  "v4l2_clock os s =
     (case os (Sys_clock_gettime cLOCK_MONOTONIC) (fst s) of (q, k) \<Rightarrow>
        ((sy_result q, sy_time q), k, remember_error (sy_result q < 0) (sy_errno q)))"

definition maximum_mappable_offset :: "64 word" where
  "maximum_mappable_offset = word_of_int int64_max"

subsection \<open>The errors belong to the calls\<close>

text \<open>Calls of any threads, one after the other.\<close>

fun runtime_calls :: "'k kernel \<Rightarrow> (nat \<times> rt_call) list \<Rightarrow> 'k \<times> error_slots \<Rightarrow> 'k \<times> error_slots" where
  "runtime_calls os [] s = s"
| "runtime_calls os ((t, c) # cs) s = runtime_calls os cs (snd (runtime_adapter os t c s))"

lemma runtime_result_slots:
  "runtime_result t c q slots = (res, slots') \<Longrightarrow>
     (\<forall>u. u \<noteq> t \<longrightarrow> slots' u = slots u) \<and> (0 \<le> res \<longrightarrow> slots' = slots)
     \<and> (res < 0 \<longrightarrow> slots' t \<in> {sy_errno q, sy_result q, eIO})"
  by (cases c) (auto simp: save_failure_def save_transfer_def save_sleep_def split: if_splits)

lemma runtime_adapter_slots:
  assumes "runtime_adapter os t c s = (r, k, slots)"
  shows "rt_error r = slots t" "u \<noteq> t \<Longrightarrow> slots u = snd s u" "0 \<le> rt_result r \<Longrightarrow> slots = snd s"
  using assms by (auto simp: runtime_adapter_def split: prod.splits dest!: runtime_result_slots)

lemma others_keep_error:
  "\<forall>x \<in> set cs. fst x \<noteq> t \<Longrightarrow> snd (runtime_calls os cs s) t = snd s t"
proof (induction os cs s rule: runtime_calls.induct)
  case (2 os u c cs s)
  obtain r k slots where a: "runtime_adapter os u c s = (r, k, slots)" by (metis prod_cases3)
  then have "slots t = snd s t" using runtime_adapter_slots(2) [OF a, of t] "2.prems" by simp
  then show ?case using 2 a by simp
qed simp

text \<open>\<open>wait\<close> and \<open>wake\<close> may run in different threads: what a thread reads with \<open>last_error()\<close> after its call
  has failed is the error of that call, whatever the other threads have called since.\<close>

theorem last_error_own:
  assumes "runtime_adapter os t c s = (r, s')" and "\<forall>x \<in> set cs. fst x \<noteq> t"
  shows "snd (runtime_calls os cs s') t = rt_error r"
proof -
  obtain k slots where "s' = (k, slots)" by (cases s')
  with assms show ?thesis using runtime_adapter_slots(1) [of os t c s r k slots] others_keep_error [of cs t os s'] by simp
qed

text \<open>After a call of the V4L2 adapter \<open>last_error()\<close> is 0 exactly when it has succeeded, on a kernel whose
  failures have an error, and a mapping at an offset beyond \<open>off_t\<close> asks the kernel for nothing.\<close>

theorem v4l2_error_exact:
  assumes "v4l2_adapter os c (k, e) = (r, k', e')" and "\<And>q k'. os (v4l2_sys c) k = (q, k') \<Longrightarrow> v4l2_failed c q \<Longrightarrow> sy_errno q \<noteq> 0"
  shows "e' = vr_error r" "e' = 0 \<longleftrightarrow> \<not> refused_offset c \<and> \<not> v4l2_failed c (fst (os (v4l2_sys c) k))"
    "refused_offset c \<Longrightarrow> k' = k \<and> vr_address r = None"
  using assms
  by (auto simp: v4l2_adapter_def remember_error_def eOVERFLOW_def Let_def split: if_splits prod.splits)

subsection \<open>The clock of the runtime\<close>

text \<open>\<open>clk\<close> is \<open>CLOCK_MONOTONIC\<close>: \<open>clock_gettime\<close> does not go back behind it, and an absolute sleep that
  succeeds ends when it has reached the deadline.\<close>

definition kernel_clock :: "('k \<Rightarrow> int) \<Rightarrow> 'k kernel \<Rightarrow> bool" where
  "kernel_clock clk os \<longleftrightarrow>
     (\<forall>k q k'. os (Sys_clock_gettime cLOCK_MONOTONIC) k = (q, k') \<longrightarrow> 0 \<le> sy_result q \<longrightarrow>
        normal_time (sy_time q) \<and> clk k \<le> nanoseconds (sy_time q))
     \<and> (\<forall>t k q k'. os (Sys_clock_nanosleep cLOCK_MONOTONIC tIMER_ABSTIME t) k = (q, k') \<longrightarrow> sy_result q = 0 \<longrightarrow>
        normal_time t \<longrightarrow> nanoseconds t \<le> clk k')"

text \<open>Through the adapter the runtime sees the steady clock under which its drains end.\<close>

theorem adapter_steady:
  assumes "kernel_clock clk os"
    and "le_call (re_loop env) = (\<lambda>c s. apfst Ret (runtime_adapter os t c s))"
  shows "steady_clock (\<lambda>s. clk (fst s)) env"
  using assms
  by (fastforce simp: kernel_clock_def steady_clock_def runtime_adapter_def save_failure_def save_sleep_def
      split: prod.splits if_splits)

end
