(* ===== verification/Reference_Media.thy ===== *)
theory Reference_Media
  imports Simulated_Platform Backend_Node Backend_Registry
begin

text \<open>
  \<open>src/platform/reference_media_platform.cpp\<close>: a source of frames, the processor and the encoder that
  the registry selects, each in its node, and a sink that counts the packets, in one pipeline driven
  by commands through the reconciler.

  The four nodes share a world, as in \<open>Simulated_Platform\<close>: the memory, the metrics, the budget of the
  source, the fields of the nodes, and one store of queues for each of the three connections. A backend
  node works on its own record of \<open>Backend_Node\<close>; \<open>at_processor\<close> and \<open>at_encoder\<close> run its functions on the
  world, with the queues and the memory it shares with the other nodes. The time stamps of the source
  are an \<open>int\<close>: no run can bring 64 bits to overflow.
\<close>

subsection \<open>The storage of the source\<close>

definition source_provider :: string where
  "source_provider = ''reference.source''"

definition media_storage :: "nat \<Rightarrow> size_t \<Rightarrow> storage" where
  "media_storage i sz = \<lparr>so_id = i, so_domain = kCpu, so_capacity = sz, so_alignment = 1, so_provider = source_provider\<rparr>"

text \<open>\<open>ReferenceCpuStorage\<close> beside the storages that the backends allocate; \<open>base\<close> says where the
  allocator has put the bytes. Mapping needs no case of its own: both give address and capacity, and
  \<open>Buffer::map_plane\<close> never passes a null pointer.\<close>

definition media_storage_ops :: "(nat \<Rightarrow> size_t) \<Rightarrow> memory storage_ops" where
  "media_storage_ops base = (cpu_ops base)\<lparr>do_export := (\<lambda>s w.
     if so_provider s = source_provider
     then (err (status_msg kUnsupported ''reference source CPU storage is not exportable''), w)
     else do_export (cpu_ops base) s w)\<rparr>"

subsection \<open>Configuration\<close>

definition media_format :: "throws \<Rightarrow> video_format result" where
  "media_format h = video_format_create h kRgb24 16 16 kCpu [plane_layout_of 0 (16 * 16 * 3) (16 * 3)]
     RangeUnknown PrimariesUnknown TransferUnknown MatrixUnknown"

definition media_processor_config :: "throws \<Rightarrow> video_format \<Rightarrow> video_processor_config result" where
  "media_processor_config h f = video_processor_config_create h f f 0 0 16 16 0"

definition media_encoder_config :: "throws \<Rightarrow> video_encoder_config result" where
  "media_encoder_config h =
     (case time_base_create 1 30 of
        Inl s \<Rightarrow> err s
      | Inr time_base \<Rightarrow> video_encoder_config_create h
          \<lparr>ec_codec = CodecReference, ec_width = 16, ec_height = 16, ec_rate_num = 30, ec_rate_den = 1,
           ec_time_base = time_base, ec_target_bitrate = 1, ec_max_bitrate = 1, ec_gop_length = 1, ec_b_frames = 0,
           ec_rate_control = kConstantQuality, ec_profile = ProfileUnknown, ec_level = 0, ec_low_latency = True\<rparr>)"

definition no_preferences :: selection_preferences where
  "no_preferences = \<lparr>sp_preferred = [], sp_prefer_hardware = False, sp_prefer_zero_copy = False\<rparr>"

definition media_processor_request :: "video_processor_config \<Rightarrow> processor_request" where
  "media_processor_request c = \<lparr>pr_config = c, pr_operations = [], pr_input_alignment = 1, pr_output_alignment = 1,
     pr_require_zero_copy = True, pr_required_provider = ''reference'', pr_preferences = no_preferences\<rparr>"

definition media_encoder_request :: "video_format \<Rightarrow> video_encoder_config \<Rightarrow> encoder_request" where
  "media_encoder_request f c = \<lparr>er_input = f, er_config = c, er_input_alignment = 1, er_require_zero_copy = True,
     er_required_provider = ''reference'', er_preferences = no_preferences\<rparr>"

subsection \<open>The world of the nodes\<close>

type_synonym media_processor_node = "(ref_processor, video_processor_config, video_frame) bnode"
type_synonym media_encoder_node = "(ref_encoder \<times> memory, video_format \<times> video_encoder_config, media_packet) bnode"

record media_world =
  mw_throws :: throws
  mw_thread :: nat
  mw_memory :: memory
  mw_metrics :: metric_registry
  mw_budget :: size_t
  mw_output :: output_port
  mw_format :: video_format
  mw_next_pts :: int
  mw_pending :: "video_frame option"
  mw_processor :: media_processor_node
  mw_encoder :: media_encoder_node
  mw_sink_in :: input_port
  mw_raw :: "video_frame queue_store"
  mw_processed :: "video_frame queue_store"
  mw_packets :: "media_packet queue_store"

definition caught :: "exn \<Rightarrow> status" where
  "caught e = (case e of
       Bad_alloc \<Rightarrow> status_msg kResourceExhausted ''reference media platform allocation failed''
     | Other_exn \<Rightarrow> status_msg kInternal ''reference media platform caught an unexpected exception'')"

definition at_processor ::
  "(media_processor_node \<Rightarrow> status outcome \<times> media_processor_node) \<Rightarrow> media_world \<Rightarrow> status outcome \<times> media_world" where
  "at_processor f w =
     (case f ((mw_processor w)\<lparr>bn_frames := mw_raw w, bn_outs := mw_processed w\<rparr>) of (r, n) \<Rightarrow>
        (r, w\<lparr>mw_processor := n, mw_raw := bn_frames n, mw_processed := bn_outs n\<rparr>))"

definition at_encoder ::
  "(media_encoder_node \<Rightarrow> status outcome \<times> media_encoder_node) \<Rightarrow> media_world \<Rightarrow> status outcome \<times> media_world" where
  "at_encoder f w =
     (case f ((mw_encoder w)\<lparr>bn_device := map_option (\<lambda>d. (fst d, mw_memory w)) (bn_device (mw_encoder w)),
           bn_frames := mw_processed w, bn_outs := mw_packets w\<rparr>) of (r, n) \<Rightarrow>
        (r, w\<lparr>mw_encoder := n, mw_processed := bn_frames n, mw_packets := bn_outs n,
             mw_memory := (case bn_device n of None \<Rightarrow> mw_memory w | Some d \<Rightarrow> snd d)\<rparr>))"

text \<open>The functions of a node that works on a part of the world.\<close>

definition lifted :: "(('n \<Rightarrow> status outcome \<times> 'n) \<Rightarrow> 'w \<Rightarrow> status outcome \<times> 'w) \<Rightarrow> ('w \<Rightarrow> 'n hooks) \<Rightarrow> 'w hooks" where
  "lifted at hk = \<lparr>on_prepare = (\<lambda>w. at (on_prepare (hk w)) w), on_start = (\<lambda>w. at (on_start (hk w)) w),
     on_stop = (\<lambda>w. at (on_stop (hk w)) w), on_reset = (\<lambda>w. at (on_reset (hk w)) w),
     on_tick = (\<lambda>w. at (on_tick (hk w)) w)\<rparr>"

definition media_processor_hooks :: "media_world hooks" where
  "media_processor_hooks =
     lifted at_processor (\<lambda>w. processor_node_hooks (ref_processor_ops (mw_throws w, mw_thread w)))"

definition media_encoder_hooks :: "memory storage_ops \<Rightarrow> media_world hooks" where
  "media_encoder_hooks ops =
     lifted at_encoder (\<lambda>w. encoder_node_hooks (ref_encoder_ops ops (mw_throws w, mw_thread w)))"

subsection \<open>The source\<close>

definition source_send :: "media_world \<Rightarrow> status \<times> media_world" where
  "source_send w =
     (case port_send (mw_pending w) (mw_output w) (mw_raw w) of (s, qs) \<Rightarrow>
        (s, w\<lparr>mw_raw := qs, mw_pending := if st_ok s then None else mw_pending w\<rparr>))"

definition source_bytes :: "int \<Rightarrow> nat \<Rightarrow> 8 word list" where
  "source_bytes pts n = map (\<lambda>i. word_of_int (pts + int i)) [0..<n]"

definition source_frame :: "memory storage_ops \<Rightarrow> media_world \<Rightarrow> status outcome \<times> media_world" where
  "source_frame ops w =
     (let h = mw_throws w; m = mw_memory w
      in case h S_media_storage of
           Some e \<Rightarrow> (Throw e, w)
         | None \<Rightarrow>
      case buffer_create h (Some (media_storage (mem_next m) (16 * 16 * 3))) (vf_planes (mw_format w)) of
        Inl s \<Rightarrow> (Ret s, w)
      | Inr buf \<Rightarrow>
          (case map_plane ops buf 0 kReadWrite (m\<lparr>mem_next := Suc (mem_next m)\<rparr>) of
             (Inl s, m) \<Rightarrow> (Ret s, w\<lparr>mw_memory := m\<rparr>)
           | (Inr mapped, m) \<Rightarrow>
               let m = write_bytes (mutable_data mapped) (source_bytes (mw_next_pts w) (unat (mr_size mapped))) m;
                   w = w\<lparr>mw_memory := drop_region ops mapped m\<rparr>
               in case video_frame_create h buf (mw_format w) (mw_next_pts w) \<lparr>tb_numerator = 1, tb_denominator = 30\<rparr> of
                    Inl s \<Rightarrow> (Ret s, w)
                  | Inr frame \<Rightarrow>
                      (case h S_media_frame of
                         Some e \<Rightarrow> (Throw e, w)
                       | None \<Rightarrow>
                           let w = w\<lparr>mw_pending := Some frame, mw_next_pts := mw_next_pts w + 1,
                                 mw_budget := mw_budget w - 1\<rparr>
                           in case increment_counter ''media.frames.allocated'' 1 (mw_metrics w) of (s, ms) \<Rightarrow>
                                let w = w\<lparr>mw_metrics := ms\<rparr>
                                in if \<not> st_ok s then (Ret s, w) else apfst Ret (source_send w))))"

definition media_try :: "status outcome \<times> 's \<Rightarrow> status outcome \<times> 's" where
  "media_try x = (case x of (Ret s, w) \<Rightarrow> (Ret s, w) | (Throw e, w) \<Rightarrow> (Ret (caught e), w))"

definition media_source_tick :: "memory storage_ops \<Rightarrow> media_world \<Rightarrow> status outcome \<times> media_world" where
  "media_source_tick ops w = media_try
     (if mw_pending w \<noteq> None then apfst Ret (source_send w)
      else if mw_budget w = 0 then (Ret ok_status, w)
      else source_frame ops w)"

definition media_source_stop :: "media_world \<Rightarrow> status outcome \<times> media_world" where
  "media_source_stop w =
     (if mw_pending w = None then (Ret ok_status, w) else apfst Ret (source_send w))"

definition media_source_reset :: "media_world \<Rightarrow> status outcome \<times> media_world" where
  "media_source_reset w = (Ret ok_status, w\<lparr>mw_pending := None, mw_next_pts := 0\<rparr>)"

definition media_source_hooks :: "memory storage_ops \<Rightarrow> media_world hooks" where
  "media_source_hooks ops = default_hooks\<lparr>on_tick := media_source_tick ops, on_stop := media_source_stop,
     on_reset := media_source_reset\<rparr>"

subsection \<open>The sink\<close>

definition encoded_key :: string where
  "encoded_key = ''media.frames.encoded''"

definition set_depth :: "64 word \<Rightarrow> media_world \<Rightarrow> status outcome \<times> media_world" where
  "set_depth v w = (case set_gauge depth_key v (mw_metrics w) of (s, ms) \<Rightarrow> (Ret s, w\<lparr>mw_metrics := ms\<rparr>))"

definition consume_one :: "media_world \<Rightarrow> status outcome \<times> media_world" where
  "consume_one w =
     (case port_receive (mw_sink_in w) (mw_packets w) of
        (Inl s, qs) \<Rightarrow>
          let w = w\<lparr>mw_packets := qs\<rparr> in if st_code s = kNotFound then set_depth 0 w else (Ret s, w)
      | (Inr packet, qs) \<Rightarrow>
          (case increment_counter encoded_key 1 (mw_metrics w) of (s, ms) \<Rightarrow>
             let w = w\<lparr>mw_packets := qs, mw_metrics := ms\<rparr>
             in if \<not> st_ok s then (Ret s, w)
                else set_depth (double_of_size (port_queue_size (mw_sink_in w) qs)) w))"

definition media_sink_stop :: "media_world \<Rightarrow> status outcome \<times> media_world" where
  "media_sink_stop w =
     (if port_queue_size (mw_sink_in w) (mw_packets w) = 0 then set_depth 0 w
      else case consume_one w of
        (Ret s, w) \<Rightarrow> (Ret (if st_ok s then status_of kWouldBlock else s), w)
      | (Throw e, w) \<Rightarrow> (Throw e, w))"

definition media_sink_hooks :: "media_world hooks" where
  "media_sink_hooks = default_hooks\<lparr>on_tick := consume_one, on_stop := media_sink_stop\<rparr>"

subsection \<open>The platform\<close>

record media_platform =
  mp_options :: ref_options
  mp_registry :: "ref_options registry"
  mp_desired :: state_store
  mp_actual :: state_store
  mp_health :: health_manager
  mp_pipeline :: "media_world pipeline option"
  mp_reconciler :: bool
  mp_initialized :: bool
  mp_world :: media_world

abbreviation "mp_throws p \<equiv> mw_throws (mp_world p)"

text \<open>What the constructors of the nodes make of the world.\<close>

definition media_nodes ::
  "video_format \<Rightarrow> video_processor_config \<Rightarrow> video_encoder_config \<Rightarrow> ref_processor \<Rightarrow> ref_encoder \<Rightarrow> media_world \<Rightarrow> media_world" where
  "media_nodes format pc ec processor encoder w =
     w\<lparr>mw_output := output_port_new ''frame_output'', mw_format := format, mw_next_pts := 0, mw_pending := None,
       mw_processor := processor_node_new (Some processor) pc 4 (mw_raw w) (mw_processed w),
       mw_encoder := encoder_node_new (Some (encoder, mw_memory w)) (format, ec) 4 (mw_processed w) (mw_packets w),
       mw_sink_in := input_port_new ''packet_input'' 4 kBlock\<rparr>"

text \<open>The three connections.\<close>

definition connect_source :: "media_world \<Rightarrow> status \<times> media_world" where
  "connect_source w =
     (case port_connect (mw_output w) (bn_input (mw_processor w)) (mw_raw w) of (s, out, inp, qs) \<Rightarrow>
        (s, w\<lparr>mw_output := out, mw_processor := (mw_processor w)\<lparr>bn_input := inp\<rparr>, mw_raw := qs\<rparr>))"

definition connect_processor :: "media_world \<Rightarrow> status \<times> media_world" where
  "connect_processor w =
     (case port_connect (bn_output (mw_processor w)) (bn_input (mw_encoder w)) (mw_processed w) of (s, out, inp, qs) \<Rightarrow>
        (s, w\<lparr>mw_processor := (mw_processor w)\<lparr>bn_output := out\<rparr>,
              mw_encoder := (mw_encoder w)\<lparr>bn_input := inp\<rparr>, mw_processed := qs\<rparr>))"

definition connect_encoder :: "media_world \<Rightarrow> status \<times> media_world" where
  "connect_encoder w =
     (case port_connect (bn_output (mw_encoder w)) (mw_sink_in w) (mw_packets w) of (s, out, inp, qs) \<Rightarrow>
        (s, w\<lparr>mw_encoder := (mw_encoder w)\<lparr>bn_output := out\<rparr>, mw_sink_in := inp, mw_packets := qs\<rparr>))"

text \<open>Statements that each return early with a status that is not \<open>ok\<close>.\<close>

definition if_ok :: "status \<times> 's \<Rightarrow> ('s \<Rightarrow> status \<times> 's) \<Rightarrow> status \<times> 's" where
  "if_ok x f = (case x of (s, y) \<Rightarrow> if st_ok s then f y else (s, y))"

definition connect_media :: "media_world \<Rightarrow> status \<times> media_world" where
  "connect_media w = if_ok (if_ok (connect_source w) connect_processor) connect_encoder"

fun add_each :: "'w node list \<Rightarrow> 'w pipeline \<Rightarrow> status \<times> 'w pipeline" where
  "add_each [] p = (ok_status, p)"
| "add_each (n # ns) p = if_ok (pipeline_add_node (Some n) p) (add_each ns)"

definition media_pipeline :: "memory storage_ops \<Rightarrow> status \<times> media_world pipeline" where
  "media_pipeline ops =
     if_ok (if_ok (if_ok (add_each [node_new ''source'' (media_source_hooks ops), node_new ''processor'' media_processor_hooks,
         node_new ''encoder'' (media_encoder_hooks ops), node_new ''sink'' media_sink_hooks] (pipeline_new ''reference0''))
       (pipeline_connect ''source'' ''processor'')) (pipeline_connect ''processor'' ''encoder''))
       (pipeline_connect ''encoder'' ''sink'')"

definition media_key :: "string \<Rightarrow> string" where
  "media_key suffix = ''/pipelines/'' @ ''reference0'' @ suffix"

text \<open>Values set one after the other, up to the first failure.\<close>

fun publish_each :: "throws \<Rightarrow> (string \<times> string) list \<Rightarrow> state_store \<Rightarrow> status \<times> state_store" where
  "publish_each h [] a = (ok_status, a)"
| "publish_each h ((suffix, v) # vs) a = if_ok (state_set h (media_key suffix) (sv_of_string v) a) (publish_each h vs)"

text \<open>The exceptions of \<open>publish_selection\<close> are caught where it is called.\<close>

definition publish_selection :: "video_format \<Rightarrow> string \<Rightarrow> media_platform \<Rightarrow> status \<times> media_platform" where
  "publish_selection format provider p =
     (case pixel_format_name (mp_throws p) (vf_pixel format) of
        Inl s \<Rightarrow> (s, p)
      | Inr pixel_format \<Rightarrow>
          (case memory_domain_name (mp_throws p) (vf_domain format) of
             Inl s \<Rightarrow> (s, p)
           | Inr memory_domain \<Rightarrow>
               (case mp_throws p S_media_publish of
                  Some e \<Rightarrow> (caught e, p)
                | None \<Rightarrow>
                    (case publish_each (mp_throws p) [(''/provider'', provider), (''/pixel_format'', pixel_format),
                          (''/memory_domain'', memory_domain)] (mp_actual p) of
                       (s, a) \<Rightarrow> (s, p\<lparr>mp_actual := a\<rparr>)))))"

text \<open>The end of \<open>build_pipeline\<close>, from where the platform keeps the new pipeline.\<close>

definition keep_pipeline ::
  "media_world pipeline \<Rightarrow> media_world \<Rightarrow> video_format \<Rightarrow> string \<Rightarrow> media_platform \<Rightarrow> status \<times> media_platform" where
  "keep_pipeline pl w format provider p =
     (let p = p\<lparr>mp_pipeline := Some pl, mp_world := w\<rparr>
      in case mw_throws w S_media_reconciler of
           Some e \<Rightarrow> (caught e, p)
         | None \<Rightarrow>
             (case increment_counter ''media.backend.instances.created'' 2 (mw_metrics w) of (s, ms) \<Rightarrow>
                let p = p\<lparr>mp_reconciler := True, mp_world := w\<lparr>mw_metrics := ms\<rparr>\<rparr>
                in if \<not> st_ok s then (s, p) else publish_selection format provider p))"

definition assemble ::
  "memory storage_ops \<Rightarrow> video_format \<Rightarrow> video_processor_config \<Rightarrow> video_encoder_config \<Rightarrow> string \<Rightarrow>
     ref_processor \<Rightarrow> ref_encoder \<Rightarrow> media_platform \<Rightarrow> status \<times> media_platform" where
  "assemble ops format pc ec provider processor encoder p =
     (case connect_media (media_nodes format pc ec processor encoder (mp_world p)) of (s, w) \<Rightarrow>
        if \<not> st_ok s then (s, p)
        else case media_pipeline ops of (s, pl) \<Rightarrow>
          if \<not> st_ok s then (s, p) else keep_pipeline pl w format provider p)"

definition build_pipeline :: "memory storage_ops \<Rightarrow> media_platform \<Rightarrow> status \<times> media_platform" where
  "build_pipeline ops p =
     (let h = mp_throws p in
      case media_format h of Inl s \<Rightarrow> (s, p) | Inr format \<Rightarrow>
      case media_processor_config h format of Inl s \<Rightarrow> (s, p) | Inr pc \<Rightarrow>
      case media_encoder_config h of Inl s \<Rightarrow> (s, p) | Inr ec \<Rightarrow>
      case select_video_processor h (ref_probe h) (media_processor_request pc) (mp_registry p) of
        Inl s \<Rightarrow> (s, p) | Inr processor_selection \<Rightarrow>
      case select_video_encoder h (ref_probe h) (media_encoder_request format ec) (mp_registry p) of
        Inl s \<Rightarrow> (s, p) | Inr encoder_selection \<Rightarrow>
      case ref_create_video_processor h (sl_provider processor_selection) of Inl s \<Rightarrow> (s, p) | Inr processor \<Rightarrow>
      case ref_create_video_encoder h (sl_provider encoder_selection) of Inl s \<Rightarrow> (s, p) | Inr encoder \<Rightarrow>
      case h S_media_nodes of
        Some e \<Rightarrow> (caught e, p)
      | None \<Rightarrow> assemble ops format pc ec (pn_provider (sl_negotiation processor_selection)) processor encoder p)"

text \<open>Reporting the health; a report that fails takes the place of the status.\<close>

definition report_health :: "health_status \<Rightarrow> string \<Rightarrow> status \<Rightarrow> media_platform \<Rightarrow> status \<times> media_platform" where
  "report_health level message s p =
     (case health_report (mp_throws p) ''pipeline'' level message (mp_health p) of (hs, hm) \<Rightarrow>
        (if st_ok hs then s else hs, p\<lparr>mp_health := hm\<rparr>))"

abbreviation "report_failure s \<equiv> report_health H_Error (st_message s) s"

definition media_new :: "ref_options \<Rightarrow> media_world \<Rightarrow> media_platform" where
  "media_new opts w =
     \<lparr>mp_options = opts, mp_registry = registry_new, mp_desired = store_new, mp_actual = store_new, mp_health = [],
      mp_pipeline = None, mp_reconciler = False, mp_initialized = False,
      mp_world = w\<lparr>mw_metrics := metrics_new, mw_budget := 0\<rparr>\<rparr>"

definition media_initialize :: "memory storage_ops \<Rightarrow> media_platform \<Rightarrow> status \<times> media_platform" where
  "media_initialize ops p =
     (if mp_initialized p then (ok_status, p)
      else case mp_throws p S_media_provider of
        Some e \<Rightarrow> (caught Bad_alloc, p)
      | None \<Rightarrow>
          (case register_provider (mp_throws p) (ref_probe (mp_throws p)) (Some (mp_options p)) (mp_registry p) of (s, r) \<Rightarrow>
             let p = p\<lparr>mp_registry := r\<rparr>
             in if \<not> st_ok s then (s, p)
                else case registry_freeze r of (s, r) \<Rightarrow>
                  let p = p\<lparr>mp_registry := r\<rparr>
                  in if \<not> st_ok s then (s, p)
                     else case build_pipeline ops p of (s, p) \<Rightarrow>
                       if \<not> st_ok s then report_failure s p
                       else report_health H_Ok ''initialized'' ok_status (p\<lparr>mp_initialized := True\<rparr>)))"

definition media_dispatch_start :: "start_pipeline_command \<Rightarrow> media_platform \<Rightarrow> status \<times> media_platform" where
  "media_dispatch_start c p =
     (if \<not> mp_initialized p then (not_initialized, p)
      else case handle_start (mp_throws p) c (Some (mp_desired p)) of (s, d) \<Rightarrow> (s, p\<lparr>mp_desired := the d\<rparr>))"

definition media_dispatch_stop :: "stop_pipeline_command \<Rightarrow> media_platform \<Rightarrow> status \<times> media_platform" where
  "media_dispatch_stop c p =
     (if \<not> mp_initialized p then (not_initialized, p)
      else case handle_stop (mp_throws p) c (Some (mp_desired p)) of (s, d) \<Rightarrow> (s, p\<lparr>mp_desired := the d\<rparr>))"

definition erase_each :: "throws \<Rightarrow> string list \<Rightarrow> state_store \<Rightarrow> status \<times> state_store" where
  "erase_each h suffixes a = fold (\<lambda>suffix (first_failure, a).
     case state_erase h (media_key suffix) a of (s, a) \<Rightarrow>
       (if st_ok first_failure \<and> \<not> st_ok s then s else first_failure, a)) suffixes (ok_status, a)"

definition clear_runtime_errors :: "media_platform \<Rightarrow> status \<times> media_platform" where
  "clear_runtime_errors p =
     (case mp_throws p S_media_clear of
        Some e \<Rightarrow> (caught e, p)
      | None \<Rightarrow>
          (case erase_each (mp_throws p) [''/error'', ''/error/provider'', ''/error/operation'', ''/error/message'']
                (mp_actual p) of
             (s, a) \<Rightarrow> (s, p\<lparr>mp_actual := a\<rparr>)))"

text \<open>The end of an operation that has succeeded.\<close>

definition report_success :: "string \<Rightarrow> media_platform \<Rightarrow> status \<times> media_platform" where
  "report_success message p = if_ok (clear_runtime_errors p) (report_health H_Ok message ok_status)"

definition run_reconciler :: "media_platform \<Rightarrow> status outcome \<times> media_platform" where
  "run_reconciler p =
     (case reconcile_once (\<lambda>_. mp_throws p) (mp_pipeline p) (Some (mp_desired p)) (Some (mp_actual p)) (mp_world p) of
        (r, pl, a, w) \<Rightarrow> (r, p\<lparr>mp_pipeline := pl, mp_actual := the a, mp_world := w\<rparr>))"

definition media_reconcile_once :: "media_platform \<Rightarrow> status outcome \<times> media_platform" where
  "media_reconcile_once p =
     (if \<not> mp_initialized p \<or> \<not> mp_reconciler p then (Ret not_initialized, p)
      else case run_reconciler p of
        (Throw e, p) \<Rightarrow> (Throw e, p)
      | (Ret s, p) \<Rightarrow> apfst Ret
          (if st_code s = kWouldBlock then report_health H_Ok ''pipeline is draining'' s p
           else if \<not> st_ok s then report_failure s p
           else report_success ''desired state converged'' p))"

definition publish_runtime_failure :: "status \<Rightarrow> media_platform \<Rightarrow> status \<times> media_platform" where
  "publish_runtime_failure failure p =
     (case mp_throws p S_media_publish of
        Some e \<Rightarrow> (caught e, p)
      | None \<Rightarrow>
          (case publish_each (mp_throws p) [(''/state'', ''error''), (''/error'', st_message failure),
                (''/error/provider'', st_provider_id failure), (''/error/operation'', st_operation failure),
                (''/error/message'', st_message failure)] (mp_actual p) of
             (s, a) \<Rightarrow>
               let p = p\<lparr>mp_actual := a\<rparr> in if \<not> st_ok s then (s, p) else report_failure failure p))"

subsection \<open>tick\<close>

definition encoded_count :: "media_platform \<Rightarrow> 64 word" where
  "encoded_count p = (case metric_counter encoded_key (mw_metrics (mp_world p)) of Inl s \<Rightarrow> 0 | Inr v \<Rightarrow> v)"

definition maximum_turns :: "ref_options \<Rightarrow> size_t \<Rightarrow> size_t" where
  "maximum_turns opts ticks =
     (let extra_overflows = ro_output_delay opts > size_max - 4
            \<or> ro_output_delay opts \<le> size_max - 4 \<and> ro_queue_capacity opts > size_max - ro_output_delay opts - 4;
          extra = (if extra_overflows then size_max else ro_queue_capacity opts + ro_output_delay opts + 4)
      in if extra = size_max \<or> ticks > size_max - extra then size_max else ticks + extra)"

text \<open>The loop: \<open>None\<close> when it has ended, or the status to return. The first argument is the number of
  turns left.\<close>

fun media_turns :: "nat \<Rightarrow> 64 word \<Rightarrow> media_platform \<Rightarrow> status option outcome \<times> media_platform" where
  "media_turns 0 target p = (Ret None, p)"
| "media_turns (Suc left) target p =
     (if \<not> encoded_count p < target then (Ret None, p)
      else case executor_run 1 (the (mp_pipeline p)) (mp_world p) of (r, pl, w) \<Rightarrow>
        let p = p\<lparr>mp_pipeline := Some pl, mp_world := w\<rparr>
        in case r of
             Throw e \<Rightarrow> (Throw e, p)
           | Ret s \<Rightarrow> if \<not> st_ok s then apfst (Ret \<circ> Some) (publish_runtime_failure s p)
                      else media_turns left target p)"

definition media_tick :: "size_t \<Rightarrow> media_platform \<Rightarrow> status outcome \<times> media_platform" where
  "media_tick ticks p =
     (case mp_pipeline p of
        None \<Rightarrow> (Ret not_initialized, p)
      | Some pl \<Rightarrow>
          if \<not> mp_initialized p then (Ret not_initialized, p)
          else if p_state pl \<noteq> P_Running then (Ret (status_msg kInvalidState ''pipeline is not running''), p)
          else if ticks = 0 then (Ret ok_status, p)
          else let initial = encoded_count p
          in if ticks > size_max - initial
             then (Ret (status_msg kInvalidArgument ''requested tick count overflows encoded frame target''), p)
             else let target = initial + ticks
             in case media_turns (unat (maximum_turns (mp_options p) ticks)) target
                  (p\<lparr>mp_world := (mp_world p)\<lparr>mw_budget := ticks\<rparr>\<rparr>) of
                  (Throw e, p) \<Rightarrow> (Throw e, p)
                | (Ret (Some s), p) \<Rightarrow> (Ret s, p)
                | (Ret None, p) \<Rightarrow>
                    if encoded_count p \<noteq> target
                    then (Ret (status_msg kWouldBlock ''pipeline did not produce the requested frame count''), p)
                    else apfst Ret (report_success ''running'' p))"

subsection \<open>Starting over, and queries\<close>

text \<open>Between the two pipelines there is none; the destructor of the old one runs the nodes' functions.\<close>

definition drop_pipeline :: "media_world pipeline \<Rightarrow> media_platform \<Rightarrow> media_platform" where
  "drop_pipeline pl p =
     (case pipeline_destroy pl (mp_world p) of (_, w) \<Rightarrow>
        p\<lparr>mp_reconciler := False, mp_pipeline := None, mp_world := w\<rparr>)"

text \<open>What the destructor of the platform does of its own accord: it destroys the members.\<close>

definition media_destroy :: "media_platform \<Rightarrow> media_platform" where
  "media_destroy p = (case mp_pipeline p of None \<Rightarrow> p | Some pl \<Rightarrow> drop_pipeline pl p)"

text \<open>\<open>reset_pipeline\<close> after the pipeline has stopped.\<close>

definition rebuild :: "memory storage_ops \<Rightarrow> media_platform \<Rightarrow> status outcome \<times> media_platform" where
  "rebuild ops p =
     (case build_pipeline ops (p\<lparr>mp_world := (mp_world p)\<lparr>mw_budget := 0\<rparr>\<rparr>) of (s, p) \<Rightarrow>
        if \<not> st_ok s then apfst Ret (report_failure s p)
        else case run_reconciler p of
          (Throw e, p) \<Rightarrow> (Throw e, p)
        | (Ret s, p) \<Rightarrow> apfst Ret
            (if \<not> st_ok s then publish_runtime_failure s p
             else report_success ''pipeline rebuilt'' p))"

definition media_reset_pipeline :: "memory storage_ops \<Rightarrow> media_platform \<Rightarrow> status outcome \<times> media_platform" where
  "media_reset_pipeline ops p =
     (let refused = (Ret (status_msg kInvalidState ''only an errored pipeline can be reset''), p)
      in case mp_pipeline p of
           None \<Rightarrow> refused
         | Some pl \<Rightarrow>
             if \<not> mp_initialized p \<or> p_state pl \<noteq> P_Error then refused
             else case pipeline_stop pl (mp_world p) of (r, pl, w) \<Rightarrow>
               let p = p\<lparr>mp_pipeline := Some pl, mp_world := w\<rparr>
               in case r of
                    Throw e \<Rightarrow> (Throw e, p)
                  | Ret s \<Rightarrow>
                      if \<not> st_ok s then (Ret s, p) else rebuild ops (drop_pipeline pl p))"

definition media_query :: "string \<Rightarrow> media_platform \<Rightarrow> state_snapshot result" where
  "media_query pipeline_id p =
     (if mp_pipeline p = None \<or> pipeline_id \<noteq> p_id (the (mp_pipeline p))
      then err (status_msg kNotFound ''pipeline was not found'')
      else let snapshot = store_snapshot (mp_actual p)
        in case snapshot_get (media_key ''/state'') snapshot of Inl s \<Rightarrow> err s | Inr v \<Rightarrow> Inr snapshot)"

end
