(* ===== verification/Reference_Flow.thy ===== *)
theory Reference_Flow
  imports Reference_Media Reference_Node
begin

text \<open>
  How the frames of the reference platform move: one turn of the pipeline takes every frame one node
  further, except that the encoder holds back as many as its output delay. From this follows what
  \<open>tick\<close> returns and counts, for any number of frames, delay and capacity.
\<close>

subsection \<open>Queues with at most one value between the nodes\<close>

definition lane :: "nat \<Rightarrow> 'a option \<Rightarrow> 'a queue_store \<Rightarrow> bool" where
  "lane i x qs \<longleftrightarrow> i < length qs \<and> qs ! i = (bqueue_new 4 kBlock)\<lparr>q_values := case x of None \<Rightarrow> [] | Some y \<Rightarrow> [y]\<rparr>"

lemma lane_send:
  assumes "op_connections out = [i]" "lane i None qs"
  shows "\<exists>qs'. port_send (Some x) out qs = (ok_status, qs') \<and> lane i (Some x) qs'"
  using assms
  by (simp add: lane_def port_send_def bqueue_push_def preflight_push_def bqueue_new_def bqueue_size_def Let_def)

lemma lane_receive:
  assumes "ip_queue inp = Some i" "lane i x qs"
  shows "\<exists>qs'. port_receive inp qs
      = ((case x of None \<Rightarrow> err (status_msg kNotFound ''queue is empty'') | Some y \<Rightarrow> Inr y), qs') \<and> lane i None qs'"
  using assms
  by (auto simp: lane_def port_receive_def bqueue_pop_def bqueue_new_def split: option.split)

subsection \<open>A tick of a backend node\<close>

definition idle_node :: "nat \<Rightarrow> nat \<Rightarrow> ('d, 'c, 'o) bnode \<Rightarrow> bool" where
  "idle_node i j n \<longleftrightarrow> bn_pending_in n = None \<and> bn_pending_out n = None \<and> \<not> bn_drain_started n
     \<and> ip_queue (bn_input n) = Some i \<and> op_connections (bn_output n) = [j]"

text \<open>The device gives a result if it has one, then takes the frame of the input queue if there is one.\<close>

definition passes ::
  "('d, 'c, 'o) backend_ops \<Rightarrow> 'd \<Rightarrow> 'o option \<Rightarrow> video_frame option \<Rightarrow> 'd \<Rightarrow> bool" where
  "passes ops d out inp d' \<longleftrightarrow>
     (\<exists>d1. bk_receive ops d = (Ret (case out of None \<Rightarrow> Inl (status_of kWouldBlock) | Some x \<Rightarrow> Inr x), d1)
        \<and> (case inp of None \<Rightarrow> d' = d1 | Some f \<Rightarrow> bk_submit ops (Some f) d1 = (Ret ok_status, d')))"

lemma submit_passes:
  assumes n: "idle_node i j n" "lane i inp (bn_frames n)" "bn_device n = Some d1"
    and d: "case inp of None \<Rightarrow> d' = d1 | Some f \<Rightarrow> bk_submit ops (Some f) d1 = (Ret ok_status, d')"
  shows "\<exists>n'. tick_submit ops n = (Ret ok_status, n') \<and> idle_node i j n' \<and> bn_device n' = Some d'
    \<and> lane i None (bn_frames n') \<and> bn_outs n' = bn_outs n"
proof -
  obtain qs where "port_receive (bn_input n) (bn_frames n)
      = ((case inp of None \<Rightarrow> err (status_msg kNotFound ''queue is empty'') | Some y \<Rightarrow> Inr y), qs)" "lane i None qs"
    using lane_receive [of "bn_input n" i inp "bn_frames n"] n by (auto simp: idle_node_def)
  then show ?thesis
    using n d
    by (cases inp) (simp_all add: tick_submit_def receive_input_def idle_node_def andthen_def dev_call_def err_def)
qed

lemma node_passes:
  assumes n: "idle_node i j n" "lane i inp (bn_frames n)" "lane j None (bn_outs n)" "bn_device n = Some d"
    and d: "passes ops d out inp d'"
  shows "\<exists>n'. bnode_tick ops n = (Ret ok_status, n') \<and> idle_node i j n' \<and> bn_device n' = Some d'
    \<and> lane i None (bn_frames n') \<and> lane j out (bn_outs n')"
proof -
  obtain d1 where d1: "bk_receive ops d = (Ret (case out of None \<Rightarrow> Inl (status_of kWouldBlock) | Some x \<Rightarrow> Inr x), d1)"
    and sub: "case inp of None \<Rightarrow> d' = d1 | Some f \<Rightarrow> bk_submit ops (Some f) d1 = (Ret ok_status, d')"
    using d by (auto simp: passes_def)
  have start: "send_pending_output n = (ok_status, n)"
    using n(1) by (simp add: send_pending_output_def idle_node_def)
  let ?n1 = "n\<lparr>bn_device := Some d1\<rparr>"
  have rcv: "dev_call (bk_receive ops) n
      = (Ret (case out of None \<Rightarrow> Inl (status_of kWouldBlock) | Some x \<Rightarrow> Inr x), ?n1)"
    using n(4) d1 by (simp add: dev_call_def)
  show ?thesis
  proof (cases out)
    case None
    have "idle_node i j ?n1" using n(1) by (simp add: idle_node_def)
    then obtain n' where "tick_submit ops ?n1 = (Ret ok_status, n')" "idle_node i j n'" "bn_device n' = Some d'"
      "lane i None (bn_frames n')" "bn_outs n' = bn_outs ?n1"
      using submit_passes [of i j ?n1 inp d1 d' ops] n(2) sub by auto
    then show ?thesis
      using n(3) by (simp add: bnode_tick_def start rcv None andthen_def is_temporarily_empty_def node_try_def)
  next
    case (Some x)
    obtain qs where qs: "port_send (Some x) (bn_output n) (bn_outs n) = (ok_status, qs)" "lane j (Some x) qs"
      using lane_send [of "bn_output n" j "bn_outs n" x] n(1,3) by (auto simp: idle_node_def)
    let ?n2 = "?n1\<lparr>bn_outs := qs, bn_pending_out := None\<rparr>"
    have send: "send_pending_output (?n1\<lparr>bn_pending_out := Some x\<rparr>) = (ok_status, ?n2)"
      using qs(1) by (simp add: send_pending_output_def)
    have "idle_node i j ?n2" using n(1) by (simp add: idle_node_def)
    then obtain n' where "tick_submit ops ?n2 = (Ret ok_status, n')" "idle_node i j n'" "bn_device n' = Some d'"
      "lane i None (bn_frames n')" "bn_outs n' = bn_outs ?n2"
      using submit_passes [of i j ?n2 inp d1 d' ops] n(2) sub by auto
    then show ?thesis
      using qs(2) by (simp add: bnode_tick_def start rcv Some andthen_def send node_try_def)
  qed
qed

subsection \<open>The frames of the source\<close>

definition media_fmt :: video_format where
  "media_fmt = projr (media_format no_throw)"

definition media_pc :: video_processor_config where
  "media_pc = projr (media_processor_config no_throw media_fmt)"

definition media_ec :: video_encoder_config where
  "media_ec = projr (media_encoder_config no_throw)"

lemma media_configs:
  "media_format no_throw = Inr media_fmt" "media_processor_config no_throw media_fmt = Inr media_pc"
  "media_encoder_config no_throw = Inr media_ec"
  by code_simp+

lemma media_fmt_fields:
  "vf_pixel media_fmt = kRgb24" "vf_domain media_fmt = kCpu" "vf_planes media_fmt = [plane_layout_of 0 768 48]"
  "pc_input media_pc = media_fmt"
  by code_simp+

definition own_buffer :: "nat \<Rightarrow> buffer" where
  "own_buffer i = \<lparr>bf_storage = media_storage i 768, bf_planes = [plane_layout_of 0 768 48]\<rparr>"

definition own_frame :: "video_frame \<Rightarrow> bool" where
  "own_frame f \<longleftrightarrow> vfr_format f = media_fmt \<and> (\<exists>i. vfr_buffer f = own_buffer i)"

lemma own_alignment: "own_frame f \<Longrightarrow> st_ok (validate_reference_alignment no_throw f)"
  by (auto simp: own_frame_def own_buffer_def validate_reference_alignment_def media_fmt_fields reference_formats_def
      validate_frame_plane_alignment_def format_domain_valid_def constraint_valid_def unit_constraint_def
      plane_count_def plane_address_alignment_def media_storage_def plane_layout_of_def Let_def)

lemma own_acceptable: "own_frame f \<Longrightarrow> acceptable media_pc f"
  by (simp add: acceptable_def own_alignment media_fmt_fields) (simp add: own_frame_def)

text \<open>The storages are mapped where the allocator has put them; it puts none at the null pointer.\<close>

lemma own_mapped:
  assumes "\<forall>i. base i \<noteq> 0"
  shows "map_plane (media_storage_ops base) (own_buffer i) 0 mode m
    = (Inr \<lparr>mr_storage = Some (media_storage i 768), mr_data = base i, mr_size = 768, mr_mode = mode\<rparr>, m)"
  using assms
  by (simp add: map_plane_def own_buffer_def media_storage_ops_def media_storage_def cpu_ops_def plane_layout_of_def
      is_within_def Let_def)

lemma own_encoded:
  assumes "\<forall>i. base i \<noteq> 0" "own_frame f"
  shows "\<exists>x m'. ref_encode no_throw (media_storage_ops base) f m = (Inr x, m')"
proof -
  obtain i where i: "vfr_buffer f = own_buffer i" using assms(2) by (auto simp: own_frame_def)
  show ?thesis
    using assms(1) own_mapped [OF assms(1)]
    by (simp add: ref_encode_def i Let_def buffer_allocate_plain_def buffer_allocate_def buffer_create_def
        validate_planes_def media_packet_create_def map_plane_def [where b = "\<lparr>bf_storage = _, bf_planes = _\<rparr>"]
        media_storage_ops_def cpu_ops_def cpu_storage_def plane_layout_of_def is_within_def)
qed

subsection \<open>The two devices\<close>

text \<open>The reference encoder on the thread that configured it; \<open>serving\<close> says the same of the processor.\<close>

definition encoding :: "nat \<Rightarrow> ref_options \<Rightarrow> ref_encoder \<Rightarrow> bool" where
  "encoding t opts e \<longleftrightarrow> re_affinity e = Some t \<and> re_options e = opts \<and> re_input_format e = Some media_fmt
     \<and> re_state e \<in> {B_Configured, B_Running}"

definition lossless_options :: "ref_options \<Rightarrow> bool" where
  "lossless_options opts \<longleftrightarrow> ro_device_lost_after opts = 0 \<and> ro_output_delay opts < ro_queue_capacity opts"

abbreviation "delay_of opts \<equiv> unat (ro_output_delay opts)"

definition first_of :: "'a list \<Rightarrow> 'a option" where
  "first_of xs = (case xs of [] \<Rightarrow> None | x # _ \<Rightarrow> Some x)"

definition to_list :: "'a option \<Rightarrow> 'a list" where
  "to_list x = (case x of None \<Rightarrow> [] | Some y \<Rightarrow> [y])"

lemma to_list_simps [simp]: "to_list None = []" "to_list (Some x) = [x]"
  by (simp_all add: to_list_def)

lemma capacity_above: "lossless_options opts \<Longrightarrow> delay_of opts < unat (ro_queue_capacity opts)"
  by (simp add: lossless_options_def word_less_nat_alt)

lemma processor_passes:
  assumes p: "serving t opts media_pc p" "length (rp_queue p) \<le> 1"
    and o: "lossless_options opts" and f: "case inp of None \<Rightarrow> True | Some f \<Rightarrow> own_frame f"
  shows "\<exists>p'. passes (ref_processor_ops (no_throw, t)) p (first_of (rp_queue p)) inp p'
    \<and> serving t opts media_pc p' \<and> rp_queue p' = to_list inp"
proof -
  let ?p1 = "p\<lparr>rp_queue := []\<rparr>"
  have rcv: "rp_receive no_throw t p
      = ((case first_of (rp_queue p) of None \<Rightarrow> Inl (status_of kWouldBlock) | Some x \<Rightarrow> Inr x), ?p1)"
    using p by (cases "rp_queue p") (simp_all add: serving_receive first_of_def err_def)
  have s1: "serving t opts media_pc ?p1" using p(1) by simp
  show ?thesis
  proof (cases inp)
    case None
    then show ?thesis using rcv s1 by (intro exI [of _ ?p1]) (simp add: passes_def ref_processor_ops_def)
  next
    case (Some f)
    let ?p2 = "?p1\<lparr>rp_queue := [f], rp_submissions := rp_submissions p + 1, rp_state := B_Running\<rparr>"
    have "rp_submit no_throw t (Some f) ?p1 = (ok_status, ?p2)"
      using serving_submit [OF s1 _ own_acceptable [of f]] f o capacity_above [OF o]
      by (simp add: Some lossless_options_def)
    moreover have "serving t opts media_pc ?p2" using p(1) by (simp add: serving_def)
    ultimately show ?thesis using rcv by (intro exI [of _ ?p2]) (simp add: passes_def ref_processor_ops_def Some)
  qed
qed

text \<open>What the encoder keeps after giving a packet, if it holds more frames than its delay.\<close>

definition kept_frames :: "nat \<Rightarrow> 'a list \<Rightarrow> 'a list" where
  "kept_frames d ys = (if d < length ys then tl ys else ys)"

lemma encoder_passes:
  assumes e: "encoding t opts e" "length (re_queue e) \<le> Suc (delay_of opts)" "list_all own_frame (re_queue e)"
    and o: "lossless_options opts" and f: "case inp of None \<Rightarrow> True | Some f \<Rightarrow> own_frame f" and base: "\<forall>i. base i \<noteq> 0"
  shows "\<exists>e' m' out. passes (ref_encoder_ops (media_storage_ops base) (no_throw, t)) (e, m) out inp (e', m')
    \<and> encoding t opts e' \<and> re_queue e' = kept_frames (delay_of opts) (re_queue e) @ to_list inp
    \<and> (out = None \<longleftrightarrow> length (re_queue e) \<le> delay_of opts)"
proof -
  let ?d = "delay_of opts" and ?ops = "media_storage_ops base"
  let ?e1 = "e\<lparr>re_queue := kept_frames ?d (re_queue e)\<rparr>"
  have "\<exists>out m1. re_receive no_throw t ?ops (e, m)
      = ((case out of None \<Rightarrow> Inl (status_of kWouldBlock) | Some x \<Rightarrow> Inr x), ?e1, m1)
      \<and> (out = None \<longleftrightarrow> length (re_queue e) \<le> ?d)"
  proof (cases "?d < length (re_queue e)")
    case False
    then have "re_receive no_throw t ?ops (e, m) = (Inl (status_of kWouldBlock), ?e1, m)"
      using e(1) by (auto simp: encoding_def re_receive_def verify_current_thread_def can_receive_def kept_frames_def err_def Let_def)
    then show ?thesis using False by (intro exI [of _ None]) auto
  next
    case True
    then obtain g gs where q: "re_queue e = g # gs" by (cases "re_queue e") auto
    obtain x m1 where "ref_encode no_throw ?ops g m = (Inr x, m1)"
      using own_encoded [OF base, of g m] e(3) q by auto
    then have "re_receive no_throw t ?ops (e, m) = (Inr x, ?e1, m1)"
      using e(1) q True by (auto simp: encoding_def re_receive_def verify_current_thread_def can_receive_def kept_frames_def Let_def)
    then show ?thesis using True by (intro exI [of _ "Some x"] exI [of _ m1]) simp
  qed
  then obtain out m1 where rcv: "re_receive no_throw t ?ops (e, m)
      = ((case out of None \<Rightarrow> Inl (status_of kWouldBlock) | Some x \<Rightarrow> Inr x), ?e1, m1)"
    and out: "out = None \<longleftrightarrow> length (re_queue e) \<le> ?d" by blast
  show ?thesis
  proof (cases inp)
    case None
    then show ?thesis
      using rcv out e(1) by (intro exI [of _ ?e1] exI [of _ m1] exI [of _ out]) (simp add: passes_def encoding_def ref_encoder_ops_def)
  next
    case (Some f)
    let ?e2 = "?e1\<lparr>re_queue := kept_frames ?d (re_queue e) @ [f], re_submissions := re_submissions e + 1, re_state := B_Running\<rparr>"
    have own: "own_frame f" using f by (simp add: Some)
    have "length (kept_frames ?d (re_queue e)) \<le> ?d" using e(2) by (auto simp: kept_frames_def)
    then have room: "length (kept_frames ?d (re_queue e)) < unat (ro_queue_capacity opts)" using capacity_above [OF o] by simp
    have fmt: "vfr_format f = media_fmt" using own by (simp add: own_frame_def)
    have "re_submit no_throw t (Some f) ?e1 = (ok_status, ?e2)"
      using e(1) o room own_alignment [OF own]
      by (auto simp: fmt re_submit_def encoding_def verify_current_thread_def can_submit_def lossless_options_def Let_def)
    moreover have "encoding t opts ?e2" using e(1) by (simp add: encoding_def)
    ultimately show ?thesis
      using rcv out
      by (intro exI [of _ ?e2] exI [of _ m1] exI [of _ out]) (simp add: passes_def ref_encoder_ops_def Some on_encoder_def)
  qed
qed

subsection \<open>The line of the four nodes\<close>

text \<open>The nodes are connected through the queues \<open>i\<close>, \<open>j\<close> and \<open>k\<close> of the three stores. On their way are
  \<open>a\<close> in the first queue, \<open>xs\<close> in the processor, \<open>b\<close> in the second queue, \<open>ys\<close> in the encoder and the
  packet \<open>c\<close> in the third queue.\<close>

definition line ::
  "nat \<Rightarrow> ref_options \<Rightarrow> nat \<times> nat \<times> nat \<Rightarrow> video_frame option \<Rightarrow> video_frame list \<Rightarrow> video_frame option \<Rightarrow>
     video_frame list \<Rightarrow> media_packet option \<Rightarrow> media_world \<Rightarrow> bool" where
  "line t opts q a xs b ys c w \<longleftrightarrow> (case q of (i, j, k) \<Rightarrow>
     mw_throws w = no_throw \<and> mw_thread w = t \<and> mw_pending w = None \<and> mw_format w = media_fmt
     \<and> op_connections (mw_output w) = [i] \<and> ip_queue (mw_sink_in w) = Some k
     \<and> lane i a (mw_raw w) \<and> lane j b (mw_processed w) \<and> lane k c (mw_packets w)
     \<and> idle_node i j (mw_processor w)
     \<and> (\<exists>p. bn_device (mw_processor w) = Some p \<and> serving t opts media_pc p \<and> rp_queue p = xs)
     \<and> idle_node j k (mw_encoder w)
     \<and> (\<exists>e m. bn_device (mw_encoder w) = Some (e, m) \<and> encoding t opts e \<and> re_queue e = ys)
     \<and> list_all own_frame (to_list a @ xs @ to_list b @ ys))"

text \<open>What the nodes behind the source leave alone.\<close>

abbreviation "same_source w w' \<equiv> mw_budget w' = mw_budget w \<and> mw_next_pts w' = mw_next_pts w"

lemma idle_node_fields [simp]:
  "idle_node i j (n\<lparr>bn_frames := qs\<rparr>) \<longleftrightarrow> idle_node i j n" "idle_node i j (n\<lparr>bn_outs := os\<rparr>) \<longleftrightarrow> idle_node i j n"
  "idle_node i j (n\<lparr>bn_device := d\<rparr>) \<longleftrightarrow> idle_node i j n"
  by (simp_all add: idle_node_def)

lemma own_listed: "list_all own_frame (to_list a) \<Longrightarrow> case a of None \<Rightarrow> True | Some f \<Rightarrow> own_frame f"
  by (cases a) simp_all

lemma own_first: "list_all own_frame xs \<Longrightarrow> list_all own_frame (to_list (first_of xs))"
  by (cases xs) (simp_all add: first_of_def)

lemma own_kept: "list_all own_frame ys \<Longrightarrow> list_all own_frame (kept_frames d ys)"
  by (cases ys) (simp_all add: kept_frames_def)

lemma on_tick_media [simp]:
  "on_tick media_processor_hooks w = at_processor (bnode_tick (ref_processor_ops (mw_throws w, mw_thread w))) w"
  "on_tick (media_encoder_hooks ops) w = at_encoder (bnode_tick (ref_encoder_ops ops (mw_throws w, mw_thread w))) w"
  "on_tick (media_source_hooks ops) w = media_source_tick ops w" "on_tick media_sink_hooks w = consume_one w"
  by (simp_all add: media_processor_hooks_def media_encoder_hooks_def lifted_def processor_node_hooks_def
      encoder_node_hooks bnode_hooks_def default_hooks_def media_source_hooks_def media_sink_hooks_def)

lemma processor_line:
  assumes w: "line t opts q a xs None ys c w" "length xs \<le> 1" and o: "lossless_options opts"
  shows "\<exists>w'. on_tick media_processor_hooks w = (Ret ok_status, w') \<and> line t opts q None (to_list a) (first_of xs) ys c w'
    \<and> same_source w w' \<and> mw_metrics w' = mw_metrics w"
proof -
  obtain i j k where q: "q = (i, j, k)" by (cases q)
  obtain p where p: "bn_device (mw_processor w) = Some p" "serving t opts media_pc p" "rp_queue p = xs"
    using w(1) by (auto simp: line_def q)
  have own: "list_all own_frame (to_list a)" "list_all own_frame xs" "list_all own_frame ys"
    using w(1) by (simp_all add: line_def q)
  obtain p' where p': "passes (ref_processor_ops (no_throw, t)) p (first_of xs) a p'"
    "serving t opts media_pc p'" "rp_queue p' = to_list a"
    using processor_passes [OF p(2) _ o own_listed [OF own(1)]] w(2) p(3) by auto
  let ?n = "(mw_processor w)\<lparr>bn_frames := mw_raw w, bn_outs := mw_processed w\<rparr>"
  have "idle_node i j ?n" "lane i a (bn_frames ?n)" "lane j None (bn_outs ?n)" "bn_device ?n = Some p"
    using w(1) p(1) by (simp_all add: line_def q)
  from node_passes [OF this p'(1)] obtain n' where n': "bnode_tick (ref_processor_ops (no_throw, t)) ?n = (Ret ok_status, n')"
    "idle_node i j n'" "bn_device n' = Some p'" "lane i None (bn_frames n')" "lane j (first_of xs) (bn_outs n')"
    by blast
  let ?w' = "w\<lparr>mw_processor := n', mw_raw := bn_frames n', mw_processed := bn_outs n'\<rparr>"
  have "mw_throws w = no_throw" "mw_thread w = t" using w(1) by (simp_all add: line_def q)
  then have "on_tick media_processor_hooks w = (Ret ok_status, ?w')"
    using n'(1) by (simp add: at_processor_def)
  moreover have "line t opts q None (to_list a) (first_of xs) ys c ?w'"
    using w(1) n'(2-5) p'(2,3) own own_first [OF own(2)] by (auto simp: line_def q)
  ultimately show ?thesis by (intro exI [of _ ?w']) simp
qed

lemma encoder_line:
  assumes w: "line t opts q None xs b ys None w" "length ys \<le> Suc (delay_of opts)"
    and o: "lossless_options opts" and base: "\<forall>i. base i \<noteq> 0"
  shows "\<exists>w' c. on_tick (media_encoder_hooks (media_storage_ops base)) w = (Ret ok_status, w')
    \<and> line t opts q None xs None (kept_frames (delay_of opts) ys @ to_list b) c w' \<and> (c = None \<longleftrightarrow> length ys \<le> delay_of opts)
    \<and> same_source w w' \<and> mw_metrics w' = mw_metrics w"
proof -
  let ?ops = "ref_encoder_ops (media_storage_ops base) (no_throw, t)" and ?d = "delay_of opts"
  obtain i j k where q: "q = (i, j, k)" by (cases q)
  obtain e m where e: "bn_device (mw_encoder w) = Some (e, m)" "encoding t opts e" "re_queue e = ys"
    using w(1) by (auto simp: line_def q)
  have own: "list_all own_frame (to_list b)" "list_all own_frame xs" "list_all own_frame ys"
    using w(1) by (simp_all add: line_def q)
  obtain e' m' c where e': "passes ?ops (e, mw_memory w) c b (e', m')" "encoding t opts e'"
    "re_queue e' = kept_frames ?d ys @ to_list b" "c = None \<longleftrightarrow> length ys \<le> ?d"
    using encoder_passes [OF e(2) _ _ o own_listed [OF own(1)] base, of "mw_memory w"] w(2) e(3) own(3) by auto
  let ?n = "(mw_encoder w)\<lparr>bn_device := Some (e, mw_memory w), bn_frames := mw_processed w, bn_outs := mw_packets w\<rparr>"
  have "idle_node j k ?n" "lane j b (bn_frames ?n)" "lane k None (bn_outs ?n)" "bn_device ?n = Some (e, mw_memory w)"
    using w(1) by (simp_all add: line_def q)
  from node_passes [OF this e'(1)] obtain n' where n': "bnode_tick ?ops ?n = (Ret ok_status, n')"
    "idle_node j k n'" "bn_device n' = Some (e', m')" "lane j None (bn_frames n')" "lane k c (bn_outs n')"
    by blast
  let ?w' = "w\<lparr>mw_encoder := n', mw_processed := bn_frames n', mw_packets := bn_outs n', mw_memory := m'\<rparr>"
  have "mw_throws w = no_throw" "mw_thread w = t" using w(1) by (simp_all add: line_def q)
  then have "on_tick (media_encoder_hooks (media_storage_ops base)) w = (Ret ok_status, ?w')"
    using n'(1,3) e(1) by (simp add: at_encoder_def)
  moreover have "line t opts q None xs None (kept_frames ?d ys @ to_list b) c ?w'"
    using w(1) n'(2-5) e'(2,3) own own_kept [OF own(3)] by (auto simp: line_def q)
  ultimately show ?thesis using e'(4) by (intro exI [of _ ?w'] exI [of _ c]) simp
qed

lemma encoded_named: "encoded_key \<noteq> []" "depth_key \<noteq> []"
  by (simp_all add: encoded_key_def depth_key_def)

lemma sink_line:
  assumes w: "line t opts q a xs b ys c w"
  shows "\<exists>w'. on_tick media_sink_hooks w = (Ret ok_status, w') \<and> line t opts q a xs b ys None w' \<and> same_source w w'
    \<and> counter_or_0 encoded_key (mw_metrics w') = counter_or_0 encoded_key (mw_metrics w) + (if c = None then 0 else 1)
    \<and> (\<forall>x. x \<noteq> encoded_key \<longrightarrow> counter_or_0 x (mw_metrics w') = counter_or_0 x (mw_metrics w))"
proof -
  obtain i j k where q: "q = (i, j, k)" by (cases q)
  obtain qs where "port_receive (mw_sink_in w) (mw_packets w)
      = ((case c of None \<Rightarrow> err (status_msg kNotFound ''queue is empty'') | Some y \<Rightarrow> Inr y), qs)" "lane k None qs"
    using lane_receive [of "mw_sink_in w" k c "mw_packets w"] w by (auto simp: line_def q)
  then show ?thesis
    using w
    by (cases c) (simp_all add: consume_one_def err_def set_depth_def set_gauge_def increment_counter_def encoded_named
        counter_or_0_def line_def q Let_def)
qed

definition allocated_key :: string where
  "allocated_key = ''media.frames.allocated''"

lemma counters_differ: "encoded_key \<noteq> allocated_key" "allocated_key \<noteq> encoded_key"
  by (simp_all add: encoded_key_def allocated_key_def)

lemma source_made:
  assumes base: "\<forall>i. base i \<noteq> 0" and w: "mw_throws w = no_throw" "mw_format w = media_fmt"
  shows "\<exists>m f. own_frame f \<and> source_frame (media_storage_ops base) w
    = (let w' = w\<lparr>mw_memory := m, mw_pending := Some f, mw_next_pts := mw_next_pts w + 1, mw_budget := mw_budget w - 1,
                  mw_metrics := snd (increment_counter allocated_key 1 (mw_metrics w))\<rparr>
       in apfst Ret (source_send w'))"
proof -
  let ?ops = "media_storage_ops base" and ?i = "mem_next (mw_memory w)"
  have buf: "buffer_create no_throw (Some (media_storage ?i 768)) [plane_layout_of 0 768 48] = Inr (own_buffer ?i)"
    by (simp add: buffer_create_def validate_planes_def media_storage_def plane_layout_of_def own_buffer_def is_within_def Let_def)
  have drop: "drop_region ?ops r m = m" for r m
    by (cases "mr_storage r") (simp_all add: drop_region_def region_unmap_def media_storage_ops_def cpu_ops_def)
  have frame: "video_frame_create no_throw (own_buffer i) media_fmt pts tb
      = Inr \<lparr>vfr_buffer = own_buffer i, vfr_format = media_fmt, vfr_pts = pts, vfr_time_base = tb\<rparr>" for i pts tb
    by (simp add: video_frame_create_def own_buffer_def media_storage_def media_fmt_fields plane_count_def plane_layout_at_def)
  have "own_frame \<lparr>vfr_buffer = own_buffer ?i, vfr_format = media_fmt, vfr_pts = pts, vfr_time_base = tb\<rparr>" for pts tb
    by (auto simp: own_frame_def)
  moreover have "allocated_key \<noteq> []" by (simp add: allocated_key_def)
  ultimately show ?thesis
    using w buf own_mapped [OF base] drop frame
    by (simp add: source_frame_def media_fmt_fields increment_counter_def allocated_key_def Let_def) blast
qed

lemma source_line:
  assumes w: "line t opts q None xs b ys c w" and base: "\<forall>i. base i \<noteq> 0"
  shows "\<exists>w' a. on_tick (media_source_hooks (media_storage_ops base)) w = (Ret ok_status, w') \<and> line t opts q a xs b ys c w'
    \<and> (a = None \<longleftrightarrow> mw_budget w = 0) \<and> unat (mw_budget w') = unat (mw_budget w) - 1
    \<and> mw_next_pts w' = mw_next_pts w + int (length (to_list a))
    \<and> counter_or_0 allocated_key (mw_metrics w') = counter_or_0 allocated_key (mw_metrics w) + of_nat (length (to_list a))
    \<and> counter_or_0 encoded_key (mw_metrics w') = counter_or_0 encoded_key (mw_metrics w)"
proof (cases "mw_budget w = 0")
  case True
  then show ?thesis
    using w by (intro exI [of _ w] exI [of _ None]) (auto simp: media_source_tick_def media_try_def line_def split: prod.splits)
next
  case False
  obtain i j k where q: "q = (i, j, k)" by (cases q)
  have f: "mw_throws w = no_throw" "mw_format w = media_fmt" "mw_pending w = None"
    using w by (simp_all add: line_def q)
  obtain m f where own: "own_frame f" and made: "source_frame (media_storage_ops base) w
    = (let w' = w\<lparr>mw_memory := m, mw_pending := Some f, mw_next_pts := mw_next_pts w + 1, mw_budget := mw_budget w - 1,
                  mw_metrics := snd (increment_counter allocated_key 1 (mw_metrics w))\<rparr>
       in apfst Ret (source_send w'))"
    using source_made [OF base f(1,2)] by blast
  obtain qs where qs: "port_send (Some f) (mw_output w) (mw_raw w) = (ok_status, qs)" "lane i (Some f) qs"
    using lane_send [of "mw_output w" i "mw_raw w" f] w by (auto simp: line_def q)
  let ?w' = "w\<lparr>mw_memory := m, mw_pending := None, mw_next_pts := mw_next_pts w + 1, mw_budget := mw_budget w - 1,
      mw_metrics := snd (increment_counter allocated_key 1 (mw_metrics w)), mw_raw := qs\<rparr>"
  have "on_tick (media_source_hooks (media_storage_ops base)) w = (Ret ok_status, ?w')"
    using made qs(1) f(3) False by (simp add: media_source_tick_def media_try_def source_send_def Let_def)
  moreover have "line t opts q (Some f) xs b ys c ?w'"
    using w qs(2) own by (simp add: line_def q)
  moreover have "unat (mw_budget w - 1) = unat (mw_budget w) - 1"
    using False by (simp add: unat_minus_one)
  moreover have "counter_or_0 allocated_key (mw_metrics ?w') = counter_or_0 allocated_key (mw_metrics w) + 1"
    "counter_or_0 encoded_key (mw_metrics ?w') = counter_or_0 encoded_key (mw_metrics w)"
    using counters_differ by (simp_all add: counter_or_0_increment) (simp_all add: counter_or_0_increment allocated_key_def encoded_key_def)
  ultimately show ?thesis
    using False by (intro exI [of _ ?w'] exI [of _ "Some f"]) simp
qed

subsection \<open>One turn of the pipeline\<close>

definition "media_g1 = snd (graph_add_node ''source'' graph_new)"
definition "media_g2 = snd (graph_add_node ''processor'' media_g1)"
definition "media_g3 = snd (graph_add_node ''encoder'' media_g2)"
definition "media_g4 = snd (graph_add_node ''sink'' media_g3)"
definition "media_g5 = snd (graph_connect ''source'' ''processor'' media_g4)"
definition "media_g6 = snd (graph_connect ''processor'' ''encoder'' media_g5)"
definition "media_topology = snd (graph_connect ''encoder'' ''sink'' media_g6)"

lemma media_graph_ops:
  "graph_add_node ''source'' graph_new = (ok_status, media_g1)"
  "graph_add_node ''processor'' media_g1 = (ok_status, media_g2)"
  "graph_add_node ''encoder'' media_g2 = (ok_status, media_g3)"
  "graph_add_node ''sink'' media_g3 = (ok_status, media_g4)"
  "graph_connect ''source'' ''processor'' media_g4 = (ok_status, media_g5)"
  "graph_connect ''processor'' ''encoder'' media_g5 = (ok_status, media_g6)"
  "graph_connect ''encoder'' ''sink'' media_g6 = (ok_status, media_topology)"
  "topological_order media_topology = Inr [''source'', ''processor'', ''encoder'', ''sink'']"
  by code_simp+

definition media_pipe :: "memory storage_ops \<Rightarrow> pipeline_state \<Rightarrow> node_state \<Rightarrow> nat list \<Rightarrow> media_world pipeline" where
  "media_pipe ops st ns order =
     \<lparr>p_id = ''reference0'', p_state = st, p_graph = media_topology,
      p_nodes = [\<lparr>n_id = ''source'', n_state = ns, n_hooks = media_source_hooks ops\<rparr>,
                 \<lparr>n_id = ''processor'', n_state = ns, n_hooks = media_processor_hooks\<rparr>,
                 \<lparr>n_id = ''encoder'', n_state = ns, n_hooks = media_encoder_hooks ops\<rparr>,
                 \<lparr>n_id = ''sink'', n_state = ns, n_hooks = media_sink_hooks\<rparr>],
      p_nodes_by_id = [''source'' \<mapsto> 0, ''processor'' \<mapsto> 1, ''encoder'' \<mapsto> 2, ''sink'' \<mapsto> 3],
      p_drain_order = order, p_drain_index = 0\<rparr>"

lemma media_pipeline_made: "media_pipeline ops = (ok_status, media_pipe ops P_Created N_Created [])"
  by (simp add: media_pipeline_def if_ok_def pipeline_add_node_def pipeline_new_def pipeline_connect_def node_new_def
      media_graph_ops media_pipe_def fun_upd_twist eval_nat_numeral)

lemma media_pipe_fields [simp]:
  "p_graph (media_pipe ops st ns order) = media_topology" "p_state (media_pipe ops st ns order) = st"
  "p_id (media_pipe ops st ns order) = ''reference0''"
  by (simp_all add: media_pipe_def)

lemma media_order:
  "ordered_nodes (media_pipe ops st ns order) [''source'', ''processor'', ''encoder'', ''sink''] = [0, 1, 2, 3]"
  by (simp add: ordered_nodes_def media_pipe_def)

text \<open>What a turn does to the numbers: \<open>b\<close> frames to be made, \<open>x\<close> in the processor, \<open>y\<close> in the encoder.\<close>

definition kept_count :: "nat \<Rightarrow> nat \<Rightarrow> nat" where
  "kept_count d y = (if d < y then y - 1 else y)"

lemma length_kept_frames [simp]: "length (kept_frames d ys) = kept_count d (length ys)"
  by (simp add: kept_frames_def kept_count_def)

text \<open>The line between two turns.\<close>

definition between :: "nat \<Rightarrow> ref_options \<Rightarrow> nat \<Rightarrow> nat \<Rightarrow> nat \<Rightarrow> media_world \<Rightarrow> bool" where
  "between t opts b x y w \<longleftrightarrow> x \<le> 1 \<and> y \<le> Suc (delay_of opts) \<and> unat (mw_budget w) = b
     \<and> (\<exists>q xs ys. line t opts q None xs None ys None w \<and> length xs = x \<and> length ys = y)"

lemma media_turn:
  assumes w: "between t opts b x y w" and o: "lossless_options opts" and base: "\<forall>i. base i \<noteq> 0"
  shows "\<exists>w'. pipeline_tick (media_pipe (media_storage_ops base) P_Running N_Running order) w
      = (Ret ok_status, media_pipe (media_storage_ops base) P_Running N_Running order, w')
    \<and> between t opts (b - 1) (min 1 b) (kept_count (delay_of opts) y + x) w'
    \<and> counter_or_0 encoded_key (mw_metrics w')
        = counter_or_0 encoded_key (mw_metrics w) + (if delay_of opts < y then 1 else 0)
    \<and> counter_or_0 allocated_key (mw_metrics w') = counter_or_0 allocated_key (mw_metrics w) + of_nat (min 1 b)
    \<and> mw_next_pts w' = mw_next_pts w + int (min 1 b)"
proof -
  let ?d = "delay_of opts" and ?ops = "media_storage_ops base"
  obtain q xs ys where l: "line t opts q None xs None ys None w" and n: "length xs = x" "length ys = y" "x \<le> 1"
      "y \<le> Suc ?d" "unat (mw_budget w) = b"
    using w by (auto simp: between_def)
  obtain w1 a where 1: "on_tick (media_source_hooks ?ops) w = (Ret ok_status, w1)" "line t opts q a xs None ys None w1"
    "a = None \<longleftrightarrow> mw_budget w = 0" "unat (mw_budget w1) = unat (mw_budget w) - 1"
    "mw_next_pts w1 = mw_next_pts w + int (length (to_list a))"
    "counter_or_0 allocated_key (mw_metrics w1) = counter_or_0 allocated_key (mw_metrics w) + of_nat (length (to_list a))"
    "counter_or_0 encoded_key (mw_metrics w1) = counter_or_0 encoded_key (mw_metrics w)"
    using source_line [OF l base] by blast
  obtain w2 where 2: "on_tick media_processor_hooks w1 = (Ret ok_status, w2)"
    "line t opts q None (to_list a) (first_of xs) ys None w2" "same_source w1 w2" "mw_metrics w2 = mw_metrics w1"
    using processor_line [OF 1(2) _ o] n by auto
  obtain w3 c where 3: "on_tick (media_encoder_hooks ?ops) w2 = (Ret ok_status, w3)"
    "line t opts q None (to_list a) None (kept_frames ?d ys @ to_list (first_of xs)) c w3" "c = None \<longleftrightarrow> length ys \<le> ?d"
    "same_source w2 w3" "mw_metrics w3 = mw_metrics w2"
    using encoder_line [OF 2(2) _ o base] n by blast
  obtain w4 where 4: "on_tick media_sink_hooks w3 = (Ret ok_status, w4)"
    "line t opts q None (to_list a) None (kept_frames ?d ys @ to_list (first_of xs)) None w4" "same_source w3 w4"
    "counter_or_0 encoded_key (mw_metrics w4) = counter_or_0 encoded_key (mw_metrics w3) + (if c = None then 0 else 1)"
    "\<forall>x. x \<noteq> encoded_key \<longrightarrow> counter_or_0 x (mw_metrics w4) = counter_or_0 x (mw_metrics w3)"
    using sink_line [OF 3(2)] by blast
  have tick: "pipeline_tick (media_pipe ?ops P_Running N_Running order) w
      = (Ret ok_status, media_pipe ?ops P_Running N_Running order, w4)"
    unfolding pipeline_tick_def media_pipe_fields media_graph_ops sum.case media_order
    using 1(1) 2(1) 3(1) 4(1)
    by (simp add: media_pipe_def call_node_def node_tick_def tick_fatal_def eval_nat_numeral del: on_tick_media)
  have made: "length (to_list a) = min 1 b"
  proof (cases "mw_budget w = 0")
    case False
    then have "0 < b" using n(5) by (auto simp: unat_gt_0)
    then show ?thesis using 1(3) False by (cases a) simp_all
  qed (use 1(3) n(5) in simp)
  have "length (to_list (first_of xs)) = x"
    using n(1,3) by (cases xs) (simp_all add: first_of_def)
  then have "between t opts (b - 1) (min 1 b) (kept_count ?d y + x) w4"
    using 4(2,3) 3(4) 2(3) 1(4) n made unfolding between_def
    by (intro conjI exI [of _ q] exI [of _ "to_list a"] exI [of _ "kept_frames ?d ys @ to_list (first_of xs)"])
       (auto simp: kept_count_def)
  then show ?thesis
    using tick made 1 2(3,4) 3(3-5) 4(3-5) n counters_differ by (intro exI [of _ w4]) auto
qed

subsection \<open>The loop of tick\<close>

definition running_pipe :: "(nat \<Rightarrow> size_t) \<Rightarrow> media_world pipeline" where
  "running_pipe base = media_pipe (media_storage_ops base) P_Running N_Running [0, 1, 2, 3]"

definition media_live :: "(nat \<Rightarrow> size_t) \<Rightarrow> nat \<Rightarrow> ref_options \<Rightarrow> nat \<Rightarrow> nat \<Rightarrow> nat \<Rightarrow> media_platform \<Rightarrow> bool" where
  "media_live base t opts b x y p \<longleftrightarrow> mp_initialized p \<and> mp_reconciler p \<and> mp_options p = opts
     \<and> mp_pipeline p = Some (running_pipe base)
     \<and> between t opts b x y (mp_world p)"

abbreviation "encoded_by w \<equiv> counter_or_0 encoded_key (mw_metrics w)"
abbreviation "allocated_by w \<equiv> counter_or_0 allocated_key (mw_metrics w)"

lemma encoded_count_or_0: "encoded_count p = encoded_by (mp_world p)"
  by (simp add: encoded_count_def counter_or_0_def metric_counter_def err_def split: option.split)

text \<open>The turns after which only what the encoder holds back is left.\<close>

definition turns_needed :: "nat \<Rightarrow> nat \<Rightarrow> nat \<Rightarrow> nat \<Rightarrow> nat" where
  "turns_needed d b x y = (if 0 < b then b + 2 else if 0 < x then 2 else if d < y then 1 else 0)"

lemma turns_needed_turn:
  "x \<le> 1 \<Longrightarrow> y \<le> Suc d \<Longrightarrow> turns_needed d b x y \<le> Suc n \<Longrightarrow>
     turns_needed d (b - 1) (min 1 b) (kept_count d y + x) \<le> n"
  by (auto simp: turns_needed_def kept_count_def split: if_splits)

text \<open>Either the frames are as many as are wanted beside those held back, or they are too few.\<close>

definition stocked :: "nat \<Rightarrow> nat \<Rightarrow> nat \<Rightarrow> nat \<Rightarrow> nat \<Rightarrow> bool" where
  "stocked d r b x y \<longleftrightarrow> b + x + y = r + d \<and> d \<le> y \<or> 0 < r \<and> b + x + y < r + d"

lemma stocked_turn:
  assumes "stocked d r b x y" "x \<le> 1" "0 < r"
  shows "stocked d (if d < y then r - 1 else r) (b - 1) (min 1 b) (kept_count d y + x)"
    "b - 1 + min 1 b + (kept_count d y + x) = (if d < y then b + x + y - 1 else b + x + y)"
proof -
  have b: "b - 1 + min 1 b = b" by (cases b) simp_all
  then show "b - 1 + min 1 b + (kept_count d y + x) = (if d < y then b + x + y - 1 else b + x + y)"
    by (auto simp: kept_count_def)
  then show "stocked d (if d < y then r - 1 else r) (b - 1) (min 1 b) (kept_count d y + x)"
    using assms b unfolding stocked_def by (auto simp: kept_count_def)
qed

lemma unat_plus_nat: "unat (v :: 64 word) + n < 2 ^ 64 \<Longrightarrow> unat (v + of_nat n) = unat v + n"
  by (simp add: unat_word_ariths unat_of_nat)

lemma media_turns_exact:
  assumes o: "lossless_options opts" and base: "\<forall>i. base i \<noteq> 0"
  shows "media_live base t opts b x y p \<Longrightarrow> turns_needed (delay_of opts) b x y \<le> n \<Longrightarrow> stocked (delay_of opts) r b x y \<Longrightarrow>
    unat (encoded_count p) + r < 2 ^ 64 \<Longrightarrow>
    \<exists>w. media_turns n (encoded_count p + of_nat r) p = (Ret None, p\<lparr>mp_world := w\<rparr>)
      \<and> between t opts 0 0 (min (delay_of opts) (b + x + y)) w
      \<and> encoded_by w = encoded_count p + of_nat (b + x + y - delay_of opts)
      \<and> allocated_by w = allocated_by (mp_world p) + of_nat b \<and> mw_next_pts w = mw_next_pts (mp_world p) + int b"
proof (induction n arbitrary: b x y r p)
  case 0
  then have "b = 0" "x = 0" "y \<le> delay_of opts" by (auto simp: turns_needed_def split: if_splits)
  then show ?case
    using 0 by (intro exI [of _ "mp_world p"]) (simp add: media_live_def encoded_count_or_0 min_absorb2)
next
  case (Suc n)
  let ?d = "delay_of opts"
  have xy: "x \<le> 1" "y \<le> Suc ?d" using Suc.prems(1) by (simp_all add: media_live_def between_def)
  have less: "encoded_count p < encoded_count p + of_nat r \<longleftrightarrow> 0 < r"
    using unat_plus_nat [OF Suc.prems(4)] by (simp add: word_less_nat_alt)
  show ?case
  proof (cases "r = 0")
    case True
    then have "b = 0" "x = 0" "y = ?d" using Suc.prems(3) by (auto simp: stocked_def)
    then show ?thesis
      using Suc.prems(1) True by (intro exI [of _ "mp_world p"]) (simp add: media_live_def encoded_count_or_0)
  next
    case False
    let ?pl = "running_pipe base"
    obtain w1 where w1: "pipeline_tick ?pl (mp_world p) = (Ret ok_status, ?pl, w1)"
      "between t opts (b - 1) (min 1 b) (kept_count ?d y + x) w1"
      "encoded_by w1 = encoded_by (mp_world p) + (if ?d < y then 1 else 0)"
      "allocated_by w1 = allocated_by (mp_world p) + of_nat (min 1 b)"
      "mw_next_pts w1 = mw_next_pts (mp_world p) + int (min 1 b)"
      using media_turn [of t opts b x y "mp_world p" base "[0, 1, 2, 3]", folded running_pipe_def] Suc.prems(1) o base
      by (auto simp: media_live_def)
    let ?p1 = "p\<lparr>mp_world := w1\<rparr>" and ?e = "if ?d < y then 1 else 0 :: nat"
    let ?r = "r - ?e"
    have p1: "p\<lparr>mp_pipeline := Some ?pl, mp_world := w1\<rparr> = ?p1"
      using Suc.prems(1) by (cases p) (simp add: media_live_def)
    have e1: "encoded_count ?p1 = encoded_count p + of_nat ?e" by (simp add: encoded_count_or_0 w1(3))
    have r1: "?e + ?r = r" using False by auto
    have target: "encoded_count ?p1 + of_nat ?r = encoded_count p + of_nat r"
      unfolding e1 add.assoc of_nat_add [symmetric] r1 ..
    have "unat (encoded_count ?p1) = unat (encoded_count p) + ?e"
      unfolding e1 by (rule unat_plus_nat) (use Suc.prems(4) r1 in linarith)
    then have bound: "unat (encoded_count ?p1) + ?r < 2 ^ 64" using Suc.prems(4) r1 by linarith
    have sup: "stocked ?d ?r (b - 1) (min 1 b) (kept_count ?d y + x)"
      using stocked_turn(1) [OF Suc.prems(3) xy(1)] False by (simp split: if_splits)
    have total: "b - 1 + min 1 b + (kept_count ?d y + x) = b + x + y - ?e"
      using stocked_turn(2) [OF Suc.prems(3) xy(1)] False by simp
    have live: "media_live base t opts (b - 1) (min 1 b) (kept_count ?d y + x) ?p1"
      using Suc.prems(1) w1(2) by (simp add: media_live_def)
    obtain w where w: "media_turns n (encoded_count ?p1 + of_nat ?r) ?p1 = (Ret None, ?p1\<lparr>mp_world := w\<rparr>)"
      "between t opts 0 0 (min ?d (b + x + y - ?e)) w"
      "encoded_by w = encoded_count ?p1 + of_nat (b + x + y - ?e - ?d)"
      "allocated_by w = allocated_by (mp_world ?p1) + of_nat (b - 1)" "mw_next_pts w = mw_next_pts (mp_world ?p1) + int (b - 1)"
      using Suc.IH [OF live turns_needed_turn [OF xy Suc.prems(2)] sup bound] by (auto simp only: total)
    have "media_turns (Suc n) (encoded_count p + of_nat r) p = (Ret None, p\<lparr>mp_world := w\<rparr>)"
      using Suc.prems(1) w1(1) w(1) [unfolded target] False less by (simp add: media_live_def p1)
    moreover have "min ?d (b + x + y - ?e) = min ?d (b + x + y)" by auto
    moreover have "?e + (b + x + y - ?e - ?d) = b + x + y - ?d" by auto
    then have "encoded_by w = encoded_count p + of_nat (b + x + y - ?d)"
      unfolding w(3) e1 add.assoc of_nat_add [symmetric] by simp
    moreover have "min 1 b + (b - 1) = b" by (cases b) simp_all
    then have "allocated_by w = allocated_by (mp_world p) + of_nat b" "mw_next_pts w = mw_next_pts (mp_world p) + int b"
      using w(4,5) w1(4,5) by (simp_all add: add.assoc flip: of_nat_add)
    ultimately show ?thesis using w(2) by (intro exI [of _ w]) simp
  qed
qed

subsection \<open>tick\<close>

lemma media_key_absolute [simp]: "absolute_path (media_key suffix)"
  by (simp add: absolute_path_def media_key_def)

lemma media_key_inject [simp]: "media_key a = media_key b \<longleftrightarrow> a = b"
  by (simp add: media_key_def)

lemma erase_each_no_throw:
  "\<exists>a'. erase_each no_throw ks a = (ok_status, a') \<and> (\<forall>x \<in> set ks. published (media_key x) a' = None)
     \<and> (\<forall>k. k \<notin> media_key ` set ks \<longrightarrow> ss_values a' k = ss_values a k)"
proof -
  define step where "step = (\<lambda>suffix (first_failure, a). case state_erase no_throw (media_key suffix) a of (s, a) \<Rightarrow>
    (if st_ok first_failure \<and> \<not> st_ok s then s else first_failure, a))"
  have "\<exists>a'. fold step ks (ok_status, a) = (ok_status, a') \<and> (\<forall>x \<in> set ks. published (media_key x) a' = None)
     \<and> (\<forall>k. k \<notin> media_key ` set ks \<longrightarrow> ss_values a' k = ss_values a k)"
  proof (induction ks rule: rev_induct)
    case (snoc x ks)
    then obtain a1 where a1: "fold step ks (ok_status, a) = (ok_status, a1)" "\<forall>x \<in> set ks. published (media_key x) a1 = None"
      "\<forall>k. k \<notin> media_key ` set ks \<longrightarrow> ss_values a1 k = ss_values a k" by blast
    obtain r a2 where e: "state_erase no_throw (media_key x) a1 = (r, a2)" by fastforce
    note e' = erase_no_throw [OF media_key_absolute e]
    have "published (media_key y) a2 = None" if "y \<in> set ks" for y
      using that e' a1(2) published_cong [of a2 "media_key y" a1] by (cases "y = x") auto
    moreover have "fold step (ks @ [x]) (ok_status, a) = (ok_status, a2)"
      unfolding fold_append comp_apply a1(1) using e e' by (simp add: step_def)
    ultimately show ?case using a1(3) e' by (intro exI [of _ a2]) auto
  qed simp
  then show ?thesis by (simp add: erase_each_def step_def)
qed

lemma report_success_ok:
  assumes "mp_throws p = no_throw"
  shows "\<exists>a. report_success message p = (ok_status, p\<lparr>mp_actual := a,
        mp_health := omap_put ''pipeline'' \<lparr>hc_status = H_Ok, hc_message = message\<rparr> (mp_health p)\<rparr>)
    \<and> published (media_key ''/state'') a = published (media_key ''/state'') (mp_actual p)
    \<and> (\<forall>x \<in> set [''/error'', ''/error/provider'', ''/error/operation'', ''/error/message'']. published (media_key x) a = None)"
proof -
  obtain a where a: "erase_each no_throw [''/error'', ''/error/provider'', ''/error/operation'', ''/error/message'']
      (mp_actual p) = (ok_status, a)"
    "\<forall>x \<in> set [''/error'', ''/error/provider'', ''/error/operation'', ''/error/message'']. published (media_key x) a = None"
    "\<forall>k. k \<notin> media_key ` set [''/error'', ''/error/provider'', ''/error/operation'', ''/error/message''] \<longrightarrow>
       ss_values a k = ss_values (mp_actual p) k"
    using erase_each_no_throw by blast
  have "published (media_key ''/state'') a = published (media_key ''/state'') (mp_actual p)"
    using a(3) by (intro published_cong) auto
  then show ?thesis
    using a(1,2) assms
    by (intro exI [of _ a]) (simp add: report_success_def clear_runtime_errors_def if_ok_def report_health_def health_report_def)
qed

lemma maximum_turns_exact:
  assumes "unat n + unat (ro_queue_capacity opts) + delay_of opts + 4 < 2 ^ 64" "0 < unat n"
  shows "unat (maximum_turns opts n) = unat n + unat (ro_queue_capacity opts) + delay_of opts + 4"
proof -
  let ?c = "ro_queue_capacity opts" and ?d = "ro_output_delay opts"
  let ?extra = "?c + ?d + 4"
  have extra: "unat ?extra = unat ?c + delay_of opts + 4"
    using assms by (simp add: unat_word_ariths)
  have "size_max - ?d - 4 = size_max - (?d + 4)" by simp
  then have max: "unat (size_max - 4) = 2 ^ 64 - 5" "unat (size_max - ?d - 4) = 2 ^ 64 - 5 - delay_of opts"
    "unat (size_max - ?extra) = 2 ^ 64 - 1 - unat ?extra" "unat size_max = 2 ^ 64 - 1"
    using assms by (simp_all only: unat_size_max_minus unat_size_max) (simp_all add: unat_word_ariths)
  have "\<not> ?d > size_max - 4" "\<not> ?c > size_max - ?d - 4" "?extra \<noteq> size_max" "\<not> n > size_max - ?extra"
    using assms extra max by (auto simp: word_less_nat_alt)
  then have "maximum_turns opts n = n + ?extra" by (simp add: maximum_turns_def Let_def)
  then show ?thesis using assms extra by (simp add: unat_word_ariths)
qed

lemma line_budget [simp]: "line t opts q a xs b ys c (w\<lparr>mw_budget := n\<rparr>) \<longleftrightarrow> line t opts q a xs b ys c w"
  by (simp add: line_def split: prod.split)

lemma live_throws: "media_live base t opts b x y p \<Longrightarrow> mp_throws p = no_throw"
  by (auto simp: media_live_def between_def line_def)

abbreviation "too_few \<equiv> status_msg kWouldBlock ''pipeline did not produce the requested frame count''"

lemma media_tick_live:
  assumes live: "media_live base t opts 0 0 k p" and k: "k \<le> delay_of opts"
    and o: "lossless_options opts" and base: "\<forall>i. base i \<noteq> 0" and n: "0 < n"
    and bounds: "unat (encoded_count p) + n < 2 ^ 64" "n + unat (ro_queue_capacity opts) + delay_of opts + 4 < 2 ^ 64"
  shows "\<exists>p'. media_tick (of_nat n) p = (Ret (if k = delay_of opts then ok_status else too_few), p')
    \<and> media_live base t opts 0 0 (min (delay_of opts) (k + n)) p'
    \<and> encoded_count p' = encoded_count p + of_nat (k + n - delay_of opts)
    \<and> allocated_by (mp_world p') = allocated_by (mp_world p) + of_nat n
    \<and> mw_next_pts (mp_world p') = mw_next_pts (mp_world p) + int n
    \<and> published (media_key ''/state'') (mp_actual p') = published (media_key ''/state'') (mp_actual p)
    \<and> mp_desired p' = mp_desired p
    \<and> mp_health p' = (if k = delay_of opts
        then omap_put ''pipeline'' \<lparr>hc_status = H_Ok, hc_message = ''running''\<rparr> (mp_health p) else mp_health p)"
proof -
  let ?d = "delay_of opts" and ?n = "of_nat n :: size_t" and ?p0 = "p\<lparr>mp_world := (mp_world p)\<lparr>mw_budget := of_nat n\<rparr>\<rparr>"
  have un: "unat ?n = n" using bounds(2) by (simp add: unat_of_nat)
  have nz: "?n \<noteq> 0" using un n by auto
  have live0: "media_live base t opts n 0 k ?p0"
    using live un by (simp add: media_live_def between_def)
  have turns: "unat (maximum_turns opts ?n) = n + unat (ro_queue_capacity opts) + ?d + 4"
    using maximum_turns_exact [of ?n opts] bounds(2) n un by simp
  then have needed: "turns_needed ?d n 0 k \<le> unat (maximum_turns opts ?n)"
    using n by (simp add: turns_needed_def)
  have stock: "stocked ?d n n 0 k" using k n by (auto simp: stocked_def)
  have same: "encoded_count ?p0 = encoded_count p" by (simp add: encoded_count_or_0)
  obtain w where w: "media_turns (unat (maximum_turns opts ?n)) (encoded_count p + ?n) ?p0 = (Ret None, ?p0\<lparr>mp_world := w\<rparr>)"
    "between t opts 0 0 (min ?d (n + 0 + k)) w" "encoded_by w = encoded_count p + of_nat (n + 0 + k - ?d)"
    "allocated_by w = allocated_by (mp_world p) + of_nat n" "mw_next_pts w = mw_next_pts (mp_world p) + int n"
    using media_turns_exact [OF o base live0 needed stock, unfolded same] bounds(1) by auto
  let ?p1 = "p\<lparr>mp_world := w\<rparr>"
  have live1: "media_live base t opts 0 0 (min ?d (k + n)) ?p1"
    using live w(2) by (simp add: media_live_def add.commute)
  have enough: "\<not> ?n > size_max - encoded_count p"
    using bounds(1) by (simp add: word_less_nat_alt unat_size_max_minus un)
  have "encoded_count ?p1 = encoded_count p + ?n \<longleftrightarrow> k = ?d"
  proof
    assume "encoded_count ?p1 = encoded_count p + ?n"
    then have "unat (encoded_count p + of_nat (n + k - ?d)) = unat (encoded_count p + of_nat n)"
      using w(3) by (simp add: encoded_count_or_0)
    moreover have "unat (encoded_count p) + (n + k - ?d) < 2 ^ 64" using bounds(1) k by linarith
    ultimately have "n + k - ?d = n"
      using unat_plus_nat [of "encoded_count p" "n + k - ?d"] unat_plus_nat [OF bounds(1)] by simp
    then show "k = ?d" using n by linarith
  qed (use w(3) in \<open>simp add: encoded_count_or_0\<close>)
  moreover have fields: "mp_initialized p" "mp_pipeline p = Some (running_pipe base)" "mp_options p = opts"
    "p_state (running_pipe base) = P_Running"
    using live by (simp_all add: media_live_def running_pipe_def)
  moreover have "mp_throws ?p1 = no_throw" by (rule live_throws [OF live1])
  moreover note report_success_ok [OF this, of "''running''"]
  ultimately have "media_tick ?n p = (if k = ?d then apfst Ret (report_success ''running'' ?p1) else (Ret too_few, ?p1))"
    using w(1) nz enough by (simp add: media_tick_def Let_def)
  moreover obtain a where "report_success ''running'' ?p1 = (ok_status, ?p1\<lparr>mp_actual := a,
        mp_health := omap_put ''pipeline'' \<lparr>hc_status = H_Ok, hc_message = ''running''\<rparr> (mp_health ?p1)\<rparr>)"
    "published (media_key ''/state'') a = published (media_key ''/state'') (mp_actual ?p1)"
    using report_success_ok [OF live_throws [OF live1], of "''running''"] by auto
  ultimately show ?thesis
    using live1 w(3-5) by (cases "k = ?d") (simp_all add: encoded_count_or_0 media_live_def add.commute [of n])
qed

subsection \<open>From the command to the counter\<close>

definition media_registry :: "ref_options \<Rightarrow> ref_options registry" where
  "media_registry opts = snd (registry_freeze (snd (register_provider no_throw (ref_probe no_throw) (Some opts) registry_new)))"

lemma media_registered:
  "\<exists>r. register_provider no_throw (ref_probe no_throw) (Some opts) registry_new = (ok_status, r)
     \<and> registry_freeze r = (ok_status, media_registry opts)"
proof -
  have "fst (register_provider no_throw (ref_probe no_throw) (Some opts) registry_new) = ok_status"
    by code_simp
  moreover have "fst (registry_freeze (snd (register_provider no_throw (ref_probe no_throw) (Some opts) registry_new))) = ok_status"
    by code_simp
  ultimately show ?thesis by (metis media_registry_def prod.collapse)
qed

lemma media_selected:
  "\<exists>s. select_video_processor no_throw (ref_probe no_throw) (media_processor_request media_pc) (media_registry opts) = Inr s
     \<and> sl_provider s = opts \<and> pn_provider (sl_negotiation s) = ''reference''"
  "\<exists>s. select_video_encoder no_throw (ref_probe no_throw) (media_encoder_request media_fmt media_ec) (media_registry opts) = Inr s
     \<and> sl_provider s = opts"
proof -
  have "map_sum id (\<lambda>s. (sl_provider s, pn_provider (sl_negotiation s)))
      (select_video_processor no_throw (ref_probe no_throw) (media_processor_request media_pc) (media_registry opts))
    = Inr (opts, ''reference'')"
    by code_simp
  then show "\<exists>s. select_video_processor no_throw (ref_probe no_throw) (media_processor_request media_pc) (media_registry opts) = Inr s
     \<and> sl_provider s = opts \<and> pn_provider (sl_negotiation s) = ''reference''"
    by (auto simp: map_sum_def split: sum.splits)
  have "map_sum id sl_provider
      (select_video_encoder no_throw (ref_probe no_throw) (media_encoder_request media_fmt media_ec) (media_registry opts))
    = Inr opts"
    by code_simp
  then show "\<exists>s. select_video_encoder no_throw (ref_probe no_throw) (media_encoder_request media_fmt media_ec) (media_registry opts) = Inr s
     \<and> sl_provider s = opts"
    by (auto simp: map_sum_def split: sum.splits)
qed

definition media_command :: start_pipeline_command where
  "media_command = \<lparr>start_header = \<lparr>ch_id = ''1'', ch_source = ''cli''\<rparr>, start_pipeline_id = ''reference0''\<rparr>"

text \<open>The line that the constructors and the connections leave, before the devices are configured.\<close>

definition raw_line :: "ref_options \<Rightarrow> media_world \<Rightarrow> bool" where
  "raw_line opts w \<longleftrightarrow> (\<exists>i j k.
     mw_throws w = no_throw \<and> mw_pending w = None \<and> mw_format w = media_fmt \<and> mw_budget w = 0
     \<and> op_connections (mw_output w) = [i] \<and> ip_queue (mw_sink_in w) = Some k
     \<and> lane i None (mw_raw w) \<and> lane j None (mw_processed w) \<and> lane k None (mw_packets w)
     \<and> idle_node i j (mw_processor w) \<and> bn_config (mw_processor w) = media_pc
     \<and> bn_device (mw_processor w) = Some (ref_processor_new opts)
     \<and> idle_node j k (mw_encoder w) \<and> bn_config (mw_encoder w) = (media_fmt, media_ec)
     \<and> (\<exists>m. bn_device (mw_encoder w) = Some (ref_encoder_new opts, m)))"

lemma connected_line:
  assumes "mw_throws w = no_throw" "mw_budget w = 0"
  shows "\<exists>w'. connect_media (media_nodes media_fmt media_pc media_ec (ref_processor_new opts) (ref_encoder_new opts) w)
      = (ok_status, w') \<and> raw_line opts w' \<and> mw_metrics w' = mw_metrics w \<and> mw_next_pts w' = 0 \<and> mw_thread w' = mw_thread w"
  using assms
  by (simp add: connect_media_def if_ok_def connect_source_def connect_processor_def connect_encoder_def media_nodes_def
      processor_node_new_def encoder_node_new_def bnode_new_def port_connect_def input_port_new_def output_port_new_def
      raw_line_def lane_def idle_node_def bqueue_new_def)

lemma publish_each_published:
  assumes "h S_state_set = None"
  shows "distinct (map fst vs) \<Longrightarrow> \<exists>a'. publish_each h vs a = (ok_status, a')
    \<and> (\<forall>(x, v) \<in> set vs. published (media_key x) a' = Some v)
    \<and> (\<forall>k. k \<notin> media_key ` fst ` set vs \<longrightarrow> ss_values a' k = ss_values a k)"
proof (induction vs arbitrary: a)
  case (Cons y vs)
  obtain x v where y: "y = (x, v)" by (cases y)
  obtain r a1 where set: "state_set h (media_key x) (sv_of_string v) a = (r, a1)" by fastforce
  note set' = set_string_published [where h = h, OF media_key_absolute assms set]
  obtain a2 where a2: "publish_each h vs a1 = (ok_status, a2)" "\<forall>(x, v) \<in> set vs. published (media_key x) a2 = Some v"
    "\<forall>k. k \<notin> media_key ` fst ` set vs \<longrightarrow> ss_values a2 k = ss_values a1 k"
    using Cons.IH [of a1] Cons.prems by auto
  have "media_key x \<notin> media_key ` fst ` set vs" using Cons.prems y by force
  then have "published (media_key x) a2 = Some v" using a2(3) set' published_cong [of a2 "media_key x" a1] by simp
  then show ?case using a2 set set' by (intro exI [of _ a2]) (auto simp: y if_ok_def)
qed simp

lemma selection_published:
  assumes "mp_throws p = no_throw"
  shows "\<exists>a. publish_selection media_fmt provider p = (ok_status, p\<lparr>mp_actual := a\<rparr>)
    \<and> published (media_key ''/provider'') a = Some provider
    \<and> published (media_key ''/state'') a = published (media_key ''/state'') (mp_actual p)"
proof -
  let ?vs = "[(''/provider'', provider), (''/pixel_format'', ''rgb24''), (''/memory_domain'', ''cpu'')]"
  obtain a where a: "publish_each no_throw ?vs (mp_actual p) = (ok_status, a)"
    "\<forall>(x, v) \<in> set ?vs. published (media_key x) a = Some v"
    "\<forall>k. k \<notin> media_key ` fst ` set ?vs \<longrightarrow> ss_values a k = ss_values (mp_actual p) k"
    using publish_each_published [of no_throw ?vs "mp_actual p"] by auto
  have names: "pixel_format_name no_throw (vf_pixel media_fmt) = Inr ''rgb24''"
    "memory_domain_name no_throw (vf_domain media_fmt) = Inr ''cpu''"
    by code_simp+
  have "published (media_key ''/state'') a = published (media_key ''/state'') (mp_actual p)"
    using a(3) by (intro published_cong) auto
  then show ?thesis
    using assms names a(1,2) by (intro exI [of _ a]) (simp add: publish_selection_def)
qed

text \<open>A frozen registry is all that \<open>build_pipeline\<close> needs.\<close>

lemma media_built:
  assumes "mp_throws p = no_throw" "mw_budget (mp_world p) = 0" "mp_registry p = media_registry opts"
  shows "\<exists>w a. build_pipeline ops p = (ok_status, p\<lparr>mp_pipeline := Some (media_pipe ops P_Created N_Created []),
        mp_reconciler := True, mp_world := w, mp_actual := a\<rparr>)
    \<and> raw_line opts w \<and> encoded_by w = encoded_by (mp_world p) \<and> allocated_by w = allocated_by (mp_world p)
    \<and> mw_next_pts w = 0 \<and> mw_thread w = mw_thread (mp_world p)
    \<and> published (media_key ''/provider'') a = Some ''reference''
    \<and> published (media_key ''/state'') a = published (media_key ''/state'') (mp_actual p)"
proof -
  let ?key = "''media.backend.instances.created''" and ?w = "mp_world p"
  obtain sp where sp: "select_video_processor no_throw (ref_probe no_throw) (media_processor_request media_pc) (media_registry opts) = Inr sp"
    "sl_provider sp = opts" "pn_provider (sl_negotiation sp) = ''reference''" using media_selected(1) by blast
  obtain se where se: "select_video_encoder no_throw (ref_probe no_throw) (media_encoder_request media_fmt media_ec) (media_registry opts) = Inr se"
    "sl_provider se = opts" using media_selected(2) by blast
  obtain w1 where w1: "connect_media (media_nodes media_fmt media_pc media_ec (ref_processor_new opts) (ref_encoder_new opts) ?w)
      = (ok_status, w1)" "raw_line opts w1" "mw_metrics w1 = mw_metrics ?w" "mw_next_pts w1 = 0" "mw_thread w1 = mw_thread ?w"
    using connected_line [of ?w opts] assms(1,2) by auto
  have h1: "mw_throws w1 = no_throw" using w1(2) by (auto simp: raw_line_def)
  obtain ms where inc: "increment_counter ?key 2 (mw_metrics w1) = (ok_status, ms)" by (simp add: increment_counter_def)
  have counters: "counter_or_0 encoded_key ms = encoded_by w1" "counter_or_0 allocated_key ms = allocated_by w1"
    using counter_or_0_increment [of encoded_key ?key 2 "mw_metrics w1"] counter_or_0_increment [of allocated_key ?key 2 "mw_metrics w1"]
    by (simp_all add: inc) (simp_all add: encoded_key_def allocated_key_def)
  let ?p1 = "p\<lparr>mp_pipeline := Some (media_pipe ops P_Created N_Created []), mp_reconciler := True, mp_world := w1\<lparr>mw_metrics := ms\<rparr>\<rparr>"
  obtain a where a: "publish_selection media_fmt ''reference'' ?p1 = (ok_status, ?p1\<lparr>mp_actual := a\<rparr>)"
    "published (media_key ''/provider'') a = Some ''reference''"
    "published (media_key ''/state'') a = published (media_key ''/state'') (mp_actual p)"
    using selection_published [of ?p1 "''reference''"] h1 by auto
  have "build_pipeline ops p = (ok_status, ?p1\<lparr>mp_actual := a\<rparr>)"
    using assms(1,3) sp se w1(1) h1 inc a(1)
    by (simp add: build_pipeline_def media_configs ref_create_video_processor_def ref_create_video_encoder_def
        assemble_def media_pipeline_made keep_pipeline_def Let_def)
  moreover have "raw_line opts (w1\<lparr>mw_metrics := ms\<rparr>)" using w1(2) by (simp add: raw_line_def)
  ultimately show ?thesis
    using a(2,3) w1(3-5) counters by (intro exI [of _ "w1\<lparr>mw_metrics := ms\<rparr>"] exI [of _ a]) simp
qed

lemma media_initialized:
  assumes "mw_throws w = no_throw"
  shows "\<exists>p. media_initialize ops (media_new opts w) = (ok_status, p) \<and> mp_initialized p \<and> mp_reconciler p
    \<and> mp_options p = opts \<and> mp_registry p = media_registry opts
    \<and> mp_pipeline p = Some (media_pipe ops P_Created N_Created []) \<and> raw_line opts (mp_world p)
    \<and> encoded_by (mp_world p) = 0 \<and> allocated_by (mp_world p) = 0 \<and> mw_next_pts (mp_world p) = 0
    \<and> mw_thread (mp_world p) = mw_thread w \<and> mp_desired p = store_new
    \<and> published (media_key ''/provider'') (mp_actual p) = Some ''reference''
    \<and> published (media_key ''/state'') (mp_actual p) = None"
proof -
  let ?p0 = "(media_new opts w)\<lparr>mp_registry := media_registry opts\<rparr>"
  obtain r where r: "register_provider no_throw (ref_probe no_throw) (Some opts) registry_new = (ok_status, r)"
    "registry_freeze r = (ok_status, media_registry opts)" using media_registered by blast
  obtain w1 a where b: "build_pipeline ops ?p0 = (ok_status, ?p0\<lparr>mp_pipeline := Some (media_pipe ops P_Created N_Created []),
        mp_reconciler := True, mp_world := w1, mp_actual := a\<rparr>)"
    "raw_line opts w1" "encoded_by w1 = encoded_by (mp_world ?p0)" "allocated_by w1 = allocated_by (mp_world ?p0)"
    "mw_next_pts w1 = 0" "mw_thread w1 = mw_thread (mp_world ?p0)" "published (media_key ''/provider'') a = Some ''reference''"
    "published (media_key ''/state'') a = published (media_key ''/state'') (mp_actual ?p0)"
    using media_built [of ?p0 opts ops] assms by (auto simp: media_new_def)
  have h1: "mw_throws w1 = no_throw" using b(2) by (auto simp: raw_line_def)
  have "media_initialize ops (media_new opts w) = (ok_status, ?p0\<lparr>mp_pipeline := Some (media_pipe ops P_Created N_Created []),
        mp_reconciler := True, mp_world := w1, mp_actual := a, mp_initialized := True,
        mp_health := omap_put ''pipeline'' \<lparr>hc_status = H_Ok, hc_message = ''initialized''\<rparr> []\<rparr>)"
    using assms r b(1) h1 by (simp add: media_initialize_def media_new_def report_health_def health_report_def Let_def)
  moreover have "published (media_key ''/state'') store_new = None" by (simp add: published_def store_new_def)
  moreover have "counter_or_0 x metrics_new = 0" for x by (simp add: counter_or_0_def metrics_new_def)
  ultimately show ?thesis using b(2-8) by (simp add: media_new_def)
qed

lemma on_prepare_media:
  "on_prepare media_processor_hooks w
     = at_processor (bnode_prepare ''processor'' (ref_processor_ops (mw_throws w, mw_thread w))) w"
  "on_prepare (media_encoder_hooks ops) w
     = at_encoder (bnode_prepare ''encoder'' (ref_encoder_ops ops (mw_throws w, mw_thread w))) w"
  "on_prepare (media_source_hooks ops) = Pair (Ret ok_status)" "on_prepare media_sink_hooks = Pair (Ret ok_status)"
  "on_start media_processor_hooks w = (Ret ok_status, w\<lparr>mw_processor := (mw_processor w)\<lparr>bn_frames := mw_raw w, bn_outs := mw_processed w\<rparr>\<rparr>)"
  "on_start (media_source_hooks ops) = Pair (Ret ok_status)" "on_start media_sink_hooks = Pair (Ret ok_status)"
  by (simp_all add: media_processor_hooks_def media_encoder_hooks_def lifted_def processor_node_hooks_def at_processor_def
      encoder_node_hooks bnode_hooks_def default_hooks_def media_source_hooks_def media_sink_hooks_def)

lemma media_configured:
  "\<exists>p. rp_configure no_throw t media_pc (ref_processor_new opts) = (ok_status, p) \<and> serving t opts media_pc p \<and> rp_queue p = []"
  "\<exists>e. re_configure no_throw t (media_fmt, media_ec) (ref_encoder_new opts) = (ok_status, e) \<and> encoding t opts e \<and> re_queue e = []"
proof -
  have c: "is_identity_processor_config media_pc" "is_reference_encoder_config media_fmt media_ec" by code_simp+
  show "\<exists>p. rp_configure no_throw t media_pc (ref_processor_new opts) = (ok_status, p) \<and> serving t opts media_pc p \<and> rp_queue p = []"
    "\<exists>e. re_configure no_throw t (media_fmt, media_ec) (ref_encoder_new opts) = (ok_status, e) \<and> encoding t opts e \<and> re_queue e = []"
    using c by (simp_all add: rp_configure_def re_configure_def ref_processor_new_def ref_encoder_new_def
        bind_to_current_thread_def serving_def encoding_def Let_def)
qed

text \<open>\<open>start\<close> configures both devices on the calling thread.\<close>

lemma media_prepared:
  assumes "raw_line opts w"
  obtains w1 w2 q where "on_prepare media_processor_hooks w = (Ret ok_status, w1)"
    "on_prepare (media_encoder_hooks ops) w1 = (Ret ok_status, w2)"
    "line (mw_thread w) opts q None [] None [] None w2" "mw_metrics w2 = mw_metrics w" "same_source w w2"
proof -
  let ?t = "mw_thread w"
  obtain i j k m where w: "mw_throws w = no_throw" "mw_pending w = None" "mw_format w = media_fmt"
    "op_connections (mw_output w) = [i]" "ip_queue (mw_sink_in w) = Some k"
    "lane i None (mw_raw w)" "lane j None (mw_processed w)" "lane k None (mw_packets w)"
    "idle_node i j (mw_processor w)" "bn_config (mw_processor w) = media_pc" "bn_device (mw_processor w) = Some (ref_processor_new opts)"
    "idle_node j k (mw_encoder w)" "bn_config (mw_encoder w) = (media_fmt, media_ec)"
    "bn_device (mw_encoder w) = Some (ref_encoder_new opts, m)"
    using assms by (auto simp: raw_line_def)
  obtain p where p: "rp_configure no_throw ?t media_pc (ref_processor_new opts) = (ok_status, p)" "serving ?t opts media_pc p"
    "rp_queue p = []" using media_configured(1) by blast
  obtain e where e: "re_configure no_throw ?t (media_fmt, media_ec) (ref_encoder_new opts) = (ok_status, e)" "encoding ?t opts e"
    "re_queue e = []" using media_configured(2) by blast
  let ?w1 = "w\<lparr>mw_processor := (mw_processor w)\<lparr>bn_frames := mw_raw w, bn_outs := mw_processed w, bn_device := Some p\<rparr>\<rparr>"
  let ?w2 = "?w1\<lparr>mw_encoder := (mw_encoder w)\<lparr>bn_device := Some (e, mw_memory w), bn_frames := mw_processed w, bn_outs := mw_packets w\<rparr>\<rparr>"
  have "on_prepare media_processor_hooks w = (Ret ok_status, ?w1)"
    using w p(1) by (simp add: on_prepare_media at_processor_def bnode_prepare_def dev_call_def node_try_def ref_processor_ops_def)
  moreover have "on_prepare (media_encoder_hooks ops) ?w1 = (Ret ok_status, ?w2)"
    using w e(1) by (simp add: on_prepare_media at_encoder_def bnode_prepare_def dev_call_def node_try_def ref_encoder_ops_def on_encoder_def)
  moreover have "line ?t opts (i, j, k) None [] None [] None ?w2"
    using w p(2,3) e(2,3) by (simp add: line_def)
  ultimately show ?thesis by (intro that [of ?w1 ?w2 "(i, j, k)"]) simp_all
qed

lemma media_nodes_started:
  assumes "line t opts q None [] None [] None w"
  obtains w1 w2 where "on_start media_processor_hooks w = (Ret ok_status, w1)"
    "on_start (media_encoder_hooks ops) w1 = (Ret ok_status, w2)"
    "line t opts q None [] None [] None w2" "mw_metrics w2 = mw_metrics w" "same_source w w2"
proof -
  let ?w1 = "w\<lparr>mw_processor := (mw_processor w)\<lparr>bn_frames := mw_raw w, bn_outs := mw_processed w\<rparr>\<rparr>"
  obtain e m where e: "bn_device (mw_encoder w) = Some (e, m)" using assms by (auto simp: line_def split: prod.splits)
  let ?w2 = "?w1\<lparr>mw_encoder := (mw_encoder w)\<lparr>bn_device := Some (e, mw_memory w), bn_frames := mw_processed w, bn_outs := mw_packets w\<rparr>\<rparr>"
  have "on_start media_processor_hooks w = (Ret ok_status, ?w1)" by (simp add: on_prepare_media)
  moreover have "on_start (media_encoder_hooks ops) ?w1 = (Ret ok_status, ?w2)"
    using e by (simp add: media_encoder_hooks_def lifted_def encoder_node_hooks bnode_hooks_def default_hooks_def at_encoder_def)
  moreover have "line t opts q None [] None [] None ?w2"
    using assms e by (auto simp: line_def split: prod.splits)
  ultimately show ?thesis by (intro that [of ?w1 ?w2]) simp_all
qed

lemma media_started:
  assumes "raw_line opts w"
  shows "\<exists>w'. pipeline_start (media_pipe ops P_Created N_Created []) w
      = (Ret ok_status, media_pipe ops P_Running N_Running [0, 1, 2, 3], w')
    \<and> between (mw_thread w) opts 0 0 0 w' \<and> mw_metrics w' = mw_metrics w \<and> mw_next_pts w' = mw_next_pts w"
proof -
  obtain w1 w2 q where p: "on_prepare media_processor_hooks w = (Ret ok_status, w1)"
    "on_prepare (media_encoder_hooks ops) w1 = (Ret ok_status, w2)"
    "line (mw_thread w) opts q None [] None [] None w2" "mw_metrics w2 = mw_metrics w" "same_source w w2"
    using media_prepared [OF assms] .
  obtain w3 w4 where s: "on_start media_processor_hooks w2 = (Ret ok_status, w3)"
    "on_start (media_encoder_hooks ops) w3 = (Ret ok_status, w4)"
    "line (mw_thread w) opts q None [] None [] None w4" "mw_metrics w4 = mw_metrics w2" "same_source w2 w4"
    using media_nodes_started [OF p(3)] .
  have order: "ordered_nodes (media_pipe ops P_Created N_Created []\<lparr>p_drain_order := [], p_drain_index := 0\<rparr>)
      [''source'', ''processor'', ''encoder'', ''sink''] = [0, 1, 2, 3]"
    by (simp add: ordered_nodes_def media_pipe_def)
  have "pipeline_start (media_pipe ops P_Created N_Created []) w
      = (Ret ok_status, media_pipe ops P_Running N_Running [0, 1, 2, 3], w4)"
    using order p(1,2) s(1,2)
    by (simp add: pipeline_start_def media_graph_ops Let_def)
       (simp add: media_pipe_def call_node_def node_prepare_def node_start_def on_prepare_media(3,4,6,7) eval_nat_numeral)
  moreover have "unat (mw_budget w) = 0" using assms by (auto simp: raw_line_def)
  then have "between (mw_thread w) opts 0 0 0 w4"
    using s(3,5) p(5) by (cases q) (auto simp: between_def)
  ultimately show ?thesis using s(4,5) p(4,5) by simp
qed

lemma media_state_key: "media_key ''/state'' = pipeline_state_key ''reference0''"
  by (simp add: media_key_def pipeline_state_key_def)

lemma media_run_starts:
  assumes p: "mp_pipeline p = Some (media_pipe (media_storage_ops base) P_Created N_Created [])" "raw_line opts (mp_world p)"
    and desired: "published (media_key ''/state'') (mp_desired p) = Some ''running''"
    and actual: "published (media_key ''/state'') (mp_actual p) \<noteq> Some ''running''"
  shows "\<exists>w a. run_reconciler p = (Ret ok_status, p\<lparr>mp_pipeline := Some (running_pipe base), mp_actual := a, mp_world := w\<rparr>)
    \<and> between (mw_thread (mp_world p)) opts 0 0 0 w \<and> mw_metrics w = mw_metrics (mp_world p)
    \<and> mw_next_pts w = mw_next_pts (mp_world p) \<and> published (media_key ''/state'') a = Some ''running''"
proof -
  let ?pl = "media_pipe (media_storage_ops base) P_Created N_Created []" and ?key = "media_key ''/state''"
  have h: "mp_throws p = no_throw" using p(2) by (auto simp: raw_line_def)
  obtain w1 where w1: "pipeline_start ?pl (mp_world p) = (Ret ok_status, running_pipe base, w1)"
    "between (mw_thread (mp_world p)) opts 0 0 0 w1" "mw_metrics w1 = mw_metrics (mp_world p)"
    "mw_next_pts w1 = mw_next_pts (mp_world p)"
    using media_started [OF p(2), of "media_storage_ops base", folded running_pipe_def] by auto
  have key: "state_key ?pl = ?key" "state_key (running_pipe base) = ?key"
    by (simp_all add: state_key_def media_key_def running_pipe_def)
  obtain r a where a: "publish_result (\<lambda>_. no_throw) (running_pipe base) ''running'' ok_status (mp_actual p) = (r, a)" by fastforce
  have a': "r = ok_status" "published ?key a = Some ''running''"
    using publish_result_outcome [OF a] by (simp_all add: tells_def key)
  have state: "state_string ?pl (mp_desired p) = Inr ''running''" "state_string ?pl (mp_actual p) \<noteq> Inr ''running''"
    using desired actual by (simp_all add: state_string_published key)
  have "reconcile_configured (\<lambda>_. no_throw) ?pl (mp_desired p) (mp_actual p) (mp_world p) = (Ret ok_status, running_pipe base, a, w1)"
    using reconcile_calls [OF state(1) _ state(2)] a a'(1) w1(1) by (simp add: pipeline_call_def drive_pipeline_def)
  then have "run_reconciler p = (Ret ok_status, p\<lparr>mp_pipeline := Some (running_pipe base), mp_actual := a, mp_world := w1\<rparr>)"
    using p(1) h by (simp add: run_reconciler_def reconcile_once_def)
  then show ?thesis using w1(2-4) a'(2) by blast
qed

lemma media_comes_up:
  assumes "mw_throws w = no_throw"
  shows "\<exists>p1 p2 p3. media_initialize (media_storage_ops base) (media_new opts w) = (ok_status, p1)
     \<and> media_dispatch_start media_command p1 = (ok_status, p2)
     \<and> media_reconcile_once p2 = (Ret ok_status, p3) \<and> media_live base (mw_thread w) opts 0 0 0 p3
     \<and> encoded_count p3 = 0 \<and> allocated_by (mp_world p3) = 0 \<and> mw_next_pts (mp_world p3) = 0
     \<and> published (media_key ''/state'') (mp_actual p3) = Some ''running''
     \<and> published (media_key ''/state'') (mp_desired p3) = Some ''running'' \<and> mp_registry p3 = media_registry opts"
proof -
  let ?ops = "media_storage_ops base" and ?key = "media_key ''/state''"
  obtain p1 where p1: "media_initialize ?ops (media_new opts w) = (ok_status, p1)" "mp_initialized p1" "mp_reconciler p1"
    "mp_options p1 = opts" "mp_pipeline p1 = Some (media_pipe ?ops P_Created N_Created [])" "raw_line opts (mp_world p1)"
    "encoded_by (mp_world p1) = 0" "allocated_by (mp_world p1) = 0" "mw_next_pts (mp_world p1) = 0"
    "mw_thread (mp_world p1) = mw_thread w" "mp_desired p1 = store_new" "published ?key (mp_actual p1) = None"
    "mp_registry p1 = media_registry opts"
    using media_initialized [OF assms, of ?ops opts] by auto
  have h: "mp_throws p1 = no_throw" using p1(6) by (auto simp: raw_line_def)
  obtain s d where d: "state_set no_throw ?key (sv_of_string ''running'') store_new = (s, d)" by fastforce
  note d' = set_no_throw [OF media_key_absolute d]
  let ?p2 = "p1\<lparr>mp_desired := d\<rparr>"
  have p2: "media_dispatch_start media_command p1 = (ok_status, ?p2)"
    using p1(2,11) h d d' by (simp add: media_dispatch_start_def handle_start_def set_desired_def media_command_def media_state_key)
  obtain w1 a where run: "run_reconciler ?p2 = (Ret ok_status, ?p2\<lparr>mp_pipeline := Some (running_pipe base), mp_actual := a, mp_world := w1\<rparr>)"
    "between (mw_thread w) opts 0 0 0 w1" "mw_metrics w1 = mw_metrics (mp_world p1)" "mw_next_pts w1 = mw_next_pts (mp_world p1)"
    "published ?key a = Some ''running''"
    using media_run_starts [of ?p2 base opts] p1(5,6,10,12) d' by auto
  let ?p3 = "?p2\<lparr>mp_pipeline := Some (running_pipe base), mp_actual := a, mp_world := w1\<rparr>"
  have live: "media_live base (mw_thread w) opts 0 0 0 ?p3"
    using p1(2-4) run(2) by (simp add: media_live_def)
  obtain b where b: "report_success ''desired state converged'' ?p3 = (ok_status, ?p3\<lparr>mp_actual := b,
      mp_health := omap_put ''pipeline'' \<lparr>hc_status = H_Ok, hc_message = ''desired state converged''\<rparr> (mp_health ?p3)\<rparr>)"
    "published ?key b = published ?key (mp_actual ?p3)"
    using report_success_ok [OF live_throws [OF live], of "''desired state converged''"] by auto
  have "media_reconcile_once ?p2 = (Ret ok_status, ?p3\<lparr>mp_actual := b,
      mp_health := omap_put ''pipeline'' \<lparr>hc_status = H_Ok, hc_message = ''desired state converged''\<rparr> (mp_health ?p3)\<rparr>)"
    using p1(2,3) run(1) b(1) by (simp add: media_reconcile_once_def)
  then show ?thesis
    using p1(1,7-9,13) p2 live d' run(3-5) b(2) by (simp add: media_live_def encoded_count_or_0)
qed

text \<open>Calls of \<open>tick\<close> one after the other, with what each returns.\<close>

fun media_ticks :: "nat list \<Rightarrow> media_platform \<Rightarrow> status outcome list \<times> media_platform" where
  "media_ticks [] p = ([], p)"
| "media_ticks (n # ns) p =
     (case media_tick (of_nat n) p of (r, p) \<Rightarrow> case media_ticks ns p of (rs, p) \<Rightarrow> (r # rs, p))"

lemma media_ticks_live:
  assumes o: "lossless_options opts" and base: "\<forall>i. base i \<noteq> 0"
  shows "media_live base t opts 0 0 k p \<Longrightarrow> k \<le> delay_of opts \<Longrightarrow> list_all (\<lambda>n. 0 < n) ns \<Longrightarrow>
    unat (encoded_count p) + sum_list ns < 2 ^ 64 \<Longrightarrow>
    sum_list ns + unat (ro_queue_capacity opts) + delay_of opts + 4 < 2 ^ 64 \<Longrightarrow>
    \<exists>p'. media_ticks ns p = (map (\<lambda>m. Ret (if delay_of opts \<le> k + sum_list (take m ns) then ok_status else too_few))
          [0..<length ns], p')
      \<and> media_live base t opts 0 0 (min (delay_of opts) (k + sum_list ns)) p'
      \<and> encoded_count p' = encoded_count p + of_nat (k + sum_list ns - delay_of opts)
      \<and> allocated_by (mp_world p') = allocated_by (mp_world p) + of_nat (sum_list ns)
      \<and> mw_next_pts (mp_world p') = mw_next_pts (mp_world p) + int (sum_list ns)
      \<and> published (media_key ''/state'') (mp_actual p') = published (media_key ''/state'') (mp_actual p)"
proof (induction ns arbitrary: k p)
  case Nil
  then show ?case by (simp add: min_absorb2)
next
  case (Cons n ns)
  let ?d = "delay_of opts" and ?s = "sum_list ns"
  let ?k = "min ?d (k + n)"
  obtain p1 where p1: "media_tick (of_nat n) p = (Ret (if k = ?d then ok_status else too_few), p1)"
    "media_live base t opts 0 0 ?k p1" "encoded_count p1 = encoded_count p + of_nat (k + n - ?d)"
    "allocated_by (mp_world p1) = allocated_by (mp_world p) + of_nat n"
    "mw_next_pts (mp_world p1) = mw_next_pts (mp_world p) + int n"
    "published (media_key ''/state'') (mp_actual p1) = published (media_key ''/state'') (mp_actual p)"
    using media_tick_live [OF Cons.prems(1,2) o base, of n] Cons.prems(3-5) by auto
  have "unat (encoded_count p) + (k + n - ?d) < 2 ^ 64" using Cons.prems(2,4) by simp
  then have e1: "unat (encoded_count p1) = unat (encoded_count p) + (k + n - ?d)"
    unfolding p1(3) by (rule unat_plus_nat)
  then have bound: "unat (encoded_count p1) + ?s < 2 ^ 64" using Cons.prems(2,4) by simp
  obtain p2 where p2: "media_ticks ns p1
      = (map (\<lambda>m. Ret (if ?d \<le> ?k + sum_list (take m ns) then ok_status else too_few)) [0..<length ns], p2)"
    "media_live base t opts 0 0 (min ?d (?k + ?s)) p2" "encoded_count p2 = encoded_count p1 + of_nat (?k + ?s - ?d)"
    "allocated_by (mp_world p2) = allocated_by (mp_world p1) + of_nat ?s"
    "mw_next_pts (mp_world p2) = mw_next_pts (mp_world p1) + int ?s"
    "published (media_key ''/state'') (mp_actual p2) = published (media_key ''/state'') (mp_actual p1)"
    using Cons.IH [OF p1(2) _ _ bound] Cons.prems(3,5) by auto
  have total: "k + n - ?d + (?k + ?s - ?d) = k + sum_list (n # ns) - ?d" "min ?d (?k + ?s) = min ?d (k + sum_list (n # ns))"
    by (auto simp: min_def)
  have statuses: "map (\<lambda>m. Ret (if ?d \<le> k + sum_list (take m (n # ns)) then ok_status else too_few)) [0..<length (n # ns)]
    = Ret (if k = ?d then ok_status else too_few) # map (\<lambda>m. Ret (if ?d \<le> ?k + sum_list (take m ns) then ok_status else too_few)) [0..<length ns]"
    using Cons.prems(2) by (auto simp: upt_conv_Cons map_Suc_upt [symmetric] simp del: upt_Suc)
  have "encoded_count p2 = encoded_count p + of_nat (k + sum_list (n # ns) - ?d)"
    unfolding p2(3) p1(3) add.assoc of_nat_add [symmetric] total(1) ..
  then show ?case
    unfolding statuses using p1(1,4,5,6) p2(1,2,4,5,6) total(2) by simp
qed

lemma media_query_running:
  assumes "mp_pipeline p = Some pl" "p_id pl = ''reference0''" "published (media_key ''/state'') (mp_actual p) = Some x"
  shows "\<exists>snapshot v. media_query ''reference0'' p = Inr snapshot
    \<and> snapshot_get (media_key ''/state'') snapshot = Inr v \<and> as_string v = Inr x"
proof -
  obtain v where "ss_values (mp_actual p) (media_key ''/state'') = Some v" "sv_type v = SV_String" "sv_string v = x"
    using assms(3) by (auto simp: published_def split: option.splits if_splits)
  then show ?thesis
    using assms(1,2) by (simp add: media_query_def snapshot_get_def store_snapshot_def as_string_def)
qed

text \<open>C10: the reference platform works from the command to the counter, for every delay of the encoder. Let
  the backends lose no device and let their queues have room for more than the delay \<open>d\<close>. On a new
  platform \<open>initialize\<close> selects the reference backends, the start command is accepted and one
  reconciliation starts the pipeline. Then any sequence of calls \<open>tick(n)\<close> makes exactly the frames
  asked for, \<open>N\<close> in all; \<open>N - d\<close> of them are encoded and counted and the others, at most \<open>d\<close>, are
  held by the encoder, none is lost. A call returns \<open>ok\<close> exactly when the calls before it have filled
  the delay; the others return \<open>kWouldBlock\<close>. The published state is \<open>running\<close> throughout.\<close>

theorem reference_end_to_end:
  assumes "\<forall>i. base i \<noteq> 0" and "mw_throws w = no_throw"
    and "ro_device_lost_after opts = 0" and "ro_output_delay opts < ro_queue_capacity opts"
    and "\<forall>n \<in> set ns. 0 < n" and "sum_list ns + unat (ro_queue_capacity opts) + delay_of opts + 4 < 2 ^ 63"
  shows "\<exists>p1 p2 p3 p4 e m snapshot v.
      media_initialize (media_storage_ops base) (media_new opts w) = (ok_status, p1)
    \<and> media_dispatch_start media_command p1 = (ok_status, p2)
    \<and> media_reconcile_once p2 = (Ret ok_status, p3)
    \<and> media_ticks ns p3 = (map (\<lambda>i. Ret (if delay_of opts \<le> sum_list (take i ns) then ok_status else too_few)) [0..<length ns], p4)
    \<and> encoded_count p4 = of_nat (sum_list ns - delay_of opts)
    \<and> allocated_by (mp_world p4) = of_nat (sum_list ns) \<and> mw_next_pts (mp_world p4) = int (sum_list ns)
    \<and> bn_device (mw_encoder (mp_world p4)) = Some (e, m) \<and> length (re_queue e) = min (delay_of opts) (sum_list ns)
    \<and> media_query ''reference0'' p4 = Inr snapshot
    \<and> snapshot_get (media_key ''/state'') snapshot = Inr v \<and> as_string v = Inr ''running''"
proof -
  have o: "lossless_options opts" using assms(3,4) by (simp add: lossless_options_def)
  obtain p1 p2 p3 where up: "media_initialize (media_storage_ops base) (media_new opts w) = (ok_status, p1)"
    "media_dispatch_start media_command p1 = (ok_status, p2)" "media_reconcile_once p2 = (Ret ok_status, p3)"
    "media_live base (mw_thread w) opts 0 0 0 p3" "encoded_count p3 = 0" "allocated_by (mp_world p3) = 0"
    "mw_next_pts (mp_world p3) = 0" "published (media_key ''/state'') (mp_actual p3) = Some ''running''"
    using media_comes_up [OF assms(2), of base opts] by blast
  have bound: "unat (encoded_count p3) + sum_list ns < 2 ^ 64" "sum_list ns + unat (ro_queue_capacity opts) + delay_of opts + 4 < 2 ^ 64"
    using assms(6) by (simp_all add: up(5))
  have pos: "list_all (\<lambda>n. 0 < n) ns" using assms(5) by (simp add: list_all_iff)
  obtain p4 where p4: "media_ticks ns p3
      = (map (\<lambda>i. Ret (if delay_of opts \<le> sum_list (take i ns) then ok_status else too_few)) [0..<length ns], p4)"
    "media_live base (mw_thread w) opts 0 0 (min (delay_of opts) (sum_list ns)) p4"
    "encoded_count p4 = of_nat (sum_list ns - delay_of opts)" "allocated_by (mp_world p4) = of_nat (sum_list ns)"
    "mw_next_pts (mp_world p4) = int (sum_list ns)" "published (media_key ''/state'') (mp_actual p4) = Some ''running''"
    using media_ticks_live [OF o assms(1) up(4) _ pos bound] up(5-8) by auto
  obtain e m where e: "bn_device (mw_encoder (mp_world p4)) = Some (e, m)" "length (re_queue e) = min (delay_of opts) (sum_list ns)"
    using p4(2) by (auto simp: media_live_def between_def line_def)
  have "mp_pipeline p4 = Some (running_pipe base)" "p_id (running_pipe base) = ''reference0''"
    using p4(2) by (simp_all add: media_live_def running_pipe_def)
  from media_query_running [OF this p4(6)] show ?thesis using up(1-3) p4(1,3-5) e by blast
qed

definition blank_world :: media_world where
  "blank_world = \<lparr>mw_throws = no_throw, mw_thread = 7, mw_memory = blank_memory, mw_metrics = metrics_new, mw_budget = 0,
     mw_output = output_port_new [], mw_format = media_fmt, mw_next_pts = 0, mw_pending = None,
     mw_processor = processor_node_new None media_pc 4 [] [], mw_encoder = encoder_node_new None (media_fmt, media_ec) 4 [] [],
     mw_sink_in = input_port_new [] 4 kBlock, mw_raw = [], mw_processed = [], mw_packets = []\<rparr>"

theorem reference_end_to_end_witness:
  "\<exists>p1 p2 p3 p4. media_initialize (media_storage_ops (\<lambda>_. 4096)) (media_new (ref_options_default\<lparr>ro_output_delay := 2\<rparr>) blank_world)
        = (ok_status, p1)
    \<and> media_dispatch_start media_command p1 = (ok_status, p2) \<and> media_reconcile_once p2 = (Ret ok_status, p3)
    \<and> media_ticks [1, 3, 2] p3 = ([Ret too_few, Ret too_few, Ret ok_status], p4) \<and> encoded_count p4 = 4"
proof -
  have statuses: "map (\<lambda>i. Ret (if delay_of (ref_options_default\<lparr>ro_output_delay := 2\<rparr>) \<le> sum_list (take i [1, 3, 2]) then ok_status else too_few))
      [0..<length [1, 3, 2 :: nat]] = [Ret too_few, Ret too_few, Ret ok_status]"
    by (simp add: ref_options_default_def upt_rec)
  show ?thesis
    using reference_end_to_end [of "\<lambda>_. 4096" blank_world "ref_options_default\<lparr>ro_output_delay := 2\<rparr>" "[1, 3, 2]", unfolded statuses]
    by (auto simp: blank_world_def ref_options_default_def)
qed

end
