(* ===== verification/Reference_Recovery.thy ===== *)
theory Reference_Recovery
  imports Reference_Flow
begin

text \<open>
  The reference platform after a failure: what it says of a failed \<open>tick\<close>, and that
  \<open>reset_pipeline\<close> brings it back to where it can serve.
\<close>

subsection \<open>What a failure leaves\<close>

lemma health_reported:
  assumes "mp_throws p S_health_report = None"
  shows "report_health level message s p
    = (s, p\<lparr>mp_health := omap_put ''pipeline'' \<lparr>hc_status = level, hc_message = message\<rparr> (mp_health p)\<rparr>)"
  using assms by (simp add: report_health_def health_report_def)

text \<open>The published state of a failure.\<close>

definition tells_failure :: "status \<Rightarrow> state_store \<Rightarrow> bool" where
  "tells_failure s a \<longleftrightarrow> published (media_key ''/state'') a = Some ''error''
     \<and> published (media_key ''/error'') a = Some (st_message s)
     \<and> published (media_key ''/error/provider'') a = Some (st_provider_id s)
     \<and> published (media_key ''/error/operation'') a = Some (st_operation s)
     \<and> published (media_key ''/error/message'') a = Some (st_message s)"

lemma failure_published:
  assumes "mp_throws p S_media_publish = None" "mp_throws p S_state_set = None" "mp_throws p S_health_report = None"
  shows "\<exists>a. publish_runtime_failure s p = (s, p\<lparr>mp_actual := a,
        mp_health := omap_put ''pipeline'' \<lparr>hc_status = H_Error, hc_message = st_message s\<rparr> (mp_health p)\<rparr>)
    \<and> tells_failure s a"
proof -
  let ?vs = "[(''/state'', ''error''), (''/error'', st_message s), (''/error/provider'', st_provider_id s),
    (''/error/operation'', st_operation s), (''/error/message'', st_message s)]"
  obtain a where "publish_each (mp_throws p) ?vs (mp_actual p) = (ok_status, a)"
    "\<forall>(x, v) \<in> set ?vs. published (media_key x) a = Some v"
    using publish_each_published [of "mp_throws p" ?vs "mp_actual p"] assms(2) by auto
  then show ?thesis
    using assms(1,3)
    by (intro exI [of _ a]) (simp add: publish_runtime_failure_def health_reported tells_failure_def)
qed

lemma tick_loop_end:
  "tick_loop is p w = (r, p', w') \<Longrightarrow>
     p_id p' = p_id p \<and> (\<forall>s. r = Ret s \<and> st_ok s \<longrightarrow> p_state p' = p_state p)"
proof (induction "is" p w rule: tick_loop.induct)
  case (2 i "is" p w)
  then show ?case by (fastforce split: prod.splits outcome.splits if_splits simp: tick_fatal_def)
qed simp

lemma executor_end:
  assumes "executor_run 1 p w = (r, p', w')"
  shows "p_id p' = p_id p \<and> (\<forall>s. r = Ret s \<and> st_ok s \<longrightarrow> p_state p' = p_state p)"
proof -
  obtain r1 where "pipeline_tick p w = (r1, p', w')" "r = r1 \<or> (\<exists>s. r1 = Ret s \<and> st_ok s)"
    using assms by (auto split: prod.splits outcome.splits if_splits)
  then show ?thesis
    using assms tick_loop_end [of _ p w r1 p' w']
    by (auto simp: pipeline_tick_def split: if_splits sum.splits)
qed

lemma publish_failure_fields:
  "publish_runtime_failure f p = (s, p') \<Longrightarrow> mp_pipeline p' = mp_pipeline p \<and> mp_initialized p' = mp_initialized p
     \<and> mp_reconciler p' = mp_reconciler p \<and> mp_desired p' = mp_desired p"
  by (auto simp: publish_runtime_failure_def report_health_def Let_def simp del: publish_each.simps
      split: prod.splits option.splits if_splits)

text \<open>What the loop of \<open>tick\<close> leaves alone, and where it may end.\<close>

lemma media_turns_end:
  assumes "media_turns n target p = (r, p')" "mp_pipeline p = Some pl"
  shows "\<exists>pl'. mp_pipeline p' = Some pl' \<and> p_id pl' = p_id pl \<and> mp_initialized p' = mp_initialized p
    \<and> mp_reconciler p' = mp_reconciler p \<and> mp_desired p' = mp_desired p
    \<and> (case r of Ret None \<Rightarrow> p_state pl' = p_state pl
         | Ret (Some s) \<Rightarrow> \<exists>f p1. \<not> st_ok f \<and> publish_runtime_failure f p1 = (s, p')
         | Throw e \<Rightarrow> True)"
  using assms
proof (induction n arbitrary: p pl)
  case 0
  then show ?case by auto
next
  case (Suc n)
  show ?case
  proof (cases "encoded_count p < target")
    case False
    then show ?thesis using Suc.prems by auto
  next
    case True
    obtain r1 pl1 w1 where run: "executor_run 1 pl (mp_world p) = (r1, pl1, w1)" by (metis prod_cases3)
    note e = executor_end [OF run]
    let ?p1 = "p\<lparr>mp_pipeline := Some pl1, mp_world := w1\<rparr>"
    show ?thesis
    proof (cases "\<exists>s. r1 = Ret s \<and> st_ok s")
      case True
      then have "media_turns n target ?p1 = (r, p')"
        using Suc.prems \<open>encoded_count p < target\<close> run by auto
      from Suc.IH [OF this, of pl1] show ?thesis using True e by (auto split: outcome.splits option.splits)
    next
      case False
      show ?thesis
      proof (cases r1)
        case (Ret f)
        then have f: "\<not> st_ok f" using False by simp
        obtain s p2 where pub: "publish_runtime_failure f ?p1 = (s, p2)" by fastforce
        have "(r, p') = (Ret (Some s), p2)"
          using Suc.prems \<open>encoded_count p < target\<close> run f pub by (simp add: Ret del: executor_run.simps One_nat_def)
        then show ?thesis using publish_failure_fields [OF pub] e f pub by auto
      next
        case (Throw x)
        then have "(r, p') = (Throw x, ?p1)"
          using Suc.prems \<open>encoded_count p < target\<close> run by (simp del: executor_run.simps One_nat_def)
        then show ?thesis using e by auto
      qed
    qed
  qed
qed

lemma media_tick_failed:
  assumes "media_tick n p = (Ret s, p')" "mp_pipeline p = Some pl" "p_state pl = P_Running"
    and "mp_pipeline p' = Some pl'" "p_state pl' = P_Error"
    and "mp_throws p' S_media_publish = None" "mp_throws p' S_state_set = None" "mp_throws p' S_health_report = None"
  shows "p_id pl' = p_id pl \<and> mp_initialized p' \<and> mp_reconciler p' = mp_reconciler p \<and> mp_desired p' = mp_desired p
    \<and> tells_failure s (mp_actual p')
    \<and> omap_find (mp_health p') ''pipeline'' = Some \<lparr>hc_status = H_Error, hc_message = st_message s\<rparr>"
proof -
  let ?p0 = "p\<lparr>mp_world := (mp_world p)\<lparr>mw_budget := n\<rparr>\<rparr>"
  obtain r p1 where loop: "media_turns (unat (maximum_turns (mp_options p) n)) (encoded_count p + n) ?p0 = (r, p1)" by fastforce
  note post = media_turns_end [OF loop, of pl]
  have tick: "mp_initialized p" "(case r of Throw e \<Rightarrow> (Throw e, p1) | Ret (Some s) \<Rightarrow> (Ret s, p1)
      | Ret None \<Rightarrow> if encoded_count p1 \<noteq> encoded_count p + n then (Ret too_few, p1)
          else apfst Ret (report_success ''running'' p1)) = (Ret s, p')"
    using assms(1-5) loop by (auto simp: media_tick_def Let_def split: if_splits)
  show ?thesis
  proof (cases r)
    case (Throw e)
    then show ?thesis using tick by simp
  next
    case (Ret x)
    show ?thesis
    proof (cases x)
      case None
      have "mp_pipeline p' = mp_pipeline p1"
        using tick(2) by (auto simp: Ret None report_success_def clear_runtime_errors_def if_ok_def report_health_def
            split: if_splits prod.splits option.splits)
      then show ?thesis using post assms(2-5) by (auto simp: Ret None)
    next
      case (Some s1)
      then have s: "s1 = s" "p1 = p'" using tick(2) by (simp_all add: Ret)
      obtain f q where pub: "\<not> st_ok f" "publish_runtime_failure f q = (s, p')"
        using post assms(2) by (auto simp: Ret Some s)
      have "mp_world p' = mp_world q"
        using pub(2) by (auto simp: publish_runtime_failure_def report_health_def Let_def simp del: publish_each.simps
            split: prod.splits option.splits if_splits)
      then have "mp_throws q S_media_publish = None" "mp_throws q S_state_set = None" "mp_throws q S_health_report = None"
        using assms(6-8) by simp_all
      from failure_published [OF this, of f] pub(2) show ?thesis
        using post assms(2,4) tick(1) by (auto simp: Ret Some s omap_find_put_any)
    qed
  qed
qed

text \<open>C12: a failure of the reference platform is told, and stays told until the pipeline is reset. Let the
  running pipeline fail during a \<open>tick\<close>, whatever fails or throws in it, but for the publication itself.
  Then the status that \<open>tick\<close> returns is published with its message, provider and operation, a query
  answers with the state \<open>error\<close>, and the health is \<open>kError\<close> with the same message. A reconciliation
  while \<open>running\<close> is still desired does not hide it, as the simulated platform's does: it fails because
  the pipeline must be reset, and state and health still tell of the failure.\<close>

theorem media_failure_visible:
  assumes "media_tick n p = (Ret s, p')" and "mp_pipeline p = Some pl" and "p_state pl = P_Running" and "p_id pl = ''reference0''"
    and "mp_pipeline p' = Some pl'" and "p_state pl' = P_Error"
    and "mp_throws p' S_media_publish = None" and "mp_throws p' S_state_set = None" and "mp_throws p' S_health_report = None"
    and "mp_reconciler p" and "published (media_key ''/state'') (mp_desired p) = Some ''running''"
  shows "\<exists>snapshot v p''. media_query ''reference0'' p' = Inr snapshot
    \<and> snapshot_get (media_key ''/state'') snapshot = Inr v \<and> as_string v = Inr ''error''
    \<and> published (media_key ''/error/message'') (mp_actual p') = Some (st_message s)
    \<and> published (media_key ''/error/provider'') (mp_actual p') = Some (st_provider_id s)
    \<and> published (media_key ''/error/operation'') (mp_actual p') = Some (st_operation s)
    \<and> health_component_of ''pipeline'' (mp_health p') = Inr \<lparr>hc_status = H_Error, hc_message = st_message s\<rparr>
    \<and> media_reconcile_once (p'\<lparr>mp_world := (mp_world p')\<lparr>mw_throws := no_throw\<rparr>\<rparr>)
        = (Ret (status_msg kInvalidState ''pipeline must be reset after an error''), p'')
    \<and> published (media_key ''/state'') (mp_actual p'') = Some ''error''
    \<and> (\<exists>m. health_component_of ''pipeline'' (mp_health p'') = Inr \<lparr>hc_status = H_Error, hc_message = m\<rparr>)"
proof -
  note failed = media_tick_failed [OF assms(1-3,5-9)]
  let ?refused = "status_msg kInvalidState ''pipeline must be reset after an error''"
  let ?q = "p'\<lparr>mp_world := (mp_world p')\<lparr>mw_throws := no_throw\<rparr>\<rparr>"
  have key: "state_key pl' = media_key ''/state''"
    using failed assms(4) by (simp add: state_key_def media_key_def)
  obtain snapshot v where query: "media_query ''reference0'' p' = Inr snapshot" "snapshot_get (media_key ''/state'') snapshot = Inr v"
    "as_string v = Inr ''error''"
    using media_query_running [OF assms(5)] failed assms(4) by (auto simp: tells_failure_def)
  have state: "state_string pl' (mp_desired p') = Inr ''running''" "state_string pl' (mp_actual p') \<noteq> Inr ''running''"
    using failed assms(11) by (simp_all add: state_string_published key tells_failure_def)
  obtain r a where a: "publish_result (\<lambda>_. no_throw) pl' ''running'' ?refused (mp_actual p') = (r, a)" by fastforce
  have a': "r = ?refused" "published (media_key ''/state'') a = Some ''error''"
    using publish_result_outcome [OF a] by (simp_all add: tells_def key status_msg_def st_ok_def)
  have "pipeline_start pl' (mp_world ?q) = (Ret ?refused, pl', mp_world ?q)"
    using assms(6) by (simp add: pipeline_start_def)
  then have "reconcile_configured (\<lambda>_. no_throw) pl' (mp_desired p') (mp_actual p') (mp_world ?q) = (Ret ?refused, pl', a, mp_world ?q)"
    using reconcile_calls [OF state(1) _ state(2)] a a'(1) by (simp add: pipeline_call_def drive_pipeline_def)
  then have "run_reconciler ?q = (Ret ?refused, ?q\<lparr>mp_pipeline := Some pl', mp_actual := a\<rparr>)"
    using assms(5) by (simp add: run_reconciler_def reconcile_once_def)
  then have "media_reconcile_once ?q = (Ret ?refused, ?q\<lparr>mp_pipeline := Some pl', mp_actual := a,
      mp_health := omap_put ''pipeline'' \<lparr>hc_status = H_Error, hc_message = st_message ?refused\<rparr> (mp_health p')\<rparr>)"
    using failed assms(10) by (simp add: media_reconcile_once_def health_reported)
  then show ?thesis
    using query failed a'(2) by (simp add: tells_failure_def health_component_of_def omap_find_put_any)
qed

subsection \<open>reset_pipeline\<close>

text \<open>A world in which the reset of every node succeeds: the devices belong to the calling thread, and the
  encoder does not inject its one refusal, or has done so.\<close>

definition resettable :: "nat \<Rightarrow> media_world \<Rightarrow> bool" where
  "resettable t w \<longleftrightarrow> mw_throws w = no_throw \<and> mw_thread w = t
     \<and> (\<exists>d. bn_device (mw_processor w) = Some d \<and> rp_affinity d = Some t)
     \<and> (\<exists>e m. bn_device (mw_encoder w) = Some (e, m) \<and> re_affinity e = Some t
           \<and> (ro_reset_would_block_once (re_options e) \<longrightarrow> re_reset_would_blocked e))"

definition media_hooks :: "memory storage_ops \<Rightarrow> media_world hooks list" where
  "media_hooks ops = [media_source_hooks ops, media_processor_hooks, media_encoder_hooks ops, media_sink_hooks]"

lemma reset_hook:
  assumes "hk \<in> set (media_hooks ops)" "resettable t w"
  shows "\<exists>w'. on_reset hk w = (Ret ok_status, w') \<and> resettable t w' \<and> mw_metrics w' = mw_metrics w"
  using assms
  by (auto simp: media_hooks_def resettable_def media_source_hooks_def media_sink_hooks_def default_hooks_def media_source_reset_def
      media_processor_hooks_def media_encoder_hooks_def lifted_def processor_node_hooks_def encoder_node_hooks bnode_hooks_def
      at_processor_def at_encoder_def bnode_reset_def dev_call_def node_try_def ref_processor_ops_def ref_encoder_ops_def
      on_encoder_def rp_reset_def re_reset_def verify_current_thread_def Let_def)

lemma media_reset_each:
  assumes "map n_hooks ns = media_hooks ops" "set is \<subseteq> {..<length ns}" "resettable t w"
  shows "\<exists>ns' w'. reset_each is ok_status ns w = (ok_status, ns', w') \<and> resettable t w' \<and> mw_metrics w' = mw_metrics w"
  using assms
proof (induction "is" arbitrary: ns w)
  case (Cons i "is")
  have mem: "n_hooks (ns ! i) \<in> set (media_hooks ops)"
    using Cons.prems(1,2) by (metis insert_subset lessThan_iff list.simps(15) nth_map length_map nth_mem)
  have "\<exists>n w1. node_reset (ns ! i) w = (Ret ok_status, n, w1) \<and> resettable t w1 \<and> mw_metrics w1 = mw_metrics w"
    using reset_hook [OF mem Cons.prems(3)] Cons.prems(3) by (auto simp: node_reset_def)
  then obtain ns1 w1 where call: "call_node Op_reset i ns w = (Ret ok_status, ns1, w1)" "resettable t w1"
    "mw_metrics w1 = mw_metrics w" by (auto simp: call_node_def)
  note frame = call_node_frame [OF call(1)]
  obtain ns' w' where "reset_each is ok_status ns1 w1 = (ok_status, ns', w')" "resettable t w'" "mw_metrics w' = mw_metrics w1"
    using Cons.IH [of ns1 w1] Cons.prems(1,2) frame(1,3) call(2) by auto
  then show ?case using call by simp
qed auto

text \<open>A platform whose pipeline has failed.\<close>

definition errored :: "(nat \<Rightarrow> size_t) \<Rightarrow> nat \<Rightarrow> ref_options \<Rightarrow> media_platform \<Rightarrow> bool" where
  "errored base t opts p \<longleftrightarrow> mp_initialized p \<and> mp_options p = opts \<and> mp_registry p = media_registry opts
     \<and> resettable t (mp_world p)
     \<and> (\<exists>pl. mp_pipeline p = Some pl \<and> p_state pl = P_Error \<and> p_drain_order pl = [0, 1, 2, 3]
           \<and> map n_hooks (p_nodes pl) = media_hooks (media_storage_ops base))"

lemma errored_stops:
  assumes "p_state pl = P_Error" "p_drain_order pl = [0, 1, 2, 3]" "map n_hooks (p_nodes pl) = media_hooks ops" "resettable t w"
  shows "\<exists>pl' w'. pipeline_stop pl w = (Ret ok_status, pl', w') \<and> p_state pl' = P_Stopped \<and> resettable t w'
    \<and> mw_metrics w' = mw_metrics w"
proof -
  have "length (p_nodes pl) = 4" using arg_cong [OF assms(3), of length] by (simp add: media_hooks_def)
  then have "set (rev [0, 1, 2, 3 :: nat]) \<subseteq> {..<length (p_nodes pl)}" by auto
  from media_reset_each [OF assms(3) this assms(4)] obtain ns' w' where
    "reset_each (rev [0, 1, 2, 3]) ok_status (p_nodes pl) w = (ok_status, ns', w')" "resettable t w'" "mw_metrics w' = mw_metrics w"
    by blast
  then show ?thesis using assms(1,2) by (simp add: pipeline_stop_def reset_nodes_reverse_def Let_def)
qed

lemma errored_resets:
  assumes p: "errored base t opts p"
    and desired: "published (media_key ''/state'') (mp_desired p) = Some ''running''"
    and actual: "published (media_key ''/state'') (mp_actual p) \<noteq> Some ''running''"
  shows "\<exists>p'. media_reset_pipeline (media_storage_ops base) p = (Ret ok_status, p') \<and> media_live base t opts 0 0 0 p'
    \<and> encoded_count p' = encoded_count p \<and> allocated_by (mp_world p') = allocated_by (mp_world p)
    \<and> mw_next_pts (mp_world p') = 0
    \<and> published (media_key ''/state'') (mp_actual p') = Some ''running''
    \<and> (\<forall>x \<in> set [''/error'', ''/error/provider'', ''/error/operation'', ''/error/message'']. published (media_key x) (mp_actual p') = None)
    \<and> omap_find (mp_health p') ''pipeline'' = Some \<lparr>hc_status = H_Ok, hc_message = ''pipeline rebuilt''\<rparr>"
proof -
  let ?ops = "media_storage_ops base" and ?key = "media_key ''/state''"
  obtain pl where pl: "mp_pipeline p = Some pl" "p_state pl = P_Error" "p_drain_order pl = [0, 1, 2, 3]"
    "map n_hooks (p_nodes pl) = media_hooks ?ops" "resettable t (mp_world p)" and init: "mp_initialized p" "mp_options p = opts"
    "mp_registry p = media_registry opts"
    using p by (auto simp: errored_def)
  obtain pl1 w1 where stop: "pipeline_stop pl (mp_world p) = (Ret ok_status, pl1, w1)" "p_state pl1 = P_Stopped"
    "resettable t w1" "mw_metrics w1 = mw_metrics (mp_world p)"
    using errored_stops [OF pl(2-5)] by blast
  let ?p1 = "p\<lparr>mp_reconciler := False, mp_pipeline := None, mp_world := w1\<lparr>mw_budget := 0\<rparr>\<rparr>"
  have dropped: "drop_pipeline pl1 (p\<lparr>mp_pipeline := Some pl1, mp_world := w1\<rparr>) = p\<lparr>mp_reconciler := False, mp_pipeline := None, mp_world := w1\<rparr>"
    using stop(2) by (simp add: drop_pipeline_def pipeline_destroy_def pipeline_stop_def)
  obtain w2 a2 where built: "build_pipeline ?ops ?p1 = (ok_status, ?p1\<lparr>mp_pipeline := Some (media_pipe ?ops P_Created N_Created []),
        mp_reconciler := True, mp_world := w2, mp_actual := a2\<rparr>)"
    "raw_line opts w2" "encoded_by w2 = encoded_by w1" "allocated_by w2 = allocated_by w1" "mw_next_pts w2 = 0" "mw_thread w2 = t"
    "published ?key a2 = published ?key (mp_actual p)"
    using media_built [of ?p1 opts ?ops] init stop(3) by (auto simp: resettable_def)
  let ?p2 = "?p1\<lparr>mp_pipeline := Some (media_pipe ?ops P_Created N_Created []), mp_reconciler := True, mp_world := w2, mp_actual := a2\<rparr>"
  obtain w3 a3 where run: "run_reconciler ?p2 = (Ret ok_status, ?p2\<lparr>mp_pipeline := Some (running_pipe base), mp_actual := a3, mp_world := w3\<rparr>)"
    "between t opts 0 0 0 w3" "mw_metrics w3 = mw_metrics w2" "mw_next_pts w3 = mw_next_pts w2" "published ?key a3 = Some ''running''"
    using media_run_starts [of ?p2 base opts] built(2,6,7) desired actual by auto
  let ?p3 = "?p2\<lparr>mp_pipeline := Some (running_pipe base), mp_actual := a3, mp_world := w3\<rparr>"
  have live: "media_live base t opts 0 0 0 ?p3" using init run(2) by (simp add: media_live_def)
  obtain b where b: "report_success ''pipeline rebuilt'' ?p3 = (ok_status, ?p3\<lparr>mp_actual := b,
      mp_health := omap_put ''pipeline'' \<lparr>hc_status = H_Ok, hc_message = ''pipeline rebuilt''\<rparr> (mp_health ?p3)\<rparr>)"
    "published ?key b = published ?key (mp_actual ?p3)"
    "\<forall>x \<in> set [''/error'', ''/error/provider'', ''/error/operation'', ''/error/message'']. published (media_key x) b = None"
    using report_success_ok [OF live_throws [OF live], of "''pipeline rebuilt''"] by auto
  have "media_reset_pipeline ?ops p = (Ret ok_status, ?p3\<lparr>mp_actual := b,
      mp_health := omap_put ''pipeline'' \<lparr>hc_status = H_Ok, hc_message = ''pipeline rebuilt''\<rparr> (mp_health ?p3)\<rparr>)"
    using pl(1,2) init(1) stop(1) dropped built(1) run(1) b(1)
    by (simp add: media_reset_pipeline_def rebuild_def Let_def)
  then show ?thesis
    using live b(2,3) run(3-5) built(3-5) stop(4)
    by (simp add: media_live_def encoded_count_or_0 omap_find_put_any)
qed

text \<open>C11: \<open>reset_pipeline\<close> brings a failed reference platform back. Let its pipeline be in \<open>kError\<close>, its nodes in
  whatever states, and what is in the queues and the backends be whatever it is; the only conditions
  are that the call comes from the thread of the backends and that the encoder's injected refusal of a
  reset is over. Then the call succeeds: the published state is \<open>running\<close> again, the entries of the
  error are gone, the health is \<open>kOk\<close>, and further calls of \<open>tick\<close> make and count frames as on a new
  platform, on top of those counted before the failure.\<close>

theorem media_reset_recovers:
  assumes "errored base t opts p"
    and "published (media_key ''/state'') (mp_desired p) = Some ''running''"
    and "published (media_key ''/state'') (mp_actual p) \<noteq> Some ''running''"
    and "\<forall>i. base i \<noteq> 0" and "ro_device_lost_after opts = 0" and "ro_output_delay opts < ro_queue_capacity opts"
    and "\<forall>n \<in> set ns. 0 < n"
    and "unat (encoded_count p) + sum_list ns + unat (ro_queue_capacity opts) + delay_of opts + 4 < 2 ^ 63"
  shows "\<exists>p1 p2. media_reset_pipeline (media_storage_ops base) p = (Ret ok_status, p1)
    \<and> published (media_key ''/state'') (mp_actual p1) = Some ''running''
    \<and> published (media_key ''/error'') (mp_actual p1) = None \<and> published (media_key ''/error/message'') (mp_actual p1) = None
    \<and> health_component_of ''pipeline'' (mp_health p1) = Inr \<lparr>hc_status = H_Ok, hc_message = ''pipeline rebuilt''\<rparr>
    \<and> media_ticks ns p1 = (map (\<lambda>i. Ret (if delay_of opts \<le> sum_list (take i ns) then ok_status else too_few)) [0..<length ns], p2)
    \<and> encoded_count p2 = encoded_count p + of_nat (sum_list ns - delay_of opts)
    \<and> published (media_key ''/state'') (mp_actual p2) = Some ''running''"
proof -
  have o: "lossless_options opts" using assms(5,6) by (simp add: lossless_options_def)
  obtain p1 where p1: "media_reset_pipeline (media_storage_ops base) p = (Ret ok_status, p1)" "media_live base t opts 0 0 0 p1"
    "encoded_count p1 = encoded_count p" "published (media_key ''/state'') (mp_actual p1) = Some ''running''"
    "published (media_key ''/error'') (mp_actual p1) = None" "published (media_key ''/error/message'') (mp_actual p1) = None"
    "omap_find (mp_health p1) ''pipeline'' = Some \<lparr>hc_status = H_Ok, hc_message = ''pipeline rebuilt''\<rparr>"
    using errored_resets [OF assms(1-3)] by auto
  have pos: "list_all (\<lambda>n. 0 < n) ns" using assms(7) by (simp add: list_all_iff)
  have bound: "unat (encoded_count p1) + sum_list ns < 2 ^ 64"
    "sum_list ns + unat (ro_queue_capacity opts) + delay_of opts + 4 < 2 ^ 64"
    using assms(8) by (simp_all add: p1(3))
  obtain p2 where "media_ticks ns p1
      = (map (\<lambda>i. Ret (if delay_of opts \<le> sum_list (take i ns) then ok_status else too_few)) [0..<length ns], p2)"
    "encoded_count p2 = encoded_count p1 + of_nat (sum_list ns - delay_of opts)"
    "published (media_key ''/state'') (mp_actual p2) = published (media_key ''/state'') (mp_actual p1)"
    using media_ticks_live [OF o assms(4) p1(2) _ pos bound] by auto
  then show ?thesis using p1 by (intro exI [of _ p1] exI [of _ p2]) (simp add: health_component_of_def)
qed

subsection \<open>A run through a failure\<close>

text \<open>The source cannot allocate its next frame.\<close>

definition no_frames :: throws where
  "no_frames = no_throw(S_media_storage := Some Bad_alloc)"

definition failed_pipe :: "(nat \<Rightarrow> size_t) \<Rightarrow> media_world pipeline" where
  "failed_pipe base = (running_pipe base)\<lparr>p_state := P_Error,
     p_nodes := (p_nodes (running_pipe base))[0 := \<lparr>n_id = ''source'', n_state = N_Error,
       n_hooks = media_source_hooks (media_storage_ops base)\<rparr>]\<rparr>"

abbreviation "with_throws h p \<equiv> p\<lparr>mp_world := (mp_world p)\<lparr>mw_throws := h\<rparr>\<rparr>"

lemma failing_turn:
  assumes "mw_throws w = no_frames" "mw_pending w = None" "mw_budget w \<noteq> 0"
  shows "executor_run 1 (running_pipe base) w = (Ret (caught Bad_alloc), failed_pipe base, w)"
proof -
  have tick: "on_tick (media_source_hooks (media_storage_ops base)) w = (Ret (caught Bad_alloc), w)"
    using assms by (simp add: media_source_tick_def source_frame_def media_try_def no_frames_def)
  have fatal: "tick_fatal (caught Bad_alloc)" by (simp add: caught_def tick_fatal_def status_msg_def st_ok_def)
  have "pipeline_tick (running_pipe base) w = (Ret (caught Bad_alloc), failed_pipe base, w)"
    unfolding running_pipe_def failed_pipe_def pipeline_tick_def media_pipe_fields media_graph_ops sum.case media_order
    using tick fatal by (simp add: media_pipe_def call_node_def node_tick_def del: on_tick_media)
  moreover have "\<not> st_ok (caught Bad_alloc)" using fatal by (simp add: tick_fatal_def)
  ultimately show ?thesis by simp
qed

lemma failing_media_tick:
  assumes live: "media_live base t opts 0 0 k p" and zero: "encoded_count p = 0"
    and bound: "unat (ro_queue_capacity opts) + delay_of opts + 5 < 2 ^ 64"
  shows "\<exists>p'. media_tick 1 (with_throws no_frames p) = (Ret (caught Bad_alloc), p')
    \<and> mp_pipeline p' = Some (failed_pipe base) \<and> mp_world p' = (mp_world p)\<lparr>mw_throws := no_frames, mw_budget := 1\<rparr>
    \<and> mp_registry p' = mp_registry p \<and> mp_options p' = opts \<and> mp_initialized p' \<and> mp_desired p' = mp_desired p
    \<and> tells_failure (caught Bad_alloc) (mp_actual p')"
proof -
  let ?p = "with_throws no_frames p"
  let ?q = "?p\<lparr>mp_world := (mp_world ?p)\<lparr>mw_budget := 1\<rparr>\<rparr>"
  have p: "mp_initialized p" "mp_pipeline p = Some (running_pipe base)" "mp_options p = opts" "mw_pending (mp_world p) = None"
    "p_state (running_pipe base) = P_Running"
    using live by (auto simp: media_live_def between_def line_def running_pipe_def)
  have turn: "executor_run 1 (running_pipe base) (mp_world ?q) = (Ret (caught Bad_alloc), failed_pipe base, mp_world ?q)"
    by (rule failing_turn) (simp_all add: p(4))
  let ?f = "p\<lparr>mp_pipeline := Some (failed_pipe base), mp_world := mp_world ?q\<rparr>"
  obtain a where a: "publish_runtime_failure (caught Bad_alloc) ?f = (caught Bad_alloc, ?f\<lparr>mp_actual := a,
        mp_health := omap_put ''pipeline'' \<lparr>hc_status = H_Error, hc_message = st_message (caught Bad_alloc)\<rparr> (mp_health ?f)\<rparr>)"
    "tells_failure (caught Bad_alloc) a"
    using failure_published [of ?f "caught Bad_alloc"] by (auto simp: no_frames_def)
  have "\<not> st_ok (caught Bad_alloc)" by (simp add: caught_def status_msg_def st_ok_def)
  moreover have "encoded_count ?q = 0" using zero by (simp add: encoded_count_or_0)
  moreover obtain m where "unat (maximum_turns opts 1) = Suc m"
    using maximum_turns_exact [of 1 opts] bound by (cases "unat (maximum_turns opts 1)") auto
  ultimately have "media_turns (unat (maximum_turns opts 1)) 1 ?q = apfst (Ret \<circ> Some) (publish_runtime_failure (caught Bad_alloc) ?f)"
    using turn p(2) by (simp del: executor_run.simps One_nat_def)
  moreover have "encoded_count ?p = 0" using zero by (simp add: encoded_count_or_0)
  ultimately have "media_tick 1 ?p = (Ret (caught Bad_alloc), ?f\<lparr>mp_actual := a,
        mp_health := omap_put ''pipeline'' \<lparr>hc_status = H_Error, hc_message = st_message (caught Bad_alloc)\<rparr> (mp_health ?f)\<rparr>)"
    using p a(1) by (simp add: media_tick_def size_max_def Let_def)
  then show ?thesis using p a(2) by simp
qed

text \<open>The platform of the witnesses: up, then failed.\<close>

lemma failed_platform:
  "\<exists>p p'. media_live (\<lambda>_. 4096) 7 ref_options_default 0 0 0 p \<and> encoded_count p = 0
    \<and> published (media_key ''/state'') (mp_desired p) = Some ''running''
    \<and> media_tick 1 (with_throws no_frames p) = (Ret (caught Bad_alloc), p') \<and> mp_pipeline p' = Some (failed_pipe (\<lambda>_. 4096))
    \<and> mp_throws p' = no_frames \<and> tells_failure (caught Bad_alloc) (mp_actual p') \<and> mp_desired p' = mp_desired p
    \<and> encoded_count p' = 0 \<and> errored (\<lambda>_. 4096) 7 ref_options_default (with_throws no_throw p')"
proof -
  obtain p where p: "media_live (\<lambda>_. 4096) 7 ref_options_default 0 0 0 p" "encoded_count p = 0"
    "published (media_key ''/state'') (mp_desired p) = Some ''running''" "mp_registry p = media_registry ref_options_default"
    using media_comes_up [of blank_world "\<lambda>_. 4096" ref_options_default] by (auto simp: blank_world_def)
  obtain p' where p': "media_tick 1 (with_throws no_frames p) = (Ret (caught Bad_alloc), p')"
    "mp_pipeline p' = Some (failed_pipe (\<lambda>_. 4096))" "mp_world p' = (mp_world p)\<lparr>mw_throws := no_frames, mw_budget := 1\<rparr>"
    "mp_registry p' = mp_registry p" "mp_options p' = ref_options_default" "mp_initialized p'" "mp_desired p' = mp_desired p"
    "tells_failure (caught Bad_alloc) (mp_actual p')"
    using failing_media_tick [OF p(1,2)] by (auto simp: ref_options_default_def)
  have "resettable 7 (mp_world (with_throws no_throw p'))"
    using p(1) p'(3)
    by (auto simp: media_live_def between_def line_def resettable_def serving_def encoding_def ref_options_default_def)
  moreover have "p_state (failed_pipe b) = P_Error" "p_drain_order (failed_pipe b) = [0, 1, 2, 3]"
    "map n_hooks (p_nodes (failed_pipe b)) = media_hooks (media_storage_ops b)" for b
    by (simp_all add: failed_pipe_def running_pipe_def media_pipe_def media_hooks_def)
  ultimately have "errored (\<lambda>_. 4096) 7 ref_options_default (with_throws no_throw p')"
    using p(4) p' by (simp add: errored_def)
  then show ?thesis using p(1-3) p' by (auto simp: encoded_count_or_0)
qed

theorem media_failure_visible_witness:
  "\<exists>p p' snapshot v. media_tick 1 (with_throws no_frames p) = (Ret (caught Bad_alloc), p')
    \<and> media_query ''reference0'' p' = Inr snapshot
    \<and> snapshot_get (media_key ''/state'') snapshot = Inr v \<and> as_string v = Inr ''error''
    \<and> published (media_key ''/error/message'') (mp_actual p') = Some ''reference media platform allocation failed''"
proof -
  obtain p p' where p: "media_live (\<lambda>_. 4096) 7 ref_options_default 0 0 0 p"
    "published (media_key ''/state'') (mp_desired p) = Some ''running''"
    "media_tick 1 (with_throws no_frames p) = (Ret (caught Bad_alloc), p')" "mp_pipeline p' = Some (failed_pipe (\<lambda>_. 4096))"
    "mp_throws p' = no_frames"
    using failed_platform by blast
  have "mp_pipeline (with_throws no_frames p) = Some (running_pipe (\<lambda>_. 4096))" "mp_reconciler (with_throws no_frames p)"
    "p_state (running_pipe (\<lambda>_. 4096)) = P_Running" "p_id (running_pipe (\<lambda>_. 4096)) = ''reference0''"
    "p_state (failed_pipe (\<lambda>_. 4096)) = P_Error"
    using p(1) by (simp_all add: media_live_def running_pipe_def failed_pipe_def)
  from media_failure_visible [OF p(3) this(1,3,4) p(4) this(5) _ _ _ this(2)] p
  show ?thesis by (auto simp: no_frames_def caught_def status_msg_def)
qed

theorem media_reset_recovers_witness:
  "\<exists>p p1 p2. errored (\<lambda>_. 4096) 7 ref_options_default p
    \<and> media_reset_pipeline (media_storage_ops (\<lambda>_. 4096)) p = (Ret ok_status, p1)
    \<and> media_ticks [2, 3] p1 = ([Ret ok_status, Ret ok_status], p2) \<and> encoded_count p2 = 5"
proof -
  obtain p p' :: media_platform where p: "published (media_key ''/state'') (mp_desired p) = Some ''running''" "mp_desired p' = mp_desired p"
    "tells_failure (caught Bad_alloc) (mp_actual p')" "encoded_count p' = 0"
    "errored (\<lambda>_. 4096) 7 ref_options_default (with_throws no_throw p')"
    using failed_platform by blast
  have statuses: "map (\<lambda>i. Ret (if delay_of ref_options_default \<le> sum_list (take i [2, 3]) then ok_status else too_few))
      [0..<length [2, 3 :: nat]] = [Ret ok_status, Ret ok_status]"
    by (simp add: ref_options_default_def upt_rec)
  have "encoded_count (with_throws no_throw p') = 0" using p(4) by (simp add: encoded_count_or_0)
  then show ?thesis
    using media_reset_recovers [OF p(5), of "[2, 3]", unfolded statuses] p(1-3,5)
    by (auto simp: tells_failure_def ref_options_default_def)
qed

end
