(* ===== verification/Spec2Isabelle.thy ===== *)
theory Spec2Isabelle
  imports Pipeline_Liveness Control Management Queue_Port Media_Codec Backend_Registry Negotiation
    Capability_Layout Reference_Node Simulated_Invariant Alsa_Stream Event_Loop_Contract V4l2_Stream System_Adapters Reference_Recovery
begin

text \<open>
  A model of EAVP, the embedded audio/video platform, and what can be proved of it. The root holds this
  description; the definitions and the theorems are in the theories named below.

  \<^bold>\<open>The program.\<close> A \<open>MediaPipeline\<close> owns \<open>MediaNode\<close>s that pass frames and packets through bounded
  queues; an executor ticks them in topological order and drains them when it stops. Backends (video
  processors and encoders) are chosen from a registry by negotiating formats with each provider, and
  run inside backend nodes. The control plane keeps a desired and an actual state in versioned stores
  and a reconciler drives the pipeline from one to the other; metrics and health are the management
  plane. On Linux, source nodes capture from ALSA and V4L2, and an event loop over epoll tells which
  pipelines have something to do.

  \<^bold>\<open>Conventions of the model.\<close>
  \<^item> A class is a record of its members, a method a function from the members to the result and the new
    members, an enumeration a datatype. Pointers to objects of another class are indices or identities.
  \<^item> A call that returns gives \<open>Ret\<close>, one that throws \<open>Throw\<close>; a \<open>Result\<close> is a sum, \<open>Inl\<close> the status.
    Allocations that may fail take an oracle \<open>throws\<close> (a function from the places of \<open>Status\<close> that can
    throw to the exception), so that every \<open>catch\<close> of the code is a branch that can be taken.
  \<^item> Virtual functions are arguments: the hooks of a node, the operations of a backend, the services of
    a capture node, libasound, the V4L2 device and the Linux runtime interface. They may answer
    anything and may throw, unless a theorem says what documented behaviour it needs of them.
  \<^item> \<open>std::size_t\<close> and the fixed-width integers are words of 64, 32, 16 and 8 bits, where the code's
    arithmetic can wrap or is checked against it; \<open>int\<close> and \<open>std::int64_t\<close> are integers with the
    bounds written out. Doubles are 64-bit patterns.
  \<^item> \<open>std::map\<close> and \<open>std::set\<close> are sorted lists (\<open>Ordered_Map\<close>), so that iteration has the code's order.

  \<^bold>\<open>Core.\<close>
  \<^item> \<open>Prelude\<close>, \<open>Ordered_Map\<close>, \<open>Status\<close>, \<open>Checked_Arith\<close>: the base of \<open>include/eavp/base\<close>, ordered
    containers, the exceptions and the overflow-checked arithmetic that several files repeat.
  \<^item> \<open>Media_Graph\<close> (\<open>graph.cpp\<close>): edges are accepted exactly when the graph stays simple and acyclic, and
    Kahn's algorithm ends with every node once and every edge in order.
  \<^item> \<open>Media_Node\<close> (\<open>node.cpp\<close>): the life cycle, exact for any hooks. \<open>Queue_Port\<close> (\<open>queue.hpp\<close>,
    \<open>port.hpp\<close>): the three overflow policies and all-or-nothing sending.
  \<^item> \<open>Pipeline\<close> (\<open>pipeline.cpp\<close>, \<open>executor.hpp\<close>); \<open>Pipeline_Correct\<close>: the invariant of every reachable
    pipeline, start, stop, cancel and tick; \<open>Pipeline_World\<close>: what the nodes keep of the world they share,
    the pipeline keeps; \<open>Pipeline_Liveness\<close>: drains end, cancel and the destructor.
  \<^item> \<open>State_Store\<close>, \<open>Control\<close>, \<open>Management\<close> (\<open>src/control\<close>, \<open>src/management\<close>): versions and contents, the
    reconciler as a function of desired and actual state, counters of 64 bits, health.

  \<^bold>\<open>Media data and backends.\<close>
  \<^item> \<open>Ownership\<close> is the interface of move-only owners: in any program of constructions, moves,
    assignments and destructions a resource is released exactly once. \<open>Media_Buffer\<close> (\<open>buffer.cpp\<close>)
    provides it twice, with mapped regions and native handles; planes lie in their storage and share
    no byte.
  \<^item> \<open>Media_Format\<close>, \<open>Media_Codec\<close>: the validation of formats, frames, codec configurations and packets.
  \<^item> \<open>Capability\<close>, \<open>Provider\<close> (\<open>capability.cpp\<close>); \<open>Capability_Layout\<close>: matching a layout is a relation over
    natural numbers in which nothing wraps; \<open>Negotiation\<close>: the formats that negotiation makes are
    accepted. \<open>Backend_Registry\<close>: the provider selected is the best that fits.
  \<^item> \<open>Backend\<close> (\<open>backend.hpp\<close>) states the interface \<open>fifo_device\<close> of processors and encoders;
    \<open>Reference_Backend\<close> and \<open>Reference_Correct\<close> (\<open>reference_backend.cpp\<close>) provide it, with the bytes of
    the packets in the memory of \<open>Byte_Memory\<close>. \<open>Backend_Node\<close>, \<open>Backend_Flow\<close> (\<open>backend_node.cpp\<close>): over
    that interface a node loses no frame; \<open>Reference_Node\<close> puts both together, with the one
    configuration in which an encoder never drains.
  \<^item> \<open>Simulated_Platform\<close>, \<open>Simulated_Invariant\<close> (\<open>simulated_platform.cpp\<close>): the whole stack, from a
    command to the packets counted, and an invariant under every program of its operations.
  \<^item> \<open>Reference_Media\<close> (\<open>reference_media_platform.cpp\<close>): the platform with the reference backends from the
    registry in their nodes, its error reports and its reset. \<open>Reference_Flow\<close>: a turn takes every frame
    one node further, except those the encoder holds back, hence what \<open>tick\<close> returns and counts;
    \<open>Reference_Recovery\<close>: a failure is told until \<open>reset_pipeline\<close>, which brings the platform back.

  \<^bold>\<open>Linux.\<close>
  \<^item> \<open>Posix\<close>, \<open>Capture_Config\<close>: error numbers and types of the kernel, and the capture configurations.
  \<^item> \<open>Alsa_System\<close> (\<open>alsa_system.cpp\<close>), \<open>Alsa_Contract\<close>: handles of libasound are opened, used and given
    back in order. \<open>Alsa_Capture\<close> (\<open>alsa_capture.cpp\<close>), \<open>Alsa_Stream\<close>: frames of a fixed number of
    samples whose time stamps do not drift.
  \<^item> \<open>V4l2_System\<close> (\<open>v4l2_system.cpp\<close>), \<open>V4l2_Contract\<close>: descriptor, mappings and kernel buffers.
    \<open>V4l2_Capture\<close> (\<open>v4l2_capture.cpp\<close>), \<open>V4l2_Copy\<close>: the bytes of a captured frame; \<open>V4l2_Stream\<close>: every
    buffer goes back to the kernel.
  \<^item> \<open>Event_Loop\<close> (\<open>linux_event_loop.cpp\<close>), \<open>Event_Loop_Contract\<close>: descriptors closed once, and the kernel's
    interest list agrees with the registered sources.

  \<^item> \<open>Platform_Runtime\<close> (\<open>platform_runtime.cpp\<close>): what the reactor thread and its callers do between two
    critical sections, over any event loop, pipelines and observer; \<open>Runtime_Threads\<close>: the protected
    fields and the interleaving of the threads, a step relation in which a waiting thread has no step.
    \<open>Runtime_Reactor\<close>: the reactor keeps the pipelines' invariant and leaves none running;
    \<open>Runtime_Safety\<close>: the invariant of every interleaving; \<open>Runtime_Progress\<close>: drains end under a clock that
    does not go back, no thread is stuck, and a run through start and stop.

  \<^item> \<open>System_Adapters\<close> (\<open>linux_runtime_api.cpp\<close>, \<open>v4l2_linux_api.cpp\<close>): the system calls behind the
    parameters of the event loop, the runtime and the V4L2 device; an error belongs to the thread and
    the call that got it, and the kernel's monotonic clock gives the one that ends the runtime's drains.

  The Linux contracts are proved over a record of the calls with their answers: a function reads the
  record as the kernel or the library does, and is undefined on a call that is not allowed.

  \<^bold>\<open>Bounds.\<close> The code's own bounds are the model's: 64 attempts for an interrupted open, ioctl or wait,
  as recursion over the attempts left; the loops of a pipeline's drain, of Kahn's algorithm and of the
  conversion of numbers to text end by a measure. The drain of the runtime, which ends by the clock, is
  a partial function, proved to have a value. No definition has fuel of its own.

  \<^bold>\<open>Not modelled.\<close>
  \<^item> \<open>alsa_lib_api.cpp\<close>: one call of libasound per function; the parameter of the ALSA model stands for it.
  \<^item> Running out of memory while the text of a status is built, mutexes around whole operations of the
    stores and registries, the dependency injection and the hooks of the tests, and failures of the
    mutex and of joining a thread in the runtime.
  \<^item> Tests and examples.
\<close>

end
